(* ===== verification/Prelude.thy ===== *)
theory Prelude
  imports Main "HOL-Library.Word" "HOL-Library.Sublist" "HOL-Library.Monad_Syntax"
begin

unbundle bit_operations_syntax

text \<open>
  Shared vocabulary of the development: bytes and C character arrays with checked reads and
  writes, the copy routines of the C library over them, NUL-terminated strings and the string
  comparisons the daemon uses, little-endian integer fields, and the generic facts about lists
  that the component theories share. An access outside its array is \<open>None\<close>: the code's
  behaviour is undefined there, and no theorem of the development gives it a value.
\<close>

named_theorems mem_simps \<open>closed forms of the array accesses and copies\<close>
named_theorems str_simps \<open>evaluation of the C string functions\<close>

section \<open>Bytes and arrays\<close>

type_synonym byte = "8 word"
type_synonym mem = "byte list"

text \<open>A string literal of the source as its bytes, without the terminating NUL.\<close>

definition cs :: "string \<Rightarrow> byte list" where
  "cs s = map of_char s"

lemma cs_simps [simp, str_simps]:
  "cs [] = []" "cs (c # s) = of_char c # cs s"
  by (simp_all add: cs_def)

lemma length_cs [simp]: "length (cs s) = length s"
  by (simp add: cs_def)

definition rd :: "mem \<Rightarrow> nat \<Rightarrow> byte option" where
  "rd m i = (if i < length m then Some (m ! i) else None)"

definition wr :: "mem \<Rightarrow> nat \<Rightarrow> byte \<Rightarrow> mem option" where
  "wr m i b = (if i < length m then Some (m[i := b]) else None)"

lemma rd_Some [mem_simps]: "i < length m \<Longrightarrow> rd m i = Some (m ! i)"
  by (simp add: rd_def)

lemma rd_eq_Some: "rd m i = Some b \<longleftrightarrow> i < length m \<and> b = m ! i"
  by (auto simp: rd_def)

lemma wr_Some [mem_simps]: "i < length m \<Longrightarrow> wr m i b = Some (m[i := b])"
  by (simp add: wr_def)

lemma wr_eq_Some: "wr m i b = Some m' \<longleftrightarrow> i < length m \<and> m' = m[i := b]"
  by (auto simp: wr_def)

lemma wr_length: "wr m i b = Some m' \<Longrightarrow> length m' = length m"
  by (auto simp: wr_eq_Some)

text \<open>\<open>memcpy(m + off, bs, n)\<close> with \<open>n\<close> the length of \<open>bs\<close>.\<close>

definition put :: "mem \<Rightarrow> nat \<Rightarrow> byte list \<Rightarrow> mem option" where
  "put m off bs =
     (if off + length bs \<le> length m
      then Some (take off m @ bs @ drop (off + length bs) m) else None)"

text \<open>The \<open>n\<close> bytes at \<open>m + off\<close>.\<close>

definition get :: "mem \<Rightarrow> nat \<Rightarrow> nat \<Rightarrow> byte list option" where
  "get m off n = (if off + n \<le> length m then Some (take n (drop off m)) else None)"

text \<open>\<open>memmove(m + dst, m + src, n)\<close> inside one array.\<close>

definition memmv :: "mem \<Rightarrow> nat \<Rightarrow> nat \<Rightarrow> nat \<Rightarrow> mem option" where
  "memmv m dst src n = do { bs \<leftarrow> get m src n; put m dst bs }"

lemma put_length: "put m off bs = Some m' \<Longrightarrow> length m' = length m"
  by (auto simp: put_def split: if_splits)

lemma put_nth:
  assumes "put m off bs = Some m'" and "i < length m"
  shows "m' ! i = (if off \<le> i \<and> i < off + length bs then bs ! (i - off) else m ! i)"
  using assms by (auto simp: put_def nth_append split: if_splits)

lemma put_append [mem_simps]:
  "length bs = length xs \<Longrightarrow> put (pre @ xs @ post) (length pre) bs = Some (pre @ bs @ post)"
  by (simp add: put_def)

lemma put_0 [mem_simps]:
  "length bs \<le> length m \<Longrightarrow> put m 0 bs = Some (bs @ drop (length bs) m)"
  by (simp add: put_def)

lemma get_append [mem_simps]: "get (pre @ xs @ post) (length pre) (length xs) = Some xs"
  by (simp add: get_def)

lemma get_pre: "n = length pre \<Longrightarrow> k = length xs \<Longrightarrow> get (pre @ xs @ post) n k = Some xs"
  by (simp add: get_def)

lemma get_length: "get m off n = Some bs \<Longrightarrow> length bs = n"
  by (auto simp: get_def split: if_splits)

lemma get_put:
  assumes "put m off bs = Some m'"
  shows "get m' off (length bs) = Some bs"
  using assms by (auto simp: put_def get_def split: if_splits)

lemma get_put_disjoint:
  assumes p: "put m off bs = Some m'" and d: "a + n \<le> off \<or> off + length bs \<le> a"
  shows "get m' a n = get m a n"
proof (cases "a + n \<le> length m")
  case True
  have l: "length m' = length m" using p by (rule put_length)
  have "take n (drop a m') = take n (drop a m)"
  proof (rule nth_equalityI)
    show "length (take n (drop a m')) = length (take n (drop a m))" by (simp add: l)
    fix i assume "i < length (take n (drop a m'))"
    then have i: "i < n" "a + i < length m" using l by auto
    then show "take n (drop a m') ! i = take n (drop a m) ! i"
      using d put_nth [OF p, of "a + i"] l by auto
  qed
  then show ?thesis by (simp add: get_def l)
next
  case False
  then show ?thesis using put_length [OF p] by (simp add: get_def)
qed

lemma memmv_length: "memmv m d s n = Some m' \<Longrightarrow> length m' = length m"
  by (auto simp: memmv_def put_length split: bind_splits)

text \<open>An array of \<open>n\<close> bytes that starts with \<open>bs\<close> and is zero after it
  (\<open>memset\<close> followed by a read).\<close>

definition zfill :: "nat \<Rightarrow> byte list \<Rightarrow> mem" where
  "zfill n bs = bs @ replicate (n - length bs) 0"

lemma length_zfill: "length bs \<le> n \<Longrightarrow> length (zfill n bs) = n"
  by (simp add: zfill_def)

lemma take_zfill [simp]: "take (length bs) (zfill n bs) = bs"
  by (simp add: zfill_def)

section \<open>C strings\<close>

text \<open>
  \<open>cstr_at m off\<close> is the string the pointer \<open>m + off\<close> denotes: the bytes before the
  first NUL. Without a NUL the code reads past the array.
\<close>

definition cstr_at :: "mem \<Rightarrow> nat \<Rightarrow> byte list option" where
  "cstr_at m off =
     (if off \<le> length m \<and> 0 \<in> set (drop off m)
      then Some (takeWhile (\<lambda>b. b \<noteq> 0) (drop off m)) else None)"

lemma cstr_at_zfill:
  assumes "0 \<notin> set bs" and "length bs < n"
  shows "cstr_at (zfill n bs) 0 = Some bs"
proof -
  obtain k where k: "n - length bs = Suc k" using assms(2) by (metis Suc_diff_Suc)
  have "takeWhile (\<lambda>b. b \<noteq> 0) (bs @ 0 # replicate k 0) = bs"
    by (subst takeWhile_append2) (use assms(1) in auto)
  then show ?thesis by (simp add: cstr_at_def zfill_def k)
qed

lemma cstr_at_no_nul: "cstr_at m off = Some s \<Longrightarrow> 0 \<notin> set s"
  by (auto simp: cstr_at_def split: if_splits dest: set_takeWhileD)

lemma length_takeWhile_less: "x \<in> set xs \<Longrightarrow> \<not> P x \<Longrightarrow> length (takeWhile P xs) < length xs"
  by (induction xs) auto

lemma cstr_at_length: "cstr_at m off = Some s \<Longrightarrow> off + length s < length m"
  using length_takeWhile_less [of 0 "drop off m" "\<lambda>b. b \<noteq> 0"]
  by (auto simp: cstr_at_def split: if_splits)

lemma cstr_at_take: "cstr_at m 0 = Some s \<Longrightarrow> take (length s) m = s"
  using takeWhile_eq_take [of "\<lambda>b. b \<noteq> 0" m]
  by (auto simp: cstr_at_def split: if_splits)

definition lower :: "byte \<Rightarrow> byte" where
  "lower b = (if 65 \<le> b \<and> b \<le> 90 then b + 32 else b)"

lemma lower_lower [simp]: "lower (lower b) = lower b"
proof (cases "65 \<le> b \<and> b \<le> 90")
  case True
  then have "65 \<le> unat b" "unat b \<le> 90" by (simp_all add: word_le_nat_alt)
  then have "unat (b + 32) = unat b + 32" by (simp add: unat_word_ariths)
  then have "\<not> b + 32 \<le> 90" using \<open>65 \<le> unat b\<close> by (simp add: word_le_nat_alt)
  then show ?thesis using True by (simp add: lower_def)
qed (auto simp: lower_def)

text \<open>\<open>strcasecmp(s, t) == 0\<close>, \<open>strncasecmp(s, t, n) == 0\<close> and
  \<open>strncmp(s, t, n) == 0\<close> on strings without their NULs.\<close>

definition strcaseeq :: "byte list \<Rightarrow> byte list \<Rightarrow> bool" where
  "strcaseeq s t \<longleftrightarrow> map lower s = map lower t"

definition strncaseeq :: "nat \<Rightarrow> byte list \<Rightarrow> byte list \<Rightarrow> bool" where
  "strncaseeq n s t \<longleftrightarrow> map lower (take n s) = map lower (take n t)"

definition strneq :: "nat \<Rightarrow> byte list \<Rightarrow> byte list \<Rightarrow> bool" where
  "strneq n s t \<longleftrightarrow> take n s = take n t"

lemma strcaseeq_refl [simp]: "strcaseeq s s"
  by (simp add: strcaseeq_def)

lemma strcaseeq_sym: "strcaseeq s t \<Longrightarrow> strcaseeq t s"
  by (simp add: strcaseeq_def)

lemma strcaseeq_trans: "strcaseeq s t \<Longrightarrow> strcaseeq t u \<Longrightarrow> strcaseeq s u"
  by (simp add: strcaseeq_def)

text \<open>\<open>strstr\<close> returns a pointer into the haystack: here the suffix that starts there.\<close>

fun strstr :: "byte list \<Rightarrow> byte list \<Rightarrow> byte list option" where
  "strstr [] n = (if n = [] then Some [] else None)"
| "strstr (c # h) n = (if prefix n (c # h) then Some (c # h) else strstr h n)"

definition strcasestr :: "byte list \<Rightarrow> byte list \<Rightarrow> byte list option" where
  "strcasestr h n = strstr (map lower h) (map lower n)"

fun strchr :: "byte list \<Rightarrow> byte \<Rightarrow> byte list option" where
  "strchr [] c = None"
| "strchr (b # bs) c = (if b = c then Some (b # bs) else strchr bs c)"

lemma strstr_Some: "strstr h n = Some s \<Longrightarrow> prefix n s \<and> suffix s h"
  by (induction h) (auto split: if_splits intro: suffix_ConsI)

lemma strstr_iff: "strstr h n \<noteq> None \<longleftrightarrow> sublist n h"
  by (induction h) (auto simp: sublist_Cons_right)

text \<open>\<open>printf\<close>'s \<open>%d\<close>, and \<open>sprintf\<close> of a finished text into an array.\<close>

fun show_nat :: "nat \<Rightarrow> byte list" where
  "show_nat n = (if n < 10 then [of_nat (48 + n)] else show_nat (n div 10) @ [of_nat (48 + n mod 10)])"

declare show_nat.simps [simp del]

lemma show_nat_digit: "n < 10 \<Longrightarrow> show_nat n = [of_nat (48 + n)]"
  by (subst show_nat.simps) simp

definition show_int :: "int \<Rightarrow> byte list" where
  "show_int i = (if i < 0 then 45 # show_nat (nat (- i)) else show_nat (nat i))"

definition sprintf :: "mem \<Rightarrow> byte list \<Rightarrow> mem option" where
  "sprintf m s = put m 0 (s @ [0])"

lemma sprintf_cstr: "sprintf m s = Some m' \<Longrightarrow> 0 \<notin> set s \<Longrightarrow> cstr_at m' 0 = Some s"
  by (auto simp: sprintf_def put_def cstr_at_def takeWhile_append split: if_splits)

section \<open>Little-endian integer fields\<close>

text \<open>The bytes a little-endian store of an unsigned field writes, and the values read back;
  the conversion to \<open>byte\<close> keeps the low eight bits, as the casts do.\<close>

definition le16 :: "nat \<Rightarrow> byte list" where
  "le16 n = [of_nat n, of_nat (n div 256)]"

definition le32 :: "nat \<Rightarrow> byte list" where
  "le32 n = [of_nat n, of_nat (n div 256), of_nat (n div 65536), of_nat (n div 16777216)]"

definition de16 :: "byte list \<Rightarrow> nat" where
  "de16 bs = unat (bs ! 0) + 256 * unat (bs ! 1)"

definition de32 :: "byte list \<Rightarrow> nat" where
  "de32 bs = unat (bs ! 0) + 256 * unat (bs ! 1) + 65536 * unat (bs ! 2)
     + 16777216 * unat (bs ! 3)"

lemma unat_of_nat_byte [simp]: "unat (of_nat n :: byte) = n mod 256"
  by (simp add: unat_of_nat)

lemma length_le16 [simp]: "length (le16 n) = 2" by (simp add: le16_def)
lemma length_le32 [simp]: "length (le32 n) = 4" by (simp add: le32_def)

lemma de16_le16: "de16 (le16 n) = n mod 65536"
proof -
  have "n mod 65536 = n mod 256 + 256 * (n div 256 mod 256)"
    using mod_mult2_eq [of n 256 256] by simp
  then show ?thesis by (simp add: de16_def le16_def)
qed

lemma de32_le32: "de32 (le32 n) = n mod 4294967296"
proof -
  have "n mod 4294967296 = n mod 65536 + 65536 * (n div 65536 mod 65536)"
    using mod_mult2_eq [of n 65536 65536] by simp
  moreover have "n mod 65536 = n mod 256 + 256 * (n div 256 mod 256)"
    using mod_mult2_eq [of n 256 256] by simp
  moreover have "n div 65536 mod 65536
      = n div 65536 mod 256 + 256 * (n div 16777216 mod 256)"
    using mod_mult2_eq [of "n div 65536" 256 256] by (simp add: div_mult2_eq [symmetric])
  ultimately show ?thesis by (simp add: de32_def le32_def)
qed

lemma de16_bound: "de16 bs < 65536"
proof -
  have "unat (bs ! 0) < 256" "unat (bs ! 1) < 256"
    using unsigned_less [of "bs ! 0"] unsigned_less [of "bs ! 1"] by simp_all
  then show ?thesis by (simp add: de16_def)
qed

section \<open>Generic list facts\<close>

text \<open>Folds the successor towers that \<open>length\<close> of a concrete list produces into a numeral.\<close>

lemma suc2: "Suc (Suc 0) = 2"
  by simp

lemma drop_Suc_update: "drop (Suc i) (xs[i := x]) = drop (Suc i) xs"
  by simp

lemma nth_mid [simp]: "(pre @ x # post) ! length pre = x"
  by (simp add: nth_append)

lemma update_mid [simp]: "(pre @ x # post)[length pre := y] = pre @ y # post"
  by (simp add: list_update_append)

lemma find_append: "List.find P (xs @ ys) =
    (case List.find P xs of None \<Rightarrow> List.find P ys | Some x \<Rightarrow> Some x)"
  by (induction xs) auto

end
