(* ===== verification/Base.thy ===== *)
theory Base
  imports Prelude
begin

text \<open>
  The enumerations of \<open>server/include\<close> (\<open>dev.h\<close>, \<open>channel.h\<close>, \<open>frame.h\<close>, \<open>modules.h\<close>,
  \<open>sprd_fts_type.h\<close>) and the conversions of \<open>CBase\<close> between their values and the words of the
  configuration files. Every conversion is total: an unknown word gives the \<open>UNKNOWN\<close> value.
\<close>

datatype DATA_TYPE =
    DATA_AT | DATA_LOG | DATA_DIAG | DATA_WCN_AT | DATA_WCN_DIAG
  | DATA_AGDSP_LOG | DATA_AGDSP_PCM | DATA_AGDSP_MEM | DATA_AGDSP_MIX | DATA_TYPE_UNKNOWN

datatype PORT_TYPE =
    PORT_VSER | PORT_GSER | PORT_SOCK | PORT_COM | PORT_CHR | PORT_INTERFACE
  | PORT_LOOP | PORT_UNKNOWN

datatype WORK_MODE = WORK_MODE_F | WORK_MODE_S | WORK_MODE_UNKNOW

datatype FRAME_TYPE = FRAME_COMPLETE | FRAME_HALF_CONTINUE | FRAME_INVALID | FRAME_UNKNOWN

datatype DYMIC_RET =
    DYMIC_RET_NO_DEAL | DYMIC_RET_DEAL_SUCCESS | DYMIC_RET_ALSO_NEED_TO_CP
  | DYMIC_RET_NO_RESPONSE_TO_PC | DYMIC_RET_ENCODE_TO_DEST

definition ENG_DIAG_NO_RESPONSE :: int where "ENG_DIAG_NO_RESPONSE = - 255"
definition ENG_DIAG_RET_UNSUPPORT :: int where "ENG_DIAG_RET_UNSUPPORT = - 256"

text \<open>The C values of the port types, which \<open>CPort::open\<close> compares with \<open>>\<close>.\<close>

fun port_type_val :: "PORT_TYPE \<Rightarrow> nat" where
  "port_type_val PORT_VSER = 0"
| "port_type_val PORT_GSER = 1"
| "port_type_val PORT_SOCK = 2"
| "port_type_val PORT_COM = 3"
| "port_type_val PORT_CHR = 4"
| "port_type_val PORT_INTERFACE = 5"
| "port_type_val PORT_LOOP = 6"
| "port_type_val PORT_UNKNOWN = 7"

section \<open>Conversions of \<open>CBase\<close>\<close>

definition str2PortType :: "byte list \<Rightarrow> PORT_TYPE" where
  "str2PortType str =
     (if strcaseeq str (cs ''VSER'') then PORT_VSER
      else if strcaseeq str (cs ''GSER'') then PORT_GSER
      else if strcaseeq str (cs ''SOCK'') then PORT_SOCK
      else if strcaseeq str (cs ''COM'') then PORT_COM
      else if strcaseeq str (cs ''CHR'') then PORT_CHR
      else if strcaseeq str (cs ''INTERFACE'') then PORT_INTERFACE
      else if strcaseeq str (cs ''LOOP'') then PORT_LOOP
      else PORT_UNKNOWN)"

fun PortType2str :: "PORT_TYPE \<Rightarrow> byte list" where
  "PortType2str PORT_VSER = cs ''VSER''"
| "PortType2str PORT_GSER = cs ''GSER''"
| "PortType2str PORT_SOCK = cs ''SOCK''"
| "PortType2str PORT_COM = cs ''COM''"
| "PortType2str PORT_CHR = cs ''CHR''"
| "PortType2str PORT_INTERFACE = cs ''INTERFACE''"
| "PortType2str PORT_LOOP = cs ''LOOP''"
| "PortType2str PORT_UNKNOWN = cs ''PORT_UNKNOWN''"

definition str2DataType :: "byte list \<Rightarrow> DATA_TYPE" where
  "str2DataType str =
     (if strcaseeq str (cs ''DATA_DIAG'') then DATA_DIAG
      else if strcaseeq str (cs ''DATA_AT'') then DATA_AT
      else if strcaseeq str (cs ''DATA_LOG'') then DATA_LOG
      else if strcaseeq str (cs ''DATA_WCN_DIAG'') then DATA_WCN_DIAG
      else if strcaseeq str (cs ''DATA_WCN_AT'') then DATA_WCN_AT
      else if strcaseeq str (cs ''DATA_AGDSP_LOG'') then DATA_AGDSP_LOG
      else if strcaseeq str (cs ''DATA_AGDSP_PCM'') then DATA_AGDSP_PCM
      else if strcaseeq str (cs ''DATA_AGDSP_MEM'') then DATA_AGDSP_MEM
      else if strcaseeq str (cs ''DATA_AGDSP_MIX'') then DATA_AGDSP_MIX
      else DATA_TYPE_UNKNOWN)"

fun DataType2str :: "DATA_TYPE \<Rightarrow> byte list" where
  "DataType2str DATA_DIAG = cs ''DATA_DIAG''"
| "DataType2str DATA_AT = cs ''DATA_AT''"
| "DataType2str DATA_LOG = cs ''DATA_LOG''"
| "DataType2str DATA_WCN_DIAG = cs ''DATA_WCN_DIAG''"
| "DataType2str DATA_WCN_AT = cs ''DATA_WCN_AT''"
| "DataType2str DATA_AGDSP_LOG = cs ''DATA_AGDSP_LOG''"
| "DataType2str DATA_AGDSP_PCM = cs ''DATA_AGDSP_PCM''"
| "DataType2str DATA_AGDSP_MEM = cs ''DATA_AGDSP_MEM''"
| "DataType2str DATA_AGDSP_MIX = cs ''DATA_AGDSP_MIX''"
| "DataType2str DATA_TYPE_UNKNOWN = cs ''DATA_TYPE_UNKNOWN''"

definition str2act :: "byte list \<Rightarrow> WORK_MODE" where
  "str2act act =
     (if strcaseeq act (cs ''F'') then WORK_MODE_F
      else if strcaseeq act (cs ''S'') then WORK_MODE_S
      else WORK_MODE_UNKNOW)"

fun act2str :: "WORK_MODE \<Rightarrow> byte list" where
  "act2str WORK_MODE_F = cs ''F''"
| "act2str WORK_MODE_S = cs ''S''"
| "act2str WORK_MODE_UNKNOW = cs ''unknown''"

text \<open>
  \<open>atoi\<close>: white space, an optional sign, then decimal digits up to the first other
  character. Values past \<open>INT_MAX\<close> are undefined in C; the model does not wrap them.
\<close>

definition is_space :: "byte \<Rightarrow> bool" where
  "is_space b \<longleftrightarrow> b = 32 \<or> (9 \<le> b \<and> b \<le> 13)"

definition is_digit :: "byte \<Rightarrow> bool" where
  "is_digit b \<longleftrightarrow> 48 \<le> b \<and> b \<le> 57"

definition digits_val :: "byte list \<Rightarrow> int" where
  "digits_val bs = foldl (\<lambda>n b. 10 * n + (int (unat b) - 48)) 0 (takeWhile is_digit bs)"

definition atoi :: "byte list \<Rightarrow> int" where
  "atoi s =
     (case dropWhile is_space s of
        [] \<Rightarrow> 0
      | b # bs \<Rightarrow>
          if b = 45 then - digits_val bs
          else if b = 43 then digits_val bs
          else digits_val (b # bs))"

text \<open>A configuration field that is absent is a null pointer.\<close>

definition str2enable :: "byte list option \<Rightarrow> int" where
  "str2enable enable =
     (case enable of
        None \<Rightarrow> 0
      | Some s \<Rightarrow> if atoi s > 0 then 1 else 0)"

definition str2approcess :: "byte list option \<Rightarrow> int" where
  "str2approcess ap_process = str2enable ap_process"

section \<open>Facts\<close>

lemmas str2_defs = str2PortType_def str2DataType_def str2act_def

lemma str2enable_01: "str2enable e = 0 \<or> str2enable e = 1"
  by (simp add: str2enable_def split: option.split)

lemma str2approcess_01: "str2approcess e = 0 \<or> str2approcess e = 1"
  by (simp add: str2approcess_def str2enable_01)

lemma strcaseeq_str2PortType: "strcaseeq s t \<Longrightarrow> str2PortType s = str2PortType t"
  by (simp add: str2PortType_def strcaseeq_def)

lemma strcaseeq_str2DataType: "strcaseeq s t \<Longrightarrow> str2DataType s = str2DataType t"
  by (simp add: str2DataType_def strcaseeq_def)

lemma strcaseeq_str2act: "strcaseeq s t \<Longrightarrow> str2act s = str2act t"
  by (simp add: str2act_def strcaseeq_def)

lemma str2PortType_PortType2str: "str2PortType (PortType2str t) = t"
  by (cases t) (simp_all add: str2PortType_def str2DataType_def strcaseeq_def lower_def)

lemma str2DataType_DataType2str: "str2DataType (DataType2str t) = t"
  by (cases t) (simp_all add: str2PortType_def str2DataType_def strcaseeq_def lower_def)

lemma str2act_act2str: "str2act (act2str m) = m"
  by (cases m) (simp_all add: str2act_def strcaseeq_def lower_def)

text \<open>(type names): the words the daemon prints for a port type, a data type and a work mode
  are read back as the same value in any letter case, so configuration files and logs agree.\<close>

theorem type_names_roundtrip:
  "str2PortType (map lower (PortType2str t)) = t
   \<and> str2DataType (map lower (DataType2str d)) = d
   \<and> str2act (map lower (act2str m)) = m
   \<and> str2PortType (PortType2str t) = t
   \<and> str2DataType (DataType2str d) = d
   \<and> str2act (act2str m) = m"
proof -
  have low: "strcaseeq (map lower s) s" for s :: "byte list"
    by (simp add: strcaseeq_def)
  show ?thesis
    using strcaseeq_str2PortType [OF low] strcaseeq_str2DataType [OF low] strcaseeq_str2act [OF low]
    by (simp add: str2PortType_PortType2str str2DataType_DataType2str str2act_act2str)
qed

end
