(* ===== verification/Stuffing.thy ===== *)
theory Stuffing
  imports Prelude
begin

text \<open>
  The byte stuffing of the diag protocol, and the interface its users rely on. A frame is a flag
  byte \<open>7E\<close>, the escaped payload and a second flag. This theory holds the list-level functions
  that the loops of \<open>CProtolDiag\<close> and \<open>translate_packet\<close> are proved to compute, the locale
  \<open>framing\<close> with the laws such a coding owes its users, and its interpretation.
\<close>

abbreviation FLAG :: byte where "FLAG \<equiv> 0x7E"
abbreviation ESC :: byte where "ESC \<equiv> 0x7D"

definition special :: "byte \<Rightarrow> bool" where
  "special b \<longleftrightarrow> b = 0x7D \<or> b = 0x7E"

definition esc_byte :: "byte \<Rightarrow> byte list" where
  "esc_byte b = (if special b then [0x7D, b XOR 0x20] else [b])"

definition escape :: "byte list \<Rightarrow> byte list" where
  "escape bs = concat (map esc_byte bs)"

fun unescape :: "byte list \<Rightarrow> byte list" where
  "unescape [] = []"
| "unescape [b] = [b]"
| "unescape (b # c # bs) =
     (if special b then (c XOR 0x20) # unescape bs else b # unescape (c # bs))"

definition frame :: "byte list \<Rightarrow> byte list" where
  "frame bs = [0x7E] @ escape bs @ [0x7E]"

text \<open>The number of bytes a payload grows by.\<close>

definition nspecial :: "byte list \<Rightarrow> nat" where
  "nspecial bs = length (filter special bs)"

lemma escape_simps [simp]:
  "escape [] = []" "escape (b # bs) = esc_byte b @ escape bs"
  by (simp_all add: escape_def)

lemma escape_append [simp]: "escape (xs @ ys) = escape xs @ escape ys"
  by (simp add: escape_def)

lemma nspecial_simps [simp]:
  "nspecial [] = 0"
  "nspecial (b # bs) = (if special b then Suc (nspecial bs) else nspecial bs)"
  by (simp_all add: nspecial_def)

lemma nspecial_le: "nspecial bs \<le> length bs"
  by (simp add: nspecial_def)

lemma length_escape: "length (escape bs) = length bs + nspecial bs"
  by (induction bs) (auto simp: esc_byte_def)

lemma special_xor: "special b \<Longrightarrow> b XOR 0x20 = 0x5D \<or> b XOR 0x20 = 0x5E"
  by (auto simp: special_def)

lemma special_xor_neq: "special b \<Longrightarrow> \<not> special (b XOR 0x20)"
  by (auto simp: special_def)

lemma special_consts [simp]: "special 0x7D" "special 0x7E"
  by (simp_all add: special_def)

lemma xor_xor_cancel [simp]: "(b XOR c) XOR c = (b :: byte)"
  by (simp add: xor.assoc)

lemma flag_notin_escape [simp]: "0x7E \<notin> set (escape bs)"
  by (induction bs) (auto simp: esc_byte_def special_def dest: special_xor)

lemma unescape_special: "special b \<Longrightarrow> unescape (b # c # bs) = (c XOR 0x20) # unescape bs"
  by simp

lemma unescape_plain: "\<not> special b \<Longrightarrow> unescape (b # bs) = b # unescape bs"
  by (cases bs) auto

lemma unescape_escape_append: "unescape (escape bs @ ys) = bs @ unescape ys"
proof (induction bs)
  case (Cons b bs)
  then show ?case
    by (cases "special b") (simp_all add: esc_byte_def unescape_plain)
qed simp

lemma unescape_escape: "unescape (escape bs) = bs"
  using unescape_escape_append [of bs "[]"] by simp

section \<open>The interface: a self-delimiting coding\<close>

text \<open>
  A receiver finds frames by their flags, so a coding has to keep the flag out of the coded
  payload and to be undone by its decoder. \<open>split_frames\<close> is what such a receiver does: the
  non-empty runs between flags.
\<close>

fun split_on :: "'a \<Rightarrow> 'a list \<Rightarrow> 'a list \<Rightarrow> 'a list list" where
  "split_on f acc [] = (if acc = [] then [] else [acc])"
| "split_on f acc (x # xs) =
     (if x = f then (if acc = [] then split_on f [] xs else acc # split_on f [] xs)
      else split_on f (acc @ [x]) xs)"

lemma split_on_run:
  "f \<notin> set xs \<Longrightarrow> split_on f acc (xs @ ys) = split_on f (acc @ xs) ys"
  by (induction xs arbitrary: acc) auto

locale framing =
  fixes enc :: "'a list \<Rightarrow> 'a list"
    and dec :: "'a list \<Rightarrow> 'a list"
    and flag :: 'a
  assumes dec_enc: "dec (enc xs) = xs"
    and flag_free: "flag \<notin> set (enc xs)"
    and enc_nonempty: "xs \<noteq> [] \<Longrightarrow> enc xs \<noteq> []"
begin

lemma enc_inj: "enc xs = enc ys \<longleftrightarrow> xs = ys"
  by (metis dec_enc)

lemma frame_inj: "flag # enc xs @ [flag] = flag # enc ys @ [flag] \<longleftrightarrow> xs = ys"
  by (simp add: enc_inj)

lemma split_one:
  "xs \<noteq> [] \<Longrightarrow> split_on flag [] (flag # enc xs @ flag # rest) = enc xs # split_on flag [] rest"
  using split_on_run [OF flag_free, of "[]" xs "flag # rest"] enc_nonempty by simp

text \<open>Any sequence of non-empty payloads is recovered from the concatenation of its frames.\<close>

lemma stream_recovered:
  "[] \<notin> set ps \<Longrightarrow>
   map dec (split_on flag [] (concat (map (\<lambda>p. flag # enc p @ [flag]) ps))) = ps"
proof (induction ps)
  case (Cons p ps)
  then have "split_on flag [] (flag # enc p @ flag # concat (map (\<lambda>p. flag # enc p @ [flag]) ps))
      = enc p # split_on flag [] (concat (map (\<lambda>p. flag # enc p @ [flag]) ps))"
    by (intro split_one) auto
  with Cons show ?case by (simp add: dec_enc)
qed simp

end

interpretation stuffing: framing escape unescape "0x7E"
proof
  show "unescape (escape xs) = xs" for xs by (rule unescape_escape)
  show "0x7E \<notin> set (escape xs)" for xs by simp
  show "escape xs \<noteq> []" if "xs \<noteq> []" for xs
    using that by (cases xs) (auto simp: esc_byte_def)
qed

lemma frame_eq_iff: "frame xs = frame ys \<longleftrightarrow> xs = ys"
  using stuffing.frame_inj by (simp add: frame_def)

lemma length_frame: "length (frame bs) = length bs + nspecial bs + 2"
  by (simp add: frame_def length_escape)

end
