(* ===== verification/Protol.thy ===== *)
theory Protol
  imports Base Stuffing
begin

text \<open>
  The state of a transfer object (\<open>CTrans\<close> and the members its subclasses \<open>CProtolDiag\<close> and
  \<open>CProtolSmp\<close> add), the header of a diag message (\<open>sprd_fts_diag.h\<close>), and the array loops
  that the protocol classes share. Ports are named by their index in the port table.
\<close>

text \<open>Which subclass of \<open>CTrans\<close> an object is: it selects the virtual functions.\<close>

datatype trans_kind = KDiag | KAT | KLog | KAgdsp

record ctrans =
  m_kind :: trans_kind
  m_name :: "byte list"
  m_lpPortSrc :: nat
  m_lpPortDst :: nat
  m_dataType :: DATA_TYPE
  m_apProcess :: int
  m_retType :: DYMIC_RET
  m_frameType :: FRAME_TYPE
  m_nDiagAT :: bool
  m_bPending :: bool
  m_iCurFrameType :: FRAME_TYPE
  m_sn :: int

text \<open>The constructors followed by \<open>CTrans::init\<close>.\<close>

definition trans_init ::
  "trans_kind \<Rightarrow> byte list \<Rightarrow> nat \<Rightarrow> nat \<Rightarrow> DATA_TYPE \<Rightarrow> int \<Rightarrow> ctrans" where
  "trans_init k name src dst dataType apProcess =
     \<lparr>m_kind = k, m_name = name, m_lpPortSrc = src, m_lpPortDst = dst,
      m_dataType = dataType, m_apProcess = apProcess,
      m_retType = DYMIC_RET_NO_DEAL, m_frameType = FRAME_COMPLETE,
      m_nDiagAT = False, m_bPending = False, m_iCurFrameType = FRAME_INVALID, m_sn = 0\<rparr>"

section \<open>The message header\<close>

record msg_head =
  seq_num :: nat
  head_len :: nat
  head_type :: byte
  head_subtype :: byte

text \<open>\<open>sizeof(MSG_HEAD_T)\<close>: the structure is packed.\<close>

definition MSG_HEAD_SIZE :: nat where "MSG_HEAD_SIZE = 8"

definition head_bytes :: "msg_head \<Rightarrow> byte list" where
  "head_bytes h = le32 (seq_num h) @ le16 (head_len h) @ [head_type h, head_subtype h]"

definition read_head :: "mem \<Rightarrow> nat \<Rightarrow> msg_head option" where
  "read_head m off =
     (case get m off MSG_HEAD_SIZE of
        None \<Rightarrow> None
      | Some bs \<Rightarrow> Some \<lparr>seq_num = de32 (take 4 bs), head_len = de16 (take 2 (drop 4 bs)),
                        head_type = bs ! 6, head_subtype = bs ! 7\<rparr>)"

lemma length_head_bytes [simp]: "length (head_bytes h) = MSG_HEAD_SIZE"
  by (simp add: head_bytes_def MSG_HEAD_SIZE_def)

lemma head_bytes_nth:
  "head_bytes h ! 6 = head_type h" "head_bytes h ! 7 = head_subtype h"
  by (simp_all add: head_bytes_def nth_append)

lemma read_head_put:
  assumes "put m off (head_bytes h) = Some m'"
    and "seq_num h < 4294967296" and "head_len h < 65536"
  shows "read_head m' off = Some h"
proof -
  have "get m' off MSG_HEAD_SIZE = Some (head_bytes h)"
    using get_put [OF assms(1)] by simp
  then show ?thesis
    using assms(2,3)
    by (simp add: read_head_def head_bytes_nth) (simp add: head_bytes_def de32_le32 de16_le16)
qed

section \<open>The shift loops\<close>

text \<open>\<open>for (; j < len; j++) buff[j] = buff[j+1]\<close>\<close>

function shl :: "mem \<Rightarrow> nat \<Rightarrow> nat \<Rightarrow> mem option" where
  "shl m j len =
     (if j < len then do { b \<leftarrow> rd m (j + 1); m' \<leftarrow> wr m j b; shl m' (j + 1) len }
      else Some m)"
  by pat_completeness auto
termination
  by (relation "measure (\<lambda>(m, j, len). len - j)") auto

text \<open>\<open>for (; j > lo; j--) buff[j] = buff[j-1]\<close>\<close>

function shr :: "mem \<Rightarrow> nat \<Rightarrow> nat \<Rightarrow> mem option" where
  "shr m j lo =
     (if j > lo then do { b \<leftarrow> rd m (j - 1); m' \<leftarrow> wr m j b; shr m' (j - 1) lo }
      else Some m)"
  by pat_completeness auto
termination
  by (relation "measure (\<lambda>(m, j, lo). j)") auto

declare shl.simps [simp del] shr.simps [simp del]

lemma shl_length: "shl m j len = Some m' \<Longrightarrow> length m' = length m"
proof (induction m j len rule: shl.induct)
  case (1 m j len)
  then show ?case
    by (subst (asm) (2) shl.simps) (auto simp: Option.bind_eq_Some_conv wr_length split: if_splits)
qed

lemma shr_length: "shr m j lo = Some m' \<Longrightarrow> length m' = length m"
proof (induction m j lo rule: shr.induct)
  case (1 m j lo)
  then show ?case
    by (subst (asm) (2) shr.simps) (auto simp: Option.bind_eq_Some_conv wr_length split: if_splits)
qed

text \<open>The loop \<open>shl\<close> deletes the byte at its start: everything up to and including the byte
  at \<open>len\<close> moves one place down, and the byte at \<open>len\<close> is also left where it was.\<close>

lemma shl_deletes:
  "shl (pre @ x # ys @ t # ts) (length pre) (length pre + 1 + length ys)
     = Some (pre @ ys @ t # t # ts)"
proof (induction ys arbitrary: pre x)
  case Nil
  show ?case
    by (subst shl.simps, simp add: rd_def wr_def nth_append)
       (subst shl.simps, simp)
next
  case (Cons y ys)
  have "rd (pre @ x # (y # ys) @ t # ts) (length pre + 1) = Some y"
    by (simp add: rd_def nth_append)
  then have "shl (pre @ x # (y # ys) @ t # ts) (length pre) (length pre + 1 + length (y # ys))
      = shl ((pre @ [y]) @ y # ys @ t # ts) (length (pre @ [y])) (length (pre @ [y]) + 1 + length ys)"
    by (subst shl.simps) (simp add: wr_def)
  then show ?case by (simp only: Cons.IH) simp
qed

text \<open>The loop \<open>shr\<close> opens a gap: the byte at \<open>lo\<close> is duplicated and the byte at the end
  of the range is overwritten.\<close>

lemma shr_opens:
  "shr (pre @ x # ys @ t # ts) (length pre + 1 + length ys) (length pre)
     = Some (pre @ x # x # ys @ ts)"
proof (induction ys arbitrary: t ts rule: rev_induct)
  case Nil
  show ?case
    by (subst shr.simps, simp add: rd_def wr_def nth_append list_update_append)
       (subst shr.simps, simp)
next
  case (snoc y ys)
  let ?m = "pre @ x # (ys @ [y]) @ t # ts"
  have m: "?m = (pre @ x # ys) @ y # t # ts" "?m = (pre @ x # ys @ [y]) @ t # ts"
    by simp_all
  have "rd ?m (length pre + 1 + length ys) = Some y"
    unfolding m(1) by (simp add: rd_def nth_append)
  moreover have "wr ?m (length pre + 1 + length (ys @ [y])) y = Some (pre @ x # ys @ y # y # ts)"
    unfolding m(2) by (simp add: wr_def list_update_append)
  ultimately have "shr ?m (length pre + 1 + length (ys @ [y])) (length pre)
      = shr (pre @ x # ys @ y # (y # ts)) (length pre + 1 + length ys) (length pre)"
    by (subst shr.simps) simp
  then show ?case by (simp only: snoc.IH) simp
qed

lemma shr_overflow: "lo < length m \<Longrightarrow> shr m (length m) lo = None"
  by (subst shr.simps) (simp add: wr_def bind_eq_None_conv)

end
