(* ===== verification/DiagProto.thy ===== *)
theory DiagProto
  imports Protol
begin

text \<open>
  \<open>CProtolDiag\<close> (\<open>server/trans/CProtolDiag.cpp\<close>): frame detection, in-place unescaping of a
  request, construction and in-place escaping of a response, the pending mark, and
  \<open>translate_packet\<close>. The loops work on the channel buffer with the code's indices; the lemmas
  show which list function of theory Stuffing each of them computes, and exactly when it
  leaves the buffer.
\<close>

definition PENDING_MARK :: "byte list" where
  "PENDING_MARK = [13, 10] @ cs ''PENDING'' @ [13, 10]"

section \<open>Operations\<close>

subsection \<open>Decoding a request\<close>

function dec_loop :: "mem \<Rightarrow> nat \<Rightarrow> nat \<Rightarrow> (mem \<times> nat) option" where
  "dec_loop m i len =
     (if i + 2 < len
      then do {
        b \<leftarrow> rd m i;
        (if special b
         then do {
           c \<leftarrow> rd m (i + 1);
           m1 \<leftarrow> wr m i (c XOR 0x20);
           m2 \<leftarrow> shl m1 (i + 1) len;
           dec_loop m2 (i + 1) (len - 1)
         }
         else dec_loop m (i + 1) len)
      }
      else Some (m, len))"
  by pat_completeness auto
termination
  by (relation "measure (\<lambda>(m, i, len). len - i)") auto

definition diag_decode :: "ctrans \<Rightarrow> mem \<Rightarrow> nat \<Rightarrow> (ctrans \<times> mem \<times> nat) option" where
  "diag_decode t buff len = do {
     (m, retlen) \<leftarrow> dec_loop buff 1 len;
     b \<leftarrow> rd m 7;
     Some (t\<lparr>m_nDiagAT := (b = 0x68)\<rparr>, m, retlen)
   }"

subsection \<open>Encoding a response\<close>

function enc_loop :: "mem \<Rightarrow> nat \<Rightarrow> nat \<Rightarrow> (mem \<times> nat) option" where
  "enc_loop m i len =
     (if i + 1 < len
      then do {
        b \<leftarrow> rd m i;
        (if special b
         then do {
           m1 \<leftarrow> wr m i 0x7D;
           m2 \<leftarrow> shr m1 len (i + 1);
           m3 \<leftarrow> wr m2 (i + 1) (b XOR 0x20);
           enc_loop m3 (i + 1) (len + 1)
         }
         else enc_loop m (i + 1) len)
      }
      else Some (m, len))"
  by pat_completeness auto
termination
  by (relation "measure (\<lambda>(m, i, len). length m - i)")
     (auto simp: rd_eq_Some dest!: wr_length shr_length)

text \<open>The header and flags put around the text of an AT response.\<close>

definition at_response_head :: "nat \<Rightarrow> msg_head" where
  "at_response_head len = \<lparr>seq_num = 0, head_len = len mod 65536, head_type = 0x9C, head_subtype = 0\<rparr>"

definition wrap_at_response :: "ctrans \<Rightarrow> mem \<Rightarrow> (mem \<times> nat) option" where
  "wrap_at_response t buff = do {
     s \<leftarrow> cstr_at buff 0;
     (let nPendingLen = (if m_bPending t then length PENDING_MARK else 0)
      in if length s < nPendingLen then None
         else let len = length s + MSG_HEAD_SIZE - nPendingLen
         in do {
           m1 \<leftarrow> memmv buff (MSG_HEAD_SIZE + 1) 0 (length s - nPendingLen);
           m2 \<leftarrow> put m1 1 (head_bytes (at_response_head len));
           m3 \<leftarrow> wr m2 0 0x7E;
           m4 \<leftarrow> wr m3 (len + 1) 0x7E;
           Some (m4, len + 2)
         })
   }"

definition deal_with_at :: "ctrans \<Rightarrow> bool" where
  "deal_with_at t \<longleftrightarrow>
     (m_retType t = DYMIC_RET_DEAL_SUCCESS \<or> m_retType t = DYMIC_RET_ALSO_NEED_TO_CP)
     \<and> m_nDiagAT t"

definition diag_encode :: "ctrans \<Rightarrow> mem \<Rightarrow> nat \<Rightarrow> (mem \<times> nat) option" where
  "diag_encode t buff len = do {
     (m, len) \<leftarrow> (if deal_with_at t then wrap_at_response t buff else Some (buff, len));
     enc_loop m 1 len
   }"

subsection \<open>Finding a frame in what was read\<close>

function find_flag_from :: "mem \<Rightarrow> nat \<Rightarrow> nat \<Rightarrow> nat \<Rightarrow> nat option option" where
  "find_flag_from m base offset nlen =
     (if offset < nlen
      then do {
        b \<leftarrow> rd m (base + offset);
        (if b = 0x7E then Some (Some offset) else find_flag_from m base (offset + 1) nlen)
      }
      else Some None)"
  by pat_completeness auto
termination
  by (relation "measure (\<lambda>(m, base, offset, nlen). nlen - offset)") auto

text \<open>\<open>findFrameFlag(buff + base, nlen)\<close>; the inner \<open>None\<close> is the code's \<open>-1\<close>.\<close>

definition findFrameFlag :: "mem \<Rightarrow> nat \<Rightarrow> nat \<Rightarrow> nat option option" where
  "findFrameFlag m base nlen = find_flag_from m base 0 nlen"

definition diag_checkframe ::
  "ctrans \<Rightarrow> mem \<Rightarrow> nat \<Rightarrow> (ctrans \<times> mem \<times> nat \<times> FRAME_TYPE) option" where
  "diag_checkframe t buff nlen =
     (if m_apProcess t \<noteq> 1 then Some (t, buff, nlen, FRAME_COMPLETE)
      else if nlen = 0 then None
      else do {
        first \<leftarrow> rd buff 0;
        lst \<leftarrow> rd buff (nlen - 1);
        (m, n, ret) \<leftarrow>
          (if first = 0x7E \<and> lst = 0x7E then Some (buff, nlen, FRAME_COMPLETE)
           else do {
             start \<leftarrow> findFrameFlag buff 0 nlen;
             (case start of
                None \<Rightarrow> Some (buff, nlen, FRAME_INVALID)
              | Some s \<Rightarrow> do {
                  fin \<leftarrow> findFrameFlag buff (s + 1) (nlen - s - 1);
                  (case fin of
                     Some e \<Rightarrow> do {
                       m \<leftarrow> memmv buff 0 s (e + 2);
                       Some (m, e + 2, FRAME_COMPLETE)
                     }
                   | None \<Rightarrow> do {
                       m \<leftarrow> memmv buff 0 s (nlen - s);
                       Some (m, nlen - s, FRAME_HALF_CONTINUE)
                     })
                })
           });
        Some (t\<lparr>m_iCurFrameType := ret\<rparr>, m, n, ret)
      })"

subsection \<open>Pending mark and response length\<close>

definition checkPending :: "ctrans \<Rightarrow> mem \<Rightarrow> bool option" where
  "checkPending t rsp =
     (if m_nDiagAT t
      then do {
        s \<leftarrow> cstr_at rsp 0;
        Some (strcasestr s (cs ''ERROR'') = None
              \<and> strcasestr s PENDING_MARK \<noteq> None
              \<and> drop (length s - length PENDING_MARK) s = PENDING_MARK)
      }
      else Some False)"

definition setPendingMark :: "bool \<Rightarrow> ctrans \<Rightarrow> ctrans" where
  "setPendingMark b t = t\<lparr>m_bPending := b\<rparr>"

definition diag_process_len :: "ctrans \<Rightarrow> mem \<Rightarrow> int \<Rightarrow> int option" where
  "diag_process_len t rsp retlen =
     (if m_nDiagAT t \<and> retlen = 0
      then do { s \<leftarrow> cstr_at rsp 0; Some (if s \<noteq> [] then int (length s) else retlen) }
      else Some retlen)"

subsection \<open>\<open>translate_packet\<close>\<close>

function tp_loop :: "mem \<Rightarrow> nat \<Rightarrow> mem \<Rightarrow> nat \<Rightarrow> nat \<Rightarrow> (mem \<times> nat) option" where
  "tp_loop dest pos src i sz =
     (if i < sz
      then do {
        b \<leftarrow> rd src i;
        (if b = 0x7E
         then do { d1 \<leftarrow> wr dest pos 0x7D; d2 \<leftarrow> wr d1 (pos + 1) 0x5E;
                   tp_loop d2 (pos + 2) src (i + 1) sz }
         else if b = 0x7D
         then do { d1 \<leftarrow> wr dest pos 0x7D; d2 \<leftarrow> wr d1 (pos + 1) 0x5D;
                   tp_loop d2 (pos + 2) src (i + 1) sz }
         else do { d1 \<leftarrow> wr dest pos b; tp_loop d1 (pos + 1) src (i + 1) sz })
      }
      else Some (dest, pos))"
  by pat_completeness auto
termination
  by (relation "measure (\<lambda>(dest, pos, src, i, sz). sz - i)") auto

definition translate_packet :: "mem \<Rightarrow> mem \<Rightarrow> nat \<Rightarrow> (mem \<times> nat) option" where
  "translate_packet dest src sz = do {
     d0 \<leftarrow> wr dest 0 0x7E;
     (d1, pos) \<leftarrow> tp_loop d0 1 src 0 sz;
     d2 \<leftarrow> wr d1 pos 0x7E;
     Some (d2, pos + 1)
   }"

declare dec_loop.simps [simp del] enc_loop.simps [simp del]
  find_flag_from.simps [simp del] tp_loop.simps [simp del]


section \<open>What the loops compute\<close>

subsection \<open>Encoding\<close>

lemma enc_loop_plain:
  assumes "\<not> special b"
  shows "enc_loop (pre @ b # rest) (length pre) len =
    (if length pre + 1 < len then enc_loop ((pre @ [b]) @ rest) (length (pre @ [b])) len
     else Some (pre @ b # rest, len))"
  using assms by (subst enc_loop.simps) (simp add: rd_def)

lemma enc_loop_special:
  assumes "special b"
  shows "enc_loop (pre @ b # xs @ e # t # ts) (length pre) (length pre + 2 + length xs)
    = enc_loop ((pre @ [0x7D]) @ (b XOR 0x20) # xs @ e # ts) (length (pre @ [0x7D]))
        (length pre + 3 + length xs)"
proof -
  let ?m1 = "(pre @ [0x7D]) @ xs @ e # t # ts"
  obtain x ys where xy: "xs @ [e] = x # ys" by (cases "xs @ [e]") auto
  then have ly: "length ys = length xs" by (metis length_Cons length_append_singleton nat.inject)
  have m1: "?m1 = (pre @ [0x7D]) @ x # ys @ t # ts" using xy by (metis append.assoc append_Cons append_Nil)
  have "shr ?m1 (length (pre @ [0x7D]) + 1 + length ys) (length (pre @ [0x7D]))
      = Some ((pre @ [0x7D]) @ x # x # ys @ ts)"
    unfolding m1 by (rule shr_opens)
  moreover have "(pre @ [0x7D]) @ x # x # ys @ ts = (pre @ [0x7D]) @ x # xs @ e # ts"
    using xy by (metis append.assoc append_Cons append_Nil)
  ultimately have "shr ?m1 (length pre + 2 + length xs) (length pre + 1)
      = Some ((pre @ [0x7D]) @ x # xs @ e # ts)"
    by (simp add: ly)
  moreover have "wr ((pre @ [0x7D]) @ x # xs @ e # ts) (length pre + 1) (b XOR 0x20)
      = Some ((pre @ [0x7D]) @ (b XOR 0x20) # xs @ e # ts)"
    using update_mid [of "pre @ [0x7D]"] by (simp add: wr_def)
  ultimately show ?thesis
    using assms by (subst enc_loop.simps) (simp add: rd_def wr_def numeral_3_eq_3)
qed

lemma enc_loop_overflow:
  assumes "special b"
  shows "enc_loop (pre @ b # xs @ [e]) (length pre) (length pre + 2 + length xs) = None"
proof -
  have "shr (pre @ 0x7D # xs @ [e]) (length (pre @ 0x7D # xs @ [e])) (length pre + 1) = None"
    by (rule shr_overflow) simp
  then show ?thesis
    using assms by (subst enc_loop.simps) (simp add: rd_def wr_def)
qed

lemma enc_loop_closed:
  "enc_loop (pre @ xs @ e # ts) (length pre) (length pre + length xs + 1) =
    (if nspecial xs \<le> length ts
     then Some (pre @ escape xs @ e # drop (nspecial xs) ts,
                length pre + length xs + 1 + nspecial xs)
     else None)"
proof (induction xs arbitrary: pre ts)
  case Nil
  show ?case by (subst enc_loop.simps) simp
next
  case (Cons b xs)
  show ?case
  proof (cases "special b")
    case False
    have "enc_loop (pre @ (b # xs) @ e # ts) (length pre) (length pre + length (b # xs) + 1)
        = enc_loop ((pre @ [b]) @ xs @ e # ts) (length (pre @ [b])) (length (pre @ [b]) + length xs + 1)"
      using enc_loop_plain [OF False, of pre "xs @ e # ts"] by simp
    then show ?thesis unfolding Cons.IH using False by (simp add: esc_byte_def)
  next
    case True
    show ?thesis
    proof (cases ts)
      case Nil
      then show ?thesis using enc_loop_overflow [OF True, of pre xs e] True by simp
    next
      case (Cons t ts')
      let ?c = "b XOR 0x20" and ?p = "pre @ [0x7D]"
      have nc: "\<not> special ?c" using special_xor_neq [OF True] .
      have "enc_loop (pre @ (b # xs) @ e # ts) (length pre) (length pre + length (b # xs) + 1)
          = enc_loop (?p @ ?c # xs @ e # ts') (length ?p) (length ?p + length xs + 2)"
        using enc_loop_special [OF True, of pre xs e t ts'] Cons by (simp add: add.commute numeral_3_eq_3)
      also have "\<dots> = enc_loop ((?p @ [?c]) @ xs @ e # ts') (length (?p @ [?c]))
          (length (?p @ [?c]) + length xs + 1)"
        using enc_loop_plain [OF nc, of ?p "xs @ e # ts'"] by simp
      finally show ?thesis unfolding Cons.IH using True Cons by (simp add: esc_byte_def)
    qed
  qed
qed

text \<open>The whole frame: the loop turns \<open>7E payload 7E\<close> at the start of the buffer into
  \<open>frame payload\<close>, and leaves the buffer exactly when the grown frame does not fit.\<close>

lemma enc_loop_frame:
  "enc_loop (0x7E # xs @ 0x7E # ts) 1 (length xs + 2) =
    (if nspecial xs \<le> length ts
     then Some (frame xs @ drop (nspecial xs) ts, length (frame xs))
     else None)"
  using enc_loop_closed [of "[0x7E]" xs "0x7E" ts] by (simp add: frame_def length_escape)

subsection \<open>Decoding\<close>

lemma dec_loop_plain:
  assumes "\<not> special b"
  shows "dec_loop (pre @ b # rest) (length pre) len =
    (if length pre + 2 < len then dec_loop ((pre @ [b]) @ rest) (length (pre @ [b])) len
     else Some (pre @ b # rest, len))"
  using assms by (subst dec_loop.simps) (simp add: rd_def)

lemma dec_loop_special:
  assumes "special b"
  shows "dec_loop (pre @ b # c # bs @ e # t # ts) (length pre) (length pre + 3 + length bs)
    = dec_loop ((pre @ [c XOR 0x20]) @ bs @ e # t # t # ts) (length (pre @ [c XOR 0x20]))
        (length (pre @ [c XOR 0x20]) + length bs + 1)"
proof -
  let ?m1 = "(pre @ [c XOR 0x20]) @ c # (bs @ [e]) @ t # ts"
  have "shl ?m1 (length (pre @ [c XOR 0x20])) (length (pre @ [c XOR 0x20]) + 1 + length (bs @ [e]))
      = Some ((pre @ [c XOR 0x20]) @ (bs @ [e]) @ t # t # ts)"
    by (rule shl_deletes)
  then show ?thesis
    using assms by (subst dec_loop.simps) (simp add: rd_def wr_def nth_append numeral_3_eq_3)
qed

lemma length_unescape_le: "length (unescape xs) \<le> length xs"
  by (induction xs rule: unescape.induct) auto

lemma dec_loop_closed:
  "dec_loop (pre @ xs @ e # t # ts) (length pre) (length pre + length xs + 1) =
    Some (pre @ unescape xs @ e # replicate (length xs - length (unescape xs)) t @ t # ts,
          length pre + length (unescape xs) + 1)"
proof (induction xs arbitrary: pre ts rule: unescape.induct)
  case 1
  show ?case by (subst dec_loop.simps) simp
next
  case (2 b)
  show ?case by (subst dec_loop.simps) simp
next
  case (3 b c bs)
  show ?case
  proof (cases "special b")
    case True
    have "dec_loop (pre @ (b # c # bs) @ e # t # ts) (length pre) (length pre + length (b # c # bs) + 1)
        = dec_loop ((pre @ [c XOR 0x20]) @ bs @ e # t # (t # ts)) (length (pre @ [c XOR 0x20]))
            (length (pre @ [c XOR 0x20]) + length bs + 1)"
      using dec_loop_special [OF True, of pre c bs e t ts] by (simp add: add.commute add.left_commute numeral_3_eq_3)
    also have "\<dots> = Some ((pre @ [c XOR 0x20]) @ unescape bs @ e
          # replicate (length bs - length (unescape bs)) t @ t # (t # ts),
        length (pre @ [c XOR 0x20]) + length (unescape bs) + 1)"
      by (rule "3.IH"(1) [OF True])
    finally show ?thesis
      using True length_unescape_le [of bs]
      by (simp add: Suc_diff_le replicate_app_Cons_same)
  next
    case False
    have "dec_loop (pre @ (b # c # bs) @ e # t # ts) (length pre) (length pre + length (b # c # bs) + 1)
        = dec_loop ((pre @ [b]) @ (c # bs) @ e # t # ts) (length (pre @ [b]))
            (length (pre @ [b]) + length (c # bs) + 1)"
      using dec_loop_plain [OF False, of pre "c # bs @ e # t # ts"] by simp
    also have "\<dots> = Some ((pre @ [b]) @ unescape (c # bs) @ e
          # replicate (length (c # bs) - length (unescape (c # bs))) t @ t # ts,
        length (pre @ [b]) + length (unescape (c # bs)) + 1)"
      by (rule "3.IH"(2) [OF False])
    finally show ?thesis using False by simp
  qed
qed

lemma dec_loop_frame:
  "dec_loop (0x7E # xs @ 0x7E # t # ts) 1 (length xs + 2) =
    Some (0x7E # unescape xs @ 0x7E # replicate (length xs - length (unescape xs)) t @ t # ts,
          length (unescape xs) + 2)"
  using dec_loop_closed [of "[0x7E]" xs "0x7E" t ts] by simp


subsection \<open>Wrapping an AT response\<close>

lemma put_at: "length pre = off \<Longrightarrow> length xs = length bs \<Longrightarrow>
    put (pre @ xs @ post) off bs = Some (pre @ bs @ post)"
  using put_append [of bs xs pre post] by simp

lemma wrap_closed:
  assumes s: "cstr_at buff 0 = Some s"
    and body: "s = body @ (if m_bPending t then PENDING_MARK else [])"
    and cap: "length body + 10 \<le> length buff"
  shows "wrap_at_response t buff =
    Some (0x7E # (head_bytes (at_response_head (length body + MSG_HEAD_SIZE)) @ body)
            @ 0x7E # drop (length body + 10) buff,
          length body + 10)"
proof -
  let ?n = "length body" and ?h = "head_bytes (at_response_head (length body + MSG_HEAD_SIZE))"
  have len: "length s - (if m_bPending t then length PENDING_MARK else 0) = ?n"
    "(length s < (if m_bPending t then length PENDING_MARK else 0)) = False"
    "length s + MSG_HEAD_SIZE - (if m_bPending t then length PENDING_MARK else 0)
       = ?n + MSG_HEAD_SIZE"
    using body by simp_all
  have "take ?n buff = body"
    using cstr_at_take [OF s] body by (metis append_eq_conv_conj length_append take_append take_take min.absorb1 le_add1)
  then have get: "get buff 0 ?n = Some body" using cap by (simp add: get_def)
  obtain a pre x post where buff: "buff = (a # pre) @ x @ post"
    and lp: "length pre = 8" and lx: "length x = ?n"
  proof
    let ?a = "hd buff" and ?pre = "take 8 (tl buff)" and ?x = "take ?n (drop 9 buff)"
      and ?post = "drop (9 + ?n) buff"
    have ne: "buff \<noteq> []" using cap by auto
    show "buff = (?a # ?pre) @ ?x @ ?post"
      using ne append_take_drop_id [of ?n "drop 9 buff"] append_take_drop_id [of 8 "tl buff"]
      by (metis (no_types, lifting) append.assoc append_Cons drop_drop drop_Suc numeral_eq_Suc
          pred_numeral_simps(3) list.collapse add.commute)
    show "length ?pre = 8" "length ?x = ?n" using cap by simp_all
  qed
  obtain z zs where post: "post = z # zs" and zs: "zs = drop (?n + 10) buff"
    using cap buff lp lx by (cases post) (auto simp: numeral_eq_Suc)
  have mv: "memmv buff (MSG_HEAD_SIZE + 1) 0 ?n = Some ((a # pre) @ body @ post)"
    using get put_at [of "a # pre" "MSG_HEAD_SIZE + 1" x body post] buff lp lx
    by (simp add: memmv_def MSG_HEAD_SIZE_def)
  have hd': "put ((a # pre) @ body @ post) 1 ?h = Some ([a] @ ?h @ body @ post)"
    using put_at [of "[a]" 1 pre ?h "body @ post"] lp by (simp add: MSG_HEAD_SIZE_def)
  have w0: "wr ([a] @ ?h @ body @ post) 0 0x7E = Some ([0x7E] @ ?h @ body @ post)"
    by (simp add: wr_def)
  have w1: "wr ([0x7E] @ ?h @ body @ post) (?n + MSG_HEAD_SIZE + 1) 0x7E
      = Some ([0x7E] @ ?h @ body @ 0x7E # zs)"
    using update_mid [of "[0x7E] @ ?h @ body" z zs "0x7E"] post
    by (simp add: wr_def MSG_HEAD_SIZE_def add.commute)
  show ?thesis
    unfolding wrap_at_response_def s
    using mv hd' w0 w1 len zs by (simp add: MSG_HEAD_SIZE_def)
qed

subsection \<open>\<open>translate_packet\<close>\<close>

lemma wr_mid: "wr (pre @ x # post) (length pre) b = Some (pre @ b # post)"
  by (simp add: wr_def)

lemma rd_mid: "rd (pre @ x # post) (length pre) = Some x"
  by (simp add: rd_def)

lemma wr_past_end: "length m \<le> i \<Longrightarrow> wr m i b = None"
  by (simp add: wr_def)

lemma wr_two:
  "length pre = pos \<Longrightarrow> do { d1 \<leftarrow> wr (pre @ ts) pos a; d2 \<leftarrow> wr d1 (Suc pos) b; f d2 } =
    (if 2 \<le> length ts then f (pre @ a # b # drop 2 ts) else None)"
  by (cases ts; cases "tl ts")
     (auto simp: wr_def numeral_2_eq_2 list_update_append)

lemma tp_loop_closed:
  "tp_loop (pre @ ts) (length pre) (s1 @ xs @ s2) (length s1) (length s1 + length xs) =
    (if length (escape xs) \<le> length ts
     then Some (pre @ escape xs @ drop (length (escape xs)) ts, length pre + length (escape xs))
     else None)"
proof (induction xs arbitrary: pre ts s1)
  case Nil
  show ?case by (subst tp_loop.simps) simp
next
  case (Cons x xs)
  let ?k = "length (esc_byte x)"
  have step: "tp_loop (pre @ ts) (length pre) (s1 @ (x # xs) @ s2) (length s1)
        (length s1 + length (x # xs))
      = (if ?k \<le> length ts
         then tp_loop ((pre @ esc_byte x) @ drop ?k ts) (length (pre @ esc_byte x))
                ((s1 @ [x]) @ xs @ s2) (length (s1 @ [x])) (length (s1 @ [x]) + length xs)
         else None)"
  proof (cases "special x")
    case True
    then have e: "esc_byte x = [0x7D, if x = 0x7E then 0x5E else 0x5D]"
      by (auto simp: esc_byte_def special_def)
    show ?thesis
      using True by (subst tp_loop.simps) (auto simp: rd_mid wr_two e special_def numeral_2_eq_2)
  next
    case False
    show ?thesis
    proof (cases ts)
      case Nil
      then show ?thesis using False
        by (subst tp_loop.simps) (auto simp: rd_mid esc_byte_def special_def wr_past_end)
    next
      case (Cons t ts')
      then show ?thesis using False
        by (subst tp_loop.simps) (auto simp: rd_mid esc_byte_def special_def wr_mid)
    qed
  qed
  show ?case unfolding step Cons.IH by (auto simp: add.commute)
qed

lemma translate_packet_closed:
  assumes "sz \<le> length src"
  shows "translate_packet dest src sz =
    (if length (frame (take sz src)) \<le> length dest
     then Some (frame (take sz src) @ drop (length (frame (take sz src))) dest,
                length (frame (take sz src)))
     else None)"
proof (cases dest)
  case Nil
  then show ?thesis by (simp add: translate_packet_def wr_def length_frame)
next
  case (Cons d ds)
  let ?xs = "take sz src" and ?e = "escape (take sz src)"
  have w: "wr dest 0 0x7E = Some ([0x7E] @ ds)" using Cons by (simp add: wr_def)
  have l: "tp_loop ([0x7E] @ ds) 1 src 0 sz =
      (if length ?e \<le> length ds then Some ([0x7E] @ ?e @ drop (length ?e) ds, 1 + length ?e) else None)"
    using tp_loop_closed [of "[0x7E]" ds "[]" ?xs "drop sz src"] assms by (simp add: min_absorb2)
  have w2: "wr ([0x7E] @ ?e @ drop (length ?e) ds) (1 + length ?e) 0x7E =
      (if length ?e < length ds then Some ([0x7E] @ ?e @ 0x7E # drop (length ?e + 1) ds) else None)"
    if "length ?e \<le> length ds"
    using that wr_mid [of "[0x7E] @ ?e" "ds ! length ?e" "drop (length ?e + 1) ds" "0x7E"]
    by (cases "length ?e = length ds") (auto simp: wr_past_end Cons_nth_drop_Suc)
  show ?thesis
    unfolding translate_packet_def w
    using l w2 Cons by (auto simp: frame_def not_less)
qed

subsection \<open>Frame detection\<close>

text \<open>What the comment above \<open>checkframe\<close> asks for, on the bytes read so far.\<close>

definition detect :: "byte list \<Rightarrow> FRAME_TYPE \<times> byte list" where
  "detect bs =
     (if hd bs = 0x7E \<and> last bs = 0x7E then (FRAME_COMPLETE, bs)
      else case dropWhile (\<lambda>b. b \<noteq> 0x7E) bs of
             [] \<Rightarrow> (FRAME_INVALID, bs)
           | f # rest \<Rightarrow>
               if 0x7E \<in> set rest
               then (FRAME_COMPLETE, 0x7E # takeWhile (\<lambda>b. b \<noteq> 0x7E) rest @ [0x7E])
               else (FRAME_HALF_CONTINUE, 0x7E # rest))"

lemma find_flag_from_none:
  "0x7E \<notin> set xs \<Longrightarrow>
   find_flag_from (pre @ xs @ post) base off (off + length xs) = Some None"
  if "length pre = base + off"
  using that
proof (induction xs arbitrary: pre off)
  case Nil
  show ?case by (subst find_flag_from.simps) simp
next
  case (Cons x xs)
  have "find_flag_from ((pre @ [x]) @ xs @ post) base (off + 1) (off + 1 + length xs) = Some None"
    by (rule Cons.IH) (use Cons.prems in auto)
  then show ?case
    using Cons.prems by (subst find_flag_from.simps) (simp add: rd_def nth_append)
qed

lemma find_flag_from_found:
  "0x7E \<notin> set xs \<Longrightarrow> off + length xs < n \<Longrightarrow>
   find_flag_from (pre @ xs @ 0x7E # post) base off n = Some (Some (off + length xs))"
  if "length pre = base + off"
  using that
proof (induction xs arbitrary: pre off)
  case Nil
  then show ?case by (subst find_flag_from.simps) (simp add: rd_def nth_append)
next
  case (Cons x xs)
  have "find_flag_from ((pre @ [x]) @ xs @ 0x7E # post) base (off + 1) n
      = Some (Some (off + 1 + length xs))"
    by (rule Cons.IH) (use Cons.prems in auto)
  then show ?case
    using Cons.prems by (subst find_flag_from.simps) (simp add: rd_def nth_append)
qed

lemma findFrameFlag_none:
  "0x7E \<notin> set xs \<Longrightarrow> findFrameFlag (pre @ xs @ post) (length pre) (length xs) = Some None"
  using find_flag_from_none [of pre "length pre" 0 xs post] by (simp add: findFrameFlag_def)

lemma findFrameFlag_found:
  "0x7E \<notin> set xs \<Longrightarrow> length xs < n \<Longrightarrow>
   findFrameFlag (pre @ xs @ 0x7E # post) (length pre) n = Some (Some (length xs))"
  using find_flag_from_found [of pre "length pre" 0 xs n post] by (simp add: findFrameFlag_def)

lemma dropWhile_flag_split:
  "dropWhile (\<lambda>b. b \<noteq> f) bs = g # rest \<Longrightarrow>
     g = f \<and> bs = takeWhile (\<lambda>b. b \<noteq> f) bs @ f # rest \<and> f \<notin> set (takeWhile (\<lambda>b. b \<noteq> f) bs)"
  by (metis (mono_tags, lifting) dropWhile_eq_Cons_conv takeWhile_dropWhile_id set_takeWhileD)

lemma memmv_to_front:
  "memmv (p @ xs @ post) 0 (length p) (length xs) = Some (xs @ drop (length xs) (p @ xs @ post))"
  by (simp add: memmv_def get_def put_def)

lemma rd_ends:
  assumes "bs \<noteq> []"
  shows "rd (bs @ post) 0 = Some (hd bs)" "rd (bs @ post) (length bs - 1) = Some (last bs)"
proof -
  have "length bs - 1 < length bs" using assms by (cases bs) simp_all
  then show "rd (bs @ post) (length bs - 1) = Some (last bs)"
    using assms by (simp add: rd_def nth_append last_conv_nth trans_less_add1 del: One_nat_def)
  show "rd (bs @ post) 0 = Some (hd bs)" using assms by (cases bs) (simp_all add: rd_def)
qed

lemma checkframe_both_flags:
  assumes "m_apProcess t = 1" and "bs \<noteq> []" and "hd bs = 0x7E" and "last bs = 0x7E"
  shows "diag_checkframe t (bs @ post) (length bs) =
    Some (t\<lparr>m_iCurFrameType := FRAME_COMPLETE\<rparr>, bs @ post, length bs, FRAME_COMPLETE)"
  using assms rd_ends [OF assms(2), of post] by (simp add: diag_checkframe_def)

lemma checkframe_search:
  assumes "m_apProcess t = 1" and "bs \<noteq> []" and "\<not> (hd bs = 0x7E \<and> last bs = 0x7E)"
  shows "diag_checkframe t (bs @ post) (length bs) =
    do {
      (m, n, ret) \<leftarrow> do {
        start \<leftarrow> findFrameFlag (bs @ post) 0 (length bs);
        (case start of
           None \<Rightarrow> Some (bs @ post, length bs, FRAME_INVALID)
         | Some s \<Rightarrow> do {
             fin \<leftarrow> findFrameFlag (bs @ post) (s + 1) (length bs - s - 1);
             (case fin of
                Some e \<Rightarrow> do { m \<leftarrow> memmv (bs @ post) 0 s (e + 2); Some (m, e + 2, FRAME_COMPLETE) }
              | None \<Rightarrow> do { m \<leftarrow> memmv (bs @ post) 0 s (length bs - s);
                            Some (m, length bs - s, FRAME_HALF_CONTINUE) })
           })
      };
      Some (t\<lparr>m_iCurFrameType := ret\<rparr>, m, n, ret)
    }"
proof -
  have "(m_apProcess t \<noteq> 1) = False" "(length bs = 0) = False"
    "(hd bs = 0x7E \<and> last bs = 0x7E) = False"
    using assms by simp_all
  then show ?thesis
    unfolding diag_checkframe_def rd_ends [OF assms(2)]
    by (simp only: if_False Option.bind.simps)
qed

lemma dec_loop_run:
  "list_all (\<lambda>b. \<not> special b) us \<Longrightarrow> length pre + length us + 1 < len \<Longrightarrow>
   dec_loop (pre @ us @ rest) (length pre) len = dec_loop ((pre @ us) @ rest) (length (pre @ us)) len"
proof (induction us arbitrary: pre)
  case (Cons u us)
  then have "dec_loop (pre @ (u # us) @ rest) (length pre) len
      = dec_loop ((pre @ [u]) @ us @ rest) (length (pre @ [u])) len"
    using dec_loop_plain [of u pre "us @ rest" len] by simp
  then show ?case using Cons.IH [of "pre @ [u]"] Cons.prems by simp
qed simp

lemma shl_past_end: "j < length m \<Longrightarrow> shl m j (length m) = None"
proof (induction "length m - j" arbitrary: m j)
  case (Suc k)
  show ?case
  proof (cases "j + 1 < length m")
    case True
    then have "shl (m[j := m ! (j + 1)]) (j + 1) (length (m[j := m ! (j + 1)])) = None"
      using Suc by (intro Suc.hyps(1)) auto
    then show ?thesis using True Suc.prems by (subst shl.simps) (simp add: rd_def wr_def)
  next
    case False
    then show ?thesis using Suc.prems by (subst shl.simps) (simp add: rd_def)
  qed
qed simp

lemma checkframe_closed:
  assumes "m_apProcess t = 1" and "bs \<noteq> []"
  shows "diag_checkframe t (bs @ post) (length bs) =
    (let (kind, f) = detect bs in
     Some (t\<lparr>m_iCurFrameType := kind\<rparr>, f @ drop (length f) (bs @ post), length f, kind))"
proof (cases "hd bs = 0x7E \<and> last bs = 0x7E")
  case True
  then show ?thesis using assms checkframe_both_flags by (simp add: detect_def)
next
  case ends: False
  note search = checkframe_search [OF assms ends]
  show ?thesis
  proof (cases "dropWhile (\<lambda>b. b \<noteq> 0x7E) bs")
    case Nil
    then have nf: "0x7E \<notin> set bs" by (auto simp: dropWhile_eq_Nil_conv)
    then have "findFrameFlag (bs @ post) 0 (length bs) = Some None"
      using findFrameFlag_none [of bs "[]" post] by simp
    moreover have "detect bs = (FRAME_INVALID, bs)" unfolding detect_def if_not_P [OF ends] Nil by simp
    ultimately show ?thesis by (simp add: search)
  next
    case (Cons g rest)
    define p where "p = takeWhile (\<lambda>b. b \<noteq> (0x7E :: byte)) bs"
    have bs: "bs = p @ 0x7E # rest" and np: "0x7E \<notin> set p"
      using dropWhile_flag_split [OF Cons] by (simp_all add: p_def)
    have start: "findFrameFlag (bs @ post) 0 (length bs) = Some (Some (length p))"
      using findFrameFlag_found [OF np, of "length bs" "[]" "rest @ post"] bs by simp
    show ?thesis
    proof (cases "0x7E \<in> set rest")
      case False
      have "findFrameFlag (bs @ post) (length p + 1) (length bs - length p - 1) = Some None"
        using findFrameFlag_none [OF False, of "p @ [0x7E]" post] bs by simp
      moreover have "memmv (bs @ post) 0 (length p) (length bs - length p)
          = Some (0x7E # rest @ drop (Suc (length rest)) (bs @ post))"
        using memmv_to_front [of p "0x7E # rest" post] bs by simp
      moreover have "detect bs = (FRAME_HALF_CONTINUE, 0x7E # rest)"
        unfolding detect_def if_not_P [OF ends] Cons using False by simp
      moreover have "length bs - length p = Suc (length rest)" using bs by simp
      ultimately show ?thesis by (simp add: search start)
    next
      case True
      then obtain q s where rest: "rest = q @ 0x7E # s" and nq: "0x7E \<notin> set q"
        by (metis split_list_first)
      have "findFrameFlag (bs @ post) (length p + 1) (length bs - length p - 1) = Some (Some (length q))"
        using findFrameFlag_found [OF nq, of "length bs - length p - 1" "p @ [0x7E]" "s @ post"] bs rest
        by simp
      moreover have "memmv (bs @ post) 0 (length p) (length q + 2)
          = Some (0x7E # q @ 0x7E # drop (length q + 2) (bs @ post))"
        using memmv_to_front [of p "0x7E # q @ [0x7E]" "s @ post"] bs rest by simp
      moreover have "takeWhile (\<lambda>b. b \<noteq> 0x7E) rest = q"
        using nq rest by (auto simp: takeWhile_append)
      then have "detect bs = (FRAME_COMPLETE, 0x7E # q @ [0x7E])"
        unfolding detect_def if_not_P [OF ends] Cons using True by simp
      ultimately show ?thesis by (simp add: search start)
    qed
  qed
qed

section \<open>Properties\<close>

text \<open>C6 (encoding a response): for a response that is not the text of an AT command, and that
  starts and ends with a flag, \<open>CProtolDiag::encode\<close> replaces the payload in place by its
  escaped form and returns the grown length, so the buffer holds exactly one frame; it writes
  past the buffer (\<open>None\<close>) exactly when the number of bytes to escape exceeds the free space,
  which the code does not check.\<close>

theorem diag_encode_frame:
  assumes "\<not> deal_with_at t"
  shows "diag_encode t (0x7E # xs @ 0x7E # ts) (length xs + 2) =
    (if nspecial xs \<le> length ts
     then Some (frame xs @ drop (nspecial xs) ts, length (frame xs))
     else None)"
  using assms enc_loop_frame [of xs ts] by (simp add: diag_encode_def)

definition sample_diag :: ctrans where
  "sample_diag = trans_init KDiag (cs ''DIAG'') 0 1 DATA_DIAG 1"

theorem diag_encode_frame_witness:
  "diag_encode sample_diag [0x7E, 1, 0x7D, 0x7E, 9, 9] 4 = Some ([0x7E, 1, 0x7D, 0x5D, 0x7E, 9], 5)
   \<and> diag_encode sample_diag [0x7E, 0x7E, 0x7D, 0x7E, 9] 4 = None"
  using diag_encode_frame [of sample_diag "[1, 0x7D]" "[9, 9]"]
    diag_encode_frame [of sample_diag "[0x7E, 0x7D]" "[9]"]
  by (simp add: deal_with_at_def sample_diag_def trans_init_def frame_def esc_byte_def special_def
      suc2)

text \<open>C7 (the answer to an AT command sent in a diag message): \<open>encode\<close> takes the NUL-terminated
  text, removes the pending mark when one is set, puts the diag header (sequence number 0, type
  0x9c, subtype 0, length of header and text modulo 2^16) in front, and leaves the escaped frame
  of header and text in the buffer.\<close>

theorem diag_encode_at_response:
  assumes "deal_with_at t" and "cstr_at buff 0 = Some s"
    and "s = body @ (if m_bPending t then PENDING_MARK else [])"
    and "length body + 10 \<le> length buff"
  shows "diag_encode t buff len =
    (let p = head_bytes (at_response_head (length body + MSG_HEAD_SIZE)) @ body in
     if nspecial p \<le> length buff - (length body + 10)
     then Some (frame p @ drop (length (frame p)) buff, length (frame p)) else None)"
proof -
  let ?p = "head_bytes (at_response_head (length body + MSG_HEAD_SIZE)) @ body"
  have lp: "length ?p + 2 = length body + 10" by (simp add: MSG_HEAD_SIZE_def)
  have "diag_encode t buff len = enc_loop (0x7E # ?p @ 0x7E # drop (length body + 10) buff) 1 (length ?p + 2)"
    unfolding diag_encode_def lp using wrap_closed [OF assms(2,3,4)] assms(1) by simp
  also have "\<dots> = (if nspecial ?p \<le> length buff - (length body + 10)
      then Some (frame ?p @ drop (nspecial ?p) (drop (length body + 10) buff), length (frame ?p)) else None)"
    unfolding enc_loop_frame by simp
  also have "drop (nspecial ?p) (drop (length body + 10) buff) = drop (length (frame ?p)) buff"
    by (simp add: length_frame MSG_HEAD_SIZE_def add.assoc [symmetric] add.commute)
  finally show ?thesis by (simp only: Let_def)
qed

definition sample_at_reply :: ctrans where
  "sample_at_reply = sample_diag\<lparr>m_retType := DYMIC_RET_DEAL_SUCCESS, m_nDiagAT := True\<rparr>"

theorem diag_encode_at_response_witness:
  "diag_encode sample_at_reply (zfill 16 (cs ''OK'')) 2 =
    Some (frame ([0, 0, 0, 0, 10, 0, 0x9C, 0] @ cs ''OK'') @ [0, 0, 0, 0], 12)"
proof -
  have c: "cstr_at (zfill 16 (cs ''OK'')) 0 = Some (cs ''OK'')"
    by (rule cstr_at_zfill) (simp_all add: cs_def)
  have p: "head_bytes (at_response_head (length (cs ''OK'') + MSG_HEAD_SIZE)) @ cs ''OK'' =
      [0, 0, 0, 0, 10, 0, 0x9C, 0] @ cs ''OK''"
    by (simp add: head_bytes_def at_response_head_def MSG_HEAD_SIZE_def le16_def le32_def)
  have n: "nspecial ([0, 0, 0, 0, 10, 0, 0x9C, 0] @ cs ''OK'') = 0"
    by (simp add: special_def)
  have z: "length (zfill 16 (cs ''OK'')) = 16" "drop 12 (zfill 16 (cs ''OK'')) = [0, 0, 0, 0]"
    by (simp_all add: zfill_def numeral_eq_Suc)
  have "diag_encode sample_at_reply (zfill 16 (cs ''OK'')) 2 =
    (let p = [0, 0, 0, 0, 10, 0, 0x9C, 0] @ cs ''OK'' in
     if nspecial p \<le> length (zfill 16 (cs ''OK'')) - (length (cs ''OK'') + 10)
     then Some (frame p @ drop (length (frame p)) (zfill 16 (cs ''OK'')), length (frame p)) else None)"
    unfolding p [symmetric]
    by (rule diag_encode_at_response [OF _ c])
       (simp_all add: deal_with_at_def sample_at_reply_def sample_diag_def trans_init_def z del: cs_simps)
  then show ?thesis
    unfolding Let_def n z length_frame using z(2) by (simp add: suc2)
qed

text \<open>C5 (round trip): decoding what \<open>encode\<close> produced gives the payload and the length back,
  for every payload of at least six bytes and every buffer with one byte to spare behind the
  frame; \<open>m_nDiagAT\<close> then tells whether the payload has a type byte (its seventh) and this is
  that of an AT command. With six bytes \<open>decode\<close> reads the closing flag in its place, which is
  not that of an AT command.\<close>

theorem diag_decode_encode:
  assumes "\<not> deal_with_at t" and "nspecial xs < length ts" and "6 \<le> length xs"
  shows "\<exists>m n rest. diag_encode t (0x7E # xs @ 0x7E # ts) (length xs + 2) = Some (m, n) \<and>
    n = length (frame xs) \<and>
    diag_decode u m n = Some (u\<lparr>m_nDiagAT := (6 < length xs \<and> xs ! 6 = 0x68)\<rparr>,
      0x7E # xs @ 0x7E # rest, length xs + 2)"
proof -
  let ?at = "6 < length xs \<and> xs ! 6 = 0x68"
  have e: "diag_encode t (0x7E # xs @ 0x7E # ts) (length xs + 2) =
      Some (frame xs @ drop (nspecial xs) ts, length (frame xs))"
    using assms(1,2) enc_loop_frame [of xs ts] by (simp add: diag_encode_def)
  obtain y ys where y: "drop (nspecial xs) ts = y # ys"
    using assms(2) by (metis Cons_nth_drop_Suc)
  have d: "dec_loop (frame xs @ y # ys) 1 (length (frame xs)) = Some (0x7E # xs @ 0x7E #
      replicate (length (escape xs) - length xs) y @ y # ys, length xs + 2)"
    using dec_loop_frame [of "escape xs" y ys] by (simp add: frame_def unescape_escape)
  have r: "\<exists>b. rd (0x7E # xs @ 0x7E # ws) 7 = Some b \<and> (b = 0x68) = ?at" for ws
    using assms(3) by (cases "length xs = 6") (auto simp: rd_def nth_append)
  have "diag_decode u (frame xs @ y # ys) (length (frame xs)) =
      Some (u\<lparr>m_nDiagAT := ?at\<rparr>, 0x7E # xs @ 0x7E #
        replicate (length (escape xs) - length xs) y @ y # ys, length xs + 2)"
  proof -
    obtain b where "rd (0x7E # xs @ 0x7E # replicate (length (escape xs) - length xs) y @ y # ys) 7 = Some b"
      and "(b = 0x68) = ?at" using r by blast
    then show ?thesis unfolding diag_decode_def d by simp
  qed
  then show ?thesis unfolding e y by blast
qed

theorem diag_decode_encode_witness:
  "\<exists>m n rest. diag_encode sample_diag (0x7E # [1, 0, 0, 0, 0x7E, 0, 0x68] @ 0x7E # [0, 0]) 9 = Some (m, n) \<and>
    n = 10 \<and>
    diag_decode sample_diag m n = Some (sample_diag\<lparr>m_nDiagAT := True\<rparr>,
      0x7E # [1, 0, 0, 0, 0x7E, 0, 0x68] @ 0x7E # rest, 9)"
  using diag_decode_encode [of sample_diag "[1, 0, 0, 0, 0x7E, 0, 0x68]" "[0, 0]" sample_diag]
  by (simp add: deal_with_at_def sample_diag_def trans_init_def special_def length_frame
      suc2)

text \<open>C8 (finding a frame): on the non-empty bytes of a read, \<open>checkframe\<close> reports and keeps:
  with a flag at both ends the bytes as they are, as a complete frame; otherwise, with two flags
  or more, the bytes from the first flag to the second, as a complete frame; otherwise the bytes
  from the only flag on, as the start of a frame (\<open>FRAME_HALF_CONTINUE\<close>); otherwise everything, as
  an invalid frame. The table in the comment of \<open>checkframe\<close> has the same cases but one: its third row
  calls a read that starts with its only flag invalid, and the code reports the start of a
  frame there, as it does wherever the only flag is.\<close>

theorem diag_checkframe_detects:
  assumes "m_apProcess t = 1" and "bs \<noteq> []"
  shows "diag_checkframe t (bs @ post) (length bs) =
    (let (kind, f) = detect bs in
     Some (t\<lparr>m_iCurFrameType := kind\<rparr>, f @ drop (length f) (bs @ post), length f, kind))"
  by (rule checkframe_closed [OF assms])

theorem diag_checkframe_detects_witness:
  "diag_checkframe sample_diag ([1, 0x7E, 2, 0x7E, 3] @ [0]) 5 =
     Some (sample_diag\<lparr>m_iCurFrameType := FRAME_COMPLETE\<rparr>, [0x7E, 2, 0x7E, 0x7E, 3, 0], 3, FRAME_COMPLETE)"
  using diag_checkframe_detects [of sample_diag "[1, 0x7E, 2, 0x7E, 3]" "[0]"]
  by (simp add: detect_def sample_diag_def trans_init_def suc2)

text \<open>(a read that fills the buffer): when a request fills the whole buffer and holds a byte to
  unescape before its last two bytes, the shift loop of \<open>decode\<close> copies \<open>buff[len]\<close>, which lies
  behind the buffer.\<close>

theorem diag_decode_full_buffer:
  assumes "\<exists>b \<in> set xs. special b"
  shows "diag_decode t (0x7E # xs @ [c, e]) (length xs + 3) = None"
proof -
  obtain us b vs where xs: "xs = us @ b # vs" and us: "list_all (\<lambda>b. \<not> special b) us" and b: "special b"
    using split_list_first_prop [OF assms] by (metis list_all_iff)
  obtain d ds where ds: "vs @ [c, e] = d # ds" and nds: "ds \<noteq> []"
    by (cases vs) auto
  let ?m = "(0x7E # us) @ b # d # ds"
  have m: "0x7E # xs @ [c, e] = ?m" using xs ds by simp
  have l: "length xs + 3 = length ?m" using arg_cong [OF ds, of length] xs by simp
  let ?i = "length (0x7E # us)"
  have "dec_loop ?m 1 (length ?m) = dec_loop ?m ?i (length ?m)"
    using dec_loop_run [OF us, of "[0x7E]" "length ?m" "b # d # ds"] nds by simp
  also have "\<dots> = None"
  proof -
    have "rd ?m ?i = Some b" by (simp only: rd_mid)
    moreover have "rd ?m (?i + 1) = Some d" by (simp add: rd_def nth_append)
    moreover have "wr ?m ?i (d XOR 0x20) = Some ((0x7E # us) @ (d XOR 0x20) # d # ds)" by (simp only: wr_mid)
    moreover have "shl ((0x7E # us) @ (d XOR 0x20) # d # ds) (?i + 1) (length ?m) = None"
      using shl_past_end [of "?i + 1" "(0x7E # us) @ (d XOR 0x20) # d # ds"] by simp
    moreover have "?i + 2 < length ?m" using nds by simp
    ultimately show ?thesis using b by (subst dec_loop.simps) simp
  qed
  finally show ?thesis unfolding diag_decode_def m l by simp
qed

theorem diag_decode_full_buffer_witness:
  "diag_decode sample_diag [0x7E, 0x7D, 0x5E, 0x7E] 4 = None"
  using diag_decode_full_buffer [of "[0x7D]" sample_diag "0x5E" "0x7E"] by (simp add: suc2)

text \<open>(\<open>translate_packet\<close>): for \<open>sz\<close> bytes of the source and a destination of twice that and
  two more, the function stays inside both arrays, leaves exactly the frame of the source
  bytes at the start of the destination, and returns its length; no two payloads give the same
  bytes.\<close>

theorem translate_packet_frames:
  assumes "sz \<le> length src" and "2 * sz + 2 \<le> length dest"
  shows "translate_packet dest src sz = Some (frame (take sz src)
      @ drop (length (frame (take sz src))) dest, length (frame (take sz src)))
    \<and> length (frame (take sz src)) \<le> 2 * sz + 2
    \<and> (frame (take sz src) = frame ys \<longleftrightarrow> take sz src = ys)"
proof -
  have "length (frame (take sz src)) \<le> 2 * sz + 2"
    using nspecial_le [of "take sz src"] assms(1) by (simp add: length_frame min_absorb2)
  then show ?thesis
    using assms by (simp add: translate_packet_closed frame_eq_iff)
qed

theorem translate_packet_frames_witness:
  "translate_packet [0, 0, 0, 0, 0, 0] [0x7E, 5, 6] 2 = Some ([0x7E, 0x7D, 0x5E, 5, 0x7E, 0], 5)"
  using translate_packet_frames [of 2 "[0x7E, 5, 6]" "[0, 0, 0, 0, 0, 0]" "[]"]
  by (simp add: frame_def esc_byte_def special_def suc2)

text \<open>The pending mark is recognised only as the very end of the response text of an AT command,
  and never next to an error.\<close>

lemma checkPending_iff:
  assumes "m_nDiagAT t" and "cstr_at rsp 0 = Some s"
  shows "checkPending t rsp = Some (strcasestr s (cs ''ERROR'') = None
      \<and> strcasestr s PENDING_MARK \<noteq> None \<and> suffix PENDING_MARK s)"
proof -
  have "drop (length s - length PENDING_MARK) s = PENDING_MARK \<longleftrightarrow> suffix PENDING_MARK s"
    using suffix_drop [of "length s - length PENDING_MARK" s] by (auto simp: suffix_def)
  then show ?thesis using assms by (simp add: checkPending_def)
qed

end
