(* ===== verification/SmpProto.thy ===== *)
theory SmpProto
  imports Protol
begin

text \<open>
  The other protocol classes: \<open>CProtol\<close> and \<open>CProtolAT\<close>, whose messages are sent as they are
  (\<open>CProtolAT\<close> measures its text with \<open>strlen\<close>), and \<open>CProtolSmp\<close>, which puts an SMP header and
  a message header of twenty bytes together in front of every audio DSP log packet.
\<close>

section \<open>\<open>CProtol\<close> and \<open>CProtolAT\<close>\<close>

definition protol_decode :: "mem \<Rightarrow> int \<Rightarrow> int" where "protol_decode buff nlen = nlen"
definition protol_encode :: "mem \<Rightarrow> int \<Rightarrow> int" where "protol_encode buff nlen = nlen"

definition at_decode :: "mem \<Rightarrow> int \<Rightarrow> int option" where
  "at_decode buff len = do { s \<leftarrow> cstr_at buff 0; Some (int (length s)) }"

definition at_encode :: "mem \<Rightarrow> int \<Rightarrow> int option" where
  "at_encode buff len = do { s \<leftarrow> cstr_at buff 0; Some (int (length s)) }"

text \<open>\<open>CProtolAT::process\<close>: the response length when a module wrote a text and returned 0.\<close>

definition at_process_len :: "mem \<Rightarrow> int \<Rightarrow> int option" where
  "at_process_len rsp retlen =
     (if retlen = 0
      then do { s \<leftarrow> cstr_at rsp 0; Some (if s \<noteq> [] then int (length s) else retlen) }
      else Some retlen)"

section \<open>\<open>CProtolSmp\<close>\<close>

definition AUDIO_DSP_LOG :: nat where "AUDIO_DSP_LOG = 0"
definition AUDIO_DSP_PCM :: nat where "AUDIO_DSP_PCM = 1"
definition AUDIO_DSP_MEM :: nat where "AUDIO_DSP_MEM = 2"

text \<open>\<open>n = (uint32_t)pkt_len + 0x5a5a; n = (n & 0xffff) + (n >> 16); n = ~n\<close>; \<open>checksum\<close> is the
  32-bit word whose two low bytes are stored.\<close>

definition smp_checksum :: "nat \<Rightarrow> 32 word" where
  "smp_checksum pkt_len =
     (let n = word_of_nat pkt_len + 0x5a5a;
          n = (n AND 0xffff) + drop_bit 16 n
      in NOT n)"

definition smp_header :: "32 word \<Rightarrow> nat \<Rightarrow> nat \<Rightarrow> byte list" where
  "smp_header sn len type =
     [0x7e, 0x7e, 0x7e, 0x7e] @ le16 (len + 8 + 8) @ [0, 0, 0x5a, 0x5a]
     @ le16 (unat (smp_checksum (len + 8 + 8))) @ le32 (unat sn) @ le16 (len + 8)
     @ [0x9d, 0x40 OR of_nat type]"

text \<open>The stores of \<open>ag_dsplog_add_headers\<close>, in the order of the code: one byte each.\<close>

fun wr_seq :: "mem \<Rightarrow> nat \<Rightarrow> byte list \<Rightarrow> mem option" where
  "wr_seq m i [] = Some m"
| "wr_seq m i (b # bs) = do { m' \<leftarrow> wr m i b; wr_seq m' (i + 1) bs }"

text \<open>\<open>m_sn\<close> is a signed int: the shifts for its bytes read its two's complement, and
  incrementing it past its maximum is undefined in C; it is kept in \<open>m_sn\<close> as that integer.\<close>

definition ag_dsplog_add_headers :: "ctrans \<Rightarrow> mem \<Rightarrow> nat \<Rightarrow> nat \<Rightarrow> (ctrans \<times> mem) option" where
  "ag_dsplog_add_headers t buf len type = do {
     m \<leftarrow> wr_seq buf 0 (smp_header (word_of_int (m_sn t)) len type);
     (if m_sn t < 2147483647 then Some (t\<lparr>m_sn := m_sn t + 1\<rparr>, m) else None)
   }"

definition smp_encode :: "ctrans \<Rightarrow> mem \<Rightarrow> nat \<Rightarrow> (ctrans \<times> mem \<times> nat) option" where
  "smp_encode t buff nlen = do {
     m \<leftarrow> memmv buff 20 0 nlen;
     (if m_dataType t = DATA_AGDSP_LOG then do {
        (t', m') \<leftarrow> ag_dsplog_add_headers t m nlen AUDIO_DSP_LOG; Some (t', m', nlen + 20) }
      else if m_dataType t = DATA_AGDSP_PCM then do {
        (t', m') \<leftarrow> ag_dsplog_add_headers t m nlen AUDIO_DSP_PCM; Some (t', m', nlen + 20) }
      else if m_dataType t = DATA_AGDSP_MEM then do {
        (t', m') \<leftarrow> ag_dsplog_add_headers t m nlen AUDIO_DSP_MEM; Some (t', m', nlen + 20) }
      else Some (t, m, nlen))
   }"

definition smp_decode :: "mem \<Rightarrow> int \<Rightarrow> int" where "smp_decode buff nlen = nlen"

section \<open>Lemmas\<close>

lemma length_smp_header [simp]: "length (smp_header sn len type) = 20"
  by (simp add: smp_header_def)

lemma wr_seq_put: "i + length bs \<le> length m \<Longrightarrow> wr_seq m i bs = put m i bs"
proof (induction bs arbitrary: m i)
  case Nil
  then show ?case by (simp add: put_def)
next
  case (Cons b bs)
  have "take (Suc i) (m[i := b]) = take i m @ [b]"
    using Cons.prems by (simp add: take_Suc_conv_app_nth)
  with Cons show ?case by (simp add: wr_def put_def)
qed

text \<open>The kind of audio packet a data type stands for.\<close>

fun dsp_kind :: "DATA_TYPE \<Rightarrow> nat option" where
  "dsp_kind DATA_AGDSP_LOG = Some AUDIO_DSP_LOG"
| "dsp_kind DATA_AGDSP_PCM = Some AUDIO_DSP_PCM"
| "dsp_kind DATA_AGDSP_MEM = Some AUDIO_DSP_MEM"
| "dsp_kind _ = None"

lemma smp_encode_closed:
  assumes "dsp_kind (m_dataType t) = Some k" and "m_sn t < 2147483647"
    and "nlen + 20 \<le> length buff"
  shows "smp_encode t buff nlen =
    Some (t\<lparr>m_sn := m_sn t + 1\<rparr>,
          smp_header (word_of_int (m_sn t)) nlen k @ take nlen buff @ drop (nlen + 20) buff, nlen + 20)"
proof -
  have mv: "memmv buff 20 0 nlen = Some (take 20 buff @ take nlen buff @ drop (20 + nlen) buff)"
    using assms(3) by (simp add: memmv_def get_def put_def)
  let ?m = "take 20 buff @ take nlen buff @ drop (20 + nlen) buff"
    and ?h = "smp_header (word_of_int (m_sn t)) nlen k"
  have "wr_seq ?m 0 ?h = put ?m 0 ?h"
    by (rule wr_seq_put) (use assms(3) in simp)
  also have "\<dots> = Some (?h @ take nlen buff @ drop (nlen + 20) buff)"
    using put_append [of ?h "take 20 buff" "[]" "take nlen buff @ drop (20 + nlen) buff"] assms(3)
    by (simp add: add.commute)
  finally have "ag_dsplog_add_headers t ?m nlen k =
      Some (t\<lparr>m_sn := m_sn t + 1\<rparr>, ?h @ take nlen buff @ drop (nlen + 20) buff)"
    using assms(2) by (simp add: ag_dsplog_add_headers_def)
  then show ?thesis
    using assms(1) mv
    by (cases "m_dataType t") (simp_all add: smp_encode_def)
qed

lemma unat_fold16:
  fixes n :: "32 word"
  assumes "unat n < 131071"
  shows "unat ((n AND 0xffff) + drop_bit 16 n) = unat n mod 65536 + unat n div 65536"
    and "unat n mod 65536 + unat n div 65536 \<le> 65535"
proof -
  have "n AND 0xffff = take_bit 16 n" by (simp add: take_bit_eq_mask mask_eq_exp_minus_1)
  then have "unat (n AND 0xffff) = take_bit 16 (unat n)"
    by (simp only: unsigned_take_bit_eq)
  also have "\<dots> = unat n mod 2 ^ 16" by (rule take_bit_eq_mod)
  finally have a: "unat (n AND 0xffff) = unat n mod 65536" by simp
  have "unat (drop_bit 16 n) = drop_bit 16 (unat n)" by (rule unat_drop_bit_eq)
  also have "\<dots> = unat n div 2 ^ 16" by (rule drop_bit_eq_div)
  finally have d: "unat (drop_bit 16 n) = unat n div 65536" by simp
  show le: "unat n mod 65536 + unat n div 65536 \<le> 65535" 
  proof (cases "unat n < 65536")
    case False
    then obtain k where k: "unat n = k + 65536" by (metis le_add_diff_inverse2 not_less)
    with assms have "k < 65535" by simp
    with k show ?thesis by simp
  qed simp
  show "unat ((n AND 0xffff) + drop_bit 16 n) = unat n mod 65536 + unat n div 65536"
    using a d le by (simp add: unat_word_ariths)
qed

lemma unat_not16:
  fixes n :: "32 word"
  assumes "unat n \<le> 65535"
  shows "unat (NOT n) mod 65536 = 65535 - unat n"
proof -
  have "NOT n = 4294967295 - n" by (simp add: not_eq_complement)
  moreover have "n \<le> 4294967295" by (simp add: word_le_nat_alt) (use assms in simp)
  ultimately have "unat (NOT n) = 4294967295 - unat n" by (simp add: unat_sub)
  moreover have "(4294967295 - k) mod 65536 = 65535 - k" if "k \<le> 65535" for k :: nat
  proof -
    have "4294967295 - k = (65535 - k) + 65535 * 65536" using that by simp
    then have "(4294967295 - k) mod 65536 = (65535 - k) mod 65536" by (simp only: mod_mult_self1)
    also have "\<dots> = 65535 - k" by (rule mod_less) simp
    finally show ?thesis .
  qed
  ultimately show ?thesis using assms by simp
qed

lemma smp_checksum_complements:
  assumes "pkt_len < 65536"
  shows "unat (smp_checksum pkt_len) mod 65536
    + ((pkt_len + 0x5a5a) mod 65536 + (pkt_len + 0x5a5a) div 65536) = 65535"
proof -
  let ?n = "word_of_nat pkt_len + 0x5a5a :: 32 word"
  have n: "unat ?n = pkt_len + 0x5a5a" using assms by (simp add: unat_word_ariths unat_of_nat)
  then have b: "unat ?n < 131071" using assms by simp
  show ?thesis
    using unat_fold16 [OF b] unat_not16 [of "(?n AND 0xffff) + drop_bit 16 ?n"]
    unfolding smp_checksum_def Let_def by (simp add: n)
qed

section \<open>Properties\<close>

text \<open>(audio DSP packets): for the three audio data types \<open>CProtolSmp::encode\<close> moves the
  packet twenty bytes up, puts the SMP and message headers in front, returns the length of both
  together and advances the serial number; with at least twenty bytes of room it never leaves the
  buffer.\<close>

theorem smp_encode_packet:
  assumes "dsp_kind (m_dataType t) = Some k" and "m_sn t < 2147483647"
    and "length body + 20 \<le> length (body @ post)"
  shows "smp_encode t (body @ post) (length body) =
    Some (t\<lparr>m_sn := m_sn t + 1\<rparr>,
      smp_header (word_of_int (m_sn t)) (length body) k @ body @ drop 20 post, length body + 20)"
  using smp_encode_closed [OF assms] by simp

definition sample_agdsp :: ctrans where
  "sample_agdsp = trans_init KAgdsp (cs ''AGDSP'') 0 1 DATA_AGDSP_PCM 1"

theorem smp_encode_packet_witness:
  "smp_encode sample_agdsp ([1, 2] @ replicate 20 0) 2 =
    Some (sample_agdsp\<lparr>m_sn := 1\<rparr>, smp_header 0 2 AUDIO_DSP_PCM @ [1, 2], 22)"
  using smp_encode_packet [of sample_agdsp AUDIO_DSP_PCM "[1, 2]" "replicate 20 0"]
  by (simp add: sample_agdsp_def trans_init_def suc2)

text \<open>(the SMP checksum): for every packet length that fits its 16-bit field, the checksum
  the header carries makes the one's-complement sum of the covered words all ones, which is what a
  receiver tests; the length and serial number can be read back from the header.\<close>

theorem smp_header_checksum:
  assumes "len + 16 < 65536"
  shows "let h = smp_header sn len k in
    de16 (drop 4 h) = len + 16 \<and> de32 (drop 12 h) = unat sn \<and> de16 (drop 16 h) = len + 8
    \<and> ((de16 (drop 4 h) + de16 (drop 8 h)) mod 65536 + (de16 (drop 4 h) + de16 (drop 8 h)) div 65536)
       + de16 (drop 10 h) = 65535"
proof -
  have de: "de16 (le16 n @ xs) = n mod 65536" "de32 (le32 n @ xs) = n mod 4294967296" for n xs
    using de16_le16 [of n] de32_le32 [of n]
    by (simp_all add: de16_def de32_def nth_append)
  have "de16 (drop 8 (smp_header sn len k)) = 0x5a5a"
    by (simp add: smp_header_def le16_def le32_def de16_def)
  moreover have "de16 (drop 4 (smp_header sn len k)) = len + 16"
    using assms by (simp add: smp_header_def de)
  moreover have "de16 (drop 10 (smp_header sn len k)) = unat (smp_checksum (len + 16)) mod 65536"
    by (simp add: smp_header_def de add.commute)
  moreover have "de32 (drop 12 (smp_header sn len k)) = unat sn"
    using unsigned_less [of sn, where ?'a = nat] by (simp add: smp_header_def de)
  moreover have "de16 (drop 16 (smp_header sn len k)) = len + 8"
    using assms by (simp add: smp_header_def de)
  ultimately show ?thesis
    using smp_checksum_complements [OF assms] by (simp add: Let_def add.commute)
qed

theorem smp_header_checksum_witness:
  "let h = smp_header 7 100 AUDIO_DSP_MEM in de16 (drop 4 h) = 116 \<and> de32 (drop 12 h) = 7"
  using smp_header_checksum [of 100 7 AUDIO_DSP_MEM] by (simp add: Let_def)

end
