(* ===== verification/Port.thy ===== *)
theory Port
  imports DiagProto
begin

text \<open>
  \<open>CPort\<close> (\<open>server/chnl/CPort.cpp\<close>): the fields of a port, opening and closing with a client
  count, reopening after an error, the notify pipe, and the read and write loops. The operating
  system is an explicit input: the results of the successive \<open>open\<close> calls are a function of
  their number, and what the successive \<open>select\<close>, \<open>read\<close> and \<open>write\<close> calls report is a list of
  events. A loop that has used up its events is blocked in \<open>select\<close>.
\<close>

section \<open>State\<close>

definition PORT_NAME_LEN :: nat where "PORT_NAME_LEN = 32"
definition PORT_PATH_LEN :: nat where "PORT_PATH_LEN = 64"
definition PORT_RESERVED_LEN :: nat where "PORT_RESERVED_LEN = 128"
definition PORT_DESC_LEN :: nat where "PORT_DESC_LEN = 128"
definition DEV_NAME_LEN :: nat where "DEV_NAME_LEN = 32"
definition MAX_VSER_BUFF_LEN :: nat where "MAX_VSER_BUFF_LEN = 8 * 1024"
definition MAX_PORT_BUFF_RD :: nat where "MAX_PORT_BUFF_RD = MAX_VSER_BUFF_LEN * 8 - 16"
definition MAX_PORT_OPEN_TIMEOUT :: nat where "MAX_PORT_OPEN_TIMEOUT = 5 * 60"
definition MAX_MSG_LEN :: nat where "MAX_MSG_LEN = 256"
definition MSG_NOTIFY_UPDATE_FD :: "byte list" where "MSG_NOTIFY_UPDATE_FD = cs ''MSG_UPDATE_FD''"
definition MSG_NOTIFY_EXIT :: "byte list" where "MSG_NOTIFY_EXIT = cs ''MSG_EXIT''"

record port =
  m_devName :: "byte list"
  portName :: "byte list"
  portType :: PORT_TYPE
  portPath :: "byte list"
  p_dataType :: DATA_TYPE
  p_reserved :: "byte list"
  p_desc :: "byte list"
  m_nClient :: int
  m_fd :: int
  m_bSuspend :: bool
  m_lpTrans :: "nat option"
  m_bEnableRD :: bool
  m_bEnableWR :: bool
  m_pipeMonitor :: int
  m_pipeNotify :: int
  p_pipe :: "byte list"  \<comment> \<open>what the pipe holds\<close>

text \<open>The system: the result of the \<open>n\<close>-th \<open>open\<close> call and the number of calls so far.\<close>

record os =
  open_results :: "nat \<Rightarrow> int"
  open_calls :: nat

definition sys_open :: "os \<Rightarrow> int \<times> os" where
  "sys_open os = (open_results os (open_calls os), os\<lparr>open_calls := open_calls os + 1\<rparr>)"

text \<open>A call returns, waits for ever in \<open>select\<close>, or leaves an array.\<close>

datatype 'a call = Ret 'a | Blocked | UB

section \<open>Operations\<close>

subsection \<open>Construction, attaching, enabling\<close>

text \<open>The macro \<open>MEMCPY\<close>: at most one byte less than the field; a null pointer copies nothing.\<close>

definition MEMCPY :: "nat \<Rightarrow> byte list option \<Rightarrow> byte list" where
  "MEMCPY sz s = (case s of None \<Rightarrow> [] | Some bs \<Rightarrow> take (sz - 1) bs)"

definition port_init ::
  "(int \<times> int) option \<Rightarrow> byte list \<Rightarrow> byte list \<Rightarrow> PORT_TYPE \<Rightarrow> byte list option \<Rightarrow> DATA_TYPE
   \<Rightarrow> byte list option \<Rightarrow> byte list option \<Rightarrow> port" where
  "port_init pipe devname name ptype path dtype res des =
     \<lparr>m_devName = MEMCPY DEV_NAME_LEN (Some devname),
      portName = MEMCPY PORT_NAME_LEN (Some name),
      portType = ptype,
      portPath = MEMCPY PORT_PATH_LEN path,
      p_dataType = dtype,
      p_reserved = MEMCPY PORT_RESERVED_LEN res,
      p_desc = MEMCPY PORT_DESC_LEN des,
      m_nClient = 0, m_fd = - 1, m_bSuspend = False, m_lpTrans = None,
      m_bEnableRD = True, m_bEnableWR = True,
      m_pipeMonitor = (case pipe of Some (r, w) \<Rightarrow> r | None \<Rightarrow> 0),
      m_pipeNotify = (case pipe of Some (r, w) \<Rightarrow> w | None \<Rightarrow> 0),
      p_pipe = []\<rparr>"

text \<open>The constructor from the words of a configuration file.\<close>

definition port_new ::
  "(int \<times> int) option \<Rightarrow> byte list \<Rightarrow> byte list \<Rightarrow> byte list \<Rightarrow> byte list option \<Rightarrow> byte list
   \<Rightarrow> byte list option \<Rightarrow> byte list option \<Rightarrow> port" where
  "port_new pipe devname name porttype path datatype res des =
     port_init pipe devname name (str2PortType porttype) path (str2DataType datatype) res des"

definition port_attach :: "port \<Rightarrow> nat option \<Rightarrow> nat option \<times> port" where
  "port_attach p t = (m_lpTrans p, p\<lparr>m_lpTrans := t\<rparr>)"

definition port_enable :: "port \<Rightarrow> bool \<Rightarrow> bool \<Rightarrow> bool \<times> port" where
  "port_enable p rdOn wrOn = (True, p\<lparr>m_bEnableRD := rdOn, m_bEnableWR := wrOn\<rparr>)"

definition port_getEnable :: "port \<Rightarrow> bool \<times> bool" where
  "port_getEnable p = (m_bEnableRD p, m_bEnableWR p)"

text \<open>\<open>CPort::find\<close> compares only as many characters as the port's own name has.\<close>

definition port_find :: "port \<Rightarrow> byte list \<Rightarrow> bool" where
  "port_find p name = strncaseeq (length (portName p)) name (portName p)"

definition is_ser :: "PORT_TYPE \<Rightarrow> bool" where
  "is_ser t \<longleftrightarrow> t = PORT_GSER \<or> t = PORT_VSER \<or> t = PORT_COM"

subsection \<open>Opening and closing\<close>

text \<open>\<open>do { m_fd = ::open(...); if (m_fd >= 0) break; usleep(...) } while (second-- > 0)\<close>\<close>

fun open_loop :: "nat \<Rightarrow> os \<Rightarrow> int \<times> os" where
  "open_loop second os =
     (let (fd, os') = sys_open os in
      if fd \<ge> 0 then (fd, os')
      else case second of 0 \<Rightarrow> (fd, os') | Suc s \<Rightarrow> open_loop s os')"

definition port_open :: "port \<Rightarrow> os \<Rightarrow> int \<times> port \<times> os" where
  "port_open p os =
     (if \<not> m_bEnableRD p then (- 1, p, os)
      else if portType p = PORT_LOOP then (0, p, os)
      else if portType p = PORT_INTERFACE then (0, p, os)
      else if port_type_val (portType p) > port_type_val PORT_LOOP then (- 1, p, os)
      else if m_fd p \<ge> 0 then (0, p\<lparr>m_nClient := m_nClient p + 1\<rparr>, os)
      else if portType p = PORT_SOCK then (0, p, os)
      else let (fd, os') = open_loop MAX_PORT_OPEN_TIMEOUT os in
           if fd < 0 then (- 1, p\<lparr>m_fd := fd\<rparr>, os')
           else (0, p\<lparr>m_fd := fd, m_nClient := 1\<rparr>, os'))"

definition port_close :: "port \<Rightarrow> int \<times> port" where
  "port_close p =
     (0, if m_fd p \<ge> 0
         then let p' = p\<lparr>m_nClient := m_nClient p - 1\<rparr> in
              if m_nClient p' \<le> 0 then p'\<lparr>m_fd := - 1, m_nClient := 0\<rparr> else p'
         else p)"

definition port_notify :: "port \<Rightarrow> byte list \<Rightarrow> port" where
  "port_notify p msg = (if m_pipeNotify p \<ge> 0 then p\<lparr>p_pipe := p_pipe p @ msg\<rparr> else p)"

definition port_start :: "port \<Rightarrow> int \<times> port" where "port_start p = (0, p)"

definition port_stop :: "port \<Rightarrow> int \<times> port" where
  "port_stop p = (0, if m_bSuspend p then port_notify p MSG_NOTIFY_EXIT else p)"

definition port_reset :: "port \<Rightarrow> int \<times> port" where
  "port_reset p = (0, snd (port_start (snd (port_stop p))))"

text \<open>\<open>while (second-- > 0 && 0 != open()) sleep(1)\<close>, with the value of \<open>second\<close> after it.\<close>

fun reopen_loop :: "nat \<Rightarrow> port \<Rightarrow> os \<Rightarrow> int \<times> port \<times> os" where
  "reopen_loop 0 p os = (- 1, p, os)"
| "reopen_loop (Suc s) p os =
     (let (r, p', os') = port_open p os in
      if r = 0 then (int s, p', os') else reopen_loop s p' os')"

definition port_reopen :: "port \<Rightarrow> nat \<Rightarrow> os \<Rightarrow> int \<times> port \<times> os" where
  "port_reopen p second os =
     (let nCount = m_nClient p;
          p1 = snd (port_close (p\<lparr>m_nClient := 1\<rparr>));
          (sec, p2, os') = reopen_loop second p1 os;
          p3 = (if sec > 0 then port_notify p2 MSG_NOTIFY_UPDATE_FD else p2)
      in (if sec > 0 then 0 else - 1, p3\<lparr>m_nClient := nCount\<rparr>, os'))"

declare open_loop.simps [simp del]

subsection \<open>Reading\<close>

text \<open>
  What \<open>select\<close> and \<open>read\<close> report next: an error or a time-out of \<open>select\<close>, bytes another
  thread wrote to the notify pipe, bytes that arrived at the port, or a failing \<open>read\<close> (with
  \<open>errno == EBUSY\<close> or not; a \<open>read\<close> that returns 0 takes the same path).
\<close>

datatype rd_event = RSelErr | RTimeout | RPipe "byte list" | RData "byte list" | RFail bool

fun ev_weight :: "rd_event \<Rightarrow> nat" where
  "ev_weight (RPipe bs) = 1 + length bs"
| "ev_weight (RData bs) = 21 + length bs"
| "ev_weight (RFail b) = 20"
| "ev_weight _ = 1"

text \<open>\<open>m_lpTrans->checkframe\<close>: virtual, only \<open>CProtolDiag\<close> overrides it.\<close>

definition checkframe ::
  "ctrans \<Rightarrow> mem \<Rightarrow> nat \<Rightarrow> (ctrans \<times> mem \<times> nat \<times> FRAME_TYPE) option" where
  "checkframe t buff nlen =
     (case m_kind t of KDiag \<Rightarrow> diag_checkframe t buff nlen
      | _ \<Rightarrow> Some (t, buff, nlen, FRAME_COMPLETE))"

record rd_state =
  r_buff :: mem
  r_port :: port
  r_trans :: ctrans
  r_os :: os

lemma port_open_pipe: "port_open p os = (r, p', os') \<Longrightarrow> p_pipe p' = p_pipe p"
  by (auto simp: port_open_def Let_def split: if_splits prod.splits)

lemma reopen_loop_pipe: "reopen_loop s p os = (r, p', os') \<Longrightarrow> p_pipe p' = p_pipe p"
  by (induction s arbitrary: p os)
     (auto simp: Let_def split: prod.splits if_splits dest: port_open_pipe)

lemma port_reopen_pipe:
  "port_reopen p s os = (r, p', os') \<Longrightarrow> length (p_pipe p') \<le> length (p_pipe p) + 13"
  by (auto simp: port_reopen_def port_close_def port_notify_def MSG_NOTIFY_UPDATE_FD_def Let_def
      split: prod.splits if_splits dest!: reopen_loop_pipe)

function rd_loop ::
  "rd_state \<Rightarrow> nat \<Rightarrow> nat \<Rightarrow> nat \<Rightarrow> nat \<Rightarrow> rd_event list
   \<Rightarrow> (int \<times> rd_state \<times> rd_event list) call" where
  "rd_loop st offset rdSize nLen max_len evs =
     (if p_pipe (r_port st) \<noteq> []
      then (let p = r_port st; msg = take MAX_MSG_LEN (p_pipe p);
                st' = st\<lparr>r_port := p\<lparr>p_pipe := drop MAX_MSG_LEN (p_pipe p)\<rparr>\<rparr>
            in if strcaseeq (takeWhile (\<lambda>b. b \<noteq> 0) msg) MSG_NOTIFY_EXIT
               then Ret (0, st', evs)
               else rd_loop st' offset rdSize nLen max_len evs)
      else case evs of
        [] \<Rightarrow> Blocked
      | RSelErr # es \<Rightarrow> rd_loop st offset rdSize nLen max_len es
      | RTimeout # es \<Rightarrow> rd_loop st offset rdSize nLen max_len es
      | RPipe bs # es \<Rightarrow>
          rd_loop (st\<lparr>r_port := (r_port st)\<lparr>p_pipe := bs\<rparr>\<rparr>) offset rdSize nLen max_len es
      | RFail busy # es \<Rightarrow>
          (if busy then rd_loop st offset rdSize nLen max_len es
           else let (r, p', os') = port_reopen (r_port st) MAX_PORT_OPEN_TIMEOUT (r_os st);
                    st' = st\<lparr>r_port := p', r_os := os'\<rparr>
                in if r = 0 then rd_loop st' offset rdSize nLen max_len es
                   else Ret (int offset, st', es))
      | RData bs # es \<Rightarrow>
          (if take rdSize bs = [] then rd_loop st offset rdSize nLen max_len (RFail False # es)
           else case put (r_buff st) offset (take rdSize bs) of
             None \<Rightarrow> UB
           | Some m \<Rightarrow>
             (case checkframe (r_trans st) m (offset + length (take rdSize bs)) of
                None \<Rightarrow> UB
              | Some (t, m', off', type) \<Rightarrow>
                (let es' = (if drop rdSize bs = [] then es else RData (drop rdSize bs) # es);
                     st' = st\<lparr>r_buff := m', r_trans := t\<rparr>
                 in if type = FRAME_COMPLETE \<or> type = FRAME_INVALID then Ret (int off', st', es')
                    else if off' \<ge> nLen then Ret (int off', st', es')
                    else rd_loop st' off' (min (nLen - off') max_len) nLen max_len es'))))"
  by pat_completeness auto
termination
  by (relation "measure (\<lambda>(st, offset, rdSize, nLen, max_len, evs).
        length (p_pipe (r_port st)) + (\<Sum>e \<leftarrow> evs. ev_weight e))")
     (auto simp: MAX_MSG_LEN_def split: if_splits dest!: sym [of _ "port_reopen _ _ _"] port_reopen_pipe)

definition internal_read ::
  "port \<Rightarrow> ctrans \<Rightarrow> os \<Rightarrow> mem \<Rightarrow> nat \<Rightarrow> rd_event list \<Rightarrow> (int \<times> rd_state \<times> rd_event list) call" where
  "internal_read p t os buff nLen evs =
     (let st = \<lparr>r_buff = buff, r_port = p, r_trans = t, r_os = os\<rparr> in
      if m_fd p < 0 then Ret (- 1, st, evs)
      else if portType p = PORT_LOOP then Ret (0, st, evs)
      else let max_len = (if is_ser (portType p) then MAX_VSER_BUFF_LEN else MAX_PORT_BUFF_RD);
               rdSize = min nLen max_len
           in if length buff < nLen then UB
              else case rd_loop (st\<lparr>r_buff := replicate nLen 0 @ drop nLen buff,
                                  r_port := p\<lparr>m_bSuspend := True\<rparr>\<rparr>) 0 rdSize nLen max_len evs of
                Ret (n, st', es) \<Rightarrow>
                  Ret (n, st'\<lparr>r_port := (r_port st')\<lparr>m_bSuspend := False\<rparr>\<rparr>, es)
              | Blocked \<Rightarrow> Blocked
              | UB \<Rightarrow> UB)"

definition port_read ::
  "port \<Rightarrow> ctrans \<Rightarrow> os \<Rightarrow> mem \<Rightarrow> nat \<Rightarrow> rd_event list \<Rightarrow> (int \<times> rd_state \<times> rd_event list) call" where
  "port_read p t os buff nLen evs =
     (if m_bEnableRD p then internal_read p t os buff nLen evs
      else Ret (0, \<lparr>r_buff = buff, r_port = p, r_trans = t, r_os = os\<rparr>, evs))"

subsection \<open>Writing\<close>

text \<open>What \<open>select\<close> and \<open>write\<close> report: an error or time-out of \<open>select\<close>, that the port is not the
  ready one, the number of bytes taken, or a failing \<open>write\<close> (with \<open>EBUSY\<close> or not).\<close>

datatype wr_event = WSelErr | WTimeout | WNotReady | WSent nat | WFail bool

record wr_state =
  w_port :: port
  w_os :: os
  w_out :: "byte list list"  \<comment> \<open>what each successful call of \<open>write\<close> handed to the device\<close>

fun wr_loop ::
  "wr_state \<Rightarrow> mem \<Rightarrow> nat \<Rightarrow> nat \<Rightarrow> bool \<Rightarrow> wr_event list
   \<Rightarrow> (int \<times> wr_state \<times> wr_event list) call" where
  "wr_loop st buff nLen offset bsplite [] = Blocked"
| "wr_loop st buff nLen offset bsplite (WSelErr # es) =
     (if nLen > 0 then wr_loop st buff nLen offset bsplite es else Ret (int offset, st, es))"
| "wr_loop st buff nLen offset bsplite (WTimeout # es) = Ret (0, st, es)"
| "wr_loop st buff nLen offset bsplite (WNotReady # es) =
     (if nLen > 0 then wr_loop st buff nLen offset bsplite es else Ret (int offset, st, es))"
| "wr_loop st buff nLen offset bsplite (WSent k # es) =
     (if bsplite \<and> nLen < 32 then UB
      else case get buff offset (if bsplite then nLen - 32 else nLen) of
        None \<Rightarrow> UB
      | Some req \<Rightarrow>
          (let bs = take k req; st' = st\<lparr>w_out := w_out st @ [bs]\<rparr>;
               n = nLen - length bs; off = offset + length bs
           in if n > 0 then wr_loop st' buff n off False es else Ret (int off, st', es)))"
| "wr_loop st buff nLen offset bsplite (WFail busy # es) =
     (if busy
      then if nLen > 0 then wr_loop st buff nLen offset bsplite es else Ret (int offset, st, es)
      else let (r, p', os') = port_reopen (w_port st) MAX_PORT_OPEN_TIMEOUT (w_os st);
               st' = st\<lparr>w_port := p', w_os := os'\<rparr>
           in if r = 0
              then if nLen > 0 then wr_loop st' buff nLen offset bsplite es
                   else Ret (int offset, st', es)
              else Ret (int offset, st', es))"

definition internal_write ::
  "port \<Rightarrow> os \<Rightarrow> mem \<Rightarrow> nat \<Rightarrow> wr_event list \<Rightarrow> (int \<times> wr_state \<times> wr_event list) call" where
  "internal_write p os buff nLen evs =
     (let st = \<lparr>w_port = p, w_os = os, w_out = []\<rparr> in
      if m_fd p < 0 then Ret (- 1, st, evs)
      else if portType p = PORT_LOOP then Ret (int nLen, st, evs)
      else wr_loop st buff nLen 0 (nLen mod 64 = 0 \<and> is_ser (portType p)) evs)"

definition port_write ::
  "port \<Rightarrow> os \<Rightarrow> mem \<Rightarrow> nat \<Rightarrow> wr_event list \<Rightarrow> (int \<times> wr_state \<times> wr_event list) call" where
  "port_write p os buff nLen evs =
     (if m_bEnableWR p then internal_write p os buff nLen evs
      else Ret (0, \<lparr>w_port = p, w_os = os, w_out = []\<rparr>, evs))"

declare rd_loop.simps [simp del]

section \<open>Opening: the retry loop and the client count\<close>

lemma open_loop_succeeds:
  "k \<le> second \<Longrightarrow> (\<And>i. i < k \<Longrightarrow> open_results os (open_calls os + i) < 0)
   \<Longrightarrow> open_results os (open_calls os + k) \<ge> 0
   \<Longrightarrow> open_loop second os =
     (open_results os (open_calls os + k), os\<lparr>open_calls := open_calls os + k + 1\<rparr>)"
proof (induction k arbitrary: second os)
  case 0
  then show ?case by (subst open_loop.simps) (simp add: sys_open_def)
next
  case (Suc k)
  obtain s where s: "second = Suc s" using Suc.prems(1) by (cases second) auto
  let ?os = "os\<lparr>open_calls := open_calls os + 1\<rparr>"
  have "open_loop s ?os = (open_results ?os (open_calls ?os + k), ?os\<lparr>open_calls := open_calls ?os + k + 1\<rparr>)"
  proof (rule Suc.IH)
    show "k \<le> s" using Suc.prems(1) s by simp
    show "open_results ?os (open_calls ?os + i) < 0" if "i < k" for i
      using Suc.prems(2) [of "Suc i"] that by simp
    show "open_results ?os (open_calls ?os + k) \<ge> 0" using Suc.prems(3) by simp
  qed
  then show ?case
    using Suc.prems(2) [of 0] s by (subst open_loop.simps) (simp add: sys_open_def)
qed

lemma open_loop_fails:
  "(\<And>i. i \<le> second \<Longrightarrow> open_results os (open_calls os + i) < 0)
   \<Longrightarrow> open_loop second os =
     (open_results os (open_calls os + second), os\<lparr>open_calls := open_calls os + second + 1\<rparr>)"
proof (induction second arbitrary: os)
  case 0
  then show ?case using 0 [of 0] by (subst open_loop.simps) (simp add: sys_open_def)
next
  case (Suc s)
  let ?os = "os\<lparr>open_calls := open_calls os + 1\<rparr>"
  have "open_loop s ?os = (open_results ?os (open_calls ?os + s), ?os\<lparr>open_calls := open_calls ?os + s + 1\<rparr>)"
    by (rule Suc.IH) (use Suc.prems [of "Suc _"] in auto)
  then show ?case
    using Suc.prems [of 0] by (subst open_loop.simps) (simp add: sys_open_def)
qed

text \<open>A port that \<open>open\<close> really opens.\<close>

definition openable :: "port \<Rightarrow> bool" where
  "openable p \<longleftrightarrow> m_bEnableRD p \<and> portType p \<notin> {PORT_LOOP, PORT_INTERFACE, PORT_SOCK, PORT_UNKNOWN}"

lemma openable_updates [simp]:
  "openable (p\<lparr>m_nClient := n\<rparr>) = openable p" "openable (p\<lparr>m_fd := f\<rparr>) = openable p"
  "openable (p\<lparr>p_pipe := q\<rparr>) = openable p" "openable (p\<lparr>m_bSuspend := b\<rparr>) = openable p"
  by (simp_all add: openable_def)

lemma port_type_val_le: "port_type_val t > port_type_val PORT_LOOP \<longleftrightarrow> t = PORT_UNKNOWN"
  by (cases t) simp_all

lemma port_open_openable:
  "openable p \<Longrightarrow> port_open p os =
     (if m_fd p \<ge> 0 then (0, p\<lparr>m_nClient := m_nClient p + 1\<rparr>, os)
      else let (fd, os') = open_loop MAX_PORT_OPEN_TIMEOUT os in
           if fd < 0 then (- 1, p\<lparr>m_fd := fd\<rparr>, os')
           else (0, p\<lparr>m_fd := fd, m_nClient := 1\<rparr>, os'))"
  unfolding port_open_def port_type_val_le by (auto simp: openable_def)

text \<open>Several clients of one handle: the contract between a port and the transfers that share it.\<close>

locale counted_handle =
  fixes acquire :: "'s \<Rightarrow> 's"
    and release :: "'s \<Rightarrow> 's"
    and live :: "'s \<Rightarrow> bool"
    and count :: "'s \<Rightarrow> nat"
    and handle :: "'s \<Rightarrow> 'h"
  assumes acquire_live: "live s \<Longrightarrow> live (acquire s)"
    and acquire_count: "live s \<Longrightarrow> count (acquire s) = Suc (count s)"
    and acquire_handle: "live s \<Longrightarrow> handle (acquire s) = handle s"
    and release_live: "live s \<Longrightarrow> 1 < count s \<Longrightarrow> live (release s)"
    and release_count: "live s \<Longrightarrow> 1 < count s \<Longrightarrow> count (release s) = count s - 1"
    and release_handle: "live s \<Longrightarrow> 1 < count s \<Longrightarrow> handle (release s) = handle s"
    and release_last: "live s \<Longrightarrow> count s = 1 \<Longrightarrow> \<not> live (release s)"
begin

lemma acquire_many:
  "live s \<Longrightarrow> live ((acquire ^^ n) s) \<and> count ((acquire ^^ n) s) = count s + n
     \<and> handle ((acquire ^^ n) s) = handle s"
  by (induction n) (simp_all add: acquire_live acquire_count acquire_handle)

lemma release_many:
  "live s \<Longrightarrow> n < count s \<Longrightarrow> live ((release ^^ n) s) \<and> count ((release ^^ n) s) = count s - n
     \<and> handle ((release ^^ n) s) = handle s"
  by (induction n) (auto simp: release_live release_count release_handle)

lemma balanced:
  assumes "live s" and "0 < count s"
  shows "live ((release ^^ n) ((acquire ^^ n) s))"
    and "handle ((release ^^ n) ((acquire ^^ n) s)) = handle s"
    and "count ((release ^^ n) ((acquire ^^ n) s)) = count s"
  using acquire_many [OF assms(1), of n] release_many [of "(acquire ^^ n) s" n] assms(2) by simp_all

lemma all_released:
  assumes "live s" and "count s = 1"
  shows "\<not> live ((release ^^ Suc n) ((acquire ^^ n) s))"
  using balanced [OF assms(1), of n] assms(2) release_last by simp

end

definition port_live :: "port \<Rightarrow> bool" where
  "port_live p \<longleftrightarrow> openable p \<and> m_fd p \<ge> 0 \<and> m_nClient p \<ge> 1"

definition open_port :: "os \<Rightarrow> port \<Rightarrow> port" where
  "open_port os p = fst (snd (port_open p os))"

definition close_port :: "port \<Rightarrow> port" where
  "close_port p = snd (port_close p)"

lemma port_open_live: "port_live p \<Longrightarrow> port_open p os = (0, p\<lparr>m_nClient := m_nClient p + 1\<rparr>, os)"
  by (simp add: port_live_def port_open_openable)

interpretation clients: counted_handle "open_port os" close_port port_live "\<lambda>p. nat (m_nClient p)" m_fd
  for os
  by unfold_locales
     (auto simp: open_port_def close_port_def port_open_live port_close_def Let_def,
      auto simp: port_live_def)

section \<open>Reopening\<close>

lemma reopen_loop_first:
  assumes "openable p" and "m_fd p < 0" and "open_results os (open_calls os) \<ge> 0"
  shows "reopen_loop (Suc s) p os =
    (int s, p\<lparr>m_fd := open_results os (open_calls os), m_nClient := 1\<rparr>,
     os\<lparr>open_calls := open_calls os + 1\<rparr>)"
  using assms open_loop_succeeds [of 0 MAX_PORT_OPEN_TIMEOUT os]
  by (simp add: port_open_openable)

lemma reopen_loop_none:
  "openable p \<Longrightarrow> m_fd p < 0 \<Longrightarrow> (\<And>i. open_results os i < 0) \<Longrightarrow>
   \<exists>p' os'. reopen_loop s p os = (- 1, p', os') \<and> m_fd p' < 0 \<and> openable p'
     \<and> p_pipe p' = p_pipe p \<and> open_results os' = open_results os"
proof (induction s arbitrary: p os)
  case (Suc s)
  have f: "open_loop MAX_PORT_OPEN_TIMEOUT os = (open_results os (open_calls os + MAX_PORT_OPEN_TIMEOUT),
      os\<lparr>open_calls := open_calls os + MAX_PORT_OPEN_TIMEOUT + 1\<rparr>)"
    by (rule open_loop_fails) (rule Suc.prems(3))
  let ?p = "p\<lparr>m_fd := open_results os (open_calls os + MAX_PORT_OPEN_TIMEOUT)\<rparr>"
    and ?os = "os\<lparr>open_calls := open_calls os + MAX_PORT_OPEN_TIMEOUT + 1\<rparr>"
  have "\<exists>p' os'. reopen_loop s ?p ?os = (- 1, p', os') \<and> m_fd p' < 0 \<and> openable p'
     \<and> p_pipe p' = p_pipe ?p \<and> open_results os' = open_results ?os"
    by (rule Suc.IH) (use Suc.prems in auto)
  then show ?case
    using Suc.prems f by (simp add: port_open_openable)
qed simp

section \<open>Writing\<close>

text \<open>What the device received is always the beginning of the data, whatever the fragmentation
  and however often the port was reopened in between.\<close>

lemma wr_loop_prefix:
  "wr_loop st buff n off spl evs = Ret (r, st', es) \<Longrightarrow> off + n \<le> length buff \<Longrightarrow>
   \<exists>k \<le> n. concat (w_out st') = concat (w_out st) @ take k (drop off buff)
     \<and> (r = int (off + k) \<or> r = 0)"
proof (induction st buff n off spl evs rule: wr_loop.induct)
  case (5 st buff n off spl k es')
  obtain req where req: "get buff off (if spl then n - 32 else n) = Some req"
    and ns: "\<not> (spl \<and> n < 32)"
    using 5 by (auto split: if_splits option.splits)
  define bs where "bs = take k req"
  have req': "req = take (if spl then n - 32 else n) (drop off buff)"
    using req by (auto simp: get_def split: if_splits)
  have le: "length bs \<le> n" using get_length [OF req] by (auto simp: bs_def)
  have bs: "bs = take (length bs) (drop off buff)"
    unfolding bs_def req' by (simp add: min_def)
  let ?st = "st\<lparr>w_out := w_out st @ [bs]\<rparr>"
  show ?case
  proof (cases "n - length bs > 0")
    case True
    then have "wr_loop ?st buff (n - length bs) (off + length bs) False es' = Ret (r, st', es)"
      using 5(2) req ns by (simp add: bs_def Let_def)
    then obtain j where j: "j \<le> n - length bs"
      "concat (w_out st') = concat (w_out ?st) @ take j (drop (off + length bs) buff)"
      "r = int (off + length bs + j) \<or> r = 0"
      using 5(1) [OF ns req refl refl refl refl] True 5(3) le by (auto simp: bs_def)
    have "take (length bs + j) (drop off buff) = bs @ take j (drop (off + length bs) buff)"
      using bs take_add [of "length bs" j "drop off buff"] by (simp add: add.commute [of off])
    then show ?thesis using j le by (intro exI [of _ "length bs + j"]) auto
  next
    case False
    then have "st' = ?st" "r = int (off + length bs)"
      using 5(2) req ns by (auto simp: bs_def Let_def)
    then show ?thesis using le bs by (intro exI [of _ "length bs"]) simp
  qed
qed (auto simp: Let_def split: if_splits prod.splits)

lemma wr_loop_completes:
  "\<forall>e \<in> set evs. \<exists>k > 0. e = WSent k \<Longrightarrow> n \<le> length evs \<Longrightarrow> 0 < n \<Longrightarrow> off + n \<le> length buff \<Longrightarrow>
   (spl \<longrightarrow> 32 < n) \<Longrightarrow>
   \<exists>st' es. wr_loop st buff n off spl evs = Ret (int (off + n), st', es)
     \<and> concat (w_out st') = concat (w_out st) @ take n (drop off buff)
     \<and> w_port st' = w_port st \<and> w_os st' = w_os st
     \<and> length evs \<le> length es + n \<and> set es \<subseteq> set evs
     \<and> (\<exists>us. w_out st' = w_out st @ us \<and> us \<noteq> [] \<and> length (hd us) \<le> (if spl then n - 32 else n))"
proof (induction evs arbitrary: st n off spl)
  case (Cons e evs)
  obtain k where e: "e = WSent k" and k: "0 < k" using Cons.prems(1) by auto
  let ?m = "if spl then n - 32 else n"
  define bs where "bs = take k (take ?m (drop off buff))"
  have req: "get buff off ?m = Some (take ?m (drop off buff))" using Cons.prems(4) by (auto simp: get_def)
  have l: "0 < length bs" "length bs \<le> n" using k Cons.prems(3,4,5) by (auto simp: bs_def)
  have first: "length bs \<le> ?m" by (simp add: bs_def)
  have bs: "bs = take (length bs) (drop off buff)" unfolding bs_def by (simp add: min_def)
  let ?st = "st\<lparr>w_out := w_out st @ [bs]\<rparr>"
  have step: "wr_loop st buff n off spl (e # evs) =
      (if n - length bs > 0 then wr_loop ?st buff (n - length bs) (off + length bs) False evs
       else Ret (int (off + length bs), ?st, evs))"
    using req Cons.prems(5) by (auto simp: e bs_def Let_def)
  show ?case
  proof (cases "n - length bs > 0")
    case True
    have "\<exists>st' es. wr_loop ?st buff (n - length bs) (off + length bs) False evs
        = Ret (int (off + length bs + (n - length bs)), st', es)
      \<and> concat (w_out st') = concat (w_out ?st) @ take (n - length bs) (drop (off + length bs) buff)
      \<and> w_port st' = w_port ?st \<and> w_os st' = w_os ?st
      \<and> length evs \<le> length es + (n - length bs) \<and> set es \<subseteq> set evs
      \<and> (\<exists>us. w_out st' = w_out ?st @ us \<and> us \<noteq> []
          \<and> length (hd us) \<le> (if False then n - length bs - 32 else n - length bs))"
    proof (rule Cons.IH)
      show "n - length bs \<le> length evs" using Cons.prems(2) l(1) unfolding length_Cons by linarith
    qed (use Cons.prems True l(2) in auto)
    moreover have "take n (drop off buff) = bs @ take (n - length bs) (drop (off + length bs) buff)"
      using bs l take_add [of "length bs" "n - length bs" "drop off buff"] by (simp add: add.commute)
    moreover have "length evs + 1 \<le> length es + n" if "length evs \<le> length es + (n - length bs)" for es :: "wr_event list"
      using that True l(1) by linarith
    ultimately show ?thesis using step True l(2) first by auto
  next
    case False
    then have "length bs = n" using l by simp
    then show ?thesis using step bs first Cons.prems(3) by auto
  qed
qed simp

lemma port_write_all:
  assumes "m_bEnableWR p" and "m_fd p \<ge> 0" and "portType p \<noteq> PORT_LOOP"
    and "0 < nLen" and "nLen \<le> length buff"
    and "\<forall>e \<in> set evs. \<exists>k > 0. e = WSent k" and "nLen \<le> length evs"
  shows "\<exists>st es. port_write p os buff nLen evs = Ret (int nLen, st, es)
    \<and> concat (w_out st) = take nLen buff \<and> w_port st = p \<and> w_os st = os
    \<and> length evs \<le> length es + nLen \<and> set es \<subseteq> set evs
    \<and> w_out st \<noteq> [] \<and> (nLen mod 64 = 0 \<and> is_ser (portType p) \<longrightarrow> length (hd (w_out st)) \<le> nLen - 32)"
proof -
  have "nLen mod 64 = 0 \<Longrightarrow> 32 < nLen" using assms(4) by presburger
  then show ?thesis
    using assms(1-5) wr_loop_completes [OF assms(6,7,4), of 0 buff "nLen mod 64 = 0 \<and> is_ser (portType p)"
        "\<lparr>w_port = p, w_os = os, w_out = []\<rparr>"]
    by (auto simp: port_write_def internal_write_def Let_def)
qed

section \<open>Reading\<close>

lemma rd_loop_data:
  assumes "p_pipe (r_port st) = []" and "bs \<noteq> []" and "length bs \<le> rdSize"
  shows "rd_loop st offset rdSize nLen max_len (RData bs # es) =
    (case put (r_buff st) offset bs of
       None \<Rightarrow> UB
     | Some m \<Rightarrow>
       (case checkframe (r_trans st) m (offset + length bs) of
          None \<Rightarrow> UB
        | Some (t, m', off', type) \<Rightarrow>
          (let st' = st\<lparr>r_buff := m', r_trans := t\<rparr>
           in if type = FRAME_COMPLETE \<or> type = FRAME_INVALID then Ret (int off', st', es)
              else if off' \<ge> nLen then Ret (int off', st', es)
              else rd_loop st' off' (min (nLen - off') max_len) nLen max_len es)))"
  using assms by (subst rd_loop.simps) (simp add: Let_def cong: option.case_cong)

lemma rd_loop_exit:
  assumes "p_pipe (r_port st) = MSG_NOTIFY_EXIT"
  shows "rd_loop st offset rdSize nLen max_len evs = Ret (0, st\<lparr>r_port := (r_port st)\<lparr>p_pipe := []\<rparr>\<rparr>, evs)"
proof -
  have e: "takeWhile (\<lambda>b. b \<noteq> 0) MSG_NOTIFY_EXIT = MSG_NOTIFY_EXIT" "MSG_NOTIFY_EXIT \<noteq> []"
    "take MAX_MSG_LEN MSG_NOTIFY_EXIT = MSG_NOTIFY_EXIT" "drop MAX_MSG_LEN MSG_NOTIFY_EXIT = []"
    by (simp_all add: MSG_NOTIFY_EXIT_def MAX_MSG_LEN_def)
  show ?thesis using assms by (subst rd_loop.simps) (simp add: e Let_def)
qed

text \<open>The frame detector on the pieces of a frame: the start of one asks for more, and the piece
  with the closing flag completes it.\<close>

lemma detect_half: "0x7E \<notin> set a \<Longrightarrow> a \<noteq> [] \<Longrightarrow> detect (0x7E # a) = (FRAME_HALF_CONTINUE, 0x7E # a)"
proof -
  assume a: "0x7E \<notin> set a" "a \<noteq> []"
  then have "last a \<noteq> 0x7E" using last_in_set by metis
  then show ?thesis using a by (simp add: detect_def)
qed

lemma detect_full: "detect (0x7E # a @ [0x7E]) = (FRAME_COMPLETE, 0x7E # a @ [0x7E])"
  by (simp add: detect_def)

lemma checkframe_diag:
  assumes "m_kind t = KDiag" and "m_apProcess t = 1" and "bs \<noteq> []"
  shows "checkframe t (bs @ post) (length bs) =
    (let (kind, f) = detect bs in
     Some (t\<lparr>m_iCurFrameType := kind\<rparr>, f @ drop (length f) (bs @ post), length f, kind))"
  using assms checkframe_closed by (simp add: checkframe_def)


text \<open>Between two reads of a frame the buffer holds what arrived so far, and zeros behind it.\<close>

definition mid_frame :: "nat \<Rightarrow> byte list \<Rightarrow> rd_state \<Rightarrow> bool" where
  "mid_frame nLen acc st \<longleftrightarrow> p_pipe (r_port st) = [] \<and> m_kind (r_trans st) = KDiag
     \<and> m_apProcess (r_trans st) = 1 \<and> length acc \<le> nLen
     \<and> r_buff st = acc @ replicate (nLen - length acc) 0"

lemma put_zeros:
  "length acc + length bs \<le> n \<Longrightarrow> put (acc @ replicate (n - length acc) 0) (length acc) bs
     = Some ((acc @ bs) @ replicate (n - length (acc @ bs)) 0)"
  by (simp add: put_def)

lemma rd_step_half:
  assumes "mid_frame nLen acc st" and "acc @ bs = 0x7E # a" and "0x7E \<notin> set a" and "a \<noteq> []"
    and "bs \<noteq> []" and "length bs \<le> rdSize" and "length acc + length bs < nLen"
  shows "\<exists>st'. mid_frame nLen (acc @ bs) st' \<and> r_os st' = r_os st \<and> r_port st' = r_port st \<and>
    rd_loop st (length acc) rdSize nLen max_len (RData bs # es) =
    rd_loop st' (length (acc @ bs)) (min (nLen - length (acc @ bs)) max_len) nLen max_len es"
proof -
  have p: "put (r_buff st) (length acc) bs = Some ((acc @ bs) @ replicate (nLen - length (acc @ bs)) 0)"
    using assms(1,7) put_zeros [of acc bs nLen] by (simp add: mid_frame_def)
  have d: "detect (acc @ bs) = (FRAME_HALF_CONTINUE, acc @ bs)"
    unfolding assms(2) by (rule detect_half [OF assms(3,4)])
  have c: "checkframe (r_trans st) ((acc @ bs) @ replicate (nLen - length (acc @ bs)) 0) (length (acc @ bs))
      = Some ((r_trans st)\<lparr>m_iCurFrameType := FRAME_HALF_CONTINUE\<rparr>,
          (acc @ bs) @ replicate (nLen - length (acc @ bs)) 0, length (acc @ bs), FRAME_HALF_CONTINUE)"
    using assms(1,5) d by (subst checkframe_diag) (auto simp: mid_frame_def)
  let ?st = "st\<lparr>r_buff := (acc @ bs) @ replicate (nLen - length (acc @ bs)) 0,
      r_trans := (r_trans st)\<lparr>m_iCurFrameType := FRAME_HALF_CONTINUE\<rparr>\<rparr>"
  have "mid_frame nLen (acc @ bs) ?st" using assms(1,7) by (simp add: mid_frame_def)
  moreover have "rd_loop st (length acc) rdSize nLen max_len (RData bs # es) =
      rd_loop ?st (length (acc @ bs)) (min (nLen - length (acc @ bs)) max_len) nLen max_len es"
    using assms(1,5,6,7) p c by (subst rd_loop_data) (simp_all add: mid_frame_def Let_def)
  ultimately show ?thesis by (intro exI [of _ ?st]) simp
qed

lemma rd_step_full:
  assumes "mid_frame nLen acc st" and "acc @ bs = 0x7E # a @ [0x7E]"
    and "bs \<noteq> []" and "length bs \<le> rdSize" and "length acc + length bs \<le> nLen"
  shows "\<exists>st'. rd_loop st (length acc) rdSize nLen max_len (RData bs # es) =
      Ret (int (length (acc @ bs)), st', es)
    \<and> r_buff st' = (acc @ bs) @ replicate (nLen - length (acc @ bs)) 0
    \<and> m_iCurFrameType (r_trans st') = FRAME_COMPLETE \<and> r_port st' = r_port st"
proof -
  have p: "put (r_buff st) (length acc) bs = Some ((acc @ bs) @ replicate (nLen - length (acc @ bs)) 0)"
    using assms(1,5) put_zeros [of acc bs nLen] by (simp add: mid_frame_def)
  have d: "detect (acc @ bs) = (FRAME_COMPLETE, acc @ bs)"
    unfolding assms(2) by (rule detect_full)
  have c: "checkframe (r_trans st) ((acc @ bs) @ replicate (nLen - length (acc @ bs)) 0) (length (acc @ bs))
      = Some ((r_trans st)\<lparr>m_iCurFrameType := FRAME_COMPLETE\<rparr>,
          (acc @ bs) @ replicate (nLen - length (acc @ bs)) 0, length (acc @ bs), FRAME_COMPLETE)"
    using assms(1,3) d by (subst checkframe_diag) (auto simp: mid_frame_def)
  show ?thesis
    using assms(1,3,4) p c by (subst rd_loop_data) (auto simp: mid_frame_def Let_def)
qed

lemma rd_loop_assembles:
  "mid_frame nLen acc st \<Longrightarrow> acc @ concat chunks @ lst = 0x7E # a @ [0x7E] \<Longrightarrow> 0x7E \<notin> set a \<Longrightarrow>
   [] \<notin> set chunks \<Longrightarrow> lst \<noteq> [] \<Longrightarrow> length acc + length (concat chunks @ lst) \<le> nLen \<Longrightarrow>
   2 \<le> length (acc @ hd (chunks @ [lst])) \<Longrightarrow>
   length (concat chunks @ lst) \<le> rdSize \<Longrightarrow> length (concat chunks @ lst) \<le> max_len \<Longrightarrow>
   \<exists>st'. rd_loop st (length acc) rdSize nLen max_len (map RData chunks @ RData lst # es) =
       Ret (int (length a + 2), st', es)
     \<and> r_buff st' = (0x7E # a @ [0x7E]) @ replicate (nLen - length (0x7E # a @ [0x7E])) 0
     \<and> m_iCurFrameType (r_trans st') = FRAME_COMPLETE \<and> r_port st' = r_port st"
proof (induction chunks arbitrary: acc st rdSize)
  case Nil
  then show ?case using rd_step_full [of nLen acc st lst a rdSize max_len es] by simp
next
  case (Cons c cs)
  have "length (acc @ c) \<le> length a + 1"
    using arg_cong [OF Cons.prems(2), of length] Cons.prems(5) by (cases lst) auto
  moreover have "2 \<le> length (acc @ c)" using Cons.prems(7) by simp
  ultimately obtain k where k: "length (acc @ c) = Suc k" "k \<le> length a" "k \<noteq> 0"
    by (cases "length (acc @ c)") auto
  define b where "b = take k a"
  have "take (Suc k) ((acc @ c) @ concat cs @ lst) = acc @ c"
    using k(1) by (simp only: take_append) simp
  moreover have "(acc @ c) @ concat cs @ lst = 0x7E # a @ [0x7E]" using Cons.prems(2) by simp
  ultimately have b: "acc @ c = 0x7E # b"
    using k(2) by (metis b_def take_Suc_Cons take_append diff_is_0_eq take_0 append_Nil2)
  have nb: "b \<noteq> []" "0x7E \<notin> set b"
    using k Cons.prems(3) by (auto simp: b_def dest: in_set_takeD)
  have lt: "length acc + length c < nLen" using Cons.prems(5,6) by (cases lst) auto
  obtain st' where st': "mid_frame nLen (acc @ c) st'" "r_port st' = r_port st"
    "rd_loop st (length acc) rdSize nLen max_len (RData c # map RData cs @ RData lst # es) =
     rd_loop st' (length (acc @ c)) (min (nLen - length (acc @ c)) max_len) nLen max_len
       (map RData cs @ RData lst # es)"
    using rd_step_half [OF Cons.prems(1) b nb(2,1), of rdSize max_len] Cons.prems(4,8) lt by auto
  show ?case
    using Cons.IH [OF st'(1), of "min (nLen - length (acc @ c)) max_len"] Cons.prems st' by auto
qed

section \<open>Properties\<close>

definition rd_limit :: "port \<Rightarrow> nat" where
  "rd_limit p = (if is_ser (portType p) then MAX_VSER_BUFF_LEN else MAX_PORT_BUFF_RD)"

definition sample_port :: port where
  "sample_port = port_init (Some (5, 6)) (cs ''pc'') (cs ''COM'') PORT_GSER (Some (cs ''/dev/x''))
     DATA_DIAG None None"

definition opened :: "port \<Rightarrow> port" where
  "opened p = p\<lparr>m_fd := 3, m_nClient := 1\<rparr>"

definition sample_os :: os where
  "sample_os = \<lparr>open_results = (\<lambda>_. 3), open_calls = 0\<rparr>"

lemmas sample_port_defs = sample_port_def port_init_def opened_def MEMCPY_def sample_diag_def
  trans_init_def PORT_NAME_LEN_def PORT_PATH_LEN_def DEV_NAME_LEN_def

text \<open>C9 (reading a frame): however a diag frame without inner flags is split into pieces by the
  device, \<open>CPort::read\<close> returns the whole frame, its exact length, and zeros behind it, and leaves
  the rest of the events unread; the first piece has to hold more than the opening flag, since a
  lone flag already looks like a complete frame.\<close>

theorem port_read_reassembles:
  assumes "m_bEnableRD p" and "m_fd p \<ge> 0" and "portType p \<noteq> PORT_LOOP" and "p_pipe p = []"
    and "m_kind t = KDiag" and "m_apProcess t = 1"
    and "concat pieces = 0x7E # a @ [0x7E]" and "0x7E \<notin> set a"
    and "pieces \<noteq> []" and "[] \<notin> set pieces" and "2 \<le> length (hd pieces)"
    and "length a + 2 \<le> nLen" and "length a + 2 \<le> rd_limit p" and "length buff = nLen"
  shows "\<exists>st. port_read p t os buff nLen (map RData pieces @ es) = Ret (int (length a + 2), st, es)
    \<and> r_buff st = (0x7E # a @ [0x7E]) @ replicate (nLen - (length a + 2)) 0
    \<and> m_iCurFrameType (r_trans st) = FRAME_COMPLETE"
proof -
  obtain chunks lst where pieces: "pieces = chunks @ [lst]"
    using assms(9) by (cases pieces rule: rev_cases) auto
  have tot: "concat chunks @ lst = 0x7E # a @ [0x7E]" using assms(7) pieces by simp
  let ?st = "\<lparr>r_buff = replicate nLen 0 @ drop nLen buff, r_port = p\<lparr>m_bSuspend := True\<rparr>, r_trans = t, r_os = os\<rparr>"
  have "mid_frame nLen [] ?st" using assms by (simp add: mid_frame_def)
  from rd_loop_assembles [OF this, of chunks lst a "min nLen (rd_limit p)" "rd_limit p" es]
  obtain st where "rd_loop ?st 0 (min nLen (rd_limit p)) nLen (rd_limit p) (map RData pieces @ es) =
      Ret (int (length a + 2), st, es)"
    "r_buff st = (0x7E # a @ [0x7E]) @ replicate (nLen - length (0x7E # a @ [0x7E])) 0"
    "m_iCurFrameType (r_trans st) = FRAME_COMPLETE"
    using tot assms(8,10,11,12,13) pieces by auto
  then show ?thesis
    using assms(1,2,3,14) by (simp add: port_read_def internal_read_def rd_limit_def Let_def)
qed

theorem port_read_reassembles_witness:
  "\<exists>st. port_read (opened sample_port) sample_diag sample_os (replicate 8 0) 8
      [RData [0x7E, 1], RData [2], RData [3, 0x7E], RTimeout] = Ret (5, st, [RTimeout])
    \<and> r_buff st = [0x7E, 1, 2, 3, 0x7E, 0, 0, 0]"
  using port_read_reassembles [of "opened sample_port" sample_diag "[[0x7E, 1], [2], [3, 0x7E]]" "[1, 2, 3]"
      8 "replicate 8 0" sample_os "[RTimeout]"]
  by (auto simp: sample_port_defs rd_limit_def is_ser_def MAX_VSER_BUFF_LEN_def numeral_3_eq_3)

text \<open>(writing, safety): when \<open>CPort::write\<close> returns, the chunks it handed to the device are
  together a prefix of the data, in order and without repetition, and the returned count is the
  length of that prefix, or 0 (a time-out, a disabled port), or -1 (a port that is not open).\<close>

theorem port_write_prefix:
  assumes "port_write p os buff nLen evs = Ret (r, st, es)" and "nLen \<le> length buff"
    and "portType p \<noteq> PORT_LOOP"
  shows "\<exists>k \<le> nLen. concat (w_out st) = take k buff \<and> r \<in> {int k, 0, - 1}"
proof (cases "m_bEnableWR p \<and> \<not> m_fd p < 0")
  case True
  then show ?thesis
    using wr_loop_prefix [of "\<lparr>w_port = p, w_os = os, w_out = []\<rparr>" buff nLen 0 _ evs r st es] assms
    by (fastforce simp: port_write_def internal_write_def Let_def)
next
  case False
  then have "w_out st = []" "r = 0 \<or> r = - 1"
    using assms(1) by (auto simp: port_write_def internal_write_def Let_def split: if_splits)
  then show ?thesis by (intro exI [of _ 0]) auto
qed

theorem port_write_prefix_witness:
  "\<exists>k \<le> 3. concat [[1, 2 :: byte]] = take k [1, 2, 3] \<and> (0 :: int) \<in> {int k, 0, - 1}"
proof -
  let ?p = "opened sample_port"
  have "port_write ?p os [1, 2, 3] 3 [WSent 2, WTimeout] =
      Ret (0, \<lparr>w_port = ?p, w_os = os, w_out = [[1, 2]]\<rparr>, [])"
    by (simp add: port_write_def internal_write_def get_def sample_port_defs is_ser_def Let_def suc2)
  from port_write_prefix [OF this] show ?thesis by (simp add: sample_port_defs)
qed

text \<open>C10 (writing, progress): when every attempt is accepted for at least one byte, \<open>write\<close> returns
  the full length after at most as many attempts as there are bytes, and the device has received
  exactly the data. A USB or serial port (\<open>gser\<close>, \<open>vser\<close>, \<open>com\<close>) with a length that is a multiple
  of 64 receives it in at least two pieces, the first of which leaves 32 bytes or more for the
  others.\<close>

theorem port_write_completes:
  assumes "m_bEnableWR p" and "m_fd p \<ge> 0" and "portType p \<noteq> PORT_LOOP"
    and "0 < nLen" and "nLen \<le> length buff"
    and "\<forall>e \<in> set evs. \<exists>k > 0. e = WSent k" and "nLen \<le> length evs"
  shows "\<exists>st es. port_write p os buff nLen evs = Ret (int nLen, st, es)
    \<and> concat (w_out st) = take nLen buff \<and> length evs \<le> length es + nLen
    \<and> (is_ser (portType p) \<and> nLen mod 64 = 0 \<longrightarrow>
        2 \<le> length (w_out st) \<and> length (hd (w_out st)) + 32 \<le> nLen)"
proof -
  obtain st es where w: "port_write p os buff nLen evs = Ret (int nLen, st, es)"
      "concat (w_out st) = take nLen buff" "length evs \<le> length es + nLen" "w_out st \<noteq> []"
      "nLen mod 64 = 0 \<and> is_ser (portType p) \<longrightarrow> length (hd (w_out st)) \<le> nLen - 32"
    using port_write_all [OF assms] by blast
  have "2 \<le> length (w_out st) \<and> length (hd (w_out st)) + 32 \<le> nLen"
    if "is_ser (portType p)" "nLen mod 64 = 0"
  proof (rule conjI)
    have n: "32 < nLen" using assms(4) that(2) by presburger
    obtain u us where u: "w_out st = u # us" using w(4) by (cases "w_out st") auto
    have h: "length u \<le> nLen - 32" using w(5) that u by simp
    have "length (concat (u # us)) = nLen" using w(2) assms(5) u by simp
    then have "us \<noteq> []" using h n by (cases us) auto
    then show "2 \<le> length (w_out st)" unfolding u by (cases us) simp_all
    show "length (hd (w_out st)) + 32 \<le> nLen" unfolding u using h n by simp
  qed
  then show ?thesis by (intro exI [of _ st] exI [of _ es]) (simp add: w(1-3))
qed

theorem port_write_completes_witness:
  "\<exists>st es. port_write (opened sample_port) sample_os (replicate 64 7) 64 (replicate 64 (WSent 9)) = Ret (64, st, es)
    \<and> concat (w_out st) = replicate 64 7 \<and> 2 \<le> length (w_out st) \<and> length (hd (w_out st)) \<le> 32"
proof -
  let ?p = "opened sample_port" and ?d = "replicate 64 7" and ?e = "replicate 64 (WSent 9)"
  have h: "m_bEnableWR ?p" "m_fd ?p \<ge> 0" "portType ?p \<noteq> PORT_LOOP" "is_ser (portType ?p)"
    by (simp_all add: sample_port_defs is_ser_def)
  have e: "\<forall>e \<in> set ?e. \<exists>k > 0. e = WSent k" by simp
  have m: "is_ser (portType ?p) \<and> (64 :: nat) mod 64 = 0" using h(4) by simp
  obtain st es where w: "port_write ?p sample_os ?d 64 ?e = Ret (int 64, st, es)"
      "concat (w_out st) = take 64 ?d" "2 \<le> length (w_out st) \<and> length (hd (w_out st)) + 32 \<le> 64"
    using port_write_completes [OF h(1-3) _ _ e, of 64 ?d sample_os] m by auto
  then show ?thesis by (intro exI [of _ st] exI [of _ es]) simp
qed

text \<open>(an empty answer on a serial port): 0 is a multiple of 64, so an empty write to a USB or
  serial port asks \<open>write\<close> for 0 - 32 bytes, a huge count: it reads far behind the buffer.\<close>

theorem port_write_empty_serial:
  assumes "m_bEnableWR p" and "m_fd p \<ge> 0" and "is_ser (portType p)"
  shows "port_write p os buff 0 (WSent k # es) = UB"
  using assms by (auto simp: port_write_def internal_write_def Let_def is_ser_def)

theorem port_write_empty_serial_witness:
  "port_write (opened sample_port) sample_os [] 0 [WSent 1] = UB"
  using port_write_empty_serial [of "opened sample_port" sample_os "[]" 1 "[]"]
  by (simp add: sample_port_defs is_ser_def)

text \<open>(clients of a port): after the first \<open>open\<close>, \<open>n\<close> further ones and \<open>n\<close> closes leave the
  descriptor and the count as they were, and one more close closes the descriptor.\<close>

theorem port_clients_balanced:
  assumes "port_live p" and "m_nClient p = 1"
  shows "m_fd ((close_port ^^ n) ((open_port os ^^ n) p)) = m_fd p
    \<and> m_nClient ((close_port ^^ n) ((open_port os ^^ n) p)) = 1
    \<and> m_fd ((close_port ^^ Suc n) ((open_port os ^^ n) p)) = - 1"
proof -
  let ?q = "(close_port ^^ n) ((open_port os ^^ n) p)"
  have q: "port_live ?q" "m_fd ?q = m_fd p" "nat (m_nClient ?q) = nat (m_nClient p)"
    using clients.balanced [OF assms(1), of n os] assms(2) by simp_all
  then have "m_nClient ?q = 1" using assms(2) by (simp add: port_live_def)
  with q show ?thesis by (simp add: close_port_def port_close_def Let_def port_live_def)
qed

theorem port_clients_balanced_witness:
  "m_fd ((close_port ^^ 4) ((open_port sample_os ^^ 3) (opened sample_port))) = - 1"
  using port_clients_balanced [of "opened sample_port" 3 sample_os]
  by (simp add: port_live_def openable_def sample_port_defs numeral_eq_Suc)

text \<open>(reopening): when the next \<open>open\<close> call succeeds, \<open>reopen(second)\<close> installs the new
  descriptor and keeps the client count; it reports success and wakes the readers with an update
  message when \<open>second\<close> is above 1, and for \<open>second == 1\<close> it reports failure with the port open.\<close>

theorem port_reopen_success:
  assumes "openable p" and "m_fd p \<ge> 0" and "open_results os (open_calls os) \<ge> 0"
    and "m_pipeNotify p \<ge> 0"
  shows "port_reopen p (Suc s) os =
    (if 0 < s then 0 else - 1,
     p\<lparr>m_fd := open_results os (open_calls os),
       p_pipe := p_pipe p @ (if 0 < s then MSG_NOTIFY_UPDATE_FD else [])\<rparr>,
     os\<lparr>open_calls := open_calls os + 1\<rparr>)"
proof -
  have c: "snd (port_close (p\<lparr>m_nClient := 1\<rparr>)) = p\<lparr>m_fd := - 1, m_nClient := 0\<rparr>"
    using assms(2) by (simp add: port_close_def Let_def)
  have "reopen_loop (Suc s) (p\<lparr>m_fd := - 1, m_nClient := 0\<rparr>) os =
      (int s, p\<lparr>m_fd := open_results os (open_calls os), m_nClient := 1\<rparr>,
       os\<lparr>open_calls := open_calls os + 1\<rparr>)"
    using reopen_loop_first [of "p\<lparr>m_fd := - 1, m_nClient := 0\<rparr>" os s] assms by simp
  then show ?thesis
    unfolding port_reopen_def c Let_def using assms(4)
    by (simp add: port_notify_def del: reopen_loop.simps)
qed

theorem port_reopen_success_witness:
  "m_fd (fst (snd (port_reopen (opened sample_port) 1 \<lparr>open_results = (\<lambda>_. 9), open_calls = 0\<rparr>))) = 9
   \<and> fst (port_reopen (opened sample_port) 1 \<lparr>open_results = (\<lambda>_. 9), open_calls = 0\<rparr>) = - 1"
  using port_reopen_success [of "opened sample_port" "\<lparr>open_results = (\<lambda>_. 9), open_calls = 0\<rparr>" 0]
  by (simp add: openable_def sample_port_defs)

text \<open>(a device that stays away): when no \<open>open\<close> call succeeds, \<open>reopen\<close> ends, reports failure,
  leaves the port closed with its client count, and sends no message.\<close>

theorem port_reopen_failure:
  assumes "openable p" and "\<forall>i. open_results os i < 0"
  shows "\<exists>p' os'. port_reopen p second os = (- 1, p', os') \<and> m_fd p' < 0
    \<and> m_nClient p' = m_nClient p \<and> p_pipe p' = p_pipe p"
proof -
  let ?q = "snd (port_close (p\<lparr>m_nClient := 1\<rparr>))"
  have q: "openable ?q" "m_fd ?q < 0" "p_pipe ?q = p_pipe p"
    using assms(1) by (auto simp: port_close_def Let_def)
  obtain p' os' where "reopen_loop second ?q os = (- 1, p', os')" "m_fd p' < 0" "p_pipe p' = p_pipe p"
    using reopen_loop_none [OF q(1,2), of os second] assms(2) q(3) by auto
  then show ?thesis by (simp add: port_reopen_def Let_def)
qed

theorem port_reopen_failure_witness:
  "\<exists>p' os'. port_reopen (opened sample_port) 5 \<lparr>open_results = (\<lambda>_. - 1), open_calls = 0\<rparr> = (- 1, p', os')
    \<and> m_fd p' < 0"
  using port_reopen_failure [of "opened sample_port" "\<lparr>open_results = (\<lambda>_. - 1), open_calls = 0\<rparr>" 5]
  by (auto simp: openable_def sample_port_defs)

text \<open>(stopping a reader): the exit message ends a read with 0 at the next \<open>select\<close>; but when an
  update message is still in the pipe, both are read at once, the text is not the exit message,
  and the reader goes on waiting.\<close>

theorem rd_loop_exit_message:
  "(p_pipe (r_port st) = MSG_NOTIFY_EXIT \<longrightarrow>
      rd_loop st offset rdSize nLen max_len evs = Ret (0, st\<lparr>r_port := (r_port st)\<lparr>p_pipe := []\<rparr>\<rparr>, evs)) \<and>
   (p_pipe (r_port st) = MSG_NOTIFY_UPDATE_FD @ MSG_NOTIFY_EXIT \<longrightarrow>
      rd_loop st offset rdSize nLen max_len [] = Blocked)"
proof (intro conjI impI)
  show "rd_loop st offset rdSize nLen max_len evs = Ret (0, st\<lparr>r_port := (r_port st)\<lparr>p_pipe := []\<rparr>\<rparr>, evs)"
    if "p_pipe (r_port st) = MSG_NOTIFY_EXIT" using that by (rule rd_loop_exit)
  have b: "rd_loop st' offset rdSize nLen max_len [] = Blocked" if "p_pipe (r_port st') = []" for st'
    using that by (subst rd_loop.simps) simp
  define m where "m = MSG_NOTIFY_UPDATE_FD @ MSG_NOTIFY_EXIT"
  have m: "take MAX_MSG_LEN m = m" "drop MAX_MSG_LEN m = []" "takeWhile (\<lambda>b. b \<noteq> 0) m = m"
    "\<not> strcaseeq m MSG_NOTIFY_EXIT" "m \<noteq> []"
    by (simp_all add: m_def MSG_NOTIFY_UPDATE_FD_def MSG_NOTIFY_EXIT_def MAX_MSG_LEN_def strcaseeq_def)
  show "rd_loop st offset rdSize nLen max_len [] = Blocked"
    if "p_pipe (r_port st) = MSG_NOTIFY_UPDATE_FD @ MSG_NOTIFY_EXIT"
    using that b unfolding m_def [symmetric] by (subst rd_loop.simps) (simp add: m Let_def)
qed

theorem rd_loop_exit_message_witness:
  "rd_loop \<lparr>r_buff = [0], r_port = sample_port\<lparr>p_pipe := MSG_NOTIFY_UPDATE_FD @ MSG_NOTIFY_EXIT\<rparr>,
      r_trans = sample_diag, r_os = sample_os\<rparr> 0 1 1 1 [] = Blocked"
  using rd_loop_exit_message [of "\<lparr>r_buff = [0], r_port = sample_port\<lparr>p_pipe := MSG_NOTIFY_UPDATE_FD @ MSG_NOTIFY_EXIT\<rparr>,
      r_trans = sample_diag, r_os = sample_os\<rparr>" 0 1 1 1 "[]"] by simp

end
