(* ===== verification/Module.thy ===== *)
theory Module
  imports Port
begin

text \<open>
  \<open>CModuleMgr\<close> (\<open>server/module/CModuleMgr.cpp\<close>): the list of callbacks that the shared objects
  and the daemon register, the search for the callback of a request, pending AT commands, loading,
  and writing to the host diag port. The callbacks are code of other libraries: they are fields
  of the model's callback record, functions of the request and response buffers and of an
  environment of any type \<open>'w\<close>. Callbacks are named by their place in the list;
  a callback that leaves its arrays is \<open>None\<close>, as everywhere.
\<close>

section \<open>Callbacks and the manager's state\<close>

record 'w cb_io =
  cb_buf :: mem
  cb_rsp :: mem
  cb_env :: 'w

record 'w eng_callback =
  diag_ap_cmd :: "32 word"
  cb_type :: byte
  cb_subtype :: byte
  at_cmd :: "byte list"
  also_need_to_cp :: bool
  eng_diag_func :: "('w cb_io \<Rightarrow> nat \<Rightarrow> nat \<Rightarrow> (int \<times> 'w cb_io) option) option"
  eng_linuxcmd_func :: "('w cb_io \<Rightarrow> (int \<times> 'w cb_io) option) option"
  eng_set_writeinterface_func :: "('w \<Rightarrow> 'w) option"
  eng_cmd_match :: "(mem \<Rightarrow> nat \<Rightarrow> int option) option"

record 'w modmgr =
  m_listHead :: "'w eng_callback list"
  m_isLoaded :: bool
  m_lpPendingCB :: "nat option"
  m_lpCurCB :: "nat option"
  m_lpHostDiagPort :: "nat option"
  m_lpHostWcnATPort :: "nat option"
  m_libHdl :: bool
  m_libInterface :: bool

definition modmgr_new :: "'w modmgr" where
  "modmgr_new = \<lparr>m_listHead = [], m_isLoaded = False, m_lpPendingCB = None, m_lpCurCB = None,
     m_lpHostDiagPort = None, m_lpHostWcnATPort = None, m_libHdl = False, m_libInterface = False\<rparr>"

text \<open>\<open>setPendingMark\<close> and \<open>clearPendingMark\<close> of the manager, and the two registrations of ports.\<close>

definition mgr_setPendingMark :: "'w modmgr \<Rightarrow> 'w modmgr" where
  "mgr_setPendingMark m = m\<lparr>m_lpPendingCB := m_lpCurCB m\<rparr>"

definition mgr_clearPendingMark :: "'w modmgr \<Rightarrow> 'w modmgr" where
  "mgr_clearPendingMark m = m\<lparr>m_lpPendingCB := None\<rparr>"

definition regDiagHost :: "nat option \<Rightarrow> 'w modmgr \<Rightarrow> 'w modmgr" where
  "regDiagHost p m = m\<lparr>m_lpHostDiagPort := p\<rparr>"

definition regWcnATHost :: "nat option \<Rightarrow> 'w modmgr \<Rightarrow> 'w modmgr" where
  "regWcnATHost p m = m\<lparr>m_lpHostWcnATPort := p\<rparr>"

section \<open>Registration\<close>

text \<open>\<open>get_eng_modules\<close> copies the fields; \<open>at_cmd\<close> through \<open>sprintf\<close>, so up to its NUL, into an
  array of 32 bytes.\<close>

definition get_eng_modules :: "'w eng_callback \<Rightarrow> 'w eng_callback option" where
  "get_eng_modules p =
     (let s = takeWhile (\<lambda>b. b \<noteq> 0) (at_cmd p) in
      if length s < 32 then Some (p\<lparr>at_cmd := s\<rparr>) else None)"

fun internalRegCallBack :: "'w eng_callback list \<Rightarrow> nat \<Rightarrow> 'w modmgr \<Rightarrow> 'w modmgr option" where
  "internalRegCallBack p 0 m = Some m"
| "internalRegCallBack [] (Suc n) m = None"
| "internalRegCallBack (c # p) (Suc n) m =
     do { c' \<leftarrow> get_eng_modules c;
          internalRegCallBack p n (m\<lparr>m_listHead := m_listHead m @ [c']\<rparr>) }"

definition default_callback :: "'w eng_callback" where
  "default_callback = \<lparr>diag_ap_cmd = - 1, cb_type = 0xFF, cb_subtype = 0xFF, at_cmd = [],
     also_need_to_cp = False, eng_diag_func = None, eng_linuxcmd_func = None,
     eng_set_writeinterface_func = None, eng_cmd_match = None\<rparr>"

text \<open>What a directory entry turns out to be: its type (8 a file, 10 a link), whether \<open>readlink\<close>
  works, whether the file may be read, and, when \<open>dlopen\<close> succeeds, the two functions \<open>dlsym\<close>
  finds. They fill the structures they are given.\<close>

record 'w so_entry =
  e_type :: nat
  e_link :: bool
  e_readable :: bool
  e_handle :: "(('w eng_callback \<Rightarrow> 'w eng_callback) option
    \<times> ('w eng_callback list \<Rightarrow> 'w eng_callback list \<times> nat) option) option"

definition load_entry :: "'w so_entry \<Rightarrow> 'w modmgr \<Rightarrow> 'w modmgr option" where
  "load_entry e m =
     (if \<not> (e_type e = 8 \<or> e_type e = 10) then Some m
      else if e_type e = 10 \<and> \<not> e_link e then Some m
      else if \<not> e_readable e then Some m
      else case e_handle e of
        None \<Rightarrow> Some m
      | Some (reg, ext) \<Rightarrow> do {
          m1 \<leftarrow> (case reg of None \<Rightarrow> Some m
                 | Some f \<Rightarrow> internalRegCallBack [f default_callback] 1 m);
          (case ext of None \<Rightarrow> Some m1
           | Some g \<Rightarrow> (let (arr, num) = g (replicate 64 default_callback) in
                       internalRegCallBack (take 64 arr) num m1))
        })"

fun load_entries :: "'w so_entry list \<Rightarrow> 'w modmgr \<Rightarrow> 'w modmgr option" where
  "load_entries [] m = Some m"
| "load_entries (e # es) m = do { m' \<leftarrow> load_entry e m; load_entries es m' }"

text \<open>\<open>eng_modules_load\<close> returns 0 also when the directory cannot be opened (\<open>None\<close>).\<close>

definition eng_modules_load :: "'w so_entry list option \<Rightarrow> 'w modmgr \<Rightarrow> (int \<times> 'w modmgr) option" where
  "eng_modules_load dir m =
     (case dir of None \<Rightarrow> Some (0, m) | Some es \<Rightarrow> do { m' \<leftarrow> load_entries es m; Some (0, m') })"

definition mgr_load :: "'w so_entry list option \<Rightarrow> 'w modmgr \<Rightarrow> (int \<times> 'w modmgr) option" where
  "mgr_load dir m = do { (ret, m') \<leftarrow> eng_modules_load dir m; Some (ret, m'\<lparr>m_isLoaded := (ret = 0)\<rparr>) }"

section \<open>The search for a callback\<close>

text \<open>How the body of the loop ends: \<open>continue\<close>, \<open>break\<close> after a callback dealt with the request,
  or \<open>break\<close> because the matching callback has no function.\<close>

datatype verdict = VNext | VDone | VStop

record 'w scan_st =
  s_rlen :: int
  s_cp :: bool
  s_io :: "'w cb_io"

fun scan :: "('c \<Rightarrow> 's \<Rightarrow> (verdict \<times> 's) option) \<Rightarrow> 'c list \<Rightarrow> nat \<Rightarrow> nat option \<Rightarrow> 's
    \<Rightarrow> (bool \<times> nat option \<times> 's) option" where
  "scan attempt [] i cur s = Some (False, cur, s)"
| "scan attempt (c # rest) i cur s =
     (case attempt c s of
        None \<Rightarrow> None
      | Some (VNext, s') \<Rightarrow> scan attempt rest (Suc i) (Some i) s'
      | Some (VDone, s') \<Rightarrow> Some (True, Some i, s')
      | Some (VStop, s') \<Rightarrow> Some (False, Some i, s'))"

text \<open>The two ways a callback is entered, with what follows the call.\<close>

definition finish :: "'w eng_callback \<Rightarrow> 'w scan_st \<Rightarrow> int \<Rightarrow> 'w cb_io \<Rightarrow> verdict \<times> 'w scan_st" where
  "finish c s rlen io =
     (if rlen = ENG_DIAG_RET_UNSUPPORT then (VNext, s\<lparr>s_rlen := rlen, s_io := io\<rparr>)
      else (VDone, s\<lparr>s_rlen := rlen, s_io := io, s_cp := (s_cp s \<or> also_need_to_cp c)\<rparr>))"

definition call_at :: "'w eng_callback \<Rightarrow> 'w scan_st \<Rightarrow> (verdict \<times> 'w scan_st) option" where
  "call_at c s =
     (case eng_linuxcmd_func c of
        None \<Rightarrow> Some (VStop, s)
      | Some f \<Rightarrow> do { (rlen, io) \<leftarrow> f (s_io s); Some (finish c s rlen io) })"

definition call_diag :: "nat \<Rightarrow> nat \<Rightarrow> 'w eng_callback \<Rightarrow> 'w scan_st \<Rightarrow> (verdict \<times> 'w scan_st) option" where
  "call_diag len rsp_len c s =
     (case eng_diag_func c of
        None \<Rightarrow> Some (VStop, s)
      | Some f \<Rightarrow>
          (let io0 = (case eng_set_writeinterface_func c of
                        None \<Rightarrow> s_io s
                      | Some w \<Rightarrow> (s_io s)\<lparr>cb_env := w (cb_env (s_io s))\<rparr>)
           in do { (rlen, io) \<leftarrow> f io0 len rsp_len; Some (finish c s rlen io) }))"

text \<open>The conditions of \<open>processDiag\<close>. The request's header lies at \<open>buf + 1\<close>, its data at
  \<open>buf + 9\<close>; a data command is compared with four, two or one bytes of the data.\<close>

definition at_in_diag :: "'w eng_callback \<Rightarrow> mem \<Rightarrow> bool option" where
  "at_in_diag c buf = do {
     b \<leftarrow> rd buf 7;
     (if b = 0x68 \<and> at_cmd c \<noteq> []
      then do { s \<leftarrow> cstr_at buf 9; Some (strcasestr s (at_cmd c) \<noteq> None) }
      else Some False)
   }"

definition type_match :: "'w eng_callback \<Rightarrow> mem \<Rightarrow> nat \<Rightarrow> bool option" where
  "type_match c buf len = do {
     h \<leftarrow> read_head buf 1;
     (if head_type h = cb_type c \<and> head_subtype h = cb_subtype c then Some True
      else case eng_cmd_match c of
        None \<Rightarrow> Some False
      | Some f \<Rightarrow> do { r \<leftarrow> f buf len; Some (r = 0) })
   }"

definition data_match :: "'w eng_callback \<Rightarrow> mem \<Rightarrow> bool option" where
  "data_match c buf = do {
     h \<leftarrow> read_head buf 1;
     (if head_type h = 0x5D
      then do { bs \<leftarrow> get buf (1 + MSG_HEAD_SIZE) 4; Some (word_of_nat (de32 bs) = diag_ap_cmd c) }
      else if head_type h = 0x62
      then do { bs \<leftarrow> get buf (1 + MSG_HEAD_SIZE) 2; Some (word_of_nat (de16 bs) = diag_ap_cmd c) }
      else if head_type h = 0x38
      then do { b \<leftarrow> rd buf (1 + MSG_HEAD_SIZE);
                Some (diag_ap_cmd c = - 1 \<or> word_of_nat (unat b) = diag_ap_cmd c) }
      else Some True)
   }"

definition diag_try ::
  "nat \<Rightarrow> nat \<Rightarrow> 'w eng_callback \<Rightarrow> 'w scan_st \<Rightarrow> (verdict \<times> 'w scan_st) option" where
  "diag_try len rsp_len c s = do {
     at \<leftarrow> at_in_diag c (cb_buf (s_io s));
     (if at then call_at c s
      else do {
        ty \<leftarrow> type_match c (cb_buf (s_io s)) len;
        (if ty
         then do {
           d \<leftarrow> data_match c (cb_buf (s_io s));
           (if d then call_diag len rsp_len c s else Some (VNext, s))
         }
         else Some (VNext, s))
      })
   }"

definition processDiag ::
  "'w modmgr \<Rightarrow> 'w cb_io \<Rightarrow> nat \<Rightarrow> nat \<Rightarrow> (int \<times> bool \<times> 'w cb_io \<times> 'w modmgr) option" where
  "processDiag m io len rsp_len = do {
     (bProcess, cur, s) \<leftarrow> scan (diag_try len rsp_len) (m_listHead m) 0 (m_lpCurCB m)
                            \<lparr>s_rlen = 0, s_cp = False, s_io = io\<rparr>;
     (let m1 = m\<lparr>m_lpCurCB := cur\<rparr>; io1 = s_io s; none = Some (s_rlen s, s_cp s, io1, m1\<lparr>m_lpPendingCB := None\<rparr>)
      in case m_lpPendingCB m of
           None \<Rightarrow> none
         | Some k \<Rightarrow>
             (if bProcess then none
              else do {
                h \<leftarrow> read_head (cb_buf io1) 1;
                (if head_type h = 0x68
                 then do {
                   str \<leftarrow> cstr_at (cb_buf io1) 9;
                   (if strcasestr str (cs ''AT'') = None
                    then do {
                      f \<leftarrow> (if k < length (m_listHead m) then eng_linuxcmd_func (m_listHead m ! k) else None);
                      (rlen, io2) \<leftarrow> f io1;
                      Some (rlen, s_cp s, io2, m1)
                    }
                    else none)
                 }
                 else none)
              }))
   }"

definition at_try :: "'w eng_callback \<Rightarrow> 'w scan_st \<Rightarrow> (verdict \<times> 'w scan_st) option" where
  "at_try c s =
     (if at_cmd c = [] then Some (VNext, s)
      else do {
        str \<leftarrow> cstr_at (cb_buf (s_io s)) 0;
        (if strncaseeq (length (at_cmd c)) str (at_cmd c) then call_at c s else Some (VNext, s))
      })"

definition processAT ::
  "'w modmgr \<Rightarrow> 'w cb_io \<Rightarrow> (int \<times> bool \<times> 'w cb_io) option" where
  "processAT m io = do {
     (bProcess, cur, s) \<leftarrow> scan at_try (m_listHead m) 0 None \<lparr>s_rlen = 0, s_cp = False, s_io = io\<rparr>;
     Some (s_rlen s, s_cp s, s_io s)
   }"

definition processSmp :: "'w cb_io \<Rightarrow> nat \<Rightarrow> (int \<times> 'w cb_io) option" where
  "processSmp io len = do {
     bs \<leftarrow> get (cb_buf io) 0 len;
     r \<leftarrow> put (cb_rsp io) 0 bs;
     Some (int len, io\<lparr>cb_rsp := r\<rparr>)
   }"

subsection \<open>The WCN interface\<close>

text \<open>What \<open>dlopen\<close> and \<open>dlsym\<close> give for the Bluetooth test library, and that library's functions.\<close>

datatype dl_result = DlFail | DlNoSymbol | DlOk

record 'w bqb_interface =
  bqb_init :: "'w \<Rightarrow> 'w"
  bqb_set_fd :: "int \<Rightarrow> 'w \<Rightarrow> 'w"
  bqb_check_received_str :: "int \<Rightarrow> mem \<Rightarrow> nat \<Rightarrow> 'w \<Rightarrow> int \<times> 'w"
  bqb_is_opened :: "'w \<Rightarrow> bool"
  bqb_send_data :: "mem \<Rightarrow> nat \<Rightarrow> 'w \<Rightarrow> 'w"

definition bqb_vendor_open ::
  "dl_result \<Rightarrow> 'w bqb_interface \<Rightarrow> 'w modmgr \<Rightarrow> 'w \<Rightarrow> int \<times> 'w modmgr \<times> 'w" where
  "bqb_vendor_open dl bqb m w =
     (case dl of
        DlOk \<Rightarrow> (0, m\<lparr>m_libHdl := True, m_libInterface := True\<rparr>, bqb_init bqb w)
      | _ \<Rightarrow> (- 1, m\<lparr>m_libHdl := False, m_libInterface := False\<rparr>, w))"

definition processWcnAT ::
  "(nat \<Rightarrow> int) \<Rightarrow> dl_result \<Rightarrow> 'w bqb_interface \<Rightarrow> 'w modmgr \<Rightarrow> 'w cb_io \<Rightarrow> nat
   \<Rightarrow> (int \<times> bool \<times> 'w cb_io \<times> 'w modmgr) option" where
  "processWcnAT getFD dl bqb m io len = do {
     (rlen, cp, io1) \<leftarrow> processAT m io;
     rsp \<leftarrow> cstr_at (cb_rsp io1) 0;
     (if rlen > 0 \<or> rsp \<noteq> [] then Some (rlen, cp, io1, m)
      else
        (let (m1, w1) = (if \<not> m_libHdl m
                         then snd (bqb_vendor_open dl bqb m (cb_env io1)) else (m, cb_env io1));
             w4 = (if m_libInterface m1
                   then
                     (let (rlen2, w3) =
                        (case m_lpHostWcnATPort m1 of
                           None \<Rightarrow> (rlen, w1)
                         | Some p \<Rightarrow> bqb_check_received_str bqb (getFD p) (cb_buf io1) len
                                       (bqb_set_fd bqb (getFD p) w1))
                      in if rlen2 = 0 \<and> bqb_is_opened bqb w3 then bqb_send_data bqb (cb_buf io1) len w3
                         else w3)
                   else w1)
         in Some (ENG_DIAG_NO_RESPONSE, cp, io1\<lparr>cb_env := w4\<rparr>, m1)))
   }"

subsection \<open>\<open>CModuleMgr::process\<close>\<close>

record 'w mod_env =
  me_dir :: "'w so_entry list option"
  me_getFD :: "nat \<Rightarrow> int"
  me_dl :: dl_result
  me_bqb :: "'w bqb_interface"

definition mgr_process ::
  "'w mod_env \<Rightarrow> 'w modmgr \<Rightarrow> DATA_TYPE \<Rightarrow> 'w cb_io \<Rightarrow> nat \<Rightarrow> nat
   \<Rightarrow> (int \<times> bool \<times> 'w cb_io \<times> 'w modmgr) option" where
  "mgr_process e m type io len rsp_len = do {
     m1 \<leftarrow> (if m_isLoaded m then Some m else do { (r, m') \<leftarrow> mgr_load (me_dir e) m; Some m' });
     (if type = DATA_AT
      then do { (r, cp, io') \<leftarrow> processAT m1 io; Some (r, cp, io', m1) }
      else if type = DATA_WCN_AT then processWcnAT (me_getFD e) (me_dl e) (me_bqb e) m1 io len
      else if type = DATA_DIAG then processDiag m1 io len rsp_len
      else if type = DATA_AGDSP_LOG \<or> type = DATA_AGDSP_MEM \<or> type = DATA_AGDSP_PCM
      then do { (r, io') \<leftarrow> processSmp io len; Some (r, False, io', m1) }
      else Some (0, False, io, m1))
   }"

text \<open>\<open>chnl_send_diag_interface\<close> and \<open>chnl_send_at_interface\<close>: a module sends a request to the other
  modules, with a zeroed response array of \<open>cap\<close> bytes (\<open>MAX_CHNL_BUFF\<close> in the code).\<close>

definition chnl_send_interface ::
  "nat \<Rightarrow> 'w mod_env \<Rightarrow> DATA_TYPE \<Rightarrow> 'w modmgr option \<Rightarrow> mem \<Rightarrow> nat \<Rightarrow> 'w
   \<Rightarrow> (int \<times> 'w modmgr option \<times> 'w) option" where
  "chnl_send_interface cap e type mgr buff len w =
     (case mgr of
        None \<Rightarrow> Some (0, None, w)
      | Some m \<Rightarrow> do {
          (r, cp, io, m') \<leftarrow> mgr_process e m type
             \<lparr>cb_buf = buff, cb_rsp = replicate cap 0, cb_env = w\<rparr> len cap;
          Some (r, Some m', cb_env io)
        })"

definition chnl_send_diag_interface ::
  "nat \<Rightarrow> 'w mod_env \<Rightarrow> 'w modmgr option \<Rightarrow> mem \<Rightarrow> nat \<Rightarrow> 'w \<Rightarrow> (int \<times> 'w modmgr option \<times> 'w) option" where
  "chnl_send_diag_interface cap e = chnl_send_interface cap e DATA_DIAG"

definition chnl_send_at_interface ::
  "nat \<Rightarrow> 'w mod_env \<Rightarrow> 'w modmgr option \<Rightarrow> mem \<Rightarrow> nat \<Rightarrow> 'w \<Rightarrow> (int \<times> 'w modmgr option \<times> 'w) option" where
  "chnl_send_at_interface cap e = chnl_send_interface cap e DATA_AT"

text \<open>\<open>write_to_host_diag\<close> on the host's diag port, when the manager has one: the payload of the
  frame in \<open>buff\<close> is escaped into an allocated array of \<open>len * 2\<close> bytes, which is written out. The
  length given to \<open>translate_packet\<close> is \<open>len - 2\<close>; a negative one copies nothing.\<close>

definition write_to_host_diag ::
  "port option \<Rightarrow> os \<Rightarrow> mem \<Rightarrow> nat \<Rightarrow> wr_event list \<Rightarrow> (int \<times> wr_state option \<times> wr_event list) call" where
  "write_to_host_diag hostPort os buff len evs =
     (case hostPort of
        None \<Rightarrow> Ret (0, None, evs)
      | Some p \<Rightarrow>
          (case translate_packet (replicate (len * 2) 0) (drop 1 buff) (len - 2) of
             None \<Rightarrow> UB
           | Some (dst, retlen) \<Rightarrow>
               (case port_write p os dst retlen evs of
                  Ret (r, st, es) \<Rightarrow> Ret (r, Some st, es)
                | Blocked \<Rightarrow> Blocked
                | UB \<Rightarrow> UB)))"

section \<open>The search: the first callback that applies and supports the request answers it\<close>

locale responders =
  fixes attempt :: "'c \<Rightarrow> 's \<Rightarrow> (verdict \<times> 's) option"
    and applies :: "'c \<Rightarrow> 's \<Rightarrow> bool"
  assumes ignores: "\<not> applies c s \<Longrightarrow> attempt c s = Some (VNext, s)"
begin

lemma skip:
  "list_all (\<lambda>c. \<not> applies c s) us \<Longrightarrow> scan attempt (us @ rest) i cur s =
     scan attempt rest (i + length us) (if us = [] then cur else Some (i + length us - 1)) s"
proof (induction us arbitrary: i cur)
  case (Cons u us)
  then show ?case by (cases us) (simp_all add: ignores)
qed simp

lemma first_answers:
  assumes "list_all (\<lambda>c. \<not> applies c s) us" and "attempt c s = Some (VDone, s')"
  shows "scan attempt (us @ c # rest) i cur s = Some (True, Some (i + length us), s')"
  using skip [OF assms(1), of "c # rest"] assms(2) by simp

lemma first_declines:
  assumes "list_all (\<lambda>c. \<not> applies c s) us" and "attempt c s = Some (VNext, s')"
  shows "scan attempt (us @ c # rest) i cur s = scan attempt rest (i + length us + 1) (Some (i + length us)) s'"
  using skip [OF assms(1), of "c # rest"] assms(2) by simp

lemma nobody:
  assumes "list_all (\<lambda>c. \<not> applies c s) us"
  shows "\<exists>cur'. scan attempt us i cur s = Some (False, cur', s)"
  using skip [OF assms, of "[]"] by simp

end

definition diag_applies :: "nat \<Rightarrow> 'w eng_callback \<Rightarrow> 'w scan_st \<Rightarrow> bool" where
  "diag_applies len c s \<longleftrightarrow>
     (let buf = cb_buf (s_io s) in
      \<not> (at_in_diag c buf = Some False
         \<and> (type_match c buf len = Some False
            \<or> type_match c buf len = Some True \<and> data_match c buf = Some False)))"

definition at_applies :: "'w eng_callback \<Rightarrow> 'w scan_st \<Rightarrow> bool" where
  "at_applies c s \<longleftrightarrow> at_cmd c \<noteq> []
     \<and> (case cstr_at (cb_buf (s_io s)) 0 of None \<Rightarrow> True
        | Some str \<Rightarrow> strncaseeq (length (at_cmd c)) str (at_cmd c))"

interpretation diag_scan: responders "diag_try len rsp_len" "diag_applies len" for len rsp_len
  by unfold_locales (auto simp: diag_try_def diag_applies_def Let_def)

interpretation at_scan: responders at_try at_applies
  by unfold_locales (auto simp: at_try_def at_applies_def split: option.splits)

lemma diag_try_answers:
  assumes "at_in_diag c (cb_buf (s_io s)) = Some False"
    and "type_match c (cb_buf (s_io s)) len = Some True" and "data_match c (cb_buf (s_io s)) = Some True"
    and "eng_diag_func c = Some f" and "eng_set_writeinterface_func c = None"
    and "f (s_io s) len rsp_len = Some (r, io')" and "r \<noteq> ENG_DIAG_RET_UNSUPPORT"
  shows "diag_try len rsp_len c s =
    Some (VDone, s\<lparr>s_rlen := r, s_io := io', s_cp := (s_cp s \<or> also_need_to_cp c)\<rparr>)"
  using assms by (simp add: diag_try_def call_diag_def finish_def)

lemma at_try_answers:
  assumes "cstr_at (cb_buf (s_io s)) 0 = Some str" and "at_cmd c \<noteq> []"
    and "strncaseeq (length (at_cmd c)) str (at_cmd c)"
    and "eng_linuxcmd_func c = Some f" and "f (s_io s) = Some (r, io')" and "r \<noteq> ENG_DIAG_RET_UNSUPPORT"
  shows "at_try c s = Some (VDone, s\<lparr>s_rlen := r, s_io := io', s_cp := (s_cp s \<or> also_need_to_cp c)\<rparr>)"
  using assms by (simp add: at_try_def call_at_def finish_def)

lemma processDiag_answers:
  fixes io :: "'w cb_io"
  assumes "m_listHead m = us @ c # rest"
    and "list_all (\<lambda>d. \<not> diag_applies len d \<lparr>s_rlen = 0, s_cp = False, s_io = io\<rparr>) us"
    and "at_in_diag c (cb_buf io) = Some False" and "type_match c (cb_buf io) len = Some True"
    and "data_match c (cb_buf io) = Some True"
    and "eng_diag_func c = Some f" and "eng_set_writeinterface_func c = None"
    and "f io len rsp_len = Some (r, io')" and "r \<noteq> ENG_DIAG_RET_UNSUPPORT"
  shows "processDiag m io len rsp_len = Some (r, also_need_to_cp c, io',
      m\<lparr>m_lpCurCB := Some (length us), m_lpPendingCB := None\<rparr>)"
proof -
  let ?s = "\<lparr>s_rlen = 0, s_cp = False, s_io = io\<rparr> :: 'w scan_st"
  have "diag_try len rsp_len c ?s = Some (VDone, \<lparr>s_rlen = r, s_cp = also_need_to_cp c, s_io = io'\<rparr>)"
    using diag_try_answers [of c ?s len f rsp_len r io'] assms by simp
  from diag_scan.first_answers [OF assms(2) this, of rest 0 "m_lpCurCB m"] show ?thesis
    using assms(1) by (simp add: processDiag_def Let_def split: option.splits)
qed

section \<open>Registration appends\<close>

definition valid_cb :: "'w eng_callback \<Rightarrow> bool" where
  "valid_cb c \<longleftrightarrow> length (takeWhile (\<lambda>b. b \<noteq> 0) (at_cmd c)) < 32"

definition stored_cb :: "'w eng_callback \<Rightarrow> 'w eng_callback" where
  "stored_cb c = c\<lparr>at_cmd := takeWhile (\<lambda>b. b \<noteq> 0) (at_cmd c)\<rparr>"

lemma internalRegCallBack_appends:
  "n \<le> length p \<Longrightarrow> list_all valid_cb (take n p) \<Longrightarrow>
   internalRegCallBack p n m = Some (m\<lparr>m_listHead := m_listHead m @ map stored_cb (take n p)\<rparr>)"
proof (induction p n m rule: internalRegCallBack.induct)
  case (3 c p n m)
  have "get_eng_modules c = Some (stored_cb c)"
    using 3 by (simp add: get_eng_modules_def valid_cb_def stored_cb_def Let_def)
  with 3 show ?case by simp
qed auto

text \<open>The callbacks one directory entry contributes.\<close>

definition entry_callbacks :: "'w so_entry \<Rightarrow> 'w eng_callback list" where
  "entry_callbacks e =
     (if (e_type e = 8 \<or> e_type e = 10 \<and> e_link e) \<and> e_readable e
      then case e_handle e of
             None \<Rightarrow> []
           | Some (reg, ext) \<Rightarrow>
               (case reg of None \<Rightarrow> [] | Some f \<Rightarrow> [f default_callback])
               @ (case ext of None \<Rightarrow> []
                  | Some g \<Rightarrow> (let (arr, num) = g (replicate 64 default_callback) in take num arr))
      else [])"

text \<open>What a shared object has to keep to: at most 64 callbacks in the array it was given.\<close>

definition entry_ok :: "'w so_entry \<Rightarrow> bool" where
  "entry_ok e \<longleftrightarrow> list_all valid_cb (entry_callbacks e) \<and>
     (case e_handle e of
        Some (reg, Some g) \<Rightarrow> (let (arr, num) = g (replicate 64 default_callback) in length arr = 64 \<and> num \<le> 64)
      | _ \<Rightarrow> True)"

lemma load_entry_appends:
  assumes "entry_ok e"
  shows "load_entry e m = Some (m\<lparr>m_listHead := m_listHead m @ map stored_cb (entry_callbacks e)\<rparr>)"
proof (cases "(e_type e = 8 \<or> e_type e = 10 \<and> e_link e) \<and> e_readable e \<and> e_handle e \<noteq> None")
  case False
  then show ?thesis by (cases "e_handle e") (auto simp: load_entry_def entry_callbacks_def)
next
  case True
  then obtain reg ext where h: "e_handle e = Some (reg, ext)" by auto
  have le: "load_entry e m = do {
          m1 \<leftarrow> (case reg of None \<Rightarrow> Some m
                 | Some f \<Rightarrow> internalRegCallBack [f default_callback] 1 m);
          (case ext of None \<Rightarrow> Some m1
           | Some g \<Rightarrow> (let (arr, num) = g (replicate 64 default_callback) in
                       internalRegCallBack (take 64 arr) num m1)) }"
    using True h by (auto simp: load_entry_def)
  let ?r = "case reg of None \<Rightarrow> [] | Some f \<Rightarrow> [f default_callback]"
  have ec: "entry_callbacks e = ?r @ (case ext of None \<Rightarrow> []
      | Some g \<Rightarrow> (let (arr, num) = g (replicate 64 default_callback) in take num arr))"
    using True h by (auto simp: entry_callbacks_def)
  have "(case reg of None \<Rightarrow> Some m | Some f \<Rightarrow> internalRegCallBack [f default_callback] 1 m)
      = Some (m\<lparr>m_listHead := m_listHead m @ map stored_cb ?r\<rparr>)"
    using assms ec internalRegCallBack_appends [of 1 "[the reg default_callback]" m]
    by (cases reg) (auto simp: entry_ok_def)
  then show ?thesis
    using assms ec h unfolding le
    by (cases ext) (auto simp: entry_ok_def internalRegCallBack_appends Let_def min_absorb1 split: prod.splits)
qed

lemma load_entries_appends:
  "list_all entry_ok es \<Longrightarrow> load_entries es m =
     Some (m\<lparr>m_listHead := m_listHead m @ map stored_cb (concat (map entry_callbacks es))\<rparr>)"
  by (induction es arbitrary: m) (simp_all add: load_entry_appends)

section \<open>A library of diag commands\<close>

text \<open>A shared object that fills the first entries of the daemon's array, and its load.\<close>

definition fill_entries :: "('w eng_callback \<Rightarrow> 'w eng_callback) list \<Rightarrow> 'w eng_callback list \<Rightarrow> 'w eng_callback list \<times> nat" where
  "fill_entries us reg = (map2 (\<lambda>f c. f c) us reg @ drop (length us) reg, length us)"

definition library :: "('w eng_callback list \<Rightarrow> 'w eng_callback list \<times> nat) \<Rightarrow> 'w so_entry" where
  "library ext = \<lparr>e_type = 8, e_link = False, e_readable = True, e_handle = Some (None, Some ext)\<rparr>"

lemma fill_entries_array:
  assumes "length us \<le> n"
  shows "fill_entries us (replicate n d) = (map (\<lambda>f. f d) us @ replicate (n - length us) d, length us)"
proof -
  have "map2 (\<lambda>f c. f c) us (replicate n d) = map (\<lambda>f. f d) us"
    using assms
  proof (induction us arbitrary: n)
    case (Cons f fs)
    then show ?case by (cases n) auto
  qed simp
  then show ?thesis by (simp add: fill_entries_def)
qed

lemma library_load:
  assumes "ext (replicate 64 default_callback) = fill_entries us (replicate 64 default_callback)" and "length us \<le> 64"
    and "list_all (\<lambda>f. at_cmd (f default_callback) = []) us"
  shows "mgr_load (Some [library ext]) modmgr_new =
    Some (0, modmgr_new\<lparr>m_listHead := map (\<lambda>f. f default_callback) us, m_isLoaded := True\<rparr>)"
proof -
  let ?c = "map (\<lambda>f. f default_callback) us"
  have e: "entry_callbacks (library ext) = ?c"
    using assms(1,2) by (simp add: entry_callbacks_def library_def fill_entries_array)
  have "list_all valid_cb ?c"
    using assms(3) by (auto simp: valid_cb_def list_all_iff)
  then have ok: "list_all entry_ok [library ext]"
    using assms(1,2) e by (simp add: entry_ok_def) (simp add: library_def fill_entries_array)
  have "map stored_cb ?c = ?c"
    using assms(3) by (intro map_idI) (auto simp: stored_cb_def list_all_iff)
  then show ?thesis
    using load_entries_appends [OF ok, of modmgr_new] e
    by (simp add: mgr_load_def eng_modules_load_def) (simp add: modmgr_new_def)
qed

text \<open>A callback at place \<open>k\<close> gets a request that is for it and for none before it.\<close>

lemma library_serves:
  fixes io :: "'w cb_io"
  assumes "m_listHead m = xs" and "k < length xs" and "list_all (\<lambda>c. at_cmd c = []) xs" and "rd (cb_buf io) 7 \<noteq> None"
    and "\<And>i. i < k \<Longrightarrow> type_match (xs ! i) (cb_buf io) len = Some False \<or>
      type_match (xs ! i) (cb_buf io) len = Some True \<and> data_match (xs ! i) (cb_buf io) = Some False"
    and "type_match (xs ! k) (cb_buf io) len = Some True" and "data_match (xs ! k) (cb_buf io) = Some True"
    and "eng_diag_func (xs ! k) = Some f" and "eng_set_writeinterface_func (xs ! k) = None"
    and "\<not> also_need_to_cp (xs ! k)" and "f io len rsp_len = Some (r, io')" and "r \<noteq> ENG_DIAG_RET_UNSUPPORT"
  shows "processDiag m io len rsp_len = Some (r, False, io', m\<lparr>m_lpCurCB := Some k, m_lpPendingCB := None\<rparr>)"
proof -
  have split: "m_listHead m = take k xs @ xs ! k # drop (Suc k) xs"
    using assms(1,2) by (simp add: id_take_nth_drop)
  have at: "at_in_diag c (cb_buf io) = Some False" if "c \<in> set xs" for c
    using that assms(3,4) by (auto simp: at_in_diag_def list_all_iff)
  have "list_all (\<lambda>d. \<not> diag_applies len d \<lparr>s_rlen = 0, s_cp = False, s_io = io\<rparr>) (take k xs)"
    using assms(2,5) at by (auto simp: list_all_length diag_applies_def Let_def)
  moreover have "length (take k xs) = k" using assms(2) by simp
  ultimately show ?thesis
    using processDiag_answers [OF split, where io = io and len = len] at [of "xs ! k"] assms(2,6-12) by auto
qed

section \<open>Properties\<close>

text \<open>(loading): \<open>CModuleMgr::load\<close> appends, in directory order, what each readable file or link
  with a registration function contributes, first its single callback and then its array, and
  marks the manager loaded; other entries contribute nothing.\<close>

theorem mgr_load_registers:
  assumes "list_all entry_ok es"
  shows "mgr_load (Some es) m = Some (0, m\<lparr>m_listHead := m_listHead m
      @ map stored_cb (concat (map entry_callbacks es)), m_isLoaded := True\<rparr>)"
  using load_entries_appends [OF assms, of m] by (simp add: mgr_load_def eng_modules_load_def)

definition sample_so :: "unit so_entry" where
  "sample_so = \<lparr>e_type = 8, e_link = False, e_readable = True,
     e_handle = Some (Some (\<lambda>c. c\<lparr>cb_type := 0x62, at_cmd := cs ''AT+X''\<rparr>), None)\<rparr>"

theorem mgr_load_registers_witness:
  "mgr_load (Some [sample_so, sample_so\<lparr>e_type := 4\<rparr>]) modmgr_new =
     Some (0, modmgr_new\<lparr>m_listHead := [default_callback\<lparr>cb_type := 0x62, at_cmd := cs ''AT+X''\<rparr>],
                         m_isLoaded := True\<rparr>)"
  using mgr_load_registers [of "[sample_so, sample_so\<lparr>e_type := 4\<rparr>]" modmgr_new]
  by (simp add: entry_ok_def entry_callbacks_def sample_so_def valid_cb_def stored_cb_def
      default_callback_def modmgr_new_def)

text \<open>C11 (dispatching a diag request): when the callbacks before it do not apply and a callback
  matches type, subtype and data command, its function is called exactly once on the buffers, its
  answer and its \<open>also_need_to_cp\<close> flag are returned, it becomes the current callback, and a
  pending AT command is dropped; the callbacks behind it are not entered.\<close>

theorem processDiag_dispatch:
  fixes io :: "'w cb_io"
  assumes "m_listHead m = us @ c # rest"
    and "list_all (\<lambda>d. \<not> diag_applies len d \<lparr>s_rlen = 0, s_cp = False, s_io = io\<rparr>) us"
    and "at_in_diag c (cb_buf io) = Some False" and "type_match c (cb_buf io) len = Some True"
    and "data_match c (cb_buf io) = Some True"
    and "eng_diag_func c = Some f" and "eng_set_writeinterface_func c = None"
    and "f io len rsp_len = Some (r, io')" and "r \<noteq> ENG_DIAG_RET_UNSUPPORT"
  shows "processDiag m io len rsp_len = Some (r, also_need_to_cp c, io',
      m\<lparr>m_lpCurCB := Some (length us), m_lpPendingCB := None\<rparr>)"
  by (rule processDiag_answers [OF assms])

definition sample_cb :: "unit eng_callback" where
  "sample_cb = default_callback\<lparr>cb_type := 0x62, cb_subtype := 0, diag_ap_cmd := 7,
     eng_diag_func := Some (\<lambda>io len rl. Some (4, io\<lparr>cb_rsp := [1, 2, 3, 4]\<rparr>))\<rparr>"

definition sample_req :: mem where
  "sample_req = [0x7E, 0, 0, 0, 0, 10, 0, 0x62, 0, 7, 0, 0x7E]"

lemma sample_req_head: "read_head sample_req (Suc 0) = Some \<lparr>seq_num = 0, head_len = 10, head_type = 0x62, head_subtype = 0\<rparr>"
  by (simp add: read_head_def get_def sample_req_def MSG_HEAD_SIZE_def de32_def de16_def)

lemma sample_req_simps [simp]: "rd sample_req 7 = Some 0x62" "get sample_req 9 2 = Some [7, 0]"
  by (simp_all add: rd_def get_def sample_req_def)

theorem processDiag_dispatch_witness:
  "processDiag (modmgr_new\<lparr>m_listHead := [default_callback, sample_cb]\<rparr>)
     \<lparr>cb_buf = sample_req, cb_rsp = [], cb_env = ()\<rparr> 12 64 =
   Some (4, False, \<lparr>cb_buf = sample_req, cb_rsp = [1, 2, 3, 4], cb_env = ()\<rparr>,
     modmgr_new\<lparr>m_listHead := [default_callback, sample_cb], m_lpCurCB := Some 1\<rparr>)"
  using processDiag_dispatch [of "modmgr_new\<lparr>m_listHead := [default_callback, sample_cb]\<rparr>" "[default_callback]"
      sample_cb "[]" 12 "\<lparr>cb_buf = sample_req, cb_rsp = [], cb_env = ()\<rparr>"
      "\<lambda>io len rl. Some (4, io\<lparr>cb_rsp := [1, 2, 3, 4]\<rparr>)" 64 4 "\<lparr>cb_buf = sample_req, cb_rsp = [1, 2, 3, 4], cb_env = ()\<rparr>"]
  by (simp add: diag_applies_def at_in_diag_def type_match_def data_match_def sample_req_head sample_cb_def
      default_callback_def modmgr_new_def MSG_HEAD_SIZE_def ENG_DIAG_RET_UNSUPPORT_def de16_def suc2)

text \<open>(a request nobody knows): when no callback applies and nothing is pending, the request and
  response are left alone and 0 is returned, with no request for further processing by the CP.\<close>

theorem processDiag_unknown:
  fixes io :: "'w cb_io"
  assumes "list_all (\<lambda>d. \<not> diag_applies len d \<lparr>s_rlen = 0, s_cp = False, s_io = io\<rparr>) (m_listHead m)"
    and "m_lpPendingCB m = None"
  shows "\<exists>cur. processDiag m io len rsp_len = Some (0, False, io, m\<lparr>m_lpCurCB := cur, m_lpPendingCB := None\<rparr>)"
proof -
  obtain cur where "scan (diag_try len rsp_len) (m_listHead m) 0 (m_lpCurCB m)
      \<lparr>s_rlen = 0, s_cp = False, s_io = io\<rparr> = Some (False, cur, \<lparr>s_rlen = 0, s_cp = False, s_io = io\<rparr>)"
    using diag_scan.nobody [OF assms(1)] by blast
  then show ?thesis
    using assms(2) by (intro exI [of _ cur]) (simp add: processDiag_def Let_def)
qed

theorem processDiag_unknown_witness:
  "\<exists>cur. processDiag (modmgr_new\<lparr>m_listHead := [default_callback]\<rparr>)
     \<lparr>cb_buf = sample_req, cb_rsp = [0], cb_env = ()\<rparr> 12 64 =
   Some (0, False, \<lparr>cb_buf = sample_req, cb_rsp = [0], cb_env = ()\<rparr>,
     modmgr_new\<lparr>m_listHead := [default_callback], m_lpCurCB := cur, m_lpPendingCB := None\<rparr>)"
  using processDiag_unknown [of 12 "\<lparr>cb_buf = sample_req, cb_rsp = [0], cb_env = ()\<rparr>"
      "modmgr_new\<lparr>m_listHead := [default_callback]\<rparr>" 64]
  by (simp add: diag_applies_def at_in_diag_def type_match_def sample_req_head default_callback_def modmgr_new_def)

text \<open>C12 (the second part of a pending AT command): when an AT text in a diag message has no
  \<open>AT\<close> in it, no callback applies, and a callback is pending, that callback gets the text and
  stays pending.\<close>

theorem processDiag_pending:
  fixes io :: "'w cb_io"
  assumes "list_all (\<lambda>d. \<not> diag_applies len d \<lparr>s_rlen = 0, s_cp = False, s_io = io\<rparr>) (m_listHead m)"
    and "m_lpPendingCB m = Some k" and "k < length (m_listHead m)"
    and "eng_linuxcmd_func (m_listHead m ! k) = Some f"
    and "read_head (cb_buf io) 1 = Some h" and "head_type h = 0x68"
    and "cstr_at (cb_buf io) 9 = Some str" and "strcasestr str (cs ''AT'') = None"
    and "f io = Some (r, io')"
  shows "\<exists>cur. processDiag m io len rsp_len = Some (r, False, io', m\<lparr>m_lpCurCB := cur\<rparr>)"
proof -
  obtain cur where "scan (diag_try len rsp_len) (m_listHead m) 0 (m_lpCurCB m)
      \<lparr>s_rlen = 0, s_cp = False, s_io = io\<rparr> = Some (False, cur, \<lparr>s_rlen = 0, s_cp = False, s_io = io\<rparr>)"
    using diag_scan.nobody [OF assms(1)] by blast
  then show ?thesis
    using assms(2-9) by (intro exI [of _ cur]) (simp add: processDiag_def Let_def)
qed

definition sample_text :: mem where
  "sample_text = [0x7E, 0, 0, 0, 0, 9, 0, 0x68, 0, 0x31, 0]"

lemma sample_text_facts:
  "read_head sample_text (Suc 0) = Some \<lparr>seq_num = 0, head_len = 9, head_type = 0x68, head_subtype = 0\<rparr>"
  "rd sample_text 7 = Some 0x68" "cstr_at sample_text 9 = Some [0x31]"
  by (simp_all add: read_head_def get_def rd_def cstr_at_def sample_text_def MSG_HEAD_SIZE_def de32_def de16_def)

theorem processDiag_pending_witness:
  "\<exists>cur. processDiag (modmgr_new\<lparr>m_listHead := [default_callback\<lparr>eng_linuxcmd_func := Some (\<lambda>io. Some (9, io))\<rparr>],
       m_lpPendingCB := Some 0\<rparr>) \<lparr>cb_buf = sample_text, cb_rsp = [], cb_env = ()\<rparr> 11 64 =
   Some (9, False, \<lparr>cb_buf = sample_text, cb_rsp = [], cb_env = ()\<rparr>,
     modmgr_new\<lparr>m_listHead := [default_callback\<lparr>eng_linuxcmd_func := Some (\<lambda>io. Some (9, io))\<rparr>],
       m_lpPendingCB := Some 0, m_lpCurCB := cur\<rparr>)"
  using processDiag_pending [of 11 "\<lparr>cb_buf = sample_text, cb_rsp = [], cb_env = ()\<rparr>"
      "modmgr_new\<lparr>m_listHead := [default_callback\<lparr>eng_linuxcmd_func := Some (\<lambda>io. Some (9, io))\<rparr>], m_lpPendingCB := Some 0\<rparr>"
      0 "\<lambda>io. Some (9, io)" _ "[0x31]" 9 "\<lparr>cb_buf = sample_text, cb_rsp = [], cb_env = ()\<rparr>" 64]
  by (simp add: diag_applies_def at_in_diag_def type_match_def sample_text_facts default_callback_def
      modmgr_new_def strcasestr_def lower_def)

text \<open>C13 (dispatching an AT command): a request that begins, up to case, with the command of a
  callback is answered by the first such callback.\<close>

theorem processAT_dispatch:
  fixes io :: "'w cb_io"
  assumes "m_listHead m = us @ c # rest"
    and "list_all (\<lambda>d. \<not> at_applies d \<lparr>s_rlen = 0, s_cp = False, s_io = io\<rparr>) us"
    and "cstr_at (cb_buf io) 0 = Some str" and "at_cmd c \<noteq> []"
    and "strncaseeq (length (at_cmd c)) str (at_cmd c)"
    and "eng_linuxcmd_func c = Some f" and "f io = Some (r, io')" and "r \<noteq> ENG_DIAG_RET_UNSUPPORT"
  shows "processAT m io = Some (r, also_need_to_cp c, io')"
proof -
  let ?s = "\<lparr>s_rlen = 0, s_cp = False, s_io = io\<rparr> :: 'w scan_st"
  have "at_try c ?s = Some (VDone, \<lparr>s_rlen = r, s_cp = also_need_to_cp c, s_io = io'\<rparr>)"
    using at_try_answers [of ?s str c f r io'] assms by simp
  from at_scan.first_answers [OF assms(2) this, of rest 0 None] show ?thesis
    using assms(1) by (simp add: processAT_def)
qed

theorem processAT_dispatch_witness:
  "processAT (modmgr_new\<lparr>m_listHead := [default_callback,
       default_callback\<lparr>at_cmd := cs ''AT+X'', also_need_to_cp := True, eng_linuxcmd_func := Some (\<lambda>io. Some (9, io))\<rparr>]\<rparr>)
     \<lparr>cb_buf = cs ''at+x?'' @ [0], cb_rsp = [], cb_env = ()\<rparr> =
   Some (9, True, \<lparr>cb_buf = cs ''at+x?'' @ [0], cb_rsp = [], cb_env = ()\<rparr>)"
proof -
  let ?io = "\<lparr>cb_buf = cs ''at+x?'' @ [0], cb_rsp = [], cb_env = ()\<rparr>"
    and ?c = "default_callback\<lparr>at_cmd := cs ''AT+X'', also_need_to_cp := True, eng_linuxcmd_func := Some (\<lambda>io. Some (9, io))\<rparr> :: unit eng_callback"
  have "processAT (modmgr_new\<lparr>m_listHead := [default_callback, ?c]\<rparr>) ?io = Some (9, also_need_to_cp ?c, ?io)"
    by (rule processAT_dispatch [of _ "[default_callback]" ?c "[]" _ "cs ''at+x?''"])
       (simp_all add: at_applies_def default_callback_def cstr_at_def strncaseeq_def lower_def
          ENG_DIAG_RET_UNSUPPORT_def)
  then show ?thesis by simp
qed

text \<open>(sending to the host): for a frame of at least its two flags, \<open>write_to_host_diag\<close>
  escapes the payload inside the array it allocates and, on a port that accepts data, the host
  receives exactly the frame of the payload; the return value is its length. A length of 0 makes
  it write behind an empty array.\<close>

theorem write_to_host_diag_sends:
  assumes "2 \<le> len" and "len \<le> length buff"
    and "m_bEnableWR p" and "m_fd p \<ge> 0" and "portType p \<noteq> PORT_LOOP"
    and "\<forall>e \<in> set evs. \<exists>k > 0. e = WSent k" and "2 * len \<le> length evs"
  shows "(\<exists>st es. write_to_host_diag (Some p) os buff len evs
        = Ret (int (length (frame (take (len - 2) (drop 1 buff)))), Some st, es)
      \<and> concat (w_out st) = frame (take (len - 2) (drop 1 buff)))
    \<and> write_to_host_diag (Some p) os buff 0 evs = UB"
proof -
  let ?xs = "take (len - 2) (drop 1 buff)" and ?dst = "replicate (len * 2) (0 :: byte)"
  have le: "length (frame ?xs) \<le> 2 * len"
    using nspecial_le [of ?xs] assms(1,2) by (simp add: length_frame)
  then have tp: "translate_packet ?dst (drop 1 buff) (len - 2) =
      Some (frame ?xs @ drop (length (frame ?xs)) ?dst, length (frame ?xs))"
    using assms(1,2) by (subst translate_packet_closed) auto
  have "0 < length (frame ?xs)" by (simp add: length_frame)
  then obtain st es where "port_write p os (frame ?xs @ drop (length (frame ?xs)) ?dst) (length (frame ?xs)) evs
      = Ret (int (length (frame ?xs)), st, es)" "concat (w_out st) = frame ?xs"
    using port_write_all [of p "length (frame ?xs)" "frame ?xs @ drop (length (frame ?xs)) ?dst" evs os]
      assms le by auto
  then show ?thesis
    using tp by (simp add: write_to_host_diag_def translate_packet_def wr_def)
qed

theorem write_to_host_diag_sends_witness:
  "\<exists>st es. write_to_host_diag (Some (opened sample_port)) sample_os [0x7E, 5, 0x7D, 0x7E] 4 (replicate 8 (WSent 9))
     = Ret (5, Some st, es) \<and> concat (w_out st) = [0x7E, 5, 0x7D, 0x5D, 0x7E]"
  using write_to_host_diag_sends [of 4 "[0x7E, 5, 0x7D, 0x7E]" "opened sample_port" "replicate 8 (WSent 9)" sample_os]
  by (auto simp: sample_port_defs frame_def esc_byte_def special_def suc2)

end
