(* ===== verification/Config.thy ===== *)
theory Config
  imports Prelude
begin

text \<open>
  \<open>EngConf\<close> (\<open>server/common/config.cpp\<close>), the parser of the device and channel tables: tokens are
  separated by tabs, carriage returns and newlines (not by spaces), a token that starts with \<open>#\<close>
  drops its whole line, and a file is read in lines of at most 1023 bytes. Section Specification
  says which list of rows a file denotes; the lemmas show that the pointer-walking code computes
  it, and that printed tables are read back.
\<close>

section \<open>Operations\<close>

definition is_sep :: "byte \<Rightarrow> bool" where
  "is_sep c \<longleftrightarrow> c = 9 \<or> c = 13 \<or> c = 10"

text \<open>\<open>get_token\<close> on the string at \<open>buf\<close>: the token and what follows it; \<open>None\<close> is NULL.\<close>

fun get_token :: "byte list \<Rightarrow> (byte list \<times> byte list) option" where
  "get_token [] = None"
| "get_token (c # buf) =
     (if is_sep c then get_token buf
      else let rest = takeWhile (\<lambda>b. \<not> is_sep b) buf in Some (c # rest, drop (length rest) buf))"

lemma get_token_shorter: "get_token buf = Some (tok, rest) \<Longrightarrow> length rest < length buf"
  by (induction buf) (auto simp: Let_def split: if_splits)

function parse_tokens :: "byte list \<Rightarrow> byte list list \<Rightarrow> byte list list option" where
  "parse_tokens buf vt =
     (case get_token buf of
        None \<Rightarrow> Some vt
      | Some (tok, rest) \<Rightarrow> (if hd tok = 0x23 then None else parse_tokens rest (vt @ [tok])))"
  by pat_completeness auto
termination
  by (relation "measure (\<lambda>(buf, vt). length buf)") (auto dest: get_token_shorter)

declare parse_tokens.simps [simp del]

text \<open>\<open>parse_line\<close>: \<open>None\<close> (NULL) for a comment and for a line without tokens.\<close>

definition parse_line :: "byte list \<Rightarrow> byte list list option" where
  "parse_line buf =
     (case parse_tokens buf [] of None \<Rightarrow> None | Some vt \<Rightarrow> if vt = [] then None else Some vt)"

text \<open>\<open>fgets(buf, n, pf)\<close> on what is left of a file: up to \<open>n - 1\<close> bytes, or up to a newline.\<close>

definition fgets :: "nat \<Rightarrow> byte list \<Rightarrow> (byte list \<times> byte list) option" where
  "fgets n ct =
     (if ct = [] then None
      else let line = takeWhile (\<lambda>b. b \<noteq> 10) ct;
               k = min (n - 1) (if length line < length ct then length line + 1 else length line)
           in Some (take k ct, drop k ct))"

lemma fgets_shorter: "1 < n \<Longrightarrow> fgets n ct = Some (line, rest) \<Longrightarrow> length rest < length ct"
  by (cases ct) (auto simp: fgets_def Let_def split: if_splits)

function parse_lines :: "byte list \<Rightarrow> byte list list list \<Rightarrow> byte list list list" where
  "parse_lines ct m_cnt =
     (case fgets 1024 ct of
        None \<Rightarrow> m_cnt
      | Some (buf, rest) \<Rightarrow>
          (case parse_line (takeWhile (\<lambda>b. b \<noteq> 0) buf) of
             None \<Rightarrow> parse_lines rest m_cnt
           | Some item \<Rightarrow> parse_lines rest (m_cnt @ [item])))"
  by pat_completeness auto
termination
  by (relation "measure (\<lambda>(ct, m_cnt). length ct)") (auto dest: fgets_shorter [rotated])

declare parse_lines.simps [simp del]

text \<open>\<open>parse_config_file\<close> and \<open>parse\<close>: the file's content, or \<open>None\<close> when it cannot be opened.\<close>

definition parse_config_file :: "byte list option \<Rightarrow> int \<times> byte list list list" where
  "parse_config_file ct = (case ct of None \<Rightarrow> (- 1, []) | Some f \<Rightarrow> (0, parse_lines f []))"

datatype conf_type = CONF_DEV | CONF_CHNL | CONF_OTHER

definition engconf_parse ::
  "conf_type \<Rightarrow> bool \<Rightarrow> byte list option \<Rightarrow> int \<times> byte list list list" where
  "engconf_parse type readable ct =
     (if type \<noteq> CONF_DEV \<and> type \<noteq> CONF_CHNL then (- 1, [])
      else if \<not> readable then (- 1, [])
      else parse_config_file ct)"

section \<open>Specification\<close>

text \<open>The non-empty runs between separators.\<close>

fun fields :: "byte list \<Rightarrow> byte list \<Rightarrow> byte list list" where
  "fields acc [] = (if acc = [] then [] else [acc])"
| "fields acc (c # s) =
     (if is_sep c then (if acc = [] then fields [] s else acc # fields [] s)
      else fields (acc @ [c]) s)"

lemma fields_run:
  "\<not> list_ex is_sep xs \<Longrightarrow> fields acc (xs @ s) = fields (acc @ xs) s"
  by (induction xs arbitrary: acc) auto

lemma takeWhile_no_sep: "\<not> list_ex is_sep (takeWhile (\<lambda>b. \<not> is_sep b) s)"
  by (induction s) auto

lemma get_token_fields:
  "fields [] buf = (case get_token buf of None \<Rightarrow> [] | Some (tok, rest) \<Rightarrow> tok # fields [] rest)"
proof (induction buf)
  case (Cons c buf)
  show ?case
  proof (cases "is_sep c")
    case True
    then show ?thesis using Cons by simp
  next
    case False
    let ?t = "takeWhile (\<lambda>b. \<not> is_sep b) buf"
    have d: "drop (length ?t) buf = dropWhile (\<lambda>b. \<not> is_sep b) buf"
      by (rule dropWhile_eq_drop [symmetric])
    have "fields [c] buf = fields ([c] @ ?t) (dropWhile (\<lambda>b. \<not> is_sep b) buf)"
      using fields_run [OF takeWhile_no_sep, of "[c]" buf "dropWhile (\<lambda>b. \<not> is_sep b) buf"]
      by simp
    also have "\<dots> = (c # ?t) # fields [] (dropWhile (\<lambda>b. \<not> is_sep b) buf)"
    proof (cases "dropWhile (\<lambda>b. \<not> is_sep b) buf")
      case (Cons x xs)
      then have "is_sep x" using hd_dropWhile [of "\<lambda>b. \<not> is_sep b" buf] by auto
      then show ?thesis using Cons by simp
    next
      case Nil
      show ?thesis unfolding Nil by simp
    qed
    finally show ?thesis using False d by (simp add: Let_def)
  qed
qed simp

lemma get_token_hd: "get_token buf = Some (tok, rest) \<Longrightarrow> tok \<noteq> []"
  by (induction buf) (auto simp: Let_def split: if_splits)

lemma parse_tokens_fields:
  "parse_tokens buf vt =
    (if \<exists>f \<in> set (fields [] buf). hd f = 0x23 then None else Some (vt @ fields [] buf))"
proof (induction buf vt rule: parse_tokens.induct)
  case (1 buf vt)
  show ?case
  proof (cases "get_token buf")
    case None
    then show ?thesis using get_token_fields [of buf] by (subst parse_tokens.simps) simp
  next
    case (Some p)
    obtain tok rest where p: "p = (tok, rest)" by (cases p)
    show ?thesis
      using 1 [OF Some p [symmetric]] get_token_fields [of buf] Some p by (subst parse_tokens.simps) auto
  qed
qed

lemma parse_line_fields:
  "parse_line buf = (if fields [] buf = [] \<or> (\<exists>f \<in> set (fields [] buf). hd f = 0x23) then None
     else Some (fields [] buf))"
  by (auto simp: parse_line_def parse_tokens_fields)

section \<open>Printing a table and reading it back\<close>

definition print_row :: "byte list list \<Rightarrow> byte list" where
  "print_row r = concat (map (\<lambda>f. f @ [9]) r) @ [10]"

definition good_field :: "byte list \<Rightarrow> bool" where
  "good_field f \<longleftrightarrow> f \<noteq> [] \<and> hd f \<noteq> 0x23 \<and> 0 \<notin> set f \<and> \<not> list_ex is_sep f"

definition good_row :: "byte list list \<Rightarrow> bool" where
  "good_row r \<longleftrightarrow> r \<noteq> [] \<and> list_all good_field r \<and> length (print_row r) \<le> 1023"

lemma fields_print:
  "list_all good_field r \<Longrightarrow> fields [] (concat (map (\<lambda>f. f @ [9]) r) @ [10]) = r"
proof (induction r)
  case (Cons f r)
  then show ?case
    using fields_run [of f "[]" "9 # concat (map (\<lambda>f. f @ [9]) r) @ [10]"]
    by (auto simp: good_field_def is_sep_def)
qed (simp add: is_sep_def)

lemma good_field_no_newline: "good_field f \<Longrightarrow> 10 \<notin> set f"
  by (auto simp: good_field_def list_ex_iff is_sep_def)

lemma print_row_line:
  assumes "list_all good_field r"
  shows "takeWhile (\<lambda>b. b \<noteq> 10) (print_row r @ rest) = concat (map (\<lambda>f. f @ [9]) r)"
proof -
  have "10 \<notin> set (concat (map (\<lambda>f. f @ [9]) r))"
    using assms good_field_no_newline by (induction r) auto
  then have n: "\<forall>x \<in> set (concat (map (\<lambda>f. f @ [9]) r)). x \<noteq> 10" by metis
  show ?thesis unfolding print_row_def append_assoc
    by (subst takeWhile_append2) (use n in auto)
qed

lemma print_row_no_nul: "list_all good_field r \<Longrightarrow> 0 \<notin> set (print_row r)"
  by (auto simp: print_row_def list_all_iff good_field_def)

lemma fgets_row:
  assumes "good_row r"
  shows "fgets 1024 (print_row r @ rest) = Some (print_row r, rest)"
proof -
  let ?l = "concat (map (\<lambda>f. f @ [9]) r)"
  have r: "print_row r = ?l @ [10]" by (simp add: print_row_def)
  have t: "takeWhile (\<lambda>b. b \<noteq> 10) (print_row r @ rest) = ?l"
    using assms print_row_line by (simp add: good_row_def)
  have "length ?l + 1 \<le> 1023" using assms by (simp add: good_row_def r)
  then show ?thesis
    unfolding fgets_def Let_def t by (simp add: r min_absorb2)
qed

lemma parse_lines_rows:
  "list_all good_row t \<Longrightarrow> parse_lines (concat (map print_row t)) acc = acc @ t"
proof (induction t arbitrary: acc)
  case Nil
  show ?case by (subst parse_lines.simps) (simp add: fgets_def)
next
  case (Cons r t)
  have g: "list_all good_field r" "r \<noteq> []" using Cons.prems by (simp_all add: good_row_def)
  have nn: "takeWhile (\<lambda>b. b \<noteq> 0) (print_row r) = print_row r"
    using print_row_no_nul [OF g(1)] by (metis (mono_tags) takeWhile_eq_all_conv)
  have "parse_line (print_row r) = Some r"
    using g by (auto simp: parse_line_fields print_row_def fields_print list_all_iff good_field_def)
  then have "parse_lines (print_row r @ concat (map print_row t)) acc
      = parse_lines (concat (map print_row t)) (acc @ [r])"
    using fgets_row [of r "concat (map print_row t)"] Cons.prems by (subst parse_lines.simps) (simp add: nn)
  then show ?case using Cons by simp
qed

section \<open>Properties\<close>

text \<open>(a line): \<open>parse_line\<close> returns the non-empty runs of the line between tabs, carriage returns
  and newlines, in order, and nothing for a line without any or with one that starts with \<open>#\<close>.\<close>

theorem parse_line_spec:
  "parse_line buf = (if fields [] buf = [] \<or> list_ex (\<lambda>f. hd f = 0x23) (fields [] buf) then None
     else Some (fields [] buf))"
  by (simp add: parse_line_fields list_ex_iff)

text \<open>C16 (round trip): a table whose fields are non-empty, free of separators and NULs and do not
  start with \<open>#\<close>, and whose printed rows fit the 1024-byte line buffer, is read back exactly.\<close>

theorem parse_config_roundtrip:
  assumes "list_all good_row t" and "type = CONF_DEV \<or> type = CONF_CHNL"
  shows "engconf_parse type True (Some (concat (map print_row t))) = (0, t)"
  using assms parse_lines_rows [of t "[]"] by (auto simp: engconf_parse_def parse_config_file_def)

definition sample_rows :: "byte list list list" where
  "sample_rows = [[cs ''normal'', cs ''COM_AT''], [cs ''cali'', cs ''my port'']]"

theorem parse_config_roundtrip_witness:
  "engconf_parse CONF_DEV True (Some (concat (map print_row sample_rows))) = (0, sample_rows)"
  by (rule parse_config_roundtrip)
     (simp_all add: sample_rows_def good_row_def good_field_def print_row_def is_sep_def)

end
