(* ===== verification/Device.thy ===== *)
theory Device
  imports Port Config
begin

text \<open>
  \<open>CDev\<close> and \<open>CDevMgr\<close> (\<open>server/chnl\<close>): devices with one list of ports per boot mode, the search for
  a port by mode and name, enabling the ports of the current mode, the manager's list of
  devices, and loading both from the configuration directory. Port objects live in one list;
  a pointer to a port is its index. \<open>strcpy\<close> into a field that is too small has no value. The
  locale \<open>registry\<close> states what the managers' \<open>find\<close> and \<open>add\<close> promise each other.
\<close>

definition BOOTMODE_NAME_LEN :: nat where "BOOTMODE_NAME_LEN = 64"
definition DEF_BOOT_MODE :: "byte list" where "DEF_BOOT_MODE = cs ''normal''"
definition DEV_HOST_NAME :: "byte list" where "DEV_HOST_NAME = cs ''pc''"

definition strcpy :: "nat \<Rightarrow> byte list \<Rightarrow> byte list option" where
  "strcpy sz s = (if length s < sz then Some s else None)"

section \<open>\<open>CDev\<close>\<close>

record bmdev =
  bm_bootmode :: "byte list"
  bm_portList :: "nat list"

record cdev =
  d_devName :: "byte list"
  d_curMode :: "byte list"
  d_enable :: bool
  m_BMDevList :: "bmdev list"

definition cdev_new :: "byte list \<Rightarrow> cdev option" where
  "cdev_new name = do { n \<leftarrow> strcpy DEV_NAME_LEN name;
     Some \<lparr>d_devName = n, d_curMode = [], d_enable = False, m_BMDevList = []\<rparr> }"

definition cdev_getname :: "cdev \<Rightarrow> byte list" where "cdev_getname d = d_devName d"

text \<open>The loops over the list of modes return a pointer to the first entry with the mode's name.\<close>

fun findBootMode :: "bmdev list \<Rightarrow> byte list \<Rightarrow> nat \<Rightarrow> nat option" where
  "findBootMode [] bootmode i = None"
| "findBootMode (b # bs) bootmode i =
     (if strcaseeq (bm_bootmode b) bootmode then Some i else findBootMode bs bootmode (Suc i))"

definition cdev_activeMode :: "cdev \<Rightarrow> byte list \<Rightarrow> (int \<times> cdev) option" where
  "cdev_activeMode d bootmode =
     (if findBootMode (m_BMDevList d) bootmode 0 \<noteq> None
      then do { s \<leftarrow> strcpy BOOTMODE_NAME_LEN bootmode; Some (0, d\<lparr>d_curMode := s\<rparr>) }
      else Some (- 1, d))"

definition cdev_addPort :: "cdev \<Rightarrow> byte list \<Rightarrow> nat \<Rightarrow> (int \<times> cdev) option" where
  "cdev_addPort d bootmode port =
     (case findBootMode (m_BMDevList d) bootmode 0 of
        None \<Rightarrow> do {
          s \<leftarrow> strcpy BOOTMODE_NAME_LEN bootmode;
          Some (0, d\<lparr>m_BMDevList := m_BMDevList d @ [\<lparr>bm_bootmode = s, bm_portList = [port]\<rparr>]\<rparr>)
        }
      | Some i \<Rightarrow>
          (let b = m_BMDevList d ! i
           in Some (0, d\<lparr>m_BMDevList := (m_BMDevList d)[i := b\<lparr>bm_portList := bm_portList b @ [port]\<rparr>]\<rparr>)))"

fun find_port :: "port list \<Rightarrow> byte list \<Rightarrow> nat list \<Rightarrow> nat option" where
  "find_port ports name [] = None"
| "find_port ports name (i # js) =
     (if port_find (ports ! i) name then Some i else find_port ports name js)"

fun find_in_modes :: "port list \<Rightarrow> byte list \<Rightarrow> byte list \<Rightarrow> bmdev list \<Rightarrow> nat option" where
  "find_in_modes ports bootmode name [] = None"
| "find_in_modes ports bootmode name (b # bs) =
     (if strcaseeq (bm_bootmode b) bootmode
      then case find_port ports name (bm_portList b) of
             Some i \<Rightarrow> Some i
           | None \<Rightarrow> find_in_modes ports bootmode name bs
      else find_in_modes ports bootmode name bs)"

definition cdev_find_mode :: "port list \<Rightarrow> cdev \<Rightarrow> byte list \<Rightarrow> byte list \<Rightarrow> nat option" where
  "cdev_find_mode ports d bootmode name = find_in_modes ports bootmode name (m_BMDevList d)"

definition cdev_find :: "port list \<Rightarrow> cdev \<Rightarrow> byte list \<Rightarrow> nat option" where
  "cdev_find ports d name = cdev_find_mode ports d (d_curMode d) name"

definition cdev_enable :: "cdev \<Rightarrow> bool \<Rightarrow> bool \<times> cdev" where
  "cdev_enable d on = (True, d\<lparr>d_enable := on\<rparr>)"

definition cdev_enablePort :: "port list \<Rightarrow> cdev \<Rightarrow> byte list \<Rightarrow> bool \<Rightarrow> bool \<Rightarrow> bool \<times> port list" where
  "cdev_enablePort ports d name enableRD enableWR =
     (case cdev_find ports d name of
        None \<Rightarrow> (False, ports)
      | Some i \<Rightarrow> (let (r, p) = port_enable (ports ! i) enableRD enableWR in (r, ports[i := p])))"

text \<open>The nested loops of \<open>enablePortRD\<close> and \<open>enablePortWR\<close>.\<close>

fun upd_ports :: "(port \<Rightarrow> port) \<Rightarrow> nat list \<Rightarrow> port list \<Rightarrow> port list" where
  "upd_ports f [] ports = ports"
| "upd_ports f (i # js) ports = upd_ports f js (ports[i := f (ports ! i)])"

fun upd_modes :: "(port \<Rightarrow> port) \<Rightarrow> byte list \<Rightarrow> bmdev list \<Rightarrow> port list \<Rightarrow> port list" where
  "upd_modes f mode [] ports = ports"
| "upd_modes f mode (b # bs) ports =
     upd_modes f mode bs
       (if strcaseeq (bm_bootmode b) mode then upd_ports f (bm_portList b) ports else ports)"

definition cdev_enablePortRD :: "port list \<Rightarrow> cdev \<Rightarrow> bool \<Rightarrow> bool \<times> port list" where
  "cdev_enablePortRD ports d enableRD =
     (True, upd_modes (\<lambda>p. let (enRD, enWR) = port_getEnable p in snd (port_enable p enableRD enWR))
              (d_curMode d) (m_BMDevList d) ports)"

definition cdev_enablePortWR :: "port list \<Rightarrow> cdev \<Rightarrow> bool \<Rightarrow> bool \<times> port list" where
  "cdev_enablePortWR ports d enableWR =
     (True, upd_modes (\<lambda>p. let (enRD, enWR) = port_getEnable p in snd (port_enable p enRD enableWR))
              (d_curMode d) (m_BMDevList d) ports)"

definition cdev_open :: "port list \<Rightarrow> cdev \<Rightarrow> byte list \<Rightarrow> os \<Rightarrow> int \<times> port list \<times> os" where
  "cdev_open ports d name os =
     (case cdev_find ports d name of
        None \<Rightarrow> (- 1, ports, os)
      | Some i \<Rightarrow> (let (r, p, os') = port_open (ports ! i) os in (r, ports[i := p], os')))"

definition cdev_close :: "port list \<Rightarrow> cdev \<Rightarrow> byte list \<Rightarrow> int \<times> port list" where
  "cdev_close ports d name =
     (case cdev_find ports d name of
        None \<Rightarrow> (- 1, ports)
      | Some i \<Rightarrow> (let (r, p) = port_close (ports ! i) in (r, ports[i := p])))"

definition cdev_write ::
  "port list \<Rightarrow> cdev \<Rightarrow> byte list \<Rightarrow> os \<Rightarrow> mem \<Rightarrow> nat \<Rightarrow> wr_event list
   \<Rightarrow> (int \<times> port list \<times> byte list list) call" where
  "cdev_write ports d name os buff nLen evs =
     (case cdev_find ports d name of
        None \<Rightarrow> Ret (- 1, ports, [])
      | Some i \<Rightarrow>
          (case port_write (ports ! i) os buff nLen evs of
             Ret (r, st, es) \<Rightarrow> Ret (r, ports[i := w_port st], w_out st)
           | Blocked \<Rightarrow> Blocked
           | UB \<Rightarrow> UB))"

definition cdev_read ::
  "port list \<Rightarrow> cdev \<Rightarrow> byte list \<Rightarrow> ctrans \<Rightarrow> os \<Rightarrow> mem \<Rightarrow> nat \<Rightarrow> rd_event list
   \<Rightarrow> (int \<times> port list \<times> mem) call" where
  "cdev_read ports d name t os buff nLen evs =
     (case cdev_find ports d name of
        None \<Rightarrow> Ret (- 1, ports, buff)
      | Some i \<Rightarrow>
          (case port_read (ports ! i) t os buff nLen evs of
             Ret (r, st, es) \<Rightarrow> Ret (r, ports[i := r_port st], r_buff st)
           | Blocked \<Rightarrow> Blocked
           | UB \<Rightarrow> UB))"

section \<open>\<open>CDevMgr\<close>\<close>

type_synonym devmgr = "cdev list"  \<comment> \<open>\<open>m_devList\<close>\<close>

fun devmgr_find_from :: "devmgr \<Rightarrow> byte list \<Rightarrow> nat \<Rightarrow> nat option" where
  "devmgr_find_from [] name i = None"
| "devmgr_find_from (d # ds) name i =
     (if strcaseeq (cdev_getname d) name then Some i else devmgr_find_from ds name (Suc i))"

definition devmgr_find :: "devmgr \<Rightarrow> byte list \<Rightarrow> nat option" where
  "devmgr_find ds name = devmgr_find_from ds name 0"

definition devmgr_addDev :: "devmgr \<Rightarrow> cdev \<Rightarrow> int \<times> devmgr" where
  "devmgr_addDev ds dev = (if devmgr_find ds (cdev_getname dev) \<noteq> None then (- 1, ds) else (0, ds @ [dev]))"

definition devmgr_enable :: "devmgr \<Rightarrow> byte list \<Rightarrow> bool \<Rightarrow> bool \<times> devmgr" where
  "devmgr_enable ds name on =
     (case devmgr_find ds name of
        None \<Rightarrow> (False, ds)
      | Some i \<Rightarrow> (let (r, d) = cdev_enable (ds ! i) on in (r, ds[i := d])))"

fun devmgr_activeMode :: "devmgr \<Rightarrow> byte list \<Rightarrow> devmgr option" where
  "devmgr_activeMode [] bootmode = Some []"
| "devmgr_activeMode (d # ds) bootmode = do {
     (r, d1) \<leftarrow> cdev_activeMode d bootmode;
     d2 \<leftarrow> (if r \<noteq> 0 then do { (r', d2) \<leftarrow> cdev_activeMode d1 DEF_BOOT_MODE; Some d2 } else Some d1);
     ds' \<leftarrow> devmgr_activeMode ds bootmode;
     Some (d2 # ds')
   }"

datatype UEVENT_MSG = USB_CONNECT | USB_DISCONNECT | USB_UNKNOWN

definition devmgr_notify :: "UEVENT_MSG \<Rightarrow> devmgr option \<Rightarrow> port list \<Rightarrow> int \<times> port list" where
  "devmgr_notify msg mgr ports =
     (case mgr of
        None \<Rightarrow> (- 1, ports)
      | Some ds \<Rightarrow>
          (0, if msg = USB_CONNECT
              then case devmgr_find ds DEV_HOST_NAME of
                     None \<Rightarrow> ports | Some i \<Rightarrow> snd (cdev_enablePortWR ports (ds ! i) True)
              else if msg = USB_DISCONNECT
              then case devmgr_find ds DEV_HOST_NAME of
                     None \<Rightarrow> ports | Some i \<Rightarrow> snd (cdev_enablePortWR ports (ds ! i) False)
              else ports))"

subsection \<open>Loading\<close>

text \<open>
  A directory entry: its name, its type, whether it may be read, and its content. The variables
  for the columns are declared outside the loop over the rows: a column that a row does not have
  keeps the value of the row before (\<open>None\<close>, a null pointer, at first).
\<close>

record conf_entry =
  c_name :: "byte list"
  c_type :: nat
  c_readable :: bool
  c_content :: "byte list option"

fun fill_columns :: "byte list option list \<Rightarrow> byte list list \<Rightarrow> byte list option list" where
  "fill_columns (v # vs) (f # fs) = Some f # fill_columns vs fs"
| "fill_columns vs fs = vs"

text \<open>The name of the device or channel group: the file name without its last five characters,
  copied into a zeroed array of \<open>sz\<close> bytes.\<close>

definition conf_name :: "nat \<Rightarrow> byte list \<Rightarrow> byte list option" where
  "conf_name sz nm = strcpy sz (take (length nm - length (cs ''.conf'')) nm)"

definition is_conf :: "conf_entry \<Rightarrow> bool" where
  "is_conf e \<longleftrightarrow> c_type e = 8 \<and> strstr (c_name e) (cs ''.conf'') \<noteq> None"

fun load_ports ::
  "(nat \<Rightarrow> (int \<times> int) option) \<Rightarrow> byte list \<Rightarrow> byte list option list \<Rightarrow> byte list list list
   \<Rightarrow> cdev \<Rightarrow> port list \<Rightarrow> (cdev \<times> port list) option" where
  "load_ports pipes devName vars [] d ports = Some (d, ports)"
| "load_ports pipes devName vars (item # rows) d ports =
     (let vars' = fill_columns vars item in
      case vars' of
        [Some bootmode, Some name, Some data_type, Some port_type, port_path, reserved, description] \<Rightarrow>
          (let p = port_new (pipes (length ports)) devName name port_type port_path data_type
                     reserved description
           in do {
             (r, d') \<leftarrow> cdev_addPort d bootmode (length ports);
             load_ports pipes devName vars' rows d' (ports @ [p])
           })
      | _ \<Rightarrow> None)"

fun devmgr_load_entries ::
  "(nat \<Rightarrow> (int \<times> int) option) \<Rightarrow> conf_entry list \<Rightarrow> devmgr \<Rightarrow> port list
   \<Rightarrow> (devmgr \<times> port list) option" where
  "devmgr_load_entries pipes [] ds ports = Some (ds, ports)"
| "devmgr_load_entries pipes (e # es) ds ports =
     (if \<not> is_conf e then devmgr_load_entries pipes es ds ports
      else let (r, rows) = engconf_parse CONF_DEV (c_readable e) (c_content e) in
           if r \<noteq> 0 then devmgr_load_entries pipes es ds ports
           else do {
             devName \<leftarrow> conf_name DEV_NAME_LEN (c_name e);
             d0 \<leftarrow> cdev_new devName;
             (d, ports') \<leftarrow> load_ports pipes devName (replicate 7 None) rows d0 ports;
             devmgr_load_entries pipes es (snd (devmgr_addDev ds d)) ports'
           })"

definition devmgr_load ::
  "(nat \<Rightarrow> (int \<times> int) option) \<Rightarrow> conf_entry list option \<Rightarrow> devmgr \<Rightarrow> port list
   \<Rightarrow> (int \<times> devmgr \<times> port list) option" where
  "devmgr_load pipes dir ds ports =
     (case dir of
        None \<Rightarrow> Some (- 1, ds, ports)
      | Some es \<Rightarrow> do { (ds', ports') \<leftarrow> devmgr_load_entries pipes es ds ports; Some (0, ds', ports') })"

section \<open>The interface of the managers: a registry with unique names\<close>

locale registry =
  fixes key :: "'e \<Rightarrow> byte list"
    and lookup :: "'e list \<Rightarrow> byte list \<Rightarrow> nat option"
    and add :: "'e list \<Rightarrow> 'e \<Rightarrow> int \<times> 'e list"
  assumes lookup_Some: "lookup es k = Some i \<Longrightarrow>
      i < length es \<and> strcaseeq (key (es ! i)) k \<and> (\<forall>j < i. \<not> strcaseeq (key (es ! j)) k)"
    and lookup_None: "lookup es k = None \<Longrightarrow> \<forall>e \<in> set es. \<not> strcaseeq (key e) k"
    and add_dup: "lookup es (key e) \<noteq> None \<Longrightarrow> add es e = (- 1, es)"
    and add_new: "lookup es (key e) = None \<Longrightarrow> add es e = (0, es @ [e])"
begin

definition unique :: "'e list \<Rightarrow> bool" where
  "unique es \<longleftrightarrow> (\<forall>i < length es. \<forall>j < length es. strcaseeq (key (es ! i)) (key (es ! j)) \<longrightarrow> i = j)"

lemma unique_nil: "unique []"
  by (simp add: unique_def)

lemma add_keeps_unique:
  assumes "unique es"
  shows "unique (snd (add es e))"
proof (cases "lookup es (key e)")
  case None
  have n: "\<not> strcaseeq (key (es ! i)) (key e)" "\<not> strcaseeq (key e) (key (es ! i))" if "i < length es" for i
    using lookup_None [OF None] that by (auto dest: strcaseeq_sym)
  show ?thesis
    using assms n by (auto simp: add_new [OF None] unique_def nth_append less_Suc_eq)
qed (use assms add_dup in simp)

lemma lookup_unique:
  assumes "unique es" and "i < length es" and "strcaseeq (key (es ! i)) k"
  shows "lookup es k = Some i"
proof (cases "lookup es k")
  case None
  then show ?thesis using lookup_None [OF None] assms(2,3) by auto
next
  case (Some j)
  then have "j < length es" "strcaseeq (key (es ! j)) k" using lookup_Some by blast+
  then show ?thesis
    using assms Some strcaseeq_trans strcaseeq_sym unfolding unique_def by (metis (no_types))
qed

lemma lookup_added:
  assumes "unique es" and "lookup es (key e) = None" and "strcaseeq (key e) k"
  shows "lookup (snd (add es e)) k = Some (length es)"
proof (rule lookup_unique)
  show "unique (snd (add es e))" by (rule add_keeps_unique [OF assms(1)])
qed (use assms(3) add_new [OF assms(2)] in \<open>simp_all add: nth_append\<close>)

lemma lookup_kept:
  assumes "unique es" and "lookup es k = Some i"
  shows "lookup (snd (add es e)) k = Some i"
proof (rule lookup_unique)
  show "unique (snd (add es e))" by (rule add_keeps_unique [OF assms(1)])
  have "snd (add es e) = es \<or> snd (add es e) = es @ [e]"
    using add_dup add_new by (cases "lookup es (key e)") auto
  then show "i < length (snd (add es e))" "strcaseeq (key (snd (add es e) ! i)) k"
    using lookup_Some [OF assms(2)] by (auto simp: nth_append)
qed

end

lemma devmgr_find_from_Some:
  "devmgr_find_from ds name n = Some i \<Longrightarrow> n \<le> i \<and> i - n < length ds
    \<and> strcaseeq (cdev_getname (ds ! (i - n))) name \<and> (\<forall>j < i - n. \<not> strcaseeq (cdev_getname (ds ! j)) name)"
proof (induction ds arbitrary: n)
  case (Cons d ds)
  show ?case
  proof (cases "strcaseeq (cdev_getname d) name")
    case False
    then have "devmgr_find_from ds name (Suc n) = Some i" using Cons.prems by simp
    from Cons.IH [OF this] have ih: "Suc n \<le> i" "i - Suc n < length ds"
      "strcaseeq (cdev_getname (ds ! (i - Suc n))) name"
      "\<forall>j < i - Suc n. \<not> strcaseeq (cdev_getname (ds ! j)) name" by auto
    then have "i - n = Suc (i - Suc n)" by simp
    then show ?thesis using ih False by (auto simp: less_Suc_eq_0_disj)
  qed (use Cons.prems in simp)
qed simp

lemma devmgr_find_from_None:
  "devmgr_find_from ds name n = None \<longleftrightarrow> (\<forall>d \<in> set ds. \<not> strcaseeq (cdev_getname d) name)"
  by (induction ds arbitrary: n) auto

interpretation devs: registry cdev_getname devmgr_find devmgr_addDev
  by unfold_locales
     (auto simp: devmgr_find_def devmgr_addDev_def devmgr_find_from_None dest: devmgr_find_from_Some)

section \<open>What a device holds, mode by mode\<close>

text \<open>The ports of a mode, in the order they were added.\<close>

definition mode_ports :: "cdev \<Rightarrow> byte list \<Rightarrow> nat list" where
  "mode_ports d mode =
     concat (map bm_portList (filter (\<lambda>b. strcaseeq (bm_bootmode b) mode) (m_BMDevList d)))"

definition modes_unique :: "cdev \<Rightarrow> bool" where
  "modes_unique d \<longleftrightarrow> distinct (map (map lower \<circ> bm_bootmode) (m_BMDevList d))"

lemma find_port_find: "find_port ports name js = List.find (\<lambda>i. port_find (ports ! i) name) js"
  by (induction js) auto

lemma find_in_modes_find:
  "find_in_modes ports mode name bs = List.find (\<lambda>i. port_find (ports ! i) name)
     (concat (map bm_portList (filter (\<lambda>b. strcaseeq (bm_bootmode b) mode) bs)))"
  by (induction bs) (auto simp: find_port_find find_append split: option.splits)

lemma cdev_find_mode_ports:
  "cdev_find_mode ports d mode name = List.find (\<lambda>i. port_find (ports ! i) name) (mode_ports d mode)"
  by (simp add: cdev_find_mode_def mode_ports_def find_in_modes_find)

lemma findBootMode_None:
  "findBootMode bs mode n = None \<longleftrightarrow> (\<forall>b \<in> set bs. \<not> strcaseeq (bm_bootmode b) mode)"
  by (induction bs arbitrary: n) auto

lemma findBootMode_Some:
  "findBootMode bs mode n = Some i \<Longrightarrow> n \<le> i \<and>
     (\<exists>us b vs. bs = us @ b # vs \<and> length us = i - n \<and> strcaseeq (bm_bootmode b) mode
        \<and> (\<forall>u \<in> set us. \<not> strcaseeq (bm_bootmode u) mode))"
proof (induction bs arbitrary: n)
  case (Cons b bs)
  show ?case
  proof (cases "strcaseeq (bm_bootmode b) mode")
    case True
    then show ?thesis using Cons.prems by (intro conjI exI [of _ "[]"]) auto
  next
    case False
    then have "findBootMode bs mode (Suc n) = Some i" using Cons.prems by simp
    from Cons.IH [OF this] obtain us c vs where
      "Suc n \<le> i" "bs = us @ c # vs" "length us = i - Suc n" "strcaseeq (bm_bootmode c) mode"
      "\<forall>u \<in> set us. \<not> strcaseeq (bm_bootmode u) mode" by auto
    then show ?thesis using False
      by (intro conjI exI [of _ "b # us"] exI [of _ c] exI [of _ vs]) auto
  qed
qed simp

lemma strcaseeq_cong: "strcaseeq a b \<Longrightarrow> strcaseeq a c = strcaseeq b c"
  by (simp add: strcaseeq_def)

lemma addPort_modes:
  assumes "modes_unique d" and "length mode < BOOTMODE_NAME_LEN"
  shows "\<exists>d'. cdev_addPort d mode p = Some (0, d') \<and> modes_unique d'
    \<and> (\<forall>m. mode_ports d' m = mode_ports d m @ (if strcaseeq mode m then [p] else []))
    \<and> d_devName d' = d_devName d \<and> d_curMode d' = d_curMode d"
proof (cases "findBootMode (m_BMDevList d) mode 0")
  case None
  then have new: "\<forall>b \<in> set (m_BMDevList d). \<not> strcaseeq (bm_bootmode b) mode"
    by (simp add: findBootMode_None)
  then show ?thesis
    using assms None
    by (auto simp: cdev_addPort_def strcpy_def modes_unique_def mode_ports_def strcaseeq_def)
next
  case (Some i)
  from findBootMode_Some [OF Some] obtain us b vs where
    bs: "m_BMDevList d = us @ b # vs" and i: "length us = i" and b: "strcaseeq (bm_bootmode b) mode"
    by auto
  let ?b = "b\<lparr>bm_portList := bm_portList b @ [p]\<rparr>"
  have d': "cdev_addPort d mode p = Some (0, d\<lparr>m_BMDevList := us @ ?b # vs\<rparr>)"
    using Some bs i [symmetric] by (simp add: cdev_addPort_def Let_def)
  have vs: "filter (\<lambda>b. strcaseeq (bm_bootmode b) m) vs = []" if "strcaseeq mode m" for m
    using assms(1) bs b that
    by (auto simp: modes_unique_def strcaseeq_def filter_empty_conv image_iff)
  have "modes_unique (d\<lparr>m_BMDevList := us @ ?b # vs\<rparr>)"
    using assms(1) bs by (simp add: modes_unique_def)
  then show ?thesis
    using d' bs vs strcaseeq_cong [OF b] by (auto simp: mode_ports_def)
qed

lemma upd_modes_ports:
  "upd_modes f mode bs ports =
    upd_ports f (concat (map bm_portList (filter (\<lambda>b. strcaseeq (bm_bootmode b) mode) bs))) ports"
proof -
  have app: "upd_ports f (js @ ks) ports = upd_ports f ks (upd_ports f js ports)" for js ks ports
    by (induction js arbitrary: ports) auto
  show ?thesis by (induction bs arbitrary: ports) (auto simp: app)
qed

lemma upd_ports_length [simp]: "length (upd_ports f js ports) = length ports"
  by (induction js arbitrary: ports) auto

lemma upd_ports_nth:
  "(\<And>p. f (f p) = f p) \<Longrightarrow> i < length ports \<Longrightarrow>
   upd_ports f js ports ! i = (if i \<in> set js then f (ports ! i) else ports ! i)"
proof (induction js arbitrary: ports)
  case (Cons a js)
  then show ?case by (cases "i = a") auto
qed simp

lemma enablePortWR_nth:
  "i < length ports \<Longrightarrow> snd (cdev_enablePortWR ports d on) ! i =
    (if i \<in> set (mode_ports d (d_curMode d)) then (ports ! i)\<lparr>m_bEnableWR := on\<rparr> else ports ! i)"
  unfolding cdev_enablePortWR_def mode_ports_def snd_conv upd_modes_ports
  by (subst upd_ports_nth) (auto simp: port_getEnable_def port_enable_def)

lemma enablePortRD_nth:
  "i < length ports \<Longrightarrow> snd (cdev_enablePortRD ports d on) ! i =
    (if i \<in> set (mode_ports d (d_curMode d)) then (ports ! i)\<lparr>m_bEnableRD := on\<rparr> else ports ! i)"
  unfolding cdev_enablePortRD_def mode_ports_def snd_conv upd_modes_ports
  by (subst upd_ports_nth) (auto simp: port_getEnable_def port_enable_def)

lemma enablePort_length [simp]:
  "length (snd (cdev_enablePortWR ports d on)) = length ports"
  "length (snd (cdev_enablePortRD ports d on)) = length ports"
  by (simp_all add: cdev_enablePortWR_def cdev_enablePortRD_def upd_modes_ports)

section \<open>Loading a table\<close>

definition row_port :: "(nat \<Rightarrow> (int \<times> int) option) \<Rightarrow> byte list \<Rightarrow> nat \<Rightarrow> byte list list \<Rightarrow> port" where
  "row_port pipes devName i r = port_new (pipes i) devName (r ! 1) (r ! 3) (Some (r ! 4)) (r ! 2)
     (Some (r ! 5)) (Some (r ! 6))"

definition full_row :: "byte list list \<Rightarrow> bool" where
  "full_row r \<longleftrightarrow> length r = 7 \<and> length (hd r) < BOOTMODE_NAME_LEN"

lemma fill_full: "length vs = 7 \<Longrightarrow> length r = 7 \<Longrightarrow> fill_columns vs r = map Some r"
  by (auto simp: length_Suc_conv eval_nat_numeral)

lemma load_ports_rows:
  "list_all full_row rows \<Longrightarrow> modes_unique d \<Longrightarrow> length vars = 7 \<Longrightarrow>
   \<exists>d'. load_ports pipes devName vars rows d ports =
      Some (d', ports @ map2 (row_port pipes devName) [length ports..<length ports + length rows] rows)
    \<and> modes_unique d'
    \<and> (\<forall>m. mode_ports d' m = mode_ports d m @
        map fst (filter (\<lambda>(i, r). strcaseeq (hd r) m) (zip [length ports..<length ports + length rows] rows)))"
proof (induction rows arbitrary: d ports vars)
  case Nil
  then show ?case by simp
next
  case (Cons r rows)
  have r: "length r = 7" "length (hd r) < BOOTMODE_NAME_LEN" using Cons.prems by (simp_all add: full_row_def)
  then obtain a b c e f g h where rr: "r = [a, b, c, e, f, g, h]"
    by (auto simp: length_Suc_conv eval_nat_numeral)
  have fill: "fill_columns vars r = map Some r" using fill_full Cons.prems(3) r(1) by simp
  obtain d1 where d1: "cdev_addPort d a (length ports) = Some (0, d1)" "modes_unique d1"
    "\<forall>m. mode_ports d1 m = mode_ports d m @ (if strcaseeq a m then [length ports] else [])"
    using addPort_modes [OF Cons.prems(2), of a "length ports"] r(2) rr by auto
  let ?p = "row_port pipes devName (length ports) r"
  have lv: "length (map Some r) = 7" using r(1) by simp
  obtain d' where d': "load_ports pipes devName (map Some r) rows d1 (ports @ [?p]) =
      Some (d', (ports @ [?p]) @ map2 (row_port pipes devName)
        [length (ports @ [?p])..<length (ports @ [?p]) + length rows] rows)" "modes_unique d'"
    "\<forall>m. mode_ports d' m = mode_ports d1 m @ map fst (filter (\<lambda>(i, r). strcaseeq (hd r) m)
        (zip [length (ports @ [?p])..<length (ports @ [?p]) + length rows] rows))"
    using Cons.IH [OF _ d1(2) lv, of "ports @ [?p]"] Cons.prems(1) by auto
  have upt: "[length ports..<length ports + length (r # rows)] =
      length ports # [length (ports @ [?p])..<length (ports @ [?p]) + length rows]"
    by (subst upt_rec) simp
  have step: "load_ports pipes devName vars (r # rows) d ports =
      load_ports pipes devName (map Some r) rows d1 (ports @ [?p])"
    using fill d1(1) by (simp add: rr row_port_def)
  show ?case
    unfolding step upt using d' d1(3) by (intro exI [of _ d']) (auto simp: rr)
qed

section \<open>Properties\<close>

text \<open>C17 (looking up a port): a port is found by mode and name as the first one, in the order of the
  configuration, whose name is a beginning of the name asked for, among the ports added under
  that mode; modes are compared up to case. Adding a port appends it to its own mode only and
  keeps the modes unique.\<close>

theorem cdev_lookup:
  assumes "modes_unique d" and "length mode < BOOTMODE_NAME_LEN"
  shows "\<exists>d'. cdev_addPort d mode p = Some (0, d') \<and> modes_unique d' \<and>
    (\<forall>m name. cdev_find_mode ports d' m name =
       List.find (\<lambda>i. port_find (ports ! i) name) (mode_ports d m @ (if strcaseeq mode m then [p] else [])))"
  using addPort_modes [OF assms, of p] by (auto simp: cdev_find_mode_ports)

definition sample_dev :: cdev where
  "sample_dev = \<lparr>d_devName = cs ''pc'', d_curMode = cs ''normal'', d_enable = False,
     m_BMDevList = [\<lparr>bm_bootmode = cs ''normal'', bm_portList = [0]\<rparr>]\<rparr>"

theorem cdev_lookup_witness:
  "\<exists>d'. cdev_addPort sample_dev (cs ''NORMAL'') 1 = Some (0, d') \<and> modes_unique d' \<and>
    (\<forall>m name. cdev_find_mode [sample_port, opened sample_port] d' m name =
       List.find (\<lambda>i. port_find ([sample_port, opened sample_port] ! i) name)
         (mode_ports sample_dev m @ (if strcaseeq (cs ''NORMAL'') m then [1] else [])))"
  by (rule cdev_lookup) (simp_all add: modes_unique_def sample_dev_def BOOTMODE_NAME_LEN_def)

text \<open>(USB plug events): \<open>CDevMgr::notify\<close> sets the write enable of exactly the current mode's
  ports of the host device, on when the cable is connected and off when it is removed, and touches
  neither their read enable nor any other port; without a host device nothing changes.\<close>

theorem devmgr_notify_ports:
  assumes "i < length ports"
  shows "snd (devmgr_notify msg (Some ds) ports) ! i =
    (case devmgr_find ds DEV_HOST_NAME of
       Some h \<Rightarrow>
         if msg \<noteq> USB_UNKNOWN \<and> i \<in> set (mode_ports (ds ! h) (d_curMode (ds ! h)))
         then (ports ! i)\<lparr>m_bEnableWR := (msg = USB_CONNECT)\<rparr> else ports ! i
     | None \<Rightarrow> ports ! i)"
  using assms by (cases msg) (auto simp: devmgr_notify_def enablePortWR_nth split: option.splits)

theorem devmgr_notify_ports_witness:
  "snd (devmgr_notify USB_DISCONNECT (Some [sample_dev]) [sample_port]) ! 0 = sample_port\<lparr>m_bEnableWR := False\<rparr>"
  using devmgr_notify_ports [of 0 "[sample_port]" USB_DISCONNECT "[sample_dev]"]
  by (simp add: devmgr_find_def cdev_getname_def sample_dev_def DEV_HOST_NAME_def mode_ports_def)

text \<open>(unique devices): adding devices keeps their names unique up to case; a device added under
  a new name is found by it, every device found before is still found, and a second device of the
  same name is refused.\<close>

theorem devmgr_registry:
  assumes "devs.unique ds" and "strcaseeq (cdev_getname d) nm"
  shows "devs.unique (snd (devmgr_addDev ds d))
    \<and> (devmgr_find ds (cdev_getname d) = None \<longrightarrow> devmgr_find (snd (devmgr_addDev ds d)) nm = Some (length ds))
    \<and> (\<forall>k i. devmgr_find ds k = Some i \<longrightarrow> devmgr_find (snd (devmgr_addDev ds d)) k = Some i)
    \<and> (devmgr_find ds (cdev_getname d) \<noteq> None \<longrightarrow> devmgr_addDev ds d = (- 1, ds))"
  using devs.add_keeps_unique [OF assms(1)] devs.lookup_added [OF assms(1) _ assms(2)]
    devs.lookup_kept [OF assms(1)] devs.add_dup by blast

theorem devmgr_registry_witness:
  "devmgr_find (snd (devmgr_addDev [] sample_dev)) (cs ''PC'') = Some 0"
  using devmgr_registry [OF devs.unique_nil, of sample_dev "cs ''PC''"]
  by (simp add: devmgr_find_def sample_dev_def cdev_getname_def strcaseeq_def lower_def)

text \<open>(loading a device): from a table whose rows have all seven columns, the loader creates
  one port per row, in order, with the row's columns, and every boot mode of the device lists
  exactly the ports of the rows that name it, in row order.\<close>

theorem load_ports_table:
  assumes "list_all full_row rows" and "cdev_new nm = Some d"
  shows "\<exists>d'. load_ports pipes devName (replicate 7 None) rows d ports =
      Some (d', ports @ map2 (row_port pipes devName) [length ports..<length ports + length rows] rows)
    \<and> (\<forall>m. mode_ports d' m = map fst (filter (\<lambda>(i, r). strcaseeq (hd r) m)
        (zip [length ports..<length ports + length rows] rows)))"
proof -
  have d: "modes_unique d" "mode_ports d m = []" for m
    using assms(2) by (auto simp: cdev_new_def strcpy_def modes_unique_def mode_ports_def split: if_splits)
  from load_ports_rows [OF assms(1) d(1), of "replicate 7 None" pipes devName ports]
  show ?thesis by (auto simp: d(2))
qed

definition sample_table :: "byte list list list" where
  "sample_table = [[cs ''normal'', cs ''A'', cs ''DATA_AT'', cs ''COM'', cs ''/a'', cs ''-'', cs ''-''],
                   [cs ''cali'', cs ''B'', cs ''DATA_DIAG'', cs ''GSER'', cs ''/b'', cs ''-'', cs ''-'']]"

theorem load_ports_table_witness:
  "\<exists>d'. load_ports (\<lambda>i. Some (3, 4)) (cs ''pc'') (replicate 7 None) sample_table
      \<lparr>d_devName = cs ''pc'', d_curMode = [], d_enable = False, m_BMDevList = []\<rparr> [] =
      Some (d', map2 (row_port (\<lambda>i. Some (3, 4)) (cs ''pc'')) [0, 1] sample_table)"
  using load_ports_table [of sample_table "cs ''pc''" "\<lparr>d_devName = cs ''pc'', d_curMode = [], d_enable = False, m_BMDevList = []\<rparr>"
      "\<lambda>i. Some (3, 4)" "cs ''pc''" "[]"]
  by (auto simp: full_row_def sample_table_def BOOTMODE_NAME_LEN_def cdev_new_def strcpy_def DEV_NAME_LEN_def
      upt_rec numeral_eq_Suc)

end
