(* ===== verification/Trans.thy ===== *)
theory Trans
  imports Module SmpProto
begin

text \<open>
  Channel threads (\<open>CChnlThread\<close>, \<open>CChnlThreadMgr\<close>), the \<open>process\<close>, \<open>pre_write\<close> and \<open>post_write\<close> of
  the four kinds of transfer (\<open>CDataDiag\<close>, \<open>CDataAT\<close>, \<open>CDataLog\<close>, \<open>CDataAgdsp\<close>), and the transfer
  loop \<open>CTrans::trans\<close> that connects them: one definition per phase and one for a whole turn of the
  loop. The state holds all ports and threads; what every write handed to a device is recorded in
  \<open>g_sent\<close>, in order. A transfer object is named by the index of its thread.
\<close>

section \<open>State\<close>

record chnl_thread =
  td_name :: "byte list"
  td_src :: nat
  td_dst :: nat
  td_enable :: bool
  td_dataType :: DATA_TYPE
  td_apProcess :: int
  td_isRunning :: bool
  td_trans :: "ctrans option"
  td_dstList :: "nat list"
  td_attached :: bool

record 'w world =
  g_ports :: "port list"
  g_threads :: "chnl_thread list"
  g_mgr :: "'w modmgr option"
  g_os :: os
  g_rd :: "nat \<Rightarrow> rd_event list"   \<comment> \<open>what each port will report to its readers\<close>
  g_wr :: "wr_event list"          \<comment> \<open>what the next writes will report\<close>
  g_sent :: "(nat \<times> byte list) list"
  g_env :: 'w

definition cbind :: "'a call \<Rightarrow> ('a \<Rightarrow> 'b call) \<Rightarrow> 'b call" where
  "cbind m f = (case m of Ret a \<Rightarrow> f a | Blocked \<Rightarrow> Blocked | UB \<Rightarrow> UB)"

lemma cbind_simps [simp]:
  "cbind (Ret a) f = f a" "cbind Blocked f = Blocked" "cbind UB f = UB"
  by (simp_all add: cbind_def)

definition ub_None :: "'a option \<Rightarrow> 'a call" where
  "ub_None x = (case x of None \<Rightarrow> UB | Some a \<Rightarrow> Ret a)"

lemma ub_None_simps [simp]: "ub_None None = UB" "ub_None (Some a) = Ret a"
  by (simp_all add: ub_None_def)

section \<open>Threads\<close>

definition thread_new ::
  "byte list \<Rightarrow> nat \<Rightarrow> nat \<Rightarrow> bool \<Rightarrow> DATA_TYPE \<Rightarrow> int \<Rightarrow> chnl_thread" where
  "thread_new name src dst on dataType apProcess =
     \<lparr>td_name = name, td_src = src, td_dst = dst, td_enable = on, td_dataType = dataType,
      td_apProcess = apProcess, td_isRunning = False, td_trans = None, td_dstList = [],
      td_attached = False\<rparr>"

definition addDstPort :: "nat \<Rightarrow> chnl_thread \<Rightarrow> chnl_thread" where
  "addDstPort p td = td\<lparr>td_dstList := td_dstList td @ [p]\<rparr>"

definition activeDstPort :: "nat \<Rightarrow> chnl_thread \<Rightarrow> chnl_thread" where
  "activeDstPort p td =
     td\<lparr>td_dst := p, td_trans := map_option (\<lambda>t. t\<lparr>m_lpPortDst := p\<rparr>) (td_trans td)\<rparr>"

fun findDstPort :: "nat \<Rightarrow> nat list \<Rightarrow> bool" where
  "findDstPort p [] = False"
| "findDstPort p (q # qs) = (if q = p then True else findDstPort p qs)"

fun findSameSrcPort :: "chnl_thread list \<Rightarrow> nat \<Rightarrow> nat \<Rightarrow> nat option" where
  "findSameSrcPort [] p i = None"
| "findSameSrcPort (td # tds) p i = (if p = td_src td then Some i else findSameSrcPort tds p (Suc i))"

fun findSameDstPort :: "chnl_thread list \<Rightarrow> nat \<Rightarrow> nat \<Rightarrow> nat option" where
  "findSameDstPort [] p i = None"
| "findSameDstPort (td # tds) p i =
     (if findDstPort p (td_dstList td) then Some i else findSameDstPort tds p (Suc i))"

text \<open>The class \<open>threadMain\<close> instantiates for a data type.\<close>

fun trans_kind_of :: "DATA_TYPE \<Rightarrow> trans_kind option" where
  "trans_kind_of DATA_DIAG = Some KDiag"
| "trans_kind_of DATA_WCN_DIAG = Some KDiag"
| "trans_kind_of DATA_AT = Some KAT"
| "trans_kind_of DATA_WCN_AT = Some KAT"
| "trans_kind_of DATA_LOG = Some KLog"
| "trans_kind_of DATA_AGDSP_LOG = Some KAgdsp"
| "trans_kind_of DATA_AGDSP_PCM = Some KAgdsp"
| "trans_kind_of DATA_AGDSP_MEM = Some KAgdsp"
| "trans_kind_of _ = None"

text \<open>\<open>threadMain\<close> up to the call of \<open>trans\<close>, for the thread \<open>i\<close>: the new transfer object attaches
  itself to both ports. A thread that \<open>run\<close> starts reaches this point on its own.\<close>

definition thread_begin :: "nat \<Rightarrow> 'w world \<Rightarrow> 'w world" where
  "thread_begin i w =
     (let td = g_threads w ! i in
      case trans_kind_of (td_dataType td) of
        None \<Rightarrow> w
      | Some k \<Rightarrow>
          (let t = trans_init k (td_name td) (td_src td) (td_dst td) (td_dataType td) (td_apProcess td);
               ps = g_ports w;
               ps1 = ps[td_src td := snd (port_attach (ps ! td_src td) (Some i))];
               ps2 = ps1[td_dst td := snd (port_attach (ps1 ! td_dst td) (Some i))]
           in w\<lparr>g_ports := ps2,
                g_threads := (g_threads w)[i := td\<lparr>td_isRunning := True, td_trans := Some t\<rparr>]\<rparr>))"

text \<open>\<open>threadMain\<close> after \<open>trans\<close> returned.\<close>

definition thread_end :: "nat \<Rightarrow> 'w world \<Rightarrow> 'w world" where
  "thread_end i w = w\<lparr>g_threads := (g_threads w)[i := (g_threads w ! i)\<lparr>td_isRunning := False, td_trans := None\<rparr>]\<rparr>"

text \<open>\<open>run\<close> returns what \<open>pthread_create\<close> returns, as a \<open>bool\<close>: success is 0, so \<open>false\<close>.\<close>

definition thread_run :: "nat \<Rightarrow> 'w world \<Rightarrow> bool \<times> 'w world" where
  "thread_run i w = (False, if td_enable (g_threads w ! i) then thread_begin i w else w)"

definition thread_stop :: "nat \<Rightarrow> 'w world \<Rightarrow> bool \<times> 'w world" where
  "thread_stop i w =
     (let s = td_src (g_threads w ! i)
      in (True, w\<lparr>g_ports := (g_ports w)[s := snd (port_stop (g_ports w ! s))]\<rparr>))"

definition threadmgr_add :: "chnl_thread \<Rightarrow> chnl_thread list \<Rightarrow> chnl_thread list" where
  "threadmgr_add td tds = tds @ [td\<lparr>td_attached := True\<rparr>]"

text \<open>The loops of \<open>restartWithDev\<close> and \<open>enableChnl\<close>, over the indices of the threads.\<close>

fun restart_loop :: "byte list \<Rightarrow> nat list \<Rightarrow> 'w world \<Rightarrow> 'w world" where
  "restart_loop name [] w = w"
| "restart_loop name (i # js) w =
     restart_loop name js
       (let td = g_threads w ! i in
        if strcaseeq (m_devName (g_ports w ! td_src td)) name \<and> \<not> td_isRunning td
        then snd (thread_run i w) else w)"

definition restartWithDev :: "byte list \<Rightarrow> 'w world \<Rightarrow> 'w world" where
  "restartWithDev name w = restart_loop name [0..<length (g_threads w)] w"

fun enableChnl_loop :: "byte list \<Rightarrow> bool \<Rightarrow> nat list \<Rightarrow> 'w world \<Rightarrow> 'w world" where
  "enableChnl_loop name on [] w = w"
| "enableChnl_loop name on (i # js) w =
     enableChnl_loop name on js
       (let td = g_threads w ! i in
        if strcaseeq (td_name td) name
        then (if on then (if \<not> td_isRunning td then snd (thread_run i w) else w)
              else snd (thread_stop i w))
        else w)"

definition enableChnl :: "byte list \<Rightarrow> bool \<Rightarrow> 'w world \<Rightarrow> 'w world" where
  "enableChnl name on w = enableChnl_loop name on [0..<length (g_threads w)] w"

text \<open>\<open>CTrans::activeOtherChnlDstPort\<close> of the transfer of thread \<open>self\<close>: the first thread that has
  this transfer's source port among its destinations now sends there.\<close>

definition activeOtherChnlDstPort :: "nat \<Rightarrow> nat \<Rightarrow> 'w world \<Rightarrow> 'w world" where
  "activeOtherChnlDstPort self src w =
     (if \<not> td_attached (g_threads w ! self) then w
      else case findSameDstPort (g_threads w) src 0 of
             None \<Rightarrow> w
           | Some j \<Rightarrow> w\<lparr>g_threads := (g_threads w)[j := activeDstPort src (g_threads w ! j)]\<rparr>)"

section \<open>Reading and writing with the transfer attached to the port\<close>

definition world_write :: "nat \<Rightarrow> nat \<Rightarrow> mem \<Rightarrow> nat \<Rightarrow> 'w world \<Rightarrow> (int \<times> 'w world) call" where
  "world_write self i buff n w =
     (let (old, p) = port_attach (g_ports w ! i) (Some self) in
      cbind (port_write p (g_os w) buff n (g_wr w)) (\<lambda>(r, st, es).
        Ret (r, w\<lparr>g_ports := (g_ports w)[i := snd (port_attach (w_port st) old)],
                  g_os := w_os st, g_wr := es, g_sent := g_sent w @ map (Pair i) (w_out st)\<rparr>)))"

definition world_read ::
  "nat \<Rightarrow> ctrans \<Rightarrow> nat \<Rightarrow> mem \<Rightarrow> nat \<Rightarrow> 'w world \<Rightarrow> (int \<times> mem \<times> ctrans \<times> 'w world) call" where
  "world_read self t i buff n w =
     (let (old, p) = port_attach (g_ports w ! i) (Some self) in
      cbind (port_read p t (g_os w) buff n (g_rd w i)) (\<lambda>(r, st, es).
        Ret (r, r_buff st, r_trans st,
             w\<lparr>g_ports := (g_ports w)[i := snd (port_attach (r_port st) old)],
               g_os := r_os st, g_rd := (g_rd w)(i := es)\<rparr>)))"

text \<open>\<open>CTrans::read\<close> and \<open>CTrans::write\<close> use the source port.\<close>

definition ctrans_write :: "nat \<Rightarrow> ctrans \<Rightarrow> mem \<Rightarrow> nat \<Rightarrow> 'w world \<Rightarrow> (int \<times> 'w world) call" where
  "ctrans_write self t buff n w = world_write self (m_lpPortSrc t) buff n w"

definition ctrans_read :: "nat \<Rightarrow> ctrans \<Rightarrow> mem \<Rightarrow> nat \<Rightarrow> 'w world \<Rightarrow> (int \<times> mem \<times> ctrans \<times> 'w world) call" where
  "ctrans_read self t buff n w = world_read self t (m_lpPortSrc t) buff n w"

section \<open>The virtual functions\<close>

definition trans_decode :: "ctrans \<Rightarrow> mem \<Rightarrow> nat \<Rightarrow> (ctrans \<times> mem \<times> nat) option" where
  "trans_decode t buff n =
     (case m_kind t of
        KDiag \<Rightarrow> diag_decode t buff n
      | KAT \<Rightarrow> do { k \<leftarrow> at_decode buff (int n); Some (t, buff, nat k) }
      | KLog \<Rightarrow> Some (t, buff, nat (protol_decode buff (int n)))
      | KAgdsp \<Rightarrow> Some (t, buff, nat (smp_decode buff (int n))))"

definition trans_encode :: "ctrans \<Rightarrow> mem \<Rightarrow> nat \<Rightarrow> (ctrans \<times> mem \<times> nat) option" where
  "trans_encode t buff n =
     (case m_kind t of
        KDiag \<Rightarrow> do { (m, k) \<leftarrow> diag_encode t buff n; Some (t, m, k) }
      | KAT \<Rightarrow> do { k \<leftarrow> at_encode buff (int n); Some (t, buff, nat k) }
      | KLog \<Rightarrow> Some (t, buff, nat (protol_encode buff (int n)))
      | KAgdsp \<Rightarrow> smp_encode t buff n)"

text \<open>\<open>CTrans::process\<close>: what a response length means.\<close>

definition ctrans_process :: "int \<Rightarrow> DYMIC_RET" where
  "ctrans_process retlen =
     (if retlen > 0 then DYMIC_RET_DEAL_SUCCESS
      else if retlen = ENG_DIAG_NO_RESPONSE then DYMIC_RET_NO_RESPONSE_TO_PC
      else DYMIC_RET_NO_DEAL)"

record 'w dp =
  dp_ret :: DYMIC_RET
  dp_retlen :: int
  dp_trans :: ctrans
  dp_io :: "'w cb_io"
  dp_mgr :: "'w modmgr option"

text \<open>The call of the module manager that starts \<open>process\<close> in the three classes that have one.\<close>

definition ask_modules ::
  "'w mod_env \<Rightarrow> ctrans \<Rightarrow> 'w modmgr option \<Rightarrow> 'w cb_io \<Rightarrow> nat \<Rightarrow> nat \<Rightarrow> int
   \<Rightarrow> (int \<times> bool \<times> 'w cb_io \<times> 'w modmgr option) option" where
  "ask_modules e t mgr io reqlen rsplen retlen =
     (case mgr of
        None \<Rightarrow> Some (retlen, False, io, None)
      | Some m \<Rightarrow> do { (r, cp, io', m') \<leftarrow> mgr_process e m (m_dataType t) io reqlen rsplen;
                       Some (r, cp, io', Some m') })"

definition also_cp :: "bool \<Rightarrow> DYMIC_RET \<Rightarrow> DYMIC_RET" where
  "also_cp cp ret = (if ret = DYMIC_RET_DEAL_SUCCESS \<and> cp then DYMIC_RET_ALSO_NEED_TO_CP else ret)"

definition data_diag_process ::
  "'w mod_env \<Rightarrow> ctrans \<Rightarrow> 'w modmgr option \<Rightarrow> 'w cb_io \<Rightarrow> nat \<Rightarrow> nat \<Rightarrow> int \<Rightarrow> 'w dp option" where
  "data_diag_process e t mgr io reqlen rsplen retlen = do {
     (r, cp, io1, mgr1) \<leftarrow> ask_modules e t mgr io reqlen rsplen retlen;
     r1 \<leftarrow> diag_process_len t (cb_rsp io1) r;
     (let ret = also_cp cp (ctrans_process r1)
      in case mgr1 of
           None \<Rightarrow> Some \<lparr>dp_ret = ret, dp_retlen = r1, dp_trans = t, dp_io = io1, dp_mgr = None\<rparr>
         | Some m \<Rightarrow> do {
             pend \<leftarrow> checkPending t (cb_rsp io1);
             Some \<lparr>dp_ret = ret, dp_retlen = r1, dp_trans = setPendingMark pend t, dp_io = io1,
                   dp_mgr = Some (if pend then mgr_setPendingMark m else mgr_clearPendingMark m)\<rparr>
           })
   }"

definition data_at_process ::
  "'w mod_env \<Rightarrow> ctrans \<Rightarrow> 'w modmgr option \<Rightarrow> 'w cb_io \<Rightarrow> nat \<Rightarrow> nat \<Rightarrow> int \<Rightarrow> 'w dp option" where
  "data_at_process e t mgr io reqlen rsplen retlen = do {
     (r, cp, io1, mgr1) \<leftarrow> ask_modules e t mgr io reqlen rsplen retlen;
     r1 \<leftarrow> at_process_len (cb_rsp io1) r;
     Some \<lparr>dp_ret = also_cp cp (ctrans_process r1), dp_retlen = r1, dp_trans = t, dp_io = io1,
           dp_mgr = mgr1\<rparr>
   }"

definition data_log_process ::
  "'w mod_env \<Rightarrow> ctrans \<Rightarrow> 'w modmgr option \<Rightarrow> 'w cb_io \<Rightarrow> nat \<Rightarrow> nat \<Rightarrow> int \<Rightarrow> 'w dp option" where
  "data_log_process e t mgr io reqlen rsplen retlen = do {
     (r, cp, io1, mgr1) \<leftarrow> ask_modules e t mgr io reqlen rsplen retlen;
     Some \<lparr>dp_ret = also_cp cp (ctrans_process r), dp_retlen = r, dp_trans = t, dp_io = io1,
           dp_mgr = mgr1\<rparr>
   }"

definition data_agdsp_process ::
  "ctrans \<Rightarrow> 'w modmgr option \<Rightarrow> 'w cb_io \<Rightarrow> nat \<Rightarrow> 'w dp option" where
  "data_agdsp_process t mgr io reqlen = do {
     bs \<leftarrow> get (cb_buf io) 0 reqlen;
     rsp \<leftarrow> put (cb_rsp io) 0 bs;
     Some \<lparr>dp_ret = DYMIC_RET_ENCODE_TO_DEST, dp_retlen = int reqlen, dp_trans = t,
           dp_io = io\<lparr>cb_rsp := rsp\<rparr>, dp_mgr = mgr\<rparr>
   }"

definition trans_process ::
  "'w mod_env \<Rightarrow> ctrans \<Rightarrow> 'w modmgr option \<Rightarrow> 'w cb_io \<Rightarrow> nat \<Rightarrow> nat \<Rightarrow> int \<Rightarrow> 'w dp option" where
  "trans_process e t mgr io reqlen rsplen retlen =
     (case m_kind t of
        KDiag \<Rightarrow> data_diag_process e t mgr io reqlen rsplen retlen
      | KAT \<Rightarrow> data_at_process e t mgr io reqlen rsplen retlen
      | KLog \<Rightarrow> data_log_process e t mgr io reqlen rsplen retlen
      | KAgdsp \<Rightarrow> data_agdsp_process t mgr io reqlen)"

definition emptyDiag :: mem where
  "emptyDiag = [0x7e, 0x00, 0x00, 0x00, 0x00, 0x08, 0x00, 0xd5, 0x00, 0x7e]"

definition okRsp :: mem where
  "okRsp = [0x7E, 0x00, 0x00, 0x00, 0x00, 0x0E, 0x00, 0x9C, 0x00, 0x0D, 0x0A, 0x4F, 0x4B, 0x0D, 0x0A, 0x7E]"

text \<open>\<open>strcasecmp(buff, lit) != 0\<close>; the comparison stops at the first difference.\<close>

definition strcase_differs :: "mem \<Rightarrow> byte list \<Rightarrow> bool" where
  "strcase_differs buff lit \<longleftrightarrow> map lower (take (length lit + 1) buff) \<noteq> map lower (lit @ [0])"

text \<open>\<open>pre_write\<close> and \<open>post_write\<close>: only \<open>CDataDiag\<close> overrides them; both return 0.\<close>

definition trans_pre_write :: "nat \<Rightarrow> ctrans \<Rightarrow> 'w world \<Rightarrow> 'w world call" where
  "trans_pre_write self t w =
     (if m_kind t = KDiag \<and> deal_with_at t
      then cbind (ctrans_write self t emptyDiag (length emptyDiag) w) (\<lambda>(r, w'). Ret w')
      else Ret w)"

definition trans_post_write :: "nat \<Rightarrow> ctrans \<Rightarrow> mem \<Rightarrow> 'w world \<Rightarrow> 'w world call" where
  "trans_post_write self t buff w =
     (if m_kind t = KDiag \<and> deal_with_at t \<and> strcase_differs buff ([13, 10] @ cs ''OK'')
      then cbind (ctrans_write self t okRsp (length okRsp) w) (\<lambda>(r, w'). Ret w')
      else Ret w)"

section \<open>The transfer loop\<close>

definition set_trans :: "nat \<Rightarrow> ctrans \<Rightarrow> 'w world \<Rightarrow> 'w world" where
  "set_trans self t w =
     w\<lparr>g_threads := (g_threads w)[self := (g_threads w ! self)\<lparr>td_trans := Some t\<rparr>]\<rparr>"

definition get_trans :: "nat \<Rightarrow> 'w world \<Rightarrow> ctrans option" where
  "get_trans self w = td_trans (g_threads w ! self)"

text \<open>Decoding and processing by the AP: the result code, the response length and the response.\<close>

definition ap_phase ::
  "nat \<Rightarrow> 'w mod_env \<Rightarrow> ctrans \<Rightarrow> mem \<Rightarrow> nat \<Rightarrow> DYMIC_RET \<times> int \<Rightarrow> 'w world
   \<Rightarrow> (DYMIC_RET \<times> int \<times> ctrans \<times> mem \<times> 'w world) call" where
  "ap_phase cap e t req r_cnt loc w =
     (let rsp = replicate cap 0 in
      if (m_frameType t = FRAME_COMPLETE \<or> m_frameType t = FRAME_HALF_CONTINUE) \<and> m_apProcess t = 1
      then
        cbind (ub_None (if m_dataType t = DATA_WCN_AT then Some (t, req, r_cnt) else trans_decode t req r_cnt))
          (\<lambda>(t1, req1, nLenReq).
            cbind (ub_None (trans_process e t1 (g_mgr w)
                     \<lparr>cb_buf = req1, cb_rsp = rsp, cb_env = g_env w\<rparr> nLenReq cap (snd loc)))
              (\<lambda>d. Ret (dp_ret d, dp_retlen d, dp_trans d, cb_rsp (dp_io d),
                        w\<lparr>g_mgr := dp_mgr d, g_env := cb_env (dp_io d)\<rparr>)))
      else Ret (fst loc, snd loc, t, rsp, w))"

text \<open>Sending the response, to the source port or, for \<open>ENCODE_TO_DEST\<close>, to the destination.\<close>

definition reply_phase ::
  "nat \<Rightarrow> ctrans \<Rightarrow> mem \<Rightarrow> int \<Rightarrow> 'w world \<Rightarrow> (ctrans \<times> 'w world) call" where
  "reply_phase self t rsp retlen w =
     cbind (ub_None (if m_dataType t = DATA_WCN_AT then Some (t, rsp, nat retlen)
                     else trans_encode t rsp (nat retlen)))
       (\<lambda>(t1, rsp1, nLenRsp).
         cbind (trans_pre_write self t1 w) (\<lambda>w1.
         cbind (world_write self
                  (if m_retType t1 = DYMIC_RET_ENCODE_TO_DEST then m_lpPortDst t1 else m_lpPortSrc t1)
                  rsp1 nLenRsp w1) (\<lambda>(w_cnt, w2).
         cbind (trans_post_write self t1 rsp1 w2) (\<lambda>w3. Ret (t1, w3)))))"

text \<open>Passing the request on to the destination port.\<close>

definition forward_phase :: "nat \<Rightarrow> ctrans \<Rightarrow> mem \<Rightarrow> nat \<Rightarrow> 'w world \<Rightarrow> 'w world call" where
  "forward_phase self t req_bk r_cnt w =
     (if portType (g_ports w ! m_lpPortDst t) \<noteq> PORT_LOOP
      then cbind (trans_pre_write self t w) (\<lambda>w1.
           cbind (world_write self (m_lpPortDst t) req_bk r_cnt w1) (\<lambda>(w_cnt, w2).
           trans_post_write self t req_bk w2))
      else Ret w)"

text \<open>One turn of \<open>while (1)\<close> with buffers of \<open>cap\<close> bytes (\<open>MAX_CHNL_BUFF\<close>). \<open>loc\<close> holds the local
  variables \<open>ret\<close> and \<open>retlen\<close>, which live across turns; \<open>None\<close> is \<open>break\<close>.\<close>

definition after_read ::
  "nat \<Rightarrow> 'w mod_env \<Rightarrow> nat \<Rightarrow> ctrans \<Rightarrow> mem \<Rightarrow> nat \<Rightarrow> DYMIC_RET \<times> int \<Rightarrow> 'w world
   \<Rightarrow> ((DYMIC_RET \<times> int) option \<times> 'w world) call" where
  "after_read cap e self t req r_cnt loc w =
     (let req_bk = take r_cnt req @ replicate (cap - r_cnt) 0 in
      cbind (ap_phase cap e t req r_cnt loc w) (\<lambda>(ret, retlen, t1, rsp, w1).
        let t2 = t1\<lparr>m_retType := ret\<rparr>; loc' = Some (ret, retlen) in
        if ret = DYMIC_RET_NO_RESPONSE_TO_PC then Ret (loc', set_trans self t2 w1)
        else
          cbind (if ret = DYMIC_RET_DEAL_SUCCESS \<or> ret = DYMIC_RET_ALSO_NEED_TO_CP
                    \<or> ret = DYMIC_RET_ENCODE_TO_DEST
                 then reply_phase self t2 rsp retlen w1 else Ret (t2, w1)) (\<lambda>(t3, w2).
          cbind (if ret = DYMIC_RET_NO_DEAL \<or> ret = DYMIC_RET_ALSO_NEED_TO_CP
                 then forward_phase self t3 req_bk r_cnt w2 else Ret w2) (\<lambda>w3.
          Ret (loc', set_trans self t3 w3)))))"

definition trans_turn ::
  "nat \<Rightarrow> 'w mod_env \<Rightarrow> nat \<Rightarrow> DYMIC_RET \<times> int \<Rightarrow> 'w world
   \<Rightarrow> ((DYMIC_RET \<times> int) option \<times> 'w world) call" where
  "trans_turn cap e self loc w =
     (case get_trans self w of
        None \<Rightarrow> UB
      | Some t \<Rightarrow>
          cbind (world_read self t (m_lpPortSrc t) (replicate cap 0) cap w) (\<lambda>(r_cnt, req, t1, w1).
            let w2 = activeOtherChnlDstPort self (m_lpPortSrc t1) (set_trans self t1 w1) in
            case get_trans self w2 of
              None \<Rightarrow> UB
            | Some t2 \<Rightarrow>
                if r_cnt \<le> 0 then Ret (None, w2) else after_read cap e self t2 req (nat r_cnt) loc w2))"

text \<open>\<open>n\<close> turns; the loop has no other exit than \<open>break\<close>, so \<open>n\<close> bounds how long it is followed.\<close>

fun trans_turns ::
  "nat \<Rightarrow> nat \<Rightarrow> 'w mod_env \<Rightarrow> nat \<Rightarrow> DYMIC_RET \<times> int \<Rightarrow> 'w world
   \<Rightarrow> ((DYMIC_RET \<times> int) option \<times> 'w world) call" where
  "trans_turns 0 cap e self loc w = Ret (Some loc, w)"
| "trans_turns (Suc n) cap e self loc w =
     cbind (trans_turn cap e self loc w) (\<lambda>(loc', w').
       case loc' of None \<Rightarrow> Ret (None, w') | Some l \<Rightarrow> trans_turns n cap e self l w')"

text \<open>\<open>CTrans::trans\<close>: opening both ports, the loop, closing. The source has to open; a destination
  that does not is reported only.\<close>

definition trans_open :: "nat \<Rightarrow> 'w world \<Rightarrow> int \<times> 'w world" where
  "trans_open i w =
     (let (r, p, os') = port_open (g_ports w ! i) (g_os w)
      in (r, w\<lparr>g_ports := (g_ports w)[i := p], g_os := os'\<rparr>))"

definition trans_close :: "nat \<Rightarrow> 'w world \<Rightarrow> 'w world" where
  "trans_close i w = w\<lparr>g_ports := (g_ports w)[i := snd (port_close (g_ports w ! i))]\<rparr>"

definition trans_main :: "nat \<Rightarrow> nat \<Rightarrow> 'w mod_env \<Rightarrow> nat \<Rightarrow> 'w world \<Rightarrow> (int \<times> 'w world) call" where
  "trans_main n cap e self w =
     (case get_trans self w of
        None \<Rightarrow> UB
      | Some t \<Rightarrow>
          (let (r, w1) = trans_open (m_lpPortSrc t) w in
           if r \<noteq> 0 then Ret (- 1, w1)
           else let (r', w2) = trans_open (m_lpPortDst t) w1 in
           cbind (trans_turns n cap e self (DYMIC_RET_NO_DEAL, 0) w2) (\<lambda>(loc, w3).
             case loc of
               Some l \<Rightarrow> Blocked
             | None \<Rightarrow>
                 (case get_trans self w3 of
                    None \<Rightarrow> UB
                  | Some t3 \<Rightarrow> Ret (- 1, trans_close (m_lpPortDst t3) (trans_close (m_lpPortSrc t3) w3))))))"

section \<open>What a write delivers\<close>

definition sent_to :: "nat \<Rightarrow> 'w world \<Rightarrow> byte list" where
  "sent_to p w = concat (map snd (filter (\<lambda>(q, bs). q = p) (g_sent w)))"

definition sink :: "port \<Rightarrow> bool" where
  "sink p \<longleftrightarrow> m_bEnableWR p \<and> m_fd p \<ge> 0 \<and> portType p \<noteq> PORT_LOOP"

definition accepting :: "nat \<Rightarrow> 'w world \<Rightarrow> bool" where
  "accepting n w \<longleftrightarrow> (\<forall>e \<in> set (g_wr w). \<exists>k > 0. e = WSent k) \<and> n \<le> length (g_wr w)"

lemma sent_to_append:
  "sent_to p (w\<lparr>g_sent := g_sent w @ map (Pair i) xs\<rparr>) = sent_to p w @ (if p = i then concat xs else [])"
proof -
  have "concat (map snd (filter (\<lambda>(q, bs). q = p) (map (Pair i) xs))) = (if p = i then concat xs else [])"
    by (induction xs) auto
  then show ?thesis by (simp add: sent_to_def)
qed

lemma sent_to_updates [simp]:
  "sent_to p (w\<lparr>g_ports := x1\<rparr>) = sent_to p w" "sent_to p (w\<lparr>g_threads := x2\<rparr>) = sent_to p w"
  "sent_to p (w\<lparr>g_mgr := x3\<rparr>) = sent_to p w" "sent_to p (w\<lparr>g_os := x4\<rparr>) = sent_to p w"
  "sent_to p (w\<lparr>g_rd := x5\<rparr>) = sent_to p w" "sent_to p (w\<lparr>g_wr := x6\<rparr>) = sent_to p w"
  "sent_to p (w\<lparr>g_env := x7\<rparr>) = sent_to p w"
  by (simp_all add: sent_to_def)

text \<open>A write to a port that accepts data: everything arrives, nothing else changes.\<close>

definition only_sent :: "nat \<Rightarrow> byte list \<Rightarrow> 'w world \<Rightarrow> 'w world \<Rightarrow> bool" where
  "only_sent i bs w w' \<longleftrightarrow> g_ports w' = g_ports w \<and> g_threads w' = g_threads w \<and> g_mgr w' = g_mgr w
     \<and> g_os w' = g_os w \<and> g_rd w' = g_rd w \<and> g_env w' = g_env w
     \<and> (\<forall>p. sent_to p w' = sent_to p w @ (if p = i then bs else []))"

lemma world_write_all:
  assumes "i < length (g_ports w)" and "sink (g_ports w ! i)" and "accepting (n + m) w"
    and "0 < n" and "n \<le> length buff"
  shows "\<exists>w'. world_write self i buff n w = Ret (int n, w') \<and> only_sent i (take n buff) w w'
    \<and> accepting m w' \<and> length (g_wr w) \<le> length (g_wr w') + n"
proof -
  let ?p = "(g_ports w ! i)\<lparr>m_lpTrans := Some self\<rparr>"
  obtain st es where st: "port_write ?p (g_os w) buff n (g_wr w) = Ret (int n, st, es)"
    "concat (w_out st) = take n buff" "w_port st = ?p" "w_os st = g_os w"
    "length (g_wr w) \<le> length es + n" "set es \<subseteq> set (g_wr w)"
    using port_write_all [of ?p n buff "g_wr w" "g_os w"] assms by (auto simp: sink_def accepting_def)
  let ?w = "w\<lparr>g_ports := (g_ports w)[i := snd (port_attach (w_port st) (m_lpTrans (g_ports w ! i)))],
      g_os := w_os st, g_wr := es, g_sent := g_sent w @ map (Pair i) (w_out st)\<rparr>"
  have "world_write self i buff n w = Ret (int n, ?w)"
    using st(1) by (simp add: world_write_def port_attach_def)
  moreover have "only_sent i (take n buff) w ?w"
    using st sent_to_append [of _ w i "w_out st"] assms(1)
    by (simp add: only_sent_def port_attach_def sent_to_def)
  moreover have "accepting m ?w" "length (g_wr w) \<le> length (g_wr ?w) + n"
    using st(5,6) assms(3) by (auto simp: accepting_def)
  ultimately show ?thesis by blast
qed

lemma only_sent_trans:
  "only_sent i a w w1 \<Longrightarrow> only_sent i b w1 w2 \<Longrightarrow> only_sent i (a @ b) w w2"
  by (simp add: only_sent_def)

section \<open>Reading without frame detection\<close>

definition source_ready :: "port \<Rightarrow> bool" where
  "source_ready p \<longleftrightarrow> m_bEnableRD p \<and> m_fd p \<ge> 0 \<and> portType p \<noteq> PORT_LOOP \<and> p_pipe p = []"

lemma world_read_data:
  assumes "source_ready (g_ports w ! s)" and "s < length (g_ports w)"
    and "g_rd w s = RData bs # es" and "bs \<noteq> []" and "length bs \<le> cap"
    and "length bs \<le> rd_limit (g_ports w ! s)"
    and "checkframe t (bs @ replicate (cap - length bs) 0) (length bs)
       = Some (t', f @ replicate (cap - length f) 0, length f, FRAME_COMPLETE)"
  shows "world_read self t s (replicate cap 0) cap w = Ret (int (length f),
      f @ replicate (cap - length f) 0, t',
      w\<lparr>g_ports := (g_ports w)[s := (g_ports w ! s)\<lparr>m_bSuspend := False\<rparr>],
        g_os := g_os w, g_rd := (g_rd w)(s := es)\<rparr>)"
proof -
  let ?p = "(g_ports w ! s)\<lparr>m_lpTrans := Some self\<rparr>"
  have lim: "rd_limit ?p = rd_limit (g_ports w ! s)" by (simp add: rd_limit_def)
  have put: "put (replicate cap 0) 0 bs = Some (bs @ replicate (cap - length bs) 0)"
    using assms(5) by (simp add: put_def)
  have "port_read ?p t (g_os w) (replicate cap 0) cap (RData bs # es) =
     Ret (int (length f), \<lparr>r_buff = f @ replicate (cap - length f) 0,
        r_port = ?p\<lparr>m_bSuspend := False\<rparr>, r_trans = t', r_os = g_os w\<rparr>, es)"
    using assms(1,4,5,6,7) put
    by (simp add: port_read_def internal_read_def source_ready_def rd_limit_def Let_def rd_loop_data)
  then show ?thesis
    using assms(2,3) by (simp add: world_read_def port_attach_def)
qed

lemma checkframe_plain:
  "m_kind t \<noteq> KDiag \<or> m_apProcess t \<noteq> 1 \<Longrightarrow> checkframe t buff n = Some (t, buff, n, FRAME_COMPLETE)"
  by (cases "m_kind t") (auto simp: checkframe_def diag_checkframe_def)

section \<open>Relaying\<close>

lemma findSameDstPort_Some:
  "findSameDstPort tds p n = Some j \<Longrightarrow> n \<le> j \<and> j - n < length tds \<and> findDstPort p (td_dstList (tds ! (j - n)))"
proof (induction tds arbitrary: n)
  case (Cons td tds)
  show ?case
  proof (cases "findDstPort p (td_dstList td)")
    case False
    then have f: "findSameDstPort tds p (Suc n) = Some j" using Cons.prems by simp
    then have "Suc n \<le> j" "j - Suc n < length tds" "findDstPort p (td_dstList (tds ! (j - Suc n)))"
      using Cons.IH by blast+
    then show ?thesis by (auto simp: nth_Cons' )
  qed (use Cons.prems in auto)
qed simp

text \<open>The thread \<open>self\<close> relays from port \<open>s\<close> to port \<open>d\<close> without processing by the AP.\<close>

definition relay_ready :: "nat \<Rightarrow> nat \<Rightarrow> nat \<Rightarrow> 'w world \<Rightarrow> bool" where
  "relay_ready self s d w \<longleftrightarrow> self < length (g_threads w) \<and> s \<noteq> d
     \<and> s < length (g_ports w) \<and> d < length (g_ports w)
     \<and> source_ready (g_ports w ! s) \<and> sink (g_ports w ! d)
     \<and> \<not> findDstPort s (td_dstList (g_threads w ! self))
     \<and> (\<exists>t. get_trans self w = Some t \<and> m_lpPortSrc t = s \<and> m_lpPortDst t = d \<and> m_apProcess t \<noteq> 1)"

lemma activeOther_self:
  assumes "\<not> findDstPort s (td_dstList (g_threads w ! self))"
  shows "g_threads (activeOtherChnlDstPort self s w) ! self = g_threads w ! self
    \<and> length (g_threads (activeOtherChnlDstPort self s w)) = length (g_threads w)
    \<and> g_ports (activeOtherChnlDstPort self s w) = g_ports w
    \<and> g_rd (activeOtherChnlDstPort self s w) = g_rd w \<and> g_wr (activeOtherChnlDstPort self s w) = g_wr w
    \<and> g_mgr (activeOtherChnlDstPort self s w) = g_mgr w \<and> g_env (activeOtherChnlDstPort self s w) = g_env w
    \<and> g_os (activeOtherChnlDstPort self s w) = g_os w
    \<and> (\<forall>p. sent_to p (activeOtherChnlDstPort self s w) = sent_to p w)"
proof -
  have "j \<noteq> self" if "findSameDstPort (g_threads w) s 0 = Some j" for j
    using findSameDstPort_Some [OF that] assms by auto
  then show ?thesis by (auto simp: activeOtherChnlDstPort_def split: option.splits)
qed

lemma relay_turn:
  assumes r: "relay_ready self s d w" and "g_rd w s = RData bs # es"
    and bs: "bs \<noteq> []" "length bs \<le> cap" "length bs \<le> rd_limit (g_ports w ! s)"
    and acc: "accepting (length bs + m) w"
  shows "\<exists>w'. trans_turn cap e self (DYMIC_RET_NO_DEAL, x) w = Ret (Some (DYMIC_RET_NO_DEAL, x), w')
    \<and> relay_ready self s d w' \<and> g_rd w' s = es \<and> accepting m w'
    \<and> rd_limit (g_ports w' ! s) = rd_limit (g_ports w ! s)
    \<and> (\<forall>p. sent_to p w' = sent_to p w @ (if p = d then bs else []))"
proof -
  obtain t where t: "get_trans self w = Some t" "m_lpPortSrc t = s" "m_lpPortDst t = d" "m_apProcess t \<noteq> 1"
    and self: "self < length (g_threads w)" and sd: "s \<noteq> d" "s < length (g_ports w)" "d < length (g_ports w)"
    and src: "source_ready (g_ports w ! s)" and snk: "sink (g_ports w ! d)"
    and nd: "\<not> findDstPort s (td_dstList (g_threads w ! self))"
    using r by (auto simp: relay_ready_def)
  let ?req = "bs @ replicate (cap - length bs) 0"
  define w1 where "w1 = w\<lparr>g_ports := (g_ports w)[s := (g_ports w ! s)\<lparr>m_bSuspend := False\<rparr>],
      g_os := g_os w, g_rd := (g_rd w)(s := es)\<rparr>"
  have rd: "world_read self t s (replicate cap 0) cap w = Ret (int (length bs), ?req, t, w1)"
    unfolding w1_def by (rule world_read_data) (use assms(2) bs src sd(2) t(4) in \<open>simp_all add: checkframe_plain\<close>)
  define w2 where "w2 = activeOtherChnlDstPort self s (set_trans self t w1)"
  have nd1: "\<not> findDstPort s (td_dstList (g_threads (set_trans self t w1) ! self))"
    using nd self by (simp add: set_trans_def w1_def)
  note w2 = activeOther_self [OF nd1, folded w2_def]
  have g2: "get_trans self w2 = Some t" "\<not> findDstPort s (td_dstList (g_threads w2 ! self))"
    "self < length (g_threads w2)"
    using w2 self nd by (simp_all add: get_trans_def set_trans_def w1_def)
  let ?t = "t\<lparr>m_retType := DYMIC_RET_NO_DEAL\<rparr>"
  have ap: "ap_phase cap e t ?req (length bs) (DYMIC_RET_NO_DEAL, x) w2
      = Ret (DYMIC_RET_NO_DEAL, x, t, replicate cap 0, w2)"
    using t(4) by (simp add: ap_phase_def)
  have p2: "g_ports w2 ! d = g_ports w ! d" "length (g_ports w2) = length (g_ports w)"
    "source_ready (g_ports w2 ! s)" "rd_limit (g_ports w2 ! s) = rd_limit (g_ports w ! s)"
    using w2 sd src by (simp_all add: set_trans_def w1_def source_ready_def rd_limit_def)
  have acc2: "accepting (length bs + m) w2" using acc w2 by (simp add: accepting_def set_trans_def w1_def)
  obtain w3 where w3: "world_write self d ?req (length bs) w2 = Ret (int (length bs), w3)"
    "only_sent d (take (length bs) ?req) w2 w3" "accepting m w3"
    using world_write_all [of d w2 "length bs" m ?req self] p2 sd snk acc2 bs(1) by auto
  have fw: "forward_phase self ?t ?req (length bs) w2 = Ret w3"
    using w3(1) t(3) p2(1) snk
    by (simp add: forward_phase_def trans_pre_write_def trans_post_write_def deal_with_at_def sink_def)
  have turn: "trans_turn cap e self (DYMIC_RET_NO_DEAL, x) w
      = Ret (Some (DYMIC_RET_NO_DEAL, x), set_trans self ?t w3)"
    using t(1,2) rd g2(1) bs(1) ap fw
    by (simp add: trans_turn_def w2_def [symmetric] after_read_def Let_def)
  have "relay_ready self s d (set_trans self ?t w3)"
    using w3(2) p2 g2 sd snk t by (simp add: relay_ready_def only_sent_def set_trans_def get_trans_def)
  moreover have "\<forall>p. sent_to p (set_trans self ?t w3) = sent_to p w @ (if p = d then bs else [])"
    using w3(2) w2 by (simp add: only_sent_def set_trans_def w1_def)
  moreover have "g_rd (set_trans self ?t w3) s = es" "accepting m (set_trans self ?t w3)"
    "rd_limit (g_ports (set_trans self ?t w3) ! s) = rd_limit (g_ports w ! s)"
    using w3(2,3) w2 p2(4) by (simp_all add: only_sent_def set_trans_def w1_def accepting_def)
  ultimately show ?thesis using turn by blast
qed

section \<open>Requests for the AP\<close>

lemma decode_read:
  assumes "length xs + 2 < cap" and "8 \<le> cap"
  shows "\<exists>b. diag_decode t ((0x7E # xs @ [0x7E]) @ replicate (cap - (length xs + 2)) 0) (length xs + 2) =
    Some (t\<lparr>m_nDiagAT := b\<rparr>,
      (0x7E # unescape xs @ [0x7E]) @ replicate (cap - (length (unescape xs) + 2)) 0, length (unescape xs) + 2)"
proof -
  obtain k where k: "cap - (length xs + 2) = Suc k" using assms(1) by (cases "cap - (length xs + 2)") auto
  have z: "replicate (length xs - length (unescape xs)) (0 :: byte) @ 0 # replicate k 0
      = replicate (cap - (length (unescape xs) + 2)) 0"
    using k length_unescape_le [of xs]
    by (simp flip: replicate_Suc add: replicate_add [symmetric])
  have d: "dec_loop ((0x7E # xs @ [0x7E]) @ replicate (cap - (length xs + 2)) 0) 1 (length xs + 2) =
      Some ((0x7E # unescape xs @ [0x7E]) @ replicate (cap - (length (unescape xs) + 2)) 0,
        length (unescape xs) + 2)"
    using dec_loop_frame [of xs 0 "replicate k 0"] k z by simp
  define m where "m = (0x7E # unescape xs @ [0x7E]) @ replicate (cap - (length (unescape xs) + 2)) (0 :: byte)"
  have "length m = cap" using assms(1) length_unescape_le [of xs] by (simp add: m_def)
  then have "rd m 7 = Some (m ! 7)" using assms(2) by (simp add: rd_def)
  then show ?thesis unfolding diag_decode_def d m_def [symmetric] by auto
qed

text \<open>The transfer of thread \<open>self\<close> offers the requests of the host on port \<open>s\<close> to the AP and may pass
  them to port \<open>d\<close>.\<close>

definition ap_ready :: "nat \<Rightarrow> nat \<Rightarrow> nat \<Rightarrow> ctrans \<Rightarrow> 'w world \<Rightarrow> bool" where
  "ap_ready self s d t w \<longleftrightarrow> self < length (g_threads w) \<and> s \<noteq> d
     \<and> s < length (g_ports w) \<and> d < length (g_ports w)
     \<and> source_ready (g_ports w ! s) \<and> sink (g_ports w ! d)
     \<and> \<not> findDstPort s (td_dstList (g_threads w ! self))
     \<and> get_trans self w = Some t \<and> m_lpPortSrc t = s \<and> m_lpPortDst t = d
     \<and> m_apProcess t = 1 \<and> m_kind t = KDiag \<and> m_dataType t = DATA_DIAG \<and> m_frameType t = FRAME_COMPLETE"

lemma cstr_zeros: "0 < cap \<Longrightarrow> cstr_at (replicate cap 0) 0 = Some []"
  by (cases cap) (simp_all add: cstr_at_def)

lemma unknown_ap_phase:
  assumes m: "g_mgr w = Some m" "m_isLoaded m" "m_lpPendingCB m = None"
    and na: "list_all (\<lambda>c. \<not> diag_applies (length (unescape xs) + 2) c \<lparr>s_rlen = 0, s_cp = False,
        s_io = \<lparr>cb_buf = (0x7E # unescape xs @ [0x7E]) @ replicate (cap - (length (unescape xs) + 2)) 0,
                cb_rsp = replicate cap 0, cb_env = g_env w\<rparr>\<rparr>) (m_listHead m)"
    and t: "m_apProcess t = 1" "m_kind t = KDiag" "m_dataType t = DATA_DIAG" "m_frameType t = FRAME_COMPLETE"
    and cap: "length xs + 2 < cap" "8 \<le> cap"
  shows "\<exists>t' mgr. ap_phase cap e t ((0x7E # xs @ [0x7E]) @ replicate (cap - (length xs + 2)) 0) (length xs + 2) loc w
      = Ret (DYMIC_RET_NO_DEAL, 0, t', replicate cap 0, w\<lparr>g_mgr := mgr\<rparr>)
    \<and> m_lpPortDst t' = m_lpPortDst t \<and> m_lpPortSrc t' = m_lpPortSrc t \<and> m_kind t' = m_kind t"
proof -
  let ?io = "\<lparr>cb_buf = (0x7E # unescape xs @ [0x7E]) @ replicate (cap - (length (unescape xs) + 2)) 0,
      cb_rsp = replicate cap 0, cb_env = g_env w\<rparr>" and ?n = "length (unescape xs) + 2"
  obtain b where b: "diag_decode t ((0x7E # xs @ [0x7E]) @ replicate (cap - (length xs + 2)) 0) (length xs + 2) =
      Some (t\<lparr>m_nDiagAT := b\<rparr>, cb_buf ?io, ?n)"
    using decode_read [OF cap, of t] by auto
  obtain cur where cur: "scan (diag_try ?n cap) (m_listHead m) 0 (m_lpCurCB m)
      \<lparr>s_rlen = 0, s_cp = False, s_io = ?io\<rparr> = Some (False, cur, \<lparr>s_rlen = 0, s_cp = False, s_io = ?io\<rparr>)"
    using diag_scan.nobody [OF na] by blast
  let ?m = "m\<lparr>m_lpCurCB := cur, m_lpPendingCB := None\<rparr>"
  have pd: "processDiag m ?io ?n cap = Some (0, False, ?io, ?m)"
    using cur m(3) by (simp add: processDiag_def Let_def)
  have am: "ask_modules e (t\<lparr>m_nDiagAT := b\<rparr>) (Some m) ?io ?n cap (snd loc) = Some (0, False, ?io, Some ?m)"
    using pd m(2) t(3) by (simp add: ask_modules_def mgr_process_def)
  have cz: "cstr_at (replicate cap 0) 0 = Some []" using cap(2) by (intro cstr_zeros) simp
  have dp: "data_diag_process e (t\<lparr>m_nDiagAT := b\<rparr>) (Some m) ?io ?n cap (snd loc) =
      Some \<lparr>dp_ret = DYMIC_RET_NO_DEAL, dp_retlen = 0,
            dp_trans = setPendingMark False (t\<lparr>m_nDiagAT := b\<rparr>), dp_io = ?io,
            dp_mgr = Some (mgr_clearPendingMark ?m)\<rparr>"
    unfolding data_diag_process_def am
    using cz by (simp add: diag_process_len_def checkPending_def also_cp_def ctrans_process_def
        ENG_DIAG_NO_RESPONSE_def strcasestr_def PENDING_MARK_def Let_def)
  have "ap_phase cap e t ((0x7E # xs @ [0x7E]) @ replicate (cap - (length xs + 2)) 0) (length xs + 2) loc w
      = Ret (DYMIC_RET_NO_DEAL, 0, setPendingMark False (t\<lparr>m_nDiagAT := b\<rparr>), replicate cap 0,
             w\<lparr>g_mgr := Some (mgr_clearPendingMark ?m), g_env := g_env w\<rparr>)"
    using t b dp m(1)
    by (simp add: ap_phase_def trans_decode_def trans_process_def del: append_Cons)
  then show ?thesis
    by (intro exI [of _ "setPendingMark False (t\<lparr>m_nDiagAT := b\<rparr>)"] exI [of _ "Some (mgr_clearPendingMark ?m)"])
       (simp add: setPendingMark_def)
qed

lemma reply_diag:
  assumes "m_kind t = KDiag" and "m_dataType t = DATA_DIAG" and "\<not> m_nDiagAT t"
    and "m_retType t \<noteq> DYMIC_RET_ENCODE_TO_DEST"
    and "rsp = 0x7E # ys @ 0x7E # ts" and "nspecial ys \<le> length ts"
    and "m_lpPortSrc t < length (g_ports w)" and "sink (g_ports w ! m_lpPortSrc t)"
    and "accepting (length (frame ys) + m) w"
  shows "\<exists>w'. reply_phase self t rsp (int (length ys + 2)) w = Ret (t, w')
    \<and> only_sent (m_lpPortSrc t) (frame ys) w w' \<and> accepting m w'"
proof -
  have nd: "\<not> deal_with_at t" using assms(3) by (simp add: deal_with_at_def)
  have enc: "diag_encode t rsp (length ys + 2) = Some (frame ys @ drop (nspecial ys) ts, length (frame ys))"
    using nd assms(5,6) enc_loop_frame [of ys ts] by (simp add: diag_encode_def)
  have "0 < length (frame ys)" by (simp add: length_frame)
  then obtain w' where w': "world_write self (m_lpPortSrc t) (frame ys @ drop (nspecial ys) ts) (length (frame ys)) w
      = Ret (int (length (frame ys)), w')" "only_sent (m_lpPortSrc t) (frame ys) w w'" "accepting m w'"
    using world_write_all [OF assms(7,8,9), of "frame ys @ drop (nspecial ys) ts" self] by auto
  have "trans_encode t rsp (nat (int (length ys + 2))) = Some (t, frame ys @ drop (nspecial ys) ts, length (frame ys))"
    unfolding nat_int using assms(1) enc by (simp add: trans_encode_def)
  then show ?thesis
    using w' nd assms(2,4)
    by (simp add: reply_phase_def trans_pre_write_def trans_post_write_def)
qed

lemma reply_diag_at:
  assumes "m_kind t = KDiag" and "m_dataType t = DATA_DIAG" and "deal_with_at t"
    and "cstr_at rsp 0 = Some str"
    and "str = body @ (if m_bPending t then PENDING_MARK else [])"
    and "p = head_bytes (at_response_head (length body + MSG_HEAD_SIZE)) @ body"
    and "length (frame p) \<le> length rsp"
    and "m_lpPortSrc t < length (g_ports w)" and "sink (g_ports w ! m_lpPortSrc t)"
    and "accepting (length emptyDiag + (length (frame p) + (length okRsp + m))) w"
  shows "\<exists>w'. reply_phase self t rsp retlen w = Ret (t, w')
    \<and> only_sent (m_lpPortSrc t) (emptyDiag @ frame p @ okRsp) w w' \<and> accepting m w'"
proof -
  have lp: "length p + 2 = length body + 10" by (simp add: assms(6) MSG_HEAD_SIZE_def)
  have cap: "length body + 10 \<le> length rsp" using assms(7) lp by (simp add: length_frame)
  have fits: "nspecial p \<le> length (drop (length body + 10) rsp)"
    using assms(7) lp by (simp add: length_frame)
  let ?m = "frame p @ drop (nspecial p) (drop (length body + 10) rsp)"
  have enc: "diag_encode t rsp n = Some (?m, length (frame p))" for n
  proof -
    have "enc_loop (0x7E # p @ 0x7E # drop (length body + 10) rsp) 1 (length body + 10) = Some (?m, length (frame p))"
      using enc_loop_frame [of p "drop (length body + 10) rsp"] fits unfolding lp by simp
    then show ?thesis
      using wrap_closed [OF assms(4,5) cap] assms(3) unfolding assms(6) [symmetric]
      by (simp add: diag_encode_def)
  qed
  have dif: "strcase_differs ?m ([13, 10] @ cs ''OK'')"
    by (simp add: strcase_differs_def frame_def lower_def)
  let ?s = "m_lpPortSrc t"
  obtain w1 where w1: "world_write self ?s emptyDiag (length emptyDiag) w = Ret (int (length emptyDiag), w1)"
    "only_sent ?s emptyDiag w w1" "accepting (length (frame p) + (length okRsp + m)) w1"
    using world_write_all [OF assms(8,9,10), of emptyDiag self] by (auto simp: emptyDiag_def)
  have p1: "?s < length (g_ports w1)" "sink (g_ports w1 ! ?s)" using w1(2) assms(8,9) by (simp_all add: only_sent_def)
  obtain w2 where w2: "world_write self ?s ?m (length (frame p)) w1 = Ret (int (length (frame p)), w2)"
    "only_sent ?s (frame p) w1 w2" "accepting (length okRsp + m) w2"
    using world_write_all [OF p1 w1(3), of ?m self] by (auto simp: length_frame)
  have p2: "?s < length (g_ports w2)" "sink (g_ports w2 ! ?s)" using w2(2) p1 by (simp_all add: only_sent_def)
  obtain w3 where w3: "world_write self ?s okRsp (length okRsp) w2 = Ret (int (length okRsp), w3)"
    "only_sent ?s okRsp w2 w3" "accepting m w3"
    using world_write_all [OF p2 w2(3), of okRsp self] by (auto simp: okRsp_def)
  have "only_sent ?s (emptyDiag @ frame p @ okRsp) w w3"
    by (rule only_sent_trans [OF w1(2) only_sent_trans [OF w2(2) w3(2)]])
  moreover have "reply_phase self t rsp retlen w = Ret (t, w3)"
    using enc dif w1(1) w2(1) w3(1) assms(1,2,3)
    by (auto simp: reply_phase_def trans_encode_def trans_pre_write_def trans_post_write_def ctrans_write_def
        deal_with_at_def)
  ultimately show ?thesis using w3(3) by blast
qed

section \<open>Properties\<close>

definition sample_thread :: "trans_kind \<Rightarrow> DATA_TYPE \<Rightarrow> int \<Rightarrow> chnl_thread" where
  "sample_thread k dt ap = (thread_new (cs ''C'') 0 1 True dt ap)
     \<lparr>td_isRunning := True, td_trans := Some (trans_init k (cs ''C'') 0 1 dt ap), td_dstList := [1]\<rparr>"

definition sample_world :: "chnl_thread \<Rightarrow> rd_event list \<Rightarrow> unit world" where
  "sample_world td evs = \<lparr>g_ports = [opened sample_port, opened sample_port], g_threads = [td],
     g_mgr = Some (modmgr_new\<lparr>m_isLoaded := True\<rparr>), g_os = \<lparr>open_results = (\<lambda>_. 3), open_calls = 0\<rparr>,
     g_rd = (\<lambda>i. if i = 0 then evs else []), g_wr = replicate 99 (WSent 50), g_sent = [], g_env = ()\<rparr>"

definition sample_env :: "unit mod_env" where
  "sample_env = \<lparr>me_dir = None, me_getFD = (\<lambda>_. 3), me_dl = DlFail, me_bqb = \<lparr>bqb_init = id,
     bqb_set_fd = (\<lambda>_ w. w), bqb_check_received_str = (\<lambda>_ _ _ w. (0, w)), bqb_is_opened = (\<lambda>_. False),
     bqb_send_data = (\<lambda>_ _ w. w)\<rparr>\<rparr>"

lemmas sample_world_defs = sample_thread_def sample_world_def thread_new_def sample_port_defs
  source_ready_def sink_def get_trans_def accepting_def rd_limit_def is_ser_def MAX_VSER_BUFF_LEN_def

text \<open>C1 (relaying): a transfer that the AP does not process sends every byte it reads to its
  destination port, in order, once and unchanged, one turn of the loop per read, and nothing to
  any other port.\<close>

theorem relay_stream:
  assumes "relay_ready self s d w" and "g_rd w s = map RData chunks @ es"
    and "list_all (\<lambda>c. c \<noteq> [] \<and> length c \<le> cap \<and> length c \<le> rd_limit (g_ports w ! s)) chunks"
    and "accepting (length (concat chunks)) w"
  shows "\<exists>w'. trans_turns (length chunks) cap e self (DYMIC_RET_NO_DEAL, x) w
      = Ret (Some (DYMIC_RET_NO_DEAL, x), w')
    \<and> g_rd w' s = es \<and> (\<forall>p. sent_to p w' = sent_to p w @ (if p = d then concat chunks else []))"
  using assms
proof (induction chunks arbitrary: w)
  case (Cons c cs)
  have "c \<noteq> []" "length c \<le> cap" "length c \<le> rd_limit (g_ports w ! s)" using Cons.prems(3) by simp_all
  moreover have "g_rd w s = RData c # (map RData cs @ es)" using Cons.prems(2) by simp
  moreover have "accepting (length c + length (concat cs)) w" using Cons.prems(4) by simp
  ultimately obtain w1 where w1: "trans_turn cap e self (DYMIC_RET_NO_DEAL, x) w = Ret (Some (DYMIC_RET_NO_DEAL, x), w1)"
    "relay_ready self s d w1" "g_rd w1 s = map RData cs @ es" "accepting (length (concat cs)) w1"
    "rd_limit (g_ports w1 ! s) = rd_limit (g_ports w ! s)"
    "\<forall>p. sent_to p w1 = sent_to p w @ (if p = d then c else [])"
    using relay_turn [OF Cons.prems(1)] by blast
  then show ?case using Cons.IH [OF w1(2,3) _ w1(4)] Cons.prems(3) by auto
qed simp

theorem relay_stream_witness:
  "\<exists>w'. trans_turns 2 16 sample_env 0 (DYMIC_RET_NO_DEAL, 0)
      (sample_world (sample_thread KLog DATA_LOG 0) [RData [1, 2], RData [3], RTimeout])
      = Ret (Some (DYMIC_RET_NO_DEAL, 0), w') \<and> sent_to 1 w' = [1, 2, 3] \<and> sent_to 0 w' = []"
proof -
  let ?w = "sample_world (sample_thread KLog DATA_LOG 0) [RData [1, 2], RData [3], RTimeout]"
  have "relay_ready 0 0 1 ?w" "g_rd ?w 0 = map RData [[1, 2], [3]] @ [RTimeout]"
    "accepting (length (concat [[1, 2], [3 :: byte]])) ?w" "sent_to 0 ?w = []" "sent_to 1 ?w = []"
    "list_all (\<lambda>c. c \<noteq> [] \<and> length c \<le> 16 \<and> length c \<le> rd_limit (g_ports ?w ! 0)) [[1, 2], [3 :: byte]]"
    by (simp_all add: relay_ready_def sample_world_defs sent_to_def)
  then show ?thesis
    using relay_stream [of 0 0 1 ?w "[[1, 2], [3]]" "[RTimeout]" 16 sample_env 0] by (auto simp: suc2)
qed

text \<open>C2 (a request for the CP): a diag frame that no module knows reaches the destination port
  exactly as it was read, although the transfer unescaped a copy of it in place and offered that to
  the modules; the host gets no answer.\<close>

theorem unknown_request_forwarded:
  assumes r: "ap_ready self s d t w" and evs: "g_rd w s = RData (0x7E # xs @ [0x7E]) # es"
    and cap: "length xs + 2 < cap" "8 \<le> cap" "length xs + 2 \<le> rd_limit (g_ports w ! s)"
    and acc: "accepting (length xs + 2) w"
    and m: "g_mgr w = Some m" "m_isLoaded m" "m_lpPendingCB m = None"
    and na: "list_all (\<lambda>c. \<not> diag_applies (length (unescape xs) + 2) c \<lparr>s_rlen = 0, s_cp = False,
        s_io = \<lparr>cb_buf = (0x7E # unescape xs @ [0x7E]) @ replicate (cap - (length (unescape xs) + 2)) 0,
                cb_rsp = replicate cap 0, cb_env = g_env w\<rparr>\<rparr>) (m_listHead m)"
  shows "\<exists>w'. trans_turn cap e self loc w = Ret (Some (DYMIC_RET_NO_DEAL, 0), w')
    \<and> (\<forall>p. sent_to p w' = sent_to p w @ (if p = d then 0x7E # xs @ [0x7E] else []))"
proof -
  let ?bs = "0x7E # xs @ [0x7E]" and ?t1 = "t\<lparr>m_iCurFrameType := FRAME_COMPLETE\<rparr>"
  have l: "length ?bs = length xs + 2" by simp
  let ?req = "?bs @ replicate (cap - (length xs + 2)) 0"
  note r' = r [unfolded ap_ready_def]
  define w1 where "w1 = w\<lparr>g_ports := (g_ports w)[s := (g_ports w ! s)\<lparr>m_bSuspend := False\<rparr>],
      g_os := g_os w, g_rd := (g_rd w)(s := es)\<rparr>"
  have cf: "checkframe t (?bs @ replicate (cap - length ?bs) 0) (length ?bs) =
      Some (?t1, ?bs @ replicate (cap - length ?bs) 0, length ?bs, FRAME_COMPLETE)"
    using r' detect_full [of xs] by (subst checkframe_diag) simp_all
  have rd: "world_read self t s (replicate cap 0) cap w = Ret (int (length ?bs), ?req, ?t1, w1)"
    unfolding w1_def l [symmetric]
    by (rule world_read_data [OF _ _ evs _ _ _ cf]) (use r' cap in auto)
  define w2 where "w2 = activeOtherChnlDstPort self s (set_trans self ?t1 w1)"
  have nd1: "\<not> findDstPort s (td_dstList (g_threads (set_trans self ?t1 w1) ! self))"
    using r' by (simp add: set_trans_def w1_def)
  note w2 = activeOther_self [OF nd1, folded w2_def]
  have g2: "get_trans self w2 = Some ?t1" "g_mgr w2 = Some m" "g_env w2 = g_env w"
    using w2 r' m by (simp_all add: get_trans_def set_trans_def w1_def)
  obtain t2 mgr where ap: "ap_phase cap e ?t1 ?req (length xs + 2) loc w2
      = Ret (DYMIC_RET_NO_DEAL, 0, t2, replicate cap 0, w2\<lparr>g_mgr := mgr\<rparr>)" "m_lpPortDst t2 = d" "m_kind t2 = KDiag"
    using unknown_ap_phase [OF g2(2) m(2,3), of xs cap ?t1 e loc] na r' cap(1,2) g2(3) by auto
  let ?t = "t2\<lparr>m_retType := DYMIC_RET_NO_DEAL\<rparr>" and ?w = "w2\<lparr>g_mgr := mgr\<rparr>"
  have p2: "d < length (g_ports ?w)" "sink (g_ports ?w ! d)"
    using w2 r' by (simp_all add: set_trans_def w1_def)
  have acc2: "accepting (length ?bs + 0) ?w" using acc w2 by (simp add: accepting_def set_trans_def w1_def)
  obtain w3 where w3: "world_write self d ?req (length ?bs) ?w = Ret (int (length ?bs), w3)"
    "only_sent d (take (length ?bs) ?req) ?w w3"
    using world_write_all [OF p2 acc2, of ?req self] by auto
  have fw: "forward_phase self ?t ?req (length xs + 2) ?w = Ret w3"
    using w3(1) ap(2) p2(2) unfolding l
    by (simp add: forward_phase_def trans_pre_write_def trans_post_write_def deal_with_at_def sink_def)
  have bk: "take (length xs + 2) ?req @ replicate (cap - (length xs + 2)) 0 = ?req" by simp
  have ar: "after_read cap e self ?t1 ?req (length xs + 2) loc w2 = Ret (Some (DYMIC_RET_NO_DEAL, 0), set_trans self ?t w3)"
    unfolding after_read_def bk Let_def ap(1) using fw by simp
  have n: "nat (int (length xs + 2)) = length xs + 2" "(int (length xs + 2) \<le> 0) = False" by simp_all
  have w2': "activeOtherChnlDstPort self (m_lpPortSrc ?t1) (set_trans self ?t1 w1) = w2"
    and gt: "get_trans self w = Some t" and src: "m_lpPortSrc t = s"
    using r' by (simp_all add: w2_def)
  have "trans_turn cap e self loc w = Ret (Some (DYMIC_RET_NO_DEAL, 0), set_trans self ?t w3)"
    unfolding trans_turn_def gt option.case src rd l cbind_simps prod.case Let_def w2' g2(1) n if_False
    by (rule ar)
  moreover have "\<forall>p. sent_to p (set_trans self ?t w3) = sent_to p w @ (if p = d then ?bs else [])"
    using w3(2) w2 by (simp add: only_sent_def set_trans_def w1_def)
  ultimately show ?thesis by blast
qed

theorem unknown_request_forwarded_witness:
  "\<exists>w'. trans_turn 32 sample_env 0 (DYMIC_RET_NO_DEAL, 5)
      (sample_world (sample_thread KDiag DATA_DIAG 1) [RData [0x7E, 1, 0x7D, 0x5E, 3, 0x7E]])
      = Ret (Some (DYMIC_RET_NO_DEAL, 0), w') \<and> sent_to 1 w' = [0x7E, 1, 0x7D, 0x5E, 3, 0x7E] \<and> sent_to 0 w' = []"
proof -
  let ?w = "sample_world (sample_thread KDiag DATA_DIAG 1) [RData [0x7E, 1, 0x7D, 0x5E, 3, 0x7E]]"
  have f: "ap_ready 0 0 1 (trans_init KDiag (cs ''C'') 0 1 DATA_DIAG 1) ?w"
    "g_rd ?w 0 = RData (0x7E # [1, 0x7D, 0x5E, 3] @ [0x7E]) # []"
    "accepting (length [1, 0x7D, 0x5E, 3 :: byte] + 2) ?w" "sent_to 0 ?w = []" "sent_to 1 ?w = []"
    "length [1, 0x7D, 0x5E, 3 :: byte] + 2 \<le> rd_limit (g_ports ?w ! 0)"
    "g_mgr ?w = Some (modmgr_new\<lparr>m_isLoaded := True\<rparr>)"
    by (simp_all add: ap_ready_def sample_world_defs sent_to_def)
  show ?thesis
    using unknown_request_forwarded [OF f(1,2) _ _ f(6) f(3) f(7), of 32 sample_env "(DYMIC_RET_NO_DEAL, 5)"] f(4,5)
    by (auto simp: modmgr_new_def)
qed

text \<open>C3 (answering a diag request): the frame a module built is escaped and sent to the host's port,
  and to no other.\<close>

theorem diag_answer_sent:
  assumes "m_kind t = KDiag" and "m_dataType t = DATA_DIAG" and "\<not> m_nDiagAT t"
    and "m_retType t \<noteq> DYMIC_RET_ENCODE_TO_DEST"
    and "rsp = 0x7E # ys @ 0x7E # ts" and "nspecial ys \<le> length ts"
    and "m_lpPortSrc t < length (g_ports w)" and "sink (g_ports w ! m_lpPortSrc t)"
    and "accepting (length (frame ys)) w"
  shows "\<exists>w'. reply_phase self t rsp (int (length ys + 2)) w = Ret (t, w')
    \<and> (\<forall>p. sent_to p w' = sent_to p w @ (if p = m_lpPortSrc t then frame ys else []))"
  using reply_diag [OF assms(1-8), of 0 self] assms(9) by (auto simp: only_sent_def)

theorem diag_answer_sent_witness:
  "\<exists>w'. reply_phase 0 sample_diag [0x7E, 1, 0x7D, 0x7E, 0, 0] 4 (sample_world (sample_thread KDiag DATA_DIAG 1) [])
      = Ret (sample_diag, w') \<and> sent_to 0 w' = [0x7E, 1, 0x7D, 0x5D, 0x7E]"
proof -
  let ?w = "sample_world (sample_thread KDiag DATA_DIAG 1) []"
  have "sent_to 0 ?w = []" "0 < length (g_ports ?w)" "sink (g_ports ?w ! 0)"
    "accepting (length (frame [1, 0x7D])) ?w"
    by (simp_all add: sample_world_defs sent_to_def length_frame special_def)
  then show ?thesis
    using diag_answer_sent [of sample_diag "[0x7E, 1, 0x7D, 0x7E, 0, 0]" "[1, 0x7D]" "[0, 0]" ?w 0]
    by (auto simp: sample_diag_def trans_init_def special_def frame_def esc_byte_def)
qed

text \<open>C4 (answering an AT command in a diag message): the host gets, in this order, the empty diag
  message, the frame with the header and the text of the answer, and the \<open>OK\<close> frame. The
  comparison that is meant to suppress the last looks at the encoded frame, which starts with a flag,
  so \<open>OK\<close> is always sent.\<close>

theorem diag_at_answer_sent:
  assumes "m_kind t = KDiag" and "m_dataType t = DATA_DIAG" and "deal_with_at t"
    and "cstr_at rsp 0 = Some str"
    and "str = body @ (if m_bPending t then PENDING_MARK else [])"
    and "p = head_bytes (at_response_head (length body + MSG_HEAD_SIZE)) @ body"
    and "length (frame p) \<le> length rsp"
    and "m_lpPortSrc t < length (g_ports w)" and "sink (g_ports w ! m_lpPortSrc t)"
    and "accepting (length emptyDiag + (length (frame p) + length okRsp)) w"
  shows "\<exists>w'. reply_phase self t rsp retlen w = Ret (t, w')
    \<and> (\<forall>q. sent_to q w' = sent_to q w @ (if q = m_lpPortSrc t then emptyDiag @ frame p @ okRsp else []))"
  using reply_diag_at [OF assms(1-9), of 0 self retlen] assms(10) by (auto simp: only_sent_def)

theorem diag_at_answer_sent_witness:
  "\<exists>w'. reply_phase 0 sample_at_reply (zfill 32 ([13, 10] @ cs ''OK'')) 4
      (sample_world (sample_thread KDiag DATA_DIAG 1) []) = Ret (sample_at_reply, w')
    \<and> sent_to 0 w' = emptyDiag @ frame ([0, 0, 0, 0, 12, 0, 0x9C, 0] @ [13, 10] @ cs ''OK'') @ okRsp"
proof -
  let ?w = "sample_world (sample_thread KDiag DATA_DIAG 1) []" and ?b = "[13, 10] @ cs ''OK''"
    and ?p = "[0, 0, 0, 0, 12, 0, 0x9C, 0] @ [13, 10] @ cs ''OK''"
  have p: "?p = head_bytes (at_response_head (length ?b + MSG_HEAD_SIZE)) @ ?b"
    by (simp add: head_bytes_def at_response_head_def MSG_HEAD_SIZE_def le16_def le32_def)
  have lp: "length (frame ?p) = 14" by (simp add: length_frame special_def)
  have c: "cstr_at (zfill 32 ?b) 0 = Some ?b" by (rule cstr_at_zfill) simp_all
  have w: "sent_to 0 ?w = []" "0 < length (g_ports ?w)" "sink (g_ports ?w ! 0)"
    by (simp_all add: sample_world_defs sent_to_def)
  have a: "accepting (length emptyDiag + (length (frame ?p) + length okRsp)) ?w"
    unfolding lp by (simp add: sample_world_defs emptyDiag_def okRsp_def)
  have r: "m_kind sample_at_reply = KDiag" "m_dataType sample_at_reply = DATA_DIAG" "deal_with_at sample_at_reply"
    "m_lpPortSrc sample_at_reply < length (g_ports ?w)" "sink (g_ports ?w ! m_lpPortSrc sample_at_reply)"
    using w by (simp_all add: sample_at_reply_def sample_diag_def trans_init_def deal_with_at_def)
  have bd: "?b = ?b @ (if m_bPending sample_at_reply then PENDING_MARK else [])"
    by (simp add: sample_at_reply_def sample_diag_def trans_init_def)
  have fit: "length (frame ?p) \<le> length (zfill 32 ?b)" unfolding lp by (simp add: zfill_def)
  from diag_at_answer_sent [OF r(1-3) c bd p fit r(4,5) a, of 0 4]
  have "\<exists>w'. reply_phase 0 sample_at_reply (zfill 32 ?b) 4 ?w = Ret (sample_at_reply, w')
    \<and> (\<forall>q. sent_to q w' = sent_to q ?w @ (if q = m_lpPortSrc sample_at_reply then emptyDiag @ frame ?p @ okRsp else []))" .
  moreover have "m_lpPortSrc sample_at_reply = 0"
    by (simp add: sample_at_reply_def sample_diag_def trans_init_def)
  ultimately show ?thesis using w(1) by auto
qed

end
