(* ===== verification/Channel.thy ===== *)
theory Channel
  imports Device Trans
begin

text \<open>
  \<open>CChnl\<close> and \<open>CChnlMgr\<close> (\<open>server/chnl\<close>): the channels of a boot mode, starting them (one thread per
  source port, further channels from the same port add a destination), the manager's list of
  channel groups, loading it, and switching a device's ports on and off. The list of devices is
  that of theory Device, the ports and threads are those of theory Trans.
\<close>

definition CHNL_NAME_LEN :: nat where "CHNL_NAME_LEN = 128"
definition CHNL_RESVED_LEN :: nat where "CHNL_RESVED_LEN = 128"
definition CHNL_DESC_LEN :: nat where "CHNL_DESC_LEN = 128"
definition DEV_MODEM_NAME :: "byte list" where "DEV_MODEM_NAME = cs ''cp''"
definition DEV_MODEM_AT_NAME :: "byte list" where "DEV_MODEM_AT_NAME = cs ''COM_AT''"
definition DEV_WCN_NAME :: "byte list" where "DEV_WCN_NAME = cs ''wcn''"

section \<open>\<open>CChnl\<close>\<close>

record chnl_prop =
  cp_name :: "byte list"
  cp_srcDevName :: "byte list"
  cp_srcPortName :: "byte list"
  cp_dstDevName :: "byte list"
  cp_dstPortName :: "byte list"
  cp_act :: WORK_MODE
  cp_dataType :: DATA_TYPE
  cp_enable :: int
  cp_ap_process :: int
  cp_reserved :: "byte list"
  cp_desc :: "byte list"

record chnl =
  ch_bootMode :: "byte list"
  ch_list :: "chnl_prop list"
  ch_bEnable :: bool

definition chnl_new :: "byte list \<Rightarrow> chnl option" where
  "chnl_new bootmode = do { b \<leftarrow> strcpy BOOTMODE_NAME_LEN bootmode;
     Some \<lparr>ch_bootMode = b, ch_list = [], ch_bEnable = True\<rparr> }"

definition chnl_getname :: "chnl \<Rightarrow> byte list" where "chnl_getname c = ch_bootMode c"

text \<open>\<open>add\<close> with the words of a configuration row; a missing word is a null pointer.\<close>

definition chnl_add_vals ::
  "byte list \<Rightarrow> byte list \<Rightarrow> byte list \<Rightarrow> byte list \<Rightarrow> byte list \<Rightarrow> WORK_MODE \<Rightarrow> DATA_TYPE \<Rightarrow> int \<Rightarrow> int
   \<Rightarrow> byte list \<Rightarrow> byte list \<Rightarrow> chnl \<Rightarrow> (int \<times> chnl) option" where
  "chnl_add_vals name sDev sPort dDev dPort act dataType enable ap_process reserved des c = do {
     n \<leftarrow> strcpy CHNL_NAME_LEN name;
     sd \<leftarrow> strcpy DEV_NAME_LEN sDev;
     sp \<leftarrow> strcpy PORT_NAME_LEN sPort;
     dd \<leftarrow> strcpy DEV_NAME_LEN dDev;
     dp \<leftarrow> strcpy PORT_NAME_LEN dPort;
     r \<leftarrow> strcpy CHNL_RESVED_LEN reserved;
     d \<leftarrow> strcpy CHNL_DESC_LEN des;
     Some (0, c\<lparr>ch_list := ch_list c @ [\<lparr>cp_name = n, cp_srcDevName = sd, cp_srcPortName = sp,
       cp_dstDevName = dd, cp_dstPortName = dp, cp_act = act, cp_dataType = dataType,
       cp_enable = enable, cp_ap_process = ap_process, cp_reserved = r, cp_desc = d\<rparr>]\<rparr>)
   }"

definition chnl_add :: "byte list option list \<Rightarrow> chnl \<Rightarrow> (int \<times> chnl) option" where
  "chnl_add vars c =
     (case vars of
        [Some name, Some sDev, Some sPort, Some dDev, Some dPort, Some act, Some dataType, enable,
         ap_process, Some reserved, Some des] \<Rightarrow>
          chnl_add_vals name sDev sPort dDev dPort (str2act act) (str2DataType dataType)
            (str2enable enable) (str2approcess ap_process) reserved des c
      | _ \<Rightarrow> None)"

text \<open>\<open>CChnl::find\<close> as written: \<open>if (stricmp(pItem->name, name)) return pItem\<close>.\<close>

fun chnl_find_from :: "chnl_prop list \<Rightarrow> byte list \<Rightarrow> nat \<Rightarrow> nat option" where
  "chnl_find_from [] name i = None"
| "chnl_find_from (p # ps) name i =
     (if \<not> strcaseeq (cp_name p) name then Some i else chnl_find_from ps name (Suc i))"

definition chnl_find :: "chnl \<Rightarrow> byte list \<Rightarrow> nat option" where
  "chnl_find c name = chnl_find_from (ch_list c) name 0"

definition chnl_enable :: "bool \<Rightarrow> chnl \<Rightarrow> chnl" where
  "chnl_enable on c = c\<lparr>ch_bEnable := on\<rparr>"

definition chnl_enable_name :: "byte list \<Rightarrow> bool \<Rightarrow> chnl \<Rightarrow> bool \<times> chnl" where
  "chnl_enable_name name on c =
     (case chnl_find c name of
        None \<Rightarrow> (False, c)
      | Some i \<Rightarrow> (True, c\<lparr>ch_list := (ch_list c)[i := (ch_list c ! i)\<lparr>cp_enable := of_bool on\<rparr>]\<rparr>))"

subsection \<open>Starting a channel\<close>

text \<open>A device and a port of it by name; the search of the port is in the device's current mode.\<close>

definition find_dev_port :: "devmgr \<Rightarrow> port list \<Rightarrow> byte list \<Rightarrow> byte list \<Rightarrow> nat option" where
  "find_dev_port devs ps dev pn =
     (case devmgr_find devs dev of None \<Rightarrow> None | Some i \<Rightarrow> cdev_find ps (devs ! i) pn)"

text \<open>One direction: a destination for the thread that already reads \<open>src\<close>, or a new thread, which
  is started and then registered with the manager.\<close>

definition join_thread ::
  "byte list \<Rightarrow> nat \<Rightarrow> nat \<Rightarrow> bool \<Rightarrow> DATA_TYPE \<Rightarrow> int \<Rightarrow> 'w world \<Rightarrow> 'w world option" where
  "join_thread name src dst on dataType ap w =
     (case findSameSrcPort (g_threads w) src 0 of
        Some i \<Rightarrow> Some (w\<lparr>g_threads := (g_threads w)[i := addDstPort dst (g_threads w ! i)]\<rparr>)
      | None \<Rightarrow> do {
          n \<leftarrow> strcpy CHNL_NAME_LEN name;
          (let i = length (g_threads w);
               td = addDstPort dst (thread_new n src dst on dataType ap);
               w1 = snd (thread_run i (w\<lparr>g_threads := g_threads w @ [td]\<rparr>))
           in Some (w1\<lparr>g_threads := (g_threads w1)[i := (g_threads w1 ! i)\<lparr>td_attached := True\<rparr>]\<rparr>))
        })"

definition runInThread :: "devmgr \<Rightarrow> chnl \<Rightarrow> chnl_prop \<Rightarrow> 'w world \<Rightarrow> (bool \<times> 'w world) option" where
  "runInThread devs c p w =
     (if \<not> ch_bEnable c then Some (False, w)
      else if cp_act p = WORK_MODE_S \<or> cp_act p = WORK_MODE_F then
        (case find_dev_port devs (g_ports w) (cp_srcDevName p) (cp_srcPortName p) of
           None \<Rightarrow> Some (False, w)
         | Some src \<Rightarrow>
           (case find_dev_port devs (g_ports w) (cp_dstDevName p) (cp_dstPortName p) of
              None \<Rightarrow> Some (False, w)
            | Some dst \<Rightarrow> do {
                w1 \<leftarrow> join_thread (cp_name p) src dst (cp_enable p \<noteq> 0) (cp_dataType p)
                       (if cp_ap_process p = 1 \<or> cp_ap_process p = 3 then 1 else 0) w;
                (if cp_act p = WORK_MODE_F
                 then do {
                   w2 \<leftarrow> join_thread (cp_name p @ cs ''-R'') dst src (cp_enable p \<noteq> 0) (cp_dataType p)
                          (if cp_ap_process p = 2 \<or> cp_ap_process p = 3 then 1 else 0) w1;
                   Some (True, w2)
                 }
                 else Some (True, w1))
              }))
      else Some (True, w))"

fun chnl_run_loop :: "devmgr \<Rightarrow> chnl \<Rightarrow> chnl_prop list \<Rightarrow> 'w world \<Rightarrow> 'w world option" where
  "chnl_run_loop devs c [] w = Some w"
| "chnl_run_loop devs c (p # ps) w = do { (r, w') \<leftarrow> runInThread devs c p w; chnl_run_loop devs c ps w' }"

definition chnl_run :: "devmgr \<Rightarrow> chnl \<Rightarrow> 'w world \<Rightarrow> 'w world option" where
  "chnl_run devs c w = chnl_run_loop devs c (ch_list c) w"

section \<open>\<open>CChnlMgr\<close>\<close>

fun chnlmgr_find_from :: "chnl list \<Rightarrow> byte list \<Rightarrow> nat \<Rightarrow> nat option" where
  "chnlmgr_find_from [] name i = None"
| "chnlmgr_find_from (c # rest) name i =
     (if strcaseeq (chnl_getname c) name then Some i else chnlmgr_find_from rest name (Suc i))"

definition chnlmgr_find :: "chnl list \<Rightarrow> byte list \<Rightarrow> nat option" where
  "chnlmgr_find ms name = chnlmgr_find_from ms name 0"

definition chnlmgr_addChnl :: "chnl list \<Rightarrow> chnl \<Rightarrow> int \<times> chnl list" where
  "chnlmgr_addChnl ms c = (if chnlmgr_find ms (chnl_getname c) \<noteq> None then (- 1, ms) else (0, ms @ [c]))"

definition chnlmgr_enable :: "chnl list \<Rightarrow> byte list \<Rightarrow> bool \<Rightarrow> bool \<times> chnl list" where
  "chnlmgr_enable ms bootmode on =
     (True, case chnlmgr_find ms bootmode of None \<Rightarrow> ms | Some i \<Rightarrow> ms[i := chnl_enable on (ms ! i)])"

definition chnlmgr_run :: "devmgr \<Rightarrow> chnl list \<Rightarrow> byte list \<Rightarrow> 'w world \<Rightarrow> 'w world option" where
  "chnlmgr_run devs ms bootmode w =
     (case chnlmgr_find ms bootmode of None \<Rightarrow> Some w | Some i \<Rightarrow> chnl_run devs (ms ! i) w)"

text \<open>\<open>resetWithDevName\<close>: all ports of the device on or off, its AT port always on, and its stopped
  threads started again.\<close>

definition resetWithDevName :: "devmgr \<Rightarrow> byte list \<Rightarrow> bool \<Rightarrow> 'w world \<Rightarrow> 'w world" where
  "resetWithDevName devs devname on w =
     restartWithDev devname
       (case devmgr_find devs devname of
          None \<Rightarrow> w
        | Some i \<Rightarrow>
            (let d = devs ! i;
                 p1 = snd (cdev_enablePortRD (g_ports w) d on);
                 p2 = snd (cdev_enablePortWR p1 d on);
                 p3 = snd (cdev_enablePort p2 d DEV_MODEM_AT_NAME True True)
             in w\<lparr>g_ports := p3\<rparr>))"

fun load_chnls :: "byte list option list \<Rightarrow> byte list list list \<Rightarrow> chnl \<Rightarrow> chnl option" where
  "load_chnls vars [] c = Some c"
| "load_chnls vars (item # rows) c =
     (let vars' = fill_columns vars item in do { (r, c') \<leftarrow> chnl_add vars' c; load_chnls vars' rows c' })"

fun chnlmgr_load_entries :: "conf_entry list \<Rightarrow> chnl list \<Rightarrow> chnl list option" where
  "chnlmgr_load_entries [] ms = Some ms"
| "chnlmgr_load_entries (e # es) ms =
     (if \<not> is_conf e then chnlmgr_load_entries es ms
      else let (r, rows) = engconf_parse CONF_CHNL (c_readable e) (c_content e) in
           if r \<noteq> 0 then chnlmgr_load_entries es ms
           else do {
             chnlName \<leftarrow> conf_name BOOTMODE_NAME_LEN (c_name e);
             c0 \<leftarrow> chnl_new chnlName;
             c \<leftarrow> load_chnls (replicate 11 None) rows c0;
             chnlmgr_load_entries es (snd (chnlmgr_addChnl ms c))
           })"

definition chnlmgr_load :: "conf_entry list option \<Rightarrow> chnl list \<Rightarrow> (int \<times> chnl list) option" where
  "chnlmgr_load dir ms =
     (case dir of None \<Rightarrow> Some (- 1, ms) | Some es \<Rightarrow> do { ms' \<leftarrow> chnlmgr_load_entries es ms; Some (0, ms') })"

section \<open>The manager is a registry\<close>

lemma chnlmgr_find_devs:
  "chnlmgr_find ms name = devmgr_find (map (\<lambda>c. \<lparr>d_devName = chnl_getname c, d_curMode = [], d_enable = False,
     m_BMDevList = []\<rparr>) ms) name"
proof -
  have "chnlmgr_find_from ms name n = devmgr_find_from (map (\<lambda>c. \<lparr>d_devName = chnl_getname c, d_curMode = [],
      d_enable = False, m_BMDevList = []\<rparr>) ms) name n" for n
    by (induction ms arbitrary: n) (simp_all add: cdev_getname_def)
  then show ?thesis by (simp add: chnlmgr_find_def devmgr_find_def)
qed

interpretation chnls: registry chnl_getname chnlmgr_find chnlmgr_addChnl
proof
  show "i < length es \<and> strcaseeq (chnl_getname (es ! i)) k \<and> (\<forall>j < i. \<not> strcaseeq (chnl_getname (es ! j)) k)"
    if "chnlmgr_find es k = Some i" for es k i
    using devs.lookup_Some [OF that [unfolded chnlmgr_find_devs]] by (auto simp: cdev_getname_def)
  show "\<forall>e \<in> set es. \<not> strcaseeq (chnl_getname e) k" if "chnlmgr_find es k = None" for es k
    using devs.lookup_None [OF that [unfolded chnlmgr_find_devs]] by (auto simp: cdev_getname_def)
qed (simp_all add: chnlmgr_addChnl_def)

section \<open>One thread per source port\<close>

lemma findSameSrcPort_None: "findSameSrcPort tds p n = None \<longleftrightarrow> p \<notin> td_src ` set tds"
  by (induction tds arbitrary: n) auto

lemma findSameSrcPort_Some:
  "findSameSrcPort tds p n = Some i \<Longrightarrow> n \<le> i \<and> i - n < length tds \<and> td_src (tds ! (i - n)) = p"
proof (induction tds arbitrary: n)
  case (Cons td tds)
  show ?case
  proof (cases "p = td_src td")
    case False
    then have "findSameSrcPort tds p (Suc n) = Some i" using Cons.prems by simp
    then have "Suc n \<le> i" "i - Suc n < length tds" "td_src (tds ! (i - Suc n)) = p"
      using Cons.IH by blast+
    then show ?thesis by (auto simp: nth_Cons')
  qed (use Cons.prems in auto)
qed simp

lemma map_update_same: "i < length xs \<Longrightarrow> f y = f (xs ! i) \<Longrightarrow> map f (xs[i := y]) = map f xs"
  by (metis list_update_id map_update)

lemma thread_begin_src: "i < length (g_threads w) \<Longrightarrow> map td_src (g_threads (thread_begin i w)) = map td_src (g_threads w)"
  by (auto simp: thread_begin_def Let_def map_update_same split: option.splits)

lemma thread_begin_facts:
  "length (g_threads (thread_begin i w)) = length (g_threads w)"
  "length (g_ports (thread_begin i w)) = length (g_ports w)"
  "i < length (g_threads w) \<Longrightarrow> td_dstList (g_threads (thread_begin i w) ! j) = td_dstList (g_threads w ! j)"
  by (auto simp: thread_begin_def Let_def nth_list_update split: option.splits)

text \<open>What a channel leaves behind for a direction: some thread reads \<open>src\<close> and has \<open>dst\<close> among its
  destinations.\<close>

definition serves :: "nat \<Rightarrow> nat \<Rightarrow> 'w world \<Rightarrow> bool" where
  "serves src dst w \<longleftrightarrow> (\<exists>td \<in> set (g_threads w). td_src td = src \<and> dst \<in> set (td_dstList td))"

definition one_reader :: "'w world \<Rightarrow> bool" where
  "one_reader w \<longleftrightarrow> distinct (map td_src (g_threads w))"

lemma thread_run_facts:
  assumes "i < length (g_threads w)"
  shows "map td_src (g_threads (snd (thread_run i w))) = map td_src (g_threads w)"
    and "length (g_threads (snd (thread_run i w))) = length (g_threads w)"
    and "td_dstList (g_threads (snd (thread_run i w)) ! j) = td_dstList (g_threads w ! j)"
  using assms by (auto simp: thread_run_def thread_begin_src thread_begin_facts)

lemma serves_nth: "serves s d w \<longleftrightarrow>
    (\<exists>i < length (g_threads w). td_src (g_threads w ! i) = s \<and> d \<in> set (td_dstList (g_threads w ! i)))"
  unfolding serves_def by (metis in_set_conv_nth)

lemma join_thread_facts:
  assumes "join_thread name src dst on dt ap w = Some w'" and "one_reader w"
  shows "one_reader w' \<and> serves src dst w' \<and> (\<forall>s d. serves s d w \<longrightarrow> serves s d w')"
proof (cases "findSameSrcPort (g_threads w) src 0")
  case (Some i)
  then have i: "i < length (g_threads w)" "td_src (g_threads w ! i) = src"
    using findSameSrcPort_Some [OF Some] by simp_all
  have w': "w' = w\<lparr>g_threads := (g_threads w)[i := addDstPort dst (g_threads w ! i)]\<rparr>"
    using assms(1) Some by (simp add: join_thread_def)
  have m: "map td_src (g_threads w') = map td_src (g_threads w)"
    using i by (simp add: w' map_update_same addDstPort_def)
  have l: "length (g_threads w') = length (g_threads w)" by (simp add: w')
  have sr: "td_src (g_threads w' ! j) = td_src (g_threads w ! j)" if "j < length (g_threads w)" for j
    using arg_cong [OF m, of "\<lambda>xs. xs ! j"] that l by simp
  have d: "td_dstList (g_threads w' ! j) = td_dstList (g_threads w ! j) @ (if j = i then [dst] else [])"
    if "j < length (g_threads w)" for j
    using that by (simp add: w' addDstPort_def nth_list_update)
  have "serves src dst w'" unfolding serves_nth using i sr [OF i(1)] d [OF i(1)] l by auto
  moreover have "serves s e w'" if "serves s e w" for s e
    using that l sr d unfolding serves_nth by (metis Un_iff set_append)
  ultimately show ?thesis using assms(2) m by (simp add: one_reader_def)
next
  case None
  then have new: "src \<notin> set (map td_src (g_threads w))" by (simp add: findSameSrcPort_None)
  let ?i = "length (g_threads w)"
  obtain n where n: "strcpy CHNL_NAME_LEN name = Some n"
    using assms(1) None by (auto simp: join_thread_def Option.bind_eq_Some_conv)
  let ?td = "addDstPort dst (thread_new n src dst on dt ap)"
  let ?w0 = "w\<lparr>g_threads := g_threads w @ [?td]\<rparr>"
  let ?w1 = "snd (thread_run ?i ?w0)"
  have w': "w' = ?w1\<lparr>g_threads := (g_threads ?w1)[?i := (g_threads ?w1 ! ?i)\<lparr>td_attached := True\<rparr>]\<rparr>"
    using assms(1) None n by (simp add: join_thread_def Let_def)
  note r = thread_run_facts [of ?i ?w0]
  have l: "length (g_threads ?w1) = Suc ?i" using r(2) by simp
  have m: "map td_src (g_threads w') = map td_src (g_threads w) @ [src]"
  proof -
    have "map td_src (g_threads w') = map td_src (g_threads ?w1)"
      using l by (simp add: w' map_update_same)
    then show ?thesis using r(1) by (simp add: addDstPort_def thread_new_def)
  qed
  have d: "td_dstList (g_threads w' ! j) = (if j = ?i then [dst] else td_dstList (g_threads w ! j))"
    if "j < Suc ?i" for j
    using that l r(3) [of j] by (auto simp: w' nth_list_update nth_append addDstPort_def thread_new_def)
  have lw: "length (g_threads w') = Suc ?i" using l by (simp add: w')
  have sr: "td_src (g_threads w' ! j) = (if j = ?i then src else td_src (g_threads w ! j))" if "j < Suc ?i" for j
    using arg_cong [OF m, of "\<lambda>xs. xs ! j"] that lw by (auto simp: nth_append less_Suc_eq)
  have "one_reader w'" using assms(2) new by (simp add: one_reader_def m)
  moreover have "serves src dst w'"
    unfolding serves_nth using lw d [of ?i] sr [of ?i] by (intro exI [of _ ?i]) simp
  moreover have "serves s e w'" if se: "serves s e w" for s e
  proof -
    obtain j where "j < ?i" "td_src (g_threads w ! j) = s" "e \<in> set (td_dstList (g_threads w ! j))"
      using se by (auto simp: serves_nth)
    then show ?thesis unfolding serves_nth using lw d [of j] sr [of j]
      by (intro exI [of _ j]) simp
  qed
  ultimately show ?thesis by blast
qed

lemma join_thread_srcs:
  "join_thread name src dst on dt ap w = Some w' \<Longrightarrow>
   td_src ` set (g_threads w') \<subseteq> insert src (td_src ` set (g_threads w))"
proof (cases "findSameSrcPort (g_threads w) src 0")
  case (Some i)
  assume "join_thread name src dst on dt ap w = Some w'"
  then have "map td_src (g_threads w') = map td_src (g_threads w)"
    using Some findSameSrcPort_Some [OF Some] by (auto simp: join_thread_def map_update_same addDstPort_def)
  from arg_cong [OF this, of set] show ?thesis by auto
next
  case None
  assume "join_thread name src dst on dt ap w = Some w'"
  then have "\<exists>td. g_threads w' = g_threads w @ [td] \<and> td_src td = src"
    using None by (auto simp: join_thread_def Let_def thread_run_def thread_begin_def addDstPort_def thread_new_def
        Option.bind_eq_Some_conv split: option.splits)
  then show ?thesis by auto
qed

lemma join_thread_Some:
  "length name < CHNL_NAME_LEN \<Longrightarrow> \<exists>w'. join_thread name src dst on dt ap w = Some w'"
  by (auto simp: join_thread_def strcpy_def Let_def split: option.splits)

text \<open>A transfer from \<open>src\<close> to \<open>dst\<close> that runs: a thread that is registered, with the transfer object that
  its start created.\<close>

definition transfers :: "byte list \<Rightarrow> nat \<Rightarrow> nat \<Rightarrow> DATA_TYPE \<Rightarrow> int \<Rightarrow> 'w world \<Rightarrow> bool" where
  "transfers name src dst dt ap w \<longleftrightarrow>
     (\<exists>td \<in> set (g_threads w). td_src td = src \<and> td_dst td = dst \<and> td_isRunning td \<and> td_attached td
        \<and> (\<exists>k. trans_kind_of dt = Some k \<and> td_trans td = Some (trans_init k name src dst dt ap)))"

lemma join_thread_starts:
  assumes "join_thread name src dst True dt ap w = Some w'" and "src \<notin> td_src ` set (g_threads w)"
    and "trans_kind_of dt \<noteq> None"
  shows "transfers name src dst dt ap w'"
proof -
  have none: "findSameSrcPort (g_threads w) src 0 = None" using assms(2) by (simp add: findSameSrcPort_None)
  obtain k where k: "trans_kind_of dt = Some k" using assms(3) by auto
  let ?i = "length (g_threads w)" and ?td = "addDstPort dst (thread_new name src dst True dt ap)"
  let ?r = "?td\<lparr>td_isRunning := True, td_trans := Some (trans_init k name src dst dt ap), td_attached := True\<rparr>"
  have "strcpy CHNL_NAME_LEN name = Some name"
    using assms(1) none by (auto simp: join_thread_def Option.bind_eq_Some_conv strcpy_def split: if_splits)
  then have "g_threads w' = g_threads w @ [?r]"
    using assms(1) none k
    by (auto simp: join_thread_def Let_def thread_run_def thread_begin_def addDstPort_def thread_new_def)
  then show ?thesis using k
    by (auto simp: transfers_def addDstPort_def thread_new_def)
qed

lemma join_thread_keeps:
  assumes "join_thread name src dst on dt ap w = Some w'" and "transfers name' s d dt' ap' w"
  shows "transfers name' s d dt' ap' w'"
proof (cases "findSameSrcPort (g_threads w) src 0")
  case (Some i)
  let ?ts = "(g_threads w)[i := addDstPort dst (g_threads w ! i)]"
  have i: "i < length (g_threads w)" using findSameSrcPort_Some [OF Some] by simp
  have w': "g_threads w' = ?ts" using assms(1) Some by (auto simp: join_thread_def)
  obtain td where td: "td \<in> set (g_threads w)" and t: "td_src td = s" "td_dst td = d" "td_isRunning td" "td_attached td"
    "\<exists>k. trans_kind_of dt' = Some k \<and> td_trans td = Some (trans_init k name' s d dt' ap')"
    using assms(2) by (auto simp: transfers_def)
  then obtain j where j: "j < length (g_threads w)" "g_threads w ! j = td" by (metis in_set_conv_nth)
  let ?td = "?ts ! j"
  have "?td \<in> set ?ts" using j by simp
  moreover have "td_src ?td = s" "td_dst ?td = d" "td_isRunning ?td" "td_attached ?td"
    "\<exists>k. trans_kind_of dt' = Some k \<and> td_trans ?td = Some (trans_init k name' s d dt' ap')"
    using t j by (cases "j = i"; simp add: addDstPort_def)+
  ultimately show ?thesis unfolding transfers_def w' by blast
next
  case None
  let ?i = "length (g_threads w)"
  have "\<exists>td. g_threads w' = g_threads w @ [td]"
    using assms(1) None
    by (auto simp: join_thread_def Let_def thread_run_def thread_begin_def Option.bind_eq_Some_conv split: option.splits)
  then show ?thesis using assms(2) by (auto simp: transfers_def)
qed

text \<open>Attaching transfers does not change the names of the ports, so the same ports are found.\<close>

lemma nth_behind: "length xs \<le> i \<Longrightarrow> xs ! i = [] ! (i - length xs)"
proof (induction xs arbitrary: i)
  case (Cons x xs)
  then show ?case by (cases i) simp_all
qed simp

lemma find_dev_port_names:
  assumes "map portName ps = map portName ps'"
  shows "find_dev_port devs ps dev pn = find_dev_port devs ps' dev pn"
proof -
  have l: "length ps = length ps'" using assms by (rule map_eq_imp_length_eq)
  have "portName (ps ! i) = portName (ps' ! i)" for i
  proof (cases "i < length ps")
    case True
    then show ?thesis using arg_cong [OF assms, of "\<lambda>xs. xs ! i"] l by simp
  next
    case False
    then show ?thesis using nth_behind [of ps i] nth_behind [of ps' i] l by simp
  qed
  then show ?thesis
    by (simp add: find_dev_port_def cdev_find_def cdev_find_mode_ports port_find_def split: option.split)
qed

lemma map_update_id: "f y = f (xs ! i) \<Longrightarrow> map f (xs[i := y]) = map f xs"
  by (cases "i < length xs") (simp_all add: map_update_same list_update_beyond not_less)

lemma join_thread_names:
  "join_thread name src dst on dt ap w = Some w' \<Longrightarrow> map portName (g_ports w') = map portName (g_ports w)"
proof -
  have b: "map portName (g_ports (thread_begin i w)) = map portName (g_ports w)" for i and w :: "'a world"
    by (simp add: thread_begin_def Let_def map_update_id port_attach_def split: option.splits)
  show "join_thread name src dst on dt ap w = Some w' \<Longrightarrow> map portName (g_ports w') = map portName (g_ports w)"
    by (auto simp: join_thread_def Let_def thread_run_def b Option.bind_eq_Some_conv split: option.splits)
qed

lemma runInThread_names:
  "runInThread devs c p w = Some (r, w') \<Longrightarrow> map portName (g_ports w') = map portName (g_ports w)"
  by (auto simp: runInThread_def Option.bind_eq_Some_conv dest!: join_thread_names split: if_splits option.splits)

text \<open>What a channel asks for, on given devices and ports: its source, its destination.\<close>

definition chnl_ends :: "devmgr \<Rightarrow> port list \<Rightarrow> chnl_prop \<Rightarrow> nat \<Rightarrow> nat \<Rightarrow> bool" where
  "chnl_ends devs ps p src dst \<longleftrightarrow> find_dev_port devs ps (cp_srcDevName p) (cp_srcPortName p) = Some src
     \<and> find_dev_port devs ps (cp_dstDevName p) (cp_dstPortName p) = Some dst"

definition forward_ap :: "chnl_prop \<Rightarrow> int" where
  "forward_ap p = (if cp_ap_process p = 1 \<or> cp_ap_process p = 3 then 1 else 0)"

definition backward_ap :: "chnl_prop \<Rightarrow> int" where
  "backward_ap p = (if cp_ap_process p = 2 \<or> cp_ap_process p = 3 then 1 else 0)"

lemma runInThread_joins:
  assumes "ch_bEnable c" and "cp_act p \<noteq> WORK_MODE_UNKNOW" and "chnl_ends devs (g_ports w) p src dst"
  shows "runInThread devs c p w = do {
      w1 \<leftarrow> join_thread (cp_name p) src dst (cp_enable p \<noteq> 0) (cp_dataType p) (forward_ap p) w;
      (if cp_act p = WORK_MODE_F
       then do {
         w2 \<leftarrow> join_thread (cp_name p @ cs ''-R'') dst src (cp_enable p \<noteq> 0) (cp_dataType p) (backward_ap p) w1;
         Some (True, w2)
       }
       else Some (True, w1))
    }"
  using assms by (cases "cp_act p") (simp_all add: runInThread_def chnl_ends_def forward_ap_def backward_ap_def)

lemma runInThread_serves:
  assumes "ch_bEnable c" and "cp_act p \<noteq> WORK_MODE_UNKNOW" and "chnl_ends devs (g_ports w) p src dst"
    and "one_reader w" and "runInThread devs c p w = Some (r, w')"
  shows "serves src dst w' \<and> (cp_act p = WORK_MODE_F \<longrightarrow> serves dst src w')"
  using assms(4,5) unfolding runInThread_joins [OF assms(1-3)]
  by (auto simp: Option.bind_eq_Some_conv dest!: join_thread_facts split: if_splits)

lemma runInThread_facts:
  assumes "runInThread devs c p w = Some (r, w')" and "one_reader w"
  shows "one_reader w' \<and> (\<forall>s d. serves s d w \<longrightarrow> serves s d w')"
  using assms
  by (auto simp: runInThread_def Option.bind_eq_Some_conv split: if_splits option.splits
      dest!: join_thread_facts)

lemma chnl_run_loop_facts:
  "chnl_run_loop devs c ps w = Some w' \<Longrightarrow> one_reader w \<Longrightarrow>
   one_reader w' \<and> (\<forall>s d. serves s d w \<longrightarrow> serves s d w')"
proof (induction ps arbitrary: w)
  case (Cons p ps)
  then obtain r w1 where w1: "runInThread devs c p w = Some (r, w1)" "chnl_run_loop devs c ps w1 = Some w'"
    by (auto simp: Option.bind_eq_Some_conv)
  then show ?case using runInThread_facts [OF w1(1) Cons.prems(2)] Cons.IH [OF w1(2)] by blast
qed simp

lemma chnl_run_loop_serves:
  "chnl_run_loop devs c ps w = Some w' \<Longrightarrow> one_reader w \<Longrightarrow> ch_bEnable c \<Longrightarrow> p \<in> set ps \<Longrightarrow>
   cp_act p \<noteq> WORK_MODE_UNKNOW \<Longrightarrow> chnl_ends devs (g_ports w) p src dst \<Longrightarrow>
   serves src dst w' \<and> (cp_act p = WORK_MODE_F \<longrightarrow> serves dst src w')"
proof (induction ps arbitrary: w)
  case (Cons q ps)
  then obtain r w1 where w1: "runInThread devs c q w = Some (r, w1)" "chnl_run_loop devs c ps w1 = Some w'"
    by (auto simp: Option.bind_eq_Some_conv)
  have one: "one_reader w1" using runInThread_facts [OF w1(1) Cons.prems(2)] by blast
  show ?case
  proof (cases "p = q")
    case True
    then have "serves src dst w1 \<and> (cp_act p = WORK_MODE_F \<longrightarrow> serves dst src w1)"
      using runInThread_serves [OF Cons.prems(3,5,6,2)] w1(1) by blast
    then show ?thesis using chnl_run_loop_facts [OF w1(2) one] by blast
  next
    case False
    then have "p \<in> set ps" using Cons.prems(4) by simp
    moreover have "chnl_ends devs (g_ports w1) p src dst"
      using Cons.prems(6) find_dev_port_names [OF runInThread_names [OF w1(1)]] by (simp add: chnl_ends_def)
    ultimately show ?thesis using Cons.IH [OF w1(2) one Cons.prems(3) _ Cons.prems(5)] by blast
  qed
qed simp

section \<open>Properties\<close>

text \<open>C19 (starting channels): when no port is read by two threads, none is after \<open>run\<close> of a boot mode,
  however many channels the mode has; every connection that existed before still does; and every
  channel of the mode (the first of that name, when it is enabled) whose devices and ports exist is
  connected: some thread reads its source and has its destination in its list, and for a two-way
  channel also the other way round.\<close>

theorem chnlmgr_run_one_reader:
  assumes "chnlmgr_run devs ms bootmode w = Some w'" and "one_reader w"
  shows "one_reader w' \<and> (\<forall>s d. serves s d w \<longrightarrow> serves s d w')
    \<and> (\<forall>i p src dst. chnlmgr_find ms bootmode = Some i \<and> ch_bEnable (ms ! i) \<and> p \<in> set (ch_list (ms ! i))
         \<and> cp_act p \<noteq> WORK_MODE_UNKNOW \<and> chnl_ends devs (g_ports w) p src dst
         \<longrightarrow> serves src dst w' \<and> (cp_act p = WORK_MODE_F \<longrightarrow> serves dst src w'))"
proof (cases "chnlmgr_find ms bootmode")
  case None
  then show ?thesis using assms by (simp add: chnlmgr_run_def)
next
  case (Some i)
  then have r: "chnl_run_loop devs (ms ! i) (ch_list (ms ! i)) w = Some w'"
    using assms(1) by (simp add: chnlmgr_run_def chnl_run_def)
  show ?thesis using chnl_run_loop_facts [OF r assms(2)] chnl_run_loop_serves [OF r assms(2)] Some by auto
qed

definition sample_prop :: chnl_prop where
  "sample_prop = \<lparr>cp_name = cs ''C'', cp_srcDevName = cs ''pc'', cp_srcPortName = cs ''COM'',
     cp_dstDevName = cs ''modem'', cp_dstPortName = cs ''COM'', cp_act = WORK_MODE_F, cp_dataType = DATA_LOG,
     cp_enable = 1, cp_ap_process = 1, cp_reserved = [], cp_desc = []\<rparr>"

definition sample_chnl :: chnl where
  "sample_chnl = \<lparr>ch_bootMode = cs ''normal'', ch_list = [sample_prop], ch_bEnable = True\<rparr>"

text \<open>Two devices with one port each, and no thread yet.\<close>

definition sample_devs :: devmgr where
  "sample_devs = [sample_dev, sample_dev\<lparr>d_devName := cs ''modem'',
     m_BMDevList := [\<lparr>bm_bootmode = cs ''normal'', bm_portList = [1]\<rparr>]\<rparr>]"

definition quiet_world :: "unit world" where
  "quiet_world = (sample_world (sample_thread KLog DATA_LOG 0) [])\<lparr>g_threads := []\<rparr>"

lemma quiet_world_sel:
  "g_threads quiet_world = []" "g_ports quiet_world = [opened sample_port, opened sample_port]" "one_reader quiet_world"
  by (simp_all add: quiet_world_def sample_world_def one_reader_def)

lemma sample_ends: "chnl_ends sample_devs (g_ports quiet_world) sample_prop 0 1"
  by (simp add: chnl_ends_def sample_prop_def find_dev_port_def devmgr_find_def cdev_getname_def sample_devs_def
      sample_dev_def cdev_find_def cdev_find_mode_def port_find_def sample_port_defs strncaseeq_def
      quiet_world_def sample_world_def strcaseeq_def lower_def)

text \<open>C18 (one channel): when the devices and ports of an enabled channel exist, and no port is read by
  two threads, \<open>runInThread\<close> succeeds, still no port is read by two threads, and afterwards some thread
  reads the channel's source and has its destination in its list, and for a two-way channel another
  does the same the other way round. When the channel is switched on and its data type has a
  transfer class, each direction whose source no thread read before also runs: its thread is started
  and registered, with a new transfer object of that class from the source to the destination (for a
  channel from a port to itself there is one direction only). Where another thread reads the source
  already, the destination is only added to that thread's list.\<close>

theorem runInThread_connects:
  assumes "ch_bEnable c" and "cp_act p \<noteq> WORK_MODE_UNKNOW" and "chnl_ends devs (g_ports w) p src dst"
    and "length (cp_name p) < 126" and "one_reader w"
  shows "\<exists>w'. runInThread devs c p w = Some (True, w') \<and> one_reader w' \<and> serves src dst w'
    \<and> (cp_act p = WORK_MODE_F \<longrightarrow> serves dst src w')
    \<and> (cp_enable p \<noteq> 0 \<and> trans_kind_of (cp_dataType p) \<noteq> None \<longrightarrow>
        (src \<notin> td_src ` set (g_threads w) \<longrightarrow> transfers (cp_name p) src dst (cp_dataType p) (forward_ap p) w')
      \<and> (cp_act p = WORK_MODE_F \<and> dst \<noteq> src \<and> dst \<notin> td_src ` set (g_threads w) \<longrightarrow>
          transfers (cp_name p @ cs ''-R'') dst src (cp_dataType p) (backward_ap p) w'))"
proof -
  have len: "length (cp_name p) < CHNL_NAME_LEN" "length (cp_name p @ cs ''-R'') < CHNL_NAME_LEN"
    using assms(4) by (simp_all add: CHNL_NAME_LEN_def)
  let ?on = "cp_enable p \<noteq> 0" and ?dt = "cp_dataType p"
  obtain w1 where w1: "join_thread (cp_name p) src dst ?on ?dt (forward_ap p) w = Some w1"
    using join_thread_Some [OF len(1)] by blast
  obtain w2 where w2: "join_thread (cp_name p @ cs ''-R'') dst src ?on ?dt (backward_ap p) w1 = Some w2"
    using join_thread_Some [OF len(2)] by blast
  note f1 = join_thread_facts [OF w1 assms(5)] and srcs = join_thread_srcs [OF w1]
  note f2 = join_thread_facts [OF w2 conjunct1 [OF f1]]
  have s1: "transfers (cp_name p) src dst ?dt (forward_ap p) w1"
    if "?on" "trans_kind_of ?dt \<noteq> None" "src \<notin> td_src ` set (g_threads w)"
    using join_thread_starts [of "cp_name p" src dst ?dt "forward_ap p" w w1] w1 that by simp
  have s2: "transfers (cp_name p @ cs ''-R'') dst src ?dt (backward_ap p) w2"
    if "?on" "trans_kind_of ?dt \<noteq> None" "dst \<noteq> src" "dst \<notin> td_src ` set (g_threads w)"
    using join_thread_starts [of "cp_name p @ cs ''-R''" dst src ?dt "backward_ap p" w1 w2] w2 srcs that by auto
  note run = runInThread_joins [OF assms(1-3)]
  show ?thesis
  proof (cases "cp_act p = WORK_MODE_F")
    case True
    then have "runInThread devs c p w = Some (True, w2)" using w1 w2 by (simp add: run)
    then show ?thesis using f1 f2 s1 s2 join_thread_keeps [OF w2] by blast
  next
    case False
    then have "runInThread devs c p w = Some (True, w1)" using w1 by (simp add: run)
    then show ?thesis using f1 s1 False by blast
  qed
qed

theorem runInThread_connects_witness:
  "\<exists>w'. runInThread sample_devs sample_chnl sample_prop quiet_world = Some (True, w') \<and> serves 0 1 w' \<and> serves 1 0 w'
     \<and> transfers (cs ''C'') 0 1 DATA_LOG 1 w' \<and> transfers (cs ''C-R'') 1 0 DATA_LOG 0 w'"
  using runInThread_connects [OF _ _ sample_ends _ quiet_world_sel(3), of sample_chnl]
  by (auto simp: sample_chnl_def sample_prop_def quiet_world_sel forward_ap_def backward_ap_def)

theorem chnlmgr_run_one_reader_witness:
  "\<exists>w'. chnlmgr_run sample_devs [sample_chnl] (cs ''normal'') quiet_world = Some w'
     \<and> one_reader w' \<and> serves 0 1 w' \<and> serves 1 0 w'"
proof -
  have f: "chnlmgr_find [sample_chnl] (cs ''normal'') = Some 0"
    by (simp add: chnlmgr_find_def chnl_getname_def sample_chnl_def strcaseeq_def lower_def)
  have j: "\<exists>w'. join_thread (cp_name sample_prop) 0 1 True DATA_LOG 1 w = Some w'"
    "\<exists>w'. join_thread (cp_name sample_prop @ cs ''-R'') 1 0 True DATA_LOG 0 w = Some w'" for w :: "unit world"
    by (rule join_thread_Some; simp add: sample_prop_def CHNL_NAME_LEN_def)+
  obtain w1 where w1: "join_thread (cp_name sample_prop) 0 1 True DATA_LOG 1 quiet_world = Some w1" using j(1) by blast
  obtain w2 where w2: "join_thread (cp_name sample_prop @ cs ''-R'') 1 0 True DATA_LOG 0 w1 = Some w2" using j(2) by blast
  have l: "ch_list sample_chnl = [sample_prop]" by (simp add: sample_chnl_def)
  have v: "(cp_enable sample_prop \<noteq> 0) = True" "cp_dataType sample_prop = DATA_LOG" "cp_act sample_prop = WORK_MODE_F"
    "forward_ap sample_prop = 1" "backward_ap sample_prop = 0" "ch_bEnable sample_chnl"
    by (simp_all add: sample_prop_def sample_chnl_def forward_ap_def backward_ap_def)
  have "runInThread sample_devs sample_chnl sample_prop quiet_world = Some (True, w2)"
    using runInThread_joins [OF v(6) _ sample_ends] w1 w2 by (simp add: v)
  then obtain w' where w': "chnlmgr_run sample_devs [sample_chnl] (cs ''normal'') quiet_world = Some w'"
    unfolding chnlmgr_run_def f using l by (simp add: chnl_run_def)
  have c: "ch_bEnable ([sample_chnl] ! 0)" "sample_prop \<in> set (ch_list ([sample_chnl] ! 0))"
    "cp_act sample_prop = WORK_MODE_F" "cp_act sample_prop \<noteq> WORK_MODE_UNKNOW"
    by (simp_all add: sample_chnl_def sample_prop_def)
  note r = chnlmgr_run_one_reader [OF w' quiet_world_sel(3)]
  have "serves 0 1 w' \<and> (cp_act sample_prop = WORK_MODE_F \<longrightarrow> serves 1 0 w')"
    using r f c(1,2,4) sample_ends by blast
  then show ?thesis using conjunct1 [OF r] c(3) w' by blast
qed

text \<open>(finding a channel by name): the comparison in \<open>CChnl::find\<close> is inverted: it returns the
  first channel whose name differs from the one asked for, so \<open>enable(name, ...)\<close> switches a different
  channel, and reports failure when all channels have the name.\<close>

theorem chnl_find_inverted:
  "(\<forall>i. chnl_find c name = Some i \<longrightarrow> i < length (ch_list c) \<and> \<not> strcaseeq (cp_name (ch_list c ! i)) name)
   \<and> (list_all (\<lambda>p. strcaseeq (cp_name p) name) (ch_list c) \<longrightarrow> chnl_enable_name name on c = (False, c))"
proof -
  have s: "n \<le> i \<and> i - n < length ps \<and> \<not> strcaseeq (cp_name (ps ! (i - n))) name"
    if "chnl_find_from ps name n = Some i" for ps n i
    using that
  proof (induction ps arbitrary: n)
    case (Cons p ps)
    show ?case
    proof (cases "strcaseeq (cp_name p) name")
      case True
      then have "chnl_find_from ps name (Suc n) = Some i" using Cons.prems by simp
      from Cons.IH [OF this] show ?thesis by (auto simp: nth_Cons')
    qed (use Cons.prems in auto)
  qed simp
  have "chnl_find_from ps name n = None" if "list_all (\<lambda>p. strcaseeq (cp_name p) name) ps" for ps n
    using that by (induction ps arbitrary: n) auto
  then show ?thesis using s [of _ 0] by (auto simp: chnl_find_def chnl_enable_name_def)
qed

theorem chnl_find_inverted_witness:
  "chnl_enable_name (cs ''C'') False sample_chnl = (False, sample_chnl)"
  using chnl_find_inverted [of sample_chnl "cs ''C''" False] by (simp add: sample_chnl_def sample_prop_def)

end
