(* ===== verification/Adapter.thy ===== *)
theory Adapter
  imports Device
begin

text \<open>
  The operating-system adapter of the Android build (\<open>server/adapt/adapter.cpp\<close>,
  \<open>server/adapt/android/os_adapter.cpp\<close>) and the parts of the other builds' adapters that differ
  (\<open>server/adapt/miniap\<close>): which paths of the device tree exist, switching the USB port, and the
  system properties that hold the destinations of the modem and WCN logs. The property service and
  the files of the kernel are not part of the repository: the service is a parameter (record
  \<open>prop_service\<close>) with its documented behaviour as the hypothesis \<open>prop_laws\<close>, the files are input data of
  the record \<open>sys\<close>, and every \<open>property_set\<close> and every write to such a file is recorded there.
\<close>

section \<open>The platform\<close>

record 'p prop_service =
  ps_get :: "byte list \<Rightarrow> 'p \<Rightarrow> byte list"              \<comment> \<open>empty when the property is not set\<close>
  ps_set :: "byte list \<Rightarrow> byte list \<Rightarrow> 'p \<Rightarrow> 'p"

record 'p sys =
  y_prop :: 'p
  y_sets :: "(byte list \<times> byte list) list"        \<comment> \<open>all calls of \<open>property_set\<close>, in order\<close>
  y_exists :: "byte list \<Rightarrow> bool"                  \<comment> \<open>\<open>access(path, F_OK) == 0\<close>\<close>
  y_wopen :: "byte list \<Rightarrow> bool"                   \<comment> \<open>\<open>open(path, O_WRONLY)\<close> succeeds\<close>
  y_wret :: "byte list \<Rightarrow> int"                     \<comment> \<open>what \<open>write\<close> to the path returns\<close>
  y_read :: "byte list \<Rightarrow> (int \<times> byte list) option"  \<comment> \<open>opening and reading the path\<close>
  y_written :: "(byte list \<times> byte list) list"
  y_usb :: "nat \<Rightarrow> byte list"                       \<comment> \<open>the USB state property, poll by poll\<close>

definition property_get :: "'p prop_service \<Rightarrow> byte list \<Rightarrow> byte list \<Rightarrow> 'p sys \<Rightarrow> byte list" where
  "property_get pf key dflt s = (let v = ps_get pf key (y_prop s) in if v = [] then dflt else v)"

definition property_set :: "'p prop_service \<Rightarrow> byte list \<Rightarrow> byte list \<Rightarrow> 'p sys \<Rightarrow> 'p sys" where
  "property_set pf key v s = s\<lparr>y_prop := ps_set pf key v (y_prop s), y_sets := y_sets s @ [(key, v)]\<rparr>"

text \<open>Documented behaviour of the property service: setting a property changes no other one; and a
  property that may be set has the value it was set to, when that is shorter than \<open>PROPERTY_VALUE_MAX\<close>
  and the property is not a read-only one (\<open>ro.\<close>). The service refuses everything else, and the
  callers do not look at the result of \<open>property_set\<close>. Which properties may be set (well-formed names
  the platform's policy lets this process change) is the parameter \<open>may\<close>.\<close>

definition PROPERTY_VALUE_MAX :: nat where "PROPERTY_VALUE_MAX = 92"

definition settable :: "(byte list \<Rightarrow> bool) \<Rightarrow> byte list \<Rightarrow> byte list \<Rightarrow> bool" where
  "settable may k v \<longleftrightarrow> may k \<and> take 3 k \<noteq> cs ''ro.'' \<and> length v < PROPERTY_VALUE_MAX"

definition prop_laws :: "(byte list \<Rightarrow> bool) \<Rightarrow> 'p prop_service \<Rightarrow> bool" where
  "prop_laws may pf \<longleftrightarrow>
     (\<forall>k v p. (settable may k v \<longrightarrow> ps_get pf k (ps_set pf k v p) = v)
        \<and> (\<forall>k'. k' \<noteq> k \<longrightarrow> ps_get pf k' (ps_set pf k v p) = ps_get pf k' p))"

definition file_write :: "byte list \<Rightarrow> byte list \<Rightarrow> 'p sys \<Rightarrow> 'p sys" where
  "file_write path bs s = s\<lparr>y_written := y_written s @ [(path, bs)]\<rparr>"

section \<open>Paths\<close>

definition SYS_CLASS_ANDUSB_ENABLE :: "byte list" where
  "SYS_CLASS_ANDUSB_ENABLE = cs ''/sys/class/android_usb/android0/enable''"
definition SYS_CLASS_ANDUSB_ENABLE_NEW :: "byte list" where
  "SYS_CLASS_ANDUSB_ENABLE_NEW = cs ''/config/usb_gadget/g1/UDC''"
definition SYS_CLASS_ANDUSB_STATE :: "byte list" where
  "SYS_CLASS_ANDUSB_STATE = cs ''/sys/class/android_usb/android0/state''"
definition DEVICE_SOC_USB_MAXIMUM_SPEED :: "byte list" where
  "DEVICE_SOC_USB_MAXIMUM_SPEED = cs ''sys/devices/platform/soc/soc:ap-ahb/20200000.usb/maximum_speed''"
definition DEVICE_SOC_USB_MAXIMUM_SPEED_NEW :: "byte list" where
  "DEVICE_SOC_USB_MAXIMUM_SPEED_NEW = cs ''/sys/devices/platform/soc/soc:aon/5fff0000.usb/maximum_speed''"
definition CHARGER_STOP_PATH :: "byte list" where
  "CHARGER_STOP_PATH = cs ''/sys/class/power_supply/battery/stop_charge''"
definition CHARGER_STOP_NEW_PATH :: "byte list" where
  "CHARGER_STOP_NEW_PATH = cs ''/sys/class/power_supply/battery/charger.0/stop_charge''"

definition OS_usb_getEnablePath :: "'p sys \<Rightarrow> byte list option" where
  "OS_usb_getEnablePath s =
     (if y_exists s SYS_CLASS_ANDUSB_ENABLE then Some SYS_CLASS_ANDUSB_ENABLE
      else if y_exists s SYS_CLASS_ANDUSB_ENABLE_NEW then Some SYS_CLASS_ANDUSB_ENABLE_NEW
      else None)"

definition OS_usb_getMaxSpeedPath :: "'p sys \<Rightarrow> byte list option" where
  "OS_usb_getMaxSpeedPath s =
     (if y_exists s DEVICE_SOC_USB_MAXIMUM_SPEED then Some DEVICE_SOC_USB_MAXIMUM_SPEED
      else if y_exists s DEVICE_SOC_USB_MAXIMUM_SPEED_NEW then Some DEVICE_SOC_USB_MAXIMUM_SPEED_NEW
      else None)"

definition OS_usb_getStatePath :: "'p sys \<Rightarrow> byte list option" where
  "OS_usb_getStatePath s = (if y_exists s SYS_CLASS_ANDUSB_STATE then Some SYS_CLASS_ANDUSB_STATE else None)"

definition OS_getChargeStopPath :: "'p sys \<Rightarrow> byte list option" where
  "OS_getChargeStopPath s =
     (if y_exists s CHARGER_STOP_PATH then Some CHARGER_STOP_PATH
      else if y_exists s CHARGER_STOP_NEW_PATH then Some CHARGER_STOP_NEW_PATH
      else None)"

section \<open>USB\<close>

text \<open>Both fill a caller's array of \<open>n\<close> bytes; \<open>OS_usb_getEnableCmd\<close> by \<open>strcpy\<close>.\<close>

definition OS_usb_getEnableCmd :: "'p prop_service \<Rightarrow> nat \<Rightarrow> 'p sys \<Rightarrow> byte list option" where
  "OS_usb_getEnableCmd pf n s =
     (let cmd = property_get pf (cs ''sys.usb.controller'') (cs ''not_find'') s in
      if cmd = cs ''not_find'' then strcpy n (cs ''1'') else strcpy n cmd)"

definition OS_usb_getConf :: "'p prop_service \<Rightarrow> 'p sys \<Rightarrow> byte list" where
  "OS_usb_getConf pf s = property_get pf (cs ''persist.vendor.sys.modem.diag'') (cs ''none'') s"

definition OS_is_data_dir_ready :: "'p prop_service \<Rightarrow> 'p sys \<Rightarrow> bool" where
  "OS_is_data_dir_ready pf s =
     (if property_get pf (cs ''ro.crypto.type'') [] s = cs ''block''
         \<and> property_get pf (cs ''ro.crypto.state'') [] s = cs ''encrypted''
      then property_get pf (cs ''vold.decrypt'') [] s = cs ''trigger_restart_framework''
      else False)"

definition android_set_vendor_bootmode :: "'p prop_service \<Rightarrow> 'p sys \<Rightarrow> 'p sys" where
  "android_set_vendor_bootmode pf s =
     property_set pf (cs ''vendor.ro.bootmode'') (property_get pf (cs ''ro.bootmode'') [] s) s"

text \<open>The loop of \<open>wait_for_usbenum_succ\<close> after \<open>i\<close> polls, with \<open>try_cnt\<close> left.\<close>

fun usbenum_loop :: "nat \<Rightarrow> (nat \<Rightarrow> byte list) \<Rightarrow> byte list \<Rightarrow> nat \<Rightarrow> int" where
  "usbenum_loop try_cnt seen state i =
     (if (if seen i = [] then cs ''not_find'' else seen i) = state then 0
      else case try_cnt of 0 \<Rightarrow> - 1 | Suc n \<Rightarrow> usbenum_loop n seen state (Suc i))"

definition wait_for_usbenum_succ :: "'p sys \<Rightarrow> int \<Rightarrow> byte list option \<Rightarrow> int" where
  "wait_for_usbenum_succ s timeout state =
     (case state of None \<Rightarrow> - 1
      | Some st \<Rightarrow> if timeout \<le> 0 then - 1 else usbenum_loop (nat timeout) (y_usb s) st 0)"

definition PROP_USB_CONFIG :: "byte list" where "PROP_USB_CONFIG = cs ''sys.usb.config''"
definition USB_CONFIG_VSER :: "byte list" where "USB_CONFIG_VSER = cs ''vser''"
definition USB_CONFIG_VSER_GSER :: "byte list" where "USB_CONFIG_VSER_GSER = cs ''adb,vser,gser''"

text \<open>The state property's value is only logged, so the two waits have no effect on the state.\<close>

definition OS_usb_vser_enable :: "'p prop_service \<Rightarrow> int \<Rightarrow> 'p sys \<Rightarrow> 'p sys option" where
  "OS_usb_vser_enable pf mode s =
     (let s1 = android_set_vendor_bootmode pf s in
      if mode = 0 \<or> mode = 2 then Some (property_set pf PROP_USB_CONFIG USB_CONFIG_VSER s1)
      else if mode = 1 then
        (case OS_usb_getEnablePath s1 of
           None \<Rightarrow> Some s1
         | Some path \<Rightarrow> do {
             cmd \<leftarrow> OS_usb_getEnableCmd pf 64 s1;
             Some (if y_wopen s1 path then file_write path cmd s1 else s1)
           })
      else Some s1)"

section \<open>Log destinations\<close>

definition PROP_MODEM_LOG_DEST :: "byte list" where "PROP_MODEM_LOG_DEST = cs ''persist.vendor.modem.log_dest''"
definition PROP_WCN_LOG_DEST :: "byte list" where "PROP_WCN_LOG_DEST = cs ''persist.vendor.wcn.log_dest''"
definition PROP_RESTART_SELF :: "byte list" where "PROP_RESTART_SELF = cs ''vendor.flag.engpc.restart''"

text \<open>The first byte of the location array; \<open>loc\<close> is what it held before the call. The array is
  written back as the string it holds: one byte, or none when that byte is 0.\<close>

definition OS_sys_getlogdest :: "'p prop_service \<Rightarrow> byte \<Rightarrow> byte \<Rightarrow> 'p sys \<Rightarrow> byte" where
  "OS_sys_getlogdest pf log_type loc s =
     (if log_type = 49 then hd (property_get pf PROP_MODEM_LOG_DEST (cs ''not_find'') s)
      else if log_type = 50 then hd (property_get pf PROP_WCN_LOG_DEST (cs ''not_find'') s)
      else loc)"

definition OS_sys_setlogdest :: "'p prop_service \<Rightarrow> byte \<Rightarrow> byte \<Rightarrow> 'p sys \<Rightarrow> 'p sys" where
  "OS_sys_setlogdest pf log_type loc s =
     (let v = (if loc = 0 then [] else [loc]) in
      if log_type = 49 then property_set pf PROP_MODEM_LOG_DEST v s
      else if log_type = 50 then property_set pf PROP_WCN_LOG_DEST v s
      else s)"

definition OS_sys_restart_self :: "'p prop_service \<Rightarrow> 'p sys \<Rightarrow> 'p sys" where
  "OS_sys_restart_self pf s =
     property_set pf PROP_RESTART_SELF (cs ''0'') (property_set pf PROP_RESTART_SELF (cs ''1'') s)"

text \<open>The miniap build keeps no destination: every log is at the PC, and setting it does nothing.\<close>

definition miniap_sys_getlogdest :: "byte \<Rightarrow> byte \<Rightarrow> byte" where
  "miniap_sys_getlogdest log_type loc = (if log_type = 49 then 49 else if log_type = 50 then 49 else loc)"

definition miniap_sys_setlogdest :: "byte \<Rightarrow> byte \<Rightarrow> 'p sys \<Rightarrow> 'p sys" where
  "miniap_sys_setlogdest log_type loc s = s"

subsection \<open>Facts\<close>

lemma ex_le_Suc: "(\<exists>j \<le> Suc n. Q j) \<longleftrightarrow> Q 0 \<or> (\<exists>j \<le> n. Q (Suc j))"
proof
  assume "\<exists>j \<le> Suc n. Q j"
  then obtain j where "j \<le> Suc n" "Q j" by blast
  then show "Q 0 \<or> (\<exists>j \<le> n. Q (Suc j))" by (cases j) auto
qed auto

lemma usbenum_loop_spec:
  "usbenum_loop n seen state i = 0 \<longleftrightarrow>
    (\<exists>j \<le> n. (if seen (i + j) = [] then cs ''not_find'' else seen (i + j)) = state)"
proof (induction n arbitrary: i)
  case (Suc n)
  have "usbenum_loop (Suc n) seen state i = 0 \<longleftrightarrow>
      (if seen i = [] then cs ''not_find'' else seen i) = state \<or> usbenum_loop n seen state (Suc i) = 0"
    by (simp del: cs_simps)
  then show ?case unfolding Suc.IH ex_le_Suc by (simp del: cs_simps)
qed (simp del: cs_simps)

lemma PROP_LOG_DEST_neq [simp]: "PROP_MODEM_LOG_DEST \<noteq> PROP_WCN_LOG_DEST" "PROP_WCN_LOG_DEST \<noteq> PROP_MODEM_LOG_DEST"
  by (simp_all add: PROP_MODEM_LOG_DEST_def PROP_WCN_LOG_DEST_def)

lemma prop_laws_same: "prop_laws may pf \<Longrightarrow> settable may k v \<Longrightarrow> ps_get pf k (ps_set pf k v p) = v"
  and prop_laws_other: "prop_laws may pf \<Longrightarrow> k' \<noteq> k \<Longrightarrow> ps_get pf k' (ps_set pf k v p) = ps_get pf k' p"
  by (simp_all add: prop_laws_def)

text \<open>The service lets the daemon set the two log destinations.\<close>

definition log_props :: "'p prop_service \<Rightarrow> bool" where
  "log_props pf \<longleftrightarrow> (\<exists>may. prop_laws may pf \<and> may PROP_MODEM_LOG_DEST \<and> may PROP_WCN_LOG_DEST)"

lemma log_props_same:
  assumes "log_props pf" and "length v < PROPERTY_VALUE_MAX"
  shows "ps_get pf PROP_MODEM_LOG_DEST (ps_set pf PROP_MODEM_LOG_DEST v p) = v"
    and "ps_get pf PROP_WCN_LOG_DEST (ps_set pf PROP_WCN_LOG_DEST v p) = v"
proof -
  obtain may where m: "prop_laws may pf" "may PROP_MODEM_LOG_DEST" "may PROP_WCN_LOG_DEST"
    using assms(1) by (auto simp: log_props_def)
  then have "settable may PROP_MODEM_LOG_DEST v" "settable may PROP_WCN_LOG_DEST v"
    using assms(2) by (simp_all add: settable_def PROP_MODEM_LOG_DEST_def PROP_WCN_LOG_DEST_def)
  then show "ps_get pf PROP_MODEM_LOG_DEST (ps_set pf PROP_MODEM_LOG_DEST v p) = v"
    "ps_get pf PROP_WCN_LOG_DEST (ps_set pf PROP_WCN_LOG_DEST v p) = v"
    by (simp_all add: prop_laws_same [OF m(1)])
qed

lemma log_props_other: "log_props pf \<Longrightarrow> k' \<noteq> k \<Longrightarrow> ps_get pf k' (ps_set pf k v p) = ps_get pf k' p"
  by (auto simp: log_props_def prop_laws_other)

lemma getlogdest_set:
  assumes "log_props pf" and "loc \<noteq> 0" and "t = 49 \<or> t = 50"
  shows "OS_sys_getlogdest pf t x (OS_sys_setlogdest pf t loc s) = loc"
proof -
  have "length [loc] < PROPERTY_VALUE_MAX" by (simp add: PROPERTY_VALUE_MAX_def)
  then show ?thesis using assms log_props_same [OF assms(1), of "[loc]"]
    by (auto simp: OS_sys_getlogdest_def OS_sys_setlogdest_def property_set_def property_get_def Let_def)
qed

lemma getlogdest_set_other:
  assumes "log_props pf" and "t \<noteq> t'"
  shows "OS_sys_getlogdest pf t' x (OS_sys_setlogdest pf t loc s) = OS_sys_getlogdest pf t' x s"
  using assms(2) by (auto simp: OS_sys_getlogdest_def OS_sys_setlogdest_def property_set_def property_get_def
      log_props_other [OF assms(1)] Let_def)

section \<open>A platform for the examples\<close>

definition sample_prop_service :: "(byte list \<Rightarrow> byte list) prop_service" where
  "sample_prop_service = \<lparr>ps_get = \<lambda>k p. p k, ps_set = \<lambda>k v p. p(k := v)\<rparr>"

definition sample_sys :: "(byte list \<Rightarrow> byte list) sys" where
  "sample_sys = \<lparr>y_prop = \<lambda>k. [49], y_sets = [], y_exists = \<lambda>p. True, y_wopen = \<lambda>p. True, y_wret = \<lambda>p. 1,
     y_read = \<lambda>p. None, y_written = [], y_usb = \<lambda>i. []\<rparr>"

lemma sample_log_props [simp]: "log_props sample_prop_service"
  by (auto simp: log_props_def prop_laws_def sample_prop_service_def intro!: exI [of _ "\<lambda>k. True"])

end
