(* ===== verification/CpCtl.thy ===== *)
theory CpCtl
  imports Channel Adapter
begin

text \<open>
  \<open>CCPCtl\<close> (\<open>server/common/cpctl.cpp\<close>): where the modem and WCN logs go. Switching a log tells the
  slogmodem server, turns the ports of the device on or off and stores the destination; it is asked
  for by the AT command \<open>AT+SPATCPLOG\<close> and over a local socket. The second half is in theory TimeSync.
  The slogmodem server is not part of the repository: how it treats each connection is input data.
\<close>

section \<open>State\<close>

text \<open>How \<open>poll\<close> and \<open>read\<close> end while the daemon waits for an answer, and how a connection goes:
  refused, \<open>fcntl\<close> fails, or \<open>write\<close> returns a number and then an answer is awaited.\<close>

datatype slog_resp = PollErr | PollTimeout | PollIn "byte list" | PollOther

datatype slog_conn = SRefused | SNoFlags | SConn int slog_resp

record ('w, 'p) cpst =
  k_world :: "'w world"
  k_devs :: devmgr
  k_sys :: "'p sys"
  k_slog :: "nat \<Rightarrow> slog_conn"   \<comment> \<open>the connections to come\<close>
  k_cmds :: "byte list list"     \<comment> \<open>what slogmodem was sent, in order\<close>

record ('w, 'p) cpenv =
  ce_prop :: "'p prop_service"
  ce_mod :: "'w mod_env"
  ce_cap :: nat

section \<open>Talking to slogmodem\<close>

definition ENABLE_WCN_LOG_CMD :: "byte list" where "ENABLE_WCN_LOG_CMD = cs ''ENABLE_LOG WCN'' @ [10]"
definition DISABLE_WCN_LOG_CMD :: "byte list" where "DISABLE_WCN_LOG_CMD = cs ''DISABLE_LOG WCN'' @ [10]"
definition ENABLE_5MODE_LOG_CMD :: "byte list" where "ENABLE_5MODE_LOG_CMD = cs ''ENABLE_LOG 5MODE'' @ [10]"
definition DISABLE_5MODE_LOG_CMD :: "byte list" where "DISABLE_5MODE_LOG_CMD = cs ''DISABLE_LOG 5MODE'' @ [10]"
definition ENABLE_AGDSP_LOG_CMD :: "byte list" where "ENABLE_AGDSP_LOG_CMD = cs ''ENABLE_LOG AG-DSP'' @ [10]"
definition DISABLE_AGDSP_LOG_CMD :: "byte list" where "DISABLE_AGDSP_LOG_CMD = cs ''DISABLE_LOG AG-DSP'' @ [10]"

fun poll_ret :: "slog_resp \<Rightarrow> int" where
  "poll_ret PollErr = - 1"
| "poll_ret PollTimeout = 0"
| "poll_ret (PollIn bs) = 1"
| "poll_ret PollOther = 1"

text \<open>\<open>get_response\<close>: an answer that is too short or wrong is logged; \<open>ret\<close> stays what \<open>poll\<close> returned.\<close>

definition get_response :: "slog_resp \<Rightarrow> int" where
  "get_response r =
     (let ret = poll_ret r in
      if ret < 0 then ret
      else case r of
        PollIn bs \<Rightarrow> if length bs < 3 \<or> take 3 bs \<noteq> cs ''OK'' @ [10] then ret else 1
      | _ \<Rightarrow> ret)"

definition notice_slogmodem :: "byte list \<Rightarrow> ('w, 'p) cpst \<Rightarrow> int \<times> ('w, 'p) cpst" where
  "notice_slogmodem cmd k =
     (let k1 = k\<lparr>k_slog := \<lambda>i. k_slog k (Suc i)\<rparr> in
      case k_slog k 0 of
        SRefused \<Rightarrow> (- 1, k1)
      | SNoFlags \<Rightarrow> (- 1, k1)
      | SConn n resp \<Rightarrow>
          (let k2 = k1\<lparr>k_cmds := k_cmds k1 @ [take (nat n) cmd]\<rparr> in
           if n \<noteq> int (length cmd) then (- 1, k2)
           else if get_response resp \<noteq> 1 then (- 1, k2)
           else (0, k2)))"

section \<open>\<open>logLocation\<close>\<close>

definition LOG_TYPE_NAME_MODEM :: byte where "LOG_TYPE_NAME_MODEM = 49"
definition LOG_TYPE_NAME_WCN :: byte where "LOG_TYPE_NAME_WCN = 50"
definition LOG_LOCATION_PC :: byte where "LOG_LOCATION_PC = 49"
definition LOG_LOCATION_TCARD :: byte where "LOG_LOCATION_TCARD = 50"
definition LOG_LOCATION_NONE :: byte where "LOG_LOCATION_NONE = 48"

lemmas log_names = LOG_TYPE_NAME_MODEM_def LOG_TYPE_NAME_WCN_def LOG_LOCATION_PC_def
  LOG_LOCATION_TCARD_def LOG_LOCATION_NONE_def

text \<open>The six inner cases have one shape: unless the log is already there, tell slogmodem, switch the
  device, store the destination, and tell slogmodem about the AG-DSP log, whose failure is only logged.\<close>

definition to_world :: "('w world \<Rightarrow> 'w world) \<Rightarrow> ('w, 'p) cpst \<Rightarrow> ('w, 'p) cpst" where
  "to_world f k = k\<lparr>k_world := f (k_world k)\<rparr>"

definition open_bqb :: "('w, 'p) cpenv \<Rightarrow> ('w, 'p) cpst \<Rightarrow> ('w, 'p) cpst option" where
  "open_bqb e k =
     (case g_mgr (k_world k) of
        None \<Rightarrow> None
      | Some m \<Rightarrow>
          (let (r, m', env') = bqb_vendor_open (me_dl (ce_mod e)) (me_bqb (ce_mod e)) m (g_env (k_world k))
           in Some (to_world (\<lambda>w. w\<lparr>g_mgr := Some m', g_env := env'\<rparr>) k)))"

definition switch_log ::
  "('w, 'p) cpenv \<Rightarrow> byte \<Rightarrow> byte \<Rightarrow> byte \<Rightarrow> byte list \<Rightarrow> (('w, 'p) cpst \<Rightarrow> ('w, 'p) cpst option)
   \<Rightarrow> byte list option \<Rightarrow> ('w, 'p) cpst \<Rightarrow> (int \<times> ('w, 'p) cpst) option" where
  "switch_log e log_type loc bufLoc cmd act agdsp k =
     (if loc \<noteq> bufLoc
      then let (r, k1) = notice_slogmodem cmd k in
           if r < 0 then Some (- 1, k1)
           else do {
             k2 \<leftarrow> act k1;
             (let k3 = k2\<lparr>k_sys := OS_sys_setlogdest (ce_prop e) log_type loc (k_sys k2)\<rparr>
              in Some (0, case agdsp of None \<Rightarrow> k3 | Some c \<Rightarrow> snd (notice_slogmodem c k3)))
           }
      else Some (- 1, k))"

definition reset_dev :: "byte list \<Rightarrow> bool \<Rightarrow> ('w, 'p) cpst \<Rightarrow> ('w, 'p) cpst option" where
  "reset_dev dev on k = Some (to_world (resetWithDevName (k_devs k) dev on) k)"

definition modem_location ::
  "('w, 'p) cpenv \<Rightarrow> byte \<Rightarrow> byte \<Rightarrow> byte \<Rightarrow> ('w, 'p) cpst \<Rightarrow> (int \<times> ('w, 'p) cpst) option" where
  "modem_location e log_type loc bufLoc k =
     (if loc = LOG_LOCATION_PC then
        switch_log e log_type loc bufLoc DISABLE_5MODE_LOG_CMD (reset_dev DEV_MODEM_NAME True) (Some DISABLE_AGDSP_LOG_CMD) k
      else if loc = LOG_LOCATION_TCARD then
        switch_log e log_type loc bufLoc ENABLE_5MODE_LOG_CMD (reset_dev DEV_MODEM_NAME False) (Some ENABLE_AGDSP_LOG_CMD) k
      else if loc = LOG_LOCATION_NONE then
        switch_log e log_type loc bufLoc DISABLE_5MODE_LOG_CMD Some (Some DISABLE_AGDSP_LOG_CMD) k
      else Some (- 1, k))"

definition wcn_location ::
  "('w, 'p) cpenv \<Rightarrow> byte \<Rightarrow> byte \<Rightarrow> byte \<Rightarrow> ('w, 'p) cpst \<Rightarrow> (int \<times> ('w, 'p) cpst) option" where
  "wcn_location e log_type loc bufLoc k =
     (if loc = LOG_LOCATION_PC then
        switch_log e log_type loc bufLoc DISABLE_WCN_LOG_CMD
          (\<lambda>k. do { k1 \<leftarrow> reset_dev DEV_WCN_NAME True k; open_bqb e k1 }) None k
      else if loc = LOG_LOCATION_TCARD then
        switch_log e log_type loc bufLoc ENABLE_WCN_LOG_CMD (reset_dev DEV_WCN_NAME False) None k
      else if loc = LOG_LOCATION_NONE then
        switch_log e log_type loc bufLoc DISABLE_WCN_LOG_CMD Some None k
      else Some (- 1, k))"

text \<open>The end of \<open>logLocation\<close>: the diag port is opened or closed when the USB configuration asks
  for it, and the daemon has itself restarted.\<close>

definition AT_DIAG_OPEN :: "byte list" where "AT_DIAG_OPEN = cs ''AT+DIAGOPEN''"
definition AT_DIAG_CLOSE :: "byte list" where "AT_DIAG_CLOSE = cs ''AT+DIAGCLOSE''"

definition send_at_and_restart :: "('w, 'p) cpenv \<Rightarrow> byte list \<Rightarrow> ('w, 'p) cpst \<Rightarrow> ('w, 'p) cpst option" where
  "send_at_and_restart e at k = do {
     (r, mgr', env') \<leftarrow> chnl_send_at_interface (ce_cap e) (ce_mod e) (g_mgr (k_world k)) (at @ [0])
                         (length at) (g_env (k_world k));
     Some (k\<lparr>k_world := (k_world k)\<lparr>g_mgr := mgr', g_env := env'\<rparr>,
             k_sys := OS_sys_restart_self (ce_prop e) (k_sys k)\<rparr>)
   }"

definition diag_switch :: "('w, 'p) cpenv \<Rightarrow> byte \<Rightarrow> int \<Rightarrow> ('w, 'p) cpst \<Rightarrow> ('w, 'p) cpst option" where
  "diag_switch e loc diagportswitch k =
     (if diagportswitch = 1 \<and> loc = LOG_LOCATION_PC then
        (if \<not> strcaseeq (OS_usb_getConf (ce_prop e) (k_sys k)) (cs '',gser'')
         then send_at_and_restart e AT_DIAG_OPEN k else Some k)
      else if diagportswitch = 2 \<and> loc \<noteq> LOG_LOCATION_PC then
        (if strcaseeq (OS_usb_getConf (ce_prop e) (k_sys k)) (cs '',gser'')
         then send_at_and_restart e AT_DIAG_CLOSE k else Some k)
      else Some k)"

definition logLocation ::
  "('w, 'p) cpenv \<Rightarrow> byte \<Rightarrow> byte \<Rightarrow> int \<Rightarrow> ('w, 'p) cpst \<Rightarrow> (int \<times> ('w, 'p) cpst) option" where
  "logLocation e log_type location diagportswitch k = do {
     (ret, k1) \<leftarrow>
       (let bufLoc = OS_sys_getlogdest (ce_prop e) log_type 0 (k_sys k) in
        if log_type = LOG_TYPE_NAME_MODEM then modem_location e log_type location bufLoc k
        else if log_type = LOG_TYPE_NAME_WCN then wcn_location e log_type location bufLoc k
        else Some (- 1, k));
     k2 \<leftarrow> diag_switch e location diagportswitch k1;
     Some (ret, k2)
   }"

section \<open>The AT command\<close>

definition AT_SPATCPLOG :: "byte list" where "AT_SPATCPLOG = cs ''AT+SPATCPLOG''"
definition AT_SPATCPLOG_TAG :: "byte list" where "AT_SPATCPLOG_TAG = cs ''+SPATCPLOG:''"
definition CRLF :: "byte list" where "CRLF = [13, 10]"

text \<open>The byte a pointer into a string points to.\<close>

definition deref :: "byte list \<Rightarrow> byte" where
  "deref s = (case s of [] \<Rightarrow> 0 | c # _ \<Rightarrow> c)"

definition spatcplog_query :: "('w, 'p) cpenv \<Rightarrow> byte list \<Rightarrow> ('w, 'p) cpst \<Rightarrow> byte list" where
  "spatcplog_query e p k =
     (if strstr p (cs ''=1?'') \<noteq> None then
        AT_SPATCPLOG_TAG @ cs '' MODEMLOG='' @
          show_int (atoi [OS_sys_getlogdest (ce_prop e) LOG_TYPE_NAME_MODEM 0 (k_sys k)]) @ CRLF
      else if strstr p (cs ''=2?'') \<noteq> None then
        AT_SPATCPLOG_TAG @ cs '' WCNLOG='' @
          show_int (atoi [OS_sys_getlogdest (ce_prop e) LOG_TYPE_NAME_WCN 0 (k_sys k)]) @ CRLF
      else AT_SPATCPLOG_TAG @ cs '' ERROR PARAM'' @ CRLF)"

definition spatcplog_set ::
  "('w, 'p) cpenv \<Rightarrow> byte list \<Rightarrow> ('w, 'p) cpst \<Rightarrow> (byte list \<times> ('w, 'p) cpst) option" where
  "spatcplog_set e p k =
     (let err = AT_SPATCPLOG_TAG @ cs '' ERROR PARAM'' @ CRLF in
      case strchr p 61 of
        None \<Rightarrow> Some (err, k)
      | Some t1 \<Rightarrow>
          (let a = tl t1 in
           case strchr a 44 of
             None \<Rightarrow> Some (err, k)
           | Some t2 \<Rightarrow>
               (let b = tl t2;
                    sw = (case strchr b 44 of None \<Rightarrow> 0 | Some t3 \<Rightarrow> sint (deref (tl t3)) - 48)
                in do {
                  (ret, k') \<leftarrow> logLocation e (deref a) (deref b) sw k;
                  Some (if ret = - 1 then AT_SPATCPLOG_TAG @ cs '' error '' @ show_int ret @ CRLF
                        else cs ''OK'' @ CRLF, k')
                })))"

definition CpCtlHandle ::
  "('w, 'p) cpenv \<Rightarrow> mem option \<Rightarrow> mem option \<Rightarrow> ('w, 'p) cpst \<Rightarrow> (int \<times> mem option \<times> ('w, 'p) cpst) option" where
  "CpCtlHandle e req rsp k =
     (case (req, rsp) of
        (None, None) \<Rightarrow> Some (0, None, k)
      | (None, Some r) \<Rightarrow> do {
          r' \<leftarrow> sprintf r (CRLF @ cs ''ERROR'' @ CRLF);
          Some (int (length (CRLF @ cs ''ERROR'' @ CRLF)), Some r', k)
        }
      | (Some q, None) \<Rightarrow> None
      | (Some q, Some r) \<Rightarrow> do {
          b \<leftarrow> rd q 0;
          p \<leftarrow> cstr_at q (if b = 0x7E then 1 + MSG_HEAD_SIZE else 0);
          (txt0, k') \<leftarrow>
            (if strncaseeq (length AT_SPATCPLOG) p AT_SPATCPLOG
             then if strchr p 63 \<noteq> None then Some (spatcplog_query e p k, k) else spatcplog_set e p k
             else Some (AT_SPATCPLOG_TAG @ cs '' unknown at'' @ CRLF, k));
          r' \<leftarrow> sprintf r txt0;
          Some (int (length txt0), Some r', k')
        })"

text \<open>\<open>regCallBack\<close>: the handler is registered as a callback; \<open>h\<close> is \<open>CpCtlHandle\<close> over the
  environment of the module manager.\<close>

definition cpctl_regCallBack :: "('w cb_io \<Rightarrow> (int \<times> 'w cb_io) option) \<Rightarrow> 'w modmgr \<Rightarrow> 'w modmgr option" where
  "cpctl_regCallBack h m =
     internalRegCallBack [\<lparr>diag_ap_cmd = - 1, cb_type = 0xFF, cb_subtype = 0xFF, at_cmd = AT_SPATCPLOG,
       also_need_to_cp = False, eng_diag_func = None, eng_linuxcmd_func = Some h,
       eng_set_writeinterface_func = None, eng_cmd_match = None\<rparr>] 1 m"

section \<open>The control socket\<close>

text \<open>One turn of the loop of \<open>eng_socket_rw_thread\<close>: \<open>read\<close> gave the bytes \<open>bs\<close> (at most three) and
  the answer is written back. The loop ends when \<open>select\<close> fails or nothing was read (\<open>None\<close>).\<close>

definition ENG_DATA_LENGTH :: nat where "ENG_DATA_LENGTH = 3"

definition eng_socket_turn ::
  "('w, 'p) cpenv \<Rightarrow> byte list \<Rightarrow> ('w, 'p) cpst \<Rightarrow> (byte list \<times> ('w, 'p) cpst) option" where
  "eng_socket_turn e bs k =
     (let rbuf = zfill ENG_DATA_LENGTH bs in
      do { (ret, k') \<leftarrow> logLocation e (rbuf ! 1 + 48) (rbuf ! 2 + 48) 1 k;
           Some (rbuf[2 := of_int ret], k') })"

fun eng_socket_rw ::
  "('w, 'p) cpenv \<Rightarrow> byte list option list \<Rightarrow> ('w, 'p) cpst \<Rightarrow> (byte list list \<times> ('w, 'p) cpst) option" where
  "eng_socket_rw e [] k = Some ([], k)"
| "eng_socket_rw e (None # rest) k = Some ([], k)"
| "eng_socket_rw e (Some bs # rest) k =
     (if bs = [] then Some ([], k)
      else do { (out, k1) \<leftarrow> eng_socket_turn e (take ENG_DATA_LENGTH bs) k;
                (outs, k2) \<leftarrow> eng_socket_rw e rest k1;
                Some (out # outs, k2) })"

text \<open>\<open>cplogctl\<close>: the server's connections, one after the other; \<open>None\<close> is a failed \<open>accept\<close>. Without
  a server socket the thread ends at once.\<close>

fun accept_loop ::
  "('w, 'p) cpenv \<Rightarrow> byte list option list option list \<Rightarrow> ('w, 'p) cpst \<Rightarrow> (byte list list \<times> ('w, 'p) cpst) option" where
  "accept_loop e [] k = Some ([], k)"
| "accept_loop e (None # conns) k = accept_loop e conns k"
| "accept_loop e (Some reads # conns) k =
     do { (o1, k1) \<leftarrow> eng_socket_rw e reads k; (o2, k2) \<leftarrow> accept_loop e conns k1; Some (o1 @ o2, k2) }"

definition cplogctl ::
  "('w, 'p) cpenv \<Rightarrow> bool \<Rightarrow> byte list option list option list \<Rightarrow> ('w, 'p) cpst
   \<Rightarrow> (byte list list \<times> ('w, 'p) cpst) option" where
  "cplogctl e server_ok conns k = (if server_ok then accept_loop e conns k else Some ([], k))"


section \<open>Facts\<close>

text \<open>The stored destination of a log, and when slogmodem counts as having answered a command: it took
  the whole text and \<open>poll\<close> then reported one descriptor; what the answer says does not matter.\<close>

definition dest :: "('w, 'p) cpenv \<Rightarrow> byte \<Rightarrow> ('w, 'p) cpst \<Rightarrow> byte" where
  "dest e t k = OS_sys_getlogdest (ce_prop e) t 0 (k_sys k)"

definition slog_answered :: "byte list \<Rightarrow> slog_conn \<Rightarrow> bool" where
  "slog_answered cmd c = (case c of SConn n r \<Rightarrow> n = int (length cmd) \<and> poll_ret r = 1 | _ \<Rightarrow> False)"

definition log_cmd :: "byte \<Rightarrow> byte \<Rightarrow> byte list" where
  "log_cmd t loc =
     (if t = LOG_TYPE_NAME_MODEM
      then if loc = LOG_LOCATION_TCARD then ENABLE_5MODE_LOG_CMD else DISABLE_5MODE_LOG_CMD
      else if loc = LOG_LOCATION_TCARD then ENABLE_WCN_LOG_CMD else DISABLE_WCN_LOG_CMD)"

lemma get_response_iff: "get_response r = 1 \<longleftrightarrow> poll_ret r = 1"
  by (cases r) (simp_all add: get_response_def)

lemma notice_result: "fst (notice_slogmodem cmd k) = (if slog_answered cmd (k_slog k 0) then 0 else - 1)"
  by (auto simp: notice_slogmodem_def Let_def slog_answered_def get_response_iff split: slog_conn.splits)

lemma notice_keeps [simp]:
  "k_sys (snd (notice_slogmodem cmd k)) = k_sys k" "k_world (snd (notice_slogmodem cmd k)) = k_world k"
  "k_devs (snd (notice_slogmodem cmd k)) = k_devs k"
  by (auto simp: notice_slogmodem_def Let_def split: slog_conn.splits)

lemma switch_log_result:
  assumes "log_props (ce_prop e)" and "t = 49 \<or> t = 50" and "loc \<noteq> 0"
    and "\<And>k k'. act k = Some k' \<Longrightarrow> k_sys k' = k_sys k"
    and "switch_log e t loc (dest e t k) cmd act agdsp k = Some (r, k')"
  shows "r = (if loc \<noteq> dest e t k \<and> slog_answered cmd (k_slog k 0) then 0 else - 1)"
    and "dest e t' k' = (if r = 0 \<and> t' = t then loc else dest e t' k)"
proof -
  obtain n k1 where n: "notice_slogmodem cmd k = (n, k1)" by fastforce
  have n1: "n = (if slog_answered cmd (k_slog k 0) then 0 else - 1)" "k_sys k1 = k_sys k"
    using notice_result [of cmd k] notice_keeps(1) [of cmd k] by (simp_all add: n)
  note set = getlogdest_set [OF assms(1,3,2)] getlogdest_set_other [OF assms(1)]
  have s: "k_sys k2 = k_sys k1" if "act k1 = Some k2" for k2 using assms(4) [OF that] .
  show "r = (if loc \<noteq> dest e t k \<and> slog_answered cmd (k_slog k 0) then 0 else - 1)"
    using assms(5) n1(1) by (auto simp: switch_log_def n Option.bind_eq_Some_conv Let_def split: if_splits)
  show "dest e t' k' = (if r = 0 \<and> t' = t then loc else dest e t' k)"
    using assms(5) n1
    by (auto simp: switch_log_def n Option.bind_eq_Some_conv Let_def dest_def set dest!: s
        split: if_splits option.splits)
qed

lemma reset_dev_sys: "reset_dev d on k = Some k' \<Longrightarrow> k_sys k' = k_sys k"
  by (auto simp: reset_dev_def to_world_def)

lemma open_bqb_sys: "open_bqb e k = Some k' \<Longrightarrow> k_sys k' = k_sys k"
  by (auto simp: open_bqb_def to_world_def Let_def split: option.splits prod.splits)

lemma PROP_RESTART_neq [simp]:
  "PROP_RESTART_SELF \<noteq> PROP_MODEM_LOG_DEST" "PROP_RESTART_SELF \<noteq> PROP_WCN_LOG_DEST"
  by (simp_all add: PROP_RESTART_SELF_def PROP_MODEM_LOG_DEST_def PROP_WCN_LOG_DEST_def)

lemma diag_switch_dest:
  assumes "log_props (ce_prop e)" and "diag_switch e loc sw k = Some k'"
  shows "dest e t k' = dest e t k"
proof -
  have r: "OS_sys_getlogdest (ce_prop e) t 0 (OS_sys_restart_self (ce_prop e) s) = OS_sys_getlogdest (ce_prop e) t 0 s" for s
    using assms(1) PROP_RESTART_neq [symmetric]
    by (simp add: OS_sys_getlogdest_def OS_sys_restart_self_def property_set_def property_get_def log_props_other [OF assms(1)])
  have "dest e t k' = dest e t k" if "send_at_and_restart e a k = Some k'" for a
    using that by (auto simp: send_at_and_restart_def Option.bind_eq_Some_conv dest_def r)
  then show ?thesis using assms(2) by (auto simp: diag_switch_def split: if_splits)
qed

lemma location_cases:
  assumes "(if t = LOG_TYPE_NAME_MODEM then modem_location e t loc b k
      else if t = LOG_TYPE_NAME_WCN then wcn_location e t loc b k else Some (- 1, k)) = Some (r, k1)"
  shows "\<not> (t \<in> {49, 50} \<and> loc \<in> {48, 49, 50}) \<and> r = - 1 \<and> k1 = k
    \<or> (\<exists>act agdsp. t \<in> {49, 50} \<and> loc \<in> {48, 49, 50} \<and> switch_log e t loc b (log_cmd t loc) act agdsp k = Some (r, k1)
         \<and> (\<forall>k k'. act k = Some k' \<longrightarrow> k_sys k' = k_sys k))"
proof (cases "t \<in> {49, 50} \<and> loc \<in> {48, 49, 50}")
  case False
  then show ?thesis using assms by (auto simp: modem_location_def wcn_location_def log_names split: if_splits)
next
  case True
  let ?keeps = "\<lambda>act. \<forall>k k'. act k = Some k' \<longrightarrow> k_sys k' = k_sys k"
  have reset: "?keeps (reset_dev n on)" for n on by (auto dest: reset_dev_sys)
  have bqb: "?keeps (\<lambda>k. do { k1 \<leftarrow> reset_dev n on k; open_bqb e k1 })" for n on
    by (auto simp: Option.bind_eq_Some_conv dest!: reset_dev_sys open_bqb_sys)
  have none: "?keeps Some" by simp
  have "\<exists>act agdsp. switch_log e t loc b (log_cmd t loc) act agdsp k = Some (r, k1) \<and> ?keeps act"
  proof -
    note defs = modem_location_def wcn_location_def log_names log_cmd_def
    consider "t = 49" "loc = 49" | "t = 49" "loc = 50" | "t = 49" "loc = 48"
      | "t = 50" "loc = 49" | "t = 50" "loc = 50" | "t = 50" "loc = 48"
      using True by blast
    then show ?thesis
    proof cases
      case 1
      then have "switch_log e t loc b (log_cmd t loc) (reset_dev DEV_MODEM_NAME True) (Some DISABLE_AGDSP_LOG_CMD) k = Some (r, k1)"
        using assms by (simp add: defs)
      then show ?thesis using reset by blast
    next
      case 2
      then have "switch_log e t loc b (log_cmd t loc) (reset_dev DEV_MODEM_NAME False) (Some ENABLE_AGDSP_LOG_CMD) k = Some (r, k1)"
        using assms by (simp add: defs)
      then show ?thesis using reset by blast
    next
      case 3
      then have "switch_log e t loc b (log_cmd t loc) (Some) (Some DISABLE_AGDSP_LOG_CMD) k = Some (r, k1)"
        using assms by (simp add: defs)
      then show ?thesis using none by blast
    next
      case 4
      then have "switch_log e t loc b (log_cmd t loc) (\<lambda>k. do { k1 \<leftarrow> reset_dev DEV_WCN_NAME True k; open_bqb e k1 }) (None) k = Some (r, k1)"
        using assms by (simp add: defs)
      then show ?thesis using bqb by blast
    next
      case 5
      then have "switch_log e t loc b (log_cmd t loc) (reset_dev DEV_WCN_NAME False) (None) k = Some (r, k1)"
        using assms by (simp add: defs)
      then show ?thesis using reset by blast
    next
      case 6
      then have "switch_log e t loc b (log_cmd t loc) (Some) (None) k = Some (r, k1)"
        using assms by (simp add: defs)
      then show ?thesis using none by blast
    qed
  qed
  then show ?thesis using True by blast
qed

lemma logLocation_result:
  assumes "log_props (ce_prop e)" and "logLocation e t loc sw k = Some (r, k')"
  shows "r = (if t \<in> {49, 50} \<and> loc \<in> {48, 49, 50} \<and> loc \<noteq> dest e t k \<and> slog_answered (log_cmd t loc) (k_slog k 0)
             then 0 else - 1)"
    and "dest e t' k' = (if r = 0 \<and> t' = t then loc else dest e t' k)"
proof -
  obtain k1 where k1: "(if t = LOG_TYPE_NAME_MODEM then modem_location e t loc (dest e t k) k
      else if t = LOG_TYPE_NAME_WCN then wcn_location e t loc (dest e t k) k else Some (- 1, k)) = Some (r, k1)"
    and ds: "diag_switch e loc sw k1 = Some k'"
    using assms(2) unfolding logLocation_def Let_def dest_def
    by (auto simp: Option.bind_eq_Some_conv)
  note d = diag_switch_dest [OF assms(1) ds]
  consider (bad) "\<not> (t \<in> {49, 50} \<and> loc \<in> {48, 49, 50})" "r = - 1" "k1 = k"
    | (good) act agdsp where "t \<in> {49, 50}" "loc \<in> {48, 49, 50}"
        "switch_log e t loc (dest e t k) (log_cmd t loc) act agdsp k = Some (r, k1)"
        "\<And>k k'. act k = Some k' \<Longrightarrow> k_sys k' = k_sys k"
    using location_cases [OF k1] by blast
  then have "r = (if t \<in> {49, 50} \<and> loc \<in> {48, 49, 50} \<and> loc \<noteq> dest e t k \<and> slog_answered (log_cmd t loc) (k_slog k 0)
             then 0 else - 1) \<and> dest e t' k' = (if r = 0 \<and> t' = t then loc else dest e t' k)"
  proof cases
    case good
    have "t = 49 \<or> t = 50" "loc \<noteq> 0" using good(1,2) by auto
    from switch_log_result [OF assms(1) this good(4,3)] show ?thesis using good(1,2) d by simp
  next
    case bad
    have "r = (if t \<in> {49, 50} \<and> loc \<in> {48, 49, 50} \<and> loc \<noteq> dest e t k \<and> slog_answered (log_cmd t loc) (k_slog k 0)
             then 0 else - 1)"
      using bad(1,2) by (metis (full_types))
    then show ?thesis using bad(2,3) d by simp
  qed
  then show "r = (if t \<in> {49, 50} \<and> loc \<in> {48, 49, 50} \<and> loc \<noteq> dest e t k \<and> slog_answered (log_cmd t loc) (k_slog k 0)
             then 0 else - 1)"
    and "dest e t' k' = (if r = 0 \<and> t' = t then loc else dest e t' k)" by blast+
qed

section \<open>Properties\<close>

definition sample_cpenv :: "(unit, byte list \<Rightarrow> byte list) cpenv" where
  "sample_cpenv = \<lparr>ce_prop = sample_prop_service, ce_mod = sample_env, ce_cap = 64\<rparr>"

definition sample_cpst :: "slog_conn \<Rightarrow> (unit, byte list \<Rightarrow> byte list) cpst" where
  "sample_cpst c = \<lparr>k_world = sample_world (sample_thread KLog DATA_LOG 0) [], k_devs = [],
     k_sys = sample_sys, k_slog = \<lambda>i. c, k_cmds = []\<rparr>"

lemma sample_dest: "t = 49 \<or> t = 50 \<Longrightarrow> dest sample_cpenv t (sample_cpst c) = 49"
  by (auto simp: dest_def OS_sys_getlogdest_def property_get_def sample_cpenv_def sample_cpst_def
      sample_sys_def sample_prop_service_def)

lemma sample_switch: "\<exists>k'. logLocation sample_cpenv 49 48 0 (sample_cpst (SConn 18 (PollIn (cs ''OK'')))) = Some (0, k')"
proof -
  let ?k = "sample_cpst (SConn 18 (PollIn (cs ''OK'')))"
  obtain r k' where k': "logLocation sample_cpenv 49 48 0 ?k = Some (r, k')"
  proof (cases "logLocation sample_cpenv 49 48 0 ?k")
    case None
    then have False
      by (auto simp: logLocation_def Let_def modem_location_def switch_log_def diag_switch_def log_names
          split: prod.splits if_splits)
    then show ?thesis ..
  qed auto
  have "slog_answered (log_cmd 49 48) (k_slog ?k 0)"
    by (simp add: slog_answered_def log_cmd_def log_names sample_cpst_def DISABLE_5MODE_LOG_CMD_def)
  then have "r = 0" using logLocation_result(1) [OF _ k'] by (simp add: sample_cpenv_def sample_dest [unfolded sample_cpenv_def])
  with k' show ?thesis by blast
qed

text \<open>C15 (\<open>logLocation\<close>): the call reports success exactly when the log and the destination are known
  ones, the log is not there already, and slogmodem took the whole command and answered at all
  (\<open>poll\<close> reported one descriptor), and otherwise -1. What slogmodem answers is not looked at: an
  error counts as success. The stored destination changes exactly when the call succeeds, to the
  new one, and the destination of the other log never does, whatever the diag switch does
  afterwards. The property service must let the daemon set the two destinations (\<open>log_props\<close>).\<close>

theorem logLocation_switches:
  assumes "log_props (ce_prop e)" and "logLocation e t loc sw k = Some (r, k')"
  shows "r = (if t \<in> {49, 50} \<and> loc \<in> {48, 49, 50} \<and> loc \<noteq> dest e t k \<and> slog_answered (log_cmd t loc) (k_slog k 0)
             then 0 else - 1)
    \<and> (\<forall>t'. dest e t' k' = (if r = 0 \<and> t' = t then loc else dest e t' k))"
  using logLocation_result [OF assms] by blast

theorem logLocation_switches_witness:
  "\<exists>k'. logLocation sample_cpenv 49 48 0 (sample_cpst (SConn 18 (PollIn (cs ''OK'')))) = Some (0, k')
     \<and> dest sample_cpenv 49 k' = 48 \<and> dest sample_cpenv 50 k' = 49"
proof -
  obtain k' where k': "logLocation sample_cpenv 49 48 0 (sample_cpst (SConn 18 (PollIn (cs ''OK'')))) = Some (0, k')"
    using sample_switch by blast
  then show ?thesis using logLocation_switches [OF _ k'] sample_dest by (auto simp: sample_cpenv_def)
qed

text \<open>(the AT command): after \<open>AT+SPATCPLOG=<log>,<place>\<close> was answered with OK, the query
  \<open>AT+SPATCPLOG=<log>?\<close> is answered with that log's name and that place.\<close>

theorem spatcplog_roundtrip:
  assumes "log_props (ce_prop e)" and "t = 49 \<or> t = 50" and "loc = 48 \<or> loc = 49 \<or> loc = 50"
    and "spatcplog_set e (AT_SPATCPLOG @ [61, t, 44, loc]) k = Some (cs ''OK'' @ CRLF, k')"
  shows "spatcplog_query e (AT_SPATCPLOG @ [61, t, 63]) k' =
     AT_SPATCPLOG_TAG @ (if t = 49 then cs '' MODEMLOG='' else cs '' WCNLOG='') @ [loc] @ CRLF"
proof -
  have s: "strchr (AT_SPATCPLOG @ 61 # xs) 61 = Some (61 # xs)" for xs by (simp add: AT_SPATCPLOG_def)
  have "strchr [t, 44, loc] 44 = Some [44, loc]" "strchr [loc] 44 = None" using assms(2,3) by auto
  then obtain r where r: "logLocation e t loc 0 k = Some (r, k')" "r \<noteq> - 1"
    using assms(4) s [of "[t, 44, loc]"]
    by (auto simp: spatcplog_set_def Let_def deref_def Option.bind_eq_Some_conv AT_SPATCPLOG_TAG_def split: if_splits)
  then have "r = 0" using logLocation_result(1) [OF assms(1) r(1)] by (simp split: if_splits)
  then have "dest e t k' = loc" using logLocation_result(2) [OF assms(1) r(1), of t] by simp
  then have d: "OS_sys_getlogdest (ce_prop e) t 0 (k_sys k') = loc" by (simp add: dest_def)
  have a: "show_int (atoi [loc]) = [loc]" using assms(3)
    by (auto simp: atoi_def is_space_def is_digit_def digits_val_def show_int_def show_nat_digit)
  show ?thesis using assms(2) d a
    by (auto simp: spatcplog_query_def AT_SPATCPLOG_def log_names)
qed

theorem spatcplog_roundtrip_witness:
  "\<exists>k'. spatcplog_query sample_cpenv (AT_SPATCPLOG @ [61, 49, 63]) k' = AT_SPATCPLOG_TAG @ cs '' MODEMLOG=0'' @ CRLF
     \<and> spatcplog_set sample_cpenv (AT_SPATCPLOG @ [61, 49, 44, 48]) (sample_cpst (SConn 18 (PollIn (cs ''OK''))))
        = Some (cs ''OK'' @ CRLF, k')"
proof -
  obtain k' where k': "logLocation sample_cpenv 49 48 0 (sample_cpst (SConn 18 (PollIn (cs ''OK'')))) = Some (0, k')"
    using sample_switch by blast
  have "spatcplog_set sample_cpenv (AT_SPATCPLOG @ [61, 49, 44, 48]) (sample_cpst (SConn 18 (PollIn (cs ''OK''))))
     = Some (cs ''OK'' @ CRLF, k')"
    using k' by (simp add: spatcplog_set_def AT_SPATCPLOG_def deref_def)
  from spatcplog_roundtrip [OF _ _ _ this] this show ?thesis
    by (intro exI [of _ k']) (simp add: sample_cpenv_def)
qed

end
