(* ===== verification/TimeSync.thy ===== *)
theory TimeSync
  imports CpCtl
begin

text \<open>
  The time synchronisation thread of \<open>CCPCtl\<close> (\<open>server/common/cpctl.cpp\<close>, \<open>timesync\<close> and its helpers):
  two connections, to modemd and to the reference-notify server, kept in an array of two poll entries;
  modem events and time stamps are forwarded to the host's diag port. What \<open>connect\<close>, \<open>poll\<close> and \<open>read\<close>
  report in a turn of the loop, and the clocks, are its input; one turn is \<open>ts_turn\<close>, and \<open>ts_reach\<close> is
  the relation of the states the thread can go through.
\<close>

section \<open>Packets for the host\<close>

subsection \<open>\<open>translate_packet\<close> of \<open>cpctl.cpp\<close>\<close>

fun cp_tp_loop :: "mem \<Rightarrow> nat \<Rightarrow> byte list \<Rightarrow> (mem \<times> nat) option" where
  "cp_tp_loop d pos [] = Some (d, pos)"
| "cp_tp_loop d pos (b # bs) =
     (if b = 0x7E
      then do { d1 \<leftarrow> wr d pos 0x7D; d2 \<leftarrow> wr d1 (pos + 1) 0x5E; cp_tp_loop d2 (pos + 2) bs }
      else if b = 0x7D
      then do { d1 \<leftarrow> wr d pos 0x7D; d2 \<leftarrow> wr d1 (pos + 1) 0x5D; cp_tp_loop d2 (pos + 2) bs }
      else do { d1 \<leftarrow> wr d pos b; cp_tp_loop d1 (pos + 1) bs })"

definition cp_translate_packet :: "mem \<Rightarrow> mem \<Rightarrow> nat \<Rightarrow> (mem \<times> nat) option" where
  "cp_translate_packet d src sz = do {
     d0 \<leftarrow> wr d 0 0x7E;
     bs \<leftarrow> get src 0 sz;
     (d1, pos) \<leftarrow> cp_tp_loop d0 1 bs;
     d2 \<leftarrow> wr d1 pos 0x7E;
     Some (d2, pos + 1)
   }"

subsection \<open>Sending\<close>

text \<open>The global \<open>write_to_host_diag\<close> on the daemon's ports.\<close>

definition host_port :: "'w world \<Rightarrow> nat option" where
  "host_port w = (case g_mgr w of None \<Rightarrow> None | Some m \<Rightarrow> m_lpHostDiagPort m)"

definition host_write :: "mem \<Rightarrow> nat \<Rightarrow> 'w world \<Rightarrow> (int \<times> 'w world) call" where
  "host_write buff len w =
     cbind (write_to_host_diag (map_option ((!) (g_ports w)) (host_port w)) (g_os w) buff len (g_wr w))
       (\<lambda>(r, st, es).
          Ret (r, case (host_port w, st) of
                    (Some i, Some st) \<Rightarrow> w\<lparr>g_ports := (g_ports w)[i := w_port st], g_os := w_os st, g_wr := es,
                                           g_sent := g_sent w @ map (Pair i) (w_out st)\<rparr>
                  | _ \<Rightarrow> w))"

datatype CPEVENT_E = CE_ALIVE | CE_ASSERT | CE_RESET | CE_BLOCKED | CE_NONE
datatype SUBSYS_E = SS_ALL | SS_MODEM | SS_WCN | SS_GNSS | SS_PM_SH

fun cpevent_val :: "CPEVENT_E \<Rightarrow> byte" where
  "cpevent_val CE_ALIVE = 0" | "cpevent_val CE_ASSERT = 1" | "cpevent_val CE_RESET = 2"
| "cpevent_val CE_BLOCKED = 3" | "cpevent_val CE_NONE = 4"

fun subsys_val :: "SUBSYS_E \<Rightarrow> byte" where
  "subsys_val SS_ALL = 0" | "subsys_val SS_MODEM = 1" | "subsys_val SS_WCN = 2"
| "subsys_val SS_GNSS = 3" | "subsys_val SS_PM_SH = 4"

record modem_timestamp =
  tv_sec :: "32 word"
  tv_usec :: "32 word"
  ts_sys_cnt :: "32 word"

record time_sync =
  sys_cnt :: "32 word"
  uptime :: "32 word"

definition ts_bytes :: "modem_timestamp \<Rightarrow> byte list" where
  "ts_bytes t = le32 (unat (tv_sec t)) @ le32 (unat (tv_usec t)) @ le32 (unat (ts_sys_cnt t))"

definition sync_of_bytes :: "byte list \<Rightarrow> time_sync" where
  "sync_of_bytes bs = \<lparr>sys_cnt = of_nat (de32 bs), uptime = of_nat (de32 (drop 4 bs))\<rparr>"

text \<open>The common end of both: \<open>tmp\<close> holds the packet, \<open>rsp\<close> the translation, which is sent.\<close>

definition send_packet :: "byte list \<Rightarrow> 'w world \<Rightarrow> (int \<times> 'w world) call" where
  "send_packet packet w =
     (case cp_translate_packet (replicate 256 0) (zfill 128 packet) (length packet) of
        None \<Rightarrow> UB
      | Some (rsp, rsp_len) \<Rightarrow>
          cbind (host_write rsp rsp_len w) (\<lambda>(ret, w'). Ret (if ret \<le> 0 then - 1 else 0, w')))"

definition event_packet :: "SUBSYS_E \<Rightarrow> CPEVENT_E \<Rightarrow> byte list" where
  "event_packet subsys event =
     head_bytes \<lparr>seq_num = 0, head_len = MSG_HEAD_SIZE + 2, head_type = 0x33, head_subtype = 0xff\<rparr>
     @ [subsys_val subsys, cpevent_val event]"

definition cp_event_notify_rsp_handle :: "SUBSYS_E \<Rightarrow> CPEVENT_E \<Rightarrow> 'w world \<Rightarrow> (int \<times> 'w world) call" where
  "cp_event_notify_rsp_handle subsys event w = send_packet (event_packet subsys event) w"

definition time_packet :: "modem_timestamp \<Rightarrow> byte list" where
  "time_packet t =
     head_bytes \<lparr>seq_num = 0, head_len = MSG_HEAD_SIZE + 4 + 12, head_type = 0x5, head_subtype = 0x11\<rparr>
     @ le16 0 @ le16 12 @ ts_bytes t"

definition time_sync_rsp_handle :: "modem_timestamp \<Rightarrow> 'w world \<Rightarrow> (int \<times> 'w world) call" where
  "time_sync_rsp_handle t w = send_packet (time_packet t) w"

section \<open>Clocks\<close>

text \<open>What \<open>gettimeofday\<close>, \<open>sysinfo\<close>, \<open>time\<close> and \<open>mktime(gmtime_r(...))\<close> report; the last is \<open>None\<close> when
  \<open>gmtime_r\<close> fails.\<close>

record clock =
  now_sec :: int
  now_usec :: int
  now_up :: int
  now_time :: int
  now_mktime :: "int option"

definition get_timezone :: "clock \<Rightarrow> int" where
  "get_timezone c =
     (if now_time c = - 1 then 0
      else case now_mktime c of None \<Rightarrow> 0 | Some m \<Rightarrow> now_time c - m)"

definition current_ap_time_stamp_handle :: "clock \<Rightarrow> time_sync \<Rightarrow> modem_timestamp" where
  "current_ap_time_stamp_handle c s =
     \<lparr>tv_sec = of_int (now_sec c) + of_int (get_timezone c), tv_usec = of_int (now_usec c),
      ts_sys_cnt = sys_cnt s + (of_int (now_up c) - uptime s) * 1000\<rparr>"

section \<open>Connections\<close>

definition FDS_SIZE :: nat where "FDS_SIZE = 2"
definition POLLIN :: nat where "POLLIN = 1"

record pollfd =
  pf_fd :: int
  pf_events :: nat
  pf_revents :: nat

record socket_conn =
  sc_fd :: int
  sc_index :: int
  sc_max_retry :: int
  sc_try_num :: int

definition fds_init :: "nat \<Rightarrow> pollfd list" where
  "fds_init len = replicate len \<lparr>pf_fd = - 1, pf_events = POLLIN, pf_revents = 0\<rparr>"

text \<open>\<open>fds_collate\<close>: the first hole, then one turn of the second loop per later entry \<open>j\<close>. The entry a
  descriptor is moved from keeps it.\<close>

fun first_hole :: "pollfd list \<Rightarrow> nat" where
  "first_hole [] = 0"
| "first_hole (p # ps) = (if pf_fd p < 0 then 0 else Suc (first_hole ps))"

type_synonym conns = "pollfd list \<times> socket_conn \<times> socket_conn"

fun collate_loop :: "nat list \<Rightarrow> nat \<Rightarrow> conns \<Rightarrow> conns" where
  "collate_loop [] i c = c"
| "collate_loop (j # js) i (fds, md, rf) =
     (let fd = pf_fd (fds ! j) in
      collate_loop js (Suc i)
        (if fd \<ge> 0
         then (fds[i := (fds ! i)\<lparr>pf_fd := fd\<rparr>],
               if fd = sc_fd md then md\<lparr>sc_index := int i\<rparr> else md,
               if fd \<noteq> sc_fd md \<and> fd = sc_fd rf then rf\<lparr>sc_index := int i\<rparr> else rf)
         else (fds, md, rf)))"

definition fds_collate :: "conns \<Rightarrow> conns" where
  "fds_collate c =
     (let len = length (fst c); i = first_hole (fst c)
      in if int i \<ge> int len - 1 then c else collate_loop [i + 1..<len] i c)"

definition add_connection :: "pollfd list \<Rightarrow> int \<Rightarrow> int \<Rightarrow> int \<times> pollfd list \<times> int" where
  "add_connection fds poll_num fd =
     (let i = first_hole fds in
      if i \<ge> length fds then (- 1, fds, poll_num)
      else (int i, fds[i := \<lparr>pf_fd = fd, pf_events = POLLIN, pf_revents = 0\<rparr>], poll_num + 1))"

text \<open>\<open>try_connect\<close>, with what \<open>socket_local_client\<close> returned.\<close>

definition try_connect ::
  "int \<Rightarrow> socket_conn \<Rightarrow> pollfd list \<Rightarrow> int \<Rightarrow> int \<times> socket_conn \<times> pollfd list \<times> int" where
  "try_connect r sock fds poll_num =
     (if sc_max_retry sock \<noteq> 0 \<and> sc_try_num sock > sc_max_retry sock then (- 1, sock, fds, poll_num)
      else if r \<ge> 0
      then let (i, fds', n) = add_connection fds poll_num r
           in (i, sock\<lparr>sc_fd := r, sc_index := i, sc_try_num := 0\<rparr>, fds', n)
      else (- 1, sock\<lparr>sc_fd := r, sc_try_num := sc_try_num sock + 1\<rparr>, fds, poll_num))"

section \<open>The thread\<close>

definition parse_cp_event_notify :: "byte list \<Rightarrow> CPEVENT_E" where
  "parse_cp_event_notify buf =
     (if strstr buf (cs ''P-ARM Modem Assert'') \<noteq> None then CE_ASSERT
      else if strstr buf (cs ''TD Modem Assert'') \<noteq> None then CE_ASSERT
      else if strstr buf (cs ''Modem Assert'') \<noteq> None then CE_ASSERT
      else if strstr buf (cs ''Modem Reset'') \<noteq> None then CE_RESET
      else if strstr buf (cs ''Modem Alive'') \<noteq> None then CE_ALIVE
      else if strstr buf (cs ''Modem Blocked'') \<noteq> None then CE_BLOCKED
      else CE_NONE)"

record tsync =
  t_fds :: "pollfd list"
  t_modemd :: socket_conn
  t_ref :: socket_conn
  t_total :: int
  t_collate :: bool
  t_reset :: bool
  t_time :: time_sync     \<comment> \<open>the global \<open>g_time_sync\<close>\<close>

definition conn_new :: socket_conn where
  "conn_new = \<lparr>sc_fd = - 1, sc_index = - 1, sc_max_retry = 0, sc_try_num = 0\<rparr>"

definition tsync_new :: tsync where
  "tsync_new = \<lparr>t_fds = fds_init FDS_SIZE, t_modemd = conn_new, t_ref = conn_new, t_total = 0,
     t_collate = False, t_reset = False, t_time = \<lparr>sys_cnt = 0, uptime = 0\<rparr>\<rparr>"

text \<open>The input of a turn: what the two connection attempts would give, what \<open>poll\<close> returns and reports
  per entry, what \<open>read\<close> gives per entry (\<open>None\<close>: it fails, \<open>[]\<close>: the peer is gone), and the clocks.\<close>

record ts_in =
  in_modemd :: int
  in_ref :: int
  in_poll :: int
  in_revents :: "nat \<Rightarrow> nat"
  in_read :: "nat \<Rightarrow> byte list option"
  in_clock :: clock

definition drop_conn :: "nat \<Rightarrow> tsync \<Rightarrow> tsync" where
  "drop_conn i s = s\<lparr>t_fds := (t_fds s)[i := (t_fds s ! i)\<lparr>pf_fd := - 1\<rparr>], t_total := t_total s - 1,
     t_collate := True\<rparr>"

definition modemd_input :: "nat \<Rightarrow> byte list option \<Rightarrow> tsync \<times> 'w world \<Rightarrow> (tsync \<times> 'w world) call" where
  "modemd_input i rdv = (\<lambda>(s, w).
     case rdv of
       None \<Rightarrow> Ret (s, w)
     | Some bs \<Rightarrow>
         (let notify_buf = take 255 bs in
          if notify_buf = [] then Ret (drop_conn i (s\<lparr>t_modemd := (t_modemd s)\<lparr>sc_fd := - 1\<rparr>\<rparr>), w)
          else if parse_cp_event_notify (takeWhile (\<lambda>b. b \<noteq> 0) notify_buf) = CE_RESET
          then cbind (cp_event_notify_rsp_handle SS_MODEM CE_RESET w)
                 (\<lambda>(ret, w'). Ret (s\<lparr>t_reset := True\<rparr>, w'))
          else Ret (s, w)))"

definition ref_input ::
  "nat \<Rightarrow> byte list option \<Rightarrow> clock \<Rightarrow> tsync \<times> 'w world \<Rightarrow> (tsync \<times> 'w world) call" where
  "ref_input i rdv c = (\<lambda>(s, w).
     case rdv of
       None \<Rightarrow> Ret (s, w)
     | Some bs \<Rightarrow>
         (let got = take 8 bs in
          if got = [] then Ret (drop_conn i (s\<lparr>t_ref := (t_ref s)\<lparr>sc_fd := - 1\<rparr>\<rparr>), w)
          else if length got \<noteq> 8 then Ret (s, w)
          else
            (let s1 = s\<lparr>t_time := sync_of_bytes got\<rparr>;
                 stamp = current_ap_time_stamp_handle c (sync_of_bytes got)
             in if t_reset s1
                then cbind (time_sync_rsp_handle stamp w) (\<lambda>(ret, w'). Ret (s1\<lparr>t_reset := False\<rparr>, w'))
                else Ret (s1, w))))"

text \<open>The loop over the entries; \<open>total_conn\<close>, its bound, may drop while it runs.\<close>

definition ts_entry :: "ts_in \<Rightarrow> nat \<Rightarrow> tsync \<times> 'w world \<Rightarrow> (tsync \<times> 'w world) call" where
  "ts_entry inp i = (\<lambda>(s, w).
     if (pf_revents (t_fds s ! i)) AND POLLIN \<noteq> 0
     then if int i = sc_index (t_modemd s) then modemd_input i (in_read inp i) (s, w)
          else if int i = sc_index (t_ref s) then ref_input i (in_read inp i) (in_clock inp) (s, w)
          else Ret (s, w)
     else Ret (s, w))"

fun ts_entries :: "ts_in \<Rightarrow> nat list \<Rightarrow> tsync \<times> 'w world \<Rightarrow> (tsync \<times> 'w world) call" where
  "ts_entries inp [] sw = Ret sw"
| "ts_entries inp (i # is) sw =
     (if \<not> int i < t_total (fst sw) then Ret sw else cbind (ts_entry inp i sw) (ts_entries inp is))"

definition ts_connect :: "ts_in \<Rightarrow> tsync \<Rightarrow> tsync" where
  "ts_connect inp s =
     (let (fds0, md0, rf0) = (if t_collate s then fds_collate (t_fds s, t_modemd s, t_ref s)
                              else (t_fds s, t_modemd s, t_ref s));
          (md1, fds1, n1) = (if sc_fd md0 < 0 then snd (try_connect (in_modemd inp) md0 fds0 (t_total s))
                             else (md0, fds0, t_total s));
          (rf2, fds2, n2) = (if sc_fd rf0 < 0 then snd (try_connect (in_ref inp) rf0 fds1 n1)
                             else (rf0, fds1, n1))
      in s\<lparr>t_fds := fds2, t_modemd := md1, t_ref := rf2, t_total := n2, t_collate := False\<rparr>)"

definition set_revents :: "ts_in \<Rightarrow> tsync \<Rightarrow> tsync" where
  "set_revents inp s = s\<lparr>t_fds := map (\<lambda>(i, p). if int i < t_total s then p\<lparr>pf_revents := in_revents inp i\<rparr> else p)
     (enumerate 0 (t_fds s))\<rparr>"

definition ts_turn :: "ts_in \<Rightarrow> tsync \<times> 'w world \<Rightarrow> (tsync \<times> 'w world) call" where
  "ts_turn inp = (\<lambda>(s, w).
     (let s1 = ts_connect inp s in
      if t_total s1 = 0 then Ret (s1, w)
      else let s2 = set_revents inp s1 in
           if in_poll inp > 0 then ts_entries inp [0..<nat (t_total s2)] (s2, w)
           else Ret (s2, w)))"

text \<open>The states after any number of turns whose inputs satisfy \<open>P\<close>.\<close>

inductive ts_reach :: "(ts_in \<Rightarrow> bool) \<Rightarrow> tsync \<times> 'w world \<Rightarrow> tsync \<times> 'w world \<Rightarrow> bool" for P where
  reach_refl: "ts_reach P s s"
| reach_turn: "ts_reach P s s' \<Longrightarrow> P inp \<Longrightarrow> ts_turn inp s' = Ret s'' \<Longrightarrow> ts_reach P s s''"

section \<open>Facts\<close>

lemma tp_loop_cp:
  assumes "sz \<le> length src"
  shows "i \<le> sz \<Longrightarrow> tp_loop d pos src i sz = cp_tp_loop d pos (drop i (take sz src))"
proof (induction "sz - i" arbitrary: d pos i)
  case 0
  then show ?case by (subst tp_loop.simps) simp
next
  case (Suc n)
  then have i: "i < sz" by simp
  have IH: "tp_loop d' p' src (Suc i) sz = cp_tp_loop d' p' (drop (Suc i) (take sz src))" for d' p'
    using Suc.hyps(1) [of "i + 1" d' p'] Suc.hyps(2) i by simp
  have "drop i (take sz src) = src ! i # drop (Suc i) (take sz src)"
    using i assms Cons_nth_drop_Suc [of i "take sz src"] by simp
  then show ?case using i assms by (subst tp_loop.simps) (simp add: rd_def IH)
qed

lemma cp_translate_eq:
  assumes "sz \<le> length src"
  shows "cp_translate_packet d src sz = translate_packet d src sz"
  using assms tp_loop_cp [OF assms, of 0]
  by (simp add: cp_translate_packet_def translate_packet_def get_def)

lemma host_write_all:
  assumes "host_port w = Some i" and "i < length (g_ports w)" and "sink (g_ports w ! i)"
    and "accepting (2 * len) w" and "2 \<le> len" and "len \<le> length buff"
  shows "\<exists>w'. host_write buff len w = Ret (int (length (frame (take (len - 2) (drop 1 buff)))), w')
    \<and> only_sent i (frame (take (len - 2) (drop 1 buff))) w w'"
proof -
  let ?xs = "take (len - 2) (drop 1 buff)" and ?dst = "replicate (len * 2) (0 :: byte)" and ?p = "g_ports w ! i"
  have le: "length (frame ?xs) \<le> 2 * len"
    using nspecial_le [of ?xs] assms(5,6) by (simp add: length_frame)
  then have tp: "translate_packet ?dst (drop 1 buff) (len - 2) =
      Some (frame ?xs @ drop (length (frame ?xs)) ?dst, length (frame ?xs))"
    using assms(5,6) by (subst translate_packet_closed) auto
  have pos: "0 < length (frame ?xs)" by (simp add: length_frame)
  obtain st es where st: "port_write ?p (g_os w) (frame ?xs @ drop (length (frame ?xs)) ?dst) (length (frame ?xs)) (g_wr w)
      = Ret (int (length (frame ?xs)), st, es)" "concat (w_out st) = frame ?xs" "w_port st = ?p" "w_os st = g_os w"
    using port_write_all [of ?p "length (frame ?xs)" "frame ?xs @ drop (length (frame ?xs)) ?dst" "g_wr w" "g_os w"]
      assms(3,4) pos le by (auto simp: sink_def accepting_def)
  let ?w = "w\<lparr>g_ports := (g_ports w)[i := w_port st], g_os := w_os st, g_wr := es,
      g_sent := g_sent w @ map (Pair i) (w_out st)\<rparr>"
  have "host_write buff len w = Ret (int (length (frame ?xs)), ?w)"
    using tp st(1) assms(1) by (simp add: host_write_def write_to_host_diag_def)
  moreover have "only_sent i (frame ?xs) w ?w"
    using st(2-4) sent_to_append [of _ w i "w_out st"] by (simp add: only_sent_def sent_to_def)
  ultimately show ?thesis by blast
qed

lemma send_packet_all:
  assumes "host_port w = Some i" and "i < length (g_ports w)" and "sink (g_ports w ! i)"
    and "accepting 512 w" and "length packet \<le> 126"
  shows "\<exists>w'. send_packet packet w = Ret (0, w') \<and> only_sent i (frame (escape packet)) w w'"
proof -
  let ?r = "frame packet @ drop (length (frame packet)) (replicate 256 0)"
  have len: "length (frame packet) \<le> 256" "2 \<le> length (frame packet)"
    using nspecial_le [of packet] assms(5) by (simp_all add: length_frame)
  have "length packet \<le> length (zfill 128 packet)" using assms(5) by (simp add: length_zfill)
  then have tp: "cp_translate_packet (replicate 256 0) (zfill 128 packet) (length packet)
      = Some (?r, length (frame packet))"
    using len(1) by (simp add: cp_translate_eq translate_packet_closed)
  have "take (length (frame packet) - 2) (drop 1 ?r) = escape packet" by (simp add: frame_def)
  then obtain w' where w': "host_write ?r (length (frame packet)) w = Ret (int (length (frame (escape packet))), w')"
    "only_sent i (frame (escape packet)) w w'"
    using host_write_all [OF assms(1-3), of "length (frame packet)" ?r] assms(4) len by (auto simp: accepting_def)
  then have "send_packet packet w = Ret (0, w')" using tp by (simp add: send_packet_def length_frame)
  then show ?thesis using w'(2) by blast
qed

lemma escape_plain: "escape bs = bs \<longleftrightarrow> (\<forall>b \<in> set bs. \<not> special b)"
proof
  assume "escape bs = bs"
  then have "length (escape bs) = length bs" by simp
  then have "nspecial bs = 0" by (simp add: length_escape)
  then show "\<forall>b \<in> set bs. \<not> special b" by (simp add: nspecial_def filter_empty_conv)
next
  assume "\<forall>b \<in> set bs. \<not> special b"
  then show "escape bs = bs" by (induction bs) (simp_all add: esc_byte_def)
qed

subsection \<open>A connection without an entry\<close>

text \<open>The connection to modemd is open, with descriptor \<open>c\<close>, but is none of the entries that are polled.\<close>

definition unpolled :: "int \<Rightarrow> tsync \<Rightarrow> bool" where
  "unpolled c s \<longleftrightarrow> c \<ge> 0 \<and> sc_fd (t_modemd s) = c \<and> sc_index (t_modemd s) = - 1
     \<and> length (t_fds s) = 2 \<and> c \<notin> set (map pf_fd (t_fds s))"

lemma collate_two:
  "fds_collate ([p, q], md, rf) =
    (if pf_fd p < 0 \<and> pf_fd q \<ge> 0
     then ([p\<lparr>pf_fd := pf_fd q\<rparr>, q], if pf_fd q = sc_fd md then md\<lparr>sc_index := 0\<rparr> else md,
           if pf_fd q \<noteq> sc_fd md \<and> pf_fd q = sc_fd rf then rf\<lparr>sc_index := 0\<rparr> else rf)
     else ([p, q], md, rf))"
  by (simp add: fds_collate_def Let_def upt_rec [of 1])

lemma length2: "length xs = 2 \<longleftrightarrow> (\<exists>p q. xs = [p, q])"
  by (auto simp: length_Suc_conv numeral_2_eq_2)

lemma collate_unpolled:
  assumes "length fds = 2" "sc_fd md \<notin> pf_fd ` set fds" "fds_collate (fds, md, rf) = (fds', md', rf')"
  shows "md' = md \<and> length fds' = 2 \<and> (sc_fd md \<notin> pf_fd ` set fds')"
  using assms by (auto simp: length2 collate_two split: if_splits)

lemma mem_update: "p \<in> set (xs[i := y]) \<Longrightarrow> p = y \<or> p \<in> set xs"
  using set_update_subset_insert [of xs i y] by blast

lemma try_connect_entries:
  assumes "try_connect r sock fds n = (i, sock', fds', n')" "r \<noteq> c" "c \<notin> pf_fd ` set fds"
  shows "length fds' = length fds \<and> (c \<notin> pf_fd ` set fds')"
  using assms
  by (auto simp: try_connect_def add_connection_def Let_def split: if_splits dest!: mem_update)

lemma ts_connect_unpolled:
  assumes "unpolled c s" and "in_ref inp \<noteq> c"
  shows "unpolled c (ts_connect inp s) \<and> t_reset (ts_connect inp s) = t_reset s"
proof -
  obtain fds0 md0 rf0 where c0: "(if t_collate s then fds_collate (t_fds s, t_modemd s, t_ref s)
      else (t_fds s, t_modemd s, t_ref s)) = (fds0, md0, rf0)" by (metis prod_cases3)
  have 0: "md0 = t_modemd s \<and> length fds0 = 2 \<and> (c \<notin> pf_fd ` set fds0)"
    using c0 assms(1) collate_unpolled [of "t_fds s" "t_modemd s" "t_ref s" fds0 md0 rf0]
    by (auto simp: unpolled_def split: if_splits)
  obtain rf2 fds2 n2 where c2: "(if sc_fd rf0 < 0 then snd (try_connect (in_ref inp) rf0 fds0 (t_total s))
      else (rf0, fds0, t_total s)) = (rf2, fds2, n2)" by (metis prod_cases3)
  have 2: "length fds2 = 2 \<and> (c \<notin> pf_fd ` set fds2)"
  proof (cases "sc_fd rf0 < 0")
    case True
    then obtain i where "try_connect (in_ref inp) rf0 fds0 (t_total s) = (i, rf2, fds2, n2)"
      using c2 by (cases "try_connect (in_ref inp) rf0 fds0 (t_total s)") simp
    then show ?thesis using try_connect_entries [OF _ assms(2)] 0 by metis
  qed (use c2 0 in simp)
  have "\<not> sc_fd md0 < 0" using 0 assms(1) by (simp add: unpolled_def)
  then have "ts_connect inp s = s\<lparr>t_fds := fds2, t_modemd := md0, t_ref := rf2, t_total := n2, t_collate := False\<rparr>"
    using c0 c2 by (simp add: ts_connect_def)
  then show ?thesis using 0 2 assms(1) by (simp add: unpolled_def)
qed

lemma set_revents_fds: "map pf_fd (t_fds (set_revents inp s)) = map pf_fd (t_fds s)"
  by (rule nth_equalityI) (simp_all add: set_revents_def nth_enumerate_eq)

lemma set_revents_same:
  "t_total (set_revents inp s) = t_total s" "t_modemd (set_revents inp s) = t_modemd s"
  "t_ref (set_revents inp s) = t_ref s" "t_reset (set_revents inp s) = t_reset s"
  "length (t_fds (set_revents inp s)) = length (t_fds s)"
  by (simp_all add: set_revents_def)

lemma set_revents_unpolled: "unpolled c s \<Longrightarrow> unpolled c (set_revents inp s)"
  by (simp only: unpolled_def set_revents_fds set_revents_same simp_thms)

lemma ref_input_unpolled:
  assumes "unpolled c s" and "ref_input i rdv cl (s, w) = Ret (s', w')"
  shows "unpolled c s' \<and> (t_reset s' \<longrightarrow> t_reset s)"
proof -
  have drop: "unpolled c (drop_conn i (s\<lparr>t_ref := r\<rparr>))" for r
    using assms(1) by (auto simp: unpolled_def drop_conn_def dest!: mem_update)
  show ?thesis
  proof (cases rdv)
    case (Some bs)
    define got where "got = take 8 bs"
    have r: "ref_input i rdv cl (s, w) =
        (if got = [] then Ret (drop_conn i (s\<lparr>t_ref := (t_ref s)\<lparr>sc_fd := - 1\<rparr>\<rparr>), w)
         else if length got \<noteq> 8 then Ret (s, w)
         else if t_reset s
         then cbind (time_sync_rsp_handle (current_ap_time_stamp_handle cl (sync_of_bytes got)) w)
                (\<lambda>(ret, w'). Ret (s\<lparr>t_time := sync_of_bytes got, t_reset := False\<rparr>, w'))
         else Ret (s\<lparr>t_time := sync_of_bytes got\<rparr>, w))"
      by (simp add: ref_input_def Some got_def [symmetric] Let_def)
    show ?thesis using assms drop [of "(t_ref s)\<lparr>sc_fd := - 1\<rparr>"] unfolding r
      by (cases "time_sync_rsp_handle (current_ap_time_stamp_handle cl (sync_of_bytes got)) w")
        (auto simp: unpolled_def drop_conn_def split: if_splits)
  qed (use assms in \<open>simp add: ref_input_def\<close>)
qed

lemma ts_entry_unpolled:
  assumes "unpolled c s" and "ts_entry inp i (s, w) = Ret (s', w')"
  shows "unpolled c s' \<and> (t_reset s' \<longrightarrow> t_reset s)"
proof -
  have "int i \<noteq> sc_index (t_modemd s)" using assms(1) by (simp add: unpolled_def)
  then show ?thesis using assms ref_input_unpolled [OF assms(1), of i "in_read inp i" "in_clock inp" w s' w']
    by (auto simp: ts_entry_def split: if_splits)
qed

lemma ts_entries_unpolled:
  "unpolled c s \<Longrightarrow> ts_entries inp js (s, w) = Ret (s', w') \<Longrightarrow> unpolled c s' \<and> (t_reset s' \<longrightarrow> t_reset s)"
proof (induction js arbitrary: s w)
  case (Cons i js)
  show ?case
  proof (cases "int i < t_total s")
    case True
    then obtain s1 w1 where m: "ts_entry inp i (s, w) = Ret (s1, w1)" "ts_entries inp js (s1, w1) = Ret (s', w')"
      using Cons.prems(2) by (cases "ts_entry inp i (s, w)") auto
    then show ?thesis using Cons.IH [OF _ m(2)] ts_entry_unpolled [OF Cons.prems(1) m(1)] by blast
  qed (use Cons.prems in simp)
qed simp

lemma ts_turn_unpolled:
  assumes "unpolled c s" and "in_ref inp \<noteq> c" and "ts_turn inp (s, w) = Ret (s', w')"
  shows "unpolled c s' \<and> (t_reset s' \<longrightarrow> t_reset s)"
proof -
  let ?s = "ts_connect inp s"
  have c: "unpolled c ?s" "t_reset ?s = t_reset s" using ts_connect_unpolled [OF assms(1,2)] by simp_all
  have r: "unpolled c (set_revents inp ?s)" "t_reset (set_revents inp ?s) = t_reset s"
    using set_revents_unpolled [OF c(1)] c(2) by (simp_all add: set_revents_def)
  show ?thesis
  proof (cases "t_total ?s \<noteq> 0 \<and> in_poll inp > 0")
    case True
    then have "ts_entries inp [0..<nat (t_total (set_revents inp ?s))] (set_revents inp ?s, w) = Ret (s', w')"
      using assms(3) by (simp add: ts_turn_def Let_def)
    from ts_entries_unpolled [OF r(1) this] r(2) show ?thesis by simp
  qed (use assms(3) c r in \<open>auto simp: ts_turn_def Let_def split: if_splits\<close>)
qed

lemma reach_unpolled:
  assumes "ts_reach (\<lambda>inp. in_ref inp \<noteq> c) sw sw'" and "unpolled c (fst sw)"
  shows "unpolled c (fst sw') \<and> (t_reset (fst sw') \<longrightarrow> t_reset (fst sw))"
  using assms
proof (induction rule: ts_reach.induct)
  case (reach_turn s s' inp s'')
  then have "unpolled c (fst s') \<and> (t_reset (fst s') \<longrightarrow> t_reset (fst s))" by blast
  moreover from this have "unpolled c (fst s'') \<and> (t_reset (fst s'') \<longrightarrow> t_reset (fst s'))"
    using ts_turn_unpolled [of c "fst s'" inp "snd s'" "fst s''" "snd s''"] reach_turn.hyps(2,3) by simp
  ultimately show ?case by blast
qed simp

section \<open>Properties\<close>

definition sample_clock :: clock where
  "sample_clock = \<lparr>now_sec = 100, now_usec = 5, now_up = 7, now_time = 100, now_mktime = Some 100\<rparr>"

definition sample_stamp :: modem_timestamp where
  "sample_stamp = \<lparr>tv_sec = 126, tv_usec = 5, ts_sys_cnt = 9\<rparr>"

text \<open>A host with a diag port that accepts data.\<close>

definition host_world :: "unit world" where
  "host_world = (sample_world (sample_thread KLog DATA_LOG 0) [])
     \<lparr>g_mgr := Some (modmgr_new\<lparr>m_lpHostDiagPort := Some 0\<rparr>), g_wr := replicate 600 (WSent 50)\<rparr>"

lemma host_world_ready:
  "host_port host_world = Some 0" "0 < length (g_ports host_world)" "sink (g_ports host_world ! 0)"
  "accepting 512 host_world"
  by (simp_all add: host_world_def host_port_def sample_world_defs)

text \<open>C27 (time stamps): when the host has a diag port that takes the data, a time stamp is sent to it and
  to nothing else, and its packet is escaped twice on the way, once by \<open>cpctl.cpp\<close> and once by
  \<open>write_to_host_diag\<close>: what arrives is the frame of the escaped packet. It is the frame of the packet
  itself, from which the host gets the time stamp, exactly when no byte of the packet needs escaping.\<close>

theorem time_sync_double_escape:
  assumes "host_port w = Some i" and "i < length (g_ports w)" and "sink (g_ports w ! i)" and "accepting 512 w"
  shows "\<exists>w'. time_sync_rsp_handle t w = Ret (0, w') \<and> only_sent i (frame (escape (time_packet t))) w w'
    \<and> (frame (escape (time_packet t)) = frame (time_packet t) \<longleftrightarrow> (\<forall>b \<in> set (time_packet t). \<not> special b))"
proof -
  have "length (time_packet t) \<le> 126" by (simp add: time_packet_def MSG_HEAD_SIZE_def ts_bytes_def)
  from send_packet_all [OF assms this] show ?thesis
    by (auto simp: time_sync_rsp_handle_def frame_eq_iff escape_plain)
qed

theorem time_sync_double_escape_witness:
  "\<exists>w'. time_sync_rsp_handle sample_stamp host_world = Ret (0, w')
     \<and> only_sent 0 (frame (escape (time_packet sample_stamp))) host_world w'
     \<and> frame (escape (time_packet sample_stamp)) \<noteq> frame (time_packet sample_stamp)"
proof -
  have "0x7E \<in> set (time_packet sample_stamp)" by (simp add: time_packet_def ts_bytes_def sample_stamp_def le32_def)
  then show ?thesis using time_sync_double_escape [OF host_world_ready, of sample_stamp] special_consts(2) by blast
qed

text \<open>Both connections are up: modemd's is entry 0, the reference-notify server's entry 1.\<close>

definition both_up :: "int \<Rightarrow> int \<Rightarrow> tsync \<Rightarrow> bool" where
  "both_up a b s \<longleftrightarrow> a \<ge> 0 \<and> b \<ge> 0 \<and> a \<noteq> b \<and> map pf_fd (t_fds s) = [a, b]
     \<and> sc_fd (t_modemd s) = a \<and> sc_index (t_modemd s) = 0 \<and> sc_fd (t_ref s) = b \<and> sc_index (t_ref s) = 1
     \<and> sc_max_retry (t_modemd s) = 0 \<and> t_total s = 2 \<and> \<not> t_collate s"

lemma both_up_connect: "both_up a b s \<Longrightarrow> ts_connect inp s = s"
  by (simp add: both_up_def ts_connect_def)

lemma both_up_entries:
  assumes "both_up a b s" and "in_poll inp > 0"
  shows "ts_turn inp (s, w) = ts_entries inp [0, 1] (set_revents inp s, w)"
    and "pf_revents (t_fds (set_revents inp s) ! 0) = in_revents inp 0"
    and "pf_revents (t_fds (set_revents inp s) ! 1) = in_revents inp 1"
proof -
  have t: "t_total s = 2" "length (t_fds s) = 2" using assms(1) by (auto simp: both_up_def map_eq_Cons_conv)
  have u: "[0..<2] = [0, Suc 0]" by (simp add: upt_rec)
  show "ts_turn inp (s, w) = ts_entries inp [0, 1] (set_revents inp s, w)"
    using assms(2) t(1) by (simp add: ts_turn_def both_up_connect [OF assms(1)] Let_def u set_revents_def)
  show "pf_revents (t_fds (set_revents inp s) ! 0) = in_revents inp 0"
    "pf_revents (t_fds (set_revents inp s) ! 1) = in_revents inp 1"
    using t by (simp_all add: set_revents_def nth_enumerate_eq)
qed

text \<open>modemd's connection in entry 0 was lost and the time service, in entry 1, is still connected:
  before the next turn closes the gap, and after it did.\<close>

definition waiting :: "int \<Rightarrow> tsync \<Rightarrow> bool" where
  "waiting b s \<longleftrightarrow> b \<ge> 0 \<and> sc_fd (t_modemd s) < 0 \<and> sc_max_retry (t_modemd s) = 0 \<and> sc_fd (t_ref s) = b
     \<and> t_total s = 1 \<and> map pf_fd (t_fds s) = (if t_collate s then [- 1, b] else [b, b])"

text \<open>A turn in which modemd does not accept and the time service does not hang up.\<close>

definition no_modemd :: "ts_in \<Rightarrow> bool" where
  "no_modemd inp \<longleftrightarrow> in_modemd inp < 0 \<and> in_read inp 0 \<noteq> Some []"

lemma waiting_collated:
  assumes "waiting b s"
  shows "\<exists>p q rf. (if t_collate s then fds_collate (t_fds s, t_modemd s, t_ref s) else (t_fds s, t_modemd s, t_ref s))
      = ([p, q], t_modemd s, rf) \<and> pf_fd p = b \<and> pf_fd q = b \<and> sc_fd rf = b"
  using assms by (auto simp: waiting_def map_eq_Cons_conv collate_two)

lemma waiting_connect: "waiting b s \<Longrightarrow> in_modemd inp < 0 \<Longrightarrow> waiting b (ts_connect inp s)"
  using waiting_collated [of b s] by (auto simp: ts_connect_def try_connect_def waiting_def)

lemma waiting_reconnect:
  "waiting b s \<Longrightarrow> in_modemd inp = c \<Longrightarrow> c \<ge> 0 \<Longrightarrow> c \<noteq> b \<Longrightarrow>
   unpolled c (ts_connect inp s) \<and> t_reset (ts_connect inp s) = t_reset s"
  using waiting_collated [of b s]
  by (auto simp: ts_connect_def try_connect_def add_connection_def waiting_def unpolled_def)

lemma waiting_revents: "waiting b s \<Longrightarrow> waiting b (set_revents inp s)"
  by (simp only: waiting_def set_revents_fds set_revents_same) (simp add: set_revents_def)

lemma waiting_entry:
  assumes "waiting b s" and "in_read inp i \<noteq> Some []" and "ts_entry inp i (s, w) = Ret (s', w')"
  shows "waiting b s'"
proof -
  have m: "waiting b s'" if "modemd_input i (in_read inp i) (s, w) = Ret (s', w')"
    using that assms(1,2)
    by (cases "cp_event_notify_rsp_handle SS_MODEM CE_RESET w")
      (auto simp: modemd_input_def waiting_def Let_def split: option.splits if_splits)
  have r: "waiting b s'" if "ref_input i (in_read inp i) (in_clock inp) (s, w) = Ret (s', w')"
  proof (cases "in_read inp i")
    case (Some bs)
    then show ?thesis using that assms(1,2)
      by (cases "time_sync_rsp_handle (current_ap_time_stamp_handle (in_clock inp) (sync_of_bytes (take 8 bs))) w")
        (auto simp: ref_input_def waiting_def Let_def split: if_splits)
  qed (use that assms(1) in \<open>simp add: ref_input_def\<close>)
  show ?thesis using assms m r by (auto simp: ts_entry_def split: if_splits)
qed

lemma waiting_turn:
  assumes "waiting b s" and "no_modemd inp" and "ts_turn inp (s, w) = Ret (s', w')"
  shows "waiting b s'"
proof -
  let ?s = "set_revents inp (ts_connect inp s)"
  have c: "waiting b (ts_connect inp s)" using waiting_connect assms(1,2) by (simp add: no_modemd_def)
  then have r: "waiting b ?s" by (rule waiting_revents)
  then have one: "ts_turn inp (s, w) = (if in_poll inp > 0 then ts_entry inp 0 (?s, w) else Ret (?s, w))"
    using c by (cases "ts_entry inp 0 (?s, w)") (simp_all add: ts_turn_def Let_def waiting_def)
  show ?thesis using assms(2,3) r waiting_entry [of b ?s inp 0 w s' w'] unfolding one
    by (auto simp: no_modemd_def split: if_splits)
qed

lemma reach_waiting:
  assumes "ts_reach no_modemd sw sw'" and "waiting b (fst sw)"
  shows "waiting b (fst sw')"
  using assms
proof (induction rule: ts_reach.induct)
  case (reach_turn s s' inp s'')
  then show ?case using waiting_turn [of b "fst s'" inp "snd s'" "fst s''" "snd s''"] by simp
qed simp

lemma modemd_lost:
  assumes "both_up a b s" and "in_poll inp > 0" and "in_revents inp 0 AND POLLIN \<noteq> 0" and "in_read inp 0 = Some []"
    and "ts_turn inp (s, w) = Ret sw1"
  shows "waiting b (fst sw1)"
proof -
  let ?s0 = "set_revents inp s"
  let ?s1 = "drop_conn 0 (?s0\<lparr>t_modemd := (t_modemd s)\<lparr>sc_fd := - 1\<rparr>\<rparr>)"
  have u: "sc_index (t_modemd s) = 0" "t_total s = 2" using assms(1) by (simp_all add: both_up_def)
  note e = both_up_entries [OF assms(1,2)]
  have "ts_entry inp 0 (?s0, w) = Ret (?s1, w)"
    using assms(3,4) u(1) by (simp add: ts_entry_def e(2) set_revents_same modemd_input_def)
  then have "ts_turn inp (s, w) = Ret (?s1, w)"
    by (simp add: e(1) set_revents_same u(2) drop_conn_def)
  then have sw1: "fst sw1 = ?s1" using assms(5) by auto
  have "map pf_fd (t_fds ?s0) = [a, b]" using assms(1) by (simp only: set_revents_fds both_up_def)
  then obtain p q where "t_fds ?s0 = [p, q]" "pf_fd q = b" by (auto simp: map_eq_Cons_conv)
  then show ?thesis using assms(1) unfolding sw1
    by (simp add: waiting_def drop_conn_def both_up_def set_revents_same)
qed

text \<open>C14 (a connection is lost): modemd's connection is entry 0 of the poll array and the time
  service's is entry 1, as after a first turn in which both servers accept, and modemd closes its
  one. When the daemon is connected to modemd again (descriptor \<open>c\<close>) - in the next turn, or after any
  number of turns in which modemd does not accept and the time service does not hang up - that
  connection gets no entry of the poll array. From then on, whatever happens, as long as the time
  service is not given the descriptor \<open>c\<close>: \<open>c\<close> is in no entry, so nothing modemd says is ever read, and
  no modem reset is noticed any more.\<close>

theorem modemd_never_polled_again:
  assumes "both_up a b s" and "in_poll inp > 0" and "in_revents inp 0 AND POLLIN \<noteq> 0" and "in_read inp 0 = Some []"
    and "ts_turn inp (s, w) = Ret sw0" and "ts_reach no_modemd sw0 sw1"
    and "in_modemd inp1 = c" and "c \<ge> 0" and "c \<noteq> b" and "ts_turn inp1 sw1 = Ret sw2"
    and "ts_reach (\<lambda>inp. in_ref inp \<noteq> c) sw2 sw'"
  shows "unpolled c (fst sw') \<and> (t_reset (fst sw') \<longrightarrow> t_reset (fst sw1))"
proof -
  have w: "waiting b (fst sw1)" using reach_waiting [OF assms(6)] modemd_lost [OF assms(1-5)] by blast
  let ?t = "ts_connect inp1 (fst sw1)"
  have conn: "unpolled c ?t \<and> t_reset ?t = t_reset (fst sw1)" by (rule waiting_reconnect [OF w assms(7-9)])
  obtain s1 w1 where s1: "sw1 = (s1, w1)" by (cases sw1)
  obtain s2 w2 where s2: "sw2 = (s2, w2)" by (cases sw2)
  have turn: "ts_turn inp1 (s1, w1) = Ret (s2, w2)" using assms(10) s1 s2 by simp
  have "unpolled c (fst sw2) \<and> (t_reset (fst sw2) \<longrightarrow> t_reset (fst sw1))"
  proof (cases "t_total ?t \<noteq> 0 \<and> in_poll inp1 > 0")
    case True
    then have "ts_entries inp1 [0..<nat (t_total (set_revents inp1 ?t))] (set_revents inp1 ?t, w1) = Ret (s2, w2)"
      using turn s1 by (simp add: ts_turn_def Let_def)
    from ts_entries_unpolled [OF _ this] show ?thesis
      using conn set_revents_unpolled [of c ?t inp1] s2 by (simp add: set_revents_same)
  next
    case False
    then show ?thesis using conn turn set_revents_unpolled [of c ?t inp1] s1 s2
      by (auto simp: ts_turn_def Let_def set_revents_same split: if_splits)
  qed
  then show ?thesis using reach_unpolled [OF assms(11)] by blast
qed

definition sample_in :: "int \<Rightarrow> int \<Rightarrow> ts_in" where
  "sample_in m r = \<lparr>in_modemd = m, in_ref = r, in_poll = 1, in_revents = \<lambda>i. if i = 0 then POLLIN else 0,
     in_read = \<lambda>i. Some [], in_clock = sample_clock\<rparr>"

definition sample_ts :: tsync where
  "sample_ts = ts_connect (sample_in 5 6) tsync_new"

lemma sample_both_up: "both_up 5 6 sample_ts"
  by (simp add: both_up_def sample_ts_def sample_in_def tsync_new_def ts_connect_def conn_new_def fds_init_def
      FDS_SIZE_def try_connect_def add_connection_def Let_def numeral_2_eq_2)

theorem modemd_never_polled_again_witness:
  "\<exists>s0 w0 s1 w1 s2 w2. ts_turn (sample_in 7 6) (sample_ts, host_world) = Ret (s0, w0)
     \<and> ts_turn ((sample_in (- 1) 8)\<lparr>in_read := \<lambda>i. None\<rparr>) (s0, w0) = Ret (s1, w1)
     \<and> ts_turn (sample_in 7 8) (s1, w1) = Ret (s2, w2) \<and> unpolled 7 s2"
proof -
  let ?quiet = "(sample_in (- 1) 8)\<lparr>in_read := \<lambda>i. None\<rparr>"
  have one: "\<exists>s' w'. ts_turn inp (s, w) = Ret (s', w')" if "\<forall>i. in_read inp i = Some [] \<or> in_read inp i = None"
    for inp s and w :: "unit world"
  proof -
    have e: "\<exists>s'. ts_entry inp i (s, w) = Ret (s', w)" for i s
    proof (cases "in_read inp i")
      case None
      then show ?thesis by (simp add: ts_entry_def modemd_input_def ref_input_def)
    next
      case (Some bs)
      then have "in_read inp i = Some []" using spec [OF that, of i] by simp
      then show ?thesis by (simp add: ts_entry_def modemd_input_def ref_input_def)
    qed
    have "\<exists>s'. ts_entries inp js (s, w) = Ret (s', w)" for js s
    proof (induction js arbitrary: s)
      case (Cons j js)
      obtain s' where "ts_entry inp j (s, w) = Ret (s', w)" using e by blast
      then show ?case using Cons.IH [of s'] by simp
    qed simp
    then show ?thesis by (simp add: ts_turn_def Let_def) blast
  qed
  have h: "\<forall>i. in_read (sample_in m r) i = Some [] \<or> in_read (sample_in m r) i = None" for m r
    by (simp add: sample_in_def)
  obtain s0 w0 where 0: "ts_turn (sample_in 7 6) (sample_ts, host_world) = Ret (s0, w0)" using one [OF h] by blast
  have "\<forall>i. in_read ?quiet i = Some [] \<or> in_read ?quiet i = None" by simp
  then obtain s1 w1 where 1: "ts_turn ?quiet (s0, w0) = Ret (s1, w1)" using one by blast
  obtain s2 w2 where 2: "ts_turn (sample_in 7 8) (s1, w1) = Ret (s2, w2)" using one [OF h] by blast
  have r: "ts_reach no_modemd (s0, w0) (s1, w1)"
    using reach_turn [OF reach_refl, of no_modemd ?quiet] 1 by (simp add: no_modemd_def sample_in_def)
  have "unpolled 7 (fst (s2, w2))"
    using modemd_never_polled_again [OF sample_both_up _ _ _ 0 r _ _ _ 2 reach_refl, of 7]
    by (simp add: sample_in_def POLLIN_def)
  then show ?thesis using 0 1 2 by auto
qed

end
