(* ===== verification/Usb.thy ===== *)
theory Usb
  imports Channel Adapter
begin

text \<open>
  USB and the boot mode (\<open>server/common/usb.cpp\<close>, \<open>server/common/bootmode.cpp\<close>): the charger and speed
  switches, the USB state, the thread that reads kernel uevents and turns the host's ports on and
  off, and the choice of the boot mode. Files of the kernel and uevents are input data (theory Adapter).
\<close>

section \<open>Switches\<close>

text \<open>\<open>write(fd, c, 2)\<close> also writes the string's NUL.\<close>

definition vbus_write :: "byte list \<Rightarrow> 'p sys \<Rightarrow> int \<times> 'p sys" where
  "vbus_write bs s =
     (case OS_getChargeStopPath s of
        None \<Rightarrow> (1, s)
      | Some path \<Rightarrow>
          if y_wopen s path
          then if y_wret s path < 0 then (0, s) else (1, file_write path bs s)
          else (0, s))"

definition disconnect_vbus_charger :: "'p sys \<Rightarrow> int \<times> 'p sys" where
  "disconnect_vbus_charger s = vbus_write (cs ''1'' @ [0]) s"

definition connect_vbus_charger :: "'p sys \<Rightarrow> int \<times> 'p sys" where
  "connect_vbus_charger s = vbus_write (cs ''0'' @ [0]) s"

datatype USB_DEVICE_SPEED_ENUM =
  USB_SPEED_UNKNOWN | USB_SPEED_LOW | USB_SPEED_FULL | USB_SPEED_HIGH | USB_SPEED_WIRELESS | USB_SPEED_SUPER

fun usb_speed_val :: "USB_DEVICE_SPEED_ENUM \<Rightarrow> nat" where
  "usb_speed_val USB_SPEED_UNKNOWN = 0" | "usb_speed_val USB_SPEED_LOW = 1" | "usb_speed_val USB_SPEED_FULL = 2"
| "usb_speed_val USB_SPEED_HIGH = 3" | "usb_speed_val USB_SPEED_WIRELESS = 4" | "usb_speed_val USB_SPEED_SUPER = 5"

definition eng_usb_maximum_speed :: "USB_DEVICE_SPEED_ENUM \<Rightarrow> 'p sys \<Rightarrow> 'p sys" where
  "eng_usb_maximum_speed speed s =
     (case OS_usb_getMaxSpeedPath s of
        None \<Rightarrow> s
      | Some path \<Rightarrow> if y_wopen s path then file_write path (show_nat (usb_speed_val speed)) s else s)"

text \<open>A failing \<open>read\<close> leaves its result, -1 or 0, in \<open>ret\<close>.\<close>

definition eng_usb_state :: "'p sys \<Rightarrow> int" where
  "eng_usb_state s =
     (case OS_usb_getStatePath s of
        None \<Rightarrow> 1
      | Some path \<Rightarrow>
          (case y_read s path of
             None \<Rightarrow> 0
           | Some (ret, bs) \<Rightarrow>
               if ret > 0
               then if strneq 10 (take 32 bs) (cs ''CONFIGURED'') \<or> strneq 9 (take 32 bs) (cs ''CONNECTED'') then 1 else 0
               else ret))"

definition BOOTMODE_CALI :: "byte list" where "BOOTMODE_CALI = cs ''cali''"
definition BOOTMODE_AUTOTEST :: "byte list" where "BOOTMODE_AUTOTEST = cs ''autotest''"
definition BOOTMODE_FACTORYTEST :: "byte list" where "BOOTMODE_FACTORYTEST = cs ''factorytest''"
definition BOOTMODE_NORMAL :: "byte list" where "BOOTMODE_NORMAL = cs ''normal''"
definition BOOTMODE_NORMAL_LITE :: "byte list" where "BOOTMODE_NORMAL_LITE = cs ''normal_lite''"

definition usb_mode :: "'p prop_service \<Rightarrow> byte list \<Rightarrow> 'p sys \<Rightarrow> (int \<times> 'p sys) option" where
  "usb_mode pf bootmode s =
     (if strcaseeq bootmode BOOTMODE_CALI then do {
        s' \<leftarrow> OS_usb_vser_enable pf 2 (eng_usb_maximum_speed USB_SPEED_FULL (snd (disconnect_vbus_charger s)));
        Some (0, s')
      }
      else if strcaseeq bootmode BOOTMODE_AUTOTEST then do {
        s' \<leftarrow> OS_usb_vser_enable pf 0 (eng_usb_maximum_speed USB_SPEED_FULL (snd (disconnect_vbus_charger s)));
        Some (0, s')
      }
      else Some (0, s))"

section \<open>Uevents\<close>

text \<open>The strings the fields point to.\<close>

record uevent =
  ue_action :: "byte list"
  ue_path :: "byte list"
  ue_subsystem :: "byte list"
  ue_usb_connect :: "byte list"

definition uevent_empty :: uevent where
  "uevent_empty = \<lparr>ue_action = [], ue_path = [], ue_subsystem = [], ue_usb_connect = []\<rparr>"

definition uevent_field :: "byte list \<Rightarrow> uevent \<Rightarrow> uevent" where
  "uevent_field msg e =
     (if strneq 7 msg (cs ''ACTION='') then e\<lparr>ue_action := drop 7 msg\<rparr>
      else if strneq 8 msg (cs ''DEVPATH='') then e\<lparr>ue_path := drop 8 msg\<rparr>
      else if strneq 10 msg (cs ''SUBSYSTEM='') then e\<lparr>ue_subsystem := drop 10 msg\<rparr>
      else if strneq 10 msg (cs ''USB_STATE='') then e\<lparr>ue_usb_connect := drop 10 msg\<rparr>
      else e)"

text \<open>The loop of \<open>parse_event\<close> with the pointer at \<open>off\<close>.\<close>

function parse_event_loop :: "mem \<Rightarrow> nat \<Rightarrow> uevent \<Rightarrow> uevent option" where
  "parse_event_loop m off e =
     (if off < length m
      then if m ! off = 0 then Some e
           else (case cstr_at m off of
                   None \<Rightarrow> None
                 | Some msg \<Rightarrow> parse_event_loop m (off + length msg + 1) (uevent_field msg e))
      else None)"
  by pat_completeness auto
termination
  by (relation "measure (\<lambda>(m, off, e). length m - off)") auto

declare parse_event_loop.simps [simp del]

definition parse_event :: "mem \<Rightarrow> uevent option" where
  "parse_event m = parse_event_loop m 0 uevent_empty"

definition handle_device_event :: "devmgr option \<Rightarrow> uevent \<Rightarrow> port list \<Rightarrow> port list" where
  "handle_device_event mgr e ports =
     (if strneq 10 (ue_usb_connect e) (cs ''CONFIGURED'') then snd (devmgr_notify USB_CONNECT mgr ports)
      else if strneq 12 (ue_usb_connect e) (cs ''DISCONNECTED'') then snd (devmgr_notify USB_DISCONNECT mgr ports)
      else ports)"

definition UEVENT_MSG_LEN :: nat where "UEVENT_MSG_LEN = 1024"

text \<open>\<open>handle_device_fd\<close>: what the socket delivers until it has nothing more (an empty message or the
  end of the list). A message that fills the buffer is discarded.\<close>

fun handle_device_fd :: "devmgr option \<Rightarrow> mem list \<Rightarrow> port list \<Rightarrow> port list option" where
  "handle_device_fd mgr [] ports = Some ports"
| "handle_device_fd mgr (bs # msgs) ports =
     (if bs = [] then Some ports
      else if length bs \<ge> UEVENT_MSG_LEN then handle_device_fd mgr msgs ports
      else do { e \<leftarrow> parse_event (bs @ [0, 0]);
                handle_device_fd mgr msgs (handle_device_event mgr e ports) })"

text \<open>\<open>eng_uevt_thread\<close> with \<open>CDevMgr::notify\<close> registered: the state at the start, then the polls
  (\<open>None\<close>: nothing, or something else than \<open>POLLIN\<close>). Without a socket it returns.\<close>

fun uevt_polls :: "devmgr option \<Rightarrow> mem list option list \<Rightarrow> port list \<Rightarrow> port list option" where
  "uevt_polls mgr [] ports = Some ports"
| "uevt_polls mgr (None # ps) ports = uevt_polls mgr ps ports"
| "uevt_polls mgr (Some msgs # ps) ports = do { ports' \<leftarrow> handle_device_fd mgr msgs ports; uevt_polls mgr ps ports' }"

definition eng_uevt_thread ::
  "bool \<Rightarrow> 'p sys \<Rightarrow> devmgr option \<Rightarrow> mem list option list \<Rightarrow> port list \<Rightarrow> port list option" where
  "eng_uevt_thread sock s mgr polls ports =
     (if \<not> sock then Some ports
      else uevt_polls mgr polls
        (snd (devmgr_notify (if eng_usb_state s \<noteq> 0 then USB_CONNECT else USB_DISCONNECT) mgr ports)))"

section \<open>The boot mode\<close>

definition parseCmdline :: "'p sys \<Rightarrow> byte list option" where
  "parseCmdline s =
     (case y_read s (cs ''/proc/cmdline'') of
        None \<Rightarrow> None
      | Some (ret, bs) \<Rightarrow>
          if ret > 0
          then (let cmdline = takeWhile (\<lambda>b. b \<noteq> 0) (take 1023 bs) in
                if strstr cmdline (cs ''androidboot.mode=cali'') \<noteq> None then Some BOOTMODE_CALI
                else if strstr cmdline (cs ''androidboot.mode=autotest'') \<noteq> None then Some BOOTMODE_AUTOTEST
                else if strstr cmdline (cs ''androidboot.mode=factorytest'') \<noteq> None then Some BOOTMODE_FACTORYTEST
                else None)
          else None)"

definition initBootMode :: "'p prop_service \<Rightarrow> 'p sys \<Rightarrow> byte list" where
  "initBootMode pf s =
     (case parseCmdline s of
        None \<Rightarrow> if strcaseeq (OS_usb_getConf pf s) (cs '',gser'') then BOOTMODE_NORMAL else BOOTMODE_NORMAL_LITE
      | Some b \<Rightarrow> b)"

section \<open>Facts\<close>

lemma parse_event_step:
  assumes "0 \<notin> set s" and "s \<noteq> []"
  shows "parse_event_loop (pre @ s @ 0 # rest) (length pre) e =
    parse_event_loop ((pre @ s @ [0]) @ rest) (length (pre @ s @ [0])) (uevent_field s e)"
proof -
  have t: "takeWhile (\<lambda>b. b \<noteq> 0) (s @ 0 # rest) = s"
    by (subst takeWhile_append2) (use assms(1) in auto)
  obtain b s' where s: "s = b # s'" "b \<noteq> 0" using assms by (cases s) auto
  have "cstr_at (pre @ s @ 0 # rest) (length pre) = Some s" by (simp add: cstr_at_def t)
  then show ?thesis using s by (subst parse_event_loop.simps) simp
qed

lemma parse_event_strings:
  assumes "list_all (\<lambda>s. s \<noteq> [] \<and> 0 \<notin> set s) ss"
  shows "parse_event_loop (pre @ concat (map (\<lambda>s. s @ [0]) ss) @ 0 # rest) (length pre) e = Some (fold uevent_field ss e)"
  using assms
proof (induction ss arbitrary: pre e)
  case Nil
  then show ?case by (subst parse_event_loop.simps) simp
next
  case (Cons s ss)
  then show ?case
    using parse_event_step [of s pre "concat (map (\<lambda>s. s @ [0]) ss) @ 0 # rest" e]
      Cons.IH [of "pre @ s @ [0]" "uevent_field s e"] by simp
qed

text \<open>The last string with the prefix decides a field.\<close>

lemma fold_usb_state:
  "ue_usb_connect (fold uevent_field ss e) =
    (case List.find (\<lambda>s. strneq 10 s (cs ''USB_STATE='')) (rev ss) of None \<Rightarrow> ue_usb_connect e | Some s \<Rightarrow> drop 10 s)"
proof (induction ss rule: rev_induct)
  case (snoc s ss)
  have f: "ue_usb_connect (uevent_field s e') = (if strneq 10 s (cs ''USB_STATE='') then drop 10 s else ue_usb_connect e')" for e'
  proof (cases "strneq 10 s (cs ''USB_STATE='')")
    case True
    then have t: "take 10 s = cs ''USB_STATE=''" by (simp add: strneq_def)
    have "take 7 s = take 7 (cs ''USB_STATE='')" "take 8 s = take 8 (cs ''USB_STATE='')"
      using arg_cong [OF t, of "take 7"] arg_cong [OF t, of "take 8"] by simp_all
    then show ?thesis using True t by (simp add: uevent_field_def strneq_def)
  qed (simp add: uevent_field_def)
  show ?case unfolding rev_append by (simp add: f snoc del: cs_simps)
qed simp

section \<open>Properties\<close>

text \<open>(uevents): a kernel message is a sequence of strings, each ended by a NUL; whatever the
  strings are and in whatever order, parsing stays inside the message and takes the USB state from
  the last string that starts with \<open>USB_STATE=\<close>, and from no other.\<close>

theorem parse_event_usb_state:
  assumes "list_all (\<lambda>s. s \<noteq> [] \<and> 0 \<notin> set s) ss"
  shows "\<exists>e. parse_event (concat (map (\<lambda>s. s @ [0]) ss) @ [0, 0]) = Some e
    \<and> ue_usb_connect e = (case List.find (\<lambda>s. strneq 10 s (cs ''USB_STATE='')) (rev ss) of
        None \<Rightarrow> [] | Some s \<Rightarrow> drop 10 s)"
  using parse_event_strings [OF assms, of "[]" "[0]"]
  by (simp add: parse_event_def fold_usb_state uevent_empty_def del: cs_simps split: option.split)

theorem parse_event_usb_state_witness:
  "\<exists>e. parse_event (concat (map (\<lambda>s. s @ [0]) [cs ''ACTION=change'', cs ''USB_STATE=CONFIGURED'']) @ [0, 0]) = Some e
     \<and> ue_usb_connect e = cs ''CONFIGURED''"
  using parse_event_usb_state [of "[cs ''ACTION=change'', cs ''USB_STATE=CONFIGURED'']"]
  by (simp add: strneq_def)

text \<open>(boot mode): without a test mode on the kernel command line the daemon starts in one of the
  two normal modes, and it never starts in one that no table of channels is named after.\<close>

theorem initBootMode_range:
  "initBootMode pf s \<in> {BOOTMODE_CALI, BOOTMODE_AUTOTEST, BOOTMODE_FACTORYTEST, BOOTMODE_NORMAL, BOOTMODE_NORMAL_LITE}
   \<and> (initBootMode pf s = BOOTMODE_NORMAL \<longleftrightarrow>
        parseCmdline s = None \<and> strcaseeq (OS_usb_getConf pf s) (cs '',gser''))"
proof -
  have "BOOTMODE_CALI \<noteq> BOOTMODE_NORMAL" "BOOTMODE_AUTOTEST \<noteq> BOOTMODE_NORMAL" "BOOTMODE_FACTORYTEST \<noteq> BOOTMODE_NORMAL"
    "BOOTMODE_NORMAL_LITE \<noteq> BOOTMODE_NORMAL"
    by (simp_all add: BOOTMODE_CALI_def BOOTMODE_AUTOTEST_def BOOTMODE_FACTORYTEST_def BOOTMODE_NORMAL_def
        BOOTMODE_NORMAL_LITE_def)
  moreover have "parseCmdline s = None \<or> (\<exists>b. parseCmdline s = Some b \<and> b \<in> {BOOTMODE_CALI, BOOTMODE_AUTOTEST, BOOTMODE_FACTORYTEST})"
    by (auto simp: parseCmdline_def Let_def simp del: cs_simps split: option.split)
  ultimately show ?thesis by (auto simp: initBootMode_def simp del: cs_simps)
qed

end
