(* ===== verification/EngCtl.thy ===== *)
theory EngCtl
  imports Channel
begin

text \<open>
  The log level (\<open>server/common/englog.cpp\<close>) with its AT command \<open>AT+SPENGPCLOGLEVEL\<close>, and the control
  server (\<open>server/common/engctl.cpp\<close>), which lets a client switch channels on and off.
\<close>

section \<open>\<open>EngLog\<close>\<close>

text \<open>The level is an \<open>int\<close>: the AT command stores any character's value.\<close>

definition LOG_ERR :: int where "LOG_ERR = 1"
definition LOG_WARN :: int where "LOG_WARN = 2"
definition LOG_DEBUG :: int where "LOG_DEBUG = 3"
definition LOG_INFO :: int where "LOG_INFO = 4"
definition LOG_BUF_SIZE :: nat where "LOG_BUF_SIZE = 1024"

text \<open>A log call with its formatted text: what goes to the system log, if anything.\<close>

definition log_line :: "byte list \<Rightarrow> int \<Rightarrow> byte list \<Rightarrow> byte list" where
  "log_line lead tid s = lead @ cs ''[tid:'' @ show_int tid @ cs '']'' @ take (LOG_BUF_SIZE - 1) s @ [13, 10]"

definition eng_info :: "int \<Rightarrow> int \<Rightarrow> byte list \<Rightarrow> byte list option" where
  "eng_info level tid s = (if level < LOG_INFO then None else Some (log_line (cs '' '') tid s))"

definition eng_debug :: "int \<Rightarrow> int \<Rightarrow> byte list \<Rightarrow> byte list option" where
  "eng_debug level tid s = (if level < LOG_DEBUG then None else Some (log_line [] tid s))"

definition eng_warn :: "int \<Rightarrow> int \<Rightarrow> byte list \<Rightarrow> byte list option" where
  "eng_warn level tid s = (if level < LOG_WARN then None else Some (log_line [] tid s))"

definition eng_error :: "int \<Rightarrow> int \<Rightarrow> byte list \<Rightarrow> byte list option" where
  "eng_error level tid s = (if level < LOG_ERR then None else Some (log_line [] tid s))"

definition AT_ENGPCLOGLEVEL :: "byte list" where "AT_ENGPCLOGLEVEL = cs ''AT+SPENGPCLOGLEVEL''"

definition loglevel_text :: "byte list \<Rightarrow> byte list" where
  "loglevel_text s = [13, 10] @ cs ''+SPENGPCLOGLEVEL: '' @ s @ [13, 10]"

text \<open>The text of the answer and the new level, for the command the pointer \<open>ptr\<close> denotes.\<close>

definition loglevel_answer :: "byte list \<Rightarrow> int \<Rightarrow> byte list \<times> int" where
  "loglevel_answer ptr level =
     (if strncaseeq (length AT_ENGPCLOGLEVEL) ptr AT_ENGPCLOGLEVEL
      then (case drop (length AT_ENGPCLOGLEVEL) ptr of
              [] \<Rightarrow> (loglevel_text (cs ''unknown at''), level)
            | c # para \<Rightarrow>
                if c = 61
                then (case para of
                        [] \<Rightarrow> (loglevel_text (cs ''invalid param''), level)
                      | d # _ \<Rightarrow> (loglevel_text (show_int (sint d - 48)), sint d - 48))
                else if c = 63 then (loglevel_text (show_int level), level)
                else (loglevel_text (cs ''unknown at''), level))
      else (loglevel_text (cs ''unknown at''), level))"

definition logLevelHandle :: "mem option \<Rightarrow> mem option \<Rightarrow> int \<Rightarrow> (int \<times> mem option \<times> int) option" where
  "logLevelHandle buff rsp level =
     (case rsp of
        None \<Rightarrow> Some (0, None, level)
      | Some r \<Rightarrow>
          (case buff of
             None \<Rightarrow> do {
               r' \<leftarrow> sprintf r ([13, 10] @ cs ''ERROR'' @ [13, 10]);
               Some (9, Some r', level)
             }
           | Some b \<Rightarrow> do {
               b0 \<leftarrow> rd b 0;
               ptr \<leftarrow> cstr_at b (if b0 = 0x7e then 1 + MSG_HEAD_SIZE else 0);
               (let (txt0, level') = loglevel_answer ptr level
                in do { r' \<leftarrow> sprintf r txt0; Some (int (length txt0), Some r', level') })
             }))"

definition englog_regCallBack :: "('w cb_io \<Rightarrow> (int \<times> 'w cb_io) option) \<Rightarrow> 'w modmgr \<Rightarrow> 'w modmgr option" where
  "englog_regCallBack h m =
     internalRegCallBack [\<lparr>diag_ap_cmd = - 1, cb_type = 0xFF, cb_subtype = 0xFF, at_cmd = AT_ENGPCLOGLEVEL,
       also_need_to_cp = False, eng_diag_func = None, eng_linuxcmd_func = Some h,
       eng_set_writeinterface_func = None, eng_cmd_match = None\<rparr>] 1 m"

section \<open>\<open>CEngCtl\<close>\<close>

text \<open>A command is the structure \<open>ENGPC_CMD_T\<close>: \<open>dst\<close>, \<open>act\<close>, then a union of two structures of character
  arrays; a channel's name lies after its boot mode, at offset 66.\<close>

definition CMD_RSP_LEN :: nat where "CMD_RSP_LEN = 256"
definition TYPE_NORMAL_LEN :: nat where "TYPE_NORMAL_LEN = 16"

definition ENGPC_CMD_SIZE :: nat where
  "ENGPC_CMD_SIZE = 2 + max (DEV_NAME_LEN + BOOTMODE_NAME_LEN + PORT_NAME_LEN + TYPE_NORMAL_LEN + PORT_PATH_LEN + TYPE_NORMAL_LEN)
     (BOOTMODE_NAME_LEN + CHNL_NAME_LEN + 2 * (DEV_NAME_LEN + PORT_NAME_LEN) + 4 * TYPE_NORMAL_LEN)"

definition chnl_s_name_off :: nat where "chnl_s_name_off = 2 + BOOTMODE_NAME_LEN"

definition ctl_dev :: "mem \<Rightarrow> 'w world \<Rightarrow> int \<times> 'w world" where
  "ctl_dev lpCmd w = (- 1, w)"

text \<open>With the manager of the channel threads present, as it is once \<open>main\<close> has attached it.\<close>

definition ctl_chnl :: "mem \<Rightarrow> 'w world \<Rightarrow> (int \<times> 'w world) option" where
  "ctl_chnl lpCmd w =
     (let act = lpCmd ! 1 in
      if act = 3 \<or> act = 4
      then do { name \<leftarrow> cstr_at lpCmd chnl_s_name_off; Some (0, enableChnl name (act = 3) w) }
      else Some (- 1, w))"

definition engctl_process :: "mem \<Rightarrow> 'w world \<Rightarrow> (int \<times> 'w world) option" where
  "engctl_process lpCmd w =
     (if lpCmd ! 0 = 0 then Some (ctl_dev lpCmd w)
      else if lpCmd ! 0 = 1 then ctl_chnl lpCmd w
      else Some (0, w))"

text \<open>A turn of the loop of \<open>eng_socket_rw_thread\<close>: the command read into a zeroed structure, and the
  answer, which nothing fills in.\<close>

definition engctl_turn :: "byte list \<Rightarrow> 'w world \<Rightarrow> (byte list \<times> 'w world) option" where
  "engctl_turn bs w = do {
     (ret, w') \<leftarrow> engctl_process (zfill ENGPC_CMD_SIZE bs) w;
     Some (replicate CMD_RSP_LEN 0, w')
   }"

fun engctl_rw :: "byte list option list \<Rightarrow> 'w world \<Rightarrow> (byte list list \<times> 'w world) option" where
  "engctl_rw [] w = Some ([], w)"
| "engctl_rw (None # rest) w = Some ([], w)"
| "engctl_rw (Some bs # rest) w =
     (if bs = [] then Some ([], w)
      else do { (out, w1) \<leftarrow> engctl_turn (take ENGPC_CMD_SIZE bs) w;
                (outs, w2) \<leftarrow> engctl_rw rest w1;
                Some (out # outs, w2) })"

fun engctl_accept :: "byte list option list option list \<Rightarrow> 'w world \<Rightarrow> (byte list list \<times> 'w world) option" where
  "engctl_accept [] w = Some ([], w)"
| "engctl_accept (None # conns) w = engctl_accept conns w"
| "engctl_accept (Some reads # conns) w =
     do { (o1, w1) \<leftarrow> engctl_rw reads w; (o2, w2) \<leftarrow> engctl_accept conns w1; Some (o1 @ o2, w2) }"

definition engCtl :: "bool \<Rightarrow> byte list option list option list \<Rightarrow> 'w world \<Rightarrow> (byte list list \<times> 'w world) option" where
  "engCtl server_ok conns w = (if server_ok then engctl_accept conns w else Some ([], w))"

section \<open>Facts\<close>

text \<open>Stopping the thread of a channel only writes a message to its source port; the other ports stay.\<close>

lemma enable_off_ports:
  "j < length (g_ports w) \<Longrightarrow>
   \<forall>i \<in> set js. strcaseeq (td_name (g_threads w ! i)) name \<longrightarrow> td_src (g_threads w ! i) \<noteq> j \<Longrightarrow>
   g_ports (enableChnl_loop name False js w) ! j = g_ports w ! j \<and> g_threads (enableChnl_loop name False js w) = g_threads w"
proof (induction js arbitrary: w)
  case (Cons i js)
  let ?w = "if strcaseeq (td_name (g_threads w ! i)) name then snd (thread_stop i w) else w"
  have st: "enableChnl_loop name False (i # js) w = enableChnl_loop name False js ?w" by (simp add: Let_def)
  have k: "g_ports ?w ! j = g_ports w ! j" "g_threads ?w = g_threads w" "length (g_ports ?w) = length (g_ports w)"
    using Cons.prems by (auto simp: thread_stop_def Let_def)
  have "g_ports (enableChnl_loop name False js ?w) ! j = g_ports ?w ! j
      \<and> g_threads (enableChnl_loop name False js ?w) = g_threads ?w"
    by (rule Cons.IH) (use Cons.prems k in \<open>simp_all del: split_paired_All\<close>)
  then show ?case unfolding st k .
qed simp

section \<open>Properties\<close>

text \<open>(log level): after the level was set by \<open>AT+SPENGPCLOGLEVEL=<digit>\<close>, the query reports that
  digit, an \<open>info\<close> line is written exactly for the digits from 4 on and an error line for all but 0.\<close>

theorem loglevel_roundtrip:
  assumes "d < 10" and "loglevel_answer (AT_ENGPCLOGLEVEL @ [61, of_nat (48 + d)]) level = (txt0, level')"
  shows "loglevel_answer (AT_ENGPCLOGLEVEL @ [63]) level' = (loglevel_text [of_nat (48 + d)], level')
    \<and> (eng_info level' tid s \<noteq> None \<longleftrightarrow> 4 \<le> d) \<and> (eng_error level' tid s \<noteq> None \<longleftrightarrow> 0 < d)"
proof -
  have "d \<in> {0,1,2,3,4,5,6,7,8,9}" using assms(1) by auto
  then have "sint (of_nat (48 + d) :: byte) = 48 + int d" by auto
  then have "level' = int d" using assms(2) by (simp add: loglevel_answer_def strncaseeq_def)
  then show ?thesis using assms(1)
    by (simp add: loglevel_answer_def strncaseeq_def show_int_def show_nat_digit eng_info_def eng_error_def
        LOG_INFO_def LOG_ERR_def)
qed

theorem loglevel_roundtrip_witness:
  "loglevel_answer (AT_ENGPCLOGLEVEL @ [63]) 4 = (loglevel_text [52], 4)"
  using loglevel_roundtrip [of 4 1 _ 4 0 "[]"]
  by (simp add: loglevel_answer_def strncaseeq_def)

text \<open>(channel control): a client that switches a channel off stops the threads of that channel
  and nothing else: every port that no thread of that name reads is as before, no thread
  changes, and the answer is 256 zero bytes whatever the outcome.\<close>

theorem engctl_disable:
  assumes "engctl_turn bs w = Some (out, w')" and "2 \<le> length bs" and "length bs \<le> ENGPC_CMD_SIZE"
    and "bs ! 0 = 1" and "bs ! 1 = 4" and "cstr_at (zfill ENGPC_CMD_SIZE bs) chnl_s_name_off = Some name"
    and "j < length (g_ports w)"
    and "\<forall>td \<in> set (g_threads w). strcaseeq (td_name td) name \<longrightarrow> td_src td \<noteq> j"
  shows "g_ports w' ! j = g_ports w ! j \<and> g_threads w' = g_threads w \<and> out = replicate CMD_RSP_LEN 0"
proof -
  have n: "zfill ENGPC_CMD_SIZE bs ! 0 = 1" "zfill ENGPC_CMD_SIZE bs ! 1 = 4"
    using assms(2,4,5) by (cases bs; auto simp: zfill_def nth_append)+
  then have "w' = enableChnl name False w" "out = replicate CMD_RSP_LEN 0"
    using assms(1,6) by (auto simp: engctl_turn_def engctl_process_def ctl_chnl_def Let_def)
  then show ?thesis
    using enable_off_ports [OF assms(7), of "[0..<length (g_threads w)]" name] assms(8)
    by (simp add: enableChnl_def)
qed

theorem engctl_disable_witness:
  "\<exists>out w'. engctl_turn ([1, 4] @ replicate 64 0 @ cs ''X'') (sample_world (sample_thread KLog DATA_LOG 0) []) = Some (out, w')
     \<and> g_threads w' = [sample_thread KLog DATA_LOG 0]"
proof -
  let ?bs = "[1, 4] @ replicate 64 0 @ cs ''X'' :: byte list" and ?w = "sample_world (sample_thread KLog DATA_LOG 0) []"
  have sz: "ENGPC_CMD_SIZE = 386"
    by (simp add: ENGPC_CMD_SIZE_def DEV_NAME_LEN_def BOOTMODE_NAME_LEN_def PORT_NAME_LEN_def TYPE_NORMAL_LEN_def
        PORT_PATH_LEN_def CHNL_NAME_LEN_def)
  have off: "drop chnl_s_name_off (zfill ENGPC_CMD_SIZE ?bs) = cs ''X'' @ replicate 319 0"
    by (simp add: chnl_s_name_off_def BOOTMODE_NAME_LEN_def zfill_def sz)
  have c: "cstr_at (zfill ENGPC_CMD_SIZE ?bs) chnl_s_name_off = Some (cs ''X'')"
    unfolding cstr_at_def off by (simp add: zfill_def sz chnl_s_name_off_def BOOTMODE_NAME_LEN_def)
  have n: "zfill ENGPC_CMD_SIZE ?bs ! 0 = 1" "zfill ENGPC_CMD_SIZE ?bs ! 1 = 4" by (simp_all add: zfill_def)
  obtain out w' where r: "engctl_turn ?bs ?w = Some (out, w')"
    using n c by (simp add: engctl_turn_def engctl_process_def ctl_chnl_def)
  have "g_threads w' = g_threads ?w"
    using engctl_disable [OF r _ _ _ _ c, of 0]
    by (simp add: sz sample_world_def sample_thread_def thread_new_def strcaseeq_def lower_def)
  then show ?thesis using r by (simp add: sample_world_def)
qed

end
