(* ===== verification/Daemon.thy ===== *)
theory Daemon
  imports Usb TimeSync EngCtl
begin

text \<open>
  The start of the daemon (\<open>server/main.cpp\<close>): the managers are created and loaded, the boot mode's
  channels and devices enabled, the host's ports registered, the log destinations applied, the
  daemon's own AT commands registered, and the channels started. The threads that \<open>main\<close> starts on the
  way are those of theories Usb, CpCtl, TimeSync and EngCtl; here they have not run yet.
\<close>

section \<open>Helpers of \<open>main\<close>\<close>

text \<open>The directories and entries the managers load, the pipes the ports get, what \<open>getgroups\<close> reports,
  and the two handlers that are registered.\<close>

record ('w, 'p) boot =
  b_env :: "('w, 'p) cpenv"
  b_dev_dir :: "conf_entry list option"
  b_chnl_dir :: "conf_entry list option"
  b_pipes :: "nat \<Rightarrow> (int \<times> int) option"
  b_groups :: "nat list option"
  b_gid :: nat
  b_loglevel :: "'w cb_io \<Rightarrow> (int \<times> 'w cb_io) option"
  b_cpctl :: "'w cb_io \<Rightarrow> (int \<times> 'w cb_io) option"

record ('w, 'p) daemon =
  dm_st :: "('w, 'p) cpst"
  dm_chnls :: "chnl list"

text \<open>\<open>switchGidToRoot\<close>: the own group is stored after the groups \<open>getgroups\<close> put into an array of 64;
  it fails for a process in more. The result is what \<open>setgroups\<close> is called with.\<close>

definition switchGidToRoot :: "nat list option \<Rightarrow> nat \<Rightarrow> nat list option" where
  "switchGidToRoot groups gid =
     (let got = (case groups of None \<Rightarrow> [] | Some gs \<Rightarrow> if length gs \<le> 64 then gs else [])
      in if length got < 64 then Some (got @ [gid]) else None)"

text \<open>The loop of \<open>wait_for_modem_alive\<close>: at most \<open>try_cnt\<close> attempts, at least one.\<close>

fun alive_loop :: "nat \<Rightarrow> os \<Rightarrow> int \<times> os" where
  "alive_loop try_cnt os =
     (let (fd, os') = sys_open os in
      if fd \<ge> 0 then (fd, os')
      else if try_cnt \<le> 1 then (fd, os')
      else alive_loop (try_cnt - 1) os')"

declare alive_loop.simps [simp del]

definition DEV_MODEM_DIAG_NAME :: "byte list" where "DEV_MODEM_DIAG_NAME = cs ''COM_DIAG''"
definition DEV_HOST_DIAG_NAME :: "byte list" where "DEV_HOST_DIAG_NAME = cs ''COM_CP_DIAG''"
definition DEV_HOST_WCN_AT_NAME :: "byte list" where "DEV_HOST_WCN_AT_NAME = cs ''COM_WCN_AT''"

definition wait_for_modem_alive :: "nat \<Rightarrow> devmgr \<Rightarrow> 'w world \<Rightarrow> int \<times> 'w world" where
  "wait_for_modem_alive timeout devs w =
     (case find_dev_port devs (g_ports w) DEV_MODEM_NAME DEV_MODEM_DIAG_NAME of
        None \<Rightarrow> (0, w)
      | Some i \<Rightarrow>
          (let (fd, os') = alive_loop timeout (g_os w)
           in (if fd \<ge> 0 then 0 else - 1, w\<lparr>g_os := os'\<rparr>)))"

definition reg_hosts :: "devmgr \<Rightarrow> 'w world \<Rightarrow> 'w world" where
  "reg_hosts devs w =
     (case (devmgr_find devs DEV_HOST_NAME, g_mgr w) of
        (Some i, Some m) \<Rightarrow>
          w\<lparr>g_mgr := Some (regWcnATHost (cdev_find (g_ports w) (devs ! i) DEV_HOST_WCN_AT_NAME)
                          (regDiagHost (cdev_find (g_ports w) (devs ! i) DEV_HOST_DIAG_NAME) m))\<rparr>
      | _ \<Rightarrow> w)"

definition internalRegCallback :: "('w, 'p) boot \<Rightarrow> 'w world \<Rightarrow> 'w world option" where
  "internalRegCallback b w =
     (case g_mgr w of
        None \<Rightarrow> None
      | Some m \<Rightarrow> do {
          m1 \<leftarrow> englog_regCallBack (b_loglevel b) m;
          m2 \<leftarrow> cpctl_regCallBack (b_cpctl b) m1;
          Some (w\<lparr>g_mgr := Some m2\<rparr>)
        })"

text \<open>Where the logs go, in the two normal modes.\<close>

definition apply_log_dest :: "('w, 'p) cpenv \<Rightarrow> byte list \<Rightarrow> ('w, 'p) cpst \<Rightarrow> ('w, 'p) cpst option" where
  "apply_log_dest e bootmode k =
     (if strcaseeq bootmode BOOTMODE_NORMAL \<or> strcaseeq bootmode BOOTMODE_NORMAL_LITE
      then do {
        k1 \<leftarrow> (if dest e LOG_TYPE_NAME_MODEM k \<noteq> LOG_LOCATION_PC then reset_dev DEV_MODEM_NAME False k else Some k);
        (if dest e LOG_TYPE_NAME_WCN k1 = LOG_LOCATION_PC
         then do { k2 \<leftarrow> reset_dev DEV_WCN_NAME True k1; open_bqb e k2 }
         else reset_dev DEV_WCN_NAME False k1)
      }
      else Some k)"

section \<open>\<open>main\<close>\<close>

text \<open>The result: \<open>Inl\<close> what \<open>main\<close> returns when loading fails, \<open>Inr\<close> the state in which it sleeps. \<open>k\<close> is
  the state before: no ports, no threads, no manager.\<close>

definition main_load :: "('w, 'p) boot \<Rightarrow> ('w, 'p) cpst \<Rightarrow> (int + ('w, 'p) daemon) option" where
  "main_load b k = do {
     (r, devs, ports) \<leftarrow> devmgr_load (b_pipes b) (b_dev_dir b) [] [];
     (if r \<noteq> 0 then Some (Inl (- 1))
      else do {
        (rc, chnls) \<leftarrow> chnlmgr_load (b_chnl_dir b) [];
        (if rc \<noteq> 0 then Some (Inl (- 1))
         else Some (Inr \<lparr>dm_st = k\<lparr>k_devs := devs, k_world := (k_world k)\<lparr>g_ports := ports, g_threads := [],
                                    g_mgr := Some modmgr_new\<rparr>\<rparr>, dm_chnls = chnls\<rparr>))
      })
   }"

definition main_start :: "('w, 'p) boot \<Rightarrow> byte list \<Rightarrow> ('w, 'p) daemon \<Rightarrow> ('w, 'p) daemon option" where
  "main_start b bootmode d = do {
     let (r, chnls) = chnlmgr_enable (dm_chnls d) bootmode True;
     devs \<leftarrow> devmgr_activeMode (k_devs (dm_st d)) bootmode;
     let w1 = reg_hosts devs (k_world (dm_st d));
     let (alive, w2) = wait_for_modem_alive 600 devs w1;
     (u, s3) \<leftarrow> usb_mode (ce_prop (b_env b)) bootmode (k_sys (dm_st d));
     k4 \<leftarrow> apply_log_dest (b_env b) bootmode ((dm_st d)\<lparr>k_devs := devs, k_world := w2, k_sys := s3\<rparr>);
     w5 \<leftarrow> internalRegCallback b (k_world k4);
     w6 \<leftarrow> chnlmgr_run devs chnls bootmode w5;
     Some \<lparr>dm_st = k4\<lparr>k_world := w6\<rparr>, dm_chnls = chnls\<rparr>
   }"

definition daemon_main :: "('w, 'p) boot \<Rightarrow> ('w, 'p) cpst \<Rightarrow> (int + ('w, 'p) daemon) option" where
  "daemon_main b k =
     (let bootmode = initBootMode (ce_prop (b_env b)) (k_sys k) in
      if strcaseeq bootmode BOOTMODE_CALI \<and> switchGidToRoot (b_groups b) (b_gid b) = None then None
      else do {
        r \<leftarrow> main_load b k;
        (case r of
           Inl e \<Rightarrow> Some (Inl e)
         | Inr d \<Rightarrow> do { d' \<leftarrow> main_start b bootmode d; Some (Inr d') })
      })"

section \<open>Facts\<close>

lemma restart_src:
  "\<forall>i \<in> set js. i < length (g_threads w) \<Longrightarrow>
   map td_src (g_threads (restart_loop name js w)) = map td_src (g_threads w)"
proof (induction js arbitrary: w)
  case (Cons i js)
  let ?w = "let td = g_threads w ! i in
        if strcaseeq (m_devName (g_ports w ! td_src td)) name \<and> \<not> td_isRunning td
        then snd (thread_run i w) else w"
  have "map td_src (g_threads ?w) = map td_src (g_threads w)" "length (g_threads ?w) = length (g_threads w)"
    using thread_run_facts(1,2) [of i w] Cons.prems by (simp_all add: Let_def)
  then show ?case using Cons.IH [of ?w] Cons.prems by simp
qed simp

lemma resetWithDevName_src: "map td_src (g_threads (resetWithDevName devs name on w)) = map td_src (g_threads w)"
  by (auto simp: resetWithDevName_def restartWithDev_def restart_src Let_def split: option.split)

lemma reset_dev_src: "reset_dev name on k = Some k' \<Longrightarrow>
    map td_src (g_threads (k_world k')) = map td_src (g_threads (k_world k))"
  by (auto simp: reset_dev_def to_world_def resetWithDevName_src)

lemma open_bqb_src: "open_bqb e k = Some k' \<Longrightarrow> g_threads (k_world k') = g_threads (k_world k)"
  by (auto simp: open_bqb_def to_world_def Let_def split: option.splits prod.splits)

lemma apply_log_dest_src:
  assumes "apply_log_dest e bootmode k = Some k'"
  shows "map td_src (g_threads (k_world k')) = map td_src (g_threads (k_world k))"
  using assms by (auto simp: apply_log_dest_def Option.bind_eq_Some_conv dest!: reset_dev_src open_bqb_src split: if_splits)

lemma reg_hosts_threads [simp]: "g_threads (reg_hosts devs w) = g_threads w"
  by (simp add: reg_hosts_def split: option.split)

lemma wait_threads: "wait_for_modem_alive n devs w = (r, w') \<Longrightarrow> g_threads w' = g_threads w"
  by (auto simp: wait_for_modem_alive_def split: option.splits prod.splits)

lemma internalRegCallback_threads: "internalRegCallback b w = Some w' \<Longrightarrow> g_threads w' = g_threads w"
  by (auto simp: internalRegCallback_def Option.bind_eq_Some_conv split: option.splits)

lemma main_start_reader:
  assumes "main_start b bootmode d = Some d'" and "one_reader (k_world (dm_st d))"
  shows "one_reader (k_world (dm_st d'))"
proof -
  let ?devs0 = "k_devs (dm_st d)"
  obtain r chnls where c: "chnlmgr_enable (dm_chnls d) bootmode True = (r, chnls)" by fastforce
  obtain devs where devs: "devmgr_activeMode ?devs0 bootmode = Some devs"
    using assms(1) c by (auto simp: main_start_def Option.bind_eq_Some_conv)
  obtain al w2 where w2: "wait_for_modem_alive 600 devs (reg_hosts devs (k_world (dm_st d))) = (al, w2)" by fastforce
  obtain s3 k4 w5 w6 where k4: "apply_log_dest (b_env b) bootmode ((dm_st d)\<lparr>k_devs := devs, k_world := w2, k_sys := s3\<rparr>) = Some k4"
    and w5: "internalRegCallback b (k_world k4) = Some w5" and w6: "chnlmgr_run devs chnls bootmode w5 = Some w6"
    and d': "d' = \<lparr>dm_st = k4\<lparr>k_world := w6\<rparr>, dm_chnls = chnls\<rparr>"
    using assms(1) c devs w2 by (auto simp: main_start_def Option.bind_eq_Some_conv)
  have "map td_src (g_threads w5) = map td_src (g_threads (k_world (dm_st d)))"
    using apply_log_dest_src [OF k4] wait_threads [OF w2] internalRegCallback_threads [OF w5] by simp
  then have "one_reader w5" using assms(2) by (simp add: one_reader_def)
  then have "one_reader w6"
    using w6 chnl_run_loop_facts [of devs "chnls ! the (chnlmgr_find chnls bootmode)" _ w5 w6]
    by (auto simp: chnlmgr_run_def chnl_run_def split: option.splits)
  then show ?thesis by (simp add: d')
qed

lemma alive_loop_spec:
  "fst (alive_loop n os) \<ge> 0 \<longleftrightarrow> (\<exists>i < max 1 n. open_results os (open_calls os + i) \<ge> 0)"
proof (induction n arbitrary: os)
  case 0
  show ?case by (subst alive_loop.simps) (simp add: sys_open_def)
next
  case (Suc n)
  let ?os = "os\<lparr>open_calls := open_calls os + 1\<rparr>"
  have split: "(\<exists>i < Suc n. P i) \<longleftrightarrow> P 0 \<or> (\<exists>i < n. P (Suc i))" for P
    by (metis Suc_less_eq less_Suc_eq_0_disj)
  show ?case
  proof (cases "open_results os (open_calls os) \<ge> 0 \<or> n = 0")
    case True
    then show ?thesis by (subst alive_loop.simps) (auto simp: sys_open_def)
  next
    case False
    then have "alive_loop (Suc n) os = alive_loop n ?os"
      by (subst alive_loop.simps) (simp add: sys_open_def)
    then show ?thesis using False Suc.IH [of ?os] by (simp add: split max_def)
  qed
qed

section \<open>Properties\<close>

text \<open>(start-up): whatever the configuration files hold, \<open>main\<close> either gives up with -1, exactly when
  one of the two directories cannot be opened, or comes to its sleep with at most one thread
  reading each port.\<close>

theorem daemon_main_starts:
  assumes "daemon_main b k = Some r"
  shows "(case r of Inl e \<Rightarrow> e = - 1 | Inr d \<Rightarrow> one_reader (k_world (dm_st d)))
    \<and> ((\<exists>e. r = Inl e) \<longleftrightarrow> b_dev_dir b = None \<or> b_chnl_dir b = None)"
proof -
  let ?boot = "initBootMode (ce_prop (b_env b)) (k_sys k)"
  obtain l where l: "main_load b k = Some l"
    and r: "(case l of Inl e \<Rightarrow> Some (Inl e) | Inr d \<Rightarrow> do { d' \<leftarrow> main_start b ?boot d; Some (Inr d') }) = Some r"
    using assms by (auto simp: daemon_main_def Let_def Option.bind_eq_Some_conv split: if_splits)
  have ll: "(l = Inl (- 1) \<and> (b_dev_dir b = None \<or> b_chnl_dir b = None))
      \<or> (\<exists>d. l = Inr d \<and> one_reader (k_world (dm_st d)) \<and> b_dev_dir b \<noteq> None \<and> b_chnl_dir b \<noteq> None)"
    using l by (auto simp: main_load_def devmgr_load_def chnlmgr_load_def Option.bind_eq_Some_conv one_reader_def
        split: option.splits if_splits)
  show ?thesis
  proof (cases l)
    case (Inl e)
    then show ?thesis using ll r by auto
  next
    case (Inr d)
    then obtain d' where d': "main_start b ?boot d = Some d'" "r = Inr d'"
      using r by (auto simp: Option.bind_eq_Some_conv)
    then show ?thesis using ll Inr main_start_reader [OF d'(1)] by auto
  qed
qed

definition sample_boot :: "(unit, byte list \<Rightarrow> byte list) boot" where
  "sample_boot = \<lparr>b_env = sample_cpenv, b_dev_dir = None, b_chnl_dir = None, b_pipes = \<lambda>i. None,
     b_groups = None, b_gid = 0, b_loglevel = \<lambda>io. Some (0, io), b_cpctl = \<lambda>io. Some (0, io)\<rparr>"

theorem daemon_main_starts_witness:
  "\<exists>d. daemon_main (sample_boot\<lparr>b_dev_dir := Some [], b_chnl_dir := Some []\<rparr>) (sample_cpst SRefused) = Some (Inr d)
     \<and> one_reader (k_world (dm_st d))"
proof -
  let ?b = "sample_boot\<lparr>b_dev_dir := Some [], b_chnl_dir := Some []\<rparr>" and ?k = "sample_cpst SRefused"
  have boot: "initBootMode sample_prop_service sample_sys = BOOTMODE_NORMAL_LITE"
    by (simp add: initBootMode_def parseCmdline_def sample_sys_def OS_usb_getConf_def property_get_def
        sample_prop_service_def strcaseeq_def)
  obtain d where "daemon_main ?b ?k = Some (Inr d)"
  proof -
    have n: "\<not> strcaseeq BOOTMODE_NORMAL_LITE BOOTMODE_CALI" "\<not> strcaseeq BOOTMODE_NORMAL_LITE BOOTMODE_AUTOTEST"
      by (simp_all add: BOOTMODE_NORMAL_LITE_def BOOTMODE_CALI_def BOOTMODE_AUTOTEST_def strcaseeq_def)
    have "\<exists>d. daemon_main ?b ?k = Some (Inr d)"
      using n by (simp add: daemon_main_def Let_def main_load_def devmgr_load_def chnlmgr_load_def main_start_def
          sample_boot_def sample_cpst_def sample_cpenv_def boot chnlmgr_enable_def chnlmgr_find_def
          reg_hosts_def devmgr_find_def wait_for_modem_alive_def find_dev_port_def usb_mode_def
          apply_log_dest_def reset_dev_def open_bqb_def to_world_def internalRegCallback_def
          englog_regCallBack_def cpctl_regCallBack_def get_eng_modules_def chnlmgr_run_def
          resetWithDevName_def restartWithDev_def AT_ENGPCLOGLEVEL_def AT_SPATCPLOG_def sample_env_def
          bqb_vendor_open_def Option.bind_eq_Some_conv)
    then show ?thesis using that by blast
  qed
  then show ?thesis using daemon_main_starts [of ?b ?k "Inr d"] by auto
qed

text \<open>(waiting for the modem): the daemon waits for at most \<open>max 1 n\<close> attempts and reports success
  exactly when one of them can open the modem's diag port; without such a port it reports success
  at once.\<close>

theorem wait_for_modem_alive_spec:
  "fst (wait_for_modem_alive n devs w) = 0 \<longleftrightarrow>
     find_dev_port devs (g_ports w) DEV_MODEM_NAME DEV_MODEM_DIAG_NAME = None
     \<or> (\<exists>i < max 1 n. open_results (g_os w) (open_calls (g_os w) + i) \<ge> 0)"
  using alive_loop_spec [of n "g_os w"]
  by (auto simp: wait_for_modem_alive_def split: option.split prod.split)

text \<open>(groups): keeping the own group overruns the array exactly when the process is in 64 groups.\<close>

theorem switchGidToRoot_overrun:
  "switchGidToRoot (Some gs) gid = None \<longleftrightarrow> length gs = 64"
  by (auto simp: switchGidToRoot_def)

end
