(* ===== verification/Crc16.thy ===== *)
theory Crc16
  imports Prelude
begin

text \<open>
  The CRC of the misc data (\<open>modules/libmiscdata/crc16.c\<close>): the byte-wise table and the loop, the
  equivalence with the bit-wise division by the polynomial 0x8005 (reflected: 0xA001) that the
  comment of the table names, and what a check of this CRC detects.
\<close>

section \<open>The code\<close>

definition crc16_table :: "16 word list" where
  "crc16_table = [
    0x0000, 0xC0C1, 0xC181, 0x0140, 0xC301, 0x03C0, 0x0280, 0xC241, 0xC601, 0x06C0, 0x0780, 0xC741,
    0x0500, 0xC5C1, 0xC481, 0x0440, 0xCC01, 0x0CC0, 0x0D80, 0xCD41, 0x0F00, 0xCFC1, 0xCE81, 0x0E40,
    0x0A00, 0xCAC1, 0xCB81, 0x0B40, 0xC901, 0x09C0, 0x0880, 0xC841, 0xD801, 0x18C0, 0x1980, 0xD941,
    0x1B00, 0xDBC1, 0xDA81, 0x1A40, 0x1E00, 0xDEC1, 0xDF81, 0x1F40, 0xDD01, 0x1DC0, 0x1C80, 0xDC41,
    0x1400, 0xD4C1, 0xD581, 0x1540, 0xD701, 0x17C0, 0x1680, 0xD641, 0xD201, 0x12C0, 0x1380, 0xD341,
    0x1100, 0xD1C1, 0xD081, 0x1040, 0xF001, 0x30C0, 0x3180, 0xF141, 0x3300, 0xF3C1, 0xF281, 0x3240,
    0x3600, 0xF6C1, 0xF781, 0x3740, 0xF501, 0x35C0, 0x3480, 0xF441, 0x3C00, 0xFCC1, 0xFD81, 0x3D40,
    0xFF01, 0x3FC0, 0x3E80, 0xFE41, 0xFA01, 0x3AC0, 0x3B80, 0xFB41, 0x3900, 0xF9C1, 0xF881, 0x3840,
    0x2800, 0xE8C1, 0xE981, 0x2940, 0xEB01, 0x2BC0, 0x2A80, 0xEA41, 0xEE01, 0x2EC0, 0x2F80, 0xEF41,
    0x2D00, 0xEDC1, 0xEC81, 0x2C40, 0xE401, 0x24C0, 0x2580, 0xE541, 0x2700, 0xE7C1, 0xE681, 0x2640,
    0x2200, 0xE2C1, 0xE381, 0x2340, 0xE101, 0x21C0, 0x2080, 0xE041, 0xA001, 0x60C0, 0x6180, 0xA141,
    0x6300, 0xA3C1, 0xA281, 0x6240, 0x6600, 0xA6C1, 0xA781, 0x6740, 0xA501, 0x65C0, 0x6480, 0xA441,
    0x6C00, 0xACC1, 0xAD81, 0x6D40, 0xAF01, 0x6FC0, 0x6E80, 0xAE41, 0xAA01, 0x6AC0, 0x6B80, 0xAB41,
    0x6900, 0xA9C1, 0xA881, 0x6840, 0x7800, 0xB8C1, 0xB981, 0x7940, 0xBB01, 0x7BC0, 0x7A80, 0xBA41,
    0xBE01, 0x7EC0, 0x7F80, 0xBF41, 0x7D00, 0xBDC1, 0xBC81, 0x7C40, 0xB401, 0x74C0, 0x7580, 0xB541,
    0x7700, 0xB7C1, 0xB681, 0x7640, 0x7200, 0xB2C1, 0xB381, 0x7340, 0xB101, 0x71C0, 0x7080, 0xB041,
    0x5000, 0x90C1, 0x9181, 0x5140, 0x9301, 0x53C0, 0x5280, 0x9241, 0x9601, 0x56C0, 0x5780, 0x9741,
    0x5500, 0x95C1, 0x9481, 0x5440, 0x9C01, 0x5CC0, 0x5D80, 0x9D41, 0x5F00, 0x9FC1, 0x9E81, 0x5E40,
    0x5A00, 0x9AC1, 0x9B81, 0x5B40, 0x9901, 0x59C0, 0x5880, 0x9841, 0x8801, 0x48C0, 0x4980, 0x8941,
    0x4B00, 0x8BC1, 0x8A81, 0x4A40, 0x4E00, 0x8EC1, 0x8F81, 0x4F40, 0x8D01, 0x4DC0, 0x4C80, 0x8C41,
    0x4400, 0x84C1, 0x8581, 0x4540, 0x8701, 0x47C0, 0x4680, 0x8641, 0x8201, 0x42C0, 0x4380, 0x8341,
    0x4100, 0x81C1, 0x8081, 0x4040]"

definition crc16_step :: "16 word \<Rightarrow> byte \<Rightarrow> 16 word" where
  "crc16_step crc b = drop_bit 8 crc XOR (crc16_table ! unat ((crc XOR ucast b) AND 0xff))"

fun crc16 :: "16 word \<Rightarrow> byte list \<Rightarrow> 16 word" where
  "crc16 crc [] = crc"
| "crc16 crc (b # bs) = crc16 (crc16_step crc b) bs"

section \<open>The bit-wise reference\<close>

text \<open>One step of the division: shift right, and subtract the polynomial when a one falls out.\<close>

definition crc_bit :: "16 word \<Rightarrow> 16 word" where
  "crc_bit c = (if bit c 0 then drop_bit 1 c XOR 0xA001 else drop_bit 1 c)"

definition crc_byte :: "16 word \<Rightarrow> 16 word" where
  "crc_byte c = (crc_bit ^^ 8) c"

definition crc_ref :: "16 word \<Rightarrow> byte list \<Rightarrow> 16 word" where
  "crc_ref c bs = foldl (\<lambda>c b. crc_byte (c XOR ucast b)) c bs"

lemma crc_bit_xor: "crc_bit (x XOR y) = crc_bit x XOR crc_bit y"
  by (auto simp: crc_bit_def bit_xor_iff drop_bit_xor ac_simps)

lemma crc_bit_pow_xor: "(crc_bit ^^ n) (x XOR y) = (crc_bit ^^ n) x XOR (crc_bit ^^ n) y"
  by (induction n) (simp_all add: crc_bit_xor)

lemma crc_byte_xor: "crc_byte (x XOR y) = crc_byte x XOR crc_byte y"
  by (simp add: crc_byte_def crc_bit_pow_xor)

lemma crc_bit_high: "\<not> bit x 0 \<Longrightarrow> crc_bit x = drop_bit 1 x"
  by (simp add: crc_bit_def)

lemma crc_bit_pow_high:
  "(\<And>i. i < n \<Longrightarrow> \<not> bit x i) \<Longrightarrow> (crc_bit ^^ n) x = drop_bit n x"
proof (induction n)
  case (Suc n)
  then have "(crc_bit ^^ n) x = drop_bit n x" by simp
  moreover have "\<not> bit (drop_bit n x) 0" using Suc.prems [of n] by (simp add: bit_drop_bit_eq)
  ultimately show ?case by (simp add: crc_bit_high)
qed simp

text \<open>The table is built by doubling: entry \<open>2 ^ k + i\<close> is entry \<open>i\<close> with the remainder of \<open>2 ^ k\<close> added.\<close>

fun doubled :: "16 word list \<Rightarrow> 16 word list \<Rightarrow> 16 word list" where
  "doubled [] t = t"
| "doubled (v # vs) t = doubled vs (t @ map (\<lambda>x. x XOR v) t)"

lemma crc_byte_unfold:
  "crc_byte c = crc_bit (crc_bit (crc_bit (crc_bit (crc_bit (crc_bit (crc_bit (crc_bit c)))))))"
proof -
  have "(8 :: nat) = Suc (Suc (Suc (Suc (Suc (Suc (Suc (Suc 0)))))))" by simp
  then show ?thesis by (simp only: crc_byte_def funpow.simps comp_apply id_apply)
qed

lemma crc_byte_powers:
  "crc_byte 1 = 0xC0C1" "crc_byte 2 = 0xC181" "crc_byte 4 = 0xC301" "crc_byte 8 = 0xC601"
  "crc_byte 16 = 0xCC01" "crc_byte 32 = 0xD801" "crc_byte 64 = 0xF001" "crc_byte 128 = 0xA001"
  by (simp_all add: crc_byte_unfold crc_bit_def)

lemma table_doubled:
  "crc16_table = doubled [0xC0C1, 0xC181, 0xC301, 0xC601, 0xCC01, 0xD801, 0xF001, 0xA001] [0]"
  by (simp add: crc16_table_def)

lemma add_pow_xor:
  assumes "i < 2 ^ k"
  shows "(word_of_nat (i + 2 ^ k) :: 16 word) = word_of_nat i XOR 2 ^ k"
proof -
  have "\<not> bit i k" using assms by (simp add: bit_iff_odd)
  then have "i AND 2 ^ k = 0" by (intro bit_eqI) (auto simp: bit_and_iff bit_exp_iff)
  then have "i + 2 ^ k = i XOR 2 ^ k" by (rule disjunctive_add_eq_xor)
  then show ?thesis by (simp only: of_nat_xor_eq of_nat_power of_nat_numeral)
qed

definition remainders :: "nat \<Rightarrow> 16 word list" where
  "remainders k = map (\<lambda>i. crc_byte (word_of_nat i)) [0..<2 ^ k]"

lemma remainders_Suc:
  "remainders (Suc k) = remainders k @ map (\<lambda>x. x XOR crc_byte (2 ^ k)) (remainders k)"
proof (rule nth_equalityI)
  show "length (remainders (Suc k)) =
      length (remainders k @ map (\<lambda>x. x XOR crc_byte (2 ^ k)) (remainders k))"
    by (simp add: remainders_def)
  fix i assume i: "i < length (remainders (Suc k))"
  show "remainders (Suc k) ! i =
      (remainders k @ map (\<lambda>x. x XOR crc_byte (2 ^ k)) (remainders k)) ! i"
  proof (cases "i < 2 ^ k")
    case True
    then show ?thesis using i by (simp add: remainders_def nth_append)
  next
    case False
    then obtain j where j: "i = j + 2 ^ k" by (metis add.commute le_Suc_ex not_le)
    with i have "j < 2 ^ k" by (simp add: remainders_def)
    then show ?thesis
      using i add_pow_xor [of j k] by (simp add: j remainders_def nth_append crc_byte_xor del: of_nat_add)
  qed
qed

lemma crc_byte_0 [simp]: "crc_byte 0 = 0"
  by (simp add: crc_byte_unfold crc_bit_def)

lemma table_remainders: "crc16_table = remainders 8"
proof -
  have "(8 :: nat) = Suc (Suc (Suc (Suc (Suc (Suc (Suc (Suc 0)))))))" by simp
  moreover have "remainders 0 = [0]" by (simp add: remainders_def)
  ultimately have "remainders 8 = doubled (map crc_byte [1, 2, 4, 8, 16, 32, 64, 128]) [0]"
    by (simp only: remainders_Suc doubled.simps list.map power.simps power_0) simp
  then show ?thesis by (simp only: table_doubled crc_byte_powers list.map)
qed

lemma low_byte: "x AND 0xff = take_bit 8 (x :: 16 word)"
  by (simp add: take_bit_eq_mask mask_eq_exp_minus_1)

lemma table_nth: "crc16_table ! unat (x AND 0xff) = crc_byte (take_bit 8 x)"
proof -
  have "unat (take_bit 8 x) < 2 ^ 8"
    unfolding unsigned_take_bit_eq by (rule take_bit_nat_less_exp)
  then show ?thesis by (simp add: table_remainders remainders_def low_byte)
qed

lemma split_bytes: "x = take_bit 8 x XOR push_bit 8 (drop_bit 8 (x :: 16 word))"
  by (intro bit_eqI) (auto simp: bit_xor_iff bit_take_bit_iff bit_push_bit_iff bit_drop_bit_eq)

lemma bit_high16: "bit (c :: 16 word) (8 + n) \<Longrightarrow> n < 8"
  using bit_imp_le_length [of c "8 + n"] by simp

lemma crc16_step_byte: "crc16_step c b = crc_byte (c XOR ucast b)"
proof -
  let ?x = "c XOR ucast b"
  have high: "drop_bit 8 ?x = drop_bit 8 c"
    by (intro bit_eqI) (auto simp: bit_drop_bit_eq bit_xor_iff bit_ucast_iff dest: bit_imp_le_length)
  have "crc_byte (push_bit 8 (drop_bit 8 c)) = drop_bit 8 c"
    unfolding crc_byte_def
    by (subst crc_bit_pow_high) (auto intro!: bit_eqI simp: bit_push_bit_iff bit_drop_bit_eq dest: bit_high16)
  then have "crc_byte ?x = crc_byte (take_bit 8 ?x) XOR drop_bit 8 c"
    by (subst split_bytes) (simp only: crc_byte_xor high)
  then show ?thesis by (simp add: crc16_step_def table_nth xor.commute)
qed

lemma crc16_ref: "crc16 c bs = crc_ref c bs"
  by (induction bs arbitrary: c) (simp_all add: crc_ref_def crc16_step_byte)

section \<open>What the check detects\<close>

lemma xor_cancel: "x XOR z = y XOR z \<longleftrightarrow> x = (y :: 'a :: len word)"
  by (auto simp: bit_eq_iff bit_xor_iff)

lemma crc_bit_15: "bit (crc_bit x) 15 \<longleftrightarrow> bit x 0"
proof -
  have "\<not> bit (drop_bit 1 x) 15" by (auto simp: bit_drop_bit_eq dest: bit_imp_le_length)
  then show ?thesis by (simp add: crc_bit_def bit_xor_iff)
qed

lemma crc_bit_inj:
  assumes "crc_bit x = crc_bit y"
  shows "x = y"
proof -
  have z: "bit x 0 = bit y 0" using assms crc_bit_15 by metis
  then have d: "drop_bit 1 x = drop_bit 1 y"
    using assms by (auto simp: crc_bit_def xor_cancel split: if_splits)
  show ?thesis
  proof (rule bit_eqI)
    fix n
    show "bit x n = bit y n"
    proof (cases n)
      case 0 then show ?thesis using z by simp
    next
      case (Suc m)
      then show ?thesis using d by (metis bit_drop_bit_eq comp_apply plus_1_eq_Suc)
    qed
  qed
qed

lemma crc_byte_inj: "crc_byte x = crc_byte y \<longleftrightarrow> x = y"
  by (auto simp: crc_byte_unfold dest!: crc_bit_inj)

lemma crc16_append: "crc16 c (xs @ ys) = crc16 (crc16 c xs) ys"
  by (induction xs arbitrary: c) simp_all

lemma crc16_inj: "crc16 c xs = crc16 d xs \<longleftrightarrow> c = d"
  by (induction xs arbitrary: c d) (simp_all add: crc16_step_byte crc_byte_inj xor_cancel)

lemma xor_swap: "a XOR b = c XOR d \<longleftrightarrow> a XOR c = b XOR (d :: 'a :: len word)"
  by (auto simp: bit_eq_iff bit_xor_iff)

text \<open>A difference in the first of two bytes reaches the upper byte of the register, so the second
  cannot undo it.\<close>

lemma table_upper: "list_all (\<lambda>x. 256 \<le> x) (tl crc16_table)"
  by (simp add: crc16_table_def)

lemma crc_byte_upper:
  assumes "e \<noteq> 0"
  shows "256 \<le> crc_byte (ucast (e :: byte))"
proof -
  have u: "unat e \<noteq> 0" "unat e < 256"
    using assms unsigned_less [of e] by (simp_all add: unat_eq_0)
  have "crc_byte (ucast e) = remainders 8 ! unat e"
    using u(2) by (simp add: remainders_def)
  also have "\<dots> = tl crc16_table ! (unat e - 1)"
    using u by (simp add: table_remainders remainders_def nth_tl)
  finally show ?thesis
    using table_upper u by (simp add: list_all_length table_remainders remainders_def)
qed

lemma unat_ucast16: "unat (ucast (e :: byte) :: 16 word) = unat e"
proof -
  have "unat e < 256" using unsigned_less [of e, where 'a = nat] by simp
  then show ?thesis by (simp add: unsigned_ucast_eq take_bit_nat_eq_self_iff)
qed

lemma xor_eq_0: "x XOR y = 0 \<longleftrightarrow> x = (y :: 'a :: len word)"
  by (auto simp: bit_eq_iff bit_xor_iff)

lemma crc16_two_bytes:
  assumes "crc16 c (xs @ b1 # b2 # ys) = crc16 c (xs @ d1 # d2 # ys)"
  shows "b1 = d1 \<and> b2 = d2"
proof -
  let ?s = "crc16 c xs"
  have "crc_byte (?s XOR ucast b1) XOR ucast b2 = crc_byte (?s XOR ucast d1) XOR ucast d2"
    using assms by (simp add: crc16_append crc16_inj crc16_step_byte crc_byte_inj)
  then have "crc_byte (?s XOR ucast b1) XOR crc_byte (?s XOR ucast d1) = ucast b2 XOR ucast d2"
    by (simp add: xor_swap)
  then have e: "crc_byte (ucast (b1 XOR d1)) = ucast (b2 XOR d2)"
    by (simp add: crc_byte_xor unsigned_xor_eq xor.assoc xor.left_commute)
  have "(ucast (b2 XOR d2) :: 16 word) < 256"
    using unsigned_less [of "b2 XOR d2"] by (simp add: word_less_nat_alt unat_ucast16)
  then have "b1 XOR d1 = 0" using crc_byte_upper [of "b1 XOR d1"] e by (metis not_le)
  moreover from this have "unat (ucast (b2 XOR d2) :: 16 word) = 0" using e by simp
  then have "b2 XOR d2 = 0" by (simp add: unat_ucast16 unat_eq_0)
  ultimately show ?thesis by (simp add: xor_eq_0)
qed

text \<open>Sending the register after the data, low byte first, makes the whole divisible.\<close>

definition crc_bytes :: "16 word \<Rightarrow> byte list" where
  "crc_bytes c = [ucast c, ucast (drop_bit 8 c)]"

lemma crc16_appended: "crc16 c (bs @ crc_bytes (crc16 c bs)) = 0"
proof -
  have lo: "crc16_step d (ucast d) = drop_bit 8 d" for d :: "16 word"
  proof -
    have "take_bit 8 (d XOR ucast (ucast d :: byte)) = 0"
      by (intro bit_eqI) (auto simp: bit_take_bit_iff bit_xor_iff bit_ucast_iff)
    then show ?thesis by (simp add: crc16_step_def table_nth)
  qed
  have "crc16_step (drop_bit 8 d) (ucast (drop_bit 8 d)) = 0" for d :: "16 word"
    unfolding lo by (intro bit_eqI) (auto simp: bit_drop_bit_eq dest: bit_high16)
  then show ?thesis by (simp add: crc16_append crc_bytes_def lo)
qed

end
