(* ===== verification/Files.thy ===== *)
theory Files
  imports Protol Adapter
begin

text \<open>
  What the modules of \<open>modules/\<close> share: the files and partitions they read and write, as the state
  of the system calls \<open>open\<close>, \<open>lseek\<close>, \<open>read\<close> and \<open>write\<close>, uninitialised memory, the stores into the header of a
  diag message, and the frame each module puts around its answer (\<open>translate_packet\<close> of
  \<open>modules/libmiscdata/translate_packet.c\<close> and its copies). A store of bytes at an offset is an interface
  of its own, the locale \<open>block_store\<close>, with its consequences proved once.
\<close>

section \<open>Files\<close>

text \<open>The content of the existing files, which of them may be opened, the size of those that are devices
  (a write stops at the end of a device; a file grows), and those whose reads and writes fail.\<close>

record 'p fsys =
  fs_sys :: "'p sys"
  fs_data :: "byte list \<Rightarrow> byte list option"
  fs_may :: "byte list \<Rightarrow> bool"
  fs_cap :: "byte list \<Rightarrow> nat option"
  fs_ioerr :: "byte list \<Rightarrow> bool"

definition fs_open :: "byte list \<Rightarrow> 'p fsys \<Rightarrow> bool" where
  "fs_open p s \<longleftrightarrow> fs_data s p \<noteq> None \<and> fs_may s p"

definition fs_content :: "byte list \<Rightarrow> 'p fsys \<Rightarrow> byte list" where
  "fs_content p s = (case fs_data s p of None \<Rightarrow> [] | Some d \<Rightarrow> d)"

definition fs_seek :: "byte list \<Rightarrow> int \<Rightarrow> 'p fsys \<Rightarrow> bool" where
  "fs_seek p off s \<longleftrightarrow> 0 \<le> off \<and> (case fs_cap s p of None \<Rightarrow> True | Some c \<Rightarrow> nat off \<le> c)"

text \<open>\<open>read\<close>: the bytes read, none at the end of the file, or \<open>None\<close> for -1.\<close>

definition fs_read :: "byte list \<Rightarrow> nat \<Rightarrow> nat \<Rightarrow> 'p fsys \<Rightarrow> byte list option" where
  "fs_read p off n s = (if fs_ioerr s p then None else Some (take n (drop off (fs_content p s))))"

definition overlay :: "nat \<Rightarrow> byte list \<Rightarrow> byte list \<Rightarrow> byte list" where
  "overlay off bs d = take off (d @ replicate (off - length d) 0) @ bs @ drop (off + length bs) d"

text \<open>\<open>write\<close>: the count or -1, and the new content.\<close>

definition fs_write :: "byte list \<Rightarrow> nat \<Rightarrow> byte list \<Rightarrow> 'p fsys \<Rightarrow> int \<times> 'p fsys" where
  "fs_write p off bs s =
     (let n = (case fs_cap s p of None \<Rightarrow> length bs | Some c \<Rightarrow> min (length bs) (c - off)) in
      if fs_ioerr s p \<or> (n = 0 \<and> bs \<noteq> []) then (- 1, s)
      else (int n, s\<lparr>fs_data := (fs_data s)(p \<mapsto> overlay off (take n bs) (fs_content p s))\<rparr>))"

lemma length_overlay: "off + length bs \<le> length d \<Longrightarrow> length (overlay off bs d) = length d"
  by (simp add: overlay_def)

lemma overlay_inside: "off \<le> length d \<Longrightarrow> overlay off bs d = take off d @ bs @ drop (off + length bs) d"
  by (simp add: overlay_def)

lemma overlay_0: "overlay 0 bs d = bs @ drop (length bs) d"
  by (simp add: overlay_def)

lemma overlay_put: "off + length bs \<le> length d \<Longrightarrow> put d off bs = Some (overlay off bs d)"
  by (simp add: put_def overlay_inside)

lemma overlay_same:
  "off + n \<le> length d \<Longrightarrow> overlay off (take n (drop off d)) d = d"
  by (simp add: overlay_inside) (metis append_take_drop_id drop_drop add.commute)

section \<open>A store of bytes\<close>

locale block_store =
  fixes load :: "int \<Rightarrow> nat \<Rightarrow> 's \<Rightarrow> (int \<times> byte list) option"
    and store :: "int \<Rightarrow> byte list \<Rightarrow> 's \<Rightarrow> (int \<times> 's) option"
    and sound :: "'s \<Rightarrow> bool"
    and img :: "'s \<Rightarrow> byte list"
  assumes load_img: "sound s \<Longrightarrow> 0 \<le> off \<Longrightarrow> 0 < n \<Longrightarrow> nat off + n \<le> length (img s) \<Longrightarrow>
      load off n s = Some (0, take n (drop (nat off) (img s)))"
    and store_img: "sound s \<Longrightarrow> 0 \<le> off \<Longrightarrow> bs \<noteq> [] \<Longrightarrow> nat off + length bs \<le> length (img s) \<Longrightarrow>
      \<exists>s'. store off bs s = Some (0, s') \<and> sound s' \<and> img s' = overlay (nat off) bs (img s)"
begin

lemma load_store:
  assumes "sound s" and "0 \<le> off" and "bs \<noteq> []" and "nat off + length bs \<le> length (img s)"
  obtains s' where "store off bs s = Some (0, s')" and "sound s'" and "length (img s') = length (img s)"
    and "load off (length bs) s' = Some (0, bs)"
proof -
  obtain s' where s': "store off bs s = Some (0, s')" "sound s'" "img s' = overlay (nat off) bs (img s)"
    using store_img assms by blast
  show thesis
  proof (rule that)
    show "load off (length bs) s' = Some (0, bs)"
      using s'(2,3) assms load_img [of s' off "length bs"]
      by (simp add: length_overlay) (simp add: overlay_inside)
  qed (use s' assms in \<open>simp_all add: length_overlay\<close>)
qed

lemma load_elsewhere:
  assumes "sound s" and "0 \<le> off" and "bs \<noteq> []" and "nat off + length bs \<le> length (img s)"
    and "0 \<le> off'" and "0 < n" and "nat off' + n \<le> length (img s)"
    and "nat off' + n \<le> nat off \<or> nat off + length bs \<le> nat off'"
    and "store off bs s = Some (0, s')"
  shows "load off' n s' = load off' n s"
proof -
  obtain s2 where s2: "store off bs s = Some (0, s2)" "sound s2" "img s2 = overlay (nat off) bs (img s)"
    using store_img assms(1-4) by blast
  have "get (overlay (nat off) bs (img s)) (nat off') n = get (img s) (nat off') n"
    using get_put_disjoint [OF overlay_put assms(8)] assms(4) by simp
  then have "take n (drop (nat off') (img s2)) = take n (drop (nat off') (img s))"
    using s2(3) assms by (simp add: get_def length_overlay split: if_splits)
  moreover have "s2 = s'" using s2(1) assms(9) by simp
  ultimately show ?thesis
    using s2(2,3) assms by (simp add: load_img length_overlay)
qed

end

section \<open>Memory and messages\<close>

text \<open>\<open>malloc(n)\<close> with uninitialised content \<open>g\<close>.\<close>

definition malloc :: "(nat \<Rightarrow> byte) \<Rightarrow> nat \<Rightarrow> mem" where
  "malloc g n = map g [0..<n]"

lemma length_malloc [simp]: "length (malloc g n) = n"
  by (simp add: malloc_def)

text \<open>\<open>head->len = n\<close> and \<open>head->subtype = b\<close> for a header at \<open>m + off\<close>.\<close>

definition set_len :: "mem \<Rightarrow> nat \<Rightarrow> nat \<Rightarrow> mem option" where
  "set_len m off n = put m (off + 4) (le16 n)"

definition set_subtype :: "mem \<Rightarrow> nat \<Rightarrow> byte \<Rightarrow> mem option" where
  "set_subtype m off b = wr m (off + 7) b"

text \<open>The modules' own \<open>translate_packet\<close>: flags around the \<open>size\<close> bytes, without escapes.\<close>

definition raw_packet :: "mem \<Rightarrow> byte list \<Rightarrow> (mem \<times> nat) option" where
  "raw_packet dest bs = do { d \<leftarrow> put dest 0 (0x7E # bs @ [0x7E]); Some (d, length bs + 2) }"

lemma raw_packet_ok: "length bs + 2 \<le> length dest \<Longrightarrow>
    raw_packet dest bs = Some (0x7E # bs @ 0x7E # drop (length bs + 2) dest, length bs + 2)"
  by (simp add: raw_packet_def put_def)

lemma get_Cons: "get (x # m) (Suc n) k = get m n k"
  by (simp add: get_def)

lemma put_Cons: "put (x # m) (Suc n) bs = map_option (Cons x) (put m n bs)"
  by (simp add: put_def)

lemma wr_Cons: "wr (x # m) (Suc n) b = map_option (Cons x) (wr m n b)"
  by (simp add: wr_def)

lemma rd_Cons: "rd (x # m) (Suc n) = rd m n"
  by (simp add: rd_def)

text \<open>A header inside a message: reading and changing it.\<close>

definition head_ok :: "msg_head \<Rightarrow> bool" where
  "head_ok h \<longleftrightarrow> seq_num h < 4294967296 \<and> head_len h < 65536"

lemma head_ok_update [simp]:
  "head_ok h \<Longrightarrow> head_ok (h\<lparr>head_subtype := b\<rparr>)" "head_ok h \<Longrightarrow> n < 65536 \<Longrightarrow> head_ok (h\<lparr>head_len := n\<rparr>)"
  by (simp_all add: head_ok_def)

lemma head_parts: "head_bytes h = le32 (seq_num h) @ le16 (head_len h) @ [head_type h] @ [head_subtype h]"
  by (simp add: head_bytes_def)

lemma read_head_msg:
  assumes "head_ok h" and "off = length pre"
  shows "read_head (pre @ head_bytes h @ rest) off = Some h"
  by (rule read_head_put [of "pre @ head_bytes h @ rest"])
    (use assms in \<open>simp_all add: head_ok_def put_def\<close>)

lemma set_len_msg:
  assumes "off = length pre"
  shows "set_len (pre @ head_bytes h @ rest) off n = Some (pre @ head_bytes (h\<lparr>head_len := n\<rparr>) @ rest)"
  using put_append [of "le16 n" "le16 (head_len h)" "pre @ le32 (seq_num h)" "[head_type h, head_subtype h] @ rest"] assms
  by (simp add: set_len_def head_bytes_def)

lemma set_subtype_msg:
  assumes "off = length pre"
  shows "set_subtype (pre @ head_bytes h @ rest) off b = Some (pre @ head_bytes (h\<lparr>head_subtype := b\<rparr>) @ rest)"
  using assms wr_Some [of "off + 7" "pre @ head_bytes h @ rest" b]
  by (simp add: set_subtype_def head_bytes_def le32_def le16_def list_update_append)

lemmas read_head_flag = read_head_msg [where pre = "[x]" for x, simplified]
lemmas set_len_flag = set_len_msg [where pre = "[x]" for x, simplified]
lemmas set_subtype_flag = set_subtype_msg [where pre = "[x]" for x, simplified]
lemmas set_len_start = set_len_msg [where pre = "[]", simplified]
lemmas set_subtype_start = set_subtype_msg [where pre = "[]", simplified]

lemma put_body:
  assumes "length bs \<le> length rest" and "off = length pre + MSG_HEAD_SIZE"
  shows "put (pre @ head_bytes h @ rest) off bs = Some (pre @ head_bytes h @ bs @ drop (length bs) rest)"
  using put_append [of bs "take (length bs) rest" "pre @ head_bytes h" "drop (length bs) rest"] assms by simp

lemma get_msg:
  assumes "n \<le> length rest" and "off = length pre"
  shows "get (pre @ head_bytes h @ rest) off (MSG_HEAD_SIZE + n) = Some (head_bytes h @ take n rest)"
  using assms by (simp add: get_def)

lemma get_body:
  assumes "n \<le> length rest" and "off = length pre + MSG_HEAD_SIZE"
  shows "get (pre @ head_bytes h @ rest) off n = Some (take n rest)"
  using assms by (simp add: get_def)

lemma get_head: "off = length pre \<Longrightarrow> get (pre @ head_bytes h @ rest) off MSG_HEAD_SIZE = Some (head_bytes h)"
  using get_msg [of 0] by simp

lemma put_after:
  assumes "length c \<le> length rest" and "off = MSG_HEAD_SIZE + length d"
  shows "put (head_bytes h @ d @ rest) off c = Some (head_bytes h @ d @ c @ drop (length c) rest)"
  using put_append [of c "take (length c) rest" "head_bytes h @ d" "drop (length c) rest"] assms by simp

lemmas get_head_flag = get_head [where pre = "[x]" for x, simplified]
lemmas put_body_flag = put_body [where pre = "[x]" for x, simplified]
lemmas get_msg_flag = get_msg [where pre = "[x]" for x, simplified]
lemmas get_body_flag = get_body [where pre = "[x]" for x, simplified]
lemmas put_body_start = put_body [where pre = "[]", simplified]
lemmas get_msg_start = get_msg [where pre = "[]", simplified]
lemmas get_body_start = get_body [where pre = "[]", simplified]

lemmas msg_simps = read_head_flag get_head_flag set_len_flag set_subtype_flag set_len_start set_subtype_start
  put_body_flag get_msg_flag get_body_flag put_body_start get_msg_start get_body_start

end
