(* ===== verification/MiscData.thy ===== *)
theory MiscData
  imports Files Crc16
begin

text \<open>
  The misc data partition (\<open>modules/libmiscdata/miscdata.c\<close>) and the phase check that keeps its
  record there (\<open>modules/libmiscdata/phasecheck.c\<close>). Every access is modelled in the two variants of the
  build, on a NAND (UBI) volume and on a partition; both are instances of the locale \<open>block_store\<close>.
\<close>

section \<open>The partition\<close>

definition NAND_MISCDATA_FILESIZE :: nat where "NAND_MISCDATA_FILESIZE = 1024 * 1024"
definition PROP_MISCDATA_PATH :: "byte list" where
  "PROP_MISCDATA_PATH = cs ''ro.vendor.product.partitionpath''"

definition miscdata_path :: "'p prop_service \<Rightarrow> 'p fsys \<Rightarrow> byte list" where
  "miscdata_path pf s = property_get pf PROP_MISCDATA_PATH [] (fs_sys s) @ cs ''miscdata''"

text \<open>The result and the bytes stored at the start of \<open>databuf\<close>.\<close>

definition read_result :: "byte list option \<Rightarrow> int \<times> byte list" where
  "read_result r = (case r of None \<Rightarrow> (- 2, []) | Some bs \<Rightarrow> (if bs = [] then (- 2, []) else (0, bs)))"

definition eng_read_miscdata :: "'p prop_service \<Rightarrow> nat \<Rightarrow> 'p fsys \<Rightarrow> int \<times> byte list" where
  "eng_read_miscdata pf data_len s =
     (let path = miscdata_path pf s in
      if fs_open path s then read_result (fs_read path 0 data_len s) else (- 3, []))"

definition write_result :: "int \<times> 'p fsys \<Rightarrow> int \<times> 'p fsys" where
  "write_result r = (case r of (len, s) \<Rightarrow> (if len \<le> 0 then - 2 else 0, s))"

text \<open>On a NAND volume \<open>ioctl(UBI_IOCVOLUP)\<close> starts an update: the old content is gone.\<close>

definition ubi_update :: "bool \<Rightarrow> byte list \<Rightarrow> 'p fsys \<Rightarrow> 'p fsys" where
  "ubi_update nand path s = (if nand then s\<lparr>fs_data := (fs_data s)(path \<mapsto> [])\<rparr> else s)"

definition eng_write_miscdata :: "bool \<Rightarrow> 'p prop_service \<Rightarrow> byte list \<Rightarrow> 'p fsys \<Rightarrow> int \<times> 'p fsys" where
  "eng_write_miscdata nand pf databuf s =
     (let path = miscdata_path pf s in
      if fs_open path s then write_result (fs_write path 0 databuf (ubi_update nand path s)) else (- 3, s))"

definition eng_read_miscdata_with_offset ::
  "bool \<Rightarrow> 'p prop_service \<Rightarrow> int \<Rightarrow> nat \<Rightarrow> 'p fsys \<Rightarrow> (int \<times> byte list) option" where
  "eng_read_miscdata_with_offset nand pf offset data_len s =
     (if nand then
        (let (ret, bs) = eng_read_miscdata pf NAND_MISCDATA_FILESIZE s; buff = zfill (NAND_MISCDATA_FILESIZE + 1) bs in
         if ret = 0
         then if offset < 0 then None
              else do { bs' \<leftarrow> get buff (nat offset) data_len; Some (ret, bs') }
         else Some (ret, []))
      else
        (let path = miscdata_path pf s in
         if fs_open path s
         then if \<not> fs_seek path offset s then Some (- 4, [])
              else Some (read_result (fs_read path (nat offset) data_len s))
         else Some (- 3, [])))"

definition eng_write_miscdata_with_offset ::
  "bool \<Rightarrow> 'p prop_service \<Rightarrow> int \<Rightarrow> byte list \<Rightarrow> 'p fsys \<Rightarrow> (int \<times> 'p fsys) option" where
  "eng_write_miscdata_with_offset nand pf offset databuf s =
     (if nand then
        (let (ret, bs) = eng_read_miscdata pf NAND_MISCDATA_FILESIZE s; buff = zfill (NAND_MISCDATA_FILESIZE + 1) bs in
         if ret = 0
         then if offset < 0 then None
              else do {
                buff' \<leftarrow> put buff (nat offset) databuf;
                Some (eng_write_miscdata nand pf (take NAND_MISCDATA_FILESIZE buff') s)
              }
         else Some (- 4, s))
      else
        (let path = miscdata_path pf s in
         if fs_open path s
         then if \<not> fs_seek path offset s then Some (- 4, s)
              else Some (write_result (fs_write path (nat offset) databuf s))
         else Some (- 3, s)))"

text \<open>A partition in order: it can be opened, reads and writes work, its size is the size of the device,
  and that is 1 MB on a NAND volume.\<close>

definition misc_img :: "'p prop_service \<Rightarrow> 'p fsys \<Rightarrow> byte list" where
  "misc_img pf s = fs_content (miscdata_path pf s) s"

definition misc_sound :: "bool \<Rightarrow> 'p prop_service \<Rightarrow> 'p fsys \<Rightarrow> bool" where
  "misc_sound nand pf s \<longleftrightarrow>
     (let p = miscdata_path pf s in
      fs_open p s \<and> \<not> fs_ioerr s p \<and> fs_cap s p \<in> {None, Some (length (misc_img pf s))}
      \<and> (nand \<longrightarrow> length (misc_img pf s) = NAND_MISCDATA_FILESIZE))"

lemma NAND_pos [simp]: "0 < NAND_MISCDATA_FILESIZE"
  by (simp add: NAND_MISCDATA_FILESIZE_def)

lemma NAND_large: "64 \<le> NAND_MISCDATA_FILESIZE"
  by (simp add: NAND_MISCDATA_FILESIZE_def)

lemma miscdata_path_data [simp]: "miscdata_path pf (s\<lparr>fs_data := d\<rparr>) = miscdata_path pf s"
  by (simp add: miscdata_path_def)

lemma fs_write_ok:
  assumes "\<not> fs_ioerr s p" and "fs_cap s p \<in> {None, Some c}" and "off + length bs \<le> c" and "bs \<noteq> []"
  shows "fs_write p off bs s =
     (int (length bs), s\<lparr>fs_data := (fs_data s)(p \<mapsto> overlay off bs (fs_content p s))\<rparr>)"
  using assms by (auto simp: fs_write_def Let_def)

lemma misc_open: "misc_sound nand pf s \<Longrightarrow> fs_open (miscdata_path pf s) s"
  by (simp add: misc_sound_def Let_def)

lemma misc_seek:
  "misc_sound nand pf s \<Longrightarrow> 0 \<le> off \<Longrightarrow> nat off \<le> length (misc_img pf s) \<Longrightarrow> fs_seek (miscdata_path pf s) off s"
  by (auto simp: misc_sound_def Let_def fs_seek_def)

lemma misc_read: "misc_sound nand pf s \<Longrightarrow>
    fs_read (miscdata_path pf s) off n s = Some (take n (drop off (misc_img pf s)))"
  by (simp add: misc_sound_def Let_def fs_read_def misc_img_def)

lemma misc_whole:
  assumes "misc_sound True pf s"
  shows "eng_read_miscdata pf NAND_MISCDATA_FILESIZE s = (0, misc_img pf s)"
proof -
  have "length (misc_img pf s) = NAND_MISCDATA_FILESIZE" using assms by (simp add: misc_sound_def Let_def)
  moreover from this have "misc_img pf s \<noteq> []" by (auto simp: NAND_MISCDATA_FILESIZE_def)
  ultimately show ?thesis
    using assms by (simp add: eng_read_miscdata_def Let_def misc_open misc_read read_result_def)
qed

lemma misc_load:
  assumes "misc_sound nand pf s" and "0 \<le> off" and "0 < n" and "nat off + n \<le> length (misc_img pf s)"
  shows "eng_read_miscdata_with_offset nand pf off n s = Some (0, take n (drop (nat off) (misc_img pf s)))"
proof (cases nand)
  case True
  then have w: "eng_read_miscdata pf NAND_MISCDATA_FILESIZE s = (0, misc_img pf s)"
    using assms misc_whole by simp
  show ?thesis
    using assms True w by (simp add: eng_read_miscdata_with_offset_def get_def zfill_def)
next
  case False
  then show ?thesis
    using assms misc_seek [OF assms(1,2)]
    by (auto simp: eng_read_miscdata_with_offset_def Let_def misc_open misc_read read_result_def)
qed

text \<open>The state after a write.\<close>

definition misc_put :: "'p prop_service \<Rightarrow> nat \<Rightarrow> byte list \<Rightarrow> 'p fsys \<Rightarrow> 'p fsys" where
  "misc_put pf off bs s =
     s\<lparr>fs_data := (fs_data s)(miscdata_path pf s \<mapsto> overlay off bs (misc_img pf s))\<rparr>"

lemma misc_store_eq:
  assumes "misc_sound nand pf s" and "0 \<le> off" and "bs \<noteq> []" and "nat off + length bs \<le> length (misc_img pf s)"
  shows "eng_write_miscdata_with_offset nand pf off bs s = Some (0, misc_put pf (nat off) bs s)"
proof -
  let ?p = "miscdata_path pf s"
  have s: "\<not> fs_ioerr s ?p" "fs_cap s ?p \<in> {None, Some (length (misc_img pf s))}"
    using assms(1) by (simp_all add: misc_sound_def Let_def)
  show ?thesis
  proof (cases nand)
    case True
    have l: "length (misc_img pf s) = NAND_MISCDATA_FILESIZE"
      using assms(1) True by (simp add: misc_sound_def Let_def)
    define d where "d = overlay (nat off) bs (misc_img pf s)"
    have d: "length d = NAND_MISCDATA_FILESIZE" "d \<noteq> []"
      using assms(4) l by (auto simp: d_def length_overlay NAND_MISCDATA_FILESIZE_def overlay_def)
    have "put (zfill (NAND_MISCDATA_FILESIZE + 1) (misc_img pf s)) (nat off) bs = Some (d @ [0])"
      using assms(4) l by (simp add: put_def zfill_def d_def overlay_inside)
    moreover have "eng_write_miscdata nand pf d s = (0, s\<lparr>fs_data := (fs_data s)(?p \<mapsto> d)\<rparr>)"
    proof -
      let ?u = "ubi_update nand ?p s"
      have "fs_write ?p 0 d ?u = (int (length d), ?u\<lparr>fs_data := (fs_data ?u)(?p \<mapsto> overlay 0 d (fs_content ?p ?u))\<rparr>)"
        using s d l by (intro fs_write_ok [where c = "length d"]) (auto simp: ubi_update_def)
      then show ?thesis
        using d assms(1) True
        by (simp add: eng_write_miscdata_def Let_def misc_open write_result_def ubi_update_def overlay_0 fs_content_def)
    qed
    ultimately show ?thesis
      using assms(1,2) True d misc_whole [of pf s]
      by (simp add: eng_write_miscdata_with_offset_def misc_put_def d_def [symmetric])
  next
    case False
    then show ?thesis
      using assms fs_write_ok [OF s(1,2) assms(4,3)] misc_seek [OF assms(1,2)]
      by (simp add: eng_write_miscdata_with_offset_def Let_def misc_open write_result_def misc_img_def misc_put_def)
  qed
qed

lemma misc_img_put: "misc_img pf (misc_put pf off bs s) = overlay off bs (misc_img pf s)"
  by (simp add: misc_img_def fs_content_def misc_put_def)

lemma misc_sound_put:
  "misc_sound nand pf s \<Longrightarrow> off + length bs \<le> length (misc_img pf s) \<Longrightarrow> misc_sound nand pf (misc_put pf off bs s)"
  unfolding misc_sound_def misc_img_put
  by (auto simp: Let_def fs_open_def length_overlay misc_put_def)

interpretation misc: block_store "eng_read_miscdata_with_offset nand pf" "eng_write_miscdata_with_offset nand pf"
    "misc_sound nand pf" "misc_img pf" for nand pf
  by unfold_locales (auto simp: misc_load misc_store_eq misc_img_put misc_sound_put)

section \<open>Reading and writing on request\<close>

text \<open>\<open>eng_diag_product_ctrl\<close>: the request's header lies at \<open>buf + 1\<close>, offset and length follow it as two
  16-bit fields. \<open>g\<close> is the content of fresh memory. The result: the length of the answer, the request
  buffer, the answer buffer and the files.\<close>

definition PRODUCT_HEAD :: nat where "PRODUCT_HEAD = MSG_HEAD_SIZE + 4"

definition product_read ::
  "bool \<Rightarrow> 'p prop_service \<Rightarrow> (nat \<Rightarrow> byte) \<Rightarrow> int \<Rightarrow> nat \<Rightarrow> nat \<Rightarrow> mem \<Rightarrow> mem \<Rightarrow> mem \<Rightarrow> 'p fsys
   \<Rightarrow> (int \<times> mem \<times> mem \<times> 'p fsys) option" where
  "product_read nand pf g offset data_len hlen fresh buf rsp s = do {
     hd \<leftarrow> get buf 1 hlen;
     n0 \<leftarrow> put fresh 0 hd;
     (nverr, bs) \<leftarrow> eng_read_miscdata_with_offset nand pf offset data_len s;
     n1 \<leftarrow> put n0 hlen bs;
     (let data_len' = (if nverr \<noteq> 0 then 0 else data_len) in do {
        n2 \<leftarrow> set_subtype n1 0 (word_of_int nverr);
        n3 \<leftarrow> set_len n2 0 (hlen + data_len');
        packet \<leftarrow> get n3 0 (hlen + data_len');
        (rsp', rsp_len) \<leftarrow> raw_packet rsp packet;
        Some (int rsp_len, buf, rsp', s)
     })
   }"

text \<open>The common end of the writing commands: the header alone, with the error as subtype.\<close>

definition product_ack ::
  "int \<Rightarrow> mem \<Rightarrow> mem \<Rightarrow> 'p fsys \<Rightarrow> (int \<times> mem \<times> mem \<times> 'p fsys) option" where
  "product_ack nverr buf rsp s = do {
     b1 \<leftarrow> set_subtype buf 1 (word_of_int nverr);
     b2 \<leftarrow> set_len b1 1 MSG_HEAD_SIZE;
     packet \<leftarrow> get b2 1 MSG_HEAD_SIZE;
     (rsp', rsp_len) \<leftarrow> raw_packet rsp packet;
     Some (int rsp_len, b2, rsp', s)
   }"

definition eng_diag_product_ctrl ::
  "bool \<Rightarrow> 'p prop_service \<Rightarrow> (nat \<Rightarrow> byte) \<Rightarrow> mem \<Rightarrow> mem \<Rightarrow> nat \<Rightarrow> 'p fsys
   \<Rightarrow> (int \<times> mem \<times> mem \<times> 'p fsys) option" where
  "eng_diag_product_ctrl nand pf g buf rsp rsplen s = do {
     h \<leftarrow> read_head buf 1;
     ob \<leftarrow> get buf (1 + MSG_HEAD_SIZE) 2;
     lb \<leftarrow> get buf (1 + MSG_HEAD_SIZE + 2) 2;
     (let offset = de16 ob; data_len = de16 lb; hlen = PRODUCT_HEAD in
      if rsplen < hlen + data_len + 2 then Some (0, buf, rsp, s)
      else if head_subtype h = 2
      then product_read nand pf g 0 data_len hlen (malloc g (data_len + hlen)) buf rsp s
      else if head_subtype h = 3
      then do {
        (nverr, bs) \<leftarrow> eng_read_miscdata_with_offset nand pf 0 data_len s;
        n0 \<leftarrow> put (malloc g rsplen) 0 bs;
        (if nverr \<noteq> 0 then product_ack nverr buf rsp s
         else do {
           new \<leftarrow> get buf (1 + hlen) data_len;
           n1 \<leftarrow> put n0 offset new;
           img \<leftarrow> get n1 0 data_len;
           (nverr', s') \<leftarrow> eng_write_miscdata_with_offset nand pf 0 img s;
           product_ack nverr' buf rsp s'
         })
      }
      else Some (0, buf, rsp, s))
   }"

text \<open>\<open>eng_diag_product_ctrl_ex\<close>: offset and length are 32-bit fields, stored into \<open>int\<close> variables. The sums
  overflow for lengths near the largest, and a negative length passes the check of the answer buffer,
  but no memory can be allocated for it.\<close>

definition PRODUCT_HEAD_EX :: nat where "PRODUCT_HEAD_EX = MSG_HEAD_SIZE + 8"

definition int32 :: "nat \<Rightarrow> int" where
  "int32 n = sint (word_of_nat n :: 32 word)"

definition eng_diag_product_ctrl_ex ::
  "bool \<Rightarrow> 'p prop_service \<Rightarrow> (nat \<Rightarrow> byte) \<Rightarrow> mem \<Rightarrow> mem \<Rightarrow> nat \<Rightarrow> 'p fsys
   \<Rightarrow> (int \<times> mem \<times> mem \<times> 'p fsys) option" where
  "eng_diag_product_ctrl_ex nand pf g buf rsp rsplen s = do {
     h \<leftarrow> read_head buf 1;
     ob \<leftarrow> get buf (1 + MSG_HEAD_SIZE) 4;
     lb \<leftarrow> get buf (1 + MSG_HEAD_SIZE + 4) 4;
     (let offset = int32 (de32 ob); len = int32 (de32 lb); hlen = PRODUCT_HEAD_EX in
      if len + int hlen + 2 > 2147483647 then None
      else if int rsplen < int hlen + len + 2 then Some (0, buf, rsp, s)
      else if head_subtype h = 0x12
      then if len < 0 then None
           else product_read nand pf g offset (nat len) hlen (replicate (nat len + hlen) 0) buf rsp s
      else if head_subtype h = 0x13
      then if len < 0 then None
           else do {
             (nverr, bs) \<leftarrow> eng_read_miscdata_with_offset nand pf offset (nat len) s;
             (if nverr \<noteq> 0 then product_ack nverr buf rsp s
              else do {
                new \<leftarrow> get buf (1 + hlen) (nat len);
                (nverr', s') \<leftarrow> eng_write_miscdata_with_offset nand pf offset new s;
                product_ack nverr' buf rsp s'
              })
           }
      else Some (0, buf, rsp, s))
   }"

section \<open>The phase check\<close>

definition SP09_SPPH_MAGIC_NUMBER :: nat where "SP09_SPPH_MAGIC_NUMBER = 0x53503039"
definition SP15_SPPH_MAGIC_NUMBER :: nat where "SP15_SPPH_MAGIC_NUMBER = 0x53503135"

text \<open>\<open>sizeof\<close> of the two records, field by field; the second is padded to its 32-bit fields.\<close>

definition SP09_SIZE :: nat where "SP09_SIZE = 4 + 24 + 24 + 4 + 15 * 10 + 13 + 1 + 32 + 2 + 2"
definition SP15_SIZE :: nat where "SP15_SIZE = 4 + 64 + 64 + 4 + 20 * 15 + 13 + 1 + 32 + 2 + 4 + 4"

definition sn_size :: "nat \<Rightarrow> nat" where
  "sn_size magic =
     (if magic = SP09_SPPH_MAGIC_NUMBER then SP09_SIZE
      else if magic = SP15_SPPH_MAGIC_NUMBER then SP15_SIZE else 0)"

datatype err_imei = IMEI_ERR_NONE | IMEI_CRC_ERR | IMEI_CMD_ERR | IMEI_SAVE_ERR | IMEI_READ_ERR

definition imei_code :: "err_imei \<Rightarrow> nat" where
  "imei_code e = (case e of IMEI_ERR_NONE \<Rightarrow> 0 | IMEI_CRC_ERR \<Rightarrow> 1 | IMEI_CMD_ERR \<Rightarrow> 2 | IMEI_SAVE_ERR \<Rightarrow> 3
     | IMEI_READ_ERR \<Rightarrow> 4)"

text \<open>The checksum of a request: the length of the header is trusted, so a length below that of header
  and checksum makes the loop run past every array.\<close>

definition request_crc :: "mem \<Rightarrow> nat \<Rightarrow> (nat \<times> byte list) option" where
  "request_crc buf len =
     (if len < MSG_HEAD_SIZE + 2 then None
      else do {
        c \<leftarrow> get buf (len - 1) 2;
        data \<leftarrow> get buf (1 + MSG_HEAD_SIZE) (len - MSG_HEAD_SIZE - 2);
        Some (de16 c, data)
      })"

definition phschk_write ::
  "bool \<Rightarrow> 'p prop_service \<Rightarrow> byte \<Rightarrow> byte list \<Rightarrow> mem \<Rightarrow> mem \<Rightarrow> 'p fsys
   \<Rightarrow> (int \<times> mem \<times> mem \<times> 'p fsys) option" where
  "phschk_write nand pf subtype nvdata buf rsp s = do {
     (error, s') \<leftarrow>
       (if subtype AND 0x7f \<noteq> 0
        then do {
          (nverr, s') \<leftarrow> eng_write_miscdata_with_offset nand pf 0 nvdata s;
          Some (if nverr \<noteq> 0 then IMEI_SAVE_ERR else IMEI_ERR_NONE, s')
        }
        else Some (IMEI_CMD_ERR, s));
     (if error = IMEI_ERR_NONE
      then do {
        b1 \<leftarrow> set_len buf 1 (MSG_HEAD_SIZE + 2);
        b2 \<leftarrow> set_subtype b1 1 1;
        b3 \<leftarrow> put b2 (1 + MSG_HEAD_SIZE) (le16 0);
        packet \<leftarrow> get b3 1 (MSG_HEAD_SIZE + 2);
        (rsp', n) \<leftarrow> raw_packet rsp packet;
        Some (int n, b3, rsp', s')
      }
      else do {
        b1 \<leftarrow> set_subtype buf 1 0;
        b2 \<leftarrow> put b1 (1 + MSG_HEAD_SIZE) (le16 (imei_code error));
        b3 \<leftarrow> put b2 (1 + MSG_HEAD_SIZE + 2) (le16 0);
        b4 \<leftarrow> set_len b3 1 (MSG_HEAD_SIZE + 4);
        packet \<leftarrow> get b4 1 (MSG_HEAD_SIZE + 4);
        (rsp', n) \<leftarrow> raw_packet rsp packet;
        Some (int n, b4, rsp', s')
      })
   }"

definition phschk_read ::
  "bool \<Rightarrow> 'p prop_service \<Rightarrow> (nat \<Rightarrow> byte) \<Rightarrow> nat \<Rightarrow> mem \<Rightarrow> mem \<Rightarrow> 'p fsys
   \<Rightarrow> (int \<times> mem \<times> mem \<times> 'p fsys) option" where
  "phschk_read nand pf g rsplen buf rsp s = do {
     hd \<leftarrow> get buf 1 MSG_HEAD_SIZE;
     n1 \<leftarrow> put (malloc g (rsplen + MSG_HEAD_SIZE + 2)) 0 hd;
     (nverr, bs) \<leftarrow> eng_read_miscdata_with_offset nand pf 0 rsplen s;
     n2 \<leftarrow> put n1 MSG_HEAD_SIZE bs;
     (if nverr \<noteq> 0
      then do {
        b1 \<leftarrow> set_len buf 1 (MSG_HEAD_SIZE + 2);
        b2 \<leftarrow> put b1 (1 + MSG_HEAD_SIZE) (le16 0);
        b3 \<leftarrow> set_subtype b2 1 0;
        packet \<leftarrow> get b3 1 (MSG_HEAD_SIZE + 2);
        (rsp', n) \<leftarrow> raw_packet rsp packet;
        Some (int n, b3, rsp', s)
      }
      else do {
        m \<leftarrow> get n2 MSG_HEAD_SIZE 4;
        (let sn_len = sn_size (de32 m) in do {
           n3 \<leftarrow> set_len n2 0 (MSG_HEAD_SIZE + sn_len + 2);
           sn \<leftarrow> get n3 MSG_HEAD_SIZE sn_len;
           n4 \<leftarrow> put n3 (MSG_HEAD_SIZE + sn_len) (crc_bytes (crc16 0 sn));
           n5 \<leftarrow> set_subtype n4 0 1;
           packet \<leftarrow> get n5 0 (MSG_HEAD_SIZE + sn_len + 2);
           (rsp', n) \<leftarrow> raw_packet rsp packet;
           Some (int n, buf, rsp', s)
         })
      })
   }"

definition direct_phschk ::
  "bool \<Rightarrow> 'p prop_service \<Rightarrow> (nat \<Rightarrow> byte) \<Rightarrow> mem \<Rightarrow> mem \<Rightarrow> nat \<Rightarrow> 'p fsys
   \<Rightarrow> (int \<times> mem \<times> mem \<times> 'p fsys) option" where
  "direct_phschk nand pf g buf rsp rsplen s = do {
     h \<leftarrow> read_head buf 1;
     (recv_crc, data) \<leftarrow> request_crc buf (head_len h);
     (if recv_crc \<noteq> unat (crc16 0 data)
      then do {
        b1 \<leftarrow> set_len buf 1 (MSG_HEAD_SIZE + 4);
        b2 \<leftarrow> put b1 (1 + MSG_HEAD_SIZE) (le16 (imei_code IMEI_CRC_ERR));
        Some (0, b2, rsp, s)
      }
      else if head_subtype h AND 0x80 = 0
      then phschk_write nand pf (head_subtype h) data buf rsp s
      else phschk_read nand pf g rsplen buf rsp s)
   }"

section \<open>Requests and answers\<close>

text \<open>A message with data and checksum between flags.\<close>

definition crc_msg :: "msg_head \<Rightarrow> byte list \<Rightarrow> byte list" where
  "crc_msg h d = 0x7E # head_bytes h @ d @ crc_bytes (crc16 0 d) @ [0x7E]"

lemma de16_crc_bytes: "de16 (crc_bytes c) = unat c"
proof -
  have "ucast w = (word_of_nat (unat w) :: byte)" for w :: "16 word" by simp
  from this [of "c div 256"] have "ucast (c div 256) = (word_of_nat (unat c div 256) :: byte)"
    by (simp only: unat_div_distrib) simp
  then have "crc_bytes c = le16 (unat c)" by (simp add: crc_bytes_def le16_def drop_bit_eq_div)
  then show ?thesis using de16_le16 [of "unat c"] unsigned_less [of c, where 'a = nat] by simp
qed

lemma request_crc_msg:
  assumes "head_len h = MSG_HEAD_SIZE + length d + 2" and "length c = 2"
  shows "request_crc (0x7E # head_bytes h @ d @ c @ post) (head_len h) = Some (de16 c, d)"
proof -
  have "get (0x7E # head_bytes h @ d @ c @ post) (head_len h - 1) 2 = Some c"
    using get_pre [of "head_len h - 1" "0x7E # head_bytes h @ d" 2 c post, simplified] by (simp add: assms)
  moreover have "get (0x7E # head_bytes h @ d @ c @ post) (1 + MSG_HEAD_SIZE) (length d) = Some d"
    using get_pre [of "1 + MSG_HEAD_SIZE" "0x7E # head_bytes h" "length d" d "c @ post"] by simp
  ultimately show ?thesis by (simp add: request_crc_def assms(1))
qed

lemma length_crc_bytes [simp]: "length (crc_bytes c) = 2"
  by (simp add: crc_bytes_def)

lemma request_crc_crc_msg:
  "head_len h = MSG_HEAD_SIZE + length d + 2 \<Longrightarrow>
   request_crc (crc_msg h d @ post) (head_len h) = Some (unat (crc16 0 d), d)"
  using request_crc_msg [of h d "crc_bytes (crc16 0 d)" "0x7E # post"]
  by (simp add: crc_msg_def de16_crc_bytes)

lemma direct_phschk_crc_msg:
  assumes "head_ok h" and "head_len h = MSG_HEAD_SIZE + length d + 2"
  shows "direct_phschk nand pf g (crc_msg h d @ post) rsp rsplen s =
    (if head_subtype h AND 0x80 = 0 then phschk_write nand pf (head_subtype h) d (crc_msg h d @ post) rsp s
     else phschk_read nand pf g rsplen (crc_msg h d @ post) rsp s)"
proof -
  have "read_head (crc_msg h d @ post) 1 = Some h"
    using assms(1) by (simp add: crc_msg_def msg_simps)
  then show ?thesis
    using request_crc_crc_msg [OF assms(2), of post] by (simp add: direct_phschk_def)
qed

lemma phschk_write_ok:
  assumes "misc_sound nand pf s" and "sub AND 0x7f \<noteq> 0"
    and "d \<noteq> []" and "length d \<le> length (misc_img pf s)" and "12 \<le> length rsp"
  shows "\<exists>b. phschk_write nand pf sub d (crc_msg h d @ post) rsp s =
    Some (12, b, 0x7E # head_bytes (h\<lparr>head_len := 10, head_subtype := 1\<rparr>) @ [0, 0, 0x7E] @ drop 12 rsp,
      misc_put pf 0 d s)"
proof -
  have w: "eng_write_miscdata_with_offset nand pf 0 d s = Some (0, misc_put pf 0 d s)"
    using misc_store_eq [of nand pf s 0 d] assms by simp
  have g: "get (0x7E # head_bytes h' @ 0 # 0 # rest) (Suc 0) (MSG_HEAD_SIZE + 2) = Some (head_bytes h' @ [0, 0])" for h' rest
    using get_msg_flag [where n = 2 and rest = "0 # 0 # rest"] by simp
  show ?thesis
    using assms w
    by (simp add: phschk_write_def crc_msg_def msg_simps le16_def g del: add_2_eq_Suc add_2_eq_Suc')
       (simp add: raw_packet_ok MSG_HEAD_SIZE_def)
qed

lemma phschk_read_ok:
  assumes "misc_sound nand pf s" and "rsplen \<le> length (misc_img pf s)" and "length d \<le> rsplen" and "4 \<le> rsplen"
    and "take (length d) (misc_img pf s) = d" and "sn_size (de32 (take 4 (misc_img pf s))) = length d"
    and "length d + 12 \<le> length rsp"
  shows "phschk_read nand pf g rsplen (0x7E # head_bytes h @ post) rsp s =
    Some (int (length d + 12), 0x7E # head_bytes h @ post,
      crc_msg (h\<lparr>head_len := MSG_HEAD_SIZE + length d + 2, head_subtype := 1\<rparr>) d @ drop (length d + 12) rsp, s)"
proof -
  let ?i = "misc_img pf s"
  let ?bs = "take rsplen ?i"
  obtain z where z: "put (malloc g (rsplen + MSG_HEAD_SIZE + 2)) 0 (head_bytes h) = Some (head_bytes h @ z)"
    "length z = rsplen + 2"
    by (simp add: put_def)
  have r: "eng_read_miscdata_with_offset nand pf 0 rsplen s = Some (0, ?bs)"
    using misc_load [of nand pf s 0 rsplen] assms by simp
  define u where "u = drop (length d) ?bs @ drop rsplen z"
  have bs: "?bs @ drop rsplen z = d @ u"
    using assms(3,5) by (metis append_take_drop_id append.assoc min.absorb1 take_take u_def)
  have u: "2 \<le> length u" "put (head_bytes h @ z) MSG_HEAD_SIZE ?bs = Some (head_bytes h @ d @ u)"
    using z(2) assms(2,3) bs by (simp_all add: msg_simps u_def)
  have "take 4 (d @ u) = take 4 ?i"
    unfolding bs [symmetric] using assms(2,4) by (simp add: min_def)
  then have m: "get (head_bytes h @ d @ u) MSG_HEAD_SIZE 4 = Some (take 4 ?i)"
    using get_body_start [where n = 4 and rest = "d @ u" and h = h, OF _ refl] arg_cong [OF bs, of length] assms(2,4) z(2) by simp
  let ?c = "crc_bytes (crc16 0 d)" and ?h = "h\<lparr>head_len := MSG_HEAD_SIZE + length d + 2\<rparr>"
  have p: "put (head_bytes ?h @ d @ u) (MSG_HEAD_SIZE + length d) ?c = Some (head_bytes ?h @ d @ ?c @ drop 2 u)"
    using put_after [of ?c u _ d ?h] u(1) by simp
  have q: "get (head_bytes h' @ d @ ?c @ drop 2 u) 0 (MSG_HEAD_SIZE + length d + 2) = Some (head_bytes h' @ d @ ?c)" for h'
    using get_msg_start [where n = "length d + 2" and rest = "d @ ?c @ drop 2 u"] by (simp add: add.assoc)
  have w: "raw_packet rsp (head_bytes h' @ d @ ?c) =
      Some (0x7E # head_bytes h' @ d @ ?c @ [0x7E] @ drop (length d + 12) rsp, length d + 12)" for h'
    using assms(7) by (simp add: raw_packet_ok MSG_HEAD_SIZE_def add.commute)
  have d: "get (head_bytes h' @ d @ u) MSG_HEAD_SIZE (length d) = Some d" for h'
    using get_body_start [where n = "length d" and rest = "d @ u"] by simp
  show ?thesis
    unfolding phschk_read_def
    by (simp add: msg_simps r z(1) u(2) m assms(6) p q w d Let_def crc_msg_def del: add_2_eq_Suc add_2_eq_Suc')
qed

text \<open>The bytes of an offset and a length behind a header.\<close>

lemma get_fields:
  assumes "length a = k" and "length b = k'"
  shows "get (x # head_bytes h @ a @ b @ rest) (1 + MSG_HEAD_SIZE) k = Some a"
    and "get (x # head_bytes h @ a @ b @ rest) (1 + MSG_HEAD_SIZE + k) k' = Some b"
    and "get (x # head_bytes h @ a @ b @ rest) 1 (MSG_HEAD_SIZE + k + k') = Some (head_bytes h @ a @ b)"
  using get_pre [of "1 + MSG_HEAD_SIZE" "x # head_bytes h" k a "b @ rest"]
    get_pre [of "1 + MSG_HEAD_SIZE + k" "x # head_bytes h @ a" k' b rest]
    get_pre [of 1 "[x]" "MSG_HEAD_SIZE + k + k'" "head_bytes h @ a @ b" rest] assms
  by (simp_all add: add.assoc)

lemma get_data:
  assumes "length a = k" and "length b = k'" and "length d = n"
  shows "get (x # head_bytes h @ a @ b @ d @ rest) (1 + MSG_HEAD_SIZE + k + k') n = Some d"
  using get_pre [of "1 + MSG_HEAD_SIZE + k + k'" "x # head_bytes h @ a @ b" n d rest] assms by simp

lemma product_ack_ok:
  assumes "10 \<le> length rsp"
  shows "product_ack nverr (0x7E # head_bytes h @ rest) rsp s =
    Some (10, 0x7E # head_bytes (h\<lparr>head_subtype := word_of_int nverr, head_len := MSG_HEAD_SIZE\<rparr>) @ rest,
      0x7E # head_bytes (h\<lparr>head_subtype := word_of_int nverr, head_len := MSG_HEAD_SIZE\<rparr>) @ [0x7E] @ drop 10 rsp, s)"
  using assms by (simp add: product_ack_def msg_simps) (simp add: raw_packet_ok MSG_HEAD_SIZE_def)

text \<open>What the writing command leaves in the first \<open>n\<close> bytes.\<close>

definition product_image :: "nat \<Rightarrow> nat \<Rightarrow> byte list \<Rightarrow> byte list \<Rightarrow> byte list" where
  "product_image off n new d = take (min off n) d @ take (n - off) new"

lemma product_image_get:
  assumes "length d = n" and "length new = n" and "off + n \<le> r" and "put (malloc g r) 0 d = Some m"
  shows "\<exists>m'. put m off new = Some m' \<and> get m' 0 n = Some (product_image off n new d)"
proof -
  have m: "m = d @ drop n (malloc g r)" "length m = r"
    using assms by (auto simp: put_def split: if_splits)
  let ?m = "take off m @ new @ drop (off + n) m"
  have p: "put m off new = Some ?m" using m(2) assms by (simp add: put_def)
  have "take n ?m = take n (take off m) @ take (n - off) new"
    using m(2) assms(2,3) by simp
  also have "take n (take off m) = take (min off n) d"
    using m(1) assms(1) by (cases "off \<le> n") (simp_all add: min_def)
  finally show ?thesis using p m(2) assms(3) by (simp add: get_def product_image_def assms(2))
qed

lemma product_write_ok:
  assumes "misc_sound nand pf s" and "head_ok h" and "head_subtype h = 3" and "length new = n" and "0 < n"
    and "n \<le> length (misc_img pf s)" and "off + n \<le> rsplen" and "n + 14 \<le> rsplen" and "10 \<le> length rsp"
    and "off < 65536" and "n < 65536"
  shows "\<exists>b. eng_diag_product_ctrl nand pf g (0x7E # head_bytes h @ le16 off @ le16 n @ new @ post) rsp rsplen s =
    Some (10, b, 0x7E # head_bytes (h\<lparr>head_subtype := 0, head_len := MSG_HEAD_SIZE\<rparr>) @ [0x7E] @ drop 10 rsp,
      misc_put pf 0 (product_image off n new (take n (misc_img pf s))) s)"
proof -
  let ?i = "misc_img pf s"
  let ?buf = "0x7E # head_bytes h @ le16 off @ le16 n @ new @ post"
  let ?p = "product_image off n new (take n ?i)"
  have r: "eng_read_miscdata_with_offset nand pf 0 n s = Some (0, take n ?i)"
    using misc_load [of nand pf s 0 n] assms by simp
  obtain m where m: "put (malloc g rsplen) 0 (take n ?i) = Some m"
    using assms(6,8) by (simp add: put_def)
  obtain m' where m': "put m off new = Some m'" "get m' 0 n = Some ?p"
    using product_image_get [OF _ assms(4,7) m] assms(6) by auto
  have lp: "length ?p = n" using assms(4,6) by (simp add: product_image_def)
  moreover from this have "?p \<noteq> []" using assms(5) by auto
  ultimately have w: "eng_write_miscdata_with_offset nand pf 0 ?p s = Some (0, misc_put pf 0 ?p s)"
    using misc_store_eq [of nand pf s 0 ?p] assms(1,6) by simp
  have hd: "read_head ?buf 1 = Some h" using assms(2) by (simp add: msg_simps)
  have f: "get ?buf (1 + MSG_HEAD_SIZE) 2 = Some (le16 off)" "get ?buf (1 + MSG_HEAD_SIZE + 2) 2 = Some (le16 n)"
    "get ?buf (1 + MSG_HEAD_SIZE + 2 + 2) n = Some new"
    by (rule get_fields get_data; simp add: assms(4))+
  have pd: "1 + PRODUCT_HEAD = 1 + MSG_HEAD_SIZE + 2 + 2" by (simp add: PRODUCT_HEAD_def)
  have v: "de16 (le16 off) = off" "de16 (le16 n) = n" using assms(10,11) by (simp_all add: de16_le16)
  have "\<not> rsplen < PRODUCT_HEAD + n + 2" using assms(8) by (simp add: PRODUCT_HEAD_def MSG_HEAD_SIZE_def)
  then show ?thesis
    unfolding eng_diag_product_ctrl_def hd f
    by (simp only: bind.simps Let_def v if_False assms(3) f pd r m m' w prod.case)
       (simp add: product_ack_ok assms(9))
qed

text \<open>The two commands with 32-bit fields.\<close>

lemma int32_small: "n < 2147483648 \<Longrightarrow> int32 n = int n"
  by (simp add: int32_def signed_of_nat signed_take_bit_int_eq_self)

text \<open>A request with an offset, a length and the data.\<close>

definition ex_msg :: "msg_head \<Rightarrow> nat \<Rightarrow> nat \<Rightarrow> byte list \<Rightarrow> byte list" where
  "ex_msg h off n d = 0x7E # head_bytes h @ le32 off @ le32 n @ d"

lemma ex_fields:
  "get (ex_msg h off n d) (1 + MSG_HEAD_SIZE) 4 = Some (le32 off)"
  "get (ex_msg h off n d) (1 + MSG_HEAD_SIZE + 4) 4 = Some (le32 n)"
  "get (ex_msg h off n d) 1 PRODUCT_HEAD_EX = Some (head_bytes h @ le32 off @ le32 n)"
proof -
  have e: "PRODUCT_HEAD_EX = MSG_HEAD_SIZE + 4 + 4" by (simp add: PRODUCT_HEAD_EX_def)
  show "get (ex_msg h off n d) 1 PRODUCT_HEAD_EX = Some (head_bytes h @ le32 off @ le32 n)"
    unfolding ex_msg_def e by (rule get_fields(3)) simp_all
qed (unfold ex_msg_def, (rule get_fields; simp)+)

lemma ex_data: "length d = n \<Longrightarrow> get (ex_msg h off n (d @ post)) (1 + PRODUCT_HEAD_EX) n = Some d"
  using get_data [of "le32 off" 4 "le32 n" 4 d n "0x7E" h post]
  by (simp add: ex_msg_def PRODUCT_HEAD_EX_def add.assoc)

lemma product_ex_start:
  assumes "head_ok h" and "off < 2147483648" and "n < 2147483600" and "n + 18 \<le> rsplen"
  shows "eng_diag_product_ctrl_ex nand pf g (ex_msg h off n d) rsp rsplen s =
    (if head_subtype h = 0x12
     then product_read nand pf g (int off) n PRODUCT_HEAD_EX (replicate (n + PRODUCT_HEAD_EX) 0) (ex_msg h off n d) rsp s
     else if head_subtype h = 0x13
     then do {
       (nverr, bs) \<leftarrow> eng_read_miscdata_with_offset nand pf (int off) n s;
       (if nverr \<noteq> 0 then product_ack nverr (ex_msg h off n d) rsp s
        else do {
          new \<leftarrow> get (ex_msg h off n d) (1 + PRODUCT_HEAD_EX) n;
          (nverr', s') \<leftarrow> eng_write_miscdata_with_offset nand pf (int off) new s;
          product_ack nverr' (ex_msg h off n d) rsp s'
        })
     }
     else Some (0, ex_msg h off n d, rsp, s))"
proof -
  have hd: "read_head (ex_msg h off n d) 1 = Some h" using assms(1) by (simp add: ex_msg_def msg_simps)
  have v: "int32 (de32 (le32 off)) = int off" "int32 (de32 (le32 n)) = int n"
    using assms(2,3) by (simp_all add: de32_le32 int32_small)
  have c: "\<not> int n + int PRODUCT_HEAD_EX + 2 > 2147483647" "\<not> int rsplen < int PRODUCT_HEAD_EX + int n + 2"
    using assms(3,4) by (simp_all add: PRODUCT_HEAD_EX_def MSG_HEAD_SIZE_def)
  show ?thesis
    unfolding eng_diag_product_ctrl_ex_def hd ex_fields
    by (simp only: bind.simps Let_def v c if_False nat_int of_nat_less_0_iff)
qed

lemma product_ex_write:
  assumes "misc_sound nand pf s" and "head_ok h" and "head_subtype h = 0x13" and "length d = n" and "0 < n"
    and "off + n \<le> length (misc_img pf s)" and "off < 2147483648" and "n < 2147483600" and "n + 18 \<le> rsplen"
    and "10 \<le> length rsp"
  shows "\<exists>b. eng_diag_product_ctrl_ex nand pf g (ex_msg h off n (d @ post)) rsp rsplen s =
    Some (10, b, 0x7E # head_bytes (h\<lparr>head_subtype := 0, head_len := MSG_HEAD_SIZE\<rparr>) @ [0x7E] @ drop 10 rsp,
      misc_put pf off d s)"
proof -
  have r: "eng_read_miscdata_with_offset nand pf (int off) n s = Some (0, take n (drop off (misc_img pf s)))"
    using misc_load [of nand pf s "int off" n] assms by simp
  have "d \<noteq> []" using assms(4,5) by auto
  then have w: "eng_write_miscdata_with_offset nand pf (int off) d s = Some (0, misc_put pf off d s)"
    using misc_store_eq [of nand pf s "int off" d] assms by simp
  show ?thesis
    using product_ex_start [OF assms(2,7,8,9), of nand pf g "d @ post" rsp s] ex_data [OF assms(4)]
    by (simp add: assms(3) r w) (simp add: ex_msg_def product_ack_ok assms(10))
qed

lemma product_ex_read:
  assumes "misc_sound nand pf s" and "head_ok h" and "head_subtype h = 0x12" and "0 < n"
    and "off + n \<le> length (misc_img pf s)" and "off < 2147483648" and "n < 2147483600" and "n + 18 \<le> rsplen"
    and "n + 18 \<le> length rsp"
  shows "eng_diag_product_ctrl_ex nand pf g (ex_msg h off n post) rsp rsplen s =
    Some (int n + 18, ex_msg h off n post,
      ex_msg (h\<lparr>head_subtype := 0, head_len := PRODUCT_HEAD_EX + n\<rparr>) off n (take n (drop off (misc_img pf s)))
        @ [0x7E] @ drop (n + 18) rsp, s)"
proof -
  let ?d = "take n (drop off (misc_img pf s))"
  have r: "eng_read_miscdata_with_offset nand pf (int off) n s = Some (0, ?d)"
    using misc_load [of nand pf s "int off" n] assms by simp
  have ld: "length ?d = n" using assms(5) by simp
  have a: "put (replicate (n + PRODUCT_HEAD_EX) 0) 0 (head_bytes h @ le32 off @ le32 n) = Some (head_bytes h @ le32 off @ le32 n @ replicate n 0)"
    by (simp add: put_def PRODUCT_HEAD_EX_def)
  have b: "put (head_bytes h @ le32 off @ le32 n @ replicate n 0) PRODUCT_HEAD_EX ?d = Some (head_bytes h @ le32 off @ le32 n @ ?d)"
    using put_append [of ?d "replicate n 0" "head_bytes h @ le32 off @ le32 n" "[]"] ld by (simp add: PRODUCT_HEAD_EX_def)
  have c: "get (head_bytes h' @ le32 off @ le32 n @ ?d) 0 (PRODUCT_HEAD_EX + n) = Some (head_bytes h' @ le32 off @ le32 n @ ?d)" for h'
    using get_pre [of 0 "[]" "PRODUCT_HEAD_EX + n" "head_bytes h' @ le32 off @ le32 n @ ?d" "[]"] ld by (simp add: PRODUCT_HEAD_EX_def)
  have w: "raw_packet rsp (head_bytes h' @ le32 off @ le32 n @ ?d) =
      Some (0x7E # head_bytes h' @ le32 off @ le32 n @ ?d @ [0x7E] @ drop (n + 18) rsp, n + 18)" for h'
    using assms(9) ld by (simp add: raw_packet_ok MSG_HEAD_SIZE_def add.commute)
  show ?thesis
    using product_ex_start [OF assms(2,6,7,8), of nand pf g post rsp s]
    unfolding product_read_def ex_fields
    by (simp add: assms(3) r a b c w set_len_start set_subtype_start del: replicate_append_same)
       (simp add: ex_msg_def)
qed

section \<open>Properties\<close>

definition sample_files :: "byte list \<Rightarrow> (byte list \<Rightarrow> byte list) fsys" where
  "sample_files d = \<lparr>fs_sys = \<lparr>y_prop = \<lambda>k. [], y_sets = [], y_exists = \<lambda>p. True, y_wopen = \<lambda>p. True, y_wret = \<lambda>p. 1,
     y_read = \<lambda>p. None, y_written = [], y_usb = \<lambda>i. []\<rparr>, fs_data = \<lambda>p. Some d, fs_may = \<lambda>p. True,
     fs_cap = \<lambda>p. None, fs_ioerr = \<lambda>p. False\<rparr>"

definition sample_props :: "(byte list \<Rightarrow> byte list) prop_service" where
  "sample_props = \<lparr>ps_get = \<lambda>k p. p k, ps_set = \<lambda>k v p. p(k := v)\<rparr>"

lemma sample_img [simp]: "misc_img pf (sample_files d) = d"
  by (simp add: misc_img_def fs_content_def sample_files_def)

lemma sample_sound: "misc_sound nand pf (sample_files d) \<longleftrightarrow> (nand \<longrightarrow> length d = NAND_MISCDATA_FILESIZE)"
  by (simp add: misc_sound_def Let_def fs_open_def) (simp add: sample_files_def)

definition sample_head :: "nat \<Rightarrow> byte \<Rightarrow> byte \<Rightarrow> msg_head" where
  "sample_head n ty sub = \<lparr>seq_num = 1, head_len = n, head_type = ty, head_subtype = sub\<rparr>"

lemma sample_head_simps [simp]:
  "head_len (sample_head n ty sub) = n" "head_subtype (sample_head n ty sub) = sub"
  "head_ok (sample_head n ty sub) \<longleftrightarrow> n < 65536"
  by (simp_all add: sample_head_def head_ok_def)

definition sample_record :: "byte list" where
  "sample_record = le32 SP09_SPPH_MAGIC_NUMBER @ replicate 252 7"

lemma sample_record_simps [simp]:
  "length sample_record = 256" "take 4 sample_record = le32 SP09_SPPH_MAGIC_NUMBER" "sample_record \<noteq> []"
  by (simp_all add: sample_record_def)

lemma sample_record_size [simp]: "sn_size (de32 (le32 SP09_SPPH_MAGIC_NUMBER)) = 256"
  by (simp add: de32_le32 sn_size_def SP09_SPPH_MAGIC_NUMBER_def SP09_SIZE_def)

definition read_request :: "nat \<Rightarrow> byte list" where
  "read_request seq = crc_msg \<lparr>seq_num = seq, head_len = MSG_HEAD_SIZE + 2, head_type = 0x5F, head_subtype = 0x80\<rparr> []"

text \<open>C20 (phase check, round trip): on a partition in order, a writing request with a right checksum is
  acknowledged, and a later reading request is answered with exactly the record that was written,
  the ACK as subtype and a checksum that is right for it, whatever memory and answer buffers held.\<close>

theorem phasecheck_roundtrip:
  assumes "misc_sound nand pf s" and "rsplen \<le> length (misc_img pf s)" and "length d \<le> rsplen"
    and "sn_size (de32 (take 4 d)) = length d" and "d \<noteq> []"
    and "head_ok h" and "head_len h = MSG_HEAD_SIZE + length d + 2" and "head_subtype h AND 0x80 = 0"
    and "head_subtype h AND 0x7f \<noteq> 0" and "12 \<le> length rsp"
    and "seq < 4294967296" and "length d + 12 \<le> length rsp'"
  shows "\<exists>b s' b'. direct_phschk nand pf g (crc_msg h d @ post) rsp rsplen s =
      Some (12, b, 0x7E # head_bytes (h\<lparr>head_len := 10, head_subtype := 1\<rparr>) @ [0, 0, 0x7E] @ drop 12 rsp, s')
    \<and> direct_phschk nand pf g' (read_request seq @ post') rsp' rsplen s' =
      Some (int (length d + 12), b',
        crc_msg \<lparr>seq_num = seq, head_len = MSG_HEAD_SIZE + length d + 2, head_type = 0x5F, head_subtype = 1\<rparr> d
          @ drop (length d + 12) rsp', s')"
proof -
  let ?s' = "misc_put pf 0 d s"
  let ?h = "\<lparr>seq_num = seq, head_len = MSG_HEAD_SIZE + 2, head_type = 0x5F, head_subtype = 0x80\<rparr>"
  have l: "length d \<le> length (misc_img pf s)" using assms(2,3) by simp
  have w: "\<exists>b. direct_phschk nand pf g (crc_msg h d @ post) rsp rsplen s =
      Some (12, b, 0x7E # head_bytes (h\<lparr>head_len := 10, head_subtype := 1\<rparr>) @ [0, 0, 0x7E] @ drop 12 rsp, ?s')"
    using phschk_write_ok [OF assms(1,9,5) l assms(10)] assms(8) by (simp add: direct_phschk_crc_msg assms(6,7))
  have i: "misc_img pf ?s' = d @ drop (length d) (misc_img pf s)" by (simp add: misc_img_put overlay_0)
  have d4: "4 \<le> length d" using assms(4,5) by (auto simp: sn_size_def SP09_SIZE_def SP15_SIZE_def split: if_splits)
  have p: "head_ok ?h" "head_subtype ?h AND 0x80 \<noteq> 0" using assms(11) by (simp_all add: head_ok_def MSG_HEAD_SIZE_def)
  have "phschk_read nand pf g' rsplen (0x7E # head_bytes ?h @ [] @ crc_bytes (crc16 0 []) @ [0x7E] @ post') rsp' ?s' =
      Some (int (length d + 12), 0x7E # head_bytes ?h @ [] @ crc_bytes (crc16 0 []) @ [0x7E] @ post',
        crc_msg (?h\<lparr>head_len := MSG_HEAD_SIZE + length d + 2, head_subtype := 1\<rparr>) d @ drop (length d + 12) rsp', ?s')"
    using assms(2-4,12) l d4
    by (intro phschk_read_ok misc_sound_put assms(1)) (simp_all add: i)
  then have "\<exists>b'. direct_phschk nand pf g' (read_request seq @ post') rsp' rsplen ?s' =
      Some (int (length d + 12), b', crc_msg \<lparr>seq_num = seq, head_len = MSG_HEAD_SIZE + length d + 2,
        head_type = 0x5F, head_subtype = 1\<rparr> d @ drop (length d + 12) rsp', ?s')"
    using p unfolding read_request_def by (simp add: direct_phschk_crc_msg) (simp add: crc_msg_def)
  then show ?thesis using w by blast
qed

theorem phasecheck_roundtrip_witness:
  "\<exists>b r s' b'. direct_phschk False sample_props (\<lambda>i. 9) (crc_msg (sample_head 266 0x5F 1) sample_record) (replicate 12 0) 512
        (sample_files (replicate 512 0)) = Some (12, b, r, s')
    \<and> direct_phschk False sample_props (\<lambda>i. 8) (read_request 2) (replicate 268 0) 512 s' =
      Some (268, b', crc_msg \<lparr>seq_num = 2, head_len = 266, head_type = 0x5F, head_subtype = 1\<rparr> sample_record, s')"
  using phasecheck_roundtrip [of False sample_props "sample_files (replicate 512 0)" 512 sample_record
      "sample_head 266 0x5F 1" "replicate 12 0" 2 "replicate 268 0" "\<lambda>i. 9" "[]" "\<lambda>i. 8" "[]"]
  by (auto simp: sample_sound MSG_HEAD_SIZE_def)

text \<open>C21 (phase check, damaged requests): when two adjacent bytes of the data differ from those the
  checksum was computed for, the request is neither answered nor carried out, whatever its command.\<close>

theorem phasecheck_rejects:
  assumes "head_ok h" and "head_len h = MSG_HEAD_SIZE + length (xs @ c1 # c2 # ys) + 2" and "(b1, b2) \<noteq> (c1, c2)"
  shows "\<exists>b. direct_phschk nand pf g
      (0x7E # head_bytes h @ (xs @ c1 # c2 # ys) @ crc_bytes (crc16 0 (xs @ b1 # b2 # ys)) @ post) rsp rsplen s =
    Some (0, b, rsp, s)"
proof -
  let ?d = "xs @ c1 # c2 # ys"
  let ?buf = "0x7E # head_bytes h @ ?d @ crc_bytes (crc16 0 (xs @ b1 # b2 # ys)) @ post"
  have r: "request_crc ?buf (head_len h) = Some (unat (crc16 0 (xs @ b1 # b2 # ys)), ?d)"
    using request_crc_msg [OF assms(2)] by (simp add: de16_crc_bytes)
  have "read_head ?buf 1 = Some h" using assms(1) by (simp add: msg_simps)
  moreover have "unat (crc16 0 (xs @ b1 # b2 # ys)) \<noteq> unat (crc16 0 ?d)"
    using assms(3) crc16_two_bytes [of 0 xs b1 b2 ys c1 c2] by (auto simp flip: word_unat_eq_iff)
  ultimately show ?thesis
    unfolding direct_phschk_def
    by (simp only: bind.simps r prod.case if_True)
       (simp add: set_len_flag put_body_flag del: append_assoc)
qed

theorem phasecheck_rejects_witness:
  "\<exists>b. direct_phschk False sample_props (\<lambda>i. 9) (0x7E # head_bytes (sample_head 13 0x5F 1) @ ([1] @ 3 # 2 # []) @
      crc_bytes (crc16 0 ([1] @ 2 # 2 # [])) @ [0x7E]) [5] 512 (sample_files [4]) = Some (0, b, [5], sample_files [4])"
  by (rule phasecheck_rejects) (simp_all add: MSG_HEAD_SIZE_def)

text \<open>(misc data, writing): the 16-bit writing command always answers with success, but only what falls
  into the first \<open>n\<close> bytes of the partition is written, where \<open>n\<close> is the length of the data: with an offset
  of \<open>n\<close> or more the partition keeps its content.\<close>

theorem product_write_effect:
  assumes "misc_sound nand pf s" and "head_ok h" and "head_subtype h = 3" and "length new = n" and "0 < n"
    and "n \<le> length (misc_img pf s)" and "off + n \<le> rsplen" and "n + 14 \<le> rsplen" and "10 \<le> length rsp"
    and "off < 65536" and "n < 65536"
  shows "\<exists>b s'. eng_diag_product_ctrl nand pf g (0x7E # head_bytes h @ le16 off @ le16 n @ new @ post) rsp rsplen s =
      Some (10, b, 0x7E # head_bytes (h\<lparr>head_subtype := 0, head_len := MSG_HEAD_SIZE\<rparr>) @ [0x7E] @ drop 10 rsp, s')
    \<and> misc_img pf s' = take (min off n) (misc_img pf s) @ take (n - off) new @ drop n (misc_img pf s)
    \<and> (off \<ge> n \<longrightarrow> misc_img pf s' = misc_img pf s)"
proof -
  let ?i = "misc_img pf s"
  let ?p = "product_image off n new (take n ?i)"
  have "length ?p = n" using assms(4,6) by (simp add: product_image_def)
  then have "misc_img pf (misc_put pf 0 ?p s) = ?p @ drop n ?i"
    by (simp add: misc_img_put overlay_0)
  moreover have "take (min off n) (take n ?i) = take (min off n) ?i" by simp
  ultimately have "misc_img pf (misc_put pf 0 ?p s) = take (min off n) ?i @ take (n - off) new @ drop n ?i"
    by (simp only: product_image_def append_assoc)
  then show ?thesis using product_write_ok [OF assms, of g post] by auto
qed

theorem product_write_effect_witness:
  "\<exists>b r s'. eng_diag_product_ctrl True sample_props (\<lambda>i. 9) (0x7E # head_bytes (sample_head 22 0x0D 3) @ le16 2 @ le16 2 @ [1, 1] @ [0x7E])
      (replicate 64 0) 64 (sample_files (replicate NAND_MISCDATA_FILESIZE 0)) = Some (10, b, r, s')
    \<and> misc_img sample_props s' = replicate NAND_MISCDATA_FILESIZE 0"
  using product_write_effect [of True sample_props "sample_files (replicate NAND_MISCDATA_FILESIZE 0)" "sample_head 22 0x0D 3"
      "[1, 1]" 2 2 64 "replicate 64 0" "\<lambda>i. 9" "[0x7E]"] NAND_large
  by (auto simp: sample_sound)

text \<open>(misc data, 32-bit commands): what the writing command stores at an offset, the reading command
  of the same offset and length returns, and no byte outside changes.\<close>

theorem product_ex_roundtrip:
  assumes "misc_sound nand pf s" and "length d = n" and "0 < n" and "off + n \<le> length (misc_img pf s)"
    and "off < 2147483648" and "n < 2147483600" and "n + 18 \<le> rsplen" and "n + 18 \<le> length rsp" and "10 \<le> length rsp'"
    and "head_ok h" and "head_subtype h = 0x13" and "head_ok h'" and "head_subtype h' = 0x12"
  shows "\<exists>b r s' b'. eng_diag_product_ctrl_ex nand pf g (ex_msg h off n (d @ post)) rsp' rsplen s = Some (10, b, r, s')
    \<and> misc_img pf s' = take off (misc_img pf s) @ d @ drop (off + n) (misc_img pf s)
    \<and> eng_diag_product_ctrl_ex nand pf g (ex_msg h' off n post') rsp rsplen s' =
      Some (int n + 18, b', ex_msg (h'\<lparr>head_subtype := 0, head_len := PRODUCT_HEAD_EX + n\<rparr>) off n d
        @ [0x7E] @ drop (n + 18) rsp, s')"
proof -
  let ?s' = "misc_put pf off d s"
  have i: "misc_img pf ?s' = take off (misc_img pf s) @ d @ drop (off + n) (misc_img pf s)"
    using assms(2,4) by (simp add: misc_img_put overlay_inside)
  have l: "off + n \<le> length (misc_img pf ?s')" using i assms(2,4) by simp
  have t: "take n (drop off (misc_img pf ?s')) = d" using i assms(2,4) by simp
  have sd: "misc_sound nand pf ?s'" using misc_sound_put assms(1,2,4) by blast
  show ?thesis
    using product_ex_write [OF assms(1,10,11,2-7,9), of g post]
      product_ex_read [OF sd assms(12,13,3) l assms(5-8), of g post'] i t by auto
qed

theorem product_ex_roundtrip_witness:
  "\<exists>b r s' b'. eng_diag_product_ctrl_ex False sample_props (\<lambda>i. 9) (ex_msg (sample_head 26 0x0D 0x13) 3 2 ([1, 2] @ [0x7E]))
      (replicate 64 0) 64 (sample_files (replicate 16 5)) = Some (10, b, r, s')
    \<and> misc_img sample_props s' = replicate 3 5 @ [1, 2] @ replicate 11 5
    \<and> eng_diag_product_ctrl_ex False sample_props (\<lambda>i. 9) (ex_msg (sample_head 24 0x0D 0x12) 3 2 [0x7E]) (replicate 20 0) 64 s' =
      Some (20, b', ex_msg ((sample_head 24 0x0D 0x12)\<lparr>head_subtype := 0, head_len := PRODUCT_HEAD_EX + 2\<rparr>) 3 2 [1, 2] @ [0x7E], s')"
  using product_ex_roundtrip [of False sample_props "sample_files (replicate 16 5)" "[1, 2]" 2 3 64 "replicate 20 0" "replicate 64 0"
      "sample_head 26 0x0D 0x13" "sample_head 24 0x0D 0x12" "\<lambda>i. 9" "[0x7E]" "[0x7E]"]
  by (simp add: sample_sound)

text \<open>Outside of that the two builds differ: neither looks at the length or the offset. To read no bytes succeeds on NAND and
  fails otherwise; to read on behind the volume reads behind the buffer on NAND, and gives what is left otherwise.\<close>

lemma nand_differs:
  assumes "misc_sound True pf s" and "0 \<le> off" and "nat off \<le> NAND_MISCDATA_FILESIZE"
  shows "eng_read_miscdata_with_offset True pf off 0 s = Some (0, [])"
    and "eng_read_miscdata_with_offset False pf off 0 s = Some (- 2, [])"
    and "NAND_MISCDATA_FILESIZE + 1 < nat off + n \<Longrightarrow> eng_read_miscdata_with_offset True pf off n s = None"
    and "eng_read_miscdata_with_offset False pf off n s = Some (read_result (Some (take n (drop (nat off) (misc_img pf s)))))"
proof -
  have l: "length (misc_img pf s) = NAND_MISCDATA_FILESIZE" and f: "misc_sound False pf s"
    using assms(1) by (auto simp: misc_sound_def Let_def)
  show "eng_read_miscdata_with_offset True pf off 0 s = Some (0, [])"
    "NAND_MISCDATA_FILESIZE + 1 < nat off + n \<Longrightarrow> eng_read_miscdata_with_offset True pf off n s = None"
    using assms l misc_whole [OF assms(1)] by (simp_all add: eng_read_miscdata_with_offset_def get_def zfill_def)
  show r: "eng_read_miscdata_with_offset False pf off n s = Some (read_result (Some (take n (drop (nat off) (misc_img pf s)))))" for n
    using assms(3) l misc_seek [OF f assms(2)]
    by (simp add: eng_read_miscdata_with_offset_def Let_def misc_open [OF f] misc_read [OF f])
  show "eng_read_miscdata_with_offset False pf off 0 s = Some (- 2, [])" by (simp add: r read_result_def)
qed

text \<open>C22 (the two builds): on a volume of 1 MB in order the NAND build, which reads and rewrites the whole
  volume, and the other build, which seeks, return the same results, bytes and contents, for accesses of
  at least one byte that lie inside the volume. (The code checks neither, and the builds differ for
  others, see \<open>nand_differs\<close>.)\<close>

theorem nand_equivalence:
  assumes "misc_sound True pf s" and "0 \<le> off" and "bs \<noteq> []" and "nat off + length bs \<le> NAND_MISCDATA_FILESIZE"
    and "0 < n" and "nat off + n \<le> NAND_MISCDATA_FILESIZE"
  shows "eng_read_miscdata_with_offset True pf off n s = eng_read_miscdata_with_offset False pf off n s
    \<and> eng_write_miscdata_with_offset True pf off bs s = eng_write_miscdata_with_offset False pf off bs s
    \<and> eng_write_miscdata_with_offset True pf off bs s \<noteq> None"
proof -
  have l: "length (misc_img pf s) = NAND_MISCDATA_FILESIZE" and f: "misc_sound False pf s"
    using assms(1) by (auto simp: misc_sound_def Let_def)
  show ?thesis
    using misc_load [OF assms(1,2,5)] misc_load [OF f assms(2,5)] misc_store_eq [OF assms(1-3)]
      misc_store_eq [OF f assms(2,3)] assms(4,6) l by simp
qed

theorem nand_equivalence_witness:
  "eng_write_miscdata_with_offset True sample_props 4 [1] (sample_files (replicate NAND_MISCDATA_FILESIZE 0)) =
   eng_write_miscdata_with_offset False sample_props 4 [1] (sample_files (replicate NAND_MISCDATA_FILESIZE 0))"
  using nand_equivalence [of sample_props "sample_files (replicate NAND_MISCDATA_FILESIZE 0)" 4 "[1]" 1] NAND_large
  by (simp add: sample_sound)

end
