(* ===== verification/CLib.thy ===== *)
theory CLib
  imports Base
begin

text \<open>
  The number conversions of the C library that the modules use: \<open>strtol\<close> and \<open>strtoul\<close> with the end
  pointer, for the 32-bit \<open>long\<close> of the build, and \<open>printf\<close>'s \<open>%02x\<close>; what they give for the texts that
  \<open>%d\<close> and \<open>%02x\<close> print.
\<close>

section \<open>Conversions\<close>

definition digit_value :: "byte \<Rightarrow> nat" where
  "digit_value b =
     (let n = unat b in
      if 48 \<le> n \<and> n \<le> 57 then n - 48
      else if 97 \<le> n \<and> n \<le> 122 then n - 87
      else if 65 \<le> n \<and> n \<le> 90 then n - 55 else 99)"

definition digits_in :: "nat \<Rightarrow> byte list \<Rightarrow> byte list" where
  "digits_in base s = takeWhile (\<lambda>b. digit_value b < base) s"

definition radix :: "nat \<Rightarrow> byte list \<Rightarrow> nat" where
  "radix base ds = foldl (\<lambda>n b. base * n + digit_value b) 0 ds"

text \<open>White space, a sign, the prefix of the base, digits: sign, value and the rest of the text, or
  \<open>None\<close> when there are no digits (then the end pointer is the start of the text).\<close>

definition split_sign :: "byte list \<Rightarrow> bool \<times> byte list" where
  "split_sign s =
     (case dropWhile is_space s of
        [] \<Rightarrow> (False, [])
      | b # bs \<Rightarrow> if b = 45 then (True, bs) else if b = 43 then (False, bs) else (False, b # bs))"

definition hex_prefix :: "byte list \<Rightarrow> bool" where
  "hex_prefix s \<longleftrightarrow> (case s of a # b # c # _ \<Rightarrow> a = 48 \<and> (b = 120 \<or> b = 88) \<and> digit_value c < 16 | _ \<Rightarrow> False)"

definition number_at :: "nat \<Rightarrow> byte list \<Rightarrow> (bool \<times> nat \<times> byte list) option" where
  "number_at base s =
     (let (neg, t) = split_sign s;
          hex = ((base = 0 \<or> base = 16) \<and> hex_prefix t);
          b = (if hex then 16 else if base = 0 then (if t \<noteq> [] \<and> hd t = 48 then 8 else 10) else base);
          u = (if hex then drop 2 t else t);
          ds = digits_in b u
      in if ds = [] then None else Some (neg, radix b ds, drop (length ds) u))"

text \<open>\<open>strtol(s, &end, base)\<close> and \<open>strtoul\<close>, for a \<open>long\<close> of 32 bits.\<close>

definition strtol :: "nat \<Rightarrow> byte list \<Rightarrow> int \<times> byte list" where
  "strtol base s =
     (case number_at base s of
        None \<Rightarrow> (0, s)
      | Some (neg, n, rest) \<Rightarrow>
          (max (- 2147483648) (min 2147483647 (if neg then - int n else int n)), rest))"

definition strtoul :: "nat \<Rightarrow> byte list \<Rightarrow> 32 word \<times> byte list" where
  "strtoul base s =
     (case number_at base s of
        None \<Rightarrow> (0, s)
      | Some (neg, n, rest) \<Rightarrow>
          (if n > 4294967295 then - 1 else if neg then - word_of_nat n else word_of_nat n, rest))"

definition hex_digit :: "nat \<Rightarrow> byte" where
  "hex_digit n = of_nat (if n < 10 then 48 + n else 87 + n)"

text \<open>\<open>%02x\<close> of an unsigned byte.\<close>

definition hex2 :: "byte \<Rightarrow> byte list" where
  "hex2 b = [hex_digit (unat b div 16), hex_digit (unat b mod 16)]"

section \<open>What is printed is read back\<close>

lemma digit_value_dec: "n < 10 \<Longrightarrow> digit_value (of_nat (48 + n)) = n"
  by (simp add: digit_value_def Let_def del: of_nat_add)

lemma digit_value_hex: "n < 16 \<Longrightarrow> digit_value (hex_digit n) = n"
  by (simp add: digit_value_def hex_digit_def Let_def)

lemma radix_snoc: "radix base (ds @ [b]) = base * radix base ds + digit_value b"
  by (simp add: radix_def)

lemma show_nat_digits: "\<forall>b \<in> set (show_nat n). digit_value b < 10 \<and> 48 \<le> unat b \<and> unat b \<le> 57"
proof (induction n rule: show_nat.induct)
  case (1 n)
  then show ?case
    by (subst show_nat.simps) (auto simp: digit_value_dec simp del: of_nat_add)
qed

lemma show_nat_not_Nil: "show_nat n \<noteq> []"
  by (subst show_nat.simps) simp

lemma radix_show_nat: "radix 10 (show_nat n) = n"
proof (induction n rule: show_nat.induct)
  case (1 n)
  show ?case
  proof (cases "n < 10")
    case True
    then show ?thesis by (simp add: show_nat_digit radix_def digit_value_dec del: of_nat_add)
  next
    case False
    then have "show_nat n = show_nat (n div 10) @ [of_nat (48 + n mod 10)]"
      by (subst show_nat.simps) simp
    then show ?thesis
      using 1 False digit_value_dec [of "n mod 10"] by (simp add: radix_snoc del: of_nat_add)
  qed
qed

lemma digits_in_stop:
  assumes "\<forall>b \<in> set ds. digit_value b < base" and "rest = [] \<or> \<not> digit_value (hd rest) < base"
  shows "digits_in base (ds @ rest) = ds"
  using assms by (cases rest) (simp_all add: digits_in_def takeWhile_append)

lemma split_sign_digit:
  assumes "48 \<le> unat b" and "unat b \<le> 102"
  shows "split_sign (b # bs) = (False, b # bs)"
proof -
  have "\<not> is_space b" "b \<noteq> 45" "b \<noteq> 43" using assms by (auto simp: is_space_def word_le_nat_alt)
  then show ?thesis by (simp add: split_sign_def)
qed

lemma number_at_dec:
  assumes "rest = [] \<or> \<not> digit_value (hd rest) < 10"
  shows "number_at 10 (show_nat n @ rest) = Some (False, n, rest)"
    and "number_at 10 (45 # show_nat n @ rest) = Some (True, n, rest)"
proof -
  obtain b bs where b: "show_nat n = b # bs" using show_nat_not_Nil by (cases "show_nat n") auto
  have s: "split_sign (show_nat n @ rest) = (False, show_nat n @ rest)"
    using show_nat_digits [of n] by (simp add: b split_sign_digit)
  have m: "split_sign (45 # show_nat n @ rest) = (True, show_nat n @ rest)"
    by (simp add: split_sign_def is_space_def)
  have d: "digits_in 10 (show_nat n @ rest) = show_nat n"
    using show_nat_digits [of n] assms by (intro digits_in_stop) auto
  show "number_at 10 (show_nat n @ rest) = Some (False, n, rest)"
    and "number_at 10 (45 # show_nat n @ rest) = Some (True, n, rest)"
    by (simp_all add: number_at_def Let_def s m d show_nat_not_Nil radix_show_nat)
qed

lemma strtol_show_int:
  assumes "rest = [] \<or> \<not> digit_value (hd rest) < 10" and "- 2147483648 \<le> i" and "i \<le> 2147483647"
  shows "strtol 10 (show_int i @ rest) = (i, rest)"
  using number_at_dec [OF assms(1)] assms(2,3) by (simp add: strtol_def show_int_def)

lemma hex_digit_range: "n < 16 \<Longrightarrow> 48 \<le> unat (hex_digit n) \<and> unat (hex_digit n) \<le> 102"
  by (auto simp: hex_digit_def)

lemma unat_div16: "unat (b :: byte) div 16 < 16"
  using unsigned_less [of b, where 'a = nat] by simp

lemma strtol_hex2:
  assumes "rest = [] \<or> \<not> digit_value (hd rest) < 16"
  shows "strtol 16 (hex2 b @ rest) = (int (unat b), rest)"
proof -
  let ?h = "hex_digit (unat b div 16)" and ?l = "hex_digit (unat b mod 16)"
  have v: "digit_value ?h = unat b div 16" "digit_value ?l = unat b mod 16"
    using unat_div16 [of b] by (simp_all add: digit_value_hex)
  have "split_sign (?h # ?l # rest) = (False, ?h # ?l # rest)"
    using hex_digit_range [OF unat_div16] by (simp add: split_sign_digit)
  moreover have "\<not> hex_prefix (?h # ?l # rest)"
  proof -
    have "?l \<noteq> 120 \<and> ?l \<noteq> 88" using v(2) by (auto simp: digit_value_def)
    then show ?thesis by (auto simp: hex_prefix_def split: list.splits)
  qed
  moreover have "digits_in 16 ([?h, ?l] @ rest) = [?h, ?l]"
    using v assms unat_div16 [of b] by (intro digits_in_stop) auto
  moreover have "radix 16 [?h, ?l] = unat b" using v by (simp add: radix_def)
  moreover have "uint b < 256" using unsigned_less [of b, where 'a = int] by simp
  ultimately show ?thesis by (simp add: strtol_def number_at_def hex2_def Let_def suc2)
qed

text \<open>The characters and the length of a printed number.\<close>

lemma show_int_set: "b \<in> set (show_int i) \<Longrightarrow> b = 45 \<or> (48 \<le> unat b \<and> unat b \<le> 57)"
  using show_nat_digits [of "nat i"] show_nat_digits [of "nat (- i)"]
  by (auto simp: show_int_def split: if_splits)

lemma show_nat_length: "n < 10 ^ k \<Longrightarrow> 0 < k \<Longrightarrow> length (show_nat n) \<le> k"
proof (induction n arbitrary: k rule: show_nat.induct)
  case (1 n)
  show ?case
  proof (cases "n < 10")
    case True
    then show ?thesis using 1 by (simp add: show_nat_digit)
  next
    case False
    then obtain k' where k: "k = Suc k'" "0 < k'" using 1(2,3) by (cases k; cases "k - 1") auto
    have "n < 10 ^ k' * 10" using 1(2) unfolding k(1) power_Suc by (simp only: mult.commute)
    then have "n div 10 < 10 ^ k'" by (rule less_mult_imp_div_less)
    then have "length (show_nat (n div 10)) \<le> k'" using 1(1) False k by simp
    then show ?thesis using False k by (subst show_nat.simps) simp
  qed
qed

lemma show_int_length: "\<bar>i\<bar> < 10 ^ k \<Longrightarrow> 0 < k \<Longrightarrow> length (show_int i) \<le> Suc k"
proof -
  assume i: "\<bar>i\<bar> < 10 ^ k" and k: "0 < k"
  have "nat \<bar>i\<bar> < 10 ^ k" using i by (simp add: nat_less_iff)
  then have "length (show_nat (nat \<bar>i\<bar>)) \<le> k" using k by (rule show_nat_length)
  then show ?thesis by (auto simp: show_int_def abs_if split: if_splits)
qed

text \<open>\<open>printf\<close>'s \<open>%x\<close>.\<close>

fun show_hex :: "nat \<Rightarrow> byte list" where
  "show_hex n = (if n < 16 then [hex_digit n] else show_hex (n div 16) @ [hex_digit (n mod 16)])"

declare show_hex.simps [simp del]

end
