(* ===== verification/AtTok.thy ===== *)
theory AtTok
  imports CLib
begin

text \<open>
  The tokenizer of AT responses (\<open>modules/libFactoryRadioTest/at_tok.c\<close>). A cursor \<open>*p_cur\<close> is the text
  from the pointer to its NUL, or \<open>None\<close> for a null pointer; \<open>strsep\<close> ends a token in place, which
  the text behind the cursor does not show. Each operation returns its result, what it stores at
  \<open>*p_out\<close> (if it does) and the new cursor.
\<close>

type_synonym cursor = "byte list option"

section \<open>The code\<close>

definition strsep :: "cursor \<Rightarrow> byte \<Rightarrow> byte list option \<times> cursor" where
  "strsep cur delim =
     (case cur of
        None \<Rightarrow> (None, None)
      | Some s \<Rightarrow> (let rest = dropWhile (\<lambda>b. b \<noteq> delim) s in
                  (Some (takeWhile (\<lambda>b. b \<noteq> delim) s), if rest = [] then None else Some (tl rest))))"

definition at_tok_flag_start :: "cursor \<Rightarrow> byte \<Rightarrow> int \<times> cursor" where
  "at_tok_flag_start cur start_flag =
     (case cur of
        None \<Rightarrow> (- 1, None)
      | Some s \<Rightarrow> (case strchr s start_flag of None \<Rightarrow> (- 1, None) | Some t \<Rightarrow> (0, Some (tl t))))"

definition at_tok_start :: "cursor \<Rightarrow> int \<times> cursor" where
  "at_tok_start cur =
     (case cur of
        None \<Rightarrow> (- 1, None)
      | Some s \<Rightarrow> (case strchr s 58 of None \<Rightarrow> (- 1, None) | Some t \<Rightarrow> (0, Some (tl t))))"

definition skipWhiteSpace :: "cursor \<Rightarrow> cursor" where
  "skipWhiteSpace cur = (case cur of None \<Rightarrow> None | Some s \<Rightarrow> Some (dropWhile is_space s))"

definition skipNextComma :: "cursor \<Rightarrow> cursor" where
  "skipNextComma cur =
     (case cur of
        None \<Rightarrow> None
      | Some s \<Rightarrow> (let t = dropWhile (\<lambda>b. b \<noteq> 44) s in Some (if t = [] then [] else tl t)))"

definition nextTok :: "cursor \<Rightarrow> byte list option \<times> cursor" where
  "nextTok cur =
     (case skipWhiteSpace cur of
        None \<Rightarrow> (None, None)
      | Some s \<Rightarrow>
          (if s \<noteq> [] \<and> hd s = 34
           then let (ret, cur') = strsep (Some (tl s)) 34 in (ret, skipNextComma cur')
           else strsep (Some s) 44))"

definition at_tok_nextint_base :: "cursor \<Rightarrow> nat \<Rightarrow> bool \<Rightarrow> int \<times> int option \<times> cursor" where
  "at_tok_nextint_base cur base uns =
     (if cur = None then (- 1, None, None)
      else let (ret, cur') = nextTok cur in
           case ret of
             None \<Rightarrow> (- 1, None, cur')
           | Some tok \<Rightarrow>
               (let (l, stop) = (if uns then let (v, e) = strtoul base tok in (sint v, e) else strtol base tok)
                in (if stop = tok then - 1 else 0, Some l, cur')))"

definition at_tok_nextint :: "cursor \<Rightarrow> int \<times> int option \<times> cursor" where
  "at_tok_nextint cur = at_tok_nextint_base cur 10 False"

definition at_tok_nexthexint :: "cursor \<Rightarrow> int \<times> int option \<times> cursor" where
  "at_tok_nexthexint cur = at_tok_nextint_base cur 16 True"

definition at_tok_nextbool :: "cursor \<Rightarrow> int \<times> int option \<times> cursor" where
  "at_tok_nextbool cur =
     (let (ret, result, cur') = at_tok_nextint cur in
      if ret < 0 then (- 1, None, cur')
      else if \<not> (result = Some 0 \<or> result = Some 1) then (- 1, None, cur')
      else (ret, result, cur'))"

text \<open>The stored pointer may be null: then the result is 0 all the same.\<close>

definition at_tok_nextstr :: "cursor \<Rightarrow> int \<times> byte list option \<times> cursor" where
  "at_tok_nextstr cur =
     (if cur = None then (- 1, None, None) else let (ret, cur') = nextTok cur in (0, ret, cur'))"

definition at_tok_hasmore :: "cursor \<Rightarrow> bool" where
  "at_tok_hasmore cur \<longleftrightarrow> \<not> (cur = None \<or> cur = Some [])"

section \<open>Responses\<close>

text \<open>The arguments of a response and their text: numbers in decimal, strings in quotes, commas
  between them; and the calls that read such a response back.\<close>

datatype at_arg = AtInt int | AtStr "byte list"

fun arg_text :: "at_arg \<Rightarrow> byte list" where
  "arg_text (AtInt i) = show_int i"
| "arg_text (AtStr s) = 34 # s @ [34]"

fun args_text :: "at_arg list \<Rightarrow> byte list" where
  "args_text [] = []"
| "args_text [a] = arg_text a"
| "args_text (a # as) = arg_text a @ 44 # args_text as"

fun arg_ok :: "at_arg \<Rightarrow> bool" where
  "arg_ok (AtInt i) \<longleftrightarrow> - 2147483648 \<le> i \<and> i \<le> 2147483647"
| "arg_ok (AtStr s) \<longleftrightarrow> 34 \<notin> set s"

fun at_read :: "at_arg list \<Rightarrow> cursor \<Rightarrow> (at_arg list \<times> cursor) option" where
  "at_read [] cur = Some ([], cur)"
| "at_read (AtInt _ # as) cur =
     (case at_tok_nextint cur of
        (ret, Some v, cur') \<Rightarrow>
          if ret < 0 then None
          else do { (vs, cur'') \<leftarrow> at_read as cur'; Some (AtInt v # vs, cur'') }
      | _ \<Rightarrow> None)"
| "at_read (AtStr _ # as) cur =
     (case at_tok_nextstr cur of
        (ret, Some s, cur') \<Rightarrow>
          if ret < 0 then None
          else do { (vs, cur'') \<leftarrow> at_read as cur'; Some (AtStr s # vs, cur'') }
      | _ \<Rightarrow> None)"

section \<open>Reading one token\<close>

lemma show_int_not_Nil: "show_int i \<noteq> []"
  by (simp add: show_int_def show_nat_not_Nil)

lemma show_int_plain: "b \<in> set (show_int i) \<Longrightarrow> \<not> is_space b \<and> b \<noteq> 44 \<and> b \<noteq> 34"
  using show_int_set [of b i] by (auto simp: is_space_def word_le_nat_alt)

lemma strsep_hit: "d \<notin> set s \<Longrightarrow> strsep (Some (s @ d # rest)) d = (Some s, Some rest)"
proof -
  assume d: "d \<notin> set s"
  have "takeWhile (\<lambda>b. b \<noteq> d) (s @ d # rest) = s" "dropWhile (\<lambda>b. b \<noteq> d) (s @ d # rest) = d # rest"
    using d by (subst takeWhile_append2 dropWhile_append2; auto)+
  then show ?thesis by (simp add: strsep_def)
qed

lemma strsep_end: "d \<notin> set s \<Longrightarrow> strsep (Some s) d = (Some s, None)"
proof -
  assume d: "d \<notin> set s"
  have "takeWhile (\<lambda>b. b \<noteq> d) s = s" "dropWhile (\<lambda>b. b \<noteq> d) s = []"
    using d by (auto simp: takeWhile_eq_all_conv dropWhile_eq_Nil_conv)
  then show ?thesis by (simp add: strsep_def)
qed

text \<open>The text behind an argument: its end or a comma.\<close>

definition behind :: "byte list option \<Rightarrow> byte list" where
  "behind more = (case more of None \<Rightarrow> [] | Some t \<Rightarrow> 44 # t)"

lemma nextTok_int:
  "nextTok (Some (show_int i @ behind more)) = (Some (show_int i), more)"
proof -
  obtain b bs where b: "show_int i = b # bs" using show_int_not_Nil by (cases "show_int i") auto
  have p: "\<not> is_space b" "b \<noteq> 34" "44 \<notin> set (show_int i)"
    using show_int_plain [of b i] show_int_plain [of 44 i] b by auto
  then have "nextTok (Some (show_int i @ behind more)) = strsep (Some (show_int i @ behind more)) 44"
    by (simp add: nextTok_def skipWhiteSpace_def b)
  then show ?thesis
    using strsep_hit [OF p(3)] strsep_end [OF p(3)] by (cases more) (simp_all add: behind_def)
qed

lemma nextTok_str:
  assumes "34 \<notin> set s"
  shows "nextTok (Some (34 # s @ 34 # behind more)) = (Some s, Some (case more of None \<Rightarrow> [] | Some t \<Rightarrow> t))"
  using strsep_hit [OF assms, of "behind more"]
  by (cases more) (simp_all add: nextTok_def skipWhiteSpace_def is_space_def skipNextComma_def behind_def)

lemma nextTok_space: "nextTok (Some (32 # s)) = nextTok (Some s)"
  by (simp add: nextTok_def skipWhiteSpace_def is_space_def)

lemma nextint_ok:
  assumes "- 2147483648 \<le> i" and "i \<le> 2147483647"
  shows "at_tok_nextint (Some (show_int i @ behind more)) = (0, Some i, more)"
  using strtol_show_int [of "[]" i] assms show_int_not_Nil [of i]
  by (simp add: at_tok_nextint_def at_tok_nextint_base_def nextTok_int)

text \<open>A blank before the first argument changes nothing.\<close>

lemma at_read_space: "as \<noteq> [] \<Longrightarrow> at_read as (Some (32 # s)) = at_read as (Some s)"
proof (cases as)
  case (Cons a bs)
  then show ?thesis
    by (cases a) (simp_all add: at_tok_nextint_def at_tok_nextint_base_def at_tok_nextstr_def nextTok_space)
qed simp

lemma args_text_behind:
  "args_text (a # as) = arg_text a @ behind (if as = [] then None else Some (args_text as))"
  by (cases as) (simp_all add: behind_def)

lemma at_read_args:
  assumes "list_all arg_ok as" and "as \<noteq> []"
  shows "\<exists>cur. at_read as (Some (args_text as)) = Some (as, cur) \<and> \<not> at_tok_hasmore cur"
  using assms
proof (induction as)
  case (Cons a as)
  let ?more = "if as = [] then None else Some (args_text as)"
  have rest: "as \<noteq> [] \<Longrightarrow> \<exists>cur. at_read as (Some (args_text as)) = Some (as, cur) \<and> \<not> at_tok_hasmore cur"
    using Cons by simp
  show ?case
  proof (cases a)
    case (AtInt i)
    then have "at_tok_nextint (Some (args_text (a # as))) = (0, Some i, ?more)"
      using Cons.prems(1) nextint_ok [of i ?more] by (simp add: args_text_behind del: args_text.simps)
    then show ?thesis using rest AtInt
      by (cases "as = []") (auto simp: at_tok_hasmore_def simp del: args_text.simps)
  next
    case (AtStr s)
    then have "nextTok (Some (args_text (a # as))) = (Some s, Some (case ?more of None \<Rightarrow> [] | Some t \<Rightarrow> t))"
      using Cons.prems(1) nextTok_str [of s ?more] by (simp add: args_text_behind del: args_text.simps)
    then have "at_tok_nextstr (Some (args_text (a # as))) = (0, Some s, Some (case ?more of None \<Rightarrow> [] | Some t \<Rightarrow> t))"
      by (simp add: at_tok_nextstr_def)
    then show ?thesis using rest AtStr
      by (cases "as = []") (auto simp: at_tok_hasmore_def simp del: args_text.simps)
  qed
qed simp

section \<open>Properties\<close>

lemma strchr_prefix: "c \<notin> set s \<Longrightarrow> strchr (s @ c # t) c = Some (c # t)"
  by (induction s) auto

text \<open>(AT responses): a response line with a name, a colon, a blank and any numbers of 32 bits and
  quoted strings without quotes inside is read back, argument by argument, with success, and then
  there is nothing more; quoted strings may contain commas and colons.\<close>

theorem at_tok_roundtrip:
  assumes "58 \<notin> set name" and "list_all arg_ok as" and "as \<noteq> []"
  shows "\<exists>cur cur'. at_tok_start (Some (name @ 58 # 32 # args_text as)) = (0, Some cur)
    \<and> at_read as (Some cur) = Some (as, cur') \<and> \<not> at_tok_hasmore cur'"
proof -
  obtain cur' where "at_read as (Some (args_text as)) = Some (as, cur')" "\<not> at_tok_hasmore cur'"
    using at_read_args [OF assms(2,3)] by blast
  then show ?thesis
    using strchr_prefix [OF assms(1)] by (simp add: at_tok_start_def at_read_space [OF assms(3)])
qed

theorem at_tok_roundtrip_witness:
  "\<exists>cur'. at_read [AtInt (- 7), AtStr (cs ''a,:b''), AtInt 12] (Some (32 # args_text [AtInt (- 7), AtStr (cs ''a,:b''), AtInt 12]))
    = Some ([AtInt (- 7), AtStr (cs ''a,:b''), AtInt 12], cur') \<and> \<not> at_tok_hasmore cur'"
  using at_tok_roundtrip [of "cs ''+X''" "[AtInt (- 7), AtStr (cs ''a,:b''), AtInt 12]"]
  by (auto simp: at_tok_start_def)

end
