(* ===== verification/BtWifi.thy ===== *)
theory BtWifi
  imports MiscData CLib Module
begin

text \<open>
  Bluetooth and WiFi addresses and IMEIs (\<open>modules/libmiscdata/bt_wifi_mac.c\<close>): the request that reads
  and writes them, the text files they are kept in, and the conversions between the packed and the
  text form. The numbers \<open>rand\<close> returns and the content of fresh files are input.
\<close>

section \<open>IMEI conversions\<close>

definition MAX_IMEI_LENGTH :: nat where "MAX_IMEI_LENGTH = 8"
definition MAX_IMEI_STR_LENGTH :: nat where "MAX_IMEI_STR_LENGTH = 15"

definition MAKE1BYTE2BYTES :: "byte \<Rightarrow> byte \<Rightarrow> byte" where
  "MAKE1BYTE2BYTES high4bit low4bit = push_bit 4 high4bit OR low4bit"

text \<open>Both read and write arrays of 15 and 8 bytes, with fixed bounds.\<close>

definition ImeiConvStr2NV :: "byte list \<Rightarrow> byte list" where
  "ImeiConvStr2NV szImei =
     MAKE1BYTE2BYTES (szImei ! 0 - 48) 0x0A #
     map (\<lambda>i. MAKE1BYTE2BYTES (szImei ! (2 * i) - 48) (szImei ! (2 * i - 1) - 48)) [1..<MAX_IMEI_LENGTH]"

definition ImeiConvNV2Str :: "byte list \<Rightarrow> byte list" where
  "ImeiConvNV2Str nvImei =
     concat (map (\<lambda>i. [drop_bit 4 (nvImei ! i AND 0xF0) + 48, (nvImei ! (i + 1) AND 0x0F) + 48])
       [0..<MAX_IMEI_LENGTH - 1]) @ [drop_bit 4 (nvImei ! 7 AND 0xF0) + 48]"

section \<open>The record\<close>

record REF_NVWriteDirect_T =
  nv_imei1 :: "byte list"
  nv_imei2 :: "byte list"
  nv_btaddr :: "byte list"
  nv_gpsinfo :: "byte list"
  nv_wifiaddr :: "byte list"
  nv_reserved1 :: "byte list"
  nv_imei3 :: "byte list"
  nv_imei4 :: "byte list"
  nv_reserved2 :: "byte list"

definition NV_SIZE :: nat where "NV_SIZE = 8 + 8 + 6 + 44 + 6 + 2 + 8 + 8 + 16"

definition nv_bytes :: "REF_NVWriteDirect_T \<Rightarrow> byte list" where
  "nv_bytes d = nv_imei1 d @ nv_imei2 d @ nv_btaddr d @ nv_gpsinfo d @ nv_wifiaddr d @ nv_reserved1 d
     @ nv_imei3 d @ nv_imei4 d @ nv_reserved2 d"

definition nv_of :: "byte list \<Rightarrow> REF_NVWriteDirect_T" where
  "nv_of bs = \<lparr>nv_imei1 = take 8 bs, nv_imei2 = take 8 (drop 8 bs), nv_btaddr = take 6 (drop 16 bs),
     nv_gpsinfo = take 44 (drop 22 bs), nv_wifiaddr = take 6 (drop 66 bs), nv_reserved1 = take 2 (drop 72 bs),
     nv_imei3 = take 8 (drop 74 bs), nv_imei4 = take 8 (drop 82 bs), nv_reserved2 = take 16 (drop 90 bs)\<rparr>"

definition nv_ok :: "REF_NVWriteDirect_T \<Rightarrow> bool" where
  "nv_ok d \<longleftrightarrow> length (nv_imei1 d) = 8 \<and> length (nv_imei2 d) = 8 \<and> length (nv_btaddr d) = 6
     \<and> length (nv_gpsinfo d) = 44 \<and> length (nv_wifiaddr d) = 6 \<and> length (nv_reserved1 d) = 2
     \<and> length (nv_imei3 d) = 8 \<and> length (nv_imei4 d) = 8 \<and> length (nv_reserved2 d) = 16"

lemma length_nv_bytes: "nv_ok d \<Longrightarrow> length (nv_bytes d) = NV_SIZE"
  by (simp add: nv_ok_def nv_bytes_def NV_SIZE_def)

lemma nv_of_bytes: "nv_ok d \<Longrightarrow> nv_of (nv_bytes d) = d"
  by (simp add: nv_ok_def nv_bytes_def nv_of_def)

section \<open>The files\<close>

definition WIFI_MAC_FILE :: "byte list" where "WIFI_MAC_FILE = cs ''/mnt/vendor/wifimac.txt''"
definition WIFI_ROOT_MAC_FILE :: "byte list" where "WIFI_ROOT_MAC_FILE = cs ''/data/misc/wifi/wifimac.txt''"
definition BT_MAC_FILE :: "byte list" where "BT_MAC_FILE = cs ''/mnt/vendor/btmac.txt''"
definition BT_ROOT_MAC_FILE :: "byte list" where "BT_ROOT_MAC_FILE = cs ''/data/misc/bluedroid/btmac.txt''"
definition MAC_RAND_FILE :: "byte list" where "MAC_RAND_FILE = cs ''/mnt/vendor/rand_mac.txt''"
definition MAC_ERROR_EX :: "byte list" where "MAC_ERROR_EX = cs '':::::''"
definition MAC_ERROR :: "byte list" where "MAC_ERROR = cs ''FF:FF:FF:FF:FF:FF''"

datatype MacType = ENG_BT_MAC | ENG_WIFI_MAC

text \<open>\<open>access(p, F_OK) == 0\<close>, and \<open>open(p, O_CREAT | O_RDWR | O_TRUNC)\<close>.\<close>

definition fs_exists :: "byte list \<Rightarrow> 'p fsys \<Rightarrow> bool" where
  "fs_exists p s \<longleftrightarrow> fs_data s p \<noteq> None"

definition fs_creat :: "byte list \<Rightarrow> 'p fsys \<Rightarrow> 'p fsys option" where
  "fs_creat p s = (if fs_may s p then Some (s\<lparr>fs_data := (fs_data s)(p \<mapsto> [])\<rparr>) else None)"

definition fs_remove :: "byte list \<Rightarrow> 'p fsys \<Rightarrow> 'p fsys" where
  "fs_remove p s = (if fs_may s p then s\<lparr>fs_data := (fs_data s)(p := None)\<rparr> else s)"

text \<open>\<open>eng_btwifimac_read\<close> into an array: at most 31 bytes over what the array held.\<close>

definition mac_path :: "MacType \<Rightarrow> 'p fsys \<Rightarrow> byte list" where
  "mac_path t s =
     (if t = ENG_WIFI_MAC then (if fs_exists WIFI_MAC_FILE s then WIFI_MAC_FILE else WIFI_ROOT_MAC_FILE)
      else (if fs_exists BT_MAC_FILE s then BT_MAC_FILE else BT_ROOT_MAC_FILE))"

definition eng_btwifimac_read :: "mem \<Rightarrow> MacType \<Rightarrow> 'p fsys \<Rightarrow> (int \<times> mem) option" where
  "eng_btwifimac_read mac t s =
     (let p = mac_path t s in
      if fs_open p s
      then (case fs_read p 0 31 s of
              None \<Rightarrow> Some (- 1, mac)
            | Some bs \<Rightarrow> do { mac' \<leftarrow> put mac 0 bs; Some (if bs = [] then - 1 else 0, mac') })
      else Some (- 1, mac))"

text \<open>Six bytes as a text with colons.\<close>

fun mac_text :: "byte list \<Rightarrow> byte list" where
  "mac_text [] = []"
| "mac_text [b] = hex2 b"
| "mac_text (b # bs) = hex2 b @ 58 # mac_text bs"

text \<open>\<open>mac_rand\<close>: the addresses from the file of random addresses, or new ones. The test of each
  array's old content; \<open>rnd\<close> gives the results of \<open>rand\<close>.\<close>

definition mac_missing :: "byte list \<Rightarrow> bool" where
  "mac_missing m \<longleftrightarrow> strstr m MAC_ERROR \<noteq> None \<or> strstr m MAC_ERROR_EX \<noteq> None \<or> m = []"

definition rand_mac :: "32 word \<Rightarrow> 32 word \<Rightarrow> byte list" where
  "rand_mac i j = cs ''00:'' @ mac_text [ucast (drop_bit 8 i), ucast (drop_bit 16 i), ucast j, ucast (drop_bit 8 j),
     ucast (drop_bit 16 j)]"

definition mac_rand ::
  "(nat \<Rightarrow> 32 word) \<Rightarrow> mem \<Rightarrow> mem \<Rightarrow> 'p fsys \<Rightarrow> (mem \<times> mem) option" where
  "mac_rand rnd btmac wifimac s =
     (let new = do { b \<leftarrow> sprintf btmac (rand_mac (rnd 0) (rnd 1)); w \<leftarrow> sprintf wifimac (rand_mac (rnd 2) (rnd 3));
                     Some (b, w) }
      in if fs_exists MAC_RAND_FILE s \<and> fs_open MAC_RAND_FILE s
         then (case fs_read MAC_RAND_FILE 0 79 s of
                 None \<Rightarrow> new
               | Some bs \<Rightarrow>
                   (let buf = takeWhile (\<lambda>b. b \<noteq> 0) bs in
                    if bs = [] then new
                    else case strchr buf 59 of
                      None \<Rightarrow> new
                    | Some ptr \<Rightarrow> do {
                        w \<leftarrow> cstr_at wifimac 0;
                        b \<leftarrow> cstr_at btmac 0;
                        wifimac' \<leftarrow> (if mac_missing w then sprintf wifimac (tl ptr) else Some wifimac);
                        btmac' \<leftarrow> (if mac_missing b then sprintf btmac (takeWhile (\<lambda>c. c \<noteq> 59) buf) else Some btmac);
                        Some (btmac', wifimac')
                      }))
         else new)"

text \<open>\<open>write_mac2file\<close>: the result of the first write is lost.\<close>

definition write_mac2file :: "byte list \<Rightarrow> byte list \<Rightarrow> 'p fsys \<Rightarrow> int \<times> 'p fsys" where
  "write_mac2file wifimac btmac s =
     (case fs_creat WIFI_MAC_FILE s of
        None \<Rightarrow> (- 1, s)
      | Some s1 \<Rightarrow>
          (let (ret1, s2) = fs_write WIFI_MAC_FILE 0 wifimac s1 in
           case fs_creat BT_MAC_FILE s2 of
             None \<Rightarrow> (- 1, s2)
           | Some s3 \<Rightarrow>
               (let (ret, s4) = fs_write BT_MAC_FILE 0 btmac s3
                in (ret, if fs_exists BT_ROOT_MAC_FILE s4 then fs_remove BT_ROOT_MAC_FILE s4 else s4))))"

definition fs_property_set :: "'p prop_service \<Rightarrow> byte list \<Rightarrow> byte list \<Rightarrow> 'p fsys \<Rightarrow> 'p fsys" where
  "fs_property_set pf k v s = s\<lparr>fs_sys := property_set pf k v (fs_sys s)\<rparr>"

definition eng_btwifimac_write ::
  "'p prop_service \<Rightarrow> (nat \<Rightarrow> 32 word) \<Rightarrow> byte list option \<Rightarrow> byte list option \<Rightarrow> 'p fsys
   \<Rightarrow> (int \<times> 'p fsys) option" where
  "eng_btwifimac_write pf rnd bt_mac wifi_mac s = do {
     (bt, wifi) \<leftarrow>
       (case (bt_mac, wifi_mac) of
          (Some b, Some w) \<Rightarrow> Some (b, w)
        | _ \<Rightarrow> do {
            (b0, w0) \<leftarrow> mac_rand rnd (replicate 32 0) (replicate 32 0) s;
            b \<leftarrow> (case bt_mac of Some b \<Rightarrow> Some b
                  | None \<Rightarrow> do { (r, m) \<leftarrow> eng_btwifimac_read b0 ENG_BT_MAC s; cstr_at m 0 });
            w \<leftarrow> (case wifi_mac of Some w \<Rightarrow> Some w
                  | None \<Rightarrow> do { (r, m) \<leftarrow> eng_btwifimac_read w0 ENG_WIFI_MAC s; cstr_at m 0 });
            Some (b, w)
          });
     (let (ret, s1) = write_mac2file wifi bt s in
      Some (ret,
        if ret > 0
        then fs_property_set pf (cs ''ctl.start'') (cs ''set_mac'')
               (fs_property_set pf (cs ''vendor.sys.bt.bdaddr_path'') BT_MAC_FILE
               (fs_property_set pf (cs ''vendor.sys.mac.bluetooth'') bt
               (fs_property_set pf (cs ''vendor.sys.mac.wifi'') wifi s1)))
        else s1))
   }"

lemma strchr_length: "strchr s c = Some t \<Longrightarrow> length t \<le> length s \<and> t \<noteq> []"
  by (induction s) (auto split: if_splits)

text \<open>\<open>eng_diag_char2hex\<close>: the bytes it stores from \<open>hexdata\<close> on.\<close>

function char2hex :: "byte list \<Rightarrow> byte list" where
  "char2hex s =
     (case strchr s 58 of
        None \<Rightarrow> [word_of_int (fst (strtol 16 s))]
      | Some ptr \<Rightarrow> word_of_int (fst (strtol 16 (take 2 s))) # char2hex (tl ptr))"
  by pat_completeness auto
termination
  by (relation "measure length") (auto dest!: strchr_length simp: neq_Nil_conv)

declare char2hex.simps [simp del]

section \<open>IMEI files\<close>

definition imei_path :: "nat \<Rightarrow> byte list" where
  "imei_path num = cs ''/mnt/vendor/imei'' @ show_nat num @ cs ''.txt''"

definition imei_field :: "nat \<Rightarrow> REF_NVWriteDirect_T \<Rightarrow> byte list" where
  "imei_field num d =
     (if num = 1 then nv_imei1 d else if num = 2 then nv_imei2 d else if num = 3 then nv_imei3 d else nv_imei4 d)"

definition set_imei_field :: "nat \<Rightarrow> byte list \<Rightarrow> REF_NVWriteDirect_T \<Rightarrow> REF_NVWriteDirect_T" where
  "set_imei_field num v d =
     (if num = 1 then d\<lparr>nv_imei1 := v\<rparr> else if num = 2 then d\<lparr>nv_imei2 := v\<rparr>
      else if num = 3 then d\<lparr>nv_imei3 := v\<rparr> else d\<lparr>nv_imei4 := v\<rparr>)"

definition eng_diag_write_imei :: "REF_NVWriteDirect_T \<Rightarrow> nat \<Rightarrow> 'p fsys \<Rightarrow> int \<times> 'p fsys" where
  "eng_diag_write_imei d num s =
     (if num < 1 \<or> 4 < num \<or> \<not> fs_open (imei_path num) s then (0, s)
      else let (ret, s') = fs_write (imei_path num) 0 (ImeiConvNV2Str (imei_field num d)) s in
           (if ret > 0 then 1 else 0, s'))"

definition eng_diag_read_imei :: "REF_NVWriteDirect_T \<Rightarrow> nat \<Rightarrow> 'p fsys \<Rightarrow> int \<times> REF_NVWriteDirect_T" where
  "eng_diag_read_imei d num s =
     (if num < 1 \<or> 4 < num \<or> \<not> fs_open (imei_path num) s then (0, d)
      else case fs_read (imei_path num) 0 MAX_IMEI_STR_LENGTH s of
             None \<Rightarrow> (0, d)
           | Some bs \<Rightarrow>
               if bs = [] then (0, d)
               else (1, set_imei_field num (ImeiConvStr2NV (zfill MAX_IMEI_STR_LENGTH bs)) d))"

section \<open>The request\<close>

definition DIAG_CMD_IMEI1BIT :: byte where "DIAG_CMD_IMEI1BIT = 0x01"
definition DIAG_CMD_IMEI2BIT :: byte where "DIAG_CMD_IMEI2BIT = 0x02"
definition DIAG_CMD_IMEI3BIT :: byte where "DIAG_CMD_IMEI3BIT = 0x10"
definition DIAG_CMD_IMEI4BIT :: byte where "DIAG_CMD_IMEI4BIT = 0x20"
definition DIAG_CMD_BTBIT :: byte where "DIAG_CMD_BTBIT = 0x04"
definition DIAG_CMD_WIFIBIT :: byte where "DIAG_CMD_WIFIBIT = 0x40"
definition DIAG_CMD_READ :: byte where "DIAG_CMD_READ = 0x80"

lemmas cmd_bits = DIAG_CMD_IMEI1BIT_def DIAG_CMD_IMEI2BIT_def DIAG_CMD_IMEI3BIT_def DIAG_CMD_IMEI4BIT_def
  DIAG_CMD_BTBIT_def DIAG_CMD_WIFIBIT_def DIAG_CMD_READ_def

definition btwifi_checkCRC :: "mem \<Rightarrow> int option" where
  "btwifi_checkCRC buff = do {
     h \<leftarrow> read_head buff 1;
     (crc_sum, data) \<leftarrow> request_crc buff (head_len h);
     Some (if crc_sum \<noteq> unat (crc16 0 data) then - 1 else 0)
   }"

text \<open>0: not for this module; 1: only addresses; 2: also other commands.\<close>

definition btwifi_checkValid :: "mem \<Rightarrow> int option" where
  "btwifi_checkValid buff = do {
     crc \<leftarrow> btwifi_checkCRC buff;
     h \<leftarrow> read_head buff 1;
     (let subtype = head_subtype h; cmd_mask = subtype AND 0x7F in
      Some (if crc \<noteq> 0 then 0
            else if subtype AND 0x80 = 0 \<and> subtype AND 0x7F = 0 then 0
            else if cmd_mask \<noteq> 0 \<and> (cmd_mask AND DIAG_CMD_BTBIT \<noteq> 0 \<or> cmd_mask AND DIAG_CMD_WIFIBIT \<noteq> 0)
            then if cmd_mask AND NOT (DIAG_CMD_BTBIT OR DIAG_CMD_WIFIBIT) \<noteq> 0 then 2 else 1
            else 0))
   }"

text \<open>The loops over the four IMEIs, for the numbers whose bit is set; the first failure ends them.\<close>

definition imei_bits :: "(byte \<times> nat) list" where
  "imei_bits = [(DIAG_CMD_IMEI1BIT, 1), (DIAG_CMD_IMEI2BIT, 2), (DIAG_CMD_IMEI3BIT, 3), (DIAG_CMD_IMEI4BIT, 4)]"

fun write_imeis :: "(byte \<times> nat) list \<Rightarrow> byte \<Rightarrow> REF_NVWriteDirect_T \<Rightarrow> int \<Rightarrow> 'p fsys \<Rightarrow> int \<times> 'p fsys" where
  "write_imeis [] bits d ret s = (ret, s)"
| "write_imeis ((b, num) # bs) bits d ret s =
     (if b AND bits \<noteq> 0
      then let (ret', s') = eng_diag_write_imei d num s in
           if ret' \<le> 0 then (ret', s') else write_imeis bs bits d ret' s'
      else write_imeis bs bits d ret s)"

fun read_imeis :: "(byte \<times> nat) list \<Rightarrow> byte \<Rightarrow> REF_NVWriteDirect_T \<Rightarrow> 'p fsys \<Rightarrow> REF_NVWriteDirect_T" where
  "read_imeis [] bits d s = d"
| "read_imeis ((b, num) # bs) bits d s =
     (if b AND bits \<noteq> 0
      then let (ret', d') = eng_diag_read_imei d num s in
           if ret' \<le> 0 then d' else read_imeis bs bits d' s
      else read_imeis bs bits d s)"

text \<open>The answer to a writing command: header and two bytes of zero, with the result as subtype.\<close>

definition btwifi_ack ::
  "byte \<Rightarrow> mem \<Rightarrow> mem \<Rightarrow> (int \<times> mem \<times> mem) option" where
  "btwifi_ack result buf rsp = do {
     b1 \<leftarrow> set_subtype buf 1 result;
     hd \<leftarrow> get b1 1 MSG_HEAD_SIZE;
     t1 \<leftarrow> put (replicate 512 0) 0 hd;
     t2 \<leftarrow> set_len t1 0 (MSG_HEAD_SIZE + 2);
     packet \<leftarrow> get t2 0 (MSG_HEAD_SIZE + 2);
     (rsp', rlen) \<leftarrow> raw_packet rsp packet;
     Some (int rlen, b1, rsp')
   }"

definition btwifi_write ::
  "'p prop_service \<Rightarrow> (nat \<Rightarrow> 32 word) \<Rightarrow> bool \<Rightarrow> bool \<Rightarrow> byte \<Rightarrow> mem \<Rightarrow> mem \<Rightarrow> 'p fsys
   \<Rightarrow> (int \<times> mem \<times> mem \<times> 'p fsys) option" where
  "btwifi_write pf rnd cp_ap_proc ap_cali subtype buf rsp s = do {
     db \<leftarrow> get buf (1 + MSG_HEAD_SIZE) NV_SIZE;
     cb \<leftarrow> get buf (1 + MSG_HEAD_SIZE + NV_SIZE) 2;
     (let direct = nv_of db; cmd_mask = subtype AND 0x7f;
          bt = cmd_mask AND DIAG_CMD_BTBIT \<noteq> 0; wifi = cmd_mask AND DIAG_CMD_WIFIBIT \<noteq> 0;
          good = (cb = crc_bytes (crc16 0 db))
      in if good \<and> wifi \<and> nv_wifiaddr direct ! 0 AND 0x03 \<noteq> 0
         then do { (rlen, buf', rsp') \<leftarrow> btwifi_ack 0 buf rsp; Some (rlen, buf', rsp', s) }
         else do {
           (ret, s1) \<leftarrow>
             (if good \<and> (bt \<or> wifi)
              then eng_btwifimac_write pf rnd (if bt then Some (mac_text (rev (nv_btaddr direct))) else None)
                     (if wifi then Some (mac_text (nv_wifiaddr direct)) else None) s
              else Some (- 1, s));
           (let (ret2, s2) = (if good \<and> ap_cali then write_imeis imei_bits cmd_mask direct ret s1 else (ret, s1))
            in if cp_ap_proc
               then do {
                 buf' \<leftarrow> set_subtype buf 1 (subtype AND NOT (DIAG_CMD_BTBIT OR DIAG_CMD_WIFIBIT));
                 Some (0, buf', rsp, s2)
               }
               else do {
                 (rlen, buf', rsp') \<leftarrow> btwifi_ack (if ret2 \<le> 0 then 0 else 1) buf rsp;
                 Some (rlen, buf', rsp', s2)
               })
         })
   }"

text \<open>One address of the reading command: \<open>off\<close> is the place of its field in \<open>tmprsp\<close>; the Bluetooth address
  is turned round.\<close>

definition read_address :: "MacType \<Rightarrow> nat \<Rightarrow> mem \<Rightarrow> 'p fsys \<Rightarrow> mem option" where
  "read_address t off tmprsp s = do {
     (ret, mac) \<leftarrow> eng_btwifimac_read (replicate 32 0) t s;
     (if ret = 0
      then do {
        str \<leftarrow> cstr_at mac 0;
        t1 \<leftarrow> put tmprsp off (char2hex str);
        (if t = ENG_BT_MAC
         then do { a \<leftarrow> get t1 off 6; put t1 off (rev a) }
         else Some t1)
      }
      else Some tmprsp)
   }"

definition btwifi_read ::
  "bool \<Rightarrow> bool \<Rightarrow> byte \<Rightarrow> mem \<Rightarrow> mem \<Rightarrow> 'p fsys \<Rightarrow> (int \<times> mem \<times> mem \<times> 'p fsys) option" where
  "btwifi_read cp_ap_proc ap_cali subtype buf rsp s = do {
     (let cmd_mask = subtype AND 0x7f in do {
        t1 \<leftarrow> (if cmd_mask AND DIAG_CMD_BTBIT \<noteq> 0
               then read_address ENG_BT_MAC (MSG_HEAD_SIZE + 16) (replicate 512 0) s else Some (replicate 512 0));
        t2 \<leftarrow> (if cmd_mask AND DIAG_CMD_WIFIBIT \<noteq> 0
               then read_address ENG_WIFI_MAC (MSG_HEAD_SIZE + 66) t1 s else Some t1);
        db \<leftarrow> get t2 MSG_HEAD_SIZE NV_SIZE;
        t3 \<leftarrow> put t2 MSG_HEAD_SIZE
               (if ap_cali then nv_bytes (read_imeis imei_bits cmd_mask (nv_of db) s) else db);
        b1 \<leftarrow> set_subtype buf 1 1;
        hd \<leftarrow> get b1 1 MSG_HEAD_SIZE;
        t4 \<leftarrow> put t3 0 hd;
        nv \<leftarrow> get t4 MSG_HEAD_SIZE NV_SIZE;
        t5 \<leftarrow> put t4 (MSG_HEAD_SIZE + NV_SIZE) (crc_bytes (crc16 0 nv));
        t6 \<leftarrow> set_len t5 0 (MSG_HEAD_SIZE + NV_SIZE + 2);
        packet \<leftarrow> get t6 0 (MSG_HEAD_SIZE + NV_SIZE + 2);
        (rsp', rlen) \<leftarrow> raw_packet rsp packet;
        Some (int rlen, b1, rsp', s)
      })
   }"

definition btwifiimei ::
  "'p prop_service \<Rightarrow> (nat \<Rightarrow> 32 word) \<Rightarrow> bool \<Rightarrow> bool \<Rightarrow> mem \<Rightarrow> mem \<Rightarrow> 'p fsys
   \<Rightarrow> (int \<times> mem \<times> mem \<times> 'p fsys) option" where
  "btwifiimei pf rnd cp_ap_proc ap_cali buf rsp s = do {
     h \<leftarrow> read_head buf 1;
     (if head_subtype h AND DIAG_CMD_READ = 0
      then btwifi_write pf rnd cp_ap_proc ap_cali (head_subtype h) buf rsp s
      else btwifi_read cp_ap_proc ap_cali (head_subtype h) buf rsp s)
   }"

section \<open>The handler and the registration\<close>

text \<open>\<open>modules/libmiscdata/miscdata_rw.c\<close>. The environment of its callbacks: the files, whether the daemon's
  write functions were handed over, and what was written to the host through them.\<close>

record 'p misc_env =
  me_fs :: "'p fsys"
  me_gfunc :: bool
  me_sent :: "byte list list"

definition get_fw_ptr :: "'p misc_env \<Rightarrow> 'p misc_env" where
  "get_fw_ptr e = e\<lparr>me_gfunc := True\<rparr>"

text \<open>A function of request, answer and files as a callback.\<close>

definition on_files ::
  "(mem \<Rightarrow> mem \<Rightarrow> 'p fsys \<Rightarrow> (int \<times> mem \<times> mem \<times> 'p fsys) option) \<Rightarrow> 'p misc_env cb_io
   \<Rightarrow> (int \<times> 'p misc_env cb_io) option" where
  "on_files f io = do {
     (r, buf, rsp, s) \<leftarrow> f (cb_buf io) (cb_rsp io) (me_fs (cb_env io));
     Some (r, \<lparr>cb_buf = buf, cb_rsp = rsp, cb_env = (cb_env io)\<lparr>me_fs := s\<rparr>\<rparr>)
   }"

definition bt_wifi_mac_handler ::
  "'p prop_service \<Rightarrow> (nat \<Rightarrow> 32 word) \<Rightarrow> 'p misc_env cb_io \<Rightarrow> nat \<Rightarrow> nat \<Rightarrow> (int \<times> 'p misc_env cb_io) option" where
  "bt_wifi_mac_handler pf rnd io len rsplen = do {
     ret \<leftarrow> btwifi_checkValid (cb_buf io);
     (if ret \<le> 0 then Some (ENG_DIAG_RET_UNSUPPORT, io)
      else do {
        (retLen, io1) \<leftarrow> on_files (btwifiimei pf rnd (ret = 2) False) io;
        io2 \<leftarrow> (if retLen > 0 \<and> me_gfunc (cb_env io1)
               then do { bs \<leftarrow> get (cb_rsp io1) 0 (nat retLen);
                         Some (io1\<lparr>cb_env := (cb_env io1)\<lparr>me_sent := me_sent (cb_env io1) @ [bs]\<rparr>\<rparr>) }
               else Some io1);
        Some (if ret = 1 then ENG_DIAG_NO_RESPONSE
              else if ret = 2 then ENG_DIAG_RET_UNSUPPORT else retLen, io2)
      })
   }"

definition match_byte7 :: "byte \<Rightarrow> mem \<Rightarrow> nat \<Rightarrow> int option" where
  "match_byte7 b buff len = do { c \<leftarrow> rd buff 7; Some (if c = b then 0 else - 1) }"

definition bt_wifi_mac_match :: "mem \<Rightarrow> nat \<Rightarrow> int option" where
  "bt_wifi_mac_match = match_byte7 0x5E"

definition phasecheck_match :: "mem \<Rightarrow> nat \<Rightarrow> int option" where
  "phasecheck_match = match_byte7 0x5F"

definition phasecheck_handler ::
  "bool \<Rightarrow> 'p prop_service \<Rightarrow> (nat \<Rightarrow> byte) \<Rightarrow> 'p misc_env cb_io \<Rightarrow> nat \<Rightarrow> nat \<Rightarrow> (int \<times> 'p misc_env cb_io) option" where
  "phasecheck_handler nand pf g io len rsplen = on_files (\<lambda>b r s. direct_phschk nand pf g b r rsplen s) io"

definition miscdata_handler ::
  "bool \<Rightarrow> 'p prop_service \<Rightarrow> (nat \<Rightarrow> byte) \<Rightarrow> 'p misc_env cb_io \<Rightarrow> nat \<Rightarrow> nat \<Rightarrow> (int \<times> 'p misc_env cb_io) option" where
  "miscdata_handler nand pf g io len rsplen = on_files (\<lambda>b r s. eng_diag_product_ctrl nand pf g b r rsplen s) io"

definition miscdata_offset_handler ::
  "bool \<Rightarrow> 'p prop_service \<Rightarrow> (nat \<Rightarrow> byte) \<Rightarrow> 'p misc_env cb_io \<Rightarrow> nat \<Rightarrow> nat \<Rightarrow> (int \<times> 'p misc_env cb_io) option" where
  "miscdata_offset_handler nand pf g io len rsplen = on_files (\<lambda>b r s. eng_diag_product_ctrl_ex nand pf g b r rsplen s) io"

definition misc_updates ::
  "bool \<Rightarrow> 'p prop_service \<Rightarrow> (nat \<Rightarrow> byte) \<Rightarrow> (nat \<Rightarrow> 32 word) \<Rightarrow> ('p misc_env eng_callback \<Rightarrow> 'p misc_env eng_callback) list" where
  "misc_updates nand pf g rnd =
     [\<lambda>c. c\<lparr>cb_type := 0x0D, cb_subtype := 0x02, eng_diag_func := Some (miscdata_handler nand pf g)\<rparr>,
      \<lambda>c. c\<lparr>cb_type := 0x0D, cb_subtype := 0x03, eng_diag_func := Some (miscdata_handler nand pf g)\<rparr>,
      \<lambda>c. c\<lparr>cb_type := 0x0D, cb_subtype := 0x04, eng_diag_func := Some (miscdata_handler nand pf g)\<rparr>,
      \<lambda>c. c\<lparr>cb_type := 0x0D, cb_subtype := 0x12, eng_diag_func := Some (miscdata_offset_handler nand pf g)\<rparr>,
      \<lambda>c. c\<lparr>cb_type := 0x0D, cb_subtype := 0x13, eng_diag_func := Some (miscdata_offset_handler nand pf g)\<rparr>,
      \<lambda>c. c\<lparr>cb_type := 0x0D, cb_subtype := 0x14, eng_diag_func := Some (miscdata_offset_handler nand pf g)\<rparr>,
      \<lambda>c. c\<lparr>cb_type := 0x5E, also_need_to_cp := True, eng_diag_func := Some (bt_wifi_mac_handler pf rnd),
            eng_cmd_match := Some bt_wifi_mac_match, eng_set_writeinterface_func := Some get_fw_ptr\<rparr>,
      \<lambda>c. c\<lparr>cb_type := 0x5F, eng_diag_func := Some (phasecheck_handler nand pf g), eng_cmd_match := Some phasecheck_match\<rparr>]"

text \<open>\<open>register_this_module_ext\<close>: the entries of the array it is given are filled in, as many as it has.\<close>

definition register_misc ::
  "bool \<Rightarrow> 'p prop_service \<Rightarrow> (nat \<Rightarrow> byte) \<Rightarrow> (nat \<Rightarrow> 32 word) \<Rightarrow> 'p misc_env eng_callback list
   \<Rightarrow> 'p misc_env eng_callback list \<times> nat" where
  "register_misc nand pf g rnd reg =
     (let us = misc_updates nand pf g rnd in (map2 (\<lambda>f c. f c) us reg @ drop (length us) reg, length us))"

section \<open>Conversions invert each other\<close>

lemma nibbles:
  fixes x y b :: byte
  shows "x < 16 \<Longrightarrow> y < 16 \<Longrightarrow> drop_bit 4 (MAKE1BYTE2BYTES x y AND 0xF0) = x"
    and "y < 16 \<Longrightarrow> MAKE1BYTE2BYTES x y AND 0x0F = y"
    and "MAKE1BYTE2BYTES (drop_bit 4 (b AND 0xF0)) (b AND 0x0F) = b"
proof -
  have lo: "z AND 0x0F = take_bit 4 z" for z :: byte by (simp add: take_bit_eq_mask mask_eq_exp_minus_1)
  have hi: "drop_bit 4 (z AND 0xF0) = drop_bit 4 z" for z :: byte
  proof -
    have "drop_bit 4 (z AND 0xF0) = take_bit 4 (drop_bit 4 z)" by (simp add: drop_bit_and flip: lo)
    also have "\<dots> = drop_bit 4 z"
      by (intro bit_eqI) (auto simp: bit_take_bit_iff bit_drop_bit_eq dest: bit_imp_le_length)
    finally show ?thesis .
  qed
  have small: "bit z n \<Longrightarrow> n < 4" if "z < 16" for z :: byte and n
  proof -
    have "take_bit 4 (unat z) = unat z" using that by (simp add: take_bit_nat_eq_self_iff word_less_nat_alt)
    moreover assume "bit z n"
    then have "bit (unat z) n" by (simp add: bit_unsigned_iff)
    ultimately show "n < 4" by (metis bit_take_bit_iff)
  qed
  show "x < 16 \<Longrightarrow> y < 16 \<Longrightarrow> drop_bit 4 (MAKE1BYTE2BYTES x y AND 0xF0) = x"
    unfolding hi using small
    by (intro bit_eqI) (auto simp: MAKE1BYTE2BYTES_def bit_drop_bit_eq bit_or_iff bit_push_bit_iff)
  show "y < 16 \<Longrightarrow> MAKE1BYTE2BYTES x y AND 0x0F = y"
    unfolding lo using small
    by (intro bit_eqI) (auto simp: MAKE1BYTE2BYTES_def bit_take_bit_iff bit_or_iff bit_push_bit_iff)
  show "MAKE1BYTE2BYTES (drop_bit 4 (b AND 0xF0)) (b AND 0x0F) = b"
    unfolding hi lo
    by (intro bit_eqI) (auto simp: MAKE1BYTE2BYTES_def bit_drop_bit_eq bit_take_bit_iff bit_or_iff bit_push_bit_iff)
qed

lemmas nibble_simps = nibbles [simplified]

lemma length_15: "length s = 15 \<Longrightarrow> \<exists>a b c d e f g h i j k l m n p. s = [a, b, c, d, e, f, g, h, i, j, k, l, m, n, p]"
  by (auto simp: numeral_eq_Suc length_Suc_conv)

lemma length_8: "length s = 8 \<Longrightarrow> \<exists>a b c d e f g h. s = [a, b, c, d, e, f, g, h]"
  by (auto simp: numeral_eq_Suc length_Suc_conv)

lemmas imei_upt = MAX_IMEI_LENGTH_def upt_rec [where j = "Suc n" for n] upt_rec [where j = "numeral n" for n]

lemma digit_minus:
  fixes b :: byte
  assumes "48 \<le> b" and "b \<le> 57"
  shows "b - 48 < 16"
proof -
  have "unat (b - 48) = unat b - 48" using assms(1) by (simp add: unat_sub)
  then show ?thesis using assms by (simp add: word_less_nat_alt word_le_nat_alt)
qed

lemma imei_str_nv_str:
  assumes "length s = 15" and "\<forall>b \<in> set s. 48 \<le> b \<and> b \<le> 57"
  shows "ImeiConvNV2Str (ImeiConvStr2NV s) = s"
proof -
  have d: "b \<in> set s \<Longrightarrow> b - 48 < 16" for b using assms(2) digit_minus by blast
  have a: "(0x0A :: byte) < 16" by simp
  obtain a1 a2 a3 a4 a5 a6 a7 a8 a9 b1 b2 b3 b4 b5 b6 where "s = [a1, a2, a3, a4, a5, a6, a7, a8, a9, b1, b2, b3, b4, b5, b6]"
    using length_15 [OF assms(1)] by blast
  then show ?thesis
    using d a by (simp add: ImeiConvNV2Str_def ImeiConvStr2NV_def imei_upt nibble_simps(1,2))
qed

lemma imei_first: "MAKE1BYTE2BYTES (drop_bit 4 (b AND 0xF0)) 0x0A = (b AND 0xF0) OR 0x0A"
proof -
  have "push_bit 4 (drop_bit 4 (b AND 0xF0)) = b AND 0xF0"
  proof -
    have "take_bit 4 (b AND 0xF0) = 0" by (simp add: take_bit_and)
    then show ?thesis by (metis bits_ident add_0_right)
  qed
  then show ?thesis by (simp add: MAKE1BYTE2BYTES_def)
qed

lemma imei_nv_str_nv:
  assumes "length v = 8"
  shows "ImeiConvStr2NV (ImeiConvNV2Str v) = ((v ! 0 AND 0xF0) OR 0x0A) # tl v"
proof -
  obtain a1 a2 a3 a4 a5 a6 a7 a8 where v: "v = [a1, a2, a3, a4, a5, a6, a7, a8]"
    using length_8 [OF assms(1)] by blast
  then show ?thesis
    using imei_first [of a1] by (simp add: ImeiConvNV2Str_def ImeiConvStr2NV_def imei_upt nibble_simps(3))
qed

lemma hex2_plain: "b \<in> set (hex2 x) \<Longrightarrow> b \<noteq> 58 \<and> b \<noteq> 0"
proof -
  have "48 \<le> unat (hex_digit n) \<and> (unat (hex_digit n) \<le> 57 \<or> 97 \<le> unat (hex_digit n))" if "n < 16" for n
    using that by (auto simp: hex_digit_def)
  from this [of "unat x div 16"] this [of "unat x mod 16"]
  show "b \<in> set (hex2 x) \<Longrightarrow> b \<noteq> 58 \<and> b \<noteq> 0"
    using unat_div16 [of x] by (auto simp: hex2_def)
qed

lemma strchr_none: "c \<notin> set s \<Longrightarrow> strchr s c = None"
  by (induction s) auto

lemma strchr_hit: "c \<notin> set s \<Longrightarrow> strchr (s @ c # t) c = Some (c # t)"
  by (induction s) auto

lemma char2hex_mac_text: "bs \<noteq> [] \<Longrightarrow> char2hex (mac_text bs) = bs"
proof (induction bs rule: mac_text.induct)
  case (2 b)
  have "strchr (hex2 b) 58 = None" using hex2_plain [of 58 b] by (intro strchr_none) blast
  then show ?case using strtol_hex2 [of "[]" b] by (subst char2hex.simps) simp
next
  case (3 b c bs)
  have t: "take 2 (hex2 b @ xs) = hex2 b" for xs by (simp add: hex2_def)
  have "strchr (hex2 b @ 58 # mac_text (c # bs)) 58 = Some (58 # mac_text (c # bs))"
    using hex2_plain [of 58 b] by (intro strchr_hit) blast
  then show ?case
    using 3 t strtol_hex2 [of "[]" b] by (subst char2hex.simps) simp
qed simp

lemma mac_text_no_nul: "0 \<notin> set (mac_text bs)"
proof (induction bs rule: mac_text.induct)
  case (3 b c bs)
  then show ?case using hex2_plain [of 0 b] by auto
qed (use hex2_plain [of 0] in auto)

lemma length_mac_text: "bs \<noteq> [] \<Longrightarrow> length (mac_text bs) + 1 = 3 * length bs"
  by (induction bs rule: mac_text.induct) (simp_all add: hex2_def)

section \<open>Writing and reading addresses\<close>

text \<open>The two files in order: they may be opened and created, reads and writes work.\<close>

definition mac_files_ok :: "'p fsys \<Rightarrow> bool" where
  "mac_files_ok s \<longleftrightarrow> (\<forall>p \<in> {WIFI_MAC_FILE, BT_MAC_FILE}. fs_may s p \<and> \<not> fs_ioerr s p \<and> fs_cap s p = None)"

lemma mac_files_distinct:
  "WIFI_MAC_FILE \<noteq> BT_MAC_FILE" "BT_MAC_FILE \<noteq> BT_ROOT_MAC_FILE" "WIFI_MAC_FILE \<noteq> BT_ROOT_MAC_FILE"
  by (simp_all add: WIFI_MAC_FILE_def BT_MAC_FILE_def BT_ROOT_MAC_FILE_def)

lemma write_mac2file_ok:
  assumes "mac_files_ok s" and "w \<noteq> []" and "b \<noteq> []"
  shows "\<exists>s'. write_mac2file w b s = (int (length b), s') \<and> mac_files_ok s'
    \<and> fs_data s' WIFI_MAC_FILE = Some w \<and> fs_data s' BT_MAC_FILE = Some b"
  using assms mac_files_distinct
  by (auto simp: write_mac2file_def mac_files_ok_def fs_creat_def fs_write_def fs_remove_def fs_content_def
      overlay_0 Let_def)

lemma eng_btwifimac_write_both:
  assumes "mac_files_ok s" and "w \<noteq> []" and "b \<noteq> []"
  shows "\<exists>s'. eng_btwifimac_write pf rnd (Some b) (Some w) s = Some (int (length b), s') \<and> mac_files_ok s'
    \<and> fs_data s' WIFI_MAC_FILE = Some w \<and> fs_data s' BT_MAC_FILE = Some b"
proof -
  obtain s' where "write_mac2file w b s = (int (length b), s')" "mac_files_ok s'"
    "fs_data s' WIFI_MAC_FILE = Some w" "fs_data s' BT_MAC_FILE = Some b"
    using write_mac2file_ok [OF assms] by blast
  then show ?thesis
    by (auto simp: eng_btwifimac_write_def Let_def mac_files_ok_def fs_property_set_def)
qed

lemma eng_btwifimac_read_ok:
  assumes "mac_files_ok s" and "fs_data s (if t = ENG_WIFI_MAC then WIFI_MAC_FILE else BT_MAC_FILE) = Some bs"
    and "bs \<noteq> []" and "length bs < 32"
  shows "eng_btwifimac_read (replicate 32 0) t s = Some (0, zfill 32 bs)"
proof -
  let ?p = "if t = ENG_WIFI_MAC then WIFI_MAC_FILE else BT_MAC_FILE"
  have "mac_path t s = ?p" using assms(2) by (cases t) (simp_all add: mac_path_def fs_exists_def)
  moreover have "fs_open ?p s" "\<not> fs_ioerr s ?p"
    using assms(1,2) by (auto simp: fs_open_def mac_files_ok_def)
  ultimately show ?thesis
    using assms(2-4) by (simp add: eng_btwifimac_read_def Let_def fs_read_def fs_content_def put_def zfill_def)
qed

lemma read_address_ok:
  assumes "mac_files_ok s" and "length a = 6" and "off + 6 \<le> length m"
    and "fs_data s (if t = ENG_WIFI_MAC then WIFI_MAC_FILE else BT_MAC_FILE) =
      Some (mac_text (if t = ENG_BT_MAC then rev a else a))"
  shows "read_address t off m s = put m off a"
proof -
  let ?x = "if t = ENG_BT_MAC then rev a else a"
  have x: "?x \<noteq> []" "length ?x = 6" using assms(2) by auto
  have l: "length (mac_text ?x) = 17" using length_mac_text [OF x(1)] x(2) by simp
  then have ne: "mac_text ?x \<noteq> []" by auto
  have r: "eng_btwifimac_read (replicate 32 0) t s = Some (0, zfill 32 (mac_text ?x))"
    using eng_btwifimac_read_ok [OF assms(1,4) ne] l by simp
  have c: "cstr_at (zfill 32 (mac_text ?x)) 0 = Some (mac_text ?x)"
    using cstr_at_zfill [OF mac_text_no_nul, of ?x 32] l by simp
  obtain m1 where m1: "put m off ?x = Some m1" using x(2) assms(3) by (simp add: put_def)
  show ?thesis
  proof (cases "t = ENG_BT_MAC")
    case False
    then show ?thesis using r c char2hex_mac_text [OF x(1)] m1 by (simp add: read_address_def)
  next
    case True
    then have "get m1 off 6 = Some (rev a)" "put m1 off a = put m off a"
      using m1 x(2) get_put [OF m1] assms(2,3) by (auto simp: put_def)
    then show ?thesis using True r c char2hex_mac_text [OF x(1)] m1 by (simp add: read_address_def)
  qed
qed

lemma btwifi_ack_ok:
  assumes "12 \<le> length rsp"
  shows "btwifi_ack r (0x7E # head_bytes h @ rest) rsp =
    Some (12, 0x7E # head_bytes (h\<lparr>head_subtype := r\<rparr>) @ rest,
      0x7E # head_bytes (h\<lparr>head_subtype := r, head_len := MSG_HEAD_SIZE + 2\<rparr>) @ [0, 0, 0x7E] @ drop 12 rsp)"
proof -
  have p: "put (replicate 512 0) 0 (head_bytes h') = Some (head_bytes h' @ 0 # 0 # replicate 502 0)" for h'
    by (simp add: put_def MSG_HEAD_SIZE_def flip: replicate_Suc) 
  have g: "get (head_bytes h' @ 0 # 0 # rest') 0 (MSG_HEAD_SIZE + 2) = Some (head_bytes h' @ [0, 0])" for h' rest'
    using get_msg_start [where n = 2 and rest = "0 # 0 # rest'"] by simp
  show ?thesis
    using assms by (simp add: btwifi_ack_def msg_simps p g del: add_2_eq_Suc add_2_eq_Suc')
      (simp add: raw_packet_ok MSG_HEAD_SIZE_def)
qed

text \<open>A record with only the two addresses.\<close>

definition addresses :: "byte list \<Rightarrow> byte list \<Rightarrow> REF_NVWriteDirect_T" where
  "addresses bt wifi = \<lparr>nv_imei1 = replicate 8 0, nv_imei2 = replicate 8 0, nv_btaddr = bt,
     nv_gpsinfo = replicate 44 0, nv_wifiaddr = wifi, nv_reserved1 = replicate 2 0, nv_imei3 = replicate 8 0,
     nv_imei4 = replicate 8 0, nv_reserved2 = replicate 16 0\<rparr>"

lemma addresses_bytes:
  "nv_bytes (addresses a w) = replicate 16 0 @ a @ replicate 44 0 @ w @ replicate 34 0"
proof -
  have "replicate 16 (0 :: byte) = replicate 8 0 @ replicate 8 0" "replicate 34 (0 :: byte) =
      replicate 2 0 @ replicate 8 0 @ replicate 8 0 @ replicate 16 0"
    by (simp_all flip: replicate_add)
  then show ?thesis by (simp add: nv_bytes_def addresses_def)
qed

lemma tmprsp_addresses:
  assumes "length a = 6" and "length w = 6"
  shows "\<exists>t1. put (replicate 512 0) (MSG_HEAD_SIZE + 16) a = Some t1 \<and> length t1 = 512
    \<and> put t1 (MSG_HEAD_SIZE + 66) w =
        Some (replicate MSG_HEAD_SIZE 0 @ nv_bytes (addresses a w) @ replicate 398 0)"
proof -
  have r: "replicate (m + n) (0 :: byte) = replicate m 0 @ replicate n 0" for m n by (rule replicate_add)
  have z: "replicate 24 (0 :: byte) = replicate 8 0 @ replicate 16 0" "replicate 482 (0 :: byte) = replicate 44 0 @ replicate 438 0"
    "replicate 432 (0 :: byte) = replicate 34 0 @ replicate 398 0"
    using r [of 8 16] r [of 44 438] r [of 34 398] by simp_all
  have "put (replicate 512 0) (MSG_HEAD_SIZE + 16) a = Some (replicate 24 0 @ a @ replicate 482 0)"
    using assms(1) by (simp add: put_def MSG_HEAD_SIZE_def)
  moreover have "put (replicate 24 0 @ a @ replicate 482 0) (MSG_HEAD_SIZE + 66) w =
      Some (replicate 24 0 @ a @ replicate 44 0 @ w @ replicate 432 0)"
    using assms by (simp add: put_def MSG_HEAD_SIZE_def)
  ultimately show ?thesis
    using assms(1) by (simp add: addresses_bytes z MSG_HEAD_SIZE_def)
qed

lemma btwifi_read_ok:
  assumes "mac_files_ok s" and "length a = 6" and "length w = 6"
    and "fs_data s WIFI_MAC_FILE = Some (mac_text w)" and "fs_data s BT_MAC_FILE = Some (mac_text (rev a))"
    and "(sub AND 0x7f) AND DIAG_CMD_BTBIT \<noteq> 0" and "(sub AND 0x7f) AND DIAG_CMD_WIFIBIT \<noteq> 0"
    and "118 \<le> length rsp"
  shows "btwifi_read cp False sub (0x7E # head_bytes h @ rest) rsp s =
    Some (118, 0x7E # head_bytes (h\<lparr>head_subtype := 1\<rparr>) @ rest,
      crc_msg (h\<lparr>head_subtype := 1, head_len := MSG_HEAD_SIZE + NV_SIZE + 2\<rparr>) (nv_bytes (addresses a w)) @ drop 118 rsp, s)"
proof -
  let ?nv = "nv_bytes (addresses a w)"
  obtain t1 where t1: "put (replicate 512 0) (MSG_HEAD_SIZE + 16) a = Some t1" "length t1 = 512"
    "put t1 (MSG_HEAD_SIZE + 66) w = Some (replicate MSG_HEAD_SIZE 0 @ ?nv @ replicate 398 0)"
    using tmprsp_addresses [OF assms(2,3)] by blast
  have bt: "read_address ENG_BT_MAC (MSG_HEAD_SIZE + 16) (replicate 512 0) s = Some t1"
    using read_address_ok [OF assms(1,2), of "MSG_HEAD_SIZE + 16" "replicate 512 0" ENG_BT_MAC] assms(5) t1(1)
    by (simp add: MSG_HEAD_SIZE_def)
  have wf: "read_address ENG_WIFI_MAC (MSG_HEAD_SIZE + 66) t1 s = Some (replicate MSG_HEAD_SIZE 0 @ ?nv @ replicate 398 0)"
    using read_address_ok [OF assms(1,3), of "MSG_HEAD_SIZE + 66" t1 ENG_WIFI_MAC] assms(4) t1(2,3)
    by (simp add: MSG_HEAD_SIZE_def)
  have l: "length ?nv = NV_SIZE" using assms(2,3) by (intro length_nv_bytes) (simp add: addresses_def nv_ok_def)
  have g: "get (p @ ?nv @ q) MSG_HEAD_SIZE NV_SIZE = Some ?nv" "put (p @ ?nv @ q) MSG_HEAD_SIZE ?nv = Some (p @ ?nv @ q)"
    if "length p = MSG_HEAD_SIZE" for p q
    using get_pre [of MSG_HEAD_SIZE p NV_SIZE ?nv q] put_append [of ?nv ?nv p q] l that by simp_all
  have hd: "put (replicate MSG_HEAD_SIZE 0 @ m) 0 (head_bytes h') = Some (head_bytes h' @ m)" for m h'
    by (simp add: put_def)
  let ?c = "crc_bytes (crc16 0 ?nv)"
  have c: "put (head_bytes h' @ ?nv @ replicate 398 0) (MSG_HEAD_SIZE + NV_SIZE) ?c =
      Some (head_bytes h' @ ?nv @ ?c @ replicate 396 0)" for h'
    using put_after [of ?c "replicate 398 0" "MSG_HEAD_SIZE + NV_SIZE" ?nv h'] l by simp
  have p: "get (head_bytes h' @ ?nv @ ?c @ q) 0 (MSG_HEAD_SIZE + NV_SIZE + 2) = Some (head_bytes h' @ ?nv @ ?c)" for h' q
    using get_pre [of 0 "[]" "MSG_HEAD_SIZE + NV_SIZE + 2" "head_bytes h' @ ?nv @ ?c" q] l by simp
  have w: "raw_packet rsp (head_bytes h' @ ?nv @ ?c) = Some (0x7E # head_bytes h' @ ?nv @ ?c @ [0x7E] @ drop 118 rsp, 118)" for h'
    using assms(8) l by (simp add: raw_packet_ok MSG_HEAD_SIZE_def NV_SIZE_def)
  show ?thesis
    unfolding btwifi_read_def Let_def
    by (simp add: assms(6,7) bt wf g hd c p w msg_simps crc_msg_def del: add_2_eq_Suc add_2_eq_Suc')
qed

text \<open>The record and the checksum of a writing request.\<close>

lemma write_fields:
  assumes "nv_ok d"
  shows "get (crc_msg h (nv_bytes d) @ post) (1 + MSG_HEAD_SIZE) NV_SIZE = Some (nv_bytes d)"
    and "get (crc_msg h (nv_bytes d) @ post) (1 + MSG_HEAD_SIZE + NV_SIZE) 2 = Some (crc_bytes (crc16 0 (nv_bytes d)))"
  using get_pre [of "1 + MSG_HEAD_SIZE" "0x7E # head_bytes h" NV_SIZE "nv_bytes d"]
    get_pre [of "1 + MSG_HEAD_SIZE + NV_SIZE" "0x7E # head_bytes h @ nv_bytes d" 2 "crc_bytes (crc16 0 (nv_bytes d))"]
    length_nv_bytes [OF assms]
  by (simp_all add: crc_msg_def)

lemma crc_msg_append: "crc_msg h d @ post = 0x7E # head_bytes h @ d @ crc_bytes (crc16 0 d) @ [0x7E] @ post"
  by (simp add: crc_msg_def)

lemma btwifi_write_ok:
  assumes "mac_files_ok s" and "nv_ok d" and "nv_wifiaddr d ! 0 AND 0x03 = 0"
    and "(sub AND 0x7f) AND DIAG_CMD_BTBIT \<noteq> 0" and "(sub AND 0x7f) AND DIAG_CMD_WIFIBIT \<noteq> 0" and "12 \<le> length rsp"
  shows "\<exists>b s'. btwifi_write pf rnd False False sub (crc_msg h (nv_bytes d) @ post) rsp s =
      Some (12, b, 0x7E # head_bytes (h\<lparr>head_subtype := 1, head_len := MSG_HEAD_SIZE + 2\<rparr>) @ [0, 0, 0x7E] @ drop 12 rsp, s')
    \<and> mac_files_ok s' \<and> fs_data s' WIFI_MAC_FILE = Some (mac_text (nv_wifiaddr d))
    \<and> fs_data s' BT_MAC_FILE = Some (mac_text (rev (nv_btaddr d)))"
proof -
  let ?w = "mac_text (nv_wifiaddr d)" and ?b = "mac_text (rev (nv_btaddr d))"
  have n: "nv_wifiaddr d \<noteq> []" "rev (nv_btaddr d) \<noteq> []" "length (nv_wifiaddr d) = 6" "length (rev (nv_btaddr d)) = 6"
    using assms(2) by (auto simp: nv_ok_def)
  have l: "length ?w = 17" "length ?b = 17"
    using length_mac_text [OF n(1)] length_mac_text [OF n(2)] n(3,4) by simp_all
  then have "?w \<noteq> []" "?b \<noteq> []" by auto
  then obtain s' where s': "eng_btwifimac_write pf rnd (Some ?b) (Some ?w) s = Some (int (length ?b), s')" "mac_files_ok s'"
    "fs_data s' WIFI_MAC_FILE = Some ?w" "fs_data s' BT_MAC_FILE = Some ?b"
    using eng_btwifimac_write_both [OF assms(1)] by blast
  have "btwifi_ack 1 (crc_msg h (nv_bytes d) @ post) rsp =
      Some (12, 0x7E # head_bytes (h\<lparr>head_subtype := 1\<rparr>) @ nv_bytes d @ crc_bytes (crc16 0 (nv_bytes d)) @ [0x7E] @ post,
        0x7E # head_bytes (h\<lparr>head_subtype := 1, head_len := MSG_HEAD_SIZE + 2\<rparr>) @ [0, 0, 0x7E] @ drop 12 rsp)"
    unfolding crc_msg_append by (rule btwifi_ack_ok [OF assms(6)])
  then show ?thesis
    using s' l(2) unfolding btwifi_write_def write_fields [OF assms(2)]
    by (simp add: nv_of_bytes [OF assms(2)] assms(3-5) Let_def)
qed

lemma btwifi_write_refused:
  assumes "nv_ok d" and "nv_wifiaddr d ! 0 AND 0x03 \<noteq> 0" and "(sub AND 0x7f) AND DIAG_CMD_WIFIBIT \<noteq> 0" and "12 \<le> length rsp"
  shows "\<exists>b. btwifi_write pf rnd cp ap sub (crc_msg h (nv_bytes d) @ post) rsp s =
      Some (12, b, 0x7E # head_bytes (h\<lparr>head_subtype := 0, head_len := MSG_HEAD_SIZE + 2\<rparr>) @ [0, 0, 0x7E] @ drop 12 rsp, s)"
  using btwifi_ack_ok [OF assms(4), of 0 h] assms(2,3)
  unfolding btwifi_write_def write_fields [OF assms(1)]
  by (simp add: nv_of_bytes [OF assms(1)] Let_def crc_msg_append)

lemma btwifiimei_split:
  "head_ok h \<Longrightarrow> btwifiimei pf rnd cp ap (0x7E # head_bytes h @ rest) rsp s =
    (if head_subtype h AND DIAG_CMD_READ = 0
     then btwifi_write pf rnd cp ap (head_subtype h) (0x7E # head_bytes h @ rest) rsp s
     else btwifi_read cp ap (head_subtype h) (0x7E # head_bytes h @ rest) rsp s)"
  by (simp add: btwifiimei_def msg_simps)

section \<open>Properties\<close>

definition sample_nv :: "byte \<Rightarrow> REF_NVWriteDirect_T" where
  "sample_nv b = addresses [1, 2, 3, 4, 5, 6] [b, 0x10, 0x20, 0xAB, 0xFF, 9]"

lemma sample_nv_ok: "nv_ok (sample_nv b)" "nv_wifiaddr (sample_nv b) ! 0 = b" "nv_btaddr (sample_nv b) = [1, 2, 3, 4, 5, 6]"
  "nv_wifiaddr (sample_nv b) = [b, 0x10, 0x20, 0xAB, 0xFF, 9]"
  by (simp_all add: sample_nv_def addresses_def nv_ok_def)

lemma sample_mac_files: "mac_files_ok (sample_files d)"
  by (simp add: mac_files_ok_def sample_files_def)

lemma sample_imei: "imei_field (Suc 0) (sample_nv b) = replicate 8 0"
  by (simp add: imei_field_def sample_nv_def addresses_def)

lemma sample_files_ok: "fs_open p (sample_files d)" "\<not> fs_ioerr (sample_files d) p" "fs_cap (sample_files d) p = None"
  by (simp_all add: fs_open_def sample_files_def)

text \<open>(IMEIs): what the writing command stores in the file of an IMEI, the reading command turns
  back into the same field, except that the low half of its first byte always becomes 0xA; and a
  text of 15 digits survives packing and unpacking.\<close>

theorem imei_roundtrip:
  fixes s :: "'p fsys"
  assumes "1 \<le> num" and "num \<le> 4" and "fs_open (imei_path num) s" and "\<not> fs_ioerr s (imei_path num)"
    and "fs_cap s (imei_path num) = None" and "length (imei_field num d) = 8"
    and "length t = 15" and "\<forall>b \<in> set t. 48 \<le> b \<and> b \<le> 57"
  shows "(\<exists>s'. eng_diag_write_imei d num s = (1, s') \<and> eng_diag_read_imei d' num s' =
      (1, set_imei_field num (((imei_field num d ! 0 AND 0xF0) OR 0x0A) # tl (imei_field num d)) d'))
    \<and> ImeiConvNV2Str (ImeiConvStr2NV t) = t"
proof -
  let ?v = "imei_field num d" and ?p = "imei_path num"
  let ?t = "ImeiConvNV2Str ?v"
  have l: "length ?t = 15" by (simp add: ImeiConvNV2Str_def imei_upt)
  let ?s = "s\<lparr>fs_data := (fs_data s)(?p \<mapsto> overlay 0 ?t (fs_content ?p s))\<rparr>"
  have "fs_write ?p 0 ?t s = (15, ?s)"
    using assms(4,5) l by (simp add: fs_write_def)
  then have w: "eng_diag_write_imei d num s = (1, ?s)"
    using assms(1-3) by (simp add: eng_diag_write_imei_def)
  have "fs_read ?p 0 MAX_IMEI_STR_LENGTH ?s = Some ?t"
    using assms(4) l by (simp add: fs_read_def fs_content_def overlay_0 MAX_IMEI_STR_LENGTH_def)
  moreover have "fs_open ?p ?s" using assms(3) by (simp add: fs_open_def)
  ultimately have "eng_diag_read_imei d' num ?s = (1, set_imei_field num (ImeiConvStr2NV ?t) d')"
    using assms(1,2) l by (auto simp: eng_diag_read_imei_def zfill_def MAX_IMEI_STR_LENGTH_def)
  then show ?thesis
    using w imei_nv_str_nv [OF assms(6)] imei_str_nv_str [OF assms(7,8)] by simp
qed

theorem imei_roundtrip_witness:
  "\<exists>s'. eng_diag_write_imei (sample_nv 4) 1 (sample_files []) = (1, s')
    \<and> eng_diag_read_imei (sample_nv 4) 1 s' = (1, set_imei_field 1 (0x0A # replicate 7 0) (sample_nv 4))"
  using imei_roundtrip [of 1 "sample_files []" "sample_nv 4" "replicate 15 57" "sample_nv 4"]
  by (simp add: sample_files_ok sample_imei)

text \<open>(addresses): with the address files in order, a writing request for both addresses is answered
  with success, and a reading request afterwards is answered with exactly these two addresses, all
  other fields zero and a right checksum; the WiFi address must be a global unicast address, or else
  the request is refused and no file changes.\<close>

theorem mac_roundtrip:
  assumes "mac_files_ok s" and "nv_ok d" and "head_ok h" and "head_ok h'"
    and "head_subtype h AND DIAG_CMD_READ = 0" and "head_subtype h' AND DIAG_CMD_READ \<noteq> 0"
    and "(head_subtype h AND 0x7f) AND DIAG_CMD_BTBIT \<noteq> 0" and "(head_subtype h AND 0x7f) AND DIAG_CMD_WIFIBIT \<noteq> 0"
    and "(head_subtype h' AND 0x7f) AND DIAG_CMD_BTBIT \<noteq> 0" and "(head_subtype h' AND 0x7f) AND DIAG_CMD_WIFIBIT \<noteq> 0"
    and "12 \<le> length rsp" and "118 \<le> length rsp'"
  shows "\<exists>b s' b'. btwifiimei pf rnd False False (crc_msg h (nv_bytes d) @ post) rsp s =
      Some (12, b, 0x7E # head_bytes (h\<lparr>head_subtype := if nv_wifiaddr d ! 0 AND 0x03 = 0 then 1 else 0,
        head_len := MSG_HEAD_SIZE + 2\<rparr>) @ [0, 0, 0x7E] @ drop 12 rsp, s')
    \<and> (if nv_wifiaddr d ! 0 AND 0x03 = 0
       then btwifiimei pf rnd' False False (0x7E # head_bytes h' @ rest) rsp' s' =
         Some (118, b', crc_msg (h'\<lparr>head_subtype := 1, head_len := MSG_HEAD_SIZE + NV_SIZE + 2\<rparr>)
           (nv_bytes (addresses (nv_btaddr d) (nv_wifiaddr d))) @ drop 118 rsp', s')
       else s' = s)"
proof -
  have sp: "btwifiimei pf rnd False False (crc_msg h (nv_bytes d) @ post) rsp s =
      btwifi_write pf rnd False False (head_subtype h) (crc_msg h (nv_bytes d) @ post) rsp s"
    unfolding crc_msg_append using assms(5) by (simp add: btwifiimei_split [OF assms(3)])
  show ?thesis
  proof (cases "nv_wifiaddr d ! 0 AND 0x03 = 0")
    case True
    obtain b s' where w: "btwifi_write pf rnd False False (head_subtype h) (crc_msg h (nv_bytes d) @ post) rsp s =
        Some (12, b, 0x7E # head_bytes (h\<lparr>head_subtype := 1, head_len := MSG_HEAD_SIZE + 2\<rparr>) @ [0, 0, 0x7E] @ drop 12 rsp, s')"
      "mac_files_ok s'" "fs_data s' WIFI_MAC_FILE = Some (mac_text (nv_wifiaddr d))"
      "fs_data s' BT_MAC_FILE = Some (mac_text (rev (nv_btaddr d)))"
      using btwifi_write_ok [OF assms(1,2) True assms(7,8,11)] by blast
    have "length (nv_btaddr d) = 6" "length (nv_wifiaddr d) = 6" using assms(2) by (simp_all add: nv_ok_def)
    from btwifi_read_ok [OF w(2) this w(3,4) assms(9,10,12)]
    show ?thesis using sp w(1) True assms(6) by (simp add: btwifiimei_split [OF assms(4)])
  next
    case False
    then show ?thesis using sp btwifi_write_refused [OF assms(2) False assms(8,11)] by auto
  qed
qed

theorem mac_roundtrip_witness:
  "\<exists>b r s' b'. btwifiimei sample_props (\<lambda>i. 1) False False (crc_msg (sample_head 116 0x5E 0x44) (nv_bytes (sample_nv 4)))
        (replicate 12 0) (sample_files []) = Some (12, b, r, s')
    \<and> btwifiimei sample_props (\<lambda>i. 1) False False (0x7E # head_bytes (sample_head 10 0x5E 0xC4) @ [0, 0, 0x7E]) (replicate 118 0) s' =
      Some (118, b', crc_msg ((sample_head 10 0x5E 0xC4)\<lparr>head_subtype := 1, head_len := MSG_HEAD_SIZE + NV_SIZE + 2\<rparr>)
        (nv_bytes (addresses [1, 2, 3, 4, 5, 6] [4, 0x10, 0x20, 0xAB, 0xFF, 9])), s')"
  using mac_roundtrip [of "sample_files []" "sample_nv 4" "sample_head 116 0x5E 0x44" "sample_head 10 0x5E 0xC4"
      "replicate 12 0" "replicate 118 0" sample_props "\<lambda>i. 1" "[]" "\<lambda>i. 1" "[0, 0, 0x7E]"]
  by (auto simp: sample_nv_ok sample_mac_files cmd_bits)

text \<open>What the daemon has after loading the library.\<close>

definition misc_callbacks ::
  "bool \<Rightarrow> 'p prop_service \<Rightarrow> (nat \<Rightarrow> byte) \<Rightarrow> (nat \<Rightarrow> 32 word) \<Rightarrow> 'p misc_env eng_callback list" where
  "misc_callbacks nand pf g rnd = map (\<lambda>f. f default_callback) (misc_updates nand pf g rnd)"

definition misc_so ::
  "bool \<Rightarrow> 'p prop_service \<Rightarrow> (nat \<Rightarrow> byte) \<Rightarrow> (nat \<Rightarrow> 32 word) \<Rightarrow> 'p misc_env so_entry" where
  "misc_so nand pf g rnd = \<lparr>e_type = 8, e_link = False, e_readable = True,
     e_handle = Some (None, Some (register_misc nand pf g rnd))\<rparr>"

lemma misc_callbacks_at: "list_all (\<lambda>c. at_cmd c = []) (misc_callbacks nand pf g rnd)"
  by (simp add: misc_callbacks_def misc_updates_def default_callback_def)

lemma misc_so_load:
  "mgr_load (Some [misc_so nand pf g rnd]) modmgr_new =
     Some (0, modmgr_new\<lparr>m_listHead := misc_callbacks nand pf g rnd, m_isLoaded := True\<rparr>)"
proof -
  have "misc_so nand pf g rnd = library (register_misc nand pf g rnd)" by (simp add: misc_so_def library_def)
  moreover have "list_all (\<lambda>f. at_cmd (f default_callback) = []) (misc_updates nand pf g rnd)"
    using misc_callbacks_at [of nand pf g rnd] by (simp add: misc_callbacks_def list_all_iff)
  ultimately show ?thesis
    using library_load [of "register_misc nand pf g rnd" "misc_updates nand pf g rnd"]
    by (simp add: register_misc_def fill_entries_def misc_callbacks_def Let_def) (simp add: misc_updates_def)
qed

lemma head_msg_rd: "rd (0x7E # head_bytes h @ body) 7 = Some (head_type h)"
  by (simp add: rd_def head_bytes_def le32_def le16_def MSG_HEAD_SIZE_def)

text \<open>A callback of the library that stands at place \<open>k\<close> gets a request when none before it applies.\<close>

lemma misc_serves:
  fixes io :: "'p misc_env cb_io"
  assumes "cb_buf io = 0x7E # head_bytes h @ body" and "head_ok h" and "head_type h \<in> {0x0D, 0x5F}"
    and "k < 8" and "\<And>i. i < k \<Longrightarrow> type_match (misc_callbacks nand pf g rnd ! i) (cb_buf io) len = Some False"
    and "type_match (misc_callbacks nand pf g rnd ! k) (cb_buf io) len = Some True"
    and "eng_diag_func (misc_callbacks nand pf g rnd ! k) = Some f"
    and "eng_set_writeinterface_func (misc_callbacks nand pf g rnd ! k) = None"
    and "\<not> also_need_to_cp (misc_callbacks nand pf g rnd ! k)"
    and "f io len rsp_len = Some (r, io')" and "r \<noteq> ENG_DIAG_RET_UNSUPPORT"
    and "m_listHead m = misc_callbacks nand pf g rnd"
  shows "processDiag m io len rsp_len = Some (r, False, io', m\<lparr>m_lpCurCB := Some k, m_lpPendingCB := None\<rparr>)"
proof -
  have k: "k < length (misc_callbacks nand pf g rnd)"
    using assms(4) by (simp add: misc_callbacks_def misc_updates_def)
  have d: "data_match (misc_callbacks nand pf g rnd ! k) (cb_buf io) = Some True"
    using assms(2,3) by (auto simp: data_match_def assms(1) msg_simps)
  have b: "rd (cb_buf io) 7 \<noteq> None" by (simp add: assms(1) head_msg_rd)
  show ?thesis
    by (rule library_serves [OF assms(12) k misc_callbacks_at b disjI1 [OF assms(5)] assms(6) d assms(7-11)])
qed

text \<open>(the library inside the daemon): after the daemon has loaded the library, a phase check request
  in a diag message and a 32-bit writing request of the misc data reach their functions, whatever their
  other fields, and the manager returns the functions' answers and leaves the request to nobody else.\<close>

theorem misc_library_serves:
  fixes env :: "'p misc_env"
  assumes "mgr_load (Some [misc_so nand pf g rnd]) modmgr_new = Some (r0, m)"
    and "head_ok h" and "me_fs env = s" and "r \<noteq> ENG_DIAG_RET_UNSUPPORT"
  shows "(head_type h = 0x5F \<and> direct_phschk nand pf g (0x7E # head_bytes h @ body) rsp rsp_len s = Some (r, b, rsp', s') \<longrightarrow>
      processDiag m \<lparr>cb_buf = 0x7E # head_bytes h @ body, cb_rsp = rsp, cb_env = env\<rparr> len rsp_len =
        Some (r, False, \<lparr>cb_buf = b, cb_rsp = rsp', cb_env = env\<lparr>me_fs := s'\<rparr>\<rparr>,
          m\<lparr>m_lpCurCB := Some 7, m_lpPendingCB := None\<rparr>))
    \<and> (head_type h = 0x0D \<and> head_subtype h = 0x13 \<and>
       eng_diag_product_ctrl_ex nand pf g (0x7E # head_bytes h @ body) rsp rsp_len s = Some (r, b, rsp', s') \<longrightarrow>
      processDiag m \<lparr>cb_buf = 0x7E # head_bytes h @ body, cb_rsp = rsp, cb_env = env\<rparr> len rsp_len =
        Some (r, False, \<lparr>cb_buf = b, cb_rsp = rsp', cb_env = env\<lparr>me_fs := s'\<rparr>\<rparr>,
          m\<lparr>m_lpCurCB := Some 4, m_lpPendingCB := None\<rparr>))"
proof -
  let ?buf = "0x7E # head_bytes h @ body"
  let ?io = "\<lparr>cb_buf = ?buf, cb_rsp = rsp, cb_env = env\<rparr>"
  have m: "m_listHead m = misc_callbacks nand pf g rnd"
    using assms(1) by (auto simp: misc_so_load)
  have ty: "type_match c ?buf len =
      (if head_type h = cb_type c \<and> head_subtype h = cb_subtype c then Some True
       else case eng_cmd_match c of None \<Rightarrow> Some False | Some f \<Rightarrow> do { r \<leftarrow> f ?buf len; Some (r = 0) })" for c :: "'p misc_env eng_callback"
    using assms(2) by (simp add: type_match_def msg_simps)
  note cb = misc_callbacks_def misc_updates_def default_callback_def ty bt_wifi_mac_match_def phasecheck_match_def
    match_byte7_def head_msg_rd
  show ?thesis
  proof (intro conjI impI; elim conjE)
    assume h: "head_type h = 0x5F" and f: "direct_phschk nand pf g ?buf rsp rsp_len s = Some (r, b, rsp', s')"
    show "processDiag m ?io len rsp_len = Some (r, False, \<lparr>cb_buf = b, cb_rsp = rsp', cb_env = env\<lparr>me_fs := s'\<rparr>\<rparr>,
          m\<lparr>m_lpCurCB := Some 7, m_lpPendingCB := None\<rparr>)"
    proof (rule misc_serves [where f = "phasecheck_handler nand pf g" and body = body and len = len
        and nand = nand and pf = pf and g = g and rnd = rnd, OF _ assms(2)])
      show "type_match (misc_callbacks nand pf g rnd ! i) (cb_buf ?io) len = Some False" if "i < 7" for i
      proof -
        have "i = 0 \<or> i = 1 \<or> i = 2 \<or> i = 3 \<or> i = 4 \<or> i = 5 \<or> i = 6" using that by arith
        then show ?thesis using h by (elim disjE) (simp_all add: cb)
      qed
    qed (use h f assms(3,4) m in \<open>simp_all add: cb on_files_def phasecheck_handler_def\<close>)
  next
    assume h: "head_type h = 0x0D" "head_subtype h = 0x13"
      and f: "eng_diag_product_ctrl_ex nand pf g ?buf rsp rsp_len s = Some (r, b, rsp', s')"
    show "processDiag m ?io len rsp_len = Some (r, False, \<lparr>cb_buf = b, cb_rsp = rsp', cb_env = env\<lparr>me_fs := s'\<rparr>\<rparr>,
          m\<lparr>m_lpCurCB := Some 4, m_lpPendingCB := None\<rparr>)"
    proof (rule misc_serves [where f = "miscdata_offset_handler nand pf g" and body = body and len = len
        and nand = nand and pf = pf and g = g and rnd = rnd, OF _ assms(2)])
      show "type_match (misc_callbacks nand pf g rnd ! i) (cb_buf ?io) len = Some False" if "i < 4" for i
      proof -
        have "i = 0 \<or> i = 1 \<or> i = 2 \<or> i = 3" using that by arith
        then show ?thesis using h by (elim disjE) (simp_all add: cb)
      qed
    qed (use h f assms(3,4) m in \<open>simp_all add: cb on_files_def miscdata_offset_handler_def\<close>)
  qed
qed

definition sample_misc_env :: "(byte list \<Rightarrow> byte list) misc_env" where
  "sample_misc_env = \<lparr>me_fs = sample_files (replicate 512 0), me_gfunc = False, me_sent = []\<rparr>"

theorem misc_library_serves_witness:
  "\<exists>m io m'. mgr_load (Some [misc_so False sample_props (\<lambda>i. 9) (\<lambda>i. 1)]) modmgr_new = Some (0, m)
    \<and> processDiag m \<lparr>cb_buf = crc_msg (sample_head 266 0x5F 1) sample_record, cb_rsp = replicate 12 0,
        cb_env = sample_misc_env\<rparr> 268 512 = Some (12, False, io, m')
    \<and> misc_img sample_props (me_fs (cb_env io)) = sample_record @ replicate 256 0"
proof -
  let ?f = "sample_files (replicate 512 0)" and ?h = "sample_head 266 0x5F 1"
  obtain b where b: "phschk_write False sample_props 1 sample_record (crc_msg ?h sample_record @ []) (replicate 12 0) ?f =
      Some (12, b, 0x7E # head_bytes (?h\<lparr>head_len := 10, head_subtype := 1\<rparr>) @ [0, 0, 0x7E] @ drop 12 (replicate 12 0),
        misc_put sample_props 0 sample_record ?f)"
    using phschk_write_ok [of False sample_props ?f 1 sample_record "replicate 12 0" ?h "[]"] by (auto simp: sample_sound)
  have d: "direct_phschk False sample_props (\<lambda>i. 9) (0x7E # head_bytes ?h @ sample_record @ crc_bytes (crc16 0 sample_record) @ [0x7E])
      (replicate 12 0) 512 ?f = Some (12, b, 0x7E # head_bytes (?h\<lparr>head_len := 10, head_subtype := 1\<rparr>) @ [0, 0, 0x7E],
        misc_put sample_props 0 sample_record ?f)"
    using b direct_phschk_crc_msg [of ?h sample_record False sample_props "\<lambda>i. 9" "[]" "replicate 12 0" 512 ?f]
    by (simp add: crc_msg_def MSG_HEAD_SIZE_def)
  have t: "head_ok ?h" "me_fs sample_misc_env = ?f" "(12 :: int) \<noteq> ENG_DIAG_RET_UNSUPPORT" "head_type ?h = 0x5F"
    by (simp_all add: sample_misc_env_def ENG_DIAG_RET_UNSUPPORT_def) (simp add: sample_head_def)
  show ?thesis
    using misc_library_serves [OF misc_so_load t(1-3), where body = "sample_record @ crc_bytes (crc16 0 sample_record) @ [0x7E]"
        and rsp = "replicate 12 0" and rsp_len = 512 and b = b and len = 268
        and rsp' = "0x7E # head_bytes (?h\<lparr>head_len := 10, head_subtype := 1\<rparr>) @ [0, 0, 0x7E]"
        and s' = "misc_put sample_props 0 sample_record ?f", THEN conjunct1] d t(4)
    by (auto simp: misc_so_load crc_msg_def misc_img_put overlay_0)
qed

end
