(* ===== verification/RadioTest.thy ===== *)
theory RadioTest
  imports AtTok Adapter
begin

text \<open>
  The factory test of the radio (\<open>modules/libFactoryRadioTest/factorytest_radio.c\<close>): the line reader over
  the AT channel with its static buffer, the exchange of a command and its response, and the SIM test.
  What \<open>read\<close>, \<open>write\<close> and \<open>select\<close> give is input; the buffer's bytes and its cursor are modelled as they are.
\<close>

section \<open>Modes\<close>

definition isLteOnly :: "'p prop_service \<Rightarrow> 'p sys \<Rightarrow> int \<Rightarrow> bool" where
  "isLteOnly pf s phoneId =
     (let testmode = property_get pf (cs ''persist.vendor.radio.modem.workmode'') (cs ''0,0'') s @ [0, 0, 0]
      in if phoneId = 0 then testmode ! 0 = 51 else testmode ! 2 = 51)"

definition isNrMode :: "'p prop_service \<Rightarrow> 'p sys \<Rightarrow> bool" where
  "isNrMode pf s \<longleftrightarrow> property_get pf (cs ''ro.vendor.radio.modemtype'') [] s = cs ''nr''"

definition at_channel :: "'p prop_service \<Rightarrow> 'p sys \<Rightarrow> int \<Rightarrow> byte list" where
  "at_channel pf s simNum =
     (if isNrMode pf s then (if simNum = 1 then cs ''/dev/stty_nr1'' else cs ''/dev/stty_nr4'')
      else (if simNum = 1 then cs ''/dev/stty_lte1'' else cs ''/dev/stty_lte4''))"

section \<open>The line reader\<close>

definition AT_BUFFER_SIZE :: nat where "AT_BUFFER_SIZE = 512"

text \<open>The static buffer and the cursor into it, and what the channel still has to give: one piece per
  \<open>read\<close>; a \<open>read\<close> that has no room for a piece leaves the rest of it. When there are no more pieces \<open>read\<close> fails.\<close>

record at_buf =
  s_ATBuffer :: mem
  s_ATBufferCur :: nat

definition is_eol :: "byte \<Rightarrow> bool" where
  "is_eol b \<longleftrightarrow> b = 13 \<or> b = 10"

text \<open>The distance of the end of the line from the start of the text.\<close>

definition findNextEOL :: "byte list \<Rightarrow> nat option" where
  "findNextEOL s =
     (if s = [62, 32] then Some 2
      else let n = length (takeWhile (\<lambda>b. \<not> is_eol b) s) in if n = length s then None else Some n)"

text \<open>Skipping the newlines at the cursor, then looking for the end of the line: the text there and the end.\<close>

definition at_line :: "at_buf \<Rightarrow> (at_buf \<times> byte list \<times> nat option) option" where
  "at_line st = do {
     s \<leftarrow> cstr_at (s_ATBuffer st) (s_ATBufferCur st);
     (let t = dropWhile is_eol s; st' = st\<lparr>s_ATBufferCur := s_ATBufferCur st + (length s - length t)\<rparr>
      in Some (st', t, findNextEOL t))
   }"

text \<open>A NUL over the end of the line; the cursor goes behind it.\<close>

definition take_line :: "at_buf \<Rightarrow> byte list \<Rightarrow> nat \<Rightarrow> (byte list \<times> at_buf) option" where
  "take_line st s eol = do {
     m \<leftarrow> wr (s_ATBuffer st) (s_ATBufferCur st + eol) 0;
     Some (take eol s, \<lparr>s_ATBuffer = m, s_ATBufferCur = s_ATBufferCur st + eol + 1\<rparr>)
   }"

text \<open>The loop that reads until there is a line.\<close>

function read_loop :: "at_buf \<Rightarrow> nat \<Rightarrow> byte list list \<Rightarrow> (byte list option \<times> at_buf \<times> byte list list) option" where
  "read_loop st p_read chunks = do {
     (st0, p0) \<leftarrow> (if AT_BUFFER_SIZE - p_read = 0
        then do { m \<leftarrow> wr (s_ATBuffer st) 0 0; Some (\<lparr>s_ATBuffer = m, s_ATBufferCur = 0\<rparr>, 0) }
        else Some (st, p_read));
     (case chunks of
        [] \<Rightarrow> Some (None, st0, [])
      | c # rest \<Rightarrow>
          if c = [] then Some (None, st0, rest)
          else do {
            (let bs = take (AT_BUFFER_SIZE - p0) c; more = drop (AT_BUFFER_SIZE - p0) c;
                 cs' = (if more = [] then rest else more # rest) in do {
               m1 \<leftarrow> put (s_ATBuffer st0) p0 bs;
               m2 \<leftarrow> wr m1 (p0 + length bs) 0;
               (st1, s, eol) \<leftarrow> at_line (st0\<lparr>s_ATBuffer := m2\<rparr>);
               (case eol of
                  None \<Rightarrow> read_loop st1 (p0 + length bs) cs'
                | Some e \<Rightarrow> do { (l, st2) \<leftarrow> take_line st1 s e; Some (Some l, st2, cs') })
             })
          })
   }"
  by pat_completeness auto
termination
  by (relation "measure (\<lambda>(st, p, cs). sum_list (map length cs))")
     (auto simp: AT_BUFFER_SIZE_def Option.bind_eq_Some_conv split: if_splits)

declare read_loop.simps [simp del]

definition readline :: "at_buf \<Rightarrow> byte list list \<Rightarrow> (byte list option \<times> at_buf \<times> byte list list) option" where
  "readline st chunks = do {
     b \<leftarrow> rd (s_ATBuffer st) (s_ATBufferCur st);
     (if b = 0
      then do { m \<leftarrow> wr (s_ATBuffer st) 0 0; read_loop \<lparr>s_ATBuffer = m, s_ATBufferCur = 0\<rparr> 0 chunks }
      else do {
        (st1, s, eol) \<leftarrow> at_line st;
        (case eol of
           None \<Rightarrow> do {
             m \<leftarrow> memmv (s_ATBuffer st1) 0 (s_ATBufferCur st1) (length s + 1);
             read_loop \<lparr>s_ATBuffer = m, s_ATBufferCur = 0\<rparr> (length s) chunks
           }
         | Some e \<Rightarrow> do { (l, st2) \<leftarrow> take_line st1 s e; Some (Some l, st2, chunks) })
      })
   }"

section \<open>A line is found, however the text arrives\<close>

text \<open>The text the reader has not given out: from the cursor to the NUL.\<close>

definition pending :: "at_buf \<Rightarrow> byte list option" where
  "pending st = cstr_at (s_ATBuffer st) (s_ATBufferCur st)"

lemma cstr_at_nul:
  assumes "0 \<notin> set s" and "n = length pre"
  shows "cstr_at (pre @ s @ 0 # post) n = Some s"
proof -
  have "takeWhile (\<lambda>b. b \<noteq> 0) (s @ 0 # post) = s" using assms(1) by (subst takeWhile_append2) auto
  then show ?thesis using assms(2) by (simp add: cstr_at_def)
qed

text \<open>The buffer holds the text \<open>s\<close> between the cursor and the NUL at \<open>p\<close>.\<close>

definition holds :: "at_buf \<Rightarrow> nat \<Rightarrow> byte list \<Rightarrow> bool" where
  "holds st p s \<longleftrightarrow> (\<exists>pre post. s_ATBuffer st = pre @ s @ 0 # post \<and> length pre = s_ATBufferCur st
     \<and> p = s_ATBufferCur st + length s \<and> length (s_ATBuffer st) = AT_BUFFER_SIZE) \<and> 0 \<notin> set s"

lemma holds_pending: "holds st p s \<Longrightarrow> pending st = Some s"
  by (auto simp: holds_def pending_def cstr_at_nul)

lemma at_line_holds:
  assumes "holds st p s"
  shows "at_line st = Some (st\<lparr>s_ATBufferCur := s_ATBufferCur st + (length s - length (dropWhile is_eol s))\<rparr>,
      dropWhile is_eol s, findNextEOL (dropWhile is_eol s))"
    and "holds (st\<lparr>s_ATBufferCur := s_ATBufferCur st + (length s - length (dropWhile is_eol s))\<rparr>) p (dropWhile is_eol s)"
proof -
  show "at_line st = Some (st\<lparr>s_ATBufferCur := s_ATBufferCur st + (length s - length (dropWhile is_eol s))\<rparr>,
      dropWhile is_eol s, findNextEOL (dropWhile is_eol s))"
    using holds_pending [OF assms] by (simp add: at_line_def pending_def Let_def)
  obtain pre post where b: "s_ATBuffer st = pre @ s @ 0 # post" "length pre = s_ATBufferCur st"
    "p = s_ATBufferCur st + length s" "length (s_ATBuffer st) = AT_BUFFER_SIZE" "0 \<notin> set s"
    using assms by (auto simp: holds_def)
  have e: "takeWhile is_eol s @ dropWhile is_eol s = s" by simp
  then have l: "length (takeWhile is_eol s) + length (dropWhile is_eol s) = length s" by (metis length_append)
  have "0 \<notin> set (dropWhile is_eol s)" using b(5) set_dropWhileD by metis
  moreover have "s_ATBuffer st = (pre @ takeWhile is_eol s) @ dropWhile is_eol s @ 0 # post" using b(1) e by simp
  ultimately show "holds (st\<lparr>s_ATBufferCur := s_ATBufferCur st + (length s - length (dropWhile is_eol s))\<rparr>) p (dropWhile is_eol s)"
    using b l unfolding holds_def by (intro conjI exI [of _ "pre @ takeWhile is_eol s"] exI [of _ post]) auto
qed

lemma put_holds:
  assumes "holds st p s" and "p + length c < AT_BUFFER_SIZE" and "0 \<notin> set c"
  shows "\<exists>m1 m2. put (s_ATBuffer st) p c = Some m1 \<and> wr m1 (p + length c) 0 = Some m2
    \<and> holds (st\<lparr>s_ATBuffer := m2\<rparr>) (p + length c) (s @ c)"
proof -
  obtain pre post where b: "s_ATBuffer st = pre @ s @ 0 # post" "length pre = s_ATBufferCur st"
    "p = s_ATBufferCur st + length s" "length (s_ATBuffer st) = AT_BUFFER_SIZE" "0 \<notin> set s"
    using assms(1) by (auto simp: holds_def)
  let ?m1 = "pre @ s @ c @ drop (length c) (0 # post)"
  have p: "put (s_ATBuffer st) p c = Some ?m1"
    using put_append [of c "take (length c) (0 # post)" "pre @ s" "drop (length c) (0 # post)"] b assms(2) by simp
  have ne: "drop (length c) (0 # post) \<noteq> []" using b assms(2) by auto
  then obtain x q where q: "drop (length c) (0 # post) = x # q" by (cases "drop (length c) (0 # post)") auto
  have "wr ?m1 (p + length c) 0 = Some (pre @ s @ c @ 0 # q)"
    using b q by (simp add: wr_def list_update_append)
  moreover have "length (pre @ s @ c @ 0 # q) = length (s_ATBuffer st)"
    using put_length [OF p] q by simp
  ultimately show ?thesis
    using p b assms(3) unfolding holds_def by (intro exI conjI; (rule p)?) auto
qed

text \<open>A text whose first line, after newlines, is \<open>l\<close> and is followed by \<open>rest\<close>; it is not taken for a prompt.\<close>

definition first_line :: "byte list \<Rightarrow> byte list \<Rightarrow> byte list \<Rightarrow> bool" where
  "first_line t l rest \<longleftrightarrow> (\<exists>e. dropWhile is_eol t = l @ e # rest \<and> is_eol e) \<and> list_all (\<lambda>b. \<not> is_eol b) l
     \<and> take 2 l \<noteq> [62, 32]"

lemma dropWhile_app: "dropWhile P (s @ x) = (if dropWhile P s = [] then dropWhile P x else dropWhile P s @ x)"
  by (induction s) auto

lemma dropWhile_app2: "dropWhile P (dropWhile P s @ x) = dropWhile P (s @ x)"
  by (induction s) auto

lemma takeWhile_not_eol: "list_all (\<lambda>b. \<not> is_eol b) l \<Longrightarrow> is_eol e \<Longrightarrow> takeWhile (\<lambda>b. \<not> is_eol b) (l @ e # r) = l"
  by (induction l) auto

lemma findNextEOL_line:
  assumes "list_all (\<lambda>b. \<not> is_eol b) l" and "is_eol e"
  shows "findNextEOL (l @ e # r) = Some (length l)"
proof -
  have "l @ e # r \<noteq> [62, 32]" using assms by (auto simp: is_eol_def append_eq_Cons_conv)
  then show ?thesis using takeWhile_not_eol [OF assms, of r] by (simp add: findNextEOL_def)
qed

lemma findNextEOL_none:
  assumes "list_all (\<lambda>b. \<not> is_eol b) u" and "u \<noteq> [62, 32]"
  shows "findNextEOL u = None"
proof -
  have t: "takeWhile (\<lambda>b. \<not> is_eol b) u = u" using assms(1) by (simp add: takeWhile_eq_all_conv list_all_iff)
  show ?thesis using assms(2) by (simp only: findNextEOL_def Let_def t if_True if_False) simp
qed

lemma eol_cases:
  obtains (line) l e r where "u = l @ e # r" and "is_eol e" and "list_all (\<lambda>b. \<not> is_eol b) l"
  | (none) "list_all (\<lambda>b. \<not> is_eol b) u"
proof (cases "\<exists>x \<in> set u. is_eol x")
  case True
  then obtain l e r where "u = l @ e # r" "is_eol e" "\<forall>y \<in> set l. \<not> is_eol y"
    using split_list_first_prop [OF True] by blast
  then show thesis using line by (auto simp: list_all_iff)
qed (use none in \<open>auto simp: list_all_iff\<close>)

lemma same_line:
  assumes "l @ e # r = l' @ e' # r'" and "is_eol e" and "is_eol e'"
    and "list_all (\<lambda>b. \<not> is_eol b) l" and "list_all (\<lambda>b. \<not> is_eol b) l'"
  shows "l' = l \<and> r' = r"
  using takeWhile_not_eol [OF assms(4,2), of r] takeWhile_not_eol [OF assms(5,3), of r'] assms(1) by simp

lemma take_line_holds:
  assumes "holds st p (l @ e # r)"
  shows "\<exists>st'. take_line st (l @ e # r) (length l) = Some (l, st') \<and> holds st' p r"
proof -
  obtain pre post where b: "s_ATBuffer st = pre @ (l @ e # r) @ 0 # post" "length pre = s_ATBufferCur st"
    "p = s_ATBufferCur st + length (l @ e # r)" "length (s_ATBuffer st) = AT_BUFFER_SIZE" "0 \<notin> set (l @ e # r)"
    using assms unfolding holds_def by blast
  have w: "wr (s_ATBuffer st) (s_ATBufferCur st + length l) 0 = Some ((pre @ l @ [0]) @ r @ 0 # post)"
    using b(1,2) by (simp add: wr_def list_update_append)
  have "length ((pre @ l @ [0]) @ r @ 0 # post) = AT_BUFFER_SIZE" using b(1,4) by simp
  then show ?thesis
    using w b(2,3,5) by (intro exI conjI) (simp add: take_line_def, unfold holds_def, intro conjI exI [of _ "pre @ l @ [0]"] exI [of _ post], auto)
qed

lemma read_loop_line:
  assumes "holds st p s" and "list_all (\<lambda>b. \<not> is_eol b) s" and "first_line (s @ concat chunks) l rest"
    and "\<forall>c \<in> set chunks. c \<noteq> [] \<and> 0 \<notin> set c" and "p + length (concat chunks) < AT_BUFFER_SIZE"
  shows "\<exists>st' p' r cs'. read_loop st p chunks = Some (Some l, st', cs') \<and> holds st' p' r \<and> r @ concat cs' = rest
    \<and> p' + length (concat cs') = p + length (concat chunks) \<and> suffix cs' chunks"
  using assms
proof (induction chunks arbitrary: st p s)
  case Nil
  then obtain e where "dropWhile is_eol s = l @ e # rest" "is_eol e" by (auto simp: first_line_def)
  then have "e \<in> set s" by (metis in_set_conv_decomp set_dropWhileD)
  with Nil.prems(2) \<open>is_eol e\<close> show ?case by (auto simp: list_all_iff)
next
  case (Cons c chunks)
  from Cons.prems(4,5) have c: "c \<noteq> []" "0 \<notin> set c" "p + length c < AT_BUFFER_SIZE" by auto
  obtain m1 m2 where m: "put (s_ATBuffer st) p c = Some m1" "wr m1 (p + length c) 0 = Some m2"
    "holds (st\<lparr>s_ATBuffer := m2\<rparr>) (p + length c) (s @ c)"
    using put_holds [OF Cons.prems(1) c(3,2)] by blast
  define u where "u = dropWhile is_eol (s @ c)"
  define st1 where "st1 = st\<lparr>s_ATBuffer := m2, s_ATBufferCur := s_ATBufferCur st + (length (s @ c) - length u)\<rparr>"
  have a: "at_line (st\<lparr>s_ATBuffer := m2\<rparr>) = Some (st1, u, findNextEOL u)" "holds st1 (p + length c) u"
    using at_line_holds [OF m(3)] by (simp_all add: st1_def u_def)
  have step: "read_loop st p (c # chunks) =
      (case findNextEOL u of
         None \<Rightarrow> read_loop st1 (p + length c) chunks
       | Some e \<Rightarrow> do { (l, st2) \<leftarrow> take_line st1 u e; Some (Some l, st2, chunks) })"
  proof -
    have "length c \<le> AT_BUFFER_SIZE - p" using c(3) by simp
    then show ?thesis using c m(1,2) a(1) by (subst read_loop.simps) (simp add: Let_def)
  qed
  have d: "dropWhile is_eol (u @ concat chunks) = dropWhile is_eol (s @ c @ concat chunks)"
    by (simp add: u_def dropWhile_app2)
  from Cons.prems(3) obtain e where l: "dropWhile is_eol (s @ c @ concat chunks) = l @ e # rest" "is_eol e"
    "list_all (\<lambda>b. \<not> is_eol b) l" "take 2 l \<noteq> [62, 32]"
    by (auto simp: first_line_def)
  have hu: "u \<noteq> [] \<Longrightarrow> dropWhile is_eol (s @ c @ concat chunks) = u @ concat chunks"
    using dropWhile_app [of is_eol "s @ c" "concat chunks"] unfolding u_def by (metis append.assoc)
  show ?case
  proof (cases rule: eol_cases [of u])
    case (line l' e' r')
    then have "l' = l" "r' @ concat chunks = rest"
      using hu l same_line [of l' e' "r' @ concat chunks" l e rest] by auto
    moreover obtain st2 where "take_line st1 u (length l') = Some (l', st2)" "holds st2 (p + length c) r'"
      using take_line_holds [of st1 "p + length c" l' e' r'] a(2) line(1) by auto
    ultimately show ?thesis
      using step findNextEOL_line [OF line(3,2), of r'] line(1) by (auto simp: add.assoc suffix_ConsI)
  next
    case none
    have "u \<noteq> [62, 32]"
    proof
      assume eq: "u = [62, 32]"
      then have "[62, 32] @ concat chunks = l @ e # rest" using hu l(1) by simp
      then have "take 2 l = [62, 32]" using l(2)
        by (cases l; cases "tl l") (auto simp: is_eol_def)
      then show False using l(4) by simp
    qed
    then have s: "read_loop st p (c # chunks) = read_loop st1 (p + length c) chunks"
      using step findNextEOL_none [OF none] by simp
    have "first_line (u @ concat chunks) l rest" using d Cons.prems(3) by (simp add: first_line_def)
    then show ?thesis
      using Cons.IH [OF a(2) none] Cons.prems(4,5) s by (fastforce simp: add.assoc suffix_ConsI)
  qed
qed

lemma readline_line:
  assumes "holds st p s" and "first_line (s @ concat chunks) l rest"
    and "\<forall>c \<in> set chunks. c \<noteq> [] \<and> 0 \<notin> set c" and "length s + length (concat chunks) < AT_BUFFER_SIZE"
  shows "\<exists>st' p' r cs'. readline st chunks = Some (Some l, st', cs') \<and> holds st' p' r \<and> r @ concat cs' = rest
    \<and> suffix cs' chunks"
proof -
  obtain pre post where b: "s_ATBuffer st = pre @ s @ 0 # post" "length pre = s_ATBufferCur st"
    "p = s_ATBufferCur st + length s" "length (s_ATBuffer st) = AT_BUFFER_SIZE" "0 \<notin> set s"
    using assms(1) by (auto simp: holds_def)
  show ?thesis
  proof (cases "s = []")
    case True
    let ?m = "(s_ATBuffer st)[0 := 0]" and ?p0 = "s_ATBuffer st"
    have ne: "s_ATBuffer st \<noteq> []" using b(4) by (auto simp: AT_BUFFER_SIZE_def)
    then have w: "wr ?p0 0 0 = Some ?m" by (simp add: wr_def)
    have h: "holds \<lparr>s_ATBuffer = ?m, s_ATBufferCur = 0\<rparr> 0 []"
      using ne b(4) by (cases "s_ATBuffer st") (auto simp: holds_def)
    have z: "rd (s_ATBuffer st) (s_ATBufferCur st) = Some 0" using b True by (simp add: rd_def flip: b(2))
    show ?thesis
      using read_loop_line [OF h _ _ assms(3), of l rest] assms(2,4) True z w by (auto simp: readline_def)
  next
    case False
    then obtain x xs where x: "s = x # xs" by (cases s) auto
    have rx: "rd (s_ATBuffer st) (s_ATBufferCur st) = Some x" "x \<noteq> 0" using b x by (auto simp: rd_def simp flip: b(2))
    define u where "u = dropWhile is_eol s"
    define st1 where "st1 = st\<lparr>s_ATBufferCur := s_ATBufferCur st + (length s - length u)\<rparr>"
    have a: "at_line st = Some (st1, u, findNextEOL u)" "holds st1 p u"
      using at_line_holds [OF assms(1)] by (simp_all add: st1_def u_def)
    have lu: "length u \<le> length s" by (simp add: u_def length_dropWhile_le)
    from assms(2) obtain e where l: "dropWhile is_eol (s @ concat chunks) = l @ e # rest" "is_eol e"
      "list_all (\<lambda>b. \<not> is_eol b) l" "take 2 l \<noteq> [62, 32]"
      by (auto simp: first_line_def)
    have hu: "u \<noteq> [] \<Longrightarrow> dropWhile is_eol (s @ concat chunks) = u @ concat chunks"
      using dropWhile_app [of is_eol s "concat chunks"] unfolding u_def by metis
    show ?thesis
    proof (cases rule: eol_cases [of u])
      case (line l' e' r')
      then have "l' = l" "r' @ concat chunks = rest"
        using hu l same_line [of l' e' "r' @ concat chunks" l e rest] by auto
      moreover obtain st2 where "take_line st1 u (length l') = Some (l', st2)" "holds st2 p r'"
        using take_line_holds [of st1 p l' e' r'] a(2) line(1) by auto
      ultimately show ?thesis
        using rx a(1) findNextEOL_line [OF line(3,2), of r'] line(1) by (auto simp: readline_def)
    next
      case none
      have "u \<noteq> [62, 32]"
      proof
        assume eq: "u = [62, 32]"
        then have "[62, 32] @ concat chunks = l @ e # rest" using hu l(1) by simp
        then have "take 2 l = [62, 32]" using l(2) by (cases l; cases "tl l") (auto simp: is_eol_def)
        then show False using l(4) by simp
      qed
      obtain pre1 post1 where b1: "s_ATBuffer st1 = pre1 @ u @ 0 # post1" "length pre1 = s_ATBufferCur st1"
        "length (s_ATBuffer st1) = AT_BUFFER_SIZE" "0 \<notin> set u"
        using a(2) by (auto simp: holds_def)
      let ?m = "u @ 0 # drop (length u + 1) (s_ATBuffer st1)"
      have mv: "memmv (s_ATBuffer st1) 0 (s_ATBufferCur st1) (length u + 1) = Some ?m"
        using b1(1,2) get_pre [of "s_ATBufferCur st1" pre1 "length u + 1" "u @ [0]" post1]
        by (simp add: memmv_def put_def)
      have "length ?m = AT_BUFFER_SIZE" using memmv_length [OF mv] b1(3) by simp
      then have h: "holds \<lparr>s_ATBuffer = ?m, s_ATBufferCur = 0\<rparr> (length u) u"
        using b1(4) unfolding holds_def by (intro conjI exI [of _ "[]"] exI) auto
      have "first_line (u @ concat chunks) l rest"
        using assms(2) by (simp add: first_line_def u_def dropWhile_app2)
      then obtain st' p' r cs' where "read_loop \<lparr>s_ATBuffer = ?m, s_ATBufferCur = 0\<rparr> (length u) chunks = Some (Some l, st', cs')"
        "holds st' p' r" "r @ concat cs' = rest" "suffix cs' chunks"
        using read_loop_line [OF h none _ assms(3)] assms(4) lu by fastforce
      then show ?thesis
        using rx a(1) mv findNextEOL_none [OF none \<open>u \<noteq> [62, 32]\<close>] by (auto simp: readline_def)
    qed
  qed
qed

section \<open>Properties\<close>

text \<open>C23 (reading lines): however the text of a response is cut into pieces, and whatever was left from
  before, \<open>readline\<close> returns the first line without the newlines around it, and exactly the text behind
  it remains to be read; as long as the text fits into the buffer and the line is no SMS prompt.\<close>

theorem readline_chunks:
  assumes "holds st p s" and "first_line (s @ concat chunks) l rest"
    and "\<forall>c \<in> set chunks. c \<noteq> [] \<and> 0 \<notin> set c" and "length s + length (concat chunks) < AT_BUFFER_SIZE"
  shows "\<exists>st' s' cs'. readline st chunks = Some (Some l, st', cs') \<and> pending st' = Some s' \<and> s' @ concat cs' = rest"
  using readline_line [OF assms] holds_pending by blast

definition at_buf_new :: at_buf where
  "at_buf_new = \<lparr>s_ATBuffer = replicate 512 0, s_ATBufferCur = 0\<rparr>"

lemma at_buf_new_holds: "holds at_buf_new 0 []"
  unfolding holds_def at_buf_new_def
  by (intro conjI exI [of _ "[]"] exI [of _ "replicate 511 0"]) (simp_all add: AT_BUFFER_SIZE_def flip: replicate_Suc)

theorem readline_chunks_witness:
  "\<exists>st' s' cs'. readline at_buf_new [cs ''X'', cs ''Y'' @ [13, 10], cs ''OK'' @ [13, 10]] = Some (Some (cs ''XY''), st', cs')
     \<and> pending st' = Some s' \<and> s' @ concat cs' = 10 # cs ''OK'' @ [13, 10]"
  by (rule readline_chunks [OF at_buf_new_holds]) (auto simp: first_line_def is_eol_def AT_BUFFER_SIZE_def)

end
