(* ===== verification/RadioCmd.thy ===== *)
theory RadioCmd
  imports RadioTest
begin

text \<open>
  The rest of \<open>modules/libFactoryRadioTest/factorytest_radio.c\<close>: a command and its response over the AT
  channel (\<open>sendATCmd\<close>), and the two tests built on it. The kernel's answers (\<open>write\<close>, \<open>select\<close>, the pieces
  \<open>read\<close> gives, the clock) are lists in the state, used up from the front.
\<close>

section \<open>The channel\<close>

text \<open>An exhausted list of \<open>select\<close> results is a time-out; an exhausted list of \<open>write\<close> results is full writes.\<close>

datatype sel = SelIntr | SelFail | SelTimeout | SelReady

record at_fd =
  f_at :: at_buf
  f_in :: "byte list list"
  f_wrets :: "int list"
  f_out :: "byte list list"
  f_sel :: "sel list"
  f_wait :: "int list"                   \<comment> \<open>the seconds given to each \<open>select\<close>\<close>

definition at_write :: "byte list \<Rightarrow> at_fd \<Rightarrow> int \<times> at_fd" where
  "at_write bs s =
     (case f_wrets s of
        [] \<Rightarrow> (int (length bs), s\<lparr>f_out := f_out s @ [bs]\<rparr>)
      | r # rs \<Rightarrow> (r, s\<lparr>f_wrets := rs, f_out := f_out s @ [take (nat r) bs]\<rparr>))"

text \<open>Waiting for input: the loop repeats after an interrupted \<open>select\<close>.\<close>

fun at_select :: "int \<Rightarrow> sel list \<Rightarrow> int list \<Rightarrow> bool \<times> sel list \<times> int list" where
  "at_select wait [] ws = (False, [], ws @ [wait])"
| "at_select wait (SelIntr # xs) ws = at_select wait xs (ws @ [wait])"
| "at_select wait (SelReady # xs) ws = (True, xs, ws @ [wait])"
| "at_select wait (x # xs) ws = (False, xs, ws @ [wait])"

section \<open>Progress of the reader\<close>

text \<open>A line comes either from a piece that was read or from the buffer, behind the last cursor.\<close>

lemma take_line_cur:
  assumes "take_line st s e = Some (l, st')"
  shows "s_ATBufferCur st' = s_ATBufferCur st + e + 1" "length (s_ATBuffer st') = length (s_ATBuffer st)"
    "s_ATBufferCur st + e < length (s_ATBuffer st)"
  using assms by (auto simp: take_line_def wr_def split: bind_splits if_splits)

lemma at_line_cur:
  assumes "at_line st = Some (st', s, e)"
  shows "s_ATBufferCur st \<le> s_ATBufferCur st'" "s_ATBuffer st' = s_ATBuffer st"
  using assms by (auto simp: at_line_def Let_def split: bind_splits)

lemma read_loop_reads:
  "read_loop st p chunks = Some (Some l, st', cs') \<Longrightarrow> sum_list (map length cs') < sum_list (map length chunks)"
proof (induction st p chunks arbitrary: l st' cs' rule: read_loop.induct)
  case (1 st p_read chunks)
  show ?case
  proof (cases chunks)
    case Nil
    then show ?thesis using 1 by (subst (asm) read_loop.simps) (auto split: bind_splits if_splits)
  next
    case (Cons c rest)
    note step = "1.prems" [unfolded Cons read_loop.simps [of st p_read "c # rest"]]
    from step obtain st0 p0 where b: "(if AT_BUFFER_SIZE - p_read = 0
        then do { m \<leftarrow> wr (s_ATBuffer st) 0 0; Some (\<lparr>s_ATBuffer = m, s_ATBufferCur = 0\<rparr>, 0) }
        else Some (st, p_read)) = Some (st0, p0)"
      by (auto simp: Option.bind_eq_Some_conv)
    then have p0: "0 < AT_BUFFER_SIZE - p0"
      by (auto simp: AT_BUFFER_SIZE_def split: if_splits bind_splits)
    define more where "more = drop (AT_BUFFER_SIZE - p0) c"
    define cs1 where "cs1 = (if more = [] then rest else more # rest)"
    have ne: "c \<noteq> []" using step b by auto
    then have less: "sum_list (map length cs1) < sum_list (map length chunks)"
      using p0 Cons by (auto simp: cs1_def more_def)
    from step ne obtain m1 m2 st1 s eol where m: "put (s_ATBuffer st0) p0 (take (AT_BUFFER_SIZE - p0) c) = Some m1"
      "wr m1 (p0 + length (take (AT_BUFFER_SIZE - p0) c)) 0 = Some m2"
      "at_line (st0\<lparr>s_ATBuffer := m2\<rparr>) = Some (st1, s, eol)"
      "(case eol of
          None \<Rightarrow> read_loop st1 (p0 + length (take (AT_BUFFER_SIZE - p0) c)) cs1
        | Some e \<Rightarrow> do { (l, st2) \<leftarrow> take_line st1 s e; Some (Some l, st2, cs1) }) = Some (Some l, st', cs')"
      unfolding cs1_def more_def
      by (auto simp: b [simplified] Let_def Option.bind_eq_Some_conv simp del: length_take drop_eq_Nil)
    show ?thesis
    proof (cases eol)
      case None
      then have "sum_list (map length cs') < sum_list (map length cs1)"
        using "1.IH" [OF b refl Cons ne refl refl, folded more_def, OF cs1_def m(1,2,3) refl refl None] m(4) by simp
      then show ?thesis using less by simp
    next
      case (Some e)
      then show ?thesis using m(4) less by (auto split: bind_splits)
    qed
  qed
qed

lemma readline_progress:
  assumes "readline st chunks = Some (Some l, st', cs')"
  shows "sum_list (map length cs') < sum_list (map length chunks)
    \<or> (cs' = chunks \<and> length (s_ATBuffer st') - s_ATBufferCur st' < length (s_ATBuffer st) - s_ATBufferCur st)"
proof -
  obtain b where b: "rd (s_ATBuffer st) (s_ATBufferCur st) = Some b" using assms by (auto simp: readline_def split: bind_splits)
  show ?thesis
  proof (cases "b = 0")
    case True
    then show ?thesis using assms b by (auto simp: readline_def split: bind_splits dest: read_loop_reads)
  next
    case False
    with assms b obtain st1 s eol where a: "at_line st = Some (st1, s, eol)" by (auto simp: readline_def split: bind_splits)
    show ?thesis
    proof (cases eol)
      case None
      then show ?thesis using assms b False a by (auto simp: readline_def split: bind_splits dest: read_loop_reads)
    next
      case (Some e)
      with assms b False a have t: "take_line st1 s e = Some (l, st')" "cs' = chunks"
        by (auto simp: readline_def split: bind_splits)
      show ?thesis using take_line_cur [OF t(1)] at_line_cur [OF a] t(2) by auto
    qed
  qed
qed

section \<open>A command and its response\<close>

text \<open>The loop over the lines: \<open>ret\<close> still holds what \<open>select\<close> returned, 1, when the channel is closed.\<close>

function at_collect :: "at_buf \<Rightarrow> byte list list \<Rightarrow> nat \<Rightarrow> mem option \<Rightarrow> nat
    \<Rightarrow> (int \<times> mem option \<times> at_buf \<times> byte list list) option" where
  "at_collect st chunks rsp_len buf buf_len = do {
     (line, st', cs') \<leftarrow> readline st chunks;
     (case line of
        None \<Rightarrow> Some (1, buf, st', cs')
      | Some l \<Rightarrow>
          if strstr l (cs ''OK'') \<noteq> None then Some (int rsp_len, buf, st', cs')
          else if strstr l (cs ''ERROR'') \<noteq> None then Some (- 1, buf, st', cs')
          else (case buf of
                  None \<Rightarrow> at_collect st' cs' rsp_len None buf_len
                | Some m \<Rightarrow>
                    if buf_len = 0 then at_collect st' cs' rsp_len (Some m) buf_len
                    else if buf_len < rsp_len + length l then Some (- 1, buf, st', cs')
                    else do { m' \<leftarrow> put m rsp_len l; at_collect st' cs' (rsp_len + length l) (Some m') buf_len }))
   }"
  by pat_completeness auto
termination
  by (relation "measures [\<lambda>(st, cs, _). sum_list (map length cs),
      \<lambda>(st, _). length (s_ATBuffer st) - s_ATBufferCur st]")
    (auto dest: readline_progress)

declare at_collect.simps [simp del]

definition sendATCmd :: "byte list option \<Rightarrow> mem option \<Rightarrow> nat \<Rightarrow> int \<Rightarrow> at_fd
    \<Rightarrow> (int \<times> mem option \<times> at_fd) option" where
  "sendATCmd cmd buf buf_len wait s =
     (case cmd of
        None \<Rightarrow> Some (- 1, buf, s)
      | Some c \<Rightarrow>
          let (ret, s1) = at_write c s in
          if ret \<noteq> int (length c) then Some (- 1, buf, s1)
          else
            let (_, s2) = at_write [13] s1;
                (ready, sel', ws) = at_select (if wait \<le> 0 then 5 else wait) (f_sel s2) (f_wait s2);
                s3 = s2\<lparr>f_sel := sel', f_wait := ws\<rparr>
            in if \<not> ready then Some (- 1, buf, s3)
               else do {
                 (ret, buf', st', cs') \<leftarrow> at_collect (f_at s3) (f_in s3) 0 buf buf_len;
                 Some (ret, buf', s3\<lparr>f_at := st', f_in := cs'\<rparr>)
               })"

section \<open>The SIM test\<close>

text \<open>\<open>free\<close> of a cursor that a token has moved is undefined; after the last token the cursor is null.\<close>

definition free_cursor :: "cursor \<Rightarrow> unit option" where
  "free_cursor c = (if c = None then Some () else None)"

text \<open>\<open>tmp\<close> is the array on the stack, as it was found; the response in it gets no NUL.\<close>

definition sim_state :: "mem \<Rightarrow> int option" where
  "sim_state tmp = do {
     t \<leftarrow> cstr_at tmp 0;
     Some (case strstr t (cs ''EUICC'') of
             None \<Rightarrow> - 1
           | Some p \<Rightarrow>
               (let (_, cur) = at_tok_start (Some p); (_, v, _) = at_tok_nextint cur
                in (case v of None \<Rightarrow> - 1 | Some i \<Rightarrow> i)))
   }"

definition TestCheckSIM :: "'p prop_service \<Rightarrow> 'p sys \<Rightarrow> byte list \<Rightarrow> mem \<Rightarrow> at_fd \<Rightarrow> (int \<times> byte list option \<times> at_fd) option" where
  "TestCheckSIM pf y req tmp s =
     (let (_, c1) = at_tok_flag_start (Some req) 61;
          (_, v, c2) = at_tok_nextint c1;
          simNum = (case v of None \<Rightarrow> - 1 | Some i \<Rightarrow> i)
      in do {
        _ \<leftarrow> free_cursor c2;
        (if simNum < 1 \<or> 2 < simNum then Some (- 1, None, s)
         else do {
           (ret, buf, s') \<leftarrow> sendATCmd (Some (cs ''AT+EUICC?'')) (Some tmp) 512 0 s;
           simState \<leftarrow> (if ret < 0 then Some (- 1) else (case buf of None \<Rightarrow> Some (- 1) | Some m \<Rightarrow> sim_state m));
           Some (if simState = 0 then 0 else - 1, Some (at_channel pf y simNum), s')
         })
      })"

section \<open>The call test\<close>

text \<open>What the test adds to the channel: the commands for the audio (in a build with \<open>AUDIO_WHALE_HAL\<close>,
  where the daemon has given the function), whether the reader of unsolicited lines was started, and
  the seconds since the registration started, one for each look at the clock (an exhausted list: the time is over).\<close>

record call_io =
  c_fd :: at_fd
  c_audio :: "byte list list"
  c_threadStarted :: bool
  c_elapsed :: "int list"

definition call_send :: "byte list \<Rightarrow> mem option \<Rightarrow> nat \<Rightarrow> int \<Rightarrow> call_io \<Rightarrow> (int \<times> mem option \<times> call_io) option" where
  "call_send cmd buf n wait s = do {
     (r, b, fd) \<leftarrow> sendATCmd (Some cmd) buf n wait (c_fd s);
     Some (r, b, s\<lparr>c_fd := fd\<rparr>)
   }"

definition call_cmd :: "byte list \<Rightarrow> int \<Rightarrow> call_io \<Rightarrow> (int \<times> call_io) option" where
  "call_cmd cmd wait s = do { (r, _, s') \<leftarrow> call_send cmd None 0 wait s; Some (r, s') }"

definition to_audio :: "bool \<Rightarrow> byte list \<Rightarrow> call_io \<Rightarrow> call_io" where
  "to_audio g_func c s = (if g_func then s\<lparr>c_audio := c_audio s @ [c @ [0]]\<rparr> else s)"

text \<open>Reading the answer to \<open>AT+CREG?\<close>: the registration mode, kept when there is none, and whether to stop.\<close>

definition creg_mode :: "mem \<Rightarrow> int \<Rightarrow> (int \<times> bool) option" where
  "creg_mode tmp mode = do {
     t \<leftarrow> cstr_at tmp 0;
     Some (let (_, c1) = at_tok_start (strstr t (cs ''CREG''));
               (_, v, c2) = at_tok_nextint c1;
               mode1 = (case v of None \<Rightarrow> mode | Some i \<Rightarrow> i)
           in if mode1 = 2
              then let (_, v2, _) = at_tok_nextint c2; mode2 = (case v2 of None \<Rightarrow> mode1 | Some i \<Rightarrow> i)
                   in (mode2, mode2 = 1 \<or> mode2 = 8 \<or> mode2 = 5)
              else (mode1, False))
   }"

definition TEL_TIMEOUT :: int where "TEL_TIMEOUT = 100"

fun creg_loop :: "int list \<Rightarrow> mem \<Rightarrow> int \<Rightarrow> call_io \<Rightarrow> (bool \<times> call_io) option" where
  "creg_loop [] tmp mode s = do {
     (_, b, s') \<leftarrow> call_send (cs ''AT+CREG?'') (Some tmp) 512 0 s;
     m \<leftarrow> b;
     (_, stop) \<leftarrow> creg_mode m mode;
     Some (stop, s'\<lparr>c_elapsed := []\<rparr>)
   }"
| "creg_loop (t # ts) tmp mode s = do {
     (_, b, s') \<leftarrow> call_send (cs ''AT+CREG?'') (Some tmp) 512 0 s;
     m \<leftarrow> b;
     (mode', stop) \<leftarrow> creg_mode m mode;
     (if stop then Some (True, s'\<lparr>c_elapsed := t # ts\<rparr>)
      else if TEL_TIMEOUT < t then Some (False, s'\<lparr>c_elapsed := ts\<rparr>)
      else creg_loop ts m mode' s')
   }"

definition call_hangup :: "bool \<Rightarrow> bool \<Rightarrow> call_io \<Rightarrow> (int \<times> call_io) option" where
  "call_hangup whale g_func s = do {
     (_, s1) \<leftarrow> call_cmd (cs ''ATH'') 0
        (if whale then to_audio g_func (cs ''AT+AUDIOPIPE=set_mode=0'') s else s);
     (_, s2) \<leftarrow> call_cmd (cs ''AT'') 0 s1;
     Some (0, s2)
   }"

text \<open>\<open>isLteOnly\<close> gets the number of the SIM, 1 or 2, where it expects the phone's, 0 or 1.\<close>

definition call_dial :: "'p prop_service \<Rightarrow> 'p sys \<Rightarrow> bool \<Rightarrow> bool \<Rightarrow> bool \<Rightarrow> int \<Rightarrow> byte list \<Rightarrow> mem \<Rightarrow> call_io
    \<Rightarrow> (int \<times> call_io) option" where
  "call_dial pf y whale g_func thread_ok simNum cmd tmp s = do {
     (_, s1) \<leftarrow> call_cmd (cs ''AT+SFUN=5'') 0 s;
     (_, s2) \<leftarrow> call_cmd (if isLteOnly pf y simNum then cs ''AT+SPTESTMODEM=21,254'' else cs ''AT+SPTESTMODEM=15,10'') 0 s1;
     (_, s3) \<leftarrow> call_cmd (cs ''AT+SFUN=4'') 100 s2;
     (let s4 = (if c_threadStarted s3 then s3 else s3\<lparr>c_threadStarted := thread_ok\<rparr>) in do {
        (registered, s5) \<leftarrow> creg_loop (c_elapsed s4) tmp (- 1) s4;
        (if \<not> registered then Some (- 1, s5)
         else do {
           (ret, s6) \<leftarrow> call_cmd cmd 0 s5;
           (if whale
            then Some (ret, to_audio g_func (cs ''AT+AUDIOPIPE=test_out_stream_route=2;set_mode=2'') s6)
            else do { (_, s7) \<leftarrow> call_cmd (cs ''AT+SSAM=1'') 0 s6; Some (ret, s7) })
         })
      })
   }"

definition TestMakeCall :: "'p prop_service \<Rightarrow> 'p sys \<Rightarrow> bool \<Rightarrow> bool \<Rightarrow> bool \<Rightarrow> byte list \<Rightarrow> mem \<Rightarrow> call_io
    \<Rightarrow> (int \<times> byte list option \<times> call_io) option" where
  "TestMakeCall pf y whale g_func thread_ok req tmp s =
     (let (_, c0) = at_tok_flag_start (Some req) 61;
          (_, v1, c1) = at_tok_nextint c0;
          (_, v2, c2) = at_tok_nextint c1;
          (_, number, c3) = at_tok_nextstr c2;
          operate = (case v1 of None \<Rightarrow> - 1 | Some i \<Rightarrow> i);
          simNum = (case v2 of None \<Rightarrow> - 1 | Some i \<Rightarrow> i)
      in
        if simNum < 1 \<or> 2 < simNum \<or> operate < 0 \<or> 1 < operate
        then do { _ \<leftarrow> free_cursor c3; Some (- 1, None, s) }
        else
          let path = at_channel pf y simNum in
          if operate = 0
          then do { (r, s') \<leftarrow> call_hangup whale g_func s; _ \<leftarrow> free_cursor c3; Some (r, Some path, s') }
          else do {
            n \<leftarrow> number;
            (if n = cs ''112'' \<or> n = cs ''10086''
             then do {
               _ \<leftarrow> free_cursor c3;
               (r, s') \<leftarrow> call_dial pf y whale g_func thread_ok simNum
                  (if n = cs ''112'' then cs ''ATD112@1,#;'' else cs ''ATD10086;'') tmp s;
               Some (r, Some path, s')
             }
             else do { _ \<leftarrow> free_cursor c3; Some (- 1, Some path, s) })
          })"


section \<open>A whole response\<close>

text \<open>The lines before the one with the \<open>OK\<close>: none of them ends the response.\<close>

definition plain_line :: "byte list \<Rightarrow> bool" where
  "plain_line l \<longleftrightarrow> strstr l (cs ''OK'') = None \<and> strstr l (cs ''ERROR'') = None"

fun response :: "byte list \<Rightarrow> byte list list \<Rightarrow> bool" where
  "response t [] \<longleftrightarrow> (\<exists>l rest. first_line t l rest \<and> strstr l (cs ''OK'') \<noteq> None)"
| "response t (l # ls) \<longleftrightarrow> (\<exists>rest. first_line t l rest \<and> plain_line l \<and> response rest ls)"

lemma first_line_shorter: "first_line t l rest \<Longrightarrow> length rest < length t"
proof -
  assume "first_line t l rest"
  then obtain e where "dropWhile is_eol t = l @ e # rest" by (auto simp: first_line_def)
  then have "length (l @ e # rest) \<le> length t" by (metis length_dropWhile_le)
  then show ?thesis by simp
qed

lemma at_collect_response:
  assumes "holds st p s" and "response (s @ concat chunks) ls"
    and "\<forall>c \<in> set chunks. c \<noteq> [] \<and> 0 \<notin> set c" and "length s + length (concat chunks) < AT_BUFFER_SIZE"
    and "0 < buf_len" and "length (bs @ concat ls) \<le> buf_len" and "buf_len \<le> length (bs @ post)"
  shows "\<exists>st' cs'. at_collect st chunks (length bs) (Some (bs @ post)) buf_len
    = Some (int (length (bs @ concat ls)), Some (bs @ concat ls @ drop (length (concat ls)) post), st', cs')"
  using assms
proof (induction ls arbitrary: st p s chunks bs post)
  case Nil
  then obtain l rest where l: "first_line (s @ concat chunks) l rest" "strstr l (cs ''OK'') \<noteq> None" by auto
  obtain st' p' r cs' where "readline st chunks = Some (Some l, st', cs')"
    using readline_line [OF Nil.prems(1) l(1) Nil.prems(3,4)] by blast
  then show ?case using l(2) by (subst at_collect.simps) simp
next
  case (Cons l ls)
  then obtain rest where l: "first_line (s @ concat chunks) l rest" "plain_line l" "response rest ls" by auto
  obtain st' p' r cs' where r: "readline st chunks = Some (Some l, st', cs')" "holds st' p' r" "r @ concat cs' = rest"
    "suffix cs' chunks"
    using readline_line [OF Cons.prems(1) l(1) Cons.prems(3,4)] by blast
  have cs': "\<forall>c \<in> set cs'. c \<noteq> [] \<and> 0 \<notin> set c" using Cons.prems(3) set_mono_suffix [OF r(4)] by blast
  have len: "length r + length (concat cs') < AT_BUFFER_SIZE"
    using first_line_shorter [OF l(1)] r(3) Cons.prems(4) by (metis length_append less_trans)
  have w: "put (bs @ post) (length bs) l = Some (bs @ l @ drop (length l) post)"
    using Cons.prems(6,7) by (simp add: put_def)
  have "\<exists>st'' cs''. at_collect st' cs' (length (bs @ l)) (Some ((bs @ l) @ drop (length l) post)) buf_len
    = Some (int (length ((bs @ l) @ concat ls)), Some ((bs @ l) @ concat ls @ drop (length (concat ls)) (drop (length l) post)), st'', cs'')"
    by (rule Cons.IH [OF r(2) _ cs' len Cons.prems(5)]) (use l(3) r(3) Cons.prems(6,7) in auto)
  moreover have "at_collect st chunks (length bs) (Some (bs @ post)) buf_len
    = at_collect st' cs' (length (bs @ l)) (Some ((bs @ l) @ drop (length l) post)) buf_len"
    using r(1) l(2) w Cons.prems(5,6) by (subst at_collect.simps) (simp add: plain_line_def)
  ultimately show ?case by (simp add: add.commute)
qed

lemma at_select_ready: "at_select wait (replicate n SelIntr @ SelReady # xs) ws = (True, xs, ws @ replicate (Suc n) wait)"
  by (induction n arbitrary: ws) (simp_all add: replicate_append_same)

lemma sendATCmd_ok:
  assumes "holds (f_at s) p []" and "response (concat (f_in s)) ls"
    and "\<forall>c \<in> set (f_in s). c \<noteq> [] \<and> 0 \<notin> set c" and "length (concat (f_in s)) < AT_BUFFER_SIZE"
    and "length (concat ls) \<le> buf_len" and "0 < buf_len" and "buf_len \<le> length m"
    and "f_wrets s = []" and "f_sel s = replicate n SelIntr @ SelReady # xs"
  shows "\<exists>s'. sendATCmd (Some c) (Some m) buf_len wait s
      = Some (int (length (concat ls)), Some (concat ls @ drop (length (concat ls)) m), s')
    \<and> f_out s' = f_out s @ [c, [13]] \<and> f_wait s' = f_wait s @ replicate (Suc n) (if wait \<le> 0 then 5 else wait)"
proof -
  obtain st' cs' where "at_collect (f_at s) (f_in s) 0 (Some m) buf_len
      = Some (int (length (concat ls)), Some (concat ls @ drop (length (concat ls)) m), st', cs')"
    using at_collect_response [OF assms(1) _ assms(3), of ls buf_len "[]" m] assms(2,4-7) by auto
  then show ?thesis using assms(8,9) by (simp add: sendATCmd_def at_write_def Let_def at_select_ready)
qed

section \<open>Properties\<close>

text \<open>C24 (a command and its response): \<open>sendATCmd\<close> sends the command and a carriage return, waits through
  any number of interrupted \<open>select\<close>s, and collects the lines up to the one with \<open>OK\<close>, joined without
  newlines, at the start of the caller's buffer; it returns their length. The bytes behind them stay as they
  were: the text gets no NUL.\<close>

theorem sendATCmd_response:
  assumes "holds (f_at s) p []" and "response (concat (f_in s)) ls"
    and "\<forall>c \<in> set (f_in s). c \<noteq> [] \<and> 0 \<notin> set c" and "length (concat (f_in s)) < AT_BUFFER_SIZE"
    and "length (concat ls) \<le> buf_len" and "0 < buf_len" and "buf_len \<le> length m"
    and "f_wrets s = []" and "f_sel s = replicate n SelIntr @ SelReady # xs"
  shows "\<exists>s'. sendATCmd (Some c) (Some m) buf_len wait s
      = Some (int (length (concat ls)), Some (concat ls @ drop (length (concat ls)) m), s')
    \<and> f_out s' = f_out s @ [c, [13]] \<and> f_wait s' = f_wait s @ replicate (Suc n) (if wait \<le> 0 then 5 else wait)"
  using sendATCmd_ok [OF assms] .

definition fd_new :: "byte list list \<Rightarrow> sel list \<Rightarrow> at_fd" where
  "fd_new chunks sel = \<lparr>f_at = at_buf_new, f_in = chunks, f_wrets = [], f_out = [], f_sel = sel, f_wait = []\<rparr>"

lemma euicc_response: "response (10 # cs ''+EUICC: 0'' @ [13, 10] @ cs ''OK'' @ [13, 10]) [cs ''+EUICC: 0'']"
proof -
  have "first_line (10 # cs ''+EUICC: 0'' @ [13, 10] @ cs ''OK'' @ [13, 10]) (cs ''+EUICC: 0'') (10 # cs ''OK'' @ [13, 10])"
    "first_line (10 # cs ''OK'' @ [13, 10]) (cs ''OK'') [10]"
    by (auto simp: first_line_def is_eol_def)
  moreover have "plain_line (cs ''+EUICC: 0'')" "strstr (cs ''OK'') (cs ''OK'') \<noteq> None"
    by (simp_all add: plain_line_def)
  ultimately show ?thesis unfolding response.simps by blast
qed

theorem sendATCmd_response_witness:
  "\<exists>s'. sendATCmd (Some (cs ''AT'')) (Some (replicate 16 7)) 16 0
       (fd_new [10 # cs ''+EUICC'', cs '': 0'' @ [13, 10] @ cs ''OK'' @ [13, 10]] [SelIntr, SelReady])
     = Some (9, Some (cs ''+EUICC: 0'' @ [7, 7, 7, 7, 7, 7, 7]), s') \<and> f_out s' = [cs ''AT'', [13]]"
proof -
  let ?s = "fd_new [10 # cs ''+EUICC'', cs '': 0'' @ [13, 10] @ cs ''OK'' @ [13, 10]] [SelIntr, SelReady]"
  have h: "holds (f_at ?s) 0 []" and r: "response (concat (f_in ?s)) [cs ''+EUICC: 0'']"
    using at_buf_new_holds euicc_response by (simp_all add: fd_new_def del: response.simps)
  have sel: "f_sel ?s = replicate 1 SelIntr @ SelReady # []" by (simp add: fd_new_def)
  have "drop 9 (replicate 16 (7 :: byte)) = [7, 7, 7, 7, 7, 7, 7]" by (simp add: numeral_eq_Suc)
  then show ?thesis
    using sendATCmd_response [OF h r _ _ _ _ _ _ sel, of 16 "replicate 16 7" "cs ''AT''" 0]
    by (auto simp: AT_BUFFER_SIZE_def fd_new_def)
qed

text \<open>(the SIM test): asked for SIM 1 or 2, the test sends \<open>AT+EUICC?\<close> to that SIM's channel and passes exactly
  when the state in the modem's answer is 0, provided a NUL happens to be in the array behind the answer.\<close>

theorem sim_test_result:
  assumes "holds (f_at s) p []" and "response (concat (f_in s)) [cs ''+EUICC: '' @ show_int v]"
    and "\<forall>c \<in> set (f_in s). c \<noteq> [] \<and> 0 \<notin> set c" and "length (concat (f_in s)) < AT_BUFFER_SIZE"
    and "f_wrets s = []" and "f_sel s = replicate n SelIntr @ SelReady # xs"
    and "length tmp = 512" and "8 + length (show_int v) < 512" and "tmp ! (8 + length (show_int v)) = 0"
    and "k = 1 \<or> k = 2" and "- 2147483648 \<le> v" "v \<le> 2147483647"
  shows "\<exists>s'. TestCheckSIM pf y (cs ''AT+SIMTEST='' @ show_int k) tmp s
      = Some (if v = 0 then 0 else - 1, Some (at_channel pf y k), s')
    \<and> f_out s' = f_out s @ [cs ''AT+EUICC?'', [13]]"
proof -
  let ?line = "cs ''+EUICC: '' @ show_int v"
  have k: "- 2147483648 \<le> k" "k \<le> 2147483647" using assms(10) by auto
  have "strchr (cs ''AT+SIMTEST='' @ show_int k) 61 = Some (61 # show_int k)" by simp
  then have c1: "at_tok_flag_start (Some (cs ''AT+SIMTEST='' @ show_int k)) 61 = (0, Some (show_int k))"
    by (simp add: at_tok_flag_start_def)
  have c2: "at_tok_nextint (Some (show_int k)) = (0, Some k, None)"
    using nextint_ok [OF k, of None] by (simp add: behind_def)
  obtain s' where s': "sendATCmd (Some (cs ''AT+EUICC?'')) (Some tmp) 512 0 s
      = Some (int (length ?line), Some (?line @ drop (length ?line) tmp), s')" "f_out s' = f_out s @ [cs ''AT+EUICC?'', [13]]"
    using sendATCmd_ok [OF assms(1,2,3,4) _ _ _ assms(5,6), of 512 tmp "cs ''AT+EUICC?''" 0] assms(7,8) by auto
  have "0 \<notin> set ?line" using show_int_set [of 0 v] by auto
  moreover have len: "length ?line = 8 + length (show_int v)" by simp
  have "drop (length ?line) tmp = 0 # drop (Suc (length ?line)) tmp"
    unfolding len using assms(7,8,9) Cons_nth_drop_Suc [of "8 + length (show_int v)" tmp] by (simp only:)
  ultimately have t: "cstr_at (?line @ drop (length ?line) tmp) 0 = Some ?line"
    using cstr_at_nul [of ?line 0 "[]"] by simp
  have "strstr ?line (cs ''EUICC'') = Some (cs ''EUICC: '' @ show_int v)" by simp
  moreover have "at_tok_start (Some (cs ''EUICC: '' @ show_int v)) = (0, Some (32 # show_int v))"
    by (simp add: at_tok_start_def)
  moreover have "at_tok_nextint (Some (32 # show_int v)) = (0, Some v, None)"
    using nextint_ok [OF assms(11,12), of None] by (simp add: behind_def at_tok_nextint_def at_tok_nextint_base_def nextTok_space)
  ultimately have "sim_state (?line @ drop (length ?line) tmp) = Some v"
    using t by (simp add: sim_state_def)
  then show ?thesis
    using c1 c2 s' assms(10) by (auto simp: TestCheckSIM_def free_cursor_def)
qed

theorem sim_test_result_witness:
  "\<exists>s'. TestCheckSIM sample_prop_service sample_sys (cs ''AT+SIMTEST=1'') (replicate 512 0)
       (fd_new [10 # cs ''+EUICC'', cs '': 0'' @ [13, 10] @ cs ''OK'' @ [13, 10]] [SelReady])
     = Some (0, Some (at_channel sample_prop_service sample_sys 1), s') \<and> f_out s' = [cs ''AT+EUICC?'', [13]]"
proof -
  let ?s = "fd_new [10 # cs ''+EUICC'', cs '': 0'' @ [13, 10] @ cs ''OK'' @ [13, 10]] [SelReady]"
  have i: "show_int 0 = cs ''0''" "show_int 1 = cs ''1''" by (simp_all add: show_int_def show_nat.simps)
  have h: "holds (f_at ?s) 0 []" and r: "response (concat (f_in ?s)) [cs ''+EUICC: '' @ show_int 0]"
    using at_buf_new_holds euicc_response by (simp_all add: fd_new_def i del: response.simps)
  have sel: "f_sel ?s = replicate 0 SelIntr @ SelReady # []" by (simp add: fd_new_def)
  show ?thesis
    using sim_test_result [OF h r _ _ _ sel, of "replicate 512 0" 1 sample_prop_service sample_sys]
    by (auto simp: AT_BUFFER_SIZE_def fd_new_def i nth_replicate)
qed

end
