(* ===== verification/PQXml.thy ===== *)
theory PQXml
  imports CLib Files "HOL-Library.AList"
begin

text \<open>
  What the picture-quality module (\<open>modules/PQTune\<close>) is made of: the block of tuning parameters as the
  bytes the structures of \<open>PQTuningParmDefine.h\<close> occupy, integer fields in it, the XML documents its
  parsers walk over, and the recurring shapes of those walks (\<open>PQParsers/\<close>). The functions of libxml2
  are fields of a record; what the code relies on is \<open>xml_laws\<close>.
\<close>

named_theorems pq_simps \<open>evaluation of the parsers' walks\<close>

section \<open>Fields of the parameter block\<close>

text \<open>The integer types; \<open>char\<close> is unsigned on the platform. A field is its type and offset, or \<open>None\<close>
  for an element behind the end of its array.\<close>

datatype cty = U8 | U16 | S16 | U32

fun cty_size :: "cty \<Rightarrow> nat" where
  "cty_size U8 = 1" | "cty_size U16 = 2" | "cty_size S16 = 2" | "cty_size U32 = 4"

type_synonym fld = "(cty \<times> nat) option"
type_synonym assign = "fld \<times> 32 word"

definition elem :: "nat \<Rightarrow> nat \<Rightarrow> nat \<Rightarrow> cty \<Rightarrow> nat \<Rightarrow> fld" where
  "elem n i stride ty base = (if i < n then Some (ty, base + i * stride) else None)"

text \<open>Storing an \<open>unsigned long\<close> into a field, and the value \<open>%d\<close> prints of a field.\<close>

definition field_bytes :: "cty \<Rightarrow> 32 word \<Rightarrow> byte list" where
  "field_bytes ty w = take (cty_size ty) (le32 (unat w))"

definition st :: "cty \<Rightarrow> nat \<Rightarrow> 32 word \<Rightarrow> mem \<Rightarrow> mem option" where
  "st ty off w m = put m off (field_bytes ty w)"

definition ld :: "cty \<Rightarrow> nat \<Rightarrow> mem \<Rightarrow> int option" where
  "ld ty off m = do {
     bs \<leftarrow> get m off (cty_size ty);
     (let n = int (de32 (bs @ replicate (4 - cty_size ty) 0)) in
      Some (case ty of
              S16 \<Rightarrow> if 32768 \<le> n then n - 65536 else n
            | U32 \<Rightarrow> if 2147483648 \<le> n then n - 4294967296 else n
            | _ \<Rightarrow> n))
   }"

text \<open>\<open>snprintf(numStr, size, "%d", field)\<close>.\<close>

definition show_fld :: "nat \<Rightarrow> fld \<Rightarrow> mem \<Rightarrow> byte list option" where
  "show_fld sz f m = do { (ty, off) \<leftarrow> f; v \<leftarrow> ld ty off m; Some (take (sz - 1) (show_int v)) }"

text \<open>A sequence of assignments; outside of an array they are undefined.\<close>

fun assigns :: "assign list \<Rightarrow> mem \<Rightarrow> mem option" where
  "assigns [] m = Some m"
| "assigns ((f, w) # as) m = do { (ty, off) \<leftarrow> f; m' \<leftarrow> st ty off w m; assigns as m' }"

section \<open>Documents\<close>

text \<open>A node: name, attributes and children; a document is its root. The siblings from a node on are a list.\<close>

datatype xnode = XNode (x_name: "byte list") (x_props: "(byte list \<times> byte list) list") (x_kids: "xnode list")

record 'f libxml =
  xmlHasProp :: "xnode \<Rightarrow> byte list \<Rightarrow> bool"
  xmlGetProp :: "xnode \<Rightarrow> byte list \<Rightarrow> byte list"
  xmlSetProp :: "xnode \<Rightarrow> byte list \<Rightarrow> byte list \<Rightarrow> xnode"
  xmlNewProp :: "xnode \<Rightarrow> byte list \<Rightarrow> byte list \<Rightarrow> xnode"
  xmlReadFile :: "byte list \<Rightarrow> 'f \<Rightarrow> xnode option"
  xmlSaveFormatFileEnc :: "byte list \<Rightarrow> xnode \<Rightarrow> 'f \<Rightarrow> int \<times> 'f"

text \<open>Documented behaviour: attributes are looked up and replaced by name, new ones come last; a
  document that was saved is what the file then holds, a failing save (-1) changes nothing.\<close>

definition xml_laws :: "'f libxml \<Rightarrow> bool" where
  "xml_laws L \<longleftrightarrow>
     (\<forall>n k. xmlHasProp L n k \<longleftrightarrow> k \<in> fst ` set (x_props n)) \<and>
     (\<forall>n k v. map_of (x_props n) k = Some v \<longrightarrow> xmlGetProp L n k = v) \<and>
     (\<forall>n k v. k \<in> fst ` set (x_props n) \<longrightarrow>
        xmlSetProp L n k v = XNode (x_name n) (AList.update k v (x_props n)) (x_kids n)) \<and>
     (\<forall>n k v. xmlNewProp L n k v = XNode (x_name n) (x_props n @ [(k, v)]) (x_kids n)) \<and>
     (\<forall>p d s r s'. xmlSaveFormatFileEnc L p d s = (r, s') \<longrightarrow>
        (if r = - 1 then s' = s
         else xmlReadFile L p s' = Some d \<and> (\<forall>q. q \<noteq> p \<longrightarrow> xmlReadFile L q s' = xmlReadFile L q s)))"

text \<open>\<open>strtoul((char * )xmlGetProp(node, name), NULL, 0)\<close>.\<close>

definition prop_word :: "'f libxml \<Rightarrow> xnode \<Rightarrow> byte list \<Rightarrow> 32 word" where
  "prop_word L n k = fst (strtoul 0 (xmlGetProp L n k))"

text \<open>\<open>FindNode\<close>: the siblings from the first node of that name on.\<close>

definition FindNode :: "xnode list \<Rightarrow> byte list \<Rightarrow> xnode list" where
  "FindNode ns name = dropWhile (\<lambda>n. x_name n \<noteq> name) ns"

section \<open>The shapes of the walks\<close>

text \<open>The loop over \<open>attrPtr\<close> with an else-if chain over attribute names.\<close>

definition parse_attrs :: "'f libxml \<Rightarrow> (byte list \<times> fld) list \<Rightarrow> xnode \<Rightarrow> assign list" where
  "parse_attrs L tbl n = List.map_filter (\<lambda>(k, _). map_option (\<lambda>f. (f, prop_word L n k)) (map_of tbl k)) (x_props n)"

fun set_attrs :: "'f libxml \<Rightarrow> (byte list \<times> fld) list \<Rightarrow> mem \<Rightarrow> byte list list \<Rightarrow> xnode \<Rightarrow> xnode option" where
  "set_attrs L tbl m [] n = Some n"
| "set_attrs L tbl m (k # ks) n =
     (case map_of tbl k of
        None \<Rightarrow> set_attrs L tbl m ks n
      | Some f \<Rightarrow> do { s \<leftarrow> show_fld 10 f m; set_attrs L tbl m ks (xmlSetProp L n k s) })"

definition update_attrs :: "'f libxml \<Rightarrow> (byte list \<times> fld) list \<Rightarrow> mem \<Rightarrow> xnode \<Rightarrow> xnode option" where
  "update_attrs L tbl m n = set_attrs L tbl m (map fst (x_props n)) n"

text \<open>The loop over items with an index: the table of the fields depends on it.\<close>

fun parse_items :: "'f libxml \<Rightarrow> (nat \<Rightarrow> (byte list \<times> fld) list) \<Rightarrow> nat \<Rightarrow> xnode list \<Rightarrow> assign list" where
  "parse_items L tbl i [] = []"
| "parse_items L tbl i (n # ns) = parse_attrs L (tbl i) n @ parse_items L tbl (Suc i) ns"

fun update_items :: "'f libxml \<Rightarrow> (nat \<Rightarrow> (byte list \<times> fld) list) \<Rightarrow> mem \<Rightarrow> nat \<Rightarrow> xnode list \<Rightarrow> xnode list option" where
  "update_items L tbl m i [] = Some []"
| "update_items L tbl m i (n # ns) = do {
     n' \<leftarrow> update_attrs L (tbl i) m n;
     ns' \<leftarrow> update_items L tbl m (Suc i) ns;
     Some (n' # ns')
   }"

text \<open>A loop over nodes, counting them, and the two kinds of nodes in it: those with a \<open>mode\<close> attribute, whose
  value and position select the index for the work on the children, and those told apart by name.\<close>

fun parse_each :: "(nat \<Rightarrow> xnode \<Rightarrow> assign list option) \<Rightarrow> nat \<Rightarrow> xnode list \<Rightarrow> assign list option" where
  "parse_each f i [] = Some []"
| "parse_each f i (n # ns) = do { as \<leftarrow> f i n; bs \<leftarrow> parse_each f (Suc i) ns; Some (as @ bs) }"

fun update_each :: "(nat \<Rightarrow> xnode \<Rightarrow> xnode option) \<Rightarrow> nat \<Rightarrow> xnode list \<Rightarrow> xnode list option" where
  "update_each f i [] = Some []"
| "update_each f i (n # ns) = do { n' \<leftarrow> f i n; ns' \<leftarrow> update_each f (Suc i) ns; Some (n' # ns') }"

definition with_kids :: "xnode \<Rightarrow> xnode list \<Rightarrow> xnode" where
  "with_kids n ks = XNode (x_name n) (x_props n) ks"

definition parse_mode :: "'f libxml \<Rightarrow> (byte list \<Rightarrow> nat \<Rightarrow> nat option) \<Rightarrow> (nat \<Rightarrow> xnode list \<Rightarrow> assign list option)
    \<Rightarrow> nat \<Rightarrow> xnode \<Rightarrow> assign list option" where
  "parse_mode L sel f i n =
     (if xmlHasProp L n (cs ''mode'')
      then case sel (xmlGetProp L n (cs ''mode'')) i of None \<Rightarrow> Some [] | Some k \<Rightarrow> f k (x_kids n)
      else Some [])"

definition update_mode :: "'f libxml \<Rightarrow> (byte list \<Rightarrow> nat \<Rightarrow> nat option) \<Rightarrow> (nat \<Rightarrow> xnode list \<Rightarrow> xnode list option)
    \<Rightarrow> nat \<Rightarrow> xnode \<Rightarrow> xnode option" where
  "update_mode L sel f i n =
     (if xmlHasProp L n (cs ''mode'')
      then case sel (xmlGetProp L n (cs ''mode'')) i of
          None \<Rightarrow> Some n
        | Some k \<Rightarrow> map_option (with_kids n) (f k (x_kids n))
      else Some n)"

definition parse_named :: "(byte list \<Rightarrow> (xnode list \<Rightarrow> assign list option) option) \<Rightarrow> nat \<Rightarrow> xnode \<Rightarrow> assign list option" where
  "parse_named f i n = (case f (x_name n) of None \<Rightarrow> Some [] | Some g \<Rightarrow> g (x_kids n))"

definition update_named :: "(byte list \<Rightarrow> (xnode list \<Rightarrow> xnode list option) option) \<Rightarrow> nat \<Rightarrow> xnode \<Rightarrow> xnode option" where
  "update_named f i n =
     (case f (x_name n) of None \<Rightarrow> Some n | Some g \<Rightarrow> map_option (with_kids n) (g (x_kids n)))"

text \<open>The macros \<open>PARSE_...(X)\<close> and \<open>UPDATE_...(X)\<close> in a row: each looks for its attribute at \<open>propNode\<close> and, if
  it is there, uses it and goes to the next node. \<open>xmlHasProp\<close> of a null node is null.\<close>

fun parse_chain :: "'f libxml \<Rightarrow> (byte list \<times> fld) list \<Rightarrow> xnode list \<Rightarrow> assign list \<times> xnode list" where
  "parse_chain L [] ns = ([], ns)"
| "parse_chain L ((k, f) # tbl) ns =
     (case ns of
        [] \<Rightarrow> parse_chain L tbl []
      | n # rest \<Rightarrow>
          if xmlHasProp L n k
          then let (as, r) = parse_chain L tbl rest in ((f, prop_word L n k) # as, r)
          else parse_chain L tbl ns)"

fun update_chain :: "'f libxml \<Rightarrow> mem \<Rightarrow> (byte list \<times> fld) list \<Rightarrow> xnode list \<Rightarrow> (xnode list \<times> xnode list) option" where
  "update_chain L m [] ns = Some ([], ns)"
| "update_chain L m ((k, f) # tbl) ns =
     (case ns of
        [] \<Rightarrow> update_chain L m tbl []
      | n # rest \<Rightarrow>
          if xmlHasProp L n k
          then do {
            s \<leftarrow> show_fld 10 f m;
            (ds, r) \<leftarrow> update_chain L m tbl rest;
            Some (xmlSetProp L n k s # ds, r)
          }
          else update_chain L m tbl ns)"

definition chain_all :: "'f libxml \<Rightarrow> mem \<Rightarrow> (byte list \<times> fld) list \<Rightarrow> xnode list \<Rightarrow> xnode list option" where
  "chain_all L m tbl ns = map_option (\<lambda>(ds, r). ds @ r) (update_chain L m tbl ns)"

text \<open>The loop over the nodes named \<open>enhance\<close>: its test looks at the name of the next node also when there
  is none.\<close>

fun parse_enhance :: "'f libxml \<Rightarrow> (byte list \<times> fld) list \<Rightarrow> xnode list \<Rightarrow> assign list option" where
  "parse_enhance L tbl [] = None"
| "parse_enhance L tbl (n # ns) =
     (if x_name n = cs ''enhance''
      then do {
        as \<leftarrow> parse_enhance L tbl ns;
        Some (case List.find (\<lambda>(k, f). xmlHasProp L n k) tbl of
                None \<Rightarrow> as
              | Some (k, f) \<Rightarrow> (f, prop_word L n k) # as)
      }
      else Some [])"

fun update_enhance :: "'f libxml \<Rightarrow> fld \<Rightarrow> mem \<Rightarrow> xnode list \<Rightarrow> xnode list option" where
  "update_enhance L f m [] = None"
| "update_enhance L f m (n # ns) =
     (if x_name n = cs ''enhance''
      then do {
        n' \<leftarrow> (if xmlHasProp L n (cs ''version'')
               then do { s \<leftarrow> show_fld 12 f m; Some (xmlSetProp L n (cs ''version'') s) }
               else Some n);
        ns' \<leftarrow> update_enhance L f m ns;
        Some (n' # ns')
      }
      else Some (n # ns))"

text \<open>\<open>if (tmpNode = FindNode(curNode, name)) f(tmpNode)\<close>, reading and changing.\<close>

definition when_node :: "byte list \<Rightarrow> (xnode list \<Rightarrow> assign list option) \<Rightarrow> xnode list \<Rightarrow> assign list option" where
  "when_node name f ns = (if FindNode ns name = [] then Some [] else f (FindNode ns name))"

definition at_node :: "byte list \<Rightarrow> (xnode list \<Rightarrow> xnode list option) \<Rightarrow> xnode list \<Rightarrow> xnode list option" where
  "at_node name f ns =
     (if FindNode ns name = [] then Some ns
      else map_option (\<lambda>post. takeWhile (\<lambda>n. x_name n \<noteq> name) ns @ post) (f (FindNode ns name)))"

text \<open>The same for work on the children of the node found.\<close>

definition when_kids :: "byte list \<Rightarrow> (xnode list \<Rightarrow> assign list option) \<Rightarrow> xnode list \<Rightarrow> assign list option" where
  "when_kids name f = when_node name (\<lambda>ns. case ns of [] \<Rightarrow> None | n # _ \<Rightarrow> f (x_kids n))"

definition at_kids :: "byte list \<Rightarrow> (xnode list \<Rightarrow> xnode list option) \<Rightarrow> xnode list \<Rightarrow> xnode list option" where
  "at_kids name f = at_node name (\<lambda>ns. case ns of [] \<Rightarrow> None | n # rest \<Rightarrow> map_option (\<lambda>ks. with_kids n ks # rest) (f (x_kids n)))"

text \<open>The state of the module: files and drivers, the documents, the parameter block, what \<open>errno\<close> holds
  after a failing \<open>open\<close>, and the static buffers that keep their content between calls: \<open>slp_ltm_params_l5pro\<close> of
  \<open>CmsParsersR4p0.cpp\<close> and of \<open>AbcParsersR4p0.cpp\<close>, and \<open>lut3d_l5pro\<close> of \<open>HsvParsers.cpp\<close>.\<close>

record ('p, 'f) pq =
  q_fs :: "'p fsys"
  q_xml :: 'f
  q_ctx :: mem
  q_errno :: int
  q_slp :: mem
  q_abc :: mem
  q_lut :: mem

text \<open>Saving at the end of \<open>parse_xml\<close> and \<open>update_xml\<close>, and the result: without a look at what the save returned; trying
  a failed save again; trying it again without a look at the second result.\<close>

definition save_once :: "'f libxml \<Rightarrow> byte list \<Rightarrow> xnode \<Rightarrow> 'f \<Rightarrow> int \<times> 'f" where
  "save_once L path doc x = (0, snd (xmlSaveFormatFileEnc L path doc x))"

definition save_twice :: "'f libxml \<Rightarrow> byte list \<Rightarrow> xnode \<Rightarrow> 'f \<Rightarrow> int \<times> 'f" where
  "save_twice L path doc x =
     (let (r, x1) = xmlSaveFormatFileEnc L path doc x;
          (r', x2) = (if r = - 1 then xmlSaveFormatFileEnc L path doc x1 else (r, x1))
      in (if r' = - 1 then 1 else 0, x2))"

definition save_retry :: "'f libxml \<Rightarrow> byte list \<Rightarrow> xnode \<Rightarrow> 'f \<Rightarrow> int \<times> 'f" where
  "save_retry L path doc x =
     (let (r, x1) = xmlSaveFormatFileEnc L path doc x
      in if r = - 1 then (1, snd (xmlSaveFormatFileEnc L path doc x1)) else (0, x1))"

text \<open>The frame of every \<open>parse_xml\<close>: read the file, check the root, assign, and save the document again.\<close>

definition parse_file :: "'f libxml \<Rightarrow> byte list \<Rightarrow> byte list \<Rightarrow> int \<Rightarrow> (xnode list \<Rightarrow> assign list option)
    \<Rightarrow> (xnode \<Rightarrow> 'f \<Rightarrow> int \<times> 'f) \<Rightarrow> ('p, 'f) pq \<Rightarrow> (int \<times> ('p, 'f) pq) option" where
  "parse_file L path root err body save s =
     (case xmlReadFile L path (q_xml s) of
        None \<Rightarrow> Some (err, s)
      | Some doc \<Rightarrow>
          if x_name doc \<noteq> root then Some (err, s)
          else do {
            as \<leftarrow> body (x_kids doc);
            ctx \<leftarrow> assigns as (q_ctx s);
            (let (r, x) = save doc (q_xml s) in Some (r, s\<lparr>q_ctx := ctx, q_xml := x\<rparr>))
          })"

text \<open>The frame of \<open>update_xml\<close>.\<close>

definition update_file :: "'f libxml \<Rightarrow> byte list \<Rightarrow> byte list \<Rightarrow> int \<Rightarrow> (mem \<Rightarrow> xnode list \<Rightarrow> xnode list option)
    \<Rightarrow> (xnode \<Rightarrow> 'f \<Rightarrow> int \<times> 'f) \<Rightarrow> ('p, 'f) pq \<Rightarrow> (int \<times> ('p, 'f) pq) option" where
  "update_file L path root err body save s =
     (case xmlReadFile L path (q_xml s) of
        None \<Rightarrow> Some (err, s)
      | Some doc \<Rightarrow>
          if x_name doc \<noteq> root then Some (err, s)
          else do {
            ns \<leftarrow> body (q_ctx s) (x_kids doc);
            (let (r, x) = save (XNode (x_name doc) (x_props doc) ns) (q_xml s) in Some (r, s\<lparr>q_xml := x\<rparr>))
          })"

text \<open>Reading a driver node into the block, writing a part of the block to one, and switching modules off.\<close>

definition reg_read :: "byte list \<Rightarrow> nat \<Rightarrow> nat \<Rightarrow> ('p, 'f) pq \<Rightarrow> (int \<times> ('p, 'f) pq) option" where
  "reg_read path off n s =
     (case fs_read path 0 n (q_fs s) of
        None \<Rightarrow> Some (- 1, s)
      | Some bs \<Rightarrow> do { ctx \<leftarrow> put (q_ctx s) off bs; Some (int (length bs), s\<lparr>q_ctx := ctx\<rparr>) })"

definition reg_write :: "byte list \<Rightarrow> byte list \<Rightarrow> ('p, 'f) pq \<Rightarrow> ('p, 'f) pq" where
  "reg_write path bs s = s\<lparr>q_fs := snd (fs_write path 0 bs (q_fs s))\<rparr>"

definition PQDisable :: "byte list" where "PQDisable = cs ''/sys/class/display/dispc0/PQ/disable''"

definition reg_disable :: "nat \<Rightarrow> ('p, 'f) pq \<Rightarrow> int \<times> ('p, 'f) pq" where
  "reg_disable bits s = (if \<not> fs_open PQDisable (q_fs s) then (q_errno s, s) else (0, reg_write PQDisable (le32 bits) s))"


section \<open>Numbers survive the document\<close>

lemma byte_less: "unat (x :: byte) < 256"
  using unsigned_less [of x, where 'a = nat] by simp

lemma byte_eqI: "n mod 256 = unat x \<Longrightarrow> of_nat n = (x :: byte)"
  by (metis unat_of_nat_byte word_unat_eq_iff)

lemma mod_add_mult: "a < k \<Longrightarrow> (a + k * b) mod k = (a :: nat)"
  by (simp only: mod_mult_self2 mod_less)

lemma digits_256:
  assumes "a < 256" and "b < 256" and "c < 256" and "d < (256 :: nat)" and n: "n = a + 256 * b + 65536 * c + 16777216 * d"
  shows "n mod 256 = a" and "n div 256 mod 256 = b" and "n div 65536 mod 256 = c" and "n div 16777216 mod 256 = d"
proof -
  have n': "n = a + 256 * (b + 256 * (c + 256 * d))" using n by simp
  have 1: "n div 256 = b + 256 * (c + 256 * d)" unfolding n' using assms(1) by simp
  have 2: "n div 65536 = c + 256 * d" using 1 assms(2) div_mult2_eq [of n 256 256] by simp
  have 3: "n div 16777216 = d" using 2 assms(3) div_mult2_eq [of n 65536 256] by simp
  show "n mod 256 = a" unfolding n' by (rule mod_add_mult [OF assms(1)])
  show "n div 256 mod 256 = b" unfolding 1 by (rule mod_add_mult [OF assms(2)])
  show "n div 65536 mod 256 = c" unfolding 2 by (rule mod_add_mult [OF assms(3)])
  show "n div 16777216 mod 256 = d" unfolding 3 using assms(4) by simp
qed

lemma le32_digits:
  "le32 (unat a + 256 * unat b + 65536 * unat c + 16777216 * unat d) = [a, b, c, d]"
  unfolding le32_def list.inject
  by (intro conjI byte_eqI digits_256 [OF byte_less byte_less byte_less byte_less refl] refl)

lemma list4: "length bs = 4 \<Longrightarrow> \<exists>a b c d. bs = [a, b, c, d]"
  by (auto simp: length_Suc_conv eval_nat_numeral)

lemma list2: "length bs = 2 \<Longrightarrow> \<exists>a b. bs = [a, b]"
  by (auto simp: length_Suc_conv eval_nat_numeral)

lemma de32_cons: "de32 [a, b, c, d] = unat a + 256 * unat b + 65536 * unat c + 16777216 * unat d"
  by (simp add: de32_def)

lemma le32_de32: "length bs = 4 \<Longrightarrow> le32 (de32 bs) = bs"
  by (drule list4) (clarsimp simp only: de32_cons le32_digits)

lemma de32_pad:
  assumes "length bs = cty_size ty"
  shows "de32 (bs @ replicate (4 - cty_size ty) 0) < 256 ^ cty_size ty"
proof (cases ty)
  case U8
  then obtain a where "bs = [a]" using assms by (auto simp: length_Suc_conv)
  then show ?thesis using U8 byte_less [of a] by (simp add: numeral_3_eq_3 de32_cons)
next
  case U16
  then obtain a b where "bs = [a, b]" using assms list2 [of bs] by auto
  then show ?thesis using U16 byte_less [of a] byte_less [of b] by (simp add: numeral_2_eq_2 de32_cons)
next
  case S16
  then obtain a b where "bs = [a, b]" using assms list2 [of bs] by auto
  then show ?thesis using S16 byte_less [of a] byte_less [of b] by (simp add: numeral_2_eq_2 de32_cons)
next
  case U32
  then obtain a b c d where "bs = [a, b, c, d]" using assms list4 [of bs] by auto
  then show ?thesis
    using U32 byte_less [of a] byte_less [of b] byte_less [of c] byte_less [of d] by (simp add: de32_cons)
qed

lemma of_nat_byte_mod:
  assumes "256 dvd d"
  shows "(of_nat (n mod d) :: byte) = of_nat n"
proof (rule byte_eqI)
  show "n mod d mod 256 = unat (of_nat n :: byte)" using assms by (simp add: mod_mod_cancel)
qed

lemma take_le32: "take 1 (le32 n) = [of_nat n]" "take 2 (le32 n) = [of_nat n, of_nat (n div 256)]"
  by (simp_all add: le32_def numeral_2_eq_2)

lemma take_le32_mod16: "take 2 (le32 (n mod 65536)) = take 2 (le32 n)"
proof -
  have "n mod 65536 div 256 = n div 256 mod 256" using mod_mult2_eq [of n 256 256] by simp
  then have "(of_nat (n mod 65536 div 256) :: byte) = of_nat (n div 256)"
    using of_nat_byte_mod [of 256 "n div 256"] by simp
  moreover have "(of_nat (n mod 65536) :: byte) = of_nat n" by (rule of_nat_byte_mod) simp
  ultimately show ?thesis by (simp only: take_le32)
qed

text \<open>The bytes of a field are those a store of its printed value writes.\<close>

definition fld_value :: "cty \<Rightarrow> nat \<Rightarrow> int" where
  "fld_value ty n = (case ty of S16 \<Rightarrow> if 32768 \<le> n then int n - 65536 else int n
     | U32 \<Rightarrow> if 2147483648 \<le> n then int n - 4294967296 else int n | _ \<Rightarrow> int n)"

lemma ld_fld_value:
  "ld ty off m = map_option (\<lambda>bs. fld_value ty (de32 (bs @ replicate (4 - cty_size ty) 0))) (get m off (cty_size ty))"
  by (cases ty; cases "get m off (cty_size ty)") (simp_all add: ld_def fld_value_def Let_def)

lemma unat_word_of_int32: "unat (word_of_int v :: 32 word) = nat (v mod 4294967296)"
  by (simp add: unsigned_of_int take_bit_eq_mod)

lemma neg_mod32: "k \<le> n \<Longrightarrow> 0 < k \<Longrightarrow> k \<le> 4294967296 \<Longrightarrow> n < k + k \<Longrightarrow> int n - int (k + k) = v \<Longrightarrow> k + k \<le> 4294967296
    \<Longrightarrow> nat (v mod 4294967296) = n + 4294967296 - (k + k)"
proof -
  assume a: "k \<le> n" "0 < k" "n < k + k" "int n - int (k + k) = v" "k + k \<le> 4294967296"
  have "v mod 4294967296 = (v + 4294967296) mod 4294967296" by (simp only: mod_add_self2)
  also have "\<dots> = v + 4294967296" using a by (intro mod_pos_pos_trivial) linarith+
  finally show ?thesis using a by simp
qed

lemma field_bytes_value:
  assumes "n < 256 ^ cty_size ty"
  shows "field_bytes ty (word_of_int (fld_value ty n)) = take (cty_size ty) (le32 n)"
proof (cases ty)
  case S16
  have n: "n < 65536" using assms S16 by simp
  have "nat (fld_value ty n mod 4294967296) mod 65536 = n"
  proof (cases "32768 \<le> n")
    case True
    have "nat (fld_value ty n mod 4294967296) = n + 4294967296 - (32768 + 32768)"
      using True n S16 by (intro neg_mod32) (simp_all add: fld_value_def)
    then have "nat (fld_value ty n mod 4294967296) = n + 65536 * 65535" by simp
    then show ?thesis using n by (simp only: mod_mult_self2 mod_less)
  next
    case False
    then show ?thesis using n S16 by (simp add: fld_value_def)
  qed
  then show ?thesis
    using take_le32_mod16 [of "nat (fld_value ty n mod 4294967296)"] S16
    by (simp add: field_bytes_def unat_word_of_int32)
next
  case U32
  have "n < 4294967296" using assms U32 by simp
  then have "nat (fld_value ty n mod 4294967296) = n"
  proof (cases "2147483648 \<le> n")
    case True
    have "nat (fld_value ty n mod 4294967296) = n + 4294967296 - (2147483648 + 2147483648)"
      using True \<open>n < 4294967296\<close> U32 by (intro neg_mod32) (simp_all add: fld_value_def)
    then show ?thesis by simp
  next
    case False
    then show ?thesis using \<open>n < 4294967296\<close> U32 by (simp add: fld_value_def)
  qed
  then show ?thesis using U32 by (simp add: field_bytes_def unat_word_of_int32)
qed (use assms in \<open>simp_all add: field_bytes_def fld_value_def unat_of_nat\<close>)

lemma ld_range:
  assumes "ld ty off m = Some v"
  shows "- 2147483648 \<le> v" and "v \<le> 2147483647" and "ty \<noteq> U32 \<Longrightarrow> - 32768 \<le> v \<and> v \<le> 65535"
proof -
  obtain bs where bs: "get m off (cty_size ty) = Some bs"
    and v: "v = fld_value ty (de32 (bs @ replicate (4 - cty_size ty) 0))"
    using assms by (auto simp: ld_fld_value)
  have b: "de32 (bs @ replicate (4 - cty_size ty) 0) < 256 ^ cty_size ty" by (rule de32_pad [OF get_length [OF bs]])
  show "- 2147483648 \<le> v" "v \<le> 2147483647" "ty \<noteq> U32 \<Longrightarrow> - 32768 \<le> v \<and> v \<le> 65535"
    using b unfolding v by (cases ty; simp add: fld_value_def)+
qed

lemma field_bytes_ld:
  assumes "ld ty off m = Some v"
  shows "get m off (cty_size ty) = Some (field_bytes ty (word_of_int v))"
proof -
  obtain bs where bs: "get m off (cty_size ty) = Some bs"
    and v: "v = fld_value ty (de32 (bs @ replicate (4 - cty_size ty) 0))"
    using assms by (auto simp: ld_fld_value)
  have l: "length bs = cty_size ty" by (rule get_length [OF bs])
  have "length (bs @ replicate (4 - cty_size ty) (0 :: byte)) = 4" using l by (cases ty) simp_all
  then have "take (cty_size ty) (le32 (de32 (bs @ replicate (4 - cty_size ty) 0))) = bs"
    using l by (simp add: le32_de32)
  then show ?thesis using bs v field_bytes_value [OF de32_pad [OF l]] by simp
qed

lemma ld_ok: "off + cty_size ty \<le> length m \<Longrightarrow> \<exists>v. ld ty off m = Some v"
  by (simp add: ld_def get_def Let_def)

text \<open>\<open>%d\<close> and back through \<open>strtoul\<close> with base 0.\<close>

lemma digit_not_48: "0 < n \<Longrightarrow> n < 10 \<Longrightarrow> (of_nat (48 + n) :: byte) \<noteq> 48"
proof
  assume n: "0 < n" "n < 10" and e: "(of_nat (48 + n) :: byte) = 48"
  have "unat (of_nat (48 + n) :: byte) = 48 + n" using n by (subst unat_of_nat_byte) simp
  moreover have "unat (48 :: byte) = 48" by simp
  ultimately show False using e n by simp
qed

lemma show_nat_hd: "0 < n \<Longrightarrow> hd (show_nat n) \<noteq> 48"
proof (induction n rule: show_nat.induct)
  case (1 n)
  show ?case
  proof (cases "n < 10")
    case True
    then show ?thesis using digit_not_48 [of n] 1 by (simp add: show_nat_digit del: of_nat_add)
  next
    case False
    then show ?thesis using 1 show_nat_not_Nil [of "n div 10"] by (subst show_nat.simps) simp
  qed
qed


lemma number_at_0:
  "number_at 0 (show_nat n) = Some (False, n, [])" "number_at 0 (45 # show_nat n) = Some (True, n, [])"
proof -
  obtain b bs where b: "show_nat n = b # bs" using show_nat_not_Nil by (cases "show_nat n") auto
  have d: "\<forall>c \<in> set (show_nat n). digit_value c < 10 \<and> 48 \<le> unat c \<and> unat c \<le> 57" by (rule show_nat_digits)
  have s: "split_sign (show_nat n) = (False, show_nat n)" using d by (simp add: b split_sign_digit)
  have m: "split_sign (45 # show_nat n) = (True, show_nat n)" by (simp add: split_sign_def is_space_def)
  have h: "\<not> hex_prefix (show_nat n)"
  proof
    assume "hex_prefix (show_nat n)"
    then obtain c r where "show_nat n = 48 # c # r" "c = 120 \<or> c = 88"
      by (auto simp: hex_prefix_def split: list.splits)
    moreover have "unat c \<le> 57" using d calculation(1) by simp
    ultimately show False by auto
  qed
  have "digits_in 8 (show_nat n) = show_nat n \<and> radix 8 (show_nat n) = n" if "hd (show_nat n) = 48"
  proof -
    have "n = 0" using that show_nat_hd by blast
    then show ?thesis by (simp add: show_nat_digit digits_in_def radix_def digit_value_def)
  qed
  moreover have "digits_in 10 (show_nat n) = show_nat n"
    using digits_in_stop [of "show_nat n" 10 "[]"] d by simp
  ultimately show "number_at 0 (show_nat n) = Some (False, n, [])"
    and "number_at 0 (45 # show_nat n) = Some (True, n, [])"
    by (simp_all add: number_at_def Let_def s m h show_nat_not_Nil radix_show_nat)
qed

lemma strtoul_show_int:
  assumes "- 2147483648 \<le> i" and "i \<le> 2147483647"
  shows "strtoul 0 (show_int i) = (word_of_int i, [])"
proof (cases "i < 0")
  case True
  define k where "k = nat (- i)"
  have i: "i = - int k" using True by (simp add: k_def)
  have k: "k \<le> 2147483648" "0 < k" using assms True by (simp_all add: k_def)
  have "strtoul 0 (45 # show_nat k) = (- word_of_nat k, [])"
    using k by (simp add: strtoul_def number_at_0)
  moreover have "- word_of_nat k = (word_of_int i :: 32 word)" unfolding i of_int_minus of_int_of_nat_eq ..
  moreover have "show_int i = 45 # show_nat k" using True by (simp add: show_int_def k_def)
  ultimately show ?thesis by simp
next
  case False
  define k where "k = nat i"
  have i: "i = int k" using False by (simp add: k_def)
  have k: "k \<le> 2147483647" using assms False by (simp add: k_def)
  have "strtoul 0 (show_nat k) = (word_of_nat k, [])" using k by (simp add: strtoul_def number_at_0)
  then show ?thesis by (simp add: show_int_def i)
qed

text \<open>Ten characters hold every 8 and 16 bit number, twelve every 32 bit one.\<close>

lemma show_fld_value:
  assumes "show_fld sz f m = Some s" and "sz = 10 \<and> (\<forall>off. f \<noteq> Some (U32, off)) \<or> sz = 12"
  shows "\<exists>ty off. f = Some (ty, off) \<and> get m off (cty_size ty) = Some (field_bytes ty (fst (strtoul 0 s)))"
proof -
  obtain ty off v where f: "f = Some (ty, off)" and v: "ld ty off m = Some v" and s: "s = take (sz - 1) (show_int v)"
    using assms(1) by (cases f) (auto simp: show_fld_def split: bind_splits)
  have "length (show_int v) \<le> sz - 1"
  proof (cases "ty = U32")
    case True
    have "\<bar>v\<bar> < 10 ^ 10" using ld_range(1,2) [OF v] by simp
    then have "length (show_int v) \<le> Suc 10" by (rule show_int_length) simp
    then show ?thesis using True assms(2) f by auto
  next
    case False
    then have "\<bar>v\<bar> < 10 ^ 5" using ld_range(3) [OF v] by (auto simp: abs_if)
    then have "length (show_int v) \<le> Suc 5" by (rule show_int_length) simp
    then show ?thesis using assms(2) by auto
  qed
  then have "s = show_int v" using s by simp
  then show ?thesis using f field_bytes_ld [OF v] strtoul_show_int ld_range [OF v] by simp
qed

section \<open>What is written into a document is read back\<close>

text \<open>The assignments hold what the block \<open>m\<close> has in those fields, those in \<open>X\<close> aside.\<close>

definition from_mem :: "fld set \<Rightarrow> mem \<Rightarrow> assign list \<Rightarrow> bool" where
  "from_mem X m as \<longleftrightarrow> (\<forall>(f, w) \<in> set as. \<exists>ty off. f = Some (ty, off) \<and> off + cty_size ty \<le> length m \<and>
     (f \<in> X \<or> get m off (cty_size ty) = Some (field_bytes ty w)))"

definition in_flds :: "fld set \<Rightarrow> nat \<Rightarrow> bool" where
  "in_flds X i \<longleftrightarrow> (\<exists>ty off. Some (ty, off) \<in> X \<and> off \<le> i \<and> i < off + cty_size ty)"

definition covers :: "assign list \<Rightarrow> nat \<Rightarrow> bool" where
  "covers as i \<longleftrightarrow> (\<exists>ty off w. (Some (ty, off), w) \<in> set as \<and> off \<le> i \<and> i < off + cty_size ty)"

definition narrow :: "fld \<Rightarrow> bool" where "narrow f \<longleftrightarrow> (\<forall>off. f \<noteq> Some (U32, off))"

lemma narrow_simps [simp]: "narrow None" "narrow (Some (U8, k))" "narrow (Some (U16, k))" "narrow (Some (S16, k))"
  by (simp_all add: narrow_def)

lemma narrow_elem [simp]: "ty \<noteq> U32 \<Longrightarrow> narrow (elem n i d ty b)"
  by (simp add: narrow_def elem_def)

lemma from_mem_simps [simp]:
  "from_mem X m []" "from_mem X m (as @ bs) \<longleftrightarrow> from_mem X m as \<and> from_mem X m bs"
  "from_mem X m ((f, w) # as) \<longleftrightarrow>
     (\<exists>ty off. f = Some (ty, off) \<and> off + cty_size ty \<le> length m \<and>
        (f \<in> X \<or> get m off (cty_size ty) = Some (field_bytes ty w))) \<and> from_mem X m as"
  unfolding from_mem_def by (simp, simp add: ball_Un, simp)

lemma put_get_id: "get m off n = Some bs \<Longrightarrow> put m off bs = Some m"
proof -
  assume g: "get m off n = Some bs"
  then have "off + n \<le> length m" "bs = take n (drop off m)" by (auto simp: get_def split: if_splits)
  then show ?thesis by (simp add: put_def) (metis append_take_drop_id add.commute drop_drop)
qed

lemma length_field_bytes [simp]: "length (field_bytes ty w) = cty_size ty"
  by (cases ty) (simp_all add: field_bytes_def)

lemma get_bound: "get m off n = Some bs \<Longrightarrow> off + n \<le> length m"
  by (simp add: get_def split: if_splits)

text \<open>The assignments succeed on every block of that size and copy what they cover.\<close>

lemma assigns_copy:
  assumes "from_mem X m as" and "length m0 = length m"
  shows "\<exists>m1. assigns as m0 = Some m1 \<and> length m1 = length m \<and>
    (\<forall>i < length m. \<not> in_flds X i \<longrightarrow> m1 ! i = (if covers as i then m ! i else m0 ! i))"
  using assms
proof (induction as arbitrary: m0)
  case Nil
  then show ?case by (simp add: covers_def)
next
  case (Cons a as)
  obtain f w where a: "a = (f, w)" by (cases a)
  obtain ty off where f: "f = Some (ty, off)" and b: "off + cty_size ty \<le> length m"
    and g: "f \<in> X \<or> get m off (cty_size ty) = Some (field_bytes ty w)"
    and rest: "from_mem X m as" using Cons.prems(1) a by auto
  obtain m' where m': "put m0 off (field_bytes ty w) = Some m'" using b Cons.prems(2) by (simp add: put_def)
  have l: "length m' = length m" using put_length [OF m'] Cons.prems(2) by simp
  obtain m1 where m1: "assigns as m' = Some m1" "length m1 = length m"
    "\<forall>i < length m. \<not> in_flds X i \<longrightarrow> m1 ! i = (if covers as i then m ! i else m' ! i)"
    using Cons.IH [OF rest l] by blast
  have c: "covers (a # as) i \<longleftrightarrow> off \<le> i \<and> i < off + cty_size ty \<or> covers as i" for i
    by (auto simp: covers_def a f)
  have "m' ! i = (if off \<le> i \<and> i < off + cty_size ty then m ! i else m0 ! i)" if "i < length m" "\<not> in_flds X i" for i
  proof (cases "off \<le> i \<and> i < off + cty_size ty")
    case True
    then have "f \<notin> X" using that(2) f by (auto simp: in_flds_def)
    then have "field_bytes ty w = take (cty_size ty) (drop off m)" using g by (auto simp: get_def split: if_splits)
    then show ?thesis using put_nth [OF m', of i] that Cons.prems(2) True b by auto
  next
    case False
    then show ?thesis using put_nth [OF m', of i] that Cons.prems(2) by auto
  qed
  then show ?case using m1 m' by (auto simp: a f st_def c [unfolded a f])
qed

text \<open>On the block itself they change at most the fields in \<open>X\<close>.\<close>

lemma assigns_id:
  assumes "from_mem X m as"
  shows "\<exists>m1. assigns as m = Some m1 \<and> length m1 = length m \<and> (\<forall>i < length m. \<not> in_flds X i \<longrightarrow> m1 ! i = m ! i)"
  using assigns_copy [OF assms refl] by auto

lemma show_fld_from_mem:
  assumes "show_fld sz f m = Some s" and "sz = 10 \<and> narrow f \<or> sz = 12"
  shows "from_mem X m [(f, fst (strtoul 0 s))]"
  using show_fld_value [OF assms(1)] assms(2) by (auto simp: narrow_def dest: get_bound)

text \<open>Setting an attribute that is there.\<close>

lemma set_prop:
  assumes "xml_laws L" and "xmlHasProp L n k"
  shows "x_name (xmlSetProp L n k v) = x_name n" and "x_kids (xmlSetProp L n k v) = x_kids n"
    and "map fst (x_props (xmlSetProp L n k v)) = map fst (x_props n)"
    and "map_of (x_props (xmlSetProp L n k v)) = (map_of (x_props n))(k \<mapsto> v)"
    and "xmlHasProp L (xmlSetProp L n k v) k' = xmlHasProp L n k'"
    and "prop_word L (xmlSetProp L n k v) k = fst (strtoul 0 v)"
proof -
  let ?n' = "XNode (x_name n) (AList.update k v (x_props n)) (x_kids n)"
  have k: "k \<in> fst ` set (x_props n)" using assms by (simp add: xml_laws_def)
  then have e: "xmlSetProp L n k v = ?n'" using assms(1) by (simp add: xml_laws_def)
  have m: "map_of (x_props ?n') = (map_of (x_props n))(k \<mapsto> v)" by (simp add: update_conv')
  have ks: "map fst (x_props ?n') = map fst (x_props n)" using k by (simp add: update_keys)
  then have "fst ` set (x_props ?n') = fst ` set (x_props n)" by (metis set_map)
  then have h: "xmlHasProp L ?n' k' = xmlHasProp L n k'" using assms(1) unfolding xml_laws_def by metis
  have g: "map_of (x_props n') k = Some w \<longrightarrow> xmlGetProp L n' k = w" for n' w using assms(1) unfolding xml_laws_def by blast
  then have "xmlGetProp L ?n' k = v" using m by simp
  then show "x_name (xmlSetProp L n k v) = x_name n" and "x_kids (xmlSetProp L n k v) = x_kids n"
    and "map fst (x_props (xmlSetProp L n k v)) = map fst (x_props n)"
    and "map_of (x_props (xmlSetProp L n k v)) = (map_of (x_props n))(k \<mapsto> v)"
    and "xmlHasProp L (xmlSetProp L n k v) k' = xmlHasProp L n k'"
    and "prop_word L (xmlSetProp L n k v) k = fst (strtoul 0 v)"
    using m ks h by (simp_all add: e prop_word_def)
qed

lemma has_prop: "xml_laws L \<Longrightarrow> xmlHasProp L n k \<longleftrightarrow> k \<in> fst ` set (x_props n)"
  by (simp add: xml_laws_def)

lemma get_prop: "xml_laws L \<Longrightarrow> map_of (x_props n) k = Some v \<Longrightarrow> prop_word L n k = fst (strtoul 0 v)"
  by (simp add: xml_laws_def prop_word_def)

text \<open>The loop over attributes: the keys that were set hold the printed fields, the rest of the node stays.\<close>

definition attrs_written :: "(byte list \<times> fld) list \<Rightarrow> mem \<Rightarrow> byte list list \<Rightarrow> xnode \<Rightarrow> xnode \<Rightarrow> bool" where
  "attrs_written tbl m ks n n' \<longleftrightarrow>
     x_name n' = x_name n \<and> x_kids n' = x_kids n \<and> map fst (x_props n') = map fst (x_props n) \<and>
     (\<forall>k. k \<notin> set ks \<longrightarrow> map_of (x_props n') k = map_of (x_props n) k) \<and>
     (\<forall>k f. k \<in> set ks \<longrightarrow> map_of tbl k = Some f \<longrightarrow> (\<exists>s. show_fld 10 f m = Some s \<and> map_of (x_props n') k = Some s))"

lemma set_attrs_written:
  assumes "xml_laws L" and "set_attrs L tbl m ks n = Some n'" and "set ks \<subseteq> fst ` set (x_props n)"
  shows "attrs_written tbl m ks n n'"
  using assms(2,3)
proof (induction ks arbitrary: n)
  case Nil
  then show ?case by (simp add: attrs_written_def)
next
  case (Cons k ks)
  show ?case
  proof (cases "map_of tbl k")
    case None
    then have "attrs_written tbl m ks n n'" using Cons by simp
    then show ?thesis using None by (auto simp: attrs_written_def)
  next
    case (Some f)
    then obtain s where s: "show_fld 10 f m = Some s" and r: "set_attrs L tbl m ks (xmlSetProp L n k s) = Some n'"
      using Cons.prems by (auto split: bind_splits)
    have h: "xmlHasProp L n k" using Cons.prems(2) by (simp add: has_prop [OF assms(1)])
    note p = set_prop [OF assms(1) h, of s]
    have "set ks \<subseteq> fst ` set (x_props (xmlSetProp L n k s))"
      using Cons.prems(2) arg_cong [OF p(3), of set] by simp
    then have w: "attrs_written tbl m ks (xmlSetProp L n k s) n'" using Cons.IH r by blast
    show ?thesis
    proof (cases "k \<in> set ks")
      case True
      then show ?thesis using w p by (auto simp: attrs_written_def)
    next
      case False
      then have "map_of (x_props n') k = Some s" using w p(4) by (simp add: attrs_written_def)
      then show ?thesis using w p s Some by (auto simp: attrs_written_def)
    qed
  qed
qed

lemma update_attrs_written:
  "xml_laws L \<Longrightarrow> update_attrs L tbl m n = Some n' \<Longrightarrow> attrs_written tbl m (map fst (x_props n)) n n'"
  by (rule set_attrs_written) (simp_all add: update_attrs_def)

lemma update_attrs_name: "xml_laws L \<Longrightarrow> update_attrs L tbl m n = Some n' \<Longrightarrow> x_name n' = x_name n"
  using update_attrs_written by (fastforce simp: attrs_written_def)

lemma attrs_read_back:
  assumes L: "xml_laws L" and u: "update_attrs L tbl m n = Some n'" and t: "\<forall>(k, f) \<in> set tbl. narrow f"
  shows "from_mem X m (parse_attrs L tbl n')"
  unfolding from_mem_def
proof (clarify)
  fix f w assume "(f, w) \<in> set (parse_attrs L tbl n')"
  then obtain k v where k: "(k, v) \<in> set (x_props n')" "map_of tbl k = Some f" and w: "w = prop_word L n' k"
    by (auto simp: parse_attrs_def map_filter_def)
  note wr = update_attrs_written [OF L u, unfolded attrs_written_def]
  have "fst ` set (x_props n') = fst ` set (x_props n)" using wr by (metis set_map)
  then have "k \<in> set (map fst (x_props n))" using k(1) by force
  then obtain s where s: "show_fld 10 f m = Some s" "map_of (x_props n') k = Some s" using wr k(2) by blast
  have "narrow f" using t map_of_SomeD [OF k(2)] by fastforce
  then have "from_mem X m [(f, fst (strtoul 0 s))]" using s(1) by (intro show_fld_from_mem) auto
  then show "\<exists>ty off. f = Some (ty, off) \<and> off + cty_size ty \<le> length m \<and>
      (f \<in> X \<or> get m off (cty_size ty) = Some (field_bytes ty w))"
    using w get_prop [OF L s(2)] by simp
qed

lemma items_read_back:
  assumes L: "xml_laws L" and "update_items L tbl m i ns = Some ns'" and t: "\<forall>i. \<forall>(k, f) \<in> set (tbl i). narrow f"
  shows "from_mem X m (parse_items L tbl i ns') \<and> map x_name ns' = map x_name ns"
  using assms(2)
proof (induction ns arbitrary: i ns')
  case (Cons n ns)
  then show ?case using attrs_read_back [OF L _ t [THEN spec]] update_attrs_name [OF L]
    by (auto split: bind_splits)
qed simp

lemma items_from_mem:
  assumes "xml_laws L" and "update_items L tbl m i ns = Some ns'" and "\<forall>i. \<forall>(k, f) \<in> set (tbl i). narrow f"
  shows "from_mem X m (parse_items L tbl i ns')"
  by (rule items_read_back [OF assms, THEN conjunct1])

text \<open>The chain of macros.\<close>

definition same_keys :: "'f libxml \<Rightarrow> xnode list \<Rightarrow> xnode list \<Rightarrow> bool" where
  "same_keys L ns ns' \<longleftrightarrow> list_all2 (\<lambda>n n'. x_name n' = x_name n \<and> xmlHasProp L n' = xmlHasProp L n) ns ns'"

lemma chain_read_back:
  assumes L: "xml_laws L" and "update_chain L m tbl ns = Some (ds, r)" and "\<forall>(k, f) \<in> set tbl. narrow f"
  shows "same_keys L ns (ds @ r) \<and> from_mem X m (fst (parse_chain L tbl (ds @ r)))"
  using assms(2,3)
proof (induction tbl arbitrary: ns ds r)
  case Nil
  then show ?case by (simp add: same_keys_def list_all2_refl)
next
  case (Cons e tbl)
  obtain k f where e: "e = (k, f)" by (cases e)
  show ?case
  proof (cases ns)
    case Nil
    moreover have "ds = []" "r = []"
      using Cons.IH [of "[]" ds r] Cons.prems e Nil by (simp_all add: same_keys_def)
    ultimately show ?thesis using Cons.IH [of "[]" ds r] Cons.prems e by (simp add: same_keys_def)
  next
    case (Cons n rest)
    show ?thesis
    proof (cases "xmlHasProp L n k")
      case False
      then have i: "same_keys L ns (ds @ r)" "from_mem X m (fst (parse_chain L tbl (ds @ r)))"
        using Cons.prems Cons.IH [of ns ds r] Cons e by simp_all
      then obtain n' rest' where d: "ds @ r = n' # rest'" "\<not> xmlHasProp L n' k"
        using Cons False by (auto simp: same_keys_def list_all2_Cons1)
      show ?thesis using i d by (simp add: e)
    next
      case True
      then obtain s ds' where s: "show_fld 10 f m = Some s" and u: "update_chain L m tbl rest = Some (ds', r)"
        and ds: "ds = xmlSetProp L n k s # ds'"
        using Cons.prems Cons e by (auto split: bind_splits)
      have i: "same_keys L rest (ds' @ r)" "from_mem X m (fst (parse_chain L tbl (ds' @ r)))"
        using Cons.IH [OF u] Cons.prems by simp_all
      note p = set_prop [OF L True, of s]
      have "narrow f" using Cons.prems e by simp
      then have "from_mem X m [(f, fst (strtoul 0 s))]" using s by (intro show_fld_from_mem) auto
      then show ?thesis using i p True by (simp add: ds e Cons same_keys_def case_prod_unfold Let_def fun_eq_iff)
    qed
  qed
qed

text \<open>Version nodes, and finding a node again.\<close>

lemma same_keys_names: "same_keys L ns ns' \<Longrightarrow> map x_name ns' = map x_name ns"
  unfolding same_keys_def by (induction rule: list_all2_induct) simp_all

lemma enhance_read_back:
  assumes L: "xml_laws L" and "update_enhance L f m ns = Some ns'"
    and t: "\<forall>(k, g) \<in> set tbl. g \<in> X \<and> (\<exists>ty off. g = Some (ty, off) \<and> off + cty_size ty \<le> length m)"
  shows "map x_name ns' = map x_name ns \<and>
    (\<exists>as. parse_enhance L ((cs ''version'', f) # tbl) ns' = Some as \<and> from_mem X m as)"
  using assms(2)
proof (induction ns arbitrary: ns')
  case (Cons n ns)
  show ?case
  proof (cases "x_name n = cs ''enhance''")
    case False
    then show ?thesis using Cons.prems by auto
  next
    case True
    then obtain n' ns1 where n': "(if xmlHasProp L n (cs ''version'')
        then do { s \<leftarrow> show_fld 12 f m; Some (xmlSetProp L n (cs ''version'') s) } else Some n) = Some n'"
      and u: "update_enhance L f m ns = Some ns1" and ns': "ns' = n' # ns1"
      using Cons.prems by (auto split: bind_splits)
    obtain as where i: "map x_name ns1 = map x_name ns" "parse_enhance L ((cs ''version'', f) # tbl) ns1 = Some as"
      "from_mem X m as" using Cons.IH [OF u] by blast
    show ?thesis
    proof (cases "xmlHasProp L n (cs ''version'')")
      case False
      have "(k, g) \<in> set tbl" if "List.find (\<lambda>(k, f). xmlHasProp L n k) tbl = Some (k, g)" for k g
        using that by (auto simp: find_Some_iff) (metis nth_mem)
      then show ?thesis using False n' i True t by (fastforce simp: ns' split: option.splits)
    next
      case h: True
      then obtain s where s: "show_fld 12 f m = Some s" "n' = xmlSetProp L n (cs ''version'') s"
        using n' by (auto split: bind_splits)
      have "from_mem X m [(f, fst (strtoul 0 s))]" using s(1) by (rule show_fld_from_mem) simp
      then show ?thesis using i True h set_prop [OF L h, of s] by (auto simp: ns' s(2))
    qed
  qed
qed simp

text \<open>Loops over nodes, and work on children.\<close>

lemma each_read_back:
  assumes f: "\<And>i n n'. u i n = Some n' \<Longrightarrow> x_name n' = x_name n \<and> (\<exists>as. p i n' = Some as \<and> from_mem X m as)"
    and "update_each u i ns = Some ns'"
  shows "map x_name ns' = map x_name ns \<and> (\<exists>as. parse_each p i ns' = Some as \<and> from_mem X m as)"
  using assms(2)
proof (induction ns arbitrary: i ns')
  case (Cons n ns)
  then obtain n' ns1 where n': "u i n = Some n'" "update_each u (Suc i) ns = Some ns1" "ns' = n' # ns1"
    by (auto split: bind_splits)
  then show ?case using f [OF n'(1)] Cons.IH [OF n'(2)] by auto
qed simp

lemma with_kids_simps [simp]:
  "x_name (with_kids n ks) = x_name n" "x_props (with_kids n ks) = x_props n" "x_kids (with_kids n ks) = ks"
  by (simp_all add: with_kids_def)

lemma has_with_kids [simp]: "xml_laws L \<Longrightarrow> xmlHasProp L (with_kids n ks) k = xmlHasProp L n k"
  by (simp add: has_prop)

lemma get_same:
  assumes "xml_laws L" and "xmlHasProp L n k" and "map_of (x_props n') k = map_of (x_props n) k"
  shows "xmlGetProp L n' k = xmlGetProp L n k"
proof -
  obtain v where "map_of (x_props n) k = Some v"
    using assms(1,2) by (cases "map_of (x_props n) k") (auto simp: has_prop map_of_eq_None_iff)
  then show ?thesis using assms(1,3) by (simp add: xml_laws_def)
qed

lemma mode_read_back:
  assumes L: "xml_laws L"
    and f: "\<And>k ks ks'. u k ks = Some ks' \<Longrightarrow> \<exists>as. p k ks' = Some as \<and> from_mem X m as"
    and "update_mode L sel u i n = Some n'"
  shows "x_name n' = x_name n \<and> (\<exists>as. parse_mode L sel p i n' = Some as \<and> from_mem X m as)"
proof (cases "xmlHasProp L n (cs ''mode'')")
  case True
  have g: "xmlGetProp L (with_kids n ks) (cs ''mode'') = xmlGetProp L n (cs ''mode'')" for ks
    by (rule get_same [OF L True]) simp
  show ?thesis
  proof (cases "sel (xmlGetProp L n (cs ''mode'')) i")
    case None
    then show ?thesis using assms(3) True by (auto simp: update_mode_def parse_mode_def)
  next
    case (Some k)
    then obtain ks where "u k (x_kids n) = Some ks" "n' = with_kids n ks"
      using assms(3) True by (auto simp: update_mode_def)
    then show ?thesis using f [of k "x_kids n" ks] True Some L g by (simp add: parse_mode_def)
  qed
next
  case False
  then show ?thesis using assms(3) by (simp add: update_mode_def parse_mode_def)
qed

lemma named_read_back:
  assumes f: "\<And>name g h ks ks'. u name = Some g \<Longrightarrow> g ks = Some ks' \<Longrightarrow>
      \<exists>h as. p name = Some h \<and> h ks' = Some as \<and> from_mem X m as"
    and "\<And>name. u name = None \<Longrightarrow> p name = None" and "update_named u i n = Some n'"
  shows "x_name n' = x_name n \<and> (\<exists>as. parse_named p i n' = Some as \<and> from_mem X m as)"
proof (cases "u (x_name n)")
  case None
  then show ?thesis using assms by (simp add: update_named_def parse_named_def)
next
  case (Some g)
  then obtain ks where "g (x_kids n) = Some ks" "n' = with_kids n ks" using assms(3) by (auto simp: update_named_def)
  then show ?thesis using f [OF Some] by (fastforce simp: parse_named_def)
qed


lemma FindNode_Nil: "FindNode ns name = [] \<longleftrightarrow> name \<notin> x_name ` set ns"
  by (auto simp: FindNode_def dropWhile_eq_Nil_conv)

lemma FindNode_names: "map x_name ns = map x_name ns' \<Longrightarrow> FindNode ns name = [] \<longleftrightarrow> FindNode ns' name = []"
  unfolding FindNode_Nil by (metis set_map)

lemma FindNode_hd: "FindNode ns name \<noteq> [] \<Longrightarrow> \<exists>n rest. FindNode ns name = n # rest \<and> x_name n = name"
  using hd_dropWhile [of "\<lambda>n. x_name n \<noteq> name" ns] by (cases "FindNode ns name") (auto simp: FindNode_def)

lemma FindNode_split:
  "map x_name post = map x_name (FindNode ns name) \<Longrightarrow> post \<noteq> [] \<Longrightarrow>
     FindNode (takeWhile (\<lambda>n. x_name n \<noteq> name) ns @ post) name = post"
proof -
  assume m: "map x_name post = map x_name (FindNode ns name)" and p: "post \<noteq> []"
  have "FindNode ns name \<noteq> []" using m p by auto
  then obtain n rest where n: "FindNode ns name = n # rest" "x_name n = name" using FindNode_hd by blast
  then obtain a as where a: "post = a # as" "x_name a = name" using m p by (cases post) auto
  have "dropWhile (\<lambda>n. x_name n \<noteq> name) (takeWhile (\<lambda>n. x_name n \<noteq> name) ns @ post) = dropWhile (\<lambda>n. x_name n \<noteq> name) post"
    by (rule dropWhile_append2) (auto dest: set_takeWhileD)
  then show ?thesis using a by (simp add: FindNode_def)
qed

section \<open>A section of a document and its file\<close>

text \<open>A section is read and written; what was written is read back, on blocks of at least \<open>N\<close> bytes, the
  fields in \<open>X\<close> aside. Writing keeps the names of the nodes.\<close>

locale xml_section =
  fixes parse :: "'f libxml \<Rightarrow> xnode list \<Rightarrow> assign list option"
    and update :: "'f libxml \<Rightarrow> mem \<Rightarrow> xnode list \<Rightarrow> xnode list option"
    and X :: "fld set" and N :: nat
  assumes names: "xml_laws L \<Longrightarrow> N \<le> length m \<Longrightarrow> update L m ns = Some ns' \<Longrightarrow> map x_name ns' = map x_name ns"
    and reads_back: "xml_laws L \<Longrightarrow> N \<le> length m \<Longrightarrow> update L m ns = Some ns'
      \<Longrightarrow> \<exists>as. parse L ns' = Some as \<and> from_mem X m as"
begin

lemma at_named:
  assumes "xml_laws L" and "N \<le> length m" and "at_node name (update L m) ns = Some ns'"
  shows "map x_name ns' = map x_name ns" and "\<exists>as. when_node name (parse L) ns' = Some as \<and> from_mem X m as"
proof -
  have "map x_name ns' = map x_name ns \<and> (\<exists>as. when_node name (parse L) ns' = Some as \<and> from_mem X m as)"
  proof (cases "FindNode ns name = []")
    case True
    then show ?thesis using assms(3) by (auto simp: at_node_def when_node_def)
  next
    case False
    then obtain post where u: "update L m (FindNode ns name) = Some post"
      and ns': "ns' = takeWhile (\<lambda>n. x_name n \<noteq> name) ns @ post"
      using assms(3) by (auto simp: at_node_def)
    have k: "map x_name post = map x_name (FindNode ns name)" by (rule names [OF assms(1,2) u])
    have p: "post \<noteq> []" using k False by auto
    have f: "FindNode ns' name = post" unfolding ns' by (rule FindNode_split [OF k p])
    have "map x_name ns' = map x_name (takeWhile (\<lambda>n. x_name n \<noteq> name) ns @ FindNode ns name)"
      unfolding ns' map_append k ..
    then have "map x_name ns' = map x_name ns" by (simp add: FindNode_def)
    then show ?thesis using reads_back [OF assms(1,2) u] f p by (simp add: when_node_def)
  qed
  then show "map x_name ns' = map x_name ns" and "\<exists>as. when_node name (parse L) ns' = Some as \<and> from_mem X m as"
    by blast+
qed

end

text \<open>Two sections, the second written after the first: it must leave what the first reads.\<close>

locale two_sections = one: xml_section p u X N + two: xml_section q v Y N
  for p :: "'f libxml \<Rightarrow> xnode list \<Rightarrow> assign list option" and u X N q v Y +
  assumes frame: "xml_laws L \<Longrightarrow> N \<le> length m \<Longrightarrow> v L m ns = Some ns' \<Longrightarrow> p L ns' = p L ns"

lemma from_mem_mono: "from_mem X m as \<Longrightarrow> X \<subseteq> Y \<Longrightarrow> from_mem Y m as"
  by (fastforce simp: from_mem_def)

sublocale two_sections \<subseteq> both: xml_section "\<lambda>L ns. do { as \<leftarrow> p L ns; bs \<leftarrow> q L ns; Some (as @ bs) }"
    "\<lambda>L m ns. do { ns' \<leftarrow> u L m ns; v L m ns' }" "X \<union> Y" N
proof
  fix L m ns ns'
  assume L: "xml_laws L" and N: "N \<le> length m" and "do { ns' \<leftarrow> u L m ns; v L m ns' } = Some ns'"
  then obtain ns1 where 1: "u L m ns = Some ns1" "v L m ns1 = Some ns'" by (auto split: bind_splits)
  show "map x_name ns' = map x_name ns" using one.names [OF L N 1(1)] two.names [OF L N 1(2)] by simp
  show "\<exists>as. do { as \<leftarrow> p L ns'; bs \<leftarrow> q L ns'; Some (as @ bs) } = Some as \<and> from_mem (X \<union> Y) m as"
    using one.reads_back [OF L N 1(1)] two.reads_back [OF L N 1(2)] frame [OF L N 1(2)]
    by (auto intro: from_mem_mono)
qed

sublocale two_sections \<subseteq> swapped: xml_section "\<lambda>L ns. do { bs \<leftarrow> q L ns; as \<leftarrow> p L ns; Some (bs @ as) }"
    "\<lambda>L m ns. do { ns' \<leftarrow> u L m ns; v L m ns' }" "X \<union> Y" N
proof
  fix L m ns ns'
  assume L: "xml_laws L" and N: "N \<le> length m" and "do { ns' \<leftarrow> u L m ns; v L m ns' } = Some ns'"
  then show "map x_name ns' = map x_name ns"
    and "\<exists>as. do { bs \<leftarrow> q L ns'; as \<leftarrow> p L ns'; Some (bs @ as) } = Some as \<and> from_mem (X \<union> Y) m as"
    using both.names both.reads_back by (fastforce split: bind_splits)+
qed

context two_sections begin

lemma both_section:
  "xml_section (\<lambda>L ns. do { as \<leftarrow> p L ns; bs \<leftarrow> q L ns; Some (as @ bs) })
     (\<lambda>L m ns. do { ns' \<leftarrow> u L m ns; v L m ns' }) (X \<union> Y) N"
  by unfold_locales

end

text \<open>What the sections leave alone: updating children keeps names and attributes; updating versions keeps
  names, children and the other attributes.\<close>

definition kids_changed :: "xnode list \<Rightarrow> xnode list \<Rightarrow> bool" where
  "kids_changed = list_all2 (\<lambda>n n'. x_name n' = x_name n \<and> x_props n' = x_props n)"

definition kids_kept :: "byte list \<Rightarrow> xnode list \<Rightarrow> xnode list \<Rightarrow> bool" where
  "kids_kept b = list_all2 (\<lambda>n n'. x_name n' = x_name n \<and> (x_name n = b \<longrightarrow> x_kids n' = x_kids n))"

definition version_changed :: "xnode list \<Rightarrow> xnode list \<Rightarrow> bool" where
  "version_changed = list_all2 (\<lambda>n n'. x_name n' = x_name n \<and> x_kids n' = x_kids n \<and>
     fst ` set (x_props n') = fst ` set (x_props n) \<and>
     (\<forall>k. k \<noteq> cs ''version'' \<longrightarrow> map_of (x_props n') k = map_of (x_props n) k))"

lemma FindNode_all2:
  assumes "list_all2 R ns ns'" and "\<And>n n'. R n n' \<Longrightarrow> x_name n' = x_name n"
  shows "list_all2 R (FindNode ns b) (FindNode ns' b)"
  using assms(1) unfolding FindNode_def by (induction rule: list_all2_induct) (auto dest: assms(2))

lemma at_node_all2:
  assumes "at_node b u ns = Some ns'" and "\<And>n. R n n"
    and "\<And>post. FindNode ns b \<noteq> [] \<Longrightarrow> u (FindNode ns b) = Some post \<Longrightarrow> list_all2 R (FindNode ns b) post"
  shows "list_all2 R ns ns'"
proof (cases "FindNode ns b = []")
  case True
  then show ?thesis using assms(1,2) by (auto simp: at_node_def intro: list_all2_refl)
next
  case False
  then obtain post where p: "u (FindNode ns b) = Some post" "ns' = takeWhile (\<lambda>n. x_name n \<noteq> b) ns @ post"
    using assms(1) by (auto simp: at_node_def)
  have "list_all2 R (takeWhile (\<lambda>n. x_name n \<noteq> b) ns @ FindNode ns b) ns'"
    unfolding p(2) by (intro list_all2_appendI list_all2_refl assms(2) assms(3) [OF False p(1)])
  then show ?thesis by (simp add: FindNode_def)
qed

lemma when_node_all2:
  assumes "list_all2 R ns ns'" and "\<And>n n'. R n n' \<Longrightarrow> x_name n' = x_name n"
    and "\<And>ms ms'. list_all2 R ms ms' \<Longrightarrow> ms \<noteq> [] \<Longrightarrow> hd ms \<in> set ns \<Longrightarrow> x_name (hd ms) = b \<Longrightarrow> p ms' = p ms"
  shows "when_node b p ns' = when_node b p ns"
proof -
  have a: "list_all2 R (FindNode ns b) (FindNode ns' b)" using assms(1,2) by (rule FindNode_all2)
  show ?thesis
  proof (cases "FindNode ns b = []")
    case True
    then show ?thesis using a by (simp add: when_node_def)
  next
    case False
    have "set (FindNode ns b) \<subseteq> set ns" by (auto simp: FindNode_def dest: set_dropWhileD)
    then have "hd (FindNode ns b) \<in> set ns" using hd_in_set [OF False] by blast
    moreover have "x_name (hd (FindNode ns b)) = b" using FindNode_hd [OF False] by auto
    moreover have "FindNode ns' b \<noteq> []" using a False by auto
    ultimately show ?thesis using assms(3) [OF a False] False by (simp add: when_node_def)
  qed
qed

text \<open>Which updates do what.\<close>

lemma enhance_changes:
  assumes L: "xml_laws L" and "update_enhance L f m ns = Some ns'"
  shows "version_changed ns ns'"
  using assms(2)
proof (induction ns arbitrary: ns')
  case (Cons n ns)
  show ?case
  proof (cases "x_name n = cs ''enhance''")
    case False
    then show ?thesis using Cons.prems by (simp add: version_changed_def list_all2_refl)
  next
    case True
    then obtain n' ns1 where n': "(if xmlHasProp L n (cs ''version'')
        then do { s \<leftarrow> show_fld 12 f m; Some (xmlSetProp L n (cs ''version'') s) } else Some n) = Some n'"
      and u: "update_enhance L f m ns = Some ns1" and ns': "ns' = n' # ns1"
      using Cons.prems by (auto split: bind_splits)
    show ?thesis
    proof (cases "xmlHasProp L n (cs ''version'')")
      case False
      then show ?thesis using n' Cons.IH [OF u] by (simp add: ns' version_changed_def)
    next
      case h: True
      then obtain s where s: "n' = xmlSetProp L n (cs ''version'') s" using n' by (auto split: bind_splits)
      note p = set_prop [OF L h, of s]
      have "fst ` set (x_props n') = fst ` set (x_props n)" unfolding s using arg_cong [OF p(3), of set] by simp
      then show ?thesis using Cons.IH [OF u] p by (simp add: ns' s version_changed_def)
    qed
  qed
qed (simp add: version_changed_def)

lemma at_enhance_changes:
  "xml_laws L \<Longrightarrow> at_node b (update_enhance L f m) ns = Some ns' \<Longrightarrow> version_changed ns ns'"
  unfolding version_changed_def
  by (rule at_node_all2 [of b "update_enhance L f m"]) (auto dest: enhance_changes simp: version_changed_def)

lemma at_kids_changes:
  assumes "at_kids a u ns = Some ns'"
  shows "kids_changed ns ns'" and "a \<noteq> b \<Longrightarrow> kids_kept b ns ns'"
proof -
  let ?u = "\<lambda>ns. case ns of [] \<Rightarrow> None | n # rest \<Rightarrow> map_option (\<lambda>ks. with_kids n ks # rest) (u (x_kids n))"
  have a: "at_node a ?u ns = Some ns'" using assms by (simp add: at_kids_def)
  have f: "FindNode ns a = [] \<or> (\<exists>n r. FindNode ns a = n # r \<and> x_name n = a)" using FindNode_hd by blast
  show "kids_changed ns ns'"
    unfolding kids_changed_def
  proof (rule at_node_all2 [OF a])
    fix post assume "FindNode ns a \<noteq> []" "?u (FindNode ns a) = Some post"
    then show "list_all2 (\<lambda>n n'. x_name n' = x_name n \<and> x_props n' = x_props n) (FindNode ns a) post"
      using f assms by (cases "FindNode ns a") (auto simp: list_all2_refl)
  qed simp
  show "kids_kept b ns ns'" if "a \<noteq> b"
    unfolding kids_kept_def
  proof (rule at_node_all2 [OF a])
    fix post assume "FindNode ns a \<noteq> []" "?u (FindNode ns a) = Some post"
    then show "list_all2 (\<lambda>n n'. x_name n' = x_name n \<and> (x_name n = b \<longrightarrow> x_kids n' = x_kids n)) (FindNode ns a) post"
      using f that by (cases "FindNode ns a") (auto simp: list_all2_refl)
  qed simp
qed

text \<open>What reading does not notice.\<close>

lemma version_changed_kids_kept: "version_changed ns ns' \<Longrightarrow> kids_kept b ns ns'"
  unfolding version_changed_def kids_kept_def by (erule list_all2_mono) auto

lemma when_kids_kept: "kids_kept b ns ns' \<Longrightarrow> when_kids b p ns' = when_kids b p ns"
  unfolding when_kids_def kids_kept_def
  by (erule when_node_all2) (auto simp: list_all2_Cons1 neq_Nil_conv)

lemma parse_enhance_kids:
  assumes L: "xml_laws L" and "kids_changed ns ns'"
  shows "parse_enhance L tbl ns' = parse_enhance L tbl ns"
  using assms(2) unfolding kids_changed_def
proof (induction rule: list_all2_induct)
  case (Cons n ns n' ns')
  have h: "xmlHasProp L n' = xmlHasProp L n" using Cons by (simp add: fun_eq_iff has_prop [OF L])
  have w: "prop_word L n' k = prop_word L n k" if "xmlHasProp L n k" for k
    using get_same [OF L that, of n'] Cons by (simp add: prop_word_def)
  have "xmlHasProp L n k" if "List.find (\<lambda>(k, f). xmlHasProp L n k) tbl = Some (k, f)" for k f
    using that by (auto simp: find_Some_iff)
  then show ?case using Cons h w by (cases "List.find (\<lambda>(k, f). xmlHasProp L n k) tbl") auto
qed simp

lemma when_enhance_kids:
  "xml_laws L \<Longrightarrow> kids_changed ns ns' \<Longrightarrow> when_node b (parse_enhance L tbl) ns' = when_node b (parse_enhance L tbl) ns"
  unfolding kids_changed_def
  by (erule when_node_all2) (auto simp: parse_enhance_kids kids_changed_def)

lemma parse_modes_version:
  assumes L: "xml_laws L" and "version_changed ns ns'"
  shows "parse_each (parse_mode L sel f) i ns' = parse_each (parse_mode L sel f) i ns"
  using assms(2) unfolding version_changed_def
proof (induction arbitrary: i rule: list_all2_induct)
  case (Cons n ns n' ns')
  have h: "xmlHasProp L n' (cs ''mode'') = xmlHasProp L n (cs ''mode'')" using Cons by (simp add: has_prop [OF L])
  have "(cs ''mode'' :: byte list) \<noteq> cs ''version''" by (simp add: cs_def)
  then have g: "xmlGetProp L n' (cs ''mode'') = xmlGetProp L n (cs ''mode'')" if "xmlHasProp L n (cs ''mode'')"
    using get_same [OF L that, of n'] Cons by simp
  have "parse_mode L sel f i n' = parse_mode L sel f i n" using h g Cons by (simp add: parse_mode_def split: option.splits)
  then show ?case using Cons by simp
qed simp

lemma when_modes_version:
  "xml_laws L \<Longrightarrow> version_changed ns ns' \<Longrightarrow>
     when_node b (parse_each (parse_mode L sel f) i) ns' = when_node b (parse_each (parse_mode L sel f) i) ns"
  unfolding version_changed_def
  by (erule when_node_all2) (auto simp: parse_modes_version version_changed_def)

lemma modes_change_kids:
  "update_each (update_mode L sel u) i ns = Some ns' \<Longrightarrow> kids_changed ns ns'"
proof (induction ns arbitrary: i ns')
  case (Cons n ns)
  have "x_name n' = x_name n \<and> x_props n' = x_props n" if "update_mode L sel u i n = Some n'" for n'
    using that by (auto simp: update_mode_def split: if_splits option.splits)
  then show ?case using Cons by (auto simp: kids_changed_def split: bind_splits)
qed (simp add: kids_changed_def)

lemma at_modes_change_kids:
  "at_node b (update_each (update_mode L sel u) i) ns = Some ns' \<Longrightarrow> kids_changed ns ns'"
  unfolding kids_changed_def
  by (rule at_node_all2 [of b "update_each (update_mode L sel u) i"]) (auto dest: modes_change_kids simp: kids_changed_def)

text \<open>How the parsers are put together.\<close>

lemma at_section:
  assumes "xml_section p u X N"
  shows "xml_section (\<lambda>L. when_node b (p L)) (\<lambda>L m. at_node b (u L m)) X N"
  by (unfold_locales; rule xml_section.at_named [OF assms])

lemma modes_section:
  assumes "\<And>L m k ks ks'. xml_laws L \<Longrightarrow> N \<le> length m \<Longrightarrow> u L m k ks = Some ks'
      \<Longrightarrow> \<exists>as. p L k ks' = Some as \<and> from_mem X m as"
  shows "xml_section (\<lambda>L. parse_each (parse_mode L sel (p L)) 0) (\<lambda>L m. update_each (update_mode L sel (u L m)) 0) X N"
proof
  fix L m ns ns'
  assume L: "xml_laws L" "N \<le> length m" and u: "update_each (update_mode L sel (u L m)) 0 ns = Some ns'"
  have "map x_name ns' = map x_name ns \<and>
      (\<exists>as. parse_each (parse_mode L sel (p L)) 0 ns' = Some as \<and> from_mem X m as)"
    by (rule each_read_back [OF mode_read_back [OF L(1) assms [OF L]] u])
  then show "map x_name ns' = map x_name ns"
    "\<exists>as. parse_each (parse_mode L sel (p L)) 0 ns' = Some as \<and> from_mem X m as" by blast+
qed

lemma kids_section:
  assumes "\<And>L m ks ks'. xml_laws L \<Longrightarrow> N \<le> length m \<Longrightarrow> u L m ks = Some ks'
      \<Longrightarrow> \<exists>as. p L ks' = Some as \<and> from_mem X m as"
  shows "xml_section (\<lambda>L. when_kids b (p L)) (\<lambda>L m. at_kids b (u L m)) X N"
  unfolding when_kids_def at_kids_def
proof (rule at_section, unfold_locales)
  fix L m ns ns'
  assume "xml_laws L" "N \<le> length m"
    "(case ns of [] \<Rightarrow> None | n # rest \<Rightarrow> map_option (\<lambda>ks. with_kids n ks # rest) (u L m (x_kids n))) = Some ns'"
  then show "map x_name ns' = map x_name ns"
    "\<exists>as. (case ns' of [] \<Rightarrow> None | n # _ \<Rightarrow> p L (x_kids n)) = Some as \<and> from_mem X m as"
    using assms by (auto split: list.splits)
qed

lemma enhance_section:
  assumes "\<forall>(k, g) \<in> set tbl. g \<in> X \<and> (\<exists>ty off. g = Some (ty, off) \<and> off + cty_size ty \<le> N)"
  shows "xml_section (\<lambda>L. parse_enhance L ((cs ''version'', f) # tbl)) (\<lambda>L. update_enhance L f) X N"
proof
  fix L m ns ns'
  assume L: "xml_laws L" "N \<le> length m" "update_enhance L f m ns = Some ns'"
  have "\<forall>(k, g) \<in> set tbl. g \<in> X \<and> (\<exists>ty off. g = Some (ty, off) \<and> off + cty_size ty \<le> length m)"
    using assms L(2) by fastforce
  from enhance_read_back [OF L(1,3) this]
  show "map x_name ns' = map x_name ns"
    "\<exists>as. parse_enhance L ((cs ''version'', f) # tbl) ns' = Some as \<and> from_mem X m as" by blast+
qed

text \<open>A save that reports success has left the document in the file.\<close>

definition saves :: "'f libxml \<Rightarrow> byte list \<Rightarrow> (xnode \<Rightarrow> 'f \<Rightarrow> int \<times> 'f) \<Rightarrow> bool" where
  "saves L path save \<longleftrightarrow> (\<forall>d x x'. save d x = (0, x') \<longrightarrow> xmlReadFile L path x' = Some d)"

lemma save_stored:
  "xml_laws L \<Longrightarrow> xmlSaveFormatFileEnc L p d s = (r, s') \<Longrightarrow> r \<noteq> - 1 \<Longrightarrow> xmlReadFile L p s' = Some d"
  unfolding xml_laws_def by metis

lemma save_twice_saves: "xml_laws L \<Longrightarrow> saves L path (save_twice L path)"
  unfolding saves_def save_twice_def Let_def
  by (auto split: prod.splits if_splits intro: save_stored)

lemma save_retry_saves: "xml_laws L \<Longrightarrow> saves L path (save_retry L path)"
  unfolding saves_def save_retry_def Let_def
  by (auto split: prod.splits if_splits intro: save_stored)

lemma save_once_saves:
  assumes "xml_laws L" and "\<forall>p d x. fst (xmlSaveFormatFileEnc L p d x) \<noteq> - 1"
  shows "saves L path (save_once L path)"
  unfolding saves_def save_once_def using save_stored [OF assms(1) prod.collapse [symmetric]] assms(2) by auto

context xml_section begin

text \<open>Writing the block to the file and reading the file again: the block stays as it was; read into any
  other block, the fields the document names are those of the first.\<close>

lemma file_reads_back:
  assumes L: "xml_laws L" and u: "update_file L path root e (update L) save s = Some (0, s')" and "e \<noteq> 0"
    and s: "saves L path save" and N: "N \<le> length (q_ctx s)"
  shows "q_ctx s' = q_ctx s" and "\<exists>as doc. xmlReadFile L path (q_xml s') = Some doc \<and> x_name doc = root \<and>
      parse L (x_kids doc) = Some as \<and> from_mem X (q_ctx s) as"
proof -
  obtain doc ns x where d: "xmlReadFile L path (q_xml s) = Some doc" "x_name doc = root"
    and ns: "update L (q_ctx s) (x_kids doc) = Some ns"
    and x: "save (XNode (x_name doc) (x_props doc) ns) (q_xml s) = (0, x)" and s': "s' = s\<lparr>q_xml := x\<rparr>"
    using u assms(3) by (auto simp: update_file_def Let_def split: option.splits if_splits bind_splits prod.splits)
  show "q_ctx s' = q_ctx s" by (simp add: s')
  have "xmlReadFile L path x = Some (XNode root (x_props doc) ns)" using s x d by (simp add: saves_def)
  then show "\<exists>as doc. xmlReadFile L path (q_xml s') = Some doc \<and> x_name doc = root \<and>
      parse L (x_kids doc) = Some as \<and> from_mem X (q_ctx s) as"
    using reads_back [OF L N ns] by (auto simp: s')
qed

lemma file_copies:
  assumes "xml_laws L" and "update_file L path root e (update L) save s = Some (0, s')" and "e \<noteq> 0"
    and "saves L path save" and "N \<le> length (q_ctx s)" and "length ctx = length (q_ctx s)"
  shows "\<exists>as r s''. parse_file L path root e' (parse L) save' (s'\<lparr>q_ctx := ctx\<rparr>) = Some (r, s'') \<and>
     (\<exists>doc. r = fst (save' doc (q_xml s'))) \<and>
     length (q_ctx s'') = length ctx \<and>
     (\<forall>i < length ctx. \<not> in_flds X i \<longrightarrow> q_ctx s'' ! i = (if covers as i then q_ctx s ! i else ctx ! i))"
proof -
  obtain as doc where d: "xmlReadFile L path (q_xml s') = Some doc" "x_name doc = root"
    and as: "parse L (x_kids doc) = Some as" "from_mem X (q_ctx s) as"
    using file_reads_back(2) [OF assms(1-5)] by blast
  obtain m1 where "assigns as ctx = Some m1" "length m1 = length (q_ctx s)"
    "\<forall>i < length (q_ctx s). \<not> in_flds X i \<longrightarrow> m1 ! i = (if covers as i then q_ctx s ! i else ctx ! i)"
    using assigns_copy [OF as(2) assms(6)] by blast
  then show ?thesis using d as(1) assms(6) by (auto simp: parse_file_def case_prod_unfold Let_def)
qed

text \<open>In particular the block itself is left as it was.\<close>

lemma file_round_trip:
  assumes "xml_laws L" and "update_file L path root e (update L) save s = Some (0, s')" and "e \<noteq> 0"
    and "saves L path save" and "N \<le> length (q_ctx s)"
  shows "\<exists>r s''. parse_file L path root e' (parse L) save' s' = Some (r, s'') \<and>
     (\<exists>doc. r = fst (save' doc (q_xml s'))) \<and> length (q_ctx s'') = length (q_ctx s) \<and>
     (\<forall>i < length (q_ctx s). \<not> in_flds X i \<longrightarrow> q_ctx s'' ! i = q_ctx s ! i)"
proof -
  have "s'\<lparr>q_ctx := q_ctx s\<rparr> = s'" using file_reads_back(1) [OF assms] by (metis pq.surjective pq.update_convs(3))
  then show ?thesis using file_copies [OF assms refl, of e' save'] by fastforce
qed

end

section \<open>A library that keeps the laws\<close>

text \<open>Documents kept as they are, under their path.\<close>

definition ex_xml :: "(byte list \<Rightarrow> xnode option) libxml" where
  "ex_xml = \<lparr>xmlHasProp = (\<lambda>n k. k \<in> fst ` set (x_props n)),
     xmlGetProp = (\<lambda>n k. case map_of (x_props n) k of None \<Rightarrow> [] | Some v \<Rightarrow> v),
     xmlSetProp = (\<lambda>n k v. XNode (x_name n) (AList.update k v (x_props n)) (x_kids n)),
     xmlNewProp = (\<lambda>n k v. XNode (x_name n) (x_props n @ [(k, v)]) (x_kids n)),
     xmlReadFile = (\<lambda>p x. x p),
     xmlSaveFormatFileEnc = (\<lambda>p d x. (1, x(p \<mapsto> d)))\<rparr>"

lemma ex_xml_laws: "xml_laws ex_xml"
  by (auto simp: xml_laws_def ex_xml_def)

lemma ex_xml_saves: "\<forall>p d x. fst (xmlSaveFormatFileEnc ex_xml p d x) \<noteq> - 1"
  by (simp add: ex_xml_def)

text \<open>A state with those files and documents, and that block.\<close>

definition ex_pq :: "(byte list \<Rightarrow> byte list option) \<Rightarrow> (byte list \<Rightarrow> xnode option) \<Rightarrow> mem
    \<Rightarrow> (byte list \<Rightarrow> byte list, byte list \<Rightarrow> xnode option) pq" where
  "ex_pq d x m =
     \<lparr>q_fs = \<lparr>fs_sys = sample_sys, fs_data = d, fs_may = \<lambda>p. True, fs_cap = \<lambda>p. None, fs_ioerr = \<lambda>p. False\<rparr>,
      q_xml = x, q_ctx = m, q_errno = 2, q_slp = replicate 48 0, q_abc = replicate 48 0, q_lut = replicate 2916 0\<rparr>"

end
