(* ===== verification/PQGamma.thy ===== *)
theory PQGamma
  imports PQXml
begin

text \<open>
  The gamma parsers and the 3D table parser of the picture-quality module:
  \<open>PQParsers/GammaParsers.cpp\<close>, \<open>sharkl5/GammaParsersLiteR2p0.cpp\<close> and \<open>sharkl5Pro/HsvParsers.cpp\<close>. Each
  reads its XML file into the parameter block, writes the block to the file, and moves the tables between
  the block and the display driver. Shown: what is written is read back.
\<close>

definition gamma_xml :: "byte list" where "gamma_xml = cs ''/mnt/vendor/enhance/gamma.xml''"
definition hsv_xml :: "byte list" where "hsv_xml = cs ''/mnt/vendor/enhance/3d_lut.xml''"
definition DpuGamma :: "byte list" where "DpuGamma = cs ''/sys/class/display/dispc0/PQ/gamma''"
definition DpuLut3d :: "byte list" where "DpuLut3d = cs ''/sys/class/display/dispc0/PQ/lut3d''"

definition GAMMA_EN :: nat where "GAMMA_EN = 32"
definition LUT3D_EN :: nat where "LUT3D_EN = 512"

text \<open>The tables of red, green and blue values: \<open>n\<close> of each, from \<open>base\<close> on.\<close>

definition rgb_tbl :: "nat \<Rightarrow> nat \<Rightarrow> nat \<Rightarrow> (byte list \<times> fld) list" where
  "rgb_tbl n base j =
     [(cs ''r'', elem n j 2 U16 base), (cs ''g'', elem n j 2 U16 (base + 2 * n)), (cs ''b'', elem n j 2 U16 (base + 4 * n))]"

lemma narrow_rgb_tbl: "\<forall>j. \<forall>(k, f) \<in> set (rgb_tbl n base j). narrow f"
  by (simp add: rgb_tbl_def)

section \<open>GammaParsers.cpp\<close>

text \<open>\<open>gamma_common\<close> lies at offset 8 of \<open>pq_tuning_parm\<close>: version, enable, the tables.\<close>

definition parse_gamma_version :: "'f libxml \<Rightarrow> xnode list \<Rightarrow> assign list option" where
  "parse_gamma_version L = parse_enhance L [(cs ''version'', Some (U32, 8))]"

definition parse_gamma_regs_table :: "'f libxml \<Rightarrow> xnode list \<Rightarrow> assign list option" where
  "parse_gamma_regs_table L =
     parse_each (parse_mode L (\<lambda>_ _. Some 0) (\<lambda>_ kids. Some (parse_items L (rgb_tbl 256 16) 0 kids))) 0"

definition update_gamma_version :: "'f libxml \<Rightarrow> mem \<Rightarrow> xnode list \<Rightarrow> xnode list option" where
  "update_gamma_version L = update_enhance L (Some (U32, 8))"

definition update_gamma_regs_table :: "'f libxml \<Rightarrow> mem \<Rightarrow> xnode list \<Rightarrow> xnode list option" where
  "update_gamma_regs_table L m =
     update_each (update_mode L (\<lambda>_ _. Some 0) (\<lambda>_ kids. update_items L (rgb_tbl 256 16) m 0 kids)) 0"

text \<open>Reading a table of the driver, and writing it or switching the function off.\<close>

definition table_parse_reg :: "byte list \<Rightarrow> nat \<Rightarrow> nat \<Rightarrow> ('p, 'f) pq \<Rightarrow> (int \<times> ('p, 'f) pq) option" where
  "table_parse_reg path off n s =
     (if \<not> fs_open path (q_fs s) then Some (q_errno s, s)
      else do { (_, s') \<leftarrow> reg_read path off n s; Some (0, s') })"

definition table_update_reg :: "byte list \<Rightarrow> nat \<Rightarrow> nat \<Rightarrow> nat \<Rightarrow> nat \<Rightarrow> ('p, 'f) pq \<Rightarrow> (int \<times> ('p, 'f) pq) option" where
  "table_update_reg path enable bits off n s = do {
     en \<leftarrow> ld U32 enable (q_ctx s);
     if en \<noteq> 0
     then if \<not> fs_open path (q_fs s) then Some (q_errno s, s)
          else do { bs \<leftarrow> get (q_ctx s) off n; Some (0, reg_write path bs s) }
     else Some (reg_disable bits s)
   }"

definition GammaParser_parse_reg :: "('p, 'f) pq \<Rightarrow> (int \<times> ('p, 'f) pq) option" where
  "GammaParser_parse_reg = table_parse_reg DpuGamma 16 1536"

definition GammaParser_update_reg :: "('p, 'f) pq \<Rightarrow> (int \<times> ('p, 'f) pq) option" where
  "GammaParser_update_reg = table_update_reg DpuGamma 12 GAMMA_EN 16 1536"

definition GammaParser_update_xml :: "'f libxml \<Rightarrow> ('p, 'f) pq \<Rightarrow> (int \<times> ('p, 'f) pq) option" where
  "GammaParser_update_xml L =
     update_file L gamma_xml (cs ''gamma_config'') (- 1)
       (\<lambda>m ns. do {
          ns1 \<leftarrow> at_node (cs ''reg_table'') (update_gamma_regs_table L m) ns;
          at_node (cs ''enhance'') (update_gamma_version L m) ns1
        }) (save_once L gamma_xml)"

definition GammaParser_parse_xml :: "'f libxml \<Rightarrow> ('p, 'f) pq \<Rightarrow> (int \<times> ('p, 'f) pq) option" where
  "GammaParser_parse_xml L =
     parse_file L gamma_xml (cs ''gamma_config'') (- 1)
       (\<lambda>ns. do {
          as \<leftarrow> when_node (cs ''reg_table'') (parse_gamma_regs_table L) ns;
          bs \<leftarrow> when_node (cs ''enhance'') (parse_gamma_version L) ns;
          Some (as @ bs)
        }) (save_once L gamma_xml)"

section \<open>GammaParsersLiteR2p0.cpp\<close>

text \<open>\<open>gamma_common_sharkl5\<close> at offset 8: version, enable, \<open>nMode\<close>, \<open>nMajorVersion\<close> and two sets of tables,
  selected by the mode.\<close>

definition gamma_mode :: "byte list \<Rightarrow> nat \<Rightarrow> nat option" where
  "gamma_mode v i = (if v = cs ''default'' then Some 0 else if v = cs ''standard'' then Some 1 else None)"

definition parse_gamma_version_l5 :: "'f libxml \<Rightarrow> xnode list \<Rightarrow> assign list option" where
  "parse_gamma_version_l5 L = parse_enhance L [(cs ''version'', Some (U32, 8)), (cs ''major_version'', Some (U16, 18))]"

definition parse_gamma_child_config :: "'f libxml \<Rightarrow> nat \<Rightarrow> xnode list \<Rightarrow> assign list option" where
  "parse_gamma_child_config L i kids = Some (parse_items L (rgb_tbl 256 (20 + i * 1536)) 0 kids)"

definition parse_gamma_regs_table_l5 :: "'f libxml \<Rightarrow> xnode list \<Rightarrow> assign list option" where
  "parse_gamma_regs_table_l5 L = parse_each (parse_mode L gamma_mode (parse_gamma_child_config L)) 0"

definition update_gamma_version_l5 :: "'f libxml \<Rightarrow> mem \<Rightarrow> xnode list \<Rightarrow> xnode list option" where
  "update_gamma_version_l5 L = update_enhance L (Some (U32, 8))"

definition update_gamma_child_config :: "'f libxml \<Rightarrow> mem \<Rightarrow> nat \<Rightarrow> xnode list \<Rightarrow> xnode list option" where
  "update_gamma_child_config L m i kids = update_items L (rgb_tbl 256 (20 + i * 1536)) m 0 kids"

definition update_gamma_regs_table_l5 :: "'f libxml \<Rightarrow> mem \<Rightarrow> xnode list \<Rightarrow> xnode list option" where
  "update_gamma_regs_table_l5 L m = update_each (update_mode L gamma_mode (update_gamma_child_config L m)) 0"

definition GammaParserLiteR2p0_parse_reg :: "('p, 'f) pq \<Rightarrow> (int \<times> ('p, 'f) pq) option" where
  "GammaParserLiteR2p0_parse_reg = table_parse_reg DpuGamma 20 3072"

definition GammaParserLiteR2p0_update_reg :: "('p, 'f) pq \<Rightarrow> (int \<times> ('p, 'f) pq) option" where
  "GammaParserLiteR2p0_update_reg = table_update_reg DpuGamma 12 GAMMA_EN 20 3072"

definition GammaParserLiteR2p0_update_xml :: "'f libxml \<Rightarrow> ('p, 'f) pq \<Rightarrow> (int \<times> ('p, 'f) pq) option" where
  "GammaParserLiteR2p0_update_xml L =
     update_file L gamma_xml (cs ''gamma_config'') 1
       (\<lambda>m ns. do {
          ns1 \<leftarrow> at_node (cs ''reg_table'') (update_gamma_regs_table_l5 L m) ns;
          at_node (cs ''enhance'') (update_gamma_version_l5 L m) ns1
        }) (save_twice L gamma_xml)"

definition GammaParserLiteR2p0_parse_xml :: "'f libxml \<Rightarrow> ('p, 'f) pq \<Rightarrow> (int \<times> ('p, 'f) pq) option" where
  "GammaParserLiteR2p0_parse_xml L =
     parse_file L gamma_xml (cs ''gamma_config'') 1
       (\<lambda>ns. do {
          as \<leftarrow> when_node (cs ''reg_table'') (parse_gamma_regs_table_l5 L) ns;
          bs \<leftarrow> when_node (cs ''enhance'') (parse_gamma_version_l5 L) ns;
          Some (as @ bs)
        }) (save_once L gamma_xml)"

section \<open>HsvParsers.cpp\<close>

text \<open>\<open>hsv_common_sharkl5Pro\<close> at offset 26300 of \<open>pq_tuning_parm_sharkl5Pro\<close>: version, enable,
  \<open>nMajorVersion\<close>, \<open>flag_bit_no\<close> and three sets of tables of 729 values, selected by the position.\<close>

definition parse_hsv_version :: "'f libxml \<Rightarrow> xnode list \<Rightarrow> assign list option" where
  "parse_hsv_version L = parse_enhance L [(cs ''version'', Some (U32, 26300)), (cs ''major_version'', Some (U32, 26308))]"

definition hsv_tbl :: "nat \<Rightarrow> nat \<Rightarrow> (byte list \<times> fld) list" where
  "hsv_tbl i j = (if i < 3 then rgb_tbl 729 (26316 + i * 4374) j else map (\<lambda>(k, _). (k, None)) (rgb_tbl 729 0 j))"

definition parse_hsv_regs_table :: "'f libxml \<Rightarrow> xnode list \<Rightarrow> assign list option" where
  "parse_hsv_regs_table L =
     parse_each (parse_mode L (\<lambda>_ i. Some i) (\<lambda>i kids. Some (parse_items L (hsv_tbl i) 0 kids))) 0"

definition update_hsv_version :: "'f libxml \<Rightarrow> mem \<Rightarrow> xnode list \<Rightarrow> xnode list option" where
  "update_hsv_version L = update_enhance L (Some (U32, 26300))"

definition update_hsv_regs_table :: "'f libxml \<Rightarrow> mem \<Rightarrow> xnode list \<Rightarrow> xnode list option" where
  "update_hsv_regs_table L m =
     update_each (update_mode L (\<lambda>_ i. Some i) (\<lambda>i kids. update_items L (hsv_tbl i) m 0 kids)) 0"

text \<open>The driver's table packs the three ten-bit values of an entry into a word.\<close>

definition lut_value :: "32 word \<Rightarrow> 32 word \<Rightarrow> 32 word \<Rightarrow> 32 word" where
  "lut_value r g b = or (or (push_bit 20 (and r 1023)) (push_bit 10 (and g 1023))) (and b 1023)"

definition lut_split :: "32 word \<Rightarrow> 32 word \<times> 32 word \<times> 32 word" where
  "lut_split v = (and (drop_bit 20 v) 1023, and (drop_bit 10 v) 1023, and v 1023)"

definition ld_word :: "nat \<Rightarrow> mem \<Rightarrow> 32 word option" where
  "ld_word off m = map_option (\<lambda>bs. word_of_nat (de32 bs)) (get m off 4)"

definition ld_short :: "nat \<Rightarrow> mem \<Rightarrow> 32 word option" where
  "ld_short off m = map_option (\<lambda>bs. word_of_nat (de16 bs)) (get m off 2)"

fun unpack_lut :: "nat \<Rightarrow> nat \<Rightarrow> mem \<Rightarrow> mem \<Rightarrow> mem option" where
  "unpack_lut 0 i lut m = Some m"
| "unpack_lut (Suc n) i lut m = do {
     v \<leftarrow> ld_word (4 * i) lut;
     (let (r, g, b) = lut_split v in do {
        m1 \<leftarrow> st U16 (26316 + 2 * i) r m;
        m2 \<leftarrow> st U16 (26316 + 1458 + 2 * i) g m1;
        m3 \<leftarrow> st U16 (26316 + 2916 + 2 * i) b m2;
        unpack_lut n (Suc i) lut m3
      })
   }"

fun pack_lut :: "nat \<Rightarrow> nat \<Rightarrow> mem \<Rightarrow> byte list option" where
  "pack_lut 0 i m = Some []"
| "pack_lut (Suc n) i m = do {
     r \<leftarrow> ld_short (26316 + 2 * i) m;
     g \<leftarrow> ld_short (26316 + 1458 + 2 * i) m;
     b \<leftarrow> ld_short (26316 + 2916 + 2 * i) m;
     rest \<leftarrow> pack_lut n (Suc i) m;
     Some (le32 (unat (lut_value r g b)) @ rest)
   }"

text \<open>Reading keeps what a short or failing read leaves in the static buffer.\<close>

definition HsvParser_parse_reg :: "('p, 'f) pq \<Rightarrow> (int \<times> ('p, 'f) pq) option" where
  "HsvParser_parse_reg s =
     (if \<not> fs_open DpuLut3d (q_fs s) then Some (q_errno s, s)
      else do {
        lut \<leftarrow> (case fs_read DpuLut3d 0 2916 (q_fs s) of None \<Rightarrow> Some (q_lut s) | Some bs \<Rightarrow> put (q_lut s) 0 bs);
        ctx \<leftarrow> unpack_lut 729 0 lut (q_ctx s);
        Some (0, s\<lparr>q_lut := lut, q_ctx := ctx\<rparr>)
      })"

definition HsvParser_update_reg :: "('p, 'f) pq \<Rightarrow> (int \<times> ('p, 'f) pq) option" where
  "HsvParser_update_reg s = do {
     en \<leftarrow> ld U32 26304 (q_ctx s);
     if en \<noteq> 0
     then if \<not> fs_open DpuLut3d (q_fs s) then Some (q_errno s, s)
          else do { lut \<leftarrow> pack_lut 729 0 (q_ctx s); Some (0, reg_write DpuLut3d lut (s\<lparr>q_lut := lut\<rparr>)) }
     else Some (reg_disable LUT3D_EN s)
   }"

definition HsvParser_update_xml :: "'f libxml \<Rightarrow> ('p, 'f) pq \<Rightarrow> (int \<times> ('p, 'f) pq) option" where
  "HsvParser_update_xml L =
     update_file L hsv_xml (cs ''LUT_config'') (- 1)
       (\<lambda>m ns. do {
          ns1 \<leftarrow> at_node (cs ''reg_table'') (update_hsv_regs_table L m) ns;
          at_node (cs ''enhance'') (update_hsv_version L m) ns1
        }) (save_once L hsv_xml)"

definition HsvParser_parse_xml :: "'f libxml \<Rightarrow> ('p, 'f) pq \<Rightarrow> (int \<times> ('p, 'f) pq) option" where
  "HsvParser_parse_xml L =
     parse_file L hsv_xml (cs ''LUT_config'') (- 1)
       (\<lambda>ns. do {
          as \<leftarrow> when_node (cs ''reg_table'') (parse_hsv_regs_table L) ns;
          bs \<leftarrow> when_node (cs ''enhance'') (parse_hsv_version L) ns;
          Some (as @ bs)
        }) (save_once L hsv_xml)"

section \<open>What is written is read back\<close>

lemma regs_then_version:
  assumes "\<And>L :: 'f libxml. \<And>m k ks ks'. xml_laws L \<Longrightarrow> N \<le> length m \<Longrightarrow> u L m k ks = Some ks'
      \<Longrightarrow> \<exists>as. p L k ks' = Some as \<and> from_mem X m as"
    and "\<forall>(k, g) \<in> set tbl. g \<in> Y \<and> (\<exists>ty off. g = Some (ty, off) \<and> off + cty_size ty \<le> N)"
  shows "two_sections (\<lambda>L. when_node b (parse_each (parse_mode L sel (p L)) 0))
    (\<lambda>L :: 'f libxml. \<lambda>m. at_node b (update_each (update_mode L sel (u L m)) 0)) X N
    (\<lambda>L. when_node e (parse_enhance L ((cs ''version'', f) # tbl))) (\<lambda>L m. at_node e (update_enhance L f m)) Y"
proof (intro two_sections.intro two_sections_axioms.intro)
  show "xml_section (\<lambda>L :: 'f libxml. when_node b (parse_each (parse_mode L sel (p L)) 0))
      (\<lambda>L m. at_node b (update_each (update_mode L sel (u L m)) 0)) X N"
    by (intro at_section modes_section assms(1))
  show "xml_section (\<lambda>L :: 'f libxml. when_node e (parse_enhance L ((cs ''version'', f) # tbl)))
      (\<lambda>L m. at_node e (update_enhance L f m)) Y N"
    by (intro at_section enhance_section assms(2))
qed (rule when_modes_version, assumption, rule at_enhance_changes)


lemma narrow_hsv_tbl: "\<forall>j. \<forall>(k, f) \<in> set (hsv_tbl i j). narrow f"
  by (simp add: hsv_tbl_def rgb_tbl_def)

interpretation gamma: two_sections "\<lambda>L. when_node (cs ''reg_table'') (parse_gamma_regs_table L)"
  "\<lambda>L m. at_node (cs ''reg_table'') (update_gamma_regs_table L m)" "{}" 0
  "\<lambda>L. when_node (cs ''enhance'') (parse_gamma_version L)"
  "\<lambda>L m. at_node (cs ''enhance'') (update_gamma_version L m)" "{}"
  unfolding parse_gamma_regs_table_def update_gamma_regs_table_def parse_gamma_version_def update_gamma_version_def
  by (rule regs_then_version) (auto intro: items_from_mem [OF _ _ narrow_rgb_tbl])

interpretation gamma_l5: two_sections "\<lambda>L. when_node (cs ''reg_table'') (parse_gamma_regs_table_l5 L)"
  "\<lambda>L m. at_node (cs ''reg_table'') (update_gamma_regs_table_l5 L m)" "{}" 20
  "\<lambda>L. when_node (cs ''enhance'') (parse_gamma_version_l5 L)"
  "\<lambda>L m. at_node (cs ''enhance'') (update_gamma_version_l5 L m)" "{Some (U16, 18)}"
  unfolding parse_gamma_regs_table_l5_def update_gamma_regs_table_l5_def parse_gamma_version_l5_def
    update_gamma_version_l5_def
  by (rule regs_then_version)
     (auto simp: parse_gamma_child_config_def update_gamma_child_config_def intro: items_from_mem [OF _ _ narrow_rgb_tbl])

interpretation hsv: two_sections "\<lambda>L. when_node (cs ''reg_table'') (parse_hsv_regs_table L)"
  "\<lambda>L m. at_node (cs ''reg_table'') (update_hsv_regs_table L m)" "{}" 26316
  "\<lambda>L. when_node (cs ''enhance'') (parse_hsv_version L)"
  "\<lambda>L m. at_node (cs ''enhance'') (update_hsv_version L m)" "{Some (U32, 26308)}"
  unfolding parse_hsv_regs_table_def update_hsv_regs_table_def parse_hsv_version_def update_hsv_version_def
  by (rule regs_then_version) (auto intro: items_from_mem [OF _ _ narrow_hsv_tbl])

text \<open>: when writing the gamma file reports success, reading it into any block of the size brings exactly the
  fields the file names (the gamma tables and the version) from the block that was written and leaves the
  rest, the major version aside, which is read but never written.\<close>

theorem GammaParserLiteR2p0_copies:
  assumes "xml_laws L" and "GammaParserLiteR2p0_update_xml L s = Some (0, s')"
    and "20 \<le> length (q_ctx s)" and "length ctx = length (q_ctx s)"
  shows "\<exists>as s''. GammaParserLiteR2p0_parse_xml L (s'\<lparr>q_ctx := ctx\<rparr>) = Some (0, s'') \<and> length (q_ctx s'') = length ctx \<and>
     (\<forall>i < length ctx. i \<noteq> 18 \<and> i \<noteq> 19 \<longrightarrow> q_ctx s'' ! i = (if covers as i then q_ctx s ! i else ctx ! i))"
proof -
  have X: "in_flds ({} \<union> {Some (U16, 18)}) i \<longleftrightarrow> i = 18 \<or> i = 19" for i by (auto simp: in_flds_def)
  show ?thesis
    using gamma_l5.both.file_copies [OF assms(1) assms(2) [unfolded GammaParserLiteR2p0_update_xml_def] _
      save_twice_saves [OF assms(1)] assms(3,4), of 1 "save_once L gamma_xml"]
    unfolding GammaParserLiteR2p0_parse_xml_def X by (fastforce simp: save_once_def)
qed

definition ex_gamma_doc :: xnode where
  "ex_gamma_doc = XNode (cs ''gamma_config'') []
     [XNode (cs ''reg_table'') [(cs ''mode'', cs ''default'')] [XNode (cs ''param'') [(cs ''r'', cs ''9'')] []],
      XNode (cs ''enhance'') [(cs ''version'', cs ''3'')] [], XNode (cs ''end'') [] []]"

theorem GammaParserLiteR2p0_copies_witness:
  "\<exists>s' as s''. GammaParserLiteR2p0_update_xml ex_xml (ex_pq Map.empty [gamma_xml \<mapsto> ex_gamma_doc] (replicate 20 0 @ [7, 0])) = Some (0, s') \<and>
     GammaParserLiteR2p0_parse_xml ex_xml (s'\<lparr>q_ctx := replicate 22 1\<rparr>) = Some (0, s'') \<and>
     (\<forall>i < 22. i \<noteq> 18 \<and> i \<noteq> 19 \<longrightarrow> q_ctx s'' ! i = (if covers as i then (replicate 20 0 @ [7, 0]) ! i else replicate 22 1 ! i))"
proof -
  let ?s = "ex_pq Map.empty [gamma_xml \<mapsto> ex_gamma_doc] (replicate 20 0 @ [7, 0])"
  have u: "\<exists>s'. GammaParserLiteR2p0_update_xml ex_xml ?s = Some (0, s')"
    by (simp add: GammaParserLiteR2p0_update_xml_def update_file_def ex_pq_def ex_xml_def ex_gamma_doc_def at_node_def
      FindNode_def update_gamma_regs_table_l5_def update_gamma_version_l5_def update_mode_def gamma_mode_def
      update_gamma_child_config_def update_attrs_def rgb_tbl_def elem_def show_fld_def ld_def get_def de32_def
      show_int_def show_nat_digit save_twice_def with_kids_def cs_def)
  then obtain s' where s': "GammaParserLiteR2p0_update_xml ex_xml ?s = Some (0, s')" by blast
  have l: "20 \<le> length (q_ctx ?s)" "length (replicate 22 1) = length (q_ctx ?s)" by (simp_all add: ex_pq_def)
  show ?thesis using GammaParserLiteR2p0_copies [OF ex_xml_laws s' l] s' by (auto simp: ex_pq_def)
qed

section \<open>The packed table of the driver\<close>

lemma mask_ten: "(1023 :: 32 word) = mask 10"
  by (simp add: mask_eq_exp_minus_1)

lemma lut_split_bits: "lut_split (lut_value r g b) = (take_bit 10 r, take_bit 10 g, take_bit 10 b)"
  unfolding lut_split_def lut_value_def mask_ten prod.inject
  by (intro conjI; rule bit_word_eqI) (auto simp: bit_simps)

lemma lut_split_value:
  assumes "r < 1024" and "g < 1024" and "b < 1024"
  shows "lut_split (lut_value r g b) = (r, g, b)"
proof -
  have "take_bit 10 x = x" if "x < 1024" for x :: "32 word"
    using that by (simp add: take_bit_word_eq_self word_less_nat_alt unsigned_less take_bit_eq_mask less_mask_eq)
  then show ?thesis using assms by (simp add: lut_split_bits)
qed

lemma st_ld_short:
  assumes "ld_short off m = Some v"
  shows "st U16 off v m = Some m"
proof -
  obtain bs where g: "get m off 2 = Some bs" and v: "v = word_of_nat (de16 bs)" using assms by (auto simp: ld_short_def)
  obtain a b where ab: "bs = [a, b]" using list2 get_length [OF g] by blast
  have "unat v = de16 bs" unfolding v by (subst unat_of_nat) (use de16_bound [of bs] in simp)
  then have "unat v = unat a + 256 * unat b" by (simp add: ab de16_def)
  then have "take 2 (le32 (unat v)) = [a, b]"
    using le32_digits [of a b 0 0] by simp
  moreover have "put m off [a, b] = Some m" using put_get_id [OF g] ab by simp
  ultimately show ?thesis by (simp add: st_def field_bytes_def)
qed

lemma ld_word_at:
  "length pre = off \<Longrightarrow> ld_word off (pre @ le32 (unat v) @ post) = Some v"
  by (simp add: ld_word_def get_def de32_le32 unat_of_nat unsigned_less [of v, where 'a = nat, simplified])

text \<open>The values of the first three tables, below 1024.\<close>

definition lut_small :: "nat \<Rightarrow> nat \<Rightarrow> mem \<Rightarrow> bool" where
  "lut_small n i m \<longleftrightarrow> (\<forall>j < n. \<forall>off \<in> {26316, 27774, 29232}. \<exists>v. ld_short (off + 2 * (i + j)) m = Some v \<and> v < 1024)"

lemma lut_small_Suc:
  assumes "lut_small (Suc n) i m"
  shows "lut_small n (Suc i) m"
    and "off \<in> {26316, 27774, 29232} \<Longrightarrow> \<exists>v. ld_short (off + 2 * i) m = Some v \<and> v < 1024"
proof -
  show "lut_small n (Suc i) m"
    unfolding lut_small_def
  proof (intro allI impI)
    fix j assume "j < n"
    then show "\<forall>off \<in> {26316, 27774, 29232}. \<exists>v. ld_short (off + 2 * (Suc i + j)) m = Some v \<and> v < 1024"
      using assms [unfolded lut_small_def, rule_format, of "Suc j"] by simp
  qed
  show "off \<in> {26316, 27774, 29232} \<Longrightarrow> \<exists>v. ld_short (off + 2 * i) m = Some v \<and> v < 1024"
    using assms [unfolded lut_small_def, rule_format, of 0 off] by simp
qed

lemma unpack_pack:
  assumes "lut_small n i m" and "length pre = 4 * i"
  shows "\<exists>bs. pack_lut n i m = Some bs \<and> length bs = 4 * n \<and> unpack_lut n i (pre @ bs @ post) m = Some m"
  using assms
proof (induction n arbitrary: i pre)
  case 0
  then show ?case by simp
next
  case (Suc n)
  note small = lut_small_Suc [OF Suc.prems(1)]
  obtain r where r: "ld_short (26316 + 2 * i) m = Some r" "r < 1024" using small(2) [of 26316] by auto
  obtain g where g: "ld_short (27774 + 2 * i) m = Some g" "g < 1024" using small(2) [of 27774] by auto
  obtain b where b: "ld_short (29232 + 2 * i) m = Some b" "b < 1024" using small(2) [of 29232] by auto
  let ?v = "lut_value r g b"
  have "length (pre @ le32 (unat ?v)) = 4 * Suc i" using Suc.prems(2) by simp
  from Suc.IH [OF small(1) this] obtain bs where bs: "pack_lut n (Suc i) m = Some bs" "length bs = 4 * n"
    "unpack_lut n (Suc i) ((pre @ le32 (unat ?v)) @ bs @ post) m = Some m" by blast
  have w: "ld_word (4 * i) (pre @ le32 (unat ?v) @ bs @ post) = Some ?v" by (rule ld_word_at [OF Suc.prems(2)])
  have "unpack_lut (Suc n) i (pre @ (le32 (unat ?v) @ bs) @ post) m = Some m"
    using bs(3) st_ld_short [OF r(1)] st_ld_short [OF g(1)] st_ld_short [OF b(1)] w
    by (simp add: lut_split_value [OF r(2) g(2) b(2)])
  moreover have "pack_lut (Suc n) i m = Some (le32 (unat ?v) @ bs)" using bs r g b by simp
  ultimately show ?case using bs(2) by simp
qed

text \<open>: a 3D table of ten-bit values that was written to the driver is read back as it was.\<close>

theorem HsvParser_regs_read_back:
  assumes "lut_small 729 0 (q_ctx s)" and "ld U32 26304 (q_ctx s) = Some en" and "en \<noteq> 0"
    and "fs_open DpuLut3d (q_fs s)" and "\<not> fs_ioerr (q_fs s) DpuLut3d" and "fs_cap (q_fs s) DpuLut3d = None"
    and "length (q_lut s) = 2916"
  shows "\<exists>s' s''. HsvParser_update_reg s = Some (0, s') \<and> HsvParser_parse_reg s' = Some (0, s'') \<and> q_ctx s'' = q_ctx s"
proof -
  obtain bs where bs: "pack_lut 729 0 (q_ctx s) = Some bs" "length bs = 2916"
    and u: "unpack_lut 729 0 bs (q_ctx s) = Some (q_ctx s)"
    using unpack_pack [OF assms(1), of "[]" "[]"] by auto
  define s' where "s' = reg_write DpuLut3d bs (s\<lparr>q_lut := bs\<rparr>)"
  have w: "HsvParser_update_reg s = Some (0, s')"
    using assms(2-4) bs(1) by (simp add: HsvParser_update_reg_def s'_def)
  have "bs \<noteq> []" using bs(2) by auto
  then have "fs_write DpuLut3d 0 bs (q_fs s) =
      (2916, q_fs s\<lparr>fs_data := (fs_data (q_fs s))(DpuLut3d \<mapsto> overlay 0 bs (fs_content DpuLut3d (q_fs s)))\<rparr>)"
    using assms(5,6) bs(2) by (simp add: fs_write_def)
  then have q: "q_fs s' = q_fs s\<lparr>fs_data := (fs_data (q_fs s))(DpuLut3d \<mapsto> bs @ drop 2916 (fs_content DpuLut3d (q_fs s)))\<rparr>"
    "q_ctx s' = q_ctx s" "q_lut s' = bs"
    using bs(2) by (simp_all add: s'_def reg_write_def overlay_0)
  have "fs_read DpuLut3d 0 2916 (q_fs s') = Some bs" "fs_open DpuLut3d (q_fs s')"
    using assms(4,5) bs(2) by (simp_all add: q fs_read_def fs_content_def fs_open_def)
  then have "HsvParser_parse_reg s' = Some (0, s'\<lparr>q_lut := bs, q_ctx := q_ctx s\<rparr>)"
    using u bs(2) by (simp add: HsvParser_parse_reg_def q put_def)
  then show ?thesis using w by fastforce
qed

definition ex_lut_ctx :: mem where
  "ex_lut_ctx = replicate 26304 0 @ [1, 0, 0, 0] @ replicate 4382 0"

lemma get_two_zeros: "length pre \<le> k \<Longrightarrow> k + 2 \<le> length pre + n \<Longrightarrow> get (pre @ replicate n 0) k 2 = Some [0, 0]"
  by (simp add: get_def min_def numeral_2_eq_2)

lemma ex_lut_small: "lut_small 729 0 ex_lut_ctx"
  unfolding lut_small_def
proof (intro allI impI ballI)
  fix j off assume j: "j < (729 :: nat)" and off: "off \<in> {26316, 27774, 29232 :: nat}"
  then have "26316 \<le> off" "off \<le> 29232" by auto
  then have "get ((replicate 26304 0 @ [1, 0, 0, 0]) @ replicate 4382 0) (off + 2 * (0 + j)) 2 = Some [0, 0]"
    using j by (intro get_two_zeros) simp_all
  then show "\<exists>v. ld_short (off + 2 * (0 + j)) ex_lut_ctx = Some v \<and> v < 1024"
    by (simp add: ld_short_def de16_def ex_lut_ctx_def)
qed

lemma ex_lut_enabled: "ld U32 26304 ex_lut_ctx = Some 1"
proof -
  have "get (replicate 26304 0 @ [1, 0, 0, 0] @ replicate 4382 0) 26304 4 = Some [1, 0, 0, 0]"
    by (rule get_pre) simp_all
  then show ?thesis by (simp add: ld_def de32_def ex_lut_ctx_def)
qed

theorem HsvParser_regs_read_back_witness:
  "\<exists>s' s''. HsvParser_update_reg (ex_pq [DpuLut3d \<mapsto> []] Map.empty ex_lut_ctx) = Some (0, s') \<and>
     HsvParser_parse_reg s' = Some (0, s'') \<and> q_ctx s'' = ex_lut_ctx"
proof -
  let ?s = "ex_pq [DpuLut3d \<mapsto> []] Map.empty ex_lut_ctx"
  have e: "ld U32 26304 (q_ctx ?s) = Some 1" using ex_lut_enabled by (simp add: ex_pq_def)
  have c: "q_ctx ?s = ex_lut_ctx" by (simp add: ex_pq_def)
  show ?thesis
    using HsvParser_regs_read_back [of ?s, OF _ e] ex_lut_small unfolding c by (simp add: ex_pq_def fs_open_def)
qed

end
