(* ===== verification/PQBld.thy ===== *)
theory PQBld
  imports PQGamma
begin

text \<open>
  The parsers for the colour settings of a fixed picture: \<open>PQParsers/BldParsers.cpp\<close> and
  \<open>sharkl5/BldParsersLiteR2p0.cpp\<close>; hue and saturation tables, colour matrices and their ranges in the
  XML files, the parameter block and the display driver. Shown: what is written is read back.
\<close>

definition bld_xml :: "byte list" where "bld_xml = cs ''/mnt/vendor/enhance/bld.xml''"
definition DpuHsv :: "byte list" where "DpuHsv = cs ''/sys/class/display/dispc0/PQ/hsv''"
definition DpuCm :: "byte list" where "DpuCm = cs ''/sys/class/display/dispc0/PQ/cm''"
definition EPF_EN :: nat where "EPF_EN = 2"
definition HSV_EN :: nat where "HSV_EN = 4"
definition CMS_EN :: nat where "CMS_EN = 8"
definition LTM_EN :: nat where "LTM_EN = 64"

section \<open>Tables and matrices\<close>

text \<open>\<open>hsv_lut\<close>: 360 pairs of hue and saturation. \<open>cm_cfg\<close>: twelve signed coefficients. Behind the end of the
  array they are in, \<open>ok\<close> is false.\<close>

definition hsv_items :: "bool \<Rightarrow> nat \<Rightarrow> nat \<Rightarrow> (byte list \<times> fld) list" where
  "hsv_items ok base j =
     [(cs ''hue'', if ok then elem 360 j 4 U16 base else None), (cs ''sat'', if ok then elem 360 j 4 U16 (base + 2) else None)]"

definition coef_names :: "byte list list" where
  "coef_names = [cs ''coef00'', cs ''coef01'', cs ''coef02'', cs ''coef03'', cs ''coef10'', cs ''coef11'',
     cs ''coef12'', cs ''coef13'', cs ''coef20'', cs ''coef21'', cs ''coef22'', cs ''coef23'']"

definition range_names :: "byte list list" where
  "range_names = [cs ''rmin'', cs ''rmax'', cs ''gmin'', cs ''gmax'', cs ''bmin'', cs ''bmax'']"

fun short_tbl :: "bool \<Rightarrow> nat \<Rightarrow> byte list list \<Rightarrow> (byte list \<times> fld) list" where
  "short_tbl ok off [] = []"
| "short_tbl ok off (k # ks) = (k, if ok then Some (S16, off) else None) # short_tbl ok (off + 2) ks"

lemma narrow_hsv_items: "\<forall>j. \<forall>(k, f) \<in> set (hsv_items ok base j). narrow f"
  by (simp add: hsv_items_def)

lemma narrow_short_tbl: "\<forall>(k, f) \<in> set (short_tbl ok off ks). narrow f"
  by (induction ok off ks rule: short_tbl.induct) auto

lemma chain_from_mem:
  assumes "xml_laws L" and "chain_all L m tbl ks = Some ks'" and "\<forall>(k, f) \<in> set tbl. narrow f"
  shows "from_mem X m (fst (parse_chain L tbl ks'))"
  using chain_read_back [OF assms(1) _ assms(3)] assms(2) by (auto simp: chain_all_def)

section \<open>BldParsers.cpp\<close>

text \<open>\<open>bld_common\<close> at offset 1552: version, enable, mode, and three pairs of table and matrix of 1464 bytes.\<close>

definition bld_mode :: "byte list \<Rightarrow> nat \<Rightarrow> nat option" where
  "bld_mode v i = (if v = cs ''default'' \<or> v = cs ''middle'' \<or> v = cs ''high'' then Some i else None)"

text \<open>The matrix is in the sibling behind the table; a missing node is dereferenced.\<close>

definition parse_hsvcm :: "'f libxml \<Rightarrow> nat \<Rightarrow> nat \<Rightarrow> xnode list \<Rightarrow> assign list option" where
  "parse_hsvcm L base i kids =
     (case kids of
        h # c # _ \<Rightarrow> Some (parse_items L (hsv_items (i < 3) (base + i * 1464)) 0 (x_kids h) @
            fst (parse_chain L (short_tbl (i < 3) (base + i * 1464 + 1440) coef_names) (x_kids c)))
      | _ \<Rightarrow> None)"

definition update_hsvcm :: "'f libxml \<Rightarrow> nat \<Rightarrow> mem \<Rightarrow> nat \<Rightarrow> xnode list \<Rightarrow> xnode list option" where
  "update_hsvcm L base m i kids =
     (case kids of
        h # c # rest \<Rightarrow> do {
          hs \<leftarrow> update_items L (hsv_items (i < 3) (base + i * 1464)) m 0 (x_kids h);
          ms \<leftarrow> chain_all L m (short_tbl (i < 3) (base + i * 1464 + 1440) coef_names) (x_kids c);
          Some (with_kids h hs # with_kids c ms # rest)
        }
      | _ \<Rightarrow> None)"

definition parse_bld_version :: "'f libxml \<Rightarrow> xnode list \<Rightarrow> assign list option" where
  "parse_bld_version L = parse_enhance L [(cs ''version'', Some (U32, 1552))]"

definition parse_bld_hsvcm :: "'f libxml \<Rightarrow> xnode list \<Rightarrow> assign list option" where
  "parse_bld_hsvcm L = parse_each (parse_mode L bld_mode (parse_hsvcm L 1564)) 0"

definition update_bld_version :: "'f libxml \<Rightarrow> mem \<Rightarrow> xnode list \<Rightarrow> xnode list option" where
  "update_bld_version L = update_enhance L (Some (U32, 1552))"

definition update_bld_hsvcm :: "'f libxml \<Rightarrow> mem \<Rightarrow> xnode list \<Rightarrow> xnode list option" where
  "update_bld_hsvcm L m = update_each (update_mode L bld_mode (update_hsvcm L 1564 m)) 0"

definition BldParser_parse_reg :: "('p, 'f) pq \<Rightarrow> (int \<times> ('p, 'f) pq) option" where
  "BldParser_parse_reg s =
     (if \<not> fs_open DpuHsv (q_fs s) \<or> \<not> fs_open DpuCm (q_fs s) then Some (q_errno s, s)
      else do {
        (cnt0, s1) \<leftarrow> reg_read DpuHsv 1564 1440 s;
        (cnt1, s2) \<leftarrow> reg_read DpuCm 3004 24 s1;
        Some (if cnt0 = 1440 \<and> cnt1 = 24 then 0 else - 1, s2)
      })"

definition BldParser_update_reg :: "('p, 'f) pq \<Rightarrow> (int \<times> ('p, 'f) pq) option" where
  "BldParser_update_reg s = do {
     en \<leftarrow> ld U32 1556 (q_ctx s);
     if en \<noteq> 0
     then if \<not> fs_open DpuHsv (q_fs s) \<or> \<not> fs_open DpuCm (q_fs s) then Some (q_errno s, s)
          else do {
            h \<leftarrow> get (q_ctx s) 1564 1440;
            c \<leftarrow> get (q_ctx s) 3004 24;
            Some (0, reg_write DpuCm c (reg_write DpuHsv h s))
          }
     else Some (reg_disable (or HSV_EN CMS_EN) s)
   }"

definition BldParser_parse_xml :: "'f libxml \<Rightarrow> ('p, 'f) pq \<Rightarrow> (int \<times> ('p, 'f) pq) option" where
  "BldParser_parse_xml L =
     parse_file L bld_xml (cs ''root'') (- 1)
       (\<lambda>ns. do {
          as \<leftarrow> when_kids (cs ''hsv_cm'') (parse_bld_hsvcm L) ns;
          bs \<leftarrow> when_node (cs ''enhance'') (parse_bld_version L) ns;
          Some (as @ bs)
        }) (save_once L bld_xml)"

definition BldParser_update_xml :: "'f libxml \<Rightarrow> ('p, 'f) pq \<Rightarrow> (int \<times> ('p, 'f) pq) option" where
  "BldParser_update_xml L =
     update_file L bld_xml (cs ''root'') (- 1)
       (\<lambda>m ns. do {
          ns1 \<leftarrow> at_node (cs ''enhance'') (update_bld_version L m) ns;
          at_kids (cs ''hsv_cm'') (update_bld_hsvcm L m) ns1
        }) (save_once L bld_xml)"

section \<open>BldParsersLiteR2p0.cpp\<close>

text \<open>\<open>bld_common_sharkl5\<close> at offset 3092: version, enable, \<open>nMajorVersion\<close>, one matrix and its ranges.\<close>

definition default_mode :: "byte list \<Rightarrow> nat \<Rightarrow> nat option" where
  "default_mode v i = (if v = cs ''default'' then Some 0 else None)"

definition parse_bld_version_l5 :: "'f libxml \<Rightarrow> xnode list \<Rightarrow> assign list option" where
  "parse_bld_version_l5 L = parse_enhance L [(cs ''version'', Some (U32, 3092)), (cs ''major_version'', Some (U32, 3100))]"

definition parse_cmrange :: "'f libxml \<Rightarrow> nat \<Rightarrow> xnode list \<Rightarrow> assign list option" where
  "parse_cmrange L i =
     parse_each (parse_named (\<lambda>name.
       if name = cs ''cm'' then Some (\<lambda>kids. Some (fst (parse_chain L (short_tbl True 3104 coef_names) kids)))
       else if name = cs ''range'' then Some (\<lambda>kids. Some (fst (parse_chain L (short_tbl True 3128 range_names) kids)))
       else None)) 0"

definition parse_bld_cmrange_config :: "'f libxml \<Rightarrow> xnode list \<Rightarrow> assign list option" where
  "parse_bld_cmrange_config L = parse_each (parse_mode L default_mode (parse_cmrange L)) 0"

definition update_bld_version_l5 :: "'f libxml \<Rightarrow> mem \<Rightarrow> xnode list \<Rightarrow> xnode list option" where
  "update_bld_version_l5 L = update_enhance L (Some (U32, 3092))"

definition update_cmrange :: "'f libxml \<Rightarrow> mem \<Rightarrow> nat \<Rightarrow> xnode list \<Rightarrow> xnode list option" where
  "update_cmrange L m i =
     update_each (update_named (\<lambda>name.
       if name = cs ''cm'' then Some (chain_all L m (short_tbl True 3104 coef_names))
       else if name = cs ''range'' then Some (chain_all L m (short_tbl True 3128 range_names))
       else None)) 0"

definition update_bld_cmrange_config :: "'f libxml \<Rightarrow> mem \<Rightarrow> xnode list \<Rightarrow> xnode list option" where
  "update_bld_cmrange_config L m = update_each (update_mode L default_mode (update_cmrange L m)) 0"

text \<open>Not called: the same again.\<close>

definition update_bld_cm_config :: "'f libxml \<Rightarrow> mem \<Rightarrow> xnode list \<Rightarrow> xnode list option" where
  "update_bld_cm_config L m = update_each (update_mode L default_mode (update_cmrange L m)) 0"

definition BldParserLiteR2p0_parse_reg :: "('p, 'f) pq \<Rightarrow> (int \<times> ('p, 'f) pq) option" where
  "BldParserLiteR2p0_parse_reg s =
     (if \<not> fs_open DpuHsv (q_fs s) \<or> \<not> fs_open DpuCm (q_fs s) then Some (q_errno s, s)
      else do { (cnt1, s1) \<leftarrow> reg_read DpuCm 3104 24 s; Some (if cnt1 = 24 then 0 else - 1, s1) })"

definition BldParserLiteR2p0_update_reg :: "('p, 'f) pq \<Rightarrow> (int \<times> ('p, 'f) pq) option" where
  "BldParserLiteR2p0_update_reg s = do {
     en \<leftarrow> ld U32 3096 (q_ctx s);
     if en \<noteq> 0
     then if \<not> fs_open DpuHsv (q_fs s) \<or> \<not> fs_open DpuCm (q_fs s) then Some (q_errno s, s)
          else do { c \<leftarrow> get (q_ctx s) 3104 24; Some (0, reg_write DpuCm c s) }
     else Some (reg_disable (or HSV_EN CMS_EN) s)
   }"

definition BldParserLiteR2p0_parse_xml :: "'f libxml \<Rightarrow> ('p, 'f) pq \<Rightarrow> (int \<times> ('p, 'f) pq) option" where
  "BldParserLiteR2p0_parse_xml L =
     parse_file L bld_xml (cs ''root'') (- 1)
       (\<lambda>ns. do {
          as \<leftarrow> when_kids (cs ''cm_config'') (parse_bld_cmrange_config L) ns;
          bs \<leftarrow> when_node (cs ''enhance'') (parse_bld_version_l5 L) ns;
          Some (as @ bs)
        }) (save_once L bld_xml)"

definition BldParserLiteR2p0_update_xml :: "'f libxml \<Rightarrow> ('p, 'f) pq \<Rightarrow> (int \<times> ('p, 'f) pq) option" where
  "BldParserLiteR2p0_update_xml L =
     update_file L bld_xml (cs ''root'') 1
       (\<lambda>m ns. do {
          ns1 \<leftarrow> at_node (cs ''enhance'') (update_bld_version_l5 L m) ns;
          at_kids (cs ''cm_config'') (update_bld_cmrange_config L m) ns1
        }) (save_retry L bld_xml)"

section \<open>What is written is read back\<close>

lemma hsvcm_read_back:
  "xml_laws L \<Longrightarrow> update_hsvcm L base m i ks = Some ks' \<Longrightarrow> \<exists>as. parse_hsvcm L base i ks' = Some as \<and> from_mem X m as"
  by (auto simp: update_hsvcm_def parse_hsvcm_def split: list.splits bind_splits
      intro: items_from_mem [OF _ _ narrow_hsv_items] chain_from_mem [OF _ _ narrow_short_tbl])

lemma modes_kids_section:
  assumes "\<And>L :: 'f libxml. \<And>m k ks ks'. xml_laws L \<Longrightarrow> N \<le> length m \<Longrightarrow> u L m k ks = Some ks'
      \<Longrightarrow> \<exists>as. p L k ks' = Some as \<and> from_mem X m as"
  shows "xml_section (\<lambda>L :: 'f libxml. when_kids b (parse_each (parse_mode L sel (p L)) 0))
    (\<lambda>L m. at_kids b (update_each (update_mode L sel (u L m)) 0)) X N"
  by (rule kids_section, rule xml_section.reads_back [OF modes_section [OF assms]])

lemma version_then_kids:
  assumes "xml_section (\<lambda>L :: 'f libxml. when_kids b (p L)) (\<lambda>L m. at_kids b (u L m)) X N"
    and "\<forall>(k, g) \<in> set tbl. g \<in> Y \<and> (\<exists>ty off. g = Some (ty, off) \<and> off + cty_size ty \<le> N)"
  shows "two_sections (\<lambda>L. when_node e (parse_enhance L ((cs ''version'', f) # tbl)))
    (\<lambda>L m. at_node e (update_enhance L f m)) Y N
    (\<lambda>L :: 'f libxml. when_kids b (p L)) (\<lambda>L m. at_kids b (u L m)) X"
proof (intro two_sections.intro two_sections_axioms.intro assms(1))
  show "xml_section (\<lambda>L :: 'f libxml. when_node e (parse_enhance L ((cs ''version'', f) # tbl)))
      (\<lambda>L m. at_node e (update_enhance L f m)) Y N"
    by (intro at_section enhance_section assms(2))
qed (rule when_enhance_kids, assumption, rule at_kids_changes)

interpretation bld: two_sections "\<lambda>L. when_node (cs ''enhance'') (parse_bld_version L)"
  "\<lambda>L m. at_node (cs ''enhance'') (update_bld_version L m)" "{}" 0
  "\<lambda>L. when_kids (cs ''hsv_cm'') (parse_bld_hsvcm L)"
  "\<lambda>L m. at_kids (cs ''hsv_cm'') (update_bld_hsvcm L m)" "{}"
  unfolding parse_bld_version_def update_bld_version_def parse_bld_hsvcm_def update_bld_hsvcm_def
  by (intro version_then_kids modes_kids_section hsvcm_read_back) simp_all

lemma cmrange_read_back:
  assumes L: "xml_laws L" and "update_cmrange L m i ks = Some ks'"
  shows "\<exists>as. parse_cmrange L i ks' = Some as \<and> from_mem X m as"
  unfolding parse_cmrange_def
  by (rule each_read_back [OF named_read_back assms(2) [unfolded update_cmrange_def], THEN conjunct2])
     (auto split: if_splits intro: chain_from_mem [OF L _ narrow_short_tbl])

interpretation bld_l5: two_sections "\<lambda>L. when_node (cs ''enhance'') (parse_bld_version_l5 L)"
  "\<lambda>L m. at_node (cs ''enhance'') (update_bld_version_l5 L m)" "{Some (U32, 3100)}" 3104
  "\<lambda>L. when_kids (cs ''cm_config'') (parse_bld_cmrange_config L)"
  "\<lambda>L m. at_kids (cs ''cm_config'') (update_bld_cmrange_config L m)" "{}"
  unfolding parse_bld_version_l5_def update_bld_version_l5_def parse_bld_cmrange_config_def update_bld_cmrange_config_def
  by (intro version_then_kids modes_kids_section cmrange_read_back) simp_all

end
