(* ===== verification/PQCms.thy ===== *)
theory PQCms
  imports PQBld
begin

text \<open>
  The parsers for the colour settings that change with the picture and the ambient light:
  \<open>PQParsers/CmsParsers.cpp\<close>, \<open>sharkl5/CmsParsersLiteR2p0.cpp\<close> and \<open>sharkl5Pro/CmsParsersR4p0.cpp\<close>. The last two
  differ in the layout of the parameter block, which the walks take as an argument. Shown: what is
  written is read back.
\<close>

definition cms_xml :: "byte list" where "cms_xml = cs ''/mnt/vendor/enhance/cms.xml''"
definition DpuSlp :: "byte list" where "DpuSlp = cs ''/sys/class/display/dispc0/PQ/slp''"
definition DpuLtm :: "byte list" where "DpuLtm = cs ''/sys/class/display/dispc0/PQ/ltm''"
definition DpuEpf :: "byte list" where "DpuEpf = cs ''/sys/class/display/dispc0/PQ/epf''"

section \<open>CmsParsers.cpp\<close>

text \<open>\<open>cms_common\<close> at offset 5956: version, enable, mode, three pairs of table and matrix, ten pairs of colour
  and index, \<open>cm_mode\<close>, twelve matrices.\<close>

definition cms_mode :: "byte list \<Rightarrow> nat \<Rightarrow> nat option" where
  "cms_mode v i =
     (if v = cs ''auto'' then Some 0 else if v = cs ''enhance'' then Some 1 else if v = cs ''standard'' then Some 2 else None)"

definition cm_cfg_modes :: "byte list list" where
  "cm_cfg_modes = [cs ''cold'', cs ''warm'', cs ''0'', cs ''1'', cs ''2'', cs ''3'', cs ''4'', cs ''5'', cs ''6'', cs ''7'', cs ''8'', cs ''9'']"

definition cm_cfg_mode :: "byte list \<Rightarrow> nat \<Rightarrow> nat option" where
  "cm_cfg_mode v i = (if v \<in> set cm_cfg_modes then Some i else None)"

definition rgbmap_tbl :: "nat \<Rightarrow> nat \<Rightarrow> (byte list \<times> fld) list" where
  "rgbmap_tbl base i = [(cs ''rgb'', elem 10 i 2 U8 base), (cs ''index'', elem 10 i 2 U8 (base + 1))]"

lemma narrow_rgbmap_tbl: "\<forall>i. \<forall>(k, f) \<in> set (rgbmap_tbl base i). narrow f"
  by (simp add: rgbmap_tbl_def)

definition parse_cms_version :: "'f libxml \<Rightarrow> xnode list \<Rightarrow> assign list option" where
  "parse_cms_version L = parse_enhance L [(cs ''version'', Some (U32, 5956))]"

definition parse_cms_hsvcm :: "'f libxml \<Rightarrow> xnode list \<Rightarrow> assign list option" where
  "parse_cms_hsvcm L = parse_each (parse_mode L cms_mode (parse_hsvcm L 5968)) 0"

definition parse_cms_rgbmap_table :: "'f libxml \<Rightarrow> xnode list \<Rightarrow> assign list option" where
  "parse_cms_rgbmap_table L kids = Some (parse_items L (rgbmap_tbl 10360) 0 kids)"

definition parse_cms_config_table :: "'f libxml \<Rightarrow> xnode list \<Rightarrow> assign list option" where
  "parse_cms_config_table L =
     parse_each (parse_mode L cm_cfg_mode
       (\<lambda>i kids. Some (fst (parse_chain L (short_tbl (i < 12) (10382 + 24 * i) coef_names) kids)))) 0"

definition update_cms_version :: "'f libxml \<Rightarrow> mem \<Rightarrow> xnode list \<Rightarrow> xnode list option" where
  "update_cms_version L = update_enhance L (Some (U32, 5956))"

definition update_cms_hsvcm :: "'f libxml \<Rightarrow> mem \<Rightarrow> xnode list \<Rightarrow> xnode list option" where
  "update_cms_hsvcm L m = update_each (update_mode L cms_mode (update_hsvcm L 5968 m)) 0"

definition update_cms_rgbmap_table :: "'f libxml \<Rightarrow> mem \<Rightarrow> xnode list \<Rightarrow> xnode list option" where
  "update_cms_rgbmap_table L m kids = update_items L (rgbmap_tbl 10360) m 0 kids"

definition update_cms_config_table :: "'f libxml \<Rightarrow> mem \<Rightarrow> xnode list \<Rightarrow> xnode list option" where
  "update_cms_config_table L m =
     update_each (update_mode L cm_cfg_mode (\<lambda>i. chain_all L m (short_tbl (i < 12) (10382 + 24 * i) coef_names))) 0"

definition CmsParser_parse_reg :: "('p, 'f) pq \<Rightarrow> (int \<times> ('p, 'f) pq) option" where
  "CmsParser_parse_reg s =
     (if \<not> fs_open DpuHsv (q_fs s) \<or> \<not> fs_open DpuCm (q_fs s) then Some (q_errno s, s)
      else do {
        (_, s1) \<leftarrow> reg_read DpuHsv 5968 1440 s;
        (_, s2) \<leftarrow> reg_read DpuCm 7408 24 s1;
        Some (0, s2)
      })"

definition CmsParser_update_reg :: "('p, 'f) pq \<Rightarrow> (int \<times> ('p, 'f) pq) option" where
  "CmsParser_update_reg s = do {
     en \<leftarrow> ld U32 5960 (q_ctx s);
     if en \<noteq> 0
     then if \<not> fs_open DpuHsv (q_fs s) \<or> \<not> fs_open DpuCm (q_fs s) then Some (q_errno s, s)
          else do {
            h \<leftarrow> get (q_ctx s) 5968 1440;
            c \<leftarrow> get (q_ctx s) 7408 24;
            Some (0, reg_write DpuCm c (reg_write DpuHsv h s))
          }
     else Some (reg_disable (or CMS_EN HSV_EN) s)
   }"

definition CmsParser_update_xml :: "'f libxml \<Rightarrow> ('p, 'f) pq \<Rightarrow> (int \<times> ('p, 'f) pq) option" where
  "CmsParser_update_xml L =
     update_file L cms_xml (cs ''root'') (- 1)
       (\<lambda>m ns. do {
          ns1 \<leftarrow> at_kids (cs ''hsv_cm'') (update_cms_hsvcm L m) ns;
          ns2 \<leftarrow> at_kids (cs ''rgb_mapping_table'') (update_cms_rgbmap_table L m) ns1;
          ns3 \<leftarrow> at_kids (cs ''cm_cfg'') (update_cms_config_table L m) ns2;
          at_node (cs ''enhance'') (update_cms_version L m) ns3
        }) (save_once L cms_xml)"

definition CmsParser_parse_xml :: "'f libxml \<Rightarrow> ('p, 'f) pq \<Rightarrow> (int \<times> ('p, 'f) pq) option" where
  "CmsParser_parse_xml L =
     parse_file L cms_xml (cs ''root'') (- 1)
       (\<lambda>ns. do {
          as \<leftarrow> when_kids (cs ''hsv_cm'') (parse_cms_hsvcm L) ns;
          bs \<leftarrow> when_kids (cs ''rgb_mapping_table'') (parse_cms_rgbmap_table L) ns;
          ms \<leftarrow> when_kids (cs ''cm_cfg'') (parse_cms_config_table L) ns;
          vs \<leftarrow> when_node (cs ''enhance'') (parse_cms_version L) ns;
          Some (as @ bs @ ms @ vs)
        }) (save_once L cms_xml)"

section \<open>CmsParsersLiteR2p0.cpp\<close>

text \<open>The layout of \<open>cms_common_sharkl5\<close> and \<open>cms_common_sharkl5Pro\<close>: start of the three settings (table,
  matrix, \<open>epf\<close>, \<open>slp\<close>, \<open>ltm\<close>), their size, the fields of \<open>slp\<close>, where \<open>ltm\<close> begins in a setting, the colour
  map, the matrices. Both lie at offset 3140 and begin with version, enable, \<open>mode\<close> and \<open>nMajorVersion\<close>.\<close>

record cms_lay =
  cl_hsvcm :: nat
  cl_stride :: nat
  cl_slp :: "(byte list \<times> cty \<times> nat) list"
  cl_ltm :: nat
  cl_rgbcm :: nat
  cl_cm :: nat

definition cms_sharkl5 :: cms_lay where
  "cms_sharkl5 = \<lparr>cl_hsvcm = 3152, cl_stride = 1492,
     cl_slp = [(cs ''brightness'', U8, 0), (cs ''conversion_matrix'', U8, 1), (cs ''brightness_step'', U8, 2),
       (cs ''second_bright_factor'', U8, 3), (cs ''first_percent_th'', U8, 4), (cs ''first_max_bright_th'', U8, 5)],
     cl_ltm = 1484, cl_rgbcm = 7628, cl_cm = 7650\<rparr>"

text \<open>\<open>epf_cfg\<close>, \<open>slp_cfg\<close> and \<open>ltm_cfg\<close> in the order of the macros, with their offsets; \<open>tbl_at\<close> places a group.\<close>

definition epf_fields :: "(byte list \<times> cty \<times> nat) list" where
  "epf_fields = [(cs ''epsilon0'', U16, 0), (cs ''epsilon1'', U16, 2), (cs ''gain0'', U8, 4), (cs ''gain1'', U8, 5),
     (cs ''gain2'', U8, 6), (cs ''gain3'', U8, 7), (cs ''gain4'', U8, 8), (cs ''gain5'', U8, 9), (cs ''gain6'', U8, 10),
     (cs ''gain7'', U8, 11), (cs ''max_diff'', U8, 12), (cs ''min_diff'', U8, 13)]"

definition ltm_fields :: "(byte list \<times> cty \<times> nat) list" where
  "ltm_fields = [(cs ''slp_step_clip'', U16, 4), (cs ''slp_high_clip'', U16, 2), (cs ''slp_low_clip'', U16, 0)]"

definition tbl_at :: "nat \<Rightarrow> (byte list \<times> cty \<times> nat) list \<Rightarrow> (byte list \<times> fld) list" where
  "tbl_at off tbl = map (\<lambda>(k, ty, d). (k, Some (ty, off + d))) tbl"

definition setting :: "cms_lay \<Rightarrow> nat \<Rightarrow> nat" where
  "setting c i = cl_hsvcm c + i * cl_stride c"

definition parse_hsv :: "'f libxml \<Rightarrow> cms_lay \<Rightarrow> nat \<Rightarrow> xnode list \<Rightarrow> assign list option" where
  "parse_hsv L c i kids = Some (parse_items L (hsv_items True (setting c i)) 0 kids)"

definition parse_epf :: "'f libxml \<Rightarrow> cms_lay \<Rightarrow> nat \<Rightarrow> xnode list \<Rightarrow> assign list option" where
  "parse_epf L c i kids = Some (fst (parse_chain L (tbl_at (setting c i + 1464) epf_fields) kids))"

definition parse_cm :: "'f libxml \<Rightarrow> cms_lay \<Rightarrow> nat \<Rightarrow> xnode list \<Rightarrow> assign list option" where
  "parse_cm L c i kids = Some (fst (parse_chain L (short_tbl True (setting c i + 1440) coef_names) kids))"

definition parse_slp :: "'f libxml \<Rightarrow> cms_lay \<Rightarrow> nat \<Rightarrow> xnode list \<Rightarrow> assign list option" where
  "parse_slp L c i kids = Some (fst (parse_chain L (tbl_at (setting c i + 1478) (cl_slp c)) kids))"

definition parse_ltm :: "'f libxml \<Rightarrow> cms_lay \<Rightarrow> nat \<Rightarrow> xnode list \<Rightarrow> assign list option" where
  "parse_ltm L c i kids = Some (fst (parse_chain L (tbl_at (setting c i + cl_ltm c) ltm_fields) kids))"

definition parse_hsv_cm_epf_slp_ltm :: "'f libxml \<Rightarrow> cms_lay \<Rightarrow> nat \<Rightarrow> xnode list \<Rightarrow> assign list option" where
  "parse_hsv_cm_epf_slp_ltm L c i =
     parse_each (parse_named (\<lambda>name.
       if name = cs ''hsv'' then Some (parse_hsv L c i)
       else if name = cs ''cm'' then Some (parse_cm L c i)
       else if name = cs ''epf'' then Some (parse_epf L c i)
       else if name = cs ''slp'' then Some (parse_slp L c i)
       else if name = cs ''ltm'' then Some (parse_ltm L c i)
       else None)) 0"

definition parse_cms_version_l5 :: "'f libxml \<Rightarrow> xnode list \<Rightarrow> assign list option" where
  "parse_cms_version_l5 L = parse_enhance L [(cs ''version'', Some (U32, 3140)), (cs ''major_version'', Some (U16, 3150))]"

definition parse_cms_hsvcm_epf_slp_ltm :: "'f libxml \<Rightarrow> cms_lay \<Rightarrow> xnode list \<Rightarrow> assign list option" where
  "parse_cms_hsvcm_epf_slp_ltm L c = parse_each (parse_mode L cms_mode (parse_hsv_cm_epf_slp_ltm L c)) 0"

definition parse_cms_rgbmap_table_l5 :: "'f libxml \<Rightarrow> cms_lay \<Rightarrow> xnode list \<Rightarrow> assign list option" where
  "parse_cms_rgbmap_table_l5 L c kids = Some (parse_items L (rgbmap_tbl (cl_rgbcm c)) 0 kids)"

definition parse_cms_config_table_l5 :: "'f libxml \<Rightarrow> cms_lay \<Rightarrow> xnode list \<Rightarrow> assign list option" where
  "parse_cms_config_table_l5 L c =
     parse_each (parse_mode L cm_cfg_mode
       (\<lambda>i kids. Some (fst (parse_chain L (short_tbl (i < 12) (cl_cm c + 24 * i) coef_names) kids)))) 0"

definition update_cms_version_l5 :: "'f libxml \<Rightarrow> mem \<Rightarrow> xnode list \<Rightarrow> xnode list option" where
  "update_cms_version_l5 L = update_enhance L (Some (U32, 3140))"

definition update_hsv :: "'f libxml \<Rightarrow> cms_lay \<Rightarrow> mem \<Rightarrow> nat \<Rightarrow> xnode list \<Rightarrow> xnode list option" where
  "update_hsv L c m i kids = update_items L (hsv_items True (setting c i)) m 0 kids"

definition update_cm :: "'f libxml \<Rightarrow> cms_lay \<Rightarrow> mem \<Rightarrow> nat \<Rightarrow> xnode list \<Rightarrow> xnode list option" where
  "update_cm L c m i kids = chain_all L m (short_tbl True (setting c i + 1440) coef_names) kids"

definition update_epf :: "'f libxml \<Rightarrow> cms_lay \<Rightarrow> mem \<Rightarrow> nat \<Rightarrow> xnode list \<Rightarrow> xnode list option" where
  "update_epf L c m i kids = chain_all L m (tbl_at (setting c i + 1464) epf_fields) kids"

definition update_slp :: "'f libxml \<Rightarrow> cms_lay \<Rightarrow> mem \<Rightarrow> nat \<Rightarrow> xnode list \<Rightarrow> xnode list option" where
  "update_slp L c m i kids = chain_all L m (tbl_at (setting c i + 1478) (cl_slp c)) kids"

definition update_ltm :: "'f libxml \<Rightarrow> cms_lay \<Rightarrow> mem \<Rightarrow> nat \<Rightarrow> xnode list \<Rightarrow> xnode list option" where
  "update_ltm L c m i kids = chain_all L m (tbl_at (setting c i + cl_ltm c) ltm_fields) kids"

definition update_hsv_cm_epf_slp_ltm :: "'f libxml \<Rightarrow> cms_lay \<Rightarrow> mem \<Rightarrow> nat \<Rightarrow> xnode list \<Rightarrow> xnode list option" where
  "update_hsv_cm_epf_slp_ltm L c m i =
     update_each (update_named (\<lambda>name.
       if name = cs ''hsv'' then Some (update_hsv L c m i)
       else if name = cs ''cm'' then Some (update_cm L c m i)
       else if name = cs ''slp'' then Some (update_slp L c m i)
       else if name = cs ''epf'' then Some (update_epf L c m i)
       else if name = cs ''ltm'' then Some (update_ltm L c m i)
       else None)) 0"

definition update_cms_hsv_cm_epf_slp_ltm :: "'f libxml \<Rightarrow> cms_lay \<Rightarrow> mem \<Rightarrow> xnode list \<Rightarrow> xnode list option" where
  "update_cms_hsv_cm_epf_slp_ltm L c m = update_each (update_mode L cms_mode (update_hsv_cm_epf_slp_ltm L c m)) 0"

definition update_cms_rgbmap_table_l5 :: "'f libxml \<Rightarrow> cms_lay \<Rightarrow> mem \<Rightarrow> xnode list \<Rightarrow> xnode list option" where
  "update_cms_rgbmap_table_l5 L c m kids = update_items L (rgbmap_tbl (cl_rgbcm c)) m 0 kids"

definition update_cms_config_table_l5 :: "'f libxml \<Rightarrow> cms_lay \<Rightarrow> mem \<Rightarrow> xnode list \<Rightarrow> xnode list option" where
  "update_cms_config_table_l5 L c m =
     update_each (update_mode L cm_cfg_mode (\<lambda>i. chain_all L m (short_tbl (i < 12) (cl_cm c + 24 * i) coef_names))) 0"

text \<open>The registers of \<open>slp\<close> and \<open>ltm\<close> are one file of the driver, read through a cleared buffer of 14 bytes.\<close>

definition CmsParserLiteR2p0_parse_reg :: "('p, 'f) pq \<Rightarrow> (int \<times> ('p, 'f) pq) option" where
  "CmsParserLiteR2p0_parse_reg s =
     (if \<not> fs_open DpuHsv (q_fs s) \<or> \<not> fs_open DpuCm (q_fs s) \<or> \<not> fs_open DpuSlp (q_fs s) \<or> \<not> fs_open DpuEpf (q_fs s)
      then Some (q_errno s, s)
      else do {
        (_, s1) \<leftarrow> reg_read DpuHsv 3152 1440 s;
        (_, s2) \<leftarrow> reg_read DpuCm 4592 24 s1;
        (_, s3) \<leftarrow> reg_read DpuEpf 4616 14 s2;
        buf \<leftarrow> put (replicate 14 0) 0 (case fs_read DpuSlp 0 14 (q_fs s3) of None \<Rightarrow> [] | Some bs \<Rightarrow> bs);
        slp \<leftarrow> get buf 0 6;
        ctx1 \<leftarrow> put (q_ctx s3) 4630 slp;
        ltm \<leftarrow> get buf 6 8;
        ctx2 \<leftarrow> put ctx1 4636 ltm;
        Some (0, s3\<lparr>q_ctx := ctx2\<rparr>)
      })"

definition CmsParserLiteR2p0_update_reg :: "('p, 'f) pq \<Rightarrow> (int \<times> ('p, 'f) pq) option" where
  "CmsParserLiteR2p0_update_reg s = do {
     en \<leftarrow> ld U32 3144 (q_ctx s);
     if en \<noteq> 0
     then if \<not> fs_open DpuHsv (q_fs s) \<or> \<not> fs_open DpuCm (q_fs s) \<or> \<not> fs_open DpuSlp (q_fs s) \<or> \<not> fs_open DpuEpf (q_fs s)
          then Some (q_errno s, s)
          else do {
            h \<leftarrow> get (q_ctx s) 3152 1440;
            c \<leftarrow> get (q_ctx s) 4592 24;
            e \<leftarrow> get (q_ctx s) 4616 14;
            slp \<leftarrow> get (q_ctx s) 4630 6;
            ltm \<leftarrow> get (q_ctx s) 4636 8;
            Some (0, reg_write DpuSlp (take 12 (slp @ ltm)) (reg_write DpuEpf e (reg_write DpuCm c (reg_write DpuHsv h s))))
          }
     else Some (reg_disable (or (or (or CMS_EN HSV_EN) EPF_EN) LTM_EN) s)
   }"

definition cms_update_body :: "'f libxml \<Rightarrow> cms_lay \<Rightarrow> mem \<Rightarrow> xnode list \<Rightarrow> xnode list option" where
  "cms_update_body L c m ns = do {
     ns1 \<leftarrow> at_kids (cs ''hsv_cm_epf_slp_ltm'') (update_cms_hsv_cm_epf_slp_ltm L c m) ns;
     ns2 \<leftarrow> at_kids (cs ''rgb_mapping_table'') (update_cms_rgbmap_table_l5 L c m) ns1;
     ns3 \<leftarrow> at_kids (cs ''cm_cfg'') (update_cms_config_table_l5 L c m) ns2;
     at_node (cs ''enhance'') (update_cms_version_l5 L m) ns3
   }"

definition cms_parse_body :: "'f libxml \<Rightarrow> cms_lay \<Rightarrow> xnode list \<Rightarrow> assign list option" where
  "cms_parse_body L c ns = do {
     as \<leftarrow> when_kids (cs ''hsv_cm_epf_slp_ltm'') (parse_cms_hsvcm_epf_slp_ltm L c) ns;
     bs \<leftarrow> when_kids (cs ''rgb_mapping_table'') (parse_cms_rgbmap_table_l5 L c) ns;
     ms \<leftarrow> when_kids (cs ''cm_cfg'') (parse_cms_config_table_l5 L c) ns;
     vs \<leftarrow> when_node (cs ''enhance'') (parse_cms_version_l5 L) ns;
     Some (as @ bs @ ms @ vs)
   }"

definition CmsParserLiteR2p0_update_xml :: "'f libxml \<Rightarrow> ('p, 'f) pq \<Rightarrow> (int \<times> ('p, 'f) pq) option" where
  "CmsParserLiteR2p0_update_xml L =
     update_file L cms_xml (cs ''root'') (- 1) (cms_update_body L cms_sharkl5) (save_once L cms_xml)"

definition CmsParserLiteR2p0_parse_xml :: "'f libxml \<Rightarrow> ('p, 'f) pq \<Rightarrow> (int \<times> ('p, 'f) pq) option" where
  "CmsParserLiteR2p0_parse_xml L =
     parse_file L cms_xml (cs ''root'') 1 (cms_parse_body L cms_sharkl5) (save_twice L cms_xml)"

section \<open>CmsParsersR4p0.cpp\<close>

text \<open>The same walks over the other layout: \<open>slp\<close> has one field of 16 bits.\<close>

definition cms_sharkl5Pro :: cms_lay where
  "cms_sharkl5Pro = \<lparr>cl_hsvcm = 3152, cl_stride = 1488, cl_slp = [(cs ''brightness'', U16, 0)],
     cl_ltm = 1480, cl_rgbcm = 7616, cl_cm = 7638\<rparr>"

definition parse_hsv_r4 :: "'f libxml \<Rightarrow> nat \<Rightarrow> xnode list \<Rightarrow> assign list option" where
  "parse_hsv_r4 L = parse_hsv L cms_sharkl5Pro"

definition parse_epf_r4 :: "'f libxml \<Rightarrow> nat \<Rightarrow> xnode list \<Rightarrow> assign list option" where
  "parse_epf_r4 L = parse_epf L cms_sharkl5Pro"

definition parse_cm_r4 :: "'f libxml \<Rightarrow> nat \<Rightarrow> xnode list \<Rightarrow> assign list option" where
  "parse_cm_r4 L = parse_cm L cms_sharkl5Pro"

definition parse_slp_r4 :: "'f libxml \<Rightarrow> nat \<Rightarrow> xnode list \<Rightarrow> assign list option" where
  "parse_slp_r4 L = parse_slp L cms_sharkl5Pro"

definition parse_ltm_r4 :: "'f libxml \<Rightarrow> nat \<Rightarrow> xnode list \<Rightarrow> assign list option" where
  "parse_ltm_r4 L = parse_ltm L cms_sharkl5Pro"

definition parse_hsv_cm_epf_slp_ltm_r4 :: "'f libxml \<Rightarrow> nat \<Rightarrow> xnode list \<Rightarrow> assign list option" where
  "parse_hsv_cm_epf_slp_ltm_r4 L = parse_hsv_cm_epf_slp_ltm L cms_sharkl5Pro"

definition parse_cms_hsvcm_epf_slp_ltm_r4 :: "'f libxml \<Rightarrow> xnode list \<Rightarrow> assign list option" where
  "parse_cms_hsvcm_epf_slp_ltm_r4 L = parse_cms_hsvcm_epf_slp_ltm L cms_sharkl5Pro"

definition parse_cms_rgbmap_table_r4 :: "'f libxml \<Rightarrow> xnode list \<Rightarrow> assign list option" where
  "parse_cms_rgbmap_table_r4 L = parse_cms_rgbmap_table_l5 L cms_sharkl5Pro"

definition parse_cms_config_table_r4 :: "'f libxml \<Rightarrow> xnode list \<Rightarrow> assign list option" where
  "parse_cms_config_table_r4 L = parse_cms_config_table_l5 L cms_sharkl5Pro"

definition update_hsv_r4 :: "'f libxml \<Rightarrow> mem \<Rightarrow> nat \<Rightarrow> xnode list \<Rightarrow> xnode list option" where
  "update_hsv_r4 L = update_hsv L cms_sharkl5Pro"

definition update_cm_r4 :: "'f libxml \<Rightarrow> mem \<Rightarrow> nat \<Rightarrow> xnode list \<Rightarrow> xnode list option" where
  "update_cm_r4 L = update_cm L cms_sharkl5Pro"

definition update_epf_r4 :: "'f libxml \<Rightarrow> mem \<Rightarrow> nat \<Rightarrow> xnode list \<Rightarrow> xnode list option" where
  "update_epf_r4 L = update_epf L cms_sharkl5Pro"

definition update_slp_r4 :: "'f libxml \<Rightarrow> mem \<Rightarrow> nat \<Rightarrow> xnode list \<Rightarrow> xnode list option" where
  "update_slp_r4 L = update_slp L cms_sharkl5Pro"

definition update_ltm_r4 :: "'f libxml \<Rightarrow> mem \<Rightarrow> nat \<Rightarrow> xnode list \<Rightarrow> xnode list option" where
  "update_ltm_r4 L = update_ltm L cms_sharkl5Pro"

definition update_hsv_cm_epf_slp_ltm_r4 :: "'f libxml \<Rightarrow> mem \<Rightarrow> nat \<Rightarrow> xnode list \<Rightarrow> xnode list option" where
  "update_hsv_cm_epf_slp_ltm_r4 L = update_hsv_cm_epf_slp_ltm L cms_sharkl5Pro"

definition update_cms_hsv_cm_epf_slp_ltm_r4 :: "'f libxml \<Rightarrow> mem \<Rightarrow> xnode list \<Rightarrow> xnode list option" where
  "update_cms_hsv_cm_epf_slp_ltm_r4 L = update_cms_hsv_cm_epf_slp_ltm L cms_sharkl5Pro"

definition update_cms_rgbmap_table_r4 :: "'f libxml \<Rightarrow> mem \<Rightarrow> xnode list \<Rightarrow> xnode list option" where
  "update_cms_rgbmap_table_r4 L = update_cms_rgbmap_table_l5 L cms_sharkl5Pro"

definition update_cms_config_table_r4 :: "'f libxml \<Rightarrow> mem \<Rightarrow> xnode list \<Rightarrow> xnode list option" where
  "update_cms_config_table_r4 L = update_cms_config_table_l5 L cms_sharkl5Pro"

definition parse_cms_version_r4 :: "'f libxml \<Rightarrow> xnode list \<Rightarrow> assign list option" where
  "parse_cms_version_r4 L = parse_enhance L [(cs ''version'', Some (U32, 3140)), (cs ''major_version'', Some (U16, 3150))]"

definition update_cms_version_r4 :: "'f libxml \<Rightarrow> mem \<Rightarrow> xnode list \<Rightarrow> xnode list option" where
  "update_cms_version_r4 L = update_enhance L (Some (U32, 3140))"

text \<open>Brightness and the three clips are fields of the static buffer \<open>slp_ltm_params_l5pro\<close> of 48 bytes, at 0, 36, 38
  and 40; it is cleared and read from \<open>ltm\<close>, and its first 46 bytes, the other fields as they were, are
  written to \<open>slp\<close>.\<close>

definition CmsParserR4p0_parse_reg :: "('p, 'f) pq \<Rightarrow> (int \<times> ('p, 'f) pq) option" where
  "CmsParserR4p0_parse_reg s =
     (if \<not> fs_open DpuHsv (q_fs s) \<or> \<not> fs_open DpuCm (q_fs s) \<or> \<not> fs_open DpuLtm (q_fs s) \<or> \<not> fs_open DpuEpf (q_fs s)
      then Some (q_errno s, s)
      else do {
        (_, s1) \<leftarrow> reg_read DpuHsv 3152 1440 s;
        (_, s2) \<leftarrow> reg_read DpuCm 4592 24 s1;
        (_, s3) \<leftarrow> reg_read DpuEpf 4616 14 s2;
        buf \<leftarrow> put (replicate 48 0) 0 (case fs_read DpuLtm 0 48 (q_fs s3) of None \<Rightarrow> [] | Some bs \<Rightarrow> bs);
        brightness \<leftarrow> rd buf 0;
        lclip \<leftarrow> get buf 38 2;
        hclip \<leftarrow> get buf 36 2;
        step \<leftarrow> get buf 40 2;
        ctx1 \<leftarrow> put (q_ctx s3) 4630 [brightness, 0];
        ctx2 \<leftarrow> put ctx1 4632 lclip;
        ctx3 \<leftarrow> put ctx2 4634 hclip;
        ctx4 \<leftarrow> put ctx3 4636 step;
        Some (0, s3\<lparr>q_slp := buf, q_ctx := ctx4\<rparr>)
      })"

definition CmsParserR4p0_update_reg :: "('p, 'f) pq \<Rightarrow> (int \<times> ('p, 'f) pq) option" where
  "CmsParserR4p0_update_reg s = do {
     en \<leftarrow> ld U32 3144 (q_ctx s);
     if en \<noteq> 0
     then if \<not> fs_open DpuHsv (q_fs s) \<or> \<not> fs_open DpuCm (q_fs s) \<or> \<not> fs_open DpuSlp (q_fs s) \<or> \<not> fs_open DpuEpf (q_fs s)
          then Some (q_errno s, s)
          else do {
            h \<leftarrow> get (q_ctx s) 3152 1440;
            c \<leftarrow> get (q_ctx s) 4592 24;
            e \<leftarrow> get (q_ctx s) 4616 14;
            brightness \<leftarrow> rd (q_ctx s) 4630;
            lclip \<leftarrow> get (q_ctx s) 4632 2;
            hclip \<leftarrow> get (q_ctx s) 4634 2;
            step \<leftarrow> get (q_ctx s) 4636 2;
            b1 \<leftarrow> wr (q_slp s) 0 brightness;
            b2 \<leftarrow> put b1 38 lclip;
            b3 \<leftarrow> put b2 36 hclip;
            b4 \<leftarrow> put b3 40 step;
            Some (0, reg_write DpuSlp (take 46 b4)
              (reg_write DpuEpf e (reg_write DpuCm c (reg_write DpuHsv h (s\<lparr>q_slp := b4\<rparr>)))))
          }
     else Some (reg_disable (or (or (or CMS_EN HSV_EN) EPF_EN) LTM_EN) s)
   }"

definition CmsParserR4p0_update_xml :: "'f libxml \<Rightarrow> ('p, 'f) pq \<Rightarrow> (int \<times> ('p, 'f) pq) option" where
  "CmsParserR4p0_update_xml L =
     update_file L cms_xml (cs ''root'') (- 1)
       (\<lambda>m ns. do {
          ns1 \<leftarrow> at_kids (cs ''hsv_cm_epf_slp_ltm'') (update_cms_hsv_cm_epf_slp_ltm_r4 L m) ns;
          ns2 \<leftarrow> at_kids (cs ''rgb_mapping_table'') (update_cms_rgbmap_table_r4 L m) ns1;
          ns3 \<leftarrow> at_kids (cs ''cm_cfg'') (update_cms_config_table_r4 L m) ns2;
          at_node (cs ''enhance'') (update_cms_version_r4 L m) ns3
        }) (save_once L cms_xml)"

definition CmsParserR4p0_parse_xml :: "'f libxml \<Rightarrow> ('p, 'f) pq \<Rightarrow> (int \<times> ('p, 'f) pq) option" where
  "CmsParserR4p0_parse_xml L =
     parse_file L cms_xml (cs ''root'') 1
       (\<lambda>ns. do {
          as \<leftarrow> when_kids (cs ''hsv_cm_epf_slp_ltm'') (parse_cms_hsvcm_epf_slp_ltm_r4 L) ns;
          bs \<leftarrow> when_kids (cs ''rgb_mapping_table'') (parse_cms_rgbmap_table_r4 L) ns;
          ms \<leftarrow> when_kids (cs ''cm_cfg'') (parse_cms_config_table_r4 L) ns;
          vs \<leftarrow> when_node (cs ''enhance'') (parse_cms_version_r4 L) ns;
          Some (as @ bs @ ms @ vs)
        }) (save_twice L cms_xml)"

section \<open>What is written is read back\<close>

text \<open>Three sections on the children of differently named nodes, then the versions.\<close>

lemma two_kids:
  assumes "xml_section p u X N" and "xml_section (\<lambda>L :: 'f libxml. when_kids b (q L)) (\<lambda>L m. at_kids b (v L m)) Y N"
    and p: "\<And>(L :: 'f libxml) ns ns'. \<forall>c. c \<noteq> b \<longrightarrow> kids_kept c ns ns' \<Longrightarrow> p L ns' = p L ns"
  shows "two_sections p u X N (\<lambda>L :: 'f libxml. when_kids b (q L)) (\<lambda>L m. at_kids b (v L m)) Y"
proof (intro two_sections.intro two_sections_axioms.intro assms(1,2))
  fix L :: "'f libxml" and m ns ns'
  assume "at_kids b (v L m) ns = Some ns'"
  then have "kids_kept c ns ns'" if "c \<noteq> b" for c using at_kids_changes(2) [of b "v L m"] that by simp
  then show "p L ns' = p L ns" by (intro p) simp
qed

lemma kids_then_version:
  assumes "xml_section p u X N" and "\<forall>(k, g) \<in> set tbl. g \<in> Y \<and> (\<exists>ty off. g = Some (ty, off) \<and> off + cty_size ty \<le> N)"
    and p: "\<And>(L :: 'f libxml) ns ns'. \<forall>c. kids_kept c ns ns' \<Longrightarrow> p L ns' = p L ns"
  shows "two_sections p u X N (\<lambda>L :: 'f libxml. when_node e (parse_enhance L ((cs ''version'', f) # tbl)))
    (\<lambda>L m. at_node e (update_enhance L f m)) Y"
proof (intro two_sections.intro two_sections_axioms.intro assms(1) at_section enhance_section assms(2))
  fix L :: "'f libxml" and m ns ns'
  assume "xml_laws L" "at_node e (update_enhance L f m) ns = Some ns'"
  then have "version_changed ns ns'" by (rule at_enhance_changes)
  then show "p L ns' = p L ns" by (intro p allI version_changed_kids_kept)
qed

lemma two_kids_kept:
  assumes "kids_kept a ns ns'" and "kids_kept b ns ns'"
  shows "do { as \<leftarrow> when_kids a p ns'; bs \<leftarrow> when_kids b q ns'; Some (as @ bs) } =
    do { as \<leftarrow> when_kids a p ns; bs \<leftarrow> when_kids b q ns; Some (as @ bs) }"
  by (simp add: when_kids_kept [OF assms(1)] when_kids_kept [OF assms(2)])

lemma three_kids_kept:
  assumes "kids_kept a ns ns'" and "kids_kept b ns ns'" and "kids_kept c ns ns'"
  shows "do { xs \<leftarrow> do { as \<leftarrow> when_kids a p ns'; bs \<leftarrow> when_kids b q ns'; Some (as @ bs) }; ms \<leftarrow> when_kids c r ns'; Some (xs @ ms) } =
    do { xs \<leftarrow> do { as \<leftarrow> when_kids a p ns; bs \<leftarrow> when_kids b q ns; Some (as @ bs) }; ms \<leftarrow> when_kids c r ns; Some (xs @ ms) }"
  by (simp only: when_kids_kept [OF assms(1)] when_kids_kept [OF assms(2)] when_kids_kept [OF assms(3)])

lemma three_kids_then_version:
  assumes A: "xml_section (\<lambda>L :: 'f libxml. when_kids a (pa L)) (\<lambda>L m. at_kids a (ua L m)) {} N"
    and B: "xml_section (\<lambda>L :: 'f libxml. when_kids b (pb L)) (\<lambda>L m. at_kids b (ub L m)) {} N"
    and C: "xml_section (\<lambda>L :: 'f libxml. when_kids c (pc L)) (\<lambda>L m. at_kids c (uc L m)) {} N"
    and V: "\<forall>(k, g) \<in> set tbl. g \<in> Y \<and> (\<exists>ty off. g = Some (ty, off) \<and> off + cty_size ty \<le> N)"
    and ne: "a \<noteq> b" "a \<noteq> c" "b \<noteq> c"
  shows "xml_section
    (\<lambda>L :: 'f libxml. \<lambda>ns. do {
       as \<leftarrow> when_kids a (pa L) ns;
       bs \<leftarrow> when_kids b (pb L) ns;
       ms \<leftarrow> when_kids c (pc L) ns;
       vs \<leftarrow> when_node e (parse_enhance L ((cs ''version'', f) # tbl)) ns;
       Some (as @ bs @ ms @ vs)
     })
    (\<lambda>L m ns. do {
       ns1 \<leftarrow> at_kids a (ua L m) ns;
       ns2 \<leftarrow> at_kids b (ub L m) ns1;
       ns3 \<leftarrow> at_kids c (uc L m) ns2;
       at_node e (update_enhance L f m) ns3
     }) Y N"
proof -
  have ab: "two_sections (\<lambda>L :: 'f libxml. when_kids a (pa L)) (\<lambda>L m. at_kids a (ua L m)) {} N
      (\<lambda>L. when_kids b (pb L)) (\<lambda>L m. at_kids b (ub L m)) {}"
    by (rule two_kids [OF A B]) (simp add: when_kids_kept ne)
  have abc: "two_sections
      (\<lambda>L :: 'f libxml. \<lambda>ns. do { as \<leftarrow> when_kids a (pa L) ns; bs \<leftarrow> when_kids b (pb L) ns; Some (as @ bs) })
      (\<lambda>L m ns. do { ns1 \<leftarrow> at_kids a (ua L m) ns; at_kids b (ub L m) ns1 }) ({} \<union> {}) N
      (\<lambda>L. when_kids c (pc L)) (\<lambda>L m. at_kids c (uc L m)) {}"
    by (rule two_kids [OF two_sections.both_section [OF ab] C], rule two_kids_kept) (use ne in simp_all)
  have all: "two_sections
      (\<lambda>L :: 'f libxml. \<lambda>ns. do {
         xs \<leftarrow> do { as \<leftarrow> when_kids a (pa L) ns; bs \<leftarrow> when_kids b (pb L) ns; Some (as @ bs) };
         ms \<leftarrow> when_kids c (pc L) ns; Some (xs @ ms) })
      (\<lambda>L m ns. do { ns2 \<leftarrow> do { ns1 \<leftarrow> at_kids a (ua L m) ns; at_kids b (ub L m) ns1 }; at_kids c (uc L m) ns2 })
      ({} \<union> {} \<union> {}) N
      (\<lambda>L. when_node e (parse_enhance L ((cs ''version'', f) # tbl))) (\<lambda>L m. at_node e (update_enhance L f m)) Y"
    by (rule kids_then_version [OF two_sections.both_section [OF abc] V], rule three_kids_kept) simp_all
  show ?thesis using two_sections.both_section [OF all] by (simp add: bind_assoc)
qed

lemma rgbmap_section:
  "xml_section (\<lambda>L. when_kids b (\<lambda>kids. Some (parse_items L (rgbmap_tbl base) 0 kids)))
    (\<lambda>L m. at_kids b (update_items L (rgbmap_tbl base) m 0)) {} N"
  by (rule kids_section) (auto intro: items_from_mem [OF _ _ narrow_rgbmap_tbl])

lemma config_section:
  "xml_section (\<lambda>L. when_kids b (parse_each (parse_mode L cm_cfg_mode
       (\<lambda>i kids. Some (fst (parse_chain L (short_tbl (i < 12) (base + 24 * i) coef_names) kids)))) 0))
    (\<lambda>L m. at_kids b (update_each (update_mode L cm_cfg_mode
       (\<lambda>i. chain_all L m (short_tbl (i < 12) (base + 24 * i) coef_names))) 0)) {} N"
  by (rule modes_kids_section) (auto intro: chain_from_mem [OF _ _ narrow_short_tbl])

interpretation cms: xml_section
  "\<lambda>L ns. do {
     as \<leftarrow> when_kids (cs ''hsv_cm'') (parse_cms_hsvcm L) ns;
     bs \<leftarrow> when_kids (cs ''rgb_mapping_table'') (parse_cms_rgbmap_table L) ns;
     ms \<leftarrow> when_kids (cs ''cm_cfg'') (parse_cms_config_table L) ns;
     vs \<leftarrow> when_node (cs ''enhance'') (parse_cms_version L) ns;
     Some (as @ bs @ ms @ vs)
   }"
  "\<lambda>L m ns. do {
     ns1 \<leftarrow> at_kids (cs ''hsv_cm'') (update_cms_hsvcm L m) ns;
     ns2 \<leftarrow> at_kids (cs ''rgb_mapping_table'') (update_cms_rgbmap_table L m) ns1;
     ns3 \<leftarrow> at_kids (cs ''cm_cfg'') (update_cms_config_table L m) ns2;
     at_node (cs ''enhance'') (update_cms_version L m) ns3
   }" "{}" 0
  unfolding parse_cms_hsvcm_def update_cms_hsvcm_def parse_cms_rgbmap_table_def update_cms_rgbmap_table_def
    parse_cms_config_table_def update_cms_config_table_def parse_cms_version_def update_cms_version_def
  by (rule three_kids_then_version [OF modes_kids_section [OF hsvcm_read_back] rgbmap_section config_section]) simp_all

text \<open>The settings of the later chips: every group of fields is at most 16 bits wide.\<close>

definition cms_wf :: "cms_lay \<Rightarrow> bool" where
  "cms_wf c \<longleftrightarrow> (\<forall>(k, ty, d) \<in> set (cl_slp c). ty \<noteq> U32)"

lemma narrow_tbl_at: "\<forall>(k, ty, d) \<in> set tbl. ty \<noteq> U32 \<Longrightarrow> \<forall>(k, f) \<in> set (tbl_at off tbl). narrow f"
  by (auto simp: tbl_at_def narrow_def)

lemma setting_read_back:
  assumes L: "xml_laws L" and c: "cms_wf c" and u: "update_hsv_cm_epf_slp_ltm L c m i ks = Some ks'"
  shows "\<exists>as. parse_hsv_cm_epf_slp_ltm L c i ks' = Some as \<and> from_mem X m as"
proof -
  have e: "\<forall>(k, f) \<in> set (tbl_at off epf_fields). narrow f" for off
    by (rule narrow_tbl_at) (simp add: epf_fields_def)
  have l: "\<forall>(k, f) \<in> set (tbl_at off ltm_fields). narrow f" for off
    by (rule narrow_tbl_at) (simp add: ltm_fields_def)
  have s: "\<forall>(k, f) \<in> set (tbl_at off (cl_slp c)). narrow f" for off
    by (rule narrow_tbl_at) (use c in \<open>simp add: cms_wf_def\<close>)
  note defs = parse_hsv_def update_hsv_def parse_cm_def update_cm_def parse_epf_def update_epf_def
    parse_slp_def update_slp_def parse_ltm_def update_ltm_def
  show ?thesis
    unfolding parse_hsv_cm_epf_slp_ltm_def
    by (rule each_read_back [OF named_read_back u [unfolded update_hsv_cm_epf_slp_ltm_def], THEN conjunct2])
       (auto simp: defs split: if_splits intro: chain_from_mem [OF L _ narrow_short_tbl] chain_from_mem [OF L _ e]
          chain_from_mem [OF L _ l] chain_from_mem [OF L _ s] items_from_mem [OF L _ narrow_hsv_items])
qed

lemma cms_body_section:
  assumes "cms_wf c"
  shows "xml_section (\<lambda>L. cms_parse_body L c) (\<lambda>L. cms_update_body L c) {Some (U16, 3150)} 3152"
  unfolding cms_parse_body_def cms_update_body_def parse_cms_hsvcm_epf_slp_ltm_def update_cms_hsv_cm_epf_slp_ltm_def
    parse_cms_rgbmap_table_l5_def update_cms_rgbmap_table_l5_def
    parse_cms_config_table_l5_def update_cms_config_table_l5_def parse_cms_version_l5_def update_cms_version_l5_def
  by (rule three_kids_then_version [OF modes_kids_section [OF setting_read_back] rgbmap_section config_section])
     (simp_all add: assms)

interpretation cms_l5: xml_section "\<lambda>L. cms_parse_body L cms_sharkl5" "\<lambda>L. cms_update_body L cms_sharkl5"
  "{Some (U16, 3150)}" 3152
  by (rule cms_body_section) (simp add: cms_wf_def cms_sharkl5_def)

interpretation cms_r4: xml_section "\<lambda>L. cms_parse_body L cms_sharkl5Pro" "\<lambda>L. cms_update_body L cms_sharkl5Pro"
  "{Some (U16, 3150)}" 3152
  by (rule cms_body_section) (simp add: cms_wf_def cms_sharkl5Pro_def)

lemma CmsParserR4p0_bodies:
  "CmsParserR4p0_update_xml L = update_file L cms_xml (cs ''root'') (- 1) (cms_update_body L cms_sharkl5Pro) (save_once L cms_xml)"
  "CmsParserR4p0_parse_xml L = parse_file L cms_xml (cs ''root'') 1 (cms_parse_body L cms_sharkl5Pro) (save_twice L cms_xml)"
  unfolding CmsParserR4p0_update_xml_def CmsParserR4p0_parse_xml_def cms_update_body_def cms_parse_body_def
    update_cms_hsv_cm_epf_slp_ltm_r4_def update_cms_rgbmap_table_r4_def update_cms_config_table_r4_def
    update_cms_version_r4_def update_cms_version_l5_def parse_cms_hsvcm_epf_slp_ltm_r4_def
    parse_cms_rgbmap_table_r4_def parse_cms_config_table_r4_def parse_cms_version_r4_def parse_cms_version_l5_def
  by (rule refl)+

text \<open>: when writing the colour file has succeeded, reading it into any block of the size brings exactly the
  fields the file names from the block that was written (tables, matrices, the edge, light and clip settings,
  colour map, version) and leaves the rest, the major version aside, which is read but never written.\<close>

theorem CmsParserLiteR2p0_copies:
  assumes "xml_laws L" and "\<forall>p d x. fst (xmlSaveFormatFileEnc L p d x) \<noteq> - 1"
    and "CmsParserLiteR2p0_update_xml L s = Some (0, s')"
    and "3152 \<le> length (q_ctx s)" and "length ctx = length (q_ctx s)"
  shows "\<exists>as s''. CmsParserLiteR2p0_parse_xml L (s'\<lparr>q_ctx := ctx\<rparr>) = Some (0, s'') \<and> length (q_ctx s'') = length ctx \<and>
     (\<forall>i < length ctx. i \<noteq> 3150 \<and> i \<noteq> 3151 \<longrightarrow> q_ctx s'' ! i = (if covers as i then q_ctx s ! i else ctx ! i))"
proof -
  have X: "in_flds {Some (U16, 3150)} i \<longleftrightarrow> i = 3150 \<or> i = 3151" for i by (auto simp: in_flds_def)
  have 0: "fst (save_twice L cms_xml d x) = 0" for d x
    using assms(2) by (simp add: save_twice_def case_prod_unfold Let_def)
  show ?thesis
    using cms_l5.file_copies [OF assms(1) assms(3) [unfolded CmsParserLiteR2p0_update_xml_def] _
      save_once_saves [OF assms(1,2)] assms(4,5), of 1 "save_twice L cms_xml"]
    unfolding CmsParserLiteR2p0_parse_xml_def X 0 by fastforce
qed

definition ex_cms_doc :: xnode where
  "ex_cms_doc = XNode (cs ''root'') []
     [XNode (cs ''hsv_cm_epf_slp_ltm'') []
        [XNode (cs ''coef'') [(cs ''mode'', cs ''auto'')]
           [XNode (cs ''slp'') [] [XNode (cs ''param'') [(cs ''brightness'', cs ''9'')] []]]],
      XNode (cs ''enhance'') [(cs ''version'', cs ''3'')] [], XNode (cs ''end'') [] []]"

theorem CmsParserLiteR2p0_copies_witness:
  "\<exists>s' as s''. CmsParserLiteR2p0_update_xml ex_xml (ex_pq Map.empty [cms_xml \<mapsto> ex_cms_doc] (replicate 4630 0 @ [7])) = Some (0, s') \<and>
     CmsParserLiteR2p0_parse_xml ex_xml (s'\<lparr>q_ctx := replicate 4631 1\<rparr>) = Some (0, s'') \<and>
     (\<forall>i < 4631. i \<noteq> 3150 \<and> i \<noteq> 3151 \<longrightarrow> q_ctx s'' ! i = (if covers as i then (replicate 4630 0 @ [7]) ! i else replicate 4631 1 ! i))"
proof -
  let ?s = "ex_pq Map.empty [cms_xml \<mapsto> ex_cms_doc] (replicate 4630 0 @ [7])"
  have u: "\<exists>s'. CmsParserLiteR2p0_update_xml ex_xml ?s = Some (0, s')"
    by (simp add: CmsParserLiteR2p0_update_xml_def cms_update_body_def update_file_def ex_pq_def ex_xml_def ex_cms_doc_def
      at_node_def at_kids_def FindNode_def update_cms_hsv_cm_epf_slp_ltm_def update_cms_version_l5_def update_mode_def cms_mode_def
      update_hsv_cm_epf_slp_ltm_def update_named_def update_slp_def cms_sharkl5_def tbl_at_def setting_def chain_all_def
      show_fld_def ld_def get_def de32_def show_int_def show_nat_digit save_once_def with_kids_def cs_def)
  then obtain s' where s': "CmsParserLiteR2p0_update_xml ex_xml ?s = Some (0, s')" by blast
  have l: "3152 \<le> length (q_ctx ?s)" "length (replicate 4631 1) = length (q_ctx ?s)" by (simp_all add: ex_pq_def)
  show ?thesis using CmsParserLiteR2p0_copies [OF ex_xml_laws ex_xml_saves s' l] s' by (auto simp: ex_pq_def)
qed

end
