(* ===== verification/PQAbc.thy ===== *)
theory PQAbc
  imports PQCms
begin

text \<open>
  The parsers for the settings that follow the ambient light: \<open>PQParsers/AbcParsers.cpp\<close>,
  \<open>roc1/AbcParsersR3p0.cpp\<close>, \<open>sharkl5/AbcParsersLiteR2p0.cpp\<close>, \<open>sharkl5Pro/AbcParsersR4p0.cpp\<close>. The functions
  of the first are over the layout of the block, those of the others are its instances and what they
  add. Writing changes the number of scenes and of table rows in the file to those of the block. Shown:
  when the loops over the parameters end, and that resized tables are read back.
\<close>

definition abc_xml :: "byte list" where "abc_xml = cs ''/mnt/vendor/enhance/abc.xml''"
definition Brightness :: "byte list" where "Brightness = cs ''/sys/class/backlight/sprd_backlight/brightness''"
definition SLP_EN :: nat where "SLP_EN = 16"

section \<open>Layouts\<close>

text \<open>\<open>abc_common\<close> and its variants: the two scene tables and their size, the scenes in a table and their size,
  the places of \<open>slp\<close>, \<open>ltm\<close> and the mapping table in a scene, the fields of \<open>slp\<close>, the two backlight tables.\<close>

record abc_lay =
  ab_scene :: nat
  ab_scene_size :: nat
  ab_items :: nat
  ab_item_size :: nat
  ab_slp :: nat
  ab_slp_fields :: "(byte list \<times> cty \<times> nat) list"
  ab_ltm :: nat
  ab_map :: nat
  ab_bl :: nat

definition slp_fields :: "(byte list \<times> cty \<times> nat) list" where
  "slp_fields = [(cs ''brightness'', U8, 0), (cs ''conversion_matrix'', U8, 1), (cs ''brightness_step'', U8, 2),
     (cs ''second_bright_factor'', U8, 3), (cs ''first_percent_th'', U8, 4), (cs ''first_max_bright_th'', U8, 5)]"

definition abc_sharkl3 :: abc_lay where
  "abc_sharkl3 = \<lparr>ab_scene = 10684, ab_scene_size = 8836, ab_items = 4,
     ab_item_size = 552, ab_slp = 28, ab_slp_fields = slp_fields, ab_ltm = 0, ab_map = 36, ab_bl = 28356\<rparr>"

definition scene :: "abc_lay \<Rightarrow> nat \<Rightarrow> nat" where
  "scene b i = ab_scene b + i * ab_scene_size b"

definition scene_item :: "abc_lay \<Rightarrow> nat \<Rightarrow> nat \<Rightarrow> nat" where
  "scene_item b i j = scene b i + ab_items b + j * ab_item_size b"

text \<open>There are 16 scenes in a table, 128 rows in a mapping table.\<close>

definition item_tbl :: "abc_lay \<Rightarrow> nat \<Rightarrow> nat \<Rightarrow> (byte list \<times> cty \<times> nat) list \<Rightarrow> nat \<Rightarrow> (byte list \<times> fld) list" where
  "item_tbl b off i tbl j = map (\<lambda>(k, ty, d). (k, if j < 16 then Some (ty, scene_item b i j + off + d) else None)) tbl"

definition map_num :: "abc_lay \<Rightarrow> nat \<Rightarrow> nat \<Rightarrow> fld" where
  "map_num b i j = (if j < 16 then Some (U32, scene_item b i j + ab_map b) else None)"

definition map_tbl :: "abc_lay \<Rightarrow> nat \<Rightarrow> nat \<Rightarrow> nat \<Rightarrow> (byte list \<times> fld) list" where
  "map_tbl b i j k =
     [(cs ''ambient'', if j < 16 then elem 128 k 4 U16 (scene_item b i j + ab_map b + 4) else None),
      (cs ''brightness'', if j < 16 then elem 128 k 4 U16 (scene_item b i j + ab_map b + 6) else None)]"

definition bl_num :: "abc_lay \<Rightarrow> nat \<Rightarrow> fld" where
  "bl_num b i = (if i < 2 then Some (U32, ab_bl b + i * 516) else None)"

definition bl_tbl :: "abc_lay \<Rightarrow> nat \<Rightarrow> nat \<Rightarrow> (byte list \<times> fld) list" where
  "bl_tbl b i k =
     [(cs ''ambient'', if i < 2 then elem 128 k 4 U16 (ab_bl b + i * 516 + 4) else None),
      (cs ''brightness'', if i < 2 then elem 128 k 4 U16 (ab_bl b + i * 516 + 6) else None)]"

definition abc_mode :: "byte list \<Rightarrow> nat \<Rightarrow> nat option" where
  "abc_mode v i = (if v = cs ''normal'' then Some 0 else if v = cs ''low power'' then Some 1 else None)"

datatype epf_fun = EPF_FUN_SUNLIGHT_PROTECTOR | EPF_FUN_SUPER_RESOLUTION

fun epf_off :: "epf_fun \<Rightarrow> nat" where
  "epf_off EPF_FUN_SUNLIGHT_PROTECTOR = 0" | "epf_off EPF_FUN_SUPER_RESOLUTION = 14"

section \<open>AbcParsers.cpp: reading\<close>

text \<open>The loop over the parameters runs the row of macros and then steps over a node, if one is left.\<close>

lemma parse_chain_rest: "length (snd (parse_chain L tbl ns)) \<le> length ns"
proof (induction L tbl ns rule: parse_chain.induct)
  case (2 L k f tbl ns)
  then show ?case by (cases ns) (auto simp: case_prod_unfold Let_def le_SucI)
qed simp

function parse_params :: "'f libxml \<Rightarrow> (byte list \<times> fld) list \<Rightarrow> xnode list \<Rightarrow> assign list" where
  "parse_params L tbl ns =
     (if ns = [] then []
      else let (as, r) = parse_chain L tbl ns in as @ parse_params L tbl (drop 1 r))"
  by auto

termination
proof (relation "measure (\<lambda>(L, tbl, ns). length ns)", goal_cases)
  case (2 L tbl ns x as r)
  have "length r \<le> length ns" using parse_chain_rest [of L tbl ns] 2(2,3) by (metis snd_conv)
  moreover have "0 < length ns" using 2(1) by simp
  ultimately show ?case by (cases ns) auto
qed simp

declare parse_params.simps [simp del]

definition parse_epf_child_config :: "'f libxml \<Rightarrow> abc_lay \<Rightarrow> epf_fun \<Rightarrow> nat \<Rightarrow> xnode list \<Rightarrow> assign list option" where
  "parse_epf_child_config L b e i =
     parse_each (\<lambda>j n. Some (parse_params L (item_tbl b (epf_off e) i epf_fields j) (x_kids n))) 0"

definition parse_epf_next_config :: "'f libxml \<Rightarrow> abc_lay \<Rightarrow> epf_fun \<Rightarrow> xnode list \<Rightarrow> assign list option" where
  "parse_epf_next_config L b e = parse_each (parse_mode L abc_mode (parse_epf_child_config L b e)) 0"

definition parse_epf_config :: "'f libxml \<Rightarrow> abc_lay \<Rightarrow> xnode list \<Rightarrow> assign list option" where
  "parse_epf_config L b kids = do {
     as \<leftarrow> when_kids (cs ''sunlight_protector'') (parse_epf_next_config L b EPF_FUN_SUNLIGHT_PROTECTOR) kids;
     bs \<leftarrow> when_kids (cs ''super_resolution'') (parse_epf_next_config L b EPF_FUN_SUPER_RESOLUTION) kids;
     Some (as @ bs)
   }"

definition parse_slp_child_config :: "'f libxml \<Rightarrow> abc_lay \<Rightarrow> nat \<Rightarrow> xnode list \<Rightarrow> assign list option" where
  "parse_slp_child_config L b i =
     parse_each (\<lambda>j n. Some (parse_params L (item_tbl b (ab_slp b) i (ab_slp_fields b) j) (x_kids n))) 0"

definition parse_slp_config :: "'f libxml \<Rightarrow> abc_lay \<Rightarrow> xnode list \<Rightarrow> assign list option" where
  "parse_slp_config L b = parse_each (parse_mode L abc_mode (parse_slp_child_config L b)) 0"

definition parse_abc_version :: "'f libxml \<Rightarrow> xnode list \<Rightarrow> assign list option" where
  "parse_abc_version L = parse_enhance L [(cs ''version'', Some (U32, 10672))]"

definition parse_slp_mapping_child_table :: "'f libxml \<Rightarrow> abc_lay \<Rightarrow> nat \<Rightarrow> xnode list \<Rightarrow> assign list option" where
  "parse_slp_mapping_child_table L b i ns = do {
     as \<leftarrow> parse_each (\<lambda>j n. Some (parse_items L (map_tbl b i j) 0 (x_kids n) @
                                 [(map_num b i j, of_nat (length (x_kids n)))])) 0 ns;
     Some (as @ [(Some (U16, scene b i), of_nat (length ns))])
   }"

definition parse_slp_mapping_table :: "'f libxml \<Rightarrow> abc_lay \<Rightarrow> xnode list \<Rightarrow> assign list option" where
  "parse_slp_mapping_table L b = parse_each (parse_mode L abc_mode (parse_slp_mapping_child_table L b)) 0"

text \<open>The backlight tables are told apart by their position, whatever the mode.\<close>

definition parse_bl_mapping_table :: "'f libxml \<Rightarrow> abc_lay \<Rightarrow> xnode list \<Rightarrow> assign list option" where
  "parse_bl_mapping_table L b =
     parse_each (parse_mode L (\<lambda>_ i. Some i) (\<lambda>i kids. Some (parse_items L (bl_tbl b i) 0 kids @
                                                            [(bl_num b i, of_nat (length kids))]))) 0"

section \<open>AbcParsers.cpp: writing\<close>

definition update_abc_version :: "'f libxml \<Rightarrow> mem \<Rightarrow> xnode list \<Rightarrow> xnode list option" where
  "update_abc_version L = update_enhance L (Some (U32, 10672))"

text \<open>The loop over the parameters when writing only runs the row of macros: when the row does not
  use the first node, it runs for ever. \<open>None\<close> is then not returning.\<close>

partial_function (option) update_params :: "'f libxml \<Rightarrow> mem \<Rightarrow> (byte list \<times> fld) list \<Rightarrow> xnode list \<Rightarrow> xnode list option" where
  "update_params L m tbl ns =
     (if ns = [] then Some []
      else Option.bind (update_chain L m tbl ns)
        (\<lambda>p. Option.bind (update_params L m tbl (snd p)) (\<lambda>rest. Some (fst p @ rest))))"

text \<open>Numbers beyond those of the block go, missing ones are added behind the last; \<open>visit\<close> is what is done to
  a number that stays, \<open>mk\<close> makes a new one.\<close>

definition new_param :: "'f libxml \<Rightarrow> byte list \<Rightarrow> xnode" where
  "new_param L k = xmlNewProp L (XNode (cs ''param'') [] []) k (cs ''1'')"

definition new_item :: "'f libxml \<Rightarrow> xnode" where
  "new_item L = xmlNewProp L (xmlNewProp L (XNode (cs ''item'') [] []) (cs ''ambient'') (cs ''1'')) (cs ''brightness'') (cs ''1'')"

definition new_number :: "'f libxml \<Rightarrow> xnode list \<Rightarrow> nat \<Rightarrow> xnode" where
  "new_number L kids j = xmlNewProp L (XNode (cs ''number'') [] kids) (cs ''index'') (show_nat j)"

definition next_numbers :: "(nat \<Rightarrow> xnode option) \<Rightarrow> nat \<Rightarrow> nat \<Rightarrow> xnode list \<Rightarrow> xnode list option" where
  "next_numbers mk want k rest =
     (if k < want then map_option (\<lambda>new. rest @ new) (those (map mk [k..<want])) else Some [])"

fun resize_numbers :: "(nat \<Rightarrow> xnode \<Rightarrow> xnode option) \<Rightarrow> (nat \<Rightarrow> xnode option) \<Rightarrow> nat \<Rightarrow> nat \<Rightarrow> xnode list \<Rightarrow> xnode list option" where
  "resize_numbers visit mk want k [] = Some []"
| "resize_numbers visit mk want k (n # rest) = do {
     n' \<leftarrow> visit k n;
     rest' \<leftarrow> (if rest \<noteq> [] \<and> Suc k < want then resize_numbers visit mk want (Suc k) rest
               else next_numbers mk want (Suc k) rest);
     Some (n' # rest')
   }"

definition scene_num :: "abc_lay \<Rightarrow> mem \<Rightarrow> nat \<Rightarrow> nat option" where
  "scene_num b m i = map_option nat (ld U16 (scene b i) m)"

definition rows_num :: "fld \<Rightarrow> mem \<Rightarrow> int option" where
  "rows_num f m = do { (ty, off) \<leftarrow> f; ld ty off m }"

text \<open>Rows of a mapping table, \<open>want\<close> of them, when \<open>k\<close> have been seen.\<close>

definition update_slp_items_xml :: "'f libxml \<Rightarrow> int \<Rightarrow> nat \<Rightarrow> xnode list \<Rightarrow> xnode list" where
  "update_slp_items_xml L want k rest = (if int k < want then rest @ replicate (nat want - k) (new_item L) else [])"

fun resize_items :: "'f libxml \<Rightarrow> int \<Rightarrow> nat \<Rightarrow> xnode list \<Rightarrow> xnode list" where
  "resize_items L want k [] = []"
| "resize_items L want k (n # rest) =
     n # (if rest \<noteq> [] \<and> int (Suc k) < want then resize_items L want (Suc k) rest
          else update_slp_items_xml L want (Suc k) rest)"

definition update_slp_mapping_items_child_xml :: "'f libxml \<Rightarrow> int \<Rightarrow> xnode list" where
  "update_slp_mapping_items_child_xml L want = replicate (nat want) (new_item L)"

definition slp_number :: "'f libxml \<Rightarrow> abc_lay \<Rightarrow> mem \<Rightarrow> nat \<Rightarrow> nat \<Rightarrow> xnode option" where
  "slp_number L b m i j = map_option (\<lambda>w. new_number L (update_slp_mapping_items_child_xml L w) j) (rows_num (map_num b i j) m)"

definition update_slp_index_xml :: "'f libxml \<Rightarrow> abc_lay \<Rightarrow> mem \<Rightarrow> nat \<Rightarrow> nat \<Rightarrow> nat \<Rightarrow> xnode list \<Rightarrow> xnode list option" where
  "update_slp_index_xml L b m i = next_numbers (slp_number L b m i)"

definition update_slp_mapping_indexs_arrays :: "'f libxml \<Rightarrow> abc_lay \<Rightarrow> mem \<Rightarrow> nat \<Rightarrow> xnode list \<Rightarrow> xnode list option" where
  "update_slp_mapping_indexs_arrays L b m i ns = do {
     want \<leftarrow> scene_num b m i;
     resize_numbers (\<lambda>j n. map_option (\<lambda>w. with_kids n (resize_items L w 0 (x_kids n))) (rows_num (map_num b i j) m))
       (slp_number L b m i) want 0 ns
   }"

definition update_slp_mapping_child_table :: "'f libxml \<Rightarrow> abc_lay \<Rightarrow> mem \<Rightarrow> nat \<Rightarrow> xnode list \<Rightarrow> xnode list option" where
  "update_slp_mapping_child_table L b m i =
     update_each (\<lambda>j n. map_option (with_kids n) (update_items L (map_tbl b i j) m 0 (x_kids n))) 0"

definition update_slp_mapping_table :: "'f libxml \<Rightarrow> abc_lay \<Rightarrow> mem \<Rightarrow> xnode list \<Rightarrow> xnode list option" where
  "update_slp_mapping_table L b m =
     update_each (update_mode L abc_mode (\<lambda>i kids. do {
       ks \<leftarrow> update_slp_mapping_indexs_arrays L b m i kids;
       update_slp_mapping_child_table L b m i ks
     })) 0"

text \<open>Rows of a backlight table: written one by one; missing ones are added with their values. Without a
  row, the count is compared before it was set.\<close>

definition new_row :: "'f libxml \<Rightarrow> (byte list \<times> fld) list \<Rightarrow> mem \<Rightarrow> xnode option" where
  "new_row L tbl m = do {
     a \<leftarrow> show_fld 10 (snd (tbl ! 0)) m;
     l \<leftarrow> show_fld 10 (snd (tbl ! 1)) m;
     Some (xmlNewProp L (xmlNewProp L (XNode (cs ''item'') [] []) (fst (tbl ! 0)) a) (fst (tbl ! 1)) l)
   }"

fun update_rows :: "'f libxml \<Rightarrow> (nat \<Rightarrow> (byte list \<times> fld) list) \<Rightarrow> mem \<Rightarrow> int \<Rightarrow> nat \<Rightarrow> xnode list \<Rightarrow> xnode list option" where
  "update_rows L tbl m want j [] = None"
| "update_rows L tbl m want j (n # rest) = do {
     n' \<leftarrow> update_attrs L (tbl j) m n;
     rest' \<leftarrow> (if rest \<noteq> [] \<and> int (Suc j) < want then update_rows L tbl m want (Suc j) rest
               else if int (Suc j) < want then map_option (\<lambda>new. rest @ new) (those (map (\<lambda>k. new_row L (tbl k) m) [Suc j..<nat want]))
               else Some []);
     Some (n' # rest')
   }"

definition update_bl_child_table :: "'f libxml \<Rightarrow> abc_lay \<Rightarrow> mem \<Rightarrow> nat \<Rightarrow> xnode list \<Rightarrow> xnode list option" where
  "update_bl_child_table L b m i kids = do {
     want \<leftarrow> rows_num (bl_num b i) m;
     update_rows L (bl_tbl b i) m want 0 kids
   }"

definition update_bl_mapping_table :: "'f libxml \<Rightarrow> abc_lay \<Rightarrow> mem \<Rightarrow> xnode list \<Rightarrow> xnode list option" where
  "update_bl_mapping_table L b m = update_each (update_mode L abc_mode (update_bl_child_table L b m)) 0"

definition update_epf_child_config :: "'f libxml \<Rightarrow> abc_lay \<Rightarrow> mem \<Rightarrow> epf_fun \<Rightarrow> nat \<Rightarrow> xnode list \<Rightarrow> xnode list option" where
  "update_epf_child_config L b m e i =
     update_each (\<lambda>j n. map_option (with_kids n) (update_params L m (item_tbl b (epf_off e) i epf_fields j) (x_kids n))) 0"

definition update_epf_config_child_xml :: "'f libxml \<Rightarrow> xnode list" where
  "update_epf_config_child_xml L = map (\<lambda>(k, _). new_param L k) epf_fields"

definition update_epf_config_index_xml :: "'f libxml \<Rightarrow> nat \<Rightarrow> nat \<Rightarrow> xnode list \<Rightarrow> xnode list option" where
  "update_epf_config_index_xml L = next_numbers (\<lambda>j. Some (new_number L (update_epf_config_child_xml L) j))"

definition update_epf_config_indexs_arrays :: "'f libxml \<Rightarrow> abc_lay \<Rightarrow> mem \<Rightarrow> nat \<Rightarrow> xnode list \<Rightarrow> xnode list option" where
  "update_epf_config_indexs_arrays L b m i ns = do {
     want \<leftarrow> scene_num b m i;
     resize_numbers (\<lambda>_. Some) (\<lambda>j. Some (new_number L (update_epf_config_child_xml L) j)) want 0 ns
   }"

definition update_epf_next_config :: "'f libxml \<Rightarrow> abc_lay \<Rightarrow> mem \<Rightarrow> epf_fun \<Rightarrow> xnode list \<Rightarrow> xnode list option" where
  "update_epf_next_config L b m e =
     update_each (update_mode L abc_mode (\<lambda>i kids. do {
       ks \<leftarrow> update_epf_config_indexs_arrays L b m i kids;
       update_epf_child_config L b m e i ks
     })) 0"

definition update_epf_config :: "'f libxml \<Rightarrow> abc_lay \<Rightarrow> mem \<Rightarrow> xnode list \<Rightarrow> xnode list option" where
  "update_epf_config L b m kids = do {
     ks \<leftarrow> at_kids (cs ''sunlight_protector'') (update_epf_next_config L b m EPF_FUN_SUNLIGHT_PROTECTOR) kids;
     at_kids (cs ''super_resolution'') (update_epf_next_config L b m EPF_FUN_SUPER_RESOLUTION) ks
   }"

definition update_slp_child_config :: "'f libxml \<Rightarrow> abc_lay \<Rightarrow> mem \<Rightarrow> nat \<Rightarrow> xnode list \<Rightarrow> xnode list option" where
  "update_slp_child_config L b m i =
     update_each (\<lambda>j n. map_option (with_kids n) (update_params L m (item_tbl b (ab_slp b) i (ab_slp_fields b) j) (x_kids n))) 0"

text \<open>The conversion matrix is added twice.\<close>

definition update_slp_config_child_xml :: "'f libxml \<Rightarrow> xnode list" where
  "update_slp_config_child_xml L = map (new_param L) [cs ''brightness'', cs ''conversion_matrix'', cs ''conversion_matrix'',
     cs ''brightness_step'', cs ''second_bright_factor'', cs ''first_percent_th'', cs ''first_max_bright_th'']"

definition update_slp_config_index_xml :: "'f libxml \<Rightarrow> nat \<Rightarrow> nat \<Rightarrow> xnode list \<Rightarrow> xnode list option" where
  "update_slp_config_index_xml L = next_numbers (\<lambda>j. Some (new_number L (update_slp_config_child_xml L) j))"

definition update_slp_config_indexs_arrays :: "'f libxml \<Rightarrow> abc_lay \<Rightarrow> mem \<Rightarrow> nat \<Rightarrow> xnode list \<Rightarrow> xnode list option" where
  "update_slp_config_indexs_arrays L b m i ns = do {
     want \<leftarrow> scene_num b m i;
     resize_numbers (\<lambda>_. Some) (\<lambda>j. Some (new_number L (update_slp_config_child_xml L) j)) want 0 ns
   }"

definition update_slp_config :: "'f libxml \<Rightarrow> abc_lay \<Rightarrow> mem \<Rightarrow> xnode list \<Rightarrow> xnode list option" where
  "update_slp_config L b m =
     update_each (update_mode L abc_mode (\<lambda>i kids. do {
       ks \<leftarrow> update_slp_config_indexs_arrays L b m i kids;
       update_slp_child_config L b m i ks
     })) 0"

section \<open>AbcParsers.cpp: driver and file\<close>

definition AbcParser_parse_reg :: "('p, 'f) pq \<Rightarrow> (int \<times> ('p, 'f) pq) option" where
  "AbcParser_parse_reg s =
     (if \<not> fs_open DpuSlp (q_fs s) then Some (q_errno s, s)
      else do { (cnt, s') \<leftarrow> reg_read DpuSlp 10716 6 s; Some (if cnt \<noteq> 6 then - 1 else 0, s') })"

text \<open>With the backlight table in use, the backlight is switched to 255 first.\<close>

definition write_backlight :: "nat \<Rightarrow> ('p, 'f) pq \<Rightarrow> (bool \<times> ('p, 'f) pq) option" where
  "write_backlight off s = do {
     md \<leftarrow> ld U16 off (q_ctx s);
     if md = 2
     then if \<not> fs_open Brightness (q_fs s) then Some (False, s)
          else Some (True, reg_write Brightness (cs ''255'' @ replicate 8 0) s)
     else Some (True, s)
   }"

definition AbcParser_update_reg :: "('p, 'f) pq \<Rightarrow> (int \<times> ('p, 'f) pq) option" where
  "AbcParser_update_reg s = do {
     en \<leftarrow> ld U32 10676 (q_ctx s);
     if en \<noteq> 0
     then do {
       (fine, s1) \<leftarrow> write_backlight 10682 s;
       if \<not> fine \<or> \<not> fs_open DpuSlp (q_fs s1) then Some (q_errno s1, s1)
       else do { bs \<leftarrow> get (q_ctx s1) 10716 6; Some (0, reg_write DpuSlp bs s1) }
     }
     else Some (reg_disable SLP_EN s)
   }"

definition AbcParser_parse_xml :: "'f libxml \<Rightarrow> ('p, 'f) pq \<Rightarrow> (int \<times> ('p, 'f) pq) option" where
  "AbcParser_parse_xml L =
     parse_file L abc_xml (cs ''root'') (- 1)
       (\<lambda>ns. do {
          es \<leftarrow> when_kids (cs ''epf_config'') (parse_epf_config L abc_sharkl3) ns;
          ss \<leftarrow> when_kids (cs ''slp_config'') (parse_slp_config L abc_sharkl3) ns;
          ms \<leftarrow> when_kids (cs ''slp_mapping_table'') (parse_slp_mapping_table L abc_sharkl3) ns;
          bs \<leftarrow> when_kids (cs ''bl_mapping_table'') (parse_bl_mapping_table L abc_sharkl3) ns;
          vs \<leftarrow> when_node (cs ''enhance'') (parse_abc_version L) ns;
          Some (es @ ss @ ms @ bs @ vs)
        }) (save_once L abc_xml)"

text \<open>Only the table of the mode in use is written.\<close>

definition in_mode :: "nat \<Rightarrow> int \<Rightarrow> mem \<Rightarrow> (xnode list \<Rightarrow> xnode list option) \<Rightarrow> xnode list \<Rightarrow> xnode list option" where
  "in_mode off k m f ns = do { md \<leftarrow> ld U16 off m; if md = k then f ns else Some ns }"

definition AbcParser_update_xml :: "'f libxml \<Rightarrow> ('p, 'f) pq \<Rightarrow> (int \<times> ('p, 'f) pq) option" where
  "AbcParser_update_xml L =
     update_file L abc_xml (cs ''root'') (- 1)
       (\<lambda>m ns. do {
          ns1 \<leftarrow> at_kids (cs ''epf_config'') (update_epf_config L abc_sharkl3 m) ns;
          ns2 \<leftarrow> at_kids (cs ''slp_config'') (update_slp_config L abc_sharkl3 m) ns1;
          ns3 \<leftarrow> at_kids (cs ''slp_mapping_table'') (in_mode 10682 1 m (update_slp_mapping_table L abc_sharkl3 m)) ns2;
          ns4 \<leftarrow> at_kids (cs ''bl_mapping_table'') (in_mode 10682 2 m (update_bl_mapping_table L abc_sharkl3 m)) ns3;
          at_node (cs ''enhance'') (update_abc_version L m) ns4
        }) (save_once L abc_xml)"

section \<open>AbcParsersR3p0.cpp\<close>

text \<open>\<open>abc_common_roc1\<close>; scenes also have \<open>ltm\<close>.\<close>

definition abc_roc1 :: abc_lay where
  "abc_roc1 = \<lparr>ab_scene = 7952, ab_scene_size = 8964, ab_items = 4, ab_item_size = 560, ab_slp = 28,
     ab_slp_fields = slp_fields, ab_ltm = 34, ab_map = 44, ab_bl = 25880\<rparr>"

definition parse_ltm_child_config :: "'f libxml \<Rightarrow> abc_lay \<Rightarrow> nat \<Rightarrow> xnode list \<Rightarrow> assign list option" where
  "parse_ltm_child_config L b i =
     parse_each (\<lambda>j n. Some (parse_params L (item_tbl b (ab_ltm b) i ltm_fields j) (x_kids n))) 0"

definition parse_ltm_config :: "'f libxml \<Rightarrow> abc_lay \<Rightarrow> xnode list \<Rightarrow> assign list option" where
  "parse_ltm_config L b = parse_each (parse_mode L abc_mode (parse_ltm_child_config L b)) 0"

text \<open>The parameters of \<open>ltm\<close> are looked at one by one.\<close>

definition update_first :: "'f libxml \<Rightarrow> mem \<Rightarrow> (byte list \<times> fld) list \<Rightarrow> xnode \<Rightarrow> xnode option" where
  "update_first L m tbl n =
     (case List.find (\<lambda>(k, f). xmlHasProp L n k) tbl of
        None \<Rightarrow> Some n
      | Some (k, f) \<Rightarrow> map_option (xmlSetProp L n k) (show_fld 10 f m))"

definition update_ltm_child_config :: "'f libxml \<Rightarrow> abc_lay \<Rightarrow> mem \<Rightarrow> nat \<Rightarrow> xnode list \<Rightarrow> xnode list option" where
  "update_ltm_child_config L b m i =
     update_each (\<lambda>j n. map_option (with_kids n)
       (update_each (\<lambda>_. update_first L m (item_tbl b (ab_ltm b) i ltm_fields j)) 0 (x_kids n))) 0"

definition update_ltm_config_child_xml :: "'f libxml \<Rightarrow> xnode list" where
  "update_ltm_config_child_xml L = map (\<lambda>(k, _). new_param L k) ltm_fields"

definition update_ltm_config_index_xml :: "'f libxml \<Rightarrow> nat \<Rightarrow> nat \<Rightarrow> xnode list \<Rightarrow> xnode list option" where
  "update_ltm_config_index_xml L = next_numbers (\<lambda>j. Some (new_number L (update_ltm_config_child_xml L) j))"

definition update_ltm_config_indexs_arrays :: "'f libxml \<Rightarrow> abc_lay \<Rightarrow> mem \<Rightarrow> nat \<Rightarrow> xnode list \<Rightarrow> xnode list option" where
  "update_ltm_config_indexs_arrays L b m i ns = do {
     want \<leftarrow> scene_num b m i;
     resize_numbers (\<lambda>_. Some) (\<lambda>j. Some (new_number L (update_ltm_config_child_xml L) j)) want 0 ns
   }"

definition update_ltm_config :: "'f libxml \<Rightarrow> abc_lay \<Rightarrow> mem \<Rightarrow> xnode list \<Rightarrow> xnode list option" where
  "update_ltm_config L b m =
     update_each (update_mode L abc_mode (\<lambda>i kids. do {
       ks \<leftarrow> update_ltm_config_indexs_arrays L b m i kids;
       update_ltm_child_config L b m i ks
     })) 0"

text \<open>The other functions are those of the first file over this layout.\<close>

definition parse_epf_child_config_r3 :: "'f libxml \<Rightarrow> epf_fun \<Rightarrow> nat \<Rightarrow> xnode list \<Rightarrow> assign list option" where
  "parse_epf_child_config_r3 L = parse_epf_child_config L abc_roc1"

definition parse_epf_next_config_r3 :: "'f libxml \<Rightarrow> epf_fun \<Rightarrow> xnode list \<Rightarrow> assign list option" where
  "parse_epf_next_config_r3 L = parse_epf_next_config L abc_roc1"

definition parse_epf_config_r3 :: "'f libxml \<Rightarrow> xnode list \<Rightarrow> assign list option" where
  "parse_epf_config_r3 L = parse_epf_config L abc_roc1"

definition parse_slp_child_config_r3 :: "'f libxml \<Rightarrow> nat \<Rightarrow> xnode list \<Rightarrow> assign list option" where
  "parse_slp_child_config_r3 L = parse_slp_child_config L abc_roc1"

definition parse_slp_config_r3 :: "'f libxml \<Rightarrow> xnode list \<Rightarrow> assign list option" where
  "parse_slp_config_r3 L = parse_slp_config L abc_roc1"

definition parse_slp_mapping_child_table_r3 :: "'f libxml \<Rightarrow> nat \<Rightarrow> xnode list \<Rightarrow> assign list option" where
  "parse_slp_mapping_child_table_r3 L = parse_slp_mapping_child_table L abc_roc1"

definition parse_slp_mapping_table_r3 :: "'f libxml \<Rightarrow> xnode list \<Rightarrow> assign list option" where
  "parse_slp_mapping_table_r3 L = parse_slp_mapping_table L abc_roc1"

definition parse_bl_mapping_table_r3 :: "'f libxml \<Rightarrow> xnode list \<Rightarrow> assign list option" where
  "parse_bl_mapping_table_r3 L = parse_bl_mapping_table L abc_roc1"

definition update_slp_items_xml_r3 :: "'f libxml \<Rightarrow> int \<Rightarrow> nat \<Rightarrow> xnode list \<Rightarrow> xnode list" where
  "update_slp_items_xml_r3 = update_slp_items_xml"

definition update_slp_mapping_items_child_xml_r3 :: "'f libxml \<Rightarrow> int \<Rightarrow> xnode list" where
  "update_slp_mapping_items_child_xml_r3 = update_slp_mapping_items_child_xml"

definition update_slp_index_xml_r3 :: "'f libxml \<Rightarrow> mem \<Rightarrow> nat \<Rightarrow> nat \<Rightarrow> nat \<Rightarrow> xnode list \<Rightarrow> xnode list option" where
  "update_slp_index_xml_r3 L = update_slp_index_xml L abc_roc1"

definition update_slp_mapping_indexs_arrays_r3 :: "'f libxml \<Rightarrow> mem \<Rightarrow> nat \<Rightarrow> xnode list \<Rightarrow> xnode list option" where
  "update_slp_mapping_indexs_arrays_r3 L = update_slp_mapping_indexs_arrays L abc_roc1"

definition update_slp_mapping_child_table_r3 :: "'f libxml \<Rightarrow> mem \<Rightarrow> nat \<Rightarrow> xnode list \<Rightarrow> xnode list option" where
  "update_slp_mapping_child_table_r3 L = update_slp_mapping_child_table L abc_roc1"

definition update_slp_mapping_table_r3 :: "'f libxml \<Rightarrow> mem \<Rightarrow> xnode list \<Rightarrow> xnode list option" where
  "update_slp_mapping_table_r3 L = update_slp_mapping_table L abc_roc1"

definition update_bl_child_table_r3 :: "'f libxml \<Rightarrow> mem \<Rightarrow> nat \<Rightarrow> xnode list \<Rightarrow> xnode list option" where
  "update_bl_child_table_r3 L = update_bl_child_table L abc_roc1"

definition update_bl_mapping_table_r3 :: "'f libxml \<Rightarrow> mem \<Rightarrow> xnode list \<Rightarrow> xnode list option" where
  "update_bl_mapping_table_r3 L = update_bl_mapping_table L abc_roc1"

definition update_epf_child_config_r3 :: "'f libxml \<Rightarrow> mem \<Rightarrow> epf_fun \<Rightarrow> nat \<Rightarrow> xnode list \<Rightarrow> xnode list option" where
  "update_epf_child_config_r3 L = update_epf_child_config L abc_roc1"

definition update_epf_config_child_xml_r3 :: "'f libxml \<Rightarrow> xnode list" where
  "update_epf_config_child_xml_r3 = update_epf_config_child_xml"

definition update_epf_config_index_xml_r3 :: "'f libxml \<Rightarrow> nat \<Rightarrow> nat \<Rightarrow> xnode list \<Rightarrow> xnode list option" where
  "update_epf_config_index_xml_r3 = update_epf_config_index_xml"

definition update_epf_config_indexs_arrays_r3 :: "'f libxml \<Rightarrow> mem \<Rightarrow> nat \<Rightarrow> xnode list \<Rightarrow> xnode list option" where
  "update_epf_config_indexs_arrays_r3 L = update_epf_config_indexs_arrays L abc_roc1"

definition update_epf_next_config_r3 :: "'f libxml \<Rightarrow> mem \<Rightarrow> epf_fun \<Rightarrow> xnode list \<Rightarrow> xnode list option" where
  "update_epf_next_config_r3 L = update_epf_next_config L abc_roc1"

definition update_epf_config_r3 :: "'f libxml \<Rightarrow> mem \<Rightarrow> xnode list \<Rightarrow> xnode list option" where
  "update_epf_config_r3 L = update_epf_config L abc_roc1"

definition update_slp_child_config_r3 :: "'f libxml \<Rightarrow> mem \<Rightarrow> nat \<Rightarrow> xnode list \<Rightarrow> xnode list option" where
  "update_slp_child_config_r3 L = update_slp_child_config L abc_roc1"

definition update_slp_config_child_xml_r3 :: "'f libxml \<Rightarrow> xnode list" where
  "update_slp_config_child_xml_r3 = update_slp_config_child_xml"

definition update_slp_config_index_xml_r3 :: "'f libxml \<Rightarrow> nat \<Rightarrow> nat \<Rightarrow> xnode list \<Rightarrow> xnode list option" where
  "update_slp_config_index_xml_r3 = update_slp_config_index_xml"

definition update_slp_config_indexs_arrays_r3 :: "'f libxml \<Rightarrow> mem \<Rightarrow> nat \<Rightarrow> xnode list \<Rightarrow> xnode list option" where
  "update_slp_config_indexs_arrays_r3 L = update_slp_config_indexs_arrays L abc_roc1"

definition update_slp_config_r3 :: "'f libxml \<Rightarrow> mem \<Rightarrow> xnode list \<Rightarrow> xnode list option" where
  "update_slp_config_r3 L = update_slp_config L abc_roc1"

definition parse_abc_version_r3 :: "'f libxml \<Rightarrow> xnode list \<Rightarrow> assign list option" where
  "parse_abc_version_r3 L = parse_enhance L [(cs ''version'', Some (U32, 7940)), (cs ''major_version'', Some (U8, 7949))]"

definition update_abc_version_r3 :: "'f libxml \<Rightarrow> mem \<Rightarrow> xnode list \<Rightarrow> xnode list option" where
  "update_abc_version_r3 L = update_enhance L (Some (U32, 7940))"

text \<open>The driver's \<open>slp\<close> node has \<open>slp\<close> and the clips behind each other; the last two bytes are not written.\<close>

definition AbcParserR3p0_parse_reg :: "('p, 'f) pq \<Rightarrow> (int \<times> ('p, 'f) pq) option" where
  "AbcParserR3p0_parse_reg s =
     (if \<not> fs_open DpuSlp (q_fs s) \<or> \<not> fs_open DpuEpf (q_fs s) then Some (q_errno s, s)
      else do {
        (_, s1) \<leftarrow> reg_read DpuEpf 7956 14 s;
        buf \<leftarrow> put (replicate 14 0) 0 (case fs_read DpuSlp 0 14 (q_fs s1) of None \<Rightarrow> [] | Some bs \<Rightarrow> bs);
        ctx1 \<leftarrow> put (q_ctx s1) 7984 (take 6 buf);
        ctx2 \<leftarrow> put ctx1 7990 (drop 6 buf);
        Some (0, s1\<lparr>q_ctx := ctx2\<rparr>)
      })"

definition AbcParserR3p0_update_reg :: "('p, 'f) pq \<Rightarrow> (int \<times> ('p, 'f) pq) option" where
  "AbcParserR3p0_update_reg s = do {
     en \<leftarrow> ld U32 7944 (q_ctx s);
     if en \<noteq> 0
     then do {
       (fine, s1) \<leftarrow> write_backlight 7950 s;
       if \<not> fine \<or> \<not> fs_open DpuSlp (q_fs s1) \<or> \<not> fs_open DpuEpf (q_fs s1) then Some (q_errno s1, s1)
       else do {
         slp \<leftarrow> get (q_ctx s1) 7984 6;
         ltm \<leftarrow> get (q_ctx s1) 7990 8;
         e \<leftarrow> get (q_ctx s1) 7956 14;
         Some (0, reg_write DpuEpf e (reg_write DpuSlp (take 12 (slp @ ltm)) s1))
       }
     }
     else Some (reg_disable SLP_EN s)
   }"

definition AbcParserR3p0_parse_xml :: "'f libxml \<Rightarrow> ('p, 'f) pq \<Rightarrow> (int \<times> ('p, 'f) pq) option" where
  "AbcParserR3p0_parse_xml L =
     parse_file L abc_xml (cs ''root'') (- 1)
       (\<lambda>ns. do {
          es \<leftarrow> when_kids (cs ''epf_config'') (parse_epf_config_r3 L) ns;
          ss \<leftarrow> when_kids (cs ''slp_config'') (parse_slp_config_r3 L) ns;
          ls \<leftarrow> when_kids (cs ''ltm_config'') (parse_ltm_config L abc_roc1) ns;
          ms \<leftarrow> when_kids (cs ''slp_mapping_table'') (parse_slp_mapping_table_r3 L) ns;
          bs \<leftarrow> when_kids (cs ''bl_mapping_table'') (parse_bl_mapping_table_r3 L) ns;
          vs \<leftarrow> when_node (cs ''enhance'') (parse_abc_version_r3 L) ns;
          Some (es @ ss @ ls @ ms @ bs @ vs)
        }) (save_once L abc_xml)"

definition AbcParserR3p0_update_xml :: "'f libxml \<Rightarrow> ('p, 'f) pq \<Rightarrow> (int \<times> ('p, 'f) pq) option" where
  "AbcParserR3p0_update_xml L =
     update_file L abc_xml (cs ''root'') 1
       (\<lambda>m ns. do {
          ns1 \<leftarrow> at_kids (cs ''epf_config'') (update_epf_config_r3 L m) ns;
          ns2 \<leftarrow> at_kids (cs ''slp_config'') (update_slp_config_r3 L m) ns1;
          ns3 \<leftarrow> at_kids (cs ''ltm_config'') (update_ltm_config L abc_roc1 m) ns2;
          ns4 \<leftarrow> at_kids (cs ''slp_mapping_table'') (in_mode 7950 1 m (update_slp_mapping_table_r3 L m)) ns3;
          ns5 \<leftarrow> at_kids (cs ''bl_mapping_table'') (in_mode 7950 2 m (update_bl_mapping_table_r3 L m)) ns4;
          at_node (cs ''enhance'') (update_abc_version_r3 L m) ns5
        }) (save_twice L abc_xml)"

section \<open>AbcParsersLiteR2p0.cpp\<close>

text \<open>\<open>abc_common_sharkl5\<close>: scenes have one \<open>epf\<close>, whose modes are the children of its node.\<close>

definition abc_sharkl5 :: abc_lay where
  "abc_sharkl5 = \<lparr>ab_scene = 7952, ab_scene_size = 8708, ab_items = 4, ab_item_size = 544, ab_slp = 14,
     ab_slp_fields = slp_fields, ab_ltm = 20, ab_map = 28, ab_bl = 25368\<rparr>"

definition parse_epf_child_config_l5 :: "'f libxml \<Rightarrow> nat \<Rightarrow> xnode list \<Rightarrow> assign list option" where
  "parse_epf_child_config_l5 L i =
     parse_each (\<lambda>j n. Some (parse_params L (item_tbl abc_sharkl5 0 i epf_fields j) (x_kids n))) 0"

definition parse_epf_config_l5 :: "'f libxml \<Rightarrow> xnode list \<Rightarrow> assign list option" where
  "parse_epf_config_l5 L = parse_each (parse_mode L abc_mode (parse_epf_child_config_l5 L)) 0"

definition update_epf_child_config_l5 :: "'f libxml \<Rightarrow> mem \<Rightarrow> nat \<Rightarrow> xnode list \<Rightarrow> xnode list option" where
  "update_epf_child_config_l5 L m i =
     update_each (\<lambda>j n. map_option (with_kids n) (update_params L m (item_tbl abc_sharkl5 0 i epf_fields j) (x_kids n))) 0"

definition parse_slp_child_config_l5 :: "'f libxml \<Rightarrow> nat \<Rightarrow> xnode list \<Rightarrow> assign list option" where
  "parse_slp_child_config_l5 L = parse_slp_child_config L abc_sharkl5"

definition parse_slp_config_l5 :: "'f libxml \<Rightarrow> xnode list \<Rightarrow> assign list option" where
  "parse_slp_config_l5 L = parse_slp_config L abc_sharkl5"

definition parse_slp_mapping_child_table_l5 :: "'f libxml \<Rightarrow> nat \<Rightarrow> xnode list \<Rightarrow> assign list option" where
  "parse_slp_mapping_child_table_l5 L = parse_slp_mapping_child_table L abc_sharkl5"

definition parse_slp_mapping_table_l5 :: "'f libxml \<Rightarrow> xnode list \<Rightarrow> assign list option" where
  "parse_slp_mapping_table_l5 L = parse_slp_mapping_table L abc_sharkl5"

definition parse_bl_mapping_table_l5 :: "'f libxml \<Rightarrow> xnode list \<Rightarrow> assign list option" where
  "parse_bl_mapping_table_l5 L = parse_bl_mapping_table L abc_sharkl5"

definition update_slp_items_xml_l5 :: "'f libxml \<Rightarrow> int \<Rightarrow> nat \<Rightarrow> xnode list \<Rightarrow> xnode list" where
  "update_slp_items_xml_l5 = update_slp_items_xml"

definition update_slp_mapping_items_child_xml_l5 :: "'f libxml \<Rightarrow> int \<Rightarrow> xnode list" where
  "update_slp_mapping_items_child_xml_l5 = update_slp_mapping_items_child_xml"

definition update_slp_index_xml_l5 :: "'f libxml \<Rightarrow> mem \<Rightarrow> nat \<Rightarrow> nat \<Rightarrow> nat \<Rightarrow> xnode list \<Rightarrow> xnode list option" where
  "update_slp_index_xml_l5 L = update_slp_index_xml L abc_sharkl5"

definition update_slp_mapping_indexs_arrays_l5 :: "'f libxml \<Rightarrow> mem \<Rightarrow> nat \<Rightarrow> xnode list \<Rightarrow> xnode list option" where
  "update_slp_mapping_indexs_arrays_l5 L = update_slp_mapping_indexs_arrays L abc_sharkl5"

definition update_slp_mapping_child_table_l5 :: "'f libxml \<Rightarrow> mem \<Rightarrow> nat \<Rightarrow> xnode list \<Rightarrow> xnode list option" where
  "update_slp_mapping_child_table_l5 L = update_slp_mapping_child_table L abc_sharkl5"

definition update_slp_mapping_table_l5 :: "'f libxml \<Rightarrow> mem \<Rightarrow> xnode list \<Rightarrow> xnode list option" where
  "update_slp_mapping_table_l5 L = update_slp_mapping_table L abc_sharkl5"

definition update_bl_child_table_l5 :: "'f libxml \<Rightarrow> mem \<Rightarrow> nat \<Rightarrow> xnode list \<Rightarrow> xnode list option" where
  "update_bl_child_table_l5 L = update_bl_child_table L abc_sharkl5"

definition update_bl_mapping_table_l5 :: "'f libxml \<Rightarrow> mem \<Rightarrow> xnode list \<Rightarrow> xnode list option" where
  "update_bl_mapping_table_l5 L = update_bl_mapping_table L abc_sharkl5"

definition update_epf_config_child_xml_l5 :: "'f libxml \<Rightarrow> xnode list" where
  "update_epf_config_child_xml_l5 = update_epf_config_child_xml"

definition update_epf_config_index_xml_l5 :: "'f libxml \<Rightarrow> nat \<Rightarrow> nat \<Rightarrow> xnode list \<Rightarrow> xnode list option" where
  "update_epf_config_index_xml_l5 = update_epf_config_index_xml"

definition update_epf_config_indexs_arrays_l5 :: "'f libxml \<Rightarrow> mem \<Rightarrow> nat \<Rightarrow> xnode list \<Rightarrow> xnode list option" where
  "update_epf_config_indexs_arrays_l5 L = update_epf_config_indexs_arrays L abc_sharkl5"

definition update_slp_child_config_l5 :: "'f libxml \<Rightarrow> mem \<Rightarrow> nat \<Rightarrow> xnode list \<Rightarrow> xnode list option" where
  "update_slp_child_config_l5 L = update_slp_child_config L abc_sharkl5"

definition update_slp_config_child_xml_l5 :: "'f libxml \<Rightarrow> xnode list" where
  "update_slp_config_child_xml_l5 = update_slp_config_child_xml"

definition update_slp_config_index_xml_l5 :: "'f libxml \<Rightarrow> nat \<Rightarrow> nat \<Rightarrow> xnode list \<Rightarrow> xnode list option" where
  "update_slp_config_index_xml_l5 = update_slp_config_index_xml"

definition update_slp_config_indexs_arrays_l5 :: "'f libxml \<Rightarrow> mem \<Rightarrow> nat \<Rightarrow> xnode list \<Rightarrow> xnode list option" where
  "update_slp_config_indexs_arrays_l5 L = update_slp_config_indexs_arrays L abc_sharkl5"

definition update_slp_config_l5 :: "'f libxml \<Rightarrow> mem \<Rightarrow> xnode list \<Rightarrow> xnode list option" where
  "update_slp_config_l5 L = update_slp_config L abc_sharkl5"

definition update_epf_config_l5 :: "'f libxml \<Rightarrow> mem \<Rightarrow> xnode list \<Rightarrow> xnode list option" where
  "update_epf_config_l5 L m =
     update_each (update_mode L abc_mode (\<lambda>i kids. do {
       ks \<leftarrow> update_epf_config_indexs_arrays_l5 L m i kids;
       update_epf_child_config_l5 L m i ks
     })) 0"

definition parse_ltm_child_config_l5 :: "'f libxml \<Rightarrow> nat \<Rightarrow> xnode list \<Rightarrow> assign list option" where
  "parse_ltm_child_config_l5 L = parse_ltm_child_config L abc_sharkl5"

definition parse_ltm_config_l5 :: "'f libxml \<Rightarrow> xnode list \<Rightarrow> assign list option" where
  "parse_ltm_config_l5 L = parse_ltm_config L abc_sharkl5"

definition update_ltm_child_config_l5 :: "'f libxml \<Rightarrow> mem \<Rightarrow> nat \<Rightarrow> xnode list \<Rightarrow> xnode list option" where
  "update_ltm_child_config_l5 L = update_ltm_child_config L abc_sharkl5"

definition update_ltm_config_child_xml_l5 :: "'f libxml \<Rightarrow> xnode list" where
  "update_ltm_config_child_xml_l5 = update_ltm_config_child_xml"

definition update_ltm_config_index_xml_l5 :: "'f libxml \<Rightarrow> nat \<Rightarrow> nat \<Rightarrow> xnode list \<Rightarrow> xnode list option" where
  "update_ltm_config_index_xml_l5 = update_ltm_config_index_xml"

definition update_ltm_config_indexs_arrays_l5 :: "'f libxml \<Rightarrow> mem \<Rightarrow> nat \<Rightarrow> xnode list \<Rightarrow> xnode list option" where
  "update_ltm_config_indexs_arrays_l5 L = update_ltm_config_indexs_arrays L abc_sharkl5"

definition update_ltm_config_l5 :: "'f libxml \<Rightarrow> mem \<Rightarrow> xnode list \<Rightarrow> xnode list option" where
  "update_ltm_config_l5 L = update_ltm_config L abc_sharkl5"

definition parse_abc_version_l5 :: "'f libxml \<Rightarrow> xnode list \<Rightarrow> assign list option" where
  "parse_abc_version_l5 L = parse_enhance L [(cs ''version'', Some (U32, 7940)), (cs ''major_version'', Some (U8, 7949))]"

definition update_abc_version_l5 :: "'f libxml \<Rightarrow> mem \<Rightarrow> xnode list \<Rightarrow> xnode list option" where
  "update_abc_version_l5 L = update_enhance L (Some (U32, 7940))"

definition AbcParserLiteR2p0_parse_reg :: "('p, 'f) pq \<Rightarrow> (int \<times> ('p, 'f) pq) option" where
  "AbcParserLiteR2p0_parse_reg s =
     (if \<not> fs_open DpuSlp (q_fs s) \<or> \<not> fs_open DpuEpf (q_fs s) then Some (q_errno s, s)
      else do {
        (_, s1) \<leftarrow> reg_read DpuEpf 7956 14 s;
        buf \<leftarrow> put (replicate 14 0) 0 (case fs_read DpuSlp 0 14 (q_fs s1) of None \<Rightarrow> [] | Some bs \<Rightarrow> bs);
        ctx1 \<leftarrow> put (q_ctx s1) 7970 (take 6 buf);
        ctx2 \<leftarrow> put ctx1 7976 (drop 6 buf);
        Some (0, s1\<lparr>q_ctx := ctx2\<rparr>)
      })"

definition AbcParserLiteR2p0_update_reg :: "('p, 'f) pq \<Rightarrow> (int \<times> ('p, 'f) pq) option" where
  "AbcParserLiteR2p0_update_reg s = do {
     en \<leftarrow> ld U32 7944 (q_ctx s);
     if en \<noteq> 0
     then do {
       (fine, s1) \<leftarrow> write_backlight 7950 s;
       if \<not> fine \<or> \<not> fs_open DpuSlp (q_fs s1) \<or> \<not> fs_open DpuEpf (q_fs s1) then Some (q_errno s1, s1)
       else do {
         slp \<leftarrow> get (q_ctx s1) 7970 6;
         ltm \<leftarrow> get (q_ctx s1) 7976 8;
         e \<leftarrow> get (q_ctx s1) 7956 14;
         Some (0, reg_write DpuEpf e (reg_write DpuSlp (take 12 (slp @ ltm)) s1))
       }
     }
     else Some (reg_disable (or (or SLP_EN LTM_EN) EPF_EN) s)
   }"

definition AbcParserLiteR2p0_parse_xml :: "'f libxml \<Rightarrow> ('p, 'f) pq \<Rightarrow> (int \<times> ('p, 'f) pq) option" where
  "AbcParserLiteR2p0_parse_xml L =
     parse_file L abc_xml (cs ''root'') (- 1)
       (\<lambda>ns. do {
          es \<leftarrow> when_kids (cs ''epf_config'') (parse_epf_config_l5 L) ns;
          ss \<leftarrow> when_kids (cs ''slp_config'') (parse_slp_config_l5 L) ns;
          ls \<leftarrow> when_kids (cs ''ltm_config'') (parse_ltm_config_l5 L) ns;
          ms \<leftarrow> when_kids (cs ''slp_mapping_table'') (parse_slp_mapping_table_l5 L) ns;
          bs \<leftarrow> when_kids (cs ''bl_mapping_table'') (parse_bl_mapping_table_l5 L) ns;
          vs \<leftarrow> when_node (cs ''enhance'') (parse_abc_version_l5 L) ns;
          Some (es @ ss @ ls @ ms @ bs @ vs)
        }) (save_once L abc_xml)"

definition AbcParserLiteR2p0_update_xml :: "'f libxml \<Rightarrow> ('p, 'f) pq \<Rightarrow> (int \<times> ('p, 'f) pq) option" where
  "AbcParserLiteR2p0_update_xml L =
     update_file L abc_xml (cs ''root'') 1
       (\<lambda>m ns. do {
          ns1 \<leftarrow> at_kids (cs ''epf_config'') (update_epf_config_l5 L m) ns;
          ns2 \<leftarrow> at_kids (cs ''slp_config'') (update_slp_config_l5 L m) ns1;
          ns3 \<leftarrow> at_kids (cs ''ltm_config'') (update_ltm_config_l5 L m) ns2;
          ns4 \<leftarrow> at_kids (cs ''slp_mapping_table'') (in_mode 7950 1 m (update_slp_mapping_table_l5 L m)) ns3;
          ns5 \<leftarrow> at_kids (cs ''bl_mapping_table'') (in_mode 7950 2 m (update_bl_mapping_table_l5 L m)) ns4;
          at_node (cs ''enhance'') (update_abc_version_l5 L m) ns5
        }) (save_twice L abc_xml)"

section \<open>AbcParsersR4p0.cpp\<close>

text \<open>\<open>abc_common_sharkl5Pro\<close>: \<open>slp\<close> has other fields and a base setting per table; there are no backlight tables.\<close>

definition slp_cfg_fields :: "(byte list \<times> cty \<times> nat) list" where
  "slp_cfg_fields = [(cs ''brightness'', U8, 0), (cs ''brightness_step'', U16, 2), (cs ''first_max_bright_th'', U8, 4),
     (cs ''first_max_bright_th_step0'', U8, 5), (cs ''first_max_bright_th_step1'', U8, 6), (cs ''first_max_bright_th_step2'', U8, 7),
     (cs ''first_max_bright_th_step3'', U8, 8), (cs ''first_max_bright_th_step4'', U8, 9), (cs ''mask_height'', U16, 10),
     (cs ''first_percent_th'', U8, 12), (cs ''first_pth_index0'', U8, 13), (cs ''first_pth_index1'', U8, 14),
     (cs ''first_pth_index2'', U8, 15), (cs ''first_pth_index3'', U8, 16)]"

definition slp_basecfg_fields :: "(byte list \<times> cty \<times> nat) list" where
  "slp_basecfg_fields = [(cs ''hist_exb_no'', U8, 0), (cs ''hist_exb_percent'', U8, 1), (cs ''hist9_index0'', U8, 2),
     (cs ''hist9_index1'', U8, 3), (cs ''hist9_index2'', U8, 4), (cs ''hist9_index3'', U8, 5),
     (cs ''hist9_index4'', U8, 6), (cs ''hist9_index5'', U8, 7), (cs ''hist9_index6'', U8, 8),
     (cs ''hist9_index7'', U8, 9), (cs ''hist9_index8'', U8, 10), (cs ''glb_x1'', U8, 11),
     (cs ''glb_x2'', U8, 12), (cs ''glb_x3'', U8, 13), (cs ''glb_s1'', U16, 14),
     (cs ''glb_s2'', U16, 16), (cs ''glb_s3'', U16, 18), (cs ''fast_ambient_th'', U8, 20),
     (cs ''screen_change_percent_th'', U8, 21), (cs ''local_weight'', U8, 22)]"

definition abc_sharkl5Pro :: abc_lay where
  "abc_sharkl5Pro = \<lparr>ab_scene = 7940, ab_scene_size = 9180, ab_items = 28, ab_item_size = 572, ab_slp = 28,
     ab_slp_fields = slp_cfg_fields, ab_ltm = 48, ab_map = 56, ab_bl = 0\<rparr>"

definition parse_epf_child_config_r4 :: "'f libxml \<Rightarrow> epf_fun \<Rightarrow> nat \<Rightarrow> xnode list \<Rightarrow> assign list option" where
  "parse_epf_child_config_r4 L = parse_epf_child_config L abc_sharkl5Pro"

definition parse_epf_next_config_r4 :: "'f libxml \<Rightarrow> epf_fun \<Rightarrow> xnode list \<Rightarrow> assign list option" where
  "parse_epf_next_config_r4 L = parse_epf_next_config L abc_sharkl5Pro"

definition parse_epf_config_r4 :: "'f libxml \<Rightarrow> xnode list \<Rightarrow> assign list option" where
  "parse_epf_config_r4 L = parse_epf_config L abc_sharkl5Pro"

definition parse_slp_mapping_child_table_r4 :: "'f libxml \<Rightarrow> nat \<Rightarrow> xnode list \<Rightarrow> assign list option" where
  "parse_slp_mapping_child_table_r4 L = parse_slp_mapping_child_table L abc_sharkl5Pro"

definition parse_slp_mapping_table_r4 :: "'f libxml \<Rightarrow> xnode list \<Rightarrow> assign list option" where
  "parse_slp_mapping_table_r4 L = parse_slp_mapping_table L abc_sharkl5Pro"

definition update_slp_items_xml_r4 :: "'f libxml \<Rightarrow> int \<Rightarrow> nat \<Rightarrow> xnode list \<Rightarrow> xnode list" where
  "update_slp_items_xml_r4 = update_slp_items_xml"

definition update_slp_mapping_items_child_xml_r4 :: "'f libxml \<Rightarrow> int \<Rightarrow> xnode list" where
  "update_slp_mapping_items_child_xml_r4 = update_slp_mapping_items_child_xml"

definition update_slp_index_xml_r4 :: "'f libxml \<Rightarrow> mem \<Rightarrow> nat \<Rightarrow> nat \<Rightarrow> nat \<Rightarrow> xnode list \<Rightarrow> xnode list option" where
  "update_slp_index_xml_r4 L = update_slp_index_xml L abc_sharkl5Pro"

definition update_slp_mapping_indexs_arrays_r4 :: "'f libxml \<Rightarrow> mem \<Rightarrow> nat \<Rightarrow> xnode list \<Rightarrow> xnode list option" where
  "update_slp_mapping_indexs_arrays_r4 L = update_slp_mapping_indexs_arrays L abc_sharkl5Pro"

definition update_slp_mapping_child_table_r4 :: "'f libxml \<Rightarrow> mem \<Rightarrow> nat \<Rightarrow> xnode list \<Rightarrow> xnode list option" where
  "update_slp_mapping_child_table_r4 L = update_slp_mapping_child_table L abc_sharkl5Pro"

definition update_slp_mapping_table_r4 :: "'f libxml \<Rightarrow> mem \<Rightarrow> xnode list \<Rightarrow> xnode list option" where
  "update_slp_mapping_table_r4 L = update_slp_mapping_table L abc_sharkl5Pro"

definition update_epf_child_config_r4 :: "'f libxml \<Rightarrow> mem \<Rightarrow> epf_fun \<Rightarrow> nat \<Rightarrow> xnode list \<Rightarrow> xnode list option" where
  "update_epf_child_config_r4 L = update_epf_child_config L abc_sharkl5Pro"

definition update_epf_config_child_xml_r4 :: "'f libxml \<Rightarrow> xnode list" where
  "update_epf_config_child_xml_r4 = update_epf_config_child_xml"

definition update_epf_config_index_xml_r4 :: "'f libxml \<Rightarrow> nat \<Rightarrow> nat \<Rightarrow> xnode list \<Rightarrow> xnode list option" where
  "update_epf_config_index_xml_r4 = update_epf_config_index_xml"

definition update_epf_config_indexs_arrays_r4 :: "'f libxml \<Rightarrow> mem \<Rightarrow> nat \<Rightarrow> xnode list \<Rightarrow> xnode list option" where
  "update_epf_config_indexs_arrays_r4 L = update_epf_config_indexs_arrays L abc_sharkl5Pro"

definition update_epf_next_config_r4 :: "'f libxml \<Rightarrow> mem \<Rightarrow> epf_fun \<Rightarrow> xnode list \<Rightarrow> xnode list option" where
  "update_epf_next_config_r4 L = update_epf_next_config L abc_sharkl5Pro"

definition update_epf_config_r4 :: "'f libxml \<Rightarrow> mem \<Rightarrow> xnode list \<Rightarrow> xnode list option" where
  "update_epf_config_r4 L = update_epf_config L abc_sharkl5Pro"

definition update_slp_child_config_r4 :: "'f libxml \<Rightarrow> mem \<Rightarrow> nat \<Rightarrow> xnode list \<Rightarrow> xnode list option" where
  "update_slp_child_config_r4 L = update_slp_child_config L abc_sharkl5Pro"

definition update_ltm_child_config_r4 :: "'f libxml \<Rightarrow> mem \<Rightarrow> nat \<Rightarrow> xnode list \<Rightarrow> xnode list option" where
  "update_ltm_child_config_r4 L = update_ltm_child_config L abc_sharkl5Pro"

definition update_ltm_config_child_xml_r4 :: "'f libxml \<Rightarrow> xnode list" where
  "update_ltm_config_child_xml_r4 = update_ltm_config_child_xml"

definition update_ltm_config_index_xml_r4 :: "'f libxml \<Rightarrow> nat \<Rightarrow> nat \<Rightarrow> xnode list \<Rightarrow> xnode list option" where
  "update_ltm_config_index_xml_r4 = update_ltm_config_index_xml"

definition update_ltm_config_indexs_arrays_r4 :: "'f libxml \<Rightarrow> mem \<Rightarrow> nat \<Rightarrow> xnode list \<Rightarrow> xnode list option" where
  "update_ltm_config_indexs_arrays_r4 L = update_ltm_config_indexs_arrays L abc_sharkl5Pro"

definition update_ltm_config_r4 :: "'f libxml \<Rightarrow> mem \<Rightarrow> xnode list \<Rightarrow> xnode list option" where
  "update_ltm_config_r4 L = update_ltm_config L abc_sharkl5Pro"

text \<open>Reading sets the number of scenes also from the numbers of \<open>slp\<close> and \<open>ltm\<close>. In a number of \<open>slp\<close> the row of
  macros runs once.\<close>

definition parse_ltm_child_config_r4 :: "'f libxml \<Rightarrow> nat \<Rightarrow> xnode list \<Rightarrow> assign list option" where
  "parse_ltm_child_config_r4 L i ns = do {
     as \<leftarrow> parse_ltm_child_config L abc_sharkl5Pro i ns;
     Some (as @ [(Some (U16, scene abc_sharkl5Pro i), of_nat (length ns))])
   }"

definition parse_ltm_config_r4 :: "'f libxml \<Rightarrow> xnode list \<Rightarrow> assign list option" where
  "parse_ltm_config_r4 L = parse_each (parse_mode L abc_mode (parse_ltm_child_config_r4 L)) 0"

definition parse_slp_cfg_arrays :: "'f libxml \<Rightarrow> nat \<Rightarrow> xnode list \<Rightarrow> assign list option" where
  "parse_slp_cfg_arrays L i ns = do {
     as \<leftarrow> parse_each (\<lambda>j n. Some (fst (parse_chain L (item_tbl abc_sharkl5Pro 28 i slp_cfg_fields j) (x_kids n)))) 0 ns;
     Some (as @ [(Some (U16, scene abc_sharkl5Pro i), of_nat (length ns))])
   }"

definition parse_slp_baseconfig :: "'f libxml \<Rightarrow> nat \<Rightarrow> xnode list \<Rightarrow> assign list" where
  "parse_slp_baseconfig L i kids = fst (parse_chain L (tbl_at (scene abc_sharkl5Pro i + 4) slp_basecfg_fields) kids)"

definition parse_slp_child_config_r4 :: "'f libxml \<Rightarrow> nat \<Rightarrow> xnode list \<Rightarrow> assign list option" where
  "parse_slp_child_config_r4 L i kids =
     map_option (\<lambda>as. parse_slp_baseconfig L i kids @ as) (parse_slp_cfg_arrays L i (FindNode kids (cs ''number'')))"

definition parse_slp_config_r4 :: "'f libxml \<Rightarrow> xnode list \<Rightarrow> assign list option" where
  "parse_slp_config_r4 L = parse_each (parse_mode L abc_mode (parse_slp_child_config_r4 L)) 0"

text \<open>A new number gets the names of the base setting.\<close>

definition update_slp_config_child_xml_r4 :: "'f libxml \<Rightarrow> xnode list" where
  "update_slp_config_child_xml_r4 L = map (\<lambda>(k, _). new_param L k) slp_basecfg_fields"

definition update_slp_config_index_xml_r4 :: "'f libxml \<Rightarrow> nat \<Rightarrow> nat \<Rightarrow> xnode list \<Rightarrow> xnode list option" where
  "update_slp_config_index_xml_r4 L = next_numbers (\<lambda>j. Some (new_number L (update_slp_config_child_xml_r4 L) j))"

definition update_slp_config_indexs_arrays_r4 :: "'f libxml \<Rightarrow> mem \<Rightarrow> nat \<Rightarrow> xnode list \<Rightarrow> xnode list option" where
  "update_slp_config_indexs_arrays_r4 L m i ns = do {
     want \<leftarrow> scene_num abc_sharkl5Pro m i;
     resize_numbers (\<lambda>_. Some) (\<lambda>j. Some (new_number L (update_slp_config_child_xml_r4 L) j)) want 0 ns
   }"

definition update_slp_baseconfig :: "'f libxml \<Rightarrow> mem \<Rightarrow> nat \<Rightarrow> xnode list \<Rightarrow> xnode list option" where
  "update_slp_baseconfig L m i = chain_all L m (tbl_at (scene abc_sharkl5Pro i + 4) slp_basecfg_fields)"

definition update_slp_config_r4 :: "'f libxml \<Rightarrow> mem \<Rightarrow> xnode list \<Rightarrow> xnode list option" where
  "update_slp_config_r4 L m =
     update_each (update_mode L abc_mode (\<lambda>i kids. do {
       ks \<leftarrow> update_slp_baseconfig L m i kids;
       at_node (cs ''number'') (\<lambda>ns. do {
         ns1 \<leftarrow> update_slp_config_indexs_arrays_r4 L m i ns;
         update_slp_child_config_r4 L m i ns1
       }) ks
     })) 0"

definition parse_abc_version_r4 :: "'f libxml \<Rightarrow> xnode list \<Rightarrow> assign list option" where
  "parse_abc_version_r4 L = parse_enhance L [(cs ''version'', Some (U32, 7928)), (cs ''major_version'', Some (U16, 7938))]"

definition update_abc_version_r4 :: "'f libxml \<Rightarrow> mem \<Rightarrow> xnode list \<Rightarrow> xnode list option" where
  "update_abc_version_r4 L = update_enhance L (Some (U32, 7928))"

text \<open>The fields of the first scene and of the base setting, with their places in the block and in the static
  buffer \<open>slp_ltm_params_l5pro\<close>, and their sizes. \<open>copy_fields\<close> copies one after the other.\<close>

definition slp_ltm_places :: "(nat \<times> nat \<times> nat) list" where
  "slp_ltm_places =
    [(7996, 0, 1), (7998, 2, 2), (8000, 4, 1), (8001, 5, 1), (8002, 6, 1), (8003, 7, 1),
     (8004, 8, 1), (8005, 9, 1), (8006, 12, 2), (8008, 45, 1), (8009, 14, 1), (8010, 15, 1),
     (8011, 16, 1), (8012, 17, 1), (7944, 10, 1), (7945, 11, 1), (7946, 18, 1), (7947, 19, 1),
     (7948, 20, 1), (7949, 21, 1), (7950, 22, 1), (7951, 23, 1), (7952, 24, 1), (7953, 25, 1),
     (7954, 26, 1), (7955, 27, 1), (7956, 28, 1), (7957, 29, 1), (7958, 30, 2), (7960, 32, 2),
     (7962, 34, 2), (7964, 42, 1), (7965, 43, 1), (7966, 44, 1), (8016, 38, 2), (8018, 36, 2),
     (8020, 40, 2)]"

fun copy_fields :: "mem \<Rightarrow> (nat \<times> nat \<times> nat) list \<Rightarrow> mem \<Rightarrow> mem option" where
  "copy_fields src [] dst = Some dst"
| "copy_fields src ((d, s, n) # ps) dst = do { bs \<leftarrow> get src s n; dst' \<leftarrow> put dst d bs; copy_fields src ps dst' }"

definition AbcParserR4p0_parse_reg :: "('p, 'f) pq \<Rightarrow> (int \<times> ('p, 'f) pq) option" where
  "AbcParserR4p0_parse_reg s =
     (if \<not> fs_open DpuLtm (q_fs s) \<or> \<not> fs_open DpuEpf (q_fs s) then Some (q_errno s, s)
      else do {
        (_, s1) \<leftarrow> reg_read DpuEpf 7968 14 s;
        buf \<leftarrow> put (replicate 48 0) 0 (case fs_read DpuLtm 0 48 (q_fs s1) of None \<Rightarrow> [] | Some bs \<Rightarrow> bs);
        ctx \<leftarrow> copy_fields buf slp_ltm_places (q_ctx s1);
        Some (0, s1\<lparr>q_abc := buf, q_ctx := ctx\<rparr>)
      })"

definition AbcParserR4p0_update_reg :: "('p, 'f) pq \<Rightarrow> (int \<times> ('p, 'f) pq) option" where
  "AbcParserR4p0_update_reg s = do {
     en \<leftarrow> ld U32 7932 (q_ctx s);
     if en \<noteq> 0
     then if \<not> fs_open DpuSlp (q_fs s) \<or> \<not> fs_open DpuEpf (q_fs s) then Some (q_errno s, s)
          else do {
            buf \<leftarrow> copy_fields (q_ctx s) (map (\<lambda>(d, s, n). (s, d, n)) slp_ltm_places) (q_abc s);
            e \<leftarrow> get (q_ctx s) 7968 14;
            Some (0, reg_write DpuEpf e (reg_write DpuSlp (take 46 buf) (s\<lparr>q_abc := buf\<rparr>)))
          }
     else Some (reg_disable (or SLP_EN LTM_EN) s)
   }"

definition AbcParserR4p0_parse_xml :: "'f libxml \<Rightarrow> ('p, 'f) pq \<Rightarrow> (int \<times> ('p, 'f) pq) option" where
  "AbcParserR4p0_parse_xml L =
     parse_file L abc_xml (cs ''root'') (- 1)
       (\<lambda>ns. do {
          es \<leftarrow> when_kids (cs ''epf_config'') (parse_epf_config_r4 L) ns;
          ss \<leftarrow> when_kids (cs ''slp_config'') (parse_slp_config_r4 L) ns;
          ls \<leftarrow> when_kids (cs ''ltm_config'') (parse_ltm_config_r4 L) ns;
          ms \<leftarrow> when_kids (cs ''slp_mapping_table'') (parse_slp_mapping_table_r4 L) ns;
          vs \<leftarrow> when_node (cs ''enhance'') (parse_abc_version_r4 L) ns;
          Some (es @ ss @ ls @ ms @ vs)
        }) (save_once L abc_xml)"

definition AbcParserR4p0_update_xml :: "'f libxml \<Rightarrow> ('p, 'f) pq \<Rightarrow> (int \<times> ('p, 'f) pq) option" where
  "AbcParserR4p0_update_xml L =
     update_file L abc_xml (cs ''root'') 1
       (\<lambda>m ns. do {
          ns1 \<leftarrow> at_kids (cs ''epf_config'') (update_epf_config_r4 L m) ns;
          ns2 \<leftarrow> at_kids (cs ''slp_config'') (update_slp_config_r4 L m) ns1;
          ns3 \<leftarrow> at_kids (cs ''ltm_config'') (update_ltm_config_r4 L m) ns2;
          ns4 \<leftarrow> at_kids (cs ''slp_mapping_table'') (update_slp_mapping_table_r4 L m) ns3;
          at_node (cs ''enhance'') (update_abc_version_r4 L m) ns4
        }) (save_twice L abc_xml)"

section \<open>When the loops over the parameters end\<close>

lemma abc_ld_ok: "off + cty_size ty \<le> length m \<Longrightarrow> ld ty off m \<noteq> None"
  by (simp add: ld_fld_value get_def)

lemma show_fld_ok: "off + cty_size ty \<le> length m \<Longrightarrow> \<exists>s. show_fld n (Some (ty, off)) m = Some s"
  using abc_ld_ok [of off ty m] by (auto simp: show_fld_def)

text \<open>The row of macros uses up nodes that have one of its attributes, the first of them at least.\<close>

lemma update_chain_consumes:
  assumes "update_chain L m tbl ns = Some (ds, r)"
  shows "\<exists>pre. ns = pre @ r \<and> (\<forall>n \<in> set pre. \<exists>k \<in> fst ` set tbl. xmlHasProp L n k)"
  using assms
proof (induction tbl arbitrary: ns ds r)
  case (Cons e tbl)
  obtain k f where e: "e = (k, f)" by (cases e)
  show ?case
  proof (cases ns)
    case Nil
    then show ?thesis using Cons.IH [of "[]" ds r] Cons.prems e by auto
  next
    case (Cons n rest)
    show ?thesis
    proof (cases "xmlHasProp L n k")
      case True
      then obtain ds' where "update_chain L m tbl rest = Some (ds', r)"
        using Cons.prems Cons e by (auto split: bind_splits)
      then obtain pre where "rest = pre @ r" "\<forall>n \<in> set pre. \<exists>k \<in> fst ` set tbl. xmlHasProp L n k"
        using Cons.IH by blast
      then show ?thesis using True Cons e by (intro exI [of _ "n # pre"]) auto
    next
      case False
      then have "update_chain L m tbl ns = Some (ds, r)" using Cons.prems Cons e by simp
      then show ?thesis using Cons.IH e by fastforce
    qed
  qed
qed simp

lemma update_chain_progress:
  assumes "\<forall>(k, f) \<in> set tbl. \<exists>s. show_fld 10 f m = Some s"
  shows "\<exists>ds r. update_chain L m tbl ns = Some (ds, r) \<and> length r \<le> length ns \<and>
    (ns \<noteq> [] \<and> (\<exists>k \<in> fst ` set tbl. xmlHasProp L (hd ns) k) \<longrightarrow> length r < length ns)"
  using assms
proof (induction tbl arbitrary: ns)
  case (Cons e tbl)
  obtain k f s where e: "e = (k, f)" "show_fld 10 f m = Some s" using Cons.prems by (cases e) auto
  show ?case
  proof (cases ns)
    case Nil
    then show ?thesis using Cons.IH [of "[]"] Cons.prems e by auto
  next
    case (Cons n rest)
    then show ?thesis
      using Cons.IH [of rest] Cons.IH [of ns] Cons.prems e by (cases "xmlHasProp L n k") fastforce+
  qed
qed simp

lemma update_params_needs:
  assumes "update_params L m tbl ns = Some ns'"
  shows "\<forall>n \<in> set ns. \<exists>k \<in> fst ` set tbl. xmlHasProp L n k"
proof (rule update_params.raw_induct [OF _ assms])
  fix f L m tbl ns y
  assume ih: "\<And>L m tbl ns y. f L m tbl ns = Some y \<Longrightarrow> \<forall>n \<in> set ns. \<exists>k \<in> fst ` set tbl. xmlHasProp L n k"
    and b: "(if ns = [] then Some [] else update_chain L m tbl ns \<bind> (\<lambda>p. f L m tbl (snd p) \<bind> (\<lambda>rest. Some (fst p @ rest)))) = Some y"
  show "\<forall>n \<in> set ns. \<exists>k \<in> fst ` set tbl. xmlHasProp L n k"
  proof (cases "ns = []")
    case False
    then obtain ds r rest where c: "update_chain L m tbl ns = Some (ds, r)" and r: "f L m tbl r = Some rest"
      using b by (auto simp: bind_eq_Some_conv)
    then show ?thesis using update_chain_consumes [OF c] ih [OF r] by auto
  qed simp
qed

lemma update_params_returns:
  assumes t: "\<forall>(k, f) \<in> set tbl. \<exists>s. show_fld 10 f m = Some s"
    and "\<forall>n \<in> set ns. \<exists>k \<in> fst ` set tbl. xmlHasProp L n k"
  shows "\<exists>ns'. update_params L m tbl ns = Some ns'"
  using assms(2)
proof (induction "length ns" arbitrary: ns rule: less_induct)
  case less
  show ?case
  proof (cases ns)
    case Nil
    then show ?thesis by (simp add: update_params.simps)
  next
    case (Cons n rest)
    then obtain ds r where c: "update_chain L m tbl ns = Some (ds, r)" and l: "length r < length ns"
      using update_chain_progress [OF t, of L ns] less.prems by auto
    have "\<forall>n \<in> set r. \<exists>k \<in> fst ` set tbl. xmlHasProp L n k"
      using update_chain_consumes [OF c] less.prems by auto
    then obtain rest' where "update_params L m tbl r = Some rest'" using less.hyps [OF l] by blast
    then show ?thesis using c by (subst update_params.simps) simp
  qed
qed

lemma update_each_ex: "(\<exists>ns'. update_each u i ns = Some ns') \<longleftrightarrow> (\<forall>j < length ns. \<exists>n'. u (i + j) (ns ! j) = Some n')"
proof (induction ns arbitrary: i)
  case (Cons n ns)
  have "(\<exists>ns'. update_each u i (n # ns) = Some ns') \<longleftrightarrow> (\<exists>n'. u i n = Some n') \<and> (\<exists>ns'. update_each u (Suc i) ns = Some ns')"
    by (auto simp: bind_eq_Some_conv)
  then show ?case unfolding Cons.IH by (auto simp: less_Suc_eq_0_disj)
qed simp

lemma params_each_iff:
  assumes "\<And>j. j < length ns \<Longrightarrow> \<forall>(k, f) \<in> set (tbl j). \<exists>s. show_fld 10 f m = Some s"
    and "\<And>j. fst ` set (tbl j) = K"
  shows "update_each (\<lambda>j n. map_option (with_kids n) (update_params L m (tbl j) (x_kids n))) 0 ns \<noteq> None \<longleftrightarrow>
     (\<forall>n \<in> set ns. \<forall>p \<in> set (x_kids n). \<exists>k \<in> K. xmlHasProp L p k)"
proof -
  have "(\<exists>n'. map_option (with_kids (ns ! j)) (update_params L m (tbl j) (x_kids (ns ! j))) = Some n') \<longleftrightarrow>
      (\<forall>p \<in> set (x_kids (ns ! j)). \<exists>k \<in> K. xmlHasProp L p k)" (is "?u \<longleftrightarrow> ?k") if "j < length ns" for j
  proof
    assume ?u
    then obtain ks where "update_params L m (tbl j) (x_kids (ns ! j)) = Some ks" by auto
    then show ?k using update_params_needs assms(2) [of j] by metis
  next
    assume ?k
    then show ?u using update_params_returns [OF assms(1) [OF that], of "x_kids (ns ! j)" L] assms(2) [of j] by auto
  qed
  then show ?thesis
    using update_each_ex [of "\<lambda>j n. map_option (with_kids n) (update_params L m (tbl j) (x_kids n))" 0 ns]
    by (simp add: all_set_conv_all_nth)
qed

lemma item_tbl_keys: "fst ` set (item_tbl b off i tbl j) = fst ` set tbl"
  by (force simp: item_tbl_def)

lemma item_tbl_show:
  assumes "j < 16" and "scene_item b i j + ab_item_size b \<le> length m"
    and "\<forall>(k, ty, d) \<in> set tbl. off + d + cty_size ty \<le> ab_item_size b"
  shows "\<forall>(k, f) \<in> set (item_tbl b off i tbl j). \<exists>s. show_fld 10 f m = Some s"
proof (clarsimp simp: item_tbl_def assms(1))
  fix k ty d assume "(k, ty, d) \<in> set tbl"
  then show "\<exists>s. show_fld 10 (Some (ty, scene_item b i j + off + d)) m = Some s"
    using assms(2,3) by (intro show_fld_ok) fastforce
qed

text \<open>C25: on a complete parameter block and for at most 16 scenes, writing the \<open>slp\<close> or the \<open>epf\<close> settings of a mode ends
  exactly when every parameter node below them has one of the attributes of the setting; one other node, a
  comment say, and \<open>update_slp_child_config\<close> or \<open>update_epf_child_config\<close> never returns.\<close>

theorem abc_update_terminates:
  assumes "28356 \<le> length m" and "i < 2" and "length ns \<le> 16"
  shows "(update_slp_child_config L abc_sharkl3 m i ns \<noteq> None \<longleftrightarrow>
      (\<forall>n \<in> set ns. \<forall>p \<in> set (x_kids n). \<exists>k \<in> fst ` set slp_fields. xmlHasProp L p k)) \<and>
    (update_epf_child_config L abc_sharkl3 m e i ns \<noteq> None \<longleftrightarrow>
      (\<forall>n \<in> set ns. \<forall>p \<in> set (x_kids n). \<exists>k \<in> fst ` set epf_fields. xmlHasProp L p k))"
proof -
  have b: "scene_item abc_sharkl3 i j + ab_item_size abc_sharkl3 \<le> length m" if "j < 16" for j
    using assms(1,2) that by (auto simp: scene_item_def scene_def abc_sharkl3_def less_2_cases_iff)
  have s: "\<forall>(k, ty, d) \<in> set slp_fields. ab_slp abc_sharkl3 + d + cty_size ty \<le> ab_item_size abc_sharkl3"
    by (simp add: slp_fields_def abc_sharkl3_def)
  have f: "\<forall>(k, ty, d) \<in> set epf_fields. epf_off e + d + cty_size ty \<le> ab_item_size abc_sharkl3"
    by (cases e) (simp_all add: epf_fields_def abc_sharkl3_def)
  have sf: "ab_slp_fields abc_sharkl3 = slp_fields" by (simp add: abc_sharkl3_def)
  show ?thesis
    unfolding update_slp_child_config_def update_epf_child_config_def sf
    using assms(3) by (intro conjI params_each_iff item_tbl_show b s f item_tbl_keys) simp_all
qed

definition ex_params :: "xnode list" where
  "ex_params = [XNode (cs ''number'') [] [XNode (cs ''param'') [(cs ''brightness'', cs ''9'')] [], XNode (cs ''comment'') [] []]]"

theorem abc_update_terminates_witness:
  "update_slp_child_config ex_xml abc_sharkl3 (replicate 28356 0) 0 ex_params = None \<and>
   update_epf_child_config ex_xml abc_sharkl3 (replicate 28356 0) EPF_FUN_SUPER_RESOLUTION 0 [] \<noteq> None"
  using abc_update_terminates [of "replicate 28356 0" 0 ex_params ex_xml EPF_FUN_SUPER_RESOLUTION]
    abc_update_terminates [of "replicate 28356 0" 0 "[]" ex_xml EPF_FUN_SUPER_RESOLUTION]
  by (auto simp: ex_params_def ex_xml_def)

section \<open>Resizing\<close>

lemma those_map_Some: "those (map (\<lambda>j. Some (g j)) xs) = Some (map g xs)"
  by (induction xs) simp_all

lemma those_map_cong: "(\<And>j. j \<in> set xs \<Longrightarrow> mk j = Some (g j)) \<Longrightarrow> those (map mk xs) = Some (map g xs)"
  using those_map_Some [of g xs] by (metis map_cong)

text \<open>Resizing a non-empty list of numbers: those within the count stay, visited, the missing ones are made.\<close>

lemma resize_numbers_spec:
  assumes "ns \<noteq> []" and "\<And>j n. k \<le> j \<Longrightarrow> j < max (Suc k) want \<Longrightarrow> visit j n = Some (v j n)"
    and "\<And>j. k < j \<Longrightarrow> j < want \<Longrightarrow> mk j = Some (g j)"
  shows "resize_numbers visit mk want k ns =
    Some (map (\<lambda>j. if j < length ns then v (k + j) (ns ! j) else g (k + j)) [0..<max 1 (want - k)])"
  using assms
proof (induction ns arbitrary: k)
  case (Cons n rest)
  have v: "visit k n = Some (v k n)" using Cons.prems(2) by simp
  show ?case
  proof (cases "rest \<noteq> [] \<and> Suc k < want")
    case True
    have "resize_numbers visit mk want (Suc k) rest =
        Some (map (\<lambda>j. if j < length rest then v (Suc k + j) (rest ! j) else g (Suc k + j)) [0..<max 1 (want - Suc k)])"
      by (rule Cons.IH) (use True Cons.prems(2,3) in auto)
    moreover have "v k n # map (\<lambda>j. if j < length rest then v (Suc k + j) (rest ! j) else g (Suc k + j)) [0..<max 1 (want - Suc k)]
        = map (\<lambda>j. if j < length (n # rest) then v (k + j) ((n # rest) ! j) else g (k + j)) [0..<max 1 (want - k)]"
      using True by (intro nth_equalityI) (auto simp: nth_Cons' nth_append split: if_splits)
    ultimately show ?thesis using v True by simp
  next
    case False
    have "next_numbers mk want (Suc k) rest = Some (map g [Suc k..<want])"
      using False Cons.prems(3) those_map_cong [of "[Suc k..<want]" mk g] by (auto simp: next_numbers_def)
    moreover have "v k n # map g [Suc k..<want]
        = map (\<lambda>j. if j < length (n # rest) then v (k + j) ((n # rest) ! j) else g (k + j)) [0..<max 1 (want - k)]"
      using False by (intro nth_equalityI) (auto simp: nth_Cons' split: if_splits)
    ultimately show ?thesis using v False by auto
  qed
qed simp

lemma resize_items_spec:
  assumes "ns \<noteq> []"
  shows "resize_items L w k ns = map (\<lambda>j. if j < length ns then ns ! j else new_item L) [0..<max 1 (nat w - k)]"
  using assms
proof (induction ns arbitrary: k)
  case (Cons n rest)
  show ?case
  proof (cases "rest \<noteq> [] \<and> int (Suc k) < w")
    case True
    then have "resize_items L w (Suc k) rest = map (\<lambda>j. if j < length rest then rest ! j else new_item L) [0..<max 1 (nat w - Suc k)]"
      using Cons.IH by blast
    moreover have "n # map (\<lambda>j. if j < length rest then rest ! j else new_item L) [0..<max 1 (nat w - Suc k)]
        = map (\<lambda>j. if j < length (n # rest) then (n # rest) ! j else new_item L) [0..<max 1 (nat w - k)]"
      using True by (intro nth_equalityI) (auto simp: nth_Cons' split: if_splits)
    ultimately show ?thesis using True by auto
  next
    case False
    then show ?thesis
      by (intro nth_equalityI) (auto simp: update_slp_items_xml_def nth_Cons' split: if_splits)
  qed
qed simp

text \<open>In \<open>AbcParsersR4p0.cpp\<close> a new number has no parameter of \<open>slp\<close>: writing more scenes than the file has never ends.\<close>

lemma new_prop: "xml_laws L \<Longrightarrow> xmlNewProp L n k v = XNode (x_name n) (x_props n @ [(k, v)]) (x_kids n)"
  by (simp add: xml_laws_def)

lemma new_number_kids: "xml_laws L \<Longrightarrow> x_kids (new_number L kids j) = kids"
  by (simp add: new_number_def new_prop)

lemma base_keys: "k \<in> fst ` set slp_cfg_fields \<Longrightarrow> k \<noteq> cs ''hist_exb_no''"
  by (auto simp: slp_cfg_fields_def cs_def)

theorem slp_growth_hangs:
  assumes "xml_laws L" and "ns \<noteq> []" and "scene_num abc_sharkl5Pro m i = Some want" and "length ns < want"
  shows "\<exists>ns1. update_slp_config_indexs_arrays_r4 L m i ns = Some ns1 \<and> update_slp_child_config_r4 L m i ns1 = None"
proof -
  let ?new = "\<lambda>j. new_number L (update_slp_config_child_xml_r4 L) j"
  define ns1 where "ns1 = map (\<lambda>j. if j < length ns then ns ! j else ?new (0 + j)) [0..<max 1 (want - 0)]"
  have r: "update_slp_config_indexs_arrays_r4 L m i ns = Some ns1"
    unfolding update_slp_config_indexs_arrays_r4_def assms(3) ns1_def
    using resize_numbers_spec [OF assms(2), of 0 want "\<lambda>_. Some" "\<lambda>_ n. n" "\<lambda>j. Some (?new j)" ?new] by simp
  let ?p = "new_param L (cs ''hist_exb_no'')"
  have "?p \<in> set (update_slp_config_child_xml_r4 L)"
    by (simp add: update_slp_config_child_xml_r4_def slp_basecfg_fields_def)
  then have "?p \<in> set (x_kids (ns1 ! length ns))" and j: "length ns < length ns1"
    using assms(2,4) by (simp_all add: ns1_def new_number_kids [OF assms(1)])
  moreover have "\<not> xmlHasProp L ?p k" if "k \<in> fst ` set slp_cfg_fields" for k
    using base_keys [OF that] by (simp add: has_prop [OF assms(1)] new_param_def new_prop [OF assms(1)])
  ultimately have "update_params L m (item_tbl abc_sharkl5Pro 28 i slp_cfg_fields (length ns)) (x_kids (ns1 ! length ns)) = None"
    using update_params_needs [of L m "item_tbl abc_sharkl5Pro 28 i slp_cfg_fields (length ns)"] item_tbl_keys
    by (metis not_Some_eq)
  then have "update_slp_child_config_r4 L m i ns1 = None"
    using j update_each_ex [of "\<lambda>j n. map_option (with_kids n) (update_params L m (item_tbl abc_sharkl5Pro 28 i slp_cfg_fields j) (x_kids n))" 0 ns1]
    by (auto simp: update_slp_child_config_r4_def update_slp_child_config_def abc_sharkl5Pro_def)
  then show ?thesis using r by blast
qed

section \<open>The mapping tables are read back\<close>

definition two_keys :: "byte list \<Rightarrow> byte list \<Rightarrow> xnode \<Rightarrow> bool" where
  "two_keys k k' n \<longleftrightarrow> k \<in> fst ` set (x_props n) \<and> k' \<in> fst ` set (x_props n)"

definition is_row :: "xnode \<Rightarrow> bool" where
  "is_row = two_keys (cs ''ambient'') (cs ''brightness'')"

lemma new_item_keys: "xml_laws L \<Longrightarrow> is_row (new_item L)"
  by (simp add: is_row_def new_item_def new_prop two_keys_def)

text \<open>Writing rows succeeds when their fields are in the block, and keeps the attributes.\<close>

lemma set_attrs_ok:
  assumes "\<forall>(k, f) \<in> set tbl. \<exists>s. show_fld 10 f m = Some s"
  shows "\<exists>n'. set_attrs L tbl m ks n = Some n'"
proof (induction ks arbitrary: n)
  case (Cons k ks)
  then show ?case using assms by (auto split: option.splits dest!: map_of_SomeD)
qed simp

lemma update_items_ok:
  assumes L: "xml_laws L" and "\<And>k. k < i + length ns \<Longrightarrow> \<forall>(key, f) \<in> set (tbl k). \<exists>s. show_fld 10 f m = Some s"
  shows "\<exists>ns'. update_items L tbl m i ns = Some ns' \<and> map (\<lambda>n. map fst (x_props n)) ns' = map (\<lambda>n. map fst (x_props n)) ns"
  using assms(2)
proof (induction ns arbitrary: i)
  case (Cons n ns)
  have "\<exists>n'. update_attrs L (tbl i) m n = Some n'"
    unfolding update_attrs_def by (intro set_attrs_ok Cons.prems) simp
  then obtain n' where n': "update_attrs L (tbl i) m n = Some n'" ..
  have "\<exists>ns'. update_items L tbl m (Suc i) ns = Some ns' \<and> map (\<lambda>n. map fst (x_props n)) ns' = map (\<lambda>n. map fst (x_props n)) ns"
    by (intro Cons.IH Cons.prems) simp
  then obtain ns' where "update_items L tbl m (Suc i) ns = Some ns'" "map (\<lambda>n. map fst (x_props n)) ns' = map (\<lambda>n. map fst (x_props n)) ns"
    by blast
  then show ?case using n' update_attrs_written [OF L n'] by (simp add: attrs_written_def)
qed simp

lemma map_tbl_show:
  assumes "j < 16" and "k < 128" and "scene_item b i j + ab_map b + 516 \<le> length m"
  shows "\<forall>(key, f) \<in> set (map_tbl b i j k). \<exists>s. show_fld 10 f m = Some s"
  using assms show_fld_ok [of _ U16 m 10] by (auto simp: map_tbl_def elem_def)

text \<open>Both fields of a row are assigned when the row has both attributes.\<close>

lemma parse_attrs_mem:
  "(f, w) \<in> set (parse_attrs L tbl n) \<longleftrightarrow> (\<exists>k \<in> fst ` set (x_props n). map_of tbl k = Some f \<and> w = prop_word L n k)"
  by (force simp: parse_attrs_def map_filter_def)

lemma parse_items_mem:
  "(f, w) \<in> set (parse_items L tbl i ns) \<longleftrightarrow> (\<exists>k < length ns. (f, w) \<in> set (parse_attrs L (tbl (i + k)) (ns ! k)))"
proof (induction ns arbitrary: i)
  case (Cons n ns)
  then show ?case by (auto simp: less_Suc_eq_0_disj)
qed simp

lemma covers_append: "covers (as @ bs) o' \<longleftrightarrow> covers as o' \<or> covers bs o'"
  by (simp add: covers_def) blast

lemma two_attrs_mem:
  assumes "two_keys a b n" and "a \<noteq> b"
  shows "(f, w) \<in> set (parse_attrs L [(a, f1), (b, f2)] n) \<longleftrightarrow>
    f = f1 \<and> w = prop_word L n a \<or> f = f2 \<and> w = prop_word L n b"
proof -
  have "k \<in> {a, b}" if "map_of [(a, f1), (b, f2)] k = Some f" for k using that by (auto split: if_splits)
  then have "(\<exists>k \<in> fst ` set (x_props n). map_of [(a, f1), (b, f2)] k = Some f \<and> w = prop_word L n k) \<longleftrightarrow>
      (\<exists>k \<in> {a, b}. map_of [(a, f1), (b, f2)] k = Some f \<and> w = prop_word L n k)"
    using assms(1) unfolding two_keys_def by blast
  then show ?thesis unfolding parse_attrs_mem using assms(2) by auto
qed

lemma map_row_covers:
  assumes "j < 16" and "k < 128" and "is_row n"
  shows "covers (parse_attrs L (map_tbl b i j k) n) x \<longleftrightarrow>
    (scene_item b i j + ab_map b + 4 + 4 * k \<le> x \<and> x < scene_item b i j + ab_map b + 8 + 4 * k)"
proof -
  let ?o = "scene_item b i j + ab_map b"
  have t: "map_tbl b i j k = [(cs ''ambient'', Some (U16, ?o + 4 + k * 4)), (cs ''brightness'', Some (U16, ?o + 6 + k * 4))]"
    using assms(1,2) by (simp add: map_tbl_def elem_def)
  have ne: "cs ''ambient'' \<noteq> cs ''brightness''" by (simp add: cs_def)
  note m = two_attrs_mem [OF assms(3) [unfolded is_row_def] ne]
  show ?thesis unfolding t covers_def m by (simp add: conj_disj_distribR ex_disj_distrib) auto
qed

lemma map_rows_covers:
  assumes "j < 16" and "length ns \<le> 128" and "\<forall>n \<in> set ns. is_row n"
  shows "covers (parse_items L (map_tbl b i j) 0 ns) x \<longleftrightarrow>
    (scene_item b i j + ab_map b + 4 \<le> x \<and> x < scene_item b i j + ab_map b + 4 + 4 * length ns)"
proof -
  let ?o = "scene_item b i j + ab_map b + 4"
  have "covers (parse_items L (map_tbl b i j) 0 ns) x \<longleftrightarrow> (\<exists>k < length ns. covers (parse_attrs L (map_tbl b i j k) (ns ! k)) x)"
    by (auto simp: covers_def parse_items_mem)
  also have "\<dots> \<longleftrightarrow> (\<exists>k < length ns. ?o + 4 * k \<le> x \<and> x < ?o + 4 * k + 4)"
  proof (intro ex_cong1 conj_cong refl)
    fix k assume k: "k < length ns"
    then have "is_row (ns ! k)" using assms(3) nth_mem by blast
    then have "covers (parse_attrs L (map_tbl b i j k) (ns ! k)) x \<longleftrightarrow>
        (scene_item b i j + ab_map b + 4 + 4 * k \<le> x \<and> x < scene_item b i j + ab_map b + 8 + 4 * k)"
      using k assms(2) by (intro map_row_covers assms(1)) auto
    then show "covers (parse_attrs L (map_tbl b i j k) (ns ! k)) x \<longleftrightarrow> (?o + 4 * k \<le> x \<and> x < ?o + 4 * k + 4)"
      by (auto simp del: cs_def)
  qed
  also have "\<dots> \<longleftrightarrow> ?o \<le> x \<and> x < ?o + 4 * length ns"
  proof
    assume "?o \<le> x \<and> x < ?o + 4 * length ns"
    then show "\<exists>k < length ns. ?o + 4 * k \<le> x \<and> x < ?o + 4 * k + 4"
      by (intro exI [of _ "(x - ?o) div 4"]) auto
  qed auto
  finally show ?thesis .
qed

lemma field_from_mem:
  assumes "ld ty off m = Some (int n)"
  shows "from_mem X m [(Some (ty, off), of_nat n)]"
  using field_bytes_ld [OF assms] by (auto dest: get_bound)

lemma map_rows_from_mem:
  assumes "xml_laws L" and "update_items L (map_tbl b i j) m 0 ns = Some ns'"
  shows "from_mem X m (parse_items L (map_tbl b i j) 0 ns')"
  by (rule items_from_mem [OF assms]) (simp add: map_tbl_def)

lemma upt_Suc_shift: "map f [0..<Suc n] = f 0 # map (\<lambda>j. f (Suc j)) [0..<n]"
  by (simp only: upt_rec [of 0] map_Suc_upt [symmetric]) simp

lemma update_each_map:
  "(\<And>j. j < length ns \<Longrightarrow> u (i + j) (ns ! j) = Some (g j)) \<Longrightarrow> update_each u i ns = Some (map g [0..<length ns])"
proof (induction ns arbitrary: i g)
  case (Cons n ns)
  have "update_each u (Suc i) ns = Some (map (\<lambda>j. g (Suc j)) [0..<length ns])"
    by (rule Cons.IH) (use Cons.prems [of "Suc _"] in simp)
  then show ?case using Cons.prems [of 0] by (simp add: upt_Suc_shift del: upt_Suc)
qed simp

lemma parse_each_map:
  "(\<And>j. j < length ns \<Longrightarrow> p (i + j) (ns ! j) = Some (a j)) \<Longrightarrow> parse_each p i ns = Some (concat (map a [0..<length ns]))"
proof (induction ns arbitrary: i a)
  case (Cons n ns)
  have "parse_each p (Suc i) ns = Some (concat (map (\<lambda>j. a (Suc j)) [0..<length ns]))"
    by (rule Cons.IH) (use Cons.prems [of "Suc _"] in simp)
  then show ?case using Cons.prems [of 0] by (simp add: upt_Suc_shift del: upt_Suc)
qed simp

lemma covers_concat: "covers (concat ass) x \<longleftrightarrow> (\<exists>as \<in> set ass. covers as x)"
  by (simp add: covers_def) blast

lemma from_mem_concat: "from_mem X m (concat ass) \<longleftrightarrow> (\<forall>as \<in> set ass. from_mem X m as)"
  by (induction ass) simp_all

text \<open>The rows of the numbers after resizing: as many as the block says, each with both attributes.\<close>

lemma resized_rows:
  assumes "xml_laws L" and "kids \<noteq> []" and "\<forall>p \<in> set kids. is_row p" and "1 \<le> c"
  shows "length (resize_items L (int c) 0 kids) = c \<and>
    (\<forall>p \<in> set (resize_items L (int c) 0 kids). is_row p)"
  using assms(2-4) new_item_keys [OF assms(1)] unfolding resize_items_spec [OF assms(2)] by auto

lemma written_rows:
  assumes L: "xml_laws L" and "j < 16" and "length kids \<le> 128" and "scene_item b i j + ab_map b + 516 \<le> length m"
    and k: "\<forall>p \<in> set kids. is_row p"
  shows "\<exists>ks. update_items L (map_tbl b i j) m 0 kids = Some ks \<and> length ks = length kids \<and>
    (\<forall>p \<in> set ks. is_row p)"
proof -
  have "\<exists>ks. update_items L (map_tbl b i j) m 0 kids = Some ks \<and>
      map (\<lambda>n. map fst (x_props n)) ks = map (\<lambda>n. map fst (x_props n)) kids"
    by (rule update_items_ok [OF L]) (rule map_tbl_show, use assms(2-4) in auto)
  then obtain ks where ks: "update_items L (map_tbl b i j) m 0 kids = Some ks"
    and e: "map (\<lambda>n. map fst (x_props n)) ks = map (\<lambda>n. map fst (x_props n)) kids" by blast
  have l: "length ks = length kids" using arg_cong [OF e, of length] by simp
  have "is_row p" if "p \<in> set ks" for p
  proof -
    obtain x where x: "x < length ks" "p = ks ! x" using \<open>p \<in> set ks\<close> by (metis in_set_conv_nth)
    have "map fst (x_props p) = map fst (x_props (kids ! x))" using arg_cong [OF e, of "\<lambda>l. l ! x"] x l by simp
    then have "fst ` set (x_props p) = fst ` set (x_props (kids ! x))" by (metis set_map)
    then show ?thesis using k x l by (auto simp: is_row_def two_keys_def)
  qed
  then show ?thesis using ks l by blast
qed

definition slp_used :: "abc_lay \<Rightarrow> nat \<Rightarrow> nat \<Rightarrow> (nat \<Rightarrow> nat) \<Rightarrow> nat \<Rightarrow> bool" where
  "slp_used b i want c x \<longleftrightarrow> scene b i \<le> x \<and> x < scene b i + 2 \<or>
     (\<exists>j < want. scene_item b i j + ab_map b \<le> x \<and> x < scene_item b i j + ab_map b + 4 + 4 * c j)"

definition slp_assigns :: "'f libxml \<Rightarrow> abc_lay \<Rightarrow> nat \<Rightarrow> nat \<Rightarrow> xnode list \<Rightarrow> assign list" where
  "slp_assigns L b i j ks = parse_items L (map_tbl b i j) 0 ks @ [(map_num b i j, of_nat (length ks))]"

lemma slp_assigns_spec:
  assumes "xml_laws L" and j: "j < 16" and "rows_num (map_num b i j) m = Some (int (length ks))" and "length ks \<le> 128"
    and "\<forall>p \<in> set ks. is_row p" and "update_items L (map_tbl b i j) m 0 kids = Some ks"
  shows "from_mem X m (slp_assigns L b i j ks)"
    and "covers (slp_assigns L b i j ks) x \<longleftrightarrow>
      scene_item b i j + ab_map b \<le> x \<and> x < scene_item b i j + ab_map b + 4 + 4 * length ks"
proof -
  have n: "map_num b i j = Some (U32, scene_item b i j + ab_map b)" using j by (simp add: map_num_def)
  have "ld U32 (scene_item b i j + ab_map b) m = Some (int (length ks))" using assms(3) by (simp add: n rows_num_def)
  then have "from_mem X m [(map_num b i j, of_nat (length ks))]" unfolding n by (rule field_from_mem)
  then show "from_mem X m (slp_assigns L b i j ks)"
    using map_rows_from_mem [OF assms(1,6)] unfolding slp_assigns_def from_mem_simps by blast
  have "covers [(map_num b i j, of_nat (length ks) :: 32 word)] x \<longleftrightarrow>
      scene_item b i j + ab_map b \<le> x \<and> x < scene_item b i j + ab_map b + 4"
    by (auto simp: covers_def n)
  then show "covers (slp_assigns L b i j ks) x \<longleftrightarrow>
      scene_item b i j + ab_map b \<le> x \<and> x < scene_item b i j + ab_map b + 4 + 4 * length ks"
    unfolding slp_assigns_def covers_append map_rows_covers [OF j assms(4,5)] by auto
qed

lemma slp_mapping_read_back:
  assumes L: "xml_laws L" and ns: "ns \<noteq> []"
    and rows: "\<forall>n \<in> set ns. x_kids n \<noteq> [] \<and> (\<forall>p \<in> set (x_kids n). is_row p)"
    and want: "scene_num b m i = Some want" "1 \<le> want" "want \<le> 16"
    and c: "\<forall>j < want. rows_num (map_num b i j) m = Some (int (c j)) \<and> 1 \<le> c j \<and> c j \<le> 128"
    and fits: "\<forall>j < 16. scene_item b i j + ab_map b + 516 \<le> length m"
  shows "\<exists>ns1 ns2 as. update_slp_mapping_indexs_arrays L b m i ns = Some ns1 \<and>
    update_slp_mapping_child_table L b m i ns1 = Some ns2 \<and> length ns2 = want \<and> (\<forall>j < want. length (x_kids (ns2 ! j)) = c j) \<and>
    parse_slp_mapping_child_table L b i ns2 = Some as \<and> from_mem {} m as \<and> (\<forall>x. covers as x \<longleftrightarrow> slp_used b i want c x)"
proof -
  define N where "N j = (if j < length ns then with_kids (ns ! j) (resize_items L (int (c j)) 0 (x_kids (ns ! j)))
    else new_number L (replicate (c j) (new_item L)) j)" for j
  have a: "update_slp_mapping_indexs_arrays L b m i ns = Some (map N [0..<want])"
  proof -
    have "resize_numbers (\<lambda>j n. map_option (\<lambda>w. with_kids n (resize_items L w 0 (x_kids n))) (rows_num (map_num b i j) m))
        (slp_number L b m i) want 0 ns = Some (map (\<lambda>j. if j < length ns then
          with_kids (ns ! j) (resize_items L (int (c (0 + j))) 0 (x_kids (ns ! j))) else new_number L (replicate (c (0 + j)) (new_item L)) (0 + j))
          [0..<max 1 (want - 0)])"
      by (rule resize_numbers_spec [OF ns])
        (use c want(2) in \<open>auto simp: slp_number_def update_slp_mapping_items_child_xml_def\<close>)
    then show ?thesis using want by (simp add: update_slp_mapping_indexs_arrays_def N_def [abs_def] max_absorb2)
  qed
  have k: "length (x_kids (N j)) = c j \<and> (\<forall>p \<in> set (x_kids (N j)). is_row p)"
    if "j < want" for j
  proof (cases "j < length ns")
    case True
    then have "x_kids (ns ! j) \<noteq> []" "\<forall>p \<in> set (x_kids (ns ! j)). is_row p" "1 \<le> c j" using rows c that nth_mem by auto
    then show ?thesis using resized_rows [OF L] True by (simp add: N_def)
  next
    case False
    then show ?thesis using new_item_keys [OF L] by (simp add: N_def new_number_kids [OF L])
  qed
  have "\<exists>ks. update_items L (map_tbl b i j) m 0 (x_kids (N j)) = Some ks \<and> length ks = c j \<and>
      (\<forall>p \<in> set ks. is_row p)" if "j < want" for j
    using written_rows [OF L _ _ _ k [OF that, THEN conjunct2], of j b i m] k [OF that] c want(3) fits that by auto
  then obtain K where K: "update_items L (map_tbl b i j) m 0 (x_kids (N j)) = Some (K j)" "length (K j) = c j"
    "\<forall>p \<in> set (K j). is_row p" if "j < want" for j by metis
  define ns2 where "ns2 = map (\<lambda>j. with_kids (N j) (K j)) [0..<want]"
  have u: "update_slp_mapping_child_table L b m i (map N [0..<want]) = Some ns2"
    unfolding update_slp_mapping_child_table_def ns2_def
    using update_each_map [of "map N [0..<want]" "\<lambda>j n. map_option (with_kids n) (update_items L (map_tbl b i j) m 0 (x_kids n))" 0
      "\<lambda>j. with_kids (N j) (K j)"] K(1) by simp
  define as where "as = concat (map (\<lambda>j. slp_assigns L b i j (K j)) [0..<want])"
  have p: "parse_slp_mapping_child_table L b i ns2 = Some (as @ [(Some (U16, scene b i), of_nat want)])"
    using parse_each_map [of ns2 "\<lambda>j n. Some (slp_assigns L b i j (x_kids n))" 0 "\<lambda>j. slp_assigns L b i j (K j)"]
    by (simp add: parse_slp_mapping_child_table_def ns2_def as_def slp_assigns_def [symmetric])
  note A = slp_assigns_spec [OF L _ _ _ K(3) K(1)]
  have "from_mem {} m as" and "\<And>x. covers as x \<longleftrightarrow> (\<exists>j < want. scene_item b i j + ab_map b \<le> x \<and> x < scene_item b i j + ab_map b + 4 + 4 * c j)"
    using A [of _ _] K(2) c want(3) by (auto simp: as_def from_mem_concat covers_concat)
  moreover have "ld U16 (scene b i) m = Some (int want)"
    using want(1) ld_range(3) [of U16 "scene b i" m] by (auto simp: scene_num_def ld_fld_value fld_value_def)
  then have "from_mem {} m [(Some (U16, scene b i), of_nat want)]" by (rule field_from_mem)
  moreover have "covers [(Some (U16, scene b i), of_nat want :: 32 word)] x \<longleftrightarrow> scene b i \<le> x \<and> x < scene b i + 2" for x
    by (auto simp: covers_def)
  ultimately have "from_mem {} m (as @ [(Some (U16, scene b i), of_nat want)])"
    and "\<forall>x. covers (as @ [(Some (U16, scene b i), of_nat want)]) x \<longleftrightarrow> slp_used b i want c x"
    by (auto simp: covers_append slp_used_def)
  moreover have "length ns2 = want" "\<forall>j < want. length (x_kids (ns2 ! j)) = c j" using K(2) by (simp_all add: ns2_def)
  ultimately show ?thesis using a u p by blast
qed

text \<open>: on a block of any of the four chips, writing a mapping table of the file that has a scene, and rows with both
attributes in each, gives it as many scenes as the block has and in each as many rows, whatever the
numbers were before; reading it into any block of the size then brings the number of scenes, the
numbers of rows and every row in use from the block that was written, and changes nothing else.\<close>

theorem slp_mapping_copies:
  assumes "xml_laws L" and b: "b \<in> {abc_sharkl3, abc_roc1, abc_sharkl5, abc_sharkl5Pro}" and i: "i < 2"
    and m: "scene b 2 \<le> length m" and "length m0 = length m" and "ns \<noteq> []"
    and "\<forall>n \<in> set ns. x_kids n \<noteq> [] \<and> (\<forall>p \<in> set (x_kids n). is_row p)"
    and "scene_num b m i = Some want" and "1 \<le> want" and "want \<le> 16"
    and "\<forall>j < want. rows_num (map_num b i j) m = Some (int (c j)) \<and> 1 \<le> c j \<and> c j \<le> 128"
  shows "\<exists>ns1 ns2 as m1. update_slp_mapping_indexs_arrays L b m i ns = Some ns1 \<and>
    update_slp_mapping_child_table L b m i ns1 = Some ns2 \<and> length ns2 = want \<and> (\<forall>j < want. length (x_kids (ns2 ! j)) = c j) \<and>
    parse_slp_mapping_child_table L b i ns2 = Some as \<and> assigns as m0 = Some m1 \<and>
    (\<forall>x < length m. m1 ! x = (if slp_used b i want c x then m ! x else m0 ! x))"
proof -
  have "\<forall>j < 16. scene_item b i j + ab_map b + 516 \<le> length m"
    using b i m by (auto simp: scene_item_def scene_def less_2_cases_iff abc_sharkl3_def abc_roc1_def abc_sharkl5_def abc_sharkl5Pro_def)
  then obtain ns1 ns2 as where r: "update_slp_mapping_indexs_arrays L b m i ns = Some ns1"
    "update_slp_mapping_child_table L b m i ns1 = Some ns2" "length ns2 = want" "\<forall>j < want. length (x_kids (ns2 ! j)) = c j"
    "parse_slp_mapping_child_table L b i ns2 = Some as" "from_mem {} m as" "\<forall>x. covers as x \<longleftrightarrow> slp_used b i want c x"
    using slp_mapping_read_back [OF assms(1,6-11)] by blast
  obtain m1 where "assigns as m0 = Some m1" "\<forall>x < length m. \<not> in_flds {} x \<longrightarrow> m1 ! x = (if covers as x then m ! x else m0 ! x)"
    using assigns_copy [OF r(6) assms(5)] by blast
  then show ?thesis using r by (auto simp: in_flds_def)
qed

definition ex_abc :: mem where
  "ex_abc = replicate 10684 0 @ [1, 0] @ replicate 38 0 @ [1, 0, 0, 0] @ replicate 17628 0"

definition ex_rows :: "xnode list" where
  "ex_rows = [XNode (cs ''number'') [] (replicate 2 (new_item ex_xml)), XNode (cs ''number'') [] [new_item ex_xml]]"

lemma ex_abc_simps:
  "scene_num abc_sharkl3 ex_abc 0 = Some 1" "rows_num (map_num abc_sharkl3 0 0) ex_abc = Some 1" "length ex_abc = 28356"
proof -
  have "get ex_abc 10684 2 = Some [1, 0]" unfolding ex_abc_def by (rule get_pre) simp_all
  then show "scene_num abc_sharkl3 ex_abc 0 = Some 1"
    by (simp add: scene_num_def scene_def abc_sharkl3_def ld_def de32_def numeral_2_eq_2)
  have "get ((replicate 10684 0 @ [1, 0] @ replicate 38 0) @ [1, 0, 0, 0] @ replicate 17628 0) 10724 4 = Some [1, 0, 0, 0]"
    by (rule get_pre) simp_all
  then have "get ex_abc 10724 4 = Some [1, 0, 0, 0]" by (simp add: ex_abc_def)
  then show "rows_num (map_num abc_sharkl3 0 0) ex_abc = Some 1"
    by (simp add: rows_num_def map_num_def scene_item_def scene_def abc_sharkl3_def ld_def de32_def)
qed (simp add: ex_abc_def)

theorem slp_mapping_copies_witness:
  "\<exists>ns1 ns2. update_slp_mapping_indexs_arrays ex_xml abc_sharkl3 ex_abc 0 ex_rows = Some ns1 \<and>
    update_slp_mapping_child_table ex_xml abc_sharkl3 ex_abc 0 ns1 = Some ns2 \<and> length ns2 = 1 \<and> length (x_kids (ns2 ! 0)) = 1"
proof -
  have r: "\<forall>n \<in> set ex_rows. x_kids n \<noteq> [] \<and> (\<forall>p \<in> set (x_kids n). is_row p)"
    using new_item_keys [OF ex_xml_laws] by (simp add: ex_rows_def)
  show ?thesis
    using slp_mapping_copies [of ex_xml abc_sharkl3 0 ex_abc ex_abc ex_rows 1 "\<lambda>_. 1"] ex_xml_laws r
    by (auto simp: ex_abc_simps scene_def abc_sharkl3_def [THEN arg_cong, of ab_scene] abc_sharkl3_def [THEN arg_cong, of ab_scene_size] ex_rows_def)
qed

end
