(* ===== verification/PQTune.thy ===== *)
theory PQTune
  imports PQAbc BtWifi
begin

text \<open>
  The tuning library of \<open>modules/PQTune\<close>: the cores of \<open>PQCores/PQTuneCore.cpp\<close> and \<open>PQTuneAllCores.cpp\<close>, each
  with its parsers and its parameter block, the fifteen commands of the tuning tool, and the registration of \<open>PQDiag.cpp\<close>.
  The pointers that a constructor leaves unset are absent (\<open>None\<close>): a call through one is undefined, as is an access
  outside a buffer or the block. The content of uninitialised memory is the parameter \<open>g\<close>. The display
  library behind \<open>gr_init\<close> is left out: its result is only printed.
\<close>

section \<open>Text and numbers\<close>

text \<open>\<open>printf\<close>'s \<open>%8x\<close> of an unsigned number.\<close>

definition show_hex8 :: "nat \<Rightarrow> byte list" where
  "show_hex8 n = replicate (8 - length (show_hex n)) 32 @ show_hex n"

definition get_u16 :: "mem \<Rightarrow> nat \<Rightarrow> nat option" where
  "get_u16 m off = map_option de16 (get m off 2)"

definition get_u32 :: "mem \<Rightarrow> nat \<Rightarrow> nat option" where
  "get_u32 m off = map_option de32 (get m off 4)"

text \<open>A number in memory that holds no end of the text before the memory ends is read past it.\<close>

definition number_in :: "nat \<Rightarrow> mem \<Rightarrow> (bool \<times> nat) option" where
  "number_in base m =
     (case number_at base m of
        None \<Rightarrow> if snd (split_sign m) = [] then None else Some (False, 0)
      | Some (neg, n, rest) \<Rightarrow> if rest = [] then None else Some (neg, n))"

definition strtol_in :: "nat \<Rightarrow> mem \<Rightarrow> int option" where
  "strtol_in base m =
     map_option (\<lambda>(neg, n). max (- 2147483648) (min 2147483647 (if neg then - int n else int n))) (number_in base m)"

definition atoll_in :: "mem \<Rightarrow> int option" where
  "atoll_in m =
     map_option (\<lambda>(neg, n). max (- 9223372036854775808) (min 9223372036854775807 (if neg then - int n else int n)))
       (number_in 10 m)"

text \<open>\<open>HexStrstoInt\<close>: texts of nine bytes become words, in place; the rest of \<open>size\<close> words from the \<open>i\<close>th on.\<close>

fun HexStrstoInt :: "mem \<Rightarrow> nat \<Rightarrow> nat \<Rightarrow> nat \<Rightarrow> mem option" where
  "HexStrstoInt m base i 0 = Some m"
| "HexStrstoInt m base i (Suc k) = do {
     v \<leftarrow> strtol_in 16 (drop (base + 9 * i) m);
     m' \<leftarrow> put m (base + 4 * i) (le32 (nat (v mod 4294967296)));
     HexStrstoInt m' base (Suc i) k
   }"

fun MultTimes :: "nat \<Rightarrow> nat \<Rightarrow> 32 word" where
  "MultTimes base 0 = 1"
| "MultTimes base (Suc n) = MultTimes base n * of_nat base"

text \<open>\<open>parse_panelsize\<close>: the sum over the digits from \<open>start + j\<close> on, the \<open>j\<close>th with the weight \<open>w - j\<close>; the loop over the
  text, with counters of one byte. A loop whose bound such a counter cannot reach does not end.\<close>

fun panel_digits :: "mem \<Rightarrow> nat \<Rightarrow> nat \<Rightarrow> nat \<Rightarrow> nat \<Rightarrow> 32 word \<Rightarrow> 32 word option" where
  "panel_digits m start w j 0 acc = Some acc"
| "panel_digits m start w j (Suc k) acc = do {
     b \<leftarrow> rd m (start + j);
     panel_digits m start w (Suc j) k (acc + (of_nat (unat b) - 48) * MultTimes 10 (w - j))
   }"

fun panel_loop :: "mem \<Rightarrow> nat \<Rightarrow> nat \<Rightarrow> nat \<Rightarrow> 32 word \<Rightarrow> 32 word \<Rightarrow> (32 word \<times> 32 word) option" where
  "panel_loop m 0 i next_at h v = Some (h, v)"
| "panel_loop m (Suc k) i next_at h v = do {
     b \<leftarrow> rd m i;
     (next_at', h') \<leftarrow> (if b = 120 then do { h1 \<leftarrow> panel_digits m 0 (i - 1) 0 (i - 1) h; Some (Suc i mod 256, h1) }
                      else Some (next_at, h));
     v' \<leftarrow> (if b = 10
            then let last_at = (i + 255) mod 256 in
                 if 256 \<le> last_at + 1 - next_at' then None
                 else panel_digits m next_at' (last_at - next_at') 0 (last_at + 1 - next_at') v
            else Some v);
     panel_loop m k (Suc i) next_at' h' v'
   }"

definition parse_panelsize :: "mem \<Rightarrow> nat \<Rightarrow> (32 word \<times> 32 word) option" where
  "parse_panelsize m count = (if 255 < count then None else panel_loop m count 0 0 0 0)"

section \<open>Cores\<close>

datatype ipcore = DPU_LITE_R2P0 | DPU_R2P0 | DPU_R3P0 | DPU_R4P0

definition ipcore_val :: "ipcore \<Rightarrow> int" where
  "ipcore_val v = (case v of DPU_LITE_R2P0 \<Rightarrow> 0 | DPU_R2P0 \<Rightarrow> 1 | DPU_R3P0 \<Rightarrow> 2 | DPU_R4P0 \<Rightarrow> 3)"

text \<open>The virtual functions of a parser, on the state of the module.\<close>

record ('p, 'f) parser =
  parse_xml :: "('p, 'f) pq \<Rightarrow> (int \<times> ('p, 'f) pq) option"
  update_xml :: "('p, 'f) pq \<Rightarrow> (int \<times> ('p, 'f) pq) option"
  parse_reg :: "('p, 'f) pq \<Rightarrow> (int \<times> ('p, 'f) pq) option"
  update_reg :: "('p, 'f) pq \<Rightarrow> (int \<times> ('p, 'f) pq) option"

definition GammaParser :: "'f libxml \<Rightarrow> ('p, 'f) parser" where
  "GammaParser L = \<lparr>parse_xml = GammaParser_parse_xml L, update_xml = GammaParser_update_xml L,
     parse_reg = GammaParser_parse_reg, update_reg = GammaParser_update_reg\<rparr>"

definition GammaParserLiteR2p0 :: "'f libxml \<Rightarrow> ('p, 'f) parser" where
  "GammaParserLiteR2p0 L = \<lparr>parse_xml = GammaParserLiteR2p0_parse_xml L, update_xml = GammaParserLiteR2p0_update_xml L,
     parse_reg = GammaParserLiteR2p0_parse_reg, update_reg = GammaParserLiteR2p0_update_reg\<rparr>"

definition BldParser :: "'f libxml \<Rightarrow> ('p, 'f) parser" where
  "BldParser L = \<lparr>parse_xml = BldParser_parse_xml L, update_xml = BldParser_update_xml L,
     parse_reg = BldParser_parse_reg, update_reg = BldParser_update_reg\<rparr>"

definition BldParserLiteR2p0 :: "'f libxml \<Rightarrow> ('p, 'f) parser" where
  "BldParserLiteR2p0 L = \<lparr>parse_xml = BldParserLiteR2p0_parse_xml L, update_xml = BldParserLiteR2p0_update_xml L,
     parse_reg = BldParserLiteR2p0_parse_reg, update_reg = BldParserLiteR2p0_update_reg\<rparr>"

definition CmsParser :: "'f libxml \<Rightarrow> ('p, 'f) parser" where
  "CmsParser L = \<lparr>parse_xml = CmsParser_parse_xml L, update_xml = CmsParser_update_xml L,
     parse_reg = CmsParser_parse_reg, update_reg = CmsParser_update_reg\<rparr>"

definition CmsParserLiteR2p0 :: "'f libxml \<Rightarrow> ('p, 'f) parser" where
  "CmsParserLiteR2p0 L = \<lparr>parse_xml = CmsParserLiteR2p0_parse_xml L, update_xml = CmsParserLiteR2p0_update_xml L,
     parse_reg = CmsParserLiteR2p0_parse_reg, update_reg = CmsParserLiteR2p0_update_reg\<rparr>"

definition CmsParserR4p0 :: "'f libxml \<Rightarrow> ('p, 'f) parser" where
  "CmsParserR4p0 L = \<lparr>parse_xml = CmsParserR4p0_parse_xml L, update_xml = CmsParserR4p0_update_xml L,
     parse_reg = CmsParserR4p0_parse_reg, update_reg = CmsParserR4p0_update_reg\<rparr>"

definition AbcParser :: "'f libxml \<Rightarrow> ('p, 'f) parser" where
  "AbcParser L = \<lparr>parse_xml = AbcParser_parse_xml L, update_xml = AbcParser_update_xml L,
     parse_reg = AbcParser_parse_reg, update_reg = AbcParser_update_reg\<rparr>"

definition AbcParserLiteR2p0 :: "'f libxml \<Rightarrow> ('p, 'f) parser" where
  "AbcParserLiteR2p0 L = \<lparr>parse_xml = AbcParserLiteR2p0_parse_xml L, update_xml = AbcParserLiteR2p0_update_xml L,
     parse_reg = AbcParserLiteR2p0_parse_reg, update_reg = AbcParserLiteR2p0_update_reg\<rparr>"

definition AbcParserR3p0 :: "'f libxml \<Rightarrow> ('p, 'f) parser" where
  "AbcParserR3p0 L = \<lparr>parse_xml = AbcParserR3p0_parse_xml L, update_xml = AbcParserR3p0_update_xml L,
     parse_reg = AbcParserR3p0_parse_reg, update_reg = AbcParserR3p0_update_reg\<rparr>"

definition AbcParserR4p0 :: "'f libxml \<Rightarrow> ('p, 'f) parser" where
  "AbcParserR4p0 L = \<lparr>parse_xml = AbcParserR4p0_parse_xml L, update_xml = AbcParserR4p0_update_xml L,
     parse_reg = AbcParserR4p0_parse_reg, update_reg = AbcParserR4p0_update_reg\<rparr>"

definition HsvParser :: "'f libxml \<Rightarrow> ('p, 'f) parser" where
  "HsvParser L = \<lparr>parse_xml = HsvParser_parse_xml L, update_xml = HsvParser_update_xml L,
     parse_reg = HsvParser_parse_reg, update_reg = HsvParser_update_reg\<rparr>"

text \<open>A core with the state of the module: its block is the \<open>q_ctx\<close> of that state, \<open>flip_en\<close> the static
  variable of \<open>tune_rgb_pattern\<close>.\<close>

record ('p, 'f) core =
  co_version :: ipcore
  co_offset :: nat
  co_tune_sizes :: nat
  co_gamma_size :: nat
  co_bld_size :: nat
  co_cms_size :: nat
  co_abc_size :: nat
  co_hsv_size :: nat
  co_gamma :: "('p, 'f) parser"
  co_bld :: "('p, 'f) parser"
  co_cms :: "('p, 'f) parser"
  co_abc :: "('p, 'f) parser"
  co_hsv :: "('p, 'f) parser option"
  co_pq :: "('p, 'f) pq"
  co_flip_en :: bool

definition new_block :: "(nat \<Rightarrow> byte) \<Rightarrow> nat \<Rightarrow> ('p, 'f) pq \<Rightarrow> ('p, 'f) pq" where
  "new_block g n s = s\<lparr>q_ctx := malloc g n\<rparr>"

text \<open>The constructors. The first one makes the parser of the 3D table null and its size 0; those of the second
  and third version leave both uninitialised: the size is what the memory held, and there is no parser
  (\<open>None\<close>), since a call through the pointer is undefined in either case.\<close>

definition PQTuneCore :: "'f libxml \<Rightarrow> (nat \<Rightarrow> byte) \<Rightarrow> ('p, 'f) pq \<Rightarrow> ('p, 'f) core" where
  "PQTuneCore L g s = \<lparr>co_version = DPU_R2P0, co_offset = 0, co_tune_sizes = 29388, co_gamma_size = 1544,
     co_bld_size = 4404, co_cms_size = 4716, co_abc_size = 18716, co_hsv_size = 0, co_gamma = GammaParser L,
     co_bld = BldParser L, co_cms = CmsParser L, co_abc = AbcParser L, co_hsv = None, co_pq = new_block g 29388 s,
     co_flip_en = True\<rparr>"

definition PQTuneCoreLiteR2p0 :: "'f libxml \<Rightarrow> (nat \<Rightarrow> byte) \<Rightarrow> ('p, 'f) pq \<Rightarrow> ('p, 'f) core" where
  "PQTuneCoreLiteR2p0 L g s = \<lparr>co_version = DPU_LITE_R2P0, co_offset = 0, co_tune_sizes = 26400, co_gamma_size = 3084,
     co_bld_size = 48, co_cms_size = 4800, co_abc_size = 18460, co_hsv_size = de32 (malloc g 4), co_gamma = GammaParserLiteR2p0 L,
     co_bld = BldParserLiteR2p0 L, co_cms = CmsParserLiteR2p0 L, co_abc = AbcParserLiteR2p0 L, co_hsv = None,
     co_pq = new_block g 26400 s, co_flip_en = True\<rparr>"

definition PQTuneCoreR3p0 :: "'f libxml \<Rightarrow> (nat \<Rightarrow> byte) \<Rightarrow> ('p, 'f) pq \<Rightarrow> ('p, 'f) core" where
  "PQTuneCoreR3p0 L g s = \<lparr>co_version = DPU_R3P0, co_offset = 0, co_tune_sizes = 26912, co_gamma_size = 3084,
     co_bld_size = 48, co_cms_size = 4800, co_abc_size = 18972, co_hsv_size = de32 (malloc g 4), co_gamma = GammaParserLiteR2p0 L,
     co_bld = BldParserLiteR2p0 L, co_cms = CmsParserLiteR2p0 L, co_abc = AbcParserR3p0 L, co_hsv = None,
     co_pq = new_block g 26912 s, co_flip_en = True\<rparr>"

definition PQTuneCoreR4p0 :: "'f libxml \<Rightarrow> (nat \<Rightarrow> byte) \<Rightarrow> ('p, 'f) pq \<Rightarrow> ('p, 'f) core" where
  "PQTuneCoreR4p0 L g s = \<lparr>co_version = DPU_R4P0, co_offset = 0, co_tune_sizes = 39440, co_gamma_size = 3084,
     co_bld_size = 48, co_cms_size = 4788, co_abc_size = 18372, co_hsv_size = 13140, co_gamma = GammaParserLiteR2p0 L,
     co_bld = BldParserLiteR2p0 L, co_cms = CmsParserR4p0 L, co_abc = AbcParserR4p0 L, co_hsv = Some (HsvParser L),
     co_pq = new_block g 39440 s, co_flip_en = True\<rparr>"

definition tune_version :: "('p, 'f) core \<Rightarrow> int" where
  "tune_version c = (if ipcore_val (co_version c) \<noteq> 0 then ipcore_val (co_version c) else - 1)"

text \<open>The modules of the block, in the order of its structure, behind the version of eight bytes.\<close>

definition gamma_off :: "('p, 'f) core \<Rightarrow> nat" where "gamma_off c = 8"
definition bld_off :: "('p, 'f) core \<Rightarrow> nat" where "bld_off c = co_gamma_size c + 8"
definition cms_off :: "('p, 'f) core \<Rightarrow> nat" where "cms_off c = co_gamma_size c + co_bld_size c + 8"
definition abc_off :: "('p, 'f) core \<Rightarrow> nat" where
  "abc_off c = co_gamma_size c + co_bld_size c + co_cms_size c + 8"
definition hsv_off :: "('p, 'f) core \<Rightarrow> nat" where
  "hsv_off c = co_gamma_size c + co_bld_size c + co_cms_size c + co_abc_size c + 8"

definition on_ctx :: "(mem \<Rightarrow> mem option) \<Rightarrow> ('p, 'f) core \<Rightarrow> ('p, 'f) core option" where
  "on_ctx f c = do { m \<leftarrow> f (q_ctx (co_pq c)); Some (c\<lparr>co_pq := (co_pq c)\<lparr>q_ctx := m\<rparr>\<rparr>) }"

definition tune_modules_enable :: "nat \<Rightarrow> ('p, 'f) core \<Rightarrow> ('p, 'f) core option" where
  "tune_modules_enable enable c = on_ctx (\<lambda>m. do {
     m1 \<leftarrow> put m (gamma_off c + 4) (le32 enable);
     m2 \<leftarrow> put m1 (abc_off c + 4) (le32 enable);
     m3 \<leftarrow> put m2 (cms_off c + 4) (le32 enable);
     put m3 (bld_off c + 4) (le32 enable)
   }) c"

definition enable_at :: "bool \<Rightarrow> nat \<Rightarrow> mem \<Rightarrow> mem option" where
  "enable_at b off m = (if b then put m (off + 4) (le32 1) else Some m)"

definition has_bit :: "int \<Rightarrow> nat \<Rightarrow> bool" where "has_bit x b \<longleftrightarrow> and x (int b) \<noteq> 0"

definition tune_module_enable :: "int \<Rightarrow> ('p, 'f) core \<Rightarrow> ('p, 'f) core option" where
  "tune_module_enable status c = on_ctx (\<lambda>m. do {
     m1 \<leftarrow> enable_at (has_bit status GAMMA_EN) (gamma_off c) m;
     m2 \<leftarrow> enable_at (has_bit status SLP_EN) (abc_off c) m1;
     m3 \<leftarrow> enable_at (has_bit status CMS_EN) (cms_off c) m2;
     enable_at (has_bit status HSV_EN) (bld_off c) m3
   }) c"

definition tune_version_copy :: "ipcore \<Rightarrow> byte list" where
  "tune_version_copy v = (case v of DPU_R2P0 \<Rightarrow> cs ''dpu-r2p0'' | DPU_LITE_R2P0 \<Rightarrow> cs ''dpu-lite-r2p0''
     | DPU_R3P0 \<Rightarrow> cs ''dpu-r3p0'' | DPU_R4P0 \<Rightarrow> cs ''dpu-r4p0'')"

section \<open>The commands\<close>

text \<open>The other nodes of the drivers.\<close>

definition DpuVersion :: "byte list" where "DpuVersion = cs ''/sys/class/display/dispc0/dpu_version''"
definition DispcBg :: "byte list" where "DispcBg = cs ''/sys/class/display/dispc0/bg_color''"
definition PanelSize :: "byte list" where "PanelSize = cs ''/sys/class/display/panel0/resolution''"
definition DispcWrRegs :: "byte list" where "DispcWrRegs = cs ''/sys/class/display/dispc0/wr_regs''"
definition DispcRegsOffset :: "byte list" where "DispcRegsOffset = cs ''/sys/class/display/dispc0/regs_offset''"
definition SensorLight :: "byte list" where
  "SensorLight = cs ''sys/devices/virtual/sprd_sensorhub/sensor_hub/iio/in_illuminance_raw''"
definition PQStatus :: "byte list" where "PQStatus = cs ''/sys/class/display/dispc0/PQ/status''"
definition FlipDisable :: "byte list" where "FlipDisable = cs ''/sys/class/display/dispc0/disable_flip''"
definition ChipInfo :: "byte list" where "ChipInfo = cs ''/proc/cmdline''"

text \<open>\<open>memcpy(rsp, buf, k)\<close>, and the end of every command: the length in the header, the flag, the length as the result.\<close>

definition copy_head :: "mem \<Rightarrow> nat \<Rightarrow> mem \<Rightarrow> mem option" where
  "copy_head buf k rsp = do { h \<leftarrow> get buf 0 k; put rsp 0 h }"

definition close_answer :: "nat \<Rightarrow> ('p, 'f) core \<Rightarrow> mem \<Rightarrow> (int \<times> mem \<times> ('p, 'f) core) option" where
  "close_answer n c rsp = do { r1 \<leftarrow> set_len rsp 1 (n - 2); r2 \<leftarrow> wr r1 (n - 1) 0x7E; Some (int n, r2, c) }"

text \<open>The answer that carries one number.\<close>

definition answer_u32 :: "mem \<Rightarrow> mem \<Rightarrow> nat \<Rightarrow> ('p, 'f) core \<Rightarrow> (int \<times> mem \<times> ('p, 'f) core) option" where
  "answer_u32 buf rsp v c = do {
     r1 \<leftarrow> copy_head buf 13 rsp;
     r2 \<leftarrow> put r1 13 (le32 v);
     close_answer 18 c r2
   }"

definition write_node :: "byte list \<Rightarrow> byte list \<Rightarrow> ('p, 'f) core \<Rightarrow> ('p, 'f) core" where
  "write_node path bs c = c\<lparr>co_pq := reg_write path bs (co_pq c)\<rparr>"

text \<open>The text of nine bytes for an array of ten, padded with the zeros it is initialised with.\<close>

definition ten_bytes :: "byte list \<Rightarrow> byte list" where
  "ten_bytes t = t @ replicate (10 - length t) 0"

text \<open>\<open>tune_connect\<close>: the status of the modules into the block, then the information on the device. The chip's name
  ends at a blank: without one its length is undefined.\<close>

definition connect_status :: "('p, 'f) core \<Rightarrow> (mem \<times> ('p, 'f) core) option" where
  "connect_status c =
     (case fs_read PQStatus 0 100 (q_fs (co_pq c)) of
        None \<Rightarrow> do { c1 \<leftarrow> tune_modules_enable 0 c; Some (replicate 1024 0, c1) }
      | Some bs \<Rightarrow> do {
          info \<leftarrow> put (replicate 1024 0) 0 bs;
          t \<leftarrow> cstr_at info 0;
          (case (if bs = [] then None else strstr t (cs ''0x'')) of
             None \<Rightarrow> Some (info, c)
           | Some p \<Rightarrow> do { c1 \<leftarrow> tune_module_enable (fst (strtol 16 p)) c; Some (info, c1) })
        })"

definition chip_name :: "mem \<Rightarrow> byte list option option" where
  "chip_name info = do {
     t \<leftarrow> cstr_at info 0;
     (case Option.bind (strstr t (cs ''androidboot.hardware'')) (\<lambda>p. strchr p 61) of
        None \<Rightarrow> Some None
      | Some q \<Rightarrow> do {
          e \<leftarrow> strchr (drop 1 q) 32;
          Some (Some (take (length q - 1 - length e) (drop 1 q)))
        })
   }"

definition dut_info :: "ipcore \<Rightarrow> byte list \<Rightarrow> (32 word \<times> 32 word) \<Rightarrow> mem option" where
  "dut_info v chip res = do {
     d1 \<leftarrow> put (replicate 148 0) 8 (tune_version_copy v);
     d2 \<leftarrow> put d1 72 chip;
     put d2 136 (le32 (unat (fst res)) @ le32 (unat (snd res)))
   }"

definition connect_answer :: "mem \<Rightarrow> mem \<Rightarrow> mem \<Rightarrow> byte list \<Rightarrow> ('p, 'f) core \<Rightarrow> (int \<times> mem \<times> ('p, 'f) core) option" where
  "connect_answer buf rsp info chip c =
     (case fs_read PanelSize 0 1024 (q_fs (co_pq c)) of
        None \<Rightarrow> Some (- 1, rsp, c)
      | Some panel \<Rightarrow> do {
          info' \<leftarrow> put info 0 panel;
          res \<leftarrow> parse_panelsize info' (length panel);
          dut \<leftarrow> dut_info (co_version c) chip res;
          r1 \<leftarrow> copy_head buf 13 rsp;
          r2 \<leftarrow> put r1 13 dut;
          close_answer 162 c r2
        })"

definition tune_connect :: "mem \<Rightarrow> mem \<Rightarrow> ('p, 'f) core \<Rightarrow> (int \<times> mem \<times> ('p, 'f) core) option" where
  "tune_connect buf rsp c =
     (let fs = q_fs (co_pq c) in
      if \<not> (fs_open PanelSize fs \<and> fs_open ChipInfo fs \<and> fs_open PQStatus fs \<and> fs_open Brightness fs)
      then Some (q_errno (co_pq c), rsp, c)
      else do {
        (info, c1) \<leftarrow> connect_status (write_node Brightness (ten_bytes (cs ''255'')) c);
        (case fs_read ChipInfo 0 1024 (q_fs (co_pq c1)) of
           None \<Rightarrow> Some (- 1, rsp, c1)
         | Some line \<Rightarrow> do {
             info1 \<leftarrow> put info 0 line;
             found \<leftarrow> chip_name info1;
             (if found = None then Some (- 1, rsp, c1) else connect_answer buf rsp info1 (the found) c1)
           })
      })"

definition tune_rgb_pattern :: "mem \<Rightarrow> mem \<Rightarrow> ('p, 'f) core \<Rightarrow> (int \<times> mem \<times> ('p, 'f) core) option" where
  "tune_rgb_pattern buf rsp c =
     (let fs = q_fs (co_pq c) in
      if \<not> (fs_open DispcBg fs \<and> fs_open FlipDisable fs) then Some (q_errno (co_pq c), rsp, c)
      else do {
        color \<leftarrow> get_u32 buf 13;
        (let c1 = (if co_flip_en c then (write_node FlipDisable (ten_bytes (cs ''1'')) c)\<lparr>co_flip_en := False\<rparr> else c);
             (ret, c2) =
               (if color \<noteq> 4294967295
                then (let (n, fs') = fs_write DispcBg 0 (ten_bytes (show_hex color)) (q_fs (co_pq c1))
                      in (n, c1\<lparr>co_pq := (co_pq c1)\<lparr>q_fs := fs'\<rparr>\<rparr>))
                else (0, (write_node FlipDisable (ten_bytes (cs ''0'')) c1)\<lparr>co_flip_en := True\<rparr>))
         in answer_u32 buf rsp (if ret = - 1 then 1 else 0) c2)
      })"

text \<open>\<open>tune_read_regs\<close>: the length, which was to follow the offset in the command, is only printed; the command
  is an array of thirty bytes, all of which are written.\<close>

definition tune_read_regs :: "(nat \<Rightarrow> byte) \<Rightarrow> mem \<Rightarrow> mem \<Rightarrow> ('p, 'f) core \<Rightarrow> (int \<times> mem \<times> ('p, 'f) core) option" where
  "tune_read_regs g buf rsp c =
     (let fs = q_fs (co_pq c) in
      if \<not> (fs_open DispcRegsOffset fs \<and> fs_open DispcWrRegs fs) then Some (q_errno (co_pq c), rsp, c)
      else do {
        off \<leftarrow> get_u32 buf 17;
        n \<leftarrow> get_u32 buf 13;
        cmds \<leftarrow> sprintf (malloc g 30) (show_hex8 off @ [32]);
        (let c1 = write_node DispcRegsOffset cmds c in do {
           r1 \<leftarrow> (case fs_read DispcWrRegs 0 (9 * n mod 4294967296) (q_fs (co_pq c1)) of
                    None \<Rightarrow> Some rsp | Some bs \<Rightarrow> put rsp 21 bs);
           r2 \<leftarrow> HexStrstoInt r1 21 0 n;
           r3 \<leftarrow> copy_head buf 13 r2;
           close_answer (22 + 4 * n) c1 r3
         })
      })"

text \<open>\<open>tune_write_regs\<close>: the texts are built in the answer's buffer.\<close>

fun print_words :: "mem \<Rightarrow> nat \<Rightarrow> nat \<Rightarrow> mem \<Rightarrow> mem option" where
  "print_words buf i 0 rsp = Some rsp"
| "print_words buf i (Suc k) rsp = do {
     v \<leftarrow> get_u32 buf (21 + 4 * i);
     r \<leftarrow> put rsp (13 + 9 * i) (show_hex8 v @ [32, 0]);
     print_words buf (Suc i) k r
   }"

definition tune_write_regs :: "mem \<Rightarrow> mem \<Rightarrow> ('p, 'f) core \<Rightarrow> (int \<times> mem \<times> ('p, 'f) core) option" where
  "tune_write_regs buf rsp c =
     (let fs = q_fs (co_pq c) in
      if \<not> (fs_open DispcRegsOffset fs \<and> fs_open DispcWrRegs fs) then Some (q_errno (co_pq c), rsp, c)
      else do {
        off \<leftarrow> get_u32 buf 17;
        n \<leftarrow> get_u32 buf 13;
        r1 \<leftarrow> put rsp 13 (show_hex8 off @ [32, 0]);
        r2 \<leftarrow> put r1 22 (show_hex8 n @ [32, 0]);
        first \<leftarrow> get_u32 buf 21;
        cmd \<leftarrow> get r2 13 18;
        (let c1 = write_node DispcRegsOffset cmd c;
             k = (if n < 2147483648 then n else 0)
         in do {
           r3 \<leftarrow> print_words buf 0 k r2;
           cmds \<leftarrow> get r3 13 (9 * k);
           (let c2 = write_node DispcWrRegs cmds c1 in do {
              r4 \<leftarrow> wr r3 0 0x7E;
              r5 \<leftarrow> put r4 13 (le32 0);
              h \<leftarrow> get buf 1 10;
              r6 \<leftarrow> put r5 1 h;
              close_answer 18 c2 r6
            })
         })
      })"

text \<open>An operation of a parser on the core's state; its result is not looked at.\<close>

definition on_pq :: "(('p, 'f) pq \<Rightarrow> (int \<times> ('p, 'f) pq) option) \<Rightarrow> ('p, 'f) core \<Rightarrow> ('p, 'f) core option" where
  "on_pq f c = do { (_, s) \<leftarrow> f (co_pq c); Some (c\<lparr>co_pq := s\<rparr>) }"

text \<open>All five parsers in the order of the whole configuration.\<close>

definition all_parsers :: "(('p, 'f) parser \<Rightarrow> ('p, 'f) pq \<Rightarrow> (int \<times> ('p, 'f) pq) option) \<Rightarrow> ('p, 'f) core \<Rightarrow> ('p, 'f) core option" where
  "all_parsers op c = do {
     c1 \<leftarrow> on_pq (op (co_abc c)) c;
     c2 \<leftarrow> on_pq (op (co_cms c)) c1;
     c3 \<leftarrow> on_pq (op (co_bld c)) c2;
     c4 \<leftarrow> on_pq (op (co_gamma c)) c3;
     h \<leftarrow> co_hsv c;
     on_pq (op h) c4
   }"

definition tune_start_read_cfg :: "mem \<Rightarrow> mem \<Rightarrow> ('p, 'f) core \<Rightarrow> (int \<times> mem \<times> ('p, 'f) core) option" where
  "tune_start_read_cfg buf rsp c = do {
     c1 \<leftarrow> all_parsers parse_xml c;
     answer_u32 buf rsp (co_tune_sizes c1) c1
   }"

definition tune_midst_read_cfg :: "mem \<Rightarrow> mem \<Rightarrow> ('p, 'f) core \<Rightarrow> (int \<times> mem \<times> ('p, 'f) core) option" where
  "tune_midst_read_cfg buf rsp c = do {
     n \<leftarrow> get_u32 buf 13;
     off \<leftarrow> get_u32 buf 17;
     r1 \<leftarrow> copy_head buf 13 rsp;
     d \<leftarrow> get (q_ctx (co_pq c)) off n;
     r2 \<leftarrow> put r1 15 d;
     r3 \<leftarrow> put r2 13 (le16 0);
     close_answer (16 + n) c r3
   }"

definition tune_end_read_cfg :: "mem \<Rightarrow> mem \<Rightarrow> ('p, 'f) core \<Rightarrow> (int \<times> mem \<times> ('p, 'f) core) option" where
  "tune_end_read_cfg buf rsp c = answer_u32 buf rsp 0 c"

definition tune_start_write_cfg :: "mem \<Rightarrow> mem \<Rightarrow> ('p, 'f) core \<Rightarrow> (int \<times> mem \<times> ('p, 'f) core) option" where
  "tune_start_write_cfg buf rsp c = do {
     n \<leftarrow> get_u32 buf 13;
     answer_u32 buf rsp (if n \<noteq> co_tune_sizes c then 1 else 0) (c\<lparr>co_offset := 0\<rparr>)
   }"

definition tune_midst_write_cfg :: "mem \<Rightarrow> mem \<Rightarrow> ('p, 'f) core \<Rightarrow> (int \<times> mem \<times> ('p, 'f) core) option" where
  "tune_midst_write_cfg buf rsp c = do {
     h \<leftarrow> read_head buf 1;
     (let n = (head_len h + 4294967284) mod 4294967296 in do {
        d \<leftarrow> get buf 13 n;
        c1 \<leftarrow> on_ctx (\<lambda>m. put m (co_offset c) d) c;
        answer_u32 buf rsp 0 (c1\<lparr>co_offset := (co_offset c + n) mod 4294967296\<rparr>)
      })
   }"

definition tune_end_write_cfg :: "mem \<Rightarrow> mem \<Rightarrow> ('p, 'f) core \<Rightarrow> (int \<times> mem \<times> ('p, 'f) core) option" where
  "tune_end_write_cfg buf rsp c =
     (if co_offset c = co_tune_sizes c
      then do { c1 \<leftarrow> all_parsers update_xml c; answer_u32 buf rsp 0 c1 }
      else answer_u32 buf rsp 1 c)"

text \<open>The commands on one module: its number, and then its parser and its place in the block.\<close>

definition parse_pq_module_type :: "nat \<Rightarrow> bool" where "parse_pq_module_type k \<longleftrightarrow> k \<le> 5"

definition tune_module :: "('p, 'f) core \<Rightarrow> nat \<Rightarrow> (('p, 'f) parser \<times> nat \<times> nat) option" where
  "tune_module c k =
     (if k = 1 then Some (co_gamma c, gamma_off c, co_gamma_size c)
      else if k = 2 then Some (co_bld c, bld_off c, co_bld_size c)
      else if k = 3 then Some (co_cms c, cms_off c, co_cms_size c)
      else if k = 4 then Some (co_abc c, abc_off c, co_abc_size c)
      else map_option (\<lambda>h. (h, hsv_off c, co_hsv_size c)) (co_hsv c))"

definition rd_tuning :: "(('p, 'f) parser \<Rightarrow> ('p, 'f) pq \<Rightarrow> (int \<times> ('p, 'f) pq) option)
    \<Rightarrow> mem \<Rightarrow> mem \<Rightarrow> ('p, 'f) core \<Rightarrow> (int \<times> mem \<times> ('p, 'f) core) option" where
  "rd_tuning op buf rsp c = do {
     k \<leftarrow> get_u16 buf 13;
     (r1, n, c1) \<leftarrow>
       (if \<not> parse_pq_module_type k \<or> k = 0 then Some (rsp, 0, c)
        else do {
          (p, off, n) \<leftarrow> tune_module c k;
          c1 \<leftarrow> on_pq (op p) c;
          d \<leftarrow> get (q_ctx (co_pq c1)) off n;
          r1 \<leftarrow> put rsp 15 d;
          Some (r1, n, c1)
        });
     r2 \<leftarrow> copy_head buf 15 r1;
     close_answer (16 + n) c1 r2
   }"

definition wr_tuning :: "(('p, 'f) parser \<Rightarrow> ('p, 'f) pq \<Rightarrow> (int \<times> ('p, 'f) pq) option)
    \<Rightarrow> mem \<Rightarrow> mem \<Rightarrow> ('p, 'f) core \<Rightarrow> (int \<times> mem \<times> ('p, 'f) core) option" where
  "wr_tuning op buf rsp c = do {
     k \<leftarrow> get_u16 buf 13;
     (err, c1) \<leftarrow>
       (if \<not> parse_pq_module_type k then Some (1, c)
        else if k = 0 then Some (0, c)
        else do {
          (p, off, n) \<leftarrow> tune_module c k;
          d \<leftarrow> get buf 15 n;
          c0 \<leftarrow> on_ctx (\<lambda>m. put m off d) c;
          c1 \<leftarrow> on_pq (op p) c0;
          Some (0, c1)
        });
     r1 \<leftarrow> put rsp 13 (le32 err);
     r2 \<leftarrow> copy_head buf 13 r1;
     close_answer 18 c1 r2
   }"

definition tune_rd_tuning_reg :: "mem \<Rightarrow> mem \<Rightarrow> ('p, 'f) core \<Rightarrow> (int \<times> mem \<times> ('p, 'f) core) option" where
  "tune_rd_tuning_reg = rd_tuning parse_reg"

definition tune_wr_tuning_reg :: "mem \<Rightarrow> mem \<Rightarrow> ('p, 'f) core \<Rightarrow> (int \<times> mem \<times> ('p, 'f) core) option" where
  "tune_wr_tuning_reg = wr_tuning update_reg"

definition tune_rd_tuning_xml :: "mem \<Rightarrow> mem \<Rightarrow> ('p, 'f) core \<Rightarrow> (int \<times> mem \<times> ('p, 'f) core) option" where
  "tune_rd_tuning_xml = rd_tuning parse_xml"

definition tune_wr_tuning_xml :: "mem \<Rightarrow> mem \<Rightarrow> ('p, 'f) core \<Rightarrow> (int \<times> mem \<times> ('p, 'f) core) option" where
  "tune_wr_tuning_xml = wr_tuning update_xml"

text \<open>\<open>tune_rd_ambient\<close>: the number is read from an array of 256 bytes that nothing initialises.\<close>

definition tune_rd_ambient :: "(nat \<Rightarrow> byte) \<Rightarrow> mem \<Rightarrow> mem \<Rightarrow> ('p, 'f) core \<Rightarrow> (int \<times> mem \<times> ('p, 'f) core) option" where
  "tune_rd_ambient g buf rsp c =
     (if \<not> fs_open SensorLight (q_fs (co_pq c)) then Some (q_errno (co_pq c), rsp, c)
      else case fs_read SensorLight 0 256 (q_fs (co_pq c)) of
        None \<Rightarrow> Some (- 1, rsp, c)
      | Some bs \<Rightarrow> do {
          tbuf \<leftarrow> put (malloc g 256) 0 bs;
          v \<leftarrow> (if bs = [] then Some 0 else atoll_in tbuf);
          r1 \<leftarrow> put rsp 13 (le32 (nat (v mod 4294967296)));
          r2 \<leftarrow> copy_head buf 13 r1;
          close_answer 18 c r2
        })"

section \<open>The library\<close>

text \<open>Without a core every command answers nothing.\<close>

definition pq_cmd :: "(mem \<Rightarrow> mem \<Rightarrow> ('p, 'f) core \<Rightarrow> (int \<times> mem \<times> ('p, 'f) core) option)
    \<Rightarrow> ('p, 'f) core option cb_io \<Rightarrow> nat \<Rightarrow> nat \<Rightarrow> (int \<times> ('p, 'f) core option cb_io) option" where
  "pq_cmd f io len rsplen =
     (case cb_env io of
        None \<Rightarrow> Some (0, io)
      | Some c \<Rightarrow> do { (n, rsp, c') \<leftarrow> f (cb_buf io) (cb_rsp io) c; Some (n, io\<lparr>cb_rsp := rsp, cb_env := Some c'\<rparr>) })"

type_synonym ('p, 'f) pq_callback =
  "('p, 'f) core option cb_io \<Rightarrow> nat \<Rightarrow> nat \<Rightarrow> (int \<times> ('p, 'f) core option cb_io) option"

definition pq_cmd_connect :: "('p, 'f) pq_callback" where "pq_cmd_connect = pq_cmd tune_connect"
definition pq_cmd_rgb_pattern :: "('p, 'f) pq_callback" where "pq_cmd_rgb_pattern = pq_cmd tune_rgb_pattern"
definition pq_cmd_read_regs :: "(nat \<Rightarrow> byte) \<Rightarrow> ('p, 'f) pq_callback" where "pq_cmd_read_regs g = pq_cmd (tune_read_regs g)"
definition pq_cmd_write_regs :: "('p, 'f) pq_callback" where "pq_cmd_write_regs = pq_cmd tune_write_regs"
definition pq_cmd_start_read_cfg :: "('p, 'f) pq_callback" where "pq_cmd_start_read_cfg = pq_cmd tune_start_read_cfg"
definition pq_cmd_midst_read_cfg :: "('p, 'f) pq_callback" where "pq_cmd_midst_read_cfg = pq_cmd tune_midst_read_cfg"
definition pq_cmd_end_read_cfg :: "('p, 'f) pq_callback" where "pq_cmd_end_read_cfg = pq_cmd tune_end_read_cfg"
definition pq_cmd_start_write_cfg :: "('p, 'f) pq_callback" where "pq_cmd_start_write_cfg = pq_cmd tune_start_write_cfg"
definition pq_cmd_midst_write_cfg :: "('p, 'f) pq_callback" where "pq_cmd_midst_write_cfg = pq_cmd tune_midst_write_cfg"
definition pq_cmd_end_write_cfg :: "('p, 'f) pq_callback" where "pq_cmd_end_write_cfg = pq_cmd tune_end_write_cfg"
definition pq_cmd_rd_tuning_reg :: "('p, 'f) pq_callback" where "pq_cmd_rd_tuning_reg = pq_cmd tune_rd_tuning_reg"
definition pq_cmd_wr_tuning_reg :: "('p, 'f) pq_callback" where "pq_cmd_wr_tuning_reg = pq_cmd tune_wr_tuning_reg"
definition pq_cmd_rd_tuning_xml :: "('p, 'f) pq_callback" where "pq_cmd_rd_tuning_xml = pq_cmd tune_rd_tuning_xml"
definition pq_cmd_wr_tuning_xml :: "('p, 'f) pq_callback" where "pq_cmd_wr_tuning_xml = pq_cmd tune_wr_tuning_xml"
definition pq_cmd_rd_ambient :: "(nat \<Rightarrow> byte) \<Rightarrow> ('p, 'f) pq_callback" where "pq_cmd_rd_ambient g = pq_cmd (tune_rd_ambient g)"

definition pq_create_TuneCore :: "'f libxml \<Rightarrow> (nat \<Rightarrow> byte) \<Rightarrow> ('p, 'f) pq \<Rightarrow> byte list \<Rightarrow> ('p, 'f) core option" where
  "pq_create_TuneCore L g s version =
     (if strneq 13 version (cs ''dpu-lite-r2p0'') then Some (PQTuneCoreLiteR2p0 L g s)
      else if strneq 8 version (cs ''dpu-r2p0'') then Some (PQTuneCore L g s)
      else if strneq 8 version (cs ''dpu-r3p0'') then Some (PQTuneCoreR3p0 L g s)
      else if strneq 8 version (cs ''dpu-r4p0'') then Some (PQTuneCoreR4p0 L g s)
      else None)"

text \<open>The version is read into an array of twenty zeros; a failing read leaves them.\<close>

definition pq_adapt_dpu_core :: "'f libxml \<Rightarrow> (nat \<Rightarrow> byte) \<Rightarrow> ('p, 'f) pq \<Rightarrow> (int \<times> ('p, 'f) core option) option" where
  "pq_adapt_dpu_core L g s =
     (if \<not> fs_open DpuVersion (q_fs s) then Some (q_errno s, None)
      else do {
        version \<leftarrow> put (replicate 20 0) 0 (case fs_read DpuVersion 0 20 (q_fs s) of None \<Rightarrow> [] | Some bs \<Rightarrow> bs);
        Some (0, pq_create_TuneCore L g s version)
      })"

text \<open>The fifteen entries of \<open>register_this_module_ext\<close>; when the version cannot be read, array and count
  stay as they are.\<close>

definition pq_functions :: "(nat \<Rightarrow> byte) \<Rightarrow> ('p, 'f) pq_callback list" where
  "pq_functions g = [pq_cmd_connect, pq_cmd_rgb_pattern, pq_cmd_read_regs g, pq_cmd_write_regs, pq_cmd_start_read_cfg,
     pq_cmd_midst_read_cfg, pq_cmd_end_read_cfg, pq_cmd_start_write_cfg, pq_cmd_midst_write_cfg, pq_cmd_end_write_cfg,
     pq_cmd_rd_tuning_reg, pq_cmd_wr_tuning_reg, pq_cmd_rd_tuning_xml, pq_cmd_wr_tuning_xml, pq_cmd_rd_ambient g]"

definition pq_updates :: "(nat \<Rightarrow> byte) \<Rightarrow> (('p, 'f) core option eng_callback \<Rightarrow> ('p, 'f) core option eng_callback) list" where
  "pq_updates g = map2 (\<lambda>k f c. c\<lparr>cb_type := 0x5D, cb_subtype := 1, diag_ap_cmd := of_nat k, eng_diag_func := Some f\<rparr>)
     [1..<16] (pq_functions g)"

definition register_PQTune :: "int \<Rightarrow> nat \<Rightarrow> (nat \<Rightarrow> byte) \<Rightarrow> ('p, 'f) core option eng_callback list
    \<Rightarrow> ('p, 'f) core option eng_callback list \<times> nat" where
  "register_PQTune ret num g reg =
     (if ret \<noteq> 0 then (reg, num) else fill_entries (pq_updates g) reg)"

section \<open>The block keeps its size\<close>

text \<open>What a core relies on in its parsers: no operation changes the size of the block.\<close>

definition keeps_size :: "(('p, 'f) pq \<Rightarrow> (int \<times> ('p, 'f) pq) option) \<Rightarrow> bool" where
  "keeps_size f \<longleftrightarrow> (\<forall>s r s'. f s = Some (r, s') \<longrightarrow> length (q_ctx s') = length (q_ctx s))"

locale block_parser =
  fixes p :: "('p, 'f) parser"
  assumes parse_xml_size: "keeps_size (parse_xml p)" and update_xml_size: "keeps_size (update_xml p)"
    and parse_reg_size: "keeps_size (parse_reg p)" and update_reg_size: "keeps_size (update_reg p)"
begin

lemma operations_size: "op \<in> {parse_xml, update_xml, parse_reg, update_reg} \<Longrightarrow> keeps_size (op p)"
  using parse_xml_size update_xml_size parse_reg_size update_reg_size by auto

end

lemma st_length: "st ty off w m = Some m' \<Longrightarrow> length m' = length m"
  by (auto simp: st_def dest: put_length)

lemma assigns_length: "assigns as m = Some m' \<Longrightarrow> length m' = length m"
  by (induction as arbitrary: m) (auto simp: Option.bind_eq_Some_conv dest!: st_length split: prod.splits)

lemma parse_file_size: "keeps_size (parse_file L path root err body save)"
  by (auto simp: keeps_size_def parse_file_def Let_def case_prod_beta Option.bind_eq_Some_conv dest: assigns_length
      split: option.splits if_splits)

lemma update_file_size: "keeps_size (update_file L path root err body save)"
  by (auto simp: keeps_size_def update_file_def Let_def case_prod_beta Option.bind_eq_Some_conv
      split: option.splits if_splits)

lemma reg_read_size: "reg_read path off n s = Some (r, s') \<Longrightarrow> length (q_ctx s') = length (q_ctx s)"
  by (auto simp: reg_read_def Option.bind_eq_Some_conv dest: put_length split: option.splits)

lemma reg_write_ctx [simp]: "q_ctx (reg_write path bs s) = q_ctx s"
  by (simp add: reg_write_def)

lemma reg_disable_size: "reg_disable bits s = (r, s') \<Longrightarrow> length (q_ctx s') = length (q_ctx s)"
  by (auto simp: reg_disable_def split: if_splits)

lemma write_backlight_size: "write_backlight off s = Some (r, s') \<Longrightarrow> length (q_ctx s') = length (q_ctx s)"
  by (auto simp: write_backlight_def Option.bind_eq_Some_conv split: if_splits)

lemma copy_fields_length: "copy_fields src ps dst = Some dst' \<Longrightarrow> length dst' = length dst"
  by (induction src ps dst rule: copy_fields.induct) (auto simp: Option.bind_eq_Some_conv dest: put_length)

lemma unpack_lut_length: "unpack_lut n i lut m = Some m' \<Longrightarrow> length m' = length m"
  by (induction n arbitrary: i m)
    (auto simp: Option.bind_eq_Some_conv Let_def case_prod_beta dest!: st_length)

lemma table_reg_size: "keeps_size (table_parse_reg path off n)" "keeps_size (table_update_reg path en bits off n)"
  by (auto simp: keeps_size_def table_parse_reg_def table_update_reg_def Option.bind_eq_Some_conv
      dest: reg_read_size reg_disable_size split: if_splits)

lemmas reg_sizes = reg_read_size reg_disable_size write_backlight_size put_length copy_fields_length unpack_lut_length

interpretation gamma_r2: block_parser "GammaParser L"
  by unfold_locales
    (simp_all add: GammaParser_def GammaParser_parse_xml_def GammaParser_update_xml_def parse_file_size update_file_size
      GammaParser_parse_reg_def GammaParser_update_reg_def table_reg_size)

interpretation gamma_l5: block_parser "GammaParserLiteR2p0 L"
  by unfold_locales
    (simp_all add: GammaParserLiteR2p0_def GammaParserLiteR2p0_parse_xml_def GammaParserLiteR2p0_update_xml_def parse_file_size update_file_size
      GammaParserLiteR2p0_parse_reg_def GammaParserLiteR2p0_update_reg_def table_reg_size)

lemma BldParser_regs: "keeps_size BldParser_parse_reg" "keeps_size BldParser_update_reg"
  by (auto simp: keeps_size_def BldParser_parse_reg_def BldParser_update_reg_def Option.bind_eq_Some_conv
      dest!: reg_sizes split: if_splits)

interpretation bld_r2: block_parser "BldParser L"
  by unfold_locales (simp_all add: BldParser_def BldParser_parse_xml_def BldParser_update_xml_def parse_file_size update_file_size BldParser_regs)

lemma BldParserLiteR2p0_regs: "keeps_size BldParserLiteR2p0_parse_reg" "keeps_size BldParserLiteR2p0_update_reg"
  by (auto simp: keeps_size_def BldParserLiteR2p0_parse_reg_def BldParserLiteR2p0_update_reg_def Option.bind_eq_Some_conv
      dest!: reg_sizes split: if_splits)

interpretation bld_l5: block_parser "BldParserLiteR2p0 L"
  by unfold_locales (simp_all add: BldParserLiteR2p0_def BldParserLiteR2p0_parse_xml_def BldParserLiteR2p0_update_xml_def parse_file_size update_file_size BldParserLiteR2p0_regs)

lemma CmsParser_regs: "keeps_size CmsParser_parse_reg" "keeps_size CmsParser_update_reg"
  by (auto simp: keeps_size_def CmsParser_parse_reg_def CmsParser_update_reg_def Option.bind_eq_Some_conv
      dest!: reg_sizes split: if_splits)

interpretation cms_r2: block_parser "CmsParser L"
  by unfold_locales (simp_all add: CmsParser_def CmsParser_parse_xml_def CmsParser_update_xml_def parse_file_size update_file_size CmsParser_regs)

lemma CmsParserLiteR2p0_regs: "keeps_size CmsParserLiteR2p0_parse_reg" "keeps_size CmsParserLiteR2p0_update_reg"
  by (auto simp: keeps_size_def CmsParserLiteR2p0_parse_reg_def CmsParserLiteR2p0_update_reg_def Option.bind_eq_Some_conv
      dest!: reg_sizes split: if_splits)

interpretation cms_l5: block_parser "CmsParserLiteR2p0 L"
  by unfold_locales (simp_all add: CmsParserLiteR2p0_def CmsParserLiteR2p0_parse_xml_def CmsParserLiteR2p0_update_xml_def parse_file_size update_file_size CmsParserLiteR2p0_regs)

lemma CmsParserR4p0_regs: "keeps_size CmsParserR4p0_parse_reg" "keeps_size CmsParserR4p0_update_reg"
  by (auto simp: keeps_size_def CmsParserR4p0_parse_reg_def CmsParserR4p0_update_reg_def Option.bind_eq_Some_conv
      dest!: reg_sizes split: if_splits)

interpretation cms_r4: block_parser "CmsParserR4p0 L"
  by unfold_locales (simp_all add: CmsParserR4p0_def CmsParserR4p0_parse_xml_def CmsParserR4p0_update_xml_def parse_file_size update_file_size CmsParserR4p0_regs)

lemma AbcParser_regs: "keeps_size AbcParser_parse_reg" "keeps_size AbcParser_update_reg"
  by (auto simp: keeps_size_def AbcParser_parse_reg_def AbcParser_update_reg_def Option.bind_eq_Some_conv
      dest!: reg_sizes split: if_splits)

interpretation abc_r2: block_parser "AbcParser L"
  by unfold_locales (simp_all add: AbcParser_def AbcParser_parse_xml_def AbcParser_update_xml_def parse_file_size update_file_size AbcParser_regs)

lemma AbcParserLiteR2p0_regs: "keeps_size AbcParserLiteR2p0_parse_reg" "keeps_size AbcParserLiteR2p0_update_reg"
  by (auto simp: keeps_size_def AbcParserLiteR2p0_parse_reg_def AbcParserLiteR2p0_update_reg_def Option.bind_eq_Some_conv
      dest!: reg_sizes split: if_splits)

interpretation abc_l5: block_parser "AbcParserLiteR2p0 L"
  by unfold_locales (simp_all add: AbcParserLiteR2p0_def AbcParserLiteR2p0_parse_xml_def AbcParserLiteR2p0_update_xml_def parse_file_size update_file_size AbcParserLiteR2p0_regs)

lemma AbcParserR3p0_regs: "keeps_size AbcParserR3p0_parse_reg" "keeps_size AbcParserR3p0_update_reg"
  by (auto simp: keeps_size_def AbcParserR3p0_parse_reg_def AbcParserR3p0_update_reg_def Option.bind_eq_Some_conv
      dest!: reg_sizes split: if_splits)

interpretation abc_r3: block_parser "AbcParserR3p0 L"
  by unfold_locales (simp_all add: AbcParserR3p0_def AbcParserR3p0_parse_xml_def AbcParserR3p0_update_xml_def parse_file_size update_file_size AbcParserR3p0_regs)

lemma AbcParserR4p0_regs: "keeps_size AbcParserR4p0_parse_reg" "keeps_size AbcParserR4p0_update_reg"
  by (auto simp: keeps_size_def AbcParserR4p0_parse_reg_def AbcParserR4p0_update_reg_def Option.bind_eq_Some_conv
      dest!: reg_sizes split: if_splits)

interpretation abc_r4: block_parser "AbcParserR4p0 L"
  by unfold_locales (simp_all add: AbcParserR4p0_def AbcParserR4p0_parse_xml_def AbcParserR4p0_update_xml_def parse_file_size update_file_size AbcParserR4p0_regs)

lemma HsvParser_regs: "keeps_size HsvParser_parse_reg" "keeps_size HsvParser_update_reg"
  by (auto simp: keeps_size_def HsvParser_parse_reg_def HsvParser_update_reg_def Option.bind_eq_Some_conv
      dest!: reg_sizes split: if_splits)

interpretation hsv_r4: block_parser "HsvParser L"
  by unfold_locales (simp_all add: HsvParser_def HsvParser_parse_xml_def HsvParser_update_xml_def parse_file_size update_file_size HsvParser_regs)

section \<open>Cores stay well formed\<close>

definition core_ok :: "('p, 'f) core \<Rightarrow> bool" where
  "core_ok c \<longleftrightarrow> length (q_ctx (co_pq c)) = co_tune_sizes c \<and> co_offset c \<le> co_tune_sizes c \<and> co_tune_sizes c < 4294967296 \<and>
     block_parser (co_gamma c) \<and> block_parser (co_bld c) \<and> block_parser (co_cms c) \<and> block_parser (co_abc c) \<and>
     pred_option block_parser (co_hsv c)"

text \<open>What a command never changes.\<close>

definition shape :: "('p, 'f) core \<Rightarrow> ipcore \<times> nat list \<times> ('p, 'f) parser list \<times> ('p, 'f) parser option" where
  "shape c = (co_version c, [co_tune_sizes c, co_gamma_size c, co_bld_size c, co_cms_size c, co_abc_size c, co_hsv_size c],
     [co_gamma c, co_bld c, co_cms c, co_abc c], co_hsv c)"

definition stays :: "('p, 'f) core \<Rightarrow> ('p, 'f) core \<Rightarrow> bool" where
  "stays c c' \<longleftrightarrow> (core_ok c \<longrightarrow> core_ok c' \<and> shape c' = shape c)"

definition well_typed :: "(mem \<Rightarrow> mem \<Rightarrow> ('p, 'f) core \<Rightarrow> (int \<times> mem \<times> ('p, 'f) core) option) \<Rightarrow> bool" where
  "well_typed f \<longleftrightarrow> (\<forall>buf rsp c r rsp' c'. f buf rsp c = Some (r, rsp', c') \<longrightarrow> stays c c' \<and> length rsp' = length rsp)"

lemma stays_refl [simp]: "stays c c"
  by (simp add: stays_def)

lemma stays_trans: "stays c c1 \<Longrightarrow> stays c1 c2 \<Longrightarrow> stays c c2"
  by (simp add: stays_def)

lemma stays_pq: "length (q_ctx s) = length (q_ctx (co_pq c)) \<Longrightarrow> stays c (c\<lparr>co_pq := s\<rparr>)"
  by (simp add: stays_def core_ok_def shape_def)

lemma stays_flip: "stays c c' \<Longrightarrow> stays c (c'\<lparr>co_flip_en := b\<rparr>)"
  by (auto simp: stays_def core_ok_def shape_def)

lemma stays_restart: "stays c c' \<Longrightarrow> stays c (c'\<lparr>co_offset := 0\<rparr>)"
  by (auto simp: stays_def core_ok_def shape_def)

lemma on_ctx_stays: "on_ctx f c = Some c' \<Longrightarrow> (\<And>m m'. f m = Some m' \<Longrightarrow> length m' = length m) \<Longrightarrow> stays c c'"
  by (auto simp: on_ctx_def Option.bind_eq_Some_conv intro!: stays_pq)

lemma put_ctx_stays: "on_ctx (\<lambda>m. put m off d) c = Some c' \<Longrightarrow> stays c c'"
  by (erule on_ctx_stays) (rule put_length)

lemma write_node_stays [simp]: "stays c (write_node path bs c)"
  by (simp add: write_node_def stays_pq)

lemma on_pq_stays: "on_pq f c = Some c' \<Longrightarrow> keeps_size f \<Longrightarrow> stays c c'"
  by (auto simp: on_pq_def Option.bind_eq_Some_conv keeps_size_def intro!: stays_pq)

lemma enable_length: "enable_at b off m = Some m' \<Longrightarrow> length m' = length m"
  by (auto simp: enable_at_def dest: put_length split: if_splits)

lemma enable_stays: "tune_modules_enable n c = Some c' \<Longrightarrow> stays c c'" "tune_module_enable v c = Some c' \<Longrightarrow> stays c c'"
  unfolding tune_modules_enable_def tune_module_enable_def
  by (auto elim!: on_ctx_stays simp: Option.bind_eq_Some_conv dest!: put_length enable_length)

lemma connect_status_stays: "connect_status c = Some (info, c') \<Longrightarrow> stays c c'"
  by (auto simp: connect_status_def Option.bind_eq_Some_conv dest: enable_stays split: option.splits)

text \<open>Only the lengths of answers matter.\<close>

lemma copy_head_length: "copy_head buf k rsp = Some r \<Longrightarrow> length r = length rsp"
  by (auto simp: copy_head_def Option.bind_eq_Some_conv dest: put_length)

lemma close_answer_keeps: "close_answer n c rsp = Some (k, r, c') \<Longrightarrow> c' = c \<and> length r = length rsp"
  by (auto simp: close_answer_def set_len_def Option.bind_eq_Some_conv dest!: put_length wr_length)

lemma answer_u32_keeps: "answer_u32 buf rsp v c = Some (k, r, c') \<Longrightarrow> c' = c \<and> length r = length rsp"
  by (auto simp: answer_u32_def Option.bind_eq_Some_conv dest!: close_answer_keeps put_length copy_head_length)

lemma HexStrstoInt_length: "HexStrstoInt m b i n = Some m' \<Longrightarrow> length m' = length m"
  by (induction n arbitrary: i m) (auto simp: Option.bind_eq_Some_conv dest!: put_length)

lemma print_words_length: "print_words buf i n rsp = Some r \<Longrightarrow> length r = length rsp"
  by (induction n arbitrary: i rsp) (auto simp: Option.bind_eq_Some_conv dest!: put_length)

lemmas answers_keep = close_answer_keeps answer_u32_keeps copy_head_length put_length wr_length HexStrstoInt_length print_words_length

text \<open>The parsers of a well formed core.\<close>

lemma core_parsers:
  assumes "core_ok c" and "op \<in> {parse_xml, update_xml, parse_reg, update_reg}"
  shows "p \<in> {co_gamma c, co_bld c, co_cms c, co_abc c} \<or> co_hsv c = Some p \<Longrightarrow> keeps_size (op p)"
  using assms block_parser.operations_size [OF _ assms(2)] by (auto simp: core_ok_def)

lemma parser_stays:
  assumes "on_pq (op p) c1 = Some c2" and "stays c c1" and "p \<in> {co_gamma c, co_bld c, co_cms c, co_abc c} \<or> co_hsv c = Some p"
    and "op \<in> {parse_xml, update_xml, parse_reg, update_reg}"
  shows "stays c c2"
proof (cases "core_ok c")
  case True
  then show ?thesis by (rule stays_trans [OF assms(2) on_pq_stays [OF assms(1) core_parsers [OF _ assms(4) assms(3)]]])
qed (simp add: stays_def)

lemma all_parsers_stays:
  assumes "all_parsers op c = Some c'" and op: "op \<in> {parse_xml, update_xml, parse_reg, update_reg}"
  shows "stays c c'"
proof -
  obtain c1 c2 c3 c4 h where "on_pq (op (co_abc c)) c = Some c1" "on_pq (op (co_cms c)) c1 = Some c2"
    "on_pq (op (co_bld c)) c2 = Some c3" "on_pq (op (co_gamma c)) c3 = Some c4" "co_hsv c = Some h" "on_pq (op h) c4 = Some c'"
    using assms(1) by (auto simp: all_parsers_def Option.bind_eq_Some_conv)
  note step = this
  have "stays c c1" by (rule parser_stays [OF step(1) stays_refl _ op]) simp
  then have "stays c c2" by (rule parser_stays [OF step(2) _ _ op]) simp
  then have "stays c c3" by (rule parser_stays [OF step(3) _ _ op]) simp
  then have "stays c c4" by (rule parser_stays [OF step(4) _ _ op]) simp
  then show ?thesis by (rule parser_stays [OF step(6) _ _ op]) (simp add: step(5))
qed

lemma tune_module_parser:
  "tune_module c k = Some (p, off, n) \<Longrightarrow> p \<in> {co_gamma c, co_bld c, co_cms c, co_abc c} \<or> co_hsv c = Some p"
  by (auto simp: tune_module_def split: if_splits)

lemma rd_tuning_typed:
  assumes "op \<in> {parse_xml, update_xml, parse_reg, update_reg}"
  shows "well_typed (rd_tuning op)"
  unfolding well_typed_def rd_tuning_def
  by (auto simp: Option.bind_eq_Some_conv dest!: answers_keep
      intro: parser_stays [OF _ stays_refl tune_module_parser assms] split: if_splits)

lemma wr_tuning_typed:
  assumes "op \<in> {parse_xml, update_xml, parse_reg, update_reg}"
  shows "well_typed (wr_tuning op)"
  unfolding well_typed_def wr_tuning_def
  by (auto simp: Option.bind_eq_Some_conv dest!: answers_keep
      intro: parser_stays [OF _ put_ctx_stays tune_module_parser assms] split: if_splits)

lemma fs_write_stays:
  assumes "stays c c'"
  shows "stays c (c'\<lparr>co_pq := (co_pq c')\<lparr>q_fs := fs\<rparr>\<rparr>)"
    and "stays c (c'\<lparr>co_flip_en := b, co_pq := (co_pq c')\<lparr>q_fs := fs\<rparr>\<rparr>)"
  using assms by (auto simp: stays_def core_ok_def shape_def)

lemma write_node_after: "stays c c' \<Longrightarrow> stays c (write_node path bs c')"
  by (erule stays_trans) simp

lemma connect_answer_keeps: "connect_answer buf rsp info chip c = Some (r, rsp', c') \<Longrightarrow> c' = c \<and> length rsp' = length rsp"
  by (auto simp: connect_answer_def Option.bind_eq_Some_conv dest!: answers_keep split: option.splits)

lemma tune_connect_typed: "well_typed tune_connect"
  unfolding well_typed_def tune_connect_def
  by (auto simp: Let_def Option.bind_eq_Some_conv dest!: connect_answer_keeps connect_status_stays
      intro: stays_trans [OF write_node_stays] split: if_splits option.splits)

lemma tune_rgb_pattern_typed: "well_typed tune_rgb_pattern"
  unfolding well_typed_def tune_rgb_pattern_def
  by (auto simp: Let_def case_prod_beta Option.bind_eq_Some_conv dest!: answers_keep
      intro!: fs_write_stays write_node_after stays_flip split: if_splits)

lemma tune_regs_typed: "well_typed (tune_read_regs g)" "well_typed tune_write_regs"
  unfolding well_typed_def tune_read_regs_def tune_write_regs_def
  by (auto simp: Let_def Option.bind_eq_Some_conv dest!: answers_keep
      intro: write_node_after split: if_splits option.splits)

lemma tune_read_cfg_typed: "well_typed tune_start_read_cfg" "well_typed tune_midst_read_cfg" "well_typed tune_end_read_cfg"
  unfolding well_typed_def tune_start_read_cfg_def tune_midst_read_cfg_def tune_end_read_cfg_def
  by (auto simp: Option.bind_eq_Some_conv dest!: answers_keep intro: all_parsers_stays)

lemma write_chunk_stays:
  assumes "on_ctx (\<lambda>m. put m (co_offset c) d) c = Some c'"
  shows "stays c (c'\<lparr>co_offset := (co_offset c + length d) mod 4294967296\<rparr>)"
proof -
  have "co_offset c + length d \<le> length (q_ctx (co_pq c))"
    using assms by (auto simp: on_ctx_def Option.bind_eq_Some_conv put_def split: if_splits)
  then show ?thesis
    using put_ctx_stays [OF assms] by (auto simp: stays_def core_ok_def shape_def)
qed

lemma tune_midst_write_cfg_typed: "well_typed tune_midst_write_cfg"
  unfolding well_typed_def tune_midst_write_cfg_def Let_def
proof (intro allI impI)
  fix buf rsp c r rsp' c'
  let ?n = "\<lambda>h :: msg_head. (head_len h + 4294967284) mod 4294967296"
  assume "read_head buf 1 \<bind> (\<lambda>h. get buf 13 (?n h) \<bind> (\<lambda>d. on_ctx (\<lambda>m. put m (co_offset c) d) c \<bind>
    (\<lambda>c1. answer_u32 buf rsp 0 (c1\<lparr>co_offset := (co_offset c + ?n h) mod 4294967296\<rparr>)))) = Some (r, rsp', c')"
  then obtain h d c1 where d: "get buf 13 (?n h) = Some d" and c1: "on_ctx (\<lambda>m. put m (co_offset c) d) c = Some c1"
    and a: "answer_u32 buf rsp 0 (c1\<lparr>co_offset := (co_offset c + ?n h) mod 4294967296\<rparr>) = Some (r, rsp', c')"
    by (auto simp: Option.bind_eq_Some_conv)
  then show "stays c c' \<and> length rsp' = length rsp"
    using write_chunk_stays [OF c1] get_length [OF d] answer_u32_keeps [OF a] by simp
qed

lemma tune_write_cfg_typed: "well_typed tune_start_write_cfg" "well_typed tune_end_write_cfg"
  unfolding well_typed_def tune_start_write_cfg_def tune_end_write_cfg_def
  by (auto simp: Option.bind_eq_Some_conv dest!: answers_keep intro: all_parsers_stays stays_restart [OF stays_refl]
      split: if_splits)

lemma tune_tuning_typed: "well_typed tune_rd_tuning_reg" "well_typed tune_wr_tuning_reg"
    "well_typed tune_rd_tuning_xml" "well_typed tune_wr_tuning_xml"
  unfolding tune_rd_tuning_reg_def tune_wr_tuning_reg_def tune_rd_tuning_xml_def tune_wr_tuning_xml_def
  by (auto intro: rd_tuning_typed wr_tuning_typed)

lemma tune_rd_ambient_typed: "well_typed (tune_rd_ambient g)"
  unfolding well_typed_def tune_rd_ambient_def
  by (auto simp: Option.bind_eq_Some_conv dest!: answers_keep split: if_splits option.splits)

lemmas commands_typed = tune_connect_typed tune_rgb_pattern_typed tune_regs_typed tune_read_cfg_typed tune_write_cfg_typed
  tune_midst_write_cfg_typed tune_tuning_typed tune_rd_ambient_typed

text \<open>The size of a version's block.\<close>

definition block_size :: "ipcore \<Rightarrow> nat" where
  "block_size v = (case v of DPU_R2P0 \<Rightarrow> 29388 | DPU_LITE_R2P0 \<Rightarrow> 26400 | DPU_R3P0 \<Rightarrow> 26912 | DPU_R4P0 \<Rightarrow> 39440)"

definition core_type :: "('p, 'f) core \<Rightarrow> bool" where
  "core_type c \<longleftrightarrow> core_ok c \<and> co_tune_sizes c = block_size (co_version c) \<and> (co_hsv c \<noteq> None \<longleftrightarrow> co_version c = DPU_R4P0) \<and>
     hsv_off c + (if co_version c = DPU_R4P0 then co_hsv_size c else 0) = co_tune_sizes c"

lemma core_type_stays: "core_type c \<Longrightarrow> stays c c' \<Longrightarrow> core_type c' \<and> co_version c' = co_version c"
  by (auto simp: core_type_def stays_def shape_def hsv_off_def)

lemma new_core_type:
  assumes "pq_create_TuneCore L g s version = Some c"
  shows "core_type c"
proof -
  have "core_type (PQTuneCore L g s)"
    by (simp add: core_type_def core_ok_def PQTuneCore_def block_size_def hsv_off_def new_block_def
        gamma_r2.block_parser_axioms bld_r2.block_parser_axioms cms_r2.block_parser_axioms abc_r2.block_parser_axioms)
  moreover have "core_type (PQTuneCoreLiteR2p0 L g s)" "core_type (PQTuneCoreR3p0 L g s)"
    by (simp_all add: core_type_def core_ok_def PQTuneCoreLiteR2p0_def PQTuneCoreR3p0_def block_size_def hsv_off_def new_block_def
        gamma_l5.block_parser_axioms bld_l5.block_parser_axioms cms_l5.block_parser_axioms
        abc_l5.block_parser_axioms abc_r3.block_parser_axioms)
  moreover have "core_type (PQTuneCoreR4p0 L g s)"
    by (simp add: core_type_def core_ok_def PQTuneCoreR4p0_def block_size_def hsv_off_def new_block_def
        gamma_l5.block_parser_axioms bld_l5.block_parser_axioms cms_r4.block_parser_axioms
        abc_r4.block_parser_axioms hsv_r4.block_parser_axioms)
  ultimately show ?thesis
    using assms by (auto simp: pq_create_TuneCore_def split: if_splits)
qed

text \<open>One request served by a command of the library.\<close>

inductive pq_step :: "(nat \<Rightarrow> byte) \<Rightarrow> ('p, 'f) core option \<Rightarrow> ('p, 'f) core option \<Rightarrow> bool" for g where
  pq_request: "f \<in> set (pq_functions g) \<Longrightarrow> f io len rsplen = Some (r, io') \<Longrightarrow> pq_step g (cb_env io) (cb_env io')"

inductive_cases pq_stepE: "pq_step g e e'"

lemma pq_functions_cmd:
  "f \<in> set (pq_functions g) \<Longrightarrow> \<exists>h. f = pq_cmd h \<and> well_typed h"
  unfolding pq_functions_def pq_cmd_connect_def pq_cmd_rgb_pattern_def pq_cmd_read_regs_def pq_cmd_write_regs_def
    pq_cmd_start_read_cfg_def pq_cmd_midst_read_cfg_def pq_cmd_end_read_cfg_def pq_cmd_start_write_cfg_def
    pq_cmd_midst_write_cfg_def pq_cmd_end_write_cfg_def pq_cmd_rd_tuning_reg_def pq_cmd_wr_tuning_reg_def
    pq_cmd_rd_tuning_xml_def pq_cmd_wr_tuning_xml_def pq_cmd_rd_ambient_def
  using commands_typed by auto

lemma pq_function_keeps:
  assumes "f \<in> set (pq_functions g)" and "f io len rsplen = Some (r, io')"
  shows "cb_buf io' = cb_buf io" and "length (cb_rsp io') = length (cb_rsp io)"
    and "cb_env io = Some c \<Longrightarrow> \<exists>c'. cb_env io' = Some c' \<and> stays c c'" and "cb_env io = None \<Longrightarrow> r = 0 \<and> io' = io"
  using pq_functions_cmd [OF assms(1)] assms(2)
  by (auto simp: pq_cmd_def well_typed_def Option.bind_eq_Some_conv split: option.splits)

lemma pq_steps_typed:
  assumes "(pq_step g)\<^sup>*\<^sup>* e0 e" and "e0 = Some c0" and "core_type c0"
  shows "\<exists>c. e = Some c \<and> core_type c \<and> co_version c = co_version c0"
  using assms
proof (induction rule: rtranclp_induct)
  case (step e1 e2)
  then obtain c where c: "e1 = Some c" "core_type c" "co_version c = co_version c0" by blast
  from step.hyps(2) obtain f io len rsplen r io' where "f \<in> set (pq_functions g)" "f io len rsplen = Some (r, io')"
    "e1 = cb_env io" "e2 = cb_env io'"
    by (rule pq_stepE) blast
  with c(1) obtain c' where "e2 = Some c'" "stays c c'"
    using pq_function_keeps(3) [of f g io len rsplen r io' c] by metis
  then show ?case using core_type_stays [OF c(2)] c(3) by metis
qed simp

section \<open>A configuration is transferred\<close>

text \<open>A request: flag, header, command, data and flag.\<close>

definition cfg_msg :: "msg_head \<Rightarrow> byte list \<Rightarrow> byte list \<Rightarrow> mem" where
  "cfg_msg h cmd d = 0x7E # head_bytes h @ cmd @ d @ [0x7E]"

definition cfg_head :: "msg_head \<Rightarrow> byte list \<Rightarrow> byte list \<Rightarrow> bool" where
  "cfg_head h cmd d \<longleftrightarrow> head_ok h \<and> length cmd = 4 \<and> head_len h = 12 + length d"

lemma length_cfg_msg: "length cmd = 4 \<Longrightarrow> length (cfg_msg h cmd d) = 14 + length d"
  by (simp add: cfg_msg_def MSG_HEAD_SIZE_def)

lemma cfg_msg_data:
  assumes "length cmd = 4" and "d = xs @ ys @ zs" and "off = 13 + length xs" and "n = length ys"
  shows "get (cfg_msg h cmd d) off n = Some ys"
proof -
  have "cfg_msg h cmd d = (0x7E # head_bytes h @ cmd @ xs) @ ys @ (zs @ [0x7E])" by (simp add: cfg_msg_def assms(2))
  moreover have "length (0x7E # head_bytes h @ cmd @ xs) = off" using assms(1,3) by (simp add: MSG_HEAD_SIZE_def)
  ultimately show ?thesis using get_pre [of off "0x7E # head_bytes h @ cmd @ xs" n ys] assms(4) by metis
qed

lemma cfg_msg_u32:
  assumes "length cmd = 4" and "d = xs @ le32 v @ zs" and "off = 13 + length xs" and "v < 4294967296"
  shows "get_u32 (cfg_msg h cmd d) off = Some v"
  using cfg_msg_data [OF assms(1-3), of 4] assms(4) by (simp add: get_u32_def de32_le32)

lemma put_ok:
  assumes "off + length bs \<le> length m"
  shows "\<exists>m'. put m off bs = Some m' \<and> length m' = length m \<and> get m' off (length bs) = Some bs"
proof -
  obtain m' where m': "put m off bs = Some m'" using assms by (simp add: put_def)
  then show ?thesis using put_length [OF m'] get_put [OF m'] by simp
qed

lemma close_answer_ok:
  assumes "8 \<le> n" and "n \<le> length rsp"
  shows "\<exists>r. close_answer n c rsp = Some (int n, r, c) \<and> length r = length rsp
    \<and> (\<forall>a k. 7 \<le> a \<and> a + k < n \<longrightarrow> get r a k = get rsp a k)"
proof -
  obtain r1 where r1: "put rsp 5 (le16 (n - 2)) = Some r1" "length r1 = length rsp"
    using put_ok [of 5 "le16 (n - 2)" rsp] assms by auto
  have "get (r1[n - 1 := 0x7E]) a k = get r1 a k" if "a + k < n" for a k
    using that by (simp add: get_def drop_update_swap)
  then show ?thesis
    using r1 get_put_disjoint [OF r1(1)] assms
    by (auto simp: close_answer_def set_len_def wr_def)
qed

lemma answer_u32_ok:
  assumes "13 \<le> length buf" and "18 \<le> length rsp"
  shows "\<exists>r. answer_u32 buf rsp v c = Some (18, r, c) \<and> length r = length rsp \<and> get r 13 4 = Some (le32 v)"
proof -
  obtain r1 where r1: "put rsp 0 (take 13 buf) = Some r1" "length r1 = length rsp"
    using put_ok [of 0 "take 13 buf" rsp] assms by auto
  obtain r2 where r2: "put r1 13 (le32 v) = Some r2" "length r2 = length r1" "get r2 13 4 = Some (le32 v)"
    using put_ok [of 13 "le32 v" r1] assms r1 by auto
  show ?thesis
    using r1 r2 close_answer_ok [of 18 r2 c] assms
    by (auto simp: answer_u32_def copy_head_def get_def)
qed

lemma midst_write_ok:
  assumes "cfg_head h cmd d" and "18 \<le> length rsp" and "co_offset c + length d \<le> length (q_ctx (co_pq c))"
    and "length (q_ctx (co_pq c)) < 4294967296"
  shows "\<exists>r. tune_midst_write_cfg (cfg_msg h cmd d) rsp c =
      Some (18, r, c\<lparr>co_pq := (co_pq c)\<lparr>q_ctx := overlay (co_offset c) d (q_ctx (co_pq c))\<rparr>, co_offset := co_offset c + length d\<rparr>)
    \<and> length r = length rsp"
proof -
  have h: "head_ok h" "length cmd = 4" "head_len h = 12 + length d" using assms(1) by (auto simp: cfg_head_def)
  have "read_head (cfg_msg h cmd d) 1 = Some h"
    using h(1) by (simp add: cfg_msg_def msg_simps)
  moreover have "get (cfg_msg h cmd d) 13 (length d) = Some d"
    using cfg_msg_data [OF h(2), of d "[]" d "[]"] by simp
  moreover have "head_len h < 65536" using h(1) by (simp add: head_ok_def)
  moreover obtain r where "answer_u32 (cfg_msg h cmd d) rsp 0
      (c\<lparr>co_pq := (co_pq c)\<lparr>q_ctx := overlay (co_offset c) d (q_ctx (co_pq c))\<rparr>, co_offset := co_offset c + length d\<rparr>) =
    Some (18, r, c\<lparr>co_pq := (co_pq c)\<lparr>q_ctx := overlay (co_offset c) d (q_ctx (co_pq c))\<rparr>, co_offset := co_offset c + length d\<rparr>)"
    "length r = length rsp"
    using answer_u32_ok [of "cfg_msg h cmd d" rsp] assms(2) length_cfg_msg [OF h(2)] by force
  ultimately show ?thesis
    using assms(3,4) h(3) by (simp add: tune_midst_write_cfg_def on_ctx_def overlay_put Let_def)
qed

text \<open>The pieces, sent one after the other with the same buffer for the answers.\<close>

fun send_chunks :: "(msg_head \<times> byte list \<times> byte list) list \<Rightarrow> mem \<Rightarrow> ('p, 'f) core \<Rightarrow> (mem \<times> ('p, 'f) core) option" where
  "send_chunks [] rsp c = Some (rsp, c)"
| "send_chunks ((h, cmd, d) # ms) rsp c =
     do { (_, rsp', c') \<leftarrow> tune_midst_write_cfg (cfg_msg h cmd d) rsp c; send_chunks ms rsp' c' }"

definition chunks_data :: "(msg_head \<times> byte list \<times> byte list) list \<Rightarrow> byte list" where
  "chunks_data ms = concat (map (\<lambda>(_, _, d). d) ms)"

lemma send_chunks_ok:
  assumes "\<forall>(h, cmd, d) \<in> set ms. cfg_head h cmd d" and "18 \<le> length rsp"
    and "co_offset c + length (chunks_data ms) \<le> length (q_ctx (co_pq c))" and "length (q_ctx (co_pq c)) < 4294967296"
  shows "\<exists>r. send_chunks ms rsp c = Some (r, c\<lparr>co_pq := (co_pq c)\<lparr>q_ctx := overlay (co_offset c) (chunks_data ms) (q_ctx (co_pq c))\<rparr>,
      co_offset := co_offset c + length (chunks_data ms)\<rparr>) \<and> length r = length rsp"
  using assms
proof (induction ms arbitrary: rsp c)
  case Nil
  then show ?case by (simp add: chunks_data_def overlay_inside)
next
  case (Cons m ms)
  obtain h cmd d where m: "m = (h, cmd, d)" by (cases m)
  let ?x = "overlay (co_offset c) d (q_ctx (co_pq c))"
  let ?c = "c\<lparr>co_pq := (co_pq c)\<lparr>q_ctx := ?x\<rparr>, co_offset := co_offset c + length d\<rparr>"
  have data: "chunks_data (m # ms) = d @ chunks_data ms" by (simp add: chunks_data_def m)
  have "length ?x = length (q_ctx (co_pq c))"
    using Cons.prems(3) data by (intro length_overlay) simp
  moreover obtain r where "tune_midst_write_cfg (cfg_msg h cmd d) rsp c = Some (18, r, ?c)" "length r = length rsp"
    using midst_write_ok [of h cmd d rsp c] Cons.prems data m by auto
  moreover have "overlay (co_offset c + length d) (chunks_data ms) ?x = overlay (co_offset c) (d @ chunks_data ms) (q_ctx (co_pq c))"
    using Cons.prems(3) data by (simp add: overlay_inside length_overlay) (simp add: add.commute add.left_commute)
  ultimately show ?case
    using Cons.IH [of r ?c] Cons.prems data m by (auto simp: add.assoc)
qed

lemma midst_read_ok:
  assumes "head_ok h" and "length cmd = 4" and "off + n \<le> length (q_ctx (co_pq c))" and "length (q_ctx (co_pq c)) < 4294967296"
    and "16 + n \<le> length rsp"
  shows "\<exists>r. tune_midst_read_cfg (cfg_msg h cmd (le32 n @ le32 off)) rsp c = Some (16 + int n, r, c)
    \<and> get r 15 n = get (q_ctx (co_pq c)) off n"
proof -
  let ?b = "cfg_msg h cmd (le32 n @ le32 off)" and ?d = "take n (drop off (q_ctx (co_pq c)))"
  have d: "get (q_ctx (co_pq c)) off n = Some ?d" "length ?d = n" using assms(3) by (simp_all add: get_def)
  have "get_u32 ?b 13 = Some n" "get_u32 ?b 17 = Some off"
    using cfg_msg_u32 [OF assms(2), of _ "[]" n "le32 off" 13] cfg_msg_u32 [OF assms(2), of _ "le32 n" off "[]" 17] assms(3,4)
    by simp_all
  moreover obtain r1 where r1: "put rsp 0 (take 13 ?b) = Some r1" "length r1 = length rsp"
    using put_ok [of 0 "take 13 ?b" rsp] length_cfg_msg [OF assms(2)] assms(5)
    by (cases "n < 2") (auto simp: min_def)
  moreover obtain r2 where r2: "put r1 15 ?d = Some r2" "length r2 = length r1" "get r2 15 n = Some ?d"
    using put_ok [of 15 ?d r1] r1 assms(5) d(2) by auto
  moreover obtain r3 where r3: "put r2 13 (le16 0) = Some r3" "length r3 = length r2"
    using put_ok [of 13 "le16 0" r2] r1 r2 assms(5) by auto
  moreover have "get r3 15 n = Some ?d"
    using get_put_disjoint [OF r3(1), of 15 n] r2(3) by simp
  ultimately show ?thesis
    using close_answer_ok [of "16 + n" r3 c] d length_cfg_msg [OF assms(2)] assms(5)
    by (auto simp: tune_midst_read_cfg_def copy_head_def get_def)
qed

text \<open>C26: (a configuration survives its transfer) In a core that is well formed, the command that starts a transfer answers 0
  when the size it names is that of the block; pieces of any lengths that add up to it, sent one after the other, are
  accepted, after them the whole block is the transferred data, and every later request for a part of it that
  lies inside the block and fits the answer's buffer is answered with that part.\<close>

theorem cfg_transfer:
  assumes "core_type c" and "head_ok h0" and "length cmd0 = 4" and "18 \<le> length rsp"
    and "\<forall>(h, cmd, d) \<in> set ms. cfg_head h cmd d" and "length (chunks_data ms) = co_tune_sizes c"
  shows "\<exists>rsp1 rsp2 c1 c2.
      tune_start_write_cfg (cfg_msg h0 cmd0 (le32 (co_tune_sizes c))) rsp c = Some (18, rsp1, c1) \<and> get rsp1 13 4 = Some (le32 0)
    \<and> send_chunks ms rsp1 c1 = Some (rsp2, c2) \<and> q_ctx (co_pq c2) = chunks_data ms \<and> co_offset c2 = co_tune_sizes c2
    \<and> (\<forall>h cmd n off rsp3. head_ok h \<and> length cmd = 4 \<and> off + n \<le> co_tune_sizes c \<and> 16 + n \<le> length rsp3 \<longrightarrow>
         (\<exists>r. tune_midst_read_cfg (cfg_msg h cmd (le32 n @ le32 off)) rsp3 c2 = Some (16 + int n, r, c2)
            \<and> get r 15 n = get (chunks_data ms) off n))"
proof -
  let ?N = "co_tune_sizes c" and ?c1 = "c\<lparr>co_offset := 0\<rparr>"
  have ok: "length (q_ctx (co_pq c)) = ?N" "?N < 4294967296" using assms(1) by (simp_all add: core_type_def core_ok_def)
  obtain rsp1 where r1: "tune_start_write_cfg (cfg_msg h0 cmd0 (le32 ?N)) rsp c = Some (18, rsp1, ?c1)"
    "length rsp1 = length rsp" "get rsp1 13 4 = Some (le32 0)"
    using answer_u32_ok [of "cfg_msg h0 cmd0 (le32 ?N)" rsp 0 ?c1] cfg_msg_u32 [OF assms(3), of "le32 ?N" "[]" ?N "[]" 13 h0]
      assms(4) ok(2) length_cfg_msg [OF assms(3)]
    by (auto simp: tune_start_write_cfg_def)
  let ?c2 = "c\<lparr>co_offset := ?N, co_pq := (co_pq c)\<lparr>q_ctx := chunks_data ms\<rparr>\<rparr>"
  have "overlay 0 (chunks_data ms) (q_ctx (co_pq c)) = chunks_data ms"
    using assms(6) ok(1) by (simp add: overlay_0)
  then obtain rsp2 where r2: "send_chunks ms rsp1 ?c1 = Some (rsp2, ?c2)"
    using send_chunks_ok [OF assms(5), of rsp1 ?c1] r1(2) assms(4,6) ok by auto
  have "\<exists>r. tune_midst_read_cfg (cfg_msg h cmd (le32 n @ le32 off)) rsp3 ?c2 = Some (16 + int n, r, ?c2)
      \<and> get r 15 n = get (chunks_data ms) off n"
    if "head_ok h" "length cmd = 4" "off + n \<le> ?N" "16 + n \<le> length rsp3" for h cmd n off rsp3
    using midst_read_ok [of h cmd off n ?c2 rsp3] that assms(6) ok(2) by simp
  then show ?thesis using r1 r2 by (intro exI [of _ rsp1] exI [of _ rsp2] exI [of _ ?c1] exI [of _ ?c2]) auto
qed

text \<open>A core with no files, and a transfer in one piece.\<close>

definition ex_core :: "(byte list \<Rightarrow> byte list, byte list \<Rightarrow> xnode option) core" where
  "ex_core = PQTuneCoreLiteR2p0 ex_xml (\<lambda>_. 0) (ex_pq Map.empty Map.empty [])"

lemma ex_core_type: "core_type ex_core"
  using new_core_type [of ex_xml "\<lambda>_. 0" "ex_pq Map.empty Map.empty []" "cs ''dpu-lite-r2p0''"]
  by (simp add: ex_core_def pq_create_TuneCore_def strneq_def)

lemma ex_core_size: "co_tune_sizes ex_core = 26400"
  by (simp add: ex_core_def PQTuneCoreLiteR2p0_def)

theorem cfg_transfer_witness:
  "\<exists>rsp1 rsp2 c1 c2 r. tune_start_write_cfg (cfg_msg (sample_head 16 0x5D 1) [8, 0, 0, 0] (le32 26400)) (replicate 32 0) ex_core = Some (18, rsp1, c1)
    \<and> send_chunks [(sample_head 26412 0x5D 1, [9, 0, 0, 0], replicate 26400 7)] rsp1 c1 = Some (rsp2, c2)
    \<and> tune_midst_read_cfg (cfg_msg (sample_head 20 0x5D 1) [6, 0, 0, 0] (le32 2 @ le32 26000)) (replicate 20 0) c2 = Some (18, r, c2)
    \<and> get r 15 2 = Some [7, 7]"
proof -
  have h: "head_ok (sample_head n 0x5D 1)" if "n < 65536" for n
    using that by (simp add: head_ok_def) (simp add: sample_head_def)
  have d: "chunks_data [(sample_head 26412 0x5D 1, [9, 0, 0, 0], replicate 26400 7)] = replicate 26400 7"
    by (simp add: chunks_data_def)
  have "get (replicate 26400 (7 :: byte)) 26000 2 = Some (replicate 2 7)"
    by (simp add: get_def min_def)
  then have g: "get (replicate 26400 (7 :: byte)) 26000 2 = Some [7, 7]" by (simp add: numeral_2_eq_2)
  let ?ms = "[(sample_head 26412 0x5D 1, [9, 0, 0, 0], replicate 26400 7)]"
  have p: "head_ok (sample_head 16 0x5D 1)" "length [8, 0, 0, 0 :: byte] = 4" "18 \<le> length (replicate 32 (0 :: byte))"
    "\<forall>(h, cmd, d) \<in> set ?ms. cfg_head h cmd d" "length (chunks_data ?ms) = co_tune_sizes ex_core"
    using h by (simp_all add: cfg_head_def ex_core_size chunks_data_def)
  obtain rsp1 rsp2 c1 c2 where t:
    "tune_start_write_cfg (cfg_msg (sample_head 16 0x5D 1) [8, 0, 0, 0] (le32 26400)) (replicate 32 0) ex_core = Some (18, rsp1, c1)"
    "send_chunks ?ms rsp1 c1 = Some (rsp2, c2)"
    and r: "\<forall>h cmd n off rsp3. head_ok h \<and> length cmd = 4 \<and> off + n \<le> 26400 \<and> 16 + n \<le> length rsp3 \<longrightarrow>
         (\<exists>r. tune_midst_read_cfg (cfg_msg h cmd (le32 n @ le32 off)) rsp3 c2 = Some (16 + int n, r, c2)
            \<and> get r 15 n = get (replicate 26400 7) off n)"
    using cfg_transfer [OF ex_core_type p] unfolding d ex_core_size by blast
  obtain x where "tune_midst_read_cfg (cfg_msg (sample_head 20 0x5D 1) [6, 0, 0, 0] (le32 2 @ le32 26000)) (replicate 20 0) c2 =
      Some (16 + int 2, x, c2)" "get x 15 2 = get (replicate 26400 (7 :: byte)) 26000 2"
    using r [rule_format, of "sample_head 20 0x5D 1" "[6, 0, 0, 0]" 26000 2 "replicate 20 0"] h [of 20] by auto
  then show ?thesis using t g by auto
qed

section \<open>The library in the daemon\<close>

lemma pq_callback:
  assumes "i < 15"
  shows "(pq_updates g ! i) default_callback = default_callback\<lparr>cb_type := 0x5D, cb_subtype := 1,
    diag_ap_cmd := of_nat (Suc i), eng_diag_func := Some (pq_functions g ! i)\<rparr>"
  using assms by (simp add: pq_updates_def pq_functions_def del: upt_Suc upt_rec_numeral)

lemma length_pq_updates: "length (pq_updates g) = 15"
  by (simp add: pq_updates_def pq_functions_def)

lemma pq_callbacks_at: "list_all (\<lambda>f. at_cmd (f default_callback) = []) (pq_updates g)"
  unfolding list_all_length length_pq_updates
proof (intro allI impI)
  fix i :: nat
  assume "i < 15"
  then show "at_cmd ((pq_updates g ! i) default_callback) = []"
    by (simp add: pq_callback) (simp add: default_callback_def)
qed

lemma pq_load: "mgr_load (Some [library (register_PQTune 0 num g)]) modmgr_new =
    Some (0, modmgr_new\<lparr>m_listHead := map (\<lambda>f. f default_callback) (pq_updates g), m_isLoaded := True\<rparr>)"
  by (rule library_load) (simp_all add: register_PQTune_def length_pq_updates pq_callbacks_at)

lemma word_of_small:
  assumes "a < 4294967296" and "b < 4294967296"
  shows "(word_of_nat a :: 32 word) = word_of_nat b \<longleftrightarrow> a = b"
proof
  assume "(word_of_nat a :: 32 word) = word_of_nat b"
  then have "unat (word_of_nat a :: 32 word) = unat (word_of_nat b :: 32 word)" by simp
  then show "a = b" using assms by (simp add: unat_of_nat)
qed simp

text \<open>C28: (the tuning library inside the daemon) After the library adapted itself and the daemon has loaded it, a request of type
  0x5D and subtype 1 with the command \<open>k\<close> from 1 to 15 reaches the \<open>k\<close>th function of the library, whatever its other
  fields and its data; the manager returns that function's answer and leaves the request to nobody else.\<close>

theorem pq_library_serves:
  fixes e :: "('p, 'f) core option"
  assumes "pq_adapt_dpu_core L g s = Some (ret, e)" and "ret = 0"
    and "mgr_load (Some [library (register_PQTune ret num g)]) modmgr_new = Some (r0, m)"
    and "head_ok h" and "head_type h = 0x5D" and "head_subtype h = 1" and "1 \<le> k" and "k \<le> 15"
    and "cb_buf io = cfg_msg h (le32 k) d" and "cb_env io = e"
    and "(pq_functions g ! (k - 1)) io len rsp_len = Some (r, io')" and "r \<noteq> ENG_DIAG_RET_UNSUPPORT"
  shows "processDiag m io len rsp_len = Some (r, False, io', m\<lparr>m_lpCurCB := Some (k - 1), m_lpPendingCB := None\<rparr>)"
proof -
  let ?xs = "map (\<lambda>f. f default_callback) (pq_updates g) :: ('p, 'f) core option eng_callback list"
  have m: "m_listHead m = ?xs" using assms(2,3) by (auto simp: pq_load)
  have head: "read_head (cb_buf io) 1 = Some h" using assms(4,9) by (simp add: cfg_msg_def msg_simps)
  have "cb_buf io = (0x7E # head_bytes h) @ le32 k @ (d @ [0x7E])" by (simp add: assms(9) cfg_msg_def)
  then have cmd: "get (cb_buf io) (1 + MSG_HEAD_SIZE) 4 = Some (le32 k)"
    using get_pre [of "1 + MSG_HEAD_SIZE" "0x7E # head_bytes h" 4 "le32 k" "d @ [0x7E]"] by simp
  have ty: "type_match (?xs ! i) (cb_buf io) len = Some True" if "i < 15" for i
    using head assms(5,6) that by (simp add: type_match_def length_pq_updates pq_callback)
  have da: "data_match (?xs ! i) (cb_buf io) = Some (k = Suc i)" if "i < 15" for i
    using head cmd assms(5,8) that word_of_small [of k "Suc i"]
    by (simp add: data_match_def de32_le32 length_pq_updates pq_callback)
  show ?thesis
  proof (rule library_serves [where f = "pq_functions g ! (k - 1)", OF m])
    show "list_all (\<lambda>c. at_cmd c = []) ?xs" using pq_callbacks_at [of g] by (simp add: list_all_iff)
    show "rd (cb_buf io) 7 \<noteq> None" using length_cfg_msg [of "le32 k" h d] assms(9) by (simp add: rd_def)
    show "type_match (?xs ! i) (cb_buf io) len = Some False \<or>
        type_match (?xs ! i) (cb_buf io) len = Some True \<and> data_match (?xs ! i) (cb_buf io) = Some False" if "i < k - 1" for i
      using ty da that assms(8) by simp
  qed (use ty [of "k - 1"] da [of "k - 1"] assms(7,8,11,12) in
      \<open>simp_all add: length_pq_updates pq_callback\<close>, simp_all add: default_callback_def)
qed

theorem pq_library_serves_witness:
  "\<exists>c m m' io'. pq_adapt_dpu_core ex_xml (\<lambda>_. 0) (ex_pq [DpuVersion \<mapsto> cs ''dpu-lite-r2p0''] Map.empty []) = Some (0, Some c)
    \<and> mgr_load (Some [library (register_PQTune 0 7 (\<lambda>_. 0))]) modmgr_new = Some (0, m)
    \<and> processDiag m \<lparr>cb_buf = cfg_msg (sample_head 16 0x5D 1) (le32 8) (le32 26400), cb_rsp = replicate 18 0, cb_env = Some c\<rparr> 18 18 =
        Some (18, False, io', m') \<and> m_lpCurCB m' = Some 7 \<and> get (cb_rsp io') 13 4 = Some (le32 0)"
proof -
  let ?g = "\<lambda>_ :: nat. 0 :: byte" and ?s = "ex_pq [DpuVersion \<mapsto> cs ''dpu-lite-r2p0''] Map.empty []"
  let ?c = "PQTuneCoreLiteR2p0 ex_xml ?g ?s" and ?h = "sample_head 16 0x5D 1"
  let ?b = "cfg_msg ?h (le32 8) (le32 26400)"
  let ?io = "\<lparr>cb_buf = ?b, cb_rsp = replicate 18 0, cb_env = Some ?c\<rparr>"
  have a: "pq_adapt_dpu_core ex_xml ?g ?s = Some (0, Some ?c)"
    by (simp add: pq_adapt_dpu_core_def ex_pq_def fs_open_def fs_read_def fs_content_def put_def pq_create_TuneCore_def strneq_def)
  obtain r where r: "answer_u32 ?b (replicate 18 0) 0 (?c\<lparr>co_offset := 0\<rparr>) = Some (18, r, ?c\<lparr>co_offset := 0\<rparr>)" "get r 13 4 = Some (le32 0)"
    using answer_u32_ok [of ?b "replicate 18 0" 0 "?c\<lparr>co_offset := 0\<rparr>"] length_cfg_msg [of "le32 8" ?h "le32 26400"] by auto
  have "get_u32 ?b 13 = Some 26400" "co_tune_sizes ?c = 26400"
    using cfg_msg_u32 [of "le32 8" "le32 26400" "[]" 26400 "[]" 13 ?h] by (simp_all add: PQTuneCoreLiteR2p0_def)
  then have f: "(pq_functions ?g ! (8 - 1)) ?io 18 18 = Some (18, \<lparr>cb_buf = ?b, cb_rsp = r, cb_env = Some (?c\<lparr>co_offset := 0\<rparr>)\<rparr>)"
    using r(1) by (simp add: pq_functions_def pq_cmd_start_write_cfg_def pq_cmd_def tune_start_write_cfg_def)
  have h: "head_ok ?h" "head_type ?h = 0x5D" "head_subtype ?h = 1" "1 \<le> (8 :: nat)" "(8 :: nat) \<le> 15"
    by (simp_all add: head_ok_def) (simp add: sample_head_def)+
  show ?thesis
    by (intro exI conjI, rule a, rule pq_load, rule pq_library_serves [OF a refl pq_load h _ _ f])
      (simp_all add: r(2) ENG_DIAG_RET_UNSUPPORT_def)
qed

section \<open>The resolution of the panel\<close>

lemma radix_Cons: "radix 10 (b # ds) = digit_value b * 10 ^ length ds + radix 10 ds"
proof (induction ds rule: rev_induct)
  case (snoc x xs)
  then show ?case by (simp add: radix_snoc algebra_simps flip: append_Cons)
qed (simp add: radix_def)

lemma MultTimes_power: "MultTimes base n = of_nat (base ^ n)"
  by (induction n) (simp_all add: mult.commute)

lemma panel_digits_sum:
  assumes "\<forall>b \<in> set ds. 48 \<le> unat b \<and> unat b \<le> 57"
  shows "panel_digits (pre @ before @ ds @ post) (length pre) (length before + length ds + e - 1) (length before) (length ds) acc =
    Some (acc + of_nat (radix 10 ds * 10 ^ e))"
  using assms
proof (induction ds arbitrary: before acc)
  case Nil
  then show ?case by (simp add: radix_def)
next
  case (Cons b ds)
  have at: "(pre @ before @ b # ds @ post) ! (length pre + length before) = b"
    using nth_append [of "pre @ before" "b # ds @ post"] by simp
  have d: "digit_value b = unat b - 48" "48 \<le> unat b" using Cons.prems by (simp_all add: digit_value_def)
  then have v: "of_nat (unat b) - 48 = (of_nat (digit_value b) :: 32 word)" by (simp add: of_nat_diff del: of_nat_unat)
  have r: "radix 10 (b # ds) * 10 ^ e = digit_value b * 10 ^ (length ds + e) + radix 10 ds * 10 ^ e"
    by (simp add: radix_Cons algebra_simps power_add)
  show ?case
    using Cons.IH [of "before @ [b]" "acc + of_nat (digit_value b) * MultTimes 10 (length ds + e)"] Cons.prems at
    by (simp add: rd_def v r MultTimes_power add.commute add.left_commute add.assoc del: of_nat_unat)
qed

lemma panel_loop_skip:
  assumes "\<forall>b \<in> set ds. b \<noteq> 120 \<and> b \<noteq> 10"
  shows "panel_loop (pre @ ds @ post) (length ds + k) (length pre) nx h v = panel_loop (pre @ ds @ post) k (length pre + length ds) nx h v"
  using assms
proof (induction ds arbitrary: pre)
  case (Cons b ds)
  then show ?case
    using Cons.IH [of "pre @ [b]"] by (simp add: rd_def nth_append)
qed simp

lemma plain_digits: "\<forall>b \<in> set (show_nat n). 48 \<le> unat b \<and> unat b \<le> 57" "\<forall>b \<in> set (show_nat n). b \<noteq> 120 \<and> b \<noteq> 10"
  using show_nat_digits [of n] by auto

lemma show_nat_butlast: "radix 10 (butlast (show_nat n)) = n div 10"
proof (cases "n < 10")
  case True
  then show ?thesis by (simp add: show_nat_digit radix_def)
next
  case False
  then have "show_nat n = show_nat (n div 10) @ [of_nat (48 + n mod 10)]" by (subst show_nat.simps) simp
  then show ?thesis by (simp add: radix_show_nat)
qed

text \<open>: (the resolution that is reported) For the text \<open>WxH\<close> of a panel, with the line's end, whatever follows it in the buffer,
  the reported height is \<open>H\<close>, and the reported width is \<open>W\<close> with its last digit replaced by zero.\<close>

theorem parse_panelsize_result:
  assumes "w < 4294967296" and "h < 4294967296" and "text = show_nat w @ [120] @ show_nat h @ [10]"
  shows "parse_panelsize (text @ rest) (length text) = Some (of_nat (w div 10 * 10), of_nat h)"
proof -
  let ?W = "show_nat w" and ?H = "show_nat h"
  let ?m = "?W @ [120] @ ?H @ [10] @ rest" and ?n = "length (show_nat w)" and ?k = "length (show_nat h)"
  have len: "?n \<le> 10" "?k \<le> 10" "0 < ?n" "0 < ?k"
    using show_nat_length [of w 10] show_nat_length [of h 10] assms(1,2) show_nat_not_Nil by simp_all
  have W: "?m = [] @ [] @ butlast ?W @ (last ?W # [120] @ ?H @ [10] @ rest)"
    using show_nat_not_Nil [of w] by simp
  have dw: "panel_digits ?m 0 (?n - 1) 0 (?n - 1) 0 = Some (of_nat (w div 10 * 10))"
    using panel_digits_sum [of "butlast ?W" "[]" "[]" "last ?W # [120] @ ?H @ [10] @ rest" 1 0, folded W] plain_digits(1) [of w]
    by (simp add: show_nat_butlast in_set_butlastD)
  have dh: "panel_digits ?m (Suc ?n) (?k - 1) 0 ?k 0 = Some (of_nat h)"
    using panel_digits_sum [of ?H "?W @ [120]" "[]" "[10] @ rest" 0 0] plain_digits(1) [of h]
    by (simp add: radix_show_nat)
  have at: "?m ! ?n = 120" "?m ! (Suc ?n + ?k) = 10"
    using nth_append [of "?W @ [120] @ ?H" "[10] @ rest"] by (simp_all add: nth_append)
  have "panel_loop ?m (length text) 0 0 0 0 = panel_loop ?m (Suc (?k + 1)) ?n 0 0 0"
    using panel_loop_skip [of ?W "[]" "[120] @ ?H @ [10] @ rest" "Suc (?k + 1)" 0 0 0] plain_digits(2) [of w] assms(3) by simp
  also have "\<dots> = panel_loop ?m (?k + 1) (Suc ?n) (Suc ?n) (of_nat (w div 10 * 10)) 0"
    using at(1) dw len by (simp add: rd_def)
  also have "\<dots> = panel_loop ?m 1 (Suc ?n + ?k) (Suc ?n) (of_nat (w div 10 * 10)) 0"
    using panel_loop_skip [of ?H "?W @ [120]" "[10] @ rest" 1 "Suc ?n" "of_nat (w div 10 * 10)" 0] plain_digits(2) [of h] by simp
  also have "\<dots> = Some (of_nat (w div 10 * 10), of_nat h)"
  proof -
    have i: "(Suc ?n + ?k + 255) mod 256 = ?n + ?k" using len by simp
    show ?thesis
      unfolding One_nat_def panel_loop.simps Let_def i using at(2) dh len by (simp add: rd_def)
  qed
  finally show ?thesis
    using assms(3) len by (simp add: parse_panelsize_def)
qed

theorem parse_panelsize_result_witness:
  "parse_panelsize (cs ''1176x2400'' @ [10, 0, 0]) 10 = Some (1170, 2400)"
proof -
  let ?t = "cs ''1176x2400'' @ [10]"
  have t: "?t = show_nat 1176 @ [120] @ show_nat 2400 @ [10]" by (simp add: show_nat.simps)
  have l: "length ?t = 10" and e: "cs ''1176x2400'' @ [10, 0, 0] = ?t @ [0, 0]" by simp_all
  have "parse_panelsize (?t @ [0, 0]) (length ?t) = Some (of_nat (1176 div 10 * 10), of_nat 2400)"
    by (rule parse_panelsize_result [OF _ _ t]) simp_all
  then show ?thesis unfolding l e by simp
qed

text \<open>A text that starts with the line's end, and one of 256 bytes, are never finished.\<close>

lemma panelsize_hangs: "0 < n \<Longrightarrow> parse_panelsize (10 # m) n = None" "255 < n \<Longrightarrow> parse_panelsize m n = None"
  by (cases n; simp add: parse_panelsize_def rd_def)+

text \<open>Without a parser for the 3D table, neither the start of reading a configuration nor the end of writing one is defined.\<close>

lemma cfg_needs_hsv:
  assumes "co_hsv c = None"
  shows "tune_start_read_cfg buf rsp c = None"
    and "co_offset c = co_tune_sizes c \<Longrightarrow> tune_end_write_cfg buf rsp c = None"
  using assms by (simp_all add: tune_start_read_cfg_def tune_end_write_cfg_def all_parsers_def)

end
