(* ===== verification/TsxData.thy ===== *)
theory TsxData
  imports BtWifi
begin

text \<open>
  The crystal calibration data of \<open>modules/libtsxdata/tsx_rawdata.c\<close>: the raw text of the Bluetooth calibration and
  the tables of frequencies and temperatures, kept in files and exchanged with the host by three commands.
  A buffered stream may report a failing write only when it is flushed, where the code does not look: the parameter \<open>late\<close> says
  which. The static flag of the first call, which decides on the file's permissions, is left out.
\<close>

section \<open>Streams\<close>

definition ENG_RAWDATA_DIR :: "byte list" where "ENG_RAWDATA_DIR = cs ''/mnt/vendor/productinfo/wcn''"
definition ENG_RAWDATA_FILE :: "byte list" where "ENG_RAWDATA_FILE = cs ''/mnt/vendor/productinfo/wcn/tsx_bt_data.txt''"
definition ENG_TXDATA_FILE :: "byte list" where "ENG_TXDATA_FILE = cs ''/mnt/vendor/txdata.txt''"
definition ENG_TXDATA_BK_FILE :: "byte list" where "ENG_TXDATA_BK_FILE = cs ''/mnt/vendor/tsx.dat''"

text \<open>\<open>fopen(p, "w+")\<close>, \<open>fwrite\<close> of all bytes and \<open>fclose\<close>: the number of bytes that were reported as written.\<close>

definition stream_write :: "bool \<Rightarrow> byte list \<Rightarrow> byte list \<Rightarrow> 'p fsys \<Rightarrow> (nat \<times> 'p fsys) option" where
  "stream_write late p bs s = do {
     s1 \<leftarrow> fs_creat p s;
     (let (n, s2) = fs_write p 0 bs s1 in Some (if late then length bs else nat n, s2))
   }"

text \<open>\<open>fopen(p, "r")\<close> and \<open>fread\<close>: the bytes read, none after an error.\<close>

definition stream_read :: "byte list \<Rightarrow> nat \<Rightarrow> 'p fsys \<Rightarrow> byte list" where
  "stream_read p n s = (case fs_read p 0 n s of None \<Rightarrow> [] | Some bs \<Rightarrow> bs)"

definition get32 :: "mem \<Rightarrow> nat \<Rightarrow> nat option" where
  "get32 m off = map_option de32 (get m off 4)"

section \<open>The raw data\<close>

definition make_dir :: "byte list \<Rightarrow> 'p fsys \<Rightarrow> 'p fsys option" where
  "make_dir p s = (if fs_exists p s then Some s else fs_creat p s)"

definition write_tsx_rawdata :: "bool \<Rightarrow> byte list \<Rightarrow> 'p fsys \<Rightarrow> int \<times> 'p fsys" where
  "write_tsx_rawdata late bs s =
     (case make_dir ENG_RAWDATA_DIR s of
        None \<Rightarrow> (- 1, s)
      | Some s1 \<Rightarrow>
          (case stream_write late ENG_RAWDATA_FILE bs s1 of
             None \<Rightarrow> (- 1, s1)
           | Some (n, s2) \<Rightarrow> (if n \<noteq> length bs then - 1 else 0, s2)))"

text \<open>When the file does not exist, the result is the variable \<open>rcount\<close>, which nothing has set: \<open>u\<close>.\<close>

definition read_tsx_rawdata :: "int \<Rightarrow> nat \<Rightarrow> 'p fsys \<Rightarrow> int \<times> byte list" where
  "read_tsx_rawdata u n s =
     (if \<not> fs_exists ENG_RAWDATA_FILE s then (u, [])
      else if \<not> fs_open ENG_RAWDATA_FILE s then (- 1, [])
      else (let bs = stream_read ENG_RAWDATA_FILE n s in (int (length bs), bs)))"

text \<open>The header of 16 bytes behind the message header: command, length, subcommand at 13, status at 17, data length at 21.\<close>

definition raw_answer :: "nat \<Rightarrow> byte list \<Rightarrow> mem \<Rightarrow> (int \<times> mem) option" where
  "raw_answer status d rsp = do {
     r1 \<leftarrow> put rsp 17 (le32 status);
     r2 \<leftarrow> set_len r1 1 (24 + length d);
     r3 \<leftarrow> put r2 21 (le32 (length d));
     r4 \<leftarrow> put r3 25 d;
     r5 \<leftarrow> wr r4 (25 + length d) 0x7E;
     Some (int (26 + length d), r5)
   }"

definition tsx_rawdata_rw_handler :: "bool \<Rightarrow> int \<Rightarrow> mem \<Rightarrow> mem \<Rightarrow> nat \<Rightarrow> 'p fsys \<Rightarrow> (int \<times> mem \<times> 'p fsys) option" where
  "tsx_rawdata_rw_handler late u buf rsp rsplen s = do {
     r0 \<leftarrow> put rsp 0 (replicate rsplen 0);
     h \<leftarrow> get buf 0 25;
     r1 \<leftarrow> put r0 0 h;
     sub \<leftarrow> get32 buf 13;
     (if sub = 0 then do {
        n \<leftarrow> get32 buf 21;
        d \<leftarrow> get buf 25 n;
        (let (ret, s') = write_tsx_rawdata late d s in do {
           (k, r) \<leftarrow> raw_answer (if ret = 0 then 0 else 1) [] r1;
           Some (k, r, s')
         })
      }
      else if sub = 1 then
        (let (ret, d) = read_tsx_rawdata u 256 s in do {
           (k, r) \<leftarrow> (if 0 < ret \<and> ret < 256 then raw_answer 0 (take (nat ret) (d @ replicate 256 0)) r1 else raw_answer 1 [] r1);
           Some (k, r, s)
         })
      else do { hd \<leftarrow> read_head r1 1; Some (int (head_len hd) + 2, r1, s) })
   }"

section \<open>The tables\<close>

text \<open>Both commands are one code with other sizes: \<open>k\<close> entries of \<open>w\<close> bytes. Reading stores what there is and fails without
  a whole entry.\<close>

definition read_tsx_values :: "nat \<Rightarrow> nat \<Rightarrow> mem \<Rightarrow> 'p fsys \<Rightarrow> (int \<times> mem) option" where
  "read_tsx_values k w m s =
     (if \<not> fs_open ENG_TXDATA_FILE s then Some (- 1, m)
      else (let bs = stream_read ENG_TXDATA_FILE (k * w) s in do {
              m' \<leftarrow> put m 8 bs;
              Some (if length bs div w = 0 then - 1 else 0, m')
            }))"

definition write_tsx_values :: "bool \<Rightarrow> nat \<Rightarrow> nat \<Rightarrow> byte list \<Rightarrow> 'p fsys \<Rightarrow> int \<times> 'p fsys" where
  "write_tsx_values late k w bs s =
     (case stream_write late ENG_TXDATA_FILE bs s of
        None \<Rightarrow> (- 1, s)
      | Some (n, s') \<Rightarrow> (if n div w \<noteq> k then - 1 else 0, s'))"

definition read_tsx_data :: "mem \<Rightarrow> 'p fsys \<Rightarrow> (int \<times> mem) option" where "read_tsx_data = read_tsx_values 2 8"
definition read_tsx_data_ext :: "mem \<Rightarrow> 'p fsys \<Rightarrow> (int \<times> mem) option" where "read_tsx_data_ext = read_tsx_values 4 12"
definition write_tsx_data :: "bool \<Rightarrow> byte list \<Rightarrow> 'p fsys \<Rightarrow> int \<times> 'p fsys" where "write_tsx_data late = write_tsx_values late 2 8"
definition write_tsx_data_ext :: "bool \<Rightarrow> byte list \<Rightarrow> 'p fsys \<Rightarrow> int \<times> 'p fsys" where
  "write_tsx_data_ext late = write_tsx_values late 4 12"

text \<open>The answer: message header, confirmation, and the structure of \<open>8 + k * w\<close> bytes with command, result and values.\<close>

definition tsx_answer :: "mem \<Rightarrow> mem \<Rightarrow> nat \<Rightarrow> mem \<Rightarrow> (int \<times> mem) option" where
  "tsx_answer buf rsp code body = do {
     h \<leftarrow> read_head buf 1;
     (r, n) \<leftarrow> raw_packet rsp (head_bytes (h\<lparr>head_len := 12 + length body\<rparr>) @ le16 code @ le16 (length body) @ body);
     Some (int n, r)
   }"

definition tsx_handler :: "(byte list \<Rightarrow> 'p fsys \<Rightarrow> int \<times> 'p fsys) \<Rightarrow> (mem \<Rightarrow> 'p fsys \<Rightarrow> (int \<times> mem) option) \<Rightarrow> ('p fsys \<Rightarrow> 'p fsys)
    \<Rightarrow> nat \<Rightarrow> nat \<Rightarrow> mem \<Rightarrow> mem \<Rightarrow> 'p fsys \<Rightarrow> (int \<times> mem \<times> 'p fsys) option" where
  "tsx_handler save load after_save n code buf rsp s = do {
     cmd \<leftarrow> get32 buf 13;
     (if cmd = 0 then do {
        d \<leftarrow> get buf 13 (8 + n);
        (let (ret, s') = save (drop 8 d) s;
             s'' = (if ret = 0 then after_save s' else s')
         in do {
           m \<leftarrow> put d 4 (le32 (if ret = 0 then 0 else 1));
           (r, rsp') \<leftarrow> tsx_answer buf rsp code m;
           Some (r, rsp', s'')
         })
      }
      else if cmd = 1 then do {
        (ret, m) \<leftarrow> load (replicate (8 + n) 0) s;
        m1 \<leftarrow> put m 0 (le32 1);
        m2 \<leftarrow> put m1 4 (le32 (if ret = 0 then 0 else 1));
        (r, rsp') \<leftarrow> tsx_answer buf rsp code m2;
        Some (r, rsp', s)
      }
      else do { (r, rsp') \<leftarrow> tsx_answer buf rsp code (replicate (8 + n) 0); Some (r, rsp', s) })
   }"

definition DIAG_AP_CMD_TSX_DATA :: nat where "DIAG_AP_CMD_TSX_DATA = 25"
definition DIAG_AP_CMD_TSX_DATA_EXT :: nat where "DIAG_AP_CMD_TSX_DATA_EXT = 35"

definition tsxdata_handler :: "bool \<Rightarrow> mem \<Rightarrow> mem \<Rightarrow> 'p fsys \<Rightarrow> (int \<times> mem \<times> 'p fsys) option" where
  "tsxdata_handler late = tsx_handler (write_tsx_data late) read_tsx_data (\<lambda>s. s) 16 DIAG_AP_CMD_TSX_DATA"

text \<open>After the larger table was saved, the copy of the smaller one is removed.\<close>

definition remove_backup :: "'p fsys \<Rightarrow> 'p fsys" where
  "remove_backup s = (if fs_exists ENG_TXDATA_BK_FILE s then fs_remove ENG_TXDATA_BK_FILE s else s)"

definition tsxdata_ex_handler :: "bool \<Rightarrow> mem \<Rightarrow> mem \<Rightarrow> 'p fsys \<Rightarrow> (int \<times> mem \<times> 'p fsys) option" where
  "tsxdata_ex_handler late = tsx_handler (write_tsx_data_ext late) read_tsx_data_ext remove_backup 48 DIAG_AP_CMD_TSX_DATA_EXT"

section \<open>Registration\<close>

definition tsx_cmd :: "(mem \<Rightarrow> mem \<Rightarrow> nat \<Rightarrow> 'p fsys \<Rightarrow> (int \<times> mem \<times> 'p fsys) option)
    \<Rightarrow> 'p fsys cb_io \<Rightarrow> nat \<Rightarrow> nat \<Rightarrow> (int \<times> 'p fsys cb_io) option" where
  "tsx_cmd f io len rsplen = do {
     (n, rsp, s) \<leftarrow> f (cb_buf io) (cb_rsp io) rsplen (cb_env io);
     Some (n, io\<lparr>cb_rsp := rsp, cb_env := s\<rparr>)
   }"

definition tsx_updates :: "bool \<Rightarrow> int \<Rightarrow> ('p fsys eng_callback \<Rightarrow> 'p fsys eng_callback) list" where
  "tsx_updates late u = map (\<lambda>(k, f) c. c\<lparr>cb_type := 0x62, cb_subtype := 0, diag_ap_cmd := k, eng_diag_func := Some (tsx_cmd f)\<rparr>)
     [(0x24, tsx_rawdata_rw_handler late u), (0x19, \<lambda>b r _. tsxdata_handler late b r), (0x23, \<lambda>b r _. tsxdata_ex_handler late b r)]"

definition register_tsx :: "bool \<Rightarrow> int \<Rightarrow> 'p fsys eng_callback list \<Rightarrow> 'p fsys eng_callback list \<times> nat" where
  "register_tsx late u = fill_entries (tsx_updates late u)"

section \<open>What is saved is loaded\<close>

text \<open>A file that can be created, written and read.\<close>

definition fs_fine :: "byte list \<Rightarrow> 'p fsys \<Rightarrow> bool" where
  "fs_fine p s \<longleftrightarrow> fs_may s p \<and> fs_cap s p = None \<and> \<not> fs_ioerr s p"

lemma stream_write_ok:
  assumes "fs_fine p s"
  shows "stream_write late p bs s = Some (length bs, s\<lparr>fs_data := (fs_data s)(p \<mapsto> bs)\<rparr>)"
  using assms by (simp add: stream_write_def fs_fine_def fs_creat_def fs_write_def fs_content_def overlay_0)

lemma stream_read_ok: "\<not> fs_ioerr s p \<Longrightarrow> fs_data s p = Some bs \<Longrightarrow> stream_read p n s = take n bs"
  by (simp add: stream_read_def fs_read_def fs_content_def)

lemma get32_at: "off = length pre \<Longrightarrow> get32 (pre @ le32 n @ post) off = Some (n mod 4294967296)"
  by (simp add: get32_def get_pre de32_le32)

text \<open>The commands on tables share a contract: what one saves, the other loads into the answer.\<close>

locale tsx_table =
  fixes save :: "byte list \<Rightarrow> 'p fsys \<Rightarrow> int \<times> 'p fsys" and load :: "mem \<Rightarrow> 'p fsys \<Rightarrow> (int \<times> mem) option"
    and after_save :: "'p fsys \<Rightarrow> 'p fsys" and n :: nat
  assumes saved: "fs_fine ENG_TXDATA_FILE s \<Longrightarrow> length bs = n \<Longrightarrow> \<exists>s'. save bs s = (0, s') \<and> fs_fine ENG_TXDATA_FILE (after_save s')
      \<and> (\<forall>m. n + 8 \<le> length m \<longrightarrow> load m (after_save s') = Some (0, overlay 8 bs m))"
begin

lemma save_then_load:
  assumes "fs_fine ENG_TXDATA_FILE s" and "length vals = n" and "length conf = 4" and "length conf' = 4" and "length res = 4" and "head_ok h" and "head_ok h'"
    and "22 + n \<le> length rsp" and "22 + n \<le> length rsp'" and "n < 1000"
  shows "\<exists>s'. tsx_handler save load after_save n code (0x7E # head_bytes h @ conf @ le32 0 @ res @ vals @ rest) rsp s =
        Some (22 + int n, 0x7E # head_bytes (h\<lparr>head_len := 20 + n\<rparr>) @ le16 code @ le16 (8 + n) @ le32 0 @ le32 0 @ vals @ 0x7E # drop (22 + n) rsp, s')
    \<and> tsx_handler save load after_save n code (0x7E # head_bytes h' @ conf' @ le32 1 @ rest') rsp' s' =
        Some (22 + int n, 0x7E # head_bytes (h'\<lparr>head_len := 20 + n\<rparr>) @ le16 code @ le16 (8 + n) @ le32 1 @ le32 0 @ vals @ 0x7E # drop (22 + n) rsp', s')"
proof -
  let ?b = "0x7E # head_bytes h @ conf @ le32 0 @ res @ vals @ rest" and ?b' = "0x7E # head_bytes h' @ conf' @ le32 1 @ rest'"
  obtain s' where s': "save vals s = (0, s')"
    "\<And>m. n + 8 \<le> length m \<Longrightarrow> load m (after_save s') = Some (0, overlay 8 vals m)"
    using saved [OF assms(1,2)] by blast
  have sub: "get32 ?b 13 = Some 0" "get32 ?b' 13 = Some 1"
    using get32_at [of 13 "0x7E # head_bytes h @ conf" 0 "res @ vals @ rest"] get32_at [of 13 "0x7E # head_bytes h' @ conf'" 1 rest'] assms(3,4)
    by (simp_all add: MSG_HEAD_SIZE_def)
  have d: "get ?b 13 (8 + n) = Some (le32 0 @ res @ vals)"
    using get_pre [of 13 "0x7E # head_bytes h @ conf" "8 + n" "le32 0 @ res @ vals" rest] assms(2,3,5)
    by (simp add: MSG_HEAD_SIZE_def)
  have st: "put (le32 0 @ res @ vals) 4 (le32 0) = Some (le32 0 @ le32 0 @ vals)"
    using put_append [of "le32 0" res "le32 0" vals] assms(5) by simp
  have m: "overlay 8 vals (replicate (8 + n) 0) = replicate 8 0 @ vals"
    using assms(2) by (simp add: overlay_inside)
  have "put (replicate 8 0 @ vals) 0 (le32 1) = Some (le32 1 @ replicate 4 0 @ vals)"
    "put (le32 1 @ replicate 4 0 @ vals) 4 (le32 0) = Some (le32 1 @ le32 0 @ vals)"
    using put_append [of "le32 0" "replicate 4 0" "le32 1" vals] by (simp_all add: put_def)
  moreover have ans: "tsx_answer (0x7E # head_bytes g @ x) r code m =
      Some (14 + int (length m), 0x7E # head_bytes (g\<lparr>head_len := 12 + length m\<rparr>) @ le16 code @ le16 (length m) @ m @ 0x7E # drop (14 + length m) r)"
    if "head_ok g" "14 + length m \<le> length r" for g x r m
    using that by (simp add: tsx_answer_def msg_simps raw_packet_ok MSG_HEAD_SIZE_def)
  ultimately show ?thesis
    using sub d st m s' assms(2,5-9)
    by (intro exI [of _ "after_save s'"]) (simp add: tsx_handler_def add.commute)
qed

end

interpretation tsx: tsx_table "write_tsx_data late" read_tsx_data "\<lambda>s. s" 16
  by unfold_locales
    (simp add: write_tsx_data_def read_tsx_data_def write_tsx_values_def read_tsx_values_def stream_write_ok stream_read_ok
      fs_fine_def fs_open_def overlay_put)

interpretation tsx_ext: tsx_table "write_tsx_data_ext late" read_tsx_data_ext remove_backup 48
proof
  have "ENG_TXDATA_BK_FILE \<noteq> ENG_TXDATA_FILE" by (simp add: ENG_TXDATA_BK_FILE_def ENG_TXDATA_FILE_def)
  then have b: "fs_data (remove_backup s) ENG_TXDATA_FILE = fs_data s ENG_TXDATA_FILE" "fs_may (remove_backup s) = fs_may s"
    "fs_cap (remove_backup s) = fs_cap s" "fs_ioerr (remove_backup s) = fs_ioerr s" for s :: "'p fsys"
    by (simp_all add: remove_backup_def fs_remove_def)
  fix s :: "'p fsys" and bs :: "byte list"
  assume "fs_fine ENG_TXDATA_FILE s" and "length bs = 48"
  then show "\<exists>s'. write_tsx_data_ext late bs s = (0, s') \<and> fs_fine ENG_TXDATA_FILE (remove_backup s')
      \<and> (\<forall>m. 48 + 8 \<le> length m \<longrightarrow> read_tsx_data_ext m (remove_backup s') = Some (0, overlay 8 bs m))"
    by (simp add: write_tsx_data_ext_def read_tsx_data_ext_def write_tsx_values_def read_tsx_values_def stream_write_ok stream_read_ok
        fs_fine_def fs_open_def overlay_put b)
qed

text \<open>: (tables survive) When the file can be written, both commands answer a request that saves a table with success, and the next request
  to load is answered with the same values, whether or not the stream notices failures late.\<close>

theorem tsx_tables_roundtrip:
  assumes "fs_fine ENG_TXDATA_FILE s" and "length conf = 4" and "length conf' = 4" and "length res = 4" and "head_ok h" and "head_ok h'"
    and "70 \<le> length rsp" and "70 \<le> length rsp'"
  shows "(length vals = 16 \<longrightarrow> (\<exists>s' r. tsxdata_handler late (0x7E # head_bytes h @ conf @ le32 0 @ res @ vals @ rest) rsp s = Some (38, r, s')
      \<and> tsxdata_handler late (0x7E # head_bytes h' @ conf' @ le32 1 @ rest') rsp' s' =
        Some (38, 0x7E # head_bytes (h'\<lparr>head_len := 36\<rparr>) @ le16 25 @ le16 24 @ le32 1 @ le32 0 @ vals @ 0x7E # drop 38 rsp', s')))
    \<and> (length vals = 48 \<longrightarrow> (\<exists>s' r. tsxdata_ex_handler late (0x7E # head_bytes h @ conf @ le32 0 @ res @ vals @ rest) rsp s = Some (70, r, s')
      \<and> tsxdata_ex_handler late (0x7E # head_bytes h' @ conf' @ le32 1 @ rest') rsp' s' =
        Some (70, 0x7E # head_bytes (h'\<lparr>head_len := 68\<rparr>) @ le16 35 @ le16 56 @ le32 1 @ le32 0 @ vals @ 0x7E # drop 70 rsp', s')))"
proof (intro conjI impI)
  note p = assms(2-6) and d = DIAG_AP_CMD_TSX_DATA_def DIAG_AP_CMD_TSX_DATA_EXT_def
  show "\<exists>s' r. tsxdata_handler late (0x7E # head_bytes h @ conf @ le32 0 @ res @ vals @ rest) rsp s = Some (38, r, s')
      \<and> tsxdata_handler late (0x7E # head_bytes h' @ conf' @ le32 1 @ rest') rsp' s' =
        Some (38, 0x7E # head_bytes (h'\<lparr>head_len := 36\<rparr>) @ le16 25 @ le16 24 @ le32 1 @ le32 0 @ vals @ 0x7E # drop 38 rsp', s')"
    if v: "length vals = 16"
    using tsx.save_then_load [OF assms(1) v p, where rsp = rsp and rsp' = rsp' and code = 25 and late = late and rest = rest and rest' = rest'] assms(7,8)
    by (auto simp: tsxdata_handler_def d)
  show "\<exists>s' r. tsxdata_ex_handler late (0x7E # head_bytes h @ conf @ le32 0 @ res @ vals @ rest) rsp s = Some (70, r, s')
      \<and> tsxdata_ex_handler late (0x7E # head_bytes h' @ conf' @ le32 1 @ rest') rsp' s' =
        Some (70, 0x7E # head_bytes (h'\<lparr>head_len := 68\<rparr>) @ le16 35 @ le16 56 @ le32 1 @ le32 0 @ vals @ 0x7E # drop 70 rsp', s')"
    if v: "length vals = 48"
    using tsx_ext.save_then_load [OF assms(1) v p, where rsp = rsp and rsp' = rsp' and code = 35 and late = late and rest = rest and rest' = rest'] assms(7,8)
    by (auto simp: tsxdata_ex_handler_def d)
qed

definition tsx_sample :: "(byte list \<Rightarrow> byte list) fsys" where
  "tsx_sample = \<lparr>fs_sys = sample_sys, fs_data = Map.empty, fs_may = \<lambda>p. True, fs_cap = \<lambda>p. None, fs_ioerr = \<lambda>p. False\<rparr>"

lemma tsx_sample_fine: "fs_fine p tsx_sample"
  by (simp add: fs_fine_def tsx_sample_def)

theorem tsx_tables_roundtrip_witness:
  "\<exists>s r. tsxdata_handler True (0x7E # head_bytes (sample_head 36 0x62 0) @ [0x19, 0, 0x18, 0] @ le32 0 @ le32 0 @ replicate 16 5 @ [0x7E]) (replicate 70 0) tsx_sample =
      Some (38, r, s)
    \<and> tsxdata_handler True (0x7E # head_bytes (sample_head 12 0x62 0) @ [0x19, 0, 0, 0] @ le32 1 @ [0x7E]) (replicate 70 0) s =
      Some (38, 0x7E # head_bytes (sample_head 36 0x62 0) @ le16 25 @ le16 24 @ le32 1 @ le32 0 @ replicate 16 5 @ 0x7E # replicate 32 0, s)"
proof -
  have h: "head_ok (sample_head n 0x62 0)" "(sample_head 12 0x62 0)\<lparr>head_len := 36\<rparr> = sample_head 36 0x62 0" if "n < 65536" for n
    using that by (simp_all add: head_ok_def) (simp_all add: sample_head_def)
  show ?thesis
    using tsx_tables_roundtrip [OF tsx_sample_fine, of "[0x19, 0, 0x18, 0]" "[0x19, 0, 0, 0]" "le32 0" "sample_head 36 0x62 0" "sample_head 12 0x62 0"
        "replicate 70 0" "replicate 70 0" "replicate 16 5" True "[0x7E]" "[0x7E]"] h [of 36] h [of 12]
    by auto
qed

definition raw_msg :: "msg_head \<Rightarrow> byte list \<Rightarrow> nat \<Rightarrow> nat \<Rightarrow> byte list \<Rightarrow> mem" where
  "raw_msg h c sub status d = 0x7E # head_bytes h @ c @ le32 sub @ le32 status @ le32 (length d) @ d @ [0x7E]"

lemma raw_answer_ok:
  assumes "length c = 4" and "length d < length z"
  shows "raw_answer status d (0x7E # head_bytes h @ c @ le32 sub @ le32 st @ le32 n @ z) =
    Some (26 + int (length d), raw_msg (h\<lparr>head_len := 24 + length d\<rparr>) c sub status d @ drop (Suc (length d)) z)"
proof -
  let ?h = "h\<lparr>head_len := 24 + length d\<rparr>" and ?p = "\<lambda>h. 0x7E # head_bytes h @ c @ le32 sub"
  have l: "length (?p g) = 17" for g using assms(1) by (simp add: MSG_HEAD_SIZE_def)
  have 1: "put (?p h @ le32 st @ le32 n @ z) 17 (le32 status) = Some (?p h @ le32 status @ le32 n @ z)"
    using put_append [of "le32 status" "le32 st" "?p h" "le32 n @ z"] l by simp
  have 2: "put ((?p ?h @ le32 status) @ le32 n @ z) 21 (le32 (length d)) = Some ((?p ?h @ le32 status) @ le32 (length d) @ z)"
    using put_append [of "le32 (length d)" "le32 n" "?p ?h @ le32 status" z] l by simp
  have z: "z = take (length d) z @ z ! length d # drop (Suc (length d)) z"
    using assms(2) by (simp add: id_take_nth_drop)
  have 3: "put ((?p ?h @ le32 status @ le32 (length d)) @ z) 25 d =
      Some ((?p ?h @ le32 status @ le32 (length d)) @ d @ z ! length d # drop (Suc (length d)) z)"
    using put_append [of d "take (length d) z" "?p ?h @ le32 status @ le32 (length d)" "z ! length d # drop (Suc (length d)) z"] l z assms(2)
    by simp
  have 4: "wr ((?p ?h @ le32 status @ le32 (length d) @ d) @ z ! length d # drop (Suc (length d)) z) (25 + length d) 0x7E =
      Some ((?p ?h @ le32 status @ le32 (length d) @ d) @ 0x7E # drop (Suc (length d)) z)"
  proof -
    have w: "wr (A @ b # q) (length A) y = Some (A @ y # q)" for A q :: mem and b y by (simp add: wr_def)
    have "length (?p ?h @ le32 status @ le32 (length d) @ d) = 25 + length d" using l [of ?h] by simp
    then show ?thesis using w [of "?p ?h @ le32 status @ le32 (length d) @ d"] by (simp only:)
  qed
  show ?thesis
    using 1 2 3 4 by (simp add: raw_answer_def raw_msg_def set_len_flag)
qed

lemma write_raw_ok:
  assumes "fs_fine ENG_RAWDATA_FILE s" and "fs_may s ENG_RAWDATA_DIR"
  shows "\<exists>s'. write_tsx_rawdata late d s = (0, s') \<and> fs_fine ENG_RAWDATA_FILE s' \<and> fs_data s' ENG_RAWDATA_FILE = Some d"
proof -
  have "make_dir ENG_RAWDATA_DIR s = Some (if fs_exists ENG_RAWDATA_DIR s then s else s\<lparr>fs_data := (fs_data s)(ENG_RAWDATA_DIR \<mapsto> [])\<rparr>)"
    using assms(2) by (simp add: make_dir_def fs_creat_def)
  then obtain s1 where s1: "make_dir ENG_RAWDATA_DIR s = Some s1" "fs_fine ENG_RAWDATA_FILE s1"
    using assms(1) by (simp add: fs_fine_def)
  then show ?thesis by (simp add: write_tsx_rawdata_def stream_write_ok) (simp add: fs_fine_def)
qed

lemma raw_request:
  assumes "length c = 4" and "sub < 4294967296" and "length d < 4294967296"
  shows "get (raw_msg h c sub st d @ rest) 0 25 = Some (0x7E # head_bytes h @ c @ le32 sub @ le32 st @ le32 (length d))"
    and "get32 (raw_msg h c sub st d @ rest) 13 = Some sub" and "get32 (raw_msg h c sub st d @ rest) 21 = Some (length d)"
    and "get (raw_msg h c sub st d @ rest) 25 (length d) = Some d"
proof -
  let ?p = "0x7E # head_bytes h @ c"
  have l: "length ?p = 13" using assms(1) by (simp add: MSG_HEAD_SIZE_def)
  have m: "raw_msg h c sub st d @ rest = ?p @ le32 sub @ le32 st @ le32 (length d) @ d @ 0x7E # rest" by (simp add: raw_msg_def)
  show "get (raw_msg h c sub st d @ rest) 0 25 = Some (0x7E # head_bytes h @ c @ le32 sub @ le32 st @ le32 (length d))"
    using get_pre [of 0 "[]" 25 "?p @ le32 sub @ le32 st @ le32 (length d)" "d @ 0x7E # rest"] l by (simp add: m)
  show "get32 (raw_msg h c sub st d @ rest) 13 = Some sub"
    using get32_at [of 13 ?p sub "le32 st @ le32 (length d) @ d @ 0x7E # rest"] l assms(2) by (simp add: m)
  show "get32 (raw_msg h c sub st d @ rest) 21 = Some (length d)"
    using get32_at [of 21 "?p @ le32 sub @ le32 st" "length d" "d @ 0x7E # rest"] l assms(3) by (simp add: m)
  show "get (raw_msg h c sub st d @ rest) 25 (length d) = Some d"
    using get_pre [of 25 "?p @ le32 sub @ le32 st @ le32 (length d)" "length d" d "0x7E # rest"] l by (simp add: m)
qed

lemma raw_copy:
  assumes "length c = 4" and "25 \<le> length rsp"
  shows "put (replicate (length rsp) 0) 0 (0x7E # head_bytes h @ c @ le32 sub @ le32 st @ le32 n) =
    Some (0x7E # head_bytes h @ c @ le32 sub @ le32 st @ le32 n @ replicate (length rsp - 25) 0)"
  using assms by (simp add: put_def MSG_HEAD_SIZE_def)

text \<open>: (raw data survives up to 255 bytes) A request that saves raw data is answered with success when the file can be written; the next
  request to load answers the same data when there are between 1 and 255 bytes of it, and failure otherwise.\<close>

theorem tsx_rawdata_roundtrip:
  assumes "fs_fine ENG_RAWDATA_FILE s" and "fs_may s ENG_RAWDATA_DIR" and "length c = 4" and "length c' = 4"
    and "length d < 4294967296" and "26 \<le> length rsp" and "282 \<le> length rsp'" and "length x < 4294967296"
  shows "\<exists>s'. tsx_rawdata_rw_handler late u (raw_msg h c 0 st d @ rest) rsp (length rsp) s =
        Some (26, raw_msg (h\<lparr>head_len := 24\<rparr>) c 0 0 [] @ replicate (length rsp - 26) 0, s')
    \<and> tsx_rawdata_rw_handler late u' (raw_msg h' c' 1 st' x @ rest') rsp' (length rsp') s' =
        (if 0 < length d \<and> length d < 256
         then Some (26 + int (length d), raw_msg (h'\<lparr>head_len := 24 + length d\<rparr>) c' 1 0 d @ replicate (length rsp' - 26 - length d) 0, s')
         else Some (26, raw_msg (h'\<lparr>head_len := 24\<rparr>) c' 1 1 [] @ replicate (length rsp' - 26) 0, s'))"
proof -
  obtain s' where s': "write_tsx_rawdata late d s = (0, s')" "fs_fine ENG_RAWDATA_FILE s'" "fs_data s' ENG_RAWDATA_FILE = Some d"
    using write_raw_ok [OF assms(1,2)] by blast
  have r: "read_tsx_rawdata v 256 s' = (int (min 256 (length d)), take 256 d)" for v
    using s'(2,3) by (simp add: read_tsx_rawdata_def fs_exists_def fs_open_def fs_fine_def stream_read_ok min.commute)
  have "tsx_rawdata_rw_handler late u (raw_msg h c 0 st d @ rest) rsp (length rsp) s =
      Some (26, raw_msg (h\<lparr>head_len := 24\<rparr>) c 0 0 [] @ replicate (length rsp - 26) 0, s')"
    using raw_request [OF assms(3) _ assms(5), of 0 h st rest] raw_copy [OF assms(3), of rsp h 0 st "length d"]
      raw_answer_ok [OF assms(3), of "[]" "replicate (length rsp - 25) 0" 0 h 0 st "length d"] assms(6) s'(1)
    by (simp add: tsx_rawdata_rw_handler_def put_def)
  moreover have "tsx_rawdata_rw_handler late u' (raw_msg h' c' 1 st' x @ rest') rsp' (length rsp') s' =
        (if 0 < length d \<and> length d < 256
         then Some (26 + int (length d), raw_msg (h'\<lparr>head_len := 24 + length d\<rparr>) c' 1 0 d @ replicate (length rsp' - 26 - length d) 0, s')
         else Some (26, raw_msg (h'\<lparr>head_len := 24\<rparr>) c' 1 1 [] @ replicate (length rsp' - 26) 0, s'))"
    using raw_request [OF assms(4) _ assms(8), of 1 h' st' rest'] raw_copy [OF assms(4), of rsp' h' 1 st' "length x"]
      raw_answer_ok [OF assms(4), of "[]" "replicate (length rsp' - 25) 0" 1 h' 1 st' "length x"]
      raw_answer_ok [OF assms(4), of d "replicate (length rsp' - 25) 0" 0 h' 1 st' "length x"] assms(7) r
    by (auto simp: tsx_rawdata_rw_handler_def put_def min_def)
  ultimately show ?thesis by blast
qed

theorem tsx_rawdata_roundtrip_witness:
  "\<exists>s. tsx_rawdata_rw_handler True 0 (raw_msg (sample_head 27 0x62 0) [0x24, 0, 0, 0] 0 0 [1, 2, 3]) (replicate 300 9) 300 tsx_sample =
      Some (26, raw_msg (sample_head 24 0x62 0) [0x24, 0, 0, 0] 0 0 [] @ replicate 274 0, s)
    \<and> tsx_rawdata_rw_handler True 0 (raw_msg (sample_head 24 0x62 0) [0x24, 0, 0, 0] 1 0 []) (replicate 300 9) 300 s =
      Some (29, raw_msg (sample_head 27 0x62 0) [0x24, 0, 0, 0] 1 0 [1, 2, 3] @ replicate 271 0, s)"
proof -
  have h: "(sample_head n 0x62 0)\<lparr>head_len := k\<rparr> = sample_head k 0x62 0" for n k by (simp add: sample_head_def)
  have "fs_may tsx_sample ENG_RAWDATA_DIR" by (simp add: tsx_sample_def)
  then show ?thesis
    using tsx_rawdata_roundtrip [OF tsx_sample_fine, of "[0x24, 0, 0, 0]" "[0x24, 0, 0, 0]" "[1, 2, 3]" "replicate 300 9" "replicate 300 9" "[]"
        True 0 "sample_head 27 0x62 0" 0 "[]" 0 "sample_head 24 0x62 0" 0 "[]"] h
    by simp
qed

end
