(* ===== verification/TraceDump.thy ===== *)
theory TraceDump
  imports TsxData DiagProto
begin

text \<open>
  The dump of traces (\<open>modules/libtracedump/diag_trace_dump.c\<close>): a request starts the transfer of a file, and every
  repetition of it is answered with the next piece, until a piece is shorter than the unit. The state between requests is
  static. What \<open>system\<close> does to the files is the parameter \<open>tar\<close>: whether the command succeeded, and the files afterwards;
  the content of uninitialised memory is \<open>g\<close>. Allocation succeeds. The registration of the command is commented out in the source.
\<close>

section \<open>The command\<close>

datatype ACTION_STATUS = ACTION_IDLE | ACTION_TARRING | ACTION_TARRED | ACTION_DUMPING | ACTION_DUMPED

definition TRACE_FILE :: "byte list" where "TRACE_FILE = cs ''/mnt/vendor/trace_dump_test.txt''"
definition YLOG_FILE :: "byte list" where "YLOG_FILE = cs ''/cache/ylog.tar.gz''"
definition TRACE_DUMP_UNIT_SIZE :: nat where "TRACE_DUMP_UNIT_SIZE = 4096"

text \<open>The static variables, and the files: \<open>dump_fd\<close> is a path with a position, or absent for -1 and after \<open>close\<close>.\<close>

record 'p dump =
  dump_action :: ACTION_STATUS
  dump_fd :: "(byte list \<times> nat) option"
  dump_offset :: nat
  dump_fs :: "'p fsys"

definition trace_dump_read :: "'p dump \<Rightarrow> byte list" where
  "trace_dump_read d =
     (case dump_fd d of
        None \<Rightarrow> []
      | Some (p, pos) \<Rightarrow> (case fs_read p pos TRACE_DUMP_UNIT_SIZE (dump_fs d) of None \<Rightarrow> [] | Some bs \<Rightarrow> bs))"

text \<open>The start of a transfer; \<open>None\<close> when it fails, with the files as they are then.\<close>

definition dump_start :: "('p fsys \<Rightarrow> bool \<times> 'p fsys) \<Rightarrow> nat \<Rightarrow> 'p dump \<Rightarrow> bool \<times> 'p dump" where
  "dump_start tar cmd d =
     (let (fine, fs) = (if cmd = 2 then tar (fs_remove YLOG_FILE (dump_fs d)) else (True, dump_fs d));
          p = (if cmd = 2 then YLOG_FILE else TRACE_FILE)
      in if \<not> fine then (False, d\<lparr>dump_fs := fs\<rparr>)
         else if \<not> fs_open p fs then (False, d\<lparr>dump_fs := fs, dump_fd := None\<rparr>)
         else (True, d\<lparr>dump_fs := fs, dump_fd := Some (p, 0), dump_action := ACTION_DUMPING\<rparr>))"

text \<open>The next piece. The length of the answer counts the pointer that stands for the data less one byte: three bytes too
  many, which nothing has set.\<close>

definition dump_next :: "(nat \<Rightarrow> byte) \<Rightarrow> nat \<Rightarrow> mem \<Rightarrow> mem \<Rightarrow> 'p dump \<Rightarrow> (int \<times> mem \<times> 'p dump) option" where
  "dump_next g cmd buf rsp d = do {
     h \<leftarrow> read_head buf 1;
     (let bs = trace_dump_read d;
          count = length bs;
          more = (\<not> count < TRACE_DUMP_UNIT_SIZE);
          d1 = d\<lparr>dump_offset := count, dump_fd := map_option (\<lambda>(p, pos). (p, pos + count)) (dump_fd d)\<rparr>;
          d2 = (if more then d1 else d1\<lparr>dump_action := ACTION_IDLE, dump_fd := None\<rparr>);
          ack = head_bytes (h\<lparr>head_len := 23 + count\<rparr>) @ le32 cmd @ le32 (if more then 1 else 0) @ le32 count @ bs @
            map g [20 + count..<23 + count]
      in do {
        (r, n) \<leftarrow> translate_packet rsp ack (23 + count);
        Some (int n, r, d2)
      })
   }"

definition trace_dump :: "(nat \<Rightarrow> byte) \<Rightarrow> ('p fsys \<Rightarrow> bool \<times> 'p fsys) \<Rightarrow> mem \<Rightarrow> mem \<Rightarrow> 'p dump \<Rightarrow> (int \<times> mem \<times> 'p dump) option" where
  "trace_dump g tar buf rsp d = do {
     cmd \<leftarrow> get32 buf 9;
     (if \<not> (cmd = 1 \<or> cmd = 2) then Some (0, rsp, d)
      else
        (let (fine, d1) = (if dump_action d = ACTION_IDLE then dump_start tar cmd d else (True, d)) in
         if \<not> fine then Some (0, rsp, d1)
         else if dump_action d1 = ACTION_DUMPING then dump_next g cmd buf rsp d1
         else Some (0, rsp, d1)))
   }"

section \<open>A whole transfer\<close>

text \<open>What a host reads in an answer: the status and the data, out of the message between the flags.\<close>

definition answer_piece :: "mem \<Rightarrow> nat \<Rightarrow> nat \<times> byte list" where
  "answer_piece rsp n =
     (let m = unescape (take (n - 2) (drop 1 rsp)) in (de32 (take 4 (drop 12 m)), take (de32 (take 4 (drop 16 m))) (drop 20 m)))"

text \<open>A host that repeats its request as long as the status is 1, at most \<open>k\<close> times.\<close>

fun host_dump :: "(nat \<Rightarrow> byte) \<Rightarrow> ('p fsys \<Rightarrow> bool \<times> 'p fsys) \<Rightarrow> mem \<Rightarrow> mem \<Rightarrow> nat \<Rightarrow> 'p dump \<Rightarrow> (byte list \<times> 'p dump) option" where
  "host_dump g tar buf rsp 0 d = None"
| "host_dump g tar buf rsp (Suc k) d = do {
     (n, r, d') \<leftarrow> trace_dump g tar buf rsp d;
     (if n \<le> 0 then None
      else (let (status, data) = answer_piece r (nat n) in
            if status = 1 then map_option (\<lambda>(rest, d''). (data @ rest, d'')) (host_dump g tar buf r k d')
            else Some (data, d')))
   }"

lemma answer_piece_frame:
  "answer_piece (frame a @ x) (length (frame a)) = (de32 (take 4 (drop 12 a)), take (de32 (take 4 (drop 16 a))) (drop 20 a))"
  by (simp add: answer_piece_def frame_def unescape_escape)

lemma dump_next_answer:
  assumes "head_ok h" and "8240 \<le> length rsp" and "length (trace_dump_read d) \<le> TRACE_DUMP_UNIT_SIZE" and "cmd < 4294967296"
  shows "\<exists>n r. dump_next g cmd (0x7E # head_bytes h @ body) rsp d = Some (int n, r,
      (let count = length (trace_dump_read d); d1 = d\<lparr>dump_offset := count, dump_fd := map_option (\<lambda>(p, pos). (p, pos + count)) (dump_fd d)\<rparr>
       in if count < TRACE_DUMP_UNIT_SIZE then d1\<lparr>dump_action := ACTION_IDLE, dump_fd := None\<rparr> else d1))
    \<and> 0 < n \<and> length r = length rsp
    \<and> answer_piece r n = (if length (trace_dump_read d) < TRACE_DUMP_UNIT_SIZE then 0 else 1, trace_dump_read d)"
proof -
  let ?bs = "trace_dump_read d"
  let ?c = "length ?bs"
  let ?st = "if ?c < TRACE_DUMP_UNIT_SIZE then 0 else 1 :: nat"
  obtain a where a: "a = head_bytes (h\<lparr>head_len := 23 + ?c\<rparr>) @ le32 cmd @ le32 ?st @ le32 ?c @ ?bs @ map g [20 + ?c..<23 + ?c]"
    by blast
  have c: "?c \<le> 4096" using assms(3) by (simp add: TRACE_DUMP_UNIT_SIZE_def)
  have la: "length a = 23 + ?c" by (simp add: a MSG_HEAD_SIZE_def)
  have lf: "length (frame a) \<le> 8240" "0 < length (frame a)"
    unfolding length_frame using c la nspecial_le [of a] by linarith+
  have t: "translate_packet rsp a (23 + ?c) = Some (frame a @ drop (length (frame a)) rsp, length (frame a))"
    using translate_packet_closed [of "23 + ?c" a rsp] la lf assms(2) by simp
  have p: "answer_piece (frame a @ drop (length (frame a)) rsp) (length (frame a)) = (?st, ?bs)"
    unfolding answer_piece_frame using c by (simp add: a de32_le32 MSG_HEAD_SIZE_def)
  have "dump_next g cmd (0x7E # head_bytes h @ body) rsp d = Some (int (length (frame a)), frame a @ drop (length (frame a)) rsp,
      (let d1 = d\<lparr>dump_offset := ?c, dump_fd := map_option (\<lambda>(p, pos). (p, pos + ?c)) (dump_fd d)\<rparr>
       in if ?c < TRACE_DUMP_UNIT_SIZE then d1\<lparr>dump_action := ACTION_IDLE, dump_fd := None\<rparr> else d1))"
  proof (cases "?c < TRACE_DUMP_UNIT_SIZE")
    case True
    then show ?thesis using t a assms(1) by (simp add: dump_next_def msg_simps Let_def)
  next
    case False
    then show ?thesis using t a assms(1) by (simp add: dump_next_def msg_simps Let_def)
  qed
  then show ?thesis
    using p lf assms(2) by (intro exI [of _ "length (frame a)"] exI [of _ "frame a @ drop (length (frame a)) rsp"])
      (simp add: Let_def)
qed

text \<open>A transfer under way of the file \<open>p\<close> with the content \<open>D\<close>, at the position \<open>i\<close>.\<close>

definition dumping :: "byte list \<Rightarrow> byte list \<Rightarrow> nat \<Rightarrow> 'p dump \<Rightarrow> bool" where
  "dumping p D i d \<longleftrightarrow> dump_action d = ACTION_DUMPING \<and> dump_fd d = Some (p, i) \<and> i \<le> length D
     \<and> fs_content p (dump_fs d) = D \<and> \<not> fs_ioerr (dump_fs d) p"

lemma dumping_read: "dumping p D i d \<Longrightarrow> trace_dump_read d = take TRACE_DUMP_UNIT_SIZE (drop i D)"
  by (simp add: dumping_def trace_dump_read_def fs_read_def)

lemma get32_request: "v < 4294967296 \<Longrightarrow> get32 (FLAG # head_bytes h @ le32 v @ x) 9 = Some v"
  by (simp add: get32_def get_body_flag MSG_HEAD_SIZE_def de32_le32)

lemma trace_dump_dumping:
  assumes "dump_action d = ACTION_DUMPING" and "head_ok h" and "cmd = 1 \<or> cmd = 2"
  shows "trace_dump g tar (0x7E # head_bytes h @ le32 cmd @ x) rsp d = dump_next g cmd (0x7E # head_bytes h @ le32 cmd @ x) rsp d"
  using assms get32_request [of cmd h x] by (auto simp: trace_dump_def)

text \<open>One step: the next piece arrives, and the transfer is over exactly when the piece is short.\<close>

lemma dumping_step:
  assumes "dumping p D i d" and "head_ok h" and "8240 \<le> length rsp" and "cmd = 1 \<or> cmd = 2"
  obtains n r d' where "trace_dump g tar (0x7E # head_bytes h @ le32 cmd @ x) rsp d = Some (int n, r, d')"
    and "0 < n" and "length r = length rsp"
    and "answer_piece r n = (if length D < i + TRACE_DUMP_UNIT_SIZE then 0 else 1, take TRACE_DUMP_UNIT_SIZE (drop i D))"
    and "length D < i + TRACE_DUMP_UNIT_SIZE \<Longrightarrow> dump_action d' = ACTION_IDLE \<and> dump_fd d' = None \<and> dump_fs d' = dump_fs d"
    and "\<not> length D < i + TRACE_DUMP_UNIT_SIZE \<Longrightarrow> dumping p D (i + TRACE_DUMP_UNIT_SIZE) d' \<and> dump_fs d' = dump_fs d"
proof -
  let ?c = "length (trace_dump_read d)"
  have i: "i \<le> length D" "dump_action d = ACTION_DUMPING" using assms(1) by (simp_all add: dumping_def)
  have c: "?c = min TRACE_DUMP_UNIT_SIZE (length D - i)" by (simp add: dumping_read [OF assms(1)] min.commute)
  have short: "?c < TRACE_DUMP_UNIT_SIZE \<longleftrightarrow> length D < i + TRACE_DUMP_UNIT_SIZE"
    using i(1) by (auto simp: c)
  have "cmd < 4294967296" using assms(4) by auto
  then obtain n r where *: "dump_next g cmd (0x7E # head_bytes h @ le32 cmd @ x) rsp d = Some (int n, r,
      (let count = ?c; d1 = d\<lparr>dump_offset := count, dump_fd := map_option (\<lambda>(p, pos). (p, pos + count)) (dump_fd d)\<rparr>
       in if count < TRACE_DUMP_UNIT_SIZE then d1\<lparr>dump_action := ACTION_IDLE, dump_fd := None\<rparr> else d1))"
    and n: "0 < n" and r: "length r = length rsp" and p: "answer_piece r n = (if ?c < TRACE_DUMP_UNIT_SIZE then 0 else 1, trace_dump_read d)"
    using dump_next_answer [OF assms(2,3), of d cmd g "le32 cmd @ x"] c by (metis min.cobounded1)
  show ?thesis
  proof (rule that)
    show "trace_dump g tar (0x7E # head_bytes h @ le32 cmd @ x) rsp d = Some (int n, r,
      (let count = ?c; d1 = d\<lparr>dump_offset := count, dump_fd := map_option (\<lambda>(p, pos). (p, pos + count)) (dump_fd d)\<rparr>
       in if count < TRACE_DUMP_UNIT_SIZE then d1\<lparr>dump_action := ACTION_IDLE, dump_fd := None\<rparr> else d1))"
      using trace_dump_dumping [OF i(2) assms(2,4)] * by simp
    show "answer_piece r n = (if length D < i + TRACE_DUMP_UNIT_SIZE then 0 else 1, take TRACE_DUMP_UNIT_SIZE (drop i D))"
      using p short by (simp add: dumping_read [OF assms(1)])
  qed (use n r c i assms(1) in \<open>auto simp: short Let_def dumping_def\<close>)
qed

lemma host_dump_transfer:
  assumes "dumping p D i d" and "head_ok h" and "8240 \<le> length rsp" and "cmd = 1 \<or> cmd = 2"
    and "(length D - i) div TRACE_DUMP_UNIT_SIZE < k"
  shows "\<exists>d'. host_dump g tar (0x7E # head_bytes h @ le32 cmd @ x) rsp k d = Some (drop i D, d')
      \<and> dump_action d' = ACTION_IDLE \<and> dump_fd d' = None \<and> dump_fs d' = dump_fs d"
  using assms
proof (induction k arbitrary: i d rsp)
  case 0
  then show ?case by simp
next
  case (Suc k)
  obtain n r d' where s: "trace_dump g tar (0x7E # head_bytes h @ le32 cmd @ x) rsp d = Some (int n, r, d')"
    "0 < n" "length r = length rsp"
    "answer_piece r n = (if length D < i + TRACE_DUMP_UNIT_SIZE then 0 else 1, take TRACE_DUMP_UNIT_SIZE (drop i D))"
    "length D < i + TRACE_DUMP_UNIT_SIZE \<Longrightarrow> dump_action d' = ACTION_IDLE \<and> dump_fd d' = None \<and> dump_fs d' = dump_fs d"
    "\<not> length D < i + TRACE_DUMP_UNIT_SIZE \<Longrightarrow> dumping p D (i + TRACE_DUMP_UNIT_SIZE) d' \<and> dump_fs d' = dump_fs d"
    using dumping_step [OF Suc.prems(1-4)] by blast
  show ?case
  proof (cases "length D < i + TRACE_DUMP_UNIT_SIZE")
    case True
    then show ?thesis using s by simp
  next
    case False
    have "(length D - (i + TRACE_DUMP_UNIT_SIZE)) div TRACE_DUMP_UNIT_SIZE < k"
      using Suc.prems(5) False by (simp add: TRACE_DUMP_UNIT_SIZE_def)
    then obtain d'' where "host_dump g tar (0x7E # head_bytes h @ le32 cmd @ x) r k d' = Some (drop (i + TRACE_DUMP_UNIT_SIZE) D, d'')"
      "dump_action d'' = ACTION_IDLE \<and> dump_fd d'' = None \<and> dump_fs d'' = dump_fs d'"
      using Suc.IH [of "i + TRACE_DUMP_UNIT_SIZE" d' r] Suc.prems s(3,6) False by auto
    then show ?thesis
      using s False append_take_drop_id [of TRACE_DUMP_UNIT_SIZE "drop i D"] by (simp add: add.commute)
  qed
qed

lemma fs_content_remove: "p \<noteq> q \<Longrightarrow> fs_content p (fs_remove q s) = fs_content p s"
  by (simp add: fs_content_def fs_remove_def)

text \<open>C29: (the whole log arrives) A host that asks for the log and repeats its request as long as the answers say that there is more gets the whole
  file, piece by piece, in at most one request more than the file has full pieces; afterwards the module is idle again and
  no file is open. It needs a buffer for the largest answer, and a file that can be read.\<close>

theorem host_dump_delivers:
  assumes "dump_action d = ACTION_IDLE" and "head_ok h" and "8240 \<le> length rsp"
    and "tar (fs_remove YLOG_FILE (dump_fs d)) = (True, fs)" and "fs_open YLOG_FILE fs" and "\<not> fs_ioerr fs YLOG_FILE"
    and "length (fs_content YLOG_FILE fs) div TRACE_DUMP_UNIT_SIZE < k"
  shows "\<exists>d'. host_dump g tar (0x7E # head_bytes h @ le32 2 @ x) rsp k d = Some (fs_content YLOG_FILE fs, d')
      \<and> dump_action d' = ACTION_IDLE \<and> dump_fd d' = None \<and> dump_fs d' = fs"
proof -
  let ?d = "d\<lparr>dump_fs := fs, dump_fd := Some (YLOG_FILE, 0), dump_action := ACTION_DUMPING\<rparr>"
  let ?b = "0x7E # head_bytes h @ le32 2 @ x"
  have dd: "dumping YLOG_FILE (fs_content YLOG_FILE fs) 0 ?d" using assms(6) by (simp add: dumping_def)
  have "trace_dump g tar ?b rsp d = trace_dump g tar ?b rsp ?d"
    using assms(1,2,4,5) get32_request [of 2 h x] by (simp add: trace_dump_def dump_start_def)
  then have "host_dump g tar ?b rsp k d = host_dump g tar ?b rsp k ?d" by (cases k) auto
  then show ?thesis using host_dump_transfer [OF dd assms(2,3), of 2 k g tar x] assms(7) by simp
qed

definition trace_log :: "byte list" where "trace_log = replicate 5000 0x41"
definition trace_packed :: "(byte list \<Rightarrow> byte list) fsys" where
  "trace_packed = tsx_sample\<lparr>fs_data := [YLOG_FILE \<mapsto> trace_log]\<rparr>"
definition trace_before :: "(byte list \<Rightarrow> byte list) dump" where
  "trace_before = \<lparr>dump_action = ACTION_IDLE, dump_fd = None, dump_offset = 0, dump_fs = tsx_sample\<rparr>"

theorem host_dump_delivers_witness:
  "\<exists>d'. host_dump (\<lambda>_. 0) (\<lambda>_. (True, trace_packed)) (0x7E # head_bytes (sample_head 17 0x5D 4) @ le32 2 @ [])
      (replicate 8240 0) 2 trace_before = Some (trace_log, d')
    \<and> dump_action d' = ACTION_IDLE \<and> dump_fd d' = None \<and> dump_fs d' = trace_packed"
proof -
  have "fs_content YLOG_FILE trace_packed = trace_log" "length trace_log = 5000"
    by (simp_all add: trace_packed_def trace_log_def fs_content_def)
  then show ?thesis
    using host_dump_delivers [of trace_before "sample_head 17 0x5D 4" "replicate 8240 0" "\<lambda>_. (True, trace_packed)" trace_packed 2 "\<lambda>_. 0" "[]"]
    by (simp add: trace_before_def trace_packed_def tsx_sample_def fs_open_def head_ok_def sample_head_def TRACE_DUMP_UNIT_SIZE_def)
qed
end
