(* ===== verification/Sysfs.thy ===== *)
theory Sysfs
  imports Files CLib Module
begin

text \<open>
  The device nodes that the smaller modules read and write as text. What the drivers behind the nodes do is a parameter: which
  nodes can be opened, what a read from a position gives (nothing for -1, an empty list at the end) and whether a write is
  accepted, with the state of the devices afterwards, of any type \<open>'d\<close>. The handlers are functions of the request and response
  buffers and of that state; a handler that leaves its arrays, or overflows an \<open>int\<close>, is \<open>None\<close>.
\<close>

section \<open>Nodes\<close>

record 'd nodes =
  nd_open :: "byte list \<Rightarrow> 'd \<Rightarrow> bool"
  nd_read :: "byte list \<Rightarrow> nat \<Rightarrow> nat \<Rightarrow> 'd \<Rightarrow> byte list option \<times> 'd"
  nd_write :: "byte list \<Rightarrow> byte list \<Rightarrow> 'd \<Rightarrow> bool \<times> 'd"

text \<open>\<open>strtol\<close> and \<open>atoi\<close> on an array: the number must end inside it.\<close>

definition strtol_buf :: "nat \<Rightarrow> mem \<Rightarrow> int option" where
  "strtol_buf base b =
     (let (v, rest) = strtol base (takeWhile (\<lambda>x. x \<noteq> 0) b) in
      if 0 \<in> set b \<or> (rest \<noteq> [] \<and> \<not> list_all (\<lambda>x. is_space x \<or> x = 43 \<or> x = 45) b) then Some v else None)"

definition atoi_buf :: "mem \<Rightarrow> int option" where "atoi_buf = strtol_buf 10"

lemma takeWhile_zfill:
  assumes "0 \<notin> set bs" and "length bs < n"
  shows "takeWhile (\<lambda>b. b \<noteq> 0) (zfill n bs) = bs" and "0 \<in> set (zfill n bs)"
proof -
  obtain k where k: "n - length bs = Suc k" using assms(2) by (metis Suc_diff_Suc)
  have "takeWhile (\<lambda>b. b \<noteq> 0) (bs @ 0 # replicate k 0) = bs"
    by (subst takeWhile_append2) (use assms(1) in auto)
  then show "takeWhile (\<lambda>b. b \<noteq> 0) (zfill n bs) = bs" and "0 \<in> set (zfill n bs)" by (simp_all add: zfill_def k)
qed

lemma strtol_buf_zfill:
  "0 \<notin> set bs \<Longrightarrow> length bs < n \<Longrightarrow> strtol_buf base (zfill n bs) = Some (fst (strtol base bs))"
  by (simp add: strtol_buf_def takeWhile_zfill case_prod_beta)

lemma atoi_buf_zfill: "0 \<notin> set bs \<Longrightarrow> length bs < n \<Longrightarrow> atoi_buf (zfill n bs) = Some (fst (strtol 10 bs))"
  by (simp add: atoi_buf_def strtol_buf_zfill)

text \<open>The place of a character in a string.\<close>

definition index_of :: "byte \<Rightarrow> byte list \<Rightarrow> nat option" where
  "index_of c s = (if c \<in> set s then Some (length (takeWhile (\<lambda>b. b \<noteq> c) s)) else None)"

text \<open>The number in a node, read into a cleared buffer of \<open>n\<close> bytes; 0 when nothing can be read.\<close>

definition read_number :: "'d nodes \<Rightarrow> byte list \<Rightarrow> nat \<Rightarrow> 'd \<Rightarrow> (int \<times> 'd) option" where
  "read_number nd p n d =
     (let (r, d') = nd_read nd p 0 n d in
      case r of
        None \<Rightarrow> Some (0, d')
      | Some bs \<Rightarrow> (if bs = [] then Some (0, d') else map_option (\<lambda>v. (v, d')) (atoi_buf (zfill n bs))))"

text \<open>Integers of 32 bits: the representable ones, their bytes, and the division of C.\<close>

definition int_ok :: "int \<Rightarrow> bool" where
  "int_ok i \<longleftrightarrow> - 2147483648 \<le> i \<and> i \<le> 2147483647"

definition le32i :: "int \<Rightarrow> byte list" where
  "le32i i = le32 (nat (i mod 4294967296))"

definition cdiv :: "int \<Rightarrow> int \<Rightarrow> int" where
  "cdiv a b = (if a < 0 then - (- a div b) else a div b)"

text \<open>A node that holds a line with a number.\<close>

lemma number_line:
  assumes "int_ok v" and "12 < n"
  shows "atoi_buf (zfill n (show_int v @ [10])) = Some v"
proof -
  have s: "strtol 10 (show_int v @ [10]) = (v, [10])"
    using assms(1) by (intro strtol_show_int) (simp_all add: int_ok_def digit_value_def)
  have "length (show_int v) \<le> Suc 10" using assms(1) by (intro show_int_length) (simp_all add: int_ok_def abs_if)
  moreover have "0 \<notin> set (show_int v @ [10])" using show_int_set [of 0 v] by auto
  ultimately show ?thesis using s assms(2) by (simp add: atoi_buf_zfill)
qed

lemma read_number_line:
  assumes "nd_read nd p 0 n d = (Some (show_int v @ [10]), d')" and "int_ok v" and "12 < n"
  shows "read_number nd p n d = Some (v, d')"
  using assms number_line [of v n] by (simp add: read_number_def)

text \<open>A sum of \<open>k\<close> readings, and the mean of sixteen: the sum shifted right by four.\<close>

fun sum_readings :: "('d \<Rightarrow> (int \<times> 'd) option) \<Rightarrow> nat \<Rightarrow> int \<Rightarrow> 'd \<Rightarrow> (int \<times> 'd) option" where
  "sum_readings f 0 acc d = Some (acc, d)"
| "sum_readings f (Suc k) acc d = do {
     (v, d') \<leftarrow> f d;
     (if int_ok (acc + v) then sum_readings f k (acc + v) d' else None)
   }"

definition mean16 :: "('d \<Rightarrow> (int \<times> 'd) option) \<Rightarrow> 'd \<Rightarrow> (int \<times> 'd) option" where
  "mean16 f d = do { (s, d') \<leftarrow> sum_readings f 16 0 d; Some (s div 16, d') }"

lemma sum_readings_between:
  assumes "\<And>d. good d \<Longrightarrow> \<exists>v d'. f d = Some (v, d') \<and> lo \<le> v \<and> v \<le> hi \<and> good d'" and "good d"
    and "\<And>j. j \<le> k \<Longrightarrow> int_ok (acc + int j * lo) \<and> int_ok (acc + int j * hi)"
  shows "\<exists>s d'. sum_readings f k acc d = Some (s, d') \<and> acc + int k * lo \<le> s \<and> s \<le> acc + int k * hi \<and> good d'"
  using assms(2,3)
proof (induction k arbitrary: acc d)
  case (Suc k)
  obtain v d' where f: "f d = Some (v, d')" "lo \<le> v" "v \<le> hi" "good d'" using assms(1) [OF Suc.prems(1)] by blast
  have ok: "int_ok (acc + v + int j * lo) \<and> int_ok (acc + v + int j * hi)" if "j \<le> k" for j
  proof -
    have "lo \<le> hi" using f by simp
    then have "int j * lo \<le> int j * hi" by (simp add: mult_left_mono)
    then show ?thesis using Suc.prems(2) [of "Suc j"] that f(2,3) unfolding int_ok_def by (simp add: algebra_simps)
  qed
  obtain s d'' where "sum_readings f k (acc + v) d' = Some (s, d'')" "acc + v + int k * lo \<le> s" "s \<le> acc + v + int k * hi" "good d''"
    using Suc.IH [OF f(4) ok] by blast
  then show ?case using f ok [of 0] by (auto simp: algebra_simps)
qed simp

text \<open>Readings that stay between two bounds have their mean between them.\<close>

lemma mean16_between:
  assumes "\<And>d. good d \<Longrightarrow> \<exists>v d'. f d = Some (v, d') \<and> lo \<le> v \<and> v \<le> hi \<and> good d'" and "good d"
    and "- 134217728 \<le> lo" and "lo \<le> hi" and "hi \<le> 134217727"
  shows "\<exists>m d'. mean16 f d = Some (m, d') \<and> lo \<le> m \<and> m \<le> hi \<and> good d'"
proof -
  have "int_ok (0 + int j * lo) \<and> int_ok (0 + int j * hi)" if "j \<le> 16" for j
  proof -
    have "int j * lo \<le> int j * 134217727" "int j * hi \<le> int j * 134217727" "int j * - 134217728 \<le> int j * lo" "int j * - 134217728 \<le> int j * hi"
      using assms(3-5) by (intro mult_left_mono; simp)+
    then show ?thesis using that by (simp add: int_ok_def)
  qed
  from sum_readings_between [where f = f, OF assms(1,2), of 16 0, OF _ this]
  obtain s d' where "sum_readings f 16 0 d = Some (s, d')" "16 * lo \<le> s" "s \<le> 16 * hi" "good d'" by auto
  moreover from this have "lo \<le> s div 16" "s div 16 \<le> hi" by presburger+
  ultimately show ?thesis by (simp add: mean16_def)
qed

section \<open>Numbers in base 16\<close>

text \<open>What \<open>%x\<close> prints is read back by \<open>strtol\<close> with base 16.\<close>

lemma show_hex_digits: "\<forall>b \<in> set (show_hex n). digit_value b < 16 \<and> 48 \<le> unat b \<and> unat b \<le> 102"
proof (induction n rule: show_hex.induct)
  case (1 n)
  then show ?case
    using hex_digit_range [of "n mod 16"] hex_digit_range [of n]
    by (subst show_hex.simps) (auto simp: digit_value_hex)
qed

lemma radix_show_hex: "radix 16 (show_hex n) = n"
proof (induction n rule: show_hex.induct)
  case (1 n)
  then show ?case
    by (subst show_hex.simps) (simp add: radix_snoc digit_value_hex radix_def [of 16 "[_]"])
qed

lemma show_hex_not_Nil: "show_hex n \<noteq> []"
  by (subst show_hex.simps) simp

lemma show_hex_length: "n < 16 ^ k \<Longrightarrow> 0 < k \<Longrightarrow> length (show_hex n) \<le> k"
proof (induction n arbitrary: k rule: show_hex.induct)
  case (1 n)
  show ?case
  proof (cases "n < 16")
    case True
    then show ?thesis using 1(3) by (subst show_hex.simps) simp
  next
    case False
    then obtain k' where k: "k = Suc k'" "0 < k'" using 1(2,3) by (cases k; cases "k - 1") auto
    have "n div 16 < 16 ^ k'" using 1(2) k(1) by (simp add: less_mult_imp_div_less mult.commute)
    then have "length (show_hex (n div 16)) \<le> k'" using 1(1) False k by simp
    then show ?thesis using False k by (subst show_hex.simps) simp
  qed
qed

lemma show_hex_no_prefix: "rest = [] \<or> hd rest = 10 \<Longrightarrow> \<not> hex_prefix (show_hex n @ rest)"
proof (cases "n < 16")
  case True
  assume "rest = [] \<or> hd rest = 10"
  then show ?thesis using True by (subst show_hex.simps) (auto simp: hex_prefix_def split: list.splits)
next
  case False
  obtain a s where s: "show_hex (n div 16) = a # s" using show_hex_not_Nil by (cases "show_hex (n div 16)") auto
  have e: "show_hex n = a # s @ [hex_digit (n mod 16)]" using False s by (subst show_hex.simps) simp
  have "\<forall>b \<in> set (show_hex n). b \<noteq> 120 \<and> b \<noteq> 88" using show_hex_digits [of n] by (auto simp: digit_value_def)
  then show ?thesis unfolding e by (cases s) (auto simp: hex_prefix_def split: list.splits)
qed

text \<open>A printed number, with blanks before it and a line's end behind it or nothing, is read back.\<close>

lemma strtol_show_hex:
  assumes "rest = [] \<or> hd rest = 10" and "n < 2147483648"
  shows "strtol 16 (replicate k 32 @ show_hex n @ rest) = (int n, rest)"
proof -
  obtain b bs where b: "show_hex n = b # bs" using show_hex_not_Nil by (cases "show_hex n") auto
  have d: "dropWhile is_space (replicate k 32 @ x) = dropWhile is_space x" for x
    by (induction k) (simp_all add: is_space_def)
  have s: "split_sign (replicate k 32 @ show_hex n @ rest) = (False, show_hex n @ rest)"
    using split_sign_digit [of b "bs @ rest"] show_hex_digits [of n] unfolding split_sign_def d by (simp add: b)
  have "digits_in 16 (show_hex n @ rest) = show_hex n"
    using show_hex_digits [of n] assms(1) by (intro digits_in_stop) (auto simp: digit_value_def)
  then show ?thesis
    using show_hex_no_prefix [OF assms(1), of n] assms(2)
    by (simp add: strtol_def number_at_def s show_hex_not_Nil radix_show_hex)
qed

end
