(* ===== verification/Charge.thy ===== *)
theory Charge
  imports Sysfs
begin

text \<open>
  The battery and the charger (\<open>modules/charge/charge.c\<close>): eight diag commands around the nodes of the power supply. The
  handlers change the request in place, as the code does. \<open>g\<close> is the content of uninitialised memory; allocation succeeds.
\<close>

section \<open>The nodes of the power supply\<close>

definition BATTERY_CAPACITY_PATH :: "byte list" where "BATTERY_CAPACITY_PATH = cs ''/sys/class/power_supply/battery/capacity''"
definition CHARGER_STOP_PATH_CHG :: "byte list" where "CHARGER_STOP_PATH_CHG = cs ''/sys/class/power_supply/battery/stop_charge''"
definition CHARGER_STOP_KERNEL414_PATH :: "byte list" where
  "CHARGER_STOP_KERNEL414_PATH = cs ''/sys/class/power_supply/battery/charger.0/stop_charge''"
definition BATTERY_VOL_PATH :: "byte list" where "BATTERY_VOL_PATH = cs ''/sys/class/power_supply/battery/real_time_voltage''"
definition FGU_VOL_FILE_PATH :: "byte list" where "FGU_VOL_FILE_PATH = cs ''/sys/class/power_supply/sprdfgu/fgu_vol''"
definition BATTERY_FUEL_VOL :: "byte list" where "BATTERY_FUEL_VOL = cs ''/sys/class/power_supply/battery/voltage_now''"
definition BATTERY_TEMP :: "byte list" where "BATTERY_TEMP = cs ''/sys/class/power_supply/battery/temp''"
definition FGU_CURRENT_PATH :: "byte list" where "FGU_CURRENT_PATH = cs ''/sys/class/power_supply/battery/current_now''"
definition CHARGER_INPUT_LIMIT_CURRENT :: "byte list" where
  "CHARGER_INPUT_LIMIT_CURRENT = cs ''/sys/class/power_supply/battery/input_current_limit''"
definition CHARGER_CURRENT :: "byte list" where "CHARGER_CURRENT = cs ''/sys/class/power_supply/battery/constant_charge_current''"
definition CHARGER_INPUT_LIMIT_CURRENT_K44 :: "byte list" where
  "CHARGER_INPUT_LIMIT_CURRENT_K44 = cs ''/sys/class/power_supply/battery/force_chg_cur''"
definition CHARGER_CURRENT_K44 :: "byte list" where "CHARGER_CURRENT_K44 = cs ''/sys/class/power_supply/battery/force_input_cur''"
definition ENG_DIAG_NTC_CMD :: byte where "ENG_DIAG_NTC_CMD = 0x0A"

text \<open>The charger is switched through the node of the one kernel or that of the other; without either nothing happens, and
  that counts as success.\<close>

definition stop_charge :: "'d nodes \<Rightarrow> byte \<Rightarrow> 'd \<Rightarrow> int \<times> 'd" where
  "stop_charge nd v d =
     (if nd_open nd CHARGER_STOP_PATH_CHG d then
        (let (fine, d') = nd_write nd CHARGER_STOP_PATH_CHG [v, 0] d in (if fine then 1 else 0, d'))
      else if nd_open nd CHARGER_STOP_KERNEL414_PATH d then
        (let (fine, d') = nd_write nd CHARGER_STOP_KERNEL414_PATH [v, 0] d in (if fine then 1 else 0, d'))
      else (1, d))"

definition connect_vbus_charger_chg :: "'d nodes \<Rightarrow> 'd \<Rightarrow> int \<times> 'd" where "connect_vbus_charger_chg nd = stop_charge nd 0x30"
definition disconnect_vbus_charger_chg :: "'d nodes \<Rightarrow> 'd \<Rightarrow> int \<times> 'd" where "disconnect_vbus_charger_chg nd = stop_charge nd 0x31"

text \<open>A voltage in mV from its own node, or in uV from the node of the fuel gauge.\<close>

definition voltage_of :: "byte list \<Rightarrow> 'd nodes \<Rightarrow> 'd \<Rightarrow> (int \<times> 'd) option" where
  "voltage_of p nd d =
     (if nd_open nd p d then read_number nd p 64 d
      else if nd_open nd BATTERY_FUEL_VOL d then map_option (\<lambda>(v, d'). (cdiv v 1000, d')) (read_number nd BATTERY_FUEL_VOL 64 d)
      else Some (0, d))"

definition get_aux_battery_voltage :: "'d nodes \<Rightarrow> 'd \<Rightarrow> (int \<times> 'd) option" where
  "get_aux_battery_voltage = voltage_of BATTERY_VOL_PATH"
definition get_fgu_battery_voltage :: "'d nodes \<Rightarrow> 'd \<Rightarrow> (int \<times> 'd) option" where
  "get_fgu_battery_voltage = voltage_of FGU_VOL_FILE_PATH"
definition ap_get_aux_voltage :: "'d nodes \<Rightarrow> 'd \<Rightarrow> (int \<times> 'd) option" where
  "ap_get_aux_voltage nd = mean16 (get_aux_battery_voltage nd)"
definition ap_get_fgu_voltage :: "'d nodes \<Rightarrow> 'd \<Rightarrow> (int \<times> 'd) option" where
  "ap_get_fgu_voltage nd = mean16 (get_fgu_battery_voltage nd)"

definition get_battery_temperature :: "'d nodes \<Rightarrow> 'd \<Rightarrow> (int \<times> 'd) option" where
  "get_battery_temperature nd d = (if nd_open nd BATTERY_TEMP d then read_number nd BATTERY_TEMP 64 d else Some (0, d))"

definition ap_read_ntc_temperature :: "'d nodes \<Rightarrow> 'd \<Rightarrow> (int \<times> 'd) option" where
  "ap_read_ntc_temperature nd = mean16 (get_battery_temperature nd)"

definition get_charge_current :: "'d nodes \<Rightarrow> 'd \<Rightarrow> (int \<times> 'd) option" where
  "get_charge_current nd d =
     (if nd_open nd FGU_CURRENT_PATH d then map_option (\<lambda>(v, d'). (cdiv v 1000, d')) (read_number nd FGU_CURRENT_PATH 64 d)
      else Some (0, d))"

definition ap_get_charge_current :: "'d nodes \<Rightarrow> 'd \<Rightarrow> (int \<times> 'd) option" where
  "ap_get_charge_current nd = mean16 (get_charge_current nd)"

section \<open>The commands\<close>

text \<open>Switching the charger. The answer of the first command is one byte short of a header: the status takes the place of the
  subtype.\<close>

definition eng_diag_control_charge :: "'d nodes \<Rightarrow> 'd cb_io \<Rightarrow> nat \<Rightarrow> nat \<Rightarrow> (int \<times> 'd cb_io) option" where
  "eng_diag_control_charge nd io len rsplen = do {
     cmd \<leftarrow> rd (cb_buf io) 9;
     (let d = cb_env io;
          (ret, d') = (if cmd = 1 then connect_vbus_charger_chg nd d else if cmd = 3 then disconnect_vbus_charger_chg nd d
            else if cmd = 2 then (1, d) else (0, d));
          status = (if ret > 0 then 0 else 1)
      in do {
        buf \<leftarrow> set_len (cb_buf io) 1 8;
        h \<leftarrow> get buf 0 8;
        r1 \<leftarrow> put (cb_rsp io) 0 h;
        r2 \<leftarrow> wr r1 8 status;
        r3 \<leftarrow> wr r2 9 0x7E;
        Some (10, \<lparr>cb_buf = buf, cb_rsp = r3, cb_env = d'\<rparr>)
      })
   }"

definition calibration_diag_control_charge :: "'d nodes \<Rightarrow> 'd cb_io \<Rightarrow> nat \<Rightarrow> nat \<Rightarrow> (int \<times> 'd cb_io) option" where
  "calibration_diag_control_charge nd io len rsplen = do {
     cmd \<leftarrow> rd (cb_buf io) 13;
     (let (ret, d') = (if cmd = 1 then connect_vbus_charger_chg nd (cb_env io) else disconnect_vbus_charger_chg nd (cb_env io)) in do {
        r1 \<leftarrow> put (cb_rsp io) 9 (le16 (if ret > 0 then 0 else 1) @ le16 0);
        h \<leftarrow> get (cb_buf io) 0 9;
        r2 \<leftarrow> put r1 0 h;
        r3 \<leftarrow> wr r2 5 12;
        r4 \<leftarrow> wr r3 13 0x7E;
        Some (14, io\<lparr>cb_rsp := r4, cb_env := d'\<rparr>)
      })
   }"

definition eng_diag_read_aux_voltage :: "'d nodes \<Rightarrow> 'd cb_io \<Rightarrow> nat \<Rightarrow> nat \<Rightarrow> (int \<times> 'd cb_io) option" where
  "eng_diag_read_aux_voltage nd io len rsplen = do {
     (v, d') \<leftarrow> ap_get_aux_voltage nd (cb_env io);
     b1 \<leftarrow> put (cb_buf io) 9 (le16 (nat (v mod 65536)) @ le16 0x100);
     buf \<leftarrow> set_len b1 1 12;
     m \<leftarrow> get buf 0 13;
     r1 \<leftarrow> put (cb_rsp io) 0 m;
     r2 \<leftarrow> wr r1 13 0x7E;
     Some (14, \<lparr>cb_buf = buf, cb_rsp = r2, cb_env = d'\<rparr>)
   }"

definition eng_diag_read_fgu_voltage :: "'d nodes \<Rightarrow> 'd cb_io \<Rightarrow> nat \<Rightarrow> nat \<Rightarrow> (int \<times> 'd cb_io) option" where
  "eng_diag_read_fgu_voltage nd io len rsplen = do {
     m \<leftarrow> get (cb_buf io) 0 (1 + len);
     r1 \<leftarrow> put (cb_rsp io) 0 m;
     cmd \<leftarrow> map_option de32 (get (cb_buf io) 13 4);
     (r2, d') \<leftarrow> (if cmd = 6 then do {
         (v, d1) \<leftarrow> ap_get_fgu_voltage nd (cb_env io); r \<leftarrow> put r1 17 (le32i v); Some (r, d1) }
       else if cmd = 7 then do {
         (v, d1) \<leftarrow> ap_get_charge_current nd (cb_env io); r \<leftarrow> put r1 17 (le32i v); Some (r, d1) }
       else Some (r1, cb_env io));
     r3 \<leftarrow> wr r2 9 0;
     Some (int len, io\<lparr>cb_rsp := r3, cb_env := d'\<rparr>)
   }"

definition eng_diag_read_charge_current :: "'d nodes \<Rightarrow> 'd cb_io \<Rightarrow> nat \<Rightarrow> nat \<Rightarrow> (int \<times> 'd cb_io) option" where
  "eng_diag_read_charge_current nd io len rsplen = do {
     m \<leftarrow> get (cb_buf io) 0 (1 + len);
     r1 \<leftarrow> put (cb_rsp io) 0 m;
     (v, d') \<leftarrow> ap_get_charge_current nd (cb_env io);
     r2 \<leftarrow> put r1 9 (le16 0 @ le16 8 @ le32 0 @ le32i v);
     (let n = (len + 6) mod 65536 in do {
        buf \<leftarrow> set_len (cb_buf io) 1 n;
        r3 \<leftarrow> wr r2 5 (word_of_nat n);
        r4 \<leftarrow> wr r3 (n + 1) 0x7E;
        Some (int n + 2, \<lparr>cb_buf = buf, cb_rsp = r4, cb_env = d'\<rparr>)
      })
   }"

text \<open>The current is printed into five bytes: four digits and the NUL; what is behind the NUL is written as well.\<close>

definition write_either :: "'d nodes \<Rightarrow> byte list \<Rightarrow> byte list \<Rightarrow> byte list \<Rightarrow> 'd \<Rightarrow> bool \<times> 'd" where
  "write_either nd p q bs d =
     (if nd_open nd p d then nd_write nd p bs d else if nd_open nd q d then nd_write nd q bs d else (True, d))"

definition ap_set_charge_current :: "(nat \<Rightarrow> byte) \<Rightarrow> 'd nodes \<Rightarrow> int \<Rightarrow> 'd \<Rightarrow> (int \<times> 'd) option" where
  "ap_set_charge_current g nd cur d = do {
     t \<leftarrow> sprintf (malloc g 5) (show_int cur);
     (let (fine, d1) = write_either nd CHARGER_INPUT_LIMIT_CURRENT_K44 CHARGER_INPUT_LIMIT_CURRENT t d in
      if \<not> fine then Some (- 1, d1)
      else (let (fine, d2) = write_either nd CHARGER_CURRENT_K44 CHARGER_CURRENT t d1 in Some (if fine then 0 else - 1, d2)))
   }"

definition eng_diag_set_charge_current :: "(nat \<Rightarrow> byte) \<Rightarrow> 'd nodes \<Rightarrow> 'd cb_io \<Rightarrow> nat \<Rightarrow> nat \<Rightarrow> (int \<times> 'd cb_io) option" where
  "eng_diag_set_charge_current g nd io len rsplen = do {
     h \<leftarrow> get (cb_buf io) 0 9;
     r1 \<leftarrow> put (cb_rsp io) 0 h;
     cur \<leftarrow> map_option de32 (get (cb_buf io) 13 4);
     (ret, d') \<leftarrow> ap_set_charge_current g nd (sint (word_of_nat cur :: 32 word)) (cb_env io);
     r2 \<leftarrow> put r1 9 (le16 (nat (ret mod 65536)) @ le16 2);
     r3 \<leftarrow> wr r2 5 12;
     r4 \<leftarrow> wr r3 13 0x7E;
     Some (14, io\<lparr>cb_rsp := r4, cb_env := d'\<rparr>)
   }"

text \<open>The temperature is sent as four bytes whose sum is the temperature plus 250; the loop stops at the first that is not
  full.\<close>

fun ntc_bytes :: "nat \<Rightarrow> int \<Rightarrow> byte list" where
  "ntc_bytes 0 t = []"
| "ntc_bytes (Suc k) t =
     (if t < 0 then 0 # ntc_bytes k t
      else if t > 255 then 0xFF # ntc_bytes k (t - 255)
      else [word_of_int t])"

definition eng_diag_read_ntc_temperature :: "'d nodes \<Rightarrow> 'd cb_io \<Rightarrow> nat \<Rightarrow> nat \<Rightarrow> (int \<times> 'd cb_io) option" where
  "eng_diag_read_ntc_temperature nd io len rsplen = do {
     cmd \<leftarrow> rd (cb_buf io) 9;
     (if cmd \<noteq> ENG_DIAG_NTC_CMD then Some (ENG_DIAG_RET_UNSUPPORT, io)
      else do {
        buf \<leftarrow> set_len (cb_buf io) 1 12;
        (t, d') \<leftarrow> ap_read_ntc_temperature nd (cb_env io);
        h \<leftarrow> get buf 0 9;
        r1 \<leftarrow> put (cb_rsp io) 0 h;
        r2 \<leftarrow> (if len < 2 then None else put r1 (len - 2) (ntc_bytes 4 (t + 250)));
        r3 \<leftarrow> wr r2 8 0;
        r4 \<leftarrow> wr r3 13 0x7E;
        Some (14, \<lparr>cb_buf = buf, cb_rsp = r4, cb_env = d'\<rparr>)
      })
   }"

text \<open>The result of the read is kept as an unsigned number: a failing read counts as data.\<close>

definition eng_diag_get_battery_capacity :: "'d nodes \<Rightarrow> 'd cb_io \<Rightarrow> nat \<Rightarrow> nat \<Rightarrow> (int \<times> 'd cb_io) option" where
  "eng_diag_get_battery_capacity nd io len rsplen =
     (let d = cb_env io;
          (r, d') = (if nd_open nd BATTERY_CAPACITY_PATH d then nd_read nd BATTERY_CAPACITY_PATH 0 32 d else (Some [], d))
      in do {
        (status, n, cap) \<leftarrow> (if \<not> nd_open nd BATTERY_CAPACITY_PATH d then Some (1, 0, 0)
          else (case r of
                  None \<Rightarrow> Some (0, 8, 0)
                | Some bs \<Rightarrow> (if bs = [] then Some (0, 0, 0) else map_option (\<lambda>v. (0, 8, v)) (atoi_buf (zfill 32 bs)))));
        buf \<leftarrow> wr (cb_buf io) 5 (word_of_nat (len + 6));
        h \<leftarrow> get buf 0 9;
        hd \<leftarrow> read_head buf 1;
        r1 \<leftarrow> put (cb_rsp io) 0 (h @ le16 status @ le16 n @ le32i cap @ le32 0);
        r2 \<leftarrow> wr r1 (head_len hd + 1) 0x7E;
        Some (int (head_len hd) + 2, \<lparr>cb_buf = buf, cb_rsp = r2, cb_env = d'\<rparr>)
      })"

section \<open>Registration\<close>

text \<open>The first entry is numbered 0x30; three entries have no number and keep what the array holds.\<close>

definition charge_updates :: "(nat \<Rightarrow> byte) \<Rightarrow> 'd nodes \<Rightarrow> ('d eng_callback \<Rightarrow> 'd eng_callback) list" where
  "charge_updates g nd =
     [\<lambda>c. c\<lparr>cb_type := 0x62, cb_subtype := 0, diag_ap_cmd := 0x30, eng_diag_func := Some (eng_diag_get_battery_capacity nd)\<rparr>,
      \<lambda>c. c\<lparr>cb_type := 0x38, cb_subtype := 0x12, eng_diag_func := Some (eng_diag_control_charge nd)\<rparr>,
      \<lambda>c. c\<lparr>cb_type := 0x1E, cb_subtype := 0, eng_diag_func := Some (eng_diag_read_aux_voltage nd)\<rparr>,
      \<lambda>c. c\<lparr>cb_type := 0x62, cb_subtype := 0, diag_ap_cmd := 1, eng_diag_func := Some (eng_diag_read_fgu_voltage nd)\<rparr>,
      \<lambda>c. c\<lparr>cb_type := 0x38, cb_subtype := 0x0C, diag_ap_cmd := 0x0A, eng_diag_func := Some (eng_diag_read_ntc_temperature nd)\<rparr>,
      \<lambda>c. c\<lparr>cb_type := 0x62, cb_subtype := 0, diag_ap_cmd := 0x11, eng_diag_func := Some (eng_diag_read_charge_current nd)\<rparr>,
      \<lambda>c. c\<lparr>cb_type := 0x62, cb_subtype := 0, diag_ap_cmd := 0x22, eng_diag_func := Some (eng_diag_set_charge_current g nd)\<rparr>,
      \<lambda>c. c\<lparr>cb_type := 0x62, cb_subtype := 0, diag_ap_cmd := 0x10, eng_diag_func := Some (calibration_diag_control_charge nd)\<rparr>]"

definition register_charge :: "(nat \<Rightarrow> byte) \<Rightarrow> 'd nodes \<Rightarrow> 'd eng_callback list \<Rightarrow> 'd eng_callback list \<times> nat" where
  "register_charge g nd = fill_entries (charge_updates g nd)"

section \<open>The temperature that the host computes\<close>

text \<open>The sum of the bytes that are sent is the value, kept between 0 and 1020.\<close>

lemma ntc_bytes_sum:
  "length (ntc_bytes k t) \<le> k \<and> int (\<Sum>b\<leftarrow>ntc_bytes k t. unat b) = max 0 (min (255 * int k) t)"
proof (induction k t rule: ntc_bytes.induct)
  case (2 k t)
  have "unat (word_of_int t :: byte) = nat t" if "0 \<le> t" "t \<le> 255"
    using that by (simp add: unat_eq_nat_uint uint_word_of_int)
  then show ?case using 2 by (auto simp: max_def min_def)
qed simp

text \<open>The request of the host: the command byte between header and closing flag.\<close>

lemma ntc_answer:
  assumes "head_ok h" and "14 \<le> n" and "ap_read_ntc_temperature nd d = Some (t, d')"
  shows "eng_diag_read_ntc_temperature nd \<lparr>cb_buf = 0x7E # head_bytes h @ ENG_DIAG_NTC_CMD # 0x7E # rest, cb_rsp = replicate n 0, cb_env = d\<rparr> 11 rl
    = Some (14, \<lparr>cb_buf = 0x7E # head_bytes (h\<lparr>head_len := 12\<rparr>) @ ENG_DIAG_NTC_CMD # 0x7E # rest,
        cb_rsp = 0x7E # head_bytes (h\<lparr>head_len := 12, head_subtype := 0\<rparr>) @ zfill 4 (ntc_bytes 4 (t + 250)) @ 0x7E # replicate (n - 14) 0, cb_env = d'\<rparr>)"
proof -
  let ?b = "ntc_bytes 4 (t + 250)"
  let ?h = "head_bytes (h\<lparr>head_len := 12\<rparr>)"
  have lb: "length ?b \<le> 4" using ntc_bytes_sum [of 4 "t + 250"] by simp
  obtain k where n: "n = 14 + k" using assms(2) le_Suc_ex by blast
  have h: "head_bytes (h\<lparr>head_len := 12\<rparr>) = le32 (seq_num h) @ le16 12 @ [head_type h, head_subtype h]" by (simp add: head_parts)
  have g: "get (0x7E # ?h @ ENG_DIAG_NTC_CMD # 0x7E # rest) 0 9 = Some (0x7E # ?h)"
    by (simp add: h get_def le32_def le16_def)
  have "put (P @ r) 9 ?b = Some (P @ ?b @ drop (length ?b) r)" if "length P = 9" "length ?b \<le> length r" for P r
    using that by (simp add: put_def)
  from this [of "0x7E # ?h" "replicate (5 + k) 0"]
  have "put (0x7E # ?h @ replicate (5 + k) 0) 9 ?b = Some ((0x7E # ?h) @ ?b @ drop (length ?b) (replicate (5 + k) 0))"
    using lb by (simp add: MSG_HEAD_SIZE_def)
  moreover have "?b @ drop (length ?b) (replicate (5 + k) 0) = zfill 4 ?b @ 0 # replicate k 0"
    using lb by (simp add: zfill_def replicate_add [symmetric] flip: replicate_Suc)
  ultimately have p: "put (0x7E # ?h @ replicate (5 + k) 0) 9 ?b = Some (0x7E # ?h @ zfill 4 ?b @ 0 # replicate k 0)" by simp
  have "put (replicate n 0) 0 (0x7E # ?h) = Some (0x7E # ?h @ replicate (5 + k) 0)"
    unfolding n by (simp add: put_def MSG_HEAD_SIZE_def)
  moreover have "wr (0x7E # ?h @ x) 8 0 = Some (0x7E # head_bytes (h\<lparr>head_len := 12, head_subtype := 0\<rparr>) @ x)" for x
    by (simp add: head_parts wr_def le32_def le16_def)
  moreover have "wr ((0x7E # head_bytes h') @ z @ 0 # x) 13 v = Some ((0x7E # head_bytes h') @ z @ v # x)" if "length z = 4" for h' z x v
    using that update_mid [of "(0x7E # head_bytes h') @ z" 0 x v] by (simp add: wr_def MSG_HEAD_SIZE_def)
  from this [OF length_zfill [OF lb], of "h\<lparr>head_len := 12, head_subtype := 0\<rparr>" "replicate k 0" "0x7E"]
  have "wr (0x7E # head_bytes (h\<lparr>head_len := 12, head_subtype := 0\<rparr>) @ zfill 4 ?b @ 0 # replicate k 0) 13 0x7E =
    Some (0x7E # head_bytes (h\<lparr>head_len := 12, head_subtype := 0\<rparr>) @ zfill 4 ?b @ 0x7E # replicate k 0)" by simp
  moreover have "rd (0x7E # head_bytes h @ ENG_DIAG_NTC_CMD # 0x7E # rest) 9 = Some ENG_DIAG_NTC_CMD"
    by (simp add: head_parts rd_def le32_def le16_def)
  moreover have "set_len (0x7E # head_bytes h @ ENG_DIAG_NTC_CMD # 0x7E # rest) 1 12 = Some (0x7E # ?h @ ENG_DIAG_NTC_CMD # 0x7E # rest)"
    using assms(1) by (simp add: msg_simps)
  ultimately show ?thesis
    using assms(3) g p unfolding n by (simp add: eng_diag_read_ntc_temperature_def)
qed

text \<open>The formula of the host's tool, from the comment in \<open>eng_diag_read_ntc_temperature\<close>: the temperature in degrees, from
  four bytes whose sum is the temperature in tenths of a degree plus 250.\<close>

definition fTemp :: "byte list \<Rightarrow> int" where
  "fTemp szRecv = cdiv (int (\<Sum>b\<leftarrow>szRecv. unat b) - 250) 10"

lemma cdiv_mono: "0 < c \<Longrightarrow> a \<le> b \<Longrightarrow> cdiv a c \<le> cdiv b c"
  using zdiv_mono1 [of a b c] zdiv_mono1 [of "- b" "- a" c]
  by (auto simp: cdiv_def pos_imp_zdiv_nonneg_iff intro: order_trans [of _ 0])

text \<open>C30 (the temperature arrives): if every reading of the battery's sensor, in tenths of a degree, lies between \<open>lo\<close> and \<open>hi\<close>,
  within the range that four bytes can carry (-25 to 77 degrees), the answer to a temperature request holds four bytes whose
  sum less 250 lies between \<open>lo\<close> and \<open>hi\<close>, so that the formula of the host's tool, \<open>(sum - 250) / 10\<close>, gives a temperature in
  degrees between those of \<open>lo\<close> and \<open>hi\<close>.\<close>

theorem ntc_temperature_arrives:
  assumes "head_ok h" and "14 \<le> n" and "- 250 \<le> lo" and "lo \<le> hi" and "hi \<le> 770" and "good d"
    and "\<And>d. good d \<Longrightarrow> nd_open nd BATTERY_TEMP d
      \<and> (\<exists>v d'. nd_read nd BATTERY_TEMP 0 64 d = (Some (show_int v @ [10]), d') \<and> lo \<le> v \<and> v \<le> hi \<and> good d')"
  shows "\<exists>bs io. eng_diag_read_ntc_temperature nd
        \<lparr>cb_buf = 0x7E # head_bytes h @ ENG_DIAG_NTC_CMD # 0x7E # rest, cb_rsp = replicate n 0, cb_env = d\<rparr> 11 rl = Some (14, io)
    \<and> take 14 (cb_rsp io) = 0x7E # head_bytes (h\<lparr>head_len := 12, head_subtype := 0\<rparr>) @ bs @ [0x7E]
    \<and> length bs = 4 \<and> lo \<le> int (\<Sum>b\<leftarrow>bs. unat b) - 250 \<and> int (\<Sum>b\<leftarrow>bs. unat b) - 250 \<le> hi
    \<and> cdiv lo 10 \<le> fTemp bs \<and> fTemp bs \<le> cdiv hi 10"
proof -
  have "\<exists>v d'. get_battery_temperature nd d = Some (v, d') \<and> lo \<le> v \<and> v \<le> hi \<and> good d'" if g: "good d" for d
  proof -
    obtain v d' where v: "nd_read nd BATTERY_TEMP 0 64 d = (Some (show_int v @ [10]), d')" "lo \<le> v" "v \<le> hi" "good d'"
      using assms(7) [OF g] by blast
    then show ?thesis
      using assms(3,5,7) g read_number_line [OF v(1)] by (simp add: get_battery_temperature_def int_ok_def)
  qed
  then obtain t d' where t: "ap_read_ntc_temperature nd d = Some (t, d')" "lo \<le> t" "t \<le> hi"
    using mean16_between [where f = "get_battery_temperature nd" and good = good and d = d and lo = lo and hi = hi] assms(3-6)
    unfolding ap_read_ntc_temperature_def by fastforce
  have b: "length (ntc_bytes 4 (t + 250)) \<le> 4" "int (\<Sum>b\<leftarrow>ntc_bytes 4 (t + 250). unat b) = t + 250"
    using ntc_bytes_sum [of 4 "t + 250"] t assms(3,5) by auto
  have "int (\<Sum>b\<leftarrow>zfill 4 (ntc_bytes 4 (t + 250)). unat b) = t + 250"
    using b(2) by (simp add: zfill_def sum_list_replicate)
  moreover from this have "cdiv lo 10 \<le> fTemp (zfill 4 (ntc_bytes 4 (t + 250)))" "fTemp (zfill 4 (ntc_bytes 4 (t + 250))) \<le> cdiv hi 10"
    using t(2,3) by (simp_all add: fTemp_def cdiv_mono)
  ultimately show ?thesis
    using ntc_answer [OF assms(1,2) t(1), of rest rl] length_zfill [OF b(1)] t by (simp add: MSG_HEAD_SIZE_def)
qed

definition ex_sensor :: "nat nodes" where
  "ex_sensor = \<lparr>nd_open = \<lambda>p d. p = BATTERY_TEMP,
     nd_read = \<lambda>p pos n d. (Some (show_int (300 + int (d mod 8)) @ [10]), d + 1), nd_write = \<lambda>p bs d. (True, d)\<rparr>"

definition ex_ntc_head :: msg_head where "ex_ntc_head = \<lparr>seq_num = 0, head_len = 9, head_type = 0x38, head_subtype = 0x0C\<rparr>"

theorem ntc_temperature_arrives_witness:
  "\<exists>bs io. eng_diag_read_ntc_temperature ex_sensor
        \<lparr>cb_buf = 0x7E # head_bytes ex_ntc_head @ ENG_DIAG_NTC_CMD # 0x7E # [], cb_rsp = replicate 14 0, cb_env = 0\<rparr> 11 0 = Some (14, io)
    \<and> take 14 (cb_rsp io) = 0x7E # head_bytes (ex_ntc_head\<lparr>head_len := 12, head_subtype := 0\<rparr>) @ bs @ [0x7E]
    \<and> length bs = 4 \<and> 300 \<le> int (\<Sum>b\<leftarrow>bs. unat b) - 250 \<and> int (\<Sum>b\<leftarrow>bs. unat b) - 250 \<le> 307
    \<and> cdiv 300 10 \<le> fTemp bs \<and> fTemp bs \<le> cdiv 307 10"
proof (rule ntc_temperature_arrives [where good = "\<lambda>_. True"])
  show "nd_open ex_sensor BATTERY_TEMP d \<and> (\<exists>v d'. nd_read ex_sensor BATTERY_TEMP 0 64 d = (Some (show_int v @ [10]), d') \<and> 300 \<le> v \<and> v \<le> 307 \<and> True)" for d
    using mod_less_divisor [of 8 d] by (auto simp: ex_sensor_def)
qed (simp_all add: head_ok_def ex_ntc_head_def)

section \<open>The current that is set\<close>

lemma show_nat_long: "10 ^ k \<le> n \<Longrightarrow> k < length (show_nat n)"
proof (induction n arbitrary: k rule: show_nat.induct)
  case (1 n)
  show ?case
  proof (cases "n < 10 \<or> k = 0")
    case True
    have "k = 0"
    proof (rule ccontr)
      assume "k \<noteq> 0"
      then have "(10::nat) \<le> 10 ^ k" using power_increasing [of 1 k "10 :: nat"] by simp
      then show False using True 1(2) \<open>k \<noteq> 0\<close> by simp
    qed
    then show ?thesis using show_nat_not_Nil by simp
  next
    case False
    then obtain k' where k: "k = Suc k'" by (cases k) auto
    then have "10 ^ k' \<le> n div 10" using 1(2) by (simp add: less_eq_div_iff_mult_less_eq mult.commute)
    then show ?thesis using 1(1) False k by (subst show_nat.simps) simp
  qed
qed

text \<open>A current of five digits does not fit the buffer it is printed into.\<close>

lemma charge_current_overruns:
  assumes "10000 \<le> cur"
  shows "ap_set_charge_current g nd cur d = None"
proof -
  have "4 < length (show_int cur)" using show_nat_long [of 4 "nat cur"] assms by (simp add: show_int_def)
  then show ?thesis by (simp add: ap_set_charge_current_def sprintf_def put_def malloc_def)
qed

end
