(* ===== verification/TSensor.thy ===== *)
theory TSensor
  imports Sysfs
begin

unbundle bit_operations_syntax

text \<open>
  The temperature sensors of the crystal (\<open>modules/tsensor/tsensor.c\<close>): the thermal zones are looked up by their type when the
  module is registered, a command reads both temperatures, and another gives the sensor's registers in the power
  management chip their default values, through a node for the address and one for the value. The static variables
  are part of the state. The search for a zone goes on as long as there are zones: \<open>None\<close> when it never ends.
\<close>

section \<open>Registers\<close>

definition BIT :: "nat \<Rightarrow> 32 word" where "BIT x = push_bit x 1"
definition SC27XX_TSEN_CTRL0 :: "32 word" where "SC27XX_TSEN_CTRL0 = 0x1B34"
definition SC27XX_TSEN_CLK_SRC_SEL :: "32 word" where "SC27XX_TSEN_CLK_SRC_SEL = BIT 4"
definition SC27XX_TSEN_ADCLDO_EN :: "32 word" where "SC27XX_TSEN_ADCLDO_EN = BIT 15"
definition SC27XX_TSEN_CTRL1 :: "32 word" where "SC27XX_TSEN_CTRL1 = 0x1B38"
definition SC27XX_TSEN_SDADC_EN :: "32 word" where "SC27XX_TSEN_SDADC_EN = BIT 11"
definition SC27XX_TSEN_UGBUF_EN :: "32 word" where "SC27XX_TSEN_UGBUF_EN = BIT 14"
definition SC27XX_TSEN_CTRL3 :: "32 word" where "SC27XX_TSEN_CTRL3 = 0x1B40"
definition SC27XX_TSEN_EN :: "32 word" where "SC27XX_TSEN_EN = BIT 0"
definition SC27XX_TSEN_SEL_EN :: "32 word" where "SC27XX_TSEN_SEL_EN = BIT 3"
definition SC27XX_TSEN_SEL_CH :: "32 word" where "SC27XX_TSEN_SEL_CH = BIT 4"

definition PMIC_GLB_VALUE :: "byte list" where
  "PMIC_GLB_VALUE = cs ''/sys/bus/platform/drivers/sprd-pmic-glb/sc27xx-syscon/pmic_value''"
definition PMIC_GLB_REG :: "byte list" where
  "PMIC_GLB_REG = cs ''/sys/bus/platform/drivers/sprd-pmic-glb/sc27xx-syscon/pmic_reg''"

text \<open>\<open>%8x\<close> of a printed number.\<close>

definition pad8 :: "byte list \<Rightarrow> byte list" where
  "pad8 s = replicate (8 - length s) 32 @ s"

text \<open>Nodes that cannot be opened are written and read all the same: without effect, and giving nothing.\<close>

definition put_node :: "'d nodes \<Rightarrow> byte list \<Rightarrow> byte list \<Rightarrow> 'd \<Rightarrow> 'd" where
  "put_node nd p bs d = (if nd_open nd p d then snd (nd_write nd p bs d) else d)"

definition ana_read :: "'d nodes \<Rightarrow> 32 word \<Rightarrow> 'd \<Rightarrow> (32 word \<times> 'd) option" where
  "ana_read nd reg d =
     (let d1 = put_node nd PMIC_GLB_REG (zfill 30 (show_hex (unat reg))) d;
          (r, d2) = (if nd_open nd PMIC_GLB_VALUE d then nd_read nd PMIC_GLB_VALUE 0 30 d1 else (None, d1))
      in do {
        v \<leftarrow> strtol_buf 16 (zfill 30 (case r of None \<Rightarrow> [] | Some bs \<Rightarrow> bs));
        Some (word_of_int v, d2)
      })"

definition ana_write :: "'d nodes \<Rightarrow> 32 word \<Rightarrow> 32 word \<Rightarrow> 'd \<Rightarrow> 'd" where
  "ana_write nd reg v d =
     (let d1 = put_node nd PMIC_GLB_REG (zfill 30 (pad8 (show_hex (unat reg)))) d in
      if nd_open nd PMIC_GLB_VALUE d then snd (nd_write nd PMIC_GLB_VALUE (zfill 30 (pad8 (show_hex (unat v)))) d1) else d1)"

definition tsensor_regmap_update_bits :: "'d nodes \<Rightarrow> 32 word \<Rightarrow> 32 word \<Rightarrow> 32 word \<Rightarrow> 'd \<Rightarrow> 'd option" where
  "tsensor_regmap_update_bits nd reg msk val d = do {
     (orig, d1) \<leftarrow> ana_read nd reg d;
     Some (ana_write nd reg ((orig AND NOT msk) OR (val AND msk)) d1)
   }"

section \<open>The commands\<close>

text \<open>The static variables and the devices.\<close>

record 'd tsensor =
  osc_path :: "byte list"
  outsen_path :: "byte list"
  ts_result :: int
  inited :: bool
  ts_dev :: 'd

definition tsenor_restore_default_reg :: "'d nodes \<Rightarrow> 'd tsensor \<Rightarrow> 'd tsensor option" where
  "tsenor_restore_default_reg nd s = do {
     d1 \<leftarrow> tsensor_regmap_update_bits nd SC27XX_TSEN_CTRL0 SC27XX_TSEN_CLK_SRC_SEL SC27XX_TSEN_CLK_SRC_SEL (ts_dev s);
     d2 \<leftarrow> tsensor_regmap_update_bits nd SC27XX_TSEN_CTRL3 (SC27XX_TSEN_EN OR SC27XX_TSEN_SEL_EN OR SC27XX_TSEN_SEL_CH) 0 d1;
     d3 \<leftarrow> tsensor_regmap_update_bits nd SC27XX_TSEN_CTRL1 (SC27XX_TSEN_SDADC_EN OR SC27XX_TSEN_UGBUF_EN) 0 d2;
     d4 \<leftarrow> tsensor_regmap_update_bits nd SC27XX_TSEN_CTRL0 SC27XX_TSEN_ADCLDO_EN 0 d3;
     Some (s\<lparr>ts_dev := d4, inited := False\<rparr>)
   }"

definition zone_path :: "int \<Rightarrow> byte list \<Rightarrow> byte list" where
  "zone_path i leaf = cs ''/sys/class/thermal/thermal_zone'' @ show_int i @ cs ''/'' @ leaf"

partial_function (option) match_zone :: "'d nodes \<Rightarrow> byte list \<Rightarrow> int \<Rightarrow> 'd \<Rightarrow> (int \<times> 'd) option" where
  "match_zone nd ty i d =
     (let p = zone_path i (cs ''type'') in
      if \<not> nd_open nd p d then Some (- 1, d)
      else (let (r, d') = nd_read nd p 0 15 d in
            case r of
              None \<Rightarrow> Some (- 1, d')
            | Some bs \<Rightarrow> (if take (length ty) (takeWhile (\<lambda>b. b \<noteq> 0) bs) = ty then Some (i, d') else match_zone nd ty (i + 1) d')))"

definition tsensor_match_thm_zone :: "'d nodes \<Rightarrow> byte list \<Rightarrow> 'd \<Rightarrow> (int \<times> 'd) option" where
  "tsensor_match_thm_zone nd ty d = match_zone nd ty 0 d"

definition tsensor_get_thmzone_patch :: "'d nodes \<Rightarrow> 'd tsensor \<Rightarrow> 'd tsensor option" where
  "tsensor_get_thmzone_patch nd s = do {
     (i, d1) \<leftarrow> tsensor_match_thm_zone nd (cs ''osctsen-thmzone'') (ts_dev s);
     (let s1 = (if i \<ge> 0 then s\<lparr>osc_path := zone_path i (cs ''temp'')\<rparr> else s\<lparr>ts_result := - 1\<rparr>) in do {
        (j, d2) \<leftarrow> tsensor_match_thm_zone nd (cs ''outtsen-thmzone'') d1;
        Some ((if j \<ge> 0 then s1\<lparr>outsen_path := zone_path j (cs ''temp'')\<rparr> else s1\<lparr>ts_result := - 1\<rparr>)\<lparr>ts_dev := d2\<rparr>)
      })
   }"

text \<open>The reading of a temperature: whether the node could be opened, and the new value, the old one when nothing was read.\<close>

definition read_temperature :: "'d nodes \<Rightarrow> byte list \<Rightarrow> int \<Rightarrow> 'd \<Rightarrow> (bool \<times> int \<times> 'd) option" where
  "read_temperature nd p old d =
     (if \<not> nd_open nd p d then Some (False, old, d)
      else (let (r, d') = nd_read nd p 0 64 d in
            case r of
              None \<Rightarrow> Some (True, old, d')
            | Some bs \<Rightarrow> (if bs = [] then Some (True, old, d') else map_option (\<lambda>v. (True, v, d')) (atoi_buf (zfill 64 bs)))))"

definition ap_read_tsx_temperature :: "'d nodes \<Rightarrow> int \<Rightarrow> 'd tsensor \<Rightarrow> (bool \<times> int \<times> 'd tsensor) option" where
  "ap_read_tsx_temperature nd old s = do { (c, v, d') \<leftarrow> read_temperature nd (outsen_path s) old (ts_dev s); Some (c, v, s\<lparr>ts_dev := d'\<rparr>) }"

definition ap_read_osc_temperature :: "'d nodes \<Rightarrow> int \<Rightarrow> 'd tsensor \<Rightarrow> (bool \<times> int \<times> 'd tsensor) option" where
  "ap_read_osc_temperature nd old s = do { (c, v, d') \<leftarrow> read_temperature nd (osc_path s) old (ts_dev s); Some (c, v, s\<lparr>ts_dev := d'\<rparr>) }"

text \<open>The first reading after a restart is repeated half a second later; the length of the answer is 24 bytes and its flags.\<close>

definition eng_diag_read_tsx_osc_temp :: "'d nodes \<Rightarrow> 'd tsensor cb_io \<Rightarrow> nat \<Rightarrow> nat \<Rightarrow> (int \<times> 'd tsensor cb_io) option" where
  "eng_diag_read_tsx_osc_temp nd io len rsplen = do {
     (let s = cb_env io in do {
        (t0, o0, s1) \<leftarrow> (if inited s then Some (0, 0, s)
          else do {
            (_, t, sa) \<leftarrow> ap_read_tsx_temperature nd 0 s;
            (_, u, sb) \<leftarrow> ap_read_osc_temperature nd 0 sa;
            Some (t, u, sb\<lparr>inited := True\<rparr>)
          });
        (c1, t1, s2) \<leftarrow> ap_read_tsx_temperature nd t0 s1;
        (c2, o1, s3) \<leftarrow> ap_read_osc_temperature nd o0 s2;
        buf \<leftarrow> set_len (cb_buf io) 1 24;
        h \<leftarrow> get buf 0 9;
        r1 \<leftarrow> put (cb_rsp io) 0 (h @ le16 (if ts_result s < 0 \<or> \<not> c1 \<or> \<not> c2 then 1 else 0) @ le16 12 @ le32i t1 @ le32i o1 @ [0, 0, 0, 0]);
        r2 \<leftarrow> wr r1 25 0x7E;
        Some (26, \<lparr>cb_buf = buf, cb_rsp = r2, cb_env = s3\<rparr>)
      })
   }"

definition eng_diag_restore_default_reg :: "'d nodes \<Rightarrow> 'd tsensor cb_io \<Rightarrow> nat \<Rightarrow> nat \<Rightarrow> (int \<times> 'd tsensor cb_io) option" where
  "eng_diag_restore_default_reg nd io len rsplen = do {
     s' \<leftarrow> tsenor_restore_default_reg nd (cb_env io);
     buf \<leftarrow> set_len (cb_buf io) 1 12;
     h \<leftarrow> get buf 0 9;
     r1 \<leftarrow> put (cb_rsp io) 0 (h @ [0, 0, 0, 0]);
     r2 \<leftarrow> wr r1 13 0x7E;
     Some (14, \<lparr>cb_buf = buf, cb_rsp = r2, cb_env = s'\<rparr>)
   }"

definition tsensor_updates :: "'d nodes \<Rightarrow> ('d tsensor eng_callback \<Rightarrow> 'd tsensor eng_callback) list" where
  "tsensor_updates nd = map (\<lambda>(k, f) c. c\<lparr>cb_type := 0x62, cb_subtype := 0, diag_ap_cmd := k, eng_diag_func := Some f\<rparr>)
     [(0x31, eng_diag_read_tsx_osc_temp nd), (0x32, eng_diag_restore_default_reg nd)]"

text \<open>Registration looks the zones up first.\<close>

definition register_tsensor :: "'d nodes \<Rightarrow> 'd tsensor eng_callback list \<Rightarrow> 'd tsensor \<Rightarrow> ('d tsensor eng_callback list \<times> nat \<times> 'd tsensor) option" where
  "register_tsensor nd reg s = do {
     s' \<leftarrow> tsensor_get_thmzone_patch nd s;
     (case fill_entries (tsensor_updates nd) reg of (cs', n) \<Rightarrow> Some (cs', n, s'))
   }"

section \<open>Restoring the registers\<close>

text \<open>
  What the driver of the chip documents: an address that is written selects a register of 16 bits, a value that is
  written is stored there, and a read gives the content in base 16. \<open>sel\<close> and \<open>regs\<close> are the selected address and
  the registers of a state of the devices, \<open>good\<close> the states in which the driver works. Some registers, the set
  \<open>prot\<close>, are write protected (\<open>ANA_REG_GLB_TSX_WR_PROT_VALUE\<close>, address 0x1BD8, in \<open>sc2730_glb.h\<close>): they take a value only while
  the protection register holds the key 0x1990, which \<open>dcx_cali.c\<close> writes there first.
\<close>

definition unlocked :: "(int \<Rightarrow> 16 word) \<Rightarrow> bool" where
  "unlocked r \<longleftrightarrow> r 0x1BD8 AND 0x7FFF = 0x1990"

definition writable :: "int set \<Rightarrow> (int \<Rightarrow> 16 word) \<Rightarrow> int \<Rightarrow> bool" where
  "writable prot r a \<longleftrightarrow> a \<notin> prot \<or> unlocked r"

definition hex_in :: "byte list \<Rightarrow> int" where
  "hex_in t = fst (strtol 16 (takeWhile (\<lambda>b. b \<noteq> 0) t))"

definition pmic_driver :: "'d nodes \<Rightarrow> ('d \<Rightarrow> bool) \<Rightarrow> ('d \<Rightarrow> int) \<Rightarrow> ('d \<Rightarrow> int \<Rightarrow> 16 word) \<Rightarrow> int set \<Rightarrow> bool" where
  "pmic_driver nd good sel regs prot \<longleftrightarrow>
     (\<forall>d. good d \<longrightarrow> nd_open nd PMIC_GLB_REG d \<and> nd_open nd PMIC_GLB_VALUE d
       \<and> (\<forall>t. \<exists>d'. nd_write nd PMIC_GLB_REG t d = (True, d') \<and> good d' \<and> sel d' = hex_in t \<and> regs d' = regs d)
       \<and> (\<forall>t. \<exists>d'. nd_write nd PMIC_GLB_VALUE t d = (True, d') \<and> good d' \<and> sel d' = sel d
            \<and> regs d' = (if writable prot (regs d) (sel d) then (regs d)(sel d := word_of_int (hex_in t)) else regs d))
       \<and> (\<exists>d'. nd_read nd PMIC_GLB_VALUE 0 30 d = (Some (show_hex (unat (regs d (sel d))) @ [10]), d') \<and> good d' \<and> sel d' = sel d \<and> regs d' = regs d))"

lemma hex_in_text:
  assumes "n < 2147483648"
  shows "hex_in (zfill 30 (show_hex n)) = int n" and "hex_in (zfill 30 (pad8 (show_hex n))) = int n"
proof -
  have l: "length (show_hex n) \<le> 8" using show_hex_length [of n 8] assms by simp
  have z: "0 \<notin> set (show_hex n)" using show_hex_digits [of n] by auto
  show "hex_in (zfill 30 (show_hex n)) = int n"
    using strtol_show_hex [of "[]" n 0] l z assms by (simp add: hex_in_def takeWhile_zfill)
  show "hex_in (zfill 30 (pad8 (show_hex n))) = int n"
    using strtol_show_hex [of "[]" n "8 - length (show_hex n)"] l z assms by (simp add: hex_in_def takeWhile_zfill pad8_def)
qed

lemma ana_read_register:
  assumes "pmic_driver nd good sel regs prot" and "good d" and "unat reg < 2147483648"
  shows "\<exists>d'. ana_read nd reg d = Some (ucast (regs d (uint reg)), d') \<and> good d' \<and> regs d' = regs d"
proof -
  have op: "nd_open nd PMIC_GLB_REG d" "nd_open nd PMIC_GLB_VALUE d" using assms(1,2) unfolding pmic_driver_def by blast+
  obtain d1 where d1: "nd_write nd PMIC_GLB_REG (zfill 30 (show_hex (unat reg))) d = (True, d1)" "good d1"
    "sel d1 = hex_in (zfill 30 (show_hex (unat reg)))" "regs d1 = regs d"
    using assms(1,2) unfolding pmic_driver_def by blast
  have sel: "sel d1 = uint reg" using d1(3) hex_in_text(1) [OF assms(3)] by (simp flip: uint_nat)
  obtain d2 where d2: "nd_read nd PMIC_GLB_VALUE 0 30 d1 = (Some (show_hex (unat (regs d1 (sel d1))) @ [10]), d2)" "good d2" "regs d2 = regs d1"
    using assms(1) d1(2) unfolding pmic_driver_def by blast
  let ?v = "regs d (uint reg)"
  have v: "unat ?v < 65536" using unsigned_less [of ?v, where 'a = nat] by simp
  have "length (show_hex (unat ?v)) \<le> 4" using show_hex_length [of "unat ?v" 4] v by simp
  moreover have "0 \<notin> set (show_hex (unat ?v) @ [10])" using show_hex_digits [of "unat ?v"] by auto
  ultimately have "strtol_buf 16 (zfill 30 (show_hex (unat ?v) @ [10])) = Some (int (unat ?v))"
    using strtol_show_hex [of "[10]" "unat ?v" 0] v by (simp add: strtol_buf_zfill)
  moreover have "word_of_int (int (unat ?v)) = (ucast ?v :: 32 word)" by simp
  ultimately have "ana_read nd reg d = Some (ucast ?v, d2)"
    unfolding ana_read_def put_node_def Let_def using op d1(1,4) d2(1) sel by (simp only: if_True snd_conv prod.case option.case bind.bind_lunit)
  then show ?thesis using d1(4) d2(2,3) by simp
qed

lemma ana_write_register:
  assumes "pmic_driver nd good sel regs prot" and "good d" and "unat reg < 2147483648" and "unat v < 2147483648"
  shows "good (ana_write nd reg v d) \<and> regs (ana_write nd reg v d) =
    (if writable prot (regs d) (uint reg) then (regs d)(uint reg := ucast v) else regs d)"
proof -
  have op: "nd_open nd PMIC_GLB_REG d" "nd_open nd PMIC_GLB_VALUE d" using assms(1,2) unfolding pmic_driver_def by blast+
  obtain d1 where d1: "nd_write nd PMIC_GLB_REG (zfill 30 (pad8 (show_hex (unat reg)))) d = (True, d1)" "good d1"
    "sel d1 = hex_in (zfill 30 (pad8 (show_hex (unat reg))))" "regs d1 = regs d"
    using assms(1,2) unfolding pmic_driver_def by blast
  have sel: "sel d1 = uint reg" using d1(3) hex_in_text(2) [OF assms(3)] by (simp flip: uint_nat)
  obtain d2 where d2: "nd_write nd PMIC_GLB_VALUE (zfill 30 (pad8 (show_hex (unat v)))) d1 = (True, d2)" "good d2"
    "regs d2 = (if writable prot (regs d1) (sel d1)
       then (regs d1)(sel d1 := word_of_int (hex_in (zfill 30 (pad8 (show_hex (unat v)))))) else regs d1)"
    using assms(1) d1(2) unfolding pmic_driver_def by blast
  have "word_of_int (int (unat v)) = (ucast v :: 16 word)" by simp
  then have "regs d2 = (if writable prot (regs d) (uint reg) then (regs d)(uint reg := ucast v) else regs d)" using d2(3) sel d1(4) hex_in_text(2) [OF assms(4)] by simp
  moreover have "ana_write nd reg v d = d2"
    unfolding ana_write_def put_node_def Let_def using op d1(1) d2(1) by (simp only: if_True snd_conv)
  ultimately show ?thesis using d2(2) by simp
qed

lemma update_bits_register:
  assumes "pmic_driver nd good sel regs prot" and "good d" and "unat reg < 2147483648" and "unat msk < 65536"
    and "writable prot (regs d) (uint reg)"
  shows "\<exists>d'. tsensor_regmap_update_bits nd reg msk val d = Some d' \<and> good d'
    \<and> regs d' = (regs d)(uint reg := (regs d (uint reg) AND NOT (ucast msk)) OR (ucast val AND ucast msk))"
proof -
  obtain d1 where d1: "ana_read nd reg d = Some (ucast (regs d (uint reg)), d1)" "good d1" "regs d1 = regs d"
    using ana_read_register [OF assms(1-3)] by blast
  let ?v = "(ucast (regs d (uint reg)) AND NOT msk) OR (val AND msk) :: 32 word"
  let ?w = "(regs d (uint reg) AND NOT (ucast msk)) OR (ucast val AND ucast msk) :: 16 word"
  have "take_bit 16 msk = msk"
    using assms(4) by (simp add: word_unat_eq_iff unsigned_take_bit_eq take_bit_nat_eq_self)
  then have m: "bit msk n \<Longrightarrow> n < 16" for n by (metis bit_take_bit_iff)
  have v: "?v = ucast ?w"
    by (rule bit_word_eqI) (auto simp: bit_simps dest: m bit_imp_le_length)
  have "unat ?w < 65536" using unsigned_less [of ?w, where 'a = nat] by simp
  then have "unat ?v < 2147483648" unfolding v by (simp add: unsigned_ucast_eq take_bit_nat_eq_self)
  then have "good (ana_write nd reg ?v d1)" "regs (ana_write nd reg ?v d1) = (regs d)(uint reg := ucast ?v)"
    using ana_write_register [OF assms(1) d1(2) assms(3)] d1(3) assms(5) by auto
  moreover have "(ucast ?v :: 16 word) = ?w" unfolding v by (rule bit_word_eqI) (simp add: bit_simps)
  ultimately show ?thesis using d1(1) by (simp add: tsensor_regmap_update_bits_def)
qed

text \<open>The default values, register by register.\<close>

definition default_registers :: "(int \<Rightarrow> 16 word) \<Rightarrow> int \<Rightarrow> 16 word" where
  "default_registers r a =
     (if a = 0x1B34 then (r a OR 0x0010) AND NOT 0x8000
      else if a = 0x1B38 then r a AND NOT 0x4800
      else if a = 0x1B40 then r a AND NOT 0x0019
      else r a)"

lemma restore_registers:
  assumes "pmic_driver nd good sel regs prot" and "good (ts_dev s)" and "{0x1B34, 0x1B38, 0x1B40} \<inter> prot = {}"
  shows "\<exists>d'. tsenor_restore_default_reg nd s = Some (s\<lparr>ts_dev := d', inited := False\<rparr>) \<and> good d'
    \<and> regs d' = default_registers (regs (ts_dev s))"
proof -
  note up = update_bits_register [OF assms(1)]
  have w: "writable prot r 0x1B34" "writable prot r 0x1B38" "writable prot r 0x1B40" for r
    using assms(3) by (auto simp: writable_def)
  note bits = SC27XX_TSEN_CTRL0_def SC27XX_TSEN_CTRL1_def SC27XX_TSEN_CTRL3_def SC27XX_TSEN_CLK_SRC_SEL_def SC27XX_TSEN_ADCLDO_EN_def
    SC27XX_TSEN_SDADC_EN_def SC27XX_TSEN_UGBUF_EN_def SC27XX_TSEN_EN_def SC27XX_TSEN_SEL_EN_def SC27XX_TSEN_SEL_CH_def BIT_def
  obtain d1 where d1: "tsensor_regmap_update_bits nd SC27XX_TSEN_CTRL0 SC27XX_TSEN_CLK_SRC_SEL SC27XX_TSEN_CLK_SRC_SEL (ts_dev s) = Some d1" "good d1"
    "regs d1 = (regs (ts_dev s))(0x1B34 := (regs (ts_dev s) 0x1B34 AND NOT 0x10) OR 0x10)"
    using up [OF assms(2), of SC27XX_TSEN_CTRL0 SC27XX_TSEN_CLK_SRC_SEL SC27XX_TSEN_CLK_SRC_SEL] by (auto simp: bits w)
  obtain d2 where d2: "tsensor_regmap_update_bits nd SC27XX_TSEN_CTRL3 (SC27XX_TSEN_EN OR SC27XX_TSEN_SEL_EN OR SC27XX_TSEN_SEL_CH) 0 d1 = Some d2" "good d2"
    "regs d2 = (regs d1)(0x1B40 := regs d1 0x1B40 AND NOT 0x19)"
    using up [OF d1(2), of SC27XX_TSEN_CTRL3 "SC27XX_TSEN_EN OR SC27XX_TSEN_SEL_EN OR SC27XX_TSEN_SEL_CH" 0] by (auto simp: bits w)
  obtain d3 where d3: "tsensor_regmap_update_bits nd SC27XX_TSEN_CTRL1 (SC27XX_TSEN_SDADC_EN OR SC27XX_TSEN_UGBUF_EN) 0 d2 = Some d3" "good d3"
    "regs d3 = (regs d2)(0x1B38 := regs d2 0x1B38 AND NOT 0x4800)"
    using up [OF d2(2), of SC27XX_TSEN_CTRL1 "SC27XX_TSEN_SDADC_EN OR SC27XX_TSEN_UGBUF_EN" 0] by (auto simp: bits w)
  obtain d4 where d4: "tsensor_regmap_update_bits nd SC27XX_TSEN_CTRL0 SC27XX_TSEN_ADCLDO_EN 0 d3 = Some d4" "good d4"
    "regs d4 = (regs d3)(0x1B34 := regs d3 0x1B34 AND NOT 0x8000)"
    using up [OF d3(2), of SC27XX_TSEN_CTRL0 SC27XX_TSEN_ADCLDO_EN 0] by (auto simp: bits w)
  have "(x AND NOT 0x10) OR 0x10 = x OR 0x10" for x :: "16 word" by (rule bit_word_eqI) (auto simp: bit_simps)
  then have "regs d4 = default_registers (regs (ts_dev s))"
    by (intro ext) (simp add: d1(3) d2(3) d3(3) d4(3) default_registers_def)
  then show ?thesis using d1(1) d2(1) d3(1) d4(1,2) by (intro exI [of _ d4]) (simp add: tsenor_restore_default_reg_def)
qed

text \<open>C31: (restoring the sensor) With a driver that does what it documents, and does not write protect the sensor's registers, the command that restores the sensor's registers is answered
  with success, sets and clears exactly the bits of the default values, leaves every other register of the chip as it
  was, and makes the next reading start anew.\<close>

theorem tsensor_restores:
  assumes "pmic_driver nd good sel regs prot" and "good (ts_dev s)" and "head_ok h" and "14 \<le> length rsp"
    and "{0x1B34, 0x1B38, 0x1B40} \<inter> prot = {}"
  shows "\<exists>io. eng_diag_restore_default_reg nd \<lparr>cb_buf = 0x7E # head_bytes h @ rest, cb_rsp = rsp, cb_env = s\<rparr> len rl = Some (14, io)
    \<and> take 14 (cb_rsp io) = 0x7E # head_bytes (h\<lparr>head_len := 12\<rparr>) @ [0, 0, 0, 0, 0x7E]
    \<and> regs (ts_dev (cb_env io)) = default_registers (regs (ts_dev s)) \<and> good (ts_dev (cb_env io)) \<and> \<not> inited (cb_env io)"
proof -
  obtain d' where d': "tsenor_restore_default_reg nd s = Some (s\<lparr>ts_dev := d', inited := False\<rparr>)" "good d'"
    "regs d' = default_registers (regs (ts_dev s))"
    using restore_registers [OF assms(1,2,5)] by blast
  let ?b = "0x7E # head_bytes (h\<lparr>head_len := 12\<rparr>)"
  have "get (?b @ rest) 0 9 = Some ?b" by (simp add: get_def MSG_HEAD_SIZE_def)
  moreover have "put rsp 0 (?b @ [0, 0, 0, 0]) = Some (?b @ [0, 0, 0, 0] @ drop 13 rsp)"
    using assms(4) by (simp add: put_def MSG_HEAD_SIZE_def)
  moreover obtain x r where r: "drop 13 rsp = x # r" using assms(4) by (cases "drop 13 rsp") auto
  moreover have "wr ((?b @ [0, 0, 0, 0]) @ x # r) 13 0x7E = Some ((?b @ [0, 0, 0, 0]) @ 0x7E # r)"
    using update_mid [of "?b @ [0, 0, 0, 0]" x r "0x7E"] by (simp add: wr_def MSG_HEAD_SIZE_def)
  ultimately have "eng_diag_restore_default_reg nd \<lparr>cb_buf = 0x7E # head_bytes h @ rest, cb_rsp = rsp, cb_env = s\<rparr> len rl =
    Some (14, \<lparr>cb_buf = ?b @ rest, cb_rsp = ?b @ [0, 0, 0, 0, 0x7E] @ r, cb_env = s\<lparr>ts_dev := d', inited := False\<rparr>\<rparr>)"
    using d'(1) assms(3) by (simp add: eng_diag_restore_default_reg_def msg_simps)
  then show ?thesis using d'(2,3) by (simp add: MSG_HEAD_SIZE_def)
qed

text \<open>A driver like that: the devices are the selected address and the registers. The registers of the oscillator are
  protected.\<close>

definition ex_prot :: "int set" where "ex_prot = {0x1AE4..0x1B24}"

definition ex_pmic :: "(int \<times> (int \<Rightarrow> 16 word)) nodes" where
  "ex_pmic = \<lparr>nd_open = \<lambda>p d. p = PMIC_GLB_REG \<or> p = PMIC_GLB_VALUE,
     nd_read = \<lambda>p pos n d. (Some (show_hex (unat (snd d (fst d))) @ [10]), d),
     nd_write = \<lambda>p bs d. (True,
       if p = PMIC_GLB_REG then (hex_in bs, snd d)
       else if writable ex_prot (snd d) (fst d) then (fst d, (snd d)(fst d := word_of_int (hex_in bs))) else d)\<rparr>"

lemma ex_pmic_driver: "pmic_driver ex_pmic (\<lambda>_. True) fst snd ex_prot"
proof -
  have "PMIC_GLB_VALUE \<noteq> PMIC_GLB_REG" by (simp add: PMIC_GLB_VALUE_def PMIC_GLB_REG_def)
  then show ?thesis by (simp add: pmic_driver_def ex_pmic_def)
qed

definition ex_tsensor :: "(int \<times> (int \<Rightarrow> 16 word)) tsensor" where
  "ex_tsensor = \<lparr>osc_path = [], outsen_path = [], ts_result = 0, inited = True, ts_dev = (0, \<lambda>_. 0xFFFF)\<rparr>"

definition ex_tsensor_head :: msg_head where
  "ex_tsensor_head = \<lparr>seq_num = 0, head_len = 12, head_type = 0x62, head_subtype = 0\<rparr>"

theorem tsensor_restores_witness:
  "\<exists>io. eng_diag_restore_default_reg ex_pmic
        \<lparr>cb_buf = 0x7E # head_bytes ex_tsensor_head @ [0x32, 0, 0, 0, 0x7E], cb_rsp = replicate 14 0, cb_env = ex_tsensor\<rparr> 14 0 = Some (14, io)
    \<and> take 14 (cb_rsp io) = 0x7E # head_bytes (ex_tsensor_head\<lparr>head_len := 12\<rparr>) @ [0, 0, 0, 0, 0x7E]
    \<and> snd (ts_dev (cb_env io)) = default_registers (\<lambda>_. 0xFFFF) \<and> \<not> inited (cb_env io)"
  using tsensor_restores [OF ex_pmic_driver, where s = ex_tsensor and h = ex_tsensor_head and rsp = "replicate 14 0" and rest = "[0x32, 0, 0, 0, 0x7E]" and len = 14 and rl = 0]
  by (simp add: head_ok_def ex_tsensor_head_def ex_tsensor_def ex_prot_def)

end
