(* ===== verification/NodeModules.thy ===== *)
theory NodeModules
  imports Sysfs
begin

text \<open>
  The small modules around a single node or file: the regulator of the wireless chip (\<open>modules/regulator/regulator.c\<close>), the test of the
  USB connector (\<open>libusb/usbtypec.c\<close>), the firmware version of the touch screen (\<open>libtouchscreen/touchscreen.c\<close>), the
  identities of the chips (\<open>libchipid/chipid.c\<close>), the fuses (\<open>libnefuse/nefuse.c\<close>) and the version of the software package
  (\<open>libgetswpac/getswpac.c\<close>). \<open>g\<close> is the content of uninitialised memory, \<open>errno\<close> the error number of a failing \<open>open\<close> or \<open>read\<close>.
\<close>

section \<open>The regulator\<close>

definition VDDWCN_VOLTAGE :: "byte list" where "VDDWCN_VOLTAGE = cs ''/sys/kernel/debug/LDO_VDDWCN/voltage''"

definition regulator_set_voltage :: "(nat \<Rightarrow> byte) \<Rightarrow> 'd nodes \<Rightarrow> int \<Rightarrow> 'd \<Rightarrow> (int \<times> 'd) option" where
  "regulator_set_voltage g nd vol d =
     (if \<not> nd_open nd VDDWCN_VOLTAGE d then Some (- 1, d)
      else do {
        t \<leftarrow> sprintf (malloc g 5) (show_int vol);
        (let (fine, d') = nd_write nd VDDWCN_VOLTAGE t d in Some (if fine then 0 else - 1, d'))
      })"

definition regulator_get_voltage :: "'d nodes \<Rightarrow> 'd \<Rightarrow> (int \<times> 'd) option" where
  "regulator_get_voltage nd d = (if \<not> nd_open nd VDDWCN_VOLTAGE d then Some (0, d) else read_number nd VDDWCN_VOLTAGE 32 d)"

definition regulator_cali_handler :: "(nat \<Rightarrow> byte) \<Rightarrow> 'd nodes \<Rightarrow> 'd cb_io \<Rightarrow> nat \<Rightarrow> nat \<Rightarrow> (int \<times> 'd cb_io) option" where
  "regulator_cali_handler g nd io len rsplen = do {
     h \<leftarrow> get (cb_buf io) 0 9;
     r1 \<leftarrow> put (cb_rsp io) 0 h;
     act \<leftarrow> map_option de32 (get (cb_buf io) 13 4);
     (ret, d1) \<leftarrow> regulator_set_voltage g nd (if act \<noteq> 0 then 1000 else 900) (cb_env io);
     (v, d2) \<leftarrow> regulator_get_voltage nd d1;
     r2 \<leftarrow> put r1 9 (if v \<noteq> 0 \<and> ret = 0 then le16 0 @ le16 4 @ le32i v else le16 1 @ le16 4 @ le32 0);
     r3 \<leftarrow> wr r2 5 16;
     r4 \<leftarrow> wr r3 17 0x7E;
     Some (18, io\<lparr>cb_rsp := r4, cb_env := d2\<rparr>)
   }"

definition regulator_updates :: "(nat \<Rightarrow> byte) \<Rightarrow> 'd nodes \<Rightarrow> ('d eng_callback \<Rightarrow> 'd eng_callback) list" where
  "regulator_updates g nd = [\<lambda>c. c\<lparr>cb_type := 0x62, cb_subtype := 0, diag_ap_cmd := 0x80, eng_diag_func := Some (regulator_cali_handler g nd)\<rparr>]"

section \<open>The USB connector\<close>

definition USB_TYPEC_CC :: "byte list" where "USB_TYPEC_CC = cs ''/sys/class/typec/port0/typec_cc_polarity_role''"
definition USB_TYPEC_SPEED :: "byte list" where "USB_TYPEC_SPEED = cs ''/sys/class/udc/20f00000.dwc3/current_speed''"

text \<open>The answer overwrites the subtype with the result; data follows only after a positive one.\<close>

definition package_test_result_to_rsp :: "mem \<Rightarrow> mem \<Rightarrow> int \<Rightarrow> byte list \<Rightarrow> (int \<times> mem) option" where
  "package_test_result_to_rsp buf rsp ret dat = do {
     h \<leftarrow> get buf 0 8;
     r1 \<leftarrow> put rsp 0 h;
     r2 \<leftarrow> set_len r1 1 8;
     r3 \<leftarrow> wr r2 8 (if ret < 0 then 1 else 0);
     (if ret > 0 then do {
        r4 \<leftarrow> put r3 9 dat;
        r5 \<leftarrow> set_len r4 1 10;
        r6 \<leftarrow> wr r5 11 0x7E;
        Some (12, r6)
      }
      else do { r4 \<leftarrow> wr r3 9 0x7E; Some (10, r4) })
   }"

text \<open>The result is the count of bytes or -1, and the status when there is one.\<close>

definition typec_get_cc_detect :: "'d nodes \<Rightarrow> 'd \<Rightarrow> int \<times> byte \<times> 'd" where
  "typec_get_cc_detect nd d =
     (if \<not> nd_open nd USB_TYPEC_CC d then (- 1, 0, d)
      else (let (r, d') = nd_read nd USB_TYPEC_CC 0 4 d in
            case r of
              None \<Rightarrow> (- 1, 0, d')
            | Some bs \<Rightarrow> (int (length bs), if bs = cs ''cc_1'' then 0 else if bs = cs ''cc_2'' then 1 else 3, d')))"

text \<open>The last byte read is replaced by the NUL; without any byte that is one in front of the array.\<close>

definition typec_get_speed_detect :: "'d nodes \<Rightarrow> 'd \<Rightarrow> (int \<times> byte \<times> 'd) option" where
  "typec_get_speed_detect nd d =
     (if \<not> nd_open nd USB_TYPEC_SPEED d then Some (- 1, 0, d)
      else (let (r, d') = nd_read nd USB_TYPEC_SPEED 0 12 d in
            case r of
              None \<Rightarrow> Some (- 1, 0, d')
            | Some bs \<Rightarrow>
                (if bs = [] then None
                 else (let t = takeWhile (\<lambda>b. b \<noteq> 0) (butlast bs) in
                       Some (int (length bs), if take 10 t = cs ''high-speed'' then 0 else if take 11 t = cs ''super-speed'' then 1 else 3, d')))))"

definition testTypeC :: "'d nodes \<Rightarrow> 'd cb_io \<Rightarrow> nat \<Rightarrow> nat \<Rightarrow> (int \<times> 'd cb_io) option" where
  "testTypeC nd io len rsplen = do {
     (let (ret, cc, d1) = typec_get_cc_detect nd (cb_env io) in do {
        (ret', sp, d2) \<leftarrow> (if ret < 0 then Some (ret, 0, d1) else typec_get_speed_detect nd d1);
        (n, r) \<leftarrow> package_test_result_to_rsp (cb_buf io) (cb_rsp io) ret' [cc, sp];
        Some (n, io\<lparr>cb_rsp := r, cb_env := d2\<rparr>)
      })
   }"

definition typec_updates :: "'d nodes \<Rightarrow> ('d eng_callback \<Rightarrow> 'd eng_callback) list" where
  "typec_updates nd = [\<lambda>c. c\<lparr>cb_type := 0x38, cb_subtype := 0x20, eng_diag_func := Some (testTypeC nd)\<rparr>]"

section \<open>The touch screen\<close>

definition TS_FW_VERSION_PATH :: "byte list" where "TS_FW_VERSION_PATH = cs ''/sys/touchscreen/firmware_version''"
definition AT_GET_TS_FW :: "byte list" where "AT_GET_TS_FW = cs ''AT+GETFWVER=tp''"
definition TS_FW_VER_LENGTH :: nat where "TS_FW_VER_LENGTH = 8"

text \<open>A text as the answer.\<close>

definition say :: "byte list \<Rightarrow> int \<Rightarrow> 'd cb_io \<Rightarrow> (int \<times> 'd cb_io) option" where
  "say t n io = map_option (\<lambda>r. (n, io\<lparr>cb_rsp := r\<rparr>)) (sprintf (cb_rsp io) t)"

text \<open>The text of a file or node read into a cleared array of \<open>n\<close> bytes that keeps the NUL.\<close>

definition read_text :: "'d nodes \<Rightarrow> byte list \<Rightarrow> nat \<Rightarrow> 'd \<Rightarrow> byte list \<times> 'd" where
  "read_text nd p n d =
     (let (r, d') = nd_read nd p 0 (n - 1) d in (takeWhile (\<lambda>b. b \<noteq> 0) (case r of None \<Rightarrow> [] | Some bs \<Rightarrow> bs), d'))"

definition get_ts_firmware_version :: "int \<Rightarrow> 'd nodes \<Rightarrow> 'd cb_io \<Rightarrow> (int \<times> 'd cb_io) option" where
  "get_ts_firmware_version errno nd io =
     (if \<not> nd_open nd TS_FW_VERSION_PATH (cb_env io) then say (cs ''Open /sys/touchscreen/firmware_version failed.'') errno io
      else
        (let (t, d') = read_text nd TS_FW_VERSION_PATH 128 (cb_env io); io1 = io\<lparr>cb_env := d'\<rparr> in
         if strstr t (cs ''Read error!'') \<noteq> None then say (cs ''Please Resume the phone and try again!'') 0 io1
         else
           (case strstr t (cs ''0x'') of
              Some s \<Rightarrow> say (AT_GET_TS_FW @ cs '':'' @ take TS_FW_VER_LENGTH s) 0 io1
            | None \<Rightarrow>
                (case strstr t (cs ''firmware version:'') of
                   None \<Rightarrow> say (cs ''Read failed!'') 0 io1
                 | Some s \<Rightarrow>
                     (if length t - length s + 19 > 127 then None
                      else say (AT_GET_TS_FW @ cs '':'' @ take TS_FW_VER_LENGTH (drop 19 s)) 0 io1)))))"

definition touchscreen_updates :: "int \<Rightarrow> 'd nodes \<Rightarrow> ('d eng_callback \<Rightarrow> 'd eng_callback) list" where
  "touchscreen_updates errno nd = [\<lambda>c. c\<lparr>at_cmd := AT_GET_TS_FW, eng_linuxcmd_func := Some (get_ts_firmware_version errno nd)\<rparr>]"

section \<open>The identities of the chips\<close>

definition PROC_CMDLINE :: "byte list" where "PROC_CMDLINE = cs ''/proc/cmdline''"

text \<open>The value behind the equals sign is copied into ten bytes; \<open>None\<close> when the sign or the end of the value is missing, when it
  has more than ten characters, or when it has ten and no NUL follows.\<close>

definition boot_value :: "(byte list \<Rightarrow> nat option) \<Rightarrow> byte list \<Rightarrow> byte list option" where
  "boot_value stop s = do {
     e \<leftarrow> strstr s (cs ''='');
     n \<leftarrow> stop (drop 1 e);
     (if n < 10 then Some (take n (drop 1 e)) else None)
   }"

definition pmic_chipid_get :: "int \<Rightarrow> 'd nodes \<Rightarrow> 'd cb_io \<Rightarrow> (int \<times> 'd cb_io) option" where
  "pmic_chipid_get errno nd io =
     (if \<not> nd_open nd PROC_CMDLINE (cb_env io) then Some (errno, io)
      else
        (let (t, d') = read_text nd PROC_CMDLINE 4096 (cb_env io); io1 = io\<lparr>cb_env := d'\<rparr> in
         case strstr t (cs ''androidboot.pmic.chipid'') of
           None \<Rightarrow> say (cs ''Not Find'') 0 io1
         | Some s \<Rightarrow> do { v \<leftarrow> boot_value (index_of 32) s; say (cs ''PMIC:'' @ v) 0 io1 }))"

text \<open>The other value ends at an underscore too. The null pointer of a missing blank is smaller than any place.\<close>

definition first_stop :: "byte list \<Rightarrow> nat option" where
  "first_stop s =
     (case index_of 32 s of
        None \<Rightarrow> None
      | Some tail \<Rightarrow> (case index_of 95 s of None \<Rightarrow> Some tail | Some tmp \<Rightarrow> Some (if tail < tmp then tail else tmp)))"

definition hw_chipid_get :: "int \<Rightarrow> 'd nodes \<Rightarrow> 'd cb_io \<Rightarrow> (int \<times> 'd cb_io) option" where
  "hw_chipid_get errno nd io =
     (if \<not> nd_open nd PROC_CMDLINE (cb_env io) then Some (errno, io)
      else
        (let (t, d') = read_text nd PROC_CMDLINE 4096 (cb_env io); io1 = io\<lparr>cb_env := d'\<rparr> in
         case strstr t (cs ''androidboot.hardware'') of
           None \<Rightarrow> say (cs ''Not Find'') 0 io1
         | Some s \<Rightarrow> do { v \<leftarrow> boot_value first_stop s; say (cs ''BB:'' @ v) 0 io1 }))"

definition chipid_updates :: "int \<Rightarrow> 'd nodes \<Rightarrow> ('d eng_callback \<Rightarrow> 'd eng_callback) list" where
  "chipid_updates errno nd =
     [\<lambda>c. c\<lparr>at_cmd := cs ''AT+CHIPID=PMIC?'', eng_linuxcmd_func := Some (pmic_chipid_get errno nd)\<rparr>,
      \<lambda>c. c\<lparr>at_cmd := cs ''AT+CHIPID=BB?'', eng_linuxcmd_func := Some (hw_chipid_get errno nd)\<rparr>]"

section \<open>The fuses\<close>

definition AT_PMICEFUSE :: "byte list" where "AT_PMICEFUSE = cs ''AT+SPPMICTEST=''"
definition AT_APEFUSE :: "byte list" where "AT_APEFUSE = cs ''AT+SPBBTEST=''"
definition EFUSE_PARA :: "byte list" where "EFUSE_PARA = cs ''GET_EFUSE''"
definition RSP_PMICEFUSE :: "byte list" where "RSP_PMICEFUSE = cs ''+SPPMICTEST:EFUSE=''"
definition RSP_APEFUSE :: "byte list" where "RSP_APEFUSE = cs ''+SPBBTEST:EFUSE=''"
definition AP_EFUSE :: "byte list" where "AP_EFUSE = cs ''/sys/bus/nvmem/devices/sprd-cache-efuse0/nvmem''"
definition PMIC_EFUSE :: "byte list" where "PMIC_EFUSE = cs ''/sys/bus/nvmem/devices/sc27xx-efuse0/nvmem''"
definition AP_BLOCK_SIZE :: nat where "AP_BLOCK_SIZE = 4"
definition PMIC_BLOCK_SIZE :: nat where "PMIC_BLOCK_SIZE = 2"

definition crlf :: "byte list" where "crlf = [13, 10]"

text \<open>A block of \<open>w\<close> bytes as text, the last byte first; the code 1, or a negative one.\<close>

definition efuse_read :: "byte list \<Rightarrow> nat \<Rightarrow> 'd nodes \<Rightarrow> int \<Rightarrow> 'd \<Rightarrow> int \<times> byte list \<times> 'd" where
  "efuse_read p w nd blk d =
     (if \<not> nd_open nd p d then (- 2, [], d)
      else if blk * int w < 0 then (- 3, [], d)
      else (let (r, d') = nd_read nd p (nat blk * w) w d in
            case r of
              None \<Rightarrow> (- 4, [], d')
            | Some bs \<Rightarrow> (if bs = [] then (- 4, [], d') else (1, concat (map hex2 (rev (zfill w bs))), d'))))"

definition pmic_efuse_read :: "'d nodes \<Rightarrow> int \<Rightarrow> 'd \<Rightarrow> int \<times> byte list \<times> 'd" where
  "pmic_efuse_read = efuse_read PMIC_EFUSE PMIC_BLOCK_SIZE"
definition ap_efuse_read :: "'d nodes \<Rightarrow> int \<Rightarrow> 'd \<Rightarrow> int \<times> byte list \<times> 'd" where
  "ap_efuse_read = efuse_read AP_EFUSE AP_BLOCK_SIZE"

text \<open>The request is a text, or a diag message with the text behind its header. The word behind the equals sign is not
  compared with anything; the block is the number in the two characters behind the comma.\<close>

definition efuse_handle :: "byte list \<Rightarrow> byte list \<Rightarrow> ('d nodes \<Rightarrow> int \<Rightarrow> 'd \<Rightarrow> int \<times> byte list \<times> 'd) \<Rightarrow> 'd nodes \<Rightarrow> 'd cb_io \<Rightarrow> (int \<times> 'd cb_io) option" where
  "efuse_handle at ok rd_blk nd io = do {
     b \<leftarrow> rd (cb_buf io) 0;
     p \<leftarrow> cstr_at (cb_buf io) (if b = 0x7E then 9 else 0);
     (if strcaseeq (take (length at) p) at then
        (if length p < length at + length EFUSE_PARA + 1 then None
         else do {
           blk \<leftarrow> atoi_buf (zfill 8 (take 2 (drop (length at + length EFUSE_PARA + 1) p)));
           (let (ret, v, d') = rd_blk nd blk (cb_env io); io1 = io\<lparr>cb_env := d'\<rparr>;
                t = (if ret = 1 then ok @ cs ''0x'' @ v @ crlf @ cs ''OK'' @ crlf else crlf @ cs ''+CME ERROR:'' @ show_int ret @ crlf)
            in say t (int (length t)) io1)
         })
      else (let t = crlf @ cs ''+CME ERROR:4'' @ crlf in say t (int (length t)) io))
   }"

definition pmic_efuse_handle :: "'d nodes \<Rightarrow> 'd cb_io \<Rightarrow> (int \<times> 'd cb_io) option" where
  "pmic_efuse_handle = efuse_handle AT_PMICEFUSE RSP_PMICEFUSE pmic_efuse_read"
definition ap_efuse_handle :: "'d nodes \<Rightarrow> 'd cb_io \<Rightarrow> (int \<times> 'd cb_io) option" where
  "ap_efuse_handle = efuse_handle AT_APEFUSE RSP_APEFUSE ap_efuse_read"

definition efuse_updates :: "'d nodes \<Rightarrow> ('d eng_callback \<Rightarrow> 'd eng_callback) list" where
  "efuse_updates nd =
     [\<lambda>c. c\<lparr>at_cmd := AT_PMICEFUSE, eng_linuxcmd_func := Some (pmic_efuse_handle nd)\<rparr>,
      \<lambda>c. c\<lparr>at_cmd := AT_APEFUSE, eng_linuxcmd_func := Some (ap_efuse_handle nd)\<rparr>]"

section \<open>The version of the software package\<close>

definition SWPAC_INFO :: "byte list" where "SWPAC_INFO = cs ''/vendor/etc/SWPACInfo.txt''"

definition swpac_version_get :: "int \<Rightarrow> 'd nodes \<Rightarrow> 'd cb_io \<Rightarrow> (int \<times> 'd cb_io) option" where
  "swpac_version_get errno nd io =
     (let d = cb_env io; err = crlf @ cs ''ERROR'' @ crlf in
      if \<not> nd_open nd SWPAC_INFO d then say err errno io
      else (let (r, d') = nd_read nd SWPAC_INFO 0 2047 d; io1 = io\<lparr>cb_env := d'\<rparr> in
            case r of
              None \<Rightarrow> say err errno io1
            | Some bs \<Rightarrow> (let t = take 2047 (cs ''+GETSWPAC:'' @ takeWhile (\<lambda>b. b \<noteq> 0) bs) in say t (int (length t)) io1)))"

definition swpac_updates :: "int \<Rightarrow> 'd nodes \<Rightarrow> ('d eng_callback \<Rightarrow> 'd eng_callback) list" where
  "swpac_updates errno nd = [\<lambda>c. c\<lparr>at_cmd := cs ''AT+GETSWPAC?'', eng_linuxcmd_func := Some (swpac_version_get errno nd)\<rparr>]"

text \<open>Each library fills the entries of its commands.\<close>

definition register_regulator :: "(nat \<Rightarrow> byte) \<Rightarrow> 'd nodes \<Rightarrow> 'd eng_callback list \<Rightarrow> 'd eng_callback list \<times> nat" where
  "register_regulator g nd = fill_entries (regulator_updates g nd)"
definition register_typec :: "'d nodes \<Rightarrow> 'd eng_callback list \<Rightarrow> 'd eng_callback list \<times> nat" where
  "register_typec nd = fill_entries (typec_updates nd)"
definition register_touchscreen :: "int \<Rightarrow> 'd nodes \<Rightarrow> 'd eng_callback list \<Rightarrow> 'd eng_callback list \<times> nat" where
  "register_touchscreen errno nd = fill_entries (touchscreen_updates errno nd)"
definition register_chipid :: "int \<Rightarrow> 'd nodes \<Rightarrow> 'd eng_callback list \<Rightarrow> 'd eng_callback list \<times> nat" where
  "register_chipid errno nd = fill_entries (chipid_updates errno nd)"
definition register_efuse :: "'d nodes \<Rightarrow> 'd eng_callback list \<Rightarrow> 'd eng_callback list \<times> nat" where
  "register_efuse nd = fill_entries (efuse_updates nd)"
definition register_swpac :: "int \<Rightarrow> 'd nodes \<Rightarrow> 'd eng_callback list \<Rightarrow> 'd eng_callback list \<times> nat" where
  "register_swpac errno nd = fill_entries (swpac_updates errno nd)"

section \<open>What the host is told\<close>

lemma say_text:
  assumes "length t < length (cb_rsp io)" and "0 \<notin> set t"
  shows "\<exists>r. say t n io = Some (n, io\<lparr>cb_rsp := r\<rparr>) \<and> cstr_at r 0 = Some t"
proof -
  obtain r where "sprintf (cb_rsp io) t = Some r" using assms(1) by (simp add: sprintf_def put_def)
  then show ?thesis using sprintf_cstr [OF _ assms(2)] by (auto simp: say_def)
qed

lemma foldl_radix: "foldl (\<lambda>n b. base * n + digit_value b) x s = base ^ length s * x + radix base s"
proof (induction s rule: rev_induct)
  case (snoc a s)
  then show ?case unfolding radix_snoc by (simp add: distrib_left)
qed (simp add: radix_def)

lemma hex2_digits:
  shows "0 \<notin> set (hex2 b)" and "length (hex2 b) = 2" and "radix 16 (hex2 b @ s) = 16 ^ length s * unat b + radix 16 s"
proof -
  have v: "digit_value (hex_digit (unat b div 16)) = unat b div 16" "digit_value (hex_digit (unat b mod 16)) = unat b mod 16"
    using unat_div16 [of b] by (simp_all add: digit_value_hex)
  show "0 \<notin> set (hex2 b)"
    using hex_digit_range [OF unat_div16 [of b]] hex_digit_range [of "unat b mod 16"] by (auto simp: hex2_def)
  show "length (hex2 b) = 2" by (simp add: hex2_def)
  have "radix 16 (hex2 b @ s) = foldl (\<lambda>n b. 16 * n + digit_value b) (unat b) s"
    using v unfolding radix_def hex2_def by simp
  then show "radix 16 (hex2 b @ s) = 16 ^ length s * unat b + radix 16 s" by (simp only: foldl_radix)
qed

text \<open>A request for a block whose number has at most two digits, on a node that has it.\<close>

lemma efuse_answers:
  assumes "k < 100" and "nd_open nd p d" and "nd_read nd p (k * w) w d = (Some bs, d')" and "length bs = w" and "bs \<noteq> []"
    and "at \<noteq> []" and "hd at \<noteq> 0x7E" and "0 \<notin> set at" and "0 \<notin> set ok" and "length at < 64" and "length ok + 2 * w + 10 < length rsp"
  shows "\<exists>io. efuse_handle at ok (efuse_read p w) nd \<lparr>cb_buf = zfill 128 (at @ EFUSE_PARA @ cs '','' @ show_nat k), cb_rsp = rsp, cb_env = d\<rparr>
      = Some (int (length ok + 2 * w + 8), io)
    \<and> cstr_at (cb_rsp io) 0 = Some (ok @ cs ''0x'' @ concat (map hex2 (rev bs)) @ crlf @ cs ''OK'' @ crlf) \<and> cb_env io = d'"
proof -
  let ?q = "at @ EFUSE_PARA @ cs '','' @ show_nat k"
  let ?v = "concat (map hex2 (rev bs))"
  let ?t = "ok @ cs ''0x'' @ ?v @ crlf @ cs ''OK'' @ crlf"
  have l2: "length (show_nat k) \<le> 2" using show_nat_length [of k 2] assms(1) by simp
  have lq: "length ?q < 128" using l2 assms(10) by (simp add: EFUSE_PARA_def)
  have z: "0 \<notin> set ?q" using show_nat_digits [of k] assms(8) by (auto simp: EFUSE_PARA_def)
  have r: "rd (zfill 128 ?q) 0 = Some (hd at)" using assms(6) by (cases at) (simp_all add: rd_def zfill_def)
  have n: "atoi_buf (zfill 8 (show_nat k)) = Some (int k)"
  proof -
    have "strtol 10 (show_int (int k) @ []) = (int k, [])" using assms(1) by (intro strtol_show_int) auto
    then have "strtol 10 (show_nat k) = (int k, [])" by (simp add: show_int_def)
    then show ?thesis using l2 z by (simp add: atoi_buf_zfill)
  qed
  have "length (concat (map hex2 bs)) = 2 * length bs" for bs by (induction bs) (simp_all add: hex2_digits)
  then have lv: "length ?v = 2 * w" using assms(4) by simp
  have "0 \<notin> set ?t" using assms(9) hex2_digits(1) by (auto simp: crlf_def)
  moreover have lt: "length ?t = length ok + 2 * w + 8" using lv by (simp add: crlf_def)
  ultimately obtain m where m: "say ?t (int (length ok + 2 * w + 8)) \<lparr>cb_buf = zfill 128 ?q, cb_rsp = rsp, cb_env = d'\<rparr> =
      Some (int (length ok + 2 * w + 8), \<lparr>cb_buf = zfill 128 ?q, cb_rsp = m, cb_env = d'\<rparr>)" and c: "cstr_at m 0 = Some ?t"
    using say_text [of ?t "\<lparr>cb_buf = zfill 128 ?q, cb_rsp = rsp, cb_env = d'\<rparr>" "int (length ok + 2 * w + 8)"] assms(11) by auto
  have e: "efuse_read p w nd (int k) d = (1, ?v, d')"
    using assms(2-5) by (simp add: efuse_read_def zfill_def flip: of_nat_mult)
  have t: "take 2 (drop (length at + length EFUSE_PARA + 1) ?q) = show_nat k" using l2 by simp
  have "efuse_handle at ok (efuse_read p w) nd \<lparr>cb_buf = zfill 128 ?q, cb_rsp = rsp, cb_env = d\<rparr> =
      say ?t (int (length ?t)) \<lparr>cb_buf = zfill 128 ?q, cb_rsp = rsp, cb_env = d'\<rparr>"
    using e t r n cstr_at_zfill [OF z lq] assms(7) by (simp add: efuse_handle_def Let_def del: cs_simps)
  then show ?thesis unfolding lt m using c by auto
qed

text \<open>: (the fuses are reported) When the fuses hold the bytes \<open>D\<close>, the request for a block of the processor is answered with OK and eight
  digits of base 16, which are the value of the block's four bytes as a little-endian number.\<close>

theorem ap_efuse_reported:
  assumes "k < 100" and "4 * k + 4 \<le> length D" and "nd_open nd AP_EFUSE d"
    and "nd_read nd AP_EFUSE (4 * k) 4 d = (Some (take 4 (drop (4 * k) D)), d')" and "64 \<le> length rsp"
  shows "\<exists>io v. ap_efuse_handle nd
        \<lparr>cb_buf = zfill 128 (cs ''AT+SPBBTEST=GET_EFUSE,'' @ show_nat k), cb_rsp = rsp, cb_env = d\<rparr> = Some (32, io)
    \<and> cstr_at (cb_rsp io) 0 = Some (cs ''+SPBBTEST:EFUSE=0x'' @ v @ crlf @ cs ''OK'' @ crlf)
    \<and> length v = 8 \<and> radix 16 v = de32 (take 4 (drop (4 * k) D)) \<and> cb_env io = d'"
proof -
  have "\<exists>x0 x1 x2 x3. bs = [x0, x1, x2, x3]" if "length bs = 4" for bs :: "byte list"
    using that by (auto simp: eval_nat_numeral length_Suc_conv)
  moreover have "length (take 4 (drop (4 * k) D)) = 4" using assms(2) by simp
  ultimately obtain x0 x1 x2 x3 where b: "take 4 (drop (4 * k) D) = [x0, x1, x2, x3]" by blast
  let ?v = "concat (map hex2 (rev [x0, x1, x2, x3]))"
  have "radix 16 ?v = de32 [x0, x1, x2, x3]" using hex2_digits(3) [of x0 "[]"] hex2_digits(2)
    by (simp add: hex2_digits(3) de32_def radix_def [of _ "[]"])
  moreover have "length ?v = 8" by (simp add: hex2_digits(2))
  moreover have "\<exists>io. efuse_handle AT_APEFUSE RSP_APEFUSE (efuse_read AP_EFUSE 4) nd
        \<lparr>cb_buf = zfill 128 (AT_APEFUSE @ EFUSE_PARA @ cs '','' @ show_nat k), cb_rsp = rsp, cb_env = d\<rparr> = Some (int (length RSP_APEFUSE + 2 * 4 + 8), io)
      \<and> cstr_at (cb_rsp io) 0 = Some (RSP_APEFUSE @ cs ''0x'' @ ?v @ crlf @ cs ''OK'' @ crlf) \<and> cb_env io = d'"
  proof (rule efuse_answers)
    show "nd_read nd AP_EFUSE (k * 4) 4 d = (Some [x0, x1, x2, x3], d')" using assms(4) unfolding b by (simp only: mult.commute)
  qed (use assms(1,3,5) in \<open>simp_all add: AT_APEFUSE_def RSP_APEFUSE_def\<close>)
  moreover have "AT_APEFUSE @ EFUSE_PARA @ cs '','' @ show_nat k = cs ''AT+SPBBTEST=GET_EFUSE,'' @ show_nat k"
    "RSP_APEFUSE @ cs ''0x'' @ x = cs ''+SPBBTEST:EFUSE=0x'' @ x" "length RSP_APEFUSE + 2 * 4 + 8 = 32" for x
    by (simp_all add: AT_APEFUSE_def EFUSE_PARA_def RSP_APEFUSE_def)
  ultimately show ?thesis
    unfolding ap_efuse_handle_def ap_efuse_read_def AP_BLOCK_SIZE_def b by (metis of_nat_numeral)
qed

definition ex_fuses :: "byte list nodes" where
  "ex_fuses = \<lparr>nd_open = \<lambda>p d. p = AP_EFUSE, nd_read = \<lambda>p pos n d. (Some (take n (drop pos d)), d), nd_write = \<lambda>p bs d. (False, d)\<rparr>"

theorem ap_efuse_reported_witness:
  "\<exists>io v. ap_efuse_handle ex_fuses
        \<lparr>cb_buf = zfill 128 (cs ''AT+SPBBTEST=GET_EFUSE,'' @ show_nat 1), cb_rsp = replicate 64 0, cb_env = [0, 0, 0, 0, 0x78, 0x56, 0x34, 0x12]\<rparr> = Some (32, io)
    \<and> cstr_at (cb_rsp io) 0 = Some (cs ''+SPBBTEST:EFUSE=0x'' @ v @ crlf @ cs ''OK'' @ crlf)
    \<and> length v = 8 \<and> radix 16 v = 0x12345678 \<and> cb_env io = [0, 0, 0, 0, 0x78, 0x56, 0x34, 0x12]"
  using ap_efuse_reported [of 1 "[0, 0, 0, 0, 0x78, 0x56, 0x34, 0x12]" ex_fuses "[0, 0, 0, 0, 0x78, 0x56, 0x34, 0x12]"
      "[0, 0, 0, 0, 0x78, 0x56, 0x34, 0x12]" "replicate 64 0"]
  by (simp add: ex_fuses_def de32_def del: cs_simps)

text \<open>A version behind the words \<open>firmware version: \<close> loses its first character: \<open>sizeof\<close> counts the NUL as well.\<close>

lemma touch_version_cut:
  assumes "nd_open nd TS_FW_VERSION_PATH (cb_env io)"
    and "nd_read nd TS_FW_VERSION_PATH 0 127 (cb_env io) = (Some (cs ''firmware version: A5''), d')" and "32 \<le> length (cb_rsp io)"
  shows "\<exists>r. get_ts_firmware_version e nd io = Some (0, io\<lparr>cb_env := d', cb_rsp := r\<rparr>) \<and> cstr_at r 0 = Some (cs ''AT+GETFWVER=tp:5'')"
proof -
  have "\<exists>r. say (cs ''AT+GETFWVER=tp:5'') 0 (io\<lparr>cb_env := d'\<rparr>) = Some (0, io\<lparr>cb_env := d', cb_rsp := r\<rparr>) \<and> cstr_at r 0 = Some (cs ''AT+GETFWVER=tp:5'')"
    using say_text [of "cs ''AT+GETFWVER=tp:5''" "io\<lparr>cb_env := d'\<rparr>" 0] assms(3) by simp
  then show ?thesis
    using assms(1,2) by (simp add: get_ts_firmware_version_def read_text_def AT_GET_TS_FW_def TS_FW_VER_LENGTH_def)
qed

end
