(* ===== verification/MmiResult.thy ===== *)
theory MmiResult
  imports TsxData Sysfs Config
begin

text \<open>
  The results of the factory tests (\<open>modules/libap_opt/mmiresult.c\<close>, \<open>mmiresult_register.c\<close>): three files of 256 bytes that the host
  reads and writes, one of which is created from the table of supported tests when it does not exist. \<open>g\<close> is the
  content of uninitialised memory; allocation succeeds.
\<close>

section \<open>The table of supported tests\<close>

definition MAX_BBAT_ITEM_COUNT :: nat where "MAX_BBAT_ITEM_COUNT = 64"
definition MAX_LINE_LEN :: nat where "MAX_LINE_LEN = 256"
definition BBAT_TEST_FILE_PATH :: "byte list" where "BBAT_TEST_FILE_PATH = cs ''/mnt/vendor/BBATtest.txt''"
definition PCBA_TEST_FILE_PATH :: "byte list" where "PCBA_TEST_FILE_PATH = cs ''/mnt/vendor/PCBAtest.txt''"
definition WHOLE_PHONE_TEST_FILE_PATH :: "byte list" where "WHOLE_PHONE_TEST_FILE_PATH = cs ''/mnt/vendor/wholephonetest.txt''"
definition ENG_BBAT_SUPPORT_CONFIG :: "byte list" where "ENG_BBAT_SUPPORT_CONFIG = cs ''/vendor/etc/BBAT.conf''"

text \<open>An entry of the table: \<open>id\<close> and \<open>support\<close>. The static table and the files are the state.\<close>

type_synonym hardware_result = "byte \<times> byte"

record 'p mmi =
  bbat_support_result :: "hardware_result list"
  mmi_fs :: "'p fsys"

text \<open>The length of the text in front of the tab, and its number, in ten bytes.\<close>

definition parse_string :: "byte list \<Rightarrow> (nat \<times> byte) option" where
  "parse_string buf =
     (case index_of 9 buf of
        None \<Rightarrow> Some (0, 0)
      | Some n \<Rightarrow> (if n < 10 then map_option (\<lambda>v. (n, word_of_int v)) (atoi_buf (zfill 10 (take n buf))) else None))"

text \<open>Two numbers that a tab follows; the inner \<open>None\<close> is -1.\<close>

definition parse_2_entries :: "byte list \<Rightarrow> hardware_result option option" where
  "parse_2_entries s = do {
     (n, a) \<leftarrow> parse_string s;
     (if n = 0 then Some None
      else do {
        (m, b) \<leftarrow> parse_string (drop (n + 1) s);
        Some (if m = 0 then None else Some (a, b))
      })
   }"

text \<open>The lines that begin with a digit, up to one that cannot be parsed; a line too many leaves the table.\<close>

function bbat_lines :: "byte list \<Rightarrow> hardware_result list \<Rightarrow> hardware_result list option" where
  "bbat_lines ct tab =
     (case fgets MAX_LINE_LEN ct of
        None \<Rightarrow> Some tab
      | Some (buf, rest) \<Rightarrow>
          (let s = takeWhile (\<lambda>b. b \<noteq> 0) buf in
           if s = [] \<or> \<not> is_digit (hd s) then bbat_lines rest tab
           else
             (case parse_2_entries s of
                None \<Rightarrow> None
              | Some None \<Rightarrow> Some tab
              | Some (Some e) \<Rightarrow> (if length tab < MAX_BBAT_ITEM_COUNT then bbat_lines rest (tab @ [e]) else None))))"
  by pat_completeness auto
termination
  by (relation "measure (\<lambda>(ct, tab). length ct)") (auto dest: fgets_shorter [rotated] simp: MAX_LINE_LEN_def)

declare bbat_lines.simps [simp del]

definition mmi_parse_config :: "'p fsys \<Rightarrow> hardware_result list option" where
  "mmi_parse_config s =
     (if fs_open ENG_BBAT_SUPPORT_CONFIG s
      then bbat_lines (if fs_ioerr s ENG_BBAT_SUPPORT_CONFIG then [] else fs_content ENG_BBAT_SUPPORT_CONFIG s) []
      else Some [])"

text \<open>The table goes by the order of the lines: the number in a line is stored, but nothing looks at it.\<close>

definition bbat_table :: "hardware_result list \<Rightarrow> byte list" where
  "bbat_table tab = concat (map (\<lambda>i. [2, word_of_nat i, snd (tab ! i), 0]) [0..<MAX_BBAT_ITEM_COUNT])"

definition eng_init_test_file :: "'p mmi \<Rightarrow> (int \<times> 'p mmi) option" where
  "eng_init_test_file e = do {
     rows \<leftarrow> mmi_parse_config (mmi_fs e);
     (let tab = rows @ replicate (MAX_BBAT_ITEM_COUNT - length rows) (0, 0);
          e1 = e\<lparr>bbat_support_result := tab\<rparr>
      in if fs_exists BBAT_TEST_FILE_PATH (mmi_fs e) then Some (1, e1)
         else
           (case fs_creat BBAT_TEST_FILE_PATH (mmi_fs e) of
              None \<Rightarrow> Some (0, e1)
            | Some s1 \<Rightarrow> Some (1, e1\<lparr>mmi_fs := snd (fs_write BBAT_TEST_FILE_PATH 0 (bbat_table tab) s1)\<rparr>)))
   }"

section \<open>The commands\<close>

definition mmi_path :: "nat \<Rightarrow> byte list option" where
  "mmi_path t =
     (if t = 0 then Some WHOLE_PHONE_TEST_FILE_PATH else if t = 1 then Some PCBA_TEST_FILE_PATH
      else if t = 2 then Some BBAT_TEST_FILE_PATH else None)"

text \<open>The type of the test is behind the message header and the command's header, the data behind the type. In the answer the
  type is never set.\<close>

definition eng_diag_read_mmi :: "(nat \<Rightarrow> byte) \<Rightarrow> mem \<Rightarrow> mem \<Rightarrow> 'p fsys \<Rightarrow> (int \<times> mem) option" where
  "eng_diag_read_mmi g buf rsp s = do {
     h \<leftarrow> read_head buf 1;
     t \<leftarrow> map_option de16 (get buf 13 2);
     (let r = (case mmi_path t of None \<Rightarrow> None | Some p \<Rightarrow> if fs_open p s then fs_read p 0 256 s else None);
          dat = (case r of None \<Rightarrow> [] | Some bs \<Rightarrow> bs)
      in do {
        (rsp', n) \<leftarrow> raw_packet rsp (head_bytes (h\<lparr>head_len := 270\<rparr>) @ le16 (if r = None then 1 else 0) @ le16 258 @ map g [12..<14] @
          dat @ map g [14 + length dat..<270]);
        Some (int n, rsp')
      })
   }"

definition eng_diag_write_mmi :: "mem \<Rightarrow> mem \<Rightarrow> 'p fsys \<Rightarrow> (int \<times> mem \<times> 'p fsys) option" where
  "eng_diag_write_mmi buf rsp s = do {
     h \<leftarrow> read_head buf 1;
     t \<leftarrow> map_option de16 (get buf 13 2);
     (fine, s') \<leftarrow> (case mmi_path t of
         None \<Rightarrow> Some (False, s)
       | Some p \<Rightarrow> (if \<not> fs_open p s then Some (False, s)
          else do { d \<leftarrow> get buf 15 256; (let (n, s1) = fs_write p 0 d s in Some (0 \<le> n, s1)) }));
     (rsp', n) \<leftarrow> raw_packet rsp (head_bytes (h\<lparr>head_len := 12\<rparr>) @ le16 (if fine then 0 else 1) @ le16 0);
     Some (int n, rsp', s')
   }"

definition eng_diag_read_mmi_interface :: "(nat \<Rightarrow> byte) \<Rightarrow> mem \<Rightarrow> mem \<Rightarrow> 'p mmi \<Rightarrow> (int \<times> mem \<times> 'p mmi) option" where
  "eng_diag_read_mmi_interface g buf rsp e = do {
     (_, e1) \<leftarrow> eng_init_test_file e;
     (n, r) \<leftarrow> eng_diag_read_mmi g buf rsp (mmi_fs e1);
     Some (n, r, e1)
   }"

definition eng_diag_write_mmi_interface :: "mem \<Rightarrow> mem \<Rightarrow> 'p mmi \<Rightarrow> (int \<times> mem \<times> 'p mmi) option" where
  "eng_diag_write_mmi_interface buf rsp e = do {
     (n, r, s) \<leftarrow> eng_diag_write_mmi buf rsp (mmi_fs e);
     Some (n, r, e\<lparr>mmi_fs := s\<rparr>)
   }"

definition DIAG_AP_CMD_READ_MMI :: nat where "DIAG_AP_CMD_READ_MMI = 0x13"
definition DIAG_AP_CMD_WRITE_MMI :: nat where "DIAG_AP_CMD_WRITE_MMI = 0x14"

definition mmi_cmd :: "(mem \<Rightarrow> mem \<Rightarrow> 'p mmi \<Rightarrow> (int \<times> mem \<times> 'p mmi) option) \<Rightarrow> 'p mmi cb_io \<Rightarrow> nat \<Rightarrow> nat \<Rightarrow> (int \<times> 'p mmi cb_io) option" where
  "mmi_cmd f io len rsplen = do {
     (n, rsp, e) \<leftarrow> f (cb_buf io) (cb_rsp io) (cb_env io);
     Some (n, io\<lparr>cb_rsp := rsp, cb_env := e\<rparr>)
   }"

definition mmi_updates :: "(nat \<Rightarrow> byte) \<Rightarrow> ('p mmi eng_callback \<Rightarrow> 'p mmi eng_callback) list" where
  "mmi_updates g = map (\<lambda>(k, f) c. c\<lparr>cb_type := 0x62, cb_subtype := 0, diag_ap_cmd := word_of_nat k, eng_diag_func := Some (mmi_cmd f)\<rparr>)
     [(DIAG_AP_CMD_READ_MMI, eng_diag_read_mmi_interface g), (DIAG_AP_CMD_WRITE_MMI, eng_diag_write_mmi_interface)]"

definition register_mmi :: "(nat \<Rightarrow> byte) \<Rightarrow> 'p mmi eng_callback list \<Rightarrow> 'p mmi eng_callback list \<times> nat" where
  "register_mmi g = fill_entries (mmi_updates g)"

section \<open>What was written is read\<close>

lemma mmi_paths_differ: "WHOLE_PHONE_TEST_FILE_PATH \<noteq> BBAT_TEST_FILE_PATH" "PCBA_TEST_FILE_PATH \<noteq> BBAT_TEST_FILE_PATH"
  by (simp_all add: WHOLE_PHONE_TEST_FILE_PATH_def BBAT_TEST_FILE_PATH_def PCBA_TEST_FILE_PATH_def)

text \<open>The preparation of the third file leaves an existing file as it is.\<close>

lemma fs_write_other: "p \<noteq> q \<Longrightarrow> fs_data (snd (fs_write q off bs s)) p = fs_data s p \<and> fs_may (snd (fs_write q off bs s)) = fs_may s
    \<and> fs_ioerr (snd (fs_write q off bs s)) = fs_ioerr s"
  by (simp add: fs_write_def Let_def)

lemma fs_creat_other: "fs_creat q s = Some s' \<Longrightarrow> p \<noteq> q \<Longrightarrow> fs_data s' p = fs_data s p \<and> fs_may s' = fs_may s \<and> fs_ioerr s' = fs_ioerr s"
  by (auto simp: fs_creat_def split: if_splits)

lemma init_keeps:
  assumes "mmi_parse_config (mmi_fs e) \<noteq> None" and "fs_open p (mmi_fs e)"
  shows "\<exists>n e1. eng_init_test_file e = Some (n, e1) \<and> fs_open p (mmi_fs e1) \<and> fs_content p (mmi_fs e1) = fs_content p (mmi_fs e)
    \<and> fs_ioerr (mmi_fs e1) p = fs_ioerr (mmi_fs e) p"
proof -
  obtain rows where r: "mmi_parse_config (mmi_fs e) = Some rows" using assms(1) by blast
  show ?thesis
  proof (cases "fs_exists BBAT_TEST_FILE_PATH (mmi_fs e)")
    case True
    then show ?thesis using r assms(2) by (simp add: eng_init_test_file_def Let_def)
  next
    case False
    then have p: "p \<noteq> BBAT_TEST_FILE_PATH" using assms(2) by (auto simp: fs_open_def fs_exists_def)
    show ?thesis
    proof (cases "fs_creat BBAT_TEST_FILE_PATH (mmi_fs e)")
      case None
      then show ?thesis using r False assms(2) by (simp add: eng_init_test_file_def Let_def)
    next
      case (Some s1)
      then show ?thesis
        using r False assms(2) p fs_creat_other [OF Some p]
          fs_write_other [OF p, of 0 "bbat_table (rows @ replicate (MAX_BBAT_ITEM_COUNT - length rows) (0, 0))" s1]
        by (simp add: eng_init_test_file_def Let_def fs_open_def fs_content_def)
    qed
  qed
qed

lemma mmi_read_answer:
  assumes "head_ok h" and "length conf = 4" and "t < 65536" and "mmi_path t = Some p" and "fs_open p s" and "\<not> fs_ioerr s p"
    and "256 \<le> length (fs_content p s)" and "272 \<le> length rsp"
  shows "eng_diag_read_mmi g (0x7E # head_bytes h @ conf @ le16 t @ x) rsp s =
    Some (272, 0x7E # head_bytes (h\<lparr>head_len := 270\<rparr>) @ le16 0 @ le16 258 @ [g 12, g 13] @ take 256 (fs_content p s) @ 0x7E # drop 272 rsp)"
proof -
  have "get (0x7E # head_bytes h @ conf @ le16 t @ x) 13 2 = Some (le16 t)"
    using get_pre [of 13 "0x7E # head_bytes h @ conf" 2 "le16 t" x] assms(2) by (simp add: MSG_HEAD_SIZE_def)
  moreover have "[12..<14] = [12, 13::nat]" by (simp add: upt_rec)
  moreover have "raw_packet rsp (head_bytes (h\<lparr>head_len := 270\<rparr>) @ le16 0 @ le16 258 @ [g 12, g 13] @ take 256 (fs_content p s)) =
      Some (0x7E # head_bytes (h\<lparr>head_len := 270\<rparr>) @ le16 0 @ le16 258 @ [g 12, g 13] @ take 256 (fs_content p s) @ 0x7E # drop 272 rsp, 272)"
    using assms(7,8) by (subst raw_packet_ok) (simp_all add: MSG_HEAD_SIZE_def)
  ultimately show ?thesis
    using assms(1,3-7) by (simp add: eng_diag_read_mmi_def msg_simps fs_read_def de16_le16)
qed

lemma mmi_write_answer:
  assumes "head_ok h" and "length conf = 4" and "t < 65536" and "mmi_path t = Some p" and "fs_open p s" and "\<not> fs_ioerr s p"
    and "fs_cap s p = None" and "length d = 256" and "14 \<le> length rsp"
  shows "\<exists>s'. eng_diag_write_mmi (0x7E # head_bytes h @ conf @ le16 t @ d @ x) rsp s =
      Some (14, 0x7E # head_bytes (h\<lparr>head_len := 12\<rparr>) @ le16 0 @ le16 0 @ 0x7E # drop 14 rsp, s')
    \<and> fs_open p s' \<and> \<not> fs_ioerr s' p \<and> take 256 (fs_content p s') = d \<and> 256 \<le> length (fs_content p s')
    \<and> mmi_parse_config s' = mmi_parse_config s"
proof -
  have t: "get (0x7E # head_bytes h @ conf @ le16 t @ d @ x) 13 2 = Some (le16 t)"
    using get_pre [of 13 "0x7E # head_bytes h @ conf" 2 "le16 t" "d @ x"] assms(2) by (simp add: MSG_HEAD_SIZE_def)
  have d: "get (0x7E # head_bytes h @ conf @ le16 t @ d @ x) 15 256 = Some d"
    using get_pre [of 15 "0x7E # head_bytes h @ conf @ le16 t" 256 d x] assms(2,8) by (simp add: MSG_HEAD_SIZE_def)
  let ?s = "s\<lparr>fs_data := (fs_data s)(p \<mapsto> d @ drop 256 (fs_content p s))\<rparr>"
  have w: "fs_write p 0 d s = (256, ?s)"
    using assms(6-8) by (simp add: fs_write_def overlay_0)
  have "raw_packet rsp (head_bytes (h\<lparr>head_len := 12\<rparr>) @ le16 0 @ le16 0) =
      Some (0x7E # head_bytes (h\<lparr>head_len := 12\<rparr>) @ le16 0 @ le16 0 @ 0x7E # drop 14 rsp, 14)"
    using assms(9) by (subst raw_packet_ok) (simp_all add: MSG_HEAD_SIZE_def)
  then have "eng_diag_write_mmi (0x7E # head_bytes h @ conf @ le16 t @ d @ x) rsp s =
      Some (14, 0x7E # head_bytes (h\<lparr>head_len := 12\<rparr>) @ le16 0 @ le16 0 @ 0x7E # drop 14 rsp, ?s)"
    using t d w assms(1,3,4,5) by (simp add: eng_diag_write_mmi_def msg_simps de16_le16)
  moreover have "fs_open p ?s \<and> \<not> fs_ioerr ?s p \<and> take 256 (fs_content p ?s) = d \<and> 256 \<le> length (fs_content p ?s)"
    using assms(5,6,8) by (simp add: fs_open_def fs_content_def)
  moreover have "p \<noteq> ENG_BBAT_SUPPORT_CONFIG" using assms(4)
    by (auto simp: mmi_path_def WHOLE_PHONE_TEST_FILE_PATH_def PCBA_TEST_FILE_PATH_def BBAT_TEST_FILE_PATH_def ENG_BBAT_SUPPORT_CONFIG_def split: if_splits)
  then have "mmi_parse_config ?s = mmi_parse_config s" by (simp add: mmi_parse_config_def fs_open_def fs_content_def)
  ultimately show ?thesis by blast
qed

text \<open>: (test results survive) For each of the three types whose file exists and can be written, a request that writes 256 bytes of results
  is answered with success, and the next reading request of that type is answered with success and the same bytes,
  whatever the table of supported tests holds, as long as it fits.\<close>

theorem mmi_roundtrip:
  assumes "head_ok h" and "head_ok h'" and "length conf = 4" and "length conf' = 4" and "mmi_path t = Some p" and "length d = 256"
    and "fs_open p (mmi_fs e)" and "\<not> fs_ioerr (mmi_fs e) p" and "fs_cap (mmi_fs e) p = None"
    and "mmi_parse_config (mmi_fs e) \<noteq> None" and "14 \<le> length rsp" and "272 \<le> length rsp'"
  shows "\<exists>e1 e2. eng_diag_write_mmi_interface (0x7E # head_bytes h @ conf @ le16 t @ d @ x) rsp e =
        Some (14, 0x7E # head_bytes (h\<lparr>head_len := 12\<rparr>) @ le16 0 @ le16 0 @ 0x7E # drop 14 rsp, e1)
    \<and> eng_diag_read_mmi_interface g (0x7E # head_bytes h' @ conf' @ le16 t @ y) rsp' e1 =
        Some (272, 0x7E # head_bytes (h'\<lparr>head_len := 270\<rparr>) @ le16 0 @ le16 258 @ [g 12, g 13] @ d @ 0x7E # drop 272 rsp', e2)"
proof -
  have t: "t < 65536" using assms(5) by (auto simp: mmi_path_def split: if_splits)
  obtain s' where w: "eng_diag_write_mmi (0x7E # head_bytes h @ conf @ le16 t @ d @ x) rsp (mmi_fs e) =
      Some (14, 0x7E # head_bytes (h\<lparr>head_len := 12\<rparr>) @ le16 0 @ le16 0 @ 0x7E # drop 14 rsp, s')"
    and s': "fs_open p s'" "\<not> fs_ioerr s' p" "take 256 (fs_content p s') = d" "256 \<le> length (fs_content p s')"
      "mmi_parse_config s' = mmi_parse_config (mmi_fs e)"
    using mmi_write_answer [OF assms(1,3) t assms(5,7,8,9,6,11)] by blast
  let ?e = "e\<lparr>mmi_fs := s'\<rparr>"
  obtain n e1 where i: "eng_init_test_file ?e = Some (n, e1)" "fs_open p (mmi_fs e1)" "fs_content p (mmi_fs e1) = fs_content p s'"
    "\<not> fs_ioerr (mmi_fs e1) p"
    using init_keeps [of ?e p] s' assms(10) by auto
  have "eng_diag_read_mmi g (0x7E # head_bytes h' @ conf' @ le16 t @ y) rsp' (mmi_fs e1) =
      Some (272, 0x7E # head_bytes (h'\<lparr>head_len := 270\<rparr>) @ le16 0 @ le16 258 @ [g 12, g 13] @ d @ 0x7E # drop 272 rsp')"
    using mmi_read_answer [OF assms(2,4) t assms(5) i(2,4) _ assms(12), of g y] s'(3,4) i(3) by simp
  then show ?thesis using w i(1) by (simp add: eng_diag_write_mmi_interface_def eng_diag_read_mmi_interface_def)
qed

text \<open>A phone whose file of results of the second type exists and is empty, without a table of supported tests.\<close>

definition ex_mmi :: "(byte list \<Rightarrow> byte list) mmi" where
  "ex_mmi = \<lparr>bbat_support_result = [], mmi_fs = tsx_sample\<lparr>fs_data := [PCBA_TEST_FILE_PATH \<mapsto> []]\<rparr>\<rparr>"

theorem mmi_roundtrip_witness:
  "\<exists>e1 e2. eng_diag_write_mmi_interface (0x7E # head_bytes (sample_head 270 0x62 0) @ [0x14, 0, 2, 1] @ le16 1 @ replicate 256 7 @ [0x7E]) (replicate 14 0) ex_mmi =
        Some (14, 0x7E # head_bytes ((sample_head 270 0x62 0)\<lparr>head_len := 12\<rparr>) @ le16 0 @ le16 0 @ 0x7E # drop 14 (replicate 14 0), e1)
    \<and> eng_diag_read_mmi_interface (\<lambda>_. 0) (0x7E # head_bytes (sample_head 14 0x62 0) @ [0x13, 0, 2, 0] @ le16 1 @ [0x7E]) (replicate 272 0) e1 =
        Some (272, 0x7E # head_bytes ((sample_head 14 0x62 0)\<lparr>head_len := 270\<rparr>) @ le16 0 @ le16 258 @ [0, 0] @ replicate 256 7 @ 0x7E # drop 272 (replicate 272 0), e2)"
proof (rule mmi_roundtrip [where p = PCBA_TEST_FILE_PATH and g = "\<lambda>_. 0"])
  show "mmi_parse_config (mmi_fs ex_mmi) \<noteq> None"
    by (simp add: mmi_parse_config_def fs_open_def ex_mmi_def PCBA_TEST_FILE_PATH_def ENG_BBAT_SUPPORT_CONFIG_def)
qed (simp_all add: head_ok_def sample_head_def mmi_path_def ex_mmi_def tsx_sample_def fs_open_def)

end
