(* ===== verification/FtMode.thy ===== *)
theory FtMode
  imports MiscData Sysfs
begin

text \<open>
  The factory mode (\<open>modules/libftmode/ftmode.c\<close>): the mode in which the phone was started is read from the command line of the kernel,
  the mode of the next start is written to the misc data partition, by number or by name. The module carries its own copy of
  the partition's functions, which is that of \<open>MiscData\<close>.
\<close>

section \<open>The names of the modes\<close>

definition TESTMODE_OFFSET :: nat where "TESTMODE_OFFSET = 9248"
definition UBOOT_TESTMOD_CHECKSUM :: nat where "UBOOT_TESTMOD_CHECKSUM = 0x53464D00"
definition AT_CMD_GETTESTMODE :: "byte list" where "AT_CMD_GETTESTMODE = cs ''AT+GETTESTMODE?''"
definition AT_CMD_SETTESTMODE :: "byte list" where "AT_CMD_SETTESTMODE = cs ''AT+SETTESTMODE=''"
definition CMDLINE_FIRST_MODE_FLAG :: "byte list" where "CMDLINE_FIRST_MODE_FLAG = cs ''first_mode=''"
definition CMDLINE_CALI_MODE_FLAG :: "byte list" where "CMDLINE_CALI_MODE_FLAG = cs ''calibration=''"
definition CMDLINE_FILE :: "byte list" where "CMDLINE_FILE = cs ''/proc/cmdline''"

definition id_first_mode :: "(nat \<times> byte list) list" where
  "id_first_mode =
     [(0x00, cs ''NORMAL''), (0x01, cs ''GSMCAL''), (0x02, cs ''GSMFT''), (0x03, cs ''WCDMACAL''), (0x04, cs ''WCDMAFT''),
      (0x05, cs ''TDSCAL''), (0x06, cs ''TDSFT''), (0x07, cs ''LTECAL''), (0x08, cs ''LTEFT''), (0x0B, cs ''NRCAL''),
      (0x0C, cs ''NRFT''), (0x0D, cs ''NRMMWCAL''), (0x0E, cs ''NRMMWFT''), (0x0F, cs ''C2KCAL''), (0x10, cs ''C2KFT''),
      (0x11, cs ''BBAT''), (0x12, cs ''NATIVEMMI''), (0x13, cs ''APKMMI''), (0x14, cs ''NBIOTCAL''), (0x15, cs ''NBIOTFT''),
      (0x16, cs ''UPT'')]"

definition id_cali_mode :: "(nat \<times> byte list) list" where
  "id_cali_mode =
     [(0, cs ''NORMAL''), (1, cs ''GSMCAL''), (5, cs ''GSMFT''), (7, cs ''TDSCAL''), (8, cs ''TDSFT''), (11, cs ''WCDMACAL''),
      (12, cs ''WCDMAFT''), (16, cs ''LTECAL''), (17, cs ''LTEFT''), (18, cs ''C2KCAL''), (19, cs ''C2KFT''), (24, cs ''NRCAL''),
      (25, cs ''NRFT'')]"

definition findIdWithName :: "byte list \<Rightarrow> nat" where
  "findIdWithName n = (case List.find (\<lambda>(i, m). strcaseeq m n) id_first_mode of None \<Rightarrow> 0xFF | Some (i, m) \<Rightarrow> i)"

definition findNameWithId :: "nat \<Rightarrow> nat \<Rightarrow> byte list option" where
  "findNameWithId i modeFlag = map_option snd (List.find (\<lambda>(j, m). j = i) (if modeFlag = 0 then id_first_mode else id_cali_mode))"

section \<open>The commands\<close>

text \<open>The module's own \<open>isspace\<close>, and \<open>trim\<close>.\<close>

definition isspace3 :: "byte \<Rightarrow> bool" where "isspace3 c \<longleftrightarrow> c = 13 \<or> c = 10 \<or> c = 32"

definition trim :: "byte list \<Rightarrow> byte list" where
  "trim s = rev (dropWhile isspace3 (rev (dropWhile isspace3 s)))"

text \<open>The value of a parameter, in eight bytes: up to a blank (or a comma), or two characters when there is none.\<close>

definition parse_key_value :: "byte list \<Rightarrow> byte list \<Rightarrow> nat \<Rightarrow> int option" where
  "parse_key_value buf key flag_mode = do {
     v \<leftarrow> (case strstr buf key of
         None \<Rightarrow> Some []
       | Some s \<Rightarrow>
           (case strchr s 61 of
              None \<Rightarrow> Some []
            | Some e \<Rightarrow>
                (let t = drop 1 e;
                     n = (case index_of (if flag_mode = 0 then 32 else 44) t of Some n \<Rightarrow> n | None \<Rightarrow> 2)
                 in if n < 8 then Some (take n t) else None)));
     Some (fst (strtol (if flag_mode = 1 then 10 else 16) v))
   }"

definition upper_hex :: "byte list \<Rightarrow> byte list" where
  "upper_hex = map (\<lambda>b. if 97 \<le> b then b - 32 else b)"

definition getTestMode :: "'p fsys cb_io \<Rightarrow> (int \<times> 'p fsys cb_io) option" where
  "getTestMode io =
     (let s = cb_env io;
          bs = (if fs_open CMDLINE_FILE s then (case fs_read CMDLINE_FILE 0 3095 s of None \<Rightarrow> [] | Some bs \<Rightarrow> bs) else []);
          t = takeWhile (\<lambda>b. b \<noteq> 0) bs
      in do {
        (v, flag) \<leftarrow> (if bs = [] then Some (0, 0)
          else if strstr t CMDLINE_FIRST_MODE_FLAG \<noteq> None then map_option (\<lambda>v. (v, 0)) (parse_key_value t CMDLINE_FIRST_MODE_FLAG 0)
          else if strstr t CMDLINE_CALI_MODE_FLAG \<noteq> None then map_option (\<lambda>v. (v, 1)) (parse_key_value t CMDLINE_CALI_MODE_FLAG 1)
          else Some (0, 0));
        (let n = nat (v mod 4294967296);
             ans = cs ''+GETTESTMODE:'' @ (case findNameWithId n flag of None \<Rightarrow> cs ''0x'' @ upper_hex (show_hex n) | Some m \<Rightarrow> m)
         in map_option (\<lambda>r. (int (length ans), io\<lparr>cb_rsp := r\<rparr>)) (sprintf (cb_rsp io) ans))
      })"

definition isdigitstr :: "byte list \<Rightarrow> bool" where
  "isdigitstr s \<longleftrightarrow> list_all (\<lambda>c. c \<in> set (cs ''0123456789AaBbCcDdEeFfXx'')) s"

definition isHexstr :: "byte list \<Rightarrow> bool" where
  "isHexstr s \<longleftrightarrow> 2 < length s \<and> strcasestr s (cs ''0x'') \<noteq> None"

definition test_mode_value :: "byte list \<Rightarrow> nat" where
  "test_mode_value n =
     (if isdigitstr n then nat (fst (strtol (if isHexstr n then 16 else 10) n) mod 4294967296) else findIdWithName n)"

text \<open>
  The request as a diag message: the closing flag becomes the NUL of the text, and the trimmed text gets one as well. On
  a request that is a text, the code ends by freeing a pointer into the middle of an allocated block: \<open>None\<close>.
\<close>

definition setTestMode :: "bool \<Rightarrow> 'p prop_service \<Rightarrow> 'p fsys cb_io \<Rightarrow> (int \<times> 'p fsys cb_io) option" where
  "setTestMode nand pf io = do {
     b \<leftarrow> rd (cb_buf io) 0;
     (if b \<noteq> 0x7E then None
      else do {
        h \<leftarrow> read_head (cb_buf io) 1;
        buf \<leftarrow> wr (cb_buf io) (head_len h + 1) 0;
        t \<leftarrow> cstr_at buf 9;
        (if length t < length AT_CMD_SETTESTMODE then None
         else
           (let arg = drop (length AT_CMD_SETTESTMODE) t; n = trim arg in do {
              buf' \<leftarrow> wr buf (9 + length AT_CMD_SETTESTMODE + length (takeWhile isspace3 arg) + length n) 0;
              (ret, s') \<leftarrow> eng_write_miscdata_with_offset nand pf (int TESTMODE_OFFSET)
                (le32 ((test_mode_value n + UBOOT_TESTMOD_CHECKSUM) mod 4294967296)) (cb_env io);
              (let ans = (if ret = 0 then cs ''+SETTESTMODE:OK'' else cs ''+SETTESTMODE: ERROR -3'') in
               map_option (\<lambda>r. (int (length ans), \<lparr>cb_buf = buf', cb_rsp = r, cb_env = s'\<rparr>)) (sprintf (cb_rsp io) ans))
            }))
      })
   }"

definition testmode_rsp :: "byte list" where "testmode_rsp = [0x7E, 0, 0, 0, 0, 0x08, 0, 0xFE, 0xFF, 0x7E]"

definition testmodeRsp :: "'w cb_io \<Rightarrow> nat \<Rightarrow> nat \<Rightarrow> (int \<times> 'w cb_io) option" where
  "testmodeRsp io len rsplen = map_option (\<lambda>r. (10, io\<lparr>cb_rsp := r\<rparr>)) (put (cb_rsp io) 0 testmode_rsp)"

definition modeRsp_match :: "mem \<Rightarrow> nat \<Rightarrow> int option" where
  "modeRsp_match buf len = do {
     a \<leftarrow> rd buf 7;
     (if a = 0xFE then do { b \<leftarrow> rd buf 8; Some (if 0x80 \<le> b \<and> b \<le> 0x9F then 0 else - 1) } else Some (- 1))
   }"

definition ftmode_updates :: "bool \<Rightarrow> 'p prop_service \<Rightarrow> ('p fsys eng_callback \<Rightarrow> 'p fsys eng_callback) list" where
  "ftmode_updates nand pf =
     [\<lambda>c. c\<lparr>at_cmd := AT_CMD_GETTESTMODE, eng_linuxcmd_func := Some getTestMode\<rparr>,
      \<lambda>c. c\<lparr>at_cmd := AT_CMD_SETTESTMODE, eng_linuxcmd_func := Some (setTestMode nand pf)\<rparr>,
      \<lambda>c. c\<lparr>eng_diag_func := Some testmodeRsp, eng_cmd_match := Some modeRsp_match\<rparr>]"

definition register_ftmode :: "bool \<Rightarrow> 'p prop_service \<Rightarrow> 'p fsys eng_callback list \<Rightarrow> 'p fsys eng_callback list \<times> nat" where
  "register_ftmode nand pf = fill_entries (ftmode_updates nand pf)"

section \<open>A mode is set by its name\<close>

text \<open>The names in the table, as far as \<open>lower\<close> sees them: not numbers, without blanks, and each found again by its number.\<close>

definition hex_char :: "byte \<Rightarrow> bool" where "hex_char c \<longleftrightarrow> c \<in> set (cs ''0123456789abcdefx'')"

lemma hex_char_lower: "c \<in> set (cs ''0123456789AaBbCcDdEeFfXx'') \<Longrightarrow> hex_char (lower c)"
  by (auto simp: hex_char_def lower_def)

lemma mode_names: "(i, m) \<in> set id_first_mode \<Longrightarrow>
    i < 256 \<and> m \<noteq> [] \<and> \<not> list_all hex_char (map lower m) \<and> list_all (\<lambda>c. \<not> isspace3 c \<and> c \<noteq> 0) (map lower m) \<and> findNameWithId i 0 = Some m
      \<and> findIdWithName m = i"
  unfolding id_first_mode_def findNameWithId_def findIdWithName_def
  by (elim set_ConsD [elim_format] disjE)
    (auto simp: hex_char_def lower_def isspace3_def strcaseeq_def)

lemma findIdWithName_lower: "map lower n = map lower m \<Longrightarrow> findIdWithName n = findIdWithName m"
  by (simp add: findIdWithName_def strcaseeq_def)

lemma lower_eq_special: "isspace3 c \<or> c = 0 \<longleftrightarrow> isspace3 (lower c) \<or> lower c = 0"
proof (cases "65 \<le> c \<and> c \<le> 90")
  case True
  then have u: "65 \<le> unat c" "unat c \<le> 90" by (simp_all add: word_le_nat_alt)
  then have "unat (lower c) = unat c + 32" using True by (simp add: lower_def unat_word_ariths)
  then show ?thesis using u by (auto simp: isspace3_def)
next
  case False
  then have "lower c = c" by (auto simp: lower_def)
  then show ?thesis by simp
qed

lemma mode_name_texts:
  assumes "(i, m) \<in> set id_first_mode" and "strcaseeq n m"
  shows "n \<noteq> []" and "list_all (\<lambda>c. \<not> isspace3 c \<and> c \<noteq> 0) n" and "test_mode_value n = i"
proof -
  note m = mode_names [OF assms(1)]
  have l: "map lower n = map lower m" using assms(2) by (simp add: strcaseeq_def)
  then show "n \<noteq> []" using m by auto
  have "list_all (\<lambda>c. \<not> isspace3 c \<and> c \<noteq> 0) (map lower n)" using m l by simp
  then show "list_all (\<lambda>c. \<not> isspace3 c \<and> c \<noteq> 0) n" using lower_eq_special by (auto simp: list_all_iff)
  have "\<not> isdigitstr n"
  proof
    assume "isdigitstr n"
    then have "list_all hex_char (map lower n)" using hex_char_lower by (auto simp: isdigitstr_def list_all_iff simp del: cs_simps)
    then show False using m l by simp
  qed
  then show "test_mode_value n = i" using m findIdWithName_lower [OF l] by (simp add: test_mode_value_def)
qed

lemma trim_inside:
  assumes "list_all isspace3 l" and "list_all isspace3 r" and "list_all (\<lambda>c. \<not> isspace3 c \<and> c \<noteq> 0) n" and "n \<noteq> []"
  shows "trim (l @ n @ r) = n" and "takeWhile isspace3 (l @ n @ r) = l"
proof -
  have d: "dropWhile isspace3 (l @ n @ r) = n @ r" "takeWhile isspace3 (l @ n @ r) = l"
    using assms by (cases n; auto simp: list_all_iff dropWhile_append takeWhile_append)+
  have "dropWhile isspace3 (rev r @ rev n) = rev n"
    using assms by (cases n rule: rev_cases) (auto simp: list_all_iff dropWhile_append)
  then show "trim (l @ n @ r) = n" by (simp add: trim_def d)
  show "takeWhile isspace3 (l @ n @ r) = l" by (rule d)
qed

text \<open>: (the next mode is set by name) On a partition in order, a request that names one of the modes of the table, in upper or lower case and
  with blanks or line ends around it, is answered with OK; afterwards the partition holds the number of that mode, with
  the mark of the boot loader, at its place and is otherwise unchanged, and the number is the one that is reported under that name.\<close>

theorem mode_set_by_name:
  assumes "misc_sound nand pf s" and "TESTMODE_OFFSET + 4 \<le> length (misc_img pf s)" and "(i, m) \<in> set id_first_mode" and "strcaseeq n m"
    and "list_all isspace3 l" and "list_all isspace3 r" and "head_len h = 23 + length (l @ n @ r)" and "head_ok h" and "16 \<le> length rsp"
  shows "\<exists>io. setTestMode nand pf \<lparr>cb_buf = 0x7E # head_bytes h @ AT_CMD_SETTESTMODE @ l @ n @ r @ [0x7E], cb_rsp = rsp, cb_env = s\<rparr> = Some (15, io)
    \<and> cstr_at (cb_rsp io) 0 = Some (cs ''+SETTESTMODE:OK'')
    \<and> misc_img pf (cb_env io) = overlay TESTMODE_OFFSET (le32 (UBOOT_TESTMOD_CHECKSUM + i)) (misc_img pf s)
    \<and> findNameWithId i 0 = Some m"
proof -
  let ?arg = "l @ n @ r"
  let ?p = "0x7E # head_bytes h @ AT_CMD_SETTESTMODE"
  note n = mode_name_texts [OF assms(3,4)]
  note tr = trim_inside [OF assms(5,6) n(2,1)]
  have m: "i < 256" "findNameWithId i 0 = Some m" using mode_names [OF assms(3)] by auto
  have lp: "length ?p = 24" "length AT_CMD_SETTESTMODE = 15" by (simp_all add: AT_CMD_SETTESTMODE_def MSG_HEAD_SIZE_def)
  have w1: "wr (?p @ ?arg @ [0x7E]) (head_len h + 1) 0 = Some (?p @ ?arg @ [0])"
  proof -
    have "wr (a @ [x]) (length a) y = Some (a @ [y])" for a x y by (simp add: wr_def)
    moreover have "head_len h + 1 = length (?p @ ?arg)" by (simp add: assms(7) MSG_HEAD_SIZE_def AT_CMD_SETTESTMODE_def)
    ultimately show ?thesis by (metis append_assoc)
  qed
  have z: "0 \<notin> set (AT_CMD_SETTESTMODE @ ?arg)"
    using assms(5,6) n(2) by (auto simp: AT_CMD_SETTESTMODE_def list_all_iff isspace3_def)
  have "cstr_at (?p @ ?arg @ [0]) 9 = Some (AT_CMD_SETTESTMODE @ ?arg)"
  proof -
    have "drop 9 (?p @ ?arg @ [0]) = (AT_CMD_SETTESTMODE @ ?arg) @ [0]" by (simp add: MSG_HEAD_SIZE_def)
    moreover have "takeWhile (\<lambda>b. b \<noteq> 0) ((AT_CMD_SETTESTMODE @ ?arg) @ [0]) = AT_CMD_SETTESTMODE @ ?arg"
      by (subst takeWhile_append2) (use z in auto)
    ultimately show ?thesis by (simp add: cstr_at_def MSG_HEAD_SIZE_def)
  qed
  moreover obtain b where "wr (?p @ ?arg @ [0]) (9 + 15 + length l + length n) 0 = Some b" using lp by (simp add: wr_def)
  moreover have "eng_write_miscdata_with_offset nand pf (int TESTMODE_OFFSET) (le32 ((i + UBOOT_TESTMOD_CHECKSUM) mod 4294967296)) s =
      Some (0, misc_put pf TESTMODE_OFFSET (le32 (UBOOT_TESTMOD_CHECKSUM + i)) s)"
    using misc_store_eq [OF assms(1), of "int TESTMODE_OFFSET" "le32 (i + UBOOT_TESTMOD_CHECKSUM)"] assms(2) m(1)
    by (simp add: UBOOT_TESTMOD_CHECKSUM_def le32_def add.commute)
  moreover obtain q where q: "sprintf rsp (cs ''+SETTESTMODE:OK'') = Some q" using assms(9) by (simp add: sprintf_def put_def)
  ultimately have "setTestMode nand pf \<lparr>cb_buf = ?p @ ?arg @ [0x7E], cb_rsp = rsp, cb_env = s\<rparr> =
      Some (15, \<lparr>cb_buf = b, cb_rsp = q, cb_env = misc_put pf TESTMODE_OFFSET (le32 (UBOOT_TESTMOD_CHECKSUM + i)) s\<rparr>)"
    using w1 assms(8) n(3) tr lp unfolding setTestMode_def by (simp add: msg_simps rd_def Let_def)
  then show ?thesis using sprintf_cstr [OF q] m(2) by (simp add: misc_img_put)
qed

theorem mode_set_by_name_witness:
  "\<exists>io. setTestMode False sample_props
        \<lparr>cb_buf = 0x7E # head_bytes (sample_head 28 0x68 0) @ AT_CMD_SETTESTMODE @ [] @ cs ''bbat'' @ [13] @ [0x7E], cb_rsp = replicate 16 0,
          cb_env = sample_files (replicate 9252 0)\<rparr> = Some (15, io)
    \<and> cstr_at (cb_rsp io) 0 = Some (cs ''+SETTESTMODE:OK'')
    \<and> misc_img sample_props (cb_env io) = overlay TESTMODE_OFFSET (le32 (UBOOT_TESTMOD_CHECKSUM + 0x11)) (misc_img sample_props (sample_files (replicate 9252 0)))
    \<and> findNameWithId 0x11 0 = Some (cs ''BBAT'')"
proof (rule mode_set_by_name)
  show "(0x11, cs ''BBAT'') \<in> set id_first_mode" by (simp add: id_first_mode_def)
qed (simp_all add: sample_sound head_ok_def sample_head_def TESTMODE_OFFSET_def strcaseeq_def lower_def isspace3_def)

text \<open>A text of letters up to F that is no number sets the mode 0.\<close>

lemma letters_set_normal: "test_mode_value (cs ''FACADE'') = 0"
  by (simp add: test_mode_value_def isdigitstr_def isHexstr_def strcasestr_def lower_def strtol_def number_at_def split_sign_def is_space_def
      hex_prefix_def digits_in_def digit_value_def Let_def)

end
