(* ===== verification/AtModules.thy ===== *)
theory AtModules
  imports Adapter Sysfs
begin

text \<open>
  Two libraries of AT commands: \<open>modules/libcomcontrol/com_control.c\<close> (the diag port of the modem and the clock) and the
  properties and versions of \<open>modules/libapcomm/apcomm.c\<close>. What the C library says of the local time is input: the fields of
  the broken-down time, absent when \<open>localtime_r\<close> fails, and the text of the time zone, empty when \<open>strftime\<close> gives none.
  The environment of the commands is the property service and the system of \<open>Adapter\<close>.
\<close>

section \<open>The diag port of the modem\<close>

definition answer_text :: "byte list \<Rightarrow> int \<Rightarrow> 'w cb_io \<Rightarrow> (int \<times> 'w cb_io) option" where
  "answer_text t n io = map_option (\<lambda>r. (n, io\<lparr>cb_rsp := r\<rparr>)) (sprintf (cb_rsp io) t)"

definition MODEM_DIAG :: "byte list" where "MODEM_DIAG = cs ''persist.vendor.sys.modem.diag''"

definition open_diag_port :: "'p prop_service \<Rightarrow> 'p sys cb_io \<Rightarrow> (int \<times> 'p sys cb_io) option" where
  "open_diag_port pf io = answer_text (cs ''AT+DIAGOPEN open'') 0 (io\<lparr>cb_env := property_set pf MODEM_DIAG (cs '',gser'') (cb_env io)\<rparr>)"

definition close_diag_port :: "'p prop_service \<Rightarrow> 'p sys cb_io \<Rightarrow> (int \<times> 'p sys cb_io) option" where
  "close_diag_port pf io = answer_text (cs ''AT+DIAGCLOSE close'') 0 (io\<lparr>cb_env := property_set pf MODEM_DIAG (cs ''none'') (cb_env io)\<rparr>)"

section \<open>The clock\<close>

text \<open>A number of exactly \<open>n\<close> digits at the start of a text; the comparison of the pointer with \<open>UINT_MAX\<close> never holds.\<close>

definition parse_number :: "byte list \<Rightarrow> nat \<Rightarrow> nat option" where
  "parse_number s n = (if n \<le> length s \<and> list_all is_digit (take n s) then Some (radix 10 (take n s)) else None)"

record calendar =
  tm_year :: nat
  tm_mon :: nat
  tm_mday :: nat
  tm_hour :: nat
  tm_min :: nat
  tm_sec :: nat

text \<open>The result and the zone in quarters of an hour: 1 with a zone, 0 without, -1 without a time. A text that stops behind the
  hours counts as no zone.\<close>

definition get_calend_time :: "calendar option \<Rightarrow> byte list \<Rightarrow> int \<times> int" where
  "get_calend_time lt tzs =
     (if lt = None then (- 1, 0)
      else if tzs = [] \<or> (hd tzs \<noteq> 43 \<and> hd tzs \<noteq> 45) then (0, 0)
      else
        (let sgn = (if hd tzs = 43 then 1 else - 1) in
         case parse_number (drop 1 tzs) 2 of
           None \<Rightarrow> (0, 0)
         | Some n \<Rightarrow>
             (if length tzs = 3 then (0, 4 * int n * sgn)
              else
                (case parse_number (if tzs ! 3 = 58 then drop 4 tzs else drop 3 tzs) 2 of
                   None \<Rightarrow> (0, 0)
                 | Some m \<Rightarrow> (1, (4 * int n + int (m div 15)) * sgn)))))"

text \<open>The query: blanks, a question mark, blanks, and the end or a carriage return.\<close>

definition parse_plus_cclk :: "byte list \<Rightarrow> bool" where
  "parse_plus_cclk s =
     (case dropWhile (\<lambda>c. c = 32) (drop 7 s) of
        [] \<Rightarrow> False
      | c # r \<Rightarrow> c = 63 \<and> (case dropWhile (\<lambda>c. c = 32) r of [] \<Rightarrow> True | d # _ \<Rightarrow> d = 13))"

text \<open>\<open>%0nd\<close> and \<open>%+03d\<close>.\<close>

definition pad0 :: "nat \<Rightarrow> nat \<Rightarrow> byte list" where
  "pad0 n x = replicate (n - length (show_nat x)) 48 @ show_nat x"

definition zone_text :: "int \<Rightarrow> byte list" where
  "zone_text tz = (if tz < 0 then 45 else 43) # pad0 2 (nat \<bar>tz\<bar>)"

definition clock_text :: "calendar \<Rightarrow> byte list" where
  "clock_text lt = cs ''+CCLK:'' @ pad0 4 (tm_year lt + 1900) @ cs ''/'' @ pad0 2 (tm_mon lt + 1) @ cs ''/'' @ pad0 2 (tm_mday lt) @ cs '',''
     @ pad0 2 (tm_hour lt) @ cs '':'' @ pad0 2 (tm_min lt) @ cs '':'' @ pad0 2 (tm_sec lt)"

text \<open>The query in \<open>n\<close> bytes at \<open>p\<close>; when they are fewer than the command's name, only the character behind it is looked at.\<close>

definition cclk_query :: "mem \<Rightarrow> nat \<Rightarrow> nat \<Rightarrow> bool option" where
  "cclk_query m p n = (if n < 7 then map_option (\<lambda>c. c = 63) (rd m (p + 7)) else map_option parse_plus_cclk (get m p n))"

text \<open>The request is a diag message, whose header gives the length of the text, or a text.\<close>

definition cclk_hander :: "calendar option \<Rightarrow> byte list \<Rightarrow> 'w cb_io \<Rightarrow> (int \<times> 'w cb_io) option" where
  "cclk_hander lt tzs io = do {
     b \<leftarrow> rd (cb_buf io) 0;
     q \<leftarrow> (if b = 0x7E then do { h \<leftarrow> read_head (cb_buf io) 1; cclk_query (cb_buf io) 9 (head_len h - 8) }
       else do { s \<leftarrow> cstr_at (cb_buf io) 0; cclk_query (cb_buf io) 0 (length s) });
     (if \<not> q then Some (ENG_DIAG_RET_UNSUPPORT, io)
      else
        (let (res, tz) = get_calend_time lt tzs;
             t = (case lt of None \<Rightarrow> cs ''+CME ERROR:4'' | Some c \<Rightarrow> clock_text c @ (if res = 1 then zone_text tz else []))
         in answer_text t (int (length t)) io))
   }"

definition comcontrol_updates :: "'p prop_service \<Rightarrow> calendar option \<Rightarrow> byte list \<Rightarrow> ('p sys eng_callback \<Rightarrow> 'p sys eng_callback) list" where
  "comcontrol_updates pf lt tzs =
     [\<lambda>c. c\<lparr>at_cmd := cs ''AT+DIAGOPEN'', eng_linuxcmd_func := Some (open_diag_port pf)\<rparr>,
      \<lambda>c. c\<lparr>at_cmd := cs ''AT+DIAGCLOSE'', eng_linuxcmd_func := Some (close_diag_port pf)\<rparr>,
      \<lambda>c. c\<lparr>at_cmd := cs ''AT+CCLK'', eng_linuxcmd_func := Some (cclk_hander lt tzs)\<rparr>]"

definition register_comcontrol :: "'p prop_service \<Rightarrow> calendar option \<Rightarrow> byte list \<Rightarrow> 'p sys eng_callback list \<Rightarrow> 'p sys eng_callback list \<times> nat" where
  "register_comcontrol pf lt tzs = fill_entries (comcontrol_updates pf lt tzs)"

section \<open>Properties and the version\<close>

definition SPRD_VERS :: "byte list" where "SPRD_VERS = cs ''ro.build.description''"

definition ap_version_handler :: "'p prop_service \<Rightarrow> 'p sys cb_io \<Rightarrow> nat \<Rightarrow> nat \<Rightarrow> (int \<times> 'p sys cb_io) option" where
  "ap_version_handler pf io len rsplen = do {
     h \<leftarrow> get (cb_buf io) 0 9;
     r1 \<leftarrow> put (cb_rsp io) 0 h;
     (let ver = property_get pf SPRD_VERS (cs ''UNKNOWN VERSION'') (cb_env io); n = (9 + length ver) mod 65536 in do {
        r2 \<leftarrow> set_len r1 1 n;
        r3 \<leftarrow> put r2 9 (ver @ [0, 0x7E]);
        Some (int n + 2, io\<lparr>cb_rsp := r3\<rparr>)
      })
   }"

definition ENG_STREND :: "byte list" where "ENG_STREND = [13, 10]"

text \<open>
  \<open>AT+PROP=0,[key]\<close> and \<open>AT+PROP=1,[key][value]\<close>. A missing character is a null pointer: \<open>None\<close>, as is a text that ends where the
  code steps over a character. A second bracket that is missing is reported, but the setting goes on. In a diag message
  the brackets become NULs in the request.
\<close>

definition getProp_handle :: "'p prop_service \<Rightarrow> 'p sys cb_io \<Rightarrow> (int \<times> 'p sys cb_io) option" where
  "getProp_handle pf io = do {
     b \<leftarrow> rd (cb_buf io) 0;
     (let off = (if b = 0x7E then 9 else 0) in do {
        s \<leftarrow> cstr_at (cb_buf io) off;
        e \<leftarrow> strchr s 61;
        (let cmd = (if length e < 2 then 0 else e ! 1) in do {
           c \<leftarrow> strchr (drop 1 e) 44;
           (if length c < 2 \<or> c ! 1 \<noteq> 91 then Some (- 1, io)
            else do {
              n \<leftarrow> index_of 93 (drop 2 c);
              (let key = take n (drop 2 c);
                   rest = drop (n + 3) c;
                   mark = (\<lambda>m t. if b = 0x7E then wr m (off + (length s - length t)) 0 else Some m)
               in do {
                 buf \<leftarrow> mark (cb_buf io) (drop (n + 2) c);
                 (if cmd = 48 then
                    (let v = property_get pf key (cs ''NOT FOUND'') (cb_env io) in
                     answer_text (ENG_STREND @ (if take 9 v = cs ''NOT FOUND'' then v else cs ''['' @ v @ cs '']'') @ ENG_STREND) 0 (io\<lparr>cb_buf := buf\<rparr>))
                  else if cmd = 49 then
                    (if rest = [] then None
                     else do {
                       k \<leftarrow> index_of 93 (drop 1 rest);
                       buf' \<leftarrow> mark buf (drop (k + 1) rest);
                       (let v = take k (drop 1 rest) in
                        answer_text (ENG_STREND @ cs ''['' @ key @ cs '']['' @ v @ cs '']'' @ ENG_STREND) 0
                          (io\<lparr>cb_buf := buf', cb_env := property_set pf key v (cb_env io)\<rparr>))
                     })
                  else Some (0, io\<lparr>cb_buf := buf\<rparr>))
               })
            })
         })
      })
   }"

definition bootreset_answer :: "'w cb_io \<Rightarrow> (int \<times> 'w cb_io) option" where
  "bootreset_answer io = do {
     h \<leftarrow> get (cb_buf io) 0 9;
     r1 \<leftarrow> put (cb_rsp io) 0 h;
     r2 \<leftarrow> set_len r1 1 11;
     r3 \<leftarrow> put r2 9 (cs ''OK'' @ [0, 0x7E]);
     Some (13, io\<lparr>cb_rsp := r3\<rparr>)
   }"

section \<open>The zone\<close>

text \<open>Hours and minutes, with or without a colon between them, give the same zone in quarters of an hour.\<close>

lemma zone_quarters:
  assumes "h < 10" and "h' < 10" and "m < 10" and "m' < 10"
  shows "get_calend_time (Some c) [43, of_nat (48 + h), of_nat (48 + h'), of_nat (48 + m), of_nat (48 + m')] =
      (1, int (4 * (10 * h + h') + (10 * m + m') div 15))
    \<and> get_calend_time (Some c) [45, of_nat (48 + h), of_nat (48 + h'), 58, of_nat (48 + m), of_nat (48 + m')] =
      (1, - int (4 * (10 * h + h') + (10 * m + m') div 15))"
proof -
  have d: "is_digit (of_nat (48 + k) :: byte)" "of_nat (48 + k) \<noteq> (58 :: byte)" if "k < 10" for k
  proof -
    have "unat (of_nat (48 + k) :: byte) = 48 + k" using that by (simp del: of_nat_add)
    then show "is_digit (of_nat (48 + k) :: byte)" "of_nat (48 + k) \<noteq> (58 :: byte)"
      using that by (auto simp: is_digit_def word_le_nat_alt)
  qed
  have r: "radix 10 [of_nat (48 + a), of_nat (48 + b)] = 10 * a + b" if "a < 10" "b < 10" for a b
    using that digit_value_dec [of a] digit_value_dec [of b] by (simp add: radix_def del: of_nat_add)
  show ?thesis
    using d [OF assms(1)] d [OF assms(2)] d [OF assms(3)] d [OF assms(4)] r [OF assms(1,2)] r [OF assms(3,4)]
    by (simp add: get_calend_time_def parse_number_def del: of_nat_add) (simp add: algebra_simps)
qed

text \<open>A zone without minutes is computed, but the result says that there is none.\<close>

lemma zone_without_minutes: "fst (get_calend_time (Some c) [43, 48, 56]) = 0"
  by (simp add: get_calend_time_def parse_number_def is_digit_def)

end
