(* ===== verification/Dcxo.thy ===== *)
theory Dcxo
  imports TSensor TsxData
begin

unbundle bit_operations_syntax

text \<open>
  The calibration of the crystal oscillator (\<open>modules/libdcxcali/dcx_cali.c\<close>): five commands set the capacitor bank, calibrate the
  amplitude, switch between high and low power, and keep the calibration data in a file; the program \<open>dcxsrv.c\<close>,
  which runs at start-up, writes that data into the registers. Both have their own copies of \<open>ana_read\<close> and
  \<open>ana_write\<close>, the same code as in theory TSensor. The calibration loops wait for a flag of the hardware: \<open>None\<close>
  when it never comes.
\<close>

section \<open>Registers\<close>

definition ANA_REG_GLB_TSX_CTRL3 :: "32 word" where "ANA_REG_GLB_TSX_CTRL3 = 0x1AF8"
definition ANA_REG_GLB_TSX_CTRL4 :: "32 word" where "ANA_REG_GLB_TSX_CTRL4 = 0x1AFC"
definition ANA_REG_GLB_TSX_CTRL5 :: "32 word" where "ANA_REG_GLB_TSX_CTRL5 = 0x1B00"
definition ANA_REG_GLB_TSX_CTRL10 :: "32 word" where "ANA_REG_GLB_TSX_CTRL10 = 0x1B14"
definition ANA_REG_GLB_TSX_CTRL11 :: "32 word" where "ANA_REG_GLB_TSX_CTRL11 = 0x1B18"
definition ANA_REG_GLB_TSX_CTRL14 :: "32 word" where "ANA_REG_GLB_TSX_CTRL14 = 0x1B24"
definition ANA_REG_GLB_TSX_WR_PROT_VALUE :: "32 word" where "ANA_REG_GLB_TSX_WR_PROT_VALUE = 0x1BD8"
definition BIT_DCXO_CORE_AML_CAL_EN :: "32 word" where "BIT_DCXO_CORE_AML_CAL_EN = BIT 3"
definition BIT_DCXO_CORE_AML_CTRL :: "32 word \<Rightarrow> 32 word" where "BIT_DCXO_CORE_AML_CTRL x = push_bit 4 (x AND 0xF)"
definition BIT_DCXO_CORE_AML_CAL_OK_FLAG :: "32 word" where "BIT_DCXO_CORE_AML_CAL_OK_FLAG = BIT 3"
definition BIT_DCXO_CORE_AML_CAL_CTRL_HP :: "32 word \<Rightarrow> 32 word" where "BIT_DCXO_CORE_AML_CAL_CTRL_HP x = x AND 0xFF"
definition BIT_DCXO_CORE_AML_CAL_CTRL_LP :: "32 word \<Rightarrow> 32 word" where "BIT_DCXO_CORE_AML_CAL_CTRL_LP x = x AND 0xFF"
definition BIT_DCXO_CORE_CBANK_HP :: "32 word \<Rightarrow> 32 word" where "BIT_DCXO_CORE_CBANK_HP x = x AND 0xFF"
definition BIT_DCXO_LP_CAL_EN :: "32 word" where "BIT_DCXO_LP_CAL_EN = BIT 11"
definition SC2730_CDAC_REG :: "32 word" where "SC2730_CDAC_REG = 0x1B14"
definition SC2730_HP_AMP_26M :: "32 word" where "SC2730_HP_AMP_26M = 0x1B00"
definition SC2730_LP_AMP_26M :: "32 word" where "SC2730_LP_AMP_26M = 0x1B04"
definition SC2730_LP_Drift_32K :: "32 word" where "SC2730_LP_Drift_32K = 0x1B20"

text \<open>The static variables, the devices and the files.\<close>

record ('d, 'p) dcx =
  current_mode :: int
  hp_cbank :: "32 word"
  lp_cbank :: "32 word"
  hp_amp :: "32 word"
  lp_amp :: "32 word"
  dcx_dev :: 'd
  dcx_fs :: "'p fsys"

section \<open>Calibration of the amplitude\<close>

text \<open>A register is read and written with a new value.\<close>

definition update_reg :: "'d nodes \<Rightarrow> 32 word \<Rightarrow> (32 word \<Rightarrow> 32 word) \<Rightarrow> 'd \<Rightarrow> 'd option" where
  "update_reg nd reg f d = do { (v, d1) \<leftarrow> ana_read nd reg d; Some (ana_write nd reg (f v) d1) }"

definition hp_dcxo_amp_init :: "'d nodes \<Rightarrow> 'd \<Rightarrow> 'd option" where
  "hp_dcxo_amp_init nd d = do {
     d1 \<leftarrow> update_reg nd ANA_REG_GLB_TSX_CTRL3 (\<lambda>v. v OR BIT_DCXO_CORE_AML_CAL_EN) d;
     d2 \<leftarrow> update_reg nd ANA_REG_GLB_TSX_CTRL5 (\<lambda>v. v OR BIT_DCXO_CORE_AML_CAL_CTRL_HP 0x1F) d1;
     d3 \<leftarrow> update_reg nd ANA_REG_GLB_TSX_CTRL5 (\<lambda>v. v OR BIT_DCXO_CORE_AML_CAL_CTRL_HP 0xE0) d2;
     update_reg nd ANA_REG_GLB_TSX_CTRL4 (\<lambda>v. v OR BIT_DCXO_CORE_AML_CTRL 0x7) d3
   }"

definition lp_dcxo_amp_init :: "'d nodes \<Rightarrow> 'd \<Rightarrow> 'd option" where
  "lp_dcxo_amp_init nd d = do {
     d1 \<leftarrow> update_reg nd ANA_REG_GLB_TSX_CTRL3 (\<lambda>v. v OR BIT_DCXO_CORE_AML_CAL_EN) d;
     d2 \<leftarrow> update_reg nd ANA_REG_GLB_TSX_CTRL5 (\<lambda>v. v OR BIT_DCXO_CORE_AML_CAL_CTRL_LP 0xF) d1;
     d3 \<leftarrow> update_reg nd ANA_REG_GLB_TSX_CTRL5 (\<lambda>v. v OR BIT_DCXO_CORE_AML_CAL_CTRL_LP 0x30) d2;
     update_reg nd ANA_REG_GLB_TSX_CTRL4 (\<lambda>v. v OR BIT_DCXO_CORE_AML_CTRL 0x2) d3
   }"

text \<open>The flag of the hardware, and a field of the control register.\<close>

definition OK_FLAG :: "'d nodes \<Rightarrow> 'd \<Rightarrow> (32 word \<times> 'd) option" where
  "OK_FLAG nd d = do { (v, d1) \<leftarrow> ana_read nd ANA_REG_GLB_TSX_CTRL4 d; Some (v AND BIT_DCXO_CORE_AML_CAL_OK_FLAG, d1) }"

definition cal_ctrl :: "'d nodes \<Rightarrow> 32 word \<Rightarrow> nat \<Rightarrow> 'd \<Rightarrow> (32 word \<times> 'd) option" where
  "cal_ctrl nd msk sh d = do { (v, d1) \<leftarrow> ana_read nd ANA_REG_GLB_TSX_CTRL5 d; Some (drop_bit sh (v AND msk), d1) }"

definition HP_CAL_CTRL_7_5 :: "'d nodes \<Rightarrow> 'd \<Rightarrow> (32 word \<times> 'd) option" where
  "HP_CAL_CTRL_7_5 nd = cal_ctrl nd (BIT_DCXO_CORE_AML_CAL_CTRL_HP 0xE0) 5"
definition HP_CAL_CTRL_4_0 :: "'d nodes \<Rightarrow> 'd \<Rightarrow> (32 word \<times> 'd) option" where
  "HP_CAL_CTRL_4_0 nd = cal_ctrl nd (BIT_DCXO_CORE_AML_CAL_CTRL_HP 0x1F) 0"
definition LP_CAL_CTRL_5_4 :: "'d nodes \<Rightarrow> 'd \<Rightarrow> (32 word \<times> 'd) option" where
  "LP_CAL_CTRL_5_4 nd = cal_ctrl nd (BIT_DCXO_CORE_AML_CAL_CTRL_LP 0x30) 4"
definition LP_CAL_CTRL_3_0 :: "'d nodes \<Rightarrow> 'd \<Rightarrow> (32 word \<times> 'd) option" where
  "LP_CAL_CTRL_3_0 nd = cal_ctrl nd (BIT_DCXO_CORE_AML_CAL_CTRL_LP 0xF) 0"

text \<open>Whether the flag is down and the field is 0; the field is only read when the flag is down.\<close>

definition at_bottom :: "'d nodes \<Rightarrow> ('d \<Rightarrow> (32 word \<times> 'd) option) \<Rightarrow> 'd \<Rightarrow> (bool \<times> 'd) option" where
  "at_bottom nd field d = do {
     (f, d1) \<leftarrow> OK_FLAG nd d;
     (if f \<noteq> 0 then Some (False, d1) else do { (v, d2) \<leftarrow> field d1; Some (v = 0, d2) })
   }"

text \<open>The upper field is counted down until the flag comes up or the field is 0.\<close>

partial_function (option) coarse_loop :: "'d nodes \<Rightarrow> ('d \<Rightarrow> (32 word \<times> 'd) option) \<Rightarrow> (32 word \<Rightarrow> 32 word \<Rightarrow> 32 word) \<Rightarrow> 'd \<Rightarrow> 'd option" where
  "coarse_loop nd field set_field d = do {
     (f, d1) \<leftarrow> OK_FLAG nd d;
     (if f \<noteq> 0 then Some d1
      else do {
        (b, d2) \<leftarrow> at_bottom nd field d1;
        (if b then Some d2
         else do {
           (v, d3) \<leftarrow> field d2;
           d4 \<leftarrow> update_reg nd ANA_REG_GLB_TSX_CTRL5 (\<lambda>r. set_field r (v - 1)) d3;
           coarse_loop nd field set_field d4
         })
      })
   }"

text \<open>The lower field is counted down until the flag is up, however long that takes.\<close>

partial_function (option) fine_loop :: "'d nodes \<Rightarrow> ('d \<Rightarrow> (32 word \<times> 'd) option) \<Rightarrow> 32 word \<Rightarrow> 'd \<Rightarrow> 'd option" where
  "fine_loop nd field msk d = do {
     (f, d1) \<leftarrow> OK_FLAG nd d;
     (if f = BIT_DCXO_CORE_AML_CAL_OK_FLAG then Some d1
      else do {
        (v, d2) \<leftarrow> field d1;
        d3 \<leftarrow> update_reg nd ANA_REG_GLB_TSX_CTRL5 (\<lambda>r. (r AND NOT msk) OR (v - 1)) d2;
        fine_loop nd field msk d3
      })
   }"

text \<open>Whether the flag is up and the field is not 0.\<close>

definition above_bottom :: "'d nodes \<Rightarrow> ('d \<Rightarrow> (32 word \<times> 'd) option) \<Rightarrow> 'd \<Rightarrow> (bool \<times> 'd) option" where
  "above_bottom nd field d = do {
     (f, d1) \<leftarrow> OK_FLAG nd d;
     (if f = 0 then Some (False, d1) else do { (v, d2) \<leftarrow> field d1; Some (v \<noteq> 0, d2) })
   }"

text \<open>The value at the bottom is written as the truth value of a conjunction.\<close>

definition hp_amp_cali :: "'d nodes \<Rightarrow> 'd \<Rightarrow> (32 word \<times> 'd) option" where
  "hp_amp_cali nd d = do {
     d1 \<leftarrow> hp_dcxo_amp_init nd (ana_write nd ANA_REG_GLB_TSX_WR_PROT_VALUE 0x1990 d);
     d2 \<leftarrow> coarse_loop nd (HP_CAL_CTRL_7_5 nd) (\<lambda>r v. BIT_DCXO_CORE_AML_CAL_CTRL_HP ((r AND 0x1F) OR push_bit 5 v)) d1;
     (a, d3) \<leftarrow> above_bottom nd (HP_CAL_CTRL_7_5 nd) d2;
     d4 \<leftarrow> (if a then do {
         (v, d') \<leftarrow> HP_CAL_CTRL_7_5 nd d3;
         update_reg nd ANA_REG_GLB_TSX_CTRL5 (\<lambda>r. BIT_DCXO_CORE_AML_CAL_CTRL_HP ((r AND NOT 0xE0) OR push_bit 5 (v + 1))) d'
       } else Some d3);
     (b, d5) \<leftarrow> at_bottom nd (HP_CAL_CTRL_7_5 nd) d4;
     d6 \<leftarrow> (if b then update_reg nd ANA_REG_GLB_TSX_CTRL5 (\<lambda>r. if r \<noteq> 0 then 1 else 0) d5 else Some d5);
     d7 \<leftarrow> update_reg nd ANA_REG_GLB_TSX_CTRL4 (\<lambda>r. (r AND NOT (BIT_DCXO_CORE_AML_CTRL 0xF)) OR BIT_DCXO_CORE_AML_CTRL 0x6) d6;
     d8 \<leftarrow> update_reg nd ANA_REG_GLB_TSX_CTRL5 (\<lambda>r. r OR 0x1F) d7;
     d9 \<leftarrow> fine_loop nd (HP_CAL_CTRL_4_0 nd) 0x1F d8;
     d10 \<leftarrow> update_reg nd ANA_REG_GLB_TSX_CTRL3 (\<lambda>r. r AND NOT BIT_DCXO_CORE_AML_CAL_EN) d9;
     ana_read nd ANA_REG_GLB_TSX_CTRL5 d10
   }"

text \<open>In low power the upper field becomes 1, not one more than it was: the code reads \<open>val = + 1\<close>.\<close>

definition lp_amp_cali :: "'d nodes \<Rightarrow> 'd \<Rightarrow> (32 word \<times> 'd) option" where
  "lp_amp_cali nd d = do {
     (cbank_bak, d0) \<leftarrow> ana_read nd ANA_REG_GLB_TSX_CTRL10 (ana_write nd ANA_REG_GLB_TSX_WR_PROT_VALUE 0x1990 d);
     d1 \<leftarrow> lp_dcxo_amp_init nd (ana_write nd ANA_REG_GLB_TSX_CTRL10 0 d0);
     d2 \<leftarrow> coarse_loop nd (LP_CAL_CTRL_5_4 nd) (\<lambda>r v. BIT_DCXO_CORE_AML_CAL_CTRL_LP ((r AND NOT 0xF0) OR push_bit 4 v)) d1;
     (a, d3) \<leftarrow> above_bottom nd (LP_CAL_CTRL_5_4 nd) d2;
     d4 \<leftarrow> (if a then update_reg nd ANA_REG_GLB_TSX_CTRL5 (\<lambda>r. BIT_DCXO_CORE_AML_CAL_CTRL_LP ((r AND NOT 0xF0) OR push_bit 4 1)) d3 else Some d3);
     (b, d5) \<leftarrow> at_bottom nd (LP_CAL_CTRL_5_4 nd) d4;
     d6 \<leftarrow> (if b then update_reg nd ANA_REG_GLB_TSX_CTRL5 (\<lambda>r. if r \<noteq> 0 then 1 else 0) d5 else Some d5);
     d7 \<leftarrow> update_reg nd ANA_REG_GLB_TSX_CTRL4 (\<lambda>r. (r AND NOT (BIT_DCXO_CORE_AML_CTRL 0xF)) OR BIT_DCXO_CORE_AML_CTRL 0x1) d6;
     d8 \<leftarrow> update_reg nd ANA_REG_GLB_TSX_CTRL5 (\<lambda>r. r OR 0xF) d7;
     d9 \<leftarrow> fine_loop nd (LP_CAL_CTRL_3_0 nd) 0xF d8;
     d10 \<leftarrow> update_reg nd ANA_REG_GLB_TSX_CTRL3 (\<lambda>r. r AND NOT BIT_DCXO_CORE_AML_CAL_EN) d9;
     ana_read nd ANA_REG_GLB_TSX_CTRL5 (ana_write nd ANA_REG_GLB_TSX_CTRL10 cbank_bak d10)
   }"

definition find_amp_cal_finish :: "'d nodes \<Rightarrow> int \<Rightarrow> 'd \<Rightarrow> (32 word \<times> 'd) option" where
  "find_amp_cal_finish nd current d = (if current \<noteq> 0 then hp_amp_cali nd d else lp_amp_cali nd d)"

section \<open>The calibration data\<close>

definition DCX_RAWDATA_FILE :: "byte list" where "DCX_RAWDATA_FILE = cs ''/mnt/vendor/productinfo/dcx_data.dat''"

text \<open>The result is the count or -1. The descriptor of an open stream is taken to be positive.\<close>

definition write_dcx_data :: "bool \<Rightarrow> byte list \<Rightarrow> 'p fsys \<Rightarrow> int \<times> 'p fsys" where
  "write_dcx_data late bs s =
     (case stream_write late DCX_RAWDATA_FILE bs s of
        None \<Rightarrow> (- 1, s)
      | Some (n, s') \<Rightarrow> (if n \<noteq> length bs then - 1 else int n, s'))"

definition read_dcx_data :: "nat \<Rightarrow> 'p fsys \<Rightarrow> int \<times> byte list" where
  "read_dcx_data n s =
     (if \<not> fs_exists DCX_RAWDATA_FILE s \<or> \<not> fs_open DCX_RAWDATA_FILE s then (- 1, [])
      else (let bs = stream_read DCX_RAWDATA_FILE n s in (int (length bs), bs)))"

section \<open>The commands\<close>

text \<open>The answer: the message header with its new length, status and length of the confirmation, and the data.\<close>

definition dcx_answer :: "mem \<Rightarrow> mem \<Rightarrow> nat \<Rightarrow> byte list \<Rightarrow> (int \<times> mem) option" where
  "dcx_answer buf rsp status d = do {
     h \<leftarrow> get buf 0 9;
     r1 \<leftarrow> put rsp 0 h;
     r2 \<leftarrow> set_len r1 1 (12 + length d);
     r3 \<leftarrow> put r2 9 (le16 status @ le16 (length d) @ d @ [0x7E]);
     Some (int (14 + length d), r3)
   }"

definition enter_low_mode :: "'d nodes \<Rightarrow> ('d, 'p) dcx \<Rightarrow> ('d, 'p) dcx option" where
  "enter_low_mode nd s =
     (if current_mode s = 1 then do {
        (c, d1) \<leftarrow> ana_read nd ANA_REG_GLB_TSX_CTRL10 (dcx_dev s);
        (a, d2) \<leftarrow> ana_read nd ANA_REG_GLB_TSX_CTRL5 d1;
        d3 \<leftarrow> update_reg nd ANA_REG_GLB_TSX_CTRL14 (\<lambda>r. r OR BIT_DCXO_LP_CAL_EN) (ana_write nd ANA_REG_GLB_TSX_CTRL10 0 d2);
        Some (s\<lparr>hp_cbank := c AND BIT_DCXO_CORE_CBANK_HP 0xFF, hp_amp := a, dcx_dev := d3, current_mode := 0\<rparr>)
      }
      else Some (s\<lparr>current_mode := 0\<rparr>))"

definition enter_high_mode :: "'d nodes \<Rightarrow> ('d, 'p) dcx \<Rightarrow> ('d, 'p) dcx option" where
  "enter_high_mode nd s =
     (if current_mode s = 0 then do {
        (c, d1) \<leftarrow> ana_read nd ANA_REG_GLB_TSX_CTRL10 (dcx_dev s);
        (a, d2) \<leftarrow> ana_read nd ANA_REG_GLB_TSX_CTRL5 d1;
        d3 \<leftarrow> update_reg nd ANA_REG_GLB_TSX_CTRL14 (\<lambda>r. r AND NOT BIT_DCXO_LP_CAL_EN) d2;
        (let d4 = ana_write nd ANA_REG_GLB_TSX_CTRL5 (hp_amp s) (ana_write nd ANA_REG_GLB_TSX_CTRL10 (hp_cbank s) d3) in
         Some (s\<lparr>lp_cbank := c, lp_amp := a, dcx_dev := d4, current_mode := 1\<rparr>))
      }
      else Some (s\<lparr>current_mode := 1\<rparr>))"

text \<open>Any mode but 0 enters high power; one but 0 and 1 is answered with an error.\<close>

definition dcx_set_afc_mode :: "'d nodes \<Rightarrow> mem \<Rightarrow> mem \<Rightarrow> ('d, 'p) dcx \<Rightarrow> (int \<times> mem \<times> ('d, 'p) dcx) option" where
  "dcx_set_afc_mode nd buf rsp s = do {
     m \<leftarrow> map_option de16 (get buf 13 2);
     (let s1 = s\<lparr>dcx_dev := ana_write nd ANA_REG_GLB_TSX_WR_PROT_VALUE 0x1990 (dcx_dev s)\<rparr> in do {
        s2 \<leftarrow> (if m = 0 then enter_low_mode nd s1 else enter_high_mode nd s1);
        (n, r) \<leftarrow> dcx_answer buf rsp (if m = 0 \<or> m = 1 then 0 else 1) [];
        Some (n, r, s2)
      })
   }"

definition dcx_set_afc_cdac :: "'d nodes \<Rightarrow> mem \<Rightarrow> mem \<Rightarrow> ('d, 'p) dcx \<Rightarrow> (int \<times> mem \<times> ('d, 'p) dcx) option" where
  "dcx_set_afc_cdac nd buf rsp s = do {
     c \<leftarrow> map_option de16 (get buf 13 2);
     (let d1 = ana_write nd ANA_REG_GLB_TSX_WR_PROT_VALUE 0x1990 (dcx_dev s);
          d2 = ana_write nd (if current_mode s = 1 then ANA_REG_GLB_TSX_CTRL10 else ANA_REG_GLB_TSX_CTRL11) (of_nat c) d1
      in do {
        (n, r) \<leftarrow> dcx_answer buf rsp 0 [];
        Some (n, r, s\<lparr>dcx_dev := d2\<rparr>)
      })
   }"

definition dcx_amp_cali :: "'d nodes \<Rightarrow> mem \<Rightarrow> mem \<Rightarrow> ('d, 'p) dcx \<Rightarrow> (int \<times> mem \<times> ('d, 'p) dcx) option" where
  "dcx_amp_cali nd buf rsp s = do {
     (reg, d') \<leftarrow> find_amp_cal_finish nd (current_mode s) (dcx_dev s);
     (n, r) \<leftarrow> dcx_answer buf rsp 0 (le16 (unat reg mod 65536) @ le16 0);
     Some (n, r, s\<lparr>dcx_dev := d'\<rparr>)
   }"

text \<open>What the file does not give stays as it was in the answer buffer.\<close>

definition dcx_load_afc_data :: "mem \<Rightarrow> mem \<Rightarrow> ('d, 'p) dcx \<Rightarrow> (int \<times> mem \<times> ('d, 'p) dcx) option" where
  "dcx_load_afc_data buf rsp s =
     (let (ret, bs) = read_dcx_data 16 (dcx_fs s) in do {
        old \<leftarrow> get rsp 13 16;
        (n, r) \<leftarrow> dcx_answer buf rsp (if ret = 16 then 0 else 1) (overlay 0 bs old);
        Some (n, r, s)
      })"

definition dcx_save_afc_data :: "bool \<Rightarrow> mem \<Rightarrow> mem \<Rightarrow> ('d, 'p) dcx \<Rightarrow> (int \<times> mem \<times> ('d, 'p) dcx) option" where
  "dcx_save_afc_data late buf rsp s = do {
     bs \<leftarrow> get buf 13 16;
     (let (ret, fs') = write_dcx_data late bs (dcx_fs s) in do {
        (n, r) \<leftarrow> dcx_answer buf rsp (if ret = 16 then 0 else 1) [];
        Some (n, r, s\<lparr>dcx_fs := fs'\<rparr>)
      })
   }"

definition DIAG_AP_CMD_SET_PMIC_AFC_CDAC :: nat where "DIAG_AP_CMD_SET_PMIC_AFC_CDAC = 0x25"
definition DIAG_AP_CMD_PMIC_AFC_AMP_CALI :: nat where "DIAG_AP_CMD_PMIC_AFC_AMP_CALI = 0x26"
definition DIAG_AP_CMD_LOAD_PMIC_AFC_DATA :: nat where "DIAG_AP_CMD_LOAD_PMIC_AFC_DATA = 0x27"
definition DIAG_AP_CMD_SAVE_PMIC_AFC_DATA :: nat where "DIAG_AP_CMD_SAVE_PMIC_AFC_DATA = 0x28"
definition DIAG_AP_CMD_SET_PMIC_AFC_MODE :: nat where "DIAG_AP_CMD_SET_PMIC_AFC_MODE = 0x29"

definition dcx_handler :: "bool \<Rightarrow> 'd nodes \<Rightarrow> ('d, 'p) dcx cb_io \<Rightarrow> nat \<Rightarrow> nat \<Rightarrow> (int \<times> ('d, 'p) dcx cb_io) option" where
  "dcx_handler late nd io len rsplen = do {
     cmd \<leftarrow> map_option de16 (get (cb_buf io) 9 2);
     (let buf = cb_buf io; rsp = cb_rsp io; s = cb_env io in do {
        (n, r, s') \<leftarrow>
          (if cmd = DIAG_AP_CMD_SET_PMIC_AFC_CDAC then dcx_set_afc_cdac nd buf rsp s
           else if cmd = DIAG_AP_CMD_PMIC_AFC_AMP_CALI then dcx_amp_cali nd buf rsp s
           else if cmd = DIAG_AP_CMD_SET_PMIC_AFC_MODE then dcx_set_afc_mode nd buf rsp s
           else if cmd = DIAG_AP_CMD_LOAD_PMIC_AFC_DATA then dcx_load_afc_data buf rsp s
           else if cmd = DIAG_AP_CMD_SAVE_PMIC_AFC_DATA then dcx_save_afc_data late buf rsp s
           else Some (0, rsp, s));
        Some (n, io\<lparr>cb_rsp := r, cb_env := s'\<rparr>)
      })
   }"

definition dcx_updates :: "bool \<Rightarrow> 'd nodes \<Rightarrow> (('d, 'p) dcx eng_callback \<Rightarrow> ('d, 'p) dcx eng_callback) list" where
  "dcx_updates late nd =
     map (\<lambda>(k, cp) c. (if cp then c\<lparr>also_need_to_cp := True\<rparr> else c)\<lparr>cb_type := 0x62, cb_subtype := 0, diag_ap_cmd := k, eng_diag_func := Some (dcx_handler late nd)\<rparr>)
       [(0x25, False), (0x26, False), (0x27, True), (0x28, True), (0x29, False)]"

definition register_dcx :: "bool \<Rightarrow> 'd nodes \<Rightarrow> ('d, 'p) dcx eng_callback list \<Rightarrow> ('d, 'p) dcx eng_callback list \<times> nat" where
  "register_dcx late nd = fill_entries (dcx_updates late nd)"

section \<open>The program at start-up\<close>

text \<open>What the file does not give is the uninitialised content of the structure: \<open>g\<close>.\<close>

definition dcxsrv_main :: "(nat \<Rightarrow> byte) \<Rightarrow> 'd nodes \<Rightarrow> 'p fsys \<Rightarrow> 'd \<Rightarrow> 'd" where
  "dcxsrv_main g nd fs d =
     (let (ret, bs) = read_dcx_data 16 fs in
      if ret < 0 then d
      else
        (let m = overlay 0 bs (malloc g 16);
             field = (\<lambda>k. of_nat (de16 (take 2 (drop (2 * k) m))))
         in ana_write nd SC2730_LP_Drift_32K (field 3)
              (ana_write nd SC2730_LP_AMP_26M (field 2)
                (ana_write nd SC2730_HP_AMP_26M (field 1) (ana_write nd SC2730_CDAC_REG (field 0) d)))))"

section \<open>Calibration data reach the registers\<close>

lemma dcx_answer_ok:
  assumes "head_ok h" and "14 + length d \<le> length rsp" and "length d < 1000"
  shows "dcx_answer (0x7E # head_bytes h @ rest) rsp st d =
    Some (int (14 + length d), 0x7E # head_bytes (h\<lparr>head_len := 12 + length d\<rparr>) @ le16 st @ le16 (length d) @ d @ 0x7E # drop (14 + length d) rsp)"
proof -
  have g: "get (0x7E # head_bytes h @ rest) 0 9 = Some (0x7E # head_bytes h)" by (simp add: get_def MSG_HEAD_SIZE_def)
  have p: "put rsp 0 (0x7E # head_bytes h) = Some (0x7E # head_bytes h @ drop 9 rsp)"
    using assms(2) by (simp add: put_def MSG_HEAD_SIZE_def)
  have q: "put (0x7E # head_bytes h' @ drop 9 rsp) 9 (le16 st @ le16 (length d) @ d @ [0x7E]) =
      Some (0x7E # head_bytes h' @ le16 st @ le16 (length d) @ d @ 0x7E # drop (14 + length d) rsp)" for h'
  proof -
    have n: "length (le16 st @ le16 (length d) @ d @ [0x7E]) + 9 = 14 + length d" by simp
    have "drop (length (le16 st @ le16 (length d) @ d @ [0x7E])) (drop 9 rsp) = drop (14 + length d) rsp"
      by (simp only: drop_drop n)
    moreover have "length (le16 st @ le16 (length d) @ d @ [0x7E]) \<le> length (drop 9 rsp)" using assms(2) by simp
    moreover have "9 = length [0x7E :: byte] + MSG_HEAD_SIZE" by (simp add: MSG_HEAD_SIZE_def)
    ultimately show ?thesis
      using put_body [of "le16 st @ le16 (length d) @ d @ [0x7E]" "drop 9 rsp" 9 "[0x7E]" h'] by (simp only: append_Cons append_Nil append_assoc)
  qed
  show ?thesis
    using assms(1,3) by (simp add: dcx_answer_def g p q msg_simps)
qed

lemma request_parts:
  assumes "cmd < 65536" and "length conf = 2"
  shows "map_option de16 (get (0x7E # head_bytes h @ le16 cmd @ conf @ d @ rest) 9 2) = Some cmd"
    and "get (0x7E # head_bytes h @ le16 cmd @ conf @ d @ rest) 13 (length d) = Some d"
proof -
  show "map_option de16 (get (0x7E # head_bytes h @ le16 cmd @ conf @ d @ rest) 9 2) = Some cmd"
    using get_pre [of 9 "0x7E # head_bytes h" 2 "le16 cmd" "conf @ d @ rest"] assms by (simp add: MSG_HEAD_SIZE_def de16_le16)
  show "get (0x7E # head_bytes h @ le16 cmd @ conf @ d @ rest) 13 (length d) = Some d"
    using get_pre [of 13 "0x7E # head_bytes h @ le16 cmd @ conf" "length d" d rest] assms by (simp add: MSG_HEAD_SIZE_def)
qed

lemma dcx_data_survives:
  assumes "fs_fine DCX_RAWDATA_FILE s" and "length bs = 16"
  shows "\<exists>s'. write_dcx_data late bs s = (16, s') \<and> read_dcx_data 16 s' = (16, bs)"
proof -
  let ?s = "s\<lparr>fs_data := (fs_data s)(DCX_RAWDATA_FILE \<mapsto> bs)\<rparr>"
  have "stream_read DCX_RAWDATA_FILE 16 ?s = bs"
    using stream_read_ok [of ?s DCX_RAWDATA_FILE bs 16] assms by (simp add: fs_fine_def)
  then have "read_dcx_data 16 ?s = (16, bs)" using assms by (simp add: read_dcx_data_def fs_exists_def fs_open_def fs_fine_def)
  moreover have "write_dcx_data late bs s = (16, ?s)" using stream_write_ok [OF assms(1), of late bs] assms(2) by (simp add: write_dcx_data_def)
  ultimately show ?thesis by blast
qed

lemma dcxsrv_registers:
  assumes "pmic_driver nd good sel regs prot" and "good d" and "read_dcx_data 16 fs = (16, le16 a @ le16 b @ le16 c @ le16 e @ pad)"
    and "a < 65536" and "b < 65536" and "c < 65536" and "e < 65536" and "length pad = 8" and "{0x1B14, 0x1B00, 0x1B04, 0x1B20} \<subseteq> prot"
  shows "regs (dcxsrv_main g nd fs d) =
    (if unlocked (regs d) then (regs d)(0x1B14 := of_nat a, 0x1B00 := of_nat b, 0x1B04 := of_nat c, 0x1B20 := of_nat e) else regs d)"
proof -
  note reg = SC2730_CDAC_REG_def SC2730_HP_AMP_26M_def SC2730_LP_AMP_26M_def SC2730_LP_Drift_32K_def
  have set_reg: "good (ana_write nd r (of_nat v) d)
      \<and> regs (ana_write nd r (of_nat v) d) = (if unlocked (regs d) then (regs d)(uint r := of_nat v) else regs d)"
    if "good d" "unat r < 2147483648" "v < 65536" "uint r \<in> prot" for r v d
  proof -
    have "ucast (of_nat v :: 32 word) = (of_nat v :: 16 word)"
      using that(3) by (simp add: word_unat_eq_iff unsigned_ucast_eq unsigned_of_nat take_bit_nat_eq_self)
    then show ?thesis using ana_write_register [OF assms(1) that(1,2), of "of_nat v"] that(3,4) by (simp add: unat_of_nat writable_def)
  qed
  let ?m = "le16 a @ le16 b @ le16 c @ le16 e @ pad"
  have "overlay 0 ?m (malloc g 16) = ?m" using assms(8) by (simp add: overlay_0 malloc_def)
  then have "dcxsrv_main g nd fs d = ana_write nd SC2730_LP_Drift_32K (of_nat e)
      (ana_write nd SC2730_LP_AMP_26M (of_nat c) (ana_write nd SC2730_HP_AMP_26M (of_nat b) (ana_write nd SC2730_CDAC_REG (of_nat a) d)))"
    using assms(3-7) by (simp add: dcxsrv_main_def de16_le16)
  moreover have "unlocked (r(x := v)) = unlocked r" if "x \<noteq> 0x1BD8" for r x v using that by (simp add: unlocked_def)
  ultimately show ?thesis using set_reg assms(2,4-7,9) by (simp add: reg)
qed

text \<open>The command that saves 16 bytes.\<close>

lemma dcx_save_served:
  assumes "fs_fine DCX_RAWDATA_FILE (dcx_fs s)" and "head_ok h" and "length conf = 2" and "length bs = 16" and "14 \<le> length rsp"
  shows "\<exists>s'. dcx_handler late nd \<lparr>cb_buf = 0x7E # head_bytes h @ le16 DIAG_AP_CMD_SAVE_PMIC_AFC_DATA @ conf @ bs @ rest, cb_rsp = rsp, cb_env = s\<rparr> len rl =
      Some (14, \<lparr>cb_buf = 0x7E # head_bytes h @ le16 DIAG_AP_CMD_SAVE_PMIC_AFC_DATA @ conf @ bs @ rest,
        cb_rsp = 0x7E # head_bytes (h\<lparr>head_len := 12\<rparr>) @ le16 0 @ le16 0 @ 0x7E # drop 14 rsp, cb_env = s\<lparr>dcx_fs := s'\<rparr>\<rparr>)
    \<and> read_dcx_data 16 s' = (16, bs)"
proof -
  let ?buf = "0x7E # head_bytes h @ le16 DIAG_AP_CMD_SAVE_PMIC_AFC_DATA @ conf @ bs @ rest"
  note cmds = DIAG_AP_CMD_SET_PMIC_AFC_CDAC_def DIAG_AP_CMD_PMIC_AFC_AMP_CALI_def DIAG_AP_CMD_LOAD_PMIC_AFC_DATA_def
    DIAG_AP_CMD_SAVE_PMIC_AFC_DATA_def DIAG_AP_CMD_SET_PMIC_AFC_MODE_def
  obtain s' where s': "write_dcx_data late bs (dcx_fs s) = (16, s')" "read_dcx_data 16 s' = (16, bs)"
    using dcx_data_survives [OF assms(1,4)] by blast
  define buf where "buf = ?buf"
  have p: "map_option de16 (get buf 9 2) = Some 0x28" "get buf 13 16 = Some bs"
    using request_parts [where cmd = "0x28" and conf = conf and h = h and d = bs and rest = rest] assms(3,4) by (simp_all add: cmds buf_def)
  have "dcx_answer buf rsp 0 [] = Some (14, 0x7E # head_bytes (h\<lparr>head_len := 12\<rparr>) @ le16 0 @ le16 0 @ 0x7E # drop 14 rsp)"
    using dcx_answer_ok [OF assms(2), of "[]" rsp] assms(5) by (simp add: buf_def)
  then have "dcx_save_afc_data late buf rsp s = Some (14, 0x7E # head_bytes (h\<lparr>head_len := 12\<rparr>) @ le16 0 @ le16 0 @ 0x7E # drop 14 rsp, s\<lparr>dcx_fs := s'\<rparr>)"
    by (simp add: dcx_save_afc_data_def p(2) s'(1))
  then have "dcx_handler late nd \<lparr>cb_buf = buf, cb_rsp = rsp, cb_env = s\<rparr> len rl =
      Some (14, \<lparr>cb_buf = buf, cb_rsp = 0x7E # head_bytes (h\<lparr>head_len := 12\<rparr>) @ le16 0 @ le16 0 @ 0x7E # drop 14 rsp, cb_env = s\<lparr>dcx_fs := s'\<rparr>\<rparr>)"
    by (simp add: dcx_handler_def p(1) cmds Let_def del: map_option_eq_Some)
  then show ?thesis using s'(2) unfolding buf_def by blast
qed

text \<open>C32: (calibration data and the registers) When the calibration data are saved by the command, which is answered with success, the
  program that runs at the next start writes the four values of the data into their registers of the chip, and no other
  register. These registers are write protected, and the program, unlike the commands, does not write the key first: when the
  protection register holds the key already, the four registers have exactly the four values and every other register is as it
  was; otherwise all registers are as they were, and the calibration is not applied.\<close>

theorem dcx_calibration_applied:
  assumes "pmic_driver nd good sel regs prot" and "good d" and "fs_fine DCX_RAWDATA_FILE (dcx_fs s)" and "head_ok h" and "length conf = 2"
    and "a < 65536" and "b < 65536" and "c < 65536" and "e < 65536" and "length pad = 8" and "14 \<le> length rsp"
    and "{0x1B14, 0x1B00, 0x1B04, 0x1B20} \<subseteq> prot"
  shows "\<exists>io. dcx_handler late nd \<lparr>cb_buf = 0x7E # head_bytes h @ le16 DIAG_AP_CMD_SAVE_PMIC_AFC_DATA @ conf @ (le16 a @ le16 b @ le16 c @ le16 e @ pad) @ rest,
        cb_rsp = rsp, cb_env = s\<rparr> len rl = Some (14, io)
    \<and> take 14 (cb_rsp io) = 0x7E # head_bytes (h\<lparr>head_len := 12\<rparr>) @ [0, 0, 0, 0, 0x7E]
    \<and> regs (dcxsrv_main g nd (dcx_fs (cb_env io)) d) =
        (if unlocked (regs d) then (regs d)(0x1B14 := of_nat a, 0x1B00 := of_nat b, 0x1B04 := of_nat c, 0x1B20 := of_nat e) else regs d)"
proof -
  have "length (le16 a @ le16 b @ le16 c @ le16 e @ pad) = 16" using assms(10) by simp
  from dcx_save_served [OF assms(3-5) this assms(11), of late nd rest len rl] obtain s' where
    "dcx_handler late nd \<lparr>cb_buf = 0x7E # head_bytes h @ le16 DIAG_AP_CMD_SAVE_PMIC_AFC_DATA @ conf @ (le16 a @ le16 b @ le16 c @ le16 e @ pad) @ rest,
        cb_rsp = rsp, cb_env = s\<rparr> len rl =
      Some (14, \<lparr>cb_buf = 0x7E # head_bytes h @ le16 DIAG_AP_CMD_SAVE_PMIC_AFC_DATA @ conf @ (le16 a @ le16 b @ le16 c @ le16 e @ pad) @ rest,
        cb_rsp = 0x7E # head_bytes (h\<lparr>head_len := 12\<rparr>) @ le16 0 @ le16 0 @ 0x7E # drop 14 rsp, cb_env = s\<lparr>dcx_fs := s'\<rparr>\<rparr>)"
    "read_dcx_data 16 s' = (16, le16 a @ le16 b @ le16 c @ le16 e @ pad)" by blast
  with dcxsrv_registers [OF assms(1,2) this(2) assms(6-10,12), of g] show ?thesis
    by (simp add: MSG_HEAD_SIZE_def le16_def [of 0])
qed

text \<open>The chip of theory TSensor, and files that can be written.\<close>

definition ex_dcx :: "(int \<times> (int \<Rightarrow> 16 word), byte list \<Rightarrow> byte list) dcx" where
  "ex_dcx = \<lparr>current_mode = 1, hp_cbank = 0, lp_cbank = 0, hp_amp = 0, lp_amp = 0, dcx_dev = (0, \<lambda>_. 0), dcx_fs = tsx_sample\<rparr>"

definition ex_dcx_head :: msg_head where
  "ex_dcx_head = \<lparr>seq_num = 0, head_len = 28, head_type = 0x62, head_subtype = 0\<rparr>"

text \<open>Once with the protection open, once closed.\<close>

theorem dcx_calibration_applied_witness:
  "(\<exists>io. dcx_handler False ex_pmic \<lparr>cb_buf = 0x7E # head_bytes ex_dcx_head @ le16 DIAG_AP_CMD_SAVE_PMIC_AFC_DATA @ [0, 0]
          @ (le16 0x7F @ le16 0x3F1F @ le16 0x21 @ le16 0x100 @ replicate 8 0) @ [0x7E],
        cb_rsp = replicate 14 0, cb_env = ex_dcx\<rparr> 30 0 = Some (14, io)
    \<and> take 14 (cb_rsp io) = 0x7E # head_bytes (ex_dcx_head\<lparr>head_len := 12\<rparr>) @ [0, 0, 0, 0, 0x7E]
    \<and> snd (dcxsrv_main (\<lambda>_. 0) ex_pmic (dcx_fs (cb_env io)) (0, (\<lambda>_. 0)(0x1BD8 := 0x1990))) =
        (\<lambda>_. 0)(0x1BD8 := 0x1990, 0x1B14 := 0x7F, 0x1B00 := 0x3F1F, 0x1B04 := 0x21, 0x1B20 := 0x100))
   \<and> (\<exists>io. dcx_handler False ex_pmic \<lparr>cb_buf = 0x7E # head_bytes ex_dcx_head @ le16 DIAG_AP_CMD_SAVE_PMIC_AFC_DATA @ [0, 0]
          @ (le16 0x7F @ le16 0x3F1F @ le16 0x21 @ le16 0x100 @ replicate 8 0) @ [0x7E],
        cb_rsp = replicate 14 0, cb_env = ex_dcx\<rparr> 30 0 = Some (14, io)
    \<and> snd (dcxsrv_main (\<lambda>_. 0) ex_pmic (dcx_fs (cb_env io)) (0, \<lambda>_. 0)) = (\<lambda>_. 0))"
  using dcx_calibration_applied [OF ex_pmic_driver, where d = "(0, (\<lambda>_. 0)(0x1BD8 := 0x1990))" and s = ex_dcx and h = ex_dcx_head and conf = "[0, 0]" and a = "0x7F"
      and b = "0x3F1F" and c = "0x21" and e = "0x100" and pad = "replicate 8 0" and rsp = "replicate 14 0" and rest = "[0x7E]" and late = False and len = 30 and rl = 0
      and g = "\<lambda>_. 0"]
    dcx_calibration_applied [OF ex_pmic_driver, where d = "(0, \<lambda>_. 0)" and s = ex_dcx and h = ex_dcx_head and conf = "[0, 0]" and a = "0x7F"
      and b = "0x3F1F" and c = "0x21" and e = "0x100" and pad = "replicate 8 0" and rsp = "replicate 14 0" and rest = "[0x7E]" and late = False and len = 30 and rl = 0
      and g = "\<lambda>_. 0"]
  by (auto simp: head_ok_def ex_dcx_head_def ex_dcx_def tsx_sample_def fs_fine_def ex_prot_def unlocked_def)

section \<open>High power is restored\<close>

lemma update_reg_register:
  assumes "pmic_driver nd good sel regs prot" and "good d" and "unat reg < 2147483648" and "\<And>v. unat v < 65536 \<Longrightarrow> unat (f v) < 2147483648"
    and "writable prot (regs d) (uint reg)"
  shows "\<exists>d'. update_reg nd reg f d = Some d' \<and> good d' \<and> regs d' = (regs d)(uint reg := ucast (f (ucast (regs d (uint reg)))))"
proof -
  obtain d1 where d1: "ana_read nd reg d = Some (ucast (regs d (uint reg)), d1)" "good d1" "regs d1 = regs d"
    using ana_read_register [OF assms(1-3)] by blast
  let ?v = "ucast (regs d (uint reg)) :: 32 word"
  have "unat (regs d (uint reg)) < 65536" using unsigned_less [of "regs d (uint reg)", where 'a = nat] by simp
  then have "unat ?v < 65536" by (simp add: unsigned_ucast_eq take_bit_nat_eq_self)
  then have "unat (f ?v) < 2147483648" by (rule assms(4))
  then show ?thesis using ana_write_register [OF assms(1) d1(2) assms(3), of "f ?v"] d1(1,3) assms(5) by (simp add: update_reg_def)
qed

lemma half_word: "unat (v :: 32 word) < 65536 \<longleftrightarrow> take_bit 16 v = v"
proof
  show "take_bit 16 v = v" if "unat v < 65536"
    using that by (simp add: word_unat_eq_iff unsigned_take_bit_eq take_bit_nat_eq_self)
  show "unat v < 65536" if "take_bit 16 v = v"
    using take_bit_nat_less_exp [of 16 "unat v"] arg_cong [OF that, of unat] by (simp add: unsigned_take_bit_eq)
qed

lemma half_words:
  assumes "unat (v :: 32 word) < 65536"
  shows "unat (v AND w) < 65536" and "unat w < 65536 \<Longrightarrow> unat (v OR w) < 65536"
proof -
  have b: "bit v n \<Longrightarrow> n < 16" for n using assms unfolding half_word by (metis bit_take_bit_iff)
  have "take_bit 16 (v AND w) = v AND w" by (rule bit_word_eqI) (auto simp: bit_simps dest: b)
  then show "unat (v AND w) < 65536" by (simp only: half_word)
  show "unat w < 65536 \<Longrightarrow> unat (v OR w) < 65536" using assms by (simp only: half_word take_bit_or)
qed

text \<open>Both changes of the mode, on the registers.\<close>

lemma unlocked_upd: "a \<noteq> 0x1BD8 \<Longrightarrow> unlocked (r(a := v)) = unlocked r"
  by (simp add: unlocked_def)

lemma writable_unlocked: "unlocked r \<Longrightarrow> writable prot r a"
  by (simp add: writable_def)

lemma enter_low_registers:
  assumes "pmic_driver nd good sel regs prot" and "good (dcx_dev s)" and "current_mode s = 1" and "unlocked (regs (dcx_dev s))"
  shows "\<exists>d'. enter_low_mode nd s = Some (s\<lparr>hp_cbank := ucast (regs (dcx_dev s) 0x1B14) AND 0xFF, hp_amp := ucast (regs (dcx_dev s) 0x1B00), dcx_dev := d', current_mode := 0\<rparr>)
    \<and> good d' \<and> regs d' = (regs (dcx_dev s))(0x1B14 := 0, 0x1B24 := regs (dcx_dev s) 0x1B24 OR 0x800)"
proof -
  obtain d1 where d1: "ana_read nd ANA_REG_GLB_TSX_CTRL10 (dcx_dev s) = Some (ucast (regs (dcx_dev s) 0x1B14), d1)" "good d1" "regs d1 = regs (dcx_dev s)"
    using ana_read_register [OF assms(1,2), of ANA_REG_GLB_TSX_CTRL10] by (auto simp: ANA_REG_GLB_TSX_CTRL10_def)
  obtain d2 where d2: "ana_read nd ANA_REG_GLB_TSX_CTRL5 d1 = Some (ucast (regs (dcx_dev s) 0x1B00), d2)" "good d2" "regs d2 = regs (dcx_dev s)"
    using ana_read_register [OF assms(1) d1(2), of ANA_REG_GLB_TSX_CTRL5] d1(3) by (auto simp: ANA_REG_GLB_TSX_CTRL5_def)
  have d3: "good (ana_write nd ANA_REG_GLB_TSX_CTRL10 0 d2)" "regs (ana_write nd ANA_REG_GLB_TSX_CTRL10 0 d2) = (regs (dcx_dev s))(0x1B14 := 0)"
    using ana_write_register [OF assms(1) d2(2), of ANA_REG_GLB_TSX_CTRL10 0] d2(3) writable_unlocked [OF assms(4)] by (auto simp: ANA_REG_GLB_TSX_CTRL10_def)
  have "unat (v OR BIT_DCXO_LP_CAL_EN) < 2147483648" if "unat v < 65536" for v
    using half_words(2) [OF that, of BIT_DCXO_LP_CAL_EN] by (simp add: BIT_DCXO_LP_CAL_EN_def BIT_def)
  then have u: "\<exists>d4. update_reg nd ANA_REG_GLB_TSX_CTRL14 (\<lambda>r. r OR BIT_DCXO_LP_CAL_EN) (ana_write nd ANA_REG_GLB_TSX_CTRL10 0 d2) = Some d4 \<and> good d4
      \<and> regs d4 = (regs (ana_write nd ANA_REG_GLB_TSX_CTRL10 0 d2))(uint ANA_REG_GLB_TSX_CTRL14 :=
        ucast (ucast (regs (ana_write nd ANA_REG_GLB_TSX_CTRL10 0 d2) (uint ANA_REG_GLB_TSX_CTRL14)) OR BIT_DCXO_LP_CAL_EN))"
    using assms(4) by (intro update_reg_register [OF assms(1) d3(1)]) (simp_all add: ANA_REG_GLB_TSX_CTRL14_def writable_def d3(2) unlocked_upd)
  then obtain d4 where d4: "update_reg nd ANA_REG_GLB_TSX_CTRL14 (\<lambda>r. r OR BIT_DCXO_LP_CAL_EN) (ana_write nd ANA_REG_GLB_TSX_CTRL10 0 d2) = Some d4" "good d4"
    "regs d4 = (regs (dcx_dev s))(0x1B14 := 0, 0x1B24 := ucast (ucast (regs (dcx_dev s) 0x1B24) OR BIT_DCXO_LP_CAL_EN))"
    using d3(2) by (auto simp: ANA_REG_GLB_TSX_CTRL14_def)
  have "ucast (ucast (x :: 16 word) OR BIT_DCXO_LP_CAL_EN) = x OR 0x800" for x
    by (rule bit_word_eqI) (auto simp: bit_simps BIT_DCXO_LP_CAL_EN_def BIT_def)
  then show ?thesis
    using d1(1) d2(1) d4 assms(3) by (intro exI [of _ d4]) (simp add: enter_low_mode_def BIT_DCXO_CORE_CBANK_HP_def)
qed

lemma enter_high_registers:
  assumes "pmic_driver nd good sel regs prot" and "good (dcx_dev s)" and "current_mode s = 0" and "unat (hp_cbank s) < 65536" and "unat (hp_amp s) < 65536"
    and "unlocked (regs (dcx_dev s))"
  shows "\<exists>s'. enter_high_mode nd s = Some s' \<and> current_mode s' = 1 \<and> good (dcx_dev s')
    \<and> regs (dcx_dev s') = (regs (dcx_dev s))(0x1B24 := regs (dcx_dev s) 0x1B24 AND NOT 0x800, 0x1B14 := ucast (hp_cbank s), 0x1B00 := ucast (hp_amp s))"
proof -
  obtain c d1 where d1: "ana_read nd ANA_REG_GLB_TSX_CTRL10 (dcx_dev s) = Some (c, d1)" "good d1" "regs d1 = regs (dcx_dev s)"
    using ana_read_register [OF assms(1,2), of ANA_REG_GLB_TSX_CTRL10] by (auto simp: ANA_REG_GLB_TSX_CTRL10_def)
  obtain a d2 where d2: "ana_read nd ANA_REG_GLB_TSX_CTRL5 d1 = Some (a, d2)" "good d2" "regs d2 = regs (dcx_dev s)"
    using ana_read_register [OF assms(1) d1(2), of ANA_REG_GLB_TSX_CTRL5] d1(3) by (auto simp: ANA_REG_GLB_TSX_CTRL5_def)
  have "unat (v AND NOT BIT_DCXO_LP_CAL_EN) < 2147483648" if "unat v < 65536" for v
    using half_words(1) [OF that, of "NOT BIT_DCXO_LP_CAL_EN"] by simp
  then have u: "\<exists>d3. update_reg nd ANA_REG_GLB_TSX_CTRL14 (\<lambda>r. r AND NOT BIT_DCXO_LP_CAL_EN) d2 = Some d3 \<and> good d3
      \<and> regs d3 = (regs d2)(uint ANA_REG_GLB_TSX_CTRL14 := ucast (ucast (regs d2 (uint ANA_REG_GLB_TSX_CTRL14)) AND NOT BIT_DCXO_LP_CAL_EN))"
    using assms(6) by (intro update_reg_register [OF assms(1) d2(2)]) (simp_all add: ANA_REG_GLB_TSX_CTRL14_def writable_def d2(3))
  have b: "ucast (ucast (x :: 16 word) AND NOT BIT_DCXO_LP_CAL_EN) = x AND NOT 0x800" for x
    by (rule bit_word_eqI) (auto simp: bit_simps BIT_DCXO_LP_CAL_EN_def BIT_def)
  obtain d3 where d3: "update_reg nd ANA_REG_GLB_TSX_CTRL14 (\<lambda>r. r AND NOT BIT_DCXO_LP_CAL_EN) d2 = Some d3" "good d3"
    "regs d3 = (regs (dcx_dev s))(0x1B24 := regs (dcx_dev s) 0x1B24 AND NOT 0x800)"
    using u d2(3) b by (auto simp: ANA_REG_GLB_TSX_CTRL14_def)
  let ?d4 = "ana_write nd ANA_REG_GLB_TSX_CTRL10 (hp_cbank s) d3"
  have d4: "good ?d4" "regs ?d4 = (regs d3)(0x1B14 := ucast (hp_cbank s))"
    using ana_write_register [OF assms(1) d3(2), of ANA_REG_GLB_TSX_CTRL10 "hp_cbank s"] assms(4,6)
    by (auto simp: ANA_REG_GLB_TSX_CTRL10_def d3(3) writable_def unlocked_upd)
  have d5: "good (ana_write nd ANA_REG_GLB_TSX_CTRL5 (hp_amp s) ?d4)" "regs (ana_write nd ANA_REG_GLB_TSX_CTRL5 (hp_amp s) ?d4) = (regs ?d4)(0x1B00 := ucast (hp_amp s))"
    using ana_write_register [OF assms(1) d4(1), of ANA_REG_GLB_TSX_CTRL5 "hp_amp s"] assms(5,6)
    by (auto simp: ANA_REG_GLB_TSX_CTRL5_def d4(2) d3(3) writable_def unlocked_upd)
  show ?thesis
    using d1(1) d2(1) d3(1,3) d4(2) d5 assms(3) by (simp add: enter_high_mode_def Let_def)
qed

text \<open>A request for a mode, and its answer.\<close>

definition mode_request :: "msg_head \<Rightarrow> nat \<Rightarrow> byte list \<Rightarrow> mem" where
  "mode_request h m rest = 0x7E # head_bytes h @ le16 DIAG_AP_CMD_SET_PMIC_AFC_MODE @ le16 4 @ le16 m @ rest"

lemma mode_served:
  assumes "head_ok h" and "14 \<le> length rsp" and "m \<le> 1"
    and "(if m = 0 then enter_low_mode nd else enter_high_mode nd) (s\<lparr>dcx_dev := ana_write nd ANA_REG_GLB_TSX_WR_PROT_VALUE 0x1990 (dcx_dev s)\<rparr>) = Some s'"
  shows "\<exists>r. dcx_handler late nd \<lparr>cb_buf = mode_request h m rest, cb_rsp = rsp, cb_env = s\<rparr> len rl =
      Some (14, \<lparr>cb_buf = mode_request h m rest, cb_rsp = r, cb_env = s'\<rparr>)"
proof -
  define buf where "buf = mode_request h m rest"
  note cmds = DIAG_AP_CMD_SET_PMIC_AFC_CDAC_def DIAG_AP_CMD_PMIC_AFC_AMP_CALI_def DIAG_AP_CMD_SET_PMIC_AFC_MODE_def
  have p: "map_option de16 (get buf 9 2) = Some 0x29" "map_option de16 (get buf 13 2) = Some m"
    using request_parts [where cmd = "0x29" and conf = "le16 4" and h = h and d = "le16 m" and rest = rest] assms(3)
    by (simp_all add: cmds buf_def mode_request_def de16_le16 del: map_option_eq_Some)
  have a: "dcx_answer buf rsp 0 [] = Some (14, 0x7E # head_bytes (h\<lparr>head_len := 12\<rparr>) @ le16 0 @ le16 0 @ 0x7E # drop 14 rsp)"
    using dcx_answer_ok [OF assms(1), of "[]" rsp] assms(2) by (simp add: buf_def mode_request_def)
  have "m = 0 \<or> m = 1" using assms(3) by auto
  then have "dcx_set_afc_mode nd buf rsp s = Some (14, 0x7E # head_bytes (h\<lparr>head_len := 12\<rparr>) @ le16 0 @ le16 0 @ 0x7E # drop 14 rsp, s')"
    using assms(4) by (auto simp add: dcx_set_afc_mode_def p(2) a Let_def simp del: map_option_eq_Some)
  then show ?thesis
    by (simp add: dcx_handler_def p(1) cmds Let_def flip: buf_def del: map_option_eq_Some)
qed

text \<open>C33: (high power is restored) Switching to low power empties the capacitor bank and sets the low-power bit; switching back to high power
  gives both the capacitor bank (its eight bits) and the amplitude the values they had before, clears the bit, and
  leaves every other register but the write protection, which both commands open first, as it was.\<close>

theorem afc_mode_restored:
  assumes "pmic_driver nd good sel regs prot" and "good (dcx_dev s)" and "current_mode s = 1" and "head_ok h" and "head_ok h'"
    and "14 \<le> length rsp" and "14 \<le> length rsp'" and "0x1BD8 \<notin> prot"
  shows "\<exists>io io'. dcx_handler late nd \<lparr>cb_buf = mode_request h 0 rest, cb_rsp = rsp, cb_env = s\<rparr> len rl = Some (14, io)
    \<and> regs (dcx_dev (cb_env io)) = (regs (dcx_dev s))(0x1BD8 := 0x1990, 0x1B14 := 0, 0x1B24 := regs (dcx_dev s) 0x1B24 OR 0x800)
    \<and> dcx_handler late nd \<lparr>cb_buf = mode_request h' 1 rest', cb_rsp = rsp', cb_env = cb_env io\<rparr> len rl = Some (14, io')
    \<and> regs (dcx_dev (cb_env io')) = (regs (dcx_dev s))(0x1BD8 := 0x1990, 0x1B14 := regs (dcx_dev s) 0x1B14 AND 0xFF,
        0x1B24 := regs (dcx_dev s) 0x1B24 AND NOT 0x800)
    \<and> current_mode (cb_env io') = 1"
proof -
  have prot: "good (ana_write nd ANA_REG_GLB_TSX_WR_PROT_VALUE 0x1990 d)" "regs (ana_write nd ANA_REG_GLB_TSX_WR_PROT_VALUE 0x1990 d) = (regs d)(0x1BD8 := 0x1990)"
    if "good d" for d
    using ana_write_register [OF assms(1) that, of ANA_REG_GLB_TSX_WR_PROT_VALUE "0x1990"] assms(8)
    by (auto simp: ANA_REG_GLB_TSX_WR_PROT_VALUE_def writable_def)
  have key: "unlocked (r(0x1BD8 := 0x1990))" for r by (simp add: unlocked_def)
  let ?r = "regs (dcx_dev s)"
  let ?s1 = "s\<lparr>dcx_dev := ana_write nd ANA_REG_GLB_TSX_WR_PROT_VALUE 0x1990 (dcx_dev s)\<rparr>"
  obtain s2 where s2: "enter_low_mode nd ?s1 = Some s2" "hp_cbank s2 = ucast (?r 0x1B14) AND 0xFF" "hp_amp s2 = ucast (?r 0x1B00)" "current_mode s2 = 0"
    "good (dcx_dev s2)" "regs (dcx_dev s2) = ?r(0x1BD8 := 0x1990, 0x1B14 := 0, 0x1B24 := ?r 0x1B24 OR 0x800)"
    using enter_low_registers [OF assms(1), of ?s1] prot [OF assms(2)] assms(3) key by fastforce
  let ?s3 = "s2\<lparr>dcx_dev := ana_write nd ANA_REG_GLB_TSX_WR_PROT_VALUE 0x1990 (dcx_dev s2)\<rparr>"
  have u: "unat (ucast (x :: 16 word) :: 32 word) < 65536" for x
    using unsigned_less [of x, where 'a = nat] by (simp add: unsigned_ucast_eq take_bit_nat_eq_self)
  have "unat (hp_cbank ?s3) < 65536" "unat (hp_amp ?s3) < 65536"
    using half_words(1) [OF u] u s2(2,3) by simp_all
  then obtain s4 where s4: "enter_high_mode nd ?s3 = Some s4" "current_mode s4 = 1"
    "regs (dcx_dev s4) = (regs (dcx_dev ?s3))(0x1B24 := regs (dcx_dev ?s3) 0x1B24 AND NOT 0x800, 0x1B14 := ucast (hp_cbank ?s3), 0x1B00 := ucast (hp_amp ?s3))"
    using enter_high_registers [OF assms(1), of ?s3] prot [OF s2(5)] s2(4) key by auto
  have "ucast (ucast x AND 0xFF :: 32 word) = x AND 0xFF" "(x OR 0x800) AND NOT 0x800 = x AND NOT 0x800" "ucast (ucast x :: 32 word) = x" for x :: "16 word"
    by (rule bit_word_eqI; auto simp: bit_simps)+
  then have r4: "regs (dcx_dev s4) = ?r(0x1BD8 := 0x1990, 0x1B14 := ?r 0x1B14 AND 0xFF, 0x1B24 := ?r 0x1B24 AND NOT 0x800)"
    using s4(3) prot(2) [OF s2(5)] s2(2,3,6) by (intro ext) auto
  obtain r1 where h1: "dcx_handler late nd \<lparr>cb_buf = mode_request h 0 rest, cb_rsp = rsp, cb_env = s\<rparr> len rl = Some (14, \<lparr>cb_buf = mode_request h 0 rest, cb_rsp = r1, cb_env = s2\<rparr>)"
    using mode_served [OF assms(4,6), of 0 nd s s2 late rest len rl] s2(1) by auto
  obtain r2 where h2: "dcx_handler late nd \<lparr>cb_buf = mode_request h' 1 rest', cb_rsp = rsp', cb_env = s2\<rparr> len rl = Some (14, \<lparr>cb_buf = mode_request h' 1 rest', cb_rsp = r2, cb_env = s4\<rparr>)"
    using mode_served [OF assms(5,7), of 1 nd s2 s4 late rest' len rl] s4(1) by auto
  show ?thesis
    by (rule exI [of _ "\<lparr>cb_buf = mode_request h 0 rest, cb_rsp = r1, cb_env = s2\<rparr>"],
        rule exI [of _ "\<lparr>cb_buf = mode_request h' 1 rest', cb_rsp = r2, cb_env = s4\<rparr>"])
      (simp add: h1 h2 [simplified] s2(6) r4 s4(2))
qed

theorem afc_mode_restored_witness:
  "\<exists>io io'. dcx_handler False ex_pmic \<lparr>cb_buf = mode_request ex_dcx_head 0 [0x7E], cb_rsp = replicate 14 0, cb_env = ex_dcx\<lparr>dcx_dev := (0, \<lambda>_. 0xFFFF)\<rparr>\<rparr> 16 0 = Some (14, io)
    \<and> dcx_handler False ex_pmic \<lparr>cb_buf = mode_request ex_dcx_head 1 [0x7E], cb_rsp = replicate 14 0, cb_env = cb_env io\<rparr> 16 0 = Some (14, io')
    \<and> snd (dcx_dev (cb_env io')) = (\<lambda>_. 0xFFFF)(0x1BD8 := 0x1990, 0x1B14 := 0xFF, 0x1B24 := 0xF7FF) \<and> current_mode (cb_env io') = 1"
  using afc_mode_restored [OF ex_pmic_driver, where s = "ex_dcx\<lparr>dcx_dev := (0, \<lambda>_. 0xFFFF)\<rparr>" and h = ex_dcx_head and h' = ex_dcx_head
      and rsp = "replicate 14 0" and rsp' = "replicate 14 0" and rest = "[0x7E]" and rest' = "[0x7E]" and late = False and len = 16 and rl = 0]
  by (simp add: head_ok_def ex_dcx_head_def ex_dcx_def ex_prot_def) blast

section \<open>The calibration loops\<close>

text \<open>With the flag down, the search through the upper field ends after at most seven steps at the bottom; no register but the
  control register has changed.\<close>

lemma ok_flag_register:
  assumes "pmic_driver nd good sel regs prot" and "good d"
  shows "\<exists>d'. OK_FLAG nd d = Some (ucast (regs d 0x1AFC) AND 8, d') \<and> good d' \<and> regs d' = regs d"
  using ana_read_register [OF assms, of ANA_REG_GLB_TSX_CTRL4]
  by (auto simp: OK_FLAG_def ANA_REG_GLB_TSX_CTRL4_def BIT_DCXO_CORE_AML_CAL_OK_FLAG_def BIT_def)

lemma cal_ctrl_register:
  assumes "pmic_driver nd good sel regs prot" and "good d"
  shows "\<exists>d'. cal_ctrl nd msk sh d = Some (drop_bit sh (ucast (regs d 0x1B00) AND msk), d') \<and> good d' \<and> regs d' = regs d"
  using ana_read_register [OF assms, of ANA_REG_GLB_TSX_CTRL5] by (auto simp: cal_ctrl_def ANA_REG_GLB_TSX_CTRL5_def)

lemma ucast_half:
  fixes v :: "32 word"
  assumes "unat v < 65536"
  shows "ucast (ucast v :: 16 word) = v"
proof -
  have "ucast (ucast v :: 16 word) = take_bit 16 v" by (rule bit_word_eqI) (auto simp: bit_simps)
  then show ?thesis using assms by (simp add: half_word)
qed

lemma field_counts_down:
  fixes c :: "32 word"
  assumes "unat w < 8"
  shows "drop_bit 5 ((((c AND 0x1F) OR push_bit 5 w) AND 0xFF) AND 0xE0) = w"
proof (rule bit_word_eqI)
  fix n
  assume n: "n < LENGTH(32)"
  have w: "bit w k \<Longrightarrow> k < 3" for k
  proof -
    have "take_bit 3 w = w" using assms by (simp add: word_unat_eq_iff unsigned_take_bit_eq take_bit_nat_eq_self)
    then show "bit w k \<Longrightarrow> k < 3" by (metis bit_take_bit_iff)
  qed
  show "bit (drop_bit 5 ((((c AND 0x1F) OR push_bit 5 w) AND 0xFF) AND 0xE0)) n = bit w n"
  proof (cases "n < 3")
    case True
    then consider "n = 0" | "n = 1" | "n = 2" by linarith
    then show ?thesis by cases (simp_all add: bit_simps)
  next
    case False
    then have "\<not> bit (0xFF :: 32 word) (5 + n)"
      using n bit_take_bit_iff [of 8 "0xFF :: 32 word" "5 + n"] by simp
    moreover have "\<not> bit w n" using w [of n] False by blast
    ultimately show ?thesis by (simp add: bit_simps)
  qed
qed

lemma coarse_loop_ends:
  assumes "pmic_driver nd good sel regs prot" and "good d" and "regs d 0x1AFC AND 8 = 0" and "unlocked (regs d)"
  shows "\<exists>d'. coarse_loop nd (HP_CAL_CTRL_7_5 nd) (\<lambda>r v. BIT_DCXO_CORE_AML_CAL_CTRL_HP ((r AND 0x1F) OR push_bit 5 v)) d = Some d' \<and> good d'
    \<and> drop_bit 5 (ucast (regs d' 0x1B00) AND (0xE0 :: 32 word)) = 0 \<and> (\<forall>a. a \<noteq> 0x1B00 \<longrightarrow> regs d' a = regs d a)"
  using assms(2,3,4)
proof (induction "unat (drop_bit 5 (ucast (regs d 0x1B00) AND (0xE0 :: 32 word)))" arbitrary: d rule: less_induct)
  case less
  let ?f = "\<lambda>r v. BIT_DCXO_CORE_AML_CAL_CTRL_HP ((r AND 0x1F) OR push_bit 5 v)"
  let ?v = "drop_bit 5 (ucast (regs d 0x1B00) AND (0xE0 :: 32 word))"
  have z: "ucast (regs d 0x1AFC) AND (8 :: 32 word) = 0"
  proof -
    have "ucast x AND (8 :: 32 word) = ucast (x AND 8)" for x :: "16 word" by (rule bit_word_eqI) (auto simp: bit_simps dest: bit_imp_le_length)
    then show ?thesis using less.prems(2) by simp
  qed
  obtain d1 where d1: "OK_FLAG nd d = Some (0, d1)" "good d1" "regs d1 = regs d"
    using ok_flag_register [OF assms(1) less.prems(1)] z by auto
  obtain d2 where d2: "OK_FLAG nd d1 = Some (0, d2)" "good d2" "regs d2 = regs d"
    using ok_flag_register [OF assms(1) d1(2)] z d1(3) by auto
  obtain d3 where d3: "HP_CAL_CTRL_7_5 nd d2 = Some (?v, d3)" "good d3" "regs d3 = regs d"
    using cal_ctrl_register [OF assms(1) d2(2), of "0xE0" 5] d2(3) by (auto simp: HP_CAL_CTRL_7_5_def BIT_DCXO_CORE_AML_CAL_CTRL_HP_def)
  have b: "at_bottom nd (HP_CAL_CTRL_7_5 nd) d1 = Some (?v = 0, d3)" by (simp add: at_bottom_def d2(1) d3(1))
  show ?case
  proof (cases "?v = 0")
    case True
    then have "coarse_loop nd (HP_CAL_CTRL_7_5 nd) ?f d = Some d3" by (subst coarse_loop.simps) (simp add: d1(1) b)
    then show ?thesis using True d3(2,3) by simp
  next
    case False
    obtain d4 where d4: "HP_CAL_CTRL_7_5 nd d3 = Some (?v, d4)" "good d4" "regs d4 = regs d"
      using cal_ctrl_register [OF assms(1) d3(2), of "0xE0" 5] d3(3) by (auto simp: HP_CAL_CTRL_7_5_def BIT_DCXO_CORE_AML_CAL_CTRL_HP_def)
    have fits: "unat (?f r (?v - 1)) < 2147483648" for r
      using half_words(1) [of "0xFF" "(r AND 0x1F) OR push_bit 5 (?v - 1)"] by (simp add: BIT_DCXO_CORE_AML_CAL_CTRL_HP_def and.commute)
    obtain d5 where d5: "update_reg nd ANA_REG_GLB_TSX_CTRL5 (\<lambda>r. ?f r (?v - 1)) d4 = Some d5" "good d5"
      "regs d5 = (regs d)(0x1B00 := ucast (?f (ucast (regs d 0x1B00)) (?v - 1)))"
      using update_reg_register [OF assms(1) d4(2), of ANA_REG_GLB_TSX_CTRL5 "\<lambda>r. ?f r (?v - 1)"] fits d4(3) less.prems(3)
      by (auto simp: ANA_REG_GLB_TSX_CTRL5_def writable_def)
    have "unat ?v = drop_bit 5 (unat (ucast (regs d 0x1B00) AND (0xE0 :: 32 word)))" by (rule unat_drop_bit_eq)
    then have "unat ?v = unat (ucast (regs d 0x1B00) AND (0xE0 :: 32 word)) div 32" unfolding drop_bit_eq_div [where 'a = nat] by simp
    moreover have "unat (ucast (regs d 0x1B00) AND (0xE0 :: 32 word)) \<le> unat (0xE0 :: 32 word)"
      using word_and_le1 [of "ucast (regs d 0x1B00)" "0xE0 :: 32 word"] by (simp add: word_le_nat_alt)
    ultimately have v: "unat ?v < 8" by (auto simp: div_less_iff_less_mult)
    have v1: "unat (?v - 1) = unat ?v - 1" "0 < unat ?v" using False by (simp_all add: unat_minus_one unat_gt_0)
    have wide: "ucast (ucast (?f x y) :: 16 word) = ?f x y" for x y
      using half_words(1) [of "0xFF" "(x AND 0x1F) OR push_bit 5 y"] by (intro ucast_half) (simp add: BIT_DCXO_CORE_AML_CAL_CTRL_HP_def and.commute)
    have e: "regs d5 0x1B00 = ucast (?f (ucast (regs d 0x1B00)) (?v - 1))" by (simp only: d5(3) fun_upd_same)
    have "unat (?v - 1) < 8" using v v1(1) by linarith
    then have "drop_bit 5 (ucast (regs d5 0x1B00) AND (0xE0 :: 32 word)) = ?v - 1"
      unfolding e wide unfolding BIT_DCXO_CORE_AML_CAL_CTRL_HP_def by (rule field_counts_down)
    moreover have "regs d5 0x1AFC AND 8 = 0" "unlocked (regs d5)" using less.prems(2,3) d5(3) by (simp_all add: unlocked_upd)
    ultimately obtain d' where "coarse_loop nd (HP_CAL_CTRL_7_5 nd) ?f d5 = Some d'" "good d'"
      "drop_bit 5 (ucast (regs d' 0x1B00) AND (0xE0 :: 32 word)) = 0" "\<forall>a. a \<noteq> 0x1B00 \<longrightarrow> regs d' a = regs d5 a"
      using less.hyps [of d5] d5(2) v1 by auto
    moreover from this have "coarse_loop nd (HP_CAL_CTRL_7_5 nd) ?f d = Some d'"
      by (subst coarse_loop.simps) (simp only: d1(1) b False d4(1) d5(1) bind.bind_lunit prod.case if_False simp_thms)
    ultimately show ?thesis using d5(3) by auto
  qed
qed

text \<open>The search through the lower field ends only when the flag comes up: with the flag down it never returns.\<close>

lemma ana_write_elsewhere:
  assumes "pmic_driver nd good sel regs prot" and "good d" and "unat reg < 2147483648" and "a \<noteq> uint reg"
  shows "good (ana_write nd reg v d) \<and> regs (ana_write nd reg v d) a = regs d a"
proof -
  have op: "nd_open nd PMIC_GLB_REG d" "nd_open nd PMIC_GLB_VALUE d" using assms(1,2) unfolding pmic_driver_def by blast+
  obtain d1 where d1: "nd_write nd PMIC_GLB_REG (zfill 30 (pad8 (show_hex (unat reg)))) d = (True, d1)" "good d1"
    "sel d1 = hex_in (zfill 30 (pad8 (show_hex (unat reg))))" "regs d1 = regs d"
    using assms(1,2) unfolding pmic_driver_def by blast
  have sel: "sel d1 = uint reg" using d1(3) hex_in_text(2) [OF assms(3)] by (simp flip: uint_nat)
  obtain d2 where d2: "nd_write nd PMIC_GLB_VALUE (zfill 30 (pad8 (show_hex (unat v)))) d1 = (True, d2)" "good d2"
    "regs d2 = (if writable prot (regs d1) (sel d1)
       then (regs d1)(sel d1 := word_of_int (hex_in (zfill 30 (pad8 (show_hex (unat v)))))) else regs d1)"
    using assms(1) d1(2) unfolding pmic_driver_def by blast
  have "ana_write nd reg v d = d2"
    unfolding ana_write_def put_node_def Let_def using op d1(1) d2(1) by (simp only: if_True snd_conv)
  then show ?thesis using d1(4) d2(2,3) sel assms(4) by simp
qed

lemma fine_loop_waits:
  assumes "pmic_driver nd good sel regs prot" and "good d" and "ucast (regs d 0x1AFC) AND (8 :: 32 word) = 0"
  shows "fine_loop nd (cal_ctrl nd m sh) msk d = None"
proof -
  have "nd' = nd \<longrightarrow> field = cal_ctrl nd m sh \<longrightarrow> good d \<longrightarrow> ucast (regs d 0x1AFC) AND (8 :: 32 word) = 0 \<longrightarrow> False"
    if "fine_loop nd' field msk d = Some y" for nd' field msk d y
    using that
  proof (rule fine_loop.raw_induct [rotated, where P = "\<lambda>nd' field msk d y. nd' = nd \<longrightarrow> field = cal_ctrl nd m sh \<longrightarrow> good d \<longrightarrow>
      ucast (regs d 0x1AFC) AND (8 :: 32 word) = 0 \<longrightarrow> False"])
    fix rec nd' field msk d y
    assume IH: "\<And>nd' field msk d y. rec nd' field msk d = Some y \<Longrightarrow>
        nd' = nd \<longrightarrow> field = cal_ctrl nd m sh \<longrightarrow> good d \<longrightarrow> ucast (regs d 0x1AFC) AND (8 :: 32 word) = 0 \<longrightarrow> False"
      and b: "(do {
        (f, d1) \<leftarrow> OK_FLAG nd' d;
        (if f = BIT_DCXO_CORE_AML_CAL_OK_FLAG then Some d1
         else do {
           (v, d2) \<leftarrow> field d1;
           d3 \<leftarrow> update_reg nd' ANA_REG_GLB_TSX_CTRL5 (\<lambda>r. (r AND NOT msk) OR (v - 1)) d2;
           rec nd' field msk d3
         })
      }) = Some y"
    show "nd' = nd \<longrightarrow> field = cal_ctrl nd m sh \<longrightarrow> good d \<longrightarrow> ucast (regs d 0x1AFC) AND (8 :: 32 word) = 0 \<longrightarrow> False"
    proof (intro impI)
      assume eq: "nd' = nd" "field = cal_ctrl nd m sh" and g: "good d" and z: "ucast (regs d 0x1AFC) AND (8 :: 32 word) = 0"
      obtain d1 where d1: "OK_FLAG nd d = Some (0, d1)" "good d1" "regs d1 = regs d" using ok_flag_register [OF assms(1) g] z by auto
      obtain v d2 where d2: "cal_ctrl nd m sh d1 = Some (v, d2)" "good d2" "regs d2 = regs d" using cal_ctrl_register [OF assms(1) d1(2)] d1(3) by metis
      obtain r d3 where d3: "ana_read nd ANA_REG_GLB_TSX_CTRL5 d2 = Some (r, d3)" "good d3" "regs d3 = regs d"
        using ana_read_register [OF assms(1) d2(2), of ANA_REG_GLB_TSX_CTRL5] d2(3) by (auto simp: ANA_REG_GLB_TSX_CTRL5_def)
      let ?d4 = "ana_write nd ANA_REG_GLB_TSX_CTRL5 ((r AND NOT msk) OR (v - 1)) d3"
      have d4: "good ?d4" "regs ?d4 0x1AFC = regs d 0x1AFC"
        using ana_write_elsewhere [OF assms(1) d3(2), of ANA_REG_GLB_TSX_CTRL5 "0x1AFC" "(r AND NOT msk) OR (v - 1)"] d3(3) by (auto simp: ANA_REG_GLB_TSX_CTRL5_def)
      have "rec nd (cal_ctrl nd m sh) msk ?d4 = Some y"
        using b d1(1) d2(1) d3(1) by (simp add: eq update_reg_def BIT_DCXO_CORE_AML_CAL_OK_FLAG_def BIT_def)
      from IH [OF this] show False using d4 z by simp
    qed
  qed
  then show ?thesis using assms(2,3) by (cases "fine_loop nd (cal_ctrl nd m sh) msk d") auto
qed

text \<open>When the flag is up from the start, the upper field is 7, and one more than 7 is cut to 0.\<close>

lemma coarse_step_wraps: "BIT_DCXO_CORE_AML_CAL_CTRL_HP ((0xFF AND NOT 0xE0) OR push_bit 5 (7 + 1)) = 0x1F"
  by (simp add: BIT_DCXO_CORE_AML_CAL_CTRL_HP_def)

end
