(* ===== verification/Client.thy ===== *)
theory Client
  imports EngCtl
begin

text \<open>
  The command-line client of the control server (\<open>client/main.cpp\<close>, \<open>client/engpcctl.cpp\<close>): its arguments
  become the structure \<open>ENGPC_CMD_T\<close>, which it sends. Together with theory EngCtl this gives what a command line does to
  the daemon. An argument that is absent is a null pointer (\<open>None\<close>); more than 16 arguments overrun the array.
\<close>

section \<open>The code\<close>

definition ENGPC_DST_DEV :: int where "ENGPC_DST_DEV = 0"
definition ENGPC_DST_CHNL :: int where "ENGPC_DST_CHNL = 1"
definition ENGPC_ACT_LIST :: int where "ENGPC_ACT_LIST = 0"
definition ENGPC_ACT_ADD :: int where "ENGPC_ACT_ADD = 1"
definition ENGPC_ACT_DEL :: int where "ENGPC_ACT_DEL = 2"
definition ENGPC_ACT_ENABLE :: int where "ENGPC_ACT_ENABLE = 3"
definition ENGPC_ACT_DISABLE :: int where "ENGPC_ACT_DISABLE = 4"

definition getDst :: "byte list option \<Rightarrow> int" where
  "getDst buff =
     (case buff of
        None \<Rightarrow> - 1
      | Some s \<Rightarrow> (if strcaseeq s (cs ''dev'') then ENGPC_DST_DEV else if strcaseeq s (cs ''chnl'') then ENGPC_DST_CHNL else - 1))"

definition getAct :: "byte list option \<Rightarrow> int" where
  "getAct buff =
     (case buff of
        None \<Rightarrow> - 1
      | Some s \<Rightarrow>
          (if strcaseeq s (cs ''list'') then ENGPC_ACT_LIST
           else if strcaseeq s (cs ''add'') then ENGPC_ACT_ADD
           else if strcaseeq s (cs ''del'') then ENGPC_ACT_DEL
           else if strcaseeq s (cs ''enable'') then ENGPC_ACT_ENABLE
           else if strcaseeq s (cs ''disable'') then ENGPC_ACT_DISABLE
           else - 1))"

text \<open>\<open>STRCPY\<close> into a zeroed array of \<open>n\<close> characters: the text is cut to leave a NUL.\<close>

definition STRCPY :: "nat \<Rightarrow> byte list option \<Rightarrow> byte list" where
  "STRCPY n s = zfill n (case s of None \<Rightarrow> [] | Some t \<Rightarrow> take (n - 1) t)"

text \<open>The structures; the smaller one of the union is filled up with zeros.\<close>

definition dev_cmd :: "int \<Rightarrow> byte list option \<Rightarrow> byte list option \<Rightarrow> byte list option \<Rightarrow> byte list option \<Rightarrow> byte list option
    \<Rightarrow> byte list option \<Rightarrow> byte list" where
  "dev_cmd act dn bm pn pt pp dt =
     zfill ENGPC_CMD_SIZE
       ([word_of_int ENGPC_DST_DEV, word_of_int act] @ STRCPY DEV_NAME_LEN dn @ STRCPY BOOTMODE_NAME_LEN bm
        @ STRCPY PORT_NAME_LEN pn @ STRCPY TYPE_NORMAL_LEN pt @ STRCPY PORT_PATH_LEN pp @ STRCPY TYPE_NORMAL_LEN dt)"

definition chnl_cmd :: "int \<Rightarrow> byte list option \<Rightarrow> byte list option \<Rightarrow> byte list option list \<Rightarrow> byte list option list \<Rightarrow> byte list" where
  "chnl_cmd act bm name ends types =
     zfill ENGPC_CMD_SIZE
       ([word_of_int ENGPC_DST_CHNL, word_of_int act] @ STRCPY BOOTMODE_NAME_LEN bm @ STRCPY CHNL_NAME_LEN name
        @ concat (map2 STRCPY [DEV_NAME_LEN, PORT_NAME_LEN, DEV_NAME_LEN, PORT_NAME_LEN] ends) @ concat (map (STRCPY TYPE_NORMAL_LEN) types))"

text \<open>The exchange with the server: whether it can be reached, whether the command is sent, and what is received.\<close>

definition sendCmd :: "bool \<Rightarrow> bool \<Rightarrow> byte list option \<Rightarrow> int" where
  "sendCmd connected sent answer =
     (if \<not> connected then - 1 else if \<not> sent then - 3 else (case answer of None \<Rightarrow> - 2 | Some bs \<Rightarrow> - 1))"

definition engpc_ctl_dev :: "int \<Rightarrow> (nat \<Rightarrow> byte list option) \<Rightarrow> byte list" where
  "engpc_ctl_dev act param = dev_cmd act (param 3) (param 4) (param 5) (param 6) (param 7) (param 8)"

definition engpc_ctl_chnl :: "int \<Rightarrow> (nat \<Rightarrow> byte list option) \<Rightarrow> byte list" where
  "engpc_ctl_chnl act param = chnl_cmd act (param 3) (param 4) (map param [5..<9]) (map param [9..<13])"

text \<open>The arguments with the program's name; the command that is sent, if any.\<close>

definition client_main :: "byte list list \<Rightarrow> byte list option option" where
  "client_main argv =
     (if length argv < 2 then Some None
      else if 16 < length argv then None
      else
        (let param = (\<lambda>i. if i < length argv then Some (argv ! i) else None);
             dst = getDst (param 1); act = getAct (param 2)
         in if dst = - 1 \<or> act = - 1 then Some None
            else if dst = ENGPC_DST_DEV then Some (Some (engpc_ctl_dev act param))
            else Some (Some (engpc_ctl_chnl act param))))"

section \<open>What a command line does\<close>

lemma STRCPY_length: "0 < n \<Longrightarrow> length (STRCPY n s) = n"
  by (auto simp: STRCPY_def zfill_def split: option.splits)

lemmas cmd_lens = DEV_NAME_LEN_def BOOTMODE_NAME_LEN_def PORT_NAME_LEN_def TYPE_NORMAL_LEN_def PORT_PATH_LEN_def CHNL_NAME_LEN_def

lemma cmd_size: "ENGPC_CMD_SIZE = 386"
  by (simp add: ENGPC_CMD_SIZE_def cmd_lens)

lemma upt_params: "[5..<9] = [5, 6, 7, 8 :: nat]" "[9..<13] = [9, 10, 11, 12 :: nat]"
  by (simp_all add: upt_rec)

lemma chnl_length: "length (engpc_ctl_chnl act param) = ENGPC_CMD_SIZE"
  by (simp add: engpc_ctl_chnl_def chnl_cmd_def zfill_def upt_params STRCPY_length cmd_size cmd_lens)

lemma dev_length: "length (engpc_ctl_dev act param) = ENGPC_CMD_SIZE"
  by (simp add: engpc_ctl_dev_def dev_cmd_def zfill_def STRCPY_length cmd_size cmd_lens)

text \<open>Where the server looks for the name.\<close>

lemma chnl_name:
  assumes "param 4 = Some name" and "0 \<notin> set name"
  shows "cstr_at (engpc_ctl_chnl act param) chnl_s_name_off = Some (take 127 name)"
proof -
  let ?head = "[word_of_int ENGPC_DST_CHNL, word_of_int act] @ STRCPY BOOTMODE_NAME_LEN (param 3)"
  obtain rest where r: "engpc_ctl_chnl act param = ?head @ STRCPY CHNL_NAME_LEN (Some name) @ rest"
    using assms(1) by (simp add: engpc_ctl_chnl_def chnl_cmd_def zfill_def)
  have o: "chnl_s_name_off = length ?head" by (simp add: chnl_s_name_off_def STRCPY_length cmd_lens)
  have "128 - length (take 127 name) = Suc (127 - length (take 127 name))" by (simp add: Suc_diff_le)
  then have "STRCPY CHNL_NAME_LEN (Some name) = take 127 name @ 0 # replicate (127 - length (take 127 name)) 0"
    by (simp add: STRCPY_def zfill_def cmd_lens)
  then have d: "drop chnl_s_name_off (engpc_ctl_chnl act param) = take 127 name @ 0 # (replicate (127 - length (take 127 name)) 0 @ rest)"
    unfolding r o by simp
  have z: "0 \<notin> set (take 127 name)" using assms(2) by (meson in_set_takeD)
  have "takeWhile (\<lambda>b. b \<noteq> 0) (take 127 name @ 0 # x) = take 127 name" for x
    by (subst takeWhile_append2) (use z in auto)
  moreover have "chnl_s_name_off \<le> length (engpc_ctl_chnl act param)" by (simp add: chnl_length cmd_size chnl_s_name_off_def cmd_lens)
  ultimately show ?thesis using d by (simp add: cstr_at_def)
qed

text \<open>C34: (the client controls the daemon's channels) The command line that enables or disables a channel makes the client send a command of
  the server's size, and when the server reads it, the channel threads are switched by exactly that name, cut to 127
  characters, whatever the other arguments are; the answer is 256 zero bytes.\<close>

theorem client_controls_channels:
  assumes "strcaseeq d (cs ''chnl'')" and "strcaseeq a (cs ''enable'') \<or> strcaseeq a (cs ''disable'')" and "0 \<notin> set name" and "length args \<le> 11"
  shows "\<exists>bs. client_main (prog # d # a # mode # name # args) = Some (Some bs) \<and> length bs = ENGPC_CMD_SIZE
    \<and> engctl_turn bs w = Some (replicate CMD_RSP_LEN 0, enableChnl (take 127 name) (strcaseeq a (cs ''enable'')) w)"
proof -
  let ?argv = "prog # d # a # mode # name # args"
  let ?param = "\<lambda>i. if i < length ?argv then Some (?argv ! i) else None"
  let ?act = "if strcaseeq a (cs ''enable'') then ENGPC_ACT_ENABLE else ENGPC_ACT_DISABLE"
  let ?bs = "engpc_ctl_chnl ?act ?param"
  have ne: "strcaseeq x s \<Longrightarrow> length x = length s" for x s :: "byte list"
    unfolding strcaseeq_def by (metis length_map)
  have dst: "getDst (Some d) = 1"
    using assms(1) ne [of d "cs ''dev''"] ne [of d "cs ''chnl''"] by (auto simp: getDst_def ENGPC_DST_CHNL_def)
  have act: "getAct (Some a) = ?act"
    using assms(2) ne [of a "cs ''list''"] ne [of a "cs ''add''"] ne [of a "cs ''del''"] ne [of a "cs ''enable''"] ne [of a "cs ''disable''"]
    by (auto simp: getAct_def)
  have "client_main ?argv = Some (Some ?bs)"
    using assms(4) dst act by (simp add: client_main_def Let_def ENGPC_DST_DEV_def ENGPC_ACT_ENABLE_def ENGPC_ACT_DISABLE_def)
  moreover have n: "cstr_at ?bs chnl_s_name_off = Some (take 127 name)" using chnl_name [of ?param name] assms(3) by simp
  moreover have b: "?bs ! 0 = 1" "?bs ! 1 = word_of_int ?act" "zfill ENGPC_CMD_SIZE ?bs = ?bs"
    by (simp_all add: engpc_ctl_chnl_def chnl_cmd_def ENGPC_DST_CHNL_def) (simp_all add: zfill_def chnl_length [unfolded engpc_ctl_chnl_def chnl_cmd_def])
  moreover have "ctl_chnl ?bs w = Some (0, enableChnl (take 127 name) (strcaseeq a (cs ''enable'')) w)"
  proof -
    have "?bs ! 1 = 3 \<or> ?bs ! 1 = 4" "(?bs ! 1 = 3) = strcaseeq a (cs ''enable'')"
      using b(2) by (auto simp: ENGPC_ACT_ENABLE_def ENGPC_ACT_DISABLE_def)
    then show ?thesis unfolding ctl_chnl_def Let_def n by (simp only: if_True bind.bind_lunit)
  qed
  ultimately show ?thesis
    by (intro exI [of _ ?bs]) (simp add: chnl_length engctl_turn_def engctl_process_def)
qed

text \<open>Switching a channel off from the command line.\<close>

theorem client_controls_channels_witness:
  "\<exists>bs. client_main [cs ''engpcctl'', cs ''chnl'', cs ''DISABLE'', cs ''normal'', cs ''PC-CP-PPPD''] = Some (Some bs) \<and> length bs = 386
    \<and> engctl_turn bs (sample_world (sample_thread KLog DATA_LOG 0) []) =
      Some (replicate CMD_RSP_LEN 0, enableChnl (cs ''PC-CP-PPPD'') False (sample_world (sample_thread KLog DATA_LOG 0) []))"
proof -
  have "strcaseeq (cs ''chnl'') (cs ''chnl'')" "strcaseeq (cs ''DISABLE'') (cs ''disable'')" "\<not> strcaseeq (cs ''DISABLE'') (cs ''enable'')"
    by (simp_all add: strcaseeq_def lower_def)
  then show ?thesis
    using client_controls_channels [of "cs ''chnl''" "cs ''DISABLE''" "cs ''PC-CP-PPPD''" "[]" "cs ''engpcctl''" "cs ''normal''" "sample_world (sample_thread KLog DATA_LOG 0) []"]
    by (simp add: cmd_size)
qed

end
