(* ===== verification/Gpio.thy ===== *)
theory Gpio
  imports Sysfs
begin

unbundle bit_operations_syntax

text \<open>
  The test of the general-purpose pins (\<open>modules/gpio/gpio.cpp\<close>) with the pin tables of the platforms
  (\<open>modules/gpio/<platform>/pinconfig.h\<close>). The build for old kernels (\<open>KERNEL_OLD\<close>, here \<open>old\<close>) works with commands of
  the shell on the nodes of the pins, the build for new ones with \<open>ioctl\<close> on a test driver. What the nodes, the
  directory of the chips and the driver do is a parameter.
\<close>

section \<open>The pin tables\<close>

text \<open>The pin and the address of its control register; \<open>0xFFFF\<close> when it has none.\<close>

definition pins_pike2 :: "(nat \<times> nat) list" where
  "pins_pike2 =
     [(0, 0x0020), (1, 0x0024), (2, 0x0028), (3, 0x002C), (4, 0x0030), (5, 0x0034), (6, 0x0070), (7, 0x0074),
      (8, 0x0078), (9, 0x007C), (10, 0x0080), (11, 0x0084), (12, 0x0088), (13, 0x008C), (14, 0x0090), (15, 0x0094),
      (16, 0x0098), (17, 0x009C), (18, 0x00A0), (19, 0x00A4), (20, 0x00AC), (21, 0x00B0), (22, 0x00B4), (23, 0x00B8),
      (24, 0x00BC), (25, 0x00C0), (26, 0x00C4), (27, 0x00C8), (28, 0x00CC), (29, 0x00D0), (30, 0x00D4), (31, 0x00D8),
      (32, 0x00DC), (33, 0x00E0), (34, 0x00E4), (35, 0x00E8), (36, 0x00EC), (37, 0x00F0), (38, 0x00F4), (39, 0x00F8),
      (40, 0x00FC), (41, 0x0100), (42, 0x0104), (43, 0x0108), (44, 0x010C), (45, 0x0110), (46, 0x0118), (47, 0x011C),
      (48, 0x0120), (49, 0x0124), (50, 0x0128), (51, 0x012C), (52, 0x0130), (53, 0x0134), (54, 0x0138), (55, 0x013C),
      (56, 0x0140), (57, 0x0144), (58, 0x0148), (59, 0x014C), (60, 0x0150), (61, 0x0154), (62, 0x0158), (63, 0x015C),
      (64, 0x0160), (65, 0x0164), (66, 0x0168), (67, 0x016C), (68, 0x0170), (69, 0x0174), (70, 0x0178), (71, 0x017C),
      (72, 0x0180), (73, 0x0184), (74, 0x0188), (75, 0x018C), (76, 0x0190), (77, 0x0194), (78, 0x0198), (79, 0x019C),
      (80, 0x01A0)]"

definition pins_sharkl3 :: "(nat \<times> nat) list" where
  "pins_sharkl3 =
     [(0, 0xFFFF), (1, 0x0280), (2, 0x0284), (3, 0x0288), (4, 0x028C), (5, 0x0290), (6, 0x00D4), (7, 0x0260),
      (8, 0x0264), (9, 0x0268), (10, 0x026C), (11, 0x0270), (12, 0x0274), (13, 0x0278), (14, 0x027C), (15, 0x0254),
      (16, 0x0258), (17, 0x00F8), (18, 0x00FC), (19, 0x021C), (20, 0x0220), (21, 0x0224), (22, 0x0228), (23, 0x022C),
      (24, 0x0230), (25, 0x0234), (26, 0x0238), (27, 0x023C), (28, 0x0240), (29, 0x0244), (30, 0x0248), (31, 0x024C),
      (32, 0x0250), (33, 0x025C), (34, 0x0100), (35, 0x0104), (36, 0x0214), (37, 0x0218), (38, 0x0108), (39, 0x010C),
      (40, 0x0078), (41, 0x007C), (42, 0x0080), (43, 0x008C), (44, 0x0084), (45, 0x0090), (46, 0x0088), (47, 0x0094),
      (48, 0x0068), (49, 0x006C), (50, 0x016C), (51, 0x015C), (52, 0x0294), (53, 0x0298), (54, 0x029C), (55, 0x02A0),
      (56, 0x00E8), (57, 0x00EC), (58, 0x00F0), (59, 0x00F4), (60, 0x0098), (61, 0x009C), (62, 0x00A0), (63, 0x00A4),
      (64, 0x00C0), (65, 0x00C4), (66, 0x00C8), (67, 0x00CC), (68, 0x00D0), (69, 0x0054), (70, 0x00A8), (71, 0x00AC),
      (72, 0x00B0), (73, 0x00B4), (74, 0x0070), (75, 0x0074), (76, 0x0148), (77, 0x0050), (78, 0x00B8), (79, 0x00BC),
      (80, 0x0110), (81, 0x0114), (82, 0x02C8), (83, 0x02CC), (84, 0xFFFF), (85, 0x02B4), (86, 0x02B8), (87, 0x02BC),
      (88, 0x02C0), (89, 0x02C4), (90, 0x02A4), (91, 0x02A8), (92, 0x02AC), (93, 0x02B0), (94, 0x00D8), (95, 0x00DC),
      (96, 0x00E0), (97, 0x00E4), (98, 0x013C), (99, 0x0138), (100, 0x0144), (101, 0x011C), (102, 0x012C), (103, 0x0130),
      (104, 0x0120), (105, 0x0128), (106, 0x0118), (107, 0x0140), (108, 0x0134), (109, 0x0124), (110, 0xFFFF), (111, 0xFFFF),
      (112, 0xFFFF), (113, 0xFFFF), (114, 0xFFFF), (115, 0xFFFF), (116, 0xFFFF), (117, 0xFFFF), (118, 0xFFFF), (119, 0xFFFF),
      (120, 0xFFFF), (121, 0x01FC), (122, 0x0200), (123, 0x0204), (124, 0x0208), (125, 0x020C), (126, 0x0210), (127, 0x0044),
      (128, 0x0048), (129, 0x004C), (130, 0x0038), (131, 0x003C), (132, 0x0034), (133, 0x0040), (134, 0x01C0), (135, 0x01CC),
      (136, 0x01C8), (137, 0x01C4), (138, 0x01D4), (139, 0x01D0), (140, 0x014C), (141, 0x0154), (142, 0x0158), (143, 0x0150),
      (144, 0x0058), (145, 0x005C), (146, 0x0060), (147, 0x0064), (148, 0x01BC), (149, 0x01B8), (150, 0x01A8), (151, 0x01B0),
      (152, 0x01AC), (153, 0x01B4), (154, 0x01F0), (155, 0x01F4), (156, 0x01F8), (157, 0x01D8), (158, 0x01DC), (159, 0x01E0),
      (160, 0x01E4), (161, 0x01E8), (162, 0x01EC)]"

definition pins_sharkle :: "(nat \<times> nat) list" where
  "pins_sharkle =
     [(0, 0xFFFF), (1, 0x0208), (2, 0x020C), (3, 0x0210), (4, 0x0214), (5, 0x0218), (6, 0xFFFF), (7, 0x01F4),
      (8, 0x01F8), (9, 0x01FC), (10, 0x0200), (11, 0x0204), (12, 0xFFFF), (13, 0xFFFF), (14, 0xFFFF), (15, 0xFFFF),
      (16, 0xFFFF), (17, 0xFFFF), (18, 0xFFFF), (19, 0x01B8), (20, 0x01BC), (21, 0x01C0), (22, 0x01C4), (23, 0x01C8),
      (24, 0x01CC), (25, 0x01D0), (26, 0x01D4), (27, 0x01D8), (28, 0x01DC), (29, 0x01E0), (30, 0x01E4), (31, 0x01E8),
      (32, 0x01EC), (33, 0x01F0), (34, 0xFFFF), (35, 0xFFFF), (36, 0x01B0), (37, 0x01B4), (38, 0xFFFF), (39, 0xFFFF),
      (40, 0x0064), (41, 0x0068), (42, 0x006C), (43, 0x0078), (44, 0x0070), (45, 0x007C), (46, 0x0074), (47, 0x0080),
      (48, 0x0054), (49, 0x0058), (50, 0x00F4), (51, 0x00F8), (52, 0x021C), (53, 0x0220), (54, 0x0224), (55, 0x0228),
      (56, 0xFFFF), (57, 0xFFFF), (58, 0xFFFF), (59, 0xFFFF), (60, 0x0084), (61, 0x0088), (62, 0x008C), (63, 0x0090),
      (64, 0xFFFF), (65, 0xFFFF), (66, 0xFFFF), (67, 0xFFFF), (68, 0xFFFF), (69, 0x0040), (70, 0x0094), (71, 0x0098),
      (72, 0x009C), (73, 0x00A0), (74, 0x005C), (75, 0x0060), (76, 0x00E8), (77, 0x003C), (78, 0x00A4), (79, 0x00A8),
      (80, 0xFFFF), (81, 0xFFFF), (82, 0x0250), (83, 0x0254), (84, 0xFFFF), (85, 0x023C), (86, 0x0240), (87, 0x0244),
      (88, 0x0248), (89, 0x024C), (90, 0x022C), (91, 0x0230), (92, 0x0234), (93, 0x0238), (94, 0xFFFF), (95, 0xFFFF),
      (96, 0xFFFF), (97, 0xFFFF), (98, 0x00D0), (99, 0x00D4), (100, 0x00C8), (101, 0x00D8), (102, 0x00C4), (103, 0x00B0),
      (104, 0x00B8), (105, 0x00C0), (106, 0x00CC), (107, 0x00DC), (108, 0x00B4), (109, 0x00AC), (110, 0xFFFF), (111, 0xFFFF),
      (112, 0xFFFF), (113, 0xFFFF), (114, 0xFFFF), (115, 0xFFFF), (116, 0xFFFF), (117, 0xFFFF), (118, 0xFFFF), (119, 0xFFFF),
      (120, 0xFFFF), (121, 0x0198), (122, 0x019C), (123, 0x01A0), (124, 0x01A4), (125, 0x01A8), (126, 0x01AC), (127, 0x0030),
      (128, 0x0034), (129, 0x0038), (130, 0x0020), (131, 0x0024), (132, 0x0028), (133, 0x002C), (134, 0x0158), (135, 0x015C),
      (136, 0x0160), (137, 0x0164), (138, 0x0168), (139, 0x016C), (140, 0x00F0), (141, 0x00E4), (142, 0x00EC), (143, 0x00E0),
      (144, 0x0044), (145, 0x0048), (146, 0x004C), (147, 0x0050), (148, 0x013C), (149, 0x0140), (150, 0x0144), (151, 0x0148),
      (152, 0x014C), (153, 0x0150), (154, 0x018C), (155, 0x0190), (156, 0x0194), (157, 0x0174), (158, 0x0178), (159, 0x017C),
      (160, 0x0180), (161, 0x0184), (162, 0x0188)]"

definition pins_isharkl2 :: "(nat \<times> nat) list" where
  "pins_isharkl2 =
     [(0, 0xFFFF), (1, 0x01A4), (2, 0x01A0), (3, 0x019C), (4, 0x01B0), (5, 0x01AC), (6, 0x01A8), (7, 0x01CC),
      (8, 0x01D0), (9, 0x01D4), (10, 0x01D8), (11, 0x01DC), (12, 0x01E0), (13, 0x01E4), (14, 0x01E8), (15, 0x01EC),
      (16, 0x01F0), (17, 0x01F4), (18, 0x01F8), (19, 0x01FC), (20, 0x0200), (21, 0x0204), (22, 0x0208), (23, 0x020C),
      (24, 0x0210), (25, 0xFFFF), (26, 0xFFFF), (27, 0x003C), (28, 0x0040), (29, 0x00D0), (30, 0x00D4), (31, 0x0094),
      (32, 0x0090), (33, 0x00CC), (34, 0x0174), (35, 0xFFFF), (36, 0x01B8), (37, 0x01B4), (38, 0x0134), (39, 0x0138),
      (40, 0x01C8), (41, 0x01C4), (42, 0x00F4), (43, 0x00F8), (44, 0x00FC), (45, 0x0100), (46, 0x0240), (47, 0x0244),
      (48, 0x0238), (49, 0x023C), (50, 0x013C), (51, 0x0140), (52, 0x0144), (53, 0x0148), (54, 0x0230), (55, 0x0234),
      (56, 0x0128), (57, 0x012C), (58, 0x02A0), (59, 0x02A4), (60, 0x02A8), (61, 0x0294), (62, 0x0298), (63, 0x029C),
      (64, 0x0288), (65, 0x028C), (66, 0x0290), (67, 0x0034), (68, 0x0030), (69, 0x002C), (70, 0x0020), (71, 0x0024),
      (72, 0x0028), (73, 0x00E4), (74, 0x00D8), (75, 0x00DC), (76, 0x00E0), (77, 0x00E8), (78, 0x00EC), (79, 0x0104),
      (80, 0x0108), (81, 0x010C), (82, 0x0110), (83, 0x0268), (84, 0x026C), (85, 0x0270), (86, 0x0274), (87, 0x0258),
      (88, 0x025C), (89, 0x0260), (90, 0x0264), (91, 0x0278), (92, 0x027C), (93, 0x0280), (94, 0x0284), (95, 0x0214),
      (96, 0x0218), (97, 0x021C), (98, 0x0220), (99, 0x00A4), (100, 0x00A0), (101, 0x00BC), (102, 0x00C0), (103, 0x0098),
      (104, 0x00B8), (105, 0x00B4), (106, 0x00C4), (107, 0x00B0), (108, 0x009C), (109, 0x00A8), (110, 0x00AC), (111, 0x014C),
      (112, 0x0150), (113, 0x0154), (114, 0x0158), (115, 0x015C), (116, 0x0160), (117, 0x0114), (118, 0x008C), (119, 0x0120),
      (120, 0x0224), (121, 0x0228), (122, 0x0190), (123, 0x0188), (124, 0x0180), (125, 0x017C), (126, 0x0088), (127, 0x0084),
      (128, 0x0198), (129, 0x0194), (130, 0x0164), (131, 0x0168), (132, 0x0250), (133, 0x0254), (134, 0xFFFF), (135, 0xFFFF),
      (136, 0x0170), (137, 0x016C), (138, 0xFFFF), (139, 0xFFFF), (140, 0xFFFF), (141, 0xFFFF), (142, 0xFFFF), (143, 0xFFFF),
      (144, 0xFFFF), (145, 0xFFFF), (146, 0xFFFF), (147, 0xFFFF), (148, 0xFFFF), (149, 0xFFFF), (150, 0xFFFF), (151, 0xFFFF),
      (152, 0xFFFF), (153, 0x0124), (154, 0x0248), (155, 0x024C), (156, 0x018C), (157, 0x0184), (158, 0xFFFF), (159, 0xFFFF),
      (160, 0xFFFF), (161, 0xFFFF), (162, 0xFFFF), (163, 0xFFFF), (164, 0xFFFF), (165, 0xFFFF), (166, 0xFFFF), (167, 0xFFFF),
      (168, 0xFFFF), (169, 0xFFFF), (170, 0xFFFF), (171, 0xFFFF), (172, 0xFFFF), (173, 0xFFFF), (174, 0xFFFF), (175, 0xFFFF),
      (176, 0xFFFF), (177, 0xFFFF), (178, 0xFFFF), (179, 0x01C0), (180, 0x01BC), (181, 0x0130), (182, 0x0178), (183, 0x011C),
      (184, 0x0118)]"

definition pins_roc1 :: "(nat \<times> nat) list" where "pins_roc1 = map (\<lambda>i. (i, 0xFFFF)) [0..<163]"
definition pins_sharkl5 :: "(nat \<times> nat) list" where "pins_sharkl5 = map (\<lambda>i. (i, 0xFFFF)) [0..<163]"
definition pins_sharkl5Pro :: "(nat \<times> nat) list" where "pins_sharkl5Pro = map (\<lambda>i. (i, 0xFFFF)) [0..<163]"
definition pins_default :: "(nat \<times> nat) list" where "pins_default = []"

section \<open>The code\<close>

definition DEV_PIN_CONFIG_PATH1 :: "byte list" where "DEV_PIN_CONFIG_PATH1 = cs ''/sys/kernel/debug/pinctrl/e42a0000.pinctrl/pins_debug''"
definition DEV_PIN_CONFIG_PATH2 :: "byte list" where "DEV_PIN_CONFIG_PATH2 = cs ''/sys/kernel/debug/pinctrl/402a0000.pinctrl/pins_debug''"
definition AUTOTEST_DEV_FILE :: "byte list" where "AUTOTEST_DEV_FILE = cs ''/dev/autotest0''"

text \<open>Nodes, their existence, the two requests of the driver (result and new argument), and the names in \<open>/sys/class/gpio\<close>.\<close>

record 'd gpio_env =
  gp_nodes :: "'d nodes"
  gp_exists :: "byte list \<Rightarrow> 'd \<Rightarrow> bool"
  gp_pinctrl :: "32 word \<Rightarrow> 'd \<Rightarrow> int \<times> 'd"
  gp_gpio :: "32 word \<Rightarrow> 'd \<Rightarrow> int \<times> 32 word \<times> 'd"
  gp_dir :: "'d \<Rightarrow> byte list list option"

text \<open>\<open>system("echo t > p")\<close>.\<close>

definition echo_to :: "'d gpio_env \<Rightarrow> byte list \<Rightarrow> byte list \<Rightarrow> 'd \<Rightarrow> 'd" where
  "echo_to G t p d = (if nd_open (gp_nodes G) p d then snd (nd_write (gp_nodes G) p (t @ [10]) d) else d)"

definition pin_path :: "nat \<Rightarrow> byte list \<Rightarrow> byte list" where
  "pin_path n leaf = cs ''/sys/class/gpio/gpio'' @ show_nat n @ cs ''/'' @ leaf"

text \<open>The value of a pin, in an array of three characters whose last one is then made a NUL.\<close>

definition read_pin :: "'d gpio_env \<Rightarrow> nat \<Rightarrow> 'd \<Rightarrow> (int option \<times> 'd) option" where
  "read_pin G n d =
     (let (r, d') = nd_read (gp_nodes G) (pin_path n (cs ''value'')) 0 3 d in
      case r of
        None \<Rightarrow> Some (None, d')
      | Some bs \<Rightarrow> map_option (\<lambda>v. (Some v, d')) (atoi_buf (zfill 3 (take 2 bs))))"

definition Setgpio_value :: "'d gpio_env \<Rightarrow> nat \<Rightarrow> byte \<Rightarrow> 'd \<Rightarrow> (int \<times> 'd) option" where
  "Setgpio_value G n v d =
     (if \<not> gp_exists G (pin_path n (cs ''direction'')) d then Some (- 1, d)
      else
        (let d1 = echo_to G (cs ''out'') (pin_path n (cs ''direction'')) d in
         if \<not> gp_exists G (pin_path n (cs ''value'')) d1 then Some (- 1, d1)
         else
           (let d2 = echo_to G (show_nat (unat v)) (pin_path n (cs ''value'')) d1 in
            if \<not> gp_exists G (pin_path n (cs ''value'')) d2 then Some (0, d2)
            else if \<not> nd_open (gp_nodes G) (pin_path n (cs ''value'')) d2 then Some (- 1, d2)
            else do { (r, d3) \<leftarrow> read_pin G n d2; Some (if r = None then - 1 else 0, d3) })))"

text \<open>The result and, with 1, the value of the pin.\<close>

definition Getgpio_value :: "'d gpio_env \<Rightarrow> nat \<Rightarrow> byte \<Rightarrow> 'd \<Rightarrow> (int \<times> byte \<times> 'd) option" where
  "Getgpio_value G n v d =
     (if \<not> gp_exists G (pin_path n (cs ''direction'')) d then Some (- 1, v, d)
      else
        (let d1 = echo_to G (cs ''in'') (pin_path n (cs ''direction'')) d in
         if \<not> gp_exists G (pin_path n (cs ''value'')) d1 \<or> \<not> nd_open (gp_nodes G) (pin_path n (cs ''value'')) d1 then Some (- 1, v, d1)
         else do {
           (r, d2) \<leftarrow> read_pin G n d1;
           Some (case r of None \<Rightarrow> (- 1, v, d2) | Some x \<Rightarrow> (1, word_of_int x, d2))
         }))"

definition cam_sd_tcard_addvoltage :: "bool \<Rightarrow> 'd gpio_env \<Rightarrow> 'd \<Rightarrow> 'd" where
  "cam_sd_tcard_addvoltage old G d =
     (if old then fold (\<lambda>r. echo_to G (cs ''1'') (cs ''/sys/kernel/debug/sprd-regulator/'' @ r @ cs ''/enable''))
        [cs ''vddcamio'', cs ''vddsdcore'', cs ''vddsdio'', cs ''vddsd'', cs ''vddsim0'', cs ''vddsim1''] d
      else d)"

text \<open>The number in a file of a chip, 0 when nothing can be read; a path of 256 characters or more leaves the array.\<close>

definition chip_number :: "'d gpio_env \<Rightarrow> byte list \<Rightarrow> byte list \<Rightarrow> 'd \<Rightarrow> (int option \<times> 'd) option" where
  "chip_number G chip leaf d =
     (let p = cs ''/sys/class/gpio/'' @ chip @ cs ''/'' @ leaf in
      if 256 \<le> length p then None
      else if \<not> nd_open (gp_nodes G) p d then Some (None, d)
      else
        (let (r, d') = nd_read (gp_nodes G) p 0 127 d in
         map_option (\<lambda>v. (Some v, d')) (atoi_buf (zfill 128 (case r of None \<Rightarrow> [] | Some bs \<Rightarrow> bs)))))"

fun gpio_chips :: "'d gpio_env \<Rightarrow> byte list list \<Rightarrow> 'd \<Rightarrow> (int \<times> 'd) option" where
  "gpio_chips G [] d = Some (- 1, d)"
| "gpio_chips G (e # es) d =
     (if take 8 e \<noteq> cs ''gpiochip'' then gpio_chips G es d
      else do {
        (n, d1) \<leftarrow> chip_number G e (cs ''ngpio'') d;
        (if n \<noteq> Some 256 then gpio_chips G es d1
         else do {
           (b, d2) \<leftarrow> chip_number G e (cs ''base'') d1;
           (case b of None \<Rightarrow> gpio_chips G es d2 | Some v \<Rightarrow> Some (v, d2))
         })
      })"

definition get_ap_gpio_base :: "'d gpio_env \<Rightarrow> 'd \<Rightarrow> (int \<times> 'd) option" where
  "get_ap_gpio_base G d = (case gp_dir G d of None \<Rightarrow> Some (- 1, d) | Some es \<Rightarrow> gpio_chips G es d)"

text \<open>The part of the test before the switch: \<open>Inl\<close> the result of a jump to the end, \<open>Inr\<close> the base and the result so far.\<close>

definition prepare_old :: "'d gpio_env \<Rightarrow> nat \<Rightarrow> nat \<Rightarrow> 'd \<Rightarrow> (int + int \<times> int) \<times> 'd" where
  "prepare_old G addr n d =
     (let t = cs ''0x'' @ show_hex addr in
      if gp_exists G DEV_PIN_CONFIG_PATH1 d \<or> gp_exists G DEV_PIN_CONFIG_PATH2 d
      then (let d1 = echo_to G t (if gp_exists G DEV_PIN_CONFIG_PATH1 d then DEV_PIN_CONFIG_PATH1 else DEV_PIN_CONFIG_PATH2) d in
            if \<not> gp_exists G (cs ''/sys/class/gpio/export'') d1 then (Inl (- 1), d1)
            else (Inr (0, 0), echo_to G (show_nat n) (cs ''/sys/class/gpio/export'') d1))
      else (Inl (- 1), d))"

definition prepare_new :: "'d gpio_env \<Rightarrow> nat \<Rightarrow> 'd \<Rightarrow> ((int + int \<times> int) \<times> 'd) option" where
  "prepare_new G n d =
     (if \<not> nd_open (gp_nodes G) AUTOTEST_DEV_FILE d then Some (Inl 0, d)
      else
        (let (ret, d1) = gp_pinctrl G (of_nat n) d in
         if ret < 0 then Some (Inl ret, d1)
         else do {
           (b, d2) \<leftarrow> get_ap_gpio_base G d1;
           Some (if b < 0 then (Inl (- 1), d2) else (Inr (b, ret), d2))
         }))"

text \<open>The switch over the direction: the result, the value and the devices.\<close>

definition pin_data :: "int \<Rightarrow> nat \<Rightarrow> 32 word" where
  "pin_data base n = word_of_int (base + int n) AND 0xFFFF"

definition drive_pin :: "bool \<Rightarrow> 'd gpio_env \<Rightarrow> byte \<Rightarrow> nat \<Rightarrow> byte \<Rightarrow> int \<Rightarrow> int \<Rightarrow> 'd \<Rightarrow> (int \<times> byte \<times> 'd) option" where
  "drive_pin old G dir n v base ret d =
     (if dir = 1 then
        (if old then map_option (\<lambda>(r, d'). (r, v, d')) (Setgpio_value G n v d)
         else (let (r, _, d') = gp_gpio G (pin_data base n OR push_bit 16 1 OR push_bit 17 (if v \<noteq> 0 then 1 else 0)) d in Some (r, v, d')))
      else if dir = 0 then
        (if old then Getgpio_value G n v d
         else (let (r, x, d') = gp_gpio G (pin_data base n) d in
               Some (if r = 0 then (1, if bit x 17 then 1 else 0, d') else (r, v, d'))))
      else Some (ret, v, d))"

text \<open>The answer: the header up to its type, a status in place of the subtype, and as many bytes from the variable \<open>value\<close> as the
  result says; it has one.\<close>

definition gpio_answer :: "mem \<Rightarrow> mem \<Rightarrow> int \<Rightarrow> byte \<Rightarrow> (int \<times> mem) option" where
  "gpio_answer buf rsp ret v = do {
     h \<leftarrow> get buf 0 8;
     r1 \<leftarrow> put rsp 0 h;
     (if 1 < ret then None
      else do {
        r2 \<leftarrow> put r1 5 (le16 (if ret = 1 then 9 else 8));
        r3 \<leftarrow> put r2 8 ((if ret < 0 then 1 else 0) # (if ret = 1 then [v] else []) @ [0x7E]);
        Some (if ret = 1 then 11 else 10, r3)
      })
   }"

definition testGpio :: "bool \<Rightarrow> (nat \<times> nat) list \<Rightarrow> 'd gpio_env \<Rightarrow> 'd cb_io \<Rightarrow> nat \<Rightarrow> nat \<Rightarrow> (int \<times> 'd cb_io) option" where
  "testGpio old gpionumber G io len rsplen = do {
     dir \<leftarrow> rd (cb_buf io) 9;
     num \<leftarrow> map_option unat (rd (cb_buf io) 10);
     value \<leftarrow> rd (cb_buf io) 11;
     (ret, v, d') \<leftarrow>
       (if length gpionumber \<le> num then Some (- 1, value, cb_env io)
        else
          (let d = cam_sd_tcard_addvoltage old G (cb_env io) in do {
             (p, d1) \<leftarrow> (if old then Some (prepare_old G (snd (gpionumber ! num)) num d) else prepare_new G num d);
             (case p of
                Inl r \<Rightarrow> Some (r, value, d1)
              | Inr (base, r) \<Rightarrow> drive_pin old G dir num value base r d1)
           }));
     (n, r) \<leftarrow> gpio_answer (cb_buf io) (cb_rsp io) ret v;
     Some (n, io\<lparr>cb_rsp := r, cb_env := d'\<rparr>)
   }"

definition gpio_updates :: "bool \<Rightarrow> (nat \<times> nat) list \<Rightarrow> 'd gpio_env \<Rightarrow> ('d eng_callback \<Rightarrow> 'd eng_callback) list" where
  "gpio_updates old gpionumber G =
     map (\<lambda>k c. c\<lparr>cb_type := 0x38, cb_subtype := 0x07, diag_ap_cmd := k, eng_diag_func := Some (testGpio old gpionumber G)\<rparr>) [0, 1]
     @ map (\<lambda>k c. c\<lparr>cb_type := 0x38, cb_subtype := 0x07, diag_ap_cmd := k, also_need_to_cp := True\<rparr>) [3, 2]"

definition register_gpio :: "bool \<Rightarrow> (nat \<times> nat) list \<Rightarrow> 'd gpio_env \<Rightarrow> 'd eng_callback list \<Rightarrow> 'd eng_callback list \<times> nat" where
  "register_gpio old gpionumber G = fill_entries (gpio_updates old gpionumber G)"

section \<open>The tables are in order\<close>

text \<open>The test takes the entry of a pin by its number, and the registers of a platform differ from pin to pin.\<close>

definition pins_ok :: "(nat \<times> nat) list \<Rightarrow> bool" where
  "pins_ok t \<longleftrightarrow> map fst t = [0..<length t] \<and> distinct (filter (\<lambda>a. a \<noteq> 0xFFFF) (map snd t))"

lemma pins_pike2_ok: "pins_ok pins_pike2" by (simp add: pins_ok_def pins_pike2_def upt_rec)
lemma pins_sharkl3_ok: "pins_ok pins_sharkl3" by (simp add: pins_ok_def pins_sharkl3_def upt_rec)
lemma pins_sharkle_ok: "pins_ok pins_sharkle" by (simp add: pins_ok_def pins_sharkle_def upt_rec)
lemma pins_isharkl2_ok: "pins_ok pins_isharkl2" by (simp add: pins_ok_def pins_isharkl2_def upt_rec)

lemma pins_none_ok: "pins_ok (map (\<lambda>i. (i, 0xFFFF)) [0..<n])"
  by (simp add: pins_ok_def comp_def)

text \<open>: (the pin tables are in order) In the table of each platform, the entry at an index is that of the pin of this number, which is
  how the test looks a pin up, and no two pins have the same register.\<close>

theorem pin_tables_in_order:
  "pins_ok pins_pike2 \<and> pins_ok pins_sharkl3 \<and> pins_ok pins_sharkle \<and> pins_ok pins_isharkl2 \<and> pins_ok pins_roc1 \<and> pins_ok pins_sharkl5
   \<and> pins_ok pins_sharkl5Pro \<and> pins_ok pins_default"
  by (simp add: pins_pike2_ok pins_sharkl3_ok pins_sharkle_ok pins_isharkl2_ok pins_roc1_def pins_sharkl5_def pins_sharkl5Pro_def pins_none_ok)
    (simp add: pins_default_def pins_ok_def)

section \<open>The requests to the driver\<close>













end
