(* ===== verification/PowerModules.thy ===== *)
theory PowerModules
  imports Adapter Sysfs
begin

text \<open>
  Restarting, switching off and sleeping: \<open>modules/libreboot_cmd/reboot_cmd.cpp\<close> and
  \<open>modules/libapdeepsleep/app_deep_sleep_cmd.c\<close>. The handlers answer at once and start threads, which act later; the state holds the
  static variables, the threads that were started and what the system was asked to do, both in order. What the USB node and the
  other nodes give is a parameter, and so is the bootloader library (whether it accepts a message).
\<close>

section \<open>Restarting and switching off\<close>

datatype power_thread = Autodloader | RebootCmd | ResetCmd | PowerOff

datatype power_request = Restart2 "byte list" | RbPoweroff | Recovery "byte list list"

record ('p, 'd) power =
  reboot_cmd_param :: mem
  pw_threads :: "power_thread list"
  pw_requests :: "power_request list"
  pw_sys :: "'p sys"
  pw_dev :: 'd

definition AT_AUTODLOADER :: "byte list" where "AT_AUTODLOADER = cs ''AT+SPREF='' @ [34] @ cs ''AUTODLOADER'' @ [34]"
definition AT_REBOOT_CMD :: "byte list" where "AT_REBOOT_CMD = cs ''AT+SPREBOOTCMD=''"
definition AT_ETSRESET :: "byte list" where "AT_ETSRESET = cs ''AT+ETSRESET''"
definition USB_STATE_PAT :: "byte list" where "USB_STATE_PAT = cs ''/sys/class/android_usb/android0/state''"

abbreviation "rsp_ok \<equiv> [13, 10] @ cs ''OK'' @ [13, 10]"
abbreviation "rsp_error \<equiv> [13, 10] @ cs ''ERROR'' @ [13, 10]"

definition answer_len :: "byte list \<Rightarrow> 'w cb_io \<Rightarrow> (int \<times> 'w cb_io) option" where
  "answer_len t io = map_option (\<lambda>r. (int (length t), io\<lparr>cb_rsp := r\<rparr>)) (sprintf (cb_rsp io) t)"

definition start_thread :: "power_thread \<Rightarrow> ('p, 'd) power \<Rightarrow> ('p, 'd) power" where
  "start_thread t w = w\<lparr>pw_threads := pw_threads w @ [t]\<rparr>"

text \<open>The text of the request, behind the header when it is a diag message.\<close>

definition request_text :: "mem \<Rightarrow> byte list option" where
  "request_text buf = do { b \<leftarrow> rd buf 0; cstr_at buf (if b = 0x7E then 9 else 0) }"

definition dloader_handle :: "('p, 'd) power cb_io \<Rightarrow> (int \<times> ('p, 'd) power cb_io) option" where
  "dloader_handle io = do {
     p \<leftarrow> request_text (cb_buf io);
     (if strncaseeq (length AT_AUTODLOADER) p AT_AUTODLOADER
      then answer_len rsp_ok (io\<lparr>cb_env := start_thread Autodloader (cb_env io)\<rparr>)
      else answer_len rsp_error io)
   }"

text \<open>The number of characters that are copied: it is computed from the length of the whole request, not of its text, as a
  signed number, which the comparison takes as unsigned.\<close>

definition param_count :: "nat \<Rightarrow> nat" where
  "param_count n = (if n < length AT_REBOOT_CMD then 63 else min 63 (n - length AT_REBOOT_CMD))"

definition reboot_cmd_handle :: "('p, 'd) power cb_io \<Rightarrow> (int \<times> ('p, 'd) power cb_io) option" where
  "reboot_cmd_handle io = do {
     p \<leftarrow> request_text (cb_buf io);
     (if strncaseeq (length AT_REBOOT_CMD) p AT_REBOOT_CMD then do {
        all \<leftarrow> cstr_at (cb_buf io) 0;
        (let par = zfill 64 (take (param_count (length all)) (drop (length AT_REBOOT_CMD) p)) in
         answer_len rsp_ok (io\<lparr>cb_env := start_thread RebootCmd ((cb_env io)\<lparr>reboot_cmd_param := par\<rparr>)\<rparr>))
      }
      else answer_len rsp_error io)
   }"

definition reset_cmd_handle :: "('p, 'd) power cb_io \<Rightarrow> (int \<times> ('p, 'd) power cb_io) option" where
  "reset_cmd_handle io = answer_len rsp_ok (io\<lparr>cb_env := start_thread ResetCmd (cb_env io)\<rparr>)"

text \<open>1 with a cable, 0 without; a read that fails gives its -1, which counts as a cable.\<close>

definition power_usb_state :: "'d nodes \<Rightarrow> 'd \<Rightarrow> int \<times> 'd" where
  "power_usb_state nd d =
     (if \<not> nd_open nd USB_STATE_PAT d then (0, d)
      else
        (let (r, d') = nd_read nd USB_STATE_PAT 0 32 d in
         case r of
           None \<Rightarrow> (- 1, d')
         | Some bs \<Rightarrow>
             (if bs = [] then (0, d')
              else if strneq 10 (zfill 32 bs) (cs ''CONFIGURED'') \<or> strneq 9 (zfill 32 bs) (cs ''CONNECTED'') then (1, d')
              else (0, d'))))"

definition phone_poweroff :: "('p, 'd) power \<Rightarrow> ('p, 'd) power" where
  "phone_poweroff w = w\<lparr>pw_requests := pw_requests w @ [RbPoweroff]\<rparr>"

text \<open>The thread that waits for the cable to be pulled: \<open>None\<close> when it never is.\<close>

partial_function (option) power_off_loop :: "'d nodes \<Rightarrow> ('p, 'd) power \<Rightarrow> ('p, 'd) power option" where
  "power_off_loop nd w =
     (let (u, d') = power_usb_state nd (pw_dev w); w1 = w\<lparr>pw_dev := d'\<rparr> in
      if u = 0 then Some (phone_poweroff w1) else power_off_loop nd w1)"

definition phone_shutdown_new_API :: "bool \<Rightarrow> 'p prop_service \<Rightarrow> (byte list list \<Rightarrow> bool) \<Rightarrow> ('p, 'd) power \<Rightarrow> ('p, 'd) power" where
  "phone_shutdown_new_API cn pf write_bootloader_message w =
     (let options = [cs ''--wipe_data'' @ [10] @ (if cn then cs ''--locale=zh_CN'' else cs ''--locale=en_US''),
                     cs ''--reason=wipe_data_via_recovery'' @ [10]] in
      if \<not> write_bootloader_message options then w
      else w\<lparr>pw_requests := pw_requests w @ [Recovery options],
             pw_sys := property_set pf (cs ''sys.powerctl'') (cs ''reboot,recovery'') (pw_sys w)\<rparr>)"

text \<open>What a thread does, after its two seconds.\<close>

definition run_thread :: "bool \<Rightarrow> 'p prop_service \<Rightarrow> (byte list list \<Rightarrow> bool) \<Rightarrow> 'd nodes \<Rightarrow> power_thread \<Rightarrow> ('p, 'd) power \<Rightarrow> ('p, 'd) power option" where
  "run_thread cn pf msg nd t w =
     (case t of
        Autodloader \<Rightarrow> Some (w\<lparr>pw_requests := pw_requests w @ [Restart2 (cs ''autodloader'')]\<rparr>)
      | RebootCmd \<Rightarrow> map_option (\<lambda>s. w\<lparr>pw_requests := pw_requests w @ [Restart2 s]\<rparr>) (cstr_at (reboot_cmd_param w) 0)
      | ResetCmd \<Rightarrow> Some (phone_shutdown_new_API cn pf msg w)
      | PowerOff \<Rightarrow> power_off_loop nd w)"

fun run_threads :: "bool \<Rightarrow> 'p prop_service \<Rightarrow> (byte list list \<Rightarrow> bool) \<Rightarrow> 'd nodes \<Rightarrow> power_thread list \<Rightarrow> ('p, 'd) power \<Rightarrow> ('p, 'd) power option" where
  "run_threads cn pf msg nd [] w = Some w"
| "run_threads cn pf msg nd (t # ts) w = do { w' \<leftarrow> run_thread cn pf msg nd t w; run_threads cn pf msg nd ts w' }"

definition eng_diag_poweroff :: "'p prop_service \<Rightarrow> ('p, 'd) power cb_io \<Rightarrow> nat \<Rightarrow> nat \<Rightarrow> (int \<times> ('p, 'd) power cb_io) option" where
  "eng_diag_poweroff pf io len rsp_len = do {
     h \<leftarrow> get (cb_buf io) 0 9;
     r1 \<leftarrow> put (cb_rsp io) 0 h;
     r2 \<leftarrow> set_len r1 1 8;
     r3 \<leftarrow> set_subtype r2 1 0;
     (let w = (if property_get pf (cs ''ro.bootmode'') [] (pw_sys (cb_env io)) = cs ''cali''
               then start_thread PowerOff (cb_env io) else phone_poweroff (cb_env io)) in do {
        r4 \<leftarrow> wr r3 9 0x7E;
        Some (10, io\<lparr>cb_rsp := r4, cb_env := w\<rparr>)
      })
   }"

definition reboot_updates :: "'p prop_service \<Rightarrow> (('p, 'd) power eng_callback \<Rightarrow> ('p, 'd) power eng_callback) list" where
  "reboot_updates pf =
     [\<lambda>c. c\<lparr>at_cmd := AT_AUTODLOADER, eng_linuxcmd_func := Some dloader_handle\<rparr>,
      \<lambda>c. c\<lparr>at_cmd := AT_REBOOT_CMD, eng_linuxcmd_func := Some reboot_cmd_handle\<rparr>,
      \<lambda>c. c\<lparr>at_cmd := AT_ETSRESET, eng_linuxcmd_func := Some reset_cmd_handle\<rparr>,
      \<lambda>c. c\<lparr>cb_type := 0x11, cb_subtype := 0x0E, eng_diag_func := Some (eng_diag_poweroff pf)\<rparr>]"

definition register_reboot :: "'p prop_service \<Rightarrow> ('p, 'd) power eng_callback list \<Rightarrow> ('p, 'd) power eng_callback list \<times> nat" where
  "register_reboot pf = fill_entries (reboot_updates pf)"

section \<open>Deep sleep\<close>

text \<open>\<open>wakeup_count_fd\<close> and the threads that were started, with the devices.\<close>

record 'd sleeper =
  wakeup_count_open :: bool
  sl_threads :: nat
  sl_dev :: 'd

definition SYS_POWER_WAKEUP_COUNT :: "byte list" where "SYS_POWER_WAKEUP_COUNT = cs ''/sys/power/wakeup_count''"

definition ap_ds_usb_state :: "'d nodes \<Rightarrow> 'd \<Rightarrow> bool \<times> 'd" where
  "ap_ds_usb_state nd d =
     (if \<not> nd_open nd USB_STATE_PAT d then (False, d)
      else
        (let (r, d') = nd_read nd USB_STATE_PAT 0 32 d in
         (case r of None \<Rightarrow> False | Some bs \<Rightarrow> bs \<noteq> [] \<and> strneq 10 (zfill 32 bs) (cs ''CONFIGURED''), d')))"

text \<open>\<open>enter\<close> is the request to \<open>/dev/modem\<close>.\<close>

definition eng_modem_enter_sleep :: "'d nodes \<Rightarrow> ('d \<Rightarrow> 'd) \<Rightarrow> 'd \<Rightarrow> 'd" where
  "eng_modem_enter_sleep nd enter d = (if nd_open nd (cs ''/dev/modem'') d then enter d else d)"

text \<open>Up to \<open>n\<close> looks at the cable, one in 200 ms: whether one of them found none.\<close>

fun poll_usb :: "'d nodes \<Rightarrow> nat \<Rightarrow> 'd \<Rightarrow> bool \<times> 'd" where
  "poll_usb nd 0 d = (False, d)"
| "poll_usb nd (Suc n) d = (let (u, d') = ap_ds_usb_state nd d in if \<not> u then (True, d') else poll_usb nd n d')"

text \<open>
  One round of the endless loop, with the 32 bytes of the array, which are not cleared: the count of wakeups is read and
  written back, all 32 bytes of it, and unless exactly nothing is written, also when the write fails, the system is told to
  sleep.
\<close>

definition suspend_round :: "'d nodes \<Rightarrow> mem \<times> 'd \<Rightarrow> mem \<times> 'd" where
  "suspend_round nd s =
     (let (buf, d) = s; (r, d1) = nd_read nd SYS_POWER_WAKEUP_COUNT 0 32 d in
      case r of
        None \<Rightarrow> (buf, d1)
      | Some bs \<Rightarrow>
          (if bs = [] then (buf, d1)
           else
             (let buf' = overlay 0 bs buf; d2 = snd (nd_write nd SYS_POWER_WAKEUP_COUNT buf' d1) in
              (buf', if nd_open nd (cs ''/sys/power/state'') d2 then snd (nd_write nd (cs ''/sys/power/state'') (cs ''mem'' @ [10]) d2) else d2))))"

text \<open>The thread up to its \<open>k\<close>th round.\<close>

definition ap_ds_thread_fastsleep :: "'d nodes \<Rightarrow> ('d \<Rightarrow> 'd) \<Rightarrow> mem \<Rightarrow> nat \<Rightarrow> 'd \<Rightarrow> 'd" where
  "ap_ds_thread_fastsleep nd enter garbage k d =
     (let (sleep, d') = poll_usb nd 300 (eng_modem_enter_sleep nd enter d) in
      if sleep then snd ((suspend_round nd ^^ k) (garbage, d')) else d')"

definition ap_deep_sleep_handler :: "'d nodes \<Rightarrow> bool \<Rightarrow> 'd sleeper cb_io \<Rightarrow> nat \<Rightarrow> nat \<Rightarrow> (int \<times> 'd sleeper cb_io) option" where
  "ap_deep_sleep_handler nd created io len rsplen =
     (let w = cb_env io; w1 = w\<lparr>wakeup_count_open := nd_open nd SYS_POWER_WAKEUP_COUNT (sl_dev w)\<rparr> in
      if \<not> wakeup_count_open w1 then Some (- 1, io\<lparr>cb_env := w1\<rparr>)
      else if \<not> created then Some (- 1, io\<lparr>cb_env := w1\<lparr>wakeup_count_open := False\<rparr>\<rparr>)
      else Some (2, io\<lparr>cb_env := w1\<lparr>sl_threads := sl_threads w1 + 1\<rparr>\<rparr>))"

definition register_deepsleep :: "'d nodes \<Rightarrow> bool \<Rightarrow> 'd sleeper eng_callback list \<Rightarrow> 'd sleeper eng_callback list \<times> nat" where
  "register_deepsleep nd created =
     fill_entries [\<lambda>c. c\<lparr>cb_type := 0x11, cb_subtype := 0x2, also_need_to_cp := True, eng_diag_func := Some (ap_deep_sleep_handler nd created)\<rparr>]"

text \<open>A cable that is pulled at the third look, and a phone in calibration mode.\<close>

definition ex_usb :: "nat nodes" where
  "ex_usb = \<lparr>nd_open = \<lambda>p d. True, nd_read = \<lambda>p pos n d. (Some (if d < 2 then cs ''CONNECTED'' else cs ''DISCONNECTED''), d + 1), nd_write = \<lambda>p t d. (True, d)\<rparr>"

definition ex_cali :: "unit prop_service" where
  "ex_cali = \<lparr>ps_get = \<lambda>k p. if k = cs ''ro.bootmode'' then cs ''cali'' else [], ps_set = \<lambda>k v p. p\<rparr>"

section \<open>Restarting with a parameter\<close>

lemma request_text_at:
  assumes "0 \<notin> set (b # t)" and "b \<noteq> 0x7E"
  shows "request_text ((b # t) @ 0 # rest) = Some (b # t)"
proof -
  have "takeWhile (\<lambda>x. x \<noteq> 0) ((b # t) @ 0 # rest) = b # t" by (subst takeWhile_append2) (use assms(1) in auto)
  then show ?thesis using assms(2) by (simp add: request_text_def cstr_at_def rd_def)
qed

lemma answer_ok: "6 < length (cb_rsp io) \<Longrightarrow> answer_len rsp_ok io = Some (6, io\<lparr>cb_rsp := rsp_ok @ 0 # drop 7 (cb_rsp io)\<rparr>)"
  by (simp add: answer_len_def sprintf_def put_def numeral_eq_Suc)

text \<open>A request as a text: its parameter, cut to 63 characters, is kept for the thread.\<close>

lemma reboot_cmd_text:
  assumes "strcaseeq cmd AT_REBOOT_CMD" and "0 \<notin> set (cmd @ par)" and "6 < length rsp"
  shows "reboot_cmd_handle \<lparr>cb_buf = cmd @ par @ 0 # rest, cb_rsp = rsp, cb_env = w\<rparr> =
    Some (6, \<lparr>cb_buf = cmd @ par @ 0 # rest, cb_rsp = rsp_ok @ 0 # drop 7 rsp,
      cb_env = start_thread RebootCmd (w\<lparr>reboot_cmd_param := zfill 64 (take 63 par)\<rparr>)\<rparr>)"
proof -
  have l: "length cmd = length AT_REBOOT_CMD" using assms(1) unfolding strcaseeq_def by (metis length_map)
  then obtain b t where b: "cmd = b # t" by (cases cmd) (auto simp: AT_REBOOT_CMD_def)
  have "lower b = lower 65" using assms(1) by (simp add: strcaseeq_def b AT_REBOOT_CMD_def)
  then have "b \<noteq> 0x7E" by (auto simp: lower_def)
  then have p: "request_text (cmd @ par @ 0 # rest) = Some (cmd @ par)"
    using request_text_at [of b "t @ par" rest] assms(2) by (simp add: b)
  have a: "cstr_at (cmd @ par @ 0 # rest) 0 = Some (cmd @ par)"
  proof -
    have "takeWhile (\<lambda>x. x \<noteq> 0) ((cmd @ par) @ 0 # rest) = cmd @ par" by (subst takeWhile_append2) (use assms(2) in auto)
    then show ?thesis by (simp add: cstr_at_def)
  qed
  have m: "strncaseeq (length AT_REBOOT_CMD) (cmd @ par) AT_REBOOT_CMD"
    using assms(1) l by (simp add: strncaseeq_def strcaseeq_def)
  have n: "take (param_count (length (cmd @ par))) (drop (length AT_REBOOT_CMD) (cmd @ par)) = take 63 par"
    using l by (simp add: param_count_def min_def)
  show ?thesis using assms(3) by (simp add: reboot_cmd_handle_def p a m n [simplified] answer_ok [simplified])
qed

lemma reboot_thread:
  assumes "0 \<notin> set par" and "reboot_cmd_param w = zfill 64 (take 63 par)"
  shows "run_thread cn pf msg nd RebootCmd w = Some (w\<lparr>pw_requests := pw_requests w @ [Restart2 (take 63 par)]\<rparr>)"
proof -
  have "0 \<notin> set (take 63 par)" using assms(1) by (meson in_set_takeD)
  then show ?thesis using assms(2) cstr_at_zfill [of "take 63 par" 64] by (simp add: run_thread_def)
qed

text \<open>C36: (the last restart command wins) Two restart commands that come within the two seconds before the first one's thread acts are both answered
  OK, but since the parameter lies in one static array, both threads ask for a restart with the parameter of the second, cut to 63
  characters.\<close>

theorem reboot_last_command_wins:
  assumes "strcaseeq cmd AT_REBOOT_CMD" and "0 \<notin> set (cmd @ par)" and "strcaseeq cmd' AT_REBOOT_CMD" and "0 \<notin> set (cmd' @ par')"
    and "6 < length rsp" and "6 < length rsp'" and "pw_threads w = []"
  shows "\<exists>io io' w'. reboot_cmd_handle \<lparr>cb_buf = cmd @ par @ 0 # rest, cb_rsp = rsp, cb_env = w\<rparr> = Some (6, io) \<and> cstr_at (cb_rsp io) 0 = Some rsp_ok
    \<and> reboot_cmd_handle \<lparr>cb_buf = cmd' @ par' @ 0 # rest', cb_rsp = rsp', cb_env = cb_env io\<rparr> = Some (6, io') \<and> cstr_at (cb_rsp io') 0 = Some rsp_ok
    \<and> run_threads cn pf msg nd (pw_threads (cb_env io')) (cb_env io') = Some w'
    \<and> pw_requests w' = pw_requests w @ [Restart2 (take 63 par'), Restart2 (take 63 par')]"
proof -
  have ok: "cstr_at (rsp_ok @ 0 # r) 0 = Some rsp_ok" for r by (simp add: cstr_at_def)
  define v where "v = start_thread RebootCmd ((start_thread RebootCmd (w\<lparr>reboot_cmd_param := zfill 64 (take 63 par)\<rparr>))\<lparr>reboot_cmd_param := zfill 64 (take 63 par')\<rparr>)"
  have v: "pw_threads v = [RebootCmd, RebootCmd]" "pw_requests v = pw_requests w" "reboot_cmd_param v = zfill 64 (take 63 par')"
    by (simp_all add: v_def start_thread_def assms(7))
  have z: "0 \<notin> set par'" using assms(4) by simp
  have "run_threads cn pf msg nd (pw_threads v) v = Some (v\<lparr>pw_requests := pw_requests w @ [Restart2 (take 63 par'), Restart2 (take 63 par')]\<rparr>)"
    by (simp add: v reboot_thread [OF z])
  then show ?thesis
    by (simp add: reboot_cmd_text [OF assms(1,2,5)] reboot_cmd_text [OF assms(3,4,6)] ok [simplified] flip: v_def)
qed

text \<open>A restart for an update is overtaken by one to the boot loader.\<close>

theorem reboot_last_command_wins_witness:
  "\<exists>io io' w'. reboot_cmd_handle \<lparr>cb_buf = AT_REBOOT_CMD @ cs ''recovery'' @ [0], cb_rsp = replicate 16 0,
      cb_env = \<lparr>reboot_cmd_param = replicate 64 0, pw_threads = [], pw_requests = [], pw_sys = undefined, pw_dev = 0\<rparr>\<rparr> = Some (6, io)
    \<and> reboot_cmd_handle \<lparr>cb_buf = AT_REBOOT_CMD @ cs ''bootloader'' @ [0], cb_rsp = replicate 16 0, cb_env = cb_env io\<rparr> = Some (6, io')
    \<and> run_threads False ex_cali (\<lambda>_. True) ex_usb (pw_threads (cb_env io')) (cb_env io') = Some w'
    \<and> pw_requests w' = [Restart2 (cs ''bootloader''), Restart2 (cs ''bootloader'')]"
  using reboot_last_command_wins [where cmd = AT_REBOOT_CMD and cmd' = AT_REBOOT_CMD and par = "cs ''recovery''" and par' = "cs ''bootloader''"
      and rsp = "replicate 16 0" and rsp' = "replicate 16 0" and rest = "[]" and rest' = "[]" and cn = False and pf = ex_cali and msg = "\<lambda>_. True" and nd = ex_usb
      and w = "\<lparr>reboot_cmd_param = replicate 64 0, pw_threads = [], pw_requests = [], pw_sys = undefined, pw_dev = 0\<rparr>"]
  by (simp add: AT_REBOOT_CMD_def) blast

section \<open>Switching off\<close>

text \<open>The devices after \<open>k\<close> looks at the cable, and whether the look after that finds none.\<close>

definition usb_after :: "'d nodes \<Rightarrow> nat \<Rightarrow> 'd \<Rightarrow> 'd" where
  "usb_after nd k d = ((\<lambda>d. snd (power_usb_state nd d)) ^^ k) d"

definition unplugged_at :: "'d nodes \<Rightarrow> 'd \<Rightarrow> nat \<Rightarrow> bool" where
  "unplugged_at nd d k \<longleftrightarrow> fst (power_usb_state nd (usb_after nd k d)) = 0"

lemma unplugged_at_Suc: "unplugged_at nd d (Suc k) = unplugged_at nd (snd (power_usb_state nd d)) k"
  by (simp add: unplugged_at_def usb_after_def funpow_Suc_right del: funpow.simps)

lemma power_off_loop_ends:
  "unplugged_at nd (pw_dev w) k \<Longrightarrow> power_off_loop nd w \<noteq> None"
proof (induction k arbitrary: w)
  case 0
  then show ?case by (subst power_off_loop.simps) (simp add: unplugged_at_def usb_after_def case_prod_beta)
next
  case (Suc k)
  then show ?case by (subst power_off_loop.simps) (simp add: unplugged_at_Suc case_prod_beta Let_def)
qed

lemma power_off_loop_result:
  fixes nd :: "'d nodes" and w :: "('p, 'd) power"
  assumes "power_off_loop nd w = Some w'"
  shows "(\<exists>k. unplugged_at nd (pw_dev w) k) \<and> pw_requests w' = pw_requests w @ [RbPoweroff]"
proof (rule power_off_loop.raw_induct [where P = "\<lambda>nd w w'. (\<exists>k. unplugged_at nd (pw_dev w) k) \<and> pw_requests w' = pw_requests w @ [RbPoweroff]", OF _ assms])
  fix loop :: "'d nodes \<Rightarrow> ('p, 'd) power \<Rightarrow> ('p, 'd) power option" and nd :: "'d nodes" and v v' :: "('p, 'd) power"
  let ?P = "\<lambda>(nd :: 'd nodes) (w :: ('p, 'd) power) w'. (\<exists>k. unplugged_at nd (pw_dev w) k) \<and> pw_requests w' = pw_requests w @ [RbPoweroff]"
  let ?d = "snd (power_usb_state nd (pw_dev v))"
  assume ih: "\<And>nd w w'. loop nd w = Some w' \<Longrightarrow> ?P nd w w'"
    and eq: "(let (u, d') = power_usb_state nd (pw_dev v); w1 = v\<lparr>pw_dev := d'\<rparr> in if u = 0 then Some (phone_poweroff w1) else loop nd w1) = Some v'"
  have step: "(if fst (power_usb_state nd (pw_dev v)) = 0 then Some (phone_poweroff (v\<lparr>pw_dev := ?d\<rparr>)) else loop nd (v\<lparr>pw_dev := ?d\<rparr>)) = Some v'"
    using eq by (simp add: case_prod_beta Let_def)
  show "?P nd v v'"
  proof (cases "fst (power_usb_state nd (pw_dev v)) = 0")
    case True
    then have "unplugged_at nd (pw_dev v) 0" by (simp add: unplugged_at_def usb_after_def)
    moreover have "pw_requests v' = pw_requests v @ [RbPoweroff]" using step True by (auto simp: phone_poweroff_def)
    ultimately show ?thesis by blast
  next
    case False
    then have "loop nd (v\<lparr>pw_dev := ?d\<rparr>) = Some v'" using step by simp
    from ih [OF this] obtain k where "unplugged_at nd ?d k" "pw_requests v' = pw_requests v @ [RbPoweroff]" by auto
    moreover from this have "unplugged_at nd (pw_dev v) (Suc k)" by (simp add: unplugged_at_Suc)
    ultimately show ?thesis by blast
  qed
qed

text \<open>C37: (switching off waits for the cable) In calibration mode the request to switch off is answered at once, with the length of a bare header and a subtype of 0, and a
  thread is started; that thread ends exactly if the cable is seen pulled at some look, and then it has asked for switching
  off once.\<close>

theorem poweroff_waits_for_unplug:
  assumes "head_ok h" and "10 \<le> length rsp" and "property_get pf (cs ''ro.bootmode'') [] (pw_sys w) = cs ''cali''"
  shows "\<exists>io. eng_diag_poweroff pf \<lparr>cb_buf = 0x7E # head_bytes h @ rest, cb_rsp = rsp, cb_env = w\<rparr> len rl = Some (10, io)
    \<and> take 10 (cb_rsp io) = 0x7E # head_bytes (h\<lparr>head_len := 8, head_subtype := 0\<rparr>) @ [0x7E]
    \<and> pw_threads (cb_env io) = pw_threads w @ [PowerOff] \<and> pw_requests (cb_env io) = pw_requests w
    \<and> (run_thread cn pf' msg nd PowerOff (cb_env io) \<noteq> None \<longleftrightarrow> (\<exists>k. unplugged_at nd (pw_dev w) k))
    \<and> (\<forall>w'. run_thread cn pf' msg nd PowerOff (cb_env io) = Some w' \<longrightarrow> pw_requests w' = pw_requests w @ [RbPoweroff])"
proof -
  obtain b r where r: "drop 9 rsp = b # r" using assms(2) by (cases "drop 9 rsp") auto
  have g: "get (0x7E # head_bytes h @ rest) 0 9 = Some (0x7E # head_bytes h)" by (simp add: get_def MSG_HEAD_SIZE_def)
  have p: "put rsp 0 (0x7E # head_bytes h) = Some (0x7E # head_bytes h @ b # r)"
    using assms(2) r by (simp add: put_def MSG_HEAD_SIZE_def)
  have s: "set_len (0x7E # head_bytes k @ x) 1 n = Some (0x7E # head_bytes (k\<lparr>head_len := n\<rparr>) @ x)"
    "set_subtype (0x7E # head_bytes k @ x) 1 c = Some (0x7E # head_bytes (k\<lparr>head_subtype := c\<rparr>) @ x)" for k n c x
    using set_len_msg [of 1 "[0x7E]" k x n] set_subtype_msg [of 1 "[0x7E]" k x c] by simp_all
  have w: "wr (0x7E # head_bytes k @ b # r) 9 0x7E = Some (0x7E # head_bytes k @ 0x7E # r)" for k
    using list_update_length [of "0x7E # head_bytes k" b r "0x7E"] by (simp add: wr_def MSG_HEAD_SIZE_def)
  let ?w = "start_thread PowerOff w"
  have "eng_diag_poweroff pf \<lparr>cb_buf = 0x7E # head_bytes h @ rest, cb_rsp = rsp, cb_env = w\<rparr> len rl =
    Some (10, \<lparr>cb_buf = 0x7E # head_bytes h @ rest, cb_rsp = 0x7E # head_bytes (h\<lparr>head_len := 8, head_subtype := 0\<rparr>) @ 0x7E # r, cb_env = ?w\<rparr>)"
    using assms(3) by (simp only: eng_diag_poweroff_def cb_io.simps g p s w bind.bind_lunit Let_def simp_thms if_True cb_io.update_convs)
  moreover have "pw_dev ?w = pw_dev w" "pw_requests ?w = pw_requests w" "pw_threads ?w = pw_threads w @ [PowerOff]" by (simp_all add: start_thread_def)
  moreover have "power_off_loop nd ?w \<noteq> None \<longleftrightarrow> (\<exists>k. unplugged_at nd (pw_dev w) k)"
    "power_off_loop nd ?w = Some w' \<Longrightarrow> pw_requests w' = pw_requests w @ [RbPoweroff]" for w'
    using power_off_loop_ends [of nd ?w] power_off_loop_result [of nd ?w] calculation(2,3) by (metis not_None_eq)+
  ultimately show ?thesis by (simp add: run_thread_def MSG_HEAD_SIZE_def)
qed

theorem poweroff_waits_for_unplug_witness:
  "\<exists>io. eng_diag_poweroff ex_cali \<lparr>cb_buf = 0x7E # head_bytes \<lparr>seq_num = 0, head_len = 8, head_type = 0x11, head_subtype = 0x0E\<rparr> @ [0x7E], cb_rsp = replicate 10 0,
      cb_env = \<lparr>reboot_cmd_param = replicate 64 0, pw_threads = [], pw_requests = [], pw_sys = undefined, pw_dev = 0\<rparr>\<rparr> 10 0 = Some (10, io)
    \<and> run_thread False ex_cali (\<lambda>_. True) ex_usb PowerOff (cb_env io) \<noteq> None
    \<and> (\<forall>w'. run_thread False ex_cali (\<lambda>_. True) ex_usb PowerOff (cb_env io) = Some w' \<longrightarrow> pw_requests w' = [RbPoweroff])"
proof -
  have "unplugged_at ex_usb 0 2"
    by (simp add: unplugged_at_def usb_after_def numeral_2_eq_2 power_usb_state_def ex_usb_def zfill_def strneq_def)
  then have u: "\<exists>k. unplugged_at ex_usb 0 k" by blast
  show ?thesis
    using poweroff_waits_for_unplug [where h = "\<lparr>seq_num = 0, head_len = 8, head_type = 0x11, head_subtype = 0x0E\<rparr>" and rsp = "replicate 10 0" and pf = ex_cali
        and w = "\<lparr>reboot_cmd_param = replicate 64 0, pw_threads = [], pw_requests = [], pw_sys = undefined, pw_dev = 0\<rparr>" and rest = "[0x7E]" and nd = ex_usb
        and len = 10 and rl = 0 and cn = False and pf' = ex_cali and msg = "\<lambda>_. True"] u
    by (simp add: head_ok_def property_get_def ex_cali_def) blast
qed

section \<open>The cable decides about the sleep\<close>

lemma poll_usb_iff:
  "fst (poll_usb nd n d) \<longleftrightarrow> (\<exists>k<n. \<not> fst (ap_ds_usb_state nd (((\<lambda>d. snd (ap_ds_usb_state nd d)) ^^ k) d)))"
proof (induction n arbitrary: d)
  case (Suc n)
  show ?case
    using Suc.IH [of "snd (ap_ds_usb_state nd d)"]
    by (auto simp: case_prod_beta Let_def Ex_less_Suc2 funpow_Suc_right simp del: funpow.simps(2))
qed simp

text \<open>A round with a readable count ends with the request to sleep, also when the kernel refuses the count because of a wakeup.\<close>

lemma refused_count_sleeps:
  assumes "nd_read nd SYS_POWER_WAKEUP_COUNT 0 32 d = (Some bs, d1)" and "bs \<noteq> []"
    and "nd_write nd SYS_POWER_WAKEUP_COUNT (overlay 0 bs buf) d1 = (False, d2)" and "nd_open nd (cs ''/sys/power/state'') d2"
  shows "suspend_round nd (buf, d) = (overlay 0 bs buf, snd (nd_write nd (cs ''/sys/power/state'') (cs ''mem'' @ [10]) d2))"
  using assms by (simp add: suspend_round_def)

end
