(* ===== verification/ListHead.thy ===== *)
theory ListHead
  imports Module
begin

text \<open>
  The lists of \<open>sprd_fts_inc/sprd_fts_list.h\<close>, in which the module manager keeps its callbacks: nodes with two pointers inside the
  structures, in a ring through a head, and the hash lists with pointers to pointers. The memory is a pair of functions from the
  addresses of nodes (of any type) to what their fields hold; an assignment updates a function. The operations are in the order of the
  header, each with its assignments in their order. A traversal macro is a loop over a body that tells whether it leaves the loop.
\<close>

section \<open>Rings\<close>

record 'a links =
  ring_next :: "'a \<Rightarrow> 'a"
  ring_prev :: "'a \<Rightarrow> 'a"

definition set_next :: "'a \<Rightarrow> 'a \<Rightarrow> 'a links \<Rightarrow> 'a links" where
  "set_next p q h = h\<lparr>ring_next := (ring_next h)(p := q)\<rparr>"

definition set_prev :: "'a \<Rightarrow> 'a \<Rightarrow> 'a links \<Rightarrow> 'a links" where
  "set_prev p q h = h\<lparr>ring_prev := (ring_prev h)(p := q)\<rparr>"

definition INIT_LIST_HEAD :: "'a \<Rightarrow> 'a links \<Rightarrow> 'a links" where
  "INIT_LIST_HEAD p h = set_prev p p (set_next p p h)"

definition list_add_between :: "'a \<Rightarrow> 'a \<Rightarrow> 'a \<Rightarrow> 'a links \<Rightarrow> 'a links" where
  "list_add_between new_head p n h = set_next p new_head (set_prev new_head p (set_next new_head n (set_prev n new_head h)))"

definition list_add :: "'a \<Rightarrow> 'a \<Rightarrow> 'a links \<Rightarrow> 'a links" where
  "list_add new_head head h = list_add_between new_head head (ring_next h head) h"

definition list_add_tail :: "'a \<Rightarrow> 'a \<Rightarrow> 'a links \<Rightarrow> 'a links" where
  "list_add_tail new_head head h = list_add_between new_head (ring_prev h head) head h"

definition list_del_between :: "'a \<Rightarrow> 'a \<Rightarrow> 'a links \<Rightarrow> 'a links" where
  "list_del_between p n h = set_next p n (set_prev n p h)"

definition list_remove :: "'a \<Rightarrow> 'a links \<Rightarrow> 'a links" where
  "list_remove item h =
     (let h1 = set_prev (ring_next h item) (ring_prev h item) h in set_next (ring_prev h1 item) (ring_next h1 item) h1)"

definition list_empty :: "'a \<Rightarrow> 'a links \<Rightarrow> bool" where
  "list_empty head h \<longleftrightarrow> ring_next h head = head"

definition list_empty_careful :: "'a \<Rightarrow> 'a links \<Rightarrow> bool" where
  "list_empty_careful head h \<longleftrightarrow> (let n = ring_next h head in n = head \<and> n = ring_prev h head)"

definition list_splice_at :: "'a \<Rightarrow> 'a \<Rightarrow> 'a links \<Rightarrow> 'a links" where
  "list_splice_at lst head h =
     (let first = ring_next h lst; final = ring_prev h lst; at = ring_next h head in
      set_prev at final (set_next final at (set_next head first (set_prev first head h))))"

definition list_splice :: "'a \<Rightarrow> 'a \<Rightarrow> 'a links \<Rightarrow> 'a links" where
  "list_splice lst head h = (if \<not> list_empty lst h then list_splice_at lst head h else h)"

definition list_splice_init :: "'a \<Rightarrow> 'a \<Rightarrow> 'a links \<Rightarrow> 'a links" where
  "list_splice_init lst head h = (if \<not> list_empty lst h then INIT_LIST_HEAD lst (list_splice_at lst head h) else h)"

text \<open>The traversals: the body gets the node and a state and says whether to leave; \<open>None\<close> when the loop never comes back to the head.
  The safe one reads the successor before the body runs, which may then change the links.\<close>

partial_function (option) list_loop :: "('a \<Rightarrow> 'a) \<Rightarrow> 'a \<Rightarrow> ('a \<Rightarrow> 's \<Rightarrow> bool \<times> 's) \<Rightarrow> 'a \<Rightarrow> 's \<Rightarrow> 's option" where
  "list_loop step head body pos s =
     (if pos = head then Some s
      else (let (leave, s') = body pos s in if leave then Some s' else list_loop step head body (step pos) s'))"

definition list_for_each :: "'a \<Rightarrow> 'a links \<Rightarrow> ('a \<Rightarrow> 's \<Rightarrow> bool \<times> 's) \<Rightarrow> 's \<Rightarrow> 's option" where
  "list_for_each head h body s = list_loop (ring_next h) head body (ring_next h head) s"

definition list_for_each_prev :: "'a \<Rightarrow> 'a links \<Rightarrow> ('a \<Rightarrow> 's \<Rightarrow> bool \<times> 's) \<Rightarrow> 's \<Rightarrow> 's option" where
  "list_for_each_prev head h body s = list_loop (ring_prev h) head body (ring_prev h head) s"

definition list_for_each_continue :: "'a \<Rightarrow> 'a \<Rightarrow> 'a links \<Rightarrow> ('a \<Rightarrow> 's \<Rightarrow> bool \<times> 's) \<Rightarrow> 's \<Rightarrow> 's option" where
  "list_for_each_continue pos head h body s = list_loop (ring_next h) head body (ring_next h pos) s"

partial_function (option) safe_loop :: "'a \<Rightarrow> ('a \<Rightarrow> 'a links \<Rightarrow> 'a links) \<Rightarrow> 'a \<Rightarrow> 'a \<Rightarrow> 'a links \<Rightarrow> 'a links option" where
  "safe_loop head body pos n h =
     (if pos = head then Some h else (let h' = body pos h in safe_loop head body n (ring_next h' n) h'))"

definition list_for_each_safe :: "'a \<Rightarrow> ('a \<Rightarrow> 'a links \<Rightarrow> 'a links) \<Rightarrow> 'a links \<Rightarrow> 'a links option" where
  "list_for_each_safe head body h = (let p = ring_next h head in safe_loop head body p (ring_next h p) h)"

section \<open>Hash lists\<close>

text \<open>A pointer to a pointer is the \<open>first\<close> of a head or the \<open>next\<close> of a node.\<close>

datatype ('b, 'a) hplace = First 'b | NextOf 'a

record ('b, 'a) hlinks =
  h_first :: "'b \<Rightarrow> 'a option"
  h_next :: "'a \<Rightarrow> 'a option"
  h_pprev :: "'a \<Rightarrow> ('b, 'a) hplace option"

definition hset_next :: "'a \<Rightarrow> 'a option \<Rightarrow> ('b, 'a) hlinks \<Rightarrow> ('b, 'a) hlinks" where
  "hset_next n v h = h\<lparr>h_next := (h_next h)(n := v)\<rparr>"

definition hset_pprev :: "'a \<Rightarrow> ('b, 'a) hplace option \<Rightarrow> ('b, 'a) hlinks \<Rightarrow> ('b, 'a) hlinks" where
  "hset_pprev n v h = h\<lparr>h_pprev := (h_pprev h)(n := v)\<rparr>"

definition hderef :: "('b, 'a) hplace \<Rightarrow> ('b, 'a) hlinks \<Rightarrow> 'a option" where
  "hderef l h = (case l of First b \<Rightarrow> h_first h b | NextOf a \<Rightarrow> h_next h a)"

definition hstore :: "('b, 'a) hplace \<Rightarrow> 'a option \<Rightarrow> ('b, 'a) hlinks \<Rightarrow> ('b, 'a) hlinks" where
  "hstore l v h = (case l of First b \<Rightarrow> h\<lparr>h_first := (h_first h)(b := v)\<rparr> | NextOf a \<Rightarrow> hset_next a v h)"

definition INIT_HLIST_HEAD :: "'b \<Rightarrow> ('b, 'a) hlinks \<Rightarrow> ('b, 'a) hlinks" where
  "INIT_HLIST_HEAD b h = hstore (First b) None h"

definition INIT_HLIST_NODE :: "'a \<Rightarrow> ('b, 'a) hlinks \<Rightarrow> ('b, 'a) hlinks" where
  "INIT_HLIST_NODE n h = hset_pprev n None (hset_next n None h)"

definition hlist_unhashed :: "'a \<Rightarrow> ('b, 'a) hlinks \<Rightarrow> bool" where
  "hlist_unhashed n h \<longleftrightarrow> h_pprev h n = None"

definition hlist_empty :: "'b \<Rightarrow> ('b, 'a) hlinks \<Rightarrow> bool" where
  "hlist_empty b h \<longleftrightarrow> h_first h b = None"

definition hlist_add_head :: "'a \<Rightarrow> 'b \<Rightarrow> ('b, 'a) hlinks \<Rightarrow> ('b, 'a) hlinks" where
  "hlist_add_head n b h =
     (let first = h_first h b; h1 = hset_next n first h;
          h2 = (case first of None \<Rightarrow> h1 | Some f \<Rightarrow> hset_pprev f (Some (NextOf n)) h1)
      in hset_pprev n (Some (First b)) (hstore (First b) (Some n) h2))"

text \<open>A node outside of a list as the place to insert: its \<open>pprev\<close> is a null pointer, through which the last assignment writes.\<close>

definition hlist_add_before :: "'a \<Rightarrow> 'a \<Rightarrow> ('b, 'a) hlinks \<Rightarrow> ('b, 'a) hlinks option" where
  "hlist_add_before n nx h =
     (let h1 = hset_pprev nx (Some (NextOf n)) (hset_next n (Some nx) (hset_pprev n (h_pprev h nx) h)) in
      map_option (\<lambda>l. hstore l (Some n) h1) (h_pprev h1 n))"

definition hlist_add_after :: "'a \<Rightarrow> 'a \<Rightarrow> ('b, 'a) hlinks \<Rightarrow> ('b, 'a) hlinks" where
  "hlist_add_after n nx h =
     (let h1 = hset_pprev nx (Some (NextOf n)) (hset_next n (Some nx) (hset_next nx (h_next h n) h)) in
      case h_next h1 nx of None \<Rightarrow> h1 | Some f \<Rightarrow> hset_pprev f (Some (NextOf nx)) h1)"

partial_function (option) hlist_loop :: "('b, 'a) hlinks \<Rightarrow> ('a \<Rightarrow> 's \<Rightarrow> bool \<times> 's) \<Rightarrow> 'a option \<Rightarrow> 's \<Rightarrow> 's option" where
  "hlist_loop h body pos s =
     (case pos of
        None \<Rightarrow> Some s
      | Some p \<Rightarrow> (let (leave, s') = body p s in if leave then Some s' else hlist_loop h body (h_next h p) s'))"

definition hlist_for_each :: "'b \<Rightarrow> ('b, 'a) hlinks \<Rightarrow> ('a \<Rightarrow> 's \<Rightarrow> bool \<times> 's) \<Rightarrow> 's \<Rightarrow> 's option" where
  "hlist_for_each b h body s = hlist_loop h body (h_first h b) s"

section \<open>A ring as a list\<close>

text \<open>Successive nodes point at each other; a ring goes from its head through its nodes back to the head, without repetition.\<close>

fun chain :: "'a links \<Rightarrow> 'a list \<Rightarrow> bool" where
  "chain h (a # b # r) \<longleftrightarrow> ring_next h a = b \<and> ring_prev h b = a \<and> chain h (b # r)"
| "chain h r \<longleftrightarrow> True"

definition ring :: "'a links \<Rightarrow> 'a \<Rightarrow> 'a list \<Rightarrow> bool" where
  "ring h head xs \<longleftrightarrow> distinct (head # xs) \<and> chain h (head # xs @ [head])"

lemma chain_split: "chain h (us @ a # vs) \<longleftrightarrow> chain h (us @ [a]) \<and> chain h (a # vs)"
  by (induction us rule: induct_list012) simp_all

lemma chain_cong:
  "(\<And>a. a \<in> set (butlast xs) \<Longrightarrow> ring_next h' a = ring_next h a) \<Longrightarrow> (\<And>a. a \<in> set (tl xs) \<Longrightarrow> ring_prev h' a = ring_prev h a)
   \<Longrightarrow> chain h' xs = chain h xs"
  by (induction h xs rule: chain.induct) auto

lemma link_simps [simp]:
  "ring_next (set_next p q h) = (ring_next h)(p := q)" "ring_prev (set_next p q h) = ring_prev h"
  "ring_prev (set_prev p q h) = (ring_prev h)(p := q)" "ring_next (set_prev p q h) = ring_next h"
  by (simp_all add: set_next_def set_prev_def)

text \<open>The last node before a place, and the first behind it.\<close>

abbreviation "before_place head xs \<equiv> last (head # xs)"
abbreviation "behind_place head ys \<equiv> hd (ys @ [head])"

text \<open>An operation that puts a chain in the place of another, and changes no other link, replaces the nodes in the list.\<close>

lemma ring_patch:
  assumes "ring h head (xs @ ms @ ys)" and "before_place head xs = p" and "behind_place head ys = n"
    and "chain h' (p # zs @ [n])" and "distinct zs" and "set zs \<inter> set (head # xs @ ys) = {}"
    and next_same: "\<And>a. a \<in> set (head # xs @ ys) \<Longrightarrow> a \<noteq> p \<Longrightarrow> ring_next h' a = ring_next h a"
    and prev_same: "\<And>a. a \<in> set (head # xs @ ys) \<Longrightarrow> a \<noteq> n \<Longrightarrow> ring_prev h' a = ring_prev h a"
  shows "ring h' head (xs @ zs @ ys)"
proof -
  define us where "us = butlast (head # xs)"
  have l: "head # xs = us @ [p]" by (simp add: us_def flip: assms(2))
  obtain vs where r: "ys @ [head] = n # vs" using assms(3) by (cases "ys @ [head]") auto
  have d: "distinct (head # xs @ ms @ ys)" and c: "chain h ((us @ [p]) @ ms @ n # vs)"
    using assms(1) unfolding ring_def r [symmetric] l [symmetric] by simp_all
  have "p \<notin> set us" and "n \<notin> set vs" and t: "set us \<subseteq> set (head # xs)" "set vs \<subseteq> set (head # ys)" "p \<in> set (head # xs)" "n \<in> set (head # ys)"
  proof -
    have "distinct (us @ [p])" "distinct (n # vs)" using d unfolding l [symmetric] r [symmetric] by auto
    then show "p \<notin> set us" "n \<notin> set vs" by simp_all
    show "set us \<subseteq> set (head # xs)" "p \<in> set (head # xs)" unfolding l by auto
    have "set (ys @ [head]) = insert n (set vs)" unfolding r by simp
    then show "set vs \<subseteq> set (head # ys)" "n \<in> set (head # ys)" by auto
  qed
  have xs: "tl (us @ [p]) = xs" and ys: "butlast (n # vs) = ys" unfolding l [symmetric] r [symmetric] by simp_all
  have n: "n \<notin> set xs" and p: "p \<notin> set ys"
    using t(3,4) d by (auto dest: disjoint_iff [THEN iffD1])
  have "chain h' (us @ [p])"
  proof -
    have "chain h (us @ [p])" using c by (metis append.assoc append_Cons append_Nil chain_split)
    moreover have "chain h' (us @ [p]) = chain h (us @ [p])"
      using \<open>p \<notin> set us\<close> n t(1) by (intro chain_cong next_same prev_same) (auto simp: xs)
    ultimately show ?thesis by simp
  qed
  moreover have "chain h' (n # vs)"
  proof -
    have "chain h (n # vs)" using c by (metis append.assoc chain_split)
    moreover have "chain h' (n # vs) = chain h (n # vs)"
      using \<open>n \<notin> set vs\<close> p t(2) by (intro chain_cong next_same prev_same) (auto simp: ys simp del: butlast.simps)
    ultimately show ?thesis by simp
  qed
  ultimately have "chain h' (us @ p # zs @ n # vs)"
    using assms(4) chain_split [of h' us p "zs @ n # vs"] chain_split [of h' "p # zs" n vs] by simp
  then have "chain h' ((head # xs) @ zs @ ys @ [head])" unfolding l r by simp
  moreover have "distinct (head # xs @ zs @ ys)" using d assms(5,6) by auto
  ultimately show ?thesis by (simp add: ring_def)
qed

lemma ring_frame:
  assumes "ring h head xs" and "\<And>a. a \<in> set (head # xs) \<Longrightarrow> ring_next h' a = ring_next h a \<and> ring_prev h' a = ring_prev h a"
  shows "ring h' head xs"
proof -
  have "chain h' (head # xs @ [head]) = chain h (head # xs @ [head])"
    using assms(2) by (intro chain_cong) (auto simp: butlast_append split: if_splits)
  then show ?thesis using assms(1) by (simp add: ring_def)
qed

lemma ring_next_prev:
  assumes "ring h head (xs @ x # ys)"
  shows "ring_prev h x = before_place head xs" and "ring_next h x = behind_place head ys"
proof -
  define us p where "us = butlast (head # xs)" and "p = before_place head xs"
  have l: "head # xs = us @ [p]" by (simp add: us_def p_def)
  have "chain h ((head # xs) @ x # ys @ [head])" using assms by (simp add: ring_def)
  then have "chain h (us @ p # x # ys @ [head])" unfolding l by simp
  then have c: "chain h (p # x # ys @ [head])" using chain_split [of h us p] by blast
  then show "ring_prev h x = before_place head xs" by (simp add: p_def)
  show "ring_next h x = behind_place head ys" using c by (cases ys) simp_all
qed

lemma ring_head: "ring h head xs \<Longrightarrow> ring_next h head = behind_place head xs" "ring h head xs \<Longrightarrow> ring_prev h head = before_place head xs"
proof -
  assume r: "ring h head xs"
  then show "ring_next h head = behind_place head xs" by (cases xs) (simp_all add: ring_def)
  show "ring_prev h head = before_place head xs"
  proof (cases xs rule: rev_cases)
    case (snoc ys y)
    have "chain h ((head # ys) @ y # [head])" using r by (simp add: ring_def snoc)
    then have "chain h (y # [head])" using chain_split [of h "head # ys" y "[head]"] by blast
    then show ?thesis by (simp add: snoc)
  qed (use r in \<open>simp add: ring_def\<close>)
qed

section \<open>The operations on rings\<close>

lemma INIT_LIST_HEAD_ring: "ring (INIT_LIST_HEAD head h) head []"
  by (simp add: ring_def INIT_LIST_HEAD_def)

text \<open>The neighbours of a place are nodes of the ring.\<close>

lemma neighbours: "before_place head xs \<in> set (head # xs)" "behind_place head ys \<in> set (head # ys)"
  by (rule last_in_set, simp) (cases ys, simp_all)

lemma list_add_between_ring:
  assumes "ring h head (xs @ ys)" and "n \<notin> set (head # xs @ ys)" and "before_place head xs = p" and "behind_place head ys = q"
  shows "ring (list_add_between n p q h) head (xs @ n # ys)"
proof -
  have ne: "n \<noteq> p" "n \<noteq> q" using assms(2) neighbours(1) [where head = head and xs = xs] neighbours(2) [where head = head and ys = ys] assms(3,4) by auto
  have "ring h head (xs @ [] @ ys)" using assms(1) by simp
  then have "ring (list_add_between n p q h) head (xs @ [n] @ ys)"
    by (rule ring_patch [OF _ assms(3,4)]) (use assms(2) ne in \<open>auto simp: list_add_between_def\<close>)
  then show ?thesis by simp
qed

lemma list_add_ring: "ring h head xs \<Longrightarrow> n \<notin> set (head # xs) \<Longrightarrow> ring (list_add n head h) head (n # xs)"
  using list_add_between_ring [of h head "[]" xs n head "behind_place head xs"] ring_head(1) [of h head xs] by (simp add: list_add_def)

lemma list_add_tail_ring:
  assumes "ring h head xs" and "n \<notin> set (head # xs)"
  shows "ring (list_add_tail n head h) head (xs @ [n])"
  using list_add_between_ring [of h head xs "[]" n "before_place head xs" head] assms ring_head(2) [OF assms(1)]
  unfolding list_add_tail_def by simp

lemma list_remove_ring:
  assumes "ring h head (xs @ x # ys)"
  shows "ring (list_remove x h) head (xs @ ys)"
proof -
  obtain p q where pq: "before_place head xs = p" "behind_place head ys = q" by blast
  have d: "distinct (head # xs @ x # ys)" using assms by (simp add: ring_def)
  then have q: "q \<noteq> x" using neighbours(2) [where head = head and ys = ys] pq(2) by auto
  have e: "list_remove x h = set_next p q (set_prev q p h)"
    using ring_next_prev [OF assms] q unfolding pq by (simp add: list_remove_def Let_def)
  have "ring h head (xs @ [x] @ ys)" using assms by simp
  then have "ring (list_remove x h) head (xs @ [] @ ys)"
    unfolding e by (rule ring_patch [OF _ pq]) auto
  then show ?thesis by simp
qed

lemma list_empty_ring:
  assumes "ring h head xs"
  shows "list_empty head h \<longleftrightarrow> xs = []" and "list_empty_careful head h \<longleftrightarrow> xs = []"
proof -
  have "xs = [] \<longleftrightarrow> ring_next h head = head"
    unfolding ring_head(1) [OF assms] using assms by (cases xs) (auto simp: ring_def)
  moreover have "xs = [] \<Longrightarrow> ring_prev h head = head" unfolding ring_head(2) [OF assms] by simp
  ultimately show "list_empty head h \<longleftrightarrow> xs = []" "list_empty_careful head h \<longleftrightarrow> xs = []"
    by (auto simp: list_empty_def list_empty_careful_def Let_def)
qed

lemma chain_ends:
  assumes "ys \<noteq> []"
  shows "chain h (a # ys @ [b]) \<longleftrightarrow>
    ring_next h a = hd ys \<and> ring_prev h (hd ys) = a \<and> chain h ys \<and> ring_next h (last ys) = b \<and> ring_prev h b = last ys"
proof -
  obtain zs e where e: "ys = zs @ [e]" using assms by (cases ys rule: rev_cases) auto
  obtain f fs where f: "ys = f # fs" using assms by (cases ys) auto
  have "chain h (a # ys @ [b]) \<longleftrightarrow> ring_next h a = f \<and> ring_prev h f = a \<and> chain h (ys @ [b])" by (simp add: f)
  also have "chain h (ys @ [b]) \<longleftrightarrow> chain h ys \<and> chain h [e, b]" using chain_split [of h zs e "[b]"] by (simp add: e)
  finally show ?thesis by (auto simp: f [symmetric] e) (simp_all add: f e [symmetric])
qed

lemma list_splice_at_ring:
  assumes "ring h head xs" and "ring h l ys" and "set (head # xs) \<inter> set (l # ys) = {}" and "ys \<noteq> []"
  shows "ring (list_splice_at l head h) head (ys @ xs)"
proof -
  let ?h = "list_splice_at l head h" and ?n = "behind_place head xs"
  have n: "?n \<in> set (head # xs)" by (cases xs) simp_all
  have y: "hd ys \<in> set ys" "last ys \<in> set ys" using assms(4) by simp_all
  have d: "head \<notin> set ys" "set xs \<inter> set ys = {}" "?n \<notin> set ys" "distinct ys" using assms(2,3) n by (auto simp: ring_def)
  have e: "?h = set_prev ?n (last ys) (set_next (last ys) ?n (set_next head (hd ys) (set_prev (hd ys) head h)))"
    using ring_head(1) [OF assms(1)] ring_head [OF assms(2)] assms(4) by (simp add: list_splice_at_def Let_def)
  have "chain ?h (head # ys @ [?n])"
  proof -
    have "chain h ys" using assms(2,4) by (simp add: ring_def chain_ends)
    moreover have "last ys \<notin> set (butlast ys)" "hd ys \<notin> set (tl ys)"
      using d(4) assms(4) by (metis append_butlast_last_id distinct_butlast not_distinct_conv_prefix in_set_conv_decomp distinct_append distinct.simps(2) disjoint_iff list.set_intros(1), cases ys, simp_all)
    then have "chain ?h ys = chain h ys"
      using d by (intro chain_cong) (auto simp: e dest: in_set_butlastD list.set_sel(2) [OF assms(4)])
    moreover have "hd ys \<noteq> ?n" "last ys \<noteq> head" using y d(1,3) by metis+
    ultimately show ?thesis using assms(4) by (simp add: chain_ends e)
  qed
  moreover have "ring h head ([] @ [] @ xs)" "before_place head [] = head" using assms(1) by simp_all
  ultimately have "ring ?h head ([] @ ys @ xs)"
    by - (rule ring_patch [OF _ _ refl], assumption+, use d y in \<open>auto simp: e\<close>)
  then show ?thesis by simp
qed

section \<open>Traversals\<close>

text \<open>A loop over a list that a body may leave.\<close>

fun walk :: "('a \<Rightarrow> 's \<Rightarrow> bool \<times> 's) \<Rightarrow> 'a list \<Rightarrow> 's \<Rightarrow> 's" where
  "walk body [] s = s"
| "walk body (x # xs) s = (let (leave, s') = body x s in if leave then s' else walk body xs s')"

lemma list_loop_chain:
  "chain h (p # xs @ [head]) \<Longrightarrow> head \<notin> set xs \<Longrightarrow> list_loop (ring_next h) head body (ring_next h p) s = Some (walk body xs s)"
proof (induction xs arbitrary: p s)
  case Nil
  then show ?case by (subst list_loop.simps) simp
next
  case (Cons x xs)
  then show ?case by (subst list_loop.simps) (auto simp: case_prod_beta Let_def)
qed

lemma list_loop_back:
  "chain h (head # xs @ [q]) \<Longrightarrow> head \<notin> set xs \<Longrightarrow> list_loop (ring_prev h) head body (ring_prev h q) s = Some (walk body (rev xs) s)"
proof (induction xs arbitrary: q s rule: rev_induct)
  case Nil
  then show ?case by (subst list_loop.simps) simp
next
  case (snoc x xs)
  have "chain h (head # xs @ [x])" "ring_prev h q = x"
    using snoc.prems(1) chain_split [of h "head # xs" x "[q]"] by simp_all
  then show ?case using snoc by (subst list_loop.simps) (auto simp: case_prod_beta Let_def)
qed

lemma list_for_each_ring:
  assumes "ring h head xs"
  shows "list_for_each head h body s = Some (walk body xs s)" and "list_for_each_prev head h body s = Some (walk body (rev xs) s)"
  using assms list_loop_chain [of h head xs head body s] list_loop_back [of h head xs head body s]
  by (simp_all add: list_for_each_def list_for_each_prev_def ring_def)

lemma list_for_each_continue_ring:
  assumes "ring h head (xs @ x # ys)"
  shows "list_for_each_continue x head h body s = Some (walk body ys s)"
proof -
  have "chain h ((head # xs) @ x # ys @ [head])" "head \<notin> set ys" using assms by (simp_all add: ring_def)
  then show ?thesis using chain_split [of h "head # xs" x "ys @ [head]"] list_loop_chain [of h x ys head body s]
    by (simp add: list_for_each_continue_def)
qed

text \<open>Nodes can be taken out while the safe traversal runs over them.\<close>

lemma safe_loop_removes:
  "ring h head (us @ vs) \<Longrightarrow> \<exists>h'. safe_loop head (\<lambda>p h. if P p then list_remove p h else h) (behind_place head vs) (ring_next h (behind_place head vs)) h = Some h'
     \<and> ring h' head (us @ filter (\<lambda>x. \<not> P x) vs)"
proof (induction vs arbitrary: us h)
  case Nil
  then show ?case by (subst safe_loop.simps) simp
next
  case (Cons v vs)
  let ?body = "\<lambda>p h. if P p then list_remove p h else h"
  have v: "v \<noteq> head" using Cons.prems by (auto simp: ring_def)
  have n: "ring_next h v = behind_place head vs" by (rule ring_next_prev(2) [OF Cons.prems])
  have "\<exists>us'. ring (?body v h) head (us' @ vs) \<and> us' @ filter (\<lambda>x. \<not> P x) vs = us @ filter (\<lambda>x. \<not> P x) (v # vs)"
    using list_remove_ring [OF Cons.prems] Cons.prems by (cases "P v") (auto intro: exI [of _ us] exI [of _ "us @ [v]"])
  then show ?case using Cons.IH [of "?body v h"] v n by (subst safe_loop.simps) (force simp: Let_def)
qed

section \<open>A list that is filled at its end and searched from its start\<close>

locale sequence =
  fixes shape :: "'s \<Rightarrow> 'a list \<Rightarrow> bool"
    and append :: "'a \<Rightarrow> 's \<Rightarrow> 's"
    and visit :: "'s \<Rightarrow> ('a \<Rightarrow> 't \<Rightarrow> bool \<times> 't) \<Rightarrow> 't \<Rightarrow> 't option"
    and free :: "'a \<Rightarrow> bool"
  assumes append_shape: "shape s xs \<Longrightarrow> free x \<Longrightarrow> x \<notin> set xs \<Longrightarrow> shape (append x s) (xs @ [x])"
    and visit_shape: "shape s xs \<Longrightarrow> visit s body t = Some (walk body xs t)"
begin

lemma appended: "shape s xs \<Longrightarrow> distinct (xs @ ns) \<Longrightarrow> list_all free ns \<Longrightarrow> shape (fold append ns s) (xs @ ns)"
proof (induction ns arbitrary: s xs)
  case (Cons n ns)
  then have "shape (append n s) (xs @ [n])" by (intro append_shape) auto
  then show ?case using Cons.IH [of "append n s" "xs @ [n]"] Cons.prems by simp
qed simp

lemma visit_appended:
  "shape s [] \<Longrightarrow> distinct ns \<Longrightarrow> list_all free ns \<Longrightarrow> visit (fold append ns s) body t = Some (walk body ns t)"
  using appended [of s "[]" ns] visit_shape by simp

end

interpretation rings: sequence "\<lambda>h. ring h head" "\<lambda>n. list_add_tail n head" "list_for_each head" "\<lambda>n. n \<noteq> head" for head
  by unfold_locales (simp_all add: list_add_tail_ring list_for_each_ring)

section \<open>The module manager's list\<close>

text \<open>The body of the search of a request's callback, over the nodes in memory: the pointer to the current callback, whether the request was
  processed and the state; \<open>None\<close> when the callback leaves its arrays.\<close>

fun scan_body :: "('c \<Rightarrow> 's \<Rightarrow> (verdict \<times> 's) option) \<Rightarrow> ('a \<Rightarrow> 'c) \<Rightarrow> 'a \<Rightarrow> (bool \<times> 'a option \<times> 's) option \<Rightarrow> bool \<times> (bool \<times> 'a option \<times> 's) option" where
  "scan_body attempt entry pos None = (True, None)"
| "scan_body attempt entry pos (Some (done, cur, s)) =
     (case attempt (entry pos) s of
        None \<Rightarrow> (True, None)
      | Some (VNext, s') \<Rightarrow> (False, Some (False, Some pos, s'))
      | Some (VDone, s') \<Rightarrow> (True, Some (True, Some pos, s'))
      | Some (VStop, s') \<Rightarrow> (True, Some (False, Some pos, s')))"

lemma walk_scan:
  "walk (scan_body attempt entry) vs (Some (False, map_option (\<lambda>i. (us @ vs) ! i) cur, s)) =
    map_option (\<lambda>(d, cur', s'). (d, map_option (\<lambda>i. (us @ vs) ! i) cur', s')) (scan attempt (map entry vs) (length us) cur s)"
proof (induction vs arbitrary: us cur s)
  case (Cons v vs)
  have "(us @ v # vs) ! length us = v" by simp
  then show ?case
    using Cons.IH [of "us @ [v]" "Some (length us)"] by (auto split: option.splits verdict.splits)
qed simp

text \<open>C38: (the manager's list in memory) When callbacks are linked one after the other, at distinct places, to the tail of an initialised head, the traversal over
  the links does exactly what the search of the model does on the list of the callbacks in the order of their registration: it ends,
  and finds the same callback, verdict and state.\<close>

theorem module_list_in_memory:
  assumes "distinct (head # ns)"
  shows "list_for_each head (fold (\<lambda>n. list_add_tail n head) ns (INIT_LIST_HEAD head h)) (scan_body attempt entry) (Some (False, None, s)) =
    Some (map_option (\<lambda>(d, cur, s'). (d, map_option (\<lambda>i. ns ! i) cur, s')) (scan attempt (map entry ns) 0 None s))"
proof -
  have "list_all (\<lambda>n. n \<noteq> head) ns" using assms by (auto simp: list_all_iff)
  then show ?thesis
    using rings.visit_appended [OF INIT_LIST_HEAD_ring, of ns head h "scan_body attempt entry" "Some (False, None, s)"] walk_scan [of attempt entry ns "[]" None s] assms
    by simp
qed

text \<open>Three callbacks, the second of which answers.\<close>

theorem module_list_in_memory_witness:
  "list_for_each (0 :: nat) (fold (\<lambda>n. list_add_tail n 0) [7, 3, 5] (INIT_LIST_HEAD 0 \<lparr>ring_next = id, ring_prev = id\<rparr>)) (scan_body (\<lambda>c s. Some (if c = (30 :: nat) then VDone else VNext, s + c)) (\<lambda>n. 10 * n))
     (Some (False, None, 0)) = Some (Some (True, Some 3, 100))"
  using module_list_in_memory [of 0 "[7, 3, 5]" "\<lparr>ring_next = id, ring_prev = id\<rparr>" "\<lambda>c s. Some (if c = (30 :: nat) then VDone else VNext, s + c)" "\<lambda>n. 10 * n" 0] by simp

text \<open>C39: (the lists are lists) On a ring with the nodes \<open>xs\<close>, adding a new node at the start or the end, removing a node, testing for emptiness,
  moving all nodes of a disjoint ring to the front and traversing in both directions do what these operations do on lists, and
  a traversal during which nodes are removed ends with the ring of the others.\<close>

theorem ring_operations:
  assumes "ring h head xs" and "n \<notin> set (head # xs)" and "ring h l ys" and "set (head # xs) \<inter> set (l # ys) = {}"
  shows "ring (list_add n head h) head (n # xs) \<and> ring (list_add_tail n head h) head (xs @ [n])
    \<and> (x \<in> set xs \<longrightarrow> ring (list_remove x h) head (remove1 x xs))
    \<and> list_empty head h = (xs = []) \<and> list_empty_careful head h = (xs = [])
    \<and> ring (list_splice_init l head h) head (ys @ xs) \<and> ring (list_splice_init l head h) l []
    \<and> list_for_each head h body s = Some (walk body xs s) \<and> list_for_each_prev head h body s = Some (walk body (rev xs) s)
    \<and> (\<exists>h'. list_for_each_safe head (\<lambda>p h. if P p then list_remove p h else h) h = Some h' \<and> ring h' head (filter (\<lambda>x. \<not> P x) xs))"
proof -
  have rm: "ring (list_remove x h) head (remove1 x xs)" if x: "x \<in> set xs"
  proof -
    obtain us vs where u: "xs = us @ x # vs" using x by (meson split_list)
    have "distinct xs" using assms(1) by (simp add: ring_def)
    then have "remove1 x xs = us @ vs" by (simp add: u remove1_append)
    then show ?thesis using list_remove_ring [of h head us x vs] assms(1) by (simp add: u)
  qed
  have sp: "ring (list_splice_init l head h) head (ys @ xs) \<and> ring (list_splice_init l head h) l []"
  proof (cases "ys = []")
    case True
    then show ?thesis using assms(1,3) list_empty_ring(1) [OF assms(3)] by (simp add: list_splice_init_def)
  next
    case False
    have "ring (INIT_LIST_HEAD l (list_splice_at l head h)) head (ys @ xs)"
      by (rule ring_frame [OF list_splice_at_ring [OF assms(1,3,4) False]]) (use assms(3,4) in \<open>auto simp: INIT_LIST_HEAD_def ring_def\<close>)
    then show ?thesis using False list_empty_ring(1) [OF assms(3)] INIT_LIST_HEAD_ring by (simp add: list_splice_init_def)
  qed
  have safe: "\<exists>h'. list_for_each_safe head (\<lambda>p h. if P p then list_remove p h else h) h = Some h' \<and> ring h' head (filter (\<lambda>x. \<not> P x) xs)"
    using safe_loop_removes [of h head "[]" xs P] assms(1) ring_head(1) [OF assms(1)] by (simp add: list_for_each_safe_def Let_def)
  show ?thesis
    by (intro conjI impI rm safe sp [THEN conjunct1] sp [THEN conjunct2] list_add_ring [OF assms(1,2)] list_add_tail_ring [OF assms(1,2)]
        list_empty_ring [OF assms(1)] list_for_each_ring [OF assms(1)])
qed

text \<open>Two rings, the second of which moves to the front of the first.\<close>

definition ex_rings :: "nat links" where
  "ex_rings = \<lparr>ring_next = (\<lambda>_. 0)(0 := 1, 1 := 2, 10 := 11, 11 := 10), ring_prev = (\<lambda>_. 0)(0 := 2, 2 := 1, 10 := 11, 11 := 10)\<rparr>"

theorem ring_operations_witness:
  "ring (list_add 5 0 ex_rings) 0 [5, 1, 2] \<and> ring (list_remove 1 ex_rings) 0 [2] \<and> ring (list_splice_init 10 0 ex_rings) 0 [11, 1, 2]
   \<and> list_for_each_prev 0 ex_rings (\<lambda>n s. (False, s @ [n])) [] = Some [2, 1]"
  using ring_operations [of ex_rings 0 "[1, 2]" 5 10 "[11]" 1 "\<lambda>n s. (False, s @ [n])" "[]" "\<lambda>n. False"]
  by (simp add: ring_def ex_rings_def)

section \<open>A hash list as a list\<close>

text \<open>Each node knows the pointer that points at it.\<close>

fun hseg :: "('b, 'a) hlinks \<Rightarrow> ('b, 'a) hplace \<Rightarrow> 'a list \<Rightarrow> bool" where
  "hseg h l [] \<longleftrightarrow> True"
| "hseg h l (x # xs) \<longleftrightarrow> hderef l h = Some x \<and> h_pprev h x = Some l \<and> hseg h (NextOf x) xs"

fun place_behind :: "('b, 'a) hplace \<Rightarrow> 'a list \<Rightarrow> ('b, 'a) hplace" where
  "place_behind l [] = l"
| "place_behind l (x # xs) = place_behind (NextOf x) xs"

definition hlist :: "('b, 'a) hlinks \<Rightarrow> 'b \<Rightarrow> 'a list \<Rightarrow> bool" where
  "hlist h b xs \<longleftrightarrow> distinct xs \<and> hseg h (First b) xs \<and> hderef (place_behind (First b) xs) h = None"

lemma hlink_simps [simp]:
  "hderef l (hset_pprev n v h) = hderef l h" "h_pprev (hset_next m w h) = h_pprev h" "h_next (hset_pprev n v h) = h_next h"
  "h_first (hset_pprev n v h) = h_first h" "h_first (hset_next m w h) = h_first h" "h_next (hset_next m w h) = (h_next h)(m := w)"
  "h_pprev (hset_pprev n v h) = (h_pprev h)(n := v)" "hderef (NextOf a) h = h_next h a" "hderef (First b) h = h_first h b"
  "hderef l' (hstore l u h) = (if l' = l then u else hderef l' h)" "h_pprev (hstore l u h) = h_pprev h"
  "hderef p (hset_next m w h) = (if p = NextOf m then w else hderef p h)"
  "h_next (hstore l u h) a = (if l = NextOf a then u else h_next h a)" "h_first (hstore l u h) b = (if l = First b then u else h_first h b)"
  by (auto simp: hset_next_def hset_pprev_def hderef_def hstore_def split: hplace.splits)

lemma place_behind_cases: "place_behind l us = (if us = [] then l else NextOf (last us))"
  by (induction us arbitrary: l) auto

lemma hseg_append: "hseg h l (us @ vs) \<longleftrightarrow> hseg h l us \<and> hseg h (place_behind l us) vs"
  by (induction us arbitrary: l) auto

lemma hseg_cong:
  "(\<And>p. p \<in> set (butlast (l # map NextOf xs)) \<Longrightarrow> hderef p h' = hderef p h) \<Longrightarrow> (\<And>x. x \<in> set xs \<Longrightarrow> h_pprev h' x = h_pprev h x)
   \<Longrightarrow> hseg h' l xs = hseg h l xs"
proof (induction xs arbitrary: l)
  case (Cons x xs)
  then have "hseg h' (NextOf x) xs = hseg h (NextOf x) xs" by (intro Cons.IH) auto
  then show ?case using Cons.prems by simp
qed simp

text \<open>What makes an operation the insertion of a node.\<close>

lemma hlist_insert:
  assumes "hlist h b (us @ vs)" and "n \<notin> set (us @ vs)" and "place_behind (First b) us = m"
    and "hderef m h' = Some n" and "h_pprev h' n = Some m" and "h_next h' n = hderef m h" and "vs \<noteq> [] \<Longrightarrow> h_pprev h' (hd vs) = Some (NextOf n)"
    and same: "\<And>p. p \<noteq> m \<Longrightarrow> p \<noteq> NextOf n \<Longrightarrow> hderef p h' = hderef p h" "\<And>x. x \<noteq> n \<Longrightarrow> vs = [] \<or> x \<noteq> hd vs \<Longrightarrow> h_pprev h' x = h_pprev h x"
  shows "hlist h' b (us @ n # vs)"
proof -
  have d: "distinct us" "distinct vs" "set us \<inter> set vs = {}" "n \<notin> set us" "n \<notin> set vs" using assms(1,2) by (auto simp: hlist_def)
  have s: "hseg h (First b) us" "hseg h m vs" "hderef (place_behind m vs) h = None"
    using assms(1) unfolding hlist_def assms(3) [symmetric] by (auto simp: hseg_append place_behind_cases)
  have m: "m = last (First b # map NextOf us)" using assms(3) by (auto simp: place_behind_cases last_map)
  have "distinct (First b # map NextOf us)" using d(1) by (auto simp: distinct_map inj_on_def)
  then have "m \<notin> set (butlast (First b # map NextOf us))"
    unfolding m by (metis append_butlast_last_id distinct_append disjoint_iff list.set_intros(1) list.distinct(1))
  moreover have "NextOf n \<notin> set (butlast (First b # map NextOf us))" using d(4) by (auto dest: in_set_butlastD split: if_splits)
  ultimately have "hseg h' (First b) us = hseg h (First b) us"
    using d by (intro hseg_cong same) (auto dest: list.set_sel(1))
  moreover have "hseg h' (NextOf n) vs \<and> hderef (place_behind (NextOf n) vs) h' = None"
  proof (cases vs)
    case Nil
    then show ?thesis using s(3) assms(6) by simp
  next
    case (Cons v vs')
    have "us \<noteq> [] \<Longrightarrow> last us \<notin> set vs" using d(3) last_in_set [of us] by (metis disjoint_iff)
    then have nm: "NextOf x \<noteq> m" "NextOf x \<noteq> NextOf n" if "x \<in> set vs" for x
      using that d assms(3) by (auto simp: place_behind_cases split: if_splits)
    have "hseg h' (NextOf v) vs' = hseg h (NextOf v) vs'"
    proof (rule hseg_cong)
      fix q :: "('a, 'b) hplace" assume "q \<in> set (butlast (NextOf v # map NextOf vs'))"
      from in_set_butlastD [OF this] show "hderef q h' = hderef q h" using nm by (intro same) (auto simp: Cons)
    qed (use d in \<open>auto simp: Cons intro: same\<close>)
    moreover have "hderef (place_behind (NextOf v) vs') h' = hderef (place_behind (NextOf v) vs') h"
      using nm by (intro same) (auto simp: Cons place_behind_cases)
    ultimately show ?thesis using s(2,3) assms(6,7) by (simp add: Cons)
  qed
  ultimately show ?thesis
    using s(1) d assms(3-5) by (simp add: hlist_def hseg_append place_behind_cases split: if_splits)
qed

lemma hlist_add_head_list:
  assumes "hlist h b xs" and "n \<notin> set xs"
  shows "hlist (hlist_add_head n b h) b (n # xs)"
proof -
  have "h_first h b = (case xs of [] \<Rightarrow> None | f # _ \<Rightarrow> Some f)" using assms(1) by (cases xs) (auto simp: hlist_def)
  then have "hlist (hlist_add_head n b h) b ([] @ n # xs)"
    using assms by (intro hlist_insert [where h = h and m = "First b"]) (cases xs; auto simp: hlist_add_head_def Let_def; fail)+
  then show ?thesis by simp
qed

lemma hlist_add_before_list:
  assumes "hlist h b (us @ x # vs)" and "n \<notin> set (us @ x # vs)"
  shows "\<exists>h'. hlist_add_before n x h = Some h' \<and> hlist h' b (us @ n # x # vs)"
proof -
  define m where "m = place_behind (First b) us"
  have x: "h_pprev h x = Some m" "hderef m h = Some x" using assms(1) by (simp_all add: hlist_def hseg_append m_def)
  have m: "m \<noteq> NextOf n" using assms(2) last_in_set [of us] by (auto simp: m_def place_behind_cases)
  let ?h = "hstore m (Some n) (hset_pprev x (Some (NextOf n)) (hset_next n (Some x) (hset_pprev n (Some m) h)))"
  have e: "hlist_add_before n x h = Some ?h" using x(1) assms(2) by (auto simp: hlist_add_before_def Let_def)
  have "hlist ?h b (us @ n # x # vs)"
    by (rule hlist_insert [where h = h and m = m]) (use assms x m in \<open>auto simp: m_def [symmetric]\<close>)
  then show ?thesis using e by simp
qed

lemma hlist_add_after_list:
  assumes "hlist h b (us @ x # vs)" and "n \<notin> set (us @ x # vs)"
  shows "hlist (hlist_add_after x n h) b (us @ x # n # vs)"
proof -
  have p: "place_behind (First b) (us @ [x]) = NextOf x" by (simp add: place_behind_cases)
  have v: "h_next h x = (case vs of [] \<Rightarrow> None | v # _ \<Rightarrow> Some v)"
    using assms(1) by (cases vs) (auto simp: hlist_def hseg_append place_behind_cases split: if_splits)
  have d: "x \<noteq> n" "distinct (us @ x # vs)" using assms by (auto simp: hlist_def)
  have "hlist (hlist_add_after x n h) b ((us @ [x]) @ n # vs)"
    by (cases vs; rule hlist_insert [where h = h and m = "NextOf x"]; use assms d in \<open>auto simp: hlist_add_after_def Let_def p v\<close>)
  then show ?thesis by simp
qed

text \<open>The traversal visits the nodes in their order.\<close>

lemma hlist_loop_seg:
  "hseg h l xs \<Longrightarrow> hderef (place_behind l xs) h = None \<Longrightarrow> hlist_loop h body (hderef l h) s = Some (walk body xs s)"
proof (induction xs arbitrary: l s)
  case Nil
  then show ?case by (subst hlist_loop.simps) simp
next
  case (Cons x xs)
  have "hlist_loop h body (h_next h x) s' = Some (walk body xs s')" for s' using Cons.IH [of "NextOf x" s'] Cons.prems by simp
  then show ?case using Cons.prems by (subst hlist_loop.simps) (simp add: case_prod_beta Let_def)
qed

text \<open>: (the hash lists are lists) On a hash list with the nodes \<open>us\<close>, \<open>x\<close>, \<open>vs\<close>, a new node is put at the start, before \<open>x\<close> and behind \<open>x\<close> by the
  three operations, the list is not empty and \<open>x\<close> counts as hashed, and the traversal visits the nodes in their order.\<close>

theorem hash_list_operations:
  assumes "hlist h b (us @ x # vs)" and "n \<notin> set (us @ x # vs)"
  shows "hlist (hlist_add_head n b h) b (n # us @ x # vs)
    \<and> (\<exists>h'. hlist_add_before n x h = Some h' \<and> hlist h' b (us @ n # x # vs))
    \<and> hlist (hlist_add_after x n h) b (us @ x # n # vs)
    \<and> \<not> hlist_empty b h \<and> \<not> hlist_unhashed x h
    \<and> hlist_for_each b h body s = Some (walk body (us @ x # vs) s)"
proof -
  have "h_first h b \<noteq> None" using assms(1) by (cases us) (auto simp: hlist_def)
  moreover have "h_pprev h x \<noteq> None" using assms(1) by (simp add: hlist_def hseg_append)
  moreover have "hlist_for_each b h body s = Some (walk body (us @ x # vs) s)"
    using assms(1) hlist_loop_seg [of h "First b" "us @ x # vs" body s] by (simp add: hlist_for_each_def hlist_def)
  ultimately show ?thesis
    using hlist_add_head_list [OF assms] hlist_add_before_list [OF assms] hlist_add_after_list [OF assms]
    by (simp add: hlist_empty_def hlist_unhashed_def)
qed

text \<open>A hash list of two nodes.\<close>

definition ex_hash :: "(unit, nat) hlinks" where
  "ex_hash = \<lparr>h_first = \<lambda>_. Some 1, h_next = (\<lambda>_. None)(1 := Some 2), h_pprev = (\<lambda>_. None)(1 := Some (First ()), 2 := Some (NextOf 1))\<rparr>"

theorem hash_list_operations_witness:
  "hlist (hlist_add_head 3 () ex_hash) () [3, 1, 2] \<and> (\<exists>h'. hlist_add_before 3 2 ex_hash = Some h' \<and> hlist h' () [1, 3, 2])
   \<and> hlist_for_each () ex_hash (\<lambda>n s. (False, s + n)) 0 = Some 3"
  using hash_list_operations [of ex_hash "()" "[1]" 2 "[]" 3 "\<lambda>n s. (False, s + n)" 0]
  by (simp add: hlist_def ex_hash_def)

end
