(* ===== verification/PropServer.thy ===== *)
theory PropServer
  imports AtTok AtModules
begin

text \<open>
  Two more libraries of AT commands: the property server (\<open>modules/libnpipropsrv/npipropsrv.cpp\<close>, whose copy of the tokenizer,
  \<open>eng_attok_test.c\<close>, is that of \<open>AtTok\<close> but for the character it starts at) and the dialling of \<open>modules/libdialppp/pppdial.cpp\<close>, over
  the telephony library, which is a parameter. A text that is not a diag message is copied first; the copy is released through
  a pointer that the tokenizer has moved.
\<close>

section \<open>The property server\<close>

definition at_tok_start_test :: "cursor \<Rightarrow> int \<times> cursor" where
  "at_tok_start_test cur =
     (case cur of
        None \<Rightarrow> (- 1, None)
      | Some s \<Rightarrow> (case strchr s 61 of None \<Rightarrow> (- 1, None) | Some t \<Rightarrow> (0, Some (tl t))))"

text \<open>What the first \<open>strtok\<close> makes of a string, seen from its start: it ends behind the first token.\<close>

definition strtok_cut :: "byte \<Rightarrow> byte list \<Rightarrow> byte list" where
  "strtok_cut c s = takeWhile (\<lambda>b. b = c) s @ takeWhile (\<lambda>b. b \<noteq> c) (dropWhile (\<lambda>b. b = c) s)"

text \<open>The result and the response: untouched when the property has no value.\<close>

definition get_prop_intenal :: "'p prop_service \<Rightarrow> byte list \<Rightarrow> 'p sys \<Rightarrow> mem \<Rightarrow> (int \<times> mem) option" where
  "get_prop_intenal pf prop sys rsp =
     (let v = property_get pf prop [] sys in
      if v = [] then Some (- 1, rsp) else map_option (\<lambda>r. (int (length v), r)) (sprintf rsp v))"

definition ERROR_TEXT :: "byte list" where "ERROR_TEXT = [13, 10] @ cs ''ERROR'' @ [13, 10]"

text \<open>The strings that the cuts shorten lie in the request or in its copy; what a later request finds there is not looked at. A pointer
  behind the token that is not null is released: undefined for a text.\<close>

definition get_prop :: "'p prop_service \<Rightarrow> 'p sys cb_io \<Rightarrow> (int \<times> 'p sys cb_io) option" where
  "get_prop pf io = do {
     b \<leftarrow> rd (cb_buf io) 0;
     p \<leftarrow> cstr_at (cb_buf io) (if b = 0x7E then 9 else 0);
     (let (_, cur) = at_tok_start_test (Some p); (_, arg, cur') = at_tok_nextstr cur in
      case arg of
        None \<Rightarrow> answer_text ERROR_TEXT (int (length ERROR_TEXT)) io
      | Some a \<Rightarrow> do {
          (ret, r) \<leftarrow> get_prop_intenal pf (strtok_cut 10 (strtok_cut 13 (strtok_cut 0x7E a))) (cb_env io) (cb_rsp io);
          (if b \<noteq> 0x7E \<and> cur' \<noteq> None then None
           else if ret \<le> 0 then answer_text ERROR_TEXT (int (length ERROR_TEXT)) (io\<lparr>cb_rsp := r\<rparr>)
           else Some (ret, io\<lparr>cb_rsp := r\<rparr>))
        })
   }"

text \<open>\<open>AT+PROP=0,[key]\<close> and \<open>AT+PROP=1,[key][value]\<close>, as in \<open>libapcomm\<close>, but a second bracket that is missing ends the command.\<close>

definition prop_handler :: "'p prop_service \<Rightarrow> 'p sys cb_io \<Rightarrow> (int \<times> 'p sys cb_io) option" where
  "prop_handler pf io = do {
     b \<leftarrow> rd (cb_buf io) 0;
     (let off = (if b = 0x7E then 9 else 0) in do {
        s \<leftarrow> cstr_at (cb_buf io) off;
        e \<leftarrow> strchr s 61;
        (let cmd = (if length e < 2 then 0 else e ! 1) in do {
           c \<leftarrow> strchr (drop 1 e) 44;
           (if length c < 2 \<or> c ! 1 \<noteq> 91 then Some (- 1, io)
            else do {
              n \<leftarrow> index_of 93 (drop 2 c);
              (let key = take n (drop 2 c);
                   rest = drop (n + 3) c;
                   mark = (\<lambda>m t. if b = 0x7E then wr m (off + (length s - length t)) 0 else Some m)
               in do {
                 buf \<leftarrow> mark (cb_buf io) (drop (n + 2) c);
                 (if cmd = 48 then
                    (let v = property_get pf key (cs ''NOT FOUND'') (cb_env io) in
                     answer_text (ENG_STREND @ (if take 9 v = cs ''NOT FOUND'' then v else cs ''['' @ v @ cs '']'') @ ENG_STREND) 0 (io\<lparr>cb_buf := buf\<rparr>))
                  else if cmd = 49 then
                    (if rest = [] \<or> hd rest \<noteq> 91 then Some (- 1, io\<lparr>cb_buf := buf\<rparr>)
                     else do {
                       k \<leftarrow> index_of 93 (drop 1 rest);
                       buf' \<leftarrow> mark buf (drop (k + 1) rest);
                       (let v = take k (drop 1 rest) in
                        answer_text (ENG_STREND @ cs ''['' @ key @ cs '']['' @ v @ cs '']'' @ ENG_STREND) 0
                          (io\<lparr>cb_buf := buf', cb_env := property_set pf key v (cb_env io)\<rparr>))
                     })
                  else Some (0, io\<lparr>cb_buf := buf\<rparr>))
               })
            })
         })
      })
   }"

definition AT_PROP_OP :: "byte list" where "AT_PROP_OP = cs ''AT+PROP''"
definition AT_GET_PROP_FLAG :: "byte list" where "AT_GET_PROP_FLAG = cs ''at+getprop''"

definition propsrv_updates :: "'p prop_service \<Rightarrow> ('p sys eng_callback \<Rightarrow> 'p sys eng_callback) list" where
  "propsrv_updates pf =
     [\<lambda>c. c\<lparr>at_cmd := AT_GET_PROP_FLAG, eng_linuxcmd_func := Some (get_prop pf)\<rparr>,
      \<lambda>c. c\<lparr>at_cmd := AT_PROP_OP, eng_linuxcmd_func := Some (prop_handler pf)\<rparr>]"

definition register_propsrv :: "'p prop_service \<Rightarrow> 'p sys eng_callback list \<Rightarrow> 'p sys eng_callback list \<times> nat" where
  "register_propsrv pf = fill_entries (propsrv_updates pf)"

section \<open>Dialling\<close>

text \<open>The telephony library's \<open>sendATCmd\<close>: its result, and the state of the telephony afterwards.\<close>

type_synonym 'w atci = "byte list \<Rightarrow> 'w \<Rightarrow> int \<times> 'w"

definition dialPPP :: "'w atci \<Rightarrow> 'w cb_io \<Rightarrow> (int \<times> 'w cb_io) option" where
  "dialPPP sendATCmd io =
     (let (ret, w) = sendATCmd (cs ''START_PPPD'') (cb_env io) in answer_text ([10] @ cs ''CONNECT 296'' @ [13, 10]) ret (io\<lparr>cb_env := w\<rparr>))"

definition beforeDialHandle :: "'w cb_io \<Rightarrow> (int \<times> 'w cb_io) option" where
  "beforeDialHandle io = answer_text ([13, 10] @ cs ''OK'' @ [13, 10]) 0 io"

definition HuangupHandle :: "'w atci \<Rightarrow> 'w cb_io \<Rightarrow> (int \<times> 'w cb_io) option" where
  "HuangupHandle sendATCmd io =
     (let (ret, w) = sendATCmd (cs ''STOP_PPPD'') (cb_env io) in answer_text ([13, 10] @ cs ''OK'' @ [13, 10]) 0 (io\<lparr>cb_env := w\<rparr>))"

definition ppp_updates :: "'w atci \<Rightarrow> ('w eng_callback \<Rightarrow> 'w eng_callback) list" where
  "ppp_updates sendATCmd =
     [\<lambda>c. c\<lparr>at_cmd := cs ''ATD*99#'' @ [13], eng_linuxcmd_func := Some (dialPPP sendATCmd)\<rparr>,
      \<lambda>c. c\<lparr>at_cmd := cs ''AT'' @ [13], eng_linuxcmd_func := Some beforeDialHandle\<rparr>,
      \<lambda>c. c\<lparr>at_cmd := cs ''ATE0V1'' @ [13], eng_linuxcmd_func := Some beforeDialHandle\<rparr>,
      \<lambda>c. c\<lparr>at_cmd := cs ''ATH E1'' @ [13], eng_linuxcmd_func := Some (HuangupHandle sendATCmd)\<rparr>,
      \<lambda>c. c\<lparr>at_cmd := cs ''ATD#777'' @ [13], eng_linuxcmd_func := Some (dialPPP sendATCmd)\<rparr>]"

definition register_ppp :: "'w atci \<Rightarrow> 'w eng_callback list \<Rightarrow> 'w eng_callback list \<times> nat" where
  "register_ppp sendATCmd = fill_entries (ppp_updates sendATCmd)"

section \<open>A property that is set is read back by both commands\<close>

lemma cstr_text: "0 \<notin> set s \<Longrightarrow> cstr_at (s @ 0 # x) 0 = Some s"
proof -
  assume "0 \<notin> set s"
  then have "takeWhile (\<lambda>b. b \<noteq> 0) (s @ 0 # x) = s" by (subst takeWhile_append2) auto
  then show ?thesis by (simp add: cstr_at_def)
qed

lemma answer_text_ok:
  assumes "length s < length (cb_rsp io)" and "0 \<notin> set s"
  shows "\<exists>r. answer_text s n io = Some (n, io\<lparr>cb_rsp := r\<rparr>) \<and> cstr_at r 0 = Some s"
  using assms by (intro exI [of _ "s @ 0 # drop (length s + 1) (cb_rsp io)"]) (simp add: answer_text_def sprintf_def put_def cstr_text)

lemma index_of_prefix: "c \<notin> set s \<Longrightarrow> index_of c (s @ c # t) = Some (length s)"
proof -
  assume "c \<notin> set s"
  then have "takeWhile (\<lambda>b. b \<noteq> c) (s @ c # t) = s" by (subst takeWhile_append2) auto
  then show ?thesis by (simp add: index_of_def)
qed

lemma strtok_cut_at:
  assumes "c \<notin> set s" and "s \<noteq> []"
  shows "strtok_cut c s = s" and "strtok_cut c (s @ c # t) = s"
proof -
  obtain b r where s: "s = b # r" using assms(2) by (cases s) auto
  have "takeWhile (\<lambda>b. b \<noteq> c) s = s" using assms(1) by (auto simp: takeWhile_eq_all_conv)
  moreover have "takeWhile (\<lambda>b. b \<noteq> c) (s @ c # t) = s" by (subst takeWhile_append2) (use assms(1) in auto)
  ultimately show "strtok_cut c s = s" "strtok_cut c (s @ c # t) = s" using assms(1) by (auto simp: strtok_cut_def s)
qed

text \<open>The two forms of the property command on a text.\<close>

lemma prop_handler_query:
  assumes "0 \<notin> set k" and "93 \<notin> set k"
  shows "prop_handler pf \<lparr>cb_buf = cs ''AT+PROP=0,['' @ k @ 93 # 0 # x, cb_rsp = rsp, cb_env = w\<rparr> =
    (let v = property_get pf k (cs ''NOT FOUND'') w in
     answer_text (ENG_STREND @ (if take 9 v = cs ''NOT FOUND'' then v else cs ''['' @ v @ cs '']'') @ ENG_STREND) 0
       \<lparr>cb_buf = cs ''AT+PROP=0,['' @ k @ 93 # 0 # x, cb_rsp = rsp, cb_env = w\<rparr>)"
proof -
  have c: "cstr_at (cs ''AT+PROP=0,['' @ k @ 93 # 0 # x) 0 = Some (cs ''AT+PROP=0,['' @ k @ [93])"
    using cstr_text [of "cs ''AT+PROP=0,['' @ k @ [93]" x] assms(1) by simp
  show ?thesis
    using c index_of_prefix [OF assms(2), of "[]"] by (simp add: prop_handler_def rd_def Let_def)
qed

lemma prop_handler_set:
  assumes "0 \<notin> set k" and "93 \<notin> set k" and "0 \<notin> set v" and "93 \<notin> set v"
  shows "prop_handler pf \<lparr>cb_buf = cs ''AT+PROP=1,['' @ k @ [93, 91] @ v @ 93 # 0 # x, cb_rsp = rsp, cb_env = w\<rparr> =
    answer_text (ENG_STREND @ cs ''['' @ k @ cs '']['' @ v @ cs '']'' @ ENG_STREND) 0
      \<lparr>cb_buf = cs ''AT+PROP=1,['' @ k @ [93, 91] @ v @ 93 # 0 # x, cb_rsp = rsp, cb_env = property_set pf k v w\<rparr>"
proof -
  have c: "cstr_at (cs ''AT+PROP=1,['' @ k @ [93, 91] @ v @ 93 # 0 # x) 0 = Some (cs ''AT+PROP=1,['' @ k @ [93, 91] @ v @ [93])"
    using cstr_text [of "cs ''AT+PROP=1,['' @ k @ [93, 91] @ v @ [93]" x] assms(1,3) by simp
  have d: "drop (length k + 3) (44 # 91 # k @ 93 # z) = z" for z :: "byte list" by (simp add: numeral_3_eq_3)
  show ?thesis
    using c index_of_prefix [OF assms(2), of "91 # v @ [93]"] index_of_prefix [OF assms(4), of "[]"] d [of "91 # v @ [93]"]
    by (simp add: prop_handler_def rd_def Let_def del: drop_drop)
qed

text \<open>A key that the tokenizer and the cuts leave as it is.\<close>

definition plain_key :: "byte list \<Rightarrow> bool" where
  "plain_key k \<longleftrightarrow> k \<noteq> [] \<and> \<not> is_space (hd k) \<and> hd k \<noteq> 34 \<and> set k \<inter> {0, 10, 13, 44, 93, 0x7E} = {}"

lemma get_prop_text:
  assumes "plain_key k"
  shows "get_prop pf \<lparr>cb_buf = cs ''at+getprop='' @ k @ 13 # 0 # x, cb_rsp = rsp, cb_env = w\<rparr> =
    (let v = property_get pf k [] w; io = \<lparr>cb_buf = cs ''at+getprop='' @ k @ 13 # 0 # x, cb_rsp = rsp, cb_env = w\<rparr> in
     if v = [] then answer_text ERROR_TEXT 9 io else answer_text v (int (length v)) io)"
proof -
  obtain b r where b: "k = b # r" using assms by (cases k) (auto simp: plain_key_def)
  have k: "0 \<notin> set k" "10 \<notin> set k" "13 \<notin> set k" "44 \<notin> set k" "0x7E \<notin> set k" "k \<noteq> []" using assms by (auto simp: plain_key_def)
  have c: "cstr_at (cs ''at+getprop='' @ k @ 13 # 0 # x) 0 = Some (cs ''at+getprop='' @ k @ [13])"
    using cstr_text [of "cs ''at+getprop='' @ k @ [13]" x] k(1) by simp
  have "dropWhile is_space (k @ [13]) = k @ [13]" "hd (k @ [13]) \<noteq> 34" using assms by (simp_all add: plain_key_def b)
  moreover have "takeWhile (\<lambda>c. c \<noteq> 44) (k @ [13]) = k @ [13]" "dropWhile (\<lambda>c. c \<noteq> 44) (k @ [13]) = []"
    using k(4) by (auto simp: takeWhile_eq_all_conv dropWhile_eq_Nil_conv)
  ultimately have tok: "at_tok_nextstr (Some (k @ [13])) = (0, Some (k @ [13]), None)"
    by (simp add: at_tok_nextstr_def nextTok_def skipWhiteSpace_def strsep_def)
  have cut: "strtok_cut 10 (strtok_cut 13 (strtok_cut 0x7E (k @ [13]))) = k"
    using strtok_cut_at(1) [of "0x7E" "k @ [13]"] strtok_cut_at(2) [of 13 k "[]"] strtok_cut_at(1) [of 10 k] k by simp
  have e: "length ERROR_TEXT = 9" by (simp add: ERROR_TEXT_def)
  show ?thesis
    using c tok cut e
    by (cases "property_get pf k [] w = []"; cases "sprintf rsp (property_get pf k [] w)")
      (simp_all add: get_prop_def rd_def at_tok_start_test_def get_prop_intenal_def Let_def answer_text_def)
qed

text \<open>The answer to the setting of a property: it does not depend on the service at all, which may refuse the value.\<close>

lemma prop_server_set_ignored:
  assumes "0 \<notin> set k" and "93 \<notin> set k" and "0 \<notin> set v" and "93 \<notin> set v" and "length k + length v + 8 < length rsp"
  shows "\<exists>io. prop_handler pf \<lparr>cb_buf = cs ''AT+PROP=1,['' @ k @ [93, 91] @ v @ 93 # 0 # x, cb_rsp = rsp, cb_env = w\<rparr> = Some (0, io)
    \<and> cb_env io = property_set pf k v w \<and> cstr_at (cb_rsp io) 0 = Some (ENG_STREND @ cs ''['' @ k @ cs '']['' @ v @ cs '']'' @ ENG_STREND)"
  using answer_text_ok [of "ENG_STREND @ cs ''['' @ k @ cs '']['' @ v @ cs '']'' @ ENG_STREND" "\<lparr>cb_buf = cs ''AT+PROP=1,['' @ k @ [93, 91] @ v @ 93 # 0 # x, cb_rsp = rsp, cb_env = property_set pf k v w\<rparr>" 0] assms
  unfolding prop_handler_set [OF assms(1-4)] by (auto simp: ENG_STREND_def)

text \<open>C40 (a property that is set is read back): for a property that the service lets the daemon set - not a \<open>ro.\<close> one, and a
  value shorter than 92 bytes - the command that sets it, the command that asks for it and \<open>at+getprop\<close> are answered in turn:
  with the key and the value in brackets, with the value in brackets, and with the value itself. (For any other property the
  first answer is the same, because the result of \<open>property_set\<close> is not looked at, see \<open>prop_server_set_ignored\<close>.)\<close>

theorem prop_server_roundtrip:
  assumes "prop_laws may pf" and "settable may k v" and "plain_key k" and "v \<noteq> []" and "set v \<inter> {0, 93} = {}" and "take 9 v \<noteq> cs ''NOT FOUND''"
    and "length k + length v + 8 < length rsp" and "length v + 6 < length rsp'" and "length v < length rsp''"
  shows "\<exists>io io' io''. prop_handler pf \<lparr>cb_buf = cs ''AT+PROP=1,['' @ k @ [93, 91] @ v @ 93 # 0 # x, cb_rsp = rsp, cb_env = w\<rparr> = Some (0, io)
    \<and> cstr_at (cb_rsp io) 0 = Some (ENG_STREND @ cs ''['' @ k @ cs '']['' @ v @ cs '']'' @ ENG_STREND)
    \<and> prop_handler pf \<lparr>cb_buf = cs ''AT+PROP=0,['' @ k @ 93 # 0 # x', cb_rsp = rsp', cb_env = cb_env io\<rparr> = Some (0, io')
    \<and> cstr_at (cb_rsp io') 0 = Some (ENG_STREND @ cs ''['' @ v @ cs '']'' @ ENG_STREND)
    \<and> get_prop pf \<lparr>cb_buf = cs ''at+getprop='' @ k @ 13 # 0 # x'', cb_rsp = rsp'', cb_env = cb_env io'\<rparr> = Some (int (length v), io'')
    \<and> cstr_at (cb_rsp io'') 0 = Some v"
proof -
  have k: "0 \<notin> set k" "93 \<notin> set k" and v: "0 \<notin> set v" "93 \<notin> set v" using assms(3,5) by (auto simp: plain_key_def)
  let ?w = "property_set pf k v w"
  have g: "property_get pf k d ?w = v" for d using assms(4) prop_laws_same [OF assms(1,2)] by (simp add: property_get_def property_set_def)
  obtain r where r: "prop_handler pf \<lparr>cb_buf = cs ''AT+PROP=1,['' @ k @ [93, 91] @ v @ 93 # 0 # x, cb_rsp = rsp, cb_env = w\<rparr> =
      Some (0, \<lparr>cb_buf = cs ''AT+PROP=1,['' @ k @ [93, 91] @ v @ 93 # 0 # x, cb_rsp = r, cb_env = ?w\<rparr>)"
    "cstr_at r 0 = Some (ENG_STREND @ cs ''['' @ k @ cs '']['' @ v @ cs '']'' @ ENG_STREND)"
    using answer_text_ok [of "ENG_STREND @ cs ''['' @ k @ cs '']['' @ v @ cs '']'' @ ENG_STREND" "\<lparr>cb_buf = cs ''AT+PROP=1,['' @ k @ [93, 91] @ v @ 93 # 0 # x, cb_rsp = rsp, cb_env = ?w\<rparr>" 0] k v assms(7)
    unfolding prop_handler_set [OF k v] by (auto simp: ENG_STREND_def)
  obtain r' where r': "prop_handler pf \<lparr>cb_buf = cs ''AT+PROP=0,['' @ k @ 93 # 0 # x', cb_rsp = rsp', cb_env = ?w\<rparr> =
      Some (0, \<lparr>cb_buf = cs ''AT+PROP=0,['' @ k @ 93 # 0 # x', cb_rsp = r', cb_env = ?w\<rparr>)"
    "cstr_at r' 0 = Some (ENG_STREND @ cs ''['' @ v @ cs '']'' @ ENG_STREND)"
    using answer_text_ok [of "ENG_STREND @ cs ''['' @ v @ cs '']'' @ ENG_STREND" "\<lparr>cb_buf = cs ''AT+PROP=0,['' @ k @ 93 # 0 # x', cb_rsp = rsp', cb_env = ?w\<rparr>" 0] v assms(6,8)
    unfolding prop_handler_query [OF k] g Let_def by (auto simp: ENG_STREND_def)
  obtain r'' where "get_prop pf \<lparr>cb_buf = cs ''at+getprop='' @ k @ 13 # 0 # x'', cb_rsp = rsp'', cb_env = ?w\<rparr> =
      Some (int (length v), \<lparr>cb_buf = cs ''at+getprop='' @ k @ 13 # 0 # x'', cb_rsp = r'', cb_env = ?w\<rparr>)" "cstr_at r'' 0 = Some v"
    using answer_text_ok [of v "\<lparr>cb_buf = cs ''at+getprop='' @ k @ 13 # 0 # x'', cb_rsp = rsp'', cb_env = ?w\<rparr>" "int (length v)"] v assms(4,9)
    unfolding get_prop_text [OF assms(3)] g Let_def by auto
  then show ?thesis using r r' by (metis cb_io.select_convs(2,3))
qed

text \<open>A property service that is a function, and a property of it.\<close>

definition ex_props :: "(byte list \<Rightarrow> byte list) prop_service" where
  "ex_props = \<lparr>ps_get = \<lambda>k p. p k, ps_set = \<lambda>k v p. p(k := v)\<rparr>"

theorem prop_server_roundtrip_witness:
  "\<exists>io io' io''. prop_handler ex_props \<lparr>cb_buf = cs ''AT+PROP=1,[sys.mode][cali]'' @ [0], cb_rsp = replicate 64 0, cb_env = sample_sys\<rparr> = Some (0, io)
    \<and> prop_handler ex_props \<lparr>cb_buf = cs ''AT+PROP=0,[sys.mode]'' @ [0], cb_rsp = replicate 64 0, cb_env = cb_env io\<rparr> = Some (0, io')
    \<and> get_prop ex_props \<lparr>cb_buf = cs ''at+getprop=sys.mode'' @ [13, 0], cb_rsp = replicate 64 0, cb_env = cb_env io'\<rparr> = Some (4, io'')
    \<and> cstr_at (cb_rsp io'') 0 = Some (cs ''cali'')"
proof -
  have "prop_laws (\<lambda>k. k = cs ''sys.mode'') ex_props" by (simp add: prop_laws_def ex_props_def)
  moreover have "settable (\<lambda>k. k = cs ''sys.mode'') (cs ''sys.mode'') (cs ''cali'')" by (simp add: settable_def PROPERTY_VALUE_MAX_def)
  moreover have "plain_key (cs ''sys.mode'')" by (simp add: plain_key_def is_space_def)
  ultimately show ?thesis
    using prop_server_roundtrip [where may = "\<lambda>k. k = cs ''sys.mode''" and pf = ex_props and k = "cs ''sys.mode''" and v = "cs ''cali''" and rsp = "replicate 64 0" and rsp' = "replicate 64 0"
        and rsp'' = "replicate 64 0" and x = "[]" and x' = "[]" and x'' = "[]" and w = sample_sys] by simp blast
qed

end
