(* ===== verification/Spec2Isabelle.thy ===== *)
theory Spec2Isabelle
  imports Prelude Base Stuffing Protol DiagProto SmpProto Port Module Config Device Trans Channel
    Adapter CpCtl TimeSync Usb EngCtl Daemon Crc16 Files MiscData CLib AtTok BtWifi RadioTest RadioCmd PQXml PQGamma PQBld PQCms PQAbc PQTune TsxData TraceDump
    Sysfs Charge TSensor NodeModules MmiResult FtMode AtModules Dcxo Client Gpio PowerModules ListHead PropServer
begin

text \<open>
  A model of the \<^bold>\<open>engpc\<close> daemon (\<open>server/\<close>), its command-line client (\<open>client/\<close>) and the libraries of
  requests it loads (\<open>modules/\<close>). The daemon relays data between the ports of a host PC, of the modem (\<open>cp\<close>), of the WCN
  chip and of the audio DSP; a part of the requests it answers itself through the modules, and it switches the destinations
  of the logs.

  \<^bold>\<open>The parts and how they interact.\<close> A port (\<open>CPort\<close>) is a device file with a client count and two
  enable switches; a device (\<open>CDev\<close>) has ports per boot mode; a channel (\<open>CChnl\<close>) names a source and a
  destination port. Starting a channel creates a thread (\<open>CChnlThread\<close>) per source port, which runs
  the loop of \<open>CTrans\<close>: read a frame, offer a decoded copy to the module manager (\<open>CModuleMgr\<close>), send
  the encoded answer back to the source or the untouched request on to the destination. What a frame
  is, and how an answer is encoded, is decided by the protocol class of the data type. Two more
  threads serve log switching and time synchronisation (\<open>CCPCtl\<close>), one the control socket (\<open>CEngCtl\<close>, to which the client
  sends its structure), one the USB uevents; \<open>main\<close> starts everything. A module is a shared object with one function
  \<open>register_this_module_ext\<close>, which fills an array of callbacks; a callback gets the request and the response buffer.

  \<^bold>\<open>Theories and sources: the daemon and its client.\<close>
  \<^item> Prelude: byte arrays with checked accesses, C strings, little-endian fields, \<open>printf\<close>'s \<open>%d\<close>.
  \<^item> Base: the enumerations of \<open>include/dev.h\<close>, \<open>include/channel.h\<close> and \<open>CBase\<close>'s conversions.
  \<^item> Stuffing: the abstract byte stuffing, as the locale \<open>framing\<close> and its instance \<open>stuffing\<close>.
  \<^item> Protol, DiagProto, SmpProto: the state of \<open>CTrans\<close> and the protocols \<open>CProtolDiag\<close>, \<open>CProtolAT\<close>,
    \<open>CProtolSmp\<close>, with the shift loops over the channel buffer as in the code.
  \<^item> Port: \<open>CPort\<close>. Locale \<open>counted_handle\<close>, instance \<open>clients\<close>.
  \<^item> Module: \<open>CModuleMgr\<close>. Locale \<open>responders\<close>, instances \<open>diag_scan\<close> and \<open>at_scan\<close>; the lemmas by which a library's
    callbacks are found once it is loaded.
  \<^item> ListHead: the intrusive rings and hash lists of \<open>sprd_fts_inc/sprd_fts_list.h\<close>, on a memory of links. Locale \<open>sequence\<close>, instance
    \<open>rings\<close>.
  \<^item> Config, Device, Channel: \<open>EngConf\<close>, \<open>CDev\<close>, \<open>CDevMgr\<close>, \<open>CChnl\<close>, \<open>CChnlMgr\<close>. Locale \<open>registry\<close>, instances
    \<open>devs\<close> and \<open>chnls\<close>.
  \<^item> Trans: \<open>CChnlThread\<close>, \<open>CChnlThreadMgr\<close>, the four data classes and the loop \<open>CTrans::trans\<close>.
  \<^item> Adapter, Usb: the Android adapter, \<open>common/usb.cpp\<close>, \<open>common/bootmode.cpp\<close>.
  \<^item> CpCtl, TimeSync: \<open>common/cpctl.cpp\<close>, in two halves.
  \<^item> EngCtl: \<open>common/englog.cpp\<close> and \<open>common/engctl.cpp\<close>; Client: \<open>client/\<close>; Daemon: \<open>main.cpp\<close>.

  \<^bold>\<open>Theories and sources: the modules.\<close>
  \<^item> Crc16, Files, MiscData, BtWifi: \<open>libmiscdata\<close>, that is the checksum, the misc data partition and files, the product control requests,
    the phase check, the addresses and the IMEI. Locale \<open>block_store\<close>, instance \<open>misc\<close>.
  \<^item> CLib: \<open>strtol\<close>, \<open>strtoul\<close> and \<open>%02x\<close>; AtTok, RadioTest, RadioCmd: \<open>libFactoryRadioTest\<close>.
  \<^item> PQXml, PQGamma, PQBld, PQCms, PQAbc, PQTune: the picture-quality library \<open>PQTune\<close>, its documents, the parsers of every chip, its
    cores, commands and registration. Locales \<open>xml_section\<close>, \<open>two_sections\<close>, \<open>block_parser\<close>; a search through a document that need
    not end is a \<open>partial_function\<close>.
  \<^item> TsxData (locale \<open>tsx_table\<close>), TraceDump, MmiResult, FtMode: files and partitions behind requests.
  \<^item> Sysfs: text in device nodes; Charge, TSensor, NodeModules, Dcxo, Gpio: the modules over such nodes, that is charger and thermistor, the
    temperature sensor of the PMIC, regulators, type-C, touch screen, chip id and efuse, the crystal's calibration, the pins with the
    tables of all platforms.
  \<^item> AtModules: \<open>libcomcontrol\<close> and the properties of \<open>libapcomm\<close>; PropServer: \<open>libnpipropsrv\<close> and \<open>libdialppp\<close>; PowerModules: restart, switching off and deep sleep.

  \<^bold>\<open>State and operations.\<close> Each class is a record with the names of its members; a method is a function
  from the record (and its arguments) to the result and the new record. A module's handler is a function of \<open>cb_io\<close>: the request, the
  response and an environment, which holds the module's static variables and what it works on. Pointers to ports and
  threads are indices into the lists of the record \<open>world\<close>. Results that C++ leaves undefined, such
  as an access outside an array, are \<open>None\<close>, or \<open>UB\<close> where a call may also block for ever (type
  \<open>call\<close>). What the system reports (\<open>select\<close>, \<open>read\<close>, \<open>write\<close>, \<open>open\<close>, \<open>poll\<close>, the clocks, directory entries) is input: lists of
  events or functions; a loop that waits for an event that never comes is \<open>Blocked\<close>, or \<open>None\<close> of a \<open>partial_function\<close>. Code outside
  the repository is a parameter, with the documented behaviour that a theorem relies on as a named hypothesis: the property service
  (\<open>prop_laws\<close>, of the properties that may be set and values that it takes; it refuses all others), libxml (\<open>xml_laws\<close>), the drivers
  behind device nodes, slogmodem, modemd, the Bluetooth test library. Of the PMIC behind \<open>pmic_driver\<close> a part of the registers may be
  write protected until the lock is opened; of the driver behind \<open>autotest_driver\<close> nothing is assumed but that a request is what
  was written. Each such hypothesis is instantiated in a witness.

  \<^bold>\<open>Bounds.\<close> Recursion over the lists of events bounds the loops that run for ever, so the theorems about them say what any number of
  turns does. Loops that the code bounds have its bound (16 readings, 300 looks at the USB node). No other fuel is used. The
  channel buffer's capacity is a parameter (65536 in the code). The build is the 32-bit one, with unsigned characters; its
  switches (NAND flash, audio hardware, old kernel, language) are arguments.

  \<^bold>\<open>What the lemmas show.\<close> The protocol theories prove what the in-place loops compute against
  \<open>escape\<close>, \<open>unescape\<close> and \<open>frame\<close>, including the cases in which they leave the buffer. Theory Port proves
  reading, writing, reopening and the client count; Module the search for a callback and the pending
  answer; ListHead that the ring of links in memory, in which the manager keeps its callbacks, is searched like the list of the model; Config and Device the tables; Trans composes them into what the host and the modem receive;
  Channel and Daemon show that every channel of the boot mode gets a started thread and that no port gets two readers; CpCtl and TimeSync the log switch (which goes by slogmodem having answered, whatever the answer),
  its AT command and the fate of a lost connection; Client what a command line does to the daemon's threads. The theories of the modules
  prove that what is written (addresses, phase check data, test results, tables, calibration values) is read back, that
  values arrive within their bounds, that a test restores the state it changed, which requests a test makes of its driver, which requests are refused, that the parsers copy each
  section to its place, and which loops end.

  \<^bold>\<open>Not modelled.\<close> Threads are steps of one sequential state: locks and races are left out. The drawing code \<open>PQTune/Minui\<close> talks to a
  graphics driver; \<open>fm\<close>, which no build file names, is fixed texts around calls of the radio's library, \<open>libucpubench\<close> measures child processes, and the
  size of the flash memory in \<open>libapcomm\<close> is computed in floating point. \<open>diagdef.h\<close> and \<open>sc2730_glb.h\<close> are lists of constants of which the
  entries in use are modelled where they are used. The kaios
  and yunos adapters repeat the functions of the Android one. The vectors of \<open>eng_vector.h\<close> are HOL lists; of \<open>sprd_fts_list.h\<close> only the
  arithmetic from a node to its structure is left out. Logging, terminal settings and sleeps are output or waiting only.

  \<^bold>\<open>Plan.\<close> What is left to add is the thread of the radio test that logs unsolicited lines, and the log locations of the other
  adapters.
\<close>

end
